(* ===== verification/Prelude.thy ===== *)
theory Prelude
  imports Main "HOL-Library.AList" "HOL-Library.Char_ord" "HOL-Library.List_Lexorder"
    "HOL-Library.Product_Lexorder"
begin

text \<open>
  Shared vocabulary of the development: the Python values the backend handles (strings, JSON
  documents, naive datetimes), the collections of hints, and generic lemmas about rows of a
  table, first-match search and duplicate removal that every component uses.

  A Python \<open>str\<close> that the code only compares, strips, lower-cases or parses is a HOL
  \<open>string\<close>: one \<open>char\<close> per character, read as the Latin-1 code point. Message texts, whose
  characters the code counts in UTF-16 units, are lists of code points instead (\<open>ptext\<close>).
  A fixed Chinese text of the source is an ASCII tag that stands for it.
\<close>

named_theorems row_simps \<open>facts about updates of the rows of a table\<close>
named_theorems clock_simps \<open>unfoldings of the time arithmetic\<close>

type_synonym ptext = "nat list"
type_synonym datetime = int

section \<open>Time\<close>

text \<open>A naive \<open>datetime\<close> is its number of microseconds; Unix timestamps are seconds.\<close>

definition secs :: "int \<Rightarrow> int" where
  [clock_simps]: "secs n = n * 1000000"

definition hours :: "int \<Rightarrow> int" where
  [clock_simps]: "hours n = secs (n * 3600)"

definition days :: "int \<Rightarrow> int" where
  [clock_simps]: "days n = secs (n * 86400)"

text \<open>\<open>int(x)\<close> of a float that is a number of microseconds over \<open>10^6\<close>: towards zero.\<close>

definition trunc_secs :: "int \<Rightarrow> int" where
  "trunc_secs d = (if 0 \<le> d then d div 1000000 else - ((- d) div 1000000))"

definition timestamp :: "datetime \<Rightarrow> int" where
  "timestamp t = trunc_secs t"

section \<open>Python strings\<close>

definition code :: "char \<Rightarrow> nat" where
  "code c = of_char c"

definition is_space :: "char \<Rightarrow> bool" where
  "is_space c = (let n = code c in
     (9 \<le> n \<and> n \<le> 13) \<or> (28 \<le> n \<and> n \<le> 32) \<or> n = 133 \<or> n = 160)"

definition strip :: "string \<Rightarrow> string" where
  "strip s = rev (dropWhile is_space (rev (dropWhile is_space s)))"

definition lower_char :: "char \<Rightarrow> char" where
  "lower_char c = (let n = code c in
     if (65 \<le> n \<and> n \<le> 90) \<or> (192 \<le> n \<and> n \<le> 222 \<and> n \<noteq> 215) then char_of (n + 32) else c)"

definition lower :: "string \<Rightarrow> string" where
  "lower s = map lower_char s"

text \<open>\<open>str.upper\<close>, except for the letters whose capital is not a Latin-1 character.\<close>

definition upper_char :: "char \<Rightarrow> char" where
  "upper_char c = (let n = code c in
     if (97 \<le> n \<and> n \<le> 122) \<or> (224 \<le> n \<and> n \<le> 254 \<and> n \<noteq> 247) then char_of (n - 32) else c)"

definition upper :: "string \<Rightarrow> string" where
  "upper s = map upper_char s"

definition is_digit :: "char \<Rightarrow> bool" where
  "is_digit c = (48 \<le> code c \<and> code c \<le> 57)"

text \<open>\<open>int(s)\<close>: surrounding blanks, a sign, digits with single underscores between them.\<close>

fun digits_value :: "bool \<Rightarrow> int \<Rightarrow> string \<Rightarrow> int option" where
  "digits_value prev acc [] = (if prev then Some acc else None)"
| "digits_value prev acc (c # cs) =
     (if is_digit c then digits_value True (10 * acc + (int (code c) - 48)) cs
      else if c = CHR ''_'' \<and> prev then digits_value False acc cs
      else None)"

definition int_of_str :: "string \<Rightarrow> int option" where
  "int_of_str s =
     (case strip s of
        [] \<Rightarrow> None
      | c # cs \<Rightarrow>
          if c = CHR ''-'' then map_option uminus (digits_value False 0 cs)
          else if c = CHR ''+'' then digits_value False 0 cs
          else digits_value False 0 (c # cs))"

fun show_nat :: "nat \<Rightarrow> string" where
  "show_nat n =
     (if n < 10 then [char_of (48 + n)] else show_nat (n div 10) @ [char_of (48 + n mod 10)])"

declare show_nat.simps [simp del]

definition show_int :: "int \<Rightarrow> string" where
  "show_int i = (if i < 0 then ''-'' @ show_nat (nat (- i)) else show_nat (nat i))"

text \<open>\<open>s[:n]\<close> for a non-negative \<open>n\<close>, and the prefix test of \<open>str.startswith\<close>.\<close>

definition starts_with :: "string \<Rightarrow> string \<Rightarrow> bool" where
  "starts_with p s = (take (length p) s = p)"

fun contains :: "string \<Rightarrow> string \<Rightarrow> bool" where
  "contains k [] = (k = [])"
| "contains k (c # cs) = (starts_with k (c # cs) \<or> contains k cs)"

text \<open>\<open>str.split()\<close> followed by \<open>" ".join\<close>.\<close>

fun words_of :: "string \<Rightarrow> string \<Rightarrow> string list" where
  "words_of acc [] = (if acc = [] then [] else [rev acc])"
| "words_of acc (c # cs) =
     (if is_space c then (if acc = [] then words_of [] cs else rev acc # words_of [] cs)
      else words_of (c # acc) cs)"

fun join :: "string \<Rightarrow> string list \<Rightarrow> string" where
  "join sep [] = []"
| "join sep [w] = w"
| "join sep (w # ws) = w @ sep @ join sep ws"

text \<open>Truth values of optional strings and integers (\<open>if x:\<close>, \<open>x or d\<close>).\<close>

definition str_true :: "string option \<Rightarrow> bool" where
  "str_true x = (x \<noteq> None \<and> x \<noteq> Some [])"

definition int_true :: "int option \<Rightarrow> bool" where
  "int_true x = (x \<noteq> None \<and> x \<noteq> Some 0)"

definition str_or :: "string option \<Rightarrow> string \<Rightarrow> string" where
  "str_or x d = (case x of Some (c # cs) \<Rightarrow> c # cs | _ \<Rightarrow> d)"

definition int_or :: "int option \<Rightarrow> int \<Rightarrow> int" where
  "int_or x d = (case x of Some n \<Rightarrow> if n = 0 then d else n | None \<Rightarrow> d)"

definition opt_str :: "string \<Rightarrow> string option" where
  "opt_str s = (if s = [] then None else Some s)"

lemma str_true_simps [simp]:
  "\<not> str_true None" "\<not> str_true (Some [])" "str_true (Some (c # cs))"
  by (simp_all add: str_true_def)

lemma str_trueE: "str_true x \<Longrightarrow> (\<And>s. x = Some s \<Longrightarrow> s \<noteq> [] \<Longrightarrow> P) \<Longrightarrow> P"
  by (cases x) (auto simp: str_true_def)

lemma int_true_simps [simp]:
  "\<not> int_true None" "int_true (Some n) = (n \<noteq> 0)"
  by (simp_all add: int_true_def)

lemma int_or_simps [simp]:
  "int_or None d = d" "int_or (Some n) d = (if n = 0 then d else n)"
  by (simp_all add: int_or_def)

section \<open>JSON values\<close>

text \<open>
  A float is observed only through \<open>int()\<close> (which fails on NaN and the infinities),
  \<open>str()\<close> and its truth value: \<open>JReal\<close> carries the truncated value and the text.
\<close>

datatype json =
    JNull
  | JBool bool
  | JInt int
  | JReal "int option" string
  | JStr string
  | JArr "json list"
  | JObj "(string \<times> json) list"

type_synonym dict = "(string \<times> json) list"

fun truthy :: "json \<Rightarrow> bool" where
  "truthy JNull = False"
| "truthy (JBool b) = b"
| "truthy (JInt n) = (n \<noteq> 0)"
| "truthy (JReal _ s) = (s \<noteq> ''0.0'' \<and> s \<noteq> ''-0.0'')"
| "truthy (JStr s) = (s \<noteq> [])"
| "truthy (JArr xs) = (xs \<noteq> [])"
| "truthy (JObj d) = (d \<noteq> [])"

text \<open>\<open>int(x)\<close>; \<open>None\<close> is the exception.\<close>

fun py_int :: "json \<Rightarrow> int option" where
  "py_int (JBool b) = Some (if b then 1 else 0)"
| "py_int (JInt n) = Some n"
| "py_int (JReal t _) = t"
| "py_int (JStr s) = int_of_str s"
| "py_int _ = None"

definition hex_digit :: "nat \<Rightarrow> char" where
  "hex_digit n = (if n < 10 then char_of (48 + n) else char_of (87 + n))"

definition repr_char :: "char \<Rightarrow> char \<Rightarrow> string" where
  "repr_char q c = (let n = code c in
     if n = 92 \<or> c = q then [char_of (92::nat), c]
     else if n = 9 then [char_of (92::nat), CHR ''t'']
     else if n = 10 then [char_of (92::nat), CHR ''n'']
     else if n = 13 then [char_of (92::nat), CHR ''r'']
     else if n < 32 \<or> (127 \<le> n \<and> n \<le> 160) \<or> n = 173
       then [char_of (92::nat), CHR ''x'', hex_digit (n div 16), hex_digit (n mod 16)]
     else [c])"

definition repr_str :: "string \<Rightarrow> string" where
  "repr_str s =
     (let q = (if char_of (39::nat) \<in> set s \<and> char_of (34::nat) \<notin> set s
               then char_of (34::nat) else char_of (39::nat))
      in [q] @ concat (map (repr_char q) s) @ [q])"

fun py_repr :: "json \<Rightarrow> string" where
  "py_repr JNull = ''None''"
| "py_repr (JBool b) = (if b then ''True'' else ''False'')"
| "py_repr (JInt n) = show_int n"
| "py_repr (JReal _ s) = s"
| "py_repr (JStr s) = repr_str s"
| "py_repr (JArr xs) = ''['' @ join '', '' (map py_repr xs) @ '']''"
| "py_repr (JObj d) =
     ''{'' @ join '', '' (map (\<lambda>(k, v). repr_str k @ '': '' @ py_repr v) d) @ ''}''"

definition py_str :: "json \<Rightarrow> string" where
  "py_str v = (case v of JStr s \<Rightarrow> s | _ \<Rightarrow> py_repr v)"

text \<open>\<open>str(v or "")\<close> and \<open>v in (None, "")\<close>.\<close>

definition str_or_empty :: "json \<Rightarrow> string" where
  "str_or_empty v = (if truthy v then py_str v else [])"

definition json_blank :: "json \<Rightarrow> bool" where
  "json_blank v = (v = JNull \<or> v = JStr [])"

lemma str_or_empty_JStr [simp]: "str_or_empty (JStr s) = s"
  by (simp add: str_or_empty_def py_str_def)

lemma str_or_empty_JNull [simp]: "str_or_empty JNull = []"
  by (simp add: str_or_empty_def)

text \<open>Dictionaries keep their insertion order: \<open>d.get(k)\<close>, \<open>k in d\<close>, \<open>d[k] = v\<close>.\<close>

definition dget :: "dict \<Rightarrow> string \<Rightarrow> json" where
  "dget d k = (case map_of d k of None \<Rightarrow> JNull | Some v \<Rightarrow> v)"

definition dget_or :: "dict \<Rightarrow> string \<Rightarrow> json \<Rightarrow> json" where
  "dget_or d k v = (case map_of d k of None \<Rightarrow> v | Some w \<Rightarrow> w)"

definition dhas :: "dict \<Rightarrow> string \<Rightarrow> bool" where
  "dhas d k = (map_of d k \<noteq> None)"

definition dset :: "string \<Rightarrow> json \<Rightarrow> dict \<Rightarrow> dict" where
  "dset k v d = AList.update k v d"

lemma dget_dset [simp]: "dget (dset k v d) k' = (if k' = k then v else dget d k')"
  by (simp add: dget_def dset_def update_conv)

lemma dget_or_dset [simp]: "dget_or (dset k v d) k' w = (if k' = k then v else dget_or d k' w)"
  by (simp add: dget_or_def dset_def update_conv)

lemma dhas_dset [simp]: "dhas (dset k v d) k' = (k' = k \<or> dhas d k')"
  by (simp add: dhas_def dset_def update_conv)

lemma dget_Nil [simp]: "dget [] k = JNull" and dhas_Nil [simp]: "\<not> dhas [] k"
  by (simp_all add: dget_def dhas_def)

lemma dget_Cons [simp]: "dget ((k, v) # d) k' = (if k' = k then v else dget d k')"
  by (simp add: dget_def)

lemma dset_same: "map_of d k = Some v \<Longrightarrow> map_of (dset k v d) = map_of d"
  by (auto simp: dset_def update_conv)

section \<open>Rows of a table\<close>

definition find_row :: "('r \<Rightarrow> bool) \<Rightarrow> 'r list \<Rightarrow> 'r option" where
  "find_row P rows = List.find P rows"

definition upd_where :: "('r \<Rightarrow> bool) \<Rightarrow> ('r \<Rightarrow> 'r) \<Rightarrow> 'r list \<Rightarrow> 'r list" where
  "upd_where P f rows = map (\<lambda>r. if P r then f r else r) rows"

text \<open>The first, and the last, row that satisfies the condition.\<close>

fun upd_first :: "('r \<Rightarrow> bool) \<Rightarrow> ('r \<Rightarrow> 'r) \<Rightarrow> 'r list \<Rightarrow> 'r list" where
  "upd_first P f [] = []"
| "upd_first P f (r # rows) = (if P r then f r # rows else r # upd_first P f rows)"

definition upd_last :: "('r \<Rightarrow> bool) \<Rightarrow> ('r \<Rightarrow> 'r) \<Rightarrow> 'r list \<Rightarrow> 'r list" where
  "upd_last P f rows = rev (upd_first P f (rev rows))"

lemma upd_where_Nil [simp]: "upd_where P f [] = []"
  by (simp add: upd_where_def)

lemma upd_where_Cons [simp]:
  "upd_where P f (r # rows) = (if P r then f r else r) # upd_where P f rows"
  by (simp add: upd_where_def)

lemma length_upd_where [row_simps]: "length (upd_where P f rows) = length rows"
  by (simp add: upd_where_def)

lemma upd_where_id [row_simps]: "upd_where P (\<lambda>r. r) rows = rows"
  by (simp add: upd_where_def)

lemma set_upd_where: "r \<in> set (upd_where P f rows) \<Longrightarrow> \<exists>q \<in> set rows. r = (if P q then f q else q)"
  by (auto simp: upd_where_def)

lemma map_upd_where [row_simps]:
  "(\<And>r. P r \<Longrightarrow> g (f r) = g r) \<Longrightarrow> map g (upd_where P f rows) = map g rows"
  by (simp add: upd_where_def)

lemma upd_where_none: "(\<And>r. r \<in> set rows \<Longrightarrow> \<not> P r) \<Longrightarrow> upd_where P f rows = rows"
  by (induction rows) auto

lemma filter_upd_where_other:
  "(\<And>r. P r \<Longrightarrow> Q (f r) = False \<and> Q r = False) \<Longrightarrow> filter Q (upd_where P f rows) = filter Q rows"
  by (induction rows) auto

lemma set_map_filter: "set (List.map_filter f xs) = {y. \<exists>x \<in> set xs. f x = Some y}"
  by (force simp: map_filter_def)

lemma find_row_Some: "find_row P rows = Some r \<Longrightarrow> P r \<and> r \<in> set rows"
  by (auto simp: find_row_def find_Some_iff)

lemma find_row_None: "find_row P rows = None \<longleftrightarrow> (\<forall>r \<in> set rows. \<not> P r)"
  by (auto simp: find_row_def find_None_iff)

lemma find_row_Nil [simp]: "find_row P [] = None"
  by (simp add: find_row_def)

lemma find_row_Cons [simp]:
  "find_row P (r # rows) = (if P r then Some r else find_row P rows)"
  by (simp add: find_row_def)

lemma find_row_append:
  "find_row P (xs @ ys) = (case find_row P xs of None \<Rightarrow> find_row P ys | Some x \<Rightarrow> Some x)"
  by (induction xs) auto

lemma find_row_upd_same:
  "(\<And>r. Q r \<Longrightarrow> P (f r) = P r) \<Longrightarrow>
   find_row P (upd_where Q f rows) = map_option (\<lambda>r. if Q r then f r else r) (find_row P rows)"
  by (induction rows) auto

lemma find_row_upd_key:
  "(\<And>r. P r \<Longrightarrow> P (f r)) \<Longrightarrow> find_row P (upd_where P f rows) = map_option f (find_row P rows)"
  by (induction rows) auto

lemma find_row_cong_upd:
  "(\<And>r. P r \<Longrightarrow> \<not> Q r) \<Longrightarrow> (\<And>r. Q r \<Longrightarrow> \<not> P (f r)) \<Longrightarrow>
   find_row P (upd_where Q f rows) = find_row P rows"
  by (induction rows) auto

lemma find_row_upd_other:
  "(\<And>r. Q r \<Longrightarrow> \<not> P r \<and> \<not> P (f r)) \<Longrightarrow> find_row P (upd_where Q f rows) = find_row P rows"
  by (induction rows) auto

lemma find_row_key: "distinct (map key rows) \<Longrightarrow> r \<in> set rows \<Longrightarrow> find_row (\<lambda>x. key x = key r) rows = Some r"
  by (induction rows) (auto simp: rev_image_eqI)

section \<open>First occurrence wins\<close>

text \<open>The \<open>seen\<close>-set loops of the source: keep the first element of every key.\<close>

fun dedupe_from :: "('a \<Rightarrow> 'k) \<Rightarrow> 'k set \<Rightarrow> 'a list \<Rightarrow> 'a list" where
  "dedupe_from key seen [] = []"
| "dedupe_from key seen (x # xs) =
     (if key x \<in> seen then dedupe_from key seen xs
      else x # dedupe_from key (insert (key x) seen) xs)"

definition dedupe :: "('a \<Rightarrow> 'k) \<Rightarrow> 'a list \<Rightarrow> 'a list" where
  "dedupe key xs = dedupe_from key {} xs"

lemma dedupe_from_keys:
  "key ` set (dedupe_from key seen xs) = key ` set xs - seen"
  by (induction xs arbitrary: seen) auto

lemma dedupe_from_distinct: "distinct (map key (dedupe_from key seen xs))"
proof (induction xs arbitrary: seen)
  case (Cons x xs)
  have "key x \<notin> key ` set (dedupe_from key (insert (key x) seen) xs)"
    by (simp add: dedupe_from_keys)
  with Cons.IH show ?case by simp
qed simp

lemma dedupe_from_subset: "set (dedupe_from key seen xs) \<subseteq> set xs"
  by (induction xs arbitrary: seen) auto

lemma dedupe_distinct: "distinct (map key (dedupe key xs))"
  by (simp add: dedupe_def dedupe_from_distinct)

lemma dedupe_keys: "key ` set (dedupe key xs) = key ` set xs"
  by (simp add: dedupe_def dedupe_from_keys)

lemma dedupe_subset: "set (dedupe key xs) \<subseteq> set xs"
  by (simp add: dedupe_def dedupe_from_subset)

lemma dedupe_from_id:
  "distinct (map key xs) \<Longrightarrow> key ` set xs \<inter> seen = {} \<Longrightarrow> dedupe_from key seen xs = xs"
  by (induction xs arbitrary: seen) auto

lemma dedupe_id: "distinct (map key xs) \<Longrightarrow> dedupe key xs = xs"
  by (simp add: dedupe_def dedupe_from_id)

lemma dedupe_Nil_iff: "dedupe key xs = [] \<longleftrightarrow> xs = []"
  by (cases xs) (auto simp: dedupe_def)

section \<open>\<open>max(xs, key=f)\<close>: the first of the largest\<close>

fun max_from :: "('a \<Rightarrow> 'k::linorder) \<Rightarrow> 'a \<Rightarrow> 'a list \<Rightarrow> 'a" where
  "max_from f b [] = b"
| "max_from f b (x # xs) = max_from f (if f b < f x then x else b) xs"

definition max_by :: "('a \<Rightarrow> 'k::linorder) \<Rightarrow> 'a list \<Rightarrow> 'a option" where
  "max_by f xs = (case xs of [] \<Rightarrow> None | x # ys \<Rightarrow> Some (max_from f x ys))"

lemma max_from_in: "max_from f b xs \<in> insert b (set xs)"
proof (induction xs arbitrary: b)
  case (Cons x xs)
  have "max_from f (if f b < f x then x else b) xs \<in> insert (if f b < f x then x else b) (set xs)"
    by (rule Cons.IH)
  then show ?case by (auto split: if_splits)
qed simp

lemma max_from_ge: "y \<in> insert b (set xs) \<Longrightarrow> f y \<le> f (max_from f b xs)"
proof (induction xs arbitrary: b y)
  case (Cons x xs)
  let ?b = "if f b < f x then x else b"
  have base: "f ?b \<le> f (max_from f ?b xs)" by (rule Cons.IH) simp
  show ?case
  proof (cases "y \<in> set xs")
    case True
    then have "f y \<le> f (max_from f ?b xs)" by (intro Cons.IH) simp
    then show ?thesis by simp
  next
    case False
    with Cons.prems have "f y \<le> f ?b" by auto
    with base show ?thesis by simp
  qed
qed simp

lemma max_by_in: "max_by f xs = Some x \<Longrightarrow> x \<in> set xs"
  by (cases xs) (use max_from_in in \<open>fastforce simp: max_by_def\<close>)+

lemma max_by_ge: "max_by f xs = Some x \<Longrightarrow> y \<in> set xs \<Longrightarrow> f y \<le> f x"
  by (cases xs) (auto simp: max_by_def intro: max_from_ge)

lemma max_by_Nil [simp]: "max_by f [] = None"
  by (simp add: max_by_def)

lemma max_by_None [simp]: "max_by f xs = None \<longleftrightarrow> xs = []"
  by (simp add: max_by_def split: list.splits)

section \<open>Results\<close>

text \<open>The result of a computation that may raise, passed on.\<close>

fun and_then :: "'e + 'a \<Rightarrow> ('a \<Rightarrow> 'e + 'b) \<Rightarrow> 'e + 'b" where
  "and_then (Inl e) f = Inl e"
| "and_then (Inr v) f = f v"

lemma and_then_Inr: "and_then r f = Inr y \<longleftrightarrow> (\<exists>v. r = Inr v \<and> f v = Inr y)"
  by (cases r) simp_all

lemma and_then_cong [fundef_cong]:
  "r = r' \<Longrightarrow> (\<And>v. r' = Inr v \<Longrightarrow> f v = f' v) \<Longrightarrow> and_then r f = and_then r' f'"
  by (cases r') simp_all

end
