(* ===== verification/Schema.thy ===== *)
theory Schema
  imports Prelude
begin

text \<open>
  The tables of \<open>backend/database/schema/models.py\<close> and \<open>task_media_models.py\<close> that the
  modelled services read and write, one record per table, and the database as the record of
  its tables. A nullable column is an \<open>option\<close>, a JSON column a \<open>json\<close>, a \<open>DateTime\<close> a
  \<open>datetime\<close>. Columns the modelled code neither reads nor writes are left out. The default
  \<open>uuid4\<close> of a primary key is drawn from the supply \<open>fresh_id\<close>, autoincrement keys from
  counters.
\<close>

section \<open>Enumerations\<close>

datatype media_type = MNone | MPhoto | MVideo | MSticker | MAnimation

fun media_value_of :: "media_type \<Rightarrow> string" where
  "media_value_of MNone = ''none''"
| "media_value_of MPhoto = ''photo''"
| "media_value_of MVideo = ''video''"
| "media_value_of MSticker = ''sticker''"
| "media_value_of MAnimation = ''animation''"

text \<open>\<open>MediaType(v)\<close>: \<open>None\<close> is the \<open>ValueError\<close>.\<close>

definition media_of_value :: "string \<Rightarrow> media_type option" where
  "media_of_value s =
     (if s = ''none'' then Some MNone
      else if s = ''photo'' then Some MPhoto
      else if s = ''video'' then Some MVideo
      else if s = ''sticker'' then Some MSticker
      else if s = ''animation'' then Some MAnimation
      else None)"

lemma media_of_value_inverse [simp]: "media_of_value (media_value_of m) = Some m"
  by (cases m) (simp_all add: media_of_value_def)

datatype trigger_source = Scheduler | BotShortcut | ApiManual

datatype health = Online | Offline | Banned

abbreviation scheduled :: string where "scheduled \<equiv> ''scheduled''"
abbreviation manual_shortcut :: string where "manual_shortcut \<equiv> ''manual_shortcut''"

section \<open>Tables\<close>

record user =
  u_id :: int
  u_trial_eligible_at :: "datetime option"
  u_trial_granted_at :: "datetime option"
  u_trial_authorization :: "string option"

record card =
  k_id :: int
  k_code :: string
  k_plan :: "string option"
  k_days :: "int option"
  k_active :: bool
  k_used :: bool
  k_expires_at :: "datetime option"
  k_used_by :: "int option"
  k_used_at :: "datetime option"
  k_created_at :: "datetime option"

record plan =
  p_code :: string
  p_days :: int

record slot =
  s_id :: string
  s_user :: int
  s_account :: "string option"
  s_card :: "int option"
  s_source :: string
  s_days :: int
  s_start :: datetime
  s_end :: datetime
  s_status :: string
  s_created :: datetime
  s_updated :: datetime

record usage =
  g_slot :: string
  g_card :: int
  g_days :: int
  g_applied :: datetime

record binding =
  b_slot :: string
  b_account :: string
  b_bind_at :: datetime
  b_unbind_at :: "datetime option"
  b_reason :: "string option"

record task =
  t_id :: string
  t_user :: int
  t_account :: "string option"
  t_chat :: "int option"
  t_title :: string
  t_peer :: "int option"
  t_peer_type :: "string option"
  t_hash :: "int option"
  t_targets :: json
  t_enabled :: bool
  t_mode :: string
  t_slot :: "int option"
  t_label :: "string option"
  t_priority :: int
  t_repeat :: int
  t_jitter :: int
  t_delay_min :: int
  t_delay_max :: int
  t_day_start :: "int option"
  t_day_end :: "int option"
  t_start :: "int option"
  t_end :: "int option"
  t_text :: "ptext option"
  t_media :: media_type
  t_media_file :: "string option"
  t_buttons :: json
  t_contract :: int
  t_revision :: int
  t_src_account :: "string option"
  t_src_msg :: "int option"
  t_src_meta :: json
  t_src_state :: string
  t_src_error :: "string option"
  t_src_verified :: "datetime option"
  t_delete_previous :: bool
  t_pin :: bool
  t_last_msg :: "int option"
  t_next :: "int option"
  t_failures :: int

record task_log =
  l_task :: string
  l_result :: string
  l_source :: trigger_source
  l_error :: "string option"
  l_message :: "int option"

record issue =
  i_task :: string
  i_user :: int
  i_account :: "string option"
  i_peer :: int
  i_peer_type :: string
  i_title :: "string option"
  i_error_type :: string
  i_error_message :: "string option"
  i_category :: string
  i_status :: string
  i_first_seen :: datetime
  i_last_seen :: datetime
  i_notified :: "datetime option"
  i_muted_until :: "datetime option"
  i_failures :: int
  i_suspended :: bool
  i_resolved_at :: "datetime option"
  i_recovered_notified :: "datetime option"

record proxy =
  x_id :: int
  x_type :: string
  x_host :: string
  x_port :: int
  x_name :: "string option"
  x_region :: "string option"
  x_gateway :: bool
  x_shared :: bool
  x_username :: "string option"
  x_password :: "string option"
  x_active :: bool
  x_healthy :: bool
  x_checked :: "datetime option"
  x_response :: "int option"
  x_usage :: int
  x_assigned :: "string option"

record account =
  a_id :: string
  a_user :: int
  a_tg :: "int option"
  a_username :: "string option"
  a_first_name :: "string option"
  a_phone :: "string option"
  a_proxy :: "int option"
  a_active :: bool
  a_banned :: bool
  a_health :: health
  a_flooding :: bool
  a_flood_until :: "datetime option"
  a_reauth :: bool
  a_reauth_reason :: "string option"
  a_reauth_at :: "datetime option"
  a_obs_started :: "datetime option"
  a_obs_until :: "datetime option"
  a_obs_count :: int
  a_weight :: int
  a_sent :: int
  a_last_used :: "datetime option"
  a_created :: datetime

record capture =
  c_id :: string
  c_token_hash :: string
  c_task :: string
  c_user :: int
  c_account :: string
  c_actor :: int
  c_revision :: int
  c_prompt :: "int option"
  c_source_msg :: "int option"
  c_saved_msg :: "int option"
  c_state :: string
  c_error :: "string option"
  c_expires :: datetime
  c_consumed :: "datetime option"

section \<open>The database\<close>

record db =
  users :: "user list"
  accounts :: "account list"
  cards :: "card list"
  plans :: "plan list"
  slots :: "slot list"
  usages :: "usage list"
  bindings :: "binding list"
  tasks :: "task list"
  logs :: "task_log list"
  issues :: "issue list"
  proxies :: "proxy list"
  captures :: "capture list"
  fresh_id :: "nat \<Rightarrow> string"
  drawn :: nat

definition empty_db :: "(nat \<Rightarrow> string) \<Rightarrow> db" where
  "empty_db gen = \<lparr>users = [], accounts = [], cards = [], plans = [], slots = [], usages = [],
     bindings = [], tasks = [], logs = [], issues = [], proxies = [], captures = [],
     fresh_id = gen, drawn = 0\<rparr>"

text \<open>Primary-key reads (\<open>session.get\<close>) and writes through the identity map.\<close>

definition get_user :: "int \<Rightarrow> db \<Rightarrow> user option" where
  "get_user uid d = find_row (\<lambda>u. u_id u = uid) (users d)"

definition get_account :: "string \<Rightarrow> db \<Rightarrow> account option" where
  "get_account aid d = find_row (\<lambda>a. a_id a = aid) (accounts d)"

definition get_task :: "string \<Rightarrow> db \<Rightarrow> task option" where
  "get_task tid d = find_row (\<lambda>t. t_id t = tid) (tasks d)"

definition get_proxy :: "int \<Rightarrow> db \<Rightarrow> proxy option" where
  "get_proxy pid d = find_row (\<lambda>x. x_id x = pid) (proxies d)"

definition get_slot :: "string \<Rightarrow> db \<Rightarrow> slot option" where
  "get_slot sid d = find_row (\<lambda>s. s_id s = sid) (slots d)"

definition get_capture :: "string \<Rightarrow> db \<Rightarrow> capture option" where
  "get_capture cid d = find_row (\<lambda>c. c_id c = cid) (captures d)"

definition upd_user :: "int \<Rightarrow> (user \<Rightarrow> user) \<Rightarrow> db \<Rightarrow> db" where
  "upd_user uid f d = d\<lparr>users := upd_where (\<lambda>u. u_id u = uid) f (users d)\<rparr>"

definition upd_account :: "string \<Rightarrow> (account \<Rightarrow> account) \<Rightarrow> db \<Rightarrow> db" where
  "upd_account aid f d = d\<lparr>accounts := upd_where (\<lambda>a. a_id a = aid) f (accounts d)\<rparr>"

definition upd_task :: "string \<Rightarrow> (task \<Rightarrow> task) \<Rightarrow> db \<Rightarrow> db" where
  "upd_task tid f d = d\<lparr>tasks := upd_where (\<lambda>t. t_id t = tid) f (tasks d)\<rparr>"

definition upd_proxy :: "int \<Rightarrow> (proxy \<Rightarrow> proxy) \<Rightarrow> db \<Rightarrow> db" where
  "upd_proxy pid f d = d\<lparr>proxies := upd_where (\<lambda>x. x_id x = pid) f (proxies d)\<rparr>"

definition upd_slot :: "string \<Rightarrow> (slot \<Rightarrow> slot) \<Rightarrow> db \<Rightarrow> db" where
  "upd_slot sid f d = d\<lparr>slots := upd_where (\<lambda>s. s_id s = sid) f (slots d)\<rparr>"

definition upd_capture :: "string \<Rightarrow> (capture \<Rightarrow> capture) \<Rightarrow> db \<Rightarrow> db" where
  "upd_capture cid f d = d\<lparr>captures := upd_where (\<lambda>c. c_id c = cid) f (captures d)\<rparr>"

definition put_task :: "task \<Rightarrow> db \<Rightarrow> db" where
  "put_task t d = upd_task (t_id t) (\<lambda>_. t) d"

definition add_log :: "task_log \<Rightarrow> db \<Rightarrow> db" where
  "add_log l d = d\<lparr>logs := logs d @ [l]\<rparr>"

lemmas db_defs = get_user_def get_account_def get_task_def get_proxy_def get_slot_def
  get_capture_def upd_user_def upd_account_def upd_task_def upd_proxy_def upd_slot_def
  upd_capture_def put_task_def add_log_def

lemma get_task_upd_same:
  "(\<And>t. t_id t = tid \<Longrightarrow> t_id (f t) = tid) \<Longrightarrow>
   get_task tid (upd_task tid f d) = map_option f (get_task tid d)"
  by (simp add: get_task_def upd_task_def find_row_upd_key)

lemma get_task_upd_other:
  "tid' \<noteq> tid \<Longrightarrow> (\<And>t. t_id t = tid' \<Longrightarrow> t_id (f t) = tid') \<Longrightarrow>
   get_task tid (upd_task tid' f d) = get_task tid d"
  by (simp add: get_task_def upd_task_def find_row_cong_upd)

lemma get_task_put_same:
  "get_task (t_id t) (put_task t d) = map_option (\<lambda>_. t) (get_task (t_id t) d)"
  by (simp add: put_task_def get_task_upd_same)

lemma get_account_upd_same:
  "(\<And>a. a_id a = aid \<Longrightarrow> a_id (f a) = aid) \<Longrightarrow>
   get_account aid (upd_account aid f d) = map_option f (get_account aid d)"
  by (simp add: get_account_def upd_account_def find_row_upd_key)

lemma get_task_id: "get_task tid d = Some t \<Longrightarrow> t_id t = tid"
  by (auto simp: get_task_def dest: find_row_Some)

lemma get_account_id: "get_account aid d = Some a \<Longrightarrow> a_id a = aid"
  by (auto simp: get_account_def dest: find_row_Some)

lemma get_task_cong [row_simps]: "tasks d' = tasks d \<Longrightarrow> get_task tid d' = get_task tid d"
  by (simp add: get_task_def)

lemma get_account_cong [row_simps]:
  "accounts d' = accounts d \<Longrightarrow> get_account aid d' = get_account aid d"
  by (simp add: get_account_def)

section \<open>Failures of the HTTP layer\<close>

text \<open>
  \<open>HTTPException(status_code, detail)\<close>: the detail is the structured code, or an ASCII tag
  for the fixed text of the source.
\<close>

datatype http_error = Http int string

text \<open>An account of another user is answered like one that does not exist (\<open>dependencies.py\<close>).\<close>

definition check_account_permission :: "string \<Rightarrow> int \<Rightarrow> db \<Rightarrow> http_error + account" where
  "check_account_permission aid uid d =
     (case get_account aid d of
        None \<Rightarrow> Inl (Http 404 ''<account not found>'')
      | Some a \<Rightarrow> if a_user a \<noteq> uid then Inl (Http 404 ''<account not found>'') else Inr a)"

text \<open>An exception no handler expects: the framework answers 500.\<close>

definition unhandled :: http_error where
  "unhandled = Http 500 ''<unhandled exception>''"

end
