(* ===== verification/Licensing.thy ===== *)
theory Licensing
  imports Schema "HOL-Library.Option_ord"
begin

text \<open>
  The single-authorization model of \<open>h5_backend/services/licensing/service.py\<close>: one
  authorization (slot) and one active Telegram account per system user, re-established by
  \<open>normalize_single_authorization_model\<close> at the start of every operation; trials, card
  activation, renewal, and the permission check that gates every send. An operation reads
  the clock once (\<open>now\<close>). Deleting a slot deletes its usage and binding rows, as the
  \<open>delete-orphan\<close> cascade of the schema does.
\<close>

abbreviation (input) bot_trial_duration_days :: int where "bot_trial_duration_days \<equiv> 7"

section \<open>Expiry and legacy cards\<close>

definition count_active_accounts :: "int \<Rightarrow> db \<Rightarrow> nat" where
  "count_active_accounts uid d = length (filter (\<lambda>a. a_user a = uid \<and> a_active a) (accounts d))"

definition resolve_card_duration_days :: "card \<Rightarrow> db \<Rightarrow> int" where
  "resolve_card_duration_days k d =
     (let n = int_or (k_days k) 0;
          n' = (if n \<le> 0 \<and> str_true (k_plan k)
                then (case find_row (\<lambda>p. p_code p = the (k_plan k)) (plans d) of
                        None \<Rightarrow> 0 | Some p \<Rightarrow> p_days p)
                else n)
      in max 0 n')"

definition valid_slot :: "datetime \<Rightarrow> slot \<Rightarrow> bool" where
  "valid_slot now s = (s_status s = ''active'' \<and> now < s_end s)"

definition choose_legacy_bind_account :: "int \<Rightarrow> datetime \<Rightarrow> db \<Rightarrow> string option" where
  "choose_legacy_bind_account uid now d =
     (case filter (\<lambda>a. a_user a = uid \<and> a_active a) (accounts d) of
        [a] \<Rightarrow> if list_ex (\<lambda>s. s_account s = Some (a_id a) \<and> valid_slot now s) (slots d)
               then None else Some (a_id a)
      | _ \<Rightarrow> None)"

definition next_id :: "db \<Rightarrow> string" where
  "next_id d = fresh_id d (drawn d)"

definition add_slot :: "slot \<Rightarrow> db \<Rightarrow> db" where
  "add_slot s d = d\<lparr>slots := slots d @ [s], drawn := Suc (drawn d)\<rparr>"

definition add_usage :: "usage \<Rightarrow> db \<Rightarrow> db" where
  "add_usage g d = d\<lparr>usages := usages d @ [g]\<rparr>"

definition add_binding :: "string \<Rightarrow> string \<Rightarrow> datetime \<Rightarrow> db \<Rightarrow> db" where
  "add_binding sid aid at d =
     d\<lparr>bindings := bindings d @
        [\<lparr>b_slot = sid, b_account = aid, b_bind_at = at, b_unbind_at = None, b_reason = None\<rparr>]\<rparr>"

definition legacy_cards :: "int option \<Rightarrow> db \<Rightarrow> card list" where
  "legacy_cards uid d =
     sort_key k_id (filter (\<lambda>k. k_used k \<and> k_used_by k \<noteq> None
        \<and> \<not> list_ex (\<lambda>g. g_card g = k_id k) (usages d)
        \<and> (case uid of None \<Rightarrow> True | Some u \<Rightarrow> k_used_by k = Some u)) (cards d))"

definition backfill_card :: "datetime \<Rightarrow> card \<Rightarrow> db \<Rightarrow> db" where
  "backfill_card now k d =
     (let n = resolve_card_duration_days k d in
      if n \<le> 0 then d
      else
        (let uid = the (k_used_by k);
             bind = choose_legacy_bind_account uid now d;
             start = (case k_used_at k of Some t \<Rightarrow> t
                      | None \<Rightarrow> (case k_created_at k of Some t \<Rightarrow> t | None \<Rightarrow> now));
             fin = start + days n;
             sid = next_id d;
             s = \<lparr>s_id = sid, s_user = uid, s_account = bind, s_card = Some (k_id k),
                  s_source = ''card'', s_days = n, s_start = start, s_end = fin,
                  s_status = (if now < fin then ''active'' else ''expired''),
                  s_created = now, s_updated = now\<rparr>;
             d1 = add_usage \<lparr>g_slot = sid, g_card = k_id k, g_days = n, g_applied = start\<rparr>
                    (add_slot s d)
         in case bind of None \<Rightarrow> d1 | Some aid \<Rightarrow> add_binding sid aid start d1))"

definition backfill_legacy_used_cards :: "int option \<Rightarrow> datetime \<Rightarrow> db \<Rightarrow> db" where
  "backfill_legacy_used_cards uid now d = fold (backfill_card now) (legacy_cards uid d) d"

text \<open>\<open>updated_at\<close> moves with every row that really changes.\<close>

definition touch :: "datetime \<Rightarrow> slot \<Rightarrow> slot \<Rightarrow> slot" where
  "touch now old new = (if new = old then old else new\<lparr>s_updated := now\<rparr>)"

definition sync_expired_slots :: "int option \<Rightarrow> datetime \<Rightarrow> db \<Rightarrow> db" where
  "sync_expired_slots uid now d =
     d\<lparr>slots := upd_where (\<lambda>s. s_status s = ''active'' \<and> s_end s \<le> now
           \<and> (case uid of None \<Rightarrow> True | Some u \<Rightarrow> s_user s = u))
         (\<lambda>s. s\<lparr>s_status := ''expired'', s_updated := now\<rparr>) (slots d)\<rparr>"

section \<open>One slot, one account\<close>

definition flag :: "bool \<Rightarrow> int" where
  "flag b = (if b then 1 else 0)"

definition slot_priority ::
  "datetime \<Rightarrow> account list \<Rightarrow> slot \<Rightarrow> int \<times> int \<times> int \<times> int \<times> int \<times> string" where
  "slot_priority now accs s =
     (let acc = find_row (\<lambda>a. a_id a = str_or (s_account s) []) accs in
      (flag (valid_slot now s),
       flag (case acc of None \<Rightarrow> False | Some a \<Rightarrow> a_active a),
       flag (case acc of None \<Rightarrow> False | Some a \<Rightarrow> a_health a = Online),
       s_end s, s_updated s, s_id s))"

definition account_priority :: "account \<Rightarrow> int \<times> int \<times> int option \<times> int \<times> string" where
  "account_priority a =
     (flag (a_active a), flag (a_health a = Online), a_last_used a, a_created a, a_id a)"

definition disable_tasks_for_accounts :: "string list \<Rightarrow> db \<Rightarrow> db" where
  "disable_tasks_for_accounts aids d =
     d\<lparr>tasks := upd_where (\<lambda>t. t_enabled t \<and> (\<exists>aid \<in> set aids. t_account t = Some aid))
                 (\<lambda>t. t\<lparr>t_enabled := False\<rparr>) (tasks d)\<rparr>"

definition user_accounts :: "int \<Rightarrow> db \<Rightarrow> account list" where
  "user_accounts uid d = sort_key a_created (filter (\<lambda>a. a_user a = uid) (accounts d))"

definition user_slots :: "int \<Rightarrow> db \<Rightarrow> slot list" where
  "user_slots uid d = sort_key s_created (filter (\<lambda>s. s_user s = uid) (slots d))"

definition choose_primary_account :: "slot option \<Rightarrow> account list \<Rightarrow> account option" where
  "choose_primary_account ps accs =
     (let bound = (case ps of
                     None \<Rightarrow> None
                   | Some s \<Rightarrow> (if str_true (s_account s)
                               then find_row (\<lambda>a. a_id a = the (s_account s)) accs else None))
      in case bound of Some a \<Rightarrow> Some a | None \<Rightarrow> max_by account_priority accs)"

text \<open>A trial reference to a slot that is gone follows the primary slot.\<close>

definition retarget_trial :: "slot option \<Rightarrow> user \<Rightarrow> user" where
  "retarget_trial ps u =
     (case ps of
        Some s \<Rightarrow> u\<lparr>u_trial_authorization := Some (s_id s)\<rparr>
      | None \<Rightarrow> u\<lparr>u_trial_authorization := None, u_trial_granted_at := None\<rparr>)"

definition repair_trial :: "slot option \<Rightarrow> string list \<Rightarrow> user \<Rightarrow> user" where
  "repair_trial ps ids u =
     (if str_true (u_trial_authorization u) \<and> the (u_trial_authorization u) \<notin> set ids
      then retarget_trial ps u else u)"

definition keep_one_account :: "int \<Rightarrow> account option \<Rightarrow> db \<Rightarrow> db" where
  "keep_one_account uid pa d =
     d\<lparr>accounts := upd_where (\<lambda>a. a_user a = uid)
         (\<lambda>a. a\<lparr>a_active := (case pa of None \<Rightarrow> False | Some p \<Rightarrow> a_id a = a_id p)\<rparr>) (accounts d)\<rparr>"

definition close_bindings :: "string \<Rightarrow> string \<Rightarrow> datetime \<Rightarrow> db \<Rightarrow> db" where
  "close_bindings sid reason now d =
     d\<lparr>bindings := upd_where (\<lambda>b. b_slot b = sid \<and> b_unbind_at b = None)
         (\<lambda>b. b\<lparr>b_unbind_at := Some now, b_reason := Some reason\<rparr>) (bindings d)\<rparr>"

definition has_open_binding :: "string \<Rightarrow> string \<Rightarrow> db \<Rightarrow> bool" where
  "has_open_binding sid aid d =
     list_ex (\<lambda>b. b_slot b = sid \<and> b_account b = aid \<and> b_unbind_at b = None) (bindings d)"

definition settle_primary_slot :: "slot \<Rightarrow> account option \<Rightarrow> datetime \<Rightarrow> db \<Rightarrow> db" where
  "settle_primary_slot s pa now d =
     (let desired = map_option a_id pa;
          d1 = upd_slot (s_id s)
                 (\<lambda>r. touch now r
                        (r\<lparr>s_status := (if now < s_end s then ''active'' else ''expired'')\<rparr>)) d
      in if str_or (s_account s) [] = str_or desired [] then d1
         else
           (let d2 = (if str_true (s_account s)
                      then close_bindings (s_id s) ''single_authorization_normalized'' now d1 else d1);
                d3 = upd_slot (s_id s) (\<lambda>r. r\<lparr>s_account := desired, s_updated := now\<rparr>) d2
            in if str_true desired \<and> \<not> has_open_binding (s_id s) (the desired) d3
               then add_binding (s_id s) (the desired) now d3 else d3))"

text \<open>\<open>session.delete(slot)\<close> with its cascades.\<close>

definition delete_slot :: "string \<Rightarrow> db \<Rightarrow> db" where
  "delete_slot sid d =
     d\<lparr>slots := filter (\<lambda>s. s_id s \<noteq> sid) (slots d),
       usages := filter (\<lambda>g. g_slot g \<noteq> sid) (usages d),
       bindings := filter (\<lambda>b. b_slot b \<noteq> sid) (bindings d)\<rparr>"

definition drop_slot :: "int \<Rightarrow> slot option \<Rightarrow> datetime \<Rightarrow> slot \<Rightarrow> db \<Rightarrow> db" where
  "drop_slot uid ps now s d =
     (if (case ps of None \<Rightarrow> False | Some p \<Rightarrow> s_id s = s_id p) then d
      else
        (let d1 = upd_user uid
                    (\<lambda>u. if str_or (u_trial_authorization u) [] = s_id s
                         then retarget_trial ps u else u) d;
             d2 = (if str_true (s_account s)
                   then close_bindings (s_id s) ''single_authorization_deleted'' now d1 else d1)
         in delete_slot (s_id s) d2))"

definition normalize_single_authorization_model ::
  "int \<Rightarrow> datetime \<Rightarrow> db \<Rightarrow> db \<times> slot option \<times> account option" where
  "normalize_single_authorization_model uid now d0 =
     (let d = sync_expired_slots (Some uid) now (backfill_legacy_used_cards (Some uid) now d0);
          accs = user_accounts uid d;
          sls = user_slots uid d;
          ps = max_by (slot_priority now accs) sls;
          pa = choose_primary_account ps accs;
          d1 = upd_user uid (repair_trial ps (map s_id sls)) d;
          d2 = keep_one_account uid pa d1;
          d3 = (case ps of None \<Rightarrow> d2 | Some s \<Rightarrow> settle_primary_slot s pa now d2);
          d4 = fold (drop_slot uid ps now) sls d3;
          d5 = disable_tasks_for_accounts
                 (map a_id (filter (\<lambda>a. \<not> (case pa of None \<Rightarrow> False | Some p \<Rightarrow> a_id a = a_id p)) accs)) d4
      in (d5,
          (case ps of None \<Rightarrow> None | Some s \<Rightarrow> get_slot (s_id s) d5),
          (case pa of None \<Rightarrow> None | Some a \<Rightarrow> get_account (a_id a) d5)))"

section \<open>Authorization summary and permission\<close>

record summary =
  m_slot :: "string option"
  m_status :: string
  m_can_create :: bool
  m_end :: "datetime option"
  m_cards :: nat
  m_source :: "string option"

definition card_count :: "string \<Rightarrow> db \<Rightarrow> nat" where
  "card_count sid d = length (filter (\<lambda>g. g_slot g = sid) (usages d))"

definition get_account_authorization_summary :: "string \<Rightarrow> datetime \<Rightarrow> db \<Rightarrow> db \<times> summary" where
  "get_account_authorization_summary aid now d0 =
     (let d = (case get_account aid d0 of
                 None \<Rightarrow> d0
               | Some a \<Rightarrow> fst (normalize_single_authorization_model (a_user a) now d0))
      in case max_by s_end (filter (\<lambda>s. s_account s = Some aid \<and> valid_slot now s) (slots d)) of
           Some s \<Rightarrow>
             (d, \<lparr>m_slot = Some (s_id s), m_status = ''licensed'', m_can_create = True,
                  m_end = Some (s_end s), m_cards = card_count (s_id s) d, m_source = Some (s_source s)\<rparr>)
         | None \<Rightarrow>
             (case max_by s_end (filter (\<lambda>s. s_account s = Some aid) (slots d)) of
                Some s \<Rightarrow>
                  (d, \<lparr>m_slot = Some (s_id s),
                       m_status = (if s_end s \<le> now then ''expired'' else s_status s),
                       m_can_create = False, m_end = Some (s_end s),
                       m_cards = card_count (s_id s) d, m_source = Some (s_source s)\<rparr>)
              | None \<Rightarrow>
                  (d, \<lparr>m_slot = None, m_status = ''unlicensed'', m_can_create = False,
                       m_end = None, m_cards = 0, m_source = None\<rparr>)))"

definition require_account_task_permission ::
  "string option \<Rightarrow> datetime \<Rightarrow> db \<Rightarrow> db \<times> (http_error + summary)" where
  "require_account_task_permission aid now d =
     (if \<not> str_true aid then (d, Inl (Http 400 ''<missing account>''))
      else (let (d', m) = get_account_authorization_summary (the aid) now d
            in (d', if m_can_create m then Inr m else Inl (Http 402 ''<not authorized>''))))"

definition disable_tasks_for_account_if_unlicensed :: "string \<Rightarrow> datetime \<Rightarrow> db \<Rightarrow> db \<times> nat" where
  "disable_tasks_for_account_if_unlicensed aid now d0 =
     (let (d, m) = get_account_authorization_summary aid now d0 in
      if m_can_create m then (d, 0)
      else (disable_tasks_for_accounts [aid] d,
            length (filter (\<lambda>t. t_account t = Some aid \<and> t_enabled t) (tasks d))))"

section \<open>Trial authorizations\<close>

definition has_used_card :: "int \<Rightarrow> db \<Rightarrow> bool" where
  "has_used_card uid d = list_ex (\<lambda>k. k_used_by k = Some uid \<and> k_used k) (cards d)"

definition mark_bot_trial_eligible_on_first_bind :: "int \<Rightarrow> datetime \<Rightarrow> db \<Rightarrow> db \<times> bool" where
  "mark_bot_trial_eligible_on_first_bind uid now d0 =
     (let d = fst (normalize_single_authorization_model uid now d0) in
      case get_user uid d of
        None \<Rightarrow> (d, False)
      | Some u \<Rightarrow>
          if u_trial_eligible_at u \<noteq> None \<or> u_trial_granted_at u \<noteq> None
             \<or> str_true (u_trial_authorization u)
          then (d, False)
          else if list_ex (\<lambda>s. s_user s = uid) (slots d) then (d, False)
          else if has_used_card uid d then (d, False)
          else (upd_user uid (\<lambda>u. u\<lparr>u_trial_eligible_at := Some now\<rparr>) d, True))"

definition grant_trial_authorization_if_eligible ::
  "int \<Rightarrow> string \<Rightarrow> datetime \<Rightarrow> db \<Rightarrow> db \<times> slot option" where
  "grant_trial_authorization_if_eligible uid aid now d0 =
     (let (d, ps, _) = normalize_single_authorization_model uid now d0 in
      case get_user uid d of
        None \<Rightarrow> (d, None)
      | Some u \<Rightarrow>
          if u_trial_granted_at u \<noteq> None \<or> str_true (u_trial_authorization u) then (d, None)
          else case get_account aid d of
            None \<Rightarrow> (d, None)
          | Some a \<Rightarrow>
              if a_user a \<noteq> uid then (d, None)
              else if has_used_card uid d \<or> ps \<noteq> None
              then (upd_user uid (\<lambda>u. u\<lparr>u_trial_eligible_at := None\<rparr>) d, None)
              else
                (let s = \<lparr>s_id = next_id d, s_user = uid, s_account = Some aid, s_card = None,
                          s_source = ''bot_trial'', s_days = bot_trial_duration_days, s_start = now,
                          s_end = now + days bot_trial_duration_days, s_status = ''active'',
                          s_created = now, s_updated = now\<rparr>;
                     d1 = add_binding (s_id s) aid now (add_slot s d);
                     d2 = upd_user uid
                            (\<lambda>u. u\<lparr>u_trial_eligible_at :=
                                     (case u_trial_eligible_at u of None \<Rightarrow> Some now | Some t \<Rightarrow> Some t),
                                   u_trial_granted_at := Some now,
                                   u_trial_authorization := Some (s_id s)\<rparr>) d1
                 in (d2, Some s)))"

section \<open>Account limit\<close>

record overview =
  o_accounts :: nat
  o_active :: bool
  o_expires :: "datetime option"

abbreviation (input) max_account_count :: nat where "max_account_count \<equiv> 1"

definition build_authorization_overview :: "int \<Rightarrow> datetime \<Rightarrow> db \<Rightarrow> db \<times> overview" where
  "build_authorization_overview uid now d0 =
     (let (d, ps, _) = normalize_single_authorization_model uid now d0;
          act = (case ps of None \<Rightarrow> False | Some s \<Rightarrow> valid_slot now s)
      in (d, \<lparr>o_accounts = count_active_accounts uid d, o_active = act,
              o_expires = (if act then map_option s_end ps else None)\<rparr>))"

definition ensure_can_add_tg_account ::
  "int \<Rightarrow> int option \<Rightarrow> datetime \<Rightarrow> db \<Rightarrow> db \<times> (overview + overview)" where
  "ensure_can_add_tg_account uid tg now d0 =
     (let d = fst (normalize_single_authorization_model uid now d0);
          known = (tg \<noteq> None
                   \<and> list_ex (\<lambda>a. a_user a = uid \<and> a_tg a = tg \<and> a_active a) (accounts d));
          (d', ov) = build_authorization_overview uid now d
      in if known then (d', Inr ov)
         else if max_account_count \<le> o_accounts ov then (d', Inl ov) else (d', Inr ov))"

section \<open>Cards\<close>

definition create_slot_from_card ::
  "int \<Rightarrow> card \<Rightarrow> int \<Rightarrow> string option \<Rightarrow> datetime \<Rightarrow> db \<Rightarrow> db \<times> slot" where
  "create_slot_from_card uid k n aid now d =
     (let s = \<lparr>s_id = next_id d, s_user = uid, s_account = opt_str (str_or aid []),
               s_card = Some (k_id k), s_source = ''card'', s_days = n, s_start = now,
               s_end = now + days n, s_status = ''active'', s_created = now, s_updated = now\<rparr>;
          d1 = add_usage \<lparr>g_slot = s_id s, g_card = k_id k, g_days = n, g_applied = now\<rparr> (add_slot s d)
      in (if str_true aid then add_binding (s_id s) (the aid) now d1 else d1, s))"

definition renewed_slot :: "card \<Rightarrow> int \<Rightarrow> datetime \<Rightarrow> slot \<Rightarrow> slot" where
  "renewed_slot k n now s =
     s\<lparr>s_end := (if now < s_end s then s_end s else now) + days n,
       s_days := s_days s + n, s_status := ''active'',
       s_card := (if int_true (s_card s) then s_card s else Some (k_id k)), s_updated := now\<rparr>"

definition renew_slot_with_card ::
  "slot \<Rightarrow> card \<Rightarrow> int \<Rightarrow> datetime \<Rightarrow> db \<Rightarrow> db \<times> slot" where
  "renew_slot_with_card s k n now d =
     (let s' = renewed_slot k n now s;
          d1 = add_usage \<lparr>g_slot = s_id s, g_card = k_id k, g_days = n, g_applied = now\<rparr>
                 (upd_slot (s_id s) (\<lambda>_. s') d)
      in (if str_true (s_account s) \<and> \<not> has_open_binding (s_id s) (the (s_account s)) d1
          then add_binding (s_id s) (the (s_account s)) now d1 else d1, s'))"

text \<open>
  The card is read without a row lock. What keeps two sessions from using it at the same time is
  the unique index over the cards of the usage table: the second insertion waits for the first
  session and then fails.
\<close>

definition activate_card_for_user ::
  "int \<Rightarrow> string \<Rightarrow> datetime \<Rightarrow> db \<Rightarrow> http_error + db \<times> slot" where
  "activate_card_for_user uid raw now d0 =
     (let (d, ps, pa) = normalize_single_authorization_model uid now d0;
          wanted = upper (strip raw)
      in if wanted = [] then Inl (Http 400 ''<empty card code>'')
         else case find_row (\<lambda>k. upper (k_code k) = wanted) (cards d) of
           None \<Rightarrow> Inl (Http 404 ''<card not found>'')
         | Some k \<Rightarrow>
             if \<not> k_active k then Inl (Http 400 ''<card inactive>'')
             else if k_used k then Inl (Http 400 ''<card already used>'')
             else if (case k_expires_at k of None \<Rightarrow> False | Some e \<Rightarrow> e \<le> now)
             then Inl (Http 400 ''<card expired>'')
             else
               (let n = resolve_card_duration_days k d in
                if n \<le> 0 then Inl (Http 400 ''<card has no duration>'')
                else if list_ex (\<lambda>g. g_card g = k_id k) (usages d) then Inl unhandled
                else
                  (let (d1, s) = (case ps of
                                    Some p \<Rightarrow> renew_slot_with_card p k n now d
                                  | None \<Rightarrow> create_slot_from_card uid k n (map_option a_id pa) now d)
                   in Inr (d1\<lparr>cards := upd_where (\<lambda>r. k_id r = k_id k)
                              (\<lambda>r. r\<lparr>k_used := True, k_used_by := Some uid, k_used_at := Some now\<rparr>)
                              (cards d1)\<rparr>, s))))"

section \<open>Binding and releasing\<close>

definition bind_current_authorization_to_account_if_possible ::
  "int \<Rightarrow> string \<Rightarrow> datetime \<Rightarrow> db \<Rightarrow> db \<times> slot option" where
  "bind_current_authorization_to_account_if_possible uid aid now d0 =
     (let (d1, ps, _) = normalize_single_authorization_model uid now d0;
          (d, m) = get_account_authorization_summary aid now d1
      in if m_can_create m then (d, get_slot (the (m_slot m)) d)
         else case ps of
           None \<Rightarrow> (d, None)
         | Some p \<Rightarrow>
             (let s = (case get_slot (s_id p) d of Some r \<Rightarrow> r | None \<Rightarrow> p) in
              if \<not> valid_slot now s then (d, Some s)
              else if str_true (s_account s) then (d, Some s)
              else
                (let s' = s\<lparr>s_account := Some aid, s_updated := now\<rparr>
                 in (add_binding (s_id s) aid now (upd_slot (s_id s) (\<lambda>_. s') d), Some s'))))"

text \<open>\<open>binding_map\<close> holds one row per slot, the last one read.\<close>

definition close_last_binding :: "string \<Rightarrow> string \<Rightarrow> datetime \<Rightarrow> slot \<Rightarrow> db \<Rightarrow> db" where
  "close_last_binding aid reason now s d =
     d\<lparr>bindings := upd_last
         (\<lambda>b. b_slot b = s_id s \<and> b_account b = aid \<and> b_unbind_at b = None)
         (\<lambda>b. b\<lparr>b_unbind_at := Some now, b_reason := Some reason\<rparr>) (bindings d)\<rparr>"

definition release_slots_for_account :: "string \<Rightarrow> string \<Rightarrow> datetime \<Rightarrow> db \<Rightarrow> db \<times> nat" where
  "release_slots_for_account aid reason now d =
     (let held = filter (\<lambda>s. s_account s = Some aid) (slots d);
          d1 = d\<lparr>slots := upd_where (\<lambda>s. s_account s = Some aid)
                 (\<lambda>s. s\<lparr>s_account := None,
                         s_status := (if s_end s \<le> now then ''expired'' else ''active''),
                         s_updated := now\<rparr>) (slots d)\<rparr>
      in (fold (close_last_binding aid reason now) held d1, length held))"

end
