(* ===== verification/Issues.thy ===== *)
theory Issues
  imports Schema "HOL-Library.Option_ord"
begin

text \<open>
  Per-target delivery state of a task: the classification of send errors
  (\<open>scheduler/core/task_issue_classifier.py\<close>), the runtime metadata kept in the JSON list
  \<open>target_peers\<close> and the issue rows (\<open>scheduler/core/task_issue_state.py\<close>), and the target
  selection of \<open>scheduler/core/task_execution.py\<close>.
\<close>

section \<open>Classification of send errors\<close>

text \<open>
  An exception as the classifier sees it: the name of its class, \<open>str(getattr(exc, "code", "") or "")\<close>
  and \<open>str(exc)\<close>.
\<close>

record exn =
  e_name :: string
  e_code :: string
  e_text :: string

record classification =
  cl_type :: string
  cl_category :: string
  cl_message :: string
  cl_suspend :: bool
  cl_reason :: "string option"
  cl_after :: "int option"

definition suspending :: "string \<Rightarrow> string \<Rightarrow> string \<Rightarrow> string \<Rightarrow> classification" where
  "suspending ty cat m reason =
     \<lparr>cl_type = ty, cl_category = cat, cl_message = m, cl_suspend = True,
      cl_reason = Some reason, cl_after = Some 1\<rparr>"

definition transient :: "string \<Rightarrow> string \<Rightarrow> string \<Rightarrow> classification" where
  "transient ty cat m =
     \<lparr>cl_type = ty, cl_category = cat, cl_message = m, cl_suspend = False,
      cl_reason = None, cl_after = None\<rparr>"

definition specialized_classifications :: "(string \<times> classification) list" where
  "specialized_classifications =
    [(''ChatSendPhotosForbiddenError'',
       suspending ''TARGET_PHOTO_FORBIDDEN'' ''media_permission_denied''
         ''<photos forbidden>'' ''target_photo_forbidden''),
     (''ChatSendVideosForbiddenError'',
       suspending ''TARGET_VIDEO_FORBIDDEN'' ''media_permission_denied''
         ''<videos forbidden>'' ''target_video_forbidden''),
     (''ChatSendGifsForbiddenError'',
       suspending ''TARGET_ANIMATION_FORBIDDEN'' ''media_permission_denied''
         ''<animations forbidden>'' ''target_animation_forbidden''),
     (''ChatSendMediaForbiddenError'',
       suspending ''TARGET_MEDIA_FORBIDDEN'' ''media_permission_denied''
         ''<media forbidden>'' ''target_media_forbidden''),
     (''UserBannedInChannelError'',
       suspending ''UserBannedInChannelError'' ''permission_denied''
         ''<no permission in this chat>'' ''user_banned_in_channel''),
     (''ChatWriteForbiddenError'',
       suspending ''ChatWriteForbiddenError'' ''permission_denied''
         ''<writing forbidden>'' ''chat_write_forbidden''),
     (''ChatSendPlainForbiddenError'',
       suspending ''ChatSendPlainForbiddenError'' ''permission_denied''
         ''<plain text forbidden>'' ''chat_send_plain_forbidden''),
     (''ChatRestrictedError'',
       suspending ''ChatRestrictedError'' ''permission_denied''
         ''<chat restricted>'' ''chat_restricted''),
     (''ChannelPrivateError'',
       suspending ''ChannelPrivateError'' ''target_inaccessible''
         ''<target inaccessible>'' ''channel_private''),
     (''RateLimiterTimeoutError'',
       transient ''RateLimiterTimeoutError'' ''rate_limit_timeout'' ''<no send slot, will retry>''),
     (''RateLimiterBackendUnavailableError'',
       transient ''RateLimiterBackendUnavailableError'' ''rate_limit_backend_unavailable''
         ''<rate limiter unavailable, will retry>'')]"

definition empty_result_text :: string where
  "empty_result_text = ''send_message returned empty''"

definition send_failed_message :: "string \<Rightarrow> string" where
  "send_failed_message detail =
     (if detail = [] then ''<send failed, will retry>''
      else (let d = strip (map (\<lambda>c. if code c = 10 then CHR '' '' else c) detail);
                d' = (if 120 < length d then take 117 d @ ''...'' else d)
            in ''<send failed, will retry> reason: '' @ d'))"

definition classify_task_send_error :: "exn \<Rightarrow> classification" where
  "classify_task_send_error e =
     (let detail = strip (e_text e); domain = strip (e_code e) in
      case map_of specialized_classifications (e_name e) of
        Some c \<Rightarrow> c
      | None \<Rightarrow>
          if domain \<noteq> []
          then transient domain ''task_media_contract''
                 (if detail = [] then ''<task media config invalid>'' else detail)
          else if detail = empty_result_text
          then \<lparr>cl_type = ''EmptyMessageResultError'', cl_category = ''empty_result'',
                 cl_message = ''<no receipt, suspended after repeated failures>'',
                 cl_suspend = False, cl_reason = Some ''empty_result'', cl_after = Some 3\<rparr>
          else transient (e_name e) ''send_error'' (send_failed_message detail))"

text \<open>The exception the runner makes up for a send without a receipt.\<close>

definition empty_result_exn :: exn where
  "empty_result_exn = \<lparr>e_name = ''RuntimeError'', e_code = [], e_text = empty_result_text\<rparr>"

text \<open>\<open>is_suspending c\<close>: the issue is suspended already at its first failure.\<close>

definition threshold_reached :: "classification \<Rightarrow> int \<Rightarrow> bool" where
  "threshold_reached c n = (case cl_after c of None \<Rightarrow> cl_suspend c | Some k \<Rightarrow> k \<le> n)"

section \<open>Targets in the JSON column\<close>

definition peer_types :: "string list" where
  "peer_types = [''user'', ''chat'', ''supergroup'', ''channel'']"

definition norm_type :: "json \<Rightarrow> string" where
  "norm_type v = lower (strip (str_or_empty v))"

definition list_items :: "json \<Rightarrow> json list" where
  "list_items v = (case v of JArr xs \<Rightarrow> xs | _ \<Rightarrow> [])"

text \<open>The \<open>(peer_type, peer_id)\<close> under which the code files an item, if it has one.\<close>

fun item_key :: "json \<Rightarrow> (string \<times> int) option" where
  "item_key (JObj d) =
     (case py_int (dget d ''peer_id'') of
        None \<Rightarrow> None
      | Some n \<Rightarrow> Some (norm_type (dget d ''peer_type''), n))"
| "item_key _ = None"

definition explicit_target :: "json \<Rightarrow> bool" where
  "explicit_target it = (case item_key it of None \<Rightarrow> False | Some (ty, _) \<Rightarrow> ty \<in> set peer_types)"

definition delivery_suspended :: "json \<Rightarrow> bool" where
  "delivery_suspended it =
     (case it of JObj d \<Rightarrow> norm_type (dget d ''delivery_status'') = ''suspended'' | _ \<Rightarrow> False)"

record target =
  sp_peer :: int
  sp_type :: string
  sp_hash :: json
  sp_title :: "string option"

definition target_key :: "target \<Rightarrow> string \<times> int" where
  "target_key s = (sp_type s, sp_peer s)"

definition coerce_hash :: "json \<Rightarrow> json" where
  "coerce_hash h =
     (if json_blank h then h else case py_int h of Some n \<Rightarrow> JInt n | None \<Rightarrow> JNull)"

definition count_configured_task_targets :: "task \<Rightarrow> nat" where
  "count_configured_task_targets t =
     (case t_targets t of
        JArr xs \<Rightarrow> length (filter explicit_target xs)
      | _ \<Rightarrow> if int_true (t_peer t) \<or> int_true (t_chat t) then 1 else 0)"

definition item_target :: "json \<Rightarrow> target option" where
  "item_target it =
     (case it of
        JObj d \<Rightarrow>
          (case item_key it of
             None \<Rightarrow> None
           | Some (ty, n) \<Rightarrow>
               if ty \<notin> set peer_types \<or> delivery_suspended it then None
               else Some \<lparr>sp_peer = n, sp_type = ty, sp_hash = coerce_hash (dget d ''access_hash''),
                          sp_title = opt_str (strip (str_or_empty (dget d ''title'')))\<rparr>)
      | _ \<Rightarrow> None)"

definition legacy_target :: "task \<Rightarrow> target list" where
  "legacy_target t =
     (let pid = (if int_true (t_peer t) then t_peer t else t_chat t);
          ty = lower (strip (str_or (t_peer_type t) ''user''))
      in case pid of
           None \<Rightarrow> []
         | Some n \<Rightarrow>
             if n = 0 then []
             else [\<lparr>sp_peer = n, sp_type = (if ty \<in> set peer_types then ty else ''user''),
                    sp_hash = (case t_hash t of None \<Rightarrow> JNull | Some h \<Rightarrow> JInt h),
                    sp_title = None\<rparr>])"

definition collect_task_targets :: "task \<Rightarrow> target list" where
  "collect_task_targets t =
     (let items = list_items (t_targets t);
          found = List.map_filter item_target items;
          targets = (if found = [] \<and> \<not> list_ex explicit_target items then legacy_target t else found)
      in dedupe target_key targets)"

fun find_message_id :: "int option \<Rightarrow> string \<times> int \<Rightarrow> json list \<Rightarrow> int option" where
  "find_message_id dflt key [] = dflt"
| "find_message_id dflt key (it # its) =
     (case it of
        JObj d \<Rightarrow>
          if item_key it = Some key
          then (let m = dget d ''last_sent_message_id'' in
                if json_blank m then dflt
                else case py_int m of Some n \<Rightarrow> Some n | None \<Rightarrow> dflt)
          else find_message_id dflt key its
      | _ \<Rightarrow> find_message_id dflt key its)"

definition get_target_last_message_id :: "task \<Rightarrow> int \<Rightarrow> string option \<Rightarrow> int option" where
  "get_target_last_message_id t pid ty =
     find_message_id (t_last_msg t) (lower (strip (str_or ty (str_or (t_peer_type t) []))), pid)
       (list_items (t_targets t))"

text \<open>\<open>target_message_ids\<close>: a dictionary in insertion order.\<close>

type_synonym message_ids = "((string \<times> int) \<times> int) list"

definition set_message_id :: "message_ids \<Rightarrow> json \<Rightarrow> json" where
  "set_message_id ids it =
     (case it of
        JObj d \<Rightarrow>
          (case item_key it of
             None \<Rightarrow> it
           | Some key \<Rightarrow>
               (case map_of ids key of
                  Some m \<Rightarrow> if m \<noteq> 0 then JObj (dset ''last_sent_message_id'' (JInt m) d) else it
                | None \<Rightarrow> it))
      | _ \<Rightarrow> it)"

definition update_task_target_last_message_ids :: "message_ids \<Rightarrow> task \<Rightarrow> task" where
  "update_task_target_last_message_ids ids t =
     (let t1 = (case t_targets t of
                  JArr (x # xs) \<Rightarrow> t\<lparr>t_targets := JArr (map (set_message_id ids) (x # xs))\<rparr>
                | _ \<Rightarrow> t)
      in case ids of
           [] \<Rightarrow> t1
         | [(_, m)] \<Rightarrow> t1\<lparr>t_last_msg := Some m\<rparr>
         | _ \<Rightarrow> t1\<lparr>t_last_msg := Some (snd (last ids))\<rparr>)"

section \<open>Runtime metadata of a target\<close>

definition target_identity :: "json \<Rightarrow> (string \<times> int \<times> int option) option" where
  "target_identity it =
     (case it of
        JObj d \<Rightarrow>
          (case item_key it of
             None \<Rightarrow> None
           | Some (ty, n) \<Rightarrow>
               if ty = [] then None
               else Some (ty, n, if json_blank (dget d ''access_hash'') then None
                                 else py_int (dget d ''access_hash'')))
      | _ \<Rightarrow> None)"

definition match_target :: "int \<Rightarrow> string \<Rightarrow> json \<Rightarrow> bool" where
  "match_target pid ty it = (item_key it = Some (lower (strip ty), pid))"

definition map_targets :: "(json \<Rightarrow> json) \<Rightarrow> task \<Rightarrow> task" where
  "map_targets f t =
     (case t_targets t of JArr xs \<Rightarrow> t\<lparr>t_targets := JArr (map f xs)\<rparr> | _ \<Rightarrow> t)"

definition upd_item :: "(dict \<Rightarrow> dict) \<Rightarrow> json \<Rightarrow> json" where
  "upd_item f it = (case it of JObj d \<Rightarrow> JObj (f d) | _ \<Rightarrow> it)"

definition failure_fields ::
  "string \<Rightarrow> string option \<Rightarrow> string \<Rightarrow> string \<Rightarrow> string option \<Rightarrow> dict \<Rightarrow> dict" where
  "failure_fields now_iso title etype emsg reason d =
     (let d1 = (if str_true title then dset ''title'' (JStr (strip (the title))) d else d);
          d2 = dset ''last_error_message'' (JStr emsg) (dset ''last_error_type'' (JStr etype) d1)
      in if str_true reason
         then dset ''suspended_at'' (JStr now_iso)
                (dset ''suspended_reason'' (JStr (the reason))
                  (dset ''delivery_status'' (JStr ''suspended'') d2))
         else dset ''suspended_at'' JNull
                (dset ''suspended_reason'' JNull
                  (dset ''delivery_status'' (JStr ''active'') d2)))"

definition update_task_target_failure_metadata ::
  "string \<Rightarrow> int \<Rightarrow> string \<Rightarrow> string option \<Rightarrow> string \<Rightarrow> string \<Rightarrow> string option \<Rightarrow> task \<Rightarrow> task" where
  "update_task_target_failure_metadata now_iso pid ty title etype emsg reason t =
     map_targets (\<lambda>it. if match_target pid ty it
                       then upd_item (failure_fields now_iso title etype emsg reason) it else it) t"

definition success_fields :: "dict \<Rightarrow> dict" where
  "success_fields d =
     dset ''last_error_message'' JNull
       (dset ''last_error_type'' JNull
         (dset ''suspended_at'' JNull
           (dset ''suspended_reason'' JNull
             (dset ''delivery_status'' (JStr ''active'') d))))"

definition update_task_target_success_metadata :: "int \<Rightarrow> string \<Rightarrow> task \<Rightarrow> task" where
  "update_task_target_success_metadata pid ty t =
     map_targets (\<lambda>it. if match_target pid ty it then upd_item success_fields it else it) t"

text \<open>\<open>existing_map\<close>: filed in order, a later item of the same key replaces an earlier one.\<close>

definition existing_map :: "json \<Rightarrow> (string \<times> int) \<Rightarrow> dict" where
  "existing_map existing key =
     (case List.find (\<lambda>it. item_key it = Some key \<and> fst key \<noteq> []) (rev (list_items existing)) of
        Some (JObj d) \<Rightarrow> d
      | _ \<Rightarrow> [])"

definition copy_field :: "dict \<Rightarrow> string \<Rightarrow> bool \<Rightarrow> dict \<Rightarrow> dict" where
  "copy_field src k c d = (if c then dset k (dget src k) d else d)"

definition merge_item :: "bool \<Rightarrow> dict \<Rightarrow> dict \<Rightarrow> dict" where
  "merge_item reset ex d =
     (let d1 = copy_field ex ''title''
                 (truthy (dget ex ''title'') \<and> \<not> truthy (dget d ''title'')) d;
          d2 = copy_field ex ''last_sent_message_id''
                 (\<not> json_blank (dget ex ''last_sent_message_id'')) d1;
          d3 = copy_field ex ''last_error_type'' (truthy (dget ex ''last_error_type'')) d2;
          d4 = copy_field ex ''last_error_message'' (truthy (dget ex ''last_error_message'')) d3
      in if reset
         then dset ''suspended_at'' JNull
                (dset ''suspended_reason'' JNull
                  (dset ''delivery_status'' (JStr ''active'') d4))
         else copy_field ex ''suspended_at'' (dhas ex ''suspended_at'')
                (copy_field ex ''suspended_reason'' (dhas ex ''suspended_reason'')
                  (copy_field ex ''delivery_status'' (dhas ex ''delivery_status'') d4)))"

text \<open>\<open>None\<close> is the exception of \<open>int(item["peer_id"])\<close> or of a missing key.\<close>

fun merge_target_runtime_metadata :: "dict list \<Rightarrow> json \<Rightarrow> bool \<Rightarrow> dict list option" where
  "merge_target_runtime_metadata [] existing reset = Some []"
| "merge_target_runtime_metadata (d # ds) existing reset =
     (if \<not> dhas d ''peer_id'' \<or> \<not> dhas d ''peer_type'' then None
      else case item_key (JObj d) of
        None \<Rightarrow> None
      | Some key \<Rightarrow>
          map_option (\<lambda>rest. merge_item reset (existing_map existing key) d # rest)
            (merge_target_runtime_metadata ds existing reset))"

definition has_target_collection_changed :: "dict list \<Rightarrow> json \<Rightarrow> bool" where
  "has_target_collection_changed incoming existing =
     (sort (List.map_filter target_identity (map JObj incoming))
        \<noteq> sort (List.map_filter target_identity (list_items existing)))"

section \<open>Issue rows\<close>

definition issue_at :: "string \<Rightarrow> int \<Rightarrow> string \<Rightarrow> issue \<Rightarrow> bool" where
  "issue_at tid pid ty i = (i_task i = tid \<and> i_peer i = pid \<and> i_peer_type i = ty)"

definition find_issue :: "string \<Rightarrow> int \<Rightarrow> string \<Rightarrow> db \<Rightarrow> issue option" where
  "find_issue tid pid ty d = find_row (issue_at tid pid ty) (issues d)"

definition clean_title :: "string option \<Rightarrow> string option \<Rightarrow> string option" where
  "clean_title title old = (if str_true title then opt_str (strip (the title)) else old)"

definition new_issue ::
  "datetime \<Rightarrow> task \<Rightarrow> int \<Rightarrow> string \<Rightarrow> string option \<Rightarrow> classification \<Rightarrow> issue" where
  "new_issue now t pid ty title c =
     \<lparr>i_task = t_id t, i_user = t_user t, i_account = opt_str (str_or (t_account t) []),
      i_peer = pid, i_peer_type = ty, i_title = clean_title title None,
      i_error_type = cl_type c, i_error_message = Some (cl_message c), i_category = cl_category c,
      i_status = ''active'', i_first_seen = now, i_last_seen = now,
      i_notified = None, i_muted_until = None,
      i_failures = 1, i_suspended = threshold_reached c 1,
      i_resolved_at = None, i_recovered_notified = None\<rparr>"

definition issue_changed :: "classification \<Rightarrow> issue \<Rightarrow> bool" where
  "issue_changed c i =
     (i_status i \<noteq> ''active'' \<or> i_error_type i \<noteq> cl_type c
      \<or> str_or (i_error_message i) [] \<noteq> cl_message c \<or> i_category i \<noteq> cl_category c)"

definition refresh_issue ::
  "datetime \<Rightarrow> task \<Rightarrow> string option \<Rightarrow> classification \<Rightarrow> issue \<Rightarrow> issue" where
  "refresh_issue now t title c i =
     (let changed = issue_changed c i;
          n = (if changed then 1 else i_failures i + 1);
          i1 = i\<lparr>i_account := opt_str (str_or (t_account t) []), i_user := t_user t,
                 i_title := clean_title title (i_title i),
                 i_error_type := cl_type c, i_error_message := Some (cl_message c),
                 i_category := cl_category c, i_status := ''active'', i_last_seen := now,
                 i_failures := n, i_suspended := threshold_reached c n,
                 i_resolved_at := None, i_recovered_notified := None\<rparr>
      in if changed then i1\<lparr>i_first_seen := now, i_notified := None, i_muted_until := None\<rparr>
         else i1)"

definition record_task_target_send_issue ::
  "datetime \<Rightarrow> task \<Rightarrow> int \<Rightarrow> string \<Rightarrow> string option \<Rightarrow> classification \<Rightarrow> db \<Rightarrow> db \<times> issue" where
  "record_task_target_send_issue now t pid ty title c d =
     (case find_issue (t_id t) pid ty d of
        None \<Rightarrow> (let i = new_issue now t pid ty title c in (d\<lparr>issues := issues d @ [i]\<rparr>, i))
      | Some i \<Rightarrow>
          (let i' = refresh_issue now t title c i
           in (d\<lparr>issues := upd_where (issue_at (t_id t) pid ty) (\<lambda>_. i') (issues d)\<rparr>, i')))"

definition resolve_task_target_send_issue :: "datetime \<Rightarrow> task \<Rightarrow> int \<Rightarrow> string \<Rightarrow> db \<Rightarrow> db" where
  "resolve_task_target_send_issue now t pid ty d =
     d\<lparr>issues := upd_where (\<lambda>i. issue_at (t_id t) pid ty i \<and> i_status i = ''active'')
        (\<lambda>i. i\<lparr>i_status := ''resolved'', i_failures := 0, i_suspended := False,
                i_resolved_at := Some now, i_recovered_notified := None\<rparr>) (issues d)\<rparr>"

end
