(* ===== verification/Observation.thy ===== *)
theory Observation
  imports Schema
begin

text \<open>
  Re-authorisation of an account (\<open>bot/account/reauth.py\<close>), the fixed proxy regions and the
  24-hour observation window after a proxy re-login (\<open>bot/account/proxy_observation.py\<close>).
  During the window one send is budgeted; the claim of the budget is one conditional
  \<open>UPDATE\<close>, whose row count tells the winner.
\<close>

section \<open>Accounts that must log in again\<close>

definition reauth_reasons :: "string list" where
  "reauth_reasons = [''session_unauthorized'', ''proxy_unavailable_direct'']"

definition is_reauth_required_reason :: "string option \<Rightarrow> bool" where
  "is_reauth_required_reason r = (lower (strip (str_or r [])) \<in> set reauth_reasons)"

definition is_reauth_required_account :: "account option \<Rightarrow> bool" where
  "is_reauth_required_account a =
     (case a of
        None \<Rightarrow> False
      | Some acc \<Rightarrow> a_reauth acc \<or> is_reauth_required_reason (a_reauth_reason acc))"

section \<open>Observation window\<close>

abbreviation (input) observation_hours :: int where "observation_hours \<equiv> 24"
abbreviation (input) observation_success_limit :: int where "observation_success_limit \<equiv> 1"

definition is_proxy_observation_active :: "account \<Rightarrow> datetime \<Rightarrow> bool" where
  "is_proxy_observation_active a now =
     (case a_obs_until a of None \<Rightarrow> False | Some u \<Rightarrow> now < u)"

definition proxy_observation_remaining_seconds :: "account \<Rightarrow> datetime \<Rightarrow> int" where
  "proxy_observation_remaining_seconds a now =
     (case a_obs_until a of None \<Rightarrow> 0 | Some u \<Rightarrow> max 0 (trunc_secs (u - now)))"

definition proxy_observation_has_send_budget :: "account \<Rightarrow> datetime \<Rightarrow> bool" where
  "proxy_observation_has_send_budget a now =
     (\<not> is_proxy_observation_active a now \<or> a_obs_count a < observation_success_limit)"

text \<open>The hours named in the message; 0 is the message without a number.\<close>

definition observation_block_hours :: "account \<Rightarrow> datetime \<Rightarrow> int" where
  "observation_block_hours a now =
     (let r = proxy_observation_remaining_seconds a now
      in if r = 0 then 0 else max 1 ((r + 3599) div 3600))"

definition start_proxy_observation :: "datetime \<Rightarrow> account \<Rightarrow> account" where
  "start_proxy_observation now a =
     a\<lparr>a_obs_started := Some now, a_obs_until := Some (now + hours observation_hours),
       a_obs_count := 0\<rparr>"

definition reset_proxy_observation :: "account \<Rightarrow> account" where
  "reset_proxy_observation a = a\<lparr>a_obs_started := None, a_obs_until := None, a_obs_count := 0\<rparr>"

definition claimable :: "string \<Rightarrow> datetime \<Rightarrow> account \<Rightarrow> bool" where
  "claimable aid now a =
     (a_id a = aid \<and> (case a_obs_until a of None \<Rightarrow> False | Some u \<Rightarrow> now < u)
      \<and> a_obs_count a < observation_success_limit)"

definition claim_proxy_observation_send_budget :: "string \<Rightarrow> datetime \<Rightarrow> db \<Rightarrow> db \<times> bool" where
  "claim_proxy_observation_send_budget aid now d =
     (d\<lparr>accounts := upd_where (claimable aid now)
          (\<lambda>a. a\<lparr>a_obs_count := observation_success_limit\<rparr>) (accounts d)\<rparr>,
      list_ex (claimable aid now) (accounts d))"

definition mark_proxy_observation_success :: "string \<Rightarrow> datetime \<Rightarrow> db \<Rightarrow> db \<times> bool" where
  "mark_proxy_observation_success aid now d = claim_proxy_observation_send_budget aid now d"

definition assert_account_can_create_task ::
  "string option \<Rightarrow> datetime \<Rightarrow> db \<Rightarrow> http_error + unit" where
  "assert_account_can_create_task aid now d =
     (if \<not> str_true aid then Inr ()
      else case get_account (the aid) d of
        None \<Rightarrow> Inr ()
      | Some a \<Rightarrow>
          if is_proxy_observation_active a now then Inl (Http 423 ''<proxy observation>'')
          else Inr ())"

section \<open>Fixed proxy regions\<close>

record region =
  r_code :: string
  r_label :: string
  r_host :: string
  r_port :: int

definition sing_box_proxy_regions :: "region list" where
  "sing_box_proxy_regions =
     [\<lparr>r_code = ''hk'', r_label = ''<Hong Kong>'', r_host = ''sing-box'', r_port = 10801\<rparr>,
      \<lparr>r_code = ''tw'', r_label = ''<Taiwan>'', r_host = ''sing-box'', r_port = 10802\<rparr>,
      \<lparr>r_code = ''jp'', r_label = ''<Japan>'', r_host = ''sing-box'', r_port = 10803\<rparr>,
      \<lparr>r_code = ''sg'', r_label = ''<Singapore>'', r_host = ''sing-box'', r_port = 10804\<rparr>,
      \<lparr>r_code = ''us1'', r_label = ''<US 1>'', r_host = ''sing-box'', r_port = 10805\<rparr>,
      \<lparr>r_code = ''us2'', r_label = ''<US 2>'', r_host = ''sing-box'', r_port = 10806\<rparr>,
      \<lparr>r_code = ''uk'', r_label = ''<UK>'', r_host = ''sing-box'', r_port = 10807\<rparr>]"

definition region_by_code :: "string \<Rightarrow> region option" where
  "region_by_code c = List.find (\<lambda>r. r_code r = c) sing_box_proxy_regions"

definition normalize_region_code :: "string \<Rightarrow> http_error + string" where
  "normalize_region_code c =
     (let n = lower (strip c)
      in if region_by_code n = None then Inl (Http 400 ''<unsupported region>'') else Inr n)"

definition next_proxy_id :: "db \<Rightarrow> int" where
  "next_proxy_id d = foldr max (map x_id (proxies d)) 0 + 1"

definition upsert_sing_box_proxy_region :: "region \<Rightarrow> db \<Rightarrow> http_error + db \<times> proxy" where
  "upsert_sing_box_proxy_region r d =
     (case find_row (\<lambda>x. x_type x = ''socks5'' \<and> x_host x = r_host r \<and> x_port x = r_port r)
             (proxies d) of
        None \<Rightarrow>
          (let x = \<lparr>x_id = next_proxy_id d, x_type = ''socks5'', x_host = r_host r, x_port = r_port r,
                    x_name = Some (r_label r), x_region = Some (r_code r), x_gateway = True,
                    x_shared = True, x_username = None, x_password = None, x_active = True,
                    x_healthy = True, x_checked = None, x_response = None, x_usage = 0, x_assigned = None\<rparr>
           in Inr (d\<lparr>proxies := proxies d @ [x]\<rparr>, x))
      | Some x \<Rightarrow>
          if \<not> x_active x \<or> \<not> x_healthy x then Inl (Http 409 ''<region unavailable>'')
          else (let x' = x\<lparr>x_name := Some (r_label r), x_region := Some (r_code r), x_gateway := True,
                           x_shared := True, x_assigned := None, x_username := None,
                           x_password := None\<rparr>
                in Inr (upd_proxy (x_id x) (\<lambda>_. x') d, x')))"

definition ensure_sing_box_proxy_region :: "string \<Rightarrow> db \<Rightarrow> http_error + db \<times> proxy" where
  "ensure_sing_box_proxy_region c d =
     (case normalize_region_code c of
        Inl e \<Rightarrow> Inl e
      | Inr n \<Rightarrow>
          (case region_by_code n of
             None \<Rightarrow> Inl (Http 400 ''<unsupported region>'')
           | Some r \<Rightarrow> upsert_sing_box_proxy_region r d))"

text \<open>
  The proxy is detached from the account that held it, and the account waits for a login.
\<close>

definition release_proxy :: "int option \<Rightarrow> string \<Rightarrow> db \<Rightarrow> db" where
  "release_proxy pid aid d =
     (case pid of
        None \<Rightarrow> d
      | Some p \<Rightarrow> d\<lparr>proxies := upd_where (\<lambda>x. x_id x = p \<and> x_assigned x = Some aid)
                    (\<lambda>x. x\<lparr>x_assigned := None\<rparr>) (proxies d)\<rparr>)"

definition await_relogin :: "int option \<Rightarrow> string \<Rightarrow> datetime \<Rightarrow> account \<Rightarrow> account" where
  "await_relogin pid reason now a =
     reset_proxy_observation
       (a\<lparr>a_proxy := pid, a_reauth := True, a_reauth_reason := Some reason,
          a_reauth_at := Some now, a_health := Offline\<rparr>)"

definition select_reauth_proxy_for_account ::
  "int \<Rightarrow> string \<Rightarrow> string \<Rightarrow> datetime \<Rightarrow> db \<Rightarrow> http_error + db \<times> proxy" where
  "select_reauth_proxy_for_account uid aid region now d =
     (case get_account aid d of
        None \<Rightarrow> Inl (Http 404 ''<account not found>'')
      | Some a \<Rightarrow>
          if a_user a \<noteq> uid then Inl (Http 404 ''<account not found>'')
          else case ensure_sing_box_proxy_region region d of
            Inl e \<Rightarrow> Inl e
          | Inr (d1, x) \<Rightarrow>
              (let d2 = (if int_true (a_proxy a) \<and> a_proxy a \<noteq> Some (x_id x)
                         then release_proxy (a_proxy a) aid d1 else d1)
               in Inr (upd_account aid (await_relogin (Some (x_id x)) ''proxy_region_selected'' now) d2,
                       x)))"

datatype login_route = RouteDirect | RouteFixedProxy | RouteSelectProxy

definition resolve_reauth_login_route ::
  "int \<Rightarrow> string \<Rightarrow> datetime \<Rightarrow> db \<Rightarrow> http_error + db \<times> login_route" where
  "resolve_reauth_login_route uid aid now d =
     (case get_account aid d of
        None \<Rightarrow> Inl (Http 404 ''<account not found>'')
      | Some a \<Rightarrow>
          if a_user a \<noteq> uid then Inl (Http 404 ''<account not found>'')
          else if \<not> int_true (a_proxy a)
          then Inr (d, if str_or (a_reauth_reason a) [] = ''proxy_unavailable_direct''
                       then RouteDirect else RouteSelectProxy)
          else case get_proxy (the (a_proxy a)) d of
            None \<Rightarrow> Inr (d, RouteSelectProxy)
          | Some x \<Rightarrow>
              if \<not> x_gateway x then Inr (d, RouteSelectProxy)
              else if x_active x \<and> x_healthy x then Inr (d, RouteFixedProxy)
              else Inr (upd_account aid (await_relogin None ''proxy_unavailable_direct'' now)
                          (release_proxy (a_proxy a) aid d), RouteDirect))"

end
