(* ===== verification/Lifecycle.thy ===== *)
theory Lifecycle
  imports Issues Observation
begin

text \<open>
  Task state transitions after an execution (\<open>scheduler/core/task_lifecycle.py\<close>): the daily
  time window, the effects of success and failure with the auto-disable policy, and the
  suspension of all tasks of an account.
\<close>

definition calculate_next_run :: "int \<Rightarrow> int \<Rightarrow> int" where
  "calculate_next_run now interval_min = now + interval_min * 60"

definition check_time_limit :: "task \<Rightarrow> int \<Rightarrow> int \<Rightarrow> bool \<times> int option" where
  "check_time_limit t hour now =
     (case (t_day_start t, t_day_end t) of
        (Some a, Some b) \<Rightarrow>
          if (if a \<le> b then a \<le> hour \<and> hour < b else a \<le> hour \<or> hour < b)
          then (True, None)
          else (False, Some (calculate_next_run now (t_repeat t)))
      | _ \<Rightarrow> (True, None))"

definition increment_messages_sent :: "string \<Rightarrow> datetime \<Rightarrow> db \<Rightarrow> db" where
  "increment_messages_sent aid dt d =
     upd_account aid (\<lambda>a. a\<lparr>a_sent := a_sent a + 1, a_last_used := Some dt\<rparr>) d"

definition success_task :: "int \<Rightarrow> message_ids \<Rightarrow> int \<Rightarrow> bool \<Rightarrow> task \<Rightarrow> task" where
  "success_task msg ids now advance t =
     (let t1 = (if ids \<noteq> [] then update_task_target_last_message_ids ids t
                else t\<lparr>t_last_msg := Some msg\<rparr>);
          t2 = t1\<lparr>t_failures := 0\<rparr>
      in if advance then t2\<lparr>t_next := Some (now + t_repeat t * 60)\<rparr> else t2)"

definition handle_task_success ::
  "string \<Rightarrow> int \<Rightarrow> message_ids \<Rightarrow> string option \<Rightarrow> int \<Rightarrow> trigger_source \<Rightarrow> bool \<Rightarrow> datetime \<Rightarrow> db \<Rightarrow> db" where
  "handle_task_success tid msg ids err now source advance dt d =
     (case get_task tid d of
        None \<Rightarrow> d
      | Some t \<Rightarrow>
          (let d1 = add_log \<lparr>l_task = tid, l_result = ''success'', l_source = source,
                             l_error = err, l_message = Some msg\<rparr> d;
               d2 = upd_task tid (success_task msg ids now advance) d1
           in if str_true (t_account t)
              then fst (mark_proxy_observation_success (the (t_account t)) dt
                          (increment_messages_sent (the (t_account t)) dt d2))
              else d2))"

definition failed_task :: "int \<Rightarrow> int \<Rightarrow> bool \<Rightarrow> bool \<Rightarrow> task \<Rightarrow> task" where
  "failed_task clock max_failures advance disable t =
     (let n = t_failures t + 1;
          t1 = t\<lparr>t_failures := n\<rparr>;
          t2 = (if advance then t1\<lparr>t_next := Some (clock + max 30 (t_repeat t * 60))\<rparr> else t1)
      in if disable \<and> max_failures \<le> n then t2\<lparr>t_enabled := False\<rparr> else t2)"

text \<open>\<open>clock\<close>: the Unix time read inside the handler.\<close>

definition handle_task_failure ::
  "string \<Rightarrow> string \<Rightarrow> int \<Rightarrow> trigger_source \<Rightarrow> bool \<Rightarrow> bool \<Rightarrow> int \<Rightarrow> db \<Rightarrow> db" where
  "handle_task_failure tid err max_failures source advance disable clock d =
     upd_task tid (failed_task clock max_failures advance disable)
       (add_log \<lparr>l_task = tid, l_result = ''failed'', l_source = source, l_error = Some err,
                 l_message = None\<rparr> d)"

definition suspend_account_tasks :: "string \<Rightarrow> int \<Rightarrow> db \<Rightarrow> db" where
  "suspend_account_tasks aid until d =
     d\<lparr>tasks := upd_where (\<lambda>t. t_account t = Some aid \<and> t_enabled t)
         (\<lambda>t. t\<lparr>t_next := Some (max (int_or (t_next t) 0) until)\<rparr>) (tasks d)\<rparr>"

section \<open>Readiness\<close>

text \<open>
  What a scheduler-triggered run must leave behind: a task that is disabled, or waits for a
  time after \<open>now\<close>. Without it the next scan would pick the task up again at once.
\<close>

definition rests :: "int \<Rightarrow> task \<Rightarrow> bool" where
  "rests now t = (\<not> t_enabled t \<or> (\<exists>n. t_next t = Some n \<and> now < n))"

definition task_rests :: "int \<Rightarrow> string \<Rightarrow> db \<Rightarrow> bool" where
  "task_rests now tid d = (case get_task tid d of None \<Rightarrow> True | Some t \<Rightarrow> rests now t)"

lemma map_targets_simps [simp]:
  "t_id (map_targets f t) = t_id t" "t_repeat (map_targets f t) = t_repeat t"
  "t_enabled (map_targets f t) = t_enabled t" "t_next (map_targets f t) = t_next t"
  "t_account (map_targets f t) = t_account t"
  by (auto simp: map_targets_def split: json.splits)

lemma last_message_ids_simps [simp]:
  "t_id (update_task_target_last_message_ids ids t) = t_id t"
  "t_repeat (update_task_target_last_message_ids ids t) = t_repeat t"
  "t_enabled (update_task_target_last_message_ids ids t) = t_enabled t"
  by (auto simp: update_task_target_last_message_ids_def Let_def
      split: json.splits list.splits prod.splits)

lemma success_task_simps [simp]:
  "t_id (success_task msg ids now advance t) = t_id t"
  "t_enabled (success_task msg ids now advance t) = t_enabled t"
  "t_failures (success_task msg ids now advance t) = 0"
  by (auto simp: success_task_def Let_def)

lemma success_task_next:
  "t_next (success_task msg ids now True t) = Some (now + t_repeat t * 60)"
  by (simp add: success_task_def Let_def)

lemma success_task_rests: "0 < t_repeat t \<Longrightarrow> rests now (success_task msg ids now True t)"
  by (simp add: rests_def success_task_next)

lemma failed_task_simps [simp]:
  "t_id (failed_task clock m advance disable t) = t_id t"
  "t_repeat (failed_task clock m advance disable t) = t_repeat t"
  by (simp_all add: failed_task_def Let_def)

lemma failed_task_rests: "now \<le> clock \<Longrightarrow> rests now (failed_task clock m True disable t)"
  by (simp add: rests_def failed_task_def Let_def max_def)

lemma tasks_frame [simp]:
  "tasks (add_log l d) = tasks d"
  "tasks (upd_account aid f d) = tasks d"
  "tasks (fst (claim_proxy_observation_send_budget aid now d)) = tasks d"
  "tasks (fst (mark_proxy_observation_success aid now d)) = tasks d"
  "tasks (increment_messages_sent aid now d) = tasks d"
  by (simp_all add: add_log_def upd_account_def claim_proxy_observation_send_budget_def
      mark_proxy_observation_success_def increment_messages_sent_def)

lemma get_task_frame [simp]:
  "get_task tid (add_log l d) = get_task tid d"
  "get_task tid (upd_account aid f d) = get_task tid d"
  "get_task tid (fst (claim_proxy_observation_send_budget aid now d)) = get_task tid d"
  "get_task tid (fst (mark_proxy_observation_success aid now d)) = get_task tid d"
  "get_task tid (increment_messages_sent aid now d) = get_task tid d"
  by (simp_all add: get_task_def)

lemma get_handle_task_failure:
  "get_task tid (handle_task_failure tid err m src advance disable clock d) =
     map_option (failed_task clock m advance disable) (get_task tid d)"
  by (simp add: handle_task_failure_def get_task_upd_same)

lemma get_handle_task_success:
  "get_task tid (handle_task_success tid msg ids err now src advance dt d) =
     map_option (success_task msg ids now advance) (get_task tid d)"
  by (auto simp: handle_task_success_def Let_def get_task_upd_same split: option.splits)

lemma get_suspend_account_tasks:
  "get_task tid (suspend_account_tasks aid until d) =
     map_option (\<lambda>t. if t_account t = Some aid \<and> t_enabled t
                      then t\<lparr>t_next := Some (max (int_or (t_next t) 0) until)\<rparr> else t)
       (get_task tid d)"
  by (simp add: suspend_account_tasks_def get_task_def find_row_upd_same)

lemma handle_task_failure_rests:
  "now \<le> clock \<Longrightarrow> task_rests now tid (handle_task_failure tid err m src True disable clock d)"
  by (auto simp: task_rests_def get_handle_task_failure failed_task_rests split: option.splits)

lemma suspend_account_tasks_rests:
  "task_rests now tid d \<Longrightarrow> task_rests now tid (suspend_account_tasks aid until d)"
  by (auto simp: task_rests_def get_suspend_account_tasks rests_def int_or_def split: option.splits)

lemma handle_task_success_rests:
  "(\<And>t. get_task tid d = Some t \<Longrightarrow> 0 < t_repeat t) \<Longrightarrow>
   task_rests now tid (handle_task_success tid msg ids err now src True dt d)"
  by (auto simp: task_rests_def get_handle_task_success success_task_rests split: option.splits)

end
