(* ===== verification/Contract.thy ===== *)
theory Contract
  imports Issues
begin

text \<open>
  The task-media contract (\<open>task_media/contract.py\<close>): lengths in UTF-16 units, the limits of
  a message and of a media caption, and the classification of a Telegram message as one
  photo, video or animation. The media of a message is what the code inspects of Telethon's
  objects: the class, the id, the document attributes.
\<close>

definition task_media_error :: "string \<Rightarrow> string \<Rightarrow> exn" where
  "task_media_error c m = \<lparr>e_name = ''TaskMediaError'', e_code = c, e_text = m\<rparr>"

section \<open>Lengths\<close>

definition utf16_units :: "nat \<Rightarrow> nat" where
  "utf16_units c = (if 65536 \<le> c then 2 else 1)"

definition utf16_length :: "ptext option \<Rightarrow> nat" where
  "utf16_length t = (case t of None \<Rightarrow> 0 | Some cs \<Rightarrow> sum_list (map utf16_units cs))"

abbreviation (input) max_media_caption_utf16 :: nat where "max_media_caption_utf16 \<equiv> 1024"
abbreviation (input) max_text_message_utf16 :: nat where "max_text_message_utf16 \<equiv> 4096"

definition validate_message_length :: "ptext option \<Rightarrow> bool \<Rightarrow> exn + unit" where
  "validate_message_length t has_media =
     (if utf16_length t \<le> (if has_media then max_media_caption_utf16 else max_text_message_utf16)
      then Inr ()
      else Inl (task_media_error
                  (if has_media then ''MEDIA_CAPTION_TOO_LONG'' else ''TEXT_MESSAGE_TOO_LONG'')
                  ''<message exceeds the Telegram limit>''))"

lemma utf16_length_append:
  "utf16_length (Some (xs @ ys)) = utf16_length (Some xs) + utf16_length (Some ys)"
  by (simp add: utf16_length_def)

lemma utf16_length_ge: "length xs \<le> utf16_length (Some xs)"
  by (induction xs) (auto simp: utf16_length_def utf16_units_def)

section \<open>Media classification\<close>

record video_info =
  v_width :: int
  v_height :: int
  v_duration :: int
  v_round :: bool

datatype doc_attribute =
  AttrFilename string | AttrVideo video_info | AttrAnimated | AttrSticker | AttrOther

record document =
  dc_id :: "int option"
  dc_mime :: "string option"
  dc_size :: "int option"
  dc_attributes :: "doc_attribute list"

datatype tg_media = MediaPhoto "int option" | MediaDocument document | MediaOther

record tg_message =
  mg_grouped :: "int option"
  mg_media :: "tg_media option"

record classified =
  cf_type :: string
  cf_id :: int
  cf_meta :: dict

fun attribute_meta :: "doc_attribute \<Rightarrow> dict \<Rightarrow> dict" where
  "attribute_meta (AttrFilename f) d = dset ''filename'' (JStr f) d"
| "attribute_meta (AttrVideo v) d =
     dset ''duration'' (JInt (v_duration v))
       (dset ''height'' (JInt (v_height v)) (dset ''width'' (JInt (v_width v)) d))"
| "attribute_meta _ d = d"

definition document_meta :: "document \<Rightarrow> dict" where
  "document_meta dc =
     filter (\<lambda>(k, v). v \<noteq> JNull)
       (fold attribute_meta (dc_attributes dc)
         [(''mime_type'', case dc_mime dc of None \<Rightarrow> JNull | Some m \<Rightarrow> JStr m),
          (''size'', case dc_size dc of None \<Rightarrow> JNull | Some n \<Rightarrow> JInt n)])"

definition first_video :: "doc_attribute list \<Rightarrow> video_info option" where
  "first_video attrs =
     (case List.map_filter (\<lambda>a. case a of AttrVideo v \<Rightarrow> Some v | _ \<Rightarrow> None) attrs of
        [] \<Rightarrow> None | v # _ \<Rightarrow> Some v)"

definition unsupported :: "string \<Rightarrow> exn + classified" where
  "unsupported m = Inl (task_media_error ''MEDIA_SOURCE_TYPE_UNSUPPORTED'' m)"

definition classify_message_media :: "tg_message \<Rightarrow> exn + classified" where
  "classify_message_media m =
     (if mg_grouped m \<noteq> None then unsupported ''<albums unsupported>''
      else case mg_media m of
        Some (MediaPhoto None) \<Rightarrow> unsupported ''<incomplete photo>''
      | Some (MediaPhoto (Some n)) \<Rightarrow> Inr \<lparr>cf_type = ''photo'', cf_id = n, cf_meta = []\<rparr>
      | Some (MediaDocument dc) \<Rightarrow>
          (case dc_id dc of
             None \<Rightarrow> unsupported ''<incomplete document>''
           | Some n \<Rightarrow>
               if AttrSticker \<in> set (dc_attributes dc) then unsupported ''<stickers unsupported>''
               else if AttrAnimated \<in> set (dc_attributes dc)
               then Inr \<lparr>cf_type = ''animation'', cf_id = n, cf_meta = document_meta dc\<rparr>
               else if (case first_video (dc_attributes dc) of None \<Rightarrow> False | Some v \<Rightarrow> \<not> v_round v)
               then Inr \<lparr>cf_type = ''video'', cf_id = n, cf_meta = document_meta dc\<rparr>
               else unsupported ''<only photo, video or animation>'')
      | _ \<Rightarrow> unsupported ''<only photo, video or animation>'')"

lemma classify_supported:
  "classify_message_media m = Inr c \<Longrightarrow> cf_type c \<in> {''photo'', ''video'', ''animation''}"
  by (auto simp: classify_message_media_def unsupported_def
      split: if_splits option.splits tg_media.splits)

lemma classify_not_album: "classify_message_media m = Inr c \<Longrightarrow> mg_grouped m = None \<and> mg_media m \<noteq> None"
  by (auto simp: classify_message_media_def unsupported_def
      split: if_splits option.splits tg_media.splits)

end
