(* ===== verification/World.thy ===== *)
theory World
  imports Contract Observation
begin

text \<open>
  The outside of the backend, as parameters. A value of type \<open>'x\<close> is the state of the world
  the code does not own: the clock, Redis, Telegram, the random generator. The records below
  hold the operations the code calls on it; nothing is assumed of them here, and the
  properties that rely on their documented behaviour name it as hypotheses. A Redis call
  either answers or raises (\<open>Inl\<close>).

  \<open>sys\<close> is the state of one backend process: its database, the world, and the pending
  recovery tasks of the circuit breaker (account and delay).
\<close>

record 'x clock_ops =
  now_of :: "'x \<Rightarrow> datetime"
  sleep_for :: "int \<Rightarrow> 'x \<Rightarrow> 'x"

record 'x redis_ops = "'x clock_ops" +
  set_nx :: "string \<Rightarrow> string \<Rightarrow> int \<Rightarrow> 'x \<Rightarrow> 'x \<times> (exn + bool)"
  get_key :: "string \<Rightarrow> 'x \<Rightarrow> 'x \<times> (exn + string option)"
  del_key :: "string \<Rightarrow> 'x \<Rightarrow> 'x \<times> (exn + int)"
  expire_key :: "string \<Rightarrow> int \<Rightarrow> 'x \<Rightarrow> 'x \<times> (exn + int)"
  ttl_key :: "string \<Rightarrow> 'x \<Rightarrow> 'x \<times> (exn + int)"

text \<open>Errors of a send: the two flood errors of Telethon, and every other exception.\<close>

datatype send_error = FloodWait int | PeerFlood string | OtherError exn

fun error_text :: "send_error \<Rightarrow> string" where
  "error_text (FloodWait n) = ''A wait of '' @ show_int n @ '' seconds is required''"
| "error_text (PeerFlood s) = s"
| "error_text (OtherError e) = e_text e"

text \<open>What a send returns: the id of the new message, if the client gave one.\<close>

type_synonym send_result = "send_error + int option"

datatype media_ref = MediaPath string | MediaObj tg_media

record content =
  ct_target :: json
  ct_text :: "ptext option"
  ct_media :: "media_ref option"

text \<open>\<open>get_me\<close>: no client, a user, nothing, or an exception.\<close>

datatype probe = NoClient | MeOk | MeEmpty | MeRaises

record 'x tg_ops = "'x redis_ops" +
  rand_int :: "int \<Rightarrow> int \<Rightarrow> 'x \<Rightarrow> 'x \<times> int"
  client_of :: "string \<Rightarrow> 'x \<Rightarrow> 'x \<times> bool"
  get_me :: "string \<Rightarrow> 'x \<Rightarrow> 'x \<times> probe"
  input_peer :: "string \<Rightarrow> int \<Rightarrow> string \<Rightarrow> json \<Rightarrow> 'x \<Rightarrow> 'x \<times> (exn + json option)"
  input_entity :: "int \<Rightarrow> 'x \<Rightarrow> 'x \<times> (exn + json)"
  dialogs :: "'x \<Rightarrow> 'x \<times> (exn + (int option \<times> json) list)"
  html_text :: "ptext \<Rightarrow> ptext"
  saved_message :: "int \<Rightarrow> 'x \<Rightarrow> 'x \<times> (send_error + tg_message option)"
  file_exists :: "string \<Rightarrow> 'x \<Rightarrow> bool"
  tg_send :: "content \<Rightarrow> 'x \<Rightarrow> 'x \<times> send_result"
  tg_delete :: "json \<Rightarrow> int \<Rightarrow> 'x \<Rightarrow> 'x \<times> bool"
  tg_pin :: "json \<Rightarrow> int \<Rightarrow> 'x \<Rightarrow> 'x \<times> bool"
  notify :: "string \<Rightarrow> string \<Rightarrow> 'x \<Rightarrow> 'x"
  iso_of :: "datetime \<Rightarrow> string"
  hour_of :: "datetime \<Rightarrow> int"

text \<open>
  Hypotheses on the world, for the properties that need them: the clock does not run
  backwards during a call, and a sleep takes at least as long as asked.
\<close>

definition clock_forward :: "('x, 'm) tg_ops_scheme \<Rightarrow> bool" where
  "clock_forward ops \<longleftrightarrow>
     (\<forall>n x. now_of ops x \<le> now_of ops (sleep_for ops n x)) \<and>
     (\<forall>k v n x. now_of ops x \<le> now_of ops (fst (set_nx ops k v n x))) \<and>
     (\<forall>k x. now_of ops x \<le> now_of ops (fst (del_key ops k x))) \<and>
     (\<forall>a b x. now_of ops x \<le> now_of ops (fst (rand_int ops a b x))) \<and>
     (\<forall>k x. now_of ops x \<le> now_of ops (fst (client_of ops k x))) \<and>
     (\<forall>k x. now_of ops x \<le> now_of ops (fst (get_me ops k x))) \<and>
     (\<forall>a n t h x. now_of ops x \<le> now_of ops (fst (input_peer ops a n t h x))) \<and>
     (\<forall>n x. now_of ops x \<le> now_of ops (fst (input_entity ops n x))) \<and>
     (\<forall>x. now_of ops x \<le> now_of ops (fst (dialogs ops x))) \<and>
     (\<forall>n x. now_of ops x \<le> now_of ops (fst (saved_message ops n x))) \<and>
     (\<forall>c x. now_of ops x \<le> now_of ops (fst (tg_send ops c x))) \<and>
     (\<forall>p n x. now_of ops x \<le> now_of ops (fst (tg_delete ops p n x))) \<and>
     (\<forall>p n x. now_of ops x \<le> now_of ops (fst (tg_pin ops p n x))) \<and>
     (\<forall>k a x. now_of ops x \<le> now_of ops (notify ops k a x))"

definition sleep_elapses :: "('x, 'm) tg_ops_scheme \<Rightarrow> bool" where
  "sleep_elapses ops \<longleftrightarrow> (\<forall>n x. now_of ops x + n \<le> now_of ops (sleep_for ops n x))"

record 'x sys =
  sdb :: db
  sx :: 'x
  recov :: "(string \<times> int) list"

definition on_db :: "(db \<Rightarrow> db) \<Rightarrow> 'x sys \<Rightarrow> 'x sys" where
  "on_db f s = s\<lparr>sdb := f (sdb s)\<rparr>"

definition on_x :: "('x \<Rightarrow> 'x) \<Rightarrow> 'x sys \<Rightarrow> 'x sys" where
  "on_x f s = s\<lparr>sx := f (sx s)\<rparr>"

definition with_x :: "('x \<Rightarrow> 'x \<times> 'r) \<Rightarrow> 'x sys \<Rightarrow> 'x sys \<times> 'r" where
  "with_x f s = (let (x, r) = f (sx s) in (s\<lparr>sx := x\<rparr>, r))"

lemma sdb_on_db [simp]: "sdb (on_db f s) = f (sdb s)"
  by (simp add: on_db_def)

lemma sx_on_db [simp]: "sx (on_db f s) = sx s" "recov (on_db f s) = recov s"
  by (simp_all add: on_db_def)

lemma sdb_on_x [simp]: "sdb (on_x f s) = sdb s" "recov (on_x f s) = recov s"
  by (simp_all add: on_x_def)

lemma sx_on_x [simp]: "sx (on_x f s) = f (sx s)"
  by (simp add: on_x_def)

lemma sdb_with_x [simp]: "sdb (fst (with_x f s)) = sdb s" "recov (fst (with_x f s)) = recov s"
  by (simp_all add: with_x_def split: prod.splits)

lemma with_x_eq: "with_x f s = (s', r) \<Longrightarrow> sdb s' = sdb s \<and> recov s' = recov s"
  by (auto simp: with_x_def split: prod.splits)

end
