(* ===== verification/Breaker.thy ===== *)
theory Breaker
  imports World
begin

text \<open>
  The circuit breaker (\<open>bot/circuit/breaker.py\<close>) and its recovery helpers
  (\<open>bot/circuit/recovery.py\<close>) together with the account updates they rest on
  (\<open>bot/account/manager.py\<close>, \<open>bot/account/health_selection.py\<close>). An asyncio recovery task
  is an entry of \<open>recov\<close>; running it is \<open>recover_account\<close>.
\<close>

datatype flood_action = Retry | Skip | Ban

abbreviation (input) flood_wait_ban_threshold :: int where "flood_wait_ban_threshold \<equiv> 86400"
abbreviation (input) peer_flood_ban_seconds :: int where "peer_flood_ban_seconds \<equiv> 86400"

definition mark_flooding :: "datetime \<Rightarrow> account \<Rightarrow> account" where
  "mark_flooding until a = a\<lparr>a_flooding := True, a_flood_until := Some until\<rparr>"

definition clear_flood :: "account \<Rightarrow> account" where
  "clear_flood a = a\<lparr>a_banned := False, a_flooding := False, a_flood_until := None\<rparr>"

definition start_recovery_task :: "string \<Rightarrow> int \<Rightarrow> 'x sys \<Rightarrow> 'x sys" where
  "start_recovery_task aid delay s = s\<lparr>recov := AList.update aid delay (recov s)\<rparr>"

definition handle_flood_wait ::
  "('x, 'm) tg_ops_scheme \<Rightarrow> string \<Rightarrow> int \<Rightarrow> 'x sys \<Rightarrow> 'x sys \<times> flood_action" where
  "handle_flood_wait ops aid seconds s =
     (let until = now_of ops (sx s) + secs seconds in
      if flood_wait_ban_threshold \<le> seconds
      then
        (let s1 = on_db (upd_account aid (\<lambda>a. mark_flooding until (a\<lparr>a_banned := True\<rparr>))) s;
             s2 = on_x (notify ops ''flood_ban'' aid) s1
         in (start_recovery_task aid seconds s2, Ban))
      else
        (let s1 = on_db (upd_account aid (mark_flooding until)) s in
         if seconds \<le> 300 then (start_recovery_task aid seconds s1, Retry)
         else (on_x (notify ops ''flood_wait'' aid) (start_recovery_task aid seconds s1), Skip)))"

definition handle_peer_flood ::
  "('x, 'm) tg_ops_scheme \<Rightarrow> string \<Rightarrow> 'x sys \<Rightarrow> 'x sys \<times> datetime" where
  "handle_peer_flood ops aid s =
     (let until = now_of ops (sx s) + secs peer_flood_ban_seconds;
          s1 = on_db (upd_account aid (mark_flooding until)) s
      in (on_x (notify ops ''flood_wait'' aid) s1, until))"

definition flood_expired :: "datetime \<Rightarrow> account \<Rightarrow> bool" where
  "flood_expired now a =
     ((a_flooding a \<or> a_banned a) \<and> (case a_flood_until a of None \<Rightarrow> False | Some u \<Rightarrow> u \<le> now))"

definition reconcile_account_flood_state ::
  "('x, 'm) tg_ops_scheme \<Rightarrow> string \<Rightarrow> 'x sys \<Rightarrow> 'x sys \<times> account option" where
  "reconcile_account_flood_state ops aid s =
     (case get_account aid (sdb s) of
        None \<Rightarrow> (s, None)
      | Some a \<Rightarrow>
          if \<not> flood_expired (now_of ops (sx s)) a then (s, Some a)
          else (let s1 = on_db (upd_account aid clear_flood) s
                in (s1, get_account aid (sdb s1))))"

definition update_health_status :: "string \<Rightarrow> health \<Rightarrow> 'x sys \<Rightarrow> 'x sys" where
  "update_health_status aid h s = on_db (upd_account aid (\<lambda>a. a\<lparr>a_health := h\<rparr>)) s"

definition health_check ::
  "('x, 'm) tg_ops_scheme \<Rightarrow> string \<Rightarrow> 'x sys \<Rightarrow> 'x sys \<times> health" where
  "health_check ops aid s =
     (let (s1, r) = with_x (get_me ops aid) s in
      case r of
        NoClient \<Rightarrow> (s1, Offline)
      | MeOk \<Rightarrow> (update_health_status aid Online s1, Online)
      | MeEmpty \<Rightarrow> (s1, Offline)
      | MeRaises \<Rightarrow> (update_health_status aid Offline s1, Offline))"

definition check_session_health ::
  "('x, 'm) tg_ops_scheme \<Rightarrow> string \<Rightarrow> 'x sys \<Rightarrow> 'x sys \<times> bool" where
  "check_session_health ops aid s =
     (let (s1, r) = with_x (get_me ops aid) s in
      case r of
        NoClient \<Rightarrow> (s1, False)
      | MeOk \<Rightarrow> (update_health_status aid Online s1, True)
      | MeEmpty \<Rightarrow> (s1, False)
      | MeRaises \<Rightarrow> (update_health_status aid Offline s1, False))"

definition recover_account :: "('x, 'm) tg_ops_scheme \<Rightarrow> string \<Rightarrow> 'x sys \<Rightarrow> 'x sys" where
  "recover_account ops aid s =
     (let (s1, acc) = reconcile_account_flood_state ops aid s in
      case acc of
        None \<Rightarrow> s1
      | Some a \<Rightarrow>
          (let now = now_of ops (sx s1) in
           if (case a_flood_until a of None \<Rightarrow> False | Some u \<Rightarrow> now < u)
           then start_recovery_task aid (trunc_secs (the (a_flood_until a) - now) + 1) s1
           else
             (let (s2, h) = health_check ops aid (on_db (upd_account aid clear_flood) s1)
              in if h = Online then on_x (notify ops ''recovered'' aid) s2 else s2)))"

definition value_error :: "string \<Rightarrow> send_error" where
  "value_error m = OtherError \<lparr>e_name = ''ValueError'', e_code = [], e_text = m\<rparr>"

definition session_keywords :: "string list" where
  "session_keywords = [''session'', ''authorized'', ''key'', ''deactivated'']"

definition session_lost :: "send_error \<Rightarrow> bool" where
  "session_lost e = list_ex (\<lambda>k. contains k (lower (error_text e))) session_keywords"

text \<open>The checks before the call: \<open>Inl\<close> is the exception they raise.\<close>

definition admit ::
  "('x, 'm) tg_ops_scheme \<Rightarrow> string \<Rightarrow> 'x sys \<Rightarrow> 'x sys \<times> (send_error + account)" where
  "admit ops aid s =
     (let (s1, acc) = reconcile_account_flood_state ops aid s in
      case acc of
        None \<Rightarrow> (s1, Inl (value_error (''<account missing>: '' @ aid)))
      | Some a \<Rightarrow>
          (let now = now_of ops (sx s1) in
           if a_flooding a \<and> a_flood_until a \<noteq> None
           then
             if now < the (a_flood_until a)
             then (s1, Inl (FloodWait (trunc_secs (the (a_flood_until a) - now))))
             else
               (let s2 = recover_account ops aid s1 in
                case get_account aid (sdb s2) of
                  None \<Rightarrow> (s2, Inl (value_error (''<account missing>: '' @ aid)))
                | Some a' \<Rightarrow>
                    if a_banned a' then (s2, Inl (value_error (''<account banned>: '' @ aid)))
                    else (s2, Inr a'))
           else if a_banned a then (s1, Inl (value_error (''<account banned>: '' @ aid)))
           else (s1, Inr a)))"

definition execute_with_circuit_breaker ::
  "('x, 'm) tg_ops_scheme \<Rightarrow> string \<Rightarrow> ('x sys \<Rightarrow> 'x sys \<times> send_result) \<Rightarrow> 'x sys
     \<Rightarrow> 'x sys \<times> send_result" where
  "execute_with_circuit_breaker ops aid func s =
     (case admit ops aid s of
        (s1, Inl e) \<Rightarrow> (s1, Inl e)
      | (s1, Inr _) \<Rightarrow>
          (case func s1 of
             (s2, Inr m) \<Rightarrow> (s2, Inr m)
           | (s2, Inl (FloodWait n)) \<Rightarrow>
               (case handle_flood_wait ops aid n s2 of
                  (s3, Retry) \<Rightarrow> func (on_x (sleep_for ops (secs n)) s3)
                | (s3, _) \<Rightarrow> (s3, Inl (FloodWait n)))
           | (s2, Inl e) \<Rightarrow>
               (if session_lost e
                then (on_x (notify ops ''session_invalid'' aid) (update_health_status aid Offline s2),
                      Inl e)
                else (s2, Inl e))))"

end
