(* ===== verification/RateLimit.thy ===== *)
theory RateLimit
  imports World
begin

text \<open>
  The multi-level rate limiter (\<open>bot/safety/rate_limiter.py\<close>): Redis operations with one
  retry, the account and peer locks, the waiting loop, and the zero-width variation of a
  text. Times are microseconds; Redis answers or raises, as the world decides.
\<close>

section \<open>Redis operations with one retry\<close>

definition backend_unavailable :: "string \<Rightarrow> exn" where
  "backend_unavailable op_name =
     \<lparr>e_name = ''RateLimiterBackendUnavailableError'', e_code = [],
      e_text = ''rate limiter backend unavailable during '' @ op_name\<rparr>"

definition run_redis_op ::
  "string \<Rightarrow> ('x \<Rightarrow> 'x \<times> (exn + 'r)) \<Rightarrow> 'x \<Rightarrow> 'x \<times> (exn + 'r)" where
  "run_redis_op op_name f x =
     (case f x of
        (x1, Inr v) \<Rightarrow> (x1, Inr v)
      | (x1, Inl e) \<Rightarrow>
          if e_name e = ''RateLimiterBackendUnavailableError'' then (x1, Inl e)
          else (case f x1 of
                  (x2, Inr v) \<Rightarrow> (x2, Inr v)
                | (x2, Inl _) \<Rightarrow> (x2, Inl (backend_unavailable op_name))))"

section \<open>Locks\<close>

definition account_lock_key :: "string \<Rightarrow> string" where
  "account_lock_key aid = ''lock:account:'' @ aid"

definition peer_lock_key :: "int \<Rightarrow> string" where
  "peer_lock_key pid = ''lock:peer:'' @ show_int pid"

abbreviation (input) account_lock_ttl :: int where "account_lock_ttl \<equiv> 1"
abbreviation (input) peer_lock_ttl :: int where "peer_lock_ttl \<equiv> 2"

definition acquire_account_lock ::
  "('x, 'm) redis_ops_scheme \<Rightarrow> string \<Rightarrow> 'x \<Rightarrow> 'x \<times> (exn + bool)" where
  "acquire_account_lock ops aid =
     run_redis_op ''acquire_account_lock'' (set_nx ops (account_lock_key aid) ''1'' account_lock_ttl)"

definition acquire_peer_lock ::
  "('x, 'm) redis_ops_scheme \<Rightarrow> int \<Rightarrow> 'x \<Rightarrow> 'x \<times> (exn + bool)" where
  "acquire_peer_lock ops pid =
     run_redis_op ''acquire_peer_lock'' (set_nx ops (peer_lock_key pid) ''1'' peer_lock_ttl)"

definition release_account_lock ::
  "('x, 'm) redis_ops_scheme \<Rightarrow> string \<Rightarrow> 'x \<Rightarrow> 'x \<times> (exn + int)" where
  "release_account_lock ops aid =
     run_redis_op ''release_account_lock'' (del_key ops (account_lock_key aid))"

definition release_peer_lock ::
  "('x, 'm) redis_ops_scheme \<Rightarrow> int \<Rightarrow> 'x \<Rightarrow> 'x \<times> (exn + int)" where
  "release_peer_lock ops pid =
     run_redis_op ''release_peer_lock'' (del_key ops (peer_lock_key pid))"

section \<open>Waiting for a slot\<close>

definition slot_timeout :: "string \<Rightarrow> int \<Rightarrow> exn" where
  "slot_timeout aid pid =
     \<lparr>e_name = ''RateLimiterTimeoutError'', e_code = [],
      e_text = ''<no send slot>: account='' @ aid @ '', peer='' @ show_int pid\<rparr>"

abbreviation (input) poll_interval :: int where "poll_interval \<equiv> 100000"

text \<open>One round of the loop: a final result, or the state in which the next round starts.\<close>

definition slot_round ::
  "('x, 'm) redis_ops_scheme \<Rightarrow> string \<Rightarrow> int \<Rightarrow> int \<Rightarrow> 'x \<Rightarrow> 'x \<times> (exn + int) option" where
  "slot_round ops aid pid waited x =
     (case acquire_account_lock ops aid x of
        (x1, Inl e) \<Rightarrow> (x1, Some (Inl e))
      | (x1, Inr False) \<Rightarrow> (sleep_for ops poll_interval x1, None)
      | (x1, Inr True) \<Rightarrow>
          (case acquire_peer_lock ops pid x1 of
             (x2, Inl e) \<Rightarrow> (x2, Some (Inl e))
           | (x2, Inr True) \<Rightarrow> (x2, Some (Inr waited))
           | (x2, Inr False) \<Rightarrow>
               (case release_account_lock ops aid x2 of
                  (x3, Inl e) \<Rightarrow> (x3, Some (Inl e))
                | (x3, Inr _) \<Rightarrow> (sleep_for ops poll_interval x3, None))))"

text \<open>The loop itself: \<open>None\<close> would be a loop that never ends.\<close>

partial_function (option) wait_loop ::
  "('x, 'm) redis_ops_scheme \<Rightarrow> string \<Rightarrow> int \<Rightarrow> int \<Rightarrow> datetime \<Rightarrow> int \<Rightarrow> 'x
     \<Rightarrow> ('x \<times> (exn + int)) option" where
  "wait_loop ops aid pid max_wait start waited x =
     (if max_wait \<le> waited then Some (x, Inl (slot_timeout aid pid))
      else (case slot_round ops aid pid waited x of
              (x', Some r) \<Rightarrow> Some (x', r)
            | (x', None) \<Rightarrow> wait_loop ops aid pid max_wait start (now_of ops x' - start) x'))"

declare wait_loop.simps [code]

definition wait_for_slot ::
  "('x, 'm) redis_ops_scheme \<Rightarrow> string \<Rightarrow> int \<Rightarrow> int \<Rightarrow> 'x \<Rightarrow> ('x \<times> (exn + int)) option" where
  "wait_for_slot ops aid pid max_wait x = wait_loop ops aid pid max_wait (now_of ops x) 0 x"

section \<open>Zero-width variation\<close>

definition zero_width_chars :: "nat list" where
  "zero_width_chars = [8203, 8204, 8205, 65279]"

text \<open>
  The protected patterns: alternatives of a literal prefix, a class of characters repeated
  between a lower and an upper bound, and an optional closing character outside the class.
\<close>

record pattern =
  pt_prefixes :: "nat list list"
  pt_class :: "nat \<Rightarrow> bool"
  pt_min :: nat
  pt_max :: "nat option"
  pt_close :: "nat option"

definition codes :: "string \<Rightarrow> nat list" where
  "codes s = map code s"

definition is_alnum :: "nat \<Rightarrow> bool" where
  "is_alnum n = ((48 \<le> n \<and> n \<le> 57) \<or> (65 \<le> n \<and> n \<le> 90) \<or> (97 \<le> n \<and> n \<le> 122))"

text \<open>The code points \<open>\s\<close> matches in a \<open>str\<close> pattern.\<close>

definition is_unicode_space :: "nat \<Rightarrow> bool" where
  "is_unicode_space n =
     ((9 \<le> n \<and> n \<le> 13) \<or> (28 \<le> n \<and> n \<le> 32) \<or> n = 133 \<or> n = 160 \<or> n = 5760
      \<or> (8192 \<le> n \<and> n \<le> 8202) \<or> n = 8232 \<or> n = 8233 \<or> n = 8239 \<or> n = 8287 \<or> n = 12288)"

definition url_class :: "nat \<Rightarrow> bool" where
  "url_class n = (\<not> is_unicode_space n \<and> n \<noteq> 60)"

definition protected_text_patterns :: "pattern list" where
  "protected_text_patterns =
     [\<lparr>pt_prefixes = [codes ''@''], pt_class = (\<lambda>n. is_alnum n \<or> n = 95), pt_min = 5,
       pt_max = Some 32, pt_close = None\<rparr>,
      \<lparr>pt_prefixes = [codes ''http://'', codes ''https://''], pt_class = url_class, pt_min = 1,
       pt_max = None, pt_close = None\<rparr>,
      \<lparr>pt_prefixes = [codes ''tg://''], pt_class = url_class, pt_min = 1, pt_max = None,
       pt_close = None\<rparr>,
      \<lparr>pt_prefixes = [codes ''t.me/''],
       pt_class = (\<lambda>n. is_alnum n \<or> n \<in> set (codes ''_/?=&%+.-'')), pt_min = 1,
       pt_max = None, pt_close = None\<rparr>,
      \<lparr>pt_prefixes = [codes ''<''], pt_class = (\<lambda>n. n \<noteq> 62), pt_min = 0, pt_max = None,
       pt_close = Some 62\<rparr>,
      \<lparr>pt_prefixes = [codes ''&''], pt_class = (\<lambda>n. is_alnum n \<or> n = 35), pt_min = 1,
       pt_max = None, pt_close = Some 59\<rparr>]"

text \<open>The length of the match of a pattern at the start of a text.\<close>

definition match_here :: "pattern \<Rightarrow> ptext \<Rightarrow> nat option" where
  "match_here p txt =
     (case List.find (\<lambda>pre. take (length pre) txt = pre) (pt_prefixes p) of
        None \<Rightarrow> None
      | Some pre \<Rightarrow>
          (let rest = drop (length pre) txt;
               run = length (takeWhile (pt_class p) rest);
               n = (case pt_max p of None \<Rightarrow> run | Some m \<Rightarrow> min m run)
           in if n < pt_min p then None
              else case pt_close p of
                None \<Rightarrow> Some (length pre + n)
              | Some c \<Rightarrow> (case drop n rest of
                            [] \<Rightarrow> None
                          | y # _ \<Rightarrow> if y = c then Some (length pre + n + 1) else None)))"

text \<open>\<open>finditer\<close>: the spans of the leftmost non-overlapping matches (they are never empty).\<close>

fun find_spans :: "pattern \<Rightarrow> nat \<Rightarrow> nat \<Rightarrow> ptext \<Rightarrow> (nat \<times> nat) list" where
  "find_spans p pos skip [] = []"
| "find_spans p pos skip (y # ys) =
     (if 0 < skip then find_spans p (Suc pos) (skip - 1) ys
      else case match_here p (y # ys) of
        Some n \<Rightarrow> (pos, pos + n) # find_spans p (Suc pos) (n - 1) ys
      | None \<Rightarrow> find_spans p (Suc pos) 0 ys)"

definition protected_ranges :: "ptext \<Rightarrow> (nat \<times> nat) list" where
  "protected_ranges txt = concat (map (\<lambda>p. find_spans p 0 0 txt) protected_text_patterns)"

definition safe_invisible_insert_positions :: "ptext \<Rightarrow> nat list" where
  "safe_invisible_insert_positions txt =
     (let ranges = protected_ranges txt in
      if ranges = [] then [0..<length txt]
      else filter (\<lambda>pos. \<not> list_ex (\<lambda>(a, b). a < pos \<and> pos < b) ranges) [0..<length txt])"

text \<open>
  \<open>random.sample(xs, k)\<close> draws \<open>k\<close> distinct positions, \<open>random.choice\<close> one: the drawn
  indices come from the world through \<open>rand_int\<close>, one draw from what is left at a time.
\<close>

fun sample ::
  "('x, 'm) tg_ops_scheme \<Rightarrow> nat \<Rightarrow> 'a list \<Rightarrow> 'x \<Rightarrow> 'x \<times> 'a list" where
  "sample ops 0 xs x = (x, [])"
| "sample ops (Suc k) xs x =
     (if xs = [] then (x, [])
      else
        (let (x1, i) = rand_int ops 0 (int (length xs) - 1) x;
             j = nat i mod length xs;
             (x2, ys) = sample ops k (take j xs @ drop (Suc j) xs) x1
         in (x2, xs ! j # ys)))"

text \<open>\<open>randint(lo, hi)\<close>, read into its range.\<close>

definition randint :: "('x, 'm) tg_ops_scheme \<Rightarrow> int \<Rightarrow> int \<Rightarrow> 'x \<Rightarrow> 'x \<times> int" where
  "randint ops lo hi x =
     (let (x1, r) = rand_int ops lo hi x in (x1, max lo (min hi r)))"

definition add_zero_width_chars :: "('x, 'm) tg_ops_scheme \<Rightarrow> ptext \<Rightarrow> nat \<Rightarrow> 'x \<Rightarrow> 'x \<times> ptext" where
  "add_zero_width_chars ops txt max_chars x =
     (if txt = [] then (x, txt)
      else
        (let (x1, n) = randint ops 1 (min 3 (int max_chars)) x;
             (x2, zs) = sample ops (nat n) zero_width_chars x1
         in (x2, txt @ zs)))"

definition insert_at :: "nat \<Rightarrow> nat \<Rightarrow> ptext \<Rightarrow> ptext" where
  "insert_at z pos txt = take pos txt @ z # drop pos txt"

definition add_invisible_variation :: "('x, 'm) tg_ops_scheme \<Rightarrow> ptext \<Rightarrow> 'x \<Rightarrow> 'x \<times> ptext" where
  "add_invisible_variation ops txt x =
     (if txt = [] then (x, txt)
      else
        (let (x1, res) = add_zero_width_chars ops txt 5 x;
             cands = safe_invisible_insert_positions res
         in if cands = [] then (x1, res)
            else
              (let (x2, poss) = sample ops (min 2 (length cands)) cands x1;
                   (x3, z) = sample ops 1 zero_width_chars x2
               in (x3, fold (insert_at (hd z)) (rev (sort poss)) res))))"

end
