(* ===== verification/Sending.thy ===== *)
theory Sending
  imports Breaker RateLimit
begin

text \<open>
  One send (\<open>scheduler/core/task_execution.py\<close>, \<open>task_media_runtime.py\<close>): resolving the
  peer and the media, preparing and sending the content, and the protections around it.
  A Python exception is \<open>Inl\<close> of a \<open>send_error\<close>.
\<close>

section \<open>Peer\<close>

definition resolve_send_target ::
  "('x, 'm) tg_ops_scheme \<Rightarrow> task \<Rightarrow> target \<Rightarrow> 'x \<Rightarrow> 'x \<times> json" where
  "resolve_send_target ops t sp x =
     (let ty = str_or (opt_str (sp_type sp)) (str_or (t_peer_type t) []);
          h = (if sp_hash sp \<noteq> JNull then sp_hash sp
               else case t_hash t of None \<Rightarrow> JNull | Some n \<Rightarrow> JInt n);
          (x1, found) =
            (if str_true (t_account t) \<and> ty \<noteq> []
             then (case input_peer ops (the (t_account t)) (sp_peer sp) ty h x of
                     (x1, Inr r) \<Rightarrow> (x1, r)
                   | (x1, Inl _) \<Rightarrow> (x1, None))
             else (x, None))
      in case found of
           Some p \<Rightarrow> (x1, p)
         | None \<Rightarrow>
             (case input_entity ops (sp_peer sp) x1 of
                (x2, Inr p) \<Rightarrow> (x2, p)
              | (x2, Inl _) \<Rightarrow>
                  (case dialogs ops x2 of
                     (x3, Inl _) \<Rightarrow> (x3, JInt (sp_peer sp))
                   | (x3, Inr ds) \<Rightarrow>
                       (case List.find (\<lambda>(n, _). n = Some (sp_peer sp)) ds of
                          Some (_, e) \<Rightarrow> (x3, e)
                        | None \<Rightarrow> (x3, JInt (sp_peer sp))))))"

section \<open>Media\<close>

abbreviation media_ref_prefix :: string where "media_ref_prefix \<equiv> ''tgmsg://''"

text \<open>\<open>payload.split("/", 1)\<close>: \<open>None\<close> when there is no slash.\<close>

fun split_slash :: "string \<Rightarrow> (string \<times> string) option" where
  "split_slash [] = None"
| "split_slash (c # cs) =
     (if c = CHR ''/'' then Some ([], cs)
      else map_option (\<lambda>(a, b). (c # a, b)) (split_slash cs))"

definition resolve_task_media ::
  "('x, 'm) tg_ops_scheme \<Rightarrow> string \<Rightarrow> string option \<Rightarrow> 'x \<Rightarrow> 'x \<times> (send_error + media_ref)" where
  "resolve_task_media ops file_id aid x =
     (let raw = strip file_id in
      if \<not> starts_with media_ref_prefix raw then (x, Inr (MediaPath raw))
      else case split_slash (drop (length media_ref_prefix) raw) of
        None \<Rightarrow> (x, Inl (value_error ''<invalid media reference>''))
      | Some (ref_account, msg_raw) \<Rightarrow>
          if str_true aid \<and> ref_account \<noteq> [] \<and> aid \<noteq> Some ref_account
          then (x, Inl (value_error ''<media belongs to another account>''))
          else case int_of_str msg_raw of
            None \<Rightarrow> (x, Inl (value_error ''<invalid media message id>''))
          | Some n \<Rightarrow>
              (case saved_message ops n x of
                 (x1, Inl e) \<Rightarrow> (x1, Inl e)
               | (x1, Inr None) \<Rightarrow> (x1, Inl (value_error ''<media reference expired>''))
               | (x1, Inr (Some m)) \<Rightarrow>
                   (case mg_media m of
                      None \<Rightarrow> (x1, Inl (value_error ''<media reference expired>''))
                    | Some md \<Rightarrow> (x1, Inr (MediaObj md)))))"

definition media_failure :: "string \<Rightarrow> string \<Rightarrow> send_error" where
  "media_failure c m = OtherError (task_media_error c m)"

definition resolve_v2_task_media ::
  "('x, 'm) tg_ops_scheme \<Rightarrow> task \<Rightarrow> 'x \<Rightarrow> 'x \<times> (send_error + media_ref)" where
  "resolve_v2_task_media ops t x =
     (if t_src_state t \<noteq> ''valid''
      then (x, Inl (media_failure ''MEDIA_SOURCE_UNAVAILABLE'' ''<source not valid>''))
      else if t_src_account t \<noteq> t_account t
      then (x, Inl (media_failure ''MEDIA_SOURCE_ACCOUNT_MISMATCH'' ''<source of another account>''))
      else if \<not> int_true (t_src_msg t)
      then (x, Inl (media_failure ''MEDIA_SOURCE_UNAVAILABLE'' ''<no source message>''))
      else case saved_message ops (the (t_src_msg t)) x of
        (x1, Inl _) \<Rightarrow> (x1, Inl (media_failure ''MEDIA_SOURCE_UNAVAILABLE'' ''<source unreadable>''))
      | (x1, Inr None) \<Rightarrow> (x1, Inl (media_failure ''MEDIA_SOURCE_UNAVAILABLE'' ''<source gone>''))
      | (x1, Inr (Some m)) \<Rightarrow>
          (case mg_media m of
             None \<Rightarrow> (x1, Inl (media_failure ''MEDIA_SOURCE_UNAVAILABLE'' ''<source gone>''))
           | Some md \<Rightarrow>
               (case classify_message_media m of
                  Inl _ \<Rightarrow> (x1, Inl (media_failure ''MEDIA_SOURCE_TYPE_CHANGED'' ''<type changed>''))
                | Inr c \<Rightarrow>
                    if cf_type c \<noteq> media_value_of (t_media t)
                    then (x1, Inl (media_failure ''MEDIA_SOURCE_TYPE_CHANGED'' ''<type changed>''))
                    else (x1, Inr (MediaObj md)))))"

definition resolve_send_media ::
  "('x, 'm) tg_ops_scheme \<Rightarrow> task \<Rightarrow> 'x \<Rightarrow> 'x \<times> (send_error + media_ref)" where
  "resolve_send_media ops t x =
     (if t_contract t = 2 then resolve_v2_task_media ops t x
      else if \<not> str_true (t_media_file t) then (x, Inl (value_error ''<missing media_file_id>''))
      else case resolve_task_media ops (the (t_media_file t)) (t_account t) x of
        (x1, Inr (MediaPath p)) \<Rightarrow>
          if starts_with ''/'' p \<and> \<not> file_exists ops p x1
          then (x1, Inl (OtherError \<lparr>e_name = ''FileNotFoundError'', e_code = [],
                                     e_text = ''<media file missing>: '' @ p\<rparr>))
          else (x1, Inr (MediaPath p))
      | r \<Rightarrow> r)"

section \<open>Content\<close>

definition prepare_task_content ::
  "('x, 'm) tg_ops_scheme \<Rightarrow> task \<Rightarrow> 'x \<Rightarrow> 'x \<times> (send_error + ptext option)" where
  "prepare_task_content ops t x =
     (let (x1, txt) =
            (case t_text t of
               Some (c # cs) \<Rightarrow> (let (x1, v) = add_invisible_variation ops (c # cs) x
                                 in (x1, Some (html_text ops v)))
             | other \<Rightarrow> (x, other))
      in case validate_message_length txt (t_media t \<noteq> MNone) of
           Inl e \<Rightarrow> (x1, Inl (OtherError e))
         | Inr _ \<Rightarrow>
             if truthy (t_buttons t)
             then (x1, Inl (media_failure ''TASK_BUTTONS_UNSUPPORTED_FOR_USER_ACCOUNT''
                              ''<no buttons on user accounts>''))
             else (x1, Inr txt))"

definition send_task_content ::
  "('x, 'm) tg_ops_scheme \<Rightarrow> task \<Rightarrow> json \<Rightarrow> ptext option \<Rightarrow> 'x \<Rightarrow> 'x \<times> send_result" where
  "send_task_content ops t peer txt x =
     (if t_media t = MNone
      then tg_send ops \<lparr>ct_target = peer, ct_text = txt, ct_media = None\<rparr> x
      else case resolve_send_media ops t x of
        (x1, Inl e) \<Rightarrow> (x1, Inl e)
      | (x1, Inr md) \<Rightarrow>
          if t_media t \<in> {MPhoto, MVideo, MAnimation}
          then tg_send ops \<lparr>ct_target = peer, ct_text = txt, ct_media = Some md\<rparr> x1
          else tg_send ops \<lparr>ct_target = peer, ct_text = None, ct_media = Some md\<rparr> x1)"

definition do_send_message ::
  "('x, 'm) tg_ops_scheme \<Rightarrow> task \<Rightarrow> json \<Rightarrow> int option \<Rightarrow> 'x \<Rightarrow> 'x \<times> send_result" where
  "do_send_message ops t peer previous x =
     (case prepare_task_content ops t x of
        (x1, Inl e) \<Rightarrow> (x1, Inl e)
      | (x1, Inr txt) \<Rightarrow>
          (let x2 = (if t_delete_previous t \<and> int_true previous
                     then fst (tg_delete ops peer (the previous) x1) else x1)
           in case send_task_content ops t peer txt x2 of
                (x3, Inr (Some m)) \<Rightarrow>
                  (if t_pin t then fst (tg_pin ops peer m x3) else x3, Inr (Some m))
              | (x3, r) \<Rightarrow> (x3, r)))"


abbreviation default_account :: string where "default_account \<equiv> ''default''"
abbreviation (input) max_slot_wait :: int where "max_slot_wait \<equiv> 10000000"

definition send_with_protections ::
  "('x, 'm) tg_ops_scheme \<Rightarrow> task \<Rightarrow> json \<Rightarrow> int \<Rightarrow> string \<Rightarrow> int option \<Rightarrow> 'x sys
     \<Rightarrow> ('x sys \<times> send_result) option" where
  "send_with_protections ops t peer pid aid previous s =
     (case wait_for_slot ops aid pid max_slot_wait (sx s) of
        None \<Rightarrow> None
      | Some (x1, Inl e) \<Rightarrow> Some (s\<lparr>sx := x1\<rparr>, Inl (OtherError e))
      | Some (x1, Inr _) \<Rightarrow>
          (let s1 = s\<lparr>sx := x1\<rparr> in
           Some (if aid = default_account
                 then with_x (do_send_message ops t peer previous) s1
                 else execute_with_circuit_breaker ops aid
                        (with_x (do_send_message ops t peer previous)) s1)))"

end
