(* ===== verification/Runner.thy ===== *)
theory Runner
  imports Licensing Lifecycle Sending
begin

text \<open>
  One execution of a task (\<open>scheduler/core/task_runner.py\<close>), in the phases of the source:
  validation and account checks, schedule constraints, the observation budget, the send loop
  over the targets, and the outcome. A function of the source that commits and returns a
  summary returns the new state and the summary here; an \<open>HTTPException\<close> is \<open>Inl\<close>.
  \<open>None\<close> as the result of the send phase is a wait for a send slot that never ends.
\<close>

section \<open>Summaries\<close>

datatype run_status = Skipped | Failed | Success | PartialSuccess

text \<open>The preview of the message: whole words, cut at 80 code points.\<close>

fun text_words :: "ptext \<Rightarrow> ptext \<Rightarrow> ptext list" where
  "text_words acc [] = (if acc = [] then [] else [rev acc])"
| "text_words acc (c # cs) =
     (if is_unicode_space c
      then (if acc = [] then text_words [] cs else rev acc # text_words [] cs)
      else text_words (c # acc) cs)"

fun join_words :: "ptext list \<Rightarrow> ptext" where
  "join_words [] = []"
| "join_words [w] = w"
| "join_words (w # ws) = w @ [32] @ join_words ws"

definition truncate_preview :: "ptext \<Rightarrow> nat \<Rightarrow> ptext" where
  "truncate_preview v limit =
     (let txt = join_words (text_words [] v)
      in if length txt \<le> limit then txt else take (limit - 1) txt @ [8230])"

text \<open>\<open>str()\<close> of a member of the enumeration names the member, not its value.\<close>

fun enum_str :: "media_type \<Rightarrow> string" where
  "enum_str MNone = ''MediaType.NONE''"
| "enum_str MPhoto = ''MediaType.PHOTO''"
| "enum_str MVideo = ''MediaType.VIDEO''"
| "enum_str MSticker = ''MediaType.STICKER''"
| "enum_str MAnimation = ''MediaType.ANIMATION''"

definition media_message_suffix :: ptext where
  "media_message_suffix = [32, 23186, 20307, 28040, 24687]"

definition button_message :: ptext where
  "button_message = [25353, 38062, 28040, 24687]"

definition strip_text :: "ptext \<Rightarrow> ptext" where
  "strip_text v = rev (dropWhile is_unicode_space (rev (dropWhile is_unicode_space v)))"

definition build_task_message_preview :: "task \<Rightarrow> ptext option" where
  "build_task_message_preview t =
     (let txt = strip_text (case t_text t of None \<Rightarrow> [] | Some v \<Rightarrow> v)
      in if txt \<noteq> [] then Some (truncate_preview txt 80)
         else if enum_str (t_media t) \<noteq> ''none''
         then Some (codes (media_value_of (t_media t)) @ media_message_suffix)
         else if truthy (t_buttons t) then Some button_message
         else None)"

record run_summary =
  r_task :: string
  r_title :: string
  r_account :: "string option"
  r_source :: trigger_source
  r_status :: run_status
  r_total :: int
  r_ok :: int
  r_failed :: int
  r_error :: "string option"
  r_ok_targets :: "string list"
  r_failed_targets :: "string list"
  r_preview :: "ptext option"

definition build_summary ::
  "task \<Rightarrow> trigger_source \<Rightarrow> run_status \<Rightarrow> int \<Rightarrow> int \<Rightarrow> int \<Rightarrow> string option \<Rightarrow> string list
     \<Rightarrow> string list \<Rightarrow> run_summary" where
  "build_summary t src st tot ok failed err oks faileds =
     \<lparr>r_task = t_id t, r_title = t_title t,
      r_account = (if str_true (t_account t) then t_account t else None),
      r_source = src, r_status = st, r_total = max 0 tot, r_ok = max 0 ok,
      r_failed = max 0 failed,
      r_error = (if str_true err then Some (strip (the err)) else None),
      r_ok_targets = oks, r_failed_targets = faileds,
      r_preview = build_task_message_preview t\<rparr>"

abbreviation skip_summary :: "task \<Rightarrow> trigger_source \<Rightarrow> int \<Rightarrow> int \<Rightarrow> string \<Rightarrow> run_summary" where
  "skip_summary t src tot failed err \<equiv> build_summary t src Skipped tot 0 failed (Some err) [] []"

abbreviation fail_summary :: "task \<Rightarrow> trigger_source \<Rightarrow> int \<Rightarrow> string \<Rightarrow> run_summary" where
  "fail_summary t src tot err \<equiv> build_summary t src Failed tot 0 tot (Some err) [] []"

record config =
  max_failure_count :: int

section \<open>Phase 1: task, authorization, account, client\<close>

definition set_next :: "string \<Rightarrow> int \<Rightarrow> 'x sys \<Rightarrow> 'x sys" where
  "set_next tid n s = on_db (upd_task tid (\<lambda>t. t\<lparr>t_next := Some n\<rparr>)) s"

definition defer_by_interval :: "task \<Rightarrow> int \<Rightarrow> int" where
  "defer_by_interval t now = now + max 1 (if t_repeat t = 0 then 1 else t_repeat t) * 60"

definition observation_end :: "account \<Rightarrow> int \<Rightarrow> int" where
  "observation_end a now =
     (case a_obs_until a of Some u \<Rightarrow> max (now + 60) (timestamp u) | None \<Rightarrow> now + 60)"

definition reauth_account :: "string \<Rightarrow> datetime \<Rightarrow> account \<Rightarrow> account" where
  "reauth_account reason now a =
     a\<lparr>a_health := Offline, a_reauth := True, a_reauth_reason := Some reason,
       a_reauth_at := (case a_reauth_at a of Some t \<Rightarrow> Some t | None \<Rightarrow> Some now)\<rparr>"

definition mark_account_reauth_required ::
  "('x, 'm) tg_ops_scheme \<Rightarrow> string \<Rightarrow> string \<Rightarrow> 'x sys \<Rightarrow> 'x sys" where
  "mark_account_reauth_required ops aid reason s =
     (let r = (if strip reason = [] then ''unknown'' else strip reason) in
      case get_account aid (sdb s) of
        None \<Rightarrow> s
      | Some a \<Rightarrow>
          (let s1 = on_db (upd_account aid (reauth_account r (now_of ops (sx s)))) s
           in if is_reauth_required_account (Some a) then s1
              else on_x (notify ops ''reauth_required'' aid) s1))"

definition recoverable_outage :: "account \<Rightarrow> bool" where
  "recoverable_outage a =
     (a_health a = Offline \<and> \<not> a_reauth a
      \<and> lower (strip (str_or (a_reauth_reason a) [])) = ''developer_app_unhealthy'')"

definition try_recover_outage ::
  "('x, 'm) tg_ops_scheme \<Rightarrow> account \<Rightarrow> 'x sys \<Rightarrow> 'x sys \<times> account" where
  "try_recover_outage ops a s =
     (if strip (a_id a) = [] then (s, a)
      else
        (let (s1, h) = health_check ops (a_id a) s in
         if h \<noteq> Online then (s1, a)
         else (s1, case get_account (a_id a) (sdb s1) of Some a' \<Rightarrow> a' | None \<Rightarrow> a)))"

datatype checked = Exit run_summary | Go "account option"

definition check_account ::
  "('x, 'm) tg_ops_scheme \<Rightarrow> task \<Rightarrow> int \<Rightarrow> bool \<Rightarrow> trigger_source \<Rightarrow> 'x sys \<Rightarrow> 'x sys \<times> checked" where
  "check_account ops t now advance src s =
     (if \<not> str_true (t_account t) then (s, Go None)
      else case get_account (the (t_account t)) (sdb s) of
        None \<Rightarrow> (s, Go None)
      | Some a0 \<Rightarrow>
          if is_reauth_required_account (Some a0)
          then
            (let s1 = mark_account_reauth_required ops (the (t_account t))
                        (str_or (a_reauth_reason a0) ''session_unauthorized'') s;
                 s2 = (if advance then set_next (t_id t) (defer_by_interval t now) s1 else s1)
             in (s2, Exit (skip_summary t src 0 0 ''<account must be bound again>'')))
          else
            (let (s1, a) = (if recoverable_outage a0 then try_recover_outage ops a0 s else (s, a0)) in
             if a_health a \<noteq> Online
             then (if advance then set_next (t_id t) (defer_by_interval t now) s1 else s1,
                   Exit (skip_summary t src 0 0 ''<account offline>''))
             else if \<not> proxy_observation_has_send_budget a (now_of ops (sx s1))
             then (if advance then set_next (t_id t) (observation_end a now) s1 else s1,
                   Exit (skip_summary t src 0 0 ''<observation limit reached>''))
             else (s1, Go (Some a))))"

definition authorize ::
  "('x, 'm) tg_ops_scheme \<Rightarrow> task \<Rightarrow> 'x sys \<Rightarrow> 'x sys \<times> (http_error + unit)" where
  "authorize ops t s =
     (if \<not> str_true (t_account t) then (s, Inr ())
      else
        (let aid = the (t_account t); now = now_of ops (sx s);
             (d1, m) = get_account_authorization_summary aid now (sdb s)
         in if m_can_create m then (s\<lparr>sdb := d1\<rparr>, Inr ())
            else
              (let (d2, n) = disable_tasks_for_account_if_unlicensed aid now d1
               in (on_x (notify ops ''authorization_required'' aid) (s\<lparr>sdb := d2\<rparr>),
                   Inl (Http 400 ''<account has no valid authorization>'')))))"

definition handle_no_targets ::
  "('x, 'm) tg_ops_scheme \<Rightarrow> config \<Rightarrow> task \<Rightarrow> int \<Rightarrow> bool \<Rightarrow> trigger_source \<Rightarrow> 'x sys
     \<Rightarrow> 'x sys \<times> run_summary" where
  "handle_no_targets ops cfg t now advance src s =
     (let n = int (count_configured_task_targets t); clock = timestamp (now_of ops (sx s)) in
      if 0 < n
      then
        (if advance
         then (set_next (t_id t) (now + t_repeat t * 60) s,
               skip_summary t src n n ''<no target can be sent to>'')
         else (on_db (handle_task_failure (t_id t) ''<no target can be sent to>''
                        (max_failure_count cfg) src False False clock) s,
               fail_summary t src n ''<no target can be sent to>''))
      else
        (on_db (handle_task_failure (t_id t) ''<missing target peer>'' (max_failure_count cfg) src
                  advance advance clock) s,
         fail_summary t src 0 ''<missing target peer>''))"

definition handle_client_failure ::
  "('x, 'm) tg_ops_scheme \<Rightarrow> config \<Rightarrow> task \<Rightarrow> bool \<Rightarrow> int \<Rightarrow> trigger_source \<Rightarrow> 'x sys
     \<Rightarrow> 'x sys \<times> run_summary" where
  "handle_client_failure ops cfg t advance n src s =
     (on_db (handle_task_failure (t_id t) ''<no client>'' (max_failure_count cfg) src advance advance
               (timestamp (now_of ops (sx s)))) s,
      fail_summary t src n ''<no client>'')"

record validated =
  vd_account :: "account option"
  vd_targets :: "target list"
  vd_account_id :: string

datatype validation = Raise http_error | Early run_summary | Valid task validated

definition initial_next :: "task \<Rightarrow> int \<Rightarrow> int" where
  "initial_next t now = (let st = int_or (t_start t) 0 in if 0 < st then max now st else now)"

definition plan_targets ::
  "('x, 'm) tg_ops_scheme \<Rightarrow> config \<Rightarrow> task \<Rightarrow> account option \<Rightarrow> int \<Rightarrow> bool \<Rightarrow> trigger_source
     \<Rightarrow> 'x sys \<Rightarrow> 'x sys \<times> validation" where
  "plan_targets ops cfg t acc now advance src s =
     (let specs0 = collect_task_targets t;
          specs = (if (case acc of None \<Rightarrow> False
                       | Some a \<Rightarrow> is_proxy_observation_active a (now_of ops (sx s)))
                   then take 1 specs0 else specs0)
      in if specs = []
         then (let (s1, r) = handle_no_targets ops cfg t now advance src s in (s1, Early r))
         else if \<not> str_true (t_account t)
         then (s, Valid t \<lparr>vd_account = acc, vd_targets = specs, vd_account_id = default_account\<rparr>)
         else
           (let (s1, ok) = with_x (client_of ops (the (t_account t))) s in
            if ok
            then (s1, Valid t \<lparr>vd_account = acc, vd_targets = specs,
                               vd_account_id = the (t_account t)\<rparr>)
            else (let (s2, r) = handle_client_failure ops cfg t advance (int (length specs)) src s1
                  in (s2, Early r))))"

definition validate_and_resolve ::
  "('x, 'm) tg_ops_scheme \<Rightarrow> config \<Rightarrow> string \<Rightarrow> int \<Rightarrow> bool \<Rightarrow> trigger_source \<Rightarrow> 'x sys
     \<Rightarrow> 'x sys \<times> validation" where
  "validate_and_resolve ops cfg tid now advance src s =
     (case get_task tid (sdb s) of
        None \<Rightarrow> (s, Raise (Http 404 ''<task not found>''))
      | Some t \<Rightarrow>
          if \<not> t_enabled t then (s, Raise (Http 400 ''<task disabled>''))
          else case authorize ops t s of
            (s1, Inl e) \<Rightarrow> (s1, Raise e)
          | (s1, Inr _) \<Rightarrow>
              (case check_account ops t now advance src s1 of
                 (s2, Exit r) \<Rightarrow> (s2, Early r)
               | (s2, Go acc) \<Rightarrow>
                   (let (s3, t1) =
                          (if advance \<and> t_next t = None
                           then (set_next tid (initial_next t now) s2,
                                 t\<lparr>t_next := Some (initial_next t now)\<rparr>)
                           else (s2, t))
                    in if advance \<and> int_true (t_next t1) \<and> now < the (t_next t1)
                       then (s3, Early (skip_summary t1 src 0 0 ''<not due yet>''))
                       else plan_targets ops cfg t1 acc now advance src s3)))"

section \<open>Phase 2: schedule constraints and observation budget\<close>

definition check_schedule_constraints ::
  "task \<Rightarrow> int \<Rightarrow> int \<Rightarrow> bool \<Rightarrow> bool \<Rightarrow> trigger_source \<Rightarrow> int \<Rightarrow> 'x sys
     \<Rightarrow> 'x sys \<times> run_summary option" where
  "check_schedule_constraints t now hour advance respect src n s =
     (if \<not> respect then (s, None)
      else if int_true (t_start t) \<and> now < the (t_start t)
      then (if advance then set_next (t_id t) (max (int_or (t_next t) 0) (the (t_start t))) s else s,
            Some (skip_summary t src n 0 ''<before the start>''))
      else if int_true (t_end t) \<and> the (t_end t) < now
      then (if advance then on_db (upd_task (t_id t) (\<lambda>t. t\<lparr>t_enabled := False\<rparr>)) s else s,
            Some (skip_summary t src n 0 ''<after the end>''))
      else
        (case check_time_limit t hour now of
           (True, _) \<Rightarrow> (s, None)
         | (False, next) \<Rightarrow>
             (case next of
                Some nx \<Rightarrow> if advance then set_next (t_id t) nx s else s
              | None \<Rightarrow> s,
              Some (skip_summary t src n 0 ''<outside the daily window>''))))"

definition lock_and_recheck_observation_budget ::
  "('x, 'm) tg_ops_scheme \<Rightarrow> task \<Rightarrow> target list \<Rightarrow> int \<Rightarrow> bool \<Rightarrow> trigger_source \<Rightarrow> 'x sys
     \<Rightarrow> 'x sys \<times> (run_summary + target list)" where
  "lock_and_recheck_observation_budget ops t specs now advance src s =
     (let aid = strip (str_or (t_account t) []) in
      if aid = [] then (s, Inr specs)
      else case get_account aid (sdb s) of
        None \<Rightarrow> (s, Inr specs)
      | Some a \<Rightarrow>
          (let dt = now_of ops (sx s);
               deferred = (if advance then set_next (t_id t) (observation_end a now) s else s)
           in if \<not> is_proxy_observation_active a dt then (s, Inr specs)
              else if \<not> proxy_observation_has_send_budget a dt
              then (deferred, Inl (skip_summary t src 0 0 ''<observation limit reached>''))
              else
                (let (d1, won) = claim_proxy_observation_send_budget aid dt (sdb s) in
                 if won then (s\<lparr>sdb := d1\<rparr>, Inr (take 1 specs))
                 else (deferred, Inl (skip_summary t src 0 0 ''<observation budget taken>'')))))"

section \<open>Phase 3: the send loop\<close>

definition target_label :: "target \<Rightarrow> string" where
  "target_label sp =
     (if str_true (sp_title sp) then the (sp_title sp)
      else (if sp_type sp = [] then ''user'' else sp_type sp) @ '':'' @ show_int (sp_peer sp))"

record progress =
  pg_errors :: "string list"
  pg_partial :: "string list"
  pg_ids :: message_ids
  pg_ok :: "string list"
  pg_failed :: "string list"
  pg_last :: "int option"

definition no_progress :: progress where
  "no_progress = \<lparr>pg_errors = [], pg_partial = [], pg_ids = [], pg_ok = [], pg_failed = [],
                  pg_last = None\<rparr>"

definition wire_type :: "task \<Rightarrow> target \<Rightarrow> string" where
  "wire_type t sp = lower (strip (str_or (opt_str (sp_type sp)) (str_or (t_peer_type t) ''user'')))"

text \<open>The books of a failed target: issue row, metadata, progress.\<close>

definition book_failure ::
  "('x, 'm) tg_ops_scheme \<Rightarrow> string \<Rightarrow> target \<Rightarrow> string \<Rightarrow> classification \<Rightarrow> progress \<Rightarrow> 'x sys
     \<Rightarrow> 'x sys \<times> progress" where
  "book_failure ops tid sp err c pg s =
     (case get_task tid (sdb s) of
        None \<Rightarrow> (s, pg)
      | Some t \<Rightarrow>
          (let ty = wire_type t sp; now = now_of ops (sx s);
               title = map_option strip (if str_true (sp_title sp) then sp_title sp else None);
               (d1, i) = record_task_target_send_issue now t (sp_peer sp) ty title c (sdb s);
               d2 = upd_task tid (update_task_target_failure_metadata (iso_of ops now) (sp_peer sp) ty
                                    title (cl_type c) (cl_message c)
                                    (if i_suspended i then cl_reason c else None)) d1
           in (s\<lparr>sdb := d2\<rparr>,
               pg\<lparr>pg_errors := pg_errors pg @ [err],
                  pg_partial := pg_partial pg @ [target_label sp @ '': '' @ cl_message c],
                  pg_failed := pg_failed pg @ [target_label sp]\<rparr>)))"

definition book_success ::
  "('x, 'm) tg_ops_scheme \<Rightarrow> string \<Rightarrow> target \<Rightarrow> int \<Rightarrow> progress \<Rightarrow> 'x sys \<Rightarrow> 'x sys \<times> progress" where
  "book_success ops tid sp m pg s =
     (case get_task tid (sdb s) of
        None \<Rightarrow> (s, pg)
      | Some t \<Rightarrow>
          (let ty = wire_type t sp;
               d1 = resolve_task_target_send_issue (now_of ops (sx s)) t (sp_peer sp) ty (sdb s);
               d2 = upd_task tid (update_task_target_success_metadata (sp_peer sp) ty) d1
           in (s\<lparr>sdb := d2\<rparr>,
               pg\<lparr>pg_last := Some m, pg_ids := AList.update (ty, sp_peer sp) m (pg_ids pg),
                  pg_ok := pg_ok pg @ [target_label sp]\<rparr>)))"

definition peer_prefix :: "target \<Rightarrow> string" where
  "peer_prefix sp = ''peer='' @ show_int (sp_peer sp) @ '': ''"

text \<open>One target: \<open>Inl\<close> is a flood error, which leaves the loop.\<close>

definition send_one ::
  "('x, 'm) tg_ops_scheme \<Rightarrow> string \<Rightarrow> string \<Rightarrow> target \<Rightarrow> progress \<Rightarrow> 'x sys
     \<Rightarrow> ('x sys \<times> (send_error + progress)) option" where
  "send_one ops tid aid sp pg s =
     (case get_task tid (sdb s) of
        None \<Rightarrow> Some (s, Inr pg)
      | Some t \<Rightarrow>
          (let previous = get_target_last_message_id t (sp_peer sp) (opt_str (sp_type sp));
               (s1, peer) = with_x (resolve_send_target ops t sp) s
           in case send_with_protections ops t peer (sp_peer sp) aid previous s1 of
                None \<Rightarrow> None
              | Some (s2, Inl (OtherError e)) \<Rightarrow>
                  (let (s3, pg') = book_failure ops tid sp
                                     (peer_prefix sp @ e_name e @ '': '' @ e_text e)
                                     (classify_task_send_error e) pg s2
                   in Some (s3, Inr pg'))
              | Some (s2, Inl e) \<Rightarrow> Some (s2, Inl e)
              | Some (s2, Inr m) \<Rightarrow>
                  (let (s3, pg') = (if int_true m then book_success ops tid sp (the m) pg s2
                                    else book_failure ops tid sp (peer_prefix sp @ empty_result_text)
                                           (classify_task_send_error empty_result_exn) pg s2)
                   in Some (s3, Inr pg'))))"

fun send_loop ::
  "('x, 'm) tg_ops_scheme \<Rightarrow> string \<Rightarrow> string \<Rightarrow> target list \<Rightarrow> progress \<Rightarrow> 'x sys
     \<Rightarrow> ('x sys \<times> (send_error + progress)) option" where
  "send_loop ops tid aid [] pg s = Some (s, Inr pg)"
| "send_loop ops tid aid (sp # sps) pg s =
     (case send_one ops tid aid sp pg s of
        None \<Rightarrow> None
      | Some (s1, Inl e) \<Rightarrow> Some (s1, Inl e)
      | Some (s1, Inr pg1) \<Rightarrow> send_loop ops tid aid sps pg1 s1)"

definition count_text :: "string \<Rightarrow> string list \<Rightarrow> string list \<Rightarrow> string" where
  "count_text tag errors partial =
     tag @ show_int (int (length errors)) @ '' example: '' @ (case partial of [] \<Rightarrow> [] | p # _ \<Rightarrow> p)"

definition finish_sends ::
  "('x, 'm) tg_ops_scheme \<Rightarrow> config \<Rightarrow> task \<Rightarrow> target list \<Rightarrow> int \<Rightarrow> bool \<Rightarrow> trigger_source
     \<Rightarrow> progress \<Rightarrow> 'x sys \<Rightarrow> 'x sys \<times> run_summary" where
  "finish_sends ops cfg t specs now advance src pg s =
     (let tot = int (length specs); ok = int (length (pg_ids pg)); failed = tot - ok in
      if int_true (pg_last pg)
      then
        (let err = (if pg_errors pg = [] then None
                    else Some (count_text ''<some targets failed>: '' (pg_errors pg) (pg_partial pg)))
         in (on_db (handle_task_success (t_id t) (the (pg_last pg)) (pg_ids pg) err now src advance
                      (now_of ops (sx s))) s,
             build_summary t src (if failed = 0 then Success else PartialSuccess) tot ok failed err
               (pg_ok pg) (pg_failed pg)))
      else
        (let reason = (if pg_partial pg \<noteq> []
                       then count_text ''<all targets failed>: '' (pg_errors pg) (pg_partial pg)
                       else case pg_errors pg of [] \<Rightarrow> ''<send failed>'' | e # _ \<Rightarrow> e)
         in (on_db (handle_task_failure (t_id t) reason (max_failure_count cfg) src advance advance
                      (timestamp (now_of ops (sx s)))) s,
             build_summary t src Failed tot 0 tot (Some reason) (pg_ok pg)
               (if pg_failed pg = [] then map target_label specs else pg_failed pg))))"

section \<open>The orchestrator\<close>

definition fail_flood ::
  "('x, 'm) tg_ops_scheme \<Rightarrow> config \<Rightarrow> task \<Rightarrow> string \<Rightarrow> int \<Rightarrow> int \<Rightarrow> bool \<Rightarrow> trigger_source
     \<Rightarrow> send_error \<Rightarrow> 'x sys \<Rightarrow> 'x sys \<times> run_summary" where
  "fail_flood ops cfg t aid n now advance src e s =
     (let msg = (case e of FloodWait k \<Rightarrow> ''FloodWait: '' @ show_int k @ ''s'' | _ \<Rightarrow> ''PeerFloodError'');
          s1 = on_db (handle_task_failure (t_id t) msg (max_failure_count cfg) src advance advance
                        (timestamp (now_of ops (sx s)))) s;
          r = fail_summary t src n msg
      in if aid = default_account then (s1, r)
         else case e of
           FloodWait k \<Rightarrow>
             (case handle_flood_wait ops aid k s1 of
                (s2, Ban) \<Rightarrow>
                  (let until = (case get_account aid (sdb s2) of
                                  Some a \<Rightarrow> (case a_flood_until a of
                                     Some u \<Rightarrow> max (now + 24 * 3600) (timestamp u)
                                   | None \<Rightarrow> now + 24 * 3600)
                                | None \<Rightarrow> now + 24 * 3600)
                   in (on_db (suspend_account_tasks aid until) s2, r))
              | (s2, _) \<Rightarrow> (s2, r))
         | _ \<Rightarrow>
             (let (s2, until) = handle_peer_flood ops aid s1
              in (on_db (suspend_account_tasks aid (timestamp until)) s2, r)))"

definition send_to_targets ::
  "('x, 'm) tg_ops_scheme \<Rightarrow> config \<Rightarrow> task \<Rightarrow> target list \<Rightarrow> string \<Rightarrow> int \<Rightarrow> bool \<Rightarrow> trigger_source
     \<Rightarrow> 'x sys \<Rightarrow> ('x sys \<times> run_summary) option" where
  "send_to_targets ops cfg t specs aid now advance src s =
     (case send_loop ops (t_id t) aid specs no_progress s of
        None \<Rightarrow> None
      | Some (s1, Inr pg) \<Rightarrow> Some (finish_sends ops cfg t specs now advance src pg s1)
      | Some (s1, Inl e) \<Rightarrow>
          Some (fail_flood ops cfg t aid (int (length specs)) now advance src e s1))"

definition execute_task_once ::
  "('x, 'm) tg_ops_scheme \<Rightarrow> config \<Rightarrow> string \<Rightarrow> trigger_source \<Rightarrow> bool \<Rightarrow> bool \<Rightarrow> 'x sys
     \<Rightarrow> ('x sys \<times> (http_error + run_summary)) option" where
  "execute_task_once ops cfg tid src advance respect s =
     (let now = timestamp (now_of ops (sx s)); hour = hour_of ops (now_of ops (sx s)) in
      case validate_and_resolve ops cfg tid now advance src s of
        (s1, Raise e) \<Rightarrow> Some (s1, Inl e)
      | (s1, Early r) \<Rightarrow> Some (s1, Inr r)
      | (s1, Valid t v) \<Rightarrow>
          (case check_schedule_constraints t now hour advance respect src
                  (int (length (vd_targets v))) s1 of
             (s2, Some r) \<Rightarrow> Some (s2, Inr r)
           | (s2, None) \<Rightarrow>
               (case lock_and_recheck_observation_budget ops t (vd_targets v) now advance src s2 of
                  (s3, Inl r) \<Rightarrow> Some (s3, Inr r)
                | (s3, Inr specs) \<Rightarrow>
                    map_option (\<lambda>(s4, r). (s4, Inr r))
                      (send_to_targets ops cfg t specs (vd_account_id v) now advance src s3))))"

end
