(* ===== verification/Forward.thy ===== *)
theory Forward
  imports Sending
begin

text \<open>
  Time in a run: the documented behaviour of the clock (\<open>clock_forward\<close>, \<open>sleep_elapses\<close>)
  lifted to every composite operation of a send, the rule for the waiting loop of the rate
  limiter and its termination.
\<close>

section \<open>The world only moves forward\<close>

definition fwd :: "('x, 'm) tg_ops_scheme \<Rightarrow> ('x \<Rightarrow> 'x \<times> 'r) \<Rightarrow> bool" where
  "fwd ops f \<longleftrightarrow> (\<forall>x. now_of ops x \<le> now_of ops (fst (f x)))"

lemma fwdI: "(\<And>x x' r. f x = (x', r) \<Longrightarrow> now_of ops x \<le> now_of ops x') \<Longrightarrow> fwd ops f"
  unfolding fwd_def by (metis prod.collapse)

lemma fwdD: "fwd ops f \<Longrightarrow> f x = (x', r) \<Longrightarrow> now_of ops x \<le> now_of ops x'"
  unfolding fwd_def by (metis fst_conv)

lemma clock_forward_fwd:
  assumes "clock_forward ops"
  shows "fwd ops (set_nx ops k v n)" "fwd ops (del_key ops k)" "fwd ops (rand_int ops a b)"
    "fwd ops (client_of ops k)" "fwd ops (get_me ops k)" "fwd ops (input_peer ops k m u h)"
    "fwd ops (input_entity ops m)" "fwd ops (dialogs ops)" "fwd ops (saved_message ops m)"
    "fwd ops (tg_send ops c)" "fwd ops (tg_delete ops p m)" "fwd ops (tg_pin ops p m)"
  using assms by (simp_all add: clock_forward_def fwd_def)

lemma clock_forward_steps:
  assumes "clock_forward ops"
  shows "now_of ops x \<le> now_of ops (sleep_for ops n x)" "now_of ops x \<le> now_of ops (notify ops k a x)"
  using assms by (simp_all add: clock_forward_def)

lemma fwd_run_redis_op:
  assumes f: "fwd ops f"
  shows "fwd ops (run_redis_op nm f)"
proof (rule fwdI)
  fix x x' r
  assume run: "run_redis_op nm f x = (x', r)"
  obtain x1 r1 where f1: "f x = (x1, r1)" by fastforce
  obtain x2 r2 where f2: "f x1 = (x2, r2)" by fastforce
  have "now_of ops x \<le> now_of ops x1" "now_of ops x1 \<le> now_of ops x2"
    using fwdD [OF f f1] fwdD [OF f f2] .
  moreover have "x' = x1 \<or> x' = x2"
    using run f1 f2 by (auto simp: run_redis_op_def split: sum.splits if_splits)
  ultimately show "now_of ops x \<le> now_of ops x'" by auto
qed

lemma fwd_locks:
  assumes "clock_forward ops"
  shows "fwd ops (acquire_account_lock ops aid)" "fwd ops (acquire_peer_lock ops pid)"
    "fwd ops (release_account_lock ops aid)"
  by (simp_all add: acquire_account_lock_def acquire_peer_lock_def release_account_lock_def
      fwd_run_redis_op clock_forward_fwd [OF assms])

lemma fwd_slot_round:
  assumes "clock_forward ops"
  shows "fwd ops (slot_round ops aid pid w)"
proof (rule fwdI)
  fix x x' r
  assume "slot_round ops aid pid w x = (x', r)"
  then show "now_of ops x \<le> now_of ops x'"
    using fwd_locks [OF assms, THEN fwdD] clock_forward_steps(1) [OF assms]
    by (auto simp: slot_round_def split: prod.splits sum.splits bool.splits)
       (meson order_trans)+
qed

lemmas wait_loop_raw =
  wait_loop.raw_induct [where xa = "((((((ops, aid), pid), m), st), w), x)" for ops aid pid m st w x,
    unfolded prod.case]

text \<open>Partial correctness of the waiting loop: an invariant of its rounds.\<close>

lemma wait_loop_rule:
  assumes run: "wait_loop ops aid pid m st w x = Some res"
    and inv: "I w x"
    and step: "\<And>w y y'. I w y \<Longrightarrow> w < m \<Longrightarrow> slot_round ops aid pid w y = (y', None)
                 \<Longrightarrow> I (now_of ops y' - st) y'"
    and timeout: "\<And>w y. I w y \<Longrightarrow> m \<le> w \<Longrightarrow> Q (y, Inl (slot_timeout aid pid))"
    and final: "\<And>w y y' r. I w y \<Longrightarrow> w < m \<Longrightarrow> slot_round ops aid pid w y = (y', Some r)
                 \<Longrightarrow> Q (y', r)"
  shows "Q res"
proof -
  let ?P = "\<lambda>o' a p k s v z y. o' = ops \<longrightarrow> a = aid \<longrightarrow> p = pid \<longrightarrow> k = m \<longrightarrow> s = st \<longrightarrow> I v z \<longrightarrow> Q y"
  have "?P ops aid pid m st w x res"
  proof (rule wait_loop_raw [where P = ?P, OF _ run], intro impI, goal_cases)
    case (1 loop o' a p k s v z y)
    have ih: "Q res'" if "loop ops aid pid m st w' x' = Some res'" "I w' x'" for w' x' res'
      using 1(1) [OF that(1)] that(2) by simp
    have body: "(if m \<le> v then Some (z, Inl (slot_timeout aid pid))
        else case slot_round ops aid pid v z of (z', Some r) \<Rightarrow> Some (z', r)
           | (z', None) \<Rightarrow> loop ops aid pid m st (now_of ops z' - st) z') = Some y"
      using 1(2) by (simp add: 1(3-7) split: prod.splits option.splits if_splits)
    from 1(8) have "I v z" by simp
    show ?case
    proof (cases "m \<le> v")
      case True
      with body timeout [OF \<open>I v z\<close>] show ?thesis by simp
    next
      case False
      then have "v < m" by simp
      with body show ?thesis
        using final [OF \<open>I v z\<close>] ih step [OF \<open>I v z\<close>]
        by (auto split: prod.splits option.splits)
    qed
  qed
  with inv show ?thesis by simp
qed

lemma wait_loop_forward:
  assumes "clock_forward ops" "wait_loop ops aid pid m st w x = Some (x', r)"
  shows "now_of ops x \<le> now_of ops x'"
proof -
  have "(\<lambda>(y, r). now_of ops x \<le> now_of ops y) (x', r)"
    by (rule wait_loop_rule [OF assms(2), where I = "\<lambda>_ y. now_of ops x \<le> now_of ops y"])
       (use fwd_slot_round [OF assms(1), THEN fwdD] in \<open>auto intro: order_trans\<close>)
  then show ?thesis by simp
qed

lemma slot_round_sleeps:
  assumes "clock_forward ops" "sleep_elapses ops" "slot_round ops aid pid w x = (x', None)"
  shows "now_of ops x + poll_interval \<le> now_of ops x'"
proof -
  have s: "now_of ops y + poll_interval \<le> now_of ops (sleep_for ops poll_interval y)" for y
    using assms(2) by (simp add: sleep_elapses_def)
  note l = fwd_locks [OF assms(1), THEN fwdD]
  have "\<exists>y. x' = sleep_for ops poll_interval y \<and> now_of ops x \<le> now_of ops y"
    using assms(3)
    by (auto simp: slot_round_def split: prod.splits sum.splits bool.splits dest!: l)
       (meson order_trans order_refl)?
  with s show ?thesis by (metis (no_types, lifting) add_right_mono order_trans)
qed

lemma wait_loop_returns:
  assumes c: "clock_forward ops" "sleep_elapses ops" and "w \<le> now_of ops x - st"
  shows "\<exists>r. wait_loop ops aid pid m st w x = Some r"
  using assms(3)
proof (induction "nat (m - w)" arbitrary: w x rule: less_induct)
  case less
  show ?case
  proof (cases "m \<le> w")
    case True
    then show ?thesis by (subst wait_loop.simps) simp
  next
    case False
    obtain x' r where r: "slot_round ops aid pid w x = (x', r)" by fastforce
    show ?thesis
    proof (cases r)
      case None
      with r have "now_of ops x + poll_interval \<le> now_of ops x'"
        using slot_round_sleeps [OF c] by blast
      with less.prems False have "nat (m - (now_of ops x' - st)) < nat (m - w)" by simp
      from less.hyps [OF this] obtain res
        where "wait_loop ops aid pid m st (now_of ops x' - st) x' = Some res"
        by (meson order_refl)
      with r None False show ?thesis by (subst wait_loop.simps) simp
    next
      case (Some q)
      with r False show ?thesis by (subst wait_loop.simps) simp
    qed
  qed
qed

lemma slot_round_granted:
  "slot_round ops aid pid w x = (x', Some (Inr v)) \<Longrightarrow>
   v = w \<and> (\<exists>x1. acquire_account_lock ops aid x = (x1, Inr True)
                \<and> acquire_peer_lock ops pid x1 = (x', Inr True))"
  by (auto simp: slot_round_def split: prod.splits sum.splits bool.splits)

lemma fwd_const [simp]: "fwd ops (\<lambda>x. (x, r))"
  by (simp add: fwd_def)

lemma fwd_randint: "clock_forward ops \<Longrightarrow> fwd ops (randint ops a b)"
  using clock_forward_fwd(3) [of ops] by (simp add: fwd_def randint_def split: prod.splits) (metis fst_conv)

lemma fwd_sample: "clock_forward ops \<Longrightarrow> now_of ops x \<le> now_of ops (fst (sample ops k xs x))"
proof (induction ops k xs x rule: sample.induct)
  case (2 ops k xs x)
  obtain x1 i where r: "rand_int ops 0 (int (length xs) - 1) x = (x1, i)" by fastforce
  have "now_of ops x \<le> now_of ops x1"
    using fwdD [OF clock_forward_fwd(3) [OF 2(2)] r] .
  with 2 r show ?case by (fastforce simp: Let_def split: prod.splits)
qed simp

lemma fwd_sampleD: "clock_forward ops \<Longrightarrow> sample ops k xs x = (x', r) \<Longrightarrow> now_of ops x \<le> now_of ops x'"
  by (metis fwd_sample fst_conv)

lemma fwd_zero_width:
  assumes c: "clock_forward ops"
  shows "fwd ops (add_zero_width_chars ops txt m)"
  by (rule fwdI) (auto simp: add_zero_width_chars_def Let_def split: prod.splits if_splits
      dest!: fwd_sampleD [OF c] fwdD [OF fwd_randint [OF c]])

lemma fwd_variation:
  assumes c: "clock_forward ops"
  shows "fwd ops (add_invisible_variation ops txt)"
proof (rule fwdI)
  fix x x' r
  assume run: "add_invisible_variation ops txt x = (x', r)"
  obtain x1 z1 where 1: "add_zero_width_chars ops txt 5 x = (x1, z1)" by fastforce
  have 2: "now_of ops x \<le> now_of ops x1" by (rule fwdD [OF fwd_zero_width [OF c] 1])
  have "now_of ops x1 \<le> now_of ops x' \<or> x' = x"
    using run 1 by (auto simp: add_invisible_variation_def Let_def simp del: sample.simps
        split: prod.splits if_splits dest!: fwd_sampleD [OF c])
  with 2 show "now_of ops x \<le> now_of ops x'" by auto
qed

lemma fwd_resolve_send_target:
  assumes c: "clock_forward ops"
  shows "fwd ops (resolve_send_target ops t sp)"
proof (rule fwdI)
  fix x x' r
  assume "resolve_send_target ops t sp x = (x', r)"
  then show "now_of ops x \<le> now_of ops x'"
    by (auto simp: resolve_send_target_def Let_def split: prod.splits sum.splits option.splits if_splits
        dest!: fwdD [OF clock_forward_fwd(6) [OF c]] fwdD [OF clock_forward_fwd(7) [OF c]]
          fwdD [OF clock_forward_fwd(8) [OF c]])
qed

lemma fwd_media:
  assumes c: "clock_forward ops"
  shows "fwd ops (resolve_task_media ops f aid)" "fwd ops (resolve_v2_task_media ops t)"
  by (rule fwdI; auto simp: resolve_task_media_def resolve_v2_task_media_def Let_def
      split: prod.splits sum.splits option.splits if_splits
      dest!: fwdD [OF clock_forward_fwd(9) [OF c]])+

lemma fwd_resolve_send_media:
  assumes c: "clock_forward ops"
  shows "fwd ops (resolve_send_media ops t)"
  by (rule fwdI) (auto simp: resolve_send_media_def
      split: prod.splits sum.splits media_ref.splits if_splits
      dest!: fwdD [OF fwd_media(1) [OF c]] fwdD [OF fwd_media(2) [OF c]])

lemma fwd_prepare:
  assumes c: "clock_forward ops"
  shows "fwd ops (prepare_task_content ops t)"
  by (rule fwdI) (auto simp: prepare_task_content_def Let_def
      split: prod.splits sum.splits option.splits list.splits if_splits
      dest!: fwdD [OF fwd_variation [OF c]])

lemma fwd_send_content:
  assumes c: "clock_forward ops"
  shows "fwd ops (send_task_content ops t peer txt)"
  by (rule fwdI) (auto simp: send_task_content_def
      split: prod.splits sum.splits if_splits
      dest!: fwdD [OF clock_forward_fwd(10) [OF c]] fwdD [OF fwd_resolve_send_media [OF c]])

lemma fwd_do_send_message:
  assumes c: "clock_forward ops"
  shows "fwd ops (do_send_message ops t peer previous)"
proof (rule fwdI)
  fix x x' r
  assume run: "do_send_message ops t peer previous x = (x', r)"
  obtain x1 p where 1: "prepare_task_content ops t x = (x1, p)" by fastforce
  have m1: "now_of ops x \<le> now_of ops x1" by (rule fwdD [OF fwd_prepare [OF c] 1])
  have delm: "now_of ops x1 \<le> now_of ops (fst (tg_delete ops peer n x1))" for n
    using clock_forward_fwd(11) [OF c] by (simp add: fwd_def)
  have pin: "now_of ops y \<le> now_of ops (fst (tg_pin ops peer n y))" for n y
    using clock_forward_fwd(12) [OF c] by (simp add: fwd_def)
  show "now_of ops x \<le> now_of ops x'"
  proof (cases p)
    case (Inl e)
    with run 1 m1 show ?thesis by (simp add: do_send_message_def)
  next
    case (Inr body)
    define x2 where "x2 = (if t_delete_previous t \<and> int_true previous
        then fst (tg_delete ops peer (the previous) x1) else x1)"
    obtain x3 q where 3: "send_task_content ops t peer body x2 = (x3, q)" by fastforce
    have "now_of ops x1 \<le> now_of ops x2" using delm by (simp add: x2_def)
    moreover have "now_of ops x2 \<le> now_of ops x3" by (rule fwdD [OF fwd_send_content [OF c] 3])
    moreover have "x' = x3 \<or> (\<exists>n. x' = fst (tg_pin ops peer n x3))"
      using run 1 Inr 3 by (auto simp: do_send_message_def x2_def [symmetric] Let_def
          split: sum.splits option.splits if_splits)
    ultimately show ?thesis using m1 pin [of x3] by (auto intro: order_trans)
  qed
qed


end
