(* ===== verification/LicensingFacts.thy ===== *)
theory LicensingFacts
  imports Licensing
begin

text \<open>
  What the operations of the licensing service leave alone, table by table, and what the
  normalization does to the slots, accounts and tasks of a user.
\<close>

section \<open>Frames: the tables an operation leaves alone\<close>

lemma fold_frame:
  "(\<And>x d. x \<in> set xs \<Longrightarrow> f (g x d) = f d) \<Longrightarrow> f (fold g xs d) = f d"
  by (induction xs arbitrary: d) auto

lemma backfill_card_frame [simp]:
  "tasks (backfill_card now k d) = tasks d"
  "accounts (backfill_card now k d) = accounts d"
  "users (backfill_card now k d) = users d"
  "cards (backfill_card now k d) = cards d"
  by (auto simp: backfill_card_def Let_def add_usage_def add_slot_def add_binding_def
      split: option.splits)

lemma backfill_frame [simp]:
  "tasks (backfill_legacy_used_cards uid now d) = tasks d"
  "accounts (backfill_legacy_used_cards uid now d) = accounts d"
  "users (backfill_legacy_used_cards uid now d) = users d"
  "cards (backfill_legacy_used_cards uid now d) = cards d"
  by (simp_all add: backfill_legacy_used_cards_def fold_frame)

lemma sync_frame [simp]:
  "tasks (sync_expired_slots uid now d) = tasks d"
  "accounts (sync_expired_slots uid now d) = accounts d"
  "users (sync_expired_slots uid now d) = users d"
  "cards (sync_expired_slots uid now d) = cards d"
  by (simp_all add: sync_expired_slots_def)

lemma upd_user_frame [simp]:
  "tasks (upd_user uid f d) = tasks d" "accounts (upd_user uid f d) = accounts d"
  "slots (upd_user uid f d) = slots d" "cards (upd_user uid f d) = cards d"
  by (simp_all add: upd_user_def)

lemma keep_one_frame [simp]:
  "tasks (keep_one_account uid pa d) = tasks d" "slots (keep_one_account uid pa d) = slots d"
  "cards (keep_one_account uid pa d) = cards d"
  by (simp_all add: keep_one_account_def)

lemma close_bindings_frame [simp]:
  "tasks (close_bindings sid r now d) = tasks d" "slots (close_bindings sid r now d) = slots d"
  "accounts (close_bindings sid r now d) = accounts d" "cards (close_bindings sid r now d) = cards d"
  by (simp_all add: close_bindings_def)

lemma add_binding_frame [simp]:
  "tasks (add_binding sid aid now d) = tasks d" "slots (add_binding sid aid now d) = slots d"
  "accounts (add_binding sid aid now d) = accounts d" "cards (add_binding sid aid now d) = cards d"
  by (simp_all add: add_binding_def)

lemma upd_slot_frame [simp]:
  "tasks (upd_slot sid f d) = tasks d" "accounts (upd_slot sid f d) = accounts d"
  "cards (upd_slot sid f d) = cards d"
  by (simp_all add: upd_slot_def)

lemma delete_slot_frame [simp]:
  "tasks (delete_slot sid d) = tasks d" "accounts (delete_slot sid d) = accounts d"
  "cards (delete_slot sid d) = cards d"
  by (simp_all add: delete_slot_def)

lemma settle_frame [simp]:
  "tasks (settle_primary_slot s pa now d) = tasks d"
  "accounts (settle_primary_slot s pa now d) = accounts d"
  "cards (settle_primary_slot s pa now d) = cards d"
  by (simp_all add: settle_primary_slot_def Let_def)

lemma drop_slot_frame [simp]:
  "tasks (drop_slot uid ps now s d) = tasks d"
  "accounts (drop_slot uid ps now s d) = accounts d"
  "cards (drop_slot uid ps now s d) = cards d"
  by (simp_all add: drop_slot_def Let_def)

lemma disable_frame [simp]:
  "slots (disable_tasks_for_accounts aids d) = slots d"
  "accounts (disable_tasks_for_accounts aids d) = accounts d"
  "users (disable_tasks_for_accounts aids d) = users d"
  "cards (disable_tasks_for_accounts aids d) = cards d"
  by (simp_all add: disable_tasks_for_accounts_def)

lemma tasks_disable:
  "tasks (disable_tasks_for_accounts aids d) =
     upd_where (\<lambda>t. t_enabled t \<and> (\<exists>aid \<in> set aids. t_account t = Some aid))
       (\<lambda>t. t\<lparr>t_enabled := False\<rparr>) (tasks d)"
  by (simp add: disable_tasks_for_accounts_def)

lemma tasks_disable_cong:
  "tasks d = tasks d' \<Longrightarrow> tasks (disable_tasks_for_accounts aids d) = tasks (disable_tasks_for_accounts aids d')"
  by (simp add: tasks_disable)

text \<open>The normalization touches the tasks only by disabling those of some accounts.\<close>

lemma normalize_tasks:
  "\<exists>aids. tasks (fst (normalize_single_authorization_model uid now d))
          = tasks (disable_tasks_for_accounts aids d)"
  by (simp add: normalize_single_authorization_model_def Let_def split: option.split)
     (fastforce intro!: exI tasks_disable_cong simp: fold_frame)

section \<open>The normalized state\<close>

definition sound_ids :: "db \<Rightarrow> bool" where
  "sound_ids d \<longleftrightarrow> distinct (map a_id (accounts d)) \<and> distinct (map s_id (slots d))
     \<and> inj (fresh_id d) \<and> (\<forall>n \<ge> drawn d. fresh_id d n \<notin> s_id ` set (slots d))"

lemma backfill_card_slots:
  "\<exists>new. slots (backfill_card now k d) = slots d @ new
     \<and> (\<forall>s \<in> set new. s_user s = the (k_used_by k) \<and> s_id s = fresh_id d (drawn d))
     \<and> length new \<le> 1 \<and> drawn (backfill_card now k d) = drawn d + length new
     \<and> fresh_id (backfill_card now k d) = fresh_id d"
  by (auto simp: backfill_card_def Let_def add_usage_def add_slot_def add_binding_def next_id_def
      split: option.splits)

lemma backfill_card_sound: "sound_ids d \<Longrightarrow> sound_ids (backfill_card now k d)"
proof -
  assume s: "sound_ids d"
  obtain new where n: "slots (backfill_card now k d) = slots d @ new"
    "\<forall>s \<in> set new. s_id s = fresh_id d (drawn d)" "length new \<le> 1"
    "drawn (backfill_card now k d) = drawn d + length new" "fresh_id (backfill_card now k d) = fresh_id d"
    using backfill_card_slots [of now k d] by blast
  from s n show ?thesis
    by (cases new) (auto simp: sound_ids_def dest: injD)
qed

lemma backfill_sound: "sound_ids d \<Longrightarrow> sound_ids (backfill_legacy_used_cards uid now d)"
proof -
  have "sound_ids d \<Longrightarrow> sound_ids (fold (backfill_card now) ks d)" for ks d
    by (induction ks arbitrary: d) (auto intro: backfill_card_sound)
  then show "sound_ids d \<Longrightarrow> sound_ids (backfill_legacy_used_cards uid now d)"
    by (simp add: backfill_legacy_used_cards_def)
qed

lemma backfill_others:
  "filter (\<lambda>s. s_user s \<noteq> uid) (slots (backfill_legacy_used_cards (Some uid) now d))
   = filter (\<lambda>s. s_user s \<noteq> uid) (slots d)"
proof -
  have "(\<And>k. k \<in> set ks \<Longrightarrow> the (k_used_by k) = uid) \<Longrightarrow>
      filter (\<lambda>s. s_user s \<noteq> uid) (slots (fold (backfill_card now) ks d))
      = filter (\<lambda>s. s_user s \<noteq> uid) (slots d)" for ks d
  proof (induction ks arbitrary: d)
    case (Cons k ks)
    obtain new where "slots (backfill_card now k d) = slots d @ new" "\<forall>s \<in> set new. s_user s = uid"
      using backfill_card_slots [of now k d] Cons.prems by auto
    then have "filter (\<lambda>s. s_user s \<noteq> uid) (slots (backfill_card now k d)) = filter (\<lambda>s. s_user s \<noteq> uid) (slots d)"
      by (simp add: filter_empty_conv)
    with Cons.IH Cons.prems show ?case by simp
  qed simp
  moreover have "k \<in> set (legacy_cards (Some uid) d) \<Longrightarrow> the (k_used_by k) = uid" for k
    by (auto simp: legacy_cards_def)
  ultimately show ?thesis by (simp add: backfill_legacy_used_cards_def)
qed

lemma sync_slots:
  "map s_id (slots (sync_expired_slots uid now d)) = map s_id (slots d)"
  "filter (\<lambda>s. s_user s \<noteq> u) (slots (sync_expired_slots (Some u) now d)) = filter (\<lambda>s. s_user s \<noteq> u) (slots d)"
  by (simp add: sync_expired_slots_def map_upd_where)
     (simp add: sync_expired_slots_def, rule filter_upd_where_other, auto)

lemma sync_sound: "sound_ids d \<Longrightarrow> sound_ids (sync_expired_slots uid now d)"
proof -
  have "s_id ` set (slots (sync_expired_slots uid now d)) = s_id ` set (slots d)"
    by (metis list.set_map sync_slots(1))
  then show "sound_ids d \<Longrightarrow> sound_ids (sync_expired_slots uid now d)"
    by (simp add: sound_ids_def sync_slots) (simp add: sync_expired_slots_def)
qed

text \<open>The primary slot keeps its identity, its owner and its end.\<close>

definition same_slot :: "slot \<Rightarrow> slot \<Rightarrow> bool" where
  "same_slot s r \<longleftrightarrow> s_id r = s_id s \<and> s_user r = s_user s \<and> s_end r = s_end s"

lemma upd_where_upd_where:
  "(\<And>r. P r \<Longrightarrow> P (f r)) \<Longrightarrow> upd_where P g (upd_where P f rows) = upd_where P (\<lambda>r. g (f r)) rows"
  by (induction rows) auto

lemma settle_slots:
  "\<exists>g. (\<forall>r. same_slot r (g r)) \<and>
     slots (settle_primary_slot s pa now d) = upd_where (\<lambda>r. s_id r = s_id s) g (slots d)"
proof -
  let ?f = "\<lambda>r. touch now r (r\<lparr>s_status := if now < s_end s then ''active'' else ''expired''\<rparr>)"
  let ?h = "\<lambda>r. r\<lparr>s_account := map_option a_id pa, s_updated := now\<rparr>"
  have f: "\<forall>r. same_slot r (?f r)" by (simp add: same_slot_def touch_def)
  have h: "\<forall>r. same_slot r (?h (?f r))" by (simp add: same_slot_def touch_def)
  have two: "upd_where (\<lambda>r. s_id r = s_id s) ?h (upd_where (\<lambda>r. s_id r = s_id s) ?f (slots d))
      = upd_where (\<lambda>r. s_id r = s_id s) (\<lambda>r. ?h (?f r)) (slots d)"
    by (rule upd_where_upd_where) (simp add: touch_def)
  have "slots (settle_primary_slot s pa now d) = upd_where (\<lambda>r. s_id r = s_id s) ?f (slots d)
      \<or> slots (settle_primary_slot s pa now d) = upd_where (\<lambda>r. s_id r = s_id s) (\<lambda>r. ?h (?f r)) (slots d)"
    unfolding settle_primary_slot_def Let_def
    by (auto simp: upd_slot_def close_bindings_def two)
  then show ?thesis
  proof
    assume "slots (settle_primary_slot s pa now d) = upd_where (\<lambda>r. s_id r = s_id s) ?f (slots d)"
    with f show ?thesis by (intro exI [of _ ?f] conjI)
  next
    assume "slots (settle_primary_slot s pa now d)
        = upd_where (\<lambda>r. s_id r = s_id s) (\<lambda>r. ?h (?f r)) (slots d)"
    with h show ?thesis by (intro exI [of _ "\<lambda>r. ?h (?f r)"] conjI)
  qed
qed

definition kept :: "slot option \<Rightarrow> slot \<Rightarrow> bool" where
  "kept ps s \<longleftrightarrow> (case ps of None \<Rightarrow> False | Some p \<Rightarrow> s_id s = s_id p)"

lemma drop_slots:
  "slots (fold (drop_slot uid ps now) sls d) =
     filter (\<lambda>s. s_id s \<notin> s_id ` set sls \<or> kept ps s) (slots d)"
proof (induction sls arbitrary: d)
  case (Cons x xs)
  have one: "slots (drop_slot uid ps now x d) = filter (\<lambda>s. s_id s \<noteq> s_id x \<or> kept ps s) (slots d)"
  proof (cases "kept ps x")
    case True
    then have "\<And>s. s_id s = s_id x \<Longrightarrow> kept ps s" by (auto simp: kept_def split: option.splits)
    with True show ?thesis
      by (auto simp: drop_slot_def kept_def filter_id_conv intro!: sym [OF filter_id_conv [THEN iffD2]]
          split: option.splits)
  next
    case False
    then have "\<And>s. s_id s = s_id x \<Longrightarrow> \<not> kept ps s" by (auto simp: kept_def split: option.splits)
    then have "filter (\<lambda>s. s_id s \<noteq> s_id x \<or> kept ps s) (slots d) = filter (\<lambda>s. s_id s \<noteq> s_id x) (slots d)"
      by (metis (mono_tags, lifting) filter_cong)
    with False show ?thesis
      by (auto simp: drop_slot_def kept_def Let_def delete_slot_def split: option.splits)
  qed
  show ?case by (simp add: Cons.IH one, rule filter_cong) (auto simp: kept_def split: option.splits)
qed (simp add: filter_id_conv)

definition synced :: "int \<Rightarrow> datetime \<Rightarrow> db \<Rightarrow> db" where
  "synced uid now d = sync_expired_slots (Some uid) now (backfill_legacy_used_cards (Some uid) now d)"

definition primary_slot :: "int \<Rightarrow> datetime \<Rightarrow> db \<Rightarrow> slot option" where
  "primary_slot uid now d = max_by (slot_priority now (user_accounts uid d)) (user_slots uid d)"

definition primary_account :: "int \<Rightarrow> datetime \<Rightarrow> db \<Rightarrow> account option" where
  "primary_account uid now d = choose_primary_account (primary_slot uid now d) (user_accounts uid d)"

definition is_primary :: "account option \<Rightarrow> account \<Rightarrow> bool" where
  "is_primary pa a \<longleftrightarrow> (case pa of None \<Rightarrow> False | Some p \<Rightarrow> a_id a = a_id p)"

lemma synced_sound: "sound_ids d \<Longrightarrow> sound_ids (synced uid now d)"
  by (simp add: synced_def sync_sound backfill_sound)

lemma synced_others: "filter (\<lambda>s. s_user s \<noteq> uid) (slots (synced uid now d)) = filter (\<lambda>s. s_user s \<noteq> uid) (slots d)"
  by (simp add: synced_def sync_slots(2) backfill_others)

lemma set_user_slots: "set (user_slots uid d) = {s \<in> set (slots d). s_user s = uid}"
  by (auto simp: user_slots_def)

lemma set_user_accounts: "set (user_accounts uid d) = {a \<in> set (accounts d). a_user a = uid}"
  by (auto simp: user_accounts_def)

lemma primary_slot_in: "primary_slot uid now d = Some p \<Longrightarrow> p \<in> set (slots d) \<and> s_user p = uid"
  using max_by_in [of "slot_priority now (user_accounts uid d)" "user_slots uid d" p]
  by (simp add: primary_slot_def set_user_slots)

lemma primary_slot_None: "primary_slot uid now d = None \<longleftrightarrow> (\<forall>s \<in> set (slots d). s_user s \<noteq> uid)"
proof -
  have "user_slots uid d = [] \<longleftrightarrow> set (user_slots uid d) = {}" by simp
  then show ?thesis by (auto simp: primary_slot_def set_user_slots)
qed

text \<open>The tables after the normalization.\<close>

lemma normalize_slots:
  "\<exists>g. (\<forall>r. same_slot r (g r)) \<and>
     slots (fst (normalize_single_authorization_model uid now d0)) =
       filter (\<lambda>s. s_id s \<notin> s_id ` set (user_slots uid (synced uid now d0))
                   \<or> kept (primary_slot uid now (synced uid now d0)) s)
         (upd_where (kept (primary_slot uid now (synced uid now d0))) g (slots (synced uid now d0)))"
proof -
  let ?d = "synced uid now d0"
  let ?ps = "primary_slot uid now ?d"
  let ?pa = "primary_account uid now ?d"
  define d2 where "d2 = keep_one_account uid ?pa (upd_user uid (repair_trial ?ps (map s_id (user_slots uid ?d))) ?d)"
  have n: "slots (fst (normalize_single_authorization_model uid now d0)) =
      filter (\<lambda>s. s_id s \<notin> s_id ` set (user_slots uid ?d) \<or> kept ?ps s)
        (slots (case ?ps of None \<Rightarrow> d2 | Some s \<Rightarrow> settle_primary_slot s ?pa now d2))"
    by (cases ?ps) (simp_all add: normalize_single_authorization_model_def Let_def drop_slots d2_def
        primary_slot_def primary_account_def synced_def del: max_by_None)
  have s2: "slots d2 = slots ?d" by (simp add: d2_def)
  show ?thesis
  proof (cases ?ps)
    case None
    then show ?thesis
      by (intro exI [of _ "\<lambda>r. r"]) (simp add: n s2 same_slot_def upd_where_id)
  next
    case (Some p)
    obtain g where g: "\<forall>r. same_slot r (g r)"
      "slots (settle_primary_slot p ?pa now d2) = upd_where (\<lambda>r. s_id r = s_id p) g (slots d2)"
      using settle_slots by blast
    have "kept ?ps = (\<lambda>r. s_id r = s_id p)" by (simp add: kept_def Some fun_eq_iff)
    with g Some show ?thesis by (intro exI [of _ g]) (simp add: n s2)
  qed
qed

lemma normalize_accounts:
  "accounts (fst (normalize_single_authorization_model uid now d0)) =
     upd_where (\<lambda>a. a_user a = uid)
       (\<lambda>a. a\<lparr>a_active := is_primary (primary_account uid now (synced uid now d0)) a\<rparr>) (accounts d0)"
  by (simp add: normalize_single_authorization_model_def Let_def fold_frame keep_one_account_def
      primary_slot_def primary_account_def synced_def is_primary_def fun_eq_iff split: option.split)

lemma normalize_cards: "cards (fst (normalize_single_authorization_model uid now d0)) = cards d0"
  by (simp add: normalize_single_authorization_model_def Let_def fold_frame split: option.split)

lemma plans_frame [simp]:
  "plans (backfill_card now k d) = plans d"
  "plans (backfill_legacy_used_cards uid now d) = plans d"
  "plans (sync_expired_slots u now d) = plans d"
  "plans (keep_one_account i pa d) = plans d"
  "plans (settle_primary_slot s pa now d) = plans d"
  "plans (drop_slot i ps now s d) = plans d"
  "plans (disable_tasks_for_accounts aids d) = plans d"
  "plans (upd_user i f d) = plans d"
proof -
  show b: "plans (backfill_card now k d) = plans d" for now k d
    by (auto simp: backfill_card_def Let_def add_usage_def add_slot_def add_binding_def split: option.splits)
  show "plans (backfill_legacy_used_cards uid now d) = plans d"
    by (simp add: backfill_legacy_used_cards_def fold_frame b)
qed (simp_all add: sync_expired_slots_def keep_one_account_def settle_primary_slot_def drop_slot_def Let_def
      delete_slot_def upd_user_def upd_slot_def close_bindings_def add_binding_def disable_tasks_for_accounts_def)

lemma normalize_plans: "plans (fst (normalize_single_authorization_model uid now d0)) = plans d0"
  by (simp add: normalize_single_authorization_model_def Let_def fold_frame split: option.split)

lemma normalize_task_rows:
  "tasks (fst (normalize_single_authorization_model uid now d0)) =
     tasks (disable_tasks_for_accounts
       (map a_id (filter (\<lambda>a. \<not> is_primary (primary_account uid now (synced uid now d0)) a)
          (user_accounts uid (synced uid now d0)))) d0)"
  by (simp add: normalize_single_authorization_model_def Let_def is_primary_def
      primary_slot_def primary_account_def synced_def tasks_disable fold_frame split: option.split)

section \<open>One slot, one account\<close>

lemma same_id_one:
  "distinct (map s_id xs) \<Longrightarrow> length (filter (\<lambda>s. s_id s = i \<and> Q s) xs) \<le> 1"
proof (induction xs)
  case (Cons x xs)
  have "filter (\<lambda>s. s_id s = i \<and> Q s) xs = []" if "s_id x = i"
    using Cons.prems that by (auto simp: filter_empty_conv image_iff)
  with Cons show ?case by (cases "s_id x = i \<and> Q x") auto
qed simp

lemma normalize_one_slot:
  assumes "sound_ids d0"
  shows "length (filter (\<lambda>s. s_user s = uid) (slots (fst (normalize_single_authorization_model uid now d0)))) \<le> 1"
proof -
  let ?d = "synced uid now d0"
  let ?ps = "primary_slot uid now ?d"
  obtain g where g: "\<forall>r. same_slot r (g r)" and
    n: "slots (fst (normalize_single_authorization_model uid now d0)) =
       filter (\<lambda>s. s_id s \<notin> s_id ` set (user_slots uid ?d) \<or> kept ?ps s) (upd_where (kept ?ps) g (slots ?d))"
    using normalize_slots by blast
  have m: "map s_id (upd_where (kept ?ps) g (slots ?d)) = map s_id (slots ?d)"
    by (rule map_upd_where) (use g in \<open>simp add: same_slot_def\<close>)
  have dist: "distinct (map s_id (upd_where (kept ?ps) g (slots ?d)))"
    using synced_sound [OF assms, of uid now] unfolding m by (simp add: sound_ids_def)
  have own: "s \<in> set (upd_where (kept ?ps) g (slots ?d)) \<Longrightarrow> s_user s = uid \<Longrightarrow>
      s_id s \<in> s_id ` set (user_slots uid ?d)" for s
    using g by (fastforce simp: set_user_slots same_slot_def image_iff dest!: set_upd_where split: if_splits)
  have "filter (\<lambda>s. s_user s = uid) (slots (fst (normalize_single_authorization_model uid now d0)))
      = filter (\<lambda>s. s_user s = uid \<and> kept ?ps s) (upd_where (kept ?ps) g (slots ?d))"
    unfolding n filter_filter by (rule filter_cong) (use own in auto)
  also have "length \<dots> \<le> 1"
  proof (cases ?ps)
    case None
    then show ?thesis by (simp add: kept_def)
  next
    case (Some p)
    have "(\<lambda>s. s_user s = uid \<and> kept ?ps s) = (\<lambda>s. s_id s = s_id p \<and> s_user s = uid)"
      by (auto simp: kept_def Some)
    then show ?thesis using same_id_one [OF dist, of "s_id p" "\<lambda>s. s_user s = uid"] by metis
  qed
  finally show ?thesis .
qed

lemma normalize_other_slots:
  assumes "sound_ids d0"
  shows "filter (\<lambda>s. s_user s \<noteq> uid) (slots (fst (normalize_single_authorization_model uid now d0)))
       = filter (\<lambda>s. s_user s \<noteq> uid) (slots d0)"
proof -
  let ?d = "synced uid now d0"
  let ?ps = "primary_slot uid now ?d"
  obtain g where g: "\<forall>r. same_slot r (g r)" and
    n: "slots (fst (normalize_single_authorization_model uid now d0)) =
       filter (\<lambda>s. s_id s \<notin> s_id ` set (user_slots uid ?d) \<or> kept ?ps s) (upd_where (kept ?ps) g (slots ?d))"
    using normalize_slots by blast
  have dist: "distinct (map s_id (slots ?d))"
    using synced_sound [OF assms, of uid now] by (simp add: sound_ids_def)
  have other: "s_id s \<notin> s_id ` set (user_slots uid ?d) \<and> \<not> kept ?ps s"
    if s: "s \<in> set (slots ?d)" "s_user s \<noteq> uid" for s
  proof -
    have inj: "r \<in> set (slots ?d) \<Longrightarrow> s_id r = s_id s \<Longrightarrow> r = s" for r
      using dist s(1) by (auto simp: distinct_map dest: inj_onD)
    have "s_id s \<notin> s_id ` set (user_slots uid ?d)"
      using s(2) inj by (auto simp: set_user_slots)
    moreover have "\<not> kept ?ps s"
    proof (cases ?ps)
      case (Some p)
      with primary_slot_in [OF Some] inj [of p] s(2) show ?thesis by (auto simp: kept_def)
    qed (simp add: kept_def)
    ultimately show ?thesis by simp
  qed
  have "filter (\<lambda>s. s_user s \<noteq> uid) (filter (\<lambda>s. s_id s \<notin> s_id ` set (user_slots uid ?d) \<or> kept ?ps s)
      (upd_where (kept ?ps) g xs)) = filter (\<lambda>s. s_user s \<noteq> uid) xs"
    if "set xs \<subseteq> set (slots ?d)" for xs
    using that
  proof (induction xs)
    case (Cons x xs)
    have "s_user (g x) = s_user x" using g by (simp add: same_slot_def)
    show ?case
    proof (cases "s_user x = uid")
      case True
      then show ?thesis using Cons \<open>s_user (g x) = s_user x\<close> by simp
    next
      case False
      then show ?thesis using Cons other [of x] by simp
    qed
  qed simp
  from this [of "slots ?d"] show ?thesis by (simp only: n synced_others order_refl)
qed

lemma normalize_one_account:
  assumes "distinct (map a_id (accounts d0))"
  shows "length (filter (\<lambda>a. a_user a = uid \<and> a_active a)
      (accounts (fst (normalize_single_authorization_model uid now d0)))) \<le> 1"
proof -
  let ?pa = "primary_account uid now (synced uid now d0)"
  have "distinct (map a_id xs) \<Longrightarrow> length (filter (\<lambda>a. a_user a = uid \<and> a_active a)
      (upd_where (\<lambda>a. a_user a = uid) (\<lambda>a. a\<lparr>a_active := is_primary ?pa a\<rparr>) xs)) \<le> 1" for xs
  proof (induction xs)
    case (Cons x xs)
    have none: "filter (\<lambda>a. a_user a = uid \<and> a_active a)
        (upd_where (\<lambda>a. a_user a = uid) (\<lambda>a. a\<lparr>a_active := is_primary ?pa a\<rparr>) xs) = []"
      if "is_primary ?pa x"
    proof -
      have "\<not> is_primary ?pa y" if "y \<in> set xs" for y
        using that Cons.prems \<open>is_primary ?pa x\<close>
        by (cases ?pa) (auto simp: is_primary_def image_iff)
      then show ?thesis by (auto simp: filter_empty_conv is_primary_def dest!: set_upd_where
            split: if_splits option.splits)
    qed
    show ?case
      using Cons none by (cases "is_primary ?pa x") auto
  qed simp
  with assms show ?thesis by (simp add: normalize_accounts)
qed

lemma normalize_sound:
  "sound_ids d0 \<Longrightarrow> distinct (map s_id (slots (fst (normalize_single_authorization_model uid now d0))))"
proof -
  assume s: "sound_ids d0"
  let ?d = "synced uid now d0"
  obtain g where g: "\<forall>r. same_slot r (g r)" and
    n: "slots (fst (normalize_single_authorization_model uid now d0)) =
       filter (\<lambda>s. s_id s \<notin> s_id ` set (user_slots uid ?d) \<or> kept (primary_slot uid now ?d) s)
         (upd_where (kept (primary_slot uid now ?d)) g (slots ?d))"
    using normalize_slots by blast
  have "map s_id (upd_where (kept (primary_slot uid now ?d)) g (slots ?d)) = map s_id (slots ?d)"
    by (rule map_upd_where) (use g in \<open>simp add: same_slot_def\<close>)
  moreover have "distinct (map s_id (slots ?d))"
    using synced_sound [OF s, of uid now] by (simp add: sound_ids_def)
  ultimately show ?thesis unfolding n by (intro distinct_map_filter) simp
qed

end
