(* ===== verification/RunnerFacts.thy ===== *)
theory RunnerFacts
  imports Runner Forward LicensingFacts
begin

text \<open>
  What a step of the runner does to the tasks: a relation between the states before and
  after (\<open>evolves\<close>), proved for every phase, so that the properties of a whole run are short.
  \<open>dimmed\<close>: a task is unchanged or disabled. \<open>same_plan\<close>: its interval is unchanged.
\<close>

section \<open>Steps of the system\<close>

definition evolves ::
  "(task \<Rightarrow> task \<Rightarrow> bool) \<Rightarrow> ('x, 'm) tg_ops_scheme \<Rightarrow> 'x sys \<Rightarrow> 'x sys \<Rightarrow> bool" where
  "evolves R ops s s' \<longleftrightarrow>
     now_of ops (sx s) \<le> now_of ops (sx s')
     \<and> (\<forall>tid. rel_option R (get_task tid (sdb s)) (get_task tid (sdb s')))"

definition dimmed :: "task \<Rightarrow> task \<Rightarrow> bool" where
  "dimmed t t' \<longleftrightarrow> t' = t \<or> t' = t\<lparr>t_enabled := False\<rparr>"

definition same_plan :: "task \<Rightarrow> task \<Rightarrow> bool" where
  "same_plan t t' \<longleftrightarrow> t_repeat t' = t_repeat t"

lemma dimmed_refl [simp]: "dimmed t t"
  by (simp add: dimmed_def)

lemma same_plan_refl [simp]: "same_plan t t"
  by (simp add: same_plan_def)

lemma dimmed_trans: "dimmed t u \<Longrightarrow> dimmed u v \<Longrightarrow> dimmed t v"
  by (auto simp: dimmed_def)

lemma same_plan_trans: "same_plan t u \<Longrightarrow> same_plan u v \<Longrightarrow> same_plan t v"
  by (simp add: same_plan_def)

lemma dimmed_same_plan: "dimmed t t' \<Longrightarrow> same_plan t t'"
  by (auto simp: dimmed_def same_plan_def)

lemma rel_option_self: "(\<And>t. R t t) \<Longrightarrow> rel_option R x x"
  by (cases x) auto

lemma rel_option_mapI: "(\<And>t. x = Some t \<Longrightarrow> R t (f t)) \<Longrightarrow> rel_option R x (map_option f x)"
  by (cases x) auto

lemma evolves_weaken:
  "evolves R ops s s' \<Longrightarrow> (\<And>t u. R t u \<Longrightarrow> Q t u) \<Longrightarrow> evolves Q ops s s'"
  unfolding evolves_def by (blast intro: option.rel_mono_strong)

lemma evolves_trans:
  assumes R: "\<And>t u v. R t u \<Longrightarrow> R u v \<Longrightarrow> R t v"
    and s: "evolves R ops s s'" "evolves R ops s' s''"
  shows "evolves R ops s s''"
proof -
  have "rel_option R (get_task tid (sdb s)) (get_task tid (sdb s''))" for tid
  proof -
    have "rel_option R (get_task tid (sdb s)) (get_task tid (sdb s'))"
      "rel_option R (get_task tid (sdb s')) (get_task tid (sdb s''))"
      using s by (auto simp: evolves_def)
    then show ?thesis by (auto simp: option.rel_sel intro: R)
  qed
  with s show ?thesis by (auto simp: evolves_def)
qed

lemma dims_trans:
  "evolves dimmed ops s s' \<Longrightarrow> evolves dimmed ops s' s'' \<Longrightarrow> evolves dimmed ops s s''"
  by (erule (1) evolves_trans [rotated]) (rule dimmed_trans)

lemma plan_trans:
  "evolves same_plan ops s s' \<Longrightarrow> evolves same_plan ops s' s'' \<Longrightarrow> evolves same_plan ops s s''"
  by (erule (1) evolves_trans [rotated]) (rule same_plan_trans)

lemma dims_plan: "evolves dimmed ops s s' \<Longrightarrow> evolves same_plan ops s s'"
  by (erule evolves_weaken) (rule dimmed_same_plan)

lemma evolves_refl: "(\<And>t. R t t) \<Longrightarrow> evolves R ops s s"
  by (simp add: evolves_def rel_option_self)

lemma evolves_db:
  "(\<And>tid. rel_option R (get_task tid (sdb s)) (get_task tid d)) \<Longrightarrow>
   sx s' = sx s \<Longrightarrow> sdb s' = d \<Longrightarrow> evolves R ops s s'"
  by (simp add: evolves_def)

lemma evolves_x:
  "(\<And>t. R t t) \<Longrightarrow> tasks (sdb s') = tasks (sdb s) \<Longrightarrow> now_of ops (sx s) \<le> now_of ops (sx s')
   \<Longrightarrow> evolves R ops s s'"
  by (simp add: evolves_def get_task_def rel_option_self)

lemma evolves_with_x:
  "(\<And>t. R t t) \<Longrightarrow> fwd ops f \<Longrightarrow> with_x f s = (s', r) \<Longrightarrow> evolves R ops s s'"
  by (rule evolves_x) (auto simp: with_x_def dest: fwdD split: prod.splits)

lemma evolves_existence:
  "evolves R ops s s' \<Longrightarrow> get_task tid (sdb s') = None \<longleftrightarrow> get_task tid (sdb s) = None"
  unfolding evolves_def by (metis option.rel_distinct(1) option.rel_distinct(2) option.exhaust)

lemma evolves_Some:
  "evolves R ops s s' \<Longrightarrow> get_task tid (sdb s) = Some t \<Longrightarrow>
   \<exists>t'. get_task tid (sdb s') = Some t' \<and> R t t'"
  unfolding evolves_def by (metis option.rel_cases option.distinct(1) option.inject)

lemma rel_upd_task:
  assumes "\<And>t. t_id (f t) = t_id t" "\<And>t. R t t" "\<And>t. R t (f t)"
  shows "rel_option R (get_task tid d) (get_task tid (upd_task tid' f d))"
proof (cases "tid = tid'")
  case True
  have "get_task tid' (upd_task tid' f d) = map_option f (get_task tid' d)"
    by (rule get_task_upd_same) (simp add: assms(1))
  with True show ?thesis by (simp add: rel_option_mapI assms(3))
next
  case False
  have "get_task tid (upd_task tid' f d) = get_task tid d"
    by (rule get_task_upd_other) (use False assms(1) in auto)
  then show ?thesis by (simp add: rel_option_self assms(2))
qed

lemma rel_upd_where:
  assumes "\<And>t. P t \<Longrightarrow> t_id (f t) = t_id t" "\<And>t. R t t" "\<And>t. P t \<Longrightarrow> R t (f t)"
  shows "rel_option R (get_task tid d) (get_task tid (d\<lparr>tasks := upd_where P f (tasks d)\<rparr>))"
proof -
  have "get_task tid (d\<lparr>tasks := upd_where P f (tasks d)\<rparr>)
      = map_option (\<lambda>r. if P r then f r else r) (get_task tid d)"
    unfolding get_task_def by (simp, rule find_row_upd_same) (simp add: assms(1))
  then show ?thesis by (simp add: rel_option_mapI assms(2,3))
qed

section \<open>The circuit breaker leaves the tasks alone\<close>

lemma sys_frame [simp]:
  "tasks (sdb (update_health_status aid h s)) = tasks (sdb s)"
  "sx (update_health_status aid h s) = sx s"
  "sdb (start_recovery_task aid n s) = sdb s" "sx (start_recovery_task aid n s) = sx s"
  by (simp_all add: update_health_status_def start_recovery_task_def)

lemma sx_simps [simp]: "sx (s\<lparr>sdb := d\<rparr>) = sx s" "sx (s\<lparr>recov := l\<rparr>) = sx s"
  by simp_all

definition still :: "('x, 'm) tg_ops_scheme \<Rightarrow> 'x sys \<Rightarrow> 'x sys \<Rightarrow> bool" where
  "still ops s s' \<longleftrightarrow> tasks (sdb s') = tasks (sdb s) \<and> now_of ops (sx s) \<le> now_of ops (sx s')"

lemma still_refl [simp]: "still ops s s"
  by (simp add: still_def)

lemma still_trans: "still ops s s' \<Longrightarrow> still ops s' s'' \<Longrightarrow> still ops s s''"
  by (simp add: still_def)

lemma still_evolves: "still ops s s' \<Longrightarrow> (\<And>t. R t t) \<Longrightarrow> evolves R ops s s'"
  by (simp add: still_def evolves_x)

lemma still_with_x: "fwd ops f \<Longrightarrow> with_x f s = (s', r) \<Longrightarrow> still ops s s'"
  by (auto simp: still_def with_x_def dest: fwdD split: prod.splits)

lemma still_notify: "clock_forward ops \<Longrightarrow> still ops s (on_x (notify ops k a) s)"
  by (simp add: still_def clock_forward_steps)

lemma still_health_check:
  assumes c: "clock_forward ops" and run: "health_check ops aid s = (s', h)"
  shows "still ops s s'"
  using run still_with_x [OF clock_forward_fwd(5) [OF c]]
  by (fastforce simp: health_check_def still_def split: prod.splits probe.splits)

lemma still_reconcile: "reconcile_account_flood_state ops aid s = (s', r) \<Longrightarrow> still ops s s'"
  by (auto simp: reconcile_account_flood_state_def still_def Let_def split: option.splits if_splits)

lemma still_recover:
  assumes c: "clock_forward ops"
  shows "still ops s (recover_account ops aid s)"
proof -
  obtain s1 acc where r: "reconcile_account_flood_state ops aid s = (s1, acc)" by fastforce
  have 1: "still ops s s1" by (rule still_reconcile [OF r])
  obtain s2 h where h: "health_check ops aid (on_db (upd_account aid clear_flood) s1) = (s2, h)"
    by fastforce
  have "still ops (on_db (upd_account aid clear_flood) s1) s2" by (rule still_health_check [OF c h])
  then have 2: "still ops s1 s2" by (simp add: still_def)
  note 3 = still_trans [OF 1 2] and 4 = still_notify [OF c, of s2 "''recovered''" aid]
  show ?thesis
    using 1 3 still_trans [OF 3 4]
    by (auto simp: recover_account_def r h Let_def split: option.splits if_splits)
       (simp_all add: still_def)
qed

lemma still_admit:
  assumes c: "clock_forward ops" and run: "admit ops aid s = (s', r)"
  shows "still ops s s'"
proof -
  obtain s1 acc where r: "reconcile_account_flood_state ops aid s = (s1, acc)" by fastforce
  have 1: "still ops s s1" by (rule still_reconcile [OF r])
  have "s' = s1 \<or> s' = recover_account ops aid s1"
    using run by (auto simp: admit_def r Let_def split: option.splits if_splits)
  with 1 still_trans [OF 1 still_recover [OF c, of s1 aid]] show ?thesis by auto
qed

lemma still_handle_flood:
  assumes c: "clock_forward ops" and run: "handle_flood_wait ops aid n s = (s', r)"
  shows "still ops s s'"
  using run clock_forward_steps(2) [OF c]
  by (auto simp: handle_flood_wait_def still_def Let_def split: if_splits)

lemma still_peer_flood:
  assumes c: "clock_forward ops" and run: "handle_peer_flood ops aid s = (s', r)"
  shows "still ops s s'"
  using run clock_forward_steps(2) [OF c]
  by (auto simp: handle_peer_flood_def still_def Let_def split: if_splits)

lemma still_breaker:
  assumes c: "clock_forward ops"
    and func: "\<And>y y' q. func y = (y', q) \<Longrightarrow> still ops y y'"
    and run: "execute_with_circuit_breaker ops aid func s = (s', r)"
  shows "still ops s s'"
proof -
  obtain s1 a where a: "admit ops aid s = (s1, a)" by fastforce
  have 1: "still ops s s1" by (rule still_admit [OF c a])
  obtain s2 q where f: "func s1 = (s2, q)" by fastforce
  have 2: "still ops s s2" by (rule still_trans [OF 1 func [OF f]])
  have bad: "still ops s (on_x (notify ops k aid) (update_health_status aid h s2))" for k h
    using 2 clock_forward_steps(2) [OF c, of "sx s2" k aid] by (simp add: still_def)
  show ?thesis
  proof (cases "\<exists>e. a = Inl e")
    case True
    with run a 1 show ?thesis by (auto simp: execute_with_circuit_breaker_def)
  next
    case False
    then obtain acc where acc: "a = Inr acc" by (cases a) auto
    show ?thesis
    proof (cases "\<exists>n. q = Inl (FloodWait n)")
      case True
      then obtain n where n: "q = Inl (FloodWait n)" by blast
      obtain s3 act where h: "handle_flood_wait ops aid n s2 = (s3, act)" by fastforce
      have 3: "still ops s s3" by (rule still_trans [OF 2 still_handle_flood [OF c h]])
      have 4: "still ops s3 (on_x (sleep_for ops (secs n)) s3)"
        using clock_forward_steps(1) [OF c] by (simp add: still_def)
      obtain s5 p where f5: "func (on_x (sleep_for ops (secs n)) s3) = (s5, p)" by fastforce
      have "still ops s s5" by (rule still_trans [OF still_trans [OF 3 4] func [OF f5]])
      with 3 show ?thesis
        using run a acc f n h f5
        by (cases act) (auto simp: execute_with_circuit_breaker_def)
    next
      case False
      with run a acc f 2 bad show ?thesis
        by (cases q rule: sum.exhaust)
           (auto simp: execute_with_circuit_breaker_def split: send_error.splits if_splits)
    qed
  qed
qed

lemma still_send_with_protections:
  assumes c: "clock_forward ops"
    and run: "send_with_protections ops t peer pid aid previous s = Some (s', r)"
  shows "still ops s s'"
proof -
  obtain x1 q where w: "wait_for_slot ops aid pid max_slot_wait (sx s) = Some (x1, q)"
    using run by (auto simp: send_with_protections_def split: option.splits)
  have 1: "still ops s (s\<lparr>sx := x1\<rparr>)"
    using wait_loop_forward [OF c w [unfolded wait_for_slot_def]] by (simp add: still_def)
  have send: "\<And>y y' q. with_x (do_send_message ops t peer previous) y = (y', q) \<Longrightarrow> still ops y y'"
    by (rule still_with_x [OF fwd_do_send_message [OF c]])
  show ?thesis
  proof (cases q)
    case (Inl e)
    with run w 1 show ?thesis by (simp add: send_with_protections_def)
  next
    case (Inr v)
    have "still ops (s\<lparr>sx := x1\<rparr>) s'"
      using run w Inr send still_breaker [OF c send]
      by (auto simp: send_with_protections_def Let_def split: if_splits)
    with 1 show ?thesis by (rule still_trans)
  qed
qed

lemma send_with_protections_returns:
  assumes "clock_forward ops" "sleep_elapses ops"
  shows "\<exists>r. send_with_protections ops t peer pid aid previous s = Some r"
proof -
  obtain x q where "wait_for_slot ops aid pid max_slot_wait (sx s) = Some (x, q)"
    using wait_loop_returns [OF assms, of 0 "sx s" "now_of ops (sx s)" aid pid max_slot_wait]
    by (auto simp: wait_for_slot_def)
  then show ?thesis by (cases q) (simp_all add: send_with_protections_def Let_def)
qed

section \<open>Validation\<close>

lemma rel_disable: "rel_option dimmed (get_task tid d) (get_task tid (disable_tasks_for_accounts aids d))"
  unfolding disable_tasks_for_accounts_def
  by (rule rel_upd_where) (auto simp: dimmed_def)

lemma rel_tasks_cong:
  "rel_option R x (get_task tid d) \<Longrightarrow> tasks d' = tasks d \<Longrightarrow> rel_option R x (get_task tid d')"
  by (simp add: get_task_def)

lemma rel_normalize:
  "rel_option dimmed (get_task tid d) (get_task tid (fst (normalize_single_authorization_model uid now d)))"
  using normalize_tasks [of uid now d] rel_tasks_cong [OF rel_disable] by blast

lemma rel_summary:
  "rel_option dimmed (get_task tid d) (get_task tid (fst (get_account_authorization_summary aid now d)))"
  using rel_normalize
  by (auto simp: get_account_authorization_summary_def Let_def rel_option_self
      split: option.splits)

lemma rel_dimmed_trans:
  "rel_option dimmed x y \<Longrightarrow> rel_option dimmed y z \<Longrightarrow> rel_option dimmed x z"
  by (cases x; cases y; cases z) (auto intro: dimmed_trans)

lemma rel_disable_if:
  "rel_option dimmed (get_task tid d)
     (get_task tid (fst (disable_tasks_for_account_if_unlicensed aid now d)))"
proof -
  obtain d1 m where g: "get_account_authorization_summary aid now d = (d1, m)" by fastforce
  have 1: "rel_option dimmed (get_task tid d) (get_task tid d1)"
    using rel_summary [of tid d aid now] g by simp
  show ?thesis
    using 1 rel_dimmed_trans [OF 1 rel_disable]
    by (simp add: disable_tasks_for_account_if_unlicensed_def g)
qed

lemma authorize_dims:
  assumes c: "clock_forward ops" and run: "authorize ops t s = (s', r)"
  shows "evolves dimmed ops s s'"
proof (cases "str_true (t_account t)")
  case False
  with run show ?thesis by (auto simp: authorize_def intro: evolves_refl)
next
  case True
  define aid now where "aid = the (t_account t)" and "now = now_of ops (sx s)"
  obtain d1 m where g: "get_account_authorization_summary aid now (sdb s) = (d1, m)" by fastforce
  obtain d2 n where h: "disable_tasks_for_account_if_unlicensed aid now d1 = (d2, n)" by fastforce
  have 1: "rel_option dimmed (get_task tid (sdb s)) (get_task tid d1)" for tid
    using rel_summary [of tid "sdb s" aid now] g by simp
  have 2: "rel_option dimmed (get_task tid (sdb s)) (get_task tid d2)" for tid
    using rel_dimmed_trans [OF 1 rel_disable_if [of tid d1 aid now]] h by simp
  have "sdb s' = d1 \<and> sx s' = sx s \<or> sdb s' = d2 \<and> sx s' = notify ops ''authorization_required'' aid (sx s)"
    using run True g h by (auto simp: authorize_def Let_def aid_def [symmetric] now_def [symmetric]
        split: if_splits)
  with 1 2 clock_forward_steps(2) [OF c] show ?thesis by (auto simp: evolves_def)
qed

lemma authorize_ok_dims:
  assumes "authorize ops t s = (s', Inr u)"
  shows "evolves dimmed ops s s'"
proof (cases "str_true (t_account t)")
  case False
  with assms show ?thesis by (auto simp: authorize_def intro: evolves_refl)
next
  case True
  with assms have "sx s' = sx s \<and> sdb s' = fst (get_account_authorization_summary
      (the (t_account t)) (now_of ops (sx s)) (sdb s))"
    by (auto simp: authorize_def Let_def split: prod.splits if_splits)
  then show ?thesis using rel_summary by (simp add: evolves_def)
qed

lemma still_mark_reauth:
  assumes c: "clock_forward ops"
  shows "still ops s (mark_account_reauth_required ops aid reason s)"
  using clock_forward_steps(2) [OF c]
  by (auto simp: mark_account_reauth_required_def Let_def still_def split: option.splits)

lemma still_try_recover:
  assumes c: "clock_forward ops" and run: "try_recover_outage ops a s = (s', a')"
  shows "still ops s s'"
  using run still_health_check [OF c, of "a_id a" s]
  by (fastforce simp: try_recover_outage_def Let_def split: prod.splits if_splits)

text \<open>Setting the next run of a task.\<close>

lemma get_task_set_next:
  "get_task tid (sdb (set_next tid n s)) = map_option (\<lambda>t. t\<lparr>t_next := Some n\<rparr>) (get_task tid (sdb s))"
  by (simp add: set_next_def get_task_upd_same)

lemma sx_set_next [simp]: "sx (set_next tid n s) = sx s"
  by (simp add: set_next_def)

lemma set_next_plan: "evolves same_plan ops s (set_next tid n s)"
  by (rule evolves_db [where d = "upd_task tid (\<lambda>t. t\<lparr>t_next := Some n\<rparr>) (sdb s)"])
     (auto intro!: rel_upd_task simp: same_plan_def set_next_def)

lemma set_next_rests: "now < n \<Longrightarrow> task_rests now tid (sdb (set_next tid n s))"
  by (auto simp: task_rests_def get_task_set_next rests_def split: option.splits)

lemma defer_by_interval_later: "now < defer_by_interval t now"
  by (simp add: defer_by_interval_def)

lemma observation_end_later: "now < observation_end a now"
  by (auto simp: observation_end_def less_max_iff_disj split: option.splits)

lemma check_account_cases:
  assumes c: "clock_forward ops" and run: "check_account ops t now advance src s = (s', r)"
  shows "evolves same_plan ops s s'"
    and "r = Go acc \<Longrightarrow> still ops s s'"
    and "r = Exit q \<Longrightarrow> advance \<Longrightarrow> task_rests now (t_id t) (sdb s')"
proof -
  have body: "\<exists>s1. still ops s s1 \<and>
      (s' = s1 \<and> (\<exists>acc. r = Go acc) \<or> (\<exists>q. r = Exit q) \<and>
        (if advance then \<exists>n > now. s' = set_next (t_id t) n s1 else s' = s1))"
  proof (cases "str_true (t_account t)")
    case False
    with run show ?thesis by (auto simp: check_account_def)
  next
    case True
    show ?thesis
    proof (cases "get_account (the (t_account t)) (sdb s)")
      case None
      with run True show ?thesis by (auto simp: check_account_def)
    next
      case (Some a0)
      show ?thesis
      proof (cases "is_reauth_required_account (Some a0)")
        case re: True
        have "still ops s (mark_account_reauth_required ops (the (t_account t))
            (str_or (a_reauth_reason a0) ''session_unauthorized'') s)"
          by (rule still_mark_reauth [OF c])
        then show ?thesis
          using run True Some re defer_by_interval_later [of now t]
          by (intro exI [of _ "mark_account_reauth_required ops (the (t_account t))
            (str_or (a_reauth_reason a0) ''session_unauthorized'') s"])
            (auto simp: check_account_def Let_def)
      next
        case re: False
        obtain s1 a where r1: "(if recoverable_outage a0 then try_recover_outage ops a0 s else (s, a0)) = (s1, a)"
          by fastforce
        have "still ops s s1" using r1 still_try_recover [OF c] by (auto split: if_splits)
        then show ?thesis
          using run True Some re r1 defer_by_interval_later [of now t] observation_end_later [of now a]
          by (intro exI [of _ s1]) (auto simp: check_account_def split: if_splits)
      qed
    qed
  qed
  then obtain s1 where s1: "still ops s s1" and s': "s' = s1 \<and> (\<exists>acc. r = Go acc)
      \<or> (\<exists>q. r = Exit q) \<and> (if advance then \<exists>n > now. s' = set_next (t_id t) n s1 else s' = s1)"
    by blast
  have e: "evolves same_plan ops s s1" by (rule still_evolves [OF s1]) simp
  show "evolves same_plan ops s s'"
    using s' e plan_trans [OF e set_next_plan] by (auto split: if_splits)
  show "r = Go acc \<Longrightarrow> still ops s s'" using s' s1 by auto
  show "r = Exit q \<Longrightarrow> advance \<Longrightarrow> task_rests now (t_id t) (sdb s')"
    using s' set_next_rests by auto
qed

lemma rel_handle_task_failure:
  "rel_option same_plan (get_task tid d)
     (get_task tid (handle_task_failure tid' err m src advance disable clock d))"
proof -
  have "get_task tid d = get_task tid (add_log \<lparr>l_task = tid', l_result = ''failed'',
      l_source = src, l_error = Some err, l_message = None\<rparr> d)"
    by simp
  then show ?thesis
    unfolding handle_task_failure_def
    by (metis (no_types, lifting) failed_task_simps rel_upd_task same_plan_def)
qed

lemma failure_plan:
  "evolves same_plan ops s (on_db (handle_task_failure tid err m src advance disable clock) s)"
  by (rule evolves_db) (rule rel_handle_task_failure, simp_all)

lemma on_db_failure_rests:
  "now \<le> clock \<Longrightarrow> task_rests now tid (sdb (on_db (handle_task_failure tid err m src True dis clock) s))"
  by (simp add: handle_task_failure_rests)

lemma timestamp_mono: "a \<le> b \<Longrightarrow> timestamp a \<le> timestamp b"
  by (auto simp: timestamp_def trunc_secs_def intro: zdiv_mono1 order_trans [of _ 0])

lemma handle_no_targets_facts:
  assumes run: "handle_no_targets ops cfg t now advance src s = (s', r)"
  shows "evolves same_plan ops s s'"
    and "advance \<Longrightarrow> 0 < t_repeat t \<Longrightarrow> now \<le> timestamp (now_of ops (sx s)) \<Longrightarrow>
         task_rests now (t_id t) (sdb s')"
  using run failure_plan set_next_plan set_next_rests [of now "now + t_repeat t * 60" "t_id t" s]
  by (auto simp: handle_no_targets_def Let_def on_db_failure_rests handle_task_failure_rests
      split: if_splits)

lemma handle_client_failure_facts:
  assumes run: "handle_client_failure ops cfg t advance n src s = (s', r)"
  shows "evolves same_plan ops s s'"
    and "advance \<Longrightarrow> now \<le> timestamp (now_of ops (sx s)) \<Longrightarrow> task_rests now (t_id t) (sdb s')"
  using run failure_plan
  by (auto simp: handle_client_failure_def handle_task_failure_rests)

lemma plan_targets_facts:
  assumes c: "clock_forward ops" and run: "plan_targets ops cfg t acc now advance src s = (s', v)"
  shows "evolves same_plan ops s s'"
    and "v = Early r \<Longrightarrow> advance \<Longrightarrow> 0 < t_repeat t \<Longrightarrow> now \<le> timestamp (now_of ops (sx s)) \<Longrightarrow>
         task_rests now (t_id t) (sdb s')"
    and "v = Valid t' vd \<Longrightarrow> t' = t \<and> still ops s s'
         \<and> (\<exists>n. vd_targets vd = take n (collect_task_targets t)) \<and> vd_targets vd \<noteq> []"
    and "v \<noteq> Raise e"
proof -
  define specs where "specs = (if (case acc of None \<Rightarrow> False
      | Some a \<Rightarrow> is_proxy_observation_active a (now_of ops (sx s)))
    then take 1 (collect_task_targets t) else collect_task_targets t)"
  have pre: "\<exists>n. specs = take n (collect_task_targets t)"
    unfolding specs_def by (metis order_refl take_all)
  obtain s1 ok where w: "with_x (client_of ops (the (t_account t))) s = (s1, ok)" by fastforce
  have 1: "still ops s s1" by (rule still_with_x [OF clock_forward_fwd(4) [OF c] w])
  have e1: "evolves same_plan ops s s1" by (rule still_evolves [OF 1]) simp
  have t1: "timestamp (now_of ops (sx s)) \<le> timestamp (now_of ops (sx s1))"
    using 1 by (simp add: still_def timestamp_mono)
  note run' = run [unfolded plan_targets_def Let_def, folded specs_def]
  show "evolves same_plan ops s s'"
    using run' w e1 handle_no_targets_facts(1) plan_trans [OF e1 handle_client_failure_facts(1)]
    by (auto split: if_splits prod.splits intro: evolves_refl)
  show "v = Early r \<Longrightarrow> advance \<Longrightarrow> 0 < t_repeat t \<Longrightarrow> now \<le> timestamp (now_of ops (sx s)) \<Longrightarrow>
      task_rests now (t_id t) (sdb s')"
    using run' w t1 handle_no_targets_facts(2) [of ops cfg t now advance src s s']
      handle_client_failure_facts(2) [of ops cfg t advance _ src s1 s' _ now]
    by (auto split: if_splits prod.splits)
  show "v = Valid t' vd \<Longrightarrow> t' = t \<and> still ops s s'
      \<and> (\<exists>n. vd_targets vd = take n (collect_task_targets t)) \<and> vd_targets vd \<noteq> []"
    using run' w 1 pre by (auto split: if_splits prod.splits)
  show "v \<noteq> Raise e"
    using run' w by (auto split: if_splits prod.splits)
qed

definition planned :: "string \<Rightarrow> 'x sys \<Rightarrow> bool" where
  "planned tid s \<longleftrightarrow> (\<forall>t. get_task tid (sdb s) = Some t \<longrightarrow> 0 < t_repeat t)"

lemma evolves_back:
  assumes "evolves R ops s s'" "get_task tid (sdb s') = Some t'"
  shows "\<exists>t. get_task tid (sdb s) = Some t \<and> R t t'"
proof -
  have "rel_option R (get_task tid (sdb s)) (Some t')"
    using assms unfolding evolves_def by metis
  then show ?thesis by (cases "get_task tid (sdb s)") auto
qed

lemma planned_step: "planned tid s \<Longrightarrow> evolves same_plan ops s s' \<Longrightarrow> planned tid s'"
  by (auto simp: planned_def same_plan_def dest: evolves_back)

lemma dimmed_rests: "rests now t \<Longrightarrow> dimmed t t' \<Longrightarrow> rests now t'"
  by (auto simp: dimmed_def rests_def)

lemma validate_facts:
  assumes c: "clock_forward ops"
    and run: "validate_and_resolve ops cfg tid now advance src s = (s', v)"
  shows "evolves same_plan ops s s'"
    and "v = Early r \<Longrightarrow> advance \<Longrightarrow> planned tid s \<Longrightarrow> now \<le> timestamp (now_of ops (sx s)) \<Longrightarrow>
         task_rests now tid (sdb s')"
    and "v = Valid t vd \<Longrightarrow> t_id t = tid \<and> get_task tid (sdb s') \<noteq> None
         \<and> (\<exists>n. vd_targets vd = take n (collect_task_targets t)) \<and> vd_targets vd \<noteq> []"
proof -
  have all: "evolves same_plan ops s s' \<and>
    (\<forall>r. v = Early r \<longrightarrow> advance \<longrightarrow> planned tid s \<longrightarrow> now \<le> timestamp (now_of ops (sx s)) \<longrightarrow>
         task_rests now tid (sdb s')) \<and>
    (\<forall>t vd. v = Valid t vd \<longrightarrow> t_id t = tid \<and> get_task tid (sdb s') \<noteq> None
       \<and> (\<exists>n. vd_targets vd = take n (collect_task_targets t)) \<and> vd_targets vd \<noteq> [])"
  proof (cases "get_task tid (sdb s)")
    case None
    with run show ?thesis by (auto simp: validate_and_resolve_def intro: evolves_refl)
  next
    case (Some t)
    have tid: "t_id t = tid" using Some by (rule get_task_id)
    show ?thesis
    proof (cases "t_enabled t")
      case False
      with run Some show ?thesis by (auto simp: validate_and_resolve_def intro: evolves_refl)
    next
      case en: True
      obtain s1 au where au: "authorize ops t s = (s1, au)" by fastforce
      have d1: "evolves dimmed ops s s1" by (rule authorize_dims [OF c au])
      show ?thesis
      proof (cases au)
        case (Inl e)
        with run Some en au dims_plan [OF d1] show ?thesis
          by (auto simp: validate_and_resolve_def)
      next
        case (Inr u)
        obtain s2 ck where ck: "check_account ops t now advance src s1 = (s2, ck)" by fastforce
        note ca = check_account_cases [OF c ck]
        have e2: "evolves same_plan ops s s2" by (rule plan_trans [OF dims_plan [OF d1] ca(1)])
        show ?thesis
        proof (cases ck)
          case (Exit q)
          then show ?thesis
            using run Some en au Inr ck e2 ca(3) tid by (auto simp: validate_and_resolve_def)
        next
          case (Go acc)
          have d2: "evolves dimmed ops s s2"
            by (rule dims_trans [OF d1 still_evolves [OF ca(2) [OF Go]]]) simp
          define t1 where "t1 = (if advance \<and> t_next t = None
              then t\<lparr>t_next := Some (initial_next t now)\<rparr> else t)"
          define s3 where "s3 = (if advance \<and> t_next t = None
              then set_next tid (initial_next t now) s2 else s2)"
          have t1: "t_id t1 = tid" "t_repeat t1 = t_repeat t" by (simp_all add: t1_def tid)
          have e3: "evolves same_plan ops s s3"
            using e2 plan_trans [OF e2 set_next_plan] by (simp add: s3_def)
          have x3: "now_of ops (sx s) \<le> now_of ops (sx s3)" using e3 by (simp add: evolves_def)
          have rest: "task_rests now tid (sdb s3)"
            if "advance" "int_true (t_next t1)" "now < the (t_next t1)"
          proof (cases "t_next t")
            case None
            with that show ?thesis by (simp add: s3_def t1_def set_next_rests)
          next
            case (Some n)
            with that have "rests now t" by (simp add: t1_def rests_def)
            moreover obtain t' where "get_task tid (sdb s2) = Some t'" "dimmed t t'"
              using evolves_Some [OF d2 \<open>get_task tid (sdb s) = Some t\<close>] by blast
            ultimately show ?thesis using Some by (simp add: s3_def task_rests_def dimmed_rests)
          qed
          have run': "(if advance \<and> int_true (t_next t1) \<and> now < the (t_next t1)
              then (s3, Early (skip_summary t1 src 0 0 ''<not due yet>''))
              else plan_targets ops cfg t1 acc now advance src s3) = (s', v)"
            using run Some en au Inr ck Go
            by (auto simp: validate_and_resolve_def t1_def s3_def Let_def split: if_splits)
          show ?thesis
          proof (cases "advance \<and> int_true (t_next t1) \<and> now < the (t_next t1)")
            case True
            with run' e3 rest show ?thesis by auto
          next
            case False
            with run' have pt: "plan_targets ops cfg t1 acc now advance src s3 = (s', v)" by simp
            note pf = plan_targets_facts [OF c pt]
            have e4: "evolves same_plan ops s s'" by (rule plan_trans [OF e3 pf(1)])
            have "get_task tid (sdb s') \<noteq> None"
              using evolves_existence [OF e4] Some by simp
            moreover have "0 < t_repeat t1" if "planned tid s"
              using that Some t1(2) by (simp add: planned_def)
            ultimately show ?thesis
              using e4 pf(2,3) t1 timestamp_mono [OF x3] by (auto intro: order_trans)
          qed
        qed
      qed
    qed
  qed
  show "evolves same_plan ops s s'" using all by blast
  show "v = Early r \<Longrightarrow> advance \<Longrightarrow> planned tid s \<Longrightarrow> now \<le> timestamp (now_of ops (sx s)) \<Longrightarrow>
      task_rests now tid (sdb s')" using all by blast
  show "v = Valid t vd \<Longrightarrow> t_id t = tid \<and> get_task tid (sdb s') \<noteq> None
      \<and> (\<exists>n. vd_targets vd = take n (collect_task_targets t)) \<and> vd_targets vd \<noteq> []"
    using all by blast
qed

section \<open>Constraints, budget, sends\<close>

lemma plan_refl [simp]: "evolves same_plan ops s s"
  by (rule evolves_refl) simp

lemma disable_task_plan: "evolves same_plan ops s (on_db (upd_task tid (\<lambda>t. t\<lparr>t_enabled := False\<rparr>)) s)"
  by (rule evolves_db) (auto intro!: rel_upd_task simp: same_plan_def)

lemma disable_task_rests: "task_rests now tid (upd_task tid (\<lambda>t. t\<lparr>t_enabled := False\<rparr>) d)"
  by (auto simp: task_rests_def get_task_upd_same rests_def split: option.splits)

lemma schedule_facts:
  assumes run: "check_schedule_constraints t now hour advance respect src n s = (s', r)"
  shows "evolves same_plan ops s s'"
    and "r = None \<Longrightarrow> s' = s"
    and "r = Some q \<Longrightarrow> advance \<Longrightarrow> 0 < t_repeat t \<Longrightarrow> task_rests now (t_id t) (sdb s')"
  using run set_next_plan disable_task_plan
  by (auto simp: check_schedule_constraints_def check_time_limit_def calculate_next_run_def
      disable_task_rests less_max_iff_disj
      split: if_splits option.splits intro: evolves_refl intro!: set_next_rests)

lemma lock_facts:
  assumes run: "lock_and_recheck_observation_budget ops t specs now advance src s = (s', r)"
  shows "evolves same_plan ops s s'"
    and "r = Inr specs' \<Longrightarrow> still ops s s' \<and> (\<exists>n. specs' = take n specs) \<and> (specs \<noteq> [] \<longrightarrow> specs' \<noteq> [])"
    and "r = Inl q \<Longrightarrow> advance \<Longrightarrow> task_rests now (t_id t) (sdb s')"
proof -
  define aid where "aid = strip (str_or (t_account t) [])"
  have cases: "(\<exists>n. r = Inr (take n specs) \<and> (specs \<noteq> [] \<longrightarrow> take n specs \<noteq> []) \<and> still ops s s') \<or>
     (\<exists>q. r = Inl q) \<and> (\<exists>m > now. s' = (if advance then set_next (t_id t) m s else s))"
  proof (cases "aid = [] \<or> get_account aid (sdb s) = None")
    case True
    with run have "r = Inr (take (length specs) specs)" "s' = s"
      by (auto simp: lock_and_recheck_observation_budget_def aid_def [symmetric] Let_def
          split: option.splits if_splits)
    then show ?thesis by (metis still_refl take_all_iff order_refl)
  next
    case False
    then obtain a where a: "get_account aid (sdb s) = Some a" "aid \<noteq> []" by auto
    obtain d1 won where cl: "claim_proxy_observation_send_budget aid (now_of ops (sx s)) (sdb s) = (d1, won)"
      by fastforce
    then have t1: "tasks d1 = tasks (sdb s)" by (metis fst_conv tasks_frame(3))
    show ?thesis
    proof (cases "is_proxy_observation_active a (now_of ops (sx s))")
      case False
      with run a have "r = Inr (take (length specs) specs)" "s' = s"
        by (auto simp: lock_and_recheck_observation_budget_def aid_def [symmetric] Let_def)
      then show ?thesis by (metis still_refl take_all_iff order_refl)
    next
      case act: True
      have st: "still ops s (s\<lparr>sdb := d1\<rparr>)" using t1 by (simp add: still_def)
      show ?thesis
        using run a act cl st observation_end_later [of now a]
        by (cases specs)
           (auto simp: lock_and_recheck_observation_budget_def aid_def [symmetric] Let_def
             split: if_splits intro: exI [of _ 1])
    qed
  qed
  then show "evolves same_plan ops s s'"
    using set_next_plan by (auto intro: still_evolves evolves_refl)
  from cases show "r = Inr specs' \<Longrightarrow> still ops s s' \<and> (\<exists>n. specs' = take n specs) \<and> (specs \<noteq> [] \<longrightarrow> specs' \<noteq> [])"
    by auto
  from cases show "r = Inl q \<Longrightarrow> advance \<Longrightarrow> task_rests now (t_id t) (sdb s')"
    using set_next_rests by auto
qed

lemma tasks_issue_frame [simp]:
  "tasks (fst (record_task_target_send_issue now t pid ty title c d)) = tasks d"
  "tasks (resolve_task_target_send_issue now t pid ty d) = tasks d"
  by (auto simp: record_task_target_send_issue_def resolve_task_target_send_issue_def Let_def
      split: option.splits)

lemma metadata_simps [simp]:
  "t_id (update_task_target_failure_metadata i pid ty title et em rs t) = t_id t"
  "t_repeat (update_task_target_failure_metadata i pid ty title et em rs t) = t_repeat t"
  "t_id (update_task_target_success_metadata pid ty t) = t_id t"
  "t_repeat (update_task_target_success_metadata pid ty t) = t_repeat t"
  by (simp_all add: update_task_target_failure_metadata_def update_task_target_success_metadata_def)

lemma rel_upd_task_from:
  assumes "tasks d1 = tasks d" "\<And>t. t_id (f t) = t_id t" "\<And>t. t_repeat (f t) = t_repeat t"
  shows "rel_option same_plan (get_task tid d) (get_task tid (upd_task tid' f d1))"
proof -
  have "rel_option same_plan (get_task tid d1) (get_task tid (upd_task tid' f d1))"
    by (rule rel_upd_task) (simp_all add: same_plan_def assms)
  then show ?thesis using assms(1) by (simp add: get_task_def)
qed

lemma evolves_booked:
  assumes "tasks d1 = tasks (sdb s)" "\<And>t. t_id (f t) = t_id t" "\<And>t. t_repeat (f t) = t_repeat t"
  shows "evolves same_plan ops s (s\<lparr>sdb := upd_task tid f d1\<rparr>)"
  using rel_upd_task_from [OF assms] by (simp add: evolves_def)

lemma book_failure_plan:
  assumes run: "book_failure ops tid sp err c pg s = (s', pg')"
  shows "evolves same_plan ops s s'"
proof (cases "get_task tid (sdb s)")
  case None
  with run show ?thesis by (auto simp: book_failure_def intro: evolves_refl)
next
  case (Some t)
  obtain d1 i where r: "record_task_target_send_issue (now_of ops (sx s)) t (sp_peer sp) (wire_type t sp)
      (map_option strip (if str_true (sp_title sp) then sp_title sp else None)) c (sdb s) = (d1, i)"
    by fastforce
  then have "tasks d1 = tasks (sdb s)" by (metis fst_conv tasks_issue_frame(1))
  then show ?thesis
    using run Some r
    by (auto simp: book_failure_def Let_def intro!: evolves_booked)
qed

lemma book_success_plan:
  assumes run: "book_success ops tid sp m pg s = (s', pg')"
  shows "evolves same_plan ops s s'"
  using run
  by (auto simp: book_success_def Let_def split: option.splits
      intro!: evolves_booked intro: evolves_refl)

end
