(* ===== verification/Delivery.thy ===== *)
theory Delivery
  imports RunnerFacts "HOL-Library.Multiset"
begin

text \<open>
  The send loop and the end of a run: the books the loop keeps for its targets, the balance
  of the summary, and the state of the task after success, failure and flood.
\<close>

section \<open>One target\<close>

lemma send_one_cases:
  assumes c: "clock_forward ops" and run: "send_one ops tid aid sp pg s = Some (s', r)"
    and ex: "get_task tid (sdb s) = Some t"
  shows "evolves same_plan ops s s' \<and>
    (case r of
       Inl e \<Rightarrow> (\<forall>x. e \<noteq> OtherError x)
     | Inr pg' \<Rightarrow>
         (\<exists>s2 err cl. book_failure ops tid sp err cl pg s2 = (s', pg') \<and> get_task tid (sdb s2) \<noteq> None)
         \<or> (\<exists>s2 m. m \<noteq> 0 \<and> book_success ops tid sp m pg s2 = (s', pg') \<and> get_task tid (sdb s2) \<noteq> None))"
proof -
  define prev where "prev = get_target_last_message_id t (sp_peer sp) (opt_str (sp_type sp))"
  obtain s1 peer where w: "with_x (resolve_send_target ops t sp) s = (s1, peer)" by fastforce
  have 1: "still ops s s1" by (rule still_with_x [OF fwd_resolve_send_target [OF c] w])
  obtain s2 q where q: "send_with_protections ops t peer (sp_peer sp) aid prev s1 = Some (s2, q)"
    using run ex w by (auto simp: send_one_def prev_def [symmetric] split: option.splits)
  have 2: "still ops s s2" by (rule still_trans [OF 1 still_send_with_protections [OF c q]])
  have e2: "evolves same_plan ops s s2" by (rule still_evolves [OF 2]) simp
  have n2: "get_task tid (sdb s2) \<noteq> None" using evolves_existence [OF e2] ex by simp
  note run' = run [unfolded send_one_def, simplified ex option.case w prod.case Let_def,
      folded prev_def, simplified q option.case prod.case]
  show ?thesis
  proof (cases q)
    case (Inl e)
    show ?thesis
    proof (cases e)
      case (OtherError x)
      obtain s3 pg' where b: "book_failure ops tid sp (peer_prefix sp @ e_name x @ '': '' @ e_text x)
          (classify_task_send_error x) pg s2 = (s3, pg')" by fastforce
      have "s' = s3" "r = Inr pg'"
        using run ex w q b Inl OtherError by (auto simp: send_one_def prev_def [symmetric])
      with b n2 plan_trans [OF e2 book_failure_plan [OF b]] show ?thesis by auto
    qed (use run ex w q e2 Inl in \<open>auto simp: send_one_def prev_def [symmetric]\<close>)
  next
    case (Inr m)
    show ?thesis
    proof (cases "int_true m")
      case True
      obtain s3 pg' where b: "book_success ops tid sp (the m) pg s2 = (s3, pg')" by fastforce
      have "s' = s3" "r = Inr pg'"
        using run ex w q b Inr True by (auto simp: send_one_def prev_def [symmetric])
      moreover have "the m \<noteq> 0" using True by (cases m) auto
      ultimately show ?thesis
        using b n2 plan_trans [OF e2 book_success_plan [OF b]]
        by (simp only: sum.case) blast
    next
      case False
      obtain s3 pg' where b: "book_failure ops tid sp (peer_prefix sp @ empty_result_text)
          (classify_task_send_error empty_result_exn) pg s2 = (s3, pg')" by fastforce
      have "s' = s3" "r = Inr pg'"
        using run ex w q b Inr False by (auto simp: send_one_def prev_def [symmetric])
      with b n2 plan_trans [OF e2 book_failure_plan [OF b]] show ?thesis by auto
    qed
  qed
qed

section \<open>The books of the loop\<close>

definition booked :: "target list \<Rightarrow> progress \<Rightarrow> bool" where
  "booked sent pg \<longleftrightarrow>
     length (pg_ids pg) = length (pg_ok pg) \<and>
     fst ` set (pg_ids pg) \<subseteq> target_key ` set sent \<and>
     mset (pg_ok pg) + mset (pg_failed pg) = mset (map target_label sent) \<and>
     length (pg_errors pg) = length (pg_failed pg) \<and> length (pg_partial pg) = length (pg_failed pg) \<and>
     (pg_last pg = None \<longleftrightarrow> pg_ok pg = []) \<and> pg_last pg \<noteq> Some 0"

lemma booked_start: "booked [] no_progress"
  by (simp add: booked_def no_progress_def)

lemma length_update_new: "k \<notin> fst ` set al \<Longrightarrow> length (AList.update k v al) = Suc (length al)"
  by (induction al) auto

lemma keys_update: "fst ` set (AList.update k v al) = insert k (fst ` set al)"
  by (induction al) auto

lemma wire_type_id: "sp_type sp \<in> set peer_types \<Longrightarrow> wire_type t sp = sp_type sp"
  by (auto simp: peer_types_def wire_type_def opt_str_def str_or_def strip_def lower_def
      lower_char_def is_space_def code_def Let_def)

lemma booked_failure:
  assumes b: "book_failure ops tid sp err c pg s = (s', pg')" and "get_task tid (sdb s) \<noteq> None"
    and "booked sent pg"
  shows "booked (sent @ [sp]) pg'"
  using assms by (clarsimp simp: book_failure_def booked_def Let_def subset_insertI2 split: prod.splits)

lemma booked_success:
  assumes b: "book_success ops tid sp m pg s = (s', pg')" and "get_task tid (sdb s) \<noteq> None"
    and "booked sent pg" "m \<noteq> 0" "sp_type sp \<in> set peer_types" "target_key sp \<notin> target_key ` set sent"
  shows "booked (sent @ [sp]) pg'"
proof -
  have key: "(wire_type t sp, sp_peer sp) = target_key sp" for t
    using wire_type_id [OF assms(5)] by (simp add: target_key_def)
  have new: "target_key sp \<notin> fst ` set (pg_ids pg)" using assms(3,6) by (auto simp: booked_def)
  show ?thesis
    using assms new
    by (clarsimp simp: book_success_def booked_def Let_def key length_update_new keys_update
        subset_insertI2)
qed

lemma send_loop_facts:
  assumes c: "clock_forward ops"
  shows "send_loop ops tid aid sps pg s = Some (s', r) \<Longrightarrow> get_task tid (sdb s) \<noteq> None \<Longrightarrow>
    evolves same_plan ops s s' \<and>
    (case r of Inl e \<Rightarrow> \<forall>x. e \<noteq> OtherError x
     | Inr pg' \<Rightarrow> booked sent pg \<longrightarrow> distinct (map target_key (sent @ sps)) \<longrightarrow>
         (\<forall>sp \<in> set sps. sp_type sp \<in> set peer_types) \<longrightarrow> booked (sent @ sps) pg')"
proof (induction sps arbitrary: sent pg s)
  case Nil
  then show ?case by auto
next
  case (Cons sp sps)
  obtain t where t: "get_task tid (sdb s) = Some t" using Cons.prems(2) by auto
  obtain s1 q where q: "send_one ops tid aid sp pg s = Some (s1, q)"
    using Cons.prems(1) by (auto split: option.splits)
  note one = send_one_cases [OF c q t]
  show ?case
  proof (cases q)
    case (Inl e)
    with q Cons.prems(1) one show ?thesis by auto
  next
    case (Inr pg1)
    with q Cons.prems(1) have rest: "send_loop ops tid aid sps pg1 s1 = Some (s', r)" by simp
    from one Inr have e1: "evolves same_plan ops s s1" by simp
    then have "get_task tid (sdb s1) \<noteq> None" using evolves_existence [OF e1] t by simp
    note ih = Cons.IH [OF rest this, of "sent @ [sp]"]
    have "booked (sent @ [sp]) pg1"
      if "booked sent pg" "distinct (map target_key (sent @ sp # sps))" "sp_type sp \<in> set peer_types"
      using one Inr that booked_failure booked_success by auto blast+
    with ih plan_trans [OF e1] show ?thesis by (auto split: sum.splits)
  qed
qed

lemma send_loop_returns:
  assumes "clock_forward ops" "sleep_elapses ops"
  shows "\<exists>r. send_loop ops tid aid sps pg s = Some r"
proof (induction sps arbitrary: pg s)
  case (Cons sp sps)
  have "\<exists>r. send_one ops tid aid sp pg s = Some r"
    using send_with_protections_returns [OF assms]
    by (auto simp: send_one_def split: option.splits prod.splits sum.splits send_error.splits)
       (metis option.distinct(1))+
  then obtain s1 q where "send_one ops tid aid sp pg s = Some (s1, q)" by auto
  then show ?case using Cons.IH by (cases q) auto
qed simp

section \<open>Targets\<close>

lemma item_target_type: "item_target it = Some sp \<Longrightarrow> sp_type sp \<in> set peer_types"
  by (auto simp: item_target_def split: json.splits option.splits if_splits prod.splits)

lemma legacy_target_type: "sp \<in> set (legacy_target t) \<Longrightarrow> sp_type sp \<in> set peer_types"
  by (auto simp: legacy_target_def Let_def peer_types_def split: option.splits if_splits)

lemma collect_types: "sp \<in> set (collect_task_targets t) \<Longrightarrow> sp_type sp \<in> set peer_types"
  using dedupe_subset [of target_key]
  by (fastforce simp: collect_task_targets_def Let_def map_filter_def
      dest: item_target_type legacy_target_type split: if_splits)

lemma collect_distinct: "distinct (map target_key (collect_task_targets t))"
  by (simp add: collect_task_targets_def Let_def dedupe_distinct)

lemma take_collect:
  "distinct (map target_key (take n (collect_task_targets t)))"
  "sp \<in> set (take n (collect_task_targets t)) \<Longrightarrow> sp_type sp \<in> set peer_types"
  using collect_distinct [of t] collect_types
  by (auto simp: take_map [symmetric] distinct_take dest: in_set_takeD)

section \<open>The end of a run\<close>

definition balanced :: "run_summary \<Rightarrow> bool" where
  "balanced r \<longleftrightarrow> r_status r \<noteq> Skipped \<and>
     r_ok r + r_failed r = r_total r \<and> 0 \<le> r_ok r \<and> 0 \<le> r_failed r \<and>
     (r_status r = Success \<longrightarrow> r_failed r = 0 \<and> 0 < r_ok r) \<and>
     (r_status r = PartialSuccess \<longrightarrow> 0 < r_failed r \<and> 0 < r_ok r) \<and>
     (r_status r = Failed \<longrightarrow> r_ok r = 0) \<and>
     int (length (r_ok_targets r)) = r_ok r"

lemma balanced_fail: "balanced (fail_summary t src n err)"
  by (simp add: balanced_def build_summary_def)

lemma rel_handle_task_success:
  "rel_option same_plan (get_task tid d)
     (get_task tid (handle_task_success tid' msg ids err now src advance dt d))"
proof (cases "get_task tid' d")
  case None
  then show ?thesis by (simp add: handle_task_success_def rel_option_self)
next
  case (Some t)
  let ?d1 = "add_log \<lparr>l_task = tid', l_result = ''success'', l_source = src,
      l_error = err, l_message = Some msg\<rparr> d"
  have "rel_option same_plan (get_task tid d) (get_task tid (upd_task tid' (success_task msg ids now advance) ?d1))"
    by (rule rel_upd_task_from) (simp_all add: success_task_def Let_def)
  then show ?thesis using Some by (auto simp: handle_task_success_def Let_def)
qed

lemma finish_sends_facts:
  assumes run: "finish_sends ops cfg t specs now advance src pg s = (s', r)"
  shows "evolves same_plan ops s s'"
    and "advance \<Longrightarrow> planned (t_id t) s \<Longrightarrow> now \<le> timestamp (now_of ops (sx s)) \<Longrightarrow>
         task_rests now (t_id t) (sdb s')"
    and "booked specs pg \<Longrightarrow> balanced r \<and> r_total r = int (length specs)"
    and "booked specs pg \<Longrightarrow>
         mset (r_ok_targets r) + mset (r_failed_targets r) = mset (map target_label specs)"
proof -
  let ?ok = "on_db (handle_task_success (t_id t) (the (pg_last pg)) (pg_ids pg)
      (if pg_errors pg = [] then None
       else Some (count_text ''<some targets failed>: '' (pg_errors pg) (pg_partial pg)))
      now src advance (now_of ops (sx s))) s"
  have 1: "evolves same_plan ops s ?ok"
    by (rule evolves_db) (rule rel_handle_task_success, simp_all)
  show "evolves same_plan ops s s'"
    using run 1 failure_plan by (auto simp: finish_sends_def Let_def split: if_splits)
  show "advance \<Longrightarrow> planned (t_id t) s \<Longrightarrow> now \<le> timestamp (now_of ops (sx s)) \<Longrightarrow>
      task_rests now (t_id t) (sdb s')"
    using run handle_task_success_rests [of "t_id t" "sdb s" now]
    by (auto simp: finish_sends_def Let_def planned_def handle_task_failure_rests split: if_splits)
  show "booked specs pg \<Longrightarrow> balanced r \<and> r_total r = int (length specs)"
  proof -
    assume b: "booked specs pg"
    have len: "length (pg_ok pg) + length (pg_failed pg) = length specs"
      using b unfolding booked_def by (metis size_mset size_union length_map)
    show ?thesis
    proof (cases "int_true (pg_last pg)")
      case True
      with b have "pg_ok pg \<noteq> []" by (auto simp: booked_def)
      with run True b len show ?thesis
        by (cases "pg_ok pg") (auto simp: finish_sends_def Let_def build_summary_def balanced_def booked_def
            split: if_splits)
    next
      case False
      with b have "pg_ok pg = []" by (cases "pg_last pg") (auto simp: booked_def)
      with run False b len show ?thesis
        by (auto simp: finish_sends_def Let_def build_summary_def balanced_def booked_def)
    qed
  qed
  show "booked specs pg \<Longrightarrow>
      mset (r_ok_targets r) + mset (r_failed_targets r) = mset (map target_label specs)"
    using run by (auto simp: finish_sends_def Let_def build_summary_def booked_def split: if_splits)
qed

lemma suspend_plan: "rel_option same_plan (get_task tid d) (get_task tid (suspend_account_tasks aid until d))"
  unfolding suspend_account_tasks_def
  by (rule rel_upd_where) (auto simp: same_plan_def)

lemma suspend_evolves: "evolves same_plan ops s (on_db (suspend_account_tasks aid until) s)"
  by (rule evolves_db) (rule suspend_plan, simp_all)

lemma still_rests: "still ops s s' \<Longrightarrow> task_rests now tid (sdb s) \<Longrightarrow> task_rests now tid (sdb s')"
  by (simp add: still_def task_rests_def get_task_def)

lemma fail_flood_facts:
  assumes c: "clock_forward ops" and run: "fail_flood ops cfg t aid n now advance src e s = (s', r)"
  shows "evolves same_plan ops s s'"
    and "advance \<Longrightarrow> now \<le> timestamp (now_of ops (sx s)) \<Longrightarrow> task_rests now (t_id t) (sdb s')"
    and "\<exists>m. r = fail_summary t src n m"
proof -
  define msg where "msg = (case e of FloodWait k \<Rightarrow> ''FloodWait: '' @ show_int k @ ''s'' | _ \<Rightarrow> ''PeerFloodError'')"
  define s1 where "s1 = on_db (handle_task_failure (t_id t) msg (max_failure_count cfg) src advance advance
      (timestamp (now_of ops (sx s)))) s"
  have e1: "evolves same_plan ops s s1" unfolding s1_def by (rule failure_plan)
  have r1: "task_rests now (t_id t) (sdb s1)"
    if "advance" "now \<le> timestamp (now_of ops (sx s))"
    using that by (simp add: s1_def handle_task_failure_rests)
  note run' = run [unfolded fail_flood_def Let_def, folded msg_def, folded s1_def]
  have shape: "\<exists>s2. still ops s1 s2 \<and> (s' = s2 \<or> (\<exists>u. s' = on_db (suspend_account_tasks aid u) s2))"
  proof (cases "aid = default_account")
    case True
    with run' show ?thesis by (intro exI [of _ s1]) auto
  next
    case other: False
    show ?thesis
    proof (cases e)
      case (FloodWait k)
      obtain s2 a where h: "handle_flood_wait ops aid k s1 = (s2, a)" by fastforce
      have "still ops s1 s2" by (rule still_handle_flood [OF c h])
      then show ?thesis
        using run' FloodWait h other
        by (cases a) (auto intro: exI [of _ s2] split: if_splits)
    next
      case (PeerFlood m)
      obtain s2 u where h: "handle_peer_flood ops aid s1 = (s2, u)" by fastforce
      have "still ops s1 s2" by (rule still_peer_flood [OF c h])
      then show ?thesis
        using run' PeerFlood h other
        by (auto intro: exI [of _ s2] split: if_splits)
    next
      case (OtherError m)
      obtain s2 u where h: "handle_peer_flood ops aid s1 = (s2, u)" by fastforce
      have "still ops s1 s2" by (rule still_peer_flood [OF c h])
      then show ?thesis
        using run' OtherError h other
        by (auto intro: exI [of _ s2] split: if_splits)
    qed
  qed
  then obtain s2 where s2: "still ops s1 s2"
    and s': "s' = s2 \<or> (\<exists>u. s' = on_db (suspend_account_tasks aid u) s2)" by blast
  have e2: "evolves same_plan ops s s2"
    by (rule plan_trans [OF e1 still_evolves [OF s2]]) simp
  show "evolves same_plan ops s s'"
    using s' e2 plan_trans [OF e2 suspend_evolves] by auto
  show "advance \<Longrightarrow> now \<le> timestamp (now_of ops (sx s)) \<Longrightarrow> task_rests now (t_id t) (sdb s')"
    using s' still_rests [OF s2 r1] suspend_account_tasks_rests by auto
  show "\<exists>m. r = fail_summary t src n m"
    using run by (auto simp: fail_flood_def Let_def split: if_splits prod.splits send_error.splits
        flood_action.splits)
qed

lemma send_to_targets_facts:
  assumes c: "clock_forward ops"
    and run: "send_to_targets ops cfg t specs aid now advance src s = Some (s', r)"
    and ex: "get_task (t_id t) (sdb s) \<noteq> None"
  shows "evolves same_plan ops s s'"
    and "advance \<Longrightarrow> planned (t_id t) s \<Longrightarrow> now \<le> timestamp (now_of ops (sx s)) \<Longrightarrow>
         task_rests now (t_id t) (sdb s')"
    and "distinct (map target_key specs) \<Longrightarrow> (\<And>sp. sp \<in> set specs \<Longrightarrow> sp_type sp \<in> set peer_types) \<Longrightarrow>
         balanced r"
proof -
  obtain s1 q where l: "send_loop ops (t_id t) aid specs no_progress s = Some (s1, q)"
    using run by (auto simp: send_to_targets_def split: option.splits)
  note lf = send_loop_facts [OF c l ex, of "[]"]
  then have e1: "evolves same_plan ops s s1" by simp
  then have t1: "timestamp (now_of ops (sx s)) \<le> timestamp (now_of ops (sx s1))"
    by (simp add: evolves_def timestamp_mono)
  have all: "evolves same_plan ops s s' \<and>
    (advance \<longrightarrow> planned (t_id t) s \<longrightarrow> now \<le> timestamp (now_of ops (sx s)) \<longrightarrow>
         task_rests now (t_id t) (sdb s')) \<and>
    (distinct (map target_key specs) \<longrightarrow> (\<forall>sp \<in> set specs. sp_type sp \<in> set peer_types) \<longrightarrow> balanced r)"
  proof (cases q)
    case (Inl e)
    with run l have f: "fail_flood ops cfg t aid (int (length specs)) now advance src e s1 = (s', r)"
      by (simp add: send_to_targets_def)
    note ff = fail_flood_facts [OF c f]
    show ?thesis
      using plan_trans [OF e1 ff(1)] ff(2,3) t1 balanced_fail by (auto intro: order_trans)
  next
    case (Inr pg)
    with run l have f: "finish_sends ops cfg t specs now advance src pg s1 = (s', r)"
      by (simp add: send_to_targets_def)
    note ff = finish_sends_facts [OF f]
    show ?thesis
      using plan_trans [OF e1 ff(1)] ff(2,3) t1 lf Inr booked_start planned_step [OF _ e1]
      by (auto intro: order_trans)
  qed
  show "evolves same_plan ops s s'" using all by blast
  show "advance \<Longrightarrow> planned (t_id t) s \<Longrightarrow> now \<le> timestamp (now_of ops (sx s)) \<Longrightarrow>
      task_rests now (t_id t) (sdb s')" using all by blast
  show "distinct (map target_key specs) \<Longrightarrow> (\<And>sp. sp \<in> set specs \<Longrightarrow> sp_type sp \<in> set peer_types) \<Longrightarrow>
      balanced r" using all by blast
qed

end
