(* ===== verification/Execution.thy ===== *)
theory Execution
  imports Delivery
begin

text \<open>
  A whole run: the summary it returns, the task it leaves behind, its termination.
\<close>

definition fair :: "run_summary \<Rightarrow> bool" where
  "fair r \<longleftrightarrow> balanced r \<or> r_status r = Skipped \<and> r_ok r = 0 \<and> r_ok_targets r = []"

lemma fair_simps [simp]:
  "fair (skip_summary t src tot failed err)" "fair (fail_summary t src n err)"
  using balanced_fail by (simp_all add: fair_def build_summary_def)

lemma fair_no_targets: "handle_no_targets ops cfg t now advance src s = (s', r) \<Longrightarrow> fair r"
  by (auto simp: handle_no_targets_def Let_def split: if_splits)

lemma fair_client_failure: "handle_client_failure ops cfg t advance n src s = (s', r) \<Longrightarrow> fair r"
  by (auto simp: handle_client_failure_def)

lemma fair_plan: "plan_targets ops cfg t acc now advance src s = (s', Early r) \<Longrightarrow> fair r"
  by (auto simp: plan_targets_def Let_def split: if_splits prod.splits
      dest: fair_no_targets fair_client_failure)

lemma fair_account: "check_account ops t now advance src s = (s', Exit r) \<Longrightarrow> fair r"
  by (auto simp: check_account_def Let_def split: if_splits prod.splits option.splits)

lemma fair_validate:
  assumes "validate_and_resolve ops cfg tid now advance src s = (s', Early r)"
  shows "fair r"
  using assms fair_account fair_plan
  by (auto simp: validate_and_resolve_def Let_def
      split: option.splits if_splits prod.splits sum.splits checked.splits)

lemma fair_schedule:
  "check_schedule_constraints t now hour advance respect src n s = (s', Some r) \<Longrightarrow> fair r"
  by (auto simp: check_schedule_constraints_def Let_def split: if_splits prod.splits bool.splits)

lemma fair_lock:
  "lock_and_recheck_observation_budget ops t specs now advance src s = (s', Inl r) \<Longrightarrow> fair r"
  by (auto simp: lock_and_recheck_observation_budget_def Let_def
      split: option.splits if_splits prod.splits)

text \<open>What a finished run went through, and what it left.\<close>

lemma execute_facts:
  assumes c: "clock_forward ops"
    and run: "execute_task_once ops cfg tid src advance respect s = Some (s', Inr r)"
  shows "evolves same_plan ops s s'"
    and "advance \<Longrightarrow> planned tid s \<Longrightarrow> task_rests (timestamp (now_of ops (sx s))) tid (sdb s')"
    and "fair r"
proof -
  define now where "now = timestamp (now_of ops (sx s))"
  define hour where "hour = hour_of ops (now_of ops (sx s))"
  obtain s1 v where v: "validate_and_resolve ops cfg tid now advance src s = (s1, v)" by fastforce
  note vf = validate_facts [OF c v]
  have t1: "now \<le> timestamp (now_of ops (sx s1))"
    using vf(1) by (simp add: evolves_def now_def timestamp_mono)
  have all: "evolves same_plan ops s s' \<and>
     (advance \<longrightarrow> planned tid s \<longrightarrow> task_rests now tid (sdb s')) \<and>
     fair r"
  proof (cases v)
    case (Raise e)
    with run v show ?thesis by (simp add: execute_task_once_def Let_def now_def hour_def)
  next
    case (Early q)
    with run v have "s' = s1" "r = q" by (simp_all add: execute_task_once_def Let_def now_def hour_def)
    with vf(1,2) Early fair_validate [of ops cfg tid now advance src s s1 q] v
    show ?thesis by (auto simp: now_def)
  next
    case (Valid t vd)
    have tid: "t_id t = tid" and ex1: "get_task tid (sdb s1) \<noteq> None"
      and specs: "\<exists>n. vd_targets vd = take n (collect_task_targets t)"
      using vf(3) [OF Valid] by auto
    obtain s2 k where k: "check_schedule_constraints t now hour advance respect src
        (int (length (vd_targets vd))) s1 = (s2, k)" by fastforce
    note kf = schedule_facts [OF k]
    have e2: "evolves same_plan ops s s2" by (rule plan_trans [OF vf(1) kf(1)])
    show ?thesis
    proof (cases k)
      case (Some q)
      with run v k Valid have "s' = s2" "r = q"
        by (simp_all add: execute_task_once_def Let_def now_def hour_def)
      moreover have "task_rests now tid (sdb s2)" if adv: "advance" and pl: "planned tid s"
      proof -
        obtain t0 where "get_task tid (sdb s) = Some t0" "t_repeat t = t_repeat t0"
          using v Valid by (auto simp: validate_and_resolve_def plan_targets_def Let_def
              split: option.splits if_splits prod.splits sum.splits checked.splits)
        with pl have "0 < t_repeat t" by (simp add: planned_def)
        with kf(3) [OF Some adv] tid show ?thesis by simp
      qed
      ultimately show ?thesis using e2 fair_schedule k Some by auto
    next
      case None
      have s2: "s2 = s1" by (rule kf(2) [OF None])
      obtain s3 l where l: "lock_and_recheck_observation_budget ops t (vd_targets vd) now advance src s2
          = (s3, l)" by fastforce
      note lf = lock_facts [OF l]
      have e3: "evolves same_plan ops s s3" by (rule plan_trans [OF e2 lf(1)])
      show ?thesis
      proof (cases l)
        case (Inl q)
        with run v k l Valid None have "s' = s3" "r = q"
          by (simp_all add: execute_task_once_def Let_def now_def hour_def)
        then show ?thesis using e3 lf(3) Inl tid fair_lock l by auto
      next
        case (Inr specs')
        obtain n where n: "specs' = take n (collect_task_targets t)"
          using lf(2) [OF Inr] specs by (metis take_take)
        have e13: "evolves same_plan ops s1 s3" using lf(1) s2 by simp
        have ex3: "get_task (t_id t) (sdb s3) \<noteq> None"
          using evolves_existence [OF e13] ex1 tid by simp
        have "now_of ops (sx s1) \<le> now_of ops (sx s3)" using e13 by (simp add: evolves_def)
        with t1 have t3: "now \<le> timestamp (now_of ops (sx s3))"
          by (meson order_trans timestamp_mono)
        have st: "send_to_targets ops cfg t specs' (vd_account_id vd) now advance src s3 = Some (s', r)"
          using run v k l Valid None Inr
          by (auto simp: execute_task_once_def Let_def now_def hour_def)
        note sf = send_to_targets_facts [OF c st ex3]
        have "fair r" using sf(3) take_collect n by (auto simp: fair_def)
        then show ?thesis
          using plan_trans [OF e3 sf(1)] sf(2) planned_step [OF _ e3] t3 tid by auto
      qed
    qed
  qed
  show "evolves same_plan ops s s'" using all by blast
  show "advance \<Longrightarrow> planned tid s \<Longrightarrow> task_rests (timestamp (now_of ops (sx s))) tid (sdb s')"
    using all now_def by blast
  show "fair r"
    using all by blast
qed

lemma execute_returns:
  assumes "clock_forward ops" "sleep_elapses ops"
  shows "\<exists>r. execute_task_once ops cfg tid src advance respect s = Some r"
proof -
  have "\<exists>r. send_to_targets ops cfg t specs aid now advance src s3 = Some r" for t specs aid now s3
    using send_loop_returns [OF assms, of "t_id t" aid specs no_progress s3]
    by (auto simp: send_to_targets_def split: sum.splits)
  then show ?thesis
    by (auto simp: execute_task_once_def Let_def split: prod.splits validation.splits option.splits sum.splits)
qed

end
