(* ===== verification/SampleWorld.thy ===== *)
theory SampleWorld
  imports Runner "HOL-Library.Code_Target_Nat"
begin

text \<open>
  A small world for examples: a clock in microseconds, Redis keys with their expiry, the
  answers Telegram will give to the next sends and the messages it has accepted. It
  satisfies the documented behaviour of the clock.
\<close>

record world =
  w_now :: int
  w_keys :: "(string \<times> (string \<times> int)) list"
  w_replies :: "send_result list"
  w_sent :: "content list"
  w_notes :: "string list"
  w_zset :: "((string \<times> string) \<times> int) list"
  w_tokens :: nat

definition start_world :: "int \<Rightarrow> send_result list \<Rightarrow> world" where
  "start_world n rs = \<lparr>w_now = n, w_keys = [], w_replies = rs, w_sent = [],
     w_notes = [], w_zset = [], w_tokens = 0\<rparr>"

definition live_key :: "world \<Rightarrow> string \<Rightarrow> string option" where
  "live_key w k = (case map_of (w_keys w) k of
      None \<Rightarrow> None | Some (v, e) \<Rightarrow> if w_now w < e then Some v else None)"

definition sleep_world :: "int \<Rightarrow> world \<Rightarrow> world" where
  "sleep_world n w = w\<lparr>w_now := w_now w + max 0 n\<rparr>"

definition set_nx_world :: "string \<Rightarrow> string \<Rightarrow> int \<Rightarrow> world \<Rightarrow> world \<times> (exn + bool)" where
  "set_nx_world k v n w =
     (if live_key w k = None
      then (w\<lparr>w_keys := (k, v, w_now w + secs n) # w_keys w\<rparr>, Inr True)
      else (w, Inr False))"

definition get_world :: "string \<Rightarrow> world \<Rightarrow> world \<times> (exn + string option)" where
  "get_world k w = (w, Inr (live_key w k))"

definition del_world :: "string \<Rightarrow> world \<Rightarrow> world \<times> (exn + int)" where
  "del_world k w = (w\<lparr>w_keys := filter (\<lambda>(k', _). k' \<noteq> k) (w_keys w)\<rparr>,
                    Inr (if live_key w k = None then 0 else 1))"

text \<open>A send takes three seconds, so that the locks of the previous one have expired.\<close>

definition send_world :: "content \<Rightarrow> world \<Rightarrow> world \<times> send_result" where
  "send_world c w =
     (let w1 = w\<lparr>w_now := w_now w + secs 3\<rparr> in
      case w_replies w of
        [] \<Rightarrow> (w1\<lparr>w_sent := w_sent w @ [c]\<rparr>, Inr (Some (int (length (w_sent w)) + 1)))
      | r # rs \<Rightarrow>
          (w1\<lparr>w_replies := rs, w_sent := (if isl r then w_sent w else w_sent w @ [c])\<rparr>, r))"

definition sample_ops :: "world tg_ops" where
  "sample_ops =
     \<lparr>now_of = w_now, sleep_for = sleep_world, set_nx = set_nx_world, get_key = get_world,
      del_key = del_world, expire_key = (\<lambda>k n w. (w, Inr 0)), ttl_key = (\<lambda>k w. (w, Inr 0)),
      rand_int = (\<lambda>a b w. (w, a)), client_of = (\<lambda>aid w. (w, True)), get_me = (\<lambda>aid w. (w, MeOk)),
      input_peer = (\<lambda>aid n ty h w. (w, Inr None)), input_entity = (\<lambda>n w. (w, Inr (JInt n))),
      dialogs = (\<lambda>w. (w, Inr [])), html_text = (\<lambda>x. x), saved_message = (\<lambda>n w. (w, Inr None)),
      file_exists = (\<lambda>p w. True), tg_send = send_world, tg_delete = (\<lambda>p n w. (w, True)),
      tg_pin = (\<lambda>p n w. (w, True)), notify = (\<lambda>k a w. w\<lparr>w_notes := w_notes w @ [k]\<rparr>),
      iso_of = (\<lambda>n. show_int n), hour_of = (\<lambda>n. (n div hours 1) mod 24)\<rparr>"

lemma sample_clock_forward: "clock_forward sample_ops"
  by (simp add: clock_forward_def sample_ops_def sleep_world_def set_nx_world_def del_world_def
      send_world_def Let_def secs_def split: list.split)

lemma sample_sleep_elapses: "sleep_elapses sample_ops"
  by (simp add: sleep_elapses_def sample_ops_def sleep_world_def)

definition blank_task :: "string \<Rightarrow> int \<Rightarrow> task" where
  "blank_task tid uid =
     \<lparr>t_id = tid, t_user = uid, t_account = None, t_chat = None, t_title = ''demo'', t_peer = None,
      t_peer_type = None, t_hash = None, t_targets = JArr [], t_enabled = True, t_mode = scheduled,
      t_slot = None, t_label = None, t_priority = 0, t_repeat = 60, t_jitter = 0, t_delay_min = 0,
      t_delay_max = 0, t_day_start = None, t_day_end = None, t_start = None, t_end = None,
      t_text = None, t_media = MPhoto, t_media_file = Some ''p.jpg'', t_buttons = JNull,
      t_contract = 1, t_revision = 1, t_src_account = None, t_src_msg = None, t_src_meta = JNull,
      t_src_state = ''none'', t_src_error = None, t_src_verified = None, t_delete_previous = False,
      t_pin = False, t_last_msg = None, t_next = None, t_failures = 0\<rparr>"

definition blank_account :: "string \<Rightarrow> int \<Rightarrow> account" where
  "blank_account aid uid =
     \<lparr>a_id = aid, a_user = uid, a_tg = Some 1, a_username = None, a_first_name = None,
      a_phone = None, a_proxy = None, a_active = True, a_banned = False, a_health = Online,
      a_flooding = False, a_flood_until = None, a_reauth = False, a_reauth_reason = None,
      a_reauth_at = None, a_obs_started = None, a_obs_until = None, a_obs_count = 0,
      a_weight = 1, a_sent = 0, a_last_used = None, a_created = 0\<rparr>"

definition peer_item :: "string \<Rightarrow> int \<Rightarrow> json" where
  "peer_item ty n = JObj [(''peer_type'', JStr ty), (''peer_id'', JInt n)]"

definition sample_ids :: "nat \<Rightarrow> string" where
  "sample_ids n = ''id'' @ show_nat n"

end
