(* ===== verification/RunnerProps.thy ===== *)
theory RunnerProps
  imports Execution SampleWorld
begin

text \<open>
  Properties of the execution of a task and of the protections around its sends, and of the
  variation of the texts that are sent.
\<close>

section \<open>A run to evaluate\<close>

definition demo_sys :: "world sys" where
  "demo_sys =
     \<lparr>sdb = (empty_db sample_ids)\<lparr>tasks := [(blank_task ''t1'' 7)\<lparr>t_targets :=
              JArr [peer_item ''user'' 5, peer_item ''chat'' 6]\<rparr>]\<rparr>,
      sx = start_world (secs 1000000)
             [Inr (Some 77), Inl (OtherError \<lparr>e_name = ''ChatWriteForbiddenError'', e_code = [], e_text = ''x''\<rparr>)],
      recov = []\<rparr>"

definition demo_cfg :: config where
  "demo_cfg = \<lparr>max_failure_count = 5\<rparr>"

definition demo_run :: "(world sys \<times> (http_error + run_summary)) option" where
  "demo_run = execute_task_once sample_ops demo_cfg ''t1'' Scheduler True True demo_sys"

lemma demo_run_value:
  "case demo_run of
     Some (s, Inr q) \<Rightarrow> r_ok q = 1 \<and> r_failed q = 1 \<and> r_status q = PartialSuccess
       \<and> map t_next (tasks (sdb s)) = [Some 1003600] \<and> map i_suspended (issues (sdb s)) = [True]
   | _ \<Rightarrow> False"
  by code_simp

lemma demo_planned: "planned ''t1'' demo_sys"
  by (simp add: planned_def demo_sys_def get_task_def blank_task_def)

lemma demo_run_obtain:
  obtains s q where "execute_task_once sample_ops demo_cfg ''t1'' Scheduler True True demo_sys = Some (s, Inr q)"
    "r_status q = PartialSuccess" "r_ok q = 1" "r_failed q = 1"
    "map t_next (tasks (sdb s)) = [Some 1003600]"
  using demo_run_value
  by (cases demo_run) (auto simp: demo_run_def split: sum.splits)

section \<open>Runs\<close>

text \<open>
  A run triggered by the scheduler that returns a summary never leaves its task due: the
  task is gone, disabled, or its next run lies after the time the run began. So the next
  scan does not pick it up again at once. The clock only moves forward; the interval of the
  task is positive.
\<close>

theorem scheduled_run_leaves_task_resting:
  assumes "clock_forward ops"
    and "execute_task_once ops cfg tid src True respect s = Some (s', Inr r)"
    and "planned tid s"
  shows "task_rests (timestamp (now_of ops (sx s))) tid (sdb s')"
  using execute_facts(2) [OF assms(1,2)] assms(3) by simp

theorem scheduled_run_leaves_task_resting_witness:
  "\<exists>s q. execute_task_once sample_ops demo_cfg ''t1'' Scheduler True True demo_sys = Some (s, Inr q)
     \<and> map t_next (tasks (sdb s)) = [Some 1003600]
     \<and> task_rests (timestamp (now_of sample_ops (sx demo_sys))) ''t1'' (sdb s)"
proof -
  obtain s q where run: "execute_task_once sample_ops demo_cfg ''t1'' Scheduler True True demo_sys = Some (s, Inr q)"
    and n: "map t_next (tasks (sdb s)) = [Some 1003600]" by (rule demo_run_obtain)
  from scheduled_run_leaves_task_resting [OF sample_clock_forward run demo_planned] run n
  show ?thesis by (intro exI conjI)
qed


text \<open>
  C31: A run always ends. Whatever Redis and Telegram answer, waiting for a send slot polls at
  most until its time-out, so every call of the executor returns a summary or an HTTP error.
\<close>

theorem every_run_returns:
  assumes "clock_forward ops" "sleep_elapses ops"
  shows "\<exists>s' r. execute_task_once ops cfg tid src advance respect s = Some (s', r)"
  using execute_returns [OF assms] by fast

theorem every_run_returns_witness:
  "\<exists>s' r. execute_task_once sample_ops demo_cfg ''t1'' ApiManual False True demo_sys = Some (s', r)"
  by (rule every_run_returns [OF sample_clock_forward sample_sleep_elapses])

text \<open>
  The counts of a summary balance: successes and failures add up to the targets, there is
  one success label per success, full success has no failure, a failed run has no success.
  A run that was skipped counts no success at all.
\<close>

theorem run_summary_balances:
  assumes "clock_forward ops"
    and "execute_task_once ops cfg tid src advance respect s = Some (s', Inr r)"
  shows "if r_status r = Skipped then r_ok r = 0 \<and> r_ok_targets r = []
         else r_ok r + r_failed r = r_total r \<and> int (length (r_ok_targets r)) = r_ok r
           \<and> (r_status r = Success \<longleftrightarrow> r_failed r = 0 \<and> 0 < r_ok r)
           \<and> (r_status r = Failed \<longleftrightarrow> r_ok r = 0)"
  using execute_facts(3) [OF assms]
  by (cases "r_status r") (auto simp: fair_def balanced_def)

theorem run_summary_balances_witness:
  "\<exists>s q. execute_task_once sample_ops demo_cfg ''t1'' Scheduler True True demo_sys = Some (s, Inr q)
     \<and> r_status q = PartialSuccess \<and> r_ok q + r_failed q = r_total q"
proof -
  obtain s q where run: "execute_task_once sample_ops demo_cfg ''t1'' Scheduler True True demo_sys = Some (s, Inr q)"
    and st: "r_status q = PartialSuccess" by (rule demo_run_obtain)
  from run_summary_balances [OF sample_clock_forward run] st have "r_ok q + r_failed q = r_total q"
    by simp
  with run st show ?thesis by (intro exI conjI)
qed

section \<open>The send loop\<close>

text \<open>
  C32: A failing target does not stop the others. Only a flood error leaves the loop; if it
  runs to its end, every target has been booked exactly once, as sent or as failed, with one
  error per failed target and one message id per distinct successful target.
\<close>

theorem send_loop_books_every_target:
  assumes "clock_forward ops" "get_task tid (sdb s) \<noteq> None"
    and "send_loop ops tid aid (collect_task_targets t) no_progress s = Some (s', r)"
  shows "case r of
           Inl e \<Rightarrow> (\<exists>n. e = FloodWait n) \<or> (\<exists>m. e = PeerFlood m)
         | Inr pg \<Rightarrow>
             mset (pg_ok pg) + mset (pg_failed pg) = mset (map target_label (collect_task_targets t))
             \<and> length (pg_errors pg) = length (pg_failed pg) \<and> length (pg_ids pg) = length (pg_ok pg)"
proof -
  have "\<forall>sp \<in> set (collect_task_targets t). sp_type sp \<in> set peer_types"
    using collect_types by blast
  with send_loop_facts [OF assms(1,3,2), of "[]"] collect_distinct [of t] booked_start
  show ?thesis
    by (cases r) (auto simp: booked_def intro: send_error.exhaust)
qed

lemma demo_loop_value:
  "case send_loop sample_ops ''t1'' default_account
     (collect_task_targets (hd (tasks (sdb demo_sys)))) no_progress demo_sys of
     Some (s, Inr pg) \<Rightarrow> length (pg_ok pg) = 1 \<and> length (pg_failed pg) = 1
   | _ \<Rightarrow> False"
  by code_simp

theorem send_loop_books_every_target_witness:
  "\<exists>s pg. send_loop sample_ops ''t1'' default_account
       (collect_task_targets (hd (tasks (sdb demo_sys)))) no_progress demo_sys = Some (s, Inr pg)
     \<and> length (pg_failed pg) = 1 \<and> length (pg_errors pg) = 1"
proof -
  obtain s pg where run: "send_loop sample_ops ''t1'' default_account
       (collect_task_targets (hd (tasks (sdb demo_sys)))) no_progress demo_sys = Some (s, Inr pg)"
    and f: "length (pg_failed pg) = 1"
    using demo_loop_value by (auto split: option.splits prod.splits sum.splits)
  have "get_task ''t1'' (sdb demo_sys) \<noteq> None"
    by (simp add: demo_sys_def get_task_def blank_task_def)
  from send_loop_books_every_target [OF sample_clock_forward this run] f
  have "length (pg_errors pg) = 1" by simp
  with run f show ?thesis by (intro exI conjI)
qed

section \<open>The slot of the rate limiter\<close>

text \<open>
  A granted slot was really acquired: the wait is shorter than the time-out and the last
  thing the limiter did was to take the account lock and then the peer lock.
\<close>

theorem granted_slot_holds_both_locks:
  assumes "clock_forward ops" and "wait_for_slot ops aid pid m x = Some (x', Inr w)"
  shows "0 \<le> w \<and> w < m \<and>
    (\<exists>y z. acquire_account_lock ops aid y = (z, Inr True) \<and> acquire_peer_lock ops pid z = (x', Inr True)
           \<and> now_of ops x \<le> now_of ops y)"
proof -
  let ?I = "\<lambda>(w::int) y. w = 0 \<and> y = x \<or> 0 \<le> w \<and> now_of ops x \<le> now_of ops y"
  let ?Q = "\<lambda>(y', r :: exn + int). \<forall>w. r = Inr w \<longrightarrow> 0 \<le> w \<and> w < m \<and>
    (\<exists>y z. acquire_account_lock ops aid y = (z, Inr True) \<and> acquire_peer_lock ops pid z = (y', Inr True)
           \<and> now_of ops x \<le> now_of ops y)"
  have "?Q (x', Inr w)"
  proof (rule wait_loop_rule [OF assms(2) [unfolded wait_for_slot_def], where I = ?I and Q = ?Q])
    fix v y y'
    assume "?I v y" "slot_round ops aid pid v y = (y', None)"
    with fwdD [OF fwd_slot_round [OF assms(1)]] show "?I (now_of ops y' - now_of ops x) y'"
      by fastforce
  next
    fix v y y' r
    assume i: "?I v y" "v < m" and r: "slot_round ops aid pid v y = (y', Some r)"
    then show "?Q (y', r)"
      using slot_round_granted [of ops aid pid v y y'] by (cases r) auto
  qed auto
  then show ?thesis by simp
qed

theorem granted_slot_holds_both_locks_witness:
  "\<exists>x' w. wait_for_slot sample_ops ''a'' 5 10000000 (start_world 0 []) = Some (x', Inr w) \<and> w < 10000000"
proof -
  have "case wait_for_slot sample_ops ''a'' 5 10000000 (start_world 0 []) of
      Some (x', Inr w) \<Rightarrow> True | _ \<Rightarrow> False"
    by code_simp
  then obtain x' w where run: "wait_for_slot sample_ops ''a'' 5 10000000 (start_world 0 []) = Some (x', Inr w)"
    by (auto split: option.splits prod.splits sum.splits)
  from granted_slot_holds_both_locks [OF sample_clock_forward run] run show ?thesis by blast
qed

section \<open>The circuit breaker\<close>

text \<open>
  While an account waits out a flood, the breaker is open: the protected call does not
  happen, nothing changes, and the caller is told the remaining seconds.
\<close>

theorem open_breaker_blocks_the_call:
  assumes "get_account aid (sdb s) = Some a" "a_flooding a" "a_flood_until a = Some u"
    and "now_of ops (sx s) < u"
  shows "execute_with_circuit_breaker ops aid func s
         = (s, Inl (FloodWait (trunc_secs (u - now_of ops (sx s)))))"
  using assms
  by (simp add: execute_with_circuit_breaker_def admit_def reconcile_account_flood_state_def
      flood_expired_def)

definition flooded_sys :: "world sys" where
  "flooded_sys =
     \<lparr>sdb = (empty_db sample_ids)\<lparr>accounts := [(blank_account ''a'' 7)\<lparr>a_flooding := True,
              a_flood_until := Some (secs 100)\<rparr>]\<rparr>,
      sx = start_world (secs 40) [], recov = []\<rparr>"

theorem open_breaker_blocks_the_call_witness:
  "execute_with_circuit_breaker sample_ops ''a'' (\<lambda>s. (s\<lparr>recov := []\<rparr>, Inr (Some 1))) flooded_sys
   = (flooded_sys, Inl (FloodWait 60))"
proof -
  have "trunc_secs (secs 100 - now_of sample_ops (sx flooded_sys)) = 60"
    by (simp add: flooded_sys_def sample_ops_def start_world_def secs_def trunc_secs_def)
  moreover have "get_account ''a'' (sdb flooded_sys)
      = Some ((blank_account ''a'' 7)\<lparr>a_flooding := True, a_flood_until := Some (secs 100)\<rparr>)"
    by (simp add: flooded_sys_def get_account_def blank_account_def)
  moreover have "now_of sample_ops (sx flooded_sys) < secs 100"
    by (simp add: flooded_sys_def sample_ops_def start_world_def secs_def)
  ultimately show ?thesis
    using open_breaker_blocks_the_call [of "''a''" flooded_sys _ "secs 100" sample_ops] by simp
qed

text \<open>
  Once the flood is over, the first protected call closes the breaker: ban and flood marks
  are erased and the call proceeds in that state. A ban by flood is never permanent.
\<close>

theorem expired_flood_closes_the_breaker:
  assumes "get_account aid (sdb s) = Some a" "a_flooding a \<or> a_banned a" "a_flood_until a = Some u"
    and "u \<le> now_of ops (sx s)"
  shows "admit ops aid s = (on_db (upd_account aid clear_flood) s, Inr (clear_flood a))
    \<and> (\<forall>s' m. func (on_db (upd_account aid clear_flood) s) = (s', Inr m) \<longrightarrow>
         execute_with_circuit_breaker ops aid func s = (s', Inr m))"
proof -
  have "get_account aid (upd_account aid clear_flood (sdb s)) = Some (clear_flood a)"
    using assms(1) by (subst get_account_upd_same) (auto simp: clear_flood_def)
  with assms have "admit ops aid s = (on_db (upd_account aid clear_flood) s, Inr (clear_flood a))"
    by (auto simp: admit_def reconcile_account_flood_state_def flood_expired_def clear_flood_def Let_def)
  then show ?thesis by (simp add: execute_with_circuit_breaker_def)
qed

definition late_sys :: "world sys" where
  "late_sys = flooded_sys\<lparr>sx := start_world (secs 200) []\<rparr>"

theorem expired_flood_closes_the_breaker_witness:
  "admit sample_ops ''a'' late_sys =
     (on_db (upd_account ''a'' clear_flood) late_sys, Inr (blank_account ''a'' 7))"
proof -
  let ?a = "(blank_account ''a'' 7)\<lparr>a_flooding := True, a_flood_until := Some (secs 100)\<rparr>"
  have 1: "get_account ''a'' (sdb late_sys) = Some ?a"
    by (simp add: late_sys_def flooded_sys_def get_account_def blank_account_def)
  have 2: "a_flooding ?a \<or> a_banned ?a" "a_flood_until ?a = Some (secs 100)" by simp_all
  have 3: "secs 100 \<le> now_of sample_ops (sx late_sys)"
    by (simp add: late_sys_def sample_ops_def start_world_def secs_def)
  have "clear_flood ?a = blank_account ''a'' 7" by (simp add: clear_flood_def blank_account_def)
  with expired_flood_closes_the_breaker [OF 1 2 3, of "\<lambda>s. (s, Inr None)"] show ?thesis by simp
qed

text \<open>
  A flood of a day or more that ends a run stops the whole account: it is marked banned
  and flooding until the flood is over, and every enabled task of the account waits at least
  24 hours from the start of the run.
\<close>

theorem long_flood_stops_the_account:
  assumes "clock_forward ops" "86400 \<le> k" "aid \<noteq> default_account"
    and "get_account aid (sdb s) = Some a"
    and "fail_flood ops cfg t aid n now advance src (FloodWait k) s = (s', r)"
  shows "(\<exists>b. get_account aid (sdb s') = Some b \<and> a_banned b \<and> a_flooding b
            \<and> a_flood_until b = Some (now_of ops (sx s) + secs k))
    \<and> (\<forall>u \<in> set (tasks (sdb s')). t_account u = Some aid \<longrightarrow> t_enabled u \<longrightarrow>
         (\<exists>m. t_next u = Some m \<and> now + 24 * 3600 \<le> m))"
proof -
  define until where "until = now_of ops (sx s) + secs k"
  define s1 where "s1 = on_db (handle_task_failure (t_id t) (''FloodWait: '' @ show_int k @ ''s'')
      (max_failure_count cfg) src advance advance (timestamp (now_of ops (sx s)))) s"
  define s2 where "s2 = start_recovery_task aid k (on_x (notify ops ''flood_ban'' aid)
      (on_db (upd_account aid (\<lambda>a. mark_flooding until (a\<lparr>a_banned := True\<rparr>))) s1))"
  have h: "handle_flood_wait ops aid k s1 = (s2, Ban)"
    using assms(2) by (simp add: handle_flood_wait_def s2_def until_def s1_def Let_def)
  have acc1: "get_account aid (sdb s1) = Some a"
    using assms(4) by (simp add: s1_def handle_task_failure_def get_account_def upd_task_def add_log_def)
  have acc2: "get_account aid (sdb s2) = Some (mark_flooding until (a\<lparr>a_banned := True\<rparr>))"
    unfolding s2_def using acc1
    by (simp, subst get_account_upd_same) (auto simp: mark_flooding_def)
  define m where "m = max (now + 24 * 3600) (timestamp until)"
  have m: "now + 24 * 3600 \<le> m" by (simp add: m_def)
  have s': "s' = on_db (suspend_account_tasks aid m) s2"
    using assms(5) [unfolded fail_flood_def Let_def send_error.case, folded s1_def] assms(3) h acc2
    by (simp add: mark_flooding_def m_def)
  have "get_account aid (sdb s') = get_account aid (sdb s2)"
    by (simp add: s' suspend_account_tasks_def get_account_def)
  moreover have "\<exists>p. t_next u = Some p \<and> now + 24 * 3600 \<le> p"
    if "u \<in> set (tasks (sdb s'))" "t_account u = Some aid" "t_enabled u" for u
    using that m set_upd_where
    by (fastforce simp: s' suspend_account_tasks_def)
  ultimately show ?thesis using acc2 by (simp add: mark_flooding_def until_def)
qed

definition flood_sys :: "world sys" where
  "flood_sys =
     \<lparr>sdb = (empty_db sample_ids)\<lparr>accounts := [blank_account ''a'' 7],
         tasks := [(blank_task ''t1'' 7)\<lparr>t_account := Some ''a''\<rparr>,
                   (blank_task ''t2'' 7)\<lparr>t_account := Some ''a'', t_next := Some 5\<rparr>]\<rparr>,
      sx = start_world (secs 40) [], recov = []\<rparr>"

theorem long_flood_stops_the_account_witness:
  "\<exists>s' r. fail_flood sample_ops demo_cfg (blank_task ''t1'' 7) ''a'' 1 40 True Scheduler (FloodWait 90000)
       flood_sys = (s', r)
     \<and> (\<forall>u \<in> set (tasks (sdb s')). t_account u = Some ''a'' \<longrightarrow> t_enabled u \<longrightarrow>
         (\<exists>m. t_next u = Some m \<and> 40 + 24 * 3600 \<le> m))"
proof -
  obtain s' r where run: "fail_flood sample_ops demo_cfg (blank_task ''t1'' 7) ''a'' 1 40 True Scheduler
      (FloodWait 90000) flood_sys = (s', r)" by fastforce
  have acc: "get_account ''a'' (sdb flood_sys) = Some (blank_account ''a'' 7)"
    by (simp add: flood_sys_def get_account_def blank_account_def)
  have "(86400::int) \<le> 90000" "''a'' \<noteq> default_account" by simp_all
  from long_flood_stops_the_account [OF sample_clock_forward this acc run] run show ?thesis by blast
qed

section \<open>The observation window\<close>

text \<open>
  The send budget of the observation window is given out once: after a successful claim no
  later claim for the account succeeds or changes anything, until the window is restarted.
\<close>

theorem observation_budget_is_claimed_once:
  assumes "claim_proxy_observation_send_budget aid now d = (d1, won)" "now \<le> now'"
  shows "claim_proxy_observation_send_budget aid now' d1 = (d1, False)"
proof -
  have no: "\<not> claimable aid now' a" if a: "a \<in> set (accounts d1)" for a
  proof -
    from assms(1) have "accounts d1 = upd_where (claimable aid now)
        (\<lambda>a. a\<lparr>a_obs_count := observation_success_limit\<rparr>) (accounts d)"
      by (auto simp: claim_proxy_observation_send_budget_def)
    with a obtain q where "a = (if claimable aid now q then q\<lparr>a_obs_count := 1\<rparr> else q)"
      using set_upd_where by metis
    with assms(2) show ?thesis
      by (cases "claimable aid now q") (auto simp: claimable_def split: option.splits)
  qed
  then have "upd_where (claimable aid now') (\<lambda>a. a\<lparr>a_obs_count := observation_success_limit\<rparr>)
      (accounts d1) = accounts d1"
    by (rule upd_where_none)
  with no show ?thesis
    by (auto simp: claim_proxy_observation_send_budget_def list_ex_iff)
qed

definition observed_db :: db where
  "observed_db = (empty_db sample_ids)\<lparr>accounts := [start_proxy_observation 0 (blank_account ''a'' 7)]\<rparr>"

theorem observation_budget_is_claimed_once_witness:
  "\<exists>d1. claim_proxy_observation_send_budget ''a'' 10 observed_db = (d1, True)
     \<and> claim_proxy_observation_send_budget ''a'' 20 d1 = (d1, False)"
proof -
  obtain d1 w where c: "claim_proxy_observation_send_budget ''a'' 10 observed_db = (d1, w)" by fastforce
  moreover from c have "w"
    by (simp add: claim_proxy_observation_send_budget_def observed_db_def claimable_def
        start_proxy_observation_def blank_account_def hours_def secs_def)
  ultimately show ?thesis using observation_budget_is_claimed_once [OF c, of 20] by auto
qed

text \<open>
  During the observation window a run sends to one target at most: the targets it goes on
  with are those it had (outside the window), or the first of them, and then the budget of
  the account has just been claimed.
\<close>

theorem observed_run_sends_to_one_target:
  assumes "lock_and_recheck_observation_budget ops t specs now advance src s = (s', Inr specs')"
    and "t_account t = Some aid" "strip aid = aid" "aid \<noteq> []"
    and "get_account aid (sdb s) = Some a" "is_proxy_observation_active a (now_of ops (sx s))"
  shows "specs' = take 1 specs \<and> a_obs_count a < 1
    \<and> claim_proxy_observation_send_budget aid (now_of ops (sx s)) (sdb s) = (sdb s', True)"
  using assms
  by (auto simp: lock_and_recheck_observation_budget_def Let_def str_or_def
      proxy_observation_has_send_budget_def split: prod.splits if_splits list.splits)

definition watched_sys :: "world sys" where
  "watched_sys = \<lparr>sdb = observed_db, sx = start_world 10 [], recov = []\<rparr>"

theorem observed_run_sends_to_one_target_witness:
  "\<exists>s' specs'. lock_and_recheck_observation_budget sample_ops ((blank_task ''t'' 7)\<lparr>t_account := Some ''a''\<rparr>)
       [\<lparr>sp_peer = 1, sp_type = ''user'', sp_hash = JNull, sp_title = None\<rparr>,
        \<lparr>sp_peer = 2, sp_type = ''user'', sp_hash = JNull, sp_title = None\<rparr>] 0 True Scheduler watched_sys
     = (s', Inr specs') \<and> length specs' = 1"
proof -
  let ?t = "(blank_task ''t'' 7)\<lparr>t_account := Some ''a''\<rparr>"
  let ?sp = "[\<lparr>sp_peer = 1, sp_type = ''user'', sp_hash = JNull, sp_title = None\<rparr>,
        \<lparr>sp_peer = 2, sp_type = ''user'', sp_hash = JNull, sp_title = None\<rparr>]"
  let ?a = "start_proxy_observation 0 (blank_account ''a'' 7)"
  have s: "strip ''a'' = ''a''" by (simp add: strip_def is_space_def code_def Let_def)
  have a: "get_account ''a'' (sdb watched_sys) = Some ?a"
    by (simp add: watched_sys_def observed_db_def get_account_def start_proxy_observation_def blank_account_def)
  have act: "is_proxy_observation_active ?a (now_of sample_ops (sx watched_sys))"
    by (simp add: is_proxy_observation_active_def start_proxy_observation_def watched_sys_def
        sample_ops_def start_world_def hours_def secs_def)
  obtain s' r where run: "lock_and_recheck_observation_budget sample_ops ?t ?sp 0 True Scheduler watched_sys = (s', r)"
    by fastforce
  have "\<exists>sp. r = Inr sp"
    using run a act s
    by (auto simp: lock_and_recheck_observation_budget_def Let_def str_or_def
        proxy_observation_has_send_budget_def start_proxy_observation_def blank_account_def
        claim_proxy_observation_send_budget_def watched_sys_def observed_db_def claimable_def
        sample_ops_def start_world_def hours_def secs_def split: if_splits)
  then obtain sp where r: "r = Inr sp" by blast
  from observed_run_sends_to_one_target [OF run [unfolded r] _ s _ a act]
  have "sp = take 1 ?sp" by simp
  with run r show ?thesis by auto
qed

section \<open>Zero-width variation\<close>

definition visible :: "ptext \<Rightarrow> ptext" where
  "visible msg = filter (\<lambda>c. c \<notin> set zero_width_chars) msg"

lemma visible_append [simp]: "visible (xs @ ys) = visible xs @ visible ys"
  by (simp add: visible_def)

lemma visible_invisible: "set zs \<subseteq> set zero_width_chars \<Longrightarrow> visible zs = []"
  by (auto simp: visible_def filter_empty_conv)

lemma sample_subset: "sample ops k xs x = (x', ys) \<Longrightarrow> set ys \<subseteq> set xs"
proof (induction k arbitrary: xs x x' ys)
  case 0
  then show ?case by simp
next
  case (Suc k)
  show ?case
  proof (cases "xs = []")
    case True
    with Suc.prems show ?thesis by simp
  next
    case False
    obtain x1 i where i: "rand_int ops 0 (int (length xs) - 1) x = (x1, i)" by fastforce
    let ?j = "nat i mod length xs"
    let ?zs = "take ?j xs @ drop (Suc ?j) xs"
    obtain x2 zs where z: "sample ops k ?zs x1 = (x2, zs)" by fastforce
    have ys: "ys = xs ! ?j # zs"
      using Suc.prems False i z by (simp add: Let_def)
    have "set ?zs \<subseteq> set xs" using set_take_subset set_drop_subset by fastforce
    moreover have "xs ! ?j \<in> set xs" using False by simp
    moreover have "set zs \<subseteq> set ?zs" by (rule Suc.IH [OF z])
    ultimately show ?thesis unfolding ys by (metis insert_subset list.simps(15) subset_trans)
  qed
qed

lemma sample_length: "sample ops k xs x = (x', ys) \<Longrightarrow> length ys = min k (length xs)"
proof (induction ops k xs x arbitrary: x' ys rule: sample.induct)
  case (2 ops k xs x)
  show ?case
  proof (cases "xs = []")
    case True
    with 2(2) show ?thesis by simp
  next
    case False
    obtain x1 i where r: "rand_int ops 0 (int (length xs) - 1) x = (x1, i)" by fastforce
    let ?j = "nat i mod length xs"
    obtain x2 zs where s: "sample ops k (take ?j xs @ drop (Suc ?j) xs) x1 = (x2, zs)" by fastforce
    have j: "?j < length xs" using False by simp
    have "length zs = min k (length xs - 1)"
      using 2(1) [OF False r [symmetric] refl refl] s j by (simp add: min_def)
    moreover have "ys = xs ! ?j # zs" using 2(2) False r s by simp
    ultimately show ?thesis using False by (cases xs) (auto simp: min_def)
  qed
qed simp

lemma zero_width_props:
  assumes "add_zero_width_chars ops msg m x = (x', msg')" "msg \<noteq> []" "0 < m"
  shows "\<exists>zs. msg' = msg @ zs \<and> set zs \<subseteq> set zero_width_chars \<and> 1 \<le> length zs \<and> length zs \<le> 3"
proof -
  obtain x1 n where n: "randint ops 1 (min 3 (int m)) x = (x1, n)" by fastforce
  obtain x2 zs where z: "sample ops (nat n) zero_width_chars x1 = (x2, zs)" by fastforce
  have "1 \<le> n" "n \<le> 3"
    using n assms(3) by (auto simp: randint_def split: prod.splits)
  then have "1 \<le> length zs" "length zs \<le> 3"
    using sample_length [OF z] by (auto simp: zero_width_chars_def)
  with sample_subset [OF z] show ?thesis
    using assms(1,2) n z by (auto simp: add_zero_width_chars_def)
qed

lemma visible_insert_at: "z \<in> set zero_width_chars \<Longrightarrow> visible (insert_at z pos msg) = visible msg"
  by (simp add: insert_at_def visible_def) (metis append_take_drop_id filter_append)

lemma fold_insert:
  "z \<in> set zero_width_chars \<Longrightarrow> visible (fold (insert_at z) ps msg) = visible msg"
  "length (fold (insert_at z) ps msg) = length msg + length ps"
  by (induction ps arbitrary: msg) (simp_all add: visible_insert_at, simp add: insert_at_def)

text \<open>
  The variation is invisible and short: the text without zero-width characters is
  unchanged, and between one and five characters are added to a text that is not empty.
\<close>

theorem variation_is_invisible:
  assumes "add_invisible_variation ops msg x = (x', msg')"
  shows "visible msg' = visible msg \<and> length msg' \<le> length msg + 5
    \<and> (msg \<noteq> [] \<longrightarrow> length msg < length msg')"
proof (cases "msg = []")
  case True
  with assms show ?thesis by (simp add: add_invisible_variation_def)
next
  case False
  obtain x1 res where r: "add_zero_width_chars ops msg 5 x = (x1, res)" by fastforce
  obtain zs where z: "res = msg @ zs" "set zs \<subseteq> set zero_width_chars" "1 \<le> length zs" "length zs \<le> 3"
    using zero_width_props [OF r False] by auto
  let ?c = "safe_invisible_insert_positions res"
  show ?thesis
  proof (cases "?c = []")
    case True
    with assms r False have "msg' = res" by (simp add: add_invisible_variation_def Let_def)
    with z show ?thesis using visible_invisible [OF z(2)] by auto
  next
    case c: False
    obtain x2 ps where ps: "sample ops (min 2 (length ?c)) ?c x1 = (x2, ps)" by fastforce
    obtain x3 ws where ws: "sample ops 1 zero_width_chars x2 = (x3, ws)" by fastforce
    have "length ws = 1" using sample_length [OF ws] by (simp add: zero_width_chars_def)
    then have hd: "hd ws \<in> set zero_width_chars"
      using sample_subset [OF ws] by (cases ws) auto
    have t: "msg' = fold (insert_at (hd ws)) (rev (sort ps)) res"
      using assms r False c ps ws by (simp add: add_invisible_variation_def Let_def del: sample.simps)
    have "length ps \<le> 2" using sample_length [OF ps] by simp
    with z t fold_insert(1) [OF hd] show ?thesis
      using visible_invisible [OF z(2)] by (auto simp: fold_insert(2))
  qed
qed

theorem variation_is_invisible_witness:
  "\<exists>x' msg'. add_invisible_variation sample_ops [104, 105] (start_world 0 []) = (x', msg')
     \<and> visible msg' = [104, 105] \<and> 2 < length msg'"
proof -
  obtain x' msg' where v: "add_invisible_variation sample_ops [104, 105] (start_world 0 []) = (x', msg')"
    by fastforce
  from variation_is_invisible [OF v] v show ?thesis by (auto simp: visible_def zero_width_chars_def)
qed

text \<open>
  A text that fills the limit passes the check when the task is saved and fails at every
  send: the variation adds characters and the length is checked again afterwards.
\<close>

theorem full_text_is_saved_but_never_sent:
  assumes "t_text t = Some msg" "t_media t = MNone" "utf16_length (Some msg) = max_text_message_utf16"
    and "\<And>v. html_text ops v = v" and "\<forall>c \<in> set msg. c < 65536"
  shows "validate_message_length (t_text t) False = Inr ()
    \<and> (\<exists>x'. prepare_task_content ops t x = (x', Inl (OtherError
          (task_media_error ''TEXT_MESSAGE_TOO_LONG'' ''<message exceeds the Telegram limit>''))))"
proof -
  have ne: "msg \<noteq> []" using assms(3) by (auto simp: utf16_length_def)
  obtain x1 v where v: "add_invisible_variation ops msg x = (x1, v)" by fastforce
  have "utf16_length (Some msg) = length msg"
  proof -
    have "sum_list (map utf16_units msg) = sum_list (map (\<lambda>_. 1) msg)"
      by (rule arg_cong [where f = sum_list]) (use assms(5) in \<open>auto simp: utf16_units_def\<close>)
    then show ?thesis by (simp add: utf16_length_def sum_list_triv)
  qed
  moreover have "length v \<le> utf16_length (Some v)" by (rule utf16_length_ge)
  ultimately have "max_text_message_utf16 < utf16_length (Some v)"
    using variation_is_invisible [OF v] ne assms(3) by simp
  with assms(1-4) ne v show ?thesis
    by (cases msg) (simp_all add: validate_message_length_def prepare_task_content_def)
qed

theorem full_text_is_saved_but_never_sent_witness:
  "\<exists>x'. prepare_task_content sample_ops ((blank_task ''t'' 7)\<lparr>t_text := Some (replicate 4096 97), t_media := MNone\<rparr>)
     (start_world 0 []) = (x', Inl (OtherError
          (task_media_error ''TEXT_MESSAGE_TOO_LONG'' ''<message exceeds the Telegram limit>'')))"
proof -
  let ?t = "(blank_task ''t'' 7)\<lparr>t_text := Some (replicate 4096 97), t_media := MNone\<rparr>"
  have 1: "t_text ?t = Some (replicate 4096 97)" "t_media ?t = MNone" by simp_all
  have 2: "utf16_length (Some (replicate 4096 97)) = max_text_message_utf16"
    by (simp add: utf16_length_def utf16_units_def sum_list_replicate)
  have 3: "html_text sample_ops v = v" for v by (simp add: sample_ops_def)
  have 4: "\<forall>c \<in> set (replicate 4096 (97::nat)). c < 65536" by simp
  from full_text_is_saved_but_never_sent [OF 1 2 3 4] show ?thesis by blast
qed

end
