(* ===== verification/IssueFacts.thy ===== *)
theory IssueFacts
  imports Delivery
begin

text \<open>
  Delivery state of the targets of a task: the contract of the metadata updates as locales,
  interpreted on the three updates of the code, and which targets a task sends to.
\<close>

section \<open>Updates of one target\<close>

text \<open>
  Every update of the runtime metadata rewrites the items of \<open>target_peers\<close> in place. What
  its callers rely on: an item stays filed under its key and keeps its identity.
\<close>

locale item_update =
  fixes upd :: "json \<Rightarrow> json"
  assumes keeps_key: "item_key (upd it) = item_key it"
    and keeps_identity: "target_identity (upd it) = target_identity it"
begin

lemma keys: "map item_key (map upd its) = map item_key its"
  by (simp add: keeps_key)

lemma explicit: "explicit_target (upd it) = explicit_target it"
  by (simp add: explicit_target_def keeps_key)

lemma list_explicit: "list_ex explicit_target (map upd its) = list_ex explicit_target its"
  by (induction its) (simp_all add: explicit)

lemma items: "list_items (t_targets (map_targets upd t)) = map upd (list_items (t_targets t))"
  by (simp add: map_targets_def list_items_def split: json.split)

lemma count: "count_configured_task_targets (map_targets upd t) = count_configured_task_targets t"
  by (cases "t_targets t")
    (simp_all add: count_configured_task_targets_def map_targets_def explicit filter_map o_def)

lemma identities: "List.map_filter target_identity (map upd its) = List.map_filter target_identity its"
  by (simp add: map_filter_def filter_map o_def keeps_identity)

lemma unchanged:
  "has_target_collection_changed ds (t_targets (map_targets upd t))
   = has_target_collection_changed ds (t_targets t)"
  by (simp add: has_target_collection_changed_def items identities)

end

lemma item_update_upd_item:
  assumes "\<And>d. dget (f d) ''peer_id'' = dget d ''peer_id''"
    "\<And>d. dget (f d) ''peer_type'' = dget d ''peer_type''"
    "\<And>d. dget (f d) ''access_hash'' = dget d ''access_hash''"
  shows "item_update (\<lambda>it. if P it then upd_item f it else it)"
proof
  fix it
  show "item_key (if P it then upd_item f it else it) = item_key it"
    by (cases it) (simp_all add: upd_item_def assms split: option.split)
  show "target_identity (if P it then upd_item f it else it) = target_identity it"
    by (cases it) (simp_all add: upd_item_def target_identity_def assms split: option.split)
qed

lemma failure_fields_keep:
  "dget (failure_fields i title et em rs d) ''peer_id'' = dget d ''peer_id''"
  "dget (failure_fields i title et em rs d) ''peer_type'' = dget d ''peer_type''"
  "dget (failure_fields i title et em rs d) ''access_hash'' = dget d ''access_hash''"
  by (simp_all add: failure_fields_def Let_def)

lemma success_fields_keep:
  "dget (success_fields d) ''peer_id'' = dget d ''peer_id''"
  "dget (success_fields d) ''peer_type'' = dget d ''peer_type''"
  "dget (success_fields d) ''access_hash'' = dget d ''access_hash''"
  by (simp_all add: success_fields_def)

lemma set_message_id_keeps:
  "item_key (set_message_id ids it) = item_key it"
  "target_identity (set_message_id ids it) = target_identity it"
  by (cases it; simp add: set_message_id_def target_identity_def split: option.splits)+

interpretation failed_items: item_update
  "\<lambda>it. if match_target pid ty it then upd_item (failure_fields i title et em rs) it else it"
  for pid ty i title et em rs
  by (rule item_update_upd_item) (simp_all add: failure_fields_keep)

interpretation succeeded_items: item_update
  "\<lambda>it. if match_target pid ty it then upd_item success_fields it else it" for pid ty
  by (rule item_update_upd_item) (simp_all add: success_fields_keep)

interpretation sent: item_update "set_message_id ids" for ids
  by unfold_locales (simp_all add: set_message_id_keeps)

section \<open>Which targets are sent to\<close>

definition sendable :: "json list \<Rightarrow> (string \<times> int) set" where
  "sendable its = {k. \<exists>it \<in> set its. item_key it = Some k \<and> fst k \<in> set peer_types \<and> \<not> delivery_suspended it}"

lemma item_target_iff:
  "item_target it = Some sp \<Longrightarrow> item_key it = Some (target_key sp) \<and> sp_type sp \<in> set peer_types
     \<and> \<not> delivery_suspended it"
  by (auto simp: item_target_def target_key_def split: json.splits option.splits if_splits prod.splits)

lemma item_target_exists:
  "item_key it = Some k \<Longrightarrow> fst k \<in> set peer_types \<Longrightarrow> \<not> delivery_suspended it \<Longrightarrow>
   \<exists>sp. item_target it = Some sp \<and> target_key sp = k"
  by (cases it) (auto simp: item_target_def target_key_def split: option.splits)

lemma found_keys: "target_key ` set (List.map_filter item_target its) = sendable its"
proof (intro equalityI subsetI)
  fix k assume "k \<in> target_key ` set (List.map_filter item_target its)"
  then obtain it sp where "it \<in> set its" "item_target it = Some sp" "k = target_key sp"
    by (auto simp: map_filter_def)
  then show "k \<in> sendable its"
    using item_target_iff [of it sp] by (auto simp: sendable_def target_key_def)
next
  fix k assume "k \<in> sendable its"
  then obtain it where it: "it \<in> set its" "item_key it = Some k" "fst k \<in> set peer_types"
      "\<not> delivery_suspended it"
    by (auto simp: sendable_def)
  from item_target_exists [OF it(2-4)] obtain sp where "item_target it = Some sp" "target_key sp = k"
    by blast
  with it(1) show "k \<in> target_key ` set (List.map_filter item_target its)"
    by (force simp: map_filter_def)
qed

lemma collect_keys:
  assumes "list_ex explicit_target (list_items (t_targets t))"
  shows "target_key ` set (collect_task_targets t) = sendable (list_items (t_targets t))"
  using assms found_keys by (auto simp: collect_task_targets_def Let_def dedupe_keys)

text \<open>An update that decides, for one key, whether its target is suspended.\<close>

locale delivery_update = item_update upd for upd :: "json \<Rightarrow> json" +
  fixes key :: "string \<times> int" and suspend :: bool
  assumes at_key: "item_key it = Some key \<Longrightarrow> delivery_suspended (upd it) = suspend"
    and elsewhere: "item_key it \<noteq> Some key \<Longrightarrow> delivery_suspended (upd it) = delivery_suspended it"
begin

lemma sendable_upd:
  "sendable (map upd its) =
     (if suspend then sendable its - {key}
      else sendable its \<union> {k. k = key \<and> fst k \<in> set peer_types \<and> Some k \<in> item_key ` set its})"
proof (intro set_eqI)
  fix k
  have "k \<in> sendable (map upd its) \<longleftrightarrow>
      (\<exists>it \<in> set its. item_key it = Some k \<and> fst k \<in> set peer_types \<and> \<not> delivery_suspended (upd it))"
    by (auto simp: sendable_def keeps_key)
  also have "\<dots> \<longleftrightarrow> (if k = key
      then \<not> suspend \<and> fst k \<in> set peer_types \<and> (\<exists>it \<in> set its. item_key it = Some k)
      else k \<in> sendable its)"
  proof (cases "k = key")
    case True
    then show ?thesis using at_key by auto
  next
    case False
    then have "item_key it = Some k \<Longrightarrow> delivery_suspended (upd it) = delivery_suspended it" for it
      using elsewhere by auto
    with False show ?thesis by (auto simp: sendable_def)
  qed
  also have "\<dots> \<longleftrightarrow> k \<in> (if suspend then sendable its - {key}
      else sendable its \<union> {k. k = key \<and> fst k \<in> set peer_types \<and> Some k \<in> item_key ` set its})"
  proof (cases "k = key")
    case True
    have "k \<in> sendable its \<longrightarrow> fst k \<in> set peer_types \<and> Some k \<in> item_key ` set its"
      by (force simp: sendable_def)
    moreover have "(\<exists>it \<in> set its. item_key it = Some k) \<longleftrightarrow> Some k \<in> item_key ` set its" by force
    ultimately show ?thesis using True by auto
  qed auto
  finally show "k \<in> sendable (map upd its) \<longleftrightarrow> k \<in> (if suspend then sendable its - {key}
      else sendable its \<union> {k. k = key \<and> fst k \<in> set peer_types \<and> Some k \<in> item_key ` set its})" .
qed

lemma collect_upd:
  assumes "list_ex explicit_target (list_items (t_targets t))"
  shows "target_key ` set (collect_task_targets (map_targets upd t)) =
     (if suspend then target_key ` set (collect_task_targets t) - {key}
      else target_key ` set (collect_task_targets t)
        \<union> {k. k = key \<and> fst k \<in> set peer_types \<and> Some k \<in> item_key ` set (list_items (t_targets t))})"
proof -
  have "list_ex explicit_target (list_items (t_targets (map_targets upd t)))"
    using assms by (simp add: items list_explicit)
  then show ?thesis
    using assms by (simp only: collect_keys items sendable_upd)
qed

end

lemma active_not_suspended: "norm_type (JStr ''active'') \<noteq> ''suspended''"
  and suspended_suspended: "norm_type (JStr ''suspended'') = ''suspended''"
  by (simp_all add: norm_type_def strip_def lower_def lower_char_def is_space_def code_def Let_def)

lemma failure_fields_status:
  "dget (failure_fields i title et em rs d) ''delivery_status'' =
     JStr (if str_true rs then ''suspended'' else ''active'')"
  by (simp add: failure_fields_def Let_def)

lemma success_fields_status: "dget (success_fields d) ''delivery_status'' = JStr ''active''"
  by (simp add: success_fields_def)

interpretation failed: delivery_update
  "\<lambda>it. if match_target pid ty it then upd_item (failure_fields i title et em rs) it else it"
  "(lower (strip ty), pid)" "str_true rs"
  for pid ty i title et em rs
proof
  fix it
  show "item_key it = Some (lower (strip ty), pid) \<Longrightarrow> delivery_suspended
      (if match_target pid ty it then upd_item (failure_fields i title et em rs) it else it) = str_true rs"
    by (cases it) (simp_all add: match_target_def upd_item_def delivery_suspended_def failure_fields_status
        active_not_suspended suspended_suspended)
  show "item_key it \<noteq> Some (lower (strip ty), pid) \<Longrightarrow> delivery_suspended
      (if match_target pid ty it then upd_item (failure_fields i title et em rs) it else it)
      = delivery_suspended it"
    by (simp add: match_target_def)
qed

interpretation succeeded: delivery_update
  "\<lambda>it. if match_target pid ty it then upd_item success_fields it else it"
  "(lower (strip ty), pid)" False for pid ty
proof
  fix it
  show "item_key it = Some (lower (strip ty), pid) \<Longrightarrow> delivery_suspended
      (if match_target pid ty it then upd_item success_fields it else it) = False"
    by (cases it) (simp_all add: match_target_def upd_item_def delivery_suspended_def success_fields_status
        active_not_suspended)
  show "item_key it \<noteq> Some (lower (strip ty), pid) \<Longrightarrow> delivery_suspended
      (if match_target pid ty it then upd_item success_fields it else it) = delivery_suspended it"
    by (simp add: match_target_def)
qed

end
