(* ===== verification/IssueProps.thy ===== *)
theory IssueProps
  imports IssueFacts SampleWorld
begin

text \<open>Properties of the delivery state of targets and of the issue rows.\<close>

section \<open>Targets\<close>

text \<open>
  The three updates of delivery metadata (a failure, a success, the ids of the last
  messages) never change which targets a task has: the keys of the items and the number of
  configured targets stay, and no later edit is taken for a change of the collection.
\<close>

theorem delivery_metadata_keeps_the_targets:
  "map item_key (list_items (t_targets (update_task_target_failure_metadata i pid ty title et em rs t)))
     = map item_key (list_items (t_targets t))
   \<and> map item_key (list_items (t_targets (update_task_target_success_metadata pid ty t)))
     = map item_key (list_items (t_targets t))
   \<and> map item_key (list_items (t_targets (update_task_target_last_message_ids ids t)))
     = map item_key (list_items (t_targets t))
   \<and> count_configured_task_targets (update_task_target_failure_metadata i pid ty title et em rs t)
     = count_configured_task_targets t
   \<and> has_target_collection_changed ds
       (t_targets (update_task_target_failure_metadata i pid ty title et em rs t))
     = has_target_collection_changed ds (t_targets t)"
proof -
  have "map item_key (list_items (t_targets (update_task_target_last_message_ids ids t)))
      = map item_key (list_items (t_targets t))"
    by (auto simp: sent.keeps_key update_task_target_last_message_ids_def Let_def list_items_def
        split: json.splits list.splits prod.splits)
  then show ?thesis
    by (simp add: update_task_target_failure_metadata_def update_task_target_success_metadata_def
        failed_items.items failed_items.keys succeeded_items.items succeeded_items.keys
        failed_items.count failed_items.unchanged
        del: map_map)
qed

text \<open>
  C33: The targets of the next run after a failure: if the failure suspends the target, it is
  no longer among them, otherwise it is again, and every other target is as before. An
  explicit list is never replaced by the legacy columns, even if all of it is suspended.
\<close>

theorem failure_decides_the_next_targets:
  assumes "list_ex explicit_target (list_items (t_targets t))"
  shows "target_key ` set (collect_task_targets
      (update_task_target_failure_metadata i pid ty title et em reason t)) =
    (let K = target_key ` set (collect_task_targets t); key = (lower (strip ty), pid) in
     if str_true reason then K - {key}
     else K \<union> {k. k = key \<and> fst k \<in> set peer_types \<and> Some k \<in> item_key ` set (list_items (t_targets t))})"
  unfolding update_task_target_failure_metadata_def Let_def by (rule failed.collect_upd [OF assms])

definition two_peers :: task where
  "two_peers = (blank_task ''t1'' 7)\<lparr>t_targets := JArr [peer_item ''user'' 5, peer_item ''chat'' 6],
                 t_peer := Some 5, t_peer_type := Some ''user''\<rparr>"

theorem failure_decides_the_next_targets_witness:
  "target_key ` set (collect_task_targets
     (update_task_target_failure_metadata ''now'' 5 ''user'' None ''E'' ''m'' (Some ''gone'') two_peers))
   = {(''chat'', 6)}"
proof -
  have e: "list_ex explicit_target (list_items (t_targets two_peers))" by code_simp
  have c: "target_key ` set (collect_task_targets two_peers) = {(''user'', 5), (''chat'', 6)}"
    by code_simp
  have k: "lower (strip ''user'') = ''user''" by code_simp
  show ?thesis
    using failure_decides_the_next_targets [OF e, of "''now''" 5 "''user''" None "''E''" "''m''" "Some ''gone''"]
    by (simp add: c k)
qed

text \<open>A successful send brings a suspended target back, and changes no other target.\<close>

theorem success_brings_the_target_back:
  assumes "list_ex explicit_target (list_items (t_targets t))"
    and "Some (lower (strip ty), pid) \<in> item_key ` set (list_items (t_targets t))"
    and "lower (strip ty) \<in> set peer_types"
  shows "target_key ` set (collect_task_targets (update_task_target_success_metadata pid ty t))
    = insert (lower (strip ty), pid) (target_key ` set (collect_task_targets t))"
proof -
  have "target_key ` set (collect_task_targets (update_task_target_success_metadata pid ty t))
      = target_key ` set (collect_task_targets t) \<union> {k. k = (lower (strip ty), pid)
          \<and> fst k \<in> set peer_types \<and> Some k \<in> item_key ` set (list_items (t_targets t))}"
    unfolding update_task_target_success_metadata_def
    using succeeded.collect_upd [OF assms(1), of pid ty] by simp
  with assms(2,3) show ?thesis by auto
qed

theorem success_brings_the_target_back_witness:
  "let t = update_task_target_failure_metadata ''now'' 5 ''user'' None ''E'' ''m'' (Some ''gone'') two_peers
   in (''user'', 5) \<notin> target_key ` set (collect_task_targets t)
      \<and> (''user'', 5) \<in> target_key ` set (collect_task_targets (update_task_target_success_metadata 5 ''user'' t))"
proof -
  define t where "t = update_task_target_failure_metadata ''now'' 5 ''user'' None ''E'' ''m'' (Some ''gone'') two_peers"
  have 1: "list_ex explicit_target (list_items (t_targets t))" unfolding t_def by code_simp
  have k: "lower (strip ''user'') = ''user''" by code_simp
  have 2: "Some (lower (strip ''user''), 5) \<in> item_key ` set (list_items (t_targets t))"
    unfolding t_def by code_simp
  have 3: "lower (strip ''user'') \<in> set peer_types" by code_simp
  have "(''user'', 5) \<notin> target_key ` set (collect_task_targets t)" unfolding t_def by code_simp
  with success_brings_the_target_back [OF 1 2 3] k show ?thesis by (simp add: t_def [symmetric] Let_def)
qed

text \<open>
  A change of the collection is a change of the multiset of identities: reordering the
  targets, or editing their titles and delivery data, is none.
\<close>

theorem collection_change_is_a_multiset_change:
  "has_target_collection_changed incoming existing \<longleftrightarrow>
     mset (List.map_filter target_identity (map JObj incoming))
       \<noteq> mset (List.map_filter target_identity (list_items existing))"
proof -
  have "sort xs = sort ys \<longleftrightarrow> mset xs = mset ys" for xs ys :: "'k::linorder list"
    by (metis mset_sort properties_for_sort sorted_sort)
  then show ?thesis by (simp add: has_target_collection_changed_def)
qed

section \<open>Issue rows\<close>

lemma find_issue_cong: "issues d' = issues d \<Longrightarrow> find_issue tid pid ty d' = find_issue tid pid ty d"
  by (simp add: find_issue_def)

lemma find_after_record:
  "find_issue (t_id t) pid ty (fst (record_task_target_send_issue now t pid ty title c d)) =
     Some (case find_issue (t_id t) pid ty d of
             None \<Rightarrow> new_issue now t pid ty title c
           | Some i \<Rightarrow> refresh_issue now t title c i)"
proof (cases "find_issue (t_id t) pid ty d")
  case None
  then show ?thesis
    by (simp add: record_task_target_send_issue_def find_issue_def find_row_append issue_at_def
        new_issue_def Let_def)
next
  case (Some i)
  have at: "issue_at (t_id t) pid ty (refresh_issue now t title c i)"
    using Some find_row_Some [of "issue_at (t_id t) pid ty" "issues d" i]
    by (simp add: find_issue_def issue_at_def refresh_issue_def Let_def)
  have "find_row (issue_at (t_id t) pid ty)
      (upd_where (issue_at (t_id t) pid ty) (\<lambda>_. refresh_issue now t title c i) (issues d))
      = map_option (\<lambda>_. refresh_issue now t title c i) (find_row (issue_at (t_id t) pid ty) (issues d))"
    by (rule find_row_upd_key) (rule at)
  with Some show ?thesis
    by (simp add: record_task_target_send_issue_def find_issue_def Let_def)
qed

definition fail_repeatedly ::
  "datetime list \<Rightarrow> task \<Rightarrow> int \<Rightarrow> string \<Rightarrow> string option \<Rightarrow> classification \<Rightarrow> db \<Rightarrow> db" where
  "fail_repeatedly nows t pid ty title c d =
     fold (\<lambda>now d. fst (record_task_target_send_issue now t pid ty title c d)) nows d"

definition same_failure :: "classification \<Rightarrow> int \<Rightarrow> issue \<Rightarrow> bool" where
  "same_failure c n i \<longleftrightarrow> i_status i = ''active'' \<and> i_error_type i = cl_type c
     \<and> i_error_message i = Some (cl_message c) \<and> i_category i = cl_category c
     \<and> i_failures i = n \<and> i_suspended i = threshold_reached c n"

lemma same_failure_new: "same_failure c 1 (new_issue now t pid ty title c)"
  by (simp add: same_failure_def new_issue_def)

lemma same_failure_refresh:
  "same_failure c n i \<Longrightarrow> same_failure c (n + 1) (refresh_issue now t title c i)"
  by (simp add: same_failure_def refresh_issue_def issue_changed_def Let_def str_or_def split: list.split)

lemma same_failure_restart:
  "issue_changed c i \<Longrightarrow> same_failure c 1 (refresh_issue now t title c i)"
  by (simp add: same_failure_def refresh_issue_def Let_def)

lemma fail_more:
  "find_issue (t_id t) pid ty d = Some i \<Longrightarrow> same_failure c n i \<Longrightarrow>
   \<exists>j. find_issue (t_id t) pid ty (fail_repeatedly nows t pid ty title c d) = Some j
       \<and> same_failure c (n + int (length nows)) j"
proof (induction nows arbitrary: d i n)
  case Nil
  then show ?case by (simp add: fail_repeatedly_def)
next
  case (Cons now nows)
  let ?d = "fst (record_task_target_send_issue now t pid ty title c d)"
  have "find_issue (t_id t) pid ty ?d = Some (refresh_issue now t title c i)"
    using Cons.prems(1) by (simp add: find_after_record)
  from Cons.IH [OF this same_failure_refresh [OF Cons.prems(2)]]
  show ?case by (simp add: fail_repeatedly_def ac_simps)
qed

text \<open>
  The same error on the same target is counted: after \<open>n\<close> failures in a row from a clean
  slate, or after any other error, the issue row counts \<open>n\<close> and is suspended exactly when
  the threshold of the error class is reached.
\<close>

theorem repeated_failures_are_counted:
  assumes "case find_issue (t_id t) pid ty d of None \<Rightarrow> True | Some i \<Rightarrow> issue_changed c i"
    and "nows \<noteq> []"
  shows "\<exists>i. find_issue (t_id t) pid ty (fail_repeatedly nows t pid ty title c d) = Some i
           \<and> i_status i = ''active'' \<and> i_failures i = int (length nows)
           \<and> i_suspended i = threshold_reached c (int (length nows))"
proof -
  obtain now rest where n: "nows = now # rest" using assms(2) by (cases nows) auto
  let ?d = "fst (record_task_target_send_issue now t pid ty title c d)"
  obtain i where "find_issue (t_id t) pid ty ?d = Some i" "same_failure c 1 i"
    using assms(1) find_after_record [of t pid ty now title c d] same_failure_new same_failure_restart
    by (cases "find_issue (t_id t) pid ty d") auto
  from fail_more [OF this, of rest title]
  show ?thesis by (auto simp: n fail_repeatedly_def same_failure_def ac_simps)
qed

theorem repeated_failures_are_counted_witness:
  "\<exists>i. find_issue ''t1'' 5 ''user'' (fail_repeatedly [1, 2, 3] two_peers 5 ''user'' None
         (classify_task_send_error empty_result_exn) (empty_db sample_ids)) = Some i
       \<and> i_failures i = 3 \<and> i_suspended i"
proof -
  have t: "t_id two_peers = ''t1''" by (simp add: two_peers_def blank_task_def)
  have a: "threshold_reached (classify_task_send_error empty_result_exn) 3" by code_simp
  have "case find_issue (t_id two_peers) 5 ''user'' (empty_db sample_ids) of None \<Rightarrow> True
      | Some i \<Rightarrow> issue_changed (classify_task_send_error empty_result_exn) i"
    by (simp add: find_issue_def empty_db_def)
  from repeated_failures_are_counted [OF this, of "[1, 2, 3]" None] a t show ?thesis by auto
qed


text \<open>
  When an error suspends its target: a missing permission or an unreachable chat at the
  first failure, an empty receipt from the third failure on, every other error never.
\<close>

definition suspending_errors :: "string list" where
  "suspending_errors = [''ChatSendPhotosForbiddenError'', ''ChatSendVideosForbiddenError'',
     ''ChatSendGifsForbiddenError'', ''ChatSendMediaForbiddenError'', ''UserBannedInChannelError'',
     ''ChatWriteForbiddenError'', ''ChatSendPlainForbiddenError'', ''ChatRestrictedError'',
     ''ChannelPrivateError'']"

theorem suspension_threshold_of_an_error:
  "threshold_reached (classify_task_send_error e) n \<longleftrightarrow>
     (if e_name e \<in> set suspending_errors then 1 \<le> n
      else e_name e \<notin> {''RateLimiterTimeoutError'', ''RateLimiterBackendUnavailableError''}
        \<and> strip (e_code e) = [] \<and> strip (e_text e) = empty_result_text \<and> 3 \<le> n)"
proof (cases "map_of specialized_classifications (e_name e)")
  case None
  then have "e_name e \<notin> set suspending_errors"
    "e_name e \<notin> {''RateLimiterTimeoutError'', ''RateLimiterBackendUnavailableError''}"
    by (auto simp: specialized_classifications_def suspending_errors_def split: if_splits)
  with None show ?thesis
    by (auto simp: classify_task_send_error_def threshold_reached_def transient_def Let_def)
next
  case (Some c)
  then have 1: "classify_task_send_error e = c" by (simp add: classify_task_send_error_def)
  show ?thesis
    unfolding 1 using Some
    by (auto simp: specialized_classifications_def suspending_errors_def threshold_reached_def
        suspending_def transient_def split: if_splits)
qed

text \<open>
  A success closes the open issue of its target: resolved, no failures, not suspended; the
  next failure, of whatever kind, opens it again with the count one.
\<close>

theorem success_resolves_the_issue:
  assumes "find_issue (t_id t) pid ty d = Some i" "i_status i = ''active''"
  shows "\<exists>j k. find_issue (t_id t) pid ty (resolve_task_target_send_issue now t pid ty d) = Some j
      \<and> i_status j = ''resolved'' \<and> i_failures j = 0 \<and> \<not> i_suspended j
      \<and> find_issue (t_id t) pid ty (fst (record_task_target_send_issue now' t pid ty title c
            (resolve_task_target_send_issue now t pid ty d))) = Some k
      \<and> i_failures k = 1"
proof -
  let ?f = "\<lambda>i. i\<lparr>i_status := ''resolved'', i_failures := 0, i_suspended := False,
      i_resolved_at := Some now, i_recovered_notified := None\<rparr>"
  let ?d = "resolve_task_target_send_issue now t pid ty d"
  have "find_issue (t_id t) pid ty ?d = map_option
      (\<lambda>i. if issue_at (t_id t) pid ty i \<and> i_status i = ''active'' then ?f i else i)
      (find_issue (t_id t) pid ty d)"
    by (simp add: resolve_task_target_send_issue_def find_issue_def, rule find_row_upd_same)
       (simp add: issue_at_def)
  moreover have "issue_at (t_id t) pid ty i"
    using assms(1) by (auto simp: find_issue_def dest: find_row_Some)
  ultimately have 1: "find_issue (t_id t) pid ty ?d = Some (?f i)"
    using assms by simp
  have "issue_changed c (?f i)" by (simp add: issue_changed_def)
  from same_failure_restart [OF this, of now' t title]
  have "i_failures (refresh_issue now' t title c (?f i)) = 1" by (simp add: same_failure_def)
  with 1 show ?thesis by (simp add: find_after_record)
qed

theorem success_resolves_the_issue_witness:
  "\<exists>j. find_issue ''t1'' 5 ''user'' (resolve_task_target_send_issue 9 two_peers 5 ''user''
        (fail_repeatedly [1] two_peers 5 ''user'' None (classify_task_send_error empty_result_exn)
           (empty_db sample_ids))) = Some j \<and> i_status j = ''resolved''"
proof -
  have t: "t_id two_peers = ''t1''" by (simp add: two_peers_def blank_task_def)
  let ?d = "fail_repeatedly [1] two_peers 5 ''user'' None (classify_task_send_error empty_result_exn)
      (empty_db sample_ids)"
  have "find_issue (t_id two_peers) 5 ''user'' ?d
      = Some (new_issue 1 two_peers 5 ''user'' None (classify_task_send_error empty_result_exn))"
    by (simp add: fail_repeatedly_def find_after_record, simp add: find_issue_def empty_db_def)
  from success_resolves_the_issue [OF this, of 9 9 None "classify_task_send_error empty_result_exn"] t
  show ?thesis by (auto simp: new_issue_def)
qed

section \<open>Edits of the target list\<close>

lemma copy_field_dget: "dget (copy_field src k c d) k' = (if c \<and> k' = k then dget src k else dget d k')"
  by (simp add: copy_field_def)

lemma merge_item_key: "item_key (JObj (merge_item reset ex d)) = item_key (JObj d)"
  by (simp add: merge_item_def copy_field_dget Let_def split: option.split)

lemma merge_item_status:
  "dget (merge_item reset ex d) ''delivery_status'' =
     (if reset then JStr ''active''
      else if dhas ex ''delivery_status'' then dget ex ''delivery_status''
      else dget d ''delivery_status'')"
  by (simp add: merge_item_def copy_field_dget Let_def)

lemma suspended_has_status: "delivery_suspended (JObj ex) \<Longrightarrow> dhas ex ''delivery_status''"
  by (auto simp: delivery_suspended_def dhas_def dget_def norm_type_def strip_def lower_def
      str_or_empty_def split: option.splits)

text \<open>
  Editing the list of targets: the merged list has the new targets in their order. If the
  collection has changed (\<open>reset\<close>), no target stays suspended; if it has not, a target the
  system had suspended stays suspended.
\<close>

theorem edit_resets_suspensions_iff_asked:
  assumes "merge_target_runtime_metadata incoming existing reset = Some merged"
  shows "map (item_key \<circ> JObj) merged = map (item_key \<circ> JObj) incoming
    \<and> (reset \<longrightarrow> (\<forall>d \<in> set merged. \<not> delivery_suspended (JObj d)))
    \<and> (\<not> reset \<longrightarrow> (\<forall>d \<in> set merged. \<forall>key. item_key (JObj d) = Some key \<longrightarrow>
          delivery_suspended (JObj (existing_map existing key)) \<longrightarrow> delivery_suspended (JObj d)))"
  using assms
proof (induction incoming arbitrary: merged)
  case Nil
  then show ?case by simp
next
  case (Cons d ds)
  obtain key rest where k: "item_key (JObj d) = Some key"
    and r: "merge_target_runtime_metadata ds existing reset = Some rest"
    and m: "merged = merge_item reset (existing_map existing key) d # rest"
    using Cons.prems by (auto simp del: item_key.simps split: if_splits option.splits)
  let ?e = "existing_map existing key"
  have "reset \<Longrightarrow> \<not> delivery_suspended (JObj (merge_item reset ?e d))"
    by (simp add: delivery_suspended_def merge_item_status active_not_suspended)
  moreover have "delivery_suspended (JObj (merge_item reset ?e d))"
    if "\<not> reset" "delivery_suspended (JObj ?e)"
    using that suspended_has_status [OF that(2)]
    by (simp add: delivery_suspended_def merge_item_status)
  ultimately show ?case
    using Cons.IH [OF r] k m merge_item_key [of reset ?e d] by (auto simp del: item_key.simps)
qed

theorem edit_resets_suspensions_iff_asked_witness:
  "\<exists>m. merge_target_runtime_metadata [[(''peer_id'', JInt 5), (''peer_type'', JStr ''user'')]]
         (t_targets (update_task_target_failure_metadata ''now'' 5 ''user'' None ''E'' ''m'' (Some ''gone'') two_peers))
         True = Some m \<and> (\<forall>d \<in> set m. \<not> delivery_suspended (JObj d))"
proof -
  have "case merge_target_runtime_metadata [[(''peer_id'', JInt 5), (''peer_type'', JStr ''user'')]]
      (t_targets (update_task_target_failure_metadata ''now'' 5 ''user'' None ''E'' ''m'' (Some ''gone'') two_peers))
      True of None \<Rightarrow> False | Some m \<Rightarrow> True"
    by code_simp
  then obtain m where "merge_target_runtime_metadata [[(''peer_id'', JInt 5), (''peer_type'', JStr ''user'')]]
      (t_targets (update_task_target_failure_metadata ''now'' 5 ''user'' None ''E'' ''m'' (Some ''gone'') two_peers))
      True = Some m"
    by (auto split: option.splits)
  from edit_resets_suspensions_iff_asked [OF this] this show ?thesis by auto
qed

end
