(* ===== verification/Panel.thy ===== *)
theory Panel
  imports Schema
begin

text \<open>
  The tables of the back office (\<open>database/schema/models.py\<close>): administrators and agents, roles
  and permissions, delegated credit, card batches, the fund ledger and the cards an agent has
  generated. Texts that are only displayed (names of roles and permissions, remarks of ledger
  entries) and the audit log are left out, except for the remark of a batch, which the code
  reads back. A \<open>card_row\<close> extends the \<open>card\<close> of the licensing service by the columns only
  the back office uses.
\<close>

section \<open>Tables\<close>

record admin =
  ad_id :: int
  ad_username :: string
  ad_password :: string
  ad_role :: string
  ad_type :: string
  ad_identity :: "string option"
  ad_province :: string
  ad_parent :: "int option"
  ad_root :: "int option"
  ad_depth :: int
  ad_status :: string
  ad_mode :: string
  ad_whitelisted :: bool
  ad_limit :: int
  ad_allocated :: int
  ad_used :: int
  ad_prepay :: int
  ad_balance :: int
  ad_force :: bool
  ad_name :: string
  ad_contact :: "string option"
  ad_phone :: "string option"
  ad_created_by :: "int option"

record role =
  ro_id :: int
  ro_key :: string
  ro_status :: string
  ro_system :: bool

record perm =
  pm_id :: int
  pm_code :: string
  pm_module :: string

record credit_row =
  cl_parent :: int
  cl_child :: int
  cl_limit :: int
  cl_used :: int
  cl_active :: bool
  cl_adjusted_by :: "int option"

record batch =
  ba_id :: string
  ba_province :: string
  ba_creator :: int
  ba_owner :: int
  ba_parent :: "int option"
  ba_root :: "int option"
  ba_liable :: "int option"
  ba_counter :: "int option"
  ba_plan :: string
  ba_quantity :: int
  ba_days :: int
  ba_price :: int
  ba_total :: int
  ba_settlement :: string
  ba_payment :: string
  ba_remark :: "string option"
  ba_created :: datetime

record ledger =
  le_scope :: string
  le_account :: int
  le_counter :: "int option"
  le_type :: string
  le_direction :: string
  le_amount :: int
  le_balance_after :: "int option"
  le_used_after :: "int option"
  le_batch :: "string option"
  le_request :: "string option"
  le_operator :: "int option"

record card_row = card +
  k_batch :: "string option"
  k_creator :: "int option"
  k_owner :: "int option"
  k_parent :: "int option"
  k_root :: "int option"
  k_price :: int
  k_source :: string
  k_copy :: string

record price_plan = plan +
  p_price :: int
  p_active :: bool

text \<open>
  \<open>random_code\<close> is the supply of the 16 random characters of a card code (\<open>secrets.choice\<close>),
  \<open>random_id\<close> the supply of \<open>uuid4\<close>; \<open>codes_drawn\<close> and \<open>ids_drawn\<close> count what was taken.
\<close>

record panel =
  admins :: "admin list"
  roles :: "role list"
  perms :: "perm list"
  role_perms :: "(int \<times> int) list"
  account_roles :: "(int \<times> int) list"
  credit_rows :: "credit_row list"
  batches :: "batch list"
  ledgers :: "ledger list"
  card_rows :: "card_row list"
  price_plans :: "price_plan list"
  random_id :: "nat \<Rightarrow> string"
  ids_drawn :: nat
  random_code :: "nat \<Rightarrow> string"
  codes_drawn :: nat
  next_admin :: int
  next_role :: int
  next_perm :: int
  next_card :: int

definition empty_panel :: "(nat \<Rightarrow> string) \<Rightarrow> (nat \<Rightarrow> string) \<Rightarrow> panel" where
  "empty_panel ids codes =
     \<lparr>admins = [], roles = [], perms = [], role_perms = [], account_roles = [], credit_rows = [],
      batches = [], ledgers = [], card_rows = [], price_plans = [], random_id = ids, ids_drawn = 0,
      random_code = codes, codes_drawn = 0, next_admin = 1, next_role = 1, next_perm = 1,
      next_card = 1\<rparr>"

section \<open>Rows by key\<close>

definition get_admin :: "int \<Rightarrow> panel \<Rightarrow> admin option" where
  "get_admin i p = find_row (\<lambda>a. ad_id a = i) (admins p)"

definition get_role :: "int \<Rightarrow> panel \<Rightarrow> role option" where
  "get_role i p = find_row (\<lambda>r. ro_id r = i) (roles p)"

definition role_of_key :: "string \<Rightarrow> panel \<Rightarrow> role option" where
  "role_of_key k p = find_row (\<lambda>r. ro_key r = k) (roles p)"

definition perm_of_code :: "string \<Rightarrow> panel \<Rightarrow> perm option" where
  "perm_of_code c p = find_row (\<lambda>m. pm_code m = c) (perms p)"

definition get_credit :: "int \<Rightarrow> int \<Rightarrow> panel \<Rightarrow> credit_row option" where
  "get_credit par child p = find_row (\<lambda>r. cl_parent r = par \<and> cl_child r = child) (credit_rows p)"

definition get_batch :: "string \<Rightarrow> panel \<Rightarrow> batch option" where
  "get_batch i p = find_row (\<lambda>b. ba_id b = i) (batches p)"

definition get_price_plan :: "string \<Rightarrow> panel \<Rightarrow> price_plan option" where
  "get_price_plan c p = find_row (\<lambda>x. p_code x = c) (price_plans p)"

definition upd_admin :: "int \<Rightarrow> (admin \<Rightarrow> admin) \<Rightarrow> panel \<Rightarrow> panel" where
  "upd_admin i f p = p\<lparr>admins := upd_where (\<lambda>a. ad_id a = i) f (admins p)\<rparr>"

definition upd_role :: "int \<Rightarrow> (role \<Rightarrow> role) \<Rightarrow> panel \<Rightarrow> panel" where
  "upd_role i f p = p\<lparr>roles := upd_where (\<lambda>r. ro_id r = i) f (roles p)\<rparr>"

definition upd_credit :: "int \<Rightarrow> int \<Rightarrow> (credit_row \<Rightarrow> credit_row) \<Rightarrow> panel \<Rightarrow> panel" where
  "upd_credit par child f p =
     p\<lparr>credit_rows := upd_where (\<lambda>r. cl_parent r = par \<and> cl_child r = child) f (credit_rows p)\<rparr>"

definition upd_batch :: "string \<Rightarrow> (batch \<Rightarrow> batch) \<Rightarrow> panel \<Rightarrow> panel" where
  "upd_batch i f p = p\<lparr>batches := upd_where (\<lambda>b. ba_id b = i) f (batches p)\<rparr>"

definition add_ledger :: "ledger \<Rightarrow> panel \<Rightarrow> panel" where
  "add_ledger l p = p\<lparr>ledgers := ledgers p @ [l]\<rparr>"

text \<open>A row object of the session: its current columns.\<close>

definition live :: "admin \<Rightarrow> panel \<Rightarrow> admin" where
  "live a p = (case get_admin (ad_id a) p of Some a' \<Rightarrow> a' | None \<Rightarrow> a)"

text \<open>A new account takes the next number.\<close>

definition add_admin :: "admin \<Rightarrow> panel \<Rightarrow> panel \<times> int" where
  "add_admin a p =
     (p\<lparr>admins := admins p @ [a\<lparr>ad_id := next_admin p\<rparr>], next_admin := next_admin p + 1\<rparr>, next_admin p)"

section \<open>Staff and agents\<close>

abbreviation super_admin :: string where "super_admin \<equiv> ''super_admin''"
abbreviation master_agent :: string where "master_agent \<equiv> ''master_agent''"
abbreviation sub_agent :: string where "sub_agent \<equiv> ''sub_agent''"

definition account_type :: "admin \<Rightarrow> string" where
  "account_type a =
     (let v = lower (strip (ad_type a))
      in if v \<in> {''staff'', ''agent''} then v
         else if lower (strip (ad_role a)) \<in> {master_agent, sub_agent} then ''agent'' else ''staff'')"

definition business_identity :: "admin \<Rightarrow> string option" where
  "business_identity a =
     (let v = lower (strip (str_or (ad_identity a) [])); r = lower (strip (ad_role a))
      in if v \<in> {master_agent, sub_agent} then Some v
         else if r = master_agent then Some master_agent
         else if r = sub_agent then Some sub_agent else None)"

definition is_staff :: "admin \<Rightarrow> bool" where
  "is_staff a \<longleftrightarrow> account_type a = ''staff''"

definition is_agent :: "admin \<Rightarrow> bool" where
  "is_agent a \<longleftrightarrow> account_type a = ''agent''"

definition is_master_agent :: "admin \<Rightarrow> bool" where
  "is_master_agent a \<longleftrightarrow> business_identity a = Some master_agent"

lemma agent_or_staff: "is_agent a \<longleftrightarrow> \<not> is_staff a"
  by (auto simp: is_agent_def is_staff_def account_type_def Let_def)

section \<open>Reads after writes\<close>

lemma get_admin_id: "get_admin i p = Some a \<Longrightarrow> ad_id a = i"
  by (auto simp: get_admin_def dest: find_row_Some)

lemma get_admin_in: "get_admin i p = Some a \<Longrightarrow> a \<in> set (admins p)"
  by (auto simp: get_admin_def dest: find_row_Some)

lemma get_admin_upd:
  assumes "\<And>a. ad_id (f a) = ad_id a"
  shows "get_admin i (upd_admin j f p) = (if i = j then map_option f (get_admin i p) else get_admin i p)"
proof (cases "i = j")
  case True
  then show ?thesis using assms by (simp add: get_admin_def upd_admin_def find_row_upd_key)
next
  case False
  then show ?thesis using assms by (auto simp: get_admin_def upd_admin_def intro!: find_row_upd_other)
qed

lemma get_credit_upd:
  assumes "\<And>r. cl_parent (f r) = cl_parent r" "\<And>r. cl_child (f r) = cl_child r"
  shows "get_credit x y (upd_credit x' y' f p) =
    (if x = x' \<and> y = y' then map_option f (get_credit x y p) else get_credit x y p)"
proof (cases "x = x' \<and> y = y'")
  case True
  then show ?thesis using assms by (simp add: get_credit_def upd_credit_def find_row_upd_key)
next
  case False
  then show ?thesis
    using assms by (auto simp: get_credit_def upd_credit_def intro!: find_row_upd_other)
qed

lemma get_batch_upd:
  assumes "\<And>b. ba_id (f b) = ba_id b"
  shows "get_batch i (upd_batch j f p) = (if i = j then map_option f (get_batch i p) else get_batch i p)"
proof (cases "i = j")
  case True
  then show ?thesis using assms by (simp add: get_batch_def upd_batch_def find_row_upd_key)
next
  case False
  then show ?thesis using assms by (auto simp: get_batch_def upd_batch_def intro!: find_row_upd_other)
qed

end
