(* ===== verification/Rbac.thy ===== *)
theory Rbac
  imports Panel
begin

text \<open>
  Roles and permissions of the back office (\<open>h5_backend/services/admin_rbac/service.py\<close>) and the
  permission checks of the routes (\<open>h5_backend/dependencies.py\<close>). The role and permission rows of
  an account are those of the database at the moment it is loaded with its bindings
  (\<open>get_current_admin_account\<close>). Display names and descriptions are left out.
\<close>

section \<open>Built-in permissions and roles\<close>

definition permission_definitions :: "(string \<times> string) list" where
  "permission_definitions =
    [(''dashboard.read'', ''dashboard''), (''system.stats.read'', ''system_stats''),
     (''security.read'', ''security''), (''security.update'', ''security''),
     (''agents.read'', ''agents''), (''agents.write'', ''agents''),
     (''agents.master.create'', ''agents''), (''agents.credit.master.write'', ''agents''),
     (''agents.child.create'', ''agents''), (''pricing.read'', ''pricing''),
     (''pricing.write'', ''pricing''), (''ledgers.read'', ''ledgers''),
     (''ledgers.scope.read'', ''ledgers''), (''operation_logs.read'', ''operation_logs''),
     (''operation_logs.scope.read'', ''operation_logs''), (''batches.read'', ''batches''),
     (''batches.generate'', ''batches''), (''batches.export'', ''batches''),
     (''batches.copy'', ''batches''), (''audit.system.read'', ''audit''),
     (''system.settings.read'', ''system_settings''), (''system.settings.update'', ''system_settings''),
     (''developer_apps.read'', ''developer_apps''), (''developer_apps.write'', ''developer_apps''),
     (''developer_apps.check'', ''developer_apps''), (''system_proxies.read'', ''system_proxies''),
     (''system_proxies.write'', ''system_proxies''), (''system_proxies.check'', ''system_proxies''),
     (''system_proxies.assign'', ''system_proxies''), (''legacy_cards.read'', ''legacy_cards''),
     (''legacy_cards.write'', ''legacy_cards''), (''legacy_cards.export'', ''legacy_cards''),
     (''users.read'', ''users''), (''users.write'', ''users''), (''users.reset_password'', ''users''),
     (''admin_accounts.read'', ''admin_accounts''), (''admin_accounts.write'', ''admin_accounts''),
     (''admin_accounts.reset_password'', ''admin_accounts''), (''rbac.roles.read'', ''rbac_roles''),
     (''rbac.roles.write'', ''rbac_roles''), (''rbac.permissions.read'', ''rbac_permissions'')]"

definition role_default_permission_codes :: "string \<Rightarrow> string list" where
  "role_default_permission_codes k =
     (if k = super_admin then map fst permission_definitions
      else if k = master_agent then
        [''dashboard.read'', ''security.read'', ''security.update'', ''agents.read'', ''agents.write'',
         ''agents.child.create'', ''pricing.read'', ''ledgers.read'', ''ledgers.scope.read'',
         ''operation_logs.read'', ''operation_logs.scope.read'', ''batches.read'', ''batches.generate'',
         ''batches.export'', ''batches.copy'']
      else if k = sub_agent then
        [''dashboard.read'', ''security.read'', ''security.update'', ''agents.read'', ''agents.write'',
         ''agents.child.create'', ''pricing.read'', ''ledgers.read'', ''operation_logs.read'',
         ''operation_logs.scope.read'', ''batches.read'', ''batches.generate'', ''batches.export'',
         ''batches.copy'']
      else [])"

definition system_roles :: "string list" where
  "system_roles = [super_admin, master_agent, sub_agent]"

section \<open>Role keys and permissions of an account\<close>

definition default_role_keys :: "admin \<Rightarrow> string list" where
  "default_role_keys a =
     (if lower (strip (ad_role a)) = super_admin then [super_admin] else [])
     @ (if business_identity a = Some master_agent then [master_agent]
        else if business_identity a = Some sub_agent then [sub_agent] else [])"

definition roles_bound_to :: "int \<Rightarrow> panel \<Rightarrow> role list" where
  "roles_bound_to i p =
     List.map_filter (\<lambda>(x, r). if x = i then get_role r p else None) (account_roles p)"

definition codes_bound_to :: "role \<Rightarrow> panel \<Rightarrow> string list" where
  "codes_bound_to r p =
     List.map_filter (\<lambda>(x, m). if x = ro_id r
        then map_option pm_code (find_row (\<lambda>q. pm_id q = m) (perms p)) else None) (role_perms p)"

definition active_roles_of :: "int \<Rightarrow> panel \<Rightarrow> role list" where
  "active_roles_of i p = filter (\<lambda>r. ro_status r = ''active'') (roles_bound_to i p)"

definition role_keys_for_account :: "admin \<Rightarrow> panel \<Rightarrow> string list" where
  "role_keys_for_account a p =
     (let ks = map ro_key (active_roles_of (ad_id a) p)
      in sort (remdups (if ks = [] then default_role_keys a else ks)))"

definition permission_codes_for_account :: "admin \<Rightarrow> panel \<Rightarrow> string list" where
  "permission_codes_for_account a p =
     (let cs = concat (map (\<lambda>r. codes_bound_to r p) (active_roles_of (ad_id a) p))
      in sort (remdups (if cs = [] then concat (map role_default_permission_codes (default_role_keys a)) else cs)))"

text \<open>The set of the codes asked for, without blanks.\<close>

definition code_set :: "string list \<Rightarrow> string list" where
  "code_set cs = sort (remdups (filter (\<lambda>c. c \<noteq> []) (map strip cs)))"

definition has_permission :: "admin \<Rightarrow> string list \<Rightarrow> panel \<Rightarrow> bool" where
  "has_permission a cs p = list_all (\<lambda>c. c \<in> set (permission_codes_for_account a p)) (code_set cs)"

definition is_super_admin :: "admin \<Rightarrow> panel \<Rightarrow> bool" where
  "is_super_admin a p = (super_admin \<in> set (role_keys_for_account a p))"

text \<open>\<open>get_current_admin\<close> after the token is decoded, and the route's permission check.\<close>

definition current_admin :: "int \<Rightarrow> panel \<Rightarrow> http_error + admin" where
  "current_admin i p =
     (case get_admin i p of
        None \<Rightarrow> Inl (Http 401 ''<invalid credentials>'')
      | Some a \<Rightarrow> if ad_status a \<noteq> ''active'' then Inl (Http 403 ''<account disabled>'') else Inr a)"

definition require_admin_permissions :: "string list \<Rightarrow> int \<Rightarrow> panel \<Rightarrow> http_error + admin" where
  "require_admin_permissions cs i p =
     and_then (current_admin i p) (\<lambda>a.
       if has_permission a cs p then Inr a else Inl (Http 403 ''<no access>''))"

section \<open>The built-in rows, re-established at start-up\<close>

definition ensure_permission :: "string \<times> string \<Rightarrow> panel \<Rightarrow> panel" where
  "ensure_permission cm p =
     (case perm_of_code (fst cm) p of
        None \<Rightarrow> p\<lparr>perms := perms p @ [\<lparr>pm_id = next_perm p, pm_code = fst cm, pm_module = snd cm\<rparr>],
                  next_perm := next_perm p + 1\<rparr>
      | Some m \<Rightarrow> p\<lparr>perms := upd_where (\<lambda>q. pm_id q = pm_id m) (\<lambda>q. q\<lparr>pm_module := snd cm\<rparr>) (perms p)\<rparr>)"

definition ensure_role_row :: "string \<Rightarrow> panel \<Rightarrow> panel \<times> int" where
  "ensure_role_row k p =
     (case role_of_key k p of
        None \<Rightarrow>
          (p\<lparr>roles := roles p @ [\<lparr>ro_id = next_role p, ro_key = k, ro_status = ''active'', ro_system = True\<rparr>],
             next_role := next_role p + 1\<rparr>, next_role p)
      | Some r \<Rightarrow> (upd_role (ro_id r) (\<lambda>q. q\<lparr>ro_status := ''active'', ro_system := True\<rparr>) p, ro_id r))"

text \<open>The bindings of a role become exactly the permissions given: others go, missing ones come.\<close>

definition set_role_perms :: "int \<Rightarrow> int list \<Rightarrow> panel \<Rightarrow> panel" where
  "set_role_perms r ms p =
     p\<lparr>role_perms := filter (\<lambda>(x, m). x = r \<longrightarrow> m \<in> set ms) (role_perms p)
        @ map (Pair r) (filter (\<lambda>m. (r, m) \<notin> set (role_perms p)) (remdups ms))\<rparr>"

definition ids_of_codes :: "string list \<Rightarrow> panel \<Rightarrow> int list" where
  "ids_of_codes cs p = List.map_filter (\<lambda>c. map_option pm_id (perm_of_code c p)) cs"

definition ensure_role :: "string \<Rightarrow> panel \<Rightarrow> panel" where
  "ensure_role k p =
     (let (p1, r) = ensure_role_row k p
      in set_role_perms r (ids_of_codes (role_default_permission_codes k) p1) p1)"

definition bind_account :: "int \<Rightarrow> int \<Rightarrow> panel \<Rightarrow> panel" where
  "bind_account i r p =
     (if (i, r) \<in> set (account_roles p) then p else p\<lparr>account_roles := account_roles p @ [(i, r)]\<rparr>)"

definition ensure_account :: "admin \<Rightarrow> panel \<Rightarrow> panel" where
  "ensure_account a p =
     fold (\<lambda>k q. case role_of_key k q of None \<Rightarrow> q | Some r \<Rightarrow> bind_account (ad_id a) (ro_id r) q)
       (default_role_keys a) p"

definition ensure_builtin_rbac :: "panel \<Rightarrow> panel" where
  "ensure_builtin_rbac p =
     (let p1 = fold ensure_permission permission_definitions p; p2 = fold ensure_role system_roles p1
      in fold ensure_account (admins p2) p2)"

section \<open>Managing roles\<close>

text \<open>\<open>re.sub(r"[^a-zA-Z0-9_]+", "_", s)\<close>: a run of other characters becomes one underscore.\<close>

definition key_char :: "char \<Rightarrow> bool" where
  "key_char c =
     (let n = code c in (97 \<le> n \<and> n \<le> 122) \<or> (65 \<le> n \<and> n \<le> 90) \<or> (48 \<le> n \<and> n \<le> 57) \<or> n = 95)"

fun squeeze :: "bool \<Rightarrow> string \<Rightarrow> string" where
  "squeeze inside [] = []"
| "squeeze inside (c # cs) =
     (if key_char c then c # squeeze False cs
      else if inside then squeeze True cs else CHR ''_'' # squeeze True cs)"

definition strip_underscores :: "string \<Rightarrow> string" where
  "strip_underscores s =
     rev (dropWhile (\<lambda>c. c = CHR ''_'') (rev (dropWhile (\<lambda>c. c = CHR ''_'') s)))"

definition slugify_role_key :: "string \<Rightarrow> string" where
  "slugify_role_key s = take 64 (lower (strip_underscores (squeeze False (strip s))))"

definition create_role :: "string \<Rightarrow> panel \<Rightarrow> http_error + panel \<times> role" where
  "create_role key p =
     (let k = slugify_role_key key
      in if k = [] then Inl (Http 400 ''<empty role key>'')
         else if role_of_key k p \<noteq> None then Inl (Http 409 ''<role key exists>'')
         else let r = \<lparr>ro_id = next_role p, ro_key = k, ro_status = ''active'', ro_system = False\<rparr>
              in Inr (p\<lparr>roles := roles p @ [r], next_role := next_role p + 1\<rparr>, r))"

definition update_role :: "int \<Rightarrow> string option \<Rightarrow> panel \<Rightarrow> http_error + panel" where
  "update_role i status p =
     (case get_role i p of
        None \<Rightarrow> Inl (Http 404 ''<role not found>'')
      | Some r \<Rightarrow>
          (case status of
             None \<Rightarrow> Inr p
           | Some s \<Rightarrow>
               if lower (strip s) \<notin> {''active'', ''disabled''} then Inl (Http 400 ''<invalid role status>'')
               else Inr (upd_role i (\<lambda>q. q\<lparr>ro_status := lower (strip s)\<rparr>) p)))"

definition update_role_permissions :: "int \<Rightarrow> string list \<Rightarrow> panel \<Rightarrow> http_error + panel" where
  "update_role_permissions i cs p =
     (let ks = code_set cs
      in case get_role i p of
           None \<Rightarrow> Inl (Http 404 ''<role not found>'')
         | Some r \<Rightarrow>
             if list_ex (\<lambda>c. perm_of_code c p = None) ks then Inl (Http 400 ''<unknown permission>'')
             else Inr (set_role_perms i (ids_of_codes ks p) p))"

section \<open>Accounts of the staff\<close>

definition ids_of_keys :: "string list \<Rightarrow> panel \<Rightarrow> int list" where
  "ids_of_keys ks p = List.map_filter (\<lambda>k. map_option ro_id (role_of_key k p)) ks"

definition username_taken :: "string \<Rightarrow> panel \<Rightarrow> bool" where
  "username_taken u p = list_ex (\<lambda>a. ad_username a = strip u) (admins p)"

text \<open>
  \<open>hash\<close> is the value of \<open>get_password_hash\<close>; \<open>empty_account\<close> a row with the defaults of the table.
\<close>

definition empty_account :: admin where
  "empty_account =
     \<lparr>ad_id = 0, ad_username = [], ad_password = [], ad_role = [], ad_type = ''staff'', ad_identity = None,
      ad_province = [], ad_parent = None, ad_root = None, ad_depth = 0, ad_status = ''active'',
      ad_mode = ''prepaid'', ad_whitelisted = False, ad_limit = 0, ad_allocated = 0, ad_used = 0,
      ad_prepay = 0, ad_balance = 0, ad_force = False, ad_name = [], ad_contact = None, ad_phone = None,
      ad_created_by = None\<rparr>"

definition or_default :: "string \<Rightarrow> string \<Rightarrow> string" where
  "or_default s d = (if strip s = [] then strip d else strip s)"

definition stripped :: "string option \<Rightarrow> string option" where
  "stripped s = opt_str (strip (str_or s []))"

definition create_admin_account ::
  "admin \<Rightarrow> string \<Rightarrow> string \<Rightarrow> string \<Rightarrow> string \<Rightarrow> string list \<Rightarrow> string \<Rightarrow> string option \<Rightarrow> string option
     \<Rightarrow> string option \<Rightarrow> panel \<Rightarrow> http_error + panel \<times> int" where
  "create_admin_account actor user pw hash disp ks ty ident contact phone p =
     (let keys = code_set ks; t = lower (strip ty)
      in if length pw < 6 then Inl (Http 400 ''<password too short>'')
         else if (if t = [] then ''staff'' else t) \<noteq> ''staff'' then Inl (Http 400 ''<staff accounts only>'')
         else if lower (strip (str_or ident [])) \<noteq> [] then Inl (Http 400 ''<no business identity>'')
         else if keys = [] then Inl (Http 400 ''<no role>'')
         else if username_taken user p then Inl (Http 409 ''<username exists>'')
         else
           let (p1, i) = add_admin (empty_account\<lparr>ad_username := strip user, ad_password := hash,
                 ad_role := ''staff'', ad_province := ad_province actor, ad_force := True,
                 ad_name := or_default disp user, ad_contact := stripped contact, ad_phone := stripped phone,
                 ad_created_by := Some (ad_id actor)\<rparr>) p
           in if list_ex (\<lambda>k. role_of_key k p1 = None) keys then Inl (Http 400 ''<unknown role>'')
              else Inr (p1\<lparr>account_roles := account_roles p1 @ map (Pair i) (ids_of_keys keys p1)\<rparr>, i))"

definition edit_profile ::
  "string option \<Rightarrow> string option \<Rightarrow> string option \<Rightarrow> admin \<Rightarrow> admin" where
  "edit_profile disp contact phone a =
     a\<lparr>ad_name := (case disp of None \<Rightarrow> ad_name a
                    | Some d \<Rightarrow> if strip d = [] then ad_name a else strip d),
       ad_contact := (case contact of None \<Rightarrow> ad_contact a | Some c \<Rightarrow> opt_str (strip c)),
       ad_phone := (case phone of None \<Rightarrow> ad_phone a | Some c \<Rightarrow> opt_str (strip c))\<rparr>"

definition update_admin_account ::
  "int \<Rightarrow> string option \<Rightarrow> string option \<Rightarrow> string option \<Rightarrow> string option \<Rightarrow> panel \<Rightarrow> http_error + panel" where
  "update_admin_account i disp contact phone status p =
     (case get_admin i p of
        None \<Rightarrow> Inl (Http 404 ''<account not found>'')
      | Some a \<Rightarrow>
          (case status of
             None \<Rightarrow> Inr (upd_admin i (edit_profile disp contact phone) p)
           | Some s \<Rightarrow>
               if lower (strip s) \<notin> {''active'', ''disabled''} then Inl (Http 400 ''<invalid account status>'')
               else Inr (upd_admin i (\<lambda>a. (edit_profile disp contact phone a)\<lparr>ad_status := lower (strip s)\<rparr>) p)))"

definition update_admin_account_roles :: "int \<Rightarrow> string list \<Rightarrow> panel \<Rightarrow> http_error + panel" where
  "update_admin_account_roles i ks p =
     (let keys = code_set ks
      in if keys = [] then Inl (Http 400 ''<keep at least one role>'')
         else case get_admin i p of
           None \<Rightarrow> Inl (Http 404 ''<account not found>'')
         | Some a \<Rightarrow>
             if list_ex (\<lambda>k. role_of_key k p = None) keys then Inl (Http 400 ''<unknown role>'')
             else let rs = ids_of_keys keys p
                  in Inr (p\<lparr>account_roles := filter (\<lambda>(x, r). x = i \<longrightarrow> r \<in> set rs) (account_roles p)
                       @ map (Pair i) (filter (\<lambda>r. (i, r) \<notin> set (account_roles p)) rs)\<rparr>))"

definition reset_admin_account_password :: "int \<Rightarrow> string \<Rightarrow> string \<Rightarrow> panel \<Rightarrow> http_error + panel" where
  "reset_admin_account_password i pw hash p =
     (if length pw < 6 then Inl (Http 400 ''<password too short>'')
      else case get_admin i p of
        None \<Rightarrow> Inl (Http 404 ''<account not found>'')
      | Some a \<Rightarrow> Inr (upd_admin i (\<lambda>a. a\<lparr>ad_password := hash, ad_force := True\<rparr>) p))"

text \<open>\<open>ensure_bootstrap_super_admin\<close> (\<open>admin_auth/service.py\<close>) with the settings of the installation.\<close>

definition bootstrap_super_admin :: "string \<Rightarrow> string \<Rightarrow> string \<Rightarrow> string \<Rightarrow> string \<Rightarrow> panel \<Rightarrow> panel" where
  "bootstrap_super_admin username password hash display province p =
     (let user = strip username; pw = strip password;
          disp = strip (if display \<noteq> [] then display else if user \<noteq> [] then user else ''<super admin>'')
      in if list_ex (\<lambda>a. (ad_role a = super_admin
              \<or> list_ex (\<lambda>r. ro_key r = super_admin) (roles_bound_to (ad_id a) p))
            \<and> ad_province a = province \<and> ad_status a = ''active'') (admins p) then p
         else if user = [] \<or> pw = [] then p
         else if length pw < 6 then p
         else if list_ex (\<lambda>a. ad_username a = user) (admins p) then p
         else fst (add_admin (empty_account\<lparr>ad_username := user, ad_password := hash, ad_role := super_admin,
                ad_province := province, ad_whitelisted := True, ad_force := True, ad_name := disp\<rparr>) p))"

end
