(* ===== verification/Hierarchy.thy ===== *)
theory Hierarchy
  imports Rbac
begin

text \<open>
  The tree of agents (\<open>h5_backend/services/admin_panel/agent_service.py\<close>,
  \<open>shared_helpers.py\<close>): which accounts an administrator sees, the creation of master agents
  and of their subordinates, and the settings of an agent's credit. The search for the
  descendants goes level by level through the parent column; a corrupted, cyclic parent
  column does not keep it from ending.
\<close>

section \<open>Visible accounts\<close>

definition children_of :: "int list \<Rightarrow> panel \<Rightarrow> int list" where
  "children_of ids p =
     map ad_id (filter (\<lambda>a. case ad_parent a of None \<Rightarrow> False | Some q \<Rightarrow> q \<in> set ids) (admins p))"

definition admin_ids :: "panel \<Rightarrow> int set" where
  "admin_ids p = ad_id ` set (admins p)"

lemma finite_admin_ids [simp]: "finite (admin_ids p)"
  by (simp add: admin_ids_def)

lemma children_are_accounts: "set (children_of ids p) \<subseteq> admin_ids p"
  by (auto simp: children_of_def admin_ids_def)

text \<open>\<open>visited\<close> in the order of discovery; the next level is what the last one has found.\<close>

function descend :: "panel \<Rightarrow> int list \<Rightarrow> int list \<Rightarrow> int list" where
  "descend p pending visited =
     (if pending = [] then visited
      else let found = remdups (filter (\<lambda>c. c \<notin> set visited) (children_of pending p))
           in descend p found (visited @ found))"
  by auto

termination
proof (relation "measure (\<lambda>(p, pending, visited).
    2 * card (admin_ids p - set visited) + (if pending = [] then 0 else 1))")
  fix p :: panel and pending visited found :: "int list"
  assume pending: "pending \<noteq> []"
    and found: "found = remdups (filter (\<lambda>c. c \<notin> set visited) (children_of pending p))"
  show "((p, found, visited @ found), (p, pending, visited))
    \<in> measure (\<lambda>(p, pending, visited). 2 * card (admin_ids p - set visited) + (if pending = [] then 0 else 1))"
  proof (cases "found = []")
    case True
    then show ?thesis using pending by simp
  next
    case False
    then obtain x where x: "x \<in> set found" by (cases found) auto
    have "x \<in> admin_ids p - set visited" using x children_are_accounts by (auto simp: found)
    moreover have "admin_ids p - set (visited @ found) \<subseteq> admin_ids p - set visited" by auto
    ultimately have "admin_ids p - set (visited @ found) \<subset> admin_ids p - set visited" using x by auto
    then have "card (admin_ids p - set (visited @ found)) < card (admin_ids p - set visited)"
      by (intro psubset_card_mono) simp_all
    then show ?thesis using pending False by simp
  qed
qed simp

declare descend.simps [simp del]

definition list_descendant_ids :: "int \<Rightarrow> panel \<Rightarrow> int list" where
  "list_descendant_ids i p = sort (descend p [i] [])"

definition visible_account_ids :: "admin \<Rightarrow> panel \<Rightarrow> int list" where
  "visible_account_ids a p =
     (if is_staff a then map ad_id (filter (\<lambda>x. ad_province x = ad_province a) (admins p))
      else ad_id a # list_descendant_ids (ad_id a) p)"

definition ensure_visible_account :: "admin \<Rightarrow> int \<Rightarrow> panel \<Rightarrow> http_error + admin" where
  "ensure_visible_account a i p =
     (case get_admin i p of
        None \<Rightarrow> Inl (Http 404 ''<account not found>'')
      | Some t \<Rightarrow>
          if is_staff a then
            (if ad_province t \<noteq> ad_province a then Inl (Http 403 ''<other province>'') else Inr t)
          else if ad_id t \<notin> set (visible_account_ids a p) then Inl (Http 403 ''<no access to account>'')
          else Inr t)"

section \<open>New agents\<close>

definition bind_default_role :: "int \<Rightarrow> string \<Rightarrow> panel \<Rightarrow> panel" where
  "bind_default_role i k p =
     (case role_of_key k p of None \<Rightarrow> p
      | Some r \<Rightarrow> p\<lparr>account_roles := account_roles p @ [(i, ro_id r)]\<rparr>)"

definition create_master_agent ::
  "admin \<Rightarrow> string \<Rightarrow> string \<Rightarrow> string \<Rightarrow> string \<Rightarrow> int \<Rightarrow> bool \<Rightarrow> string option \<Rightarrow> string option \<Rightarrow> panel
     \<Rightarrow> http_error + panel \<times> int" where
  "create_master_agent ca user pw hash disp credit white contact phone p =
     (if \<not> has_permission ca [''agents.master.create''] p then Inl (Http 403 ''<super admin only>'')
      else if length pw < 6 then Inl (Http 400 ''<password too short>'')
      else if list_ex (\<lambda>a. ad_type a = ''agent'' \<and> ad_identity a = Some master_agent
                \<and> ad_province a = ad_province ca \<and> ad_status a = ''active'') (admins p)
      then Inl (Http 409 ''<master agent exists>'')
      else if username_taken user p then Inl (Http 409 ''<username exists>'')
      else
        let (p1, i) = add_admin (empty_account\<lparr>ad_username := strip user, ad_password := hash,
              ad_role := master_agent, ad_type := ''agent'', ad_identity := Some master_agent,
              ad_province := ad_province ca, ad_whitelisted := white, ad_limit := credit,
              ad_name := or_default disp user, ad_contact := stripped contact, ad_phone := stripped phone,
              ad_force := True, ad_created_by := Some (ad_id ca)\<rparr>) p;
            p2 = upd_admin i (\<lambda>a. a\<lparr>ad_root := Some i\<rparr>) p1
        in Inr (bind_default_role i master_agent p2, i))"

text \<open>\<open>int(account.root_master_account_id or account.id)\<close>\<close>

definition root_of :: "admin \<Rightarrow> int" where
  "root_of a = int_or (ad_root a) (ad_id a)"

definition create_child_agent ::
  "admin \<Rightarrow> string \<Rightarrow> string \<Rightarrow> string \<Rightarrow> string \<Rightarrow> int \<Rightarrow> string option \<Rightarrow> string option \<Rightarrow> panel
     \<Rightarrow> http_error + panel \<times> int" where
  "create_child_agent ca user hash disp mode credit contact phone p =
     (if \<not> is_agent ca \<or> business_identity ca = None then Inl (Http 403 ''<no subordinates>'')
      else case get_admin (ad_id ca) p of
        None \<Rightarrow> Inl unhandled
      | Some par \<Rightarrow>
          if username_taken user p then Inl (Http 409 ''<username exists>'')
          else
            let (p1, i) = add_admin (empty_account\<lparr>ad_username := strip user, ad_password := hash,
                  ad_role := sub_agent, ad_type := ''agent'', ad_identity := Some sub_agent,
                  ad_province := ad_province par, ad_parent := Some (ad_id par), ad_root := Some (root_of par),
                  ad_depth := ad_depth par + 1,
                  ad_mode := (if strip mode = [] then ''prepaid'' else strip mode),
                  ad_limit := credit, ad_name := or_default disp user, ad_contact := stripped contact,
                  ad_phone := stripped phone, ad_force := True, ad_created_by := Some (ad_id par)\<rparr>) p;
                p2 = bind_default_role i sub_agent p1;
                allocated = ad_allocated par + credit
            in if ad_limit par < allocated then Inl (Http 400 ''<allocated credit exceeds the limit>'')
               else
                 let p3 = upd_admin (ad_id par) (\<lambda>a. a\<lparr>ad_allocated := allocated\<rparr>) p2
                 in Inr (p3\<lparr>credit_rows := credit_rows p3 @
                      [\<lparr>cl_parent = ad_id par, cl_child = i, cl_limit = credit, cl_used = 0, cl_active = True,
                        cl_adjusted_by = Some (ad_id par)\<rparr>]\<rparr>, i))"

section \<open>Credit settings\<close>

definition set_master_credit_limit :: "admin \<Rightarrow> int \<Rightarrow> int \<Rightarrow> bool option \<Rightarrow> panel \<Rightarrow> http_error + panel" where
  "set_master_credit_limit ca i credit white p =
     (if \<not> has_permission ca [''agents.credit.master.write''] p then Inl (Http 403 ''<super admin only>'')
      else and_then (ensure_visible_account ca i p) (\<lambda>t.
        if \<not> is_master_agent t then Inl (Http 400 ''<master agents only>'')
        else if credit < ad_allocated t then Inl (Http 400 ''<allocated credit exceeds the new limit>'')
        else Inr (upd_admin i (\<lambda>a. a\<lparr>ad_limit := credit,
               ad_whitelisted := (case white of None \<Rightarrow> ad_whitelisted a | Some w \<Rightarrow> w)\<rparr>) p)))"

definition set_credit_whitelist :: "admin \<Rightarrow> int \<Rightarrow> bool \<Rightarrow> panel \<Rightarrow> http_error + panel" where
  "set_credit_whitelist ca i white p =
     (if \<not> has_permission ca [''agents.credit.master.write''] p then Inl (Http 403 ''<super admin only>'')
      else and_then (ensure_visible_account ca i p) (\<lambda>t.
        Inr (upd_admin i (\<lambda>a. a\<lparr>ad_whitelisted := white\<rparr>) p)))"

definition set_settlement_mode :: "admin \<Rightarrow> int \<Rightarrow> string \<Rightarrow> panel \<Rightarrow> http_error + panel" where
  "set_settlement_mode ca i mode p =
     (if mode \<notin> {''prepaid'', ''credit'', ''hybrid''} then Inl (Http 400 ''<unknown settlement mode>'')
      else and_then (ensure_visible_account ca i p) (\<lambda>t.
        if \<not> is_agent t then Inl (Http 400 ''<agents only>'')
        else if ad_id t = ad_id ca \<and> \<not> is_staff ca then Inl (Http 400 ''<not the own mode>'')
        else if \<not> is_staff ca \<and> ad_parent t \<noteq> Some (ad_id ca)
                \<and> \<not> (is_master_agent ca \<and> ad_root t = Some (ad_id ca))
        then Inl (Http 403 ''<not a subordinate>'')
        else Inr (upd_admin i (\<lambda>a. a\<lparr>ad_mode := mode\<rparr>) p)))"

end
