(* ===== verification/Batches.thy ===== *)
theory Batches
  imports Hierarchy
begin

text \<open>
  Card batches, their funding and settlement (\<open>h5_backend/services/admin_panel/batch_service.py\<close>,
  \<open>h5_backend/services/shared/card_utils.py\<close>) and the recharge of an agent
  (\<open>ledger_service.py\<close>). A batch is paid from the balance or on credit. Credit is booked on every
  agent of the chain above the operator and on the master agent at its top; the debt of a batch
  starts at its owner and moves one level up with each settlement, until the master agent has
  settled with the platform. An operation works on the row objects of its session, so every
  read sees the writes before it (\<open>live\<close>); one that raises leaves the database as it was. The
  numbers of new batches and settlement requests (\<open>uuid4\<close>) come from \<open>random_id\<close>; of two calls
  no request number is kept apart, as nothing reads it.
\<close>

section \<open>Input of a batch\<close>

definition normalize_batch_inputs ::
  "int \<Rightarrow> string \<Rightarrow> int option \<Rightarrow> datetime \<Rightarrow> http_error + int \<times> string \<times> datetime option" where
  "normalize_batch_inputs quantity prefix valid_days now =
     (if quantity \<le> 0 \<or> 500 < quantity then Inl (Http 400 ''<quantity>'')
      else let pre = upper (strip prefix)
           in if 20 < length pre then Inl (Http 400 ''<prefix>'')
              else case valid_days of
                None \<Rightarrow> Inr (quantity, pre, None)
              | Some n \<Rightarrow> if n \<le> 0 then Inl (Http 400 ''<valid_days>'')
                          else Inr (quantity, pre, Some (now + days n)))"

record quote =
  q_plan :: price_plan
  q_quantity :: int
  q_prefix :: string
  q_expires :: "datetime option"
  q_days :: int
  q_parent :: "int option"
  q_price :: int
  q_total :: int
  q_root :: admin

definition prepare_batch_quote ::
  "admin \<Rightarrow> string \<Rightarrow> int \<Rightarrow> string \<Rightarrow> int option \<Rightarrow> datetime \<Rightarrow> panel \<Rightarrow> http_error + quote" where
  "prepare_batch_quote a plan_code quantity prefix valid_days now p =
     and_then (normalize_batch_inputs quantity prefix valid_days now) (\<lambda>(n, pre, expires).
       case get_price_plan (strip plan_code) p of
         None \<Rightarrow> Inl (Http 404 ''<plan not found>'')
       | Some pl \<Rightarrow>
           if \<not> p_active pl then Inl (Http 404 ''<plan not found>'')
           else if p_price pl \<le> 0 then Inl (Http 400 ''<plan without price>'')
           else case get_admin (root_of a) p of
             None \<Rightarrow> Inl (Http 400 ''<no master agent>'')
           | Some root \<Rightarrow>
               Inr \<lparr>q_plan = pl, q_quantity = n, q_prefix = pre, q_expires = expires, q_days = p_days pl,
                    q_parent = ad_parent a, q_price = p_price pl, q_total = p_price pl * n, q_root = root\<rparr>)"

section \<open>Credit\<close>

definition remaining_credit :: "admin \<Rightarrow> int" where
  "remaining_credit a = max 0 (ad_limit a - ad_used a)"

definition ensure_credit_mode_allowed :: "admin \<Rightarrow> http_error + unit" where
  "ensure_credit_mode_allowed a =
     (if ad_mode a \<notin> {''credit'', ''hybrid''} then Inl (Http 400 ''<no credit mode>'')
      else if \<not> ad_whitelisted a then Inl (Http 400 ''<not whitelisted>'')
      else Inr ())"

text \<open>
  The links from an agent up to the top. \<open>visited\<close> turns a cyclic parent column into an error.
\<close>

function collect_credit_chain ::
  "panel \<Rightarrow> admin \<Rightarrow> int list \<Rightarrow> http_error + (admin \<times> admin \<times> credit_row) list" where
  "collect_credit_chain p cur visited =
     (case ad_parent cur of
        None \<Rightarrow> Inr []
      | Some q \<Rightarrow>
          if ad_id cur \<in> set visited then Inl (Http 500 ''<cyclic hierarchy>'')
          else case get_admin q p of
            None \<Rightarrow> Inl (Http 400 ''<no parent account>'')
          | Some par \<Rightarrow>
              (case get_credit (ad_id par) (ad_id cur) p of
                 None \<Rightarrow> Inl (Http 400 ''<no credit on the chain>'')
               | Some row \<Rightarrow>
                   if \<not> cl_active row then Inl (Http 400 ''<no credit on the chain>'')
                   else and_then (collect_credit_chain p par (ad_id cur # visited))
                          (\<lambda>links. Inr ((cur, par, row) # links))))"
  by auto

termination
proof (relation "measure (\<lambda>(p, cur, visited).
    2 * card (admin_ids p - set visited) + (if ad_id cur \<in> admin_ids p then 0 else 1))")
  fix p and cur par :: admin and visited q row
  assume "ad_parent cur = Some q" and new: "ad_id cur \<notin> set visited" and par: "get_admin q p = Some par"
  have in_p: "ad_id par \<in> admin_ids p" using get_admin_in [OF par] by (simp add: admin_ids_def)
  have "2 * card (admin_ids p - set (ad_id cur # visited))
      < 2 * card (admin_ids p - set visited) + (if ad_id cur \<in> admin_ids p then 0 else 1)"
  proof (cases "ad_id cur \<in> admin_ids p")
    case True
    then have "admin_ids p - set (ad_id cur # visited) \<subset> admin_ids p - set visited" using new by auto
    then have "card (admin_ids p - set (ad_id cur # visited)) < card (admin_ids p - set visited)"
      by (intro psubset_card_mono) simp_all
    then show ?thesis using True by simp
  next
    case False
    then have "admin_ids p - set (ad_id cur # visited) = admin_ids p - set visited" by auto
    then show ?thesis using False by simp
  qed
  then show "((p, par, ad_id cur # visited), (p, cur, visited))
    \<in> measure (\<lambda>(p, cur, visited). 2 * card (admin_ids p - set visited) + (if ad_id cur \<in> admin_ids p then 0 else 1))"
    using in_p by simp
qed simp

declare collect_credit_chain.simps [simp del]

definition validate_credit_generation ::
  "admin \<Rightarrow> admin \<Rightarrow> int \<Rightarrow> panel \<Rightarrow> http_error + (admin \<times> admin \<times> credit_row) list" where
  "validate_credit_generation op root amount p =
     (if amount \<le> 0 then Inl (Http 400 ''<amount>'')
      else and_then (ensure_credit_mode_allowed op) (\<lambda>_.
        and_then (collect_credit_chain p op []) (\<lambda>links.
          if list_ex (\<lambda>(child, par, row). cl_limit row - cl_used row < amount) links
          then Inl (Http 400 ''<credit of an agent exhausted>'')
          else if remaining_credit root < amount then Inl (Http 400 ''<credit of the master agent exhausted>'')
          else Inr links)))"

section \<open>Cards\<close>

definition generate_card_code :: "string \<Rightarrow> string \<Rightarrow> string" where
  "generate_card_code prefix random = upper (strip prefix) @ random"

text \<open>The first codes: at most 20 draws per card. Then, while some are already in use, new ones.\<close>

fun draw_codes :: "nat \<Rightarrow> (nat \<Rightarrow> string) \<Rightarrow> string \<Rightarrow> nat \<Rightarrow> string list \<Rightarrow> nat \<Rightarrow> string list \<times> nat" where
  "draw_codes 0 supply prefix quantity codes n = (codes, n)"
| "draw_codes (Suc attempts) supply prefix quantity codes n =
     (if length codes < quantity
      then draw_codes attempts supply prefix quantity
             (List.insert (generate_card_code prefix (supply n)) codes) (Suc n)
      else (codes, n))"

partial_function (option) top_up ::
  "(nat \<Rightarrow> string) \<Rightarrow> string \<Rightarrow> nat \<Rightarrow> string list \<Rightarrow> nat \<Rightarrow> (string list \<times> nat) option" where
  "top_up supply prefix quantity codes n =
     (if length codes < quantity
      then top_up supply prefix quantity (List.insert (generate_card_code prefix (supply n)) codes) (Suc n)
      else Some (codes, n))"

partial_function (option) avoid_existing ::
  "string list \<Rightarrow> (nat \<Rightarrow> string) \<Rightarrow> string \<Rightarrow> nat \<Rightarrow> string list \<Rightarrow> nat \<Rightarrow> (string list \<times> nat) option" where
  "avoid_existing existing supply prefix quantity codes n =
     (if list_all (\<lambda>c. c \<notin> set existing) codes then Some (codes, n)
      else Option.bind (top_up supply prefix quantity (filter (\<lambda>c. c \<notin> set existing) codes) n)
             (\<lambda>(codes', n'). avoid_existing existing supply prefix quantity codes' n'))"

declare top_up.simps [code] avoid_existing.simps [code]

text \<open>\<open>None\<close>: the search for free codes never ends.\<close>

definition choose_codes :: "string \<Rightarrow> nat \<Rightarrow> panel \<Rightarrow> (http_error + string list \<times> nat) option" where
  "choose_codes prefix quantity p =
     (let (codes, n) = draw_codes (quantity * 20) (random_code p) prefix quantity [] (codes_drawn p)
      in if length codes < quantity then Some (Inl (Http 500 ''<no codes>''))
         else map_option Inr
                (avoid_existing (map k_code (card_rows p)) (random_code p) prefix quantity codes n))"

definition number_cards :: "card_row list \<Rightarrow> panel \<Rightarrow> panel" where
  "number_cards ks p =
     p\<lparr>card_rows := card_rows p @ map (\<lambda>(i, k). k\<lparr>k_id := i\<rparr>) (zip (map (\<lambda>j. next_card p + int j) [0..<length ks]) ks),
       next_card := next_card p + int (length ks)\<rparr>"

definition new_card :: "quote \<Rightarrow> admin \<Rightarrow> string \<Rightarrow> string \<Rightarrow> datetime \<Rightarrow> string \<Rightarrow> card_row" where
  "new_card q op bid source now c =
     \<lparr>k_id = 0, k_code = c, k_plan = Some (p_code (q_plan q)), k_days = Some (q_days q), k_active = True,
      k_used = False, k_expires_at = q_expires q, k_used_by = None, k_used_at = None, k_created_at = Some now,
      k_batch = Some bid, k_creator = Some (ad_id op), k_owner = Some (ad_id op), k_parent = q_parent q,
      k_root = Some (ad_id (q_root q)), k_price = q_price q, k_source = source, k_copy = ''new''\<rparr>"

definition new_batch :: "quote \<Rightarrow> admin \<Rightarrow> string \<Rightarrow> string \<Rightarrow> string \<Rightarrow> string \<Rightarrow> string \<Rightarrow> datetime \<Rightarrow> batch" where
  "new_batch q op province settlement payment remark bid now =
     \<lparr>ba_id = bid, ba_province = (if ad_province op \<noteq> [] then ad_province op else province),
      ba_creator = ad_id op, ba_owner = ad_id op, ba_parent = q_parent q, ba_root = Some (ad_id (q_root q)),
      ba_liable = (if payment = ''credit'' then Some (ad_id op) else None),
      ba_counter = (if payment = ''credit'' then q_parent q else None),
      ba_plan = p_code (q_plan q), ba_quantity = q_quantity q, ba_days = q_days q, ba_price = q_price q,
      ba_total = q_total q, ba_settlement = settlement, ba_payment = payment, ba_remark = Some remark,
      ba_created = now\<rparr>"

text \<open>A batch number that is taken violates the primary key.\<close>

definition create_batch_records ::
  "quote \<Rightarrow> admin \<Rightarrow> string \<Rightarrow> string \<Rightarrow> string \<Rightarrow> string \<Rightarrow> string \<Rightarrow> datetime \<Rightarrow> panel
     \<Rightarrow> (http_error + panel \<times> batch) option" where
  "create_batch_records q op province settlement payment source remark now p =
     (let b = new_batch q op province settlement payment remark (random_id p (ids_drawn p)) now;
          p1 = p\<lparr>batches := batches p @ [b], ids_drawn := Suc (ids_drawn p)\<rparr>
      in if get_batch (ba_id b) p \<noteq> None then Some (Inl unhandled)
         else map_option (\<lambda>r. and_then r (\<lambda>(codes, n).
           Inr (number_cards (map (new_card q op (ba_id b) source now) (sort codes)) (p1\<lparr>codes_drawn := n\<rparr>), b)))
           (choose_codes (q_prefix q) (nat (q_quantity q)) p1))"

section \<open>Booking a batch\<close>

definition entry ::
  "string \<Rightarrow> admin \<Rightarrow> int option \<Rightarrow> string \<Rightarrow> string \<Rightarrow> int \<Rightarrow> string option \<Rightarrow> string option \<Rightarrow> int \<Rightarrow> ledger" where
  "entry scope a counter ty dir amount bid req op =
     \<lparr>le_scope = scope, le_account = ad_id a, le_counter = counter, le_type = ty, le_direction = dir,
      le_amount = amount, le_balance_after = Some (ad_balance a), le_used_after = Some (ad_used a),
      le_batch = bid, le_request = req, le_operator = Some op\<rparr>"

definition apply_balance_generation :: "admin \<Rightarrow> int \<Rightarrow> panel \<Rightarrow> http_error + panel" where
  "apply_balance_generation op amount p =
     (if ad_balance op < amount then Inl (Http 400 ''<balance too low>'')
      else Inr (upd_admin (ad_id op) (\<lambda>a. a\<lparr>ad_balance := ad_balance a - amount\<rparr>) p))"

text \<open>A debt of \<open>amount\<close> more: on one link of the chain, and on the master agent.\<close>

definition use_credit :: "admin \<Rightarrow> int \<Rightarrow> panel \<Rightarrow> panel" where
  "use_credit a amount p = upd_admin (ad_id a) (\<lambda>a. a\<lparr>ad_used := ad_used a + amount\<rparr>) p"

definition book_link :: "int \<Rightarrow> string \<Rightarrow> int \<Rightarrow> admin \<times> admin \<times> credit_row \<Rightarrow> panel \<Rightarrow> panel" where
  "book_link amount bid op link p =
     (case link of (child, par, row) \<Rightarrow>
        let p1 = upd_credit (cl_parent row) (cl_child row) (\<lambda>r. r\<lparr>cl_used := cl_used r + amount\<rparr>) p;
            p2 = use_credit child amount p1
        in add_ledger (entry ''channel'' (live child p2) (Some (ad_id par)) ''credit_generate'' ''out''
             amount (Some bid) None op) p2)"

definition apply_credit_generation ::
  "(admin \<times> admin \<times> credit_row) list \<Rightarrow> admin \<Rightarrow> admin \<Rightarrow> int \<Rightarrow> string \<Rightarrow> panel \<Rightarrow> panel" where
  "apply_credit_generation links root op amount bid p =
     (let p1 = fold (book_link amount bid (ad_id op)) links p; p2 = use_credit root amount p1
      in add_ledger (entry ''platform'' (live root p2)
           (if ad_id root \<noteq> ad_id op then Some (ad_id op) else None) ''credit_generate'' ''out''
           amount (Some bid) None (ad_id op)) p2)"

text \<open>How a batch is funded: payment, settlement, source of the cards and the chain of a credit.\<close>

type_synonym funding = "string \<times> string \<times> string \<times> (admin \<times> admin \<times> credit_row) list"

definition fund_batch ::
  "admin \<Rightarrow> admin \<Rightarrow> string \<Rightarrow> quote \<Rightarrow> panel \<Rightarrow> http_error + panel \<times> funding" where
  "fund_batch ca op source q p =
     (if is_staff ca then Inr (p, ''paid'', ''settled'', ''platform'', [])
      else if source = ''credit'' then
        and_then (ensure_credit_mode_allowed op) (\<lambda>_.
        and_then (validate_credit_generation op (q_root q) (q_total q) p) (\<lambda>links.
          Inr (p, ''credit'', ''pending'', ''credit'', links)))
      else and_then (apply_balance_generation op (q_total q) p) (\<lambda>p1.
          Inr (p1, ''paid'', ''settled'', ''balance'', [])))"

definition book_batch ::
  "admin \<Rightarrow> admin \<Rightarrow> string \<Rightarrow> quote \<Rightarrow> (admin \<times> admin \<times> credit_row) list \<Rightarrow> string \<Rightarrow> panel \<Rightarrow> panel" where
  "book_batch ca op source q links bid p =
     (if is_staff ca then p
      else if source = ''balance'' then
        add_ledger (entry (if ad_parent op = None then ''platform'' else ''channel'') (live op p) (ad_parent op)
          ''consume_balance'' ''out'' (q_total q) (Some bid) None (ad_id op)) p
      else apply_credit_generation links (q_root q) op (q_total q) bid p)"

text \<open>
  The outer \<open>option\<close>: \<open>None\<close> is a request that never returns. \<open>province\<close> is the setting of the
  installation.
\<close>

definition generate_card_batch ::
  "string \<Rightarrow> admin \<Rightarrow> string \<Rightarrow> int \<Rightarrow> string \<Rightarrow> int option \<Rightarrow> string \<Rightarrow> datetime \<Rightarrow> panel
     \<Rightarrow> (http_error + panel \<times> batch) option" where
  "generate_card_batch province ca plan_code quantity prefix valid_days funding_source now p =
     (let source = lower (strip funding_source)
      in if \<not> has_permission ca [''batches.generate''] p then Some (Inl (Http 403 ''<no card generation>''))
         else if source \<notin> {''balance'', ''credit''} then Some (Inl (Http 400 ''<funding_source>''))
         else case get_admin (ad_id ca) p of
           None \<Rightarrow> Some (Inl unhandled)
         | Some op \<Rightarrow>
             (case prepare_batch_quote op plan_code quantity prefix valid_days now p of
                Inl e \<Rightarrow> Some (Inl e)
              | Inr q \<Rightarrow>
                  (case fund_batch ca op source q p of
                     Inl e \<Rightarrow> Some (Inl e)
                   | Inr (p1, payment, settlement, card_source, links) \<Rightarrow>
                       map_option (\<lambda>r. and_then r (\<lambda>(p2, b).
                           Inr (book_batch ca op source q links (ba_id b) p2, b)))
                         (create_batch_records q op province settlement payment card_source
                            (''funding_source='' @ (if is_staff ca then ''platform'' else source)) now p1))))"

text \<open>How the money of a batch is told from its remark (\<open>extract_batch_funding_source\<close>).\<close>

fun after_key :: "string \<Rightarrow> string \<Rightarrow> string option" where
  "after_key k [] = (if k = [] then Some [] else None)"
| "after_key k (c # cs) =
     (if starts_with k (c # cs) then Some (drop (length k) (c # cs)) else after_key k cs)"

definition extract_batch_funding_source :: "batch \<Rightarrow> http_error + string" where
  "extract_batch_funding_source b =
     (let rest = (if ba_payment b = ''credit'' then ''credit'' else ''balance'')
      in case after_key ''funding_source='' (strip (str_or (ba_remark b) [])) of
           None \<Rightarrow> Inr rest
         | Some s \<Rightarrow>
             let w = takeWhile (\<lambda>c. \<not> is_space c) (dropWhile is_space s)
             in if w = [] then Inl unhandled
                else if lower (strip w) \<in> {''platform'', ''balance'', ''credit''} then Inr (lower (strip w))
                else Inr rest)"

end
