(* ===== verification/CardAdmin.thy ===== *)
theory CardAdmin
  imports Licensing Batches
begin

text \<open>
  The operations of the back office on single cards (\<open>h5_backend/services/admin/card_service.py\<close>
  and \<open>plan_service.py\<close>): the generation of cards of a plan, switching a card on and off, and the
  deletion of a plan, which disables its unused cards. The draws of \<open>secrets\<close> and the next value
  of the id sequence are arguments; the audit log is left out.
\<close>

definition in_card_alphabet :: "char \<Rightarrow> bool" where
  "in_card_alphabet c = (let n = code c in (65 \<le> n \<and> n \<le> 90) \<or> (48 \<le> n \<and> n \<le> 57))"

definition admin_card ::
  "string \<Rightarrow> int \<Rightarrow> datetime option \<Rightarrow> datetime \<Rightarrow> int \<times> string \<Rightarrow> card" where
  "admin_card plan n expires now r =
     \<lparr>k_id = fst r, k_code = snd r, k_plan = Some plan, k_days = Some n, k_active = True, k_used = False,
      k_expires_at = expires, k_used_by = None, k_used_at = None, k_created_at = Some now\<rparr>"

text \<open>\<open>None\<close>: the search for codes that are not in use never ends.\<close>

definition generate_cards ::
  "(nat \<Rightarrow> string) \<Rightarrow> int \<Rightarrow> string \<Rightarrow> int \<Rightarrow> datetime option \<Rightarrow> string \<Rightarrow> datetime \<Rightarrow> db
     \<Rightarrow> (http_error + db \<times> card list) option" where
  "generate_cards draws next_card_id plan quantity expires raw now d =
     (let prefix = upper (strip raw) in
      if quantity \<le> 0 \<or> 500 < quantity then Some (Inl (Http 400 ''<quantity>''))
      else if (case expires of None \<Rightarrow> False | Some e \<Rightarrow> e \<le> now) then Some (Inl (Http 400 ''<expires_at>''))
      else if 20 < length prefix then Some (Inl (Http 400 ''<prefix too long>''))
      else if \<not> list_all in_card_alphabet prefix then Some (Inl (Http 400 ''<prefix>''))
      else case find_row (\<lambda>p. p_code p = plan) (plans d) of
        None \<Rightarrow> Some (Inl (Http 404 ''<plan not found>''))
      | Some p \<Rightarrow>
          if p_days p \<le> 0 then Some (Inl (Http 400 ''<plan without days>''))
          else
            (let (codes, n) = draw_codes (nat quantity * 20) draws prefix (nat quantity) [] 0
             in if length codes < nat quantity then Some (Inl (Http 500 ''<no codes>''))
                else map_option (\<lambda>(codes', _).
                       let ks = map (admin_card plan (p_days p) expires now)
                                  (zip (map (\<lambda>i. next_card_id + int i) [0..<length codes']) (sort codes'))
                       in Inr (d\<lparr>cards := cards d @ ks\<rparr>, ks))
                     (avoid_existing (map k_code (cards d)) draws prefix (nat quantity) codes n)))"

definition set_card_active :: "string \<Rightarrow> bool \<Rightarrow> db \<Rightarrow> http_error + db \<times> card" where
  "set_card_active raw active d =
     (let wanted = upper (strip raw) in
      case find_row (\<lambda>k. k_code k = wanted) (cards d) of
        None \<Rightarrow> Inl (Http 404 ''<card not found>'')
      | Some k \<Rightarrow>
          if k_used k \<and> active then Inl (Http 400 ''<used card>'')
          else Inr (d\<lparr>cards := upd_where (\<lambda>r. k_id r = k_id k) (\<lambda>r. r\<lparr>k_active := active\<rparr>) (cards d)\<rparr>,
                    k\<lparr>k_active := active\<rparr>))"

text \<open>The foreign key of a card to its plan is set to null when the plan goes.\<close>

definition delete_plan :: "string \<Rightarrow> db \<Rightarrow> http_error + db \<times> nat \<times> nat" where
  "delete_plan raw d =
     (let code = strip raw;
          unused = filter (\<lambda>k. k_plan k = Some code \<and> \<not> k_used k) (cards d);
          used = filter (\<lambda>k. k_plan k = Some code \<and> k_used k) (cards d);
          disabled = upd_where (\<lambda>k. k_plan k = Some code \<and> \<not> k_used k) (\<lambda>k. k\<lparr>k_active := False\<rparr>) (cards d)
      in if code = [] then Inl (Http 400 ''<empty plan code>'')
         else case find_row (\<lambda>p. p_code p = code) (plans d) of
           None \<Rightarrow> Inl (Http 404 ''<plan not found>'')
         | Some _ \<Rightarrow>
             Inr (d\<lparr>cards := upd_where (\<lambda>k. k_plan k = Some code) (\<lambda>k. k\<lparr>k_plan := None\<rparr>) disabled,
                    plans := filter (\<lambda>p. p_code p \<noteq> code) (plans d)\<rparr>, length unused, length used))"

section \<open>The life of the licensing tables\<close>

text \<open>
  One session after the other that may touch the cards: every operation of the licensing service,
  those of the back office (\<open>issued\<close> is a batch of theory \<open>Batches\<close>, whose tables are a record of
  their own), and whatever leaves the cards alone.
\<close>

inductive licensing_step :: "db \<Rightarrow> db \<Rightarrow> bool" where
  activated: "activate_card_for_user uid raw now d = Inr (d', s) \<Longrightarrow> licensing_step d d'"
| normalized: "normalize_single_authorization_model uid now d = (d', ps, pa) \<Longrightarrow> licensing_step d d'"
| checked: "require_account_task_permission aid now d = (d', r) \<Longrightarrow> licensing_step d d'"
| stopped: "disable_tasks_for_account_if_unlicensed a now d = (d', n) \<Longrightarrow> licensing_step d d'"
| eligible: "mark_bot_trial_eligible_on_first_bind uid now d = (d', b) \<Longrightarrow> licensing_step d d'"
| trial: "grant_trial_authorization_if_eligible uid a now d = (d', t) \<Longrightarrow> licensing_step d d'"
| limited: "ensure_can_add_tg_account uid tg now d = (d', ov) \<Longrightarrow> licensing_step d d'"
| bound: "bind_current_authorization_to_account_if_possible uid a now d = (d', t) \<Longrightarrow> licensing_step d d'"
| released: "release_slots_for_account a reason now d = (d', n) \<Longrightarrow> licensing_step d d'"
| generated: "generate_cards draws nid plan quantity expires raw now d = Some (Inr (d', ks)) \<Longrightarrow>
     licensing_step d d'"
| switched: "set_card_active raw b d = Inr (d', k) \<Longrightarrow> licensing_step d d'"
| plan_deleted: "delete_plan raw d = Inr (d', n, m) \<Longrightarrow> licensing_step d d'"
| issued: "cards d' = cards d @ ks \<Longrightarrow> list_all (\<lambda>k. \<not> k_used k) ks \<Longrightarrow> licensing_step d d'"
| elsewhere: "cards d' = cards d \<Longrightarrow> licensing_step d d'"

inductive licensing_run :: "db \<Rightarrow> db \<Rightarrow> bool" where
  start: "licensing_run d d"
| step: "licensing_run d d1 \<Longrightarrow> licensing_step d1 d2 \<Longrightarrow> licensing_run d d2"

end
