(* ===== verification/LicensingProps.thy ===== *)
theory LicensingProps
  imports LicensingFacts CardAdmin SampleWorld
begin

text \<open>Properties of the licensing service: authorizations, cards, trials, permission.\<close>

section \<open>One authorization, one account\<close>

text \<open>
  The normalization leaves a user with at most one authorization slot and at most one
  active account, and does not touch the slots of any other user. Identifiers are unique and
  generated ones are new.
\<close>

theorem normalization_leaves_one_slot_and_account:
  assumes "sound_ids d" "normalize_single_authorization_model uid now d = (d', ps, pa)"
  shows "length (filter (\<lambda>s. s_user s = uid) (slots d')) \<le> 1
    \<and> length (filter (\<lambda>a. a_user a = uid \<and> a_active a) (accounts d')) \<le> 1
    \<and> filter (\<lambda>s. s_user s \<noteq> uid) (slots d') = filter (\<lambda>s. s_user s \<noteq> uid) (slots d)
    \<and> filter (\<lambda>a. a_user a \<noteq> uid) (accounts d') = filter (\<lambda>a. a_user a \<noteq> uid) (accounts d)"
proof -
  have d': "d' = fst (normalize_single_authorization_model uid now d)" using assms(2) by simp
  have "filter (\<lambda>a. a_user a \<noteq> uid) (accounts d') = filter (\<lambda>a. a_user a \<noteq> uid) (accounts d)"
    unfolding d' normalize_accounts by (rule filter_upd_where_other) simp
  moreover have "distinct (map a_id (accounts d))" using assms(1) by (simp add: sound_ids_def)
  ultimately show ?thesis
    using normalize_one_slot [OF assms(1)] normalize_one_account normalize_other_slots [OF assms(1)]
    by (simp add: d')
qed

definition demo_slot :: "string \<Rightarrow> int \<Rightarrow> string option \<Rightarrow> int \<Rightarrow> slot" where
  "demo_slot sid uid aid fin =
     \<lparr>s_id = sid, s_user = uid, s_account = aid, s_card = None, s_source = ''card'', s_days = 30,
      s_start = 0, s_end = fin, s_status = ''active'', s_created = 0, s_updated = 0\<rparr>"

definition licensed_db :: db where
  "licensed_db = (empty_db sample_ids)\<lparr>
     accounts := [blank_account ''a'' 7, blank_account ''b'' 7, blank_account ''c'' 8],
     slots := [demo_slot ''x'' 7 (Some ''a'') (days 30), demo_slot ''y'' 7 (Some ''b'') (days 40),
               demo_slot ''z'' 8 (Some ''c'') (days 50)],
     tasks := [(blank_task ''t1'' 7)\<lparr>t_account := Some ''a''\<rparr>, (blank_task ''t2'' 7)\<lparr>t_account := Some ''b''\<rparr>]\<rparr>"

lemma show_nat_inj: "show_nat m = show_nat n \<Longrightarrow> m = n"
proof (induction m arbitrary: n rule: less_induct)
  case (less m)
  have digit: "char_of (48 + i) = (char_of (48 + j) :: char) \<Longrightarrow> i < 10 \<Longrightarrow> j < 10 \<Longrightarrow> i = j" for i j :: nat
  proof -
    assume "char_of (48 + i) = (char_of (48 + j) :: char)" "i < 10" "j < 10"
    then have "of_char (char_of (48 + i) :: char) = (of_char (char_of (48 + j) :: char) :: nat)" by simp
    with \<open>i < 10\<close> \<open>j < 10\<close> show "i = j" by simp
  qed
  have ne: "show_nat k \<noteq> []" for k by (subst show_nat.simps) simp
  show ?case
  proof (cases "m < 10")
    case True
    then have m: "show_nat m = [char_of (48 + m)]" by (subst show_nat.simps) simp
    have "n < 10"
    proof (rule ccontr)
      assume "\<not> n < 10"
      then have "show_nat n = show_nat (n div 10) @ [char_of (48 + n mod 10)]"
        by (subst show_nat.simps) simp
      with less.prems m ne [of "n div 10"] show False by (cases "show_nat (n div 10)") auto
    qed
    moreover from this have "show_nat n = [char_of (48 + n)]" by (subst show_nat.simps) simp
    ultimately show ?thesis using less.prems m True digit by simp
  next
    case False
    then have m: "show_nat m = show_nat (m div 10) @ [char_of (48 + m mod 10)]"
      by (subst show_nat.simps) simp
    have "\<not> n < 10"
    proof
      assume "n < 10"
      then have "show_nat n = [char_of (48 + n)]" by (subst show_nat.simps) simp
      with less.prems m ne [of "m div 10"] show False by (cases "show_nat (m div 10)") auto
    qed
    then have n: "show_nat n = show_nat (n div 10) @ [char_of (48 + n mod 10)]"
      by (subst show_nat.simps) simp
    from less.prems m n have "show_nat (m div 10) = show_nat (n div 10)" "m mod 10 = n mod 10"
      using digit [of "m mod 10" "n mod 10"] by auto
    moreover have "m div 10 < m" using False by simp
    ultimately have "m div 10 = n div 10" "m mod 10 = n mod 10" using less.IH by auto
    then show ?thesis by (metis div_mult_mod_eq)
  qed
qed

lemma sample_ids_inj: "inj sample_ids"
  by (rule injI) (auto simp: sample_ids_def dest: show_nat_inj)

lemma sample_ids_long: "sample_ids n \<noteq> [c]"
  by (simp add: sample_ids_def)

lemma licensed_sound: "sound_ids licensed_db"
  using sample_ids_inj
  by (simp add: sound_ids_def licensed_db_def empty_db_def demo_slot_def blank_account_def sample_ids_long)

theorem normalization_leaves_one_slot_and_account_witness:
  "\<exists>d' ps pa. normalize_single_authorization_model 7 5 licensed_db = (d', ps, pa)
     \<and> length (filter (\<lambda>s. s_user s = 7) (slots d')) \<le> 1"
proof -
  obtain d' ps pa where n: "normalize_single_authorization_model 7 5 licensed_db = (d', ps, pa)"
    by (metis prod_cases3)
  from normalization_leaves_one_slot_and_account [OF licensed_sound n] n show ?thesis by blast
qed

text \<open>
  After the normalization no task of the user runs on an account that is not the active
  one: every task of an inactive account of the user is disabled.
\<close>

theorem normalization_disables_tasks_of_inactive_accounts:
  assumes "normalize_single_authorization_model uid now d = (d', ps, pa)"
    and "t \<in> set (tasks d')" "a \<in> set (accounts d')"
    and "a_user a = uid" "\<not> a_active a" "t_account t = Some (a_id a)"
  shows "\<not> t_enabled t"
proof -
  let ?pa = "primary_account uid now (synced uid now d)"
  have d': "d' = fst (normalize_single_authorization_model uid now d)" using assms(1) by simp
  obtain p where p: "p \<in> set (accounts d)"
    "a = (if a_user p = uid then p\<lparr>a_active := is_primary ?pa p\<rparr> else p)"
    using set_upd_where [OF assms(3) [unfolded d' normalize_accounts]] by blast
  then have q: "p \<in> set (accounts d)" "a_user p = uid" "a_id p = a_id a" "\<not> is_primary ?pa p"
    using assms(4,5) by (auto split: if_splits)
  have "accounts (synced uid now d) = accounts d" by (simp add: synced_def)
  with q have "a_id a \<in> set (map a_id (filter (\<lambda>a. \<not> is_primary ?pa a) (user_accounts uid (synced uid now d))))"
    unfolding q(3) [symmetric] by (auto simp: set_user_accounts)
  then show ?thesis
    using assms(2,6) unfolding d' normalize_task_rows tasks_disable
    by (auto dest!: set_upd_where split: if_splits)
qed

theorem normalization_disables_tasks_of_inactive_accounts_witness:
  "\<not> t_enabled (hd (tasks (fst (normalize_single_authorization_model 7 5 licensed_db))))"
proof -
  obtain d' ps pa where n: "normalize_single_authorization_model 7 5 licensed_db = (d', ps, pa)"
    by (metis prod_cases3)
  have facts: "map t_account (tasks (fst (normalize_single_authorization_model 7 5 licensed_db))) = [Some ''a'', Some ''b'']
      \<and> map (\<lambda>a. (a_id a, a_user a, a_active a)) (accounts (fst (normalize_single_authorization_model 7 5 licensed_db)))
         = [(''a'', 7, False), (''b'', 7, True), (''c'', 8, True)]"
    by code_simp
  then obtain t1 t2 a1 a2 a3 where ts: "tasks d' = [t1, t2]" "t_account t1 = Some ''a''"
    and as: "accounts d' = [a1, a2, a3]" "a_id a1 = ''a''" "a_user a1 = 7" "\<not> a_active a1"
    by (auto simp: n)
  from normalization_disables_tasks_of_inactive_accounts [OF n, of t1 a1] ts as
  show ?thesis by (simp add: n)
qed

section \<open>Cards\<close>

lemma card_ops_frame [simp]:
  "cards (fst (create_slot_from_card uid k n aid now d)) = cards d"
  "cards (fst (renew_slot_with_card s k n now d)) = cards d"
  by (auto simp: create_slot_from_card_def renew_slot_with_card_def Let_def add_usage_def add_slot_def)

lemma normalize_primary:
  assumes "normalize_single_authorization_model uid now d = (d', Some p, pa)"
  shows "p \<in> set (slots d')"
proof -
  have "fst (snd (normalize_single_authorization_model uid now d)) =
      (case primary_slot uid now (synced uid now d) of None \<Rightarrow> None
       | Some s \<Rightarrow> get_slot (s_id s) (fst (normalize_single_authorization_model uid now d)))"
    by (cases "primary_slot uid now (synced uid now d)")
       (simp_all add: normalize_single_authorization_model_def Let_def primary_slot_def synced_def
         del: max_by_None)
  moreover have "fst (snd (normalize_single_authorization_model uid now d)) = Some p"
    "fst (normalize_single_authorization_model uid now d) = d'"
    using assms by simp_all
  ultimately have "\<exists>i. get_slot i d' = Some p"
    by (cases "primary_slot uid now (synced uid now d)") auto
  then show ?thesis by (auto simp: get_slot_def dest: find_row_Some)
qed

lemma upd_where_const_in: "r \<in> set rows \<Longrightarrow> P r \<Longrightarrow> x \<in> set (upd_where P (\<lambda>_. x) rows)"
  by (induction rows) auto

lemma activate_cases:
  assumes "activate_card_for_user uid raw now d = Inr (d1, s)"
  obtains dn ps pa k n where "normalize_single_authorization_model uid now d = (dn, ps, pa)"
    and "find_row (\<lambda>k. upper (k_code k) = upper (strip raw)) (cards d) = Some k"
    and "upper (strip raw) \<noteq> []" "k_active k" "\<not> k_used k"
    and "case k_expires_at k of None \<Rightarrow> True | Some e \<Rightarrow> now < e"
    and "n = resolve_card_duration_days k dn" "0 < n"
    and "cards d1 = upd_where (\<lambda>r. k_id r = k_id k)
           (\<lambda>r. r\<lparr>k_used := True, k_used_by := Some uid, k_used_at := Some now\<rparr>) (cards d)"
    and "case ps of None \<Rightarrow> s_user s = uid \<and> s_start s = now \<and> s_end s = now + days n
         | Some p \<Rightarrow> p \<in> set (slots dn) \<and> s = renewed_slot k n now p"
    and "s \<in> set (slots d1)" "s_status s = ''active''"
proof -
  obtain dn ps pa where n: "normalize_single_authorization_model uid now d = (dn, ps, pa)"
    by (metis prod_cases3)
  have c: "cards dn = cards d" using normalize_cards [of uid now d] n by simp
  obtain k where k: "find_row (\<lambda>k. upper (k_code k) = upper (strip raw)) (cards d) = Some k"
    and "upper (strip raw) \<noteq> []" "k_active k" "\<not> k_used k"
    and e: "case k_expires_at k of None \<Rightarrow> True | Some e \<Rightarrow> now < e"
    and pos: "0 < resolve_card_duration_days k dn"
    using assms n c
    by (auto simp: activate_card_for_user_def Let_def split: if_splits option.splits)
  define m where "m = resolve_card_duration_days k dn"
  obtain d2 s2 where two: "(case ps of Some p \<Rightarrow> renew_slot_with_card p k m now dn
      | None \<Rightarrow> create_slot_from_card uid k m (map_option a_id pa) now dn) = (d2, s2)"
    by fastforce
  have out: "s = s2" "d1 = d2\<lparr>cards := upd_where (\<lambda>r. k_id r = k_id k)
      (\<lambda>r. r\<lparr>k_used := True, k_used_by := Some uid, k_used_at := Some now\<rparr>) (cards d2)\<rparr>"
    using assms n c k two e pos \<open>upper (strip raw) \<noteq> []\<close> \<open>k_active k\<close> \<open>\<not> k_used k\<close>
    by (auto simp: activate_card_for_user_def Let_def m_def [symmetric] split: if_splits option.splits)
  have c2: "cards d2 = cards d"
  proof -
    have "cards (fst (case ps of Some p \<Rightarrow> renew_slot_with_card p k m now dn
        | None \<Rightarrow> create_slot_from_card uid k m (map_option a_id pa) now dn)) = cards dn"
      by (cases ps) simp_all
    with two c show ?thesis by simp
  qed
  show ?thesis
  proof (rule that [OF n k])
    show "case ps of None \<Rightarrow> s_user s = uid \<and> s_start s = now \<and> s_end s = now + days m
        | Some p \<Rightarrow> p \<in> set (slots dn) \<and> s = renewed_slot k m now p"
      using two out n normalize_primary
      by (auto simp: create_slot_from_card_def renew_slot_with_card_def Let_def split: option.splits)
    show "s \<in> set (slots d1)"
    proof (cases ps)
      case None
      with two out show ?thesis
        by (auto simp: create_slot_from_card_def Let_def add_usage_def add_slot_def)
    next
      case (Some p)
      then have "p \<in> set (slots dn)" using n normalize_primary by blast
      then show ?thesis
        using two out Some
        by (auto simp: renew_slot_with_card_def Let_def add_usage_def upd_slot_def
            intro: upd_where_const_in)
    qed
    show "s_status s = ''active''"
      using two out
      by (auto simp: create_slot_from_card_def renew_slot_with_card_def renewed_slot_def Let_def
          split: option.splits)
  qed (use \<open>upper (strip raw) \<noteq> []\<close> \<open>k_active k\<close> \<open>\<not> k_used k\<close> e pos out c2 in \<open>auto simp: m_def\<close>)
qed

text \<open>
  C34: A successful activation used a card that was active, unused and not expired. It gives the
  days of the card: its own, or those of its plan when it has none of its own. A user who holds
  an authorization keeps it, extended by exactly these days beyond the later of now and its old
  end, so that days already paid for are never lost; a user without one gets a new one of
  exactly these days from now. The authorization is stored and valid.
\<close>

theorem activation_extends_the_authorization:
  assumes "activate_card_for_user uid raw now d = Inr (d1, s)"
  shows "\<exists>k n. find_row (\<lambda>k. upper (k_code k) = upper (strip raw)) (cards d) = Some k
     \<and> k_active k \<and> \<not> k_used k \<and> (\<forall>e. k_expires_at k = Some e \<longrightarrow> now < e) \<and> 0 < n
     \<and> (k_days k = Some n
        \<or> (\<forall>m. k_days k = Some m \<longrightarrow> m \<le> 0)
           \<and> (\<exists>p. k_plan k = Some (p_code p) \<and> p \<in> set (plans d) \<and> n = p_days p))
     \<and> s \<in> set (slots d1) \<and> valid_slot now s
     \<and> (case fst (snd (normalize_single_authorization_model uid now d)) of
          None \<Rightarrow> s_user s = uid \<and> s_start s = now \<and> s_end s = now + days n
        | Some p \<Rightarrow> s_id s = s_id p \<and> s_user s = s_user p \<and> s_account s = s_account p
             \<and> s_end s = max now (s_end p) + days n)"
proof -
  obtain dn ps pa k n where n: "normalize_single_authorization_model uid now d = (dn, ps, pa)"
    and k: "find_row (\<lambda>k. upper (k_code k) = upper (strip raw)) (cards d) = Some k"
      "k_active k" "\<not> k_used k" "case k_expires_at k of None \<Rightarrow> True | Some e \<Rightarrow> now < e"
      "n = resolve_card_duration_days k dn" "0 < n"
    and s: "case ps of None \<Rightarrow> s_user s = uid \<and> s_start s = now \<and> s_end s = now + days n
         | Some p \<Rightarrow> p \<in> set (slots dn) \<and> s = renewed_slot k n now p"
      "s \<in> set (slots d1)" "s_status s = ''active''"
    by (rule activate_cases [OF assms]) blast
  have pos: "0 < days n" using k(6) by (simp add: days_def secs_def)
  have "plans dn = plans d" using normalize_plans [of uid now d] n by simp
  then have days: "k_days k = Some n
        \<or> (\<forall>m. k_days k = Some m \<longrightarrow> m \<le> 0)
           \<and> (\<exists>p. k_plan k = Some (p_code p) \<and> p \<in> set (plans d) \<and> n = p_days p)"
    using k(5,6) by (auto simp: resolve_card_duration_days_def int_or_def str_true_def Let_def max_def
        dest: find_row_Some split: option.splits if_splits)
  have grown: "case ps of None \<Rightarrow> s_user s = uid \<and> s_start s = now \<and> s_end s = now + days n
        | Some p \<Rightarrow> s_id s = s_id p \<and> s_user s = s_user p \<and> s_account s = s_account p
             \<and> s_end s = max now (s_end p) + days n"
    using s(1) by (auto simp: renewed_slot_def split: option.splits)
  then have "now < s_end s" using pos by (auto split: option.splits)
  with days grown show ?thesis
    using k s(2,3) by (intro exI [of _ k] exI [of _ n]) (auto simp: valid_slot_def n)
qed

definition demo_card :: card where
  "demo_card = \<lparr>k_id = 3, k_code = ''AB'', k_plan = None, k_days = Some 30, k_active = True,
     k_used = False, k_expires_at = None, k_used_by = None, k_used_at = None, k_created_at = None\<rparr>"

definition card_db :: db where
  "card_db = licensed_db\<lparr>cards := [demo_card]\<rparr>"

lemma card_activation_value:
  "case activate_card_for_user 7 ''ab'' 5 card_db of Inr (d1, s) \<Rightarrow> s_end s = days 70 | _ \<Rightarrow> False"
  by code_simp

theorem activation_extends_the_authorization_witness:
  "\<exists>d1 s. activate_card_for_user 7 ''ab'' 5 card_db = Inr (d1, s) \<and> s_end s = days 70
     \<and> s \<in> set (slots d1) \<and> valid_slot 5 s"
proof -
  obtain d1 s where a: "activate_card_for_user 7 ''ab'' 5 card_db = Inr (d1, s)" "s_end s = days 70"
    using card_activation_value by (auto split: sum.splits)
  from activation_extends_the_authorization [OF a(1)] a show ?thesis by blast
qed

text \<open>What a session does to the cards that are there: codes stay, and a used card stays used.\<close>

definition kept_card :: "card \<Rightarrow> card \<Rightarrow> bool" where
  "kept_card k k' \<longleftrightarrow> k_code k' = k_code k \<and> (k_used k \<longrightarrow> k_used k')"

definition cards_kept :: "db \<Rightarrow> db \<Rightarrow> bool" where
  "cards_kept d d' \<longleftrightarrow> (\<exists>ms ks. list_all2 kept_card (cards d) ms \<and> cards d' = ms @ ks)"

lemma kept_card_refl [simp]: "kept_card k k"
  by (simp add: kept_card_def)

lemma cards_kept_append: "cards d' = cards d @ ks \<Longrightarrow> cards_kept d d'"
  unfolding cards_kept_def by (intro exI [of _ "cards d"] exI [of _ ks]) (simp add: list_all2_same)

lemma cards_kept_map: "list_all2 kept_card (cards d) (cards d') \<Longrightarrow> cards_kept d d'"
  unfolding cards_kept_def by (intro exI [of _ "cards d'"] exI [of _ "[]"]) simp

lemma cards_kept_same: "cards d' = cards d \<Longrightarrow> cards_kept d d'"
  by (rule cards_kept_append [of _ _ "[]"]) simp

lemma kept_upd: "(\<And>k. P k \<Longrightarrow> kept_card k (f k)) \<Longrightarrow> list_all2 kept_card ks (upd_where P f ks)"
  by (induction ks) auto

lemma kept_trans: "kept_card a b \<Longrightarrow> kept_card b c \<Longrightarrow> kept_card a c"
  by (auto simp: kept_card_def)

lemma cards_kept_trans: "cards_kept d d1 \<Longrightarrow> cards_kept d1 d2 \<Longrightarrow> cards_kept d d2"
proof -
  assume "cards_kept d d1" "cards_kept d1 d2"
  then obtain ms ks ms' ks' where 1: "list_all2 kept_card (cards d) ms" "cards d1 = ms @ ks"
    and 2: "list_all2 kept_card (ms @ ks) ms'" "cards d2 = ms' @ ks'"
    by (auto simp: cards_kept_def)
  obtain a b where ab: "ms' = a @ b" "list_all2 kept_card ms a"
    using 2(1) by (auto simp: list_all2_append1)
  have "list_all2 kept_card (cards d) a" by (rule list_all2_trans [OF kept_trans 1(1) ab(2)])
  with ab 2(2) show "cards_kept d d2" by (auto simp: cards_kept_def)
qed

lemma summary_cards [simp]: "cards (fst (get_account_authorization_summary aid now d)) = cards d"
  by (auto simp: get_account_authorization_summary_def Let_def normalize_cards split: option.splits)

lemma overview_cards [simp]: "cards (fst (build_authorization_overview uid now d)) = cards d"
  using normalize_cards [of uid now d]
  by (simp add: build_authorization_overview_def Let_def split_beta)

text \<open>The operations of the licensing service other than the activation leave the cards alone.\<close>

lemma licensing_cards:
  "cards (fst (require_account_task_permission oaid now d)) = cards d"
  "cards (fst (disable_tasks_for_account_if_unlicensed aid now d)) = cards d"
  "cards (fst (mark_bot_trial_eligible_on_first_bind uid now d)) = cards d"
  "cards (fst (grant_trial_authorization_if_eligible uid aid now d)) = cards d"
  "cards (fst (ensure_can_add_tg_account uid tg now d)) = cards d"
  "cards (fst (bind_current_authorization_to_account_if_possible uid aid now d)) = cards d"
  "cards (fst (release_slots_for_account aid reason now d)) = cards d"
proof -
  note n = normalize_cards [of uid now d] and m = summary_cards [of aid now]
  show "cards (fst (require_account_task_permission oaid now d)) = cards d"
    using summary_cards [of "the oaid" now d] by (simp add: require_account_task_permission_def split_beta)
  show "cards (fst (disable_tasks_for_account_if_unlicensed aid now d)) = cards d"
    using m [of d] by (simp add: disable_tasks_for_account_if_unlicensed_def split_beta)
  show "cards (fst (mark_bot_trial_eligible_on_first_bind uid now d)) = cards d"
    using n by (simp add: mark_bot_trial_eligible_on_first_bind_def Let_def split: option.split)
  show "cards (fst (grant_trial_authorization_if_eligible uid aid now d)) = cards d"
    using n by (simp add: grant_trial_authorization_if_eligible_def Let_def add_slot_def split_beta split: option.split)
  show "cards (fst (ensure_can_add_tg_account uid tg now d)) = cards d"
    using n overview_cards [of uid now "fst (normalize_single_authorization_model uid now d)"]
    by (simp add: ensure_can_add_tg_account_def Let_def split_beta)
  show "cards (fst (bind_current_authorization_to_account_if_possible uid aid now d)) = cards d"
    using n m by (simp add: bind_current_authorization_to_account_if_possible_def Let_def split_beta split: option.split)
  show "cards (fst (release_slots_for_account aid reason now d)) = cards d"
    by (simp add: release_slots_for_account_def Let_def fold_frame close_last_binding_def)
qed

lemma licensing_step_keeps: "licensing_step d d' \<Longrightarrow> cards_kept d d'"
proof (induction rule: licensing_step.induct)
  case (activated uid raw now d d' s)
  obtain k :: card where "cards d' = upd_where (\<lambda>r. k_id r = k_id k)
      (\<lambda>r. r\<lparr>k_used := True, k_used_by := Some uid, k_used_at := Some now\<rparr>) (cards d)"
    by (rule activate_cases [OF activated]) (rule that)
  then show ?case by (intro cards_kept_map) (simp add: kept_upd kept_card_def)
next
  case (normalized uid now d d' ps pa)
  then show ?case using normalize_cards [of uid now d] by (simp add: cards_kept_same)
next
  case (generated draws nid plan quantity expires raw now d d' ks)
  then obtain ks' where "cards d' = cards d @ ks'"
    by (auto simp: generate_cards_def Let_def split: option.splits if_splits prod.splits)
  then show ?case by (rule cards_kept_append)
next
  case (switched raw b d d' k)
  then show ?case
    by (auto simp: set_card_active_def Let_def kept_card_def
        split: option.splits if_splits intro!: cards_kept_map kept_upd)
next
  case (plan_deleted raw d d' n m)
  have two: "list_all2 kept_card ks (upd_where Q g (upd_where P f ks))"
    if "\<And>k. kept_card k (f k)" "\<And>k. kept_card k (g k)" for P Q f g ks
    by (rule list_all2_trans [OF kept_trans kept_upd kept_upd]) (simp_all add: that)
  from plan_deleted show ?case
    by (auto simp: delete_plan_def Let_def kept_card_def split: option.splits if_splits
        intro!: cards_kept_map two)
next
  case (issued d' d ks)
  then show ?case by (simp add: cards_kept_append)
qed (metis licensing_cards cards_kept_same fst_conv)+

lemma licensing_run_keeps: "licensing_run d d' \<Longrightarrow> cards_kept d d'"
  by (induction rule: licensing_run.induct)
     (auto intro: cards_kept_same cards_kept_trans licensing_step_keeps)

text \<open>The first card of a code stays the first one, and used.\<close>

lemma kept_find:
  assumes "list_all2 kept_card ks ms" "find_row (\<lambda>k. upper (k_code k) = c) ks = Some k" "k_used k"
  shows "\<exists>k'. find_row (\<lambda>k. upper (k_code k) = c) (ms @ new) = Some k' \<and> k_used k'"
  using assms by (induction rule: list_all2_induct) (auto simp: kept_card_def split: if_splits)

text \<open>
  C17: A card is used once: after its activation, whatever licensing operations, switches of
  cards by the back office, deletions of plans and generations of cards follow, in whatever
  order, every further activation of the same code, by whatever user, is refused.
\<close>

theorem card_is_used_once:
  assumes "activate_card_for_user uid raw now d = Inr (d1, s)" "licensing_run d1 d2"
    and "upper (strip raw') = upper (strip raw)"
  shows "activate_card_for_user uid' raw' now' d2
    \<in> {Inl (Http 400 ''<card inactive>''), Inl (Http 400 ''<card already used>'')}"
proof -
  let ?f = "\<lambda>r. r\<lparr>k_used := True, k_used_by := Some uid, k_used_at := Some now\<rparr>"
  let ?P = "\<lambda>k. upper (k_code k) = upper (strip raw)"
  obtain k where k: "find_row ?P (cards d) = Some k" "upper (strip raw) \<noteq> []"
    and c: "cards d1 = upd_where (\<lambda>r. k_id r = k_id k) ?f (cards d)"
    by (rule activate_cases [OF assms(1)]) blast
  have "find_row ?P (cards d1) = map_option (\<lambda>r. if k_id r = k_id k then ?f r else r) (find_row ?P (cards d))"
    unfolding c by (rule find_row_upd_same) simp
  then have "find_row ?P (cards d1) = Some (?f k)" using k(1) by simp
  moreover obtain ms ks where "list_all2 kept_card (cards d1) ms" "cards d2 = ms @ ks"
    using licensing_run_keeps [OF assms(2)] by (auto simp: cards_kept_def)
  ultimately obtain k' where f: "find_row ?P (cards d2) = Some k'" "k_used k'"
    using kept_find [of "cards d1" ms "upper (strip raw)" "?f k" ks] by auto
  obtain dn ps pa where n: "normalize_single_authorization_model uid' now' d2 = (dn, ps, pa)"
    by (metis prod_cases3)
  have "cards dn = cards d2" using normalize_cards [of uid' now' d2] n by simp
  with f k n assms(3) show ?thesis by (simp add: activate_card_for_user_def Let_def)
qed

theorem card_is_used_once_witness:
  "\<exists>d1 s d2. activate_card_for_user 7 ''ab'' 5 card_db = Inr (d1, s) \<and> licensing_run d1 d2
     \<and> map k_active (cards d2) = [False]
     \<and> isl (activate_card_for_user 8 '' AB '' 9 d2)"
proof -
  have v: "case activate_card_for_user 7 ''ab'' 5 card_db of
      Inr (d1, s) \<Rightarrow> (case set_card_active ''ab'' False d1 of
         Inr (d2, k) \<Rightarrow> map k_active (cards d2) = [False] | _ \<Rightarrow> False)
    | _ \<Rightarrow> False"
    by code_simp
  obtain d1 s where a: "activate_card_for_user 7 ''ab'' 5 card_db = Inr (d1, s)"
    using v by (auto split: sum.splits)
  obtain d2 k where b: "set_card_active ''ab'' False d1 = Inr (d2, k)" "map k_active (cards d2) = [False]"
    using v a by (auto split: sum.splits)
  have r: "licensing_run d1 d2"
    by (rule licensing_run.step [OF licensing_run.start licensing_step.switched [OF b(1)]])
  have "upper (strip '' AB '') = upper (strip ''ab'')" by code_simp
  from card_is_used_once [OF a r this, of 8 9] a r b(2) show ?thesis by auto
qed

section \<open>Trials\<close>

definition trial_given :: "int \<Rightarrow> db \<Rightarrow> bool" where
  "trial_given uid d \<longleftrightarrow> (\<forall>u \<in> set (users d). u_id u = uid \<longrightarrow> u_trial_granted_at u \<noteq> None)"

lemma trial_given_upd:
  assumes "trial_given uid d" "\<And>u. u_id u = uid \<Longrightarrow> u_trial_granted_at u \<noteq> None \<Longrightarrow>
      u_trial_granted_at (f u) \<noteq> None"
  shows "trial_given uid (upd_user uid f d)"
  using assms by (fastforce simp: trial_given_def upd_user_def dest!: set_upd_where split: if_splits)

lemma trial_given_cong: "users d' = users d \<Longrightarrow> trial_given uid d' = trial_given uid d"
  by (simp add: trial_given_def)

lemma users_frame [simp]:
  "users (keep_one_account uid pa d) = users d" "users (close_bindings sid r now d) = users d"
  "users (add_binding sid aid now d) = users d" "users (upd_slot sid f d) = users d"
  "users (delete_slot sid d) = users d" "users (settle_primary_slot s pa now d) = users d"
  by (simp_all add: keep_one_account_def close_bindings_def add_binding_def upd_slot_def delete_slot_def
      settle_primary_slot_def Let_def)

lemma trial_given_drop:
  assumes "trial_given uid d"
  shows "trial_given uid (drop_slot uid (Some p) now s d)"
proof -
  have "trial_given uid (upd_user uid (\<lambda>u. if str_or (u_trial_authorization u) [] = s_id s
      then retarget_trial (Some p) u else u) d)"
    by (rule trial_given_upd [OF assms]) (simp add: retarget_trial_def)
  with assms show ?thesis by (simp add: drop_slot_def Let_def trial_given_def)
qed

lemma trial_given_normalize:
  assumes "trial_given uid d" "\<exists>s \<in> set (slots d). s_user s = uid"
  shows "trial_given uid (fst (normalize_single_authorization_model uid now d))"
proof -
  let ?d = "synced uid now d"
  obtain s where s: "s \<in> set (slots d)" "s_user s = uid" using assms(2) by blast
  have "\<exists>r \<in> set (slots (fold (backfill_card now) ks e)). s_user r = uid"
    if "\<exists>r \<in> set (slots e). s_user r = uid" for ks e
    using that
  proof (induction ks arbitrary: e)
    case (Cons k ks)
    obtain new where "slots (backfill_card now k e) = slots e @ new"
      using backfill_card_slots by blast
    then have "\<exists>r \<in> set (slots (backfill_card now k e)). s_user r = uid" using Cons.prems by auto
    with Cons.IH show ?case by simp
  qed simp
  then have "\<exists>r \<in> set (slots (backfill_legacy_used_cards (Some uid) now d)). s_user r = uid"
    using assms(2) by (simp add: backfill_legacy_used_cards_def)
  then have "uid \<in> set (map s_user (slots (backfill_legacy_used_cards (Some uid) now d)))" by auto
  moreover have "map s_user (slots ?d) = map s_user (slots (backfill_legacy_used_cards (Some uid) now d))"
    by (simp add: synced_def sync_expired_slots_def map_upd_where)
  ultimately have "\<exists>r \<in> set (slots ?d). s_user r = uid" by (metis image_iff list.set_map)
  then obtain p where p: "primary_slot uid now ?d = Some p"
    using primary_slot_None [of uid now ?d] by (cases "primary_slot uid now ?d") auto
  have 0: "trial_given uid ?d" using assms(1) by (simp add: synced_def trial_given_def)
  have 1: "trial_given uid (upd_user uid (repair_trial (Some p) ids) ?d)" for ids
    by (rule trial_given_upd [OF 0]) (simp add: repair_trial_def retarget_trial_def)
  have 2: "trial_given uid e \<Longrightarrow> trial_given uid (fold (drop_slot uid (Some p) now) sls e)" for sls e
    by (induction sls arbitrary: e) (auto intro: trial_given_drop)
  have "trial_given uid (fold (drop_slot uid (Some p) now) sls
      (settle_primary_slot p pa now (keep_one_account uid pa (upd_user uid (repair_trial (Some p) ids) ?d))))"
    for sls pa ids
    by (rule 2) (use 1 in \<open>simp add: trial_given_def\<close>)
  then show ?thesis
    using p
    by (simp add: normalize_single_authorization_model_def Let_def primary_slot_def synced_def
        trial_given_def)
qed

text \<open>
  The trial is granted once: after it has been granted, asking for it again, for any
  account and at any time, grants nothing.
\<close>

theorem trial_is_granted_once:
  assumes "grant_trial_authorization_if_eligible uid aid now d = (d1, Some s)"
  shows "s_user s = uid \<and> s \<in> set (slots d1)
    \<and> snd (grant_trial_authorization_if_eligible uid aid' now' d1) = None"
proof -
  have s: "s \<in> set (slots d1)" "s_user s = uid"
    using assms
    by (auto simp: grant_trial_authorization_if_eligible_def Let_def add_slot_def add_binding_def
        split: prod.splits option.splits if_splits)
  have g: "trial_given uid d1"
    using assms
    by (auto simp: grant_trial_authorization_if_eligible_def Let_def trial_given_def upd_user_def
        dest!: set_upd_where split: prod.splits option.splits if_splits)
  obtain dn ps pa where n: "normalize_single_authorization_model uid now' d1 = (dn, ps, pa)"
    by (metis prod_cases3)
  have "trial_given uid dn"
    using trial_given_normalize [OF g, of now'] s n by auto
  moreover have "u \<in> set (users dn) \<and> u_id u = uid" if "get_user uid dn = Some u" for u
    using that by (auto simp: get_user_def dest: find_row_Some)
  ultimately have "get_user uid dn = Some u \<Longrightarrow> u_trial_granted_at u \<noteq> None" for u
    by (auto simp: trial_given_def)
  then show ?thesis
    using s n by (auto simp: grant_trial_authorization_if_eligible_def split: option.splits)
qed

definition trial_db :: db where
  "trial_db = (empty_db sample_ids)\<lparr>
     users := [\<lparr>u_id = 7, u_trial_eligible_at = None, u_trial_granted_at = None, u_trial_authorization = None\<rparr>],
     accounts := [blank_account ''a'' 7]\<rparr>"

theorem trial_is_granted_once_witness:
  "\<exists>d1 s. grant_trial_authorization_if_eligible 7 ''a'' 5 trial_db = (d1, Some s)
     \<and> snd (grant_trial_authorization_if_eligible 7 ''a'' 6 d1) = None"
proof -
  have "case grant_trial_authorization_if_eligible 7 ''a'' 5 trial_db of (d1, Some s) \<Rightarrow> True | _ \<Rightarrow> False"
    by code_simp
  then obtain d1 s where g: "grant_trial_authorization_if_eligible 7 ''a'' 5 trial_db = (d1, Some s)"
    by (auto split: prod.splits option.splits)
  from trial_is_granted_once [OF g] g show ?thesis by blast
qed

section \<open>Permission\<close>

text \<open>
  The permission check: it passes exactly if, after the normalization, the account is bound
  to a slot that is active and has not ended, and then reports the one that ends last.
\<close>

theorem permission_needs_a_valid_slot:
  assumes "require_account_task_permission (Some aid) now d = (d', r)" "aid \<noteq> []"
  shows "case r of
      Inr m \<Rightarrow> m_can_create m \<and>
        (\<exists>s \<in> set (slots d'). s_account s = Some aid \<and> valid_slot now s \<and> m_slot m = Some (s_id s)
           \<and> (\<forall>s' \<in> set (slots d'). s_account s' = Some aid \<longrightarrow> valid_slot now s' \<longrightarrow> s_end s' \<le> s_end s))
    | Inl e \<Rightarrow> e = Http 402 ''<not authorized>'' \<and>
        (\<forall>s \<in> set (slots d'). s_account s = Some aid \<longrightarrow> \<not> valid_slot now s)"
proof -
  define dn where "dn = (case get_account aid d of None \<Rightarrow> d
      | Some a \<Rightarrow> fst (normalize_single_authorization_model (a_user a) now d))"
  let ?v = "filter (\<lambda>s. s_account s = Some aid \<and> valid_slot now s) (slots dn)"
  have t: "str_true (Some aid)" using assms(2) by (simp add: str_true_def)
  show ?thesis
  proof (cases "max_by s_end ?v")
    case None
    then have "?v = []" by simp
    with assms(1) t show ?thesis
      by (auto simp: require_account_task_permission_def get_account_authorization_summary_def
          dn_def [symmetric] Let_def filter_empty_conv split: option.splits)
  next
    case (Some s)
    have "s \<in> set ?v" by (rule max_by_in [OF Some])
    moreover have "s' \<in> set ?v \<Longrightarrow> s_end s' \<le> s_end s" for s' by (rule max_by_ge [OF Some])
    ultimately show ?thesis
      using assms(1) t Some
      by (auto simp: require_account_task_permission_def get_account_authorization_summary_def
          dn_def [symmetric] Let_def intro!: bexI [of _ s])
  qed
qed

theorem permission_needs_a_valid_slot_witness:
  "\<exists>d' m. require_account_task_permission (Some ''b'') 5 licensed_db = (d', Inr m) \<and> m_can_create m"
proof -
  have "case require_account_task_permission (Some ''b'') 5 licensed_db of (d', Inr m) \<Rightarrow> True | _ \<Rightarrow> False"
    by code_simp
  then obtain d' m where r: "require_account_task_permission (Some ''b'') 5 licensed_db = (d', Inr m)"
    by (auto split: prod.splits sum.splits)
  from permission_needs_a_valid_slot [OF r] r show ?thesis by auto
qed

text \<open>
  Losing the authorization stops the account: after the clean-up either the account holds a
  valid slot or none of its tasks is enabled.
\<close>

theorem unlicensed_account_has_no_enabled_task:
  "(\<exists>s \<in> set (slots d'). s_account s = Some aid \<and> valid_slot now s)
   \<or> (\<forall>t \<in> set (tasks d'). t_account t = Some aid \<longrightarrow> \<not> t_enabled t)"
  if "disable_tasks_for_account_if_unlicensed aid now d = (d', n)"
proof -
  obtain dn m where g: "get_account_authorization_summary aid now d = (dn, m)" by fastforce
  show ?thesis
  proof (cases "m_can_create m")
    case True
    have "\<exists>s \<in> set (slots dn). s_account s = Some aid \<and> valid_slot now s"
      using g True
      by (auto simp: get_account_authorization_summary_def Let_def split: option.splits
          dest!: max_by_in)
    with that g True show ?thesis by (simp add: disable_tasks_for_account_if_unlicensed_def)
  next
    case False
    with that g have "d' = disable_tasks_for_accounts [aid] dn"
      by (simp add: disable_tasks_for_account_if_unlicensed_def)
    then show ?thesis by (auto simp: tasks_disable dest!: set_upd_where split: if_splits)
  qed
qed

theorem unlicensed_account_has_no_enabled_task_witness:
  "\<exists>d' n. disable_tasks_for_account_if_unlicensed ''a'' 5 licensed_db = (d', n)
     \<and> ((\<exists>s \<in> set (slots d'). s_account s = Some ''a'' \<and> valid_slot 5 s)
        \<or> (\<forall>t \<in> set (tasks d'). t_account t = Some ''a'' \<longrightarrow> \<not> t_enabled t))"
proof -
  obtain d' n where r: "disable_tasks_for_account_if_unlicensed ''a'' 5 licensed_db = (d', n)" by fastforce
  from unlicensed_account_has_no_enabled_task [OF r] r show ?thesis by blast
qed

section \<open>The account limit\<close>

lemma count_active: "count_active_accounts uid d = length (filter (\<lambda>a. a_user a = uid \<and> a_active a) (accounts d))"
  by (simp add: count_active_accounts_def)

text \<open>
  A user may add a Telegram account only while none is active, unless it is the active one
  again; the check refuses otherwise and reports the overview.
\<close>

theorem account_limit_is_one:
  assumes "ensure_can_add_tg_account uid tg now d = (d', r)"
  shows "case r of
      Inl ov \<Rightarrow> 0 < count_active_accounts uid d' \<and> o_accounts ov = count_active_accounts uid d'
    | Inr ov \<Rightarrow> count_active_accounts uid d' = 0
        \<or> (tg \<noteq> None \<and> (\<exists>a \<in> set (accounts (fst (normalize_single_authorization_model uid now d))).
              a_user a = uid \<and> a_tg a = tg \<and> a_active a))"
  using assms
  by (auto simp: ensure_can_add_tg_account_def build_authorization_overview_def Let_def list_ex_iff
      not_le split: prod.splits if_splits)

theorem account_limit_is_one_witness:
  "\<exists>d' ov. ensure_can_add_tg_account 7 (Some 99) 5 licensed_db = (d', Inl ov)
     \<and> 0 < count_active_accounts 7 d'"
proof -
  have "case ensure_can_add_tg_account 7 (Some 99) 5 licensed_db of (d', Inl ov) \<Rightarrow> True | _ \<Rightarrow> False"
    by code_simp
  then obtain d' ov where r: "ensure_can_add_tg_account 7 (Some 99) 5 licensed_db = (d', Inl ov)"
    by (auto split: prod.splits sum.splits)
  from account_limit_is_one [OF r] r show ?thesis by auto
qed

section \<open>Repeated normalization\<close>

definition redundant_db :: db where
  "redundant_db = (empty_db sample_ids)\<lparr>
     accounts := [blank_account ''a'' 7],
     slots := [demo_slot ''x'' 7 (Some ''a'') (days 90), demo_slot ''y'' 7 None (days 30)],
     cards := [demo_card\<lparr>k_used := True, k_used_by := Some 7, k_used_at := Some 0\<rparr>],
     usages := [\<lparr>g_slot = ''y'', g_card = 3, g_days = 30, g_applied = 0\<rparr>]\<rparr>"

text \<open>
  The normalization is not idempotent on its own output: dropping a redundant slot also
  drops the record that its card was applied, so each later normalization rebuilds a slot for
  that used card and drops it again. The slots and accounts stay the same; an identifier is
  used up every time.
\<close>

theorem normalization_rebuilds_slots_of_used_cards:
  "let d1 = fst (normalize_single_authorization_model 7 5 redundant_db);
       d2 = fst (normalize_single_authorization_model 7 5 d1)
   in legacy_cards (Some 7) redundant_db = [] \<and> map k_id (legacy_cards (Some 7) d1) = [3]
      \<and> map k_id (legacy_cards (Some 7) d2) = [3]
      \<and> map s_id (slots d1) = [''x''] \<and> map s_id (slots d2) = [''x'']
      \<and> drawn d2 = Suc (drawn d1)"
  by code_simp

end
