(* ===== verification/Queue.thy ===== *)
theory Queue
  imports Runner
begin

text \<open>
  The queue between the database and the executor (\<open>scheduler/core/queue_ops.py\<close>): due tasks
  are put into a Redis sorted set under a randomly delayed score, and a consumer claims the
  ids whose score has passed. The sorted set is Redis's: its four operations are fields of
  \<open>queue_ops\<close>, their documented behaviour is the hypothesis \<open>sorted_set_laws\<close>. The Lua
  script of the claim runs atomically, so that it is one function here.
\<close>

record 'x queue_ops = "'x tg_ops" +
  zscore :: "string \<Rightarrow> string \<Rightarrow> 'x \<Rightarrow> 'x \<times> (exn + int option)"
  zadd :: "string \<Rightarrow> string \<Rightarrow> int \<Rightarrow> 'x \<Rightarrow> 'x \<times> (exn + int)"
  zrange_by_score :: "string \<Rightarrow> int \<Rightarrow> int \<Rightarrow> nat \<Rightarrow> 'x \<Rightarrow> 'x \<times> (exn + string list)"
  zrem :: "string \<Rightarrow> string list \<Rightarrow> 'x \<Rightarrow> 'x \<times> (exn + int)"

section \<open>Enqueueing\<close>

definition due_task :: "int \<Rightarrow> task \<Rightarrow> bool" where
  "due_task now t =
     (t_enabled t \<and> t_mode t = scheduled
      \<and> (case t_next t of None \<Rightarrow> False | Some n \<Rightarrow> n \<le> now))"

text \<open>The query of the scan: urgent tasks first, then the longest overdue, at most 100.\<close>

definition due_tasks :: "int \<Rightarrow> db \<Rightarrow> task list" where
  "due_tasks now d =
     take 100 (sort_key (\<lambda>t. (- t_priority t, int_or (t_next t) 0)) (filter (due_task now) (tasks d)))"

definition base_jitter ::
  "('x, 'm) tg_ops_scheme \<Rightarrow> int \<Rightarrow> task \<Rightarrow> 'x \<Rightarrow> 'x \<times> int" where
  "base_jitter ops jitter_range t x =
     (let delay_min = max 0 (t_delay_min t);
          delay_max = max delay_min (t_delay_max t)
      in if 0 < delay_max
         then (let upper = min delay_max jitter_range; lower = min delay_min upper
               in randint ops lower upper x)
         else randint ops 0 (min (max 0 (t_jitter t)) jitter_range) x)"

definition weight_jitter ::
  "('x, 'm) tg_ops_scheme \<Rightarrow> account option \<Rightarrow> 'x \<Rightarrow> 'x \<times> int" where
  "weight_jitter ops acc x =
     (case acc of
        None \<Rightarrow> (x, 0)
      | Some a \<Rightarrow> if a_weight a < 100 then randint ops 0 (min 120 ((100 - a_weight a) * 2)) x
                  else (x, 0))"

definition task_jitter ::
  "('x, 'm) tg_ops_scheme \<Rightarrow> int \<Rightarrow> int \<Rightarrow> db \<Rightarrow> task \<Rightarrow> 'x \<Rightarrow> 'x \<times> int" where
  "task_jitter ops jitter_range urgent d t x =
     (let (x1, j) = base_jitter ops jitter_range t x;
          j1 = (if urgent \<le> t_priority t then min j 3 else j);
          acc = (if str_true (t_account t) then get_account (the (t_account t)) d else None);
          (x2, e) = weight_jitter ops acc x1
      in (x2, j1 + e))"

text \<open>A task that waits already is only ever moved forward.\<close>

definition offer_task ::
  "('x, 'm) queue_ops_scheme \<Rightarrow> string \<Rightarrow> string \<Rightarrow> int \<Rightarrow> 'x \<Rightarrow> 'x \<times> (exn + unit)" where
  "offer_task ops q tid score x =
     (case zscore ops q tid x of
        (x1, Inl e) \<Rightarrow> (x1, Inl e)
      | (x1, Inr None) \<Rightarrow> (case zadd ops q tid score x1 of
                            (x2, Inl e) \<Rightarrow> (x2, Inl e) | (x2, Inr _) \<Rightarrow> (x2, Inr ()))
      | (x1, Inr (Some old)) \<Rightarrow>
          if score < old
          then (case zadd ops q tid score x1 of
                  (x2, Inl e) \<Rightarrow> (x2, Inl e) | (x2, Inr _) \<Rightarrow> (x2, Inr ()))
          else (x1, Inr ()))"

definition enqueue_one ::
  "('x, 'm) queue_ops_scheme \<Rightarrow> string \<Rightarrow> int \<Rightarrow> int \<Rightarrow> int \<Rightarrow> db \<Rightarrow> task \<Rightarrow> 'x \<Rightarrow> 'x \<times> (exn + unit)" where
  "enqueue_one ops q jitter_range urgent now d t x =
     (let (x1, j) = task_jitter ops jitter_range urgent d t x
      in offer_task ops q (t_id t) (now + j) x1)"

fun enqueue_all ::
  "('x, 'm) queue_ops_scheme \<Rightarrow> string \<Rightarrow> int \<Rightarrow> int \<Rightarrow> int \<Rightarrow> db \<Rightarrow> task list \<Rightarrow> 'x
     \<Rightarrow> 'x \<times> (exn + unit)" where
  "enqueue_all ops q jitter_range urgent now d [] x = (x, Inr ())"
| "enqueue_all ops q jitter_range urgent now d (t # ts) x =
     (case enqueue_one ops q jitter_range urgent now d t x of
        (x1, Inl e) \<Rightarrow> (x1, Inl e)
      | (x1, Inr _) \<Rightarrow> enqueue_all ops q jitter_range urgent now d ts x1)"

definition enqueue_due_tasks ::
  "('x, 'm) queue_ops_scheme \<Rightarrow> string \<Rightarrow> int \<Rightarrow> int \<Rightarrow> int \<Rightarrow> db \<Rightarrow> 'x \<Rightarrow> 'x \<times> (exn + unit)" where
  "enqueue_due_tasks ops q jitter_range urgent now d x =
     enqueue_all ops q jitter_range urgent now d (due_tasks now d) x"

section \<open>Claiming\<close>

text \<open>The Lua script.\<close>

definition claim_due_tasks ::
  "('x, 'm) queue_ops_scheme \<Rightarrow> string \<Rightarrow> int \<Rightarrow> nat \<Rightarrow> 'x \<Rightarrow> 'x \<times> (exn + string list)" where
  "claim_due_tasks ops q max_score batch x =
     (case zrange_by_score ops q 0 max_score batch x of
        (x1, Inl e) \<Rightarrow> (x1, Inl e)
      | (x1, Inr []) \<Rightarrow> (x1, Inr [])
      | (x1, Inr ids) \<Rightarrow> (case zrem ops q ids x1 of
                           (x2, Inl e) \<Rightarrow> (x2, Inl e) | (x2, Inr _) \<Rightarrow> (x2, Inr ids)))"

definition get_pending_tasks ::
  "('x, 'm) queue_ops_scheme \<Rightarrow> string \<Rightarrow> int \<Rightarrow> nat \<Rightarrow> db \<Rightarrow> 'x \<Rightarrow> 'x \<times> (exn + task list)" where
  "get_pending_tasks ops q now batch d x =
     (case claim_due_tasks ops q now batch x of
        (x1, Inl e) \<Rightarrow> (x1, Inl e)
      | (x1, Inr ids) \<Rightarrow>
          (x1, Inr (if ids = [] then []
                    else filter (\<lambda>t. t_id t \<in> set ids \<and> t_enabled t \<and> t_mode t = scheduled)
                           (tasks d))))"

section \<open>The sorted set\<close>

text \<open>
  The documented behaviour of Redis sorted sets, for a view \<open>zv\<close> of the world (the score of a
  member of a key), for every call that answers: \<open>ZSCORE\<close> reads, \<open>ZADD\<close> stores, \<open>ZREM\<close>
  removes, \<open>ZRANGEBYSCORE key 0 hi LIMIT 0 n\<close> returns the \<open>n\<close> members with the lowest scores
  between 0 and \<open>hi\<close>. Drawing a random number leaves Redis alone.
\<close>

type_synonym 'x zview = "'x \<Rightarrow> string \<Rightarrow> string \<Rightarrow> int option"

definition lowest_due :: "(string \<Rightarrow> int option) \<Rightarrow> int \<Rightarrow> nat \<Rightarrow> string list \<Rightarrow> bool" where
  "lowest_due z hi n ms \<longleftrightarrow>
     distinct ms \<and> length ms \<le> n
     \<and> (\<forall>m \<in> set ms. \<exists>c. z m = Some c \<and> 0 \<le> c \<and> c \<le> hi)
     \<and> (\<forall>m c. z m = Some c \<longrightarrow> 0 \<le> c \<longrightarrow> c \<le> hi \<longrightarrow> m \<notin> set ms \<longrightarrow>
           length ms = n \<and> (\<forall>k \<in> set ms. the (z k) \<le> c))"

definition sorted_set_laws :: "('x, 'm) queue_ops_scheme \<Rightarrow> 'x zview \<Rightarrow> bool" where
  "sorted_set_laws ops zv \<longleftrightarrow>
     (\<forall>a b x. zv (fst (rand_int ops a b x)) = zv x)
   \<and> (\<forall>q m x x' r. zscore ops q m x = (x', Inr r) \<longrightarrow> r = zv x q m \<and> zv x' = zv x)
   \<and> (\<forall>q m c x x' r. zadd ops q m c x = (x', Inr r) \<longrightarrow>
         zv x' = (zv x)(q := (zv x q)(m \<mapsto> c)))
   \<and> (\<forall>q hi n x x' ms. zrange_by_score ops q 0 hi n x = (x', Inr ms) \<longrightarrow>
         zv x' = zv x \<and> lowest_due (zv x q) hi n ms)
   \<and> (\<forall>q ms x x' r. zrem ops q ms x = (x', Inr r) \<longrightarrow>
         zv x' = (zv x)(q := (\<lambda>m. if m \<in> set ms then None else zv x q m)))"

section \<open>The abstract queue\<close>

text \<open>
  What the queue is for: a map from ids to the time they wait for. Offering an id keeps the
  earlier time; claiming takes ids out.
\<close>

definition offer :: "string \<times> int \<Rightarrow> (string \<Rightarrow> int option) \<Rightarrow> string \<Rightarrow> int option" where
  "offer e z = (case z (fst e) of
      None \<Rightarrow> z(fst e \<mapsto> snd e)
    | Some old \<Rightarrow> if snd e < old then z(fst e \<mapsto> snd e) else z)"

definition take_out :: "string list \<Rightarrow> (string \<Rightarrow> int option) \<Rightarrow> string \<Rightarrow> int option" where
  "take_out ms z = (\<lambda>m. if m \<in> set ms then None else z m)"

text \<open>The delays the code can draw for a task.\<close>

definition extra_delay :: "account option \<Rightarrow> int" where
  "extra_delay acc = (case acc of None \<Rightarrow> 0
      | Some a \<Rightarrow> if a_weight a < 100 then min 120 ((100 - a_weight a) * 2) else 0)"

definition delay_allowed :: "int \<Rightarrow> int \<Rightarrow> task \<Rightarrow> int \<Rightarrow> bool" where
  "delay_allowed jitter_range urgent t j \<longleftrightarrow>
     0 \<le> j \<and> j \<le> (if urgent \<le> t_priority t then min 3 jitter_range else jitter_range) + 120"

lemma randint_bounds: "lo \<le> hi \<Longrightarrow> randint ops lo hi x = (x', r) \<Longrightarrow> lo \<le> r \<and> r \<le> hi"
  by (auto simp: randint_def split: prod.splits)

lemma base_jitter_bounds:
  assumes "base_jitter ops jitter_range t x = (x', j)" "0 \<le> jitter_range"
  shows "0 \<le> j \<and> j \<le> jitter_range"
proof (cases "0 < max (max 0 (t_delay_min t)) (t_delay_max t)")
  case True
  let ?u = "min (max (max 0 (t_delay_min t)) (t_delay_max t)) jitter_range"
  have "randint ops (min (max 0 (t_delay_min t)) ?u) ?u x = (x', j)"
    using assms(1) True by (simp add: base_jitter_def Let_def)
  then have "min (max 0 (t_delay_min t)) ?u \<le> j" "j \<le> ?u"
    by (rule randint_bounds [OF min.cobounded2, THEN conjunct1],
        rule randint_bounds [OF min.cobounded2, THEN conjunct2])
  moreover have "0 \<le> min (max 0 (t_delay_min t)) ?u" using assms(2) by simp
  ultimately show ?thesis by linarith
next
  case False
  have "randint ops 0 (min (max 0 (t_jitter t)) jitter_range) x = (x', j)"
    using assms(1) False by (simp add: base_jitter_def Let_def)
  from randint_bounds [OF _ this] assms(2) show ?thesis by auto
qed

lemma weight_jitter_bounds:
  assumes "weight_jitter ops acc x = (x', e)"
  shows "0 \<le> e \<and> e \<le> 120"
proof (cases "\<exists>a. acc = Some a \<and> a_weight a < 100")
  case True
  then obtain a where a: "acc = Some a" "a_weight a < 100" by blast
  have "randint ops 0 (min 120 ((100 - a_weight a) * 2)) x = (x', e)"
    using assms a by (simp add: weight_jitter_def)
  from randint_bounds [OF _ this] a show ?thesis by auto
qed (use assms in \<open>auto simp: weight_jitter_def split: option.splits if_splits\<close>)

lemma task_jitter_bounds:
  assumes "task_jitter ops jitter_range urgent d t x = (x', j)" "0 \<le> jitter_range"
  shows "delay_allowed jitter_range urgent t j"
proof -
  obtain x1 b where b: "base_jitter ops jitter_range t x = (x1, b)" by fastforce
  let ?acc = "if str_true (t_account t) then get_account (the (t_account t)) d else None"
  obtain x2 e where e: "weight_jitter ops ?acc x1 = (x2, e)" by fastforce
  have "j = (if urgent \<le> t_priority t then min b 3 else b) + e"
    using assms(1) b e by (simp add: task_jitter_def Let_def)
  with base_jitter_bounds [OF b assms(2)] weight_jitter_bounds [OF e]
  show ?thesis by (auto simp: delay_allowed_def)
qed

section \<open>The code refines the abstract queue\<close>

lemma laws_rand: "sorted_set_laws ops zv \<Longrightarrow> zv (fst (rand_int ops a b x)) = zv x"
  and laws_score: "sorted_set_laws ops zv \<Longrightarrow> zscore ops q m x = (x', Inr r) \<Longrightarrow> r = zv x q m \<and> zv x' = zv x"
  and laws_add: "sorted_set_laws ops zv \<Longrightarrow> zadd ops q m c x = (x', Inr n) \<Longrightarrow>
      zv x' = (zv x)(q := (zv x q)(m \<mapsto> c))"
  and laws_range: "sorted_set_laws ops zv \<Longrightarrow> zrange_by_score ops q 0 hi k x = (x', Inr ms) \<Longrightarrow>
      zv x' = zv x \<and> lowest_due (zv x q) hi k ms"
  and laws_rem: "sorted_set_laws ops zv \<Longrightarrow> zrem ops q ms x = (x', Inr n) \<Longrightarrow>
      zv x' = (zv x)(q := take_out ms (zv x q))"
  by (auto simp: sorted_set_laws_def take_out_def)

lemma zv_randint: "sorted_set_laws ops zv \<Longrightarrow> randint ops a b x = (x', r) \<Longrightarrow> zv x' = zv x"
  using laws_rand [of ops zv a b x] by (auto simp: randint_def split: prod.splits)

lemma zv_task_jitter:
  assumes "sorted_set_laws ops zv" "task_jitter ops jr urgent d t x = (x', j)"
  shows "zv x' = zv x"
  using assms(2)
  by (auto simp: task_jitter_def base_jitter_def weight_jitter_def Let_def
      dest!: zv_randint [OF assms(1)] split: prod.splits option.splits if_splits)

lemma offer_task_refines:
  assumes "sorted_set_laws ops zv" "offer_task ops q tid c x = (x', Inr u)"
  shows "zv x' = (zv x)(q := offer (tid, c) (zv x q))"
  using assms(2)
  by (auto simp: offer_task_def offer_def
      dest!: laws_score [OF assms(1)] laws_add [OF assms(1)]
      split: prod.splits sum.splits option.splits if_splits)

lemma enqueue_all_refines:
  assumes laws: "sorted_set_laws ops zv" and jr: "0 \<le> jr"
  shows "enqueue_all ops q jr urgent now d ts x = (x', Inr u) \<Longrightarrow>
    \<exists>js. list_all2 (delay_allowed jr urgent) ts js
      \<and> zv x' = (zv x)(q := fold offer (zip (map t_id ts) (map ((+) now) js)) (zv x q))"
proof (induction ts arbitrary: x)
  case (Cons t ts)
  obtain x1 j where j: "task_jitter ops jr urgent d t x = (x1, j)" by fastforce
  obtain x2 v where o: "offer_task ops q (t_id t) (now + j) x1 = (x2, Inr v)"
    and rest: "enqueue_all ops q jr urgent now d ts x2 = (x', Inr u)"
    using Cons.prems j by (auto simp: enqueue_one_def split: prod.splits sum.splits)
  obtain js where js: "list_all2 (delay_allowed jr urgent) ts js"
    "zv x' = (zv x2)(q := fold offer (zip (map t_id ts) (map ((+) now) js)) (zv x2 q))"
    using Cons.IH [OF rest] by blast
  have "zv x2 = (zv x)(q := offer (t_id t, now + j) (zv x q))"
    using offer_task_refines [OF laws o] zv_task_jitter [OF laws j] by simp
  with js task_jitter_bounds [OF j jr] show ?case by (intro exI [of _ "j # js"]) simp
qed simp

lemma claim_refines:
  assumes "sorted_set_laws ops zv" "claim_due_tasks ops q hi n x = (x', Inr ids)"
  shows "lowest_due (zv x q) hi n ids" "zv x' = (zv x)(q := take_out ids (zv x q))"
  using assms(2)
  by (auto simp: claim_due_tasks_def take_out_def
      dest!: laws_range [OF assms(1)] laws_rem [OF assms(1)]
      split: prod.splits sum.splits list.splits)

text \<open>An offered id waits at most until the offered time, and no other id later than before.\<close>

lemma offer_le: "\<exists>c'. offer (m, c) z m = Some c' \<and> c' \<le> c"
  by (auto simp: offer_def split: option.splits)

lemma offer_mono: "z m = Some c \<Longrightarrow> \<exists>c'. offer e z m = Some c' \<and> c' \<le> c"
  by (cases e) (auto simp: offer_def split: option.splits)

lemma fold_offer_mono: "z m = Some c \<Longrightarrow> \<exists>c'. fold offer es z m = Some c' \<and> c' \<le> c"
proof (induction es arbitrary: z c)
  case (Cons e es)
  obtain c1 where "offer e z m = Some c1" "c1 \<le> c" using offer_mono [of z m c e] Cons.prems by blast
  with Cons.IH [of "offer e z" c1] show ?case by fastforce
qed simp

lemma fold_offer_le: "(m, c) \<in> set es \<Longrightarrow> \<exists>c'. fold offer es z m = Some c' \<and> c' \<le> c"
proof (induction es arbitrary: z)
  case (Cons e es)
  show ?case
  proof (cases "e = (m, c)")
    case True
    obtain c1 where "offer e z m = Some c1" "c1 \<le> c" using offer_le True by blast
    with fold_offer_mono [of "offer e z" m c1 es] show ?thesis by fastforce
  next
    case False
    with Cons show ?thesis by simp
  qed
qed simp

lemma fold_offer_ge:
  assumes "\<And>m c. z m = Some c \<Longrightarrow> lo \<le> c" "\<And>m c. (m, c) \<in> set es \<Longrightarrow> lo \<le> c"
  shows "fold offer es z m = Some c \<Longrightarrow> lo \<le> c"
  using assms
proof (induction es arbitrary: z)
  case (Cons e es)
  have 1: "lo \<le> c'" if "offer e z m' = Some c'" for m' c'
    using that Cons.prems(2) [of m' c'] Cons.prems(3) [of "fst e" "snd e"]
    by (auto simp: offer_def split: option.splits if_splits)
  have 2: "fold offer es (offer e z) m = Some c" using Cons.prems(1) by simp
  have 3: "lo \<le> c'" if "(m', c') \<in> set es" for m' c'
    using that Cons.prems(3) [of m' c'] by simp
  show ?case by (rule Cons.IH [OF 2 1 3])
qed auto

end
