(* ===== verification/Worker.thy ===== *)
theory Worker
  imports Queue
begin

text \<open>
  The scheduler process (\<open>scheduler/core/worker.py\<close>): the recovery at its start, one scan
  (\<open>tick\<close>), and the execution of one claimed task under its processing lock and its time
  limit. A claimed batch is executed one task after the other here, which is what the
  semaphore does at a concurrency of one; theory \<open>Fleet\<close> has the interleavings.
  \<open>asyncio.wait_for\<close> cancels a call that lasts too long at one of its \<open>await\<close>s: the state it
  leaves then is given by the argument \<open>cancelled\<close>.
\<close>

record 'x worker_ops = "'x queue_ops" +
  new_token :: "'x \<Rightarrow> 'x \<times> string"
  scan_keys :: "int \<Rightarrow> string \<Rightarrow> 'x \<Rightarrow> 'x \<times> (exn + int \<times> string list)"
  del_keys :: "string list \<Rightarrow> 'x \<Rightarrow> 'x \<times> (exn + int)"
  ping :: "'x \<Rightarrow> 'x \<times> (exn + unit)"
  reopen :: "'x \<Rightarrow> 'x"

record worker_config =
  wc_run :: config
  wc_timeout :: int
  wc_concurrency :: int

definition task_queue_key :: string where "task_queue_key = ''queue:tasks:pending''"
definition processing_queue_key :: string where "processing_queue_key = ''queue:tasks:processing''"
definition processing_lock_buffer_seconds :: int where "processing_lock_buffer_seconds = 60"
definition jitter_range_seconds :: int where "jitter_range_seconds = 300"
definition default_scheduler_task_timeout :: int where "default_scheduler_task_timeout = 360"
definition urgent_priority_threshold :: int where "urgent_priority_threshold = 100"

definition processing_key :: "string \<Rightarrow> string" where
  "processing_key tid = processing_queue_key @ '':'' @ tid"

definition task_timeout :: "worker_config \<Rightarrow> int" where
  "task_timeout cfg = max 1 (if wc_timeout cfg = 0 then default_scheduler_task_timeout else wc_timeout cfg)"

definition processing_ttl :: "worker_config \<Rightarrow> int" where
  "processing_ttl cfg = task_timeout cfg + processing_lock_buffer_seconds"

definition task_concurrency :: "worker_config \<Rightarrow> int" where
  "task_concurrency cfg = max 1 (if wc_concurrency cfg = 0 then 3 else wc_concurrency cfg)"

section \<open>The processing lock\<close>

definition take_processing_lock ::
  "('x, 'm) worker_ops_scheme \<Rightarrow> worker_config \<Rightarrow> string \<Rightarrow> 'x \<Rightarrow> 'x \<times> (exn + string option)" where
  "take_processing_lock ops cfg tid x =
     (let (x1, token) = new_token ops x in
      case set_nx ops (processing_key tid) token (processing_ttl cfg) x1 of
        (x2, Inl e) \<Rightarrow> (x2, Inl e)
      | (x2, Inr won) \<Rightarrow> (x2, Inr (if won then Some token else None)))"

text \<open>The Lua script: only the holder of the token deletes the lock.\<close>

definition release_processing_lock ::
  "('x, 'm) redis_ops_scheme \<Rightarrow> string \<Rightarrow> string \<Rightarrow> 'x \<Rightarrow> 'x \<times> (exn + int)" where
  "release_processing_lock ops tid token x =
     (case get_key ops (processing_key tid) x of
        (x1, Inl e) \<Rightarrow> (x1, Inl e)
      | (x1, Inr v) \<Rightarrow> if v = Some token then del_key ops (processing_key tid) x1 else (x1, Inr 0))"

section \<open>One claimed task\<close>

record 'x scheduler =
  sc_sys :: "'x sys"
  last_task_timeout_id :: "string option"
  last_task_timeout_at :: "datetime option"
  last_tick_started_at :: "datetime option"
  last_tick_finished_at :: "datetime option"
  last_tick_error :: "exn option"

datatype outcome = Busy | Gone | TimedOut | Refused http_error | Ran run_summary

definition on_sys :: "('x sys \<Rightarrow> 'x sys) \<Rightarrow> 'x scheduler \<Rightarrow> 'x scheduler" where
  "on_sys f c = c\<lparr>sc_sys := f (sc_sys c)\<rparr>"

definition clock_of :: "('x, 'm) clock_ops_scheme \<Rightarrow> 'x scheduler \<Rightarrow> datetime" where
  "clock_of ops c = now_of ops (sx (sc_sys c))"

text \<open>\<open>asyncio.wait_for\<close>: \<open>None\<close> is the \<open>TimeoutError\<close>.\<close>

definition wait_for ::
  "('x, 'm) clock_ops_scheme \<Rightarrow> int \<Rightarrow> ('x sys \<Rightarrow> 'x sys) \<Rightarrow> ('x sys \<Rightarrow> ('x sys \<times> 'r) option)
     \<Rightarrow> 'x sys \<Rightarrow> 'x sys \<times> 'r option" where
  "wait_for ops limit cancelled f s =
     (case f s of
        None \<Rightarrow> (cancelled s, None)
      | Some (s1, r) \<Rightarrow>
          if now_of ops (sx s1) \<le> now_of ops (sx s) + secs limit then (s1, Some r)
          else (cancelled s, None))"

definition record_task_timeout :: "config \<Rightarrow> string \<Rightarrow> int \<Rightarrow> db \<Rightarrow> db" where
  "record_task_timeout cfg tid clock d =
     (case get_task tid d of
        None \<Rightarrow> d
      | Some t \<Rightarrow>
          if \<not> t_enabled t then d
          else handle_task_failure tid ''<run exceeded the time limit>'' (max_failure_count cfg)
                 Scheduler True True clock d)"

definition run_claimed_task ::
  "('x, 'm) worker_ops_scheme \<Rightarrow> worker_config \<Rightarrow> ('x sys \<Rightarrow> 'x sys) \<Rightarrow> string \<Rightarrow> 'x scheduler
     \<Rightarrow> 'x scheduler \<times> outcome" where
  "run_claimed_task ops cfg cancelled tid c =
     (case get_task tid (sdb (sc_sys c)) of
        None \<Rightarrow> (c, Gone)
      | Some t \<Rightarrow>
          if \<not> t_enabled t then (c, Gone)
          else case wait_for ops (task_timeout cfg) cancelled
                      (execute_task_once ops (wc_run cfg) tid Scheduler True True) (sc_sys c) of
            (s1, None) \<Rightarrow>
              (let dt = now_of ops (sx s1) in
               (c\<lparr>sc_sys := on_db (record_task_timeout (wc_run cfg) tid (timestamp dt)) s1,
                  last_task_timeout_id := Some tid, last_task_timeout_at := Some dt\<rparr>, TimedOut))
          | (s1, Some (Inl e)) \<Rightarrow> (c\<lparr>sc_sys := s1\<rparr>, Refused e)
          | (s1, Some (Inr r)) \<Rightarrow> (c\<lparr>sc_sys := s1\<rparr>, Ran r))"

definition execute_task_from_queue ::
  "('x, 'm) worker_ops_scheme \<Rightarrow> worker_config \<Rightarrow> ('x sys \<Rightarrow> 'x sys) \<Rightarrow> string \<Rightarrow> 'x scheduler
     \<Rightarrow> 'x scheduler \<times> (exn + outcome)" where
  "execute_task_from_queue ops cfg cancelled tid c =
     (case take_processing_lock ops cfg tid (sx (sc_sys c)) of
        (x1, Inl e) \<Rightarrow> (on_sys (\<lambda>s. s\<lparr>sx := x1\<rparr>) c, Inl e)
      | (x1, Inr None) \<Rightarrow> (on_sys (\<lambda>s. s\<lparr>sx := x1\<rparr>) c, Inr Busy)
      | (x1, Inr (Some token)) \<Rightarrow>
          (let (c2, res) = run_claimed_task ops cfg cancelled tid (on_sys (\<lambda>s. s\<lparr>sx := x1\<rparr>) c) in
           case release_processing_lock ops tid token (sx (sc_sys c2)) of
             (x3, Inl e) \<Rightarrow> (on_sys (\<lambda>s. s\<lparr>sx := x3\<rparr>) c2, Inl e)
           | (x3, Inr _) \<Rightarrow> (on_sys (\<lambda>s. s\<lparr>sx := x3\<rparr>) c2, Inr res)))"

text \<open>
  \<open>asyncio.gather\<close> over the batch: every task is run, the first exception is raised.
\<close>

fun execute_pending_tasks ::
  "('x, 'm) worker_ops_scheme \<Rightarrow> worker_config \<Rightarrow> ('x sys \<Rightarrow> 'x sys) \<Rightarrow> string list \<Rightarrow> 'x scheduler
     \<Rightarrow> 'x scheduler \<times> (exn + outcome list)" where
  "execute_pending_tasks ops cfg cancelled [] c = (c, Inr [])"
| "execute_pending_tasks ops cfg cancelled (tid # tids) c =
     (let (c1, r) = execute_task_from_queue ops cfg cancelled tid c;
          (c2, rs) = execute_pending_tasks ops cfg cancelled tids c1
      in (c2, case r of Inl e \<Rightarrow> Inl e
              | Inr res \<Rightarrow> (case rs of Inl e \<Rightarrow> Inl e | Inr l \<Rightarrow> Inr (res # l))))"

section \<open>A scan\<close>

definition ensure_redis_connection ::
  "('x, 'm) worker_ops_scheme \<Rightarrow> 'x \<Rightarrow> 'x \<times> (exn + unit)" where
  "ensure_redis_connection ops x =
     (case ping ops x of
        (x1, Inr u) \<Rightarrow> (x1, Inr u)
      | (x1, Inl _) \<Rightarrow> ping ops (reopen ops x1))"

definition enqueue_tasks ::
  "('x, 'm) worker_ops_scheme \<Rightarrow> int \<Rightarrow> 'x sys \<Rightarrow> 'x sys \<times> (exn + unit)" where
  "enqueue_tasks ops now s =
     with_x (enqueue_due_tasks ops task_queue_key jitter_range_seconds
               urgent_priority_threshold now (sdb s)) s"

definition scan_once ::
  "('x, 'm) worker_ops_scheme \<Rightarrow> worker_config \<Rightarrow> ('x sys \<Rightarrow> 'x sys) \<Rightarrow> string \<Rightarrow> 'x scheduler
     \<Rightarrow> 'x scheduler \<times> (exn + unit)" where
  "scan_once ops cfg cancelled mode c =
     (case with_x (ensure_redis_connection ops) (sc_sys c) of
        (s1, Inl e) \<Rightarrow> (c\<lparr>sc_sys := s1\<rparr>, Inl e)
      | (s1, Inr _) \<Rightarrow>
          (let now = timestamp (now_of ops (sx s1));
               (s2, r) = (if mode \<in> {''all'', ''producer''} then enqueue_tasks ops now s1 else (s1, Inr ()))
           in case r of
                Inl e \<Rightarrow> (c\<lparr>sc_sys := s2\<rparr>, Inl e)
              | Inr _ \<Rightarrow>
                  if mode \<notin> {''all'', ''consumer''} then (c\<lparr>sc_sys := s2\<rparr>, Inr ())
                  else case with_x (get_pending_tasks ops task_queue_key now
                                      (nat (task_concurrency cfg)) (sdb s2)) s2 of
                    (s3, Inl e) \<Rightarrow> (c\<lparr>sc_sys := s3\<rparr>, Inl e)
                  | (s3, Inr ts) \<Rightarrow>
                      (case execute_pending_tasks ops cfg cancelled (map t_id ts) (c\<lparr>sc_sys := s3\<rparr>) of
                         (c4, Inl e) \<Rightarrow> (c4, Inl e)
                       | (c4, Inr _) \<Rightarrow> (c4, Inr ()))))"

definition tick ::
  "('x, 'm) worker_ops_scheme \<Rightarrow> worker_config \<Rightarrow> ('x sys \<Rightarrow> 'x sys) \<Rightarrow> string \<Rightarrow> 'x scheduler
     \<Rightarrow> 'x scheduler \<times> (exn + unit)" where
  "tick ops cfg cancelled mode c =
     (let (c1, r) = scan_once ops cfg cancelled mode (c\<lparr>last_tick_started_at := Some (clock_of ops c)\<rparr>)
      in (c1\<lparr>last_tick_error := (case r of Inl e \<Rightarrow> Some e | Inr _ \<Rightarrow> None),
             last_tick_finished_at := Some (clock_of ops c1)\<rparr>, r))"

section \<open>Recovery\<close>

definition repair_task :: "int \<Rightarrow> task \<Rightarrow> task" where
  "repair_task now t =
     (if \<not> t_enabled t then t
      else if int_true (t_end t) \<and> the (t_end t) < now then t\<lparr>t_enabled := False\<rparr>
      else if t_next t = None then t\<lparr>t_next := Some (initial_next t now)\<rparr>
      else t)"

definition repair_tasks :: "int \<Rightarrow> db \<Rightarrow> db" where
  "repair_tasks now d = d\<lparr>tasks := map (repair_task now) (tasks d)\<rparr>"

text \<open>The \<open>SCAN\<close> loop over the keys of the processing locks: \<open>None\<close> would be a cursor that
  never returns to 0.\<close>

partial_function (option) clear_processing_locks ::
  "('x, 'm) worker_ops_scheme \<Rightarrow> int \<Rightarrow> 'x \<Rightarrow> ('x \<times> (exn + unit)) option" where
  "clear_processing_locks ops cursor x =
     (case scan_keys ops cursor (processing_queue_key @ '':*'') x of
        (x1, Inl e) \<Rightarrow> Some (x1, Inl e)
      | (x1, Inr (cursor', keys)) \<Rightarrow>
          (case (if keys = [] then (x1, Inr 0) else del_keys ops keys x1) of
             (x2, Inl e) \<Rightarrow> Some (x2, Inl e)
           | (x2, Inr _) \<Rightarrow> if cursor' = 0 then Some (x2, Inr ())
                            else clear_processing_locks ops cursor' x2))"

declare clear_processing_locks.simps [code]

definition recover_runtime_state ::
  "('x, 'm) worker_ops_scheme \<Rightarrow> 'x sys \<Rightarrow> ('x sys \<times> (exn + unit)) option" where
  "recover_runtime_state ops s =
     (let now = timestamp (now_of ops (sx s)); s1 = on_db (repair_tasks now) s in
      case clear_processing_locks ops 0 (sx s1) of
        None \<Rightarrow> None
      | Some (x2, Inl e) \<Rightarrow> Some (s1\<lparr>sx := x2\<rparr>, Inl e)
      | Some (x2, Inr _) \<Rightarrow> Some (enqueue_tasks ops now (s1\<lparr>sx := x2\<rparr>)))"

end
