(* ===== verification/Fleet.thy ===== *)
theory Fleet
  imports Worker
begin

text \<open>
  Several scheduler workers on one Redis: the interleavings of their steps around the
  processing lock, the starts of workers among them. A state holds the world and, for each
  worker, the task it holds, its token, the time at which it asked for the lock, and whether
  the recovery of a starting worker has deleted that lock since. The documented behaviour of
  \<open>SET NX EX\<close>, \<open>GET\<close>, \<open>DEL\<close> and of \<open>uuid4\<close> is the hypothesis \<open>lock_laws\<close>, for a view of the
  world: the value and the expiry stored under a key, and the tokens handed out so far.
\<close>

record 'x lock_view =
  stored :: "'x \<Rightarrow> string \<Rightarrow> (string \<times> datetime) option"
  used :: "'x \<Rightarrow> string set"

definition live_at :: "datetime \<Rightarrow> (string \<times> datetime) option \<Rightarrow> bool" where
  "live_at n e = (case e of None \<Rightarrow> False | Some (_, until) \<Rightarrow> n < until)"

text \<open>\<open>moment x t x'\<close>: the call from \<open>x\<close> to \<open>x'\<close> may have been served at the time \<open>t\<close>.\<close>

definition moment :: "('x, 'm) clock_ops_scheme \<Rightarrow> 'x \<Rightarrow> datetime \<Rightarrow> 'x \<Rightarrow> bool" where
  "moment ops x t x' \<longleftrightarrow> now_of ops x \<le> t \<and> t \<le> now_of ops x'"

definition lock_laws :: "('x, 'm) worker_ops_scheme \<Rightarrow> 'x lock_view \<Rightarrow> bool" where
  "lock_laws ops v \<longleftrightarrow>
     (\<forall>k tok ttl x x' r. set_nx ops k tok ttl x = (x', r) \<longrightarrow>
        used v x' = used v x \<and> (\<exists>t. moment ops x t x' \<and>
          (if live_at t (stored v x k) then stored v x' = stored v x \<and> r \<noteq> Inr True
           else (stored v x' = (stored v x)(k \<mapsto> (tok, t + secs ttl)) \<and> r \<noteq> Inr False)
             \<or> (stored v x' = stored v x \<and> isl r))))
   \<and> (\<forall>k x x' r. get_key ops k x = (x', r) \<longrightarrow>
        used v x' = used v x \<and> stored v x' = stored v x \<and> now_of ops x \<le> now_of ops x'
        \<and> (\<forall>tok. r = Inr (Some tok) \<longrightarrow> (\<exists>e. stored v x k = Some (tok, e))))
   \<and> (\<forall>k x x' r. del_key ops k x = (x', r) \<longrightarrow>
        used v x' = used v x \<and> now_of ops x \<le> now_of ops x'
        \<and> (stored v x' = (stored v x)(k := None) \<or> (stored v x' = stored v x \<and> isl r)))
   \<and> (\<forall>ks x x' r. del_keys ops ks x = (x', r) \<longrightarrow>
        used v x' = used v x \<and> now_of ops x \<le> now_of ops x'
        \<and> (stored v x' = (\<lambda>k. if k \<in> set ks then None else stored v x k)
           \<or> (stored v x' = stored v x \<and> isl r)))
   \<and> (\<forall>x x' tok. new_token ops x = (x', tok) \<longrightarrow>
        tok \<notin> used v x \<and> used v x' = insert tok (used v x)
        \<and> stored v x' = stored v x \<and> now_of ops x \<le> now_of ops x')"

section \<open>Steps\<close>

record job =
  j_task :: string
  j_token :: string
  j_since :: datetime
  j_cleared :: bool

type_synonym 'x fleet = "'x \<times> (nat \<Rightarrow> job option)"

definition asked :: "string \<Rightarrow> string \<Rightarrow> datetime \<Rightarrow> job" where
  "asked tid tok now = \<lparr>j_task = tid, j_token = tok, j_since = now, j_cleared = False\<rparr>"

text \<open>What the deletion of some keys does to the jobs whose locks are among them.\<close>

definition clear_job :: "string list \<Rightarrow> job \<Rightarrow> job" where
  "clear_job ks j = (if processing_key (j_task j) \<in> set ks then j\<lparr>j_cleared := True\<rparr> else j)"

definition cleared_jobs :: "string list \<Rightarrow> (nat \<Rightarrow> job option) \<Rightarrow> nat \<Rightarrow> job option" where
  "cleared_jobs ks jobs w = map_option (clear_job ks) (jobs w)"

text \<open>
  What may happen between two calls on the lock of a worker: the runs, their bookkeeping and
  everything else move the clock and change the world, but not the processing locks.
\<close>

definition leaves_locks :: "('x, 'm) clock_ops_scheme \<Rightarrow> 'x lock_view \<Rightarrow> 'x \<Rightarrow> 'x \<Rightarrow> bool" where
  "leaves_locks ops v x x' \<longleftrightarrow>
     now_of ops x \<le> now_of ops x' \<and> used v x' = used v x
     \<and> (\<forall>tid. stored v x' (processing_key tid) = stored v x (processing_key tid))"

inductive fleet_step ::
  "('x, 'm) worker_ops_scheme \<Rightarrow> worker_config \<Rightarrow> 'x lock_view \<Rightarrow> 'x fleet \<Rightarrow> 'x fleet \<Rightarrow> bool"
  for ops cfg v where
  take: "jobs w = None \<Longrightarrow> take_processing_lock ops cfg tid x = (x', Inr (Some tok)) \<Longrightarrow>
     fleet_step ops cfg v (x, jobs)
       (x', jobs(w \<mapsto> asked tid tok (now_of ops x)))"
| miss: "jobs w = None \<Longrightarrow> take_processing_lock ops cfg tid x = (x', r) \<Longrightarrow>
     (\<And>tok. r \<noteq> Inr (Some tok)) \<Longrightarrow> fleet_step ops cfg v (x, jobs) (x', jobs)"
| clear: "del_keys ops ks x = (x', r) \<Longrightarrow>
     fleet_step ops cfg v (x, jobs) (x', cleared_jobs ks jobs)"
| work: "leaves_locks ops v x x' \<Longrightarrow> fleet_step ops cfg v (x, jobs) (x', jobs)"
| release: "jobs w = Some j \<Longrightarrow> release_processing_lock ops (j_task j) (j_token j) x = (x', r) \<Longrightarrow>
     fleet_step ops cfg v (x, jobs) (x', jobs(w := None))"

inductive reachable ::
  "('x, 'm) worker_ops_scheme \<Rightarrow> worker_config \<Rightarrow> 'x lock_view \<Rightarrow> 'x fleet \<Rightarrow> bool"
  for ops cfg v where
  start: "reachable ops cfg v (x, \<lambda>w. None)"
| step: "reachable ops cfg v s \<Longrightarrow> fleet_step ops cfg v s s' \<Longrightarrow> reachable ops cfg v s'"

section \<open>Invariant\<close>

definition overdue :: "('x, 'm) clock_ops_scheme \<Rightarrow> worker_config \<Rightarrow> 'x \<Rightarrow> job \<Rightarrow> bool" where
  "overdue ops cfg x j \<longleftrightarrow> j_since j + secs (processing_ttl cfg) \<le> now_of ops x"

text \<open>A job no longer protected: its time to live is over, or a recovery has deleted its lock.\<close>

definition lapsed :: "('x, 'm) clock_ops_scheme \<Rightarrow> worker_config \<Rightarrow> 'x \<Rightarrow> job \<Rightarrow> bool" where
  "lapsed ops cfg x j \<longleftrightarrow> j_cleared j \<or> overdue ops cfg x j"

text \<open>
  The lock of a worker is stored under its token and lasts at least the time to live from the
  moment it was asked for, unless the job has lapsed.
\<close>

definition holds_lock ::
  "('x, 'm) clock_ops_scheme \<Rightarrow> worker_config \<Rightarrow> 'x lock_view \<Rightarrow> 'x \<Rightarrow> job \<Rightarrow> bool" where
  "holds_lock ops cfg v x j \<longleftrightarrow> lapsed ops cfg x j
     \<or> (\<exists>e. stored v x (processing_key (j_task j)) = Some (j_token j, e)
            \<and> j_since j + secs (processing_ttl cfg) \<le> e)"

definition job_ok ::
  "('x, 'm) clock_ops_scheme \<Rightarrow> worker_config \<Rightarrow> 'x lock_view \<Rightarrow> 'x \<Rightarrow> job \<Rightarrow> bool" where
  "job_ok ops cfg v x j \<longleftrightarrow> holds_lock ops cfg v x j \<and> j_token j \<in> used v x
     \<and> j_since j \<le> now_of ops x"

text \<open>The first of two jobs asked for its lock no later than the second, and has lapsed.\<close>

definition outlived ::
  "('x, 'm) clock_ops_scheme \<Rightarrow> worker_config \<Rightarrow> 'x \<Rightarrow> job \<Rightarrow> job \<Rightarrow> bool" where
  "outlived ops cfg x j j' \<longleftrightarrow> j_since j \<le> j_since j' \<and> lapsed ops cfg x j"

definition apart ::
  "('x, 'm) clock_ops_scheme \<Rightarrow> worker_config \<Rightarrow> 'x \<Rightarrow> job \<Rightarrow> job \<Rightarrow> bool" where
  "apart ops cfg x j j' \<longleftrightarrow> j_token j \<noteq> j_token j'
     \<and> (j_task j = j_task j' \<longrightarrow> outlived ops cfg x j j' \<or> outlived ops cfg x j' j)"

definition fleet_ok ::
  "('x, 'm) clock_ops_scheme \<Rightarrow> worker_config \<Rightarrow> 'x lock_view \<Rightarrow> 'x fleet \<Rightarrow> bool" where
  "fleet_ok ops cfg v s \<longleftrightarrow>
     (\<forall>w j. snd s w = Some j \<longrightarrow> job_ok ops cfg v (fst s) j)
     \<and> (\<forall>w w' j j'. snd s w = Some j \<longrightarrow> snd s w' = Some j' \<longrightarrow> w \<noteq> w' \<longrightarrow> apart ops cfg (fst s) j j')"

lemma processing_key_inject [simp]: "processing_key a = processing_key b \<longleftrightarrow> a = b"
  by (simp add: processing_key_def)

lemma laws_set:
  assumes "lock_laws ops v" "set_nx ops k tok ttl x = (x', r)"
  shows "used v x' = used v x \<and> (\<exists>t. moment ops x t x' \<and>
          (if live_at t (stored v x k) then stored v x' = stored v x \<and> r \<noteq> Inr True
           else (stored v x' = (stored v x)(k \<mapsto> (tok, t + secs ttl)) \<and> r \<noteq> Inr False)
             \<or> (stored v x' = stored v x \<and> isl r)))"
  by (rule assms(1) [unfolded lock_laws_def, THEN conjunct1, rule_format, OF assms(2)])

lemma laws_get:
  assumes "lock_laws ops v" "get_key ops k x = (x', r)"
  shows "used v x' = used v x \<and> stored v x' = stored v x \<and> now_of ops x \<le> now_of ops x'
        \<and> (\<forall>tok. r = Inr (Some tok) \<longrightarrow> (\<exists>e. stored v x k = Some (tok, e)))"
  using assms(1) [unfolded lock_laws_def, THEN conjunct2, THEN conjunct1, rule_format, OF assms(2)] by simp

lemma laws_del:
  assumes "lock_laws ops v" "del_key ops k x = (x', r)"
  shows "used v x' = used v x \<and> now_of ops x \<le> now_of ops x'
        \<and> (stored v x' = (stored v x)(k := None) \<or> (stored v x' = stored v x \<and> isl r))"
  using assms(1) [unfolded lock_laws_def, THEN conjunct2, THEN conjunct2, THEN conjunct1, rule_format, OF assms(2)] by simp

lemma laws_del_keys:
  assumes "lock_laws ops v" "del_keys ops ks x = (x', r)"
  shows "used v x' = used v x \<and> now_of ops x \<le> now_of ops x'
        \<and> (stored v x' = (\<lambda>k. if k \<in> set ks then None else stored v x k)
           \<or> (stored v x' = stored v x \<and> isl r))"
  using assms(1) [unfolded lock_laws_def, THEN conjunct2, THEN conjunct2, THEN conjunct2,
      THEN conjunct1, rule_format, OF assms(2)] by simp

lemma laws_token:
  assumes "lock_laws ops v" "new_token ops x = (x', tok)"
  shows "tok \<notin> used v x \<and> used v x' = insert tok (used v x)
        \<and> stored v x' = stored v x \<and> now_of ops x \<le> now_of ops x'"
  using assms(1) [unfolded lock_laws_def, THEN conjunct2, THEN conjunct2, THEN conjunct2,
      THEN conjunct2, rule_format, OF assms(2)] by simp

text \<open>The two calls on the lock, under the laws.\<close>

lemma take_facts:
  assumes laws: "lock_laws ops v" and run: "take_processing_lock ops cfg tid x = (x', r)"
  obtains tok t where "moment ops x t x'" "tok \<notin> used v x" "used v x' = insert tok (used v x)"
    "\<And>tok'. r = Inr (Some tok') \<Longrightarrow> tok' = tok"
    "stored v x' = stored v x \<and> (\<forall>tok'. r \<noteq> Inr (Some tok'))
     \<or> \<not> live_at t (stored v x (processing_key tid))
       \<and> stored v x' = (stored v x)(processing_key tid \<mapsto> (tok, t + secs (processing_ttl cfg)))"
proof -
  obtain x1 tok where t: "new_token ops x = (x1, tok)" by fastforce
  obtain q where s: "set_nx ops (processing_key tid) tok (processing_ttl cfg) x1 = (x', q)"
    and r: "r = (case q of Inl e \<Rightarrow> Inl e | Inr won \<Rightarrow> Inr (if won then Some tok else None))"
    using run t by (auto simp: take_processing_lock_def split: prod.splits sum.splits)
  have tf: "tok \<notin> used v x" "used v x1 = insert tok (used v x)" "stored v x1 = stored v x"
    "now_of ops x \<le> now_of ops x1"
    using laws_token [OF laws t] by simp_all
  obtain m where m: "moment ops x1 m x'" "used v x' = used v x1"
    "if live_at m (stored v x1 (processing_key tid)) then stored v x' = stored v x1 \<and> q \<noteq> Inr True
     else (stored v x' = (stored v x1)(processing_key tid \<mapsto> (tok, m + secs (processing_ttl cfg))) \<and> q \<noteq> Inr False)
       \<or> (stored v x' = stored v x1 \<and> isl q)"
    using laws_set [OF laws s] by blast
  show ?thesis
  proof
    show "moment ops x m x'" using m(1) tf(4) by (simp add: moment_def)
    show "tok \<notin> used v x" "used v x' = insert tok (used v x)" using tf m(2) by simp_all
    show "\<And>tok'. r = Inr (Some tok') \<Longrightarrow> tok' = tok" using r by (auto split: sum.splits if_splits)
    show "stored v x' = stored v x \<and> (\<forall>tok'. r \<noteq> Inr (Some tok'))
     \<or> \<not> live_at m (stored v x (processing_key tid))
       \<and> stored v x' = (stored v x)(processing_key tid \<mapsto> (tok, m + secs (processing_ttl cfg)))"
      using m(3) tf(3) r by (auto split: sum.splits if_splits)
  qed
qed

lemma release_facts:
  assumes laws: "lock_laws ops v" and run: "release_processing_lock ops tid tok x = (x', r)"
  shows "now_of ops x \<le> now_of ops x'" "used v x' = used v x"
    and "stored v x' = stored v x
      \<or> (\<exists>e. stored v x (processing_key tid) = Some (tok, e))
        \<and> stored v x' = (stored v x)(processing_key tid := None)"
proof -
  obtain x1 q where g: "get_key ops (processing_key tid) x = (x1, q)" by fastforce
  have gf: "used v x1 = used v x" "stored v x1 = stored v x" "now_of ops x \<le> now_of ops x1"
    "\<And>tok. q = Inr (Some tok) \<Longrightarrow> \<exists>e. stored v x (processing_key tid) = Some (tok, e)"
    using laws_get [OF laws g] by simp_all
  have "(now_of ops x \<le> now_of ops x' \<and> used v x' = used v x) \<and> (stored v x' = stored v x
      \<or> (\<exists>e. stored v x (processing_key tid) = Some (tok, e))
        \<and> stored v x' = (stored v x)(processing_key tid := None))"
  proof (cases "q = Inr (Some tok)")
    case True
    then have d: "del_key ops (processing_key tid) x1 = (x', r)"
      using run g by (simp add: release_processing_lock_def)
    have "used v x' = used v x1" "now_of ops x1 \<le> now_of ops x'"
      "stored v x' = (stored v x1)(processing_key tid := None) \<or> stored v x' = stored v x1"
      using laws_del [OF laws d] by blast+
    then show ?thesis using gf True by auto
  next
    case False
    then have "x' = x1"
      using run g by (auto simp: release_processing_lock_def split: sum.splits if_splits)
    then show ?thesis using gf by simp
  qed
  then show "now_of ops x \<le> now_of ops x'" "used v x' = used v x"
    "stored v x' = stored v x
      \<or> (\<exists>e. stored v x (processing_key tid) = Some (tok, e))
        \<and> stored v x' = (stored v x)(processing_key tid := None)"
    by blast+
qed

text \<open>A job stays good while its lock is not touched, or only after its time.\<close>

lemma job_ok_step:
  assumes "job_ok ops cfg v x j" "now_of ops x \<le> now_of ops x'" "used v x \<subseteq> used v x'"
    and "stored v x' (processing_key (j_task j)) = stored v x (processing_key (j_task j))
         \<or> lapsed ops cfg x' j"
  shows "job_ok ops cfg v x' j"
  using assms by (auto simp: job_ok_def holds_lock_def lapsed_def overdue_def)

lemma apart_later: "apart ops cfg x j j' \<Longrightarrow> now_of ops x \<le> now_of ops x' \<Longrightarrow> apart ops cfg x' j j'"
  by (auto simp: apart_def outlived_def lapsed_def overdue_def)

lemma apart_sym: "apart ops cfg x j j' \<Longrightarrow> apart ops cfg x j' j"
  by (auto simp: apart_def)

lemma clear_job_simps [simp]:
  "j_task (clear_job ks j) = j_task j" "j_token (clear_job ks j) = j_token j"
  "j_since (clear_job ks j) = j_since j"
  "j_cleared (clear_job ks j) \<longleftrightarrow> j_cleared j \<or> processing_key (j_task j) \<in> set ks"
  by (simp_all add: clear_job_def)

lemma apart_cleared:
  "apart ops cfg x j j' \<Longrightarrow> apart ops cfg x (clear_job ks j) (clear_job ks j')"
  by (auto simp: apart_def outlived_def lapsed_def overdue_def)

lemma cleared_ok:
  assumes laws: "lock_laws ops v" and run: "del_keys ops ks x = (x', r)"
    and j: "job_ok ops cfg v x j"
  shows "job_ok ops cfg v x' (clear_job ks j)"
proof -
  have d: "used v x' = used v x" "now_of ops x \<le> now_of ops x'"
    "stored v x' = (\<lambda>k. if k \<in> set ks then None else stored v x k) \<or> stored v x' = stored v x"
    using laws_del_keys [OF laws run] by blast+
  have "job_ok ops cfg v x (clear_job ks j)"
    using j by (auto simp: job_ok_def holds_lock_def lapsed_def overdue_def)
  moreover have "stored v x' (processing_key (j_task j)) = stored v x (processing_key (j_task j))
      \<or> lapsed ops cfg x' (clear_job ks j)"
    using d(3) by (cases "processing_key (j_task j) \<in> set ks") (auto simp: lapsed_def)
  ultimately show ?thesis using d(1,2) job_ok_step [of ops cfg v x "clear_job ks j" x'] by simp
qed

lemma take_keeps:
  assumes laws: "lock_laws ops v" and run: "take_processing_lock ops cfg tid x = (x', r)"
    and j: "job_ok ops cfg v x j"
  shows "job_ok ops cfg v x' j" and "now_of ops x \<le> now_of ops x'"
    and "r = Inr (Some tok) \<Longrightarrow> j_task j = tid \<Longrightarrow> lapsed ops cfg x' j"
proof -
  obtain tok' t where t: "moment ops x t x'" "used v x' = insert tok' (used v x)"
    "\<And>tok''. r = Inr (Some tok'') \<Longrightarrow> tok'' = tok'"
    "stored v x' = stored v x \<and> (\<forall>tok''. r \<noteq> Inr (Some tok''))
     \<or> \<not> live_at t (stored v x (processing_key tid))
       \<and> stored v x' = (stored v x)(processing_key tid \<mapsto> (tok', t + secs (processing_ttl cfg)))"
    by (rule take_facts [OF laws run]) (blast intro: that)
  have lapse: "lapsed ops cfg x' j"
    if "\<not> live_at t (stored v x (processing_key tid))" "j_task j = tid"
    using that t(1) j by (auto simp: job_ok_def holds_lock_def lapsed_def overdue_def live_at_def moment_def)
  then have "stored v x' (processing_key (j_task j)) = stored v x (processing_key (j_task j))
      \<or> lapsed ops cfg x' j"
    using t(4) by (cases "j_task j = tid") auto
  with j t(1,2) show "job_ok ops cfg v x' j" by (intro job_ok_step [OF j]) (auto simp: moment_def)
  show "now_of ops x \<le> now_of ops x'" using t(1) by (simp add: moment_def)
  show "lapsed ops cfg x' j" if "r = Inr (Some tok)" "j_task j = tid"
    using that t(4) lapse by blast
qed

lemma taken_ok:
  assumes laws: "lock_laws ops v" and run: "take_processing_lock ops cfg tid x = (x', Inr (Some tok))"
  shows "job_ok ops cfg v x' (asked tid tok (now_of ops x))"
    and "tok \<notin> used v x" and "used v x' = insert tok (used v x)"
proof -
  obtain tok' t where t: "moment ops x t x'" "tok' \<notin> used v x" "used v x' = insert tok' (used v x)"
    "\<And>tok''. Inr (Some tok) = Inr (Some tok'') \<Longrightarrow> tok'' = tok'"
    "stored v x' = stored v x \<and> (\<forall>tok''. Inr (Some tok) \<noteq> Inr (Some tok''))
     \<or> \<not> live_at t (stored v x (processing_key tid))
       \<and> stored v x' = (stored v x)(processing_key tid \<mapsto> (tok', t + secs (processing_ttl cfg)))"
    by (rule take_facts [OF laws run]) (blast intro: that)
  then show "tok \<notin> used v x" "used v x' = insert tok (used v x)"
    "job_ok ops cfg v x' (asked tid tok (now_of ops x))"
    by (auto simp: job_ok_def holds_lock_def moment_def asked_def)
qed

lemma release_keeps:
  assumes laws: "lock_laws ops v" and run: "release_processing_lock ops tid tok x = (x', r)"
    and j: "job_ok ops cfg v x j" "j_token j \<noteq> tok"
  shows "job_ok ops cfg v x' j"
proof -
  note f = release_facts [OF laws run]
  have "stored v x' (processing_key (j_task j)) = stored v x (processing_key (j_task j))
      \<or> lapsed ops cfg x' j"
    using f(1,3) j
    by (cases "j_task j = tid") (auto simp: job_ok_def holds_lock_def lapsed_def overdue_def)
  with f show ?thesis by (intro job_ok_step [OF j(1)]) auto
qed

text \<open>A new job is apart from every job there is.\<close>

lemma taken_apart:
  assumes laws: "lock_laws ops v" and run: "take_processing_lock ops cfg tid x = (x', Inr (Some tok))"
    and j: "job_ok ops cfg v x j"
  shows "apart ops cfg x' j (asked tid tok (now_of ops x))"
  using take_keeps(3) [OF laws run j, of tok] taken_ok(2) [OF laws run] j
  by (auto simp: apart_def outlived_def asked_def job_ok_def)

lemma fleet_okD:
  assumes "fleet_ok ops cfg v (x, jobs)"
  shows "jobs w = Some j \<Longrightarrow> job_ok ops cfg v x j"
    and "jobs w = Some j \<Longrightarrow> jobs w' = Some j' \<Longrightarrow> w \<noteq> w' \<Longrightarrow> apart ops cfg x j j'"
  using assms by (simp_all add: fleet_ok_def)

lemma fleet_okI:
  assumes "\<And>w j. jobs w = Some j \<Longrightarrow> job_ok ops cfg v x j"
    and "\<And>w w' j j'. jobs w = Some j \<Longrightarrow> jobs w' = Some j' \<Longrightarrow> w \<noteq> w' \<Longrightarrow> apart ops cfg x j j'"
  shows "fleet_ok ops cfg v (x, jobs)"
  using assms by (simp add: fleet_ok_def)

lemma take_job_ok:
  assumes laws: "lock_laws ops v" and ok: "fleet_ok ops cfg v (x, jobs)"
    and run: "take_processing_lock ops cfg tid x = (x', Inr (Some tok))"
  shows "fleet_ok ops cfg v (x', jobs(w \<mapsto> asked tid tok (now_of ops x)))"
proof (rule fleet_okI)
  let ?k = "asked tid tok (now_of ops x)"
  note old = fleet_okD [OF ok]
  have later: "apart ops cfg x' j j'"
    if "jobs u = Some j" "jobs u' = Some j'" "u \<noteq> u'" for u u' j j'
    by (rule apart_later [OF old(2) [OF that] take_keeps(2) [OF laws run old(1) [OF that(1)]]])
  show "job_ok ops cfg v x' j" if "(jobs(w \<mapsto> ?k)) u = Some j" for u j
    using that taken_ok(1) [OF laws run] take_keeps(1) [OF laws run old(1)]
    by (auto split: if_splits)
  show "apart ops cfg x' j j'"
    if "(jobs(w \<mapsto> ?k)) u = Some j" "(jobs(w \<mapsto> ?k)) u' = Some j'" "u \<noteq> u'" for u u' j j'
    using that later taken_apart [OF laws run old(1)] by (auto intro: apart_sym split: if_splits)
qed

lemma later_ok:
  assumes ok: "fleet_ok ops cfg v (x, jobs)" and now: "now_of ops x \<le> now_of ops x'"
    and sub: "\<And>w j. jobs' w = Some j \<Longrightarrow> jobs w = Some j \<and> job_ok ops cfg v x' j"
  shows "fleet_ok ops cfg v (x', jobs')"
proof (rule fleet_okI)
  show "job_ok ops cfg v x' j" if "jobs' w = Some j" for w j using sub [OF that] by simp
  show "apart ops cfg x' j j'" if "jobs' w = Some j" "jobs' w' = Some j'" "w \<noteq> w'" for w w' j j'
    using apart_later [OF fleet_okD(2) [OF ok] now] sub that by blast
qed

lemma fleet_step_ok:
  assumes laws: "lock_laws ops v" and "fleet_step ops cfg v s s'" "fleet_ok ops cfg v s"
  shows "fleet_ok ops cfg v s'"
  using assms(2,3)
proof cases
  case (take jobs w tid x x' tok)
  then show ?thesis using take_job_ok [OF laws _ take(4)] assms(3) by simp
next
  case (miss jobs w tid x x' r)
  have now: "now_of ops x \<le> now_of ops x'"
    by (rule take_facts [OF laws miss(4)]) (simp add: moment_def)
  show ?thesis
    unfolding miss(2)
    by (rule later_ok [OF assms(3) [unfolded miss(1)] now])
       (use take_keeps(1) [OF laws miss(4)] fleet_okD(1) [OF assms(3) [unfolded miss(1)]] in blast)
next
  case (clear ks x x' r jobs)
  have ok: "fleet_ok ops cfg v (x, jobs)" using clear assms(3) by simp
  have now: "now_of ops x \<le> now_of ops x'" using laws_del_keys [OF laws clear(3)] by simp
  have "fleet_ok ops cfg v (x', cleared_jobs ks jobs)"
    using cleared_ok [OF laws clear(3) fleet_okD(1) [OF ok]]
      apart_cleared [OF apart_later [OF fleet_okD(2) [OF ok] now]]
    by (intro fleet_okI) (auto simp: cleared_jobs_def)
  then show ?thesis using clear by simp
next
  case (work x x' jobs)
  have ok: "fleet_ok ops cfg v (x, jobs)" using work assms(3) by simp
  have "job_ok ops cfg v x' j" if "jobs w = Some j" for w j
    using work(3) by (intro job_ok_step [OF fleet_okD(1) [OF ok that]]) (auto simp: leaves_locks_def)
  then show ?thesis using later_ok [OF ok] work by (simp add: leaves_locks_def)
next
  case (release jobs w j x x' r)
  have ok: "fleet_ok ops cfg v (x, jobs)" using release assms(3) by simp
  have "job_ok ops cfg v x' k" if "jobs u = Some k" "u \<noteq> w" for u k
    using release_keeps [OF laws release(4) fleet_okD(1) [OF ok that(1)]]
      fleet_okD(2) [OF ok that(1) release(3) that(2)] by (simp add: apart_def)
  then have "fleet_ok ops cfg v (x', jobs(w := None))"
    by (intro later_ok [OF ok release_facts(1) [OF laws release(4)]]) (auto split: if_splits)
  then show ?thesis using release(2) by simp
qed

lemma reachable_ok:
  assumes "lock_laws ops v"
  shows "reachable ops cfg v s \<Longrightarrow> fleet_ok ops cfg v s"
  by (induction rule: reachable.induct) (simp_all add: fleet_ok_def [of _ _ _ "(_, \<lambda>w. None)"] fleet_step_ok [OF assms])

section \<open>The code takes these steps\<close>

text \<open>
  What one worker executes for a claimed task is a run of the step relation: the lock is taken,
  the run changes the world, and the lock is released by its token.
\<close>

lemma execute_from_queue_steps:
  assumes run: "execute_task_from_queue ops cfg cancelled tid c = (c', r)"
    and idle: "jobs w = None"
    and quiet: "\<And>c. leaves_locks ops v (sx (sc_sys c))
                  (sx (sc_sys (fst (run_claimed_task ops cfg cancelled tid c))))"
  shows "(fleet_step ops cfg v)\<^sup>*\<^sup>* (sx (sc_sys c), jobs) (sx (sc_sys c'), jobs)"
proof -
  obtain x1 q where t: "take_processing_lock ops cfg tid (sx (sc_sys c)) = (x1, q)" by fastforce
  show ?thesis
  proof (cases "\<exists>tok. q = Inr (Some tok)")
    case False
    with run t have "sx (sc_sys c') = x1"
      by (auto simp: execute_task_from_queue_def on_sys_def split: sum.splits option.splits)
    moreover have "fleet_step ops cfg v (sx (sc_sys c), jobs) (x1, jobs)"
      using False by (intro fleet_step.miss [where w = w, OF _ t]) (auto simp: idle)
    ultimately show ?thesis by auto
  next
    case True
    then obtain tok where q: "q = Inr (Some tok)" by blast
    let ?c1 = "on_sys (\<lambda>s. s\<lparr>sx := x1\<rparr>) c"
    let ?j = "asked tid tok (now_of ops (sx (sc_sys c)))"
    obtain c2 res where c2: "run_claimed_task ops cfg cancelled tid ?c1 = (c2, res)" by fastforce
    obtain x3 z where z: "release_processing_lock ops tid tok (sx (sc_sys c2)) = (x3, z)" by fastforce
    have x': "sx (sc_sys c') = x3"
      using run t q c2 z by (auto simp: execute_task_from_queue_def on_sys_def Let_def split: sum.splits)
    have 1: "fleet_step ops cfg v (sx (sc_sys c), jobs) (x1, jobs(w \<mapsto> ?j))"
      by (rule fleet_step.take) (simp_all add: idle t q)
    have 2: "fleet_step ops cfg v (x1, jobs(w \<mapsto> ?j)) (sx (sc_sys c2), jobs(w \<mapsto> ?j))"
      using quiet [of ?c1] c2 by (intro fleet_step.work) (simp add: on_sys_def)
    have 3: "fleet_step ops cfg v (sx (sc_sys c2), jobs(w \<mapsto> ?j)) (x3, jobs)"
      using fleet_step.release [of "jobs(w \<mapsto> ?j)" w ?j ops "sx (sc_sys c2)" x3 z cfg v] z idle
      by (simp add: fun_upd_idem asked_def)
    from 1 2 3 x' show ?thesis by (meson converse_rtranclp_into_rtranclp rtranclp.rtrancl_refl)
  qed
qed

text \<open>
  So is the start of a worker: its recovery scans for processing locks and deletes what it finds.
\<close>

lemmas clear_processing_locks_induct =
  clear_processing_locks.raw_induct [where xa = "((ops, n), x)" for ops n x, unfolded prod.case]

lemma clear_processing_locks_steps:
  assumes scan: "\<And>n p x. leaves_locks ops v x (fst (scan_keys ops n p x))"
    and run: "clear_processing_locks ops n x = Some (x', r)"
  shows "\<exists>jobs'. (fleet_step ops cfg v)\<^sup>*\<^sup>* (x, jobs) (x', jobs') \<and> dom jobs' = dom jobs"
proof -
  have "\<forall>jobs. \<exists>jobs'. (fleet_step ops cfg v)\<^sup>*\<^sup>* (x, jobs) (fst y, jobs') \<and> dom jobs' = dom jobs"
    if "clear_processing_locks ops n x = Some y" for y
  proof (rule clear_processing_locks_induct [where P = "\<lambda>o' n x y. o' = ops \<longrightarrow>
      (\<forall>jobs. \<exists>jobs'. (fleet_step ops cfg v)\<^sup>*\<^sup>* (x, jobs) (fst y, jobs') \<and> dom jobs' = dom jobs)",
      OF _ that, THEN mp, OF _ refl], intro impI allI)
    fix f o' n x y jobs
    assume IH: "\<And>o' n x y. f o' n x = Some y \<Longrightarrow> o' = ops \<longrightarrow>
        (\<forall>jobs. \<exists>jobs'. (fleet_step ops cfg v)\<^sup>*\<^sup>* (x, jobs) (fst y, jobs') \<and> dom jobs' = dom jobs)"
      and o': "o' = ops"
      and body: "(case scan_keys o' n (processing_queue_key @ '':*'') x of
        (x1, Inl e) \<Rightarrow> Some (x1, Inl e)
      | (x1, Inr (cursor', keys)) \<Rightarrow>
          (case (if keys = [] then (x1, Inr 0) else del_keys o' keys x1) of
             (x2, Inl e) \<Rightarrow> Some (x2, Inl e)
           | (x2, Inr _) \<Rightarrow> if cursor' = 0 then Some (x2, Inr ()) else f o' cursor' x2)) = Some y"
    obtain x1 q where s: "scan_keys ops n (processing_queue_key @ '':*'') x = (x1, q)" by fastforce
    have 1: "fleet_step ops cfg v (x, jobs) (x1, jobs)"
      using scan [of x n "processing_queue_key @ '':*''"] s by (intro fleet_step.work) simp
    show "\<exists>jobs'. (fleet_step ops cfg v)\<^sup>*\<^sup>* (x, jobs) (fst y, jobs') \<and> dom jobs' = dom jobs"
    proof (cases q)
      case (Inl e)
      then show ?thesis using body s o' 1 by (intro exI [of _ jobs]) auto
    next
      case (Inr ck)
      obtain m ks where ck: "ck = (m, ks)" by fastforce
      obtain x2 z where z: "(if ks = [] then (x1, Inr 0) else del_keys ops ks x1) = (x2, z)" by fastforce
      obtain js where 2: "(fleet_step ops cfg v)\<^sup>*\<^sup>* (x, jobs) (x2, js)" and js: "dom js = dom jobs"
      proof (cases "ks = []")
        case True
        then show ?thesis using that [of jobs] 1 z by auto
      next
        case False
        then have "fleet_step ops cfg v (x1, jobs) (x2, cleared_jobs ks jobs)"
          using z by (intro fleet_step.clear) simp
        then show ?thesis
          using 1 by (intro that [of "cleared_jobs ks jobs"]) (auto simp: cleared_jobs_def dom_def)
      qed
      show ?thesis
      proof (cases "(\<exists>e. z = Inl e) \<or> m = 0")
        case True
        then have "fst y = x2" using body s o' Inr ck z by (auto split: sum.splits if_splits)
        then show ?thesis using 2 js by blast
      next
        case False
        then have "f ops m x2 = Some y"
          using body s o' Inr ck z by (auto split: sum.splits if_splits)
        then obtain js' where "(fleet_step ops cfg v)\<^sup>*\<^sup>* (x2, js) (fst y, js')" "dom js' = dom js"
          using IH by blast
        then show ?thesis using 2 js by (metis rtranclp_trans)
      qed
    qed
  qed
  from this [OF run] show ?thesis by simp
qed

lemma recovery_steps:
  assumes scan: "\<And>n p x. leaves_locks ops v x (fst (scan_keys ops n p x))"
    and quiet: "\<And>now s. leaves_locks ops v (sx s) (sx (fst (enqueue_tasks ops now s)))"
    and run: "recover_runtime_state ops s = Some (s', r)"
  shows "\<exists>jobs'. (fleet_step ops cfg v)\<^sup>*\<^sup>* (sx s, jobs) (sx s', jobs') \<and> dom jobs' = dom jobs"
proof -
  obtain x2 z where z: "clear_processing_locks ops 0 (sx s) = Some (x2, z)"
    using run by (auto simp: recover_runtime_state_def Let_def split: option.splits)
  obtain js where js: "(fleet_step ops cfg v)\<^sup>*\<^sup>* (sx s, jobs) (x2, js)" "dom js = dom jobs"
    using clear_processing_locks_steps [OF scan z] by blast
  have "sx s' = x2 \<or> leaves_locks ops v x2 (sx s')"
    using run z quiet [of "s\<lparr>sdb := sdb (on_db (repair_tasks (timestamp (now_of ops (sx s)))) s), sx := x2\<rparr>"
      "timestamp (now_of ops (sx s))"]
    by (auto simp: recover_runtime_state_def Let_def on_db_def split: sum.splits)
  then have "(fleet_step ops cfg v)\<^sup>*\<^sup>* (x2, js) (sx s', js)" by (auto intro: fleet_step.work)
  then show ?thesis using js by (meson rtranclp_trans)
qed

end
