(* ===== verification/SampleWorker.thy ===== *)
theory SampleWorker
  imports SampleWorld Fleet
begin

text \<open>
  The small world of theory \<open>SampleWorld\<close> as the world of a scheduler: its Redis also has
  sorted sets and scans, and it hands out tokens.
\<close>

definition zmembers :: "string \<Rightarrow> world \<Rightarrow> string list" where
  "zmembers q w = remdups (map (\<lambda>((_, m), _). m) (filter (\<lambda>((k, _), _). k = q) (w_zset w)))"

definition zview_world :: "world zview" where
  "zview_world w q m = map_of (w_zset w) (q, m)"

definition zscore_world :: "string \<Rightarrow> string \<Rightarrow> world \<Rightarrow> world \<times> (exn + int option)" where
  "zscore_world q m w = (w, Inr (map_of (w_zset w) (q, m)))"

definition zadd_world :: "string \<Rightarrow> string \<Rightarrow> int \<Rightarrow> world \<Rightarrow> world \<times> (exn + int)" where
  "zadd_world q m c w = (w\<lparr>w_zset := ((q, m), c) # w_zset w\<rparr>, Inr 1)"

definition zrange_world ::
  "string \<Rightarrow> int \<Rightarrow> int \<Rightarrow> nat \<Rightarrow> world \<Rightarrow> world \<times> (exn + string list)" where
  "zrange_world q lo hi n w =
     (let score = (\<lambda>m. the (map_of (w_zset w) (q, m))) in
      (w, Inr (take n (sort_key score (filter (\<lambda>m. lo \<le> score m \<and> score m \<le> hi) (zmembers q w))))))"

definition zrem_world :: "string \<Rightarrow> string list \<Rightarrow> world \<Rightarrow> world \<times> (exn + int)" where
  "zrem_world q ms w =
     (w\<lparr>w_zset := filter (\<lambda>((k, m), _). \<not> (k = q \<and> m \<in> set ms)) (w_zset w)\<rparr>, Inr (int (length ms)))"

definition token_world :: "world \<Rightarrow> world \<times> string" where
  "token_world w = (w\<lparr>w_tokens := Suc (w_tokens w)\<rparr>, replicate (w_tokens w) (CHR ''x''))"

definition scan_world :: "int \<Rightarrow> string \<Rightarrow> world \<Rightarrow> world \<times> (exn + int \<times> string list)" where
  "scan_world cursor pattern w =
     (w, Inr (0, filter (starts_with (butlast pattern)) (map fst (w_keys w))))"

definition del_keys_world :: "string list \<Rightarrow> world \<Rightarrow> world \<times> (exn + int)" where
  "del_keys_world ks w =
     (w\<lparr>w_keys := filter (\<lambda>(k, _). k \<notin> set ks) (w_keys w)\<rparr>, Inr (int (length ks)))"

definition sample_queue_ops :: "world queue_ops" where
  "sample_queue_ops =
     tg_ops.extend sample_ops (queue_ops.fields zscore_world zadd_world zrange_world zrem_world)"

definition sample_worker_ops :: "world worker_ops" where
  "sample_worker_ops =
     queue_ops.extend sample_queue_ops
       (worker_ops.fields token_world scan_world del_keys_world (\<lambda>w. (w, Inr ())) (\<lambda>w. w))"

lemmas sample_worker_defs = sample_worker_ops_def sample_queue_ops_def sample_ops_def
  tg_ops.extend_def queue_ops.extend_def queue_ops.fields_def worker_ops.fields_def

lemma sample_worker_simps [simp]:
  "now_of sample_worker_ops = w_now" "set_nx sample_worker_ops = set_nx_world"
  "get_key sample_worker_ops = get_world" "del_key sample_worker_ops = del_world"
  "rand_int sample_worker_ops = (\<lambda>a b w. (w, a))"
  "zscore sample_worker_ops = zscore_world" "zadd sample_worker_ops = zadd_world"
  "zrange_by_score sample_worker_ops = zrange_world" "zrem sample_worker_ops = zrem_world"
  "new_token sample_worker_ops = token_world" "del_keys sample_worker_ops = del_keys_world"
  by (simp_all add: sample_worker_defs)

lemma worker_clock_forward: "clock_forward sample_worker_ops"
  by (simp add: clock_forward_def sample_worker_defs sleep_world_def set_nx_world_def del_world_def
      send_world_def Let_def secs_def split: list.split)

lemma worker_sleep_elapses: "sleep_elapses sample_worker_ops"
  by (simp add: sleep_elapses_def sample_worker_defs sleep_world_def)

lemma set_zmembers: "m \<in> set (zmembers q w) \<longleftrightarrow> map_of (w_zset w) (q, m) \<noteq> None"
  by (force simp: zmembers_def map_of_eq_None_iff)

lemma distinct_zmembers [simp]: "distinct (zmembers q w)"
  by (simp add: zmembers_def)

lemma lowest_due_world:
  assumes "zrange_world q 0 hi n w = (w', Inr ms)"
  shows "w' = w \<and> lowest_due (zview_world w q) hi n ms"
proof -
  define score where "score m = the (map_of (w_zset w) (q, m))" for m
  define due where "due = sort_key score (filter (\<lambda>m. 0 \<le> score m \<and> score m \<le> hi) (zmembers q w))"
  have ms: "ms = take n due" and w': "w' = w"
    using assms by (auto simp: zrange_world_def Let_def due_def score_def [abs_def])
  have sorted: "sorted (map score due)" and dist: "distinct due" and
    set_due: "set due = {m. map_of (w_zset w) (q, m) \<noteq> None \<and> 0 \<le> score m \<and> score m \<le> hi}"
    by (auto simp: due_def distinct_sort set_zmembers)
  have view: "zview_world w q m = Some c \<longleftrightarrow> map_of (w_zset w) (q, m) \<noteq> None \<and> score m = c" for m c
    by (auto simp: zview_world_def score_def)
  have rest: "length ms = n \<and> (\<forall>k \<in> set ms. score k \<le> score m)"
    if "m \<in> set due" "m \<notin> set ms" for m
  proof -
    have "m \<in> set (drop n due)"
      using that ms by (metis Un_iff append_take_drop_id set_append)
    moreover from this have "n < length due"
      by (metis drop_all empty_iff empty_set not_le)
    moreover have "sorted (map score (take n due @ drop n due))" using sorted by simp
    then have "\<forall>k \<in> set (take n due). \<forall>m \<in> set (drop n due). score k \<le> score m"
      by (simp only: map_append sorted_append set_map) blast
    ultimately show ?thesis using ms by auto
  qed
  have "lowest_due (zview_world w q) hi n ms"
    unfolding lowest_due_def
  proof (intro conjI ballI allI impI)
    show "distinct ms" "length ms \<le> n" using dist ms by simp_all
    show "\<exists>c. zview_world w q m = Some c \<and> 0 \<le> c \<and> c \<le> hi" if "m \<in> set ms" for m
      using that ms set_due view by (auto dest: in_set_takeD)
    show "length ms = n" if "zview_world w q m = Some c" "0 \<le> c" "c \<le> hi" "m \<notin> set ms" for m c
      using that view rest [of m] set_due by auto
    show "the (zview_world w q k) \<le> c"
      if "zview_world w q m = Some c" "0 \<le> c" "c \<le> hi" "m \<notin> set ms" "k \<in> set ms" for m c k
      using that view [of m c] rest [of m] set_due by (auto simp: zview_world_def score_def)
  qed
  then show ?thesis using w' by simp
qed

lemma sample_sorted_set_laws: "sorted_set_laws sample_worker_ops zview_world"
proof -
  have rem: "zview_world w' = (zview_world w)(q := (\<lambda>m. if m \<in> set ms then None else zview_world w q m))"
    if "zrem_world q ms w = (w', r)" for q ms w w' r
  proof (intro ext)
    fix k m
    have "map_of (filter (\<lambda>((k, m), _). \<not> (k = q \<and> m \<in> set ms)) xs) (k, m) =
        (if k = q \<and> m \<in> set ms then None else map_of xs (k, m))"
      for xs :: "((string \<times> string) \<times> int) list"
      by (induction xs) auto
    then show "zview_world w' k m
        = ((zview_world w)(q := (\<lambda>m. if m \<in> set ms then None else zview_world w q m))) k m"
      using that by (auto simp: zrem_world_def zview_world_def)
  qed
  show ?thesis
    unfolding sorted_set_laws_def
    by (auto simp: zscore_world_def zadd_world_def zview_world_def fun_eq_iff dest: lowest_due_world)
       (use lowest_due_world rem in \<open>auto simp: zview_world_def fun_eq_iff\<close>)
qed

definition sample_locks :: "world lock_view" where
  "sample_locks = \<lparr>stored = (\<lambda>w k. map_of (w_keys w) k),
     used = (\<lambda>w. (\<lambda>n. replicate n (CHR ''x'')) ` {..<w_tokens w})\<rparr>"

lemma map_of_remove: "map_of (filter (\<lambda>(k', _). k' \<noteq> k) xs) = (map_of xs)(k := None)"
  by (induction xs) (auto simp: fun_eq_iff)

lemma map_of_remove_keys:
  "map_of (filter (\<lambda>(k', _). k' \<notin> set ks) xs) = (\<lambda>k. if k \<in> set ks then None else map_of xs k)"
  by (induction xs) (auto simp: fun_eq_iff)

lemma sample_lock_laws: "lock_laws sample_worker_ops sample_locks"
proof -
  have fresh: "replicate n (CHR ''x'') \<notin> (\<lambda>n. replicate n (CHR ''x'')) ` {..<n}" for n
    by (auto dest: arg_cong [where f = length])
  have "insert (replicate n (CHR ''x'')) ((\<lambda>n. replicate n (CHR ''x'')) ` {..<n})
      = (\<lambda>n. replicate n (CHR ''x'')) ` {..<Suc n}" for n
    by (simp add: lessThan_Suc)
  then show ?thesis
    using fresh
    by (auto simp: lock_laws_def sample_locks_def moment_def live_at_def live_key_def
        set_nx_world_def get_world_def del_world_def del_keys_world_def token_world_def map_of_remove
        map_of_remove_keys
        split: option.splits if_splits)
qed

end
