(* ===== verification/QueueProps.thy ===== *)
theory QueueProps
  imports Queue SampleWorker
begin

text \<open>Properties of the queue: it refines a map from ids to times, and no due task is lost in it.\<close>

text \<open>
  C35: A scan refines the abstract queue: for each due task, in the order of the query, it draws a
  delay within the bounds of the task and offers the task for that time; nothing else in the
  sorted set changes. An offer never moves a waiting task to a later time.
\<close>

theorem enqueue_refines_offers:
  assumes "sorted_set_laws ops zv" "0 \<le> jitter_range"
    and "enqueue_due_tasks ops q jitter_range urgent now d x = (x', Inr u)"
  shows "\<exists>js. list_all2 (delay_allowed jitter_range urgent) (due_tasks now d) js
    \<and> zv x' = (zv x)(q := fold offer (zip (map t_id (due_tasks now d)) (map ((+) now) js)) (zv x q))"
  using enqueue_all_refines [OF assms(1,2)] assms(3) by (simp add: enqueue_due_tasks_def)

definition due_db :: db where
  "due_db = (empty_db sample_ids)\<lparr>
     tasks := [(blank_task ''t1'' 7)\<lparr>t_next := Some 10, t_delay_min := 5, t_delay_max := 20\<rparr>,
               (blank_task ''t2'' 7)\<lparr>t_next := Some 5, t_priority := 100, t_delay_max := 60\<rparr>,
               (blank_task ''t3'' 7)\<lparr>t_next := Some 99\<rparr>]\<rparr>"

lemma due_db_value: "map t_id (due_tasks 50 due_db) = [''t2'', ''t1'']"
  by code_simp

definition queued_world :: world where
  "queued_world = fst (enqueue_due_tasks sample_worker_ops ''q'' 300 100 50 due_db (start_world (secs 50) []))"

lemma queued_world_run:
  "enqueue_due_tasks sample_worker_ops ''q'' 300 100 50 due_db (start_world (secs 50) []) = (queued_world, Inr ())"
proof -
  have "case snd (enqueue_due_tasks sample_worker_ops ''q'' 300 100 50 due_db (start_world (secs 50) []))
      of Inl e \<Rightarrow> False | Inr u \<Rightarrow> True"
    by code_simp
  then show ?thesis
    by (auto simp: queued_world_def prod_eq_iff split: sum.splits)
qed

theorem enqueue_refines_offers_witness:
  "\<exists>js. length js = 2
     \<and> zview_world queued_world ''q'' = fold offer (zip [''t2'', ''t1''] (map ((+) 50) js)) (\<lambda>m. None)"
proof -
  have "zview_world (start_world (secs 50) []) ''q'' = (\<lambda>m. None)"
    by (simp add: zview_world_def start_world_def fun_eq_iff)
  moreover obtain js where "list_all2 (delay_allowed 300 100) (due_tasks 50 due_db) js"
    "zview_world queued_world = (zview_world (start_world (secs 50) []))(''q'' := fold offer
        (zip (map t_id (due_tasks 50 due_db)) (map ((+) 50) js)) (zview_world (start_world (secs 50) []) ''q''))"
    using enqueue_refines_offers [OF sample_sorted_set_laws _ queued_world_run] by auto
  moreover have "length (due_tasks 50 due_db) = 2"
    using due_db_value by (metis length_map length_Cons list.size(3) numeral_2_eq_2)
  ultimately show ?thesis
    by (intro exI [of _ js]) (simp add: due_db_value list_all2_lengthD [symmetric])
qed

text \<open>
  What happens to the queue in operation: scans of the producers, claims of the consumers, and
  whatever else leaves the sorted set alone, in any order; with the tasks claimed on the way.
\<close>

inductive queue_run ::
  "('x, 'm) queue_ops_scheme \<Rightarrow> string \<Rightarrow> int \<Rightarrow> int \<Rightarrow> 'x zview \<Rightarrow> 'x \<Rightarrow> string set \<Rightarrow> 'x \<Rightarrow> bool"
  for ops q jitter_range urgent zv x where
  start: "queue_run ops q jitter_range urgent zv x {} x"
| scan: "queue_run ops q jitter_range urgent zv x claimed y \<Longrightarrow> 0 \<le> now \<Longrightarrow>
     enqueue_due_tasks ops q jitter_range urgent now d y = (y', Inr u) \<Longrightarrow>
     queue_run ops q jitter_range urgent zv x claimed y'"
| claim: "queue_run ops q jitter_range urgent zv x claimed y \<Longrightarrow>
     claim_due_tasks ops q now n y = (y', Inr ids) \<Longrightarrow>
     queue_run ops q jitter_range urgent zv x (claimed \<union> set ids) y'"
| elsewhere: "queue_run ops q jitter_range urgent zv x claimed y \<Longrightarrow> zv y' q = zv y q \<Longrightarrow>
     queue_run ops q jitter_range urgent zv x claimed y'"

definition no_negative :: "(string \<Rightarrow> int option) \<Rightarrow> bool" where
  "no_negative z \<longleftrightarrow> (\<forall>m c. z m = Some c \<longrightarrow> 0 \<le> c)"

definition waits_until :: "string \<Rightarrow> int \<Rightarrow> (string \<Rightarrow> int option) \<Rightarrow> bool" where
  "waits_until m b z \<longleftrightarrow> (\<exists>c. z m = Some c \<and> c \<le> b)"

lemma waits_take_out: "waits_until m b z \<Longrightarrow> m \<notin> set ids \<Longrightarrow> waits_until m b (take_out ids z)"
  by (auto simp: waits_until_def take_out_def)

lemma no_negative_take_out: "no_negative z \<Longrightarrow> no_negative (take_out ids z)"
  by (auto simp: no_negative_def take_out_def)

text \<open>A scan keeps the waiting tasks at least as early, and lets the due ones wait.\<close>

lemma scan_facts:
  assumes laws: "sorted_set_laws ops zv" and "0 \<le> jitter_range" "0 \<le> now"
    and run: "enqueue_due_tasks ops q jitter_range urgent now d x = (x', Inr u)"
  shows "no_negative (zv x q) \<Longrightarrow> no_negative (zv x' q)"
    and "waits_until m b (zv x q) \<Longrightarrow> waits_until m b (zv x' q)"
    and "t \<in> set (due_tasks now d) \<Longrightarrow> waits_until (t_id t) (now + jitter_range + 120) (zv x' q)"
proof -
  let ?ts = "due_tasks now d"
  obtain js where js: "list_all2 (delay_allowed jitter_range urgent) ?ts js"
    and z: "zv x' q = fold offer (zip (map t_id ?ts) (map ((+) now) js)) (zv x q)"
    using enqueue_all_refines [OF laws assms(2)] run by (fastforce simp: enqueue_due_tasks_def)
  let ?es = "zip (map t_id ?ts) (map ((+) now) js)"
  have len: "length js = length ?ts" using js by (simp add: list_all2_lengthD)
  have delay: "delay_allowed jitter_range urgent (?ts ! i) (js ! i)" if "i < length ?ts" for i
    by (rule list_all2_nthD [OF js that])
  have pos: "0 \<le> c" if in_es: "(m, c) \<in> set ?es" for m c
  proof -
    obtain i where "i < length ?ts" "c = now + js ! i" using in_es len by (auto simp: set_zip)
    with delay [of i] assms(3) show ?thesis by (simp add: delay_allowed_def)
  qed
  show "no_negative (zv x q) \<Longrightarrow> no_negative (zv x' q)"
    unfolding no_negative_def z using fold_offer_ge [where lo = 0 and z = "zv x q" and es = ?es] pos by blast
  show "waits_until m b (zv x q) \<Longrightarrow> waits_until m b (zv x' q)"
    unfolding waits_until_def z using fold_offer_mono [of "zv x q" m _ ?es] by fastforce
  show "waits_until (t_id t) (now + jitter_range + 120) (zv x' q)" if "t \<in> set ?ts"
  proof -
    obtain i where i: "i < length ?ts" "t = ?ts ! i" using \<open>t \<in> set ?ts\<close> by (auto simp: in_set_conv_nth)
    then have "(t_id t, now + js ! i) \<in> set ?es" using len by (auto simp: set_zip intro!: exI [of _ i])
    from fold_offer_le [OF this, of "zv x q"] delay [OF i(1)] show ?thesis
      by (fastforce simp: waits_until_def z delay_allowed_def split: if_splits)
  qed
qed

lemma queue_run_keeps:
  assumes laws: "sorted_set_laws ops zv" and jr: "0 \<le> jitter_range"
    and start: "no_negative (zv x q)" "waits_until m b (zv x q)"
  shows "queue_run ops q jitter_range urgent zv x claimed y \<Longrightarrow>
    no_negative (zv y q) \<and> (m \<in> claimed \<or> waits_until m b (zv y q))"
proof (induction rule: queue_run.induct)
  case (scan claimed y now d y' u)
  then show ?case using scan_facts(1,2) [OF laws jr] by blast
next
  case (claim claimed y now n y' ids)
  then show ?case
    using claim_refines(2) [OF laws claim(2)] waits_take_out no_negative_take_out by auto
qed (use start in auto)

text \<open>
  C36: A due task is not lost in the queue. After the scan that saw it producers scan on,
  consumers claim, and the rest of the system runs, in any order, as long as Redis answers. A
  claim from \<open>jitter_range + 120\<close> seconds after that scan takes the task, unless one of the claims
  in between has taken it, or this claim is full; then all it takes were due as early.
\<close>

theorem queued_task_is_claimed_in_time:
  assumes laws: "sorted_set_laws ops zv" and "0 \<le> jitter_range" "0 \<le> now"
    and run: "enqueue_due_tasks ops q jitter_range urgent now d x = (x', Inr u)"
    and t: "t \<in> set (due_tasks now d)"
    and old: "\<And>m c. zv x q m = Some c \<Longrightarrow> 0 \<le> c"
    and meanwhile: "queue_run ops q jitter_range urgent zv x' claimed y"
    and later: "now + jitter_range + 120 \<le> later"
    and claim: "claim_due_tasks ops q later n y = (y', Inr ids)"
  shows "t_id t \<in> claimed \<union> set ids
    \<or> length ids = n \<and> (\<forall>k \<in> set ids. the (zv y q k) \<le> now + jitter_range + 120)"
proof -
  note scan = scan_facts [OF laws assms(2,3) run]
  have "no_negative (zv x' q)" using scan(1) old by (simp add: no_negative_def)
  from queue_run_keeps [OF laws assms(2) this scan(3) [OF t] meanwhile]
  have "no_negative (zv y q)" "t_id t \<in> claimed \<or> waits_until (t_id t) (now + jitter_range + 120) (zv y q)"
    by blast+
  moreover have "lowest_due (zv y q) later n ids" by (rule claim_refines(1) [OF laws claim])
  ultimately show ?thesis
    using later by (fastforce simp: lowest_due_def waits_until_def no_negative_def)
qed

theorem queued_task_is_claimed_in_time_witness:
  "\<exists>y1 y ids. claim_due_tasks sample_worker_ops ''q'' 54 2 queued_world = (y1, Inr [''t2''])
     \<and> claim_due_tasks sample_worker_ops ''q'' 500 2 y1 = (y, Inr ids) \<and> ''t1'' \<in> set ids"
proof -
  let ?claim = "claim_due_tasks sample_worker_ops ''q''"
  have v: "case ?claim 54 2 queued_world of (y1, Inr ids) \<Rightarrow> ids = [''t2'']
      \<and> (case snd (?claim 500 2 y1) of Inr ids \<Rightarrow> ids = [''t1''] | _ \<Rightarrow> False)
      | _ \<Rightarrow> False"
    by code_simp
  obtain y1 where c1: "?claim 54 2 queued_world = (y1, Inr [''t2''])"
    using v by (cases "?claim 54 2 queued_world") (auto split: sum.splits)
  obtain y where c2: "?claim 500 2 y1 = (y, Inr [''t1''])"
    using v c1 by (cases "?claim 500 2 y1") (auto split: sum.splits)
  let ?t = "(blank_task ''t1'' 7)\<lparr>t_next := Some 10, t_delay_min := 5, t_delay_max := 20\<rparr>"
  have t: "?t \<in> set (due_tasks 50 due_db)"
    by (simp add: due_tasks_def due_db_def due_task_def blank_task_def)
  have old: "0 \<le> c" if "zview_world (start_world (secs 50) []) ''q'' m = Some c" for m c
    using that by (simp add: zview_world_def start_world_def)
  have r: "queue_run sample_worker_ops ''q'' 300 100 zview_world queued_world ({} \<union> set [''t2'']) y1"
    by (rule queue_run.claim [OF queue_run.start c1])
  have "t_id ?t \<in> {} \<union> set [''t2''] \<union> set [''t1''] \<or> length [''t1''] = (2::nat)
      \<and> (\<forall>k \<in> set [''t1'']. the (zview_world y1 ''q'' k) \<le> 50 + 300 + 120)"
    by (rule queued_task_is_claimed_in_time [OF sample_sorted_set_laws _ _ queued_world_run t old r _ c2])
       simp_all
  then show ?thesis using c1 c2 by (intro exI [of _ y1] exI [of _ y] exI [of _ "[''t1'']"]) (simp add: blank_task_def)
qed

text \<open>
  A claimed id is claimed by one consumer: whatever another consumer claims from the queue
  before the next scan, it is a different set of tasks, and only ids that were due.
\<close>

theorem claims_are_disjoint:
  assumes "sorted_set_laws ops zv"
    and "claim_due_tasks ops q now n x = (x1, Inr ids)"
    and "zv y q = zv x1 q" "claim_due_tasks ops q now' n' y = (y1, Inr ids')"
  shows "set ids \<inter> set ids' = {} \<and> distinct ids \<and> length ids \<le> n
    \<and> (\<forall>m \<in> set ids'. \<exists>c. zv x q m = Some c \<and> c \<le> now')"
  using claim_refines [OF assms(1,2)] claim_refines(1) [OF assms(1,4)] assms(3)
  by (fastforce simp: lowest_due_def take_out_def split: if_splits)

theorem claims_are_disjoint_witness:
  "\<exists>x1 y1. claim_due_tasks sample_worker_ops ''q'' 500 1 queued_world = (x1, Inr [''t2''])
     \<and> claim_due_tasks sample_worker_ops ''q'' 500 1 x1 = (y1, Inr [''t1''])
     \<and> set [''t2''] \<inter> set [''t1''] = {}"
proof -
  have v: "case claim_due_tasks sample_worker_ops ''q'' 500 1 queued_world of (x1, Inr ids) \<Rightarrow> ids = [''t2'']
      \<and> (case snd (claim_due_tasks sample_worker_ops ''q'' 500 1 x1) of Inr ids \<Rightarrow> ids = [''t1''] | _ \<Rightarrow> False)
      | _ \<Rightarrow> False"
    by code_simp
  obtain x1 where c1: "claim_due_tasks sample_worker_ops ''q'' 500 1 queued_world = (x1, Inr [''t2''])"
    using v by (cases "claim_due_tasks sample_worker_ops ''q'' 500 1 queued_world") (auto split: sum.splits)
  obtain y1 where c2: "claim_due_tasks sample_worker_ops ''q'' 500 1 x1 = (y1, Inr [''t1''])"
    using v c1 by (cases "claim_due_tasks sample_worker_ops ''q'' 500 1 x1") (auto split: sum.splits)
  from claims_are_disjoint [OF sample_sorted_set_laws c1 refl c2] c1 c2 show ?thesis by auto
qed

end
