(* ===== verification/WorkerProps.thy ===== *)
theory WorkerProps
  imports Execution SampleWorker
begin

text \<open>Properties of the scheduler process: the processing lock, recovery, and repeated scans.\<close>

section \<open>Mutual exclusion\<close>

text \<open>
  C5: However the steps of the workers interleave, starts of workers included, two workers hold
  the same task only when the one that asked for it first has lost its protection: the time to
  live of its lock, the time limit of a run and a minute, is over, or the recovery of a worker
  started since has deleted the lock. Redis and the token generator behave as documented.
\<close>

theorem one_worker_runs_a_task:
  assumes "lock_laws ops v" "reachable ops cfg v (x, jobs)"
    and "jobs w = Some j" "jobs w' = Some j'" "w \<noteq> w'" "j_task j = j_task j'"
  shows "(j_since j \<le> j_since j' \<and> (j_cleared j \<or> j_since j + secs (task_timeout cfg + 60) \<le> now_of ops x))
       \<or> (j_since j' \<le> j_since j \<and> (j_cleared j' \<or> j_since j' + secs (task_timeout cfg + 60) \<le> now_of ops x))"
  using fleet_okD(2) [OF reachable_ok [OF assms(1,2)] assms(3-5)] assms(6)
  by (simp add: apart_def outlived_def lapsed_def overdue_def processing_ttl_def
      processing_lock_buffer_seconds_def)

definition demo_worker_cfg :: worker_config where
  "demo_worker_cfg = \<lparr>wc_run = \<lparr>max_failure_count = 5\<rparr>, wc_timeout = 360, wc_concurrency = 3\<rparr>"

theorem one_worker_runs_a_task_witness:
  "\<exists>x jobs j j'. reachable sample_worker_ops demo_worker_cfg sample_locks (x, jobs)
     \<and> jobs 0 = Some j \<and> jobs 1 = Some j' \<and> j_task j = ''t1'' \<and> j_task j' = ''t1''
     \<and> \<not> j_cleared j' \<and> j_since j \<le> j_since j' \<and> j_cleared j \<and> now_of sample_worker_ops x = 0"
proof -
  let ?x0 = "start_world 0 []" and ?k = "processing_key ''t1''"
  let ?take = "take_processing_lock sample_worker_ops demo_worker_cfg ''t1''"
  have v: "case ?take ?x0 of (x1, r1) \<Rightarrow> r1 = Inr (Some []) \<and> w_now x1 = 0 \<and>
      (case del_keys_world [?k] x1 of (x2, r2) \<Rightarrow> w_now x2 = 0 \<and>
      (case ?take x2 of (x3, r3) \<Rightarrow> r3 = Inr (Some ''x'') \<and> w_now x3 = 0))"
    by code_simp
  obtain x1 where x1: "?take ?x0 = (x1, Inr (Some []))" using v by (cases "?take ?x0") simp
  obtain x2 r2 where x2: "del_keys_world [?k] x1 = (x2, r2)" "w_now x2 = 0"
    using v x1 by (cases "del_keys_world [?k] x1") simp
  obtain x3 where x3: "?take x2 = (x3, Inr (Some ''x''))" "w_now x3 = 0"
    using v x1 x2 by (cases "?take x2") simp
  let ?j = "asked ''t1'' [] 0" and ?j' = "asked ''t1'' ''x'' 0"
  let ?js = "(\<lambda>w. None)(0 \<mapsto> clear_job [?k] ?j, 1 \<mapsto> ?j')"
  note step = reachable.step [where ops = sample_worker_ops and cfg = demo_worker_cfg and v = sample_locks]
  have "reachable sample_worker_ops demo_worker_cfg sample_locks (x1, (\<lambda>w. None)(0 \<mapsto> ?j))"
    using step [OF reachable.start fleet_step.take [where w = 0, OF _ x1]] by (simp add: start_world_def)
  then have "reachable sample_worker_ops demo_worker_cfg sample_locks
      (x2, cleared_jobs [?k] ((\<lambda>w. None)(0 \<mapsto> ?j)))"
    by (rule step) (rule fleet_step.clear, simp add: x2(1))
  moreover have "cleared_jobs [?k] ((\<lambda>w. None)(0 \<mapsto> ?j)) = (\<lambda>w. None)(0 \<mapsto> clear_job [?k] ?j)"
    by (auto simp: cleared_jobs_def)
  ultimately have r: "reachable sample_worker_ops demo_worker_cfg sample_locks (x3, ?js)"
    using step [OF _ fleet_step.take [where w = 1, OF _ x3(1)], of "(\<lambda>w. None)(0 \<mapsto> clear_job [?k] ?j)"] x2(2)
    by simp
  have "j_cleared (clear_job [?k] ?j)"
    using one_worker_runs_a_task [OF sample_lock_laws r, of 0 "clear_job [?k] ?j" 1 ?j'] x3(2)
    by (simp add: asked_def demo_worker_cfg_def task_timeout_def secs_def)
  with r x3(2) show ?thesis
    by (intro exI [of _ x3] exI [of _ ?js] exI [of _ "clear_job [?k] ?j"] exI [of _ ?j'])
       (simp add: asked_def)
qed

section \<open>What a run from the queue leaves\<close>

definition worker_clock_forward :: "('x, 'm) worker_ops_scheme \<Rightarrow> bool" where
  "worker_clock_forward ops \<longleftrightarrow>
     clock_forward ops \<and> (\<forall>x. now_of ops x \<le> now_of ops (fst (new_token ops x)))"

lemma rests_earlier: "task_rests n tid d \<Longrightarrow> m \<le> n \<Longrightarrow> task_rests m tid d"
  by (auto simp: task_rests_def rests_def split: option.splits)

lemma record_timeout_rests:
  "now \<le> clock \<Longrightarrow> task_rests now tid (record_task_timeout cfg tid clock d)"
  by (auto simp: record_task_timeout_def handle_task_failure_rests split: option.splits)
     (auto simp: task_rests_def rests_def)

lemma run_claimed_rests:
  assumes c: "clock_forward ops"
    and cancel: "\<And>s. now_of ops (sx s) \<le> now_of ops (sx (cancelled s))"
    and pl: "planned tid (sc_sys c)"
    and run: "run_claimed_task ops cfg cancelled tid c = (c', res)" and res: "\<And>e. res \<noteq> Refused e"
  shows "task_rests (timestamp (now_of ops (sx (sc_sys c)))) tid (sdb (sc_sys c'))"
proof -
  let ?s = "sc_sys c"
  let ?now = "timestamp (now_of ops (sx ?s))"
  let ?f = "execute_task_once ops (wc_run cfg) tid Scheduler True True"
  show ?thesis
  proof (cases "get_task tid (sdb ?s)")
    case None
    with run show ?thesis by (auto simp: run_claimed_task_def task_rests_def)
  next
    case (Some t)
    show ?thesis
    proof (cases "t_enabled t")
      case False
      with run Some show ?thesis by (auto simp: run_claimed_task_def task_rests_def rests_def)
    next
      case True
      obtain s1 q where w: "wait_for ops (task_timeout cfg) cancelled ?f ?s = (s1, q)" by fastforce
      show ?thesis
      proof (cases q)
        case None
        then have "s1 = cancelled ?s"
          using w by (auto simp: wait_for_def split: option.splits if_splits)
        then have "?now \<le> timestamp (now_of ops (sx s1))" by (simp add: cancel timestamp_mono)
        then show ?thesis
          using run Some True w None
          by (auto simp: run_claimed_task_def Let_def record_timeout_rests)
      next
        case (Some r)
        then have e: "?f ?s = Some (s1, r)"
          using w by (auto simp: wait_for_def split: option.splits if_splits)
        obtain q' where r: "r = Inr q'"
          using run \<open>get_task tid (sdb ?s) = Some t\<close> True w Some res
          by (cases r) (auto simp: run_claimed_task_def)
        have "sc_sys c' = s1"
          using run \<open>get_task tid (sdb ?s) = Some t\<close> True w Some r by (auto simp: run_claimed_task_def)
        with execute_facts(2) [OF c e [unfolded r]] pl show ?thesis by simp
      qed
    qed
  qed
qed

lemma now_take:
  assumes "worker_clock_forward ops" "take_processing_lock ops cfg tid x = (x', r)"
  shows "now_of ops x \<le> now_of ops x'"
proof -
  obtain x1 tok where t: "new_token ops x = (x1, tok)" by fastforce
  have "now_of ops x \<le> now_of ops x1"
    using assms(1) t by (metis worker_clock_forward_def fst_conv)
  moreover have "now_of ops x1 \<le> now_of ops (fst (set_nx ops k v n x1))" for k v n
    using assms(1) by (simp add: worker_clock_forward_def clock_forward_def)
  ultimately show ?thesis
    using assms(2) t
    by (auto simp: take_processing_lock_def split: prod.splits sum.splits)
       (metis fst_conv order_trans)+
qed

text \<open>
  C37: Whatever becomes of a claimed task that a worker got the lock for, success, failure or a
  run cut off at the time limit, the task is not due any more when the worker is done, so that
  a task that always hangs cannot block the queue. (A run refused by the authorization
  disables the task in another way.)
\<close>

theorem queue_run_leaves_task_resting:
  assumes "worker_clock_forward ops"
    and "\<And>s. now_of ops (sx s) \<le> now_of ops (sx (cancelled s))"
    and "planned tid (sc_sys c)"
    and "execute_task_from_queue ops cfg cancelled tid c = (c', Inr res)"
    and "res = TimedOut \<or> res = Gone \<or> res = Ran r"
  shows "task_rests (timestamp (clock_of ops c)) tid (sdb (sc_sys c'))"
proof -
  obtain x1 q where t: "take_processing_lock ops cfg tid (sx (sc_sys c)) = (x1, q)" by fastforce
  let ?c1 = "on_sys (\<lambda>s. s\<lparr>sx := x1\<rparr>) c"
  obtain tok where q: "q = Inr (Some tok)"
    using assms(4,5) t by (auto simp: execute_task_from_queue_def split: sum.splits option.splits)
  obtain c2 where c2: "run_claimed_task ops cfg cancelled tid ?c1 = (c2, res)"
    and db: "sdb (sc_sys c') = sdb (sc_sys c2)"
    using assms(4) t q
    by (auto simp: execute_task_from_queue_def on_sys_def Let_def split: prod.splits sum.splits)
  have "planned tid (sc_sys ?c1)" using assms(3) by (simp add: on_sys_def planned_def)
  then have "task_rests (timestamp (now_of ops (sx (sc_sys ?c1)))) tid (sdb (sc_sys c2))"
    using assms(1,2,5) by (intro run_claimed_rests [OF _ _ _ c2]) (auto simp: worker_clock_forward_def)
  moreover have "clock_of ops c \<le> now_of ops (sx (sc_sys ?c1))"
    using now_take [OF assms(1) t] by (simp add: clock_of_def on_sys_def)
  ultimately show ?thesis unfolding db by (blast intro: rests_earlier timestamp_mono)
qed

text \<open>A run in which Telegram answers, and one that hangs: the send lasts longer than the limit.\<close>

definition demo_scheduler :: "world scheduler" where
  "demo_scheduler =
     \<lparr>sc_sys = \<lparr>sdb = (empty_db sample_ids)\<lparr>tasks := [(blank_task ''t1'' 7)\<lparr>t_targets :=
                         JArr [peer_item ''user'' 5]\<rparr>]\<rparr>,
                sx = start_world (secs 1000000) [], recov = []\<rparr>,
      last_task_timeout_id = None, last_task_timeout_at = None, last_tick_started_at = None,
      last_tick_finished_at = None, last_tick_error = None\<rparr>"

definition hurried_cfg :: worker_config where
  "hurried_cfg = \<lparr>wc_run = \<lparr>max_failure_count = 5\<rparr>, wc_timeout = 2, wc_concurrency = 3\<rparr>"

lemma worker_forward_sample: "worker_clock_forward sample_worker_ops"
  by (simp add: worker_clock_forward_def worker_clock_forward token_world_def)

lemma demo_queue_value:
  "case execute_task_from_queue sample_worker_ops hurried_cfg (\<lambda>s. s) ''t1'' demo_scheduler of
     (c, Inr TimedOut) \<Rightarrow> map t_next (tasks (sdb (sc_sys c))) = [Some 1003600]
       \<and> last_task_timeout_id c = Some ''t1''
   | _ \<Rightarrow> False"
  by code_simp

theorem queue_run_leaves_task_resting_witness:
  "\<exists>c. execute_task_from_queue sample_worker_ops hurried_cfg (\<lambda>s. s) ''t1'' demo_scheduler = (c, Inr TimedOut)
     \<and> task_rests 1000000 ''t1'' (sdb (sc_sys c))"
proof -
  obtain c where c: "execute_task_from_queue sample_worker_ops hurried_cfg (\<lambda>s. s) ''t1'' demo_scheduler
      = (c, Inr TimedOut)"
    using demo_queue_value
    by (cases "execute_task_from_queue sample_worker_ops hurried_cfg (\<lambda>s. s) ''t1'' demo_scheduler")
       (auto split: sum.splits outcome.splits)
  have p: "planned ''t1'' (sc_sys demo_scheduler)"
    by (simp add: planned_def demo_scheduler_def get_task_def blank_task_def)
  have "task_rests (timestamp (clock_of sample_worker_ops demo_scheduler)) ''t1'' (sdb (sc_sys c))"
    by (rule queue_run_leaves_task_resting [OF worker_forward_sample _ p c]) simp_all
  moreover have "timestamp (clock_of sample_worker_ops demo_scheduler) = 1000000" by code_simp
  ultimately show ?thesis using c by simp
qed

section \<open>A second run\<close>

lemma checks_do_not_send:
  "health_check (ops\<lparr>tg_send := f\<rparr>) = health_check ops"
  "mark_account_reauth_required (ops\<lparr>tg_send := f\<rparr>) = mark_account_reauth_required ops"
  "authorize (ops\<lparr>tg_send := f\<rparr>) = authorize ops"
  by (simp_all add: fun_eq_iff health_check_def mark_account_reauth_required_def authorize_def Let_def
      split: option.split prod.split)

lemma account_check_does_not_send:
  "try_recover_outage (ops\<lparr>tg_send := f\<rparr>) = try_recover_outage ops"
  "check_account (ops\<lparr>tg_send := f\<rparr>) = check_account ops"
proof -
  show 1: "try_recover_outage (ops\<lparr>tg_send := f\<rparr>) = try_recover_outage ops"
    by (simp add: fun_eq_iff try_recover_outage_def checks_do_not_send)
  show "check_account (ops\<lparr>tg_send := f\<rparr>) = check_account ops"
    by (simp add: fun_eq_iff check_account_def checks_do_not_send 1 Let_def split: option.split prod.split)
qed

lemma account_exit_skips:
  "check_account ops t now advance src s = (s', Exit q) \<Longrightarrow> r_status q = Skipped"
  by (auto simp: check_account_def build_summary_def Let_def
      split: option.splits if_splits prod.splits)

text \<open>
  A task is not sent twice for one due time: if the task was queued again while a run of it
  was under way, the next run finds it not due and ends without a success, and it would
  behave the same whatever sending did, because it sends nothing.
\<close>

theorem early_run_sends_nothing:
  assumes "get_task tid (sdb s) = Some t" "t_next t = Some n" "n \<noteq> 0"
    and "timestamp (now_of ops (sx s)) < n"
  shows "execute_task_once (ops\<lparr>tg_send := f\<rparr>) cfg tid src True respect s
      = execute_task_once ops cfg tid src True respect s
    \<and> (\<exists>s' r. execute_task_once ops cfg tid src True respect s = Some (s', r)
          \<and> (case r of Inl e \<Rightarrow> True | Inr q \<Rightarrow> r_status q = Skipped))"
proof -
  have "int_true (t_next t)" using assms by simp
  then have v: "validate_and_resolve (ops\<lparr>tg_send := f\<rparr>) cfg tid now True src s
        = validate_and_resolve ops cfg tid now True src s"
    and raised: "case snd (validate_and_resolve ops cfg tid now True src s) of
        Raise e \<Rightarrow> True | Early q \<Rightarrow> r_status q = Skipped | Valid t' vd \<Rightarrow> False"
    if "now < n" for now
    using assms that
    by (auto simp: validate_and_resolve_def checks_do_not_send account_check_does_not_send Let_def
        build_summary_def dest: account_exit_skips
        split: prod.splits sum.splits checked.splits option.splits)
  show ?thesis
    using v [OF assms(4)] raised [OF assms(4)]
    by (auto simp: execute_task_once_def Let_def split: prod.splits validation.splits)
qed

definition early_sys :: "world sys" where
  "early_sys = \<lparr>sdb = (empty_db sample_ids)\<lparr>tasks := [(blank_task ''t1'' 7)\<lparr>t_next := Some 1000060,
       t_targets := JArr [peer_item ''user'' 5]\<rparr>]\<rparr>, sx = start_world (secs 1000000) [], recov = []\<rparr>"

theorem early_run_sends_nothing_witness:
  "\<exists>s' r. execute_task_once sample_worker_ops \<lparr>max_failure_count = 5\<rparr> ''t1'' Scheduler True True early_sys
       = Some (s', r)
     \<and> execute_task_once (sample_worker_ops\<lparr>tg_send := (\<lambda>c w. (w, Inr (Some 1)))\<rparr>) \<lparr>max_failure_count = 5\<rparr>
         ''t1'' Scheduler True True early_sys = Some (s', r)"
proof -
  let ?t = "(blank_task ''t1'' 7)\<lparr>t_next := Some 1000060, t_targets := JArr [peer_item ''user'' 5]\<rparr>"
  have 1: "get_task ''t1'' (sdb early_sys) = Some ?t"
    by (simp add: early_sys_def get_task_def blank_task_def)
  have 2: "timestamp (now_of sample_worker_ops (sx early_sys)) < 1000060"
    by (simp add: early_sys_def start_world_def timestamp_def trunc_secs_def secs_def)
  show ?thesis
    using early_run_sends_nothing [OF 1 _ _ 2, of "\<lambda>c w. (w, Inr (Some 1))" "\<lparr>max_failure_count = 5\<rparr>" Scheduler True]
    by auto
qed

section \<open>Recovery\<close>

text \<open>
  After the recovery at the start of a scheduler no task is stuck: an enabled task has a next
  run and its end has not passed; nothing else about the tasks changes.
\<close>

theorem recovery_leaves_no_stuck_task:
  assumes "recover_runtime_state ops s = Some (s', r)"
  shows "list_all2 (\<lambda>t t'. (t_enabled t' \<longrightarrow> t_enabled t \<and> t_next t' \<noteq> None
            \<and> (case t_end t' of None \<Rightarrow> True | Some e \<Rightarrow> e = 0 \<or> timestamp (now_of ops (sx s)) \<le> e))
          \<and> (t_next t \<noteq> None \<longrightarrow> t_next t' = t_next t)
          \<and> t' = t\<lparr>t_enabled := t_enabled t', t_next := t_next t'\<rparr>)
        (tasks (sdb s)) (tasks (sdb s'))"
proof -
  have "tasks (sdb s') = map (repair_task (timestamp (now_of ops (sx s)))) (tasks (sdb s))"
    using assms
    by (auto simp: recover_runtime_state_def enqueue_tasks_def Let_def repair_tasks_def
        dest!: with_x_eq split: option.splits sum.splits)
  then show ?thesis
    by (auto simp: list_all2_conv_all_nth repair_task_def int_true_def split: option.splits)
qed

definition stuck_sys :: "world sys" where
  "stuck_sys = \<lparr>sdb = (empty_db sample_ids)\<lparr>tasks := [blank_task ''t1'' 7, (blank_task ''t2'' 7)\<lparr>t_end := Some 5\<rparr>]\<rparr>,
     sx = start_world (secs 1000000) [], recov = []\<rparr>"

lemma stuck_value:
  "case recover_runtime_state sample_worker_ops stuck_sys of
     Some (s, r) \<Rightarrow> map (\<lambda>t. (t_enabled t, t_next t)) (tasks (sdb s)) = [(True, Some 1000000), (False, None)]
   | None \<Rightarrow> False"
  by code_simp

theorem recovery_leaves_no_stuck_task_witness:
  "\<exists>s' r. recover_runtime_state sample_worker_ops stuck_sys = Some (s', r)
     \<and> list_all2 (\<lambda>t t'. t_enabled t' \<longrightarrow> t_next t' \<noteq> None) (tasks (sdb stuck_sys)) (tasks (sdb s'))"
proof -
  obtain s' r where r: "recover_runtime_state sample_worker_ops stuck_sys = Some (s', r)"
    using stuck_value by (auto split: option.splits)
  from recovery_leaves_no_stuck_task [OF r] r show ?thesis
    by (blast intro: list_all2_mono)
qed

text \<open>
  The recovery also deletes the processing locks of every other scheduler, whose runs go on: the
  lock of a running task can be taken a second time.
\<close>

lemma recovery_frees_locks_of_running_tasks:
  "case take_processing_lock sample_worker_ops demo_worker_cfg ''t1'' (start_world 0 []) of
     (x1, Inr (Some tok)) \<Rightarrow>
       (case take_processing_lock sample_worker_ops demo_worker_cfg ''t1'' x1 of
          (x2, Inr None) \<Rightarrow>
            (case recover_runtime_state sample_worker_ops (stuck_sys\<lparr>sx := x2\<rparr>) of
               Some (s3, Inr u) \<Rightarrow>
                 (case take_processing_lock sample_worker_ops demo_worker_cfg ''t1'' (sx s3) of
                    (x4, Inr (Some tok')) \<Rightarrow> tok' \<noteq> tok
                  | _ \<Rightarrow> False)
             | _ \<Rightarrow> False)
        | _ \<Rightarrow> False)
   | _ \<Rightarrow> False"
  by code_simp

end
