(* ===== verification/Payload.thy ===== *)
theory Payload
  imports Runner
begin

text \<open>
  The payload of a task request (\<open>h5_backend/services/task/payload.py\<close>, \<open>helpers.py\<close>,
  \<open>v2_payload.py\<close>): normalization and validation of its fields, the fields the system sets,
  and their application to a task row. The request body is any JSON object; its text is kept
  apart, as a list of code points (\<open>None\<close>: no such key, \<open>Some None\<close>: \<open>null\<close>). An exception
  that no handler expects (\<open>int\<close> of a list, a value of the wrong type for a column) is the
  500 of the framework, \<open>unhandled\<close>.
\<close>

section \<open>Results\<close>

definition bad :: "string \<Rightarrow> http_error + 'a" where
  "bad m = Inl (Http 400 m)"

definition check :: "bool \<Rightarrow> string \<Rightarrow> http_error + unit" where
  "check ok m = (if ok then Inr () else bad m)"

lemma check_Inr [simp]: "check ok m = Inr u \<longleftrightarrow> ok"
  by (simp add: check_def bad_def)

lemma bad_not_Inr [simp]: "bad m \<noteq> Inr y" "Inr y \<noteq> bad m"
  by (simp_all add: bad_def)

text \<open>\<open>int(v)\<close> where a failure is answered with a message, and \<open>int(v or d)\<close> where it is not.\<close>

definition int_value :: "string \<Rightarrow> json \<Rightarrow> http_error + int" where
  "int_value m v = (case py_int v of Some n \<Rightarrow> Inr n | None \<Rightarrow> bad m)"

definition int_or_default :: "int \<Rightarrow> json \<Rightarrow> http_error + int" where
  "int_or_default d v =
     (if truthy v then (case py_int v of Some n \<Rightarrow> Inr n | None \<Rightarrow> Inl unhandled) else Inr d)"

section \<open>The payload\<close>

record payload =
  pl_fields :: dict
  pl_text :: "ptext option option"

definition pget :: "payload \<Rightarrow> string \<Rightarrow> json" where "pget p k = dget (pl_fields p) k"
definition phas :: "payload \<Rightarrow> string \<Rightarrow> bool" where "phas p k = dhas (pl_fields p) k"

definition pset :: "string \<Rightarrow> json \<Rightarrow> payload \<Rightarrow> payload" where
  "pset k v p = p\<lparr>pl_fields := dset k v (pl_fields p)\<rparr>"

definition pdrop :: "string \<Rightarrow> payload \<Rightarrow> payload" where
  "pdrop k p = p\<lparr>pl_fields := filter (\<lambda>(k', _). k' \<noteq> k) (pl_fields p)\<rparr>"

definition json_int :: "int option \<Rightarrow> json" where
  "json_int v = (case v of None \<Rightarrow> JNull | Some n \<Rightarrow> JInt n)"

definition json_str :: "string option \<Rightarrow> json" where
  "json_str v = (case v of None \<Rightarrow> JNull | Some s \<Rightarrow> JStr s)"

lemma pset_simps [simp]:
  "pget (pset k v p) k' = (if k' = k then v else pget p k')"
  "phas (pset k v p) k' = (k' = k \<or> phas p k')"
  "pl_text (pset k v p) = pl_text p" "pl_text (pdrop k p) = pl_text p"
  by (simp_all add: pget_def phas_def pset_def pdrop_def)

text \<open>The value of the payload, or the one of the current task where it is absent or \<open>null\<close>.\<close>

definition value_or_current :: "payload \<Rightarrow> string \<Rightarrow> (task \<Rightarrow> json) \<Rightarrow> task option \<Rightarrow> json" where
  "value_or_current p k f cur =
     (if pget p k \<noteq> JNull then pget p k else case cur of None \<Rightarrow> JNull | Some t \<Rightarrow> f t)"

section \<open>Targets\<close>

definition target_dict :: "int \<Rightarrow> string \<Rightarrow> int option \<Rightarrow> string option \<Rightarrow> dict" where
  "target_dict n ty h title =
     [(''peer_id'', JInt n), (''peer_type'', JStr ty), (''access_hash'', json_int h)]
     @ (case title of None \<Rightarrow> [] | Some s \<Rightarrow> [(''title'', JStr s)])"

definition optional_hash :: "string \<Rightarrow> json \<Rightarrow> http_error + int option" where
  "optional_hash m v = (if json_blank v then Inr None else and_then (int_value m v) (\<lambda>n. Inr (Some n)))"

definition normalize_target_peer :: "json \<Rightarrow> http_error + dict" where
  "normalize_target_peer it =
     (case it of
        JObj d \<Rightarrow>
          and_then (int_value ''target_peers[].peer_id'' (dget_or d ''peer_id'' (dget d ''target_peer_id''))) (\<lambda>n.
            let ty = norm_type (dget_or d ''peer_type'' (dget d ''target_peer_type'')) in
            and_then (check (ty \<in> set peer_types) ''target_peers[].peer_type'') (\<lambda>_.
            and_then (optional_hash ''target_peers[].access_hash''
                        (dget_or d ''access_hash'' (dget d ''target_access_hash''))) (\<lambda>h.
              Inr (target_dict n ty h (opt_str (strip (str_or_empty (dget d ''title'')))))))) 
      | _ \<Rightarrow> bad ''<target_peers[] must be an object>'')"

fun map_result :: "('a \<Rightarrow> 'e + 'b) \<Rightarrow> 'a list \<Rightarrow> 'e + 'b list" where
  "map_result f [] = Inr []"
| "map_result f (x # xs) =
     and_then (f x) (\<lambda>y. and_then (map_result f xs) (\<lambda>ys. Inr (y # ys)))"

text \<open>The key under which the normalized items are told apart.\<close>

definition peer_key :: "dict \<Rightarrow> json \<times> json" where
  "peer_key d = (dget d ''peer_type'', dget d ''peer_id'')"

definition normalize_target_peers :: "json \<Rightarrow> http_error + dict list" where
  "normalize_target_peers v =
     (case v of
        JNull \<Rightarrow> Inr []
      | JArr xs \<Rightarrow> and_then (map_result normalize_target_peer xs) (\<lambda>ds. Inr (dedupe peer_key ds))
      | _ \<Rightarrow> bad ''<target_peers must be an array>'')"

definition build_single_target :: "json \<Rightarrow> json \<Rightarrow> json \<Rightarrow> http_error + dict" where
  "build_single_target raw_id raw_type raw_hash =
     and_then (check (\<not> json_blank raw_id) ''<missing target>'') (\<lambda>_.
     and_then (int_value ''target_peer_id/chat_id'' raw_id) (\<lambda>n.
       let ty = (if norm_type raw_type = [] then ''user'' else norm_type raw_type) in
       and_then (check (ty \<in> set peer_types) ''target_peer_type'') (\<lambda>_.
       and_then (optional_hash ''target_access_hash'' raw_hash) (\<lambda>h.
         Inr (target_dict n ty h None)))))"

definition merge_or_fail :: "dict list \<Rightarrow> json \<Rightarrow> bool \<Rightarrow> http_error + dict list" where
  "merge_or_fail ds existing reset =
     (case merge_target_runtime_metadata ds existing reset of None \<Rightarrow> Inl unhandled | Some r \<Rightarrow> Inr r)"

definition single_target_keys :: "string list" where
  "single_target_keys = [''target_peer_id'', ''target_peer_type'', ''target_access_hash'', ''chat_id'']"

definition incoming_targets :: "payload \<Rightarrow> task option \<Rightarrow> http_error + dict list" where
  "incoming_targets p cur =
     (if phas p ''target_peers''
      then and_then (normalize_target_peers (pget p ''target_peers'')) (\<lambda>ds.
             if ds = [] then bad ''<target_peers empty>'' else Inr ds)
      else if list_ex (phas p) single_target_keys
      then and_then (build_single_target (dget_or (pl_fields p) ''target_peer_id'' (pget p ''chat_id''))
                       (dget_or (pl_fields p) ''target_peer_type'' (JStr ''user''))
                       (pget p ''target_access_hash'')) (\<lambda>d. Inr [d])
      else case cur of
        None \<Rightarrow> Inr []
      | Some t \<Rightarrow>
          and_then (normalize_target_peers (t_targets t)) (\<lambda>ds.
          and_then (merge_or_fail ds (t_targets t) False) (\<lambda>ms.
            if ms \<noteq> [] then Inr ms
            else if int_true (t_peer t) \<or> int_true (t_chat t)
            then and_then (build_single_target
                             (json_int (if int_true (t_peer t) then t_peer t else t_chat t))
                             (JStr (str_or (t_peer_type t) ''user'')) (json_int (t_hash t)))
                   (\<lambda>d. Inr [d])
            else Inr [])))"

definition normalize_targets :: "payload \<Rightarrow> task option \<Rightarrow> http_error + payload" where
  "normalize_targets p cur =
     and_then (incoming_targets p cur) (\<lambda>ds.
     and_then (check (ds \<noteq> []) ''<missing targets>'') (\<lambda>_.
       let given = phas p ''target_peers'' \<or> list_ex (phas p) single_target_keys;
           existing = (case cur of None \<Rightarrow> JNull | Some t \<Rightarrow> t_targets t);
           reset = (case cur of None \<Rightarrow> True | Some t \<Rightarrow> has_target_collection_changed ds (t_targets t))
       in and_then (if given then merge_or_fail ds existing reset else Inr ds) (\<lambda>ms.
            let primary = hd ms in
            Inr (pset ''chat_id'' (dget primary ''peer_id'')
                  (pset ''target_access_hash'' (dget primary ''access_hash'')
                    (pset ''target_peer_type'' (dget primary ''peer_type'')
                      (pset ''target_peer_id'' (dget primary ''peer_id'')
                        (pset ''target_peers'' (JArr (map JObj ms)) p))))))))"

section \<open>Media type\<close>

definition normalize_media_type :: "json \<Rightarrow> http_error + media_type" where
  "normalize_media_type v =
     (let s = lower (strip (py_str (if truthy v then v else JStr ''none'')));
          s' = (if s = ''gif'' then ''animation'' else s)
      in case media_of_value s' of Some m \<Rightarrow> Inr m | None \<Rightarrow> bad ''<unsupported media_type>'')"

section \<open>Validation\<close>

definition trigger_modes :: "string list" where
  "trigger_modes = [scheduled, manual_shortcut]"

definition mode_of :: "json \<Rightarrow> string" where
  "mode_of v = lower (strip (py_str (if truthy v then v else JStr scheduled)))"

definition validate_trigger_mode :: "task option \<Rightarrow> payload \<Rightarrow> http_error + payload" where
  "validate_trigger_mode cur p =
     (let mode = mode_of (value_or_current p ''trigger_mode'' (\<lambda>t. JStr (t_mode t)) cur) in
      and_then (check (mode \<in> set trigger_modes) ''trigger_mode'') (\<lambda>_.
        Inr (pset ''trigger_mode'' (JStr mode) p)))"

text \<open>\<open>v in (None, "", 0, "0")\<close>: \<open>False\<close> and \<open>0.0\<close> are equal to 0.\<close>

definition no_slot :: "json \<Rightarrow> bool" where
  "no_slot v = (json_blank v \<or> v = JInt 0 \<or> v = JStr ''0'' \<or> v = JBool False
     \<or> (case v of JReal _ _ \<Rightarrow> \<not> truthy v | _ \<Rightarrow> False))"

definition shortcut_slot_of :: "json \<Rightarrow> http_error + int option" where
  "shortcut_slot_of v =
     (if no_slot v then Inr None
      else and_then (int_value ''shortcut_slot'' v) (\<lambda>n.
             if n \<in> {1, 2, 3} then Inr (Some n) else bad ''<shortcut_slot must be 1-3>''))"

definition validate_shortcut :: "task option \<Rightarrow> payload \<Rightarrow> http_error + payload" where
  "validate_shortcut cur p =
     and_then (shortcut_slot_of (value_or_current p ''shortcut_slot'' (\<lambda>t. json_int (t_slot t)) cur)) (\<lambda>slot.
       let label = strip (str_or_empty (value_or_current p ''shortcut_label'' (\<lambda>t. json_str (t_label t)) cur));
           manual = (pget p ''trigger_mode'' = JStr manual_shortcut)
       in and_then (check (length label \<le> 20) ''<shortcut_label too long>'') (\<lambda>_.
          and_then (check (manual \<or> slot = None) ''<shortcut for a scheduled task>'') (\<lambda>_.
          and_then (check (\<not> manual \<or> label \<noteq> []) ''<manual task without a label>'') (\<lambda>_.
            Inr (pset ''shortcut_label'' (if manual then JStr label else JNull)
                  (pset ''shortcut_slot'' (json_int slot) p))))))"

definition validate_repeat :: "task option \<Rightarrow> payload \<Rightarrow> http_error + payload" where
  "validate_repeat cur p =
     and_then (int_or_default 0 (value_or_current p ''repeat_interval_min'' (\<lambda>t. JInt (t_repeat t)) cur)) (\<lambda>n.
     and_then (check (0 < n) ''repeat_interval_min'') (\<lambda>_.
       Inr (pset ''repeat_interval_min'' (JInt n) p)))"

definition validate_priority :: "task option \<Rightarrow> payload \<Rightarrow> http_error + payload" where
  "validate_priority cur p =
     and_then (int_or_default 0 (value_or_current p ''priority'' (\<lambda>t. JInt (t_priority t)) cur)) (\<lambda>n.
     and_then (check (0 \<le> n) ''priority'') (\<lambda>_. Inr (pset ''priority'' (JInt n) p)))"

definition payload_contract :: "task option \<Rightarrow> payload \<Rightarrow> http_error + int" where
  "payload_contract cur p =
     int_or_default 2 (dget_or (pl_fields p) ''content_contract_version''
       (case cur of None \<Rightarrow> JInt 2 | Some t \<Rightarrow> JInt (t_contract t)))"

definition payload_media :: "task option \<Rightarrow> payload \<Rightarrow> http_error + media_type" where
  "payload_media cur p =
     (if pget p ''media_type'' \<noteq> JNull then normalize_media_type (pget p ''media_type'')
      else case cur of None \<Rightarrow> Inr MNone | Some t \<Rightarrow> Inr (t_media t))"

definition payload_text :: "task option \<Rightarrow> payload \<Rightarrow> ptext" where
  "payload_text cur p = strip_text
     (case pl_text p of
        Some (Some v) \<Rightarrow> v
      | _ \<Rightarrow> (case cur of None \<Rightarrow> [] | Some t \<Rightarrow> (case t_text t of None \<Rightarrow> [] | Some v \<Rightarrow> v)))"

definition validate_media :: "task option \<Rightarrow> payload \<Rightarrow> http_error + int \<times> media_type \<times> payload" where
  "validate_media cur p =
     and_then (payload_contract cur p) (\<lambda>version.
     and_then (payload_media cur p) (\<lambda>m.
     and_then (check (\<not> (version = 2 \<and> m = MSticker)) ''MEDIA_SOURCE_TYPE_UNSUPPORTED'') (\<lambda>_.
     and_then (check (m = MNone \<or> version \<noteq> 1
                \<or> truthy (value_or_current p ''media_file_id'' (\<lambda>t. json_str (t_media_file t)) cur))
                ''<media file missing>'') (\<lambda>_.
       let p1 = pset ''media_type'' (JStr (media_value_of m)) p in
       Inr (version, m, if m = MNone then pset ''media_file_id'' JNull p1 else p1)))))"

definition validate_content :: "task option \<Rightarrow> int \<Rightarrow> media_type \<Rightarrow> payload \<Rightarrow> http_error + unit" where
  "validate_content cur version m p =
     (let buttons = truthy (value_or_current p ''buttons'' t_buttons cur);
          body = payload_text cur p;
          source = (case cur of None \<Rightarrow> ''none'' | Some t \<Rightarrow> if t_src_state t = [] then ''none'' else t_src_state t);
          enabled = truthy (value_or_current p ''enabled'' (\<lambda>t. JBool (t_enabled t)) cur)
      in and_then (check (\<not> (version = 2 \<and> buttons)) ''TASK_BUTTONS_UNSUPPORTED_FOR_USER_ACCOUNT'') (\<lambda>_.
         and_then (check (\<not> (version = 2 \<and> m \<noteq> MNone \<and> source \<noteq> ''valid'' \<and> enabled))
                    ''MEDIA_SOURCE_UNAVAILABLE'') (\<lambda>_.
         and_then (case validate_message_length (Some body) (m \<noteq> MNone) of
                     Inl e \<Rightarrow> bad (e_code e) | Inr u \<Rightarrow> Inr u) (\<lambda>_.
           check (\<not> enabled \<or> body \<noteq> [] \<or> m \<noteq> MNone) ''TASK_CONTENT_REQUIRED''))))"

definition validate_task_payload :: "task option \<Rightarrow> payload \<Rightarrow> http_error + payload" where
  "validate_task_payload cur p =
     and_then (validate_trigger_mode cur p) (\<lambda>p1.
     and_then (validate_shortcut cur p1) (\<lambda>p2.
     and_then (validate_repeat cur p2) (\<lambda>p3.
     and_then (validate_priority cur p3) (\<lambda>p4.
     and_then (validate_media cur p4) (\<lambda>(version, m, p5).
     and_then (validate_content cur version m p5) (\<lambda>_. Inr p5))))))"

section \<open>Fields the system sets\<close>

text \<open>The random delays: \<open>(delay_min_seconds, delay_max_seconds, jitter_seconds)\<close>.\<close>

definition delay_ranges :: "int \<Rightarrow> account option \<Rightarrow> (int \<times> int) \<times> (int \<times> int)" where
  "delay_ranges priority acc =
     (let weight = (case acc of None \<Rightarrow> 100 | Some a \<Rightarrow> if a_weight a = 0 then 100 else a_weight a)
      in if 100 \<le> priority then ((30, 60), (180, 300))
         else if weight < 50 then ((90, 150), (240, 300))
         else if weight < 100 then ((60, 120), (210, 300))
         else ((30, 90), (180, 300)))"

definition build_auto_delay_profile ::
  "('x, 'm) tg_ops_scheme \<Rightarrow> int \<Rightarrow> account option \<Rightarrow> 'x \<Rightarrow> 'x \<times> int \<times> int \<times> int" where
  "build_auto_delay_profile ops priority acc x =
     (let ((lo1, hi1), (lo2, hi2)) = delay_ranges priority acc;
          (x1, delay_min) = randint ops lo1 hi1 x;
          (x2, delay_max) = randint ops (max (delay_min + 1) lo2) hi2 x1;
          (x3, jitter) = randint ops 30 (min delay_max 300) x2
      in (x3, delay_min, delay_max, jitter))"

definition apply_system_strategy_fields ::
  "('x, 'm) tg_ops_scheme \<Rightarrow> account option \<Rightarrow> payload \<Rightarrow> 'x \<Rightarrow> 'x \<times> (http_error + payload)" where
  "apply_system_strategy_fields ops acc p x =
     (let p1 = pset ''day_end_hour'' JNull (pset ''day_start_hour'' JNull (pset ''pin_message'' (JBool False) p)) in
      case int_or_default 0 (dget_or (pl_fields p1) ''priority'' (JInt 0)) of
        Inl e \<Rightarrow> (x, Inl e)
      | Inr priority \<Rightarrow>
          (let (x1, dmin, dmax, jit) = build_auto_delay_profile ops priority acc x
           in (x1, Inr (pset ''jitter_seconds'' (JInt jit)
                     (pset ''delay_max_seconds'' (JInt dmax)
                       (pset ''delay_min_seconds'' (JInt dmin) p1))))))"

definition first_run :: "int \<Rightarrow> int \<Rightarrow> int" where
  "first_run now start = (if 0 < start then max now start else now)"

text \<open>For a new task the next run goes into the payload.\<close>

definition ensure_initial_next_run_new :: "int \<Rightarrow> payload \<Rightarrow> http_error + payload" where
  "ensure_initial_next_run_new now p =
     (let mode = mode_of (dget_or (pl_fields p) ''trigger_mode'' (JStr scheduled)) in
      and_then (int_or_default 0 (pget p ''start_at'')) (\<lambda>start.
        Inr (if mode \<noteq> scheduled then pset ''next_run_at'' JNull p
             else if truthy (pget p ''enabled'') \<and> pget p ''next_run_at'' = JNull
             then pset ''next_run_at'' (JInt (first_run now start)) p
             else p)))"

text \<open>For an existing one, whose row has been updated already, into the row.\<close>

definition store_enabled :: "payload \<Rightarrow> task \<Rightarrow> task" where
  "store_enabled p t = (if phas p ''enabled'' then t\<lparr>t_enabled := truthy (pget p ''enabled'')\<rparr> else t)"

definition book_first_run :: "string \<Rightarrow> int \<Rightarrow> bool \<Rightarrow> task \<Rightarrow> task" where
  "book_first_run mode first was_enabled t =
     (if mode \<noteq> scheduled then t\<lparr>t_next := None\<rparr>
      else if t_enabled t \<and> (\<not> was_enabled \<or> t_next t = None)
      then (let t1 = t\<lparr>t_next := Some first\<rparr> in if was_enabled then t1 else t1\<lparr>t_failures := 0\<rparr>)
      else t)"

definition ensure_initial_next_run_old :: "int \<Rightarrow> payload \<Rightarrow> bool \<Rightarrow> task \<Rightarrow> http_error + task" where
  "ensure_initial_next_run_old now p was_enabled t =
     (let mode = mode_of (dget_or (pl_fields p) ''trigger_mode'' (JStr (t_mode t)));
          t1 = store_enabled p t
      in and_then (int_or_default 0 (dget_or (pl_fields p) ''start_at'' (json_int (t_start t1)))) (\<lambda>start.
           Inr (book_first_run mode (first_run now start) was_enabled t1)))"

section \<open>Writing a task row\<close>

text \<open>
  A value for a column, as the driver takes it: an integer column takes integers and
  booleans, a string column strings, a boolean column booleans, 0 and 1.
\<close>

definition as_int :: "json \<Rightarrow> int option" where
  "as_int v = (case v of JInt n \<Rightarrow> Some n | JBool b \<Rightarrow> Some (if b then 1 else 0) | _ \<Rightarrow> None)"

definition as_str :: "json \<Rightarrow> string option" where
  "as_str v = (case v of JStr s \<Rightarrow> Some s | _ \<Rightarrow> None)"

definition as_bool :: "json \<Rightarrow> bool option" where
  "as_bool v = (case v of JBool b \<Rightarrow> Some b
     | JInt n \<Rightarrow> if n = 0 then Some False else if n = 1 then Some True else None | _ \<Rightarrow> None)"

definition nullable :: "(json \<Rightarrow> 'a option) \<Rightarrow> json \<Rightarrow> 'a option option" where
  "nullable f v = (if v = JNull then Some None else map_option Some (f v))"

text \<open>
  \<open>setattr(task, key, value)\<close> for a column: \<open>None\<close> is a value the column cannot hold. No JSON
  value is a timestamp, which is what \<open>created_at\<close> and \<open>updated_at\<close> take.
\<close>

definition media_column :: "json \<Rightarrow> media_type option" where
  "media_column v = (case v of JStr s \<Rightarrow> media_of_value s | _ \<Rightarrow> None)"

definition put_column :: "(json \<Rightarrow> 'a option) \<Rightarrow> ('a \<Rightarrow> task \<Rightarrow> task) \<Rightarrow> json \<Rightarrow> task \<Rightarrow> task option" where
  "put_column conv put v t = map_option (\<lambda>x. put x t) (conv v)"

definition column_writers :: "(string \<times> (json \<Rightarrow> task \<Rightarrow> task option)) list" where
  "column_writers =
     [(''task_id'', put_column as_str (\<lambda>s t. t\<lparr>t_id := s\<rparr>)),
      (''user_id'', put_column as_int (\<lambda>n t. t\<lparr>t_user := n\<rparr>)),
      (''account_id'', put_column (nullable as_str) (\<lambda>s t. t\<lparr>t_account := s\<rparr>)),
      (''chat_id'', put_column (nullable as_int) (\<lambda>n t. t\<lparr>t_chat := n\<rparr>)),
      (''title'', put_column as_str (\<lambda>s t. t\<lparr>t_title := s\<rparr>)),
      (''target_peer_id'', put_column (nullable as_int) (\<lambda>n t. t\<lparr>t_peer := n\<rparr>)),
      (''target_peer_type'', put_column (nullable as_str) (\<lambda>s t. t\<lparr>t_peer_type := s\<rparr>)),
      (''target_access_hash'', put_column (nullable as_int) (\<lambda>n t. t\<lparr>t_hash := n\<rparr>)),
      (''target_peers'', put_column Some (\<lambda>v t. t\<lparr>t_targets := v\<rparr>)),
      (''enabled'', put_column as_bool (\<lambda>b t. t\<lparr>t_enabled := b\<rparr>)),
      (''trigger_mode'', put_column as_str (\<lambda>s t. t\<lparr>t_mode := s\<rparr>)),
      (''shortcut_slot'', put_column (nullable as_int) (\<lambda>n t. t\<lparr>t_slot := n\<rparr>)),
      (''shortcut_label'', put_column (nullable as_str) (\<lambda>s t. t\<lparr>t_label := s\<rparr>)),
      (''priority'', put_column as_int (\<lambda>n t. t\<lparr>t_priority := n\<rparr>)),
      (''repeat_interval_min'', put_column as_int (\<lambda>n t. t\<lparr>t_repeat := n\<rparr>)),
      (''jitter_seconds'', put_column as_int (\<lambda>n t. t\<lparr>t_jitter := n\<rparr>)),
      (''delay_min_seconds'', put_column as_int (\<lambda>n t. t\<lparr>t_delay_min := n\<rparr>)),
      (''delay_max_seconds'', put_column as_int (\<lambda>n t. t\<lparr>t_delay_max := n\<rparr>)),
      (''day_start_hour'', put_column (nullable as_int) (\<lambda>n t. t\<lparr>t_day_start := n\<rparr>)),
      (''day_end_hour'', put_column (nullable as_int) (\<lambda>n t. t\<lparr>t_day_end := n\<rparr>)),
      (''start_at'', put_column (nullable as_int) (\<lambda>n t. t\<lparr>t_start := n\<rparr>)),
      (''end_at'', put_column (nullable as_int) (\<lambda>n t. t\<lparr>t_end := n\<rparr>)),
      (''media_type'', put_column media_column (\<lambda>m t. t\<lparr>t_media := m\<rparr>)),
      (''media_file_id'', put_column (nullable as_str) (\<lambda>s t. t\<lparr>t_media_file := s\<rparr>)),
      (''buttons'', put_column Some (\<lambda>v t. t\<lparr>t_buttons := v\<rparr>)),
      (''content_contract_version'', put_column as_int (\<lambda>n t. t\<lparr>t_contract := n\<rparr>)),
      (''revision'', put_column as_int (\<lambda>n t. t\<lparr>t_revision := n\<rparr>)),
      (''media_source_account_id'', put_column (nullable as_str) (\<lambda>s t. t\<lparr>t_src_account := s\<rparr>)),
      (''media_source_message_id'', put_column (nullable as_int) (\<lambda>n t. t\<lparr>t_src_msg := n\<rparr>)),
      (''media_source_meta'', put_column Some (\<lambda>v t. t\<lparr>t_src_meta := v\<rparr>)),
      (''media_source_state'', put_column as_str (\<lambda>s t. t\<lparr>t_src_state := s\<rparr>)),
      (''media_source_error_code'', put_column (nullable as_str) (\<lambda>s t. t\<lparr>t_src_error := s\<rparr>)),
      (''media_source_verified_at'', put_column (\<lambda>v. if v = JNull then Some None else None) (\<lambda>v t. t\<lparr>t_src_verified := v\<rparr>)),
      (''delete_previous'', put_column as_bool (\<lambda>b t. t\<lparr>t_delete_previous := b\<rparr>)),
      (''pin_message'', put_column as_bool (\<lambda>b t. t\<lparr>t_pin := b\<rparr>)),
      (''last_sent_message_id'', put_column (nullable as_int) (\<lambda>n t. t\<lparr>t_last_msg := n\<rparr>)),
      (''next_run_at'', put_column (nullable as_int) (\<lambda>n t. t\<lparr>t_next := n\<rparr>)),
      (''failure_count'', put_column as_int (\<lambda>n t. t\<lparr>t_failures := n\<rparr>))]"

definition set_column :: "string \<Rightarrow> json \<Rightarrow> task \<Rightarrow> task option" where
  "set_column k v t = (case map_of column_writers k of None \<Rightarrow> None | Some w \<Rightarrow> w v t)"

definition task_columns :: "string list" where
  "task_columns =
     [''task_id'', ''user_id'', ''account_id'', ''chat_id'', ''title'', ''target_peer_id'',
      ''target_peer_type'', ''target_access_hash'', ''target_peers'', ''enabled'', ''trigger_mode'',
      ''shortcut_slot'', ''shortcut_label'', ''priority'', ''repeat_interval_min'', ''jitter_seconds'',
      ''delay_min_seconds'', ''delay_max_seconds'', ''day_start_hour'', ''day_end_hour'', ''start_at'',
      ''end_at'', ''media_type'', ''media_file_id'', ''buttons'', ''content_contract_version'', ''revision'',
      ''media_source_account_id'', ''media_source_message_id'', ''media_source_meta'', ''media_source_state'',
      ''media_source_error_code'', ''media_source_verified_at'', ''delete_previous'', ''pin_message'',
      ''last_sent_message_id'', ''next_run_at'', ''failure_count'', ''created_at'', ''updated_at'']"

end
