(* ===== verification/TaskService.thy ===== *)
theory TaskService
  imports Payload
begin

text \<open>
  The task service of the H5 API (\<open>h5_backend/services/task/service.py\<close>, \<open>v2_payload.py\<close>, the
  ownership checks of \<open>h5_backend/dependencies.py\<close>): creating, updating, deleting and
  triggering tasks. An update reads its task in one session and writes it in another:
  \<open>prepare_update\<close> is what happens before, \<open>commit_update\<close> the second session. A session
  that raises leaves the database as it was. The refresh of the user's reply keyboard after
  each operation is left out: it only sends Telegram messages, and its errors are ignored.
\<close>

section \<open>Ownership\<close>

definition check_task_permission :: "string \<Rightarrow> int \<Rightarrow> db \<Rightarrow> http_error + task" where
  "check_task_permission tid uid d =
     (case get_task tid d of
        None \<Rightarrow> Inl (Http 404 ''<task not found>'')
      | Some t \<Rightarrow> if t_user t \<noteq> uid then Inl (Http 404 ''<task not found>'') else Inr t)"

definition resolve_account ::
  "payload \<Rightarrow> int \<Rightarrow> string option \<Rightarrow> db \<Rightarrow> http_error + account option" where
  "resolve_account p uid default_id d =
     (let aid = (if truthy (pget p ''account_id'') then Some (py_str (pget p ''account_id''))
                 else if str_true default_id then default_id else None)
      in case aid of
           None \<Rightarrow> Inr None
         | Some a \<Rightarrow> and_then (check_account_permission a uid d) (\<lambda>acc. Inr (Some acc)))"

text \<open>The licence check of a request that names an account.\<close>

definition require_permission :: "account option \<Rightarrow> datetime \<Rightarrow> db \<Rightarrow> db \<times> (http_error + unit)" where
  "require_permission acc dt d =
     (case acc of
        None \<Rightarrow> (d, Inr ())
      | Some a \<Rightarrow> (case require_account_task_permission (Some (a_id a)) dt d of
                    (d1, Inl e) \<Rightarrow> (d1, Inl e)
                  | (d1, Inr _) \<Rightarrow> (d1, Inr ())))"

section \<open>The boundaries of the V2 contract\<close>

definition media_source_input_fields :: "string list" where
  "media_source_input_fields =
     [''media_type'', ''media_file_id'', ''media_source_account_id'', ''media_source_message_id'',
      ''media_source_meta'', ''media_source_state'', ''media_source_error_code'',
      ''media_source_verified_at'', ''content_contract_version'', ''revision'']"

definition reject_media_source_input :: "payload \<Rightarrow> http_error + unit" where
  "reject_media_source_input p =
     check (\<not> list_ex (phas p) media_source_input_fields) ''TASK_MEDIA_DEDICATED_API_REQUIRED''"

definition prepare_v2_create_payload :: "payload \<Rightarrow> http_error + payload" where
  "prepare_v2_create_payload p =
     (let mt = pget p ''media_type'';
          media = lower (strip (py_str (if truthy mt then mt else JStr ''none'')));
          legacy = pget p ''media_file_id'';
          p1 = pdrop ''media_file_id'' (pdrop ''media_type'' p)
      in and_then (reject_media_source_input p1) (\<lambda>_.
         and_then (check (media \<in> {[], ''none''} \<and> \<not> truthy legacy) ''TASK_MEDIA_DEDICATED_API_REQUIRED'') (\<lambda>_.
         and_then (check (\<not> truthy (pget p1 ''buttons'')) ''TASK_BUTTONS_UNSUPPORTED_FOR_USER_ACCOUNT'') (\<lambda>_.
         and_then (check (payload_text None p1 \<noteq> []) ''TASK_CONTENT_REQUIRED'') (\<lambda>_.
           Inr (pset ''buttons'' JNull
                 (pset ''media_source_state'' (JStr ''none'')
                   (pset ''media_file_id'' JNull
                     (pset ''media_type'' (JStr ''none'')
                       (pset ''revision'' (JInt 1)
                         (pset ''content_contract_version'' (JInt 2) p1)))))))))))"

definition coerce_expected_revision :: "json \<Rightarrow> http_error + int" where
  "coerce_expected_revision v =
     and_then (int_value ''EXPECTED_REVISION_INVALID'' v) (\<lambda>n.
     and_then (check (1 \<le> n) ''EXPECTED_REVISION_INVALID'') (\<lambda>_. Inr n))"

text \<open>The expected revision and the payload without it.\<close>

definition extract_expected_revision :: "payload \<Rightarrow> task \<Rightarrow> http_error + int \<times> payload" where
  "extract_expected_revision p t =
     (let raw = pget p ''expected_revision'';
          version = (if t_contract t = 0 then 1 else t_contract t)
      in and_then (check (\<not> (version = 2 \<and> raw = JNull)) ''EXPECTED_REVISION_REQUIRED'') (\<lambda>_.
         and_then (coerce_expected_revision (if raw \<noteq> JNull then raw else JInt (t_revision t))) (\<lambda>n.
           Inr (n, pdrop ''expected_revision'' p))))"

definition clear_task_media_fields :: "task \<Rightarrow> task" where
  "clear_task_media_fields t =
     t\<lparr>t_media := MNone, t_media_file := None, t_src_account := None, t_src_msg := None,
       t_src_meta := JNull, t_src_state := ''none'', t_src_error := None, t_src_verified := None\<rparr>"

definition active_capture :: "capture \<Rightarrow> bool" where
  "active_capture c = (c_state c \<in> {''waiting'', ''processing''})"

definition cancel_captures :: "string \<Rightarrow> string \<Rightarrow> db \<Rightarrow> db" where
  "cancel_captures reason tid d =
     d\<lparr>captures := upd_where (\<lambda>c. c_task c = tid \<and> active_capture c)
         (\<lambda>c. c\<lparr>c_state := ''cancelled'', c_error := Some reason\<rparr>) (captures d)\<rparr>"

definition cancel_task_captures :: "string \<Rightarrow> db \<Rightarrow> db" where
  "cancel_task_captures = cancel_captures ''MEDIA_CAPTURE_ACCOUNT_CHANGED''"

definition reject_task_delete_while_capturing :: "string \<Rightarrow> db \<Rightarrow> http_error + unit" where
  "reject_task_delete_while_capturing tid d =
     (if list_ex (\<lambda>c. c_task c = tid \<and> c_state c = ''processing'') (captures d)
      then Inl (Http 409 ''MEDIA_CAPTURE_PROCESSING'') else Inr ())"

section \<open>Titles\<close>

text \<open>The base title, a fixed Chinese text, and the default label of a manual task.\<close>

definition base_title :: string where "base_title = ''<untitled task>''"
definition manual_title :: string where "manual_title = ''<manual task>''"

text \<open>The number of a generated title: none for the base title counts as 1.\<close>

definition title_index :: "string \<Rightarrow> int option" where
  "title_index raw =
     (let s = strip raw; suffix = drop (length base_title) s in
      if \<not> starts_with base_title s then None
      else if suffix = [] then Some 1
      else if list_all is_digit suffix then digits_value False 0 suffix
      else None)"

definition build_default_task_title :: "int \<Rightarrow> string \<Rightarrow> json \<Rightarrow> db \<Rightarrow> string" where
  "build_default_task_title uid mode label d =
     (if mode = manual_shortcut
      then (let l = strip (str_or_empty label) in if l = [] then manual_title else l)
      else
        (let titles = map t_title (filter (\<lambda>t. t_user t = uid \<and> t_mode t = scheduled) (tasks d));
             top = fold max (List.map_filter title_index titles) 0
         in if top = 0 then base_title else base_title @ show_int (top + 1)))"

definition ensure_task_title :: "int \<Rightarrow> payload \<Rightarrow> db \<Rightarrow> payload" where
  "ensure_task_title uid p d =
     (let title = strip (str_or_empty (pget p ''title'')) in
      if title \<noteq> [] then pset ''title'' (JStr title) p
      else pset ''title'' (JStr (build_default_task_title uid (mode_of (pget p ''trigger_mode''))
                                   (pget p ''shortcut_label'') d)) p)"

section \<open>Shortcuts\<close>

definition other_manual_tasks :: "int \<Rightarrow> string option \<Rightarrow> db \<Rightarrow> task list" where
  "other_manual_tasks uid cur d =
     filter (\<lambda>t. t_user t = uid \<and> t_mode t = manual_shortcut \<and> (\<not> str_true cur \<or> Some (t_id t) \<noteq> cur)) (tasks d)"

text \<open>\<open>scalar_one_or_none\<close> raises when there are several rows.\<close>

definition find_duplicate_manual_shortcut_task_id ::
  "int \<Rightarrow> string \<Rightarrow> string option \<Rightarrow> db \<Rightarrow> http_error + string option" where
  "find_duplicate_manual_shortcut_task_id uid label cur d =
     (if strip label = [] then Inr None
      else case filter (\<lambda>t. map_option lower (t_label t) = Some (lower (strip label))) (other_manual_tasks uid cur d) of
             [] \<Rightarrow> Inr None
           | [t] \<Rightarrow> Inr (Some (t_id t))
           | _ \<Rightarrow> Inl unhandled)"

definition choose_shortcut_slot :: "int set \<Rightarrow> json \<Rightarrow> http_error + int" where
  "choose_shortcut_slot occupied v =
     (if v = JNull
      then (case filter (\<lambda>n. n \<notin> occupied) [1, 2, 3] of
              [] \<Rightarrow> bad ''<no free shortcut slot>'' | n # _ \<Rightarrow> Inr n)
      else case py_int v of
        None \<Rightarrow> Inl unhandled
      | Some n \<Rightarrow> if n \<in> occupied then bad ''<shortcut slot taken>'' else Inr n)"

definition validate_shortcut_constraints ::
  "int \<Rightarrow> string option \<Rightarrow> payload \<Rightarrow> db \<Rightarrow> http_error + payload" where
  "validate_shortcut_constraints uid cur p d =
     (if mode_of (pget p ''trigger_mode'') \<noteq> manual_shortcut
      then Inr (pset ''shortcut_label'' JNull (pset ''shortcut_slot'' JNull p))
      else
        (let others = other_manual_tasks uid cur d;
             label = strip (str_or_empty (pget p ''shortcut_label''))
         in and_then (check (length others < 3) ''<at most 3 shortcut tasks>'') (\<lambda>_.
            and_then (find_duplicate_manual_shortcut_task_id uid label cur d) (\<lambda>dup.
            and_then (check (dup = None) ''<shortcut label taken>'') (\<lambda>_.
            and_then (choose_shortcut_slot (set (List.map_filter t_slot others)) (pget p ''shortcut_slot'')) (\<lambda>n.
              Inr (pset ''shortcut_slot'' (JInt n)
                    (pset ''shortcut_label'' (json_str (opt_str label)) p))))))))"

section \<open>Writing a task row\<close>

definition default_task :: "string \<Rightarrow> task" where
  "default_task tid =
     \<lparr>t_id = tid, t_user = 0, t_account = None, t_chat = None, t_title = [], t_peer = None,
      t_peer_type = None, t_hash = None, t_targets = JNull, t_enabled = False, t_mode = scheduled,
      t_slot = None, t_label = None, t_priority = 0, t_repeat = 0, t_jitter = 0, t_delay_min = 0,
      t_delay_max = 0, t_day_start = None, t_day_end = None, t_start = None, t_end = None,
      t_text = None, t_media = MNone, t_media_file = None, t_buttons = JNull, t_contract = 2,
      t_revision = 1, t_src_account = None, t_src_msg = None, t_src_meta = JNull,
      t_src_state = ''none'', t_src_error = None, t_src_verified = None, t_delete_previous = True,
      t_pin = False, t_last_msg = None, t_next = None, t_failures = 0\<rparr>"

text \<open>
  \<open>ScheduledMessageTask(**payload)\<close>: an unknown key is a \<open>TypeError\<close>. A column that is null when
  the row is inserted is left out of the \<open>INSERT\<close>, so one with a default takes it.
\<close>

definition defaulted_columns :: "string list" where
  "defaulted_columns =
     [''task_id'', ''enabled'', ''trigger_mode'', ''priority'', ''jitter_seconds'', ''delay_min_seconds'',
      ''delay_max_seconds'', ''media_type'', ''content_contract_version'', ''revision'', ''media_source_state'',
      ''delete_previous'', ''pin_message'', ''failure_count'']"

fun construct_columns :: "dict \<Rightarrow> task \<Rightarrow> http_error + task" where
  "construct_columns [] t = Inr t"
| "construct_columns ((k, v) # d) t =
     (if v = JNull \<and> k \<in> set defaulted_columns then construct_columns d t
      else case set_column k v t of None \<Rightarrow> Inl unhandled | Some t' \<Rightarrow> construct_columns d t')"

definition construct_task :: "string \<Rightarrow> payload \<Rightarrow> http_error + task" where
  "construct_task tid p =
     and_then (construct_columns (pl_fields p) (default_task tid)) (\<lambda>t.
       Inr (t\<lparr>t_text := (case pl_text p of None \<Rightarrow> None | Some v \<Rightarrow> v)\<rparr>))"

definition nullable_fields :: "string list" where
  "nullable_fields =
     [''media_file_id'', ''day_start_hour'', ''day_end_hour'', ''start_at'', ''end_at'', ''text'', ''buttons'',
      ''target_access_hash'', ''shortcut_slot'', ''shortcut_label'', ''media_source_account_id'',
      ''media_source_message_id'', ''media_source_meta'', ''media_source_error_code'',
      ''media_source_verified_at'']"

text \<open>
  Only columns are written: the code also lets through the other attributes of the ORM class
  (relationships, \<open>metadata\<close>), which are not part of the row.
  \<open>enabled\<close> takes any value here: \<open>ensure_initial_next_run\<close> makes it a boolean before it is stored.\<close>

fun update_columns :: "dict \<Rightarrow> task \<Rightarrow> http_error + task" where
  "update_columns [] t = Inr t"
| "update_columns ((k, v) # d) t =
     (if k \<notin> set task_columns \<or> k \<in> {''user_id'', ''task_id''} \<or> (v = JNull \<and> k \<notin> set nullable_fields)
      then update_columns d t
      else if k = ''enabled'' then update_columns d (t\<lparr>t_enabled := truthy v\<rparr>)
      else case set_column k v t of
             None \<Rightarrow> Inl unhandled
           | Some t' \<Rightarrow> update_columns d t')"

definition apply_update_payload :: "payload \<Rightarrow> task \<Rightarrow> http_error + task" where
  "apply_update_payload p t =
     and_then (update_columns (pl_fields p) t) (\<lambda>t1.
       let t2 = (case pl_text p of None \<Rightarrow> t1 | Some v \<Rightarrow> t1\<lparr>t_text := v\<rparr>)
       in Inr (if int_true (t_peer t2) \<and> \<not> int_true (t_chat t2) then t2\<lparr>t_chat := t_peer t2\<rparr> else t2))"

section \<open>Creating\<close>

definition insert_task :: "int \<Rightarrow> payload \<Rightarrow> db \<Rightarrow> http_error + db \<times> string" where
  "insert_task uid p d =
     and_then (validate_shortcut_constraints uid None (ensure_task_title uid p d) d) (\<lambda>p1.
     and_then (construct_task (fresh_id d (drawn d)) p1) (\<lambda>t.
       if get_task (t_id t) d \<noteq> None then Inl unhandled
       else Inr (d\<lparr>tasks := tasks d @ [t], drawn := Suc (drawn d)\<rparr>, t_id t)))"

definition create_task ::
  "('x, 'm) tg_ops_scheme \<Rightarrow> payload \<Rightarrow> int \<Rightarrow> 'x sys \<Rightarrow> 'x sys \<times> (http_error + string)" where
  "create_task ops request uid s =
     (case and_then (prepare_v2_create_payload request) (\<lambda>p0.
             let p = pset ''user_id'' (JInt uid) p0 in
             and_then (resolve_account p uid None (sdb s)) (\<lambda>acc. Inr (p, acc))) of
        Inl e \<Rightarrow> (s, Inl e)
      | Inr (p, acc) \<Rightarrow>
          (let dt = now_of ops (sx s); now = timestamp dt in
           if (case acc of None \<Rightarrow> False | Some a \<Rightarrow> is_proxy_observation_active a dt)
           then (s, Inl (Http 423 ''<account under observation>''))
           else
             (let (d1, allowed) = require_permission acc dt (sdb s);
                  s1 = s\<lparr>sdb := d1\<rparr>
              in case and_then allowed (\<lambda>_. and_then (normalize_targets p None) (validate_task_payload None)) of
                   Inl e \<Rightarrow> (s1, Inl e)
                 | Inr p1 \<Rightarrow>
                     (case apply_system_strategy_fields ops acc p1 (sx s1) of
                        (x2, Inl e) \<Rightarrow> (s1\<lparr>sx := x2\<rparr>, Inl e)
                      | (x2, Inr p2) \<Rightarrow>
                          (case and_then (ensure_initial_next_run_new now p2) (\<lambda>p3. insert_task uid p3 d1) of
                             Inl e \<Rightarrow> (s1\<lparr>sx := x2\<rparr>, Inl e)
                           | Inr (d3, tid) \<Rightarrow> (s1\<lparr>sdb := d3, sx := x2\<rparr>, Inr tid))))))"

section \<open>Updating\<close>

definition revision_conflict :: http_error where
  "revision_conflict = Http 409 ''TASK_REVISION_CONFLICT''"

text \<open>The second session of an update, under the lock of the row.\<close>

definition commit_update ::
  "int \<Rightarrow> payload \<Rightarrow> int \<Rightarrow> string \<Rightarrow> int \<Rightarrow> db \<Rightarrow> http_error + db" where
  "commit_update now p expected tid uid d =
     and_then (validate_shortcut_constraints uid (Some tid) p d) (\<lambda>p1.
       case get_task tid d of
         None \<Rightarrow> Inl revision_conflict
       | Some t \<Rightarrow>
           if t_user t \<noteq> uid \<or> t_revision t \<noteq> expected then Inl revision_conflict
           else
             and_then (apply_update_payload p1 t) (\<lambda>t1.
             and_then (ensure_initial_next_run_old now p1 (t_enabled t) t1) (\<lambda>t2.
               let changed = (t_account t \<noteq> t_account t2);
                   t3 = (if changed then clear_task_media_fields t2 else t2);
                   d1 = (if changed then cancel_task_captures tid d else d)
               in and_then (check (\<not> (changed \<and> t_enabled t3
                                \<and> strip_text (case t_text t3 of None \<Rightarrow> [] | Some v \<Rightarrow> v) = []))
                             ''TASK_CONTENT_REQUIRED'') (\<lambda>_.
                    Inr (upd_task tid (\<lambda>_. t3\<lparr>t_revision := expected + 1\<rparr>) d1)))))"

definition update_task ::
  "('x, 'm) tg_ops_scheme \<Rightarrow> string \<Rightarrow> payload \<Rightarrow> int \<Rightarrow> 'x sys \<Rightarrow> 'x sys \<times> (http_error + int)" where
  "update_task ops tid request uid s =
     (case and_then (check_task_permission tid uid (sdb s)) (\<lambda>t0.
           and_then (extract_expected_revision request t0) (\<lambda>(expected, p).
           and_then (reject_media_source_input p) (\<lambda>_.
           and_then (resolve_account p uid (t_account t0) (sdb s)) (\<lambda>acc. Inr (t0, expected, p, acc))))) of
        Inl e \<Rightarrow> (s, Inl e)
      | Inr (t0, expected, p, acc) \<Rightarrow>
          (let dt = now_of ops (sx s); now = timestamp dt;
               (d1, allowed) = require_permission acc dt (sdb s);
               s1 = s\<lparr>sdb := d1\<rparr>
           in case and_then allowed (\<lambda>_. and_then (normalize_targets p (Some t0)) (validate_task_payload (Some t0))) of
                Inl e \<Rightarrow> (s1, Inl e)
              | Inr p1 \<Rightarrow>
                  (case apply_system_strategy_fields ops acc p1 (sx s1) of
                     (x2, Inl e) \<Rightarrow> (s1\<lparr>sx := x2\<rparr>, Inl e)
                   | (x2, Inr p2) \<Rightarrow>
                       (case commit_update now p2 expected tid uid d1 of
                          Inl e \<Rightarrow> (s1\<lparr>sx := x2\<rparr>, Inl e)
                        | Inr d3 \<Rightarrow> (s1\<lparr>sdb := d3, sx := x2\<rparr>, Inr (expected + 1))))))"

section \<open>Deleting, triggering, listing\<close>

text \<open>The logs and captures of the task go with it (\<open>ON DELETE CASCADE\<close>).\<close>

definition remove_task :: "string \<Rightarrow> db \<Rightarrow> db" where
  "remove_task tid d =
     d\<lparr>tasks := filter (\<lambda>t. t_id t \<noteq> tid) (tasks d), logs := filter (\<lambda>l. l_task l \<noteq> tid) (logs d),
       captures := filter (\<lambda>c. c_task c \<noteq> tid) (captures d)\<rparr>"

definition delete_task :: "string \<Rightarrow> int \<Rightarrow> db \<Rightarrow> http_error + db" where
  "delete_task tid uid d =
     and_then (check_task_permission tid uid d) (\<lambda>_.
     and_then (reject_task_delete_while_capturing tid d) (\<lambda>_. Inr (remove_task tid d)))"

definition trigger_task_once ::
  "('x, 'm) tg_ops_scheme \<Rightarrow> config \<Rightarrow> string \<Rightarrow> int \<Rightarrow> trigger_source \<Rightarrow> 'x sys
     \<Rightarrow> ('x sys \<times> (http_error + run_summary)) option" where
  "trigger_task_once ops cfg tid uid src s =
     (case check_task_permission tid uid (sdb s) of
        Inl e \<Rightarrow> Some (s, Inl e)
      | Inr t \<Rightarrow>
          if \<not> t_enabled t then Some (s, Inl (Http 400 ''<task disabled>''))
          else if str_true (t_account t)
          then (case require_account_task_permission (t_account t) (now_of ops (sx s)) (sdb s) of
                  (d1, Inl e) \<Rightarrow> Some (s\<lparr>sdb := d1\<rparr>, Inl e)
                | (d1, Inr _) \<Rightarrow> execute_task_once ops cfg tid src False False (s\<lparr>sdb := d1\<rparr>))
          else execute_task_once ops cfg tid src False False s)"

definition list_manual_shortcuts :: "int \<Rightarrow> string option \<Rightarrow> db \<Rightarrow> task list" where
  "list_manual_shortcuts uid aid d =
     sort_key (\<lambda>t. int_or (t_slot t) 0)
       (filter (\<lambda>t. t_user t = uid \<and> t_enabled t \<and> t_mode t = manual_shortcut \<and> t_slot t \<noteq> None
          \<and> (\<not> str_true aid \<or> t_account t = aid)) (tasks d))"

section \<open>Batch updates\<close>

text \<open>Any column but the ids takes the given value; there is no check of it.\<close>

fun assign_columns :: "dict \<Rightarrow> task \<Rightarrow> http_error + task" where
  "assign_columns [] t = Inr t"
| "assign_columns ((k, v) # d) t =
     (if k \<notin> set task_columns \<or> k \<in> {''user_id'', ''task_id''} then assign_columns d t
      else case set_column k v t of None \<Rightarrow> Inl unhandled | Some t' \<Rightarrow> assign_columns d t')"

definition batch_update_one :: "int \<Rightarrow> payload \<Rightarrow> task \<Rightarrow> http_error + task" where
  "batch_update_one now p t =
     and_then (check ((if t_contract t = 0 then 1 else t_contract t) \<noteq> 2) ''TASK_BATCH_UPDATE_UNSUPPORTED_FOR_V2'') (\<lambda>_.
     and_then (assign_columns (pl_fields p) t) (\<lambda>t0.
       let t1 = (case pl_text p of None \<Rightarrow> t0 | Some v \<Rightarrow> t0\<lparr>t_text := v\<rparr>);
           mode = (if t_mode t1 = [] then scheduled else t_mode t1)
       in Inr (if t_enabled t1 \<and> t_next t1 = None \<and> mode = scheduled
               then t1\<lparr>t_next := Some (first_run now (int_or (t_start t1) 0))\<rparr> else t1)))"

fun batch_update_tasks :: "int \<Rightarrow> string list \<Rightarrow> payload \<Rightarrow> int \<Rightarrow> db \<Rightarrow> http_error + db \<times> int" where
  "batch_update_tasks now [] p uid d = Inr (d, 0)"
| "batch_update_tasks now (tid # tids) p uid d =
     (case get_task tid d of
        None \<Rightarrow> batch_update_tasks now tids p uid d
      | Some t \<Rightarrow>
          if t_user t \<noteq> uid then batch_update_tasks now tids p uid d
          else
            and_then (batch_update_one now p t) (\<lambda>t1.
            and_then (batch_update_tasks now tids p uid (upd_task tid (\<lambda>_. t1) d)) (\<lambda>(d1, n).
              Inr (d1, n + 1))))"

end
