(* ===== verification/Columns.thy ===== *)
theory Columns
  imports TaskService
begin

text \<open>
  What a task row holds after its columns have been written from a payload, by a creation, an
  update or a batch update: one locale for all columns, interpreted for those the properties
  speak about.
\<close>

section \<open>Dictionaries\<close>

definition one_value_per_key :: "payload \<Rightarrow> bool" where
  "one_value_per_key p \<longleftrightarrow> distinct (map fst (pl_fields p))"

lemma keys_pset [intro]: "one_value_per_key p \<Longrightarrow> one_value_per_key (pset k v p)"
  by (simp add: one_value_per_key_def pset_def dset_def distinct_update)

lemma keys_pdrop [intro]: "one_value_per_key p \<Longrightarrow> one_value_per_key (pdrop k p)"
  by (simp add: one_value_per_key_def pdrop_def distinct_map_filter)

lemma map_of_pget: "map_of (pl_fields p) k = (if phas p k then Some (pget p k) else None)"
  by (auto simp: phas_def pget_def dhas_def dget_def split: option.splits)

lemma map_of_drop: "map_of (filter (\<lambda>(k', _). k' \<noteq> k) d) k' = (if k' = k then None else map_of d k')"
  by (induction d) auto

lemma pdrop_simps [simp]:
  "pget (pdrop k p) k' = (if k' = k then JNull else pget p k')"
  "phas (pdrop k p) k' = (k' \<noteq> k \<and> phas p k')"
  by (auto simp: pget_def phas_def pdrop_def dget_def dhas_def map_of_drop)

section \<open>Columns\<close>

text \<open>
  A column of the task table: the key of the payload that writes it, the field that holds it,
  and the conversion of the driver. Writing the column stores the converted value; writing any
  other leaves it.
\<close>

locale column =
  fixes key :: string and get :: "task \<Rightarrow> 'a" and conv :: "json \<Rightarrow> 'a option"
  assumes writes: "set_column key v t = Some t' \<Longrightarrow> conv v = Some (get t')"
    and keeps: "k \<noteq> key \<Longrightarrow> set_column k v t = Some t' \<Longrightarrow> get t' = get t"
begin

lemma enabled_keeps: "key \<noteq> ''enabled'' \<Longrightarrow> get (t\<lparr>t_enabled := b\<rparr>) = get t"
  by (rule keeps [where k = "''enabled''" and v = "JBool b"]) (simp_all add: set_column_def column_writers_def put_column_def as_bool_def)

lemma construct_other:
  "construct_columns d t = Inr t' \<Longrightarrow> key \<notin> fst ` set d \<Longrightarrow> get t' = get t"
proof (induction d arbitrary: t)
  case (Cons e d)
  obtain k v where e: "e = (k, v)" by fastforce
  show ?case
  proof (cases "v = JNull \<and> k \<in> set defaulted_columns")
    case True
    with Cons e show ?thesis by simp
  next
    case False
    with Cons.prems e obtain u where "set_column k v t = Some u" "construct_columns d u = Inr t'"
      by (auto split: option.splits if_splits)
    with Cons e show ?thesis using keeps [of k v t u] by auto
  qed
qed simp

text \<open>What a constructed column holds: the value given, or the default.\<close>

definition built_from :: "json option \<Rightarrow> 'a \<Rightarrow> 'a \<Rightarrow> bool" where
  "built_from v old new \<longleftrightarrow> (case v of None \<Rightarrow> new = old
     | Some w \<Rightarrow> if w = JNull \<and> key \<in> set defaulted_columns then new = old else conv w = Some new)"

lemma construct:
  "construct_columns d t = Inr t' \<Longrightarrow> distinct (map fst d) \<Longrightarrow> built_from (map_of d key) (get t) (get t')"
proof (induction d arbitrary: t)
  case (Cons e d)
  obtain k v where e: "e = (k, v)" by fastforce
  show ?case
  proof (cases "v = JNull \<and> k \<in> set defaulted_columns")
    case True
    with Cons.prems e have c: "construct_columns d t = Inr t'" by simp
    show ?thesis
      using Cons.IH [OF c] construct_other [OF c] True Cons.prems(2) e
      by (cases "k = key") (auto simp: built_from_def)
  next
    case False
    with Cons.prems e obtain u where u: "set_column k v t = Some u" "construct_columns d u = Inr t'"
      by (auto split: option.splits if_splits)
    show ?thesis
    proof (cases "k = key")
      case True
      with False u Cons.prems(2) e construct_other [OF u(2)] writes show ?thesis
        by (auto simp: built_from_def)
    next
      case ne: False
      have eq: "map_of (e # d) key = map_of d key" using ne e by simp
      have "built_from (map_of d key) (get u) (get t')"
        using Cons.IH [OF u(2)] Cons.prems(2) by simp
      then show ?thesis unfolding eq keeps [OF ne u(1)] .
    qed
  qed
qed (simp add: built_from_def)

lemma assign_other:
  "assign_columns d t = Inr t' \<Longrightarrow> key \<notin> fst ` set d \<Longrightarrow> get t' = get t"
proof (induction d arbitrary: t)
  case (Cons e d)
  obtain k v where e: "e = (k, v)" by fastforce
  show ?case
  proof (cases "k \<notin> set task_columns \<or> k \<in> {''user_id'', ''task_id''}")
    case True
    with Cons e show ?thesis by simp
  next
    case False
    with Cons.prems e obtain u where u: "set_column k v t = Some u" "assign_columns d u = Inr t'"
      by (auto split: option.splits)
    have "get t' = get u" using Cons.IH [OF u(2)] Cons.prems(2) by simp
    also have "\<dots> = get t" using keeps [OF _ u(1)] Cons.prems(2) e by auto
    finally show ?thesis .
  qed
qed simp

lemma update_other:
  assumes "key \<noteq> ''enabled''"
  shows "update_columns d t = Inr t' \<Longrightarrow> key \<notin> fst ` set d \<Longrightarrow> get t' = get t"
proof (induction d arbitrary: t)
  case (Cons e d)
  obtain k v where e: "e = (k, v)" by fastforce
  consider (skip) "k \<notin> set task_columns \<or> k \<in> {''user_id'', ''task_id''} \<or> (v = JNull \<and> k \<notin> set nullable_fields)"
    | (enabled) "k = ''enabled''" "update_columns d (t\<lparr>t_enabled := truthy v\<rparr>) = Inr t'"
    | (stores) u where "set_column k v t = Some u" "update_columns d u = Inr t'"
    using Cons.prems(1) e by (auto split: if_splits option.splits)
  then show ?case
  proof cases
    case skip
    with Cons e show ?thesis by simp
  next
    case enabled
    then show ?thesis using Cons.IH Cons.prems(2) e enabled_keeps [OF assms] by fastforce
  next
    case stores
    have "get t' = get u" using Cons.IH [OF stores(2)] Cons.prems(2) by simp
    also have "\<dots> = get t" using keeps [OF _ stores(1)] Cons.prems(2) e by auto
    finally show ?thesis .
  qed
qed simp

lemma update:
  assumes "key \<in> set task_columns" "key \<notin> {''user_id'', ''task_id'', ''enabled''}"
  shows "update_columns d t = Inr t' \<Longrightarrow> distinct (map fst d) \<Longrightarrow>
   case map_of d key of None \<Rightarrow> get t' = get t
   | Some v \<Rightarrow> if v = JNull \<and> key \<notin> set nullable_fields then get t' = get t else conv v = Some (get t')"
proof (induction d arbitrary: t)
  case (Cons e d)
  obtain k v where e: "e = (k, v)" by fastforce
  have ne: "key \<noteq> ''enabled''" using assms by simp
  show ?case
  proof (cases "k = key")
    case True
    then have "key \<notin> fst ` set d" using Cons.prems(2) e by simp
    with update_other [OF ne] True Cons.prems(1) e assms writes show ?thesis
      by (auto split: if_splits option.splits)
  next
    case False
    then have eq: "map_of (e # d) key = map_of d key" using e by simp
    obtain u where u: "update_columns d u = Inr t'" "get u = get t"
      using Cons.prems(1) e False enabled_keeps [OF ne] keeps
      by (auto split: if_splits option.splits)
    have "case map_of d key of None \<Rightarrow> get t' = get u
       | Some v \<Rightarrow> if v = JNull \<and> key \<notin> set nullable_fields then get t' = get u else conv v = Some (get t')"
      using Cons.IH [OF u(1)] Cons.prems(2) by simp
    then show ?thesis unfolding eq u(2) .
  qed
qed simp

lemma update_protected:
  assumes "key \<in> {''user_id'', ''task_id''}"
  shows "update_columns d t = Inr t' \<Longrightarrow> get t' = get t"
proof (induction d arbitrary: t)
  case (Cons e d)
  obtain k v where e: "e = (k, v)" by fastforce
  show ?case
  proof (cases "k = key")
    case True
    with Cons e assms show ?thesis by auto
  next
    case False
    then obtain u where "update_columns d u = Inr t'" "get u = get t"
      using Cons.prems e assms enabled_keeps keeps [OF False]
      by (auto split: if_splits option.splits)
    with Cons.IH show ?thesis by simp
  qed
qed simp

end

text \<open>The columns the properties speak about.\<close>

definition leaves :: "(task \<Rightarrow> 'a) \<Rightarrow> (json \<Rightarrow> task \<Rightarrow> task option) \<Rightarrow> bool" where
  "leaves get w \<longleftrightarrow> (\<forall>v t t'. w v t = Some t' \<longrightarrow> get t' = get t)"

lemma leaves_put [simp]: "(\<And>x t. get (put x t) = get t) \<Longrightarrow> leaves get (put_column conv put)"
  by (auto simp: leaves_def put_column_def)

lemma column_writersI:
  assumes "map_of column_writers key = Some (put_column conv put)" "\<And>x t. get (put x t) = x"
    and "list_all (\<lambda>(k, w). k = key \<or> leaves get w) column_writers"
  shows "column key get conv"
proof
  show "conv v = Some (get t')" if "set_column key v t = Some t'" for v t t'
    using that assms(1,2) by (auto simp: set_column_def put_column_def)
  show "get t' = get t" if ne: "k \<noteq> key" and s: "set_column k v t = Some t'" for k v t t'
  proof -
    obtain w where "map_of column_writers k = Some w" "w v t = Some t'"
      using s by (auto simp: set_column_def split: option.splits)
    then show ?thesis using assms(3) ne by (fastforce simp: list_all_iff leaves_def dest: map_of_SomeD)
  qed
qed

interpretation id_col: column "''task_id''" t_id as_str
  by (rule column_writersI [where put = "\<lambda>v t. t\<lparr>t_id := v\<rparr>"]) (simp_all add: column_writers_def)

interpretation user_col: column "''user_id''" t_user as_int
  by (rule column_writersI [where put = "\<lambda>v t. t\<lparr>t_user := v\<rparr>"]) (simp_all add: column_writers_def)

interpretation account_col: column "''account_id''" t_account "nullable as_str"
  by (rule column_writersI [where put = "\<lambda>v t. t\<lparr>t_account := v\<rparr>"]) (simp_all add: column_writers_def)

interpretation mode_col: column "''trigger_mode''" t_mode as_str
  by (rule column_writersI [where put = "\<lambda>v t. t\<lparr>t_mode := v\<rparr>"]) (simp_all add: column_writers_def)

interpretation slot_col: column "''shortcut_slot''" t_slot "nullable as_int"
  by (rule column_writersI [where put = "\<lambda>v t. t\<lparr>t_slot := v\<rparr>"]) (simp_all add: column_writers_def)

interpretation label_col: column "''shortcut_label''" t_label "nullable as_str"
  by (rule column_writersI [where put = "\<lambda>v t. t\<lparr>t_label := v\<rparr>"]) (simp_all add: column_writers_def)

interpretation repeat_col: column "''repeat_interval_min''" t_repeat as_int
  by (rule column_writersI [where put = "\<lambda>v t. t\<lparr>t_repeat := v\<rparr>"]) (simp_all add: column_writers_def)

interpretation priority_col: column "''priority''" t_priority as_int
  by (rule column_writersI [where put = "\<lambda>v t. t\<lparr>t_priority := v\<rparr>"]) (simp_all add: column_writers_def)

interpretation jitter_col: column "''jitter_seconds''" t_jitter as_int
  by (rule column_writersI [where put = "\<lambda>v t. t\<lparr>t_jitter := v\<rparr>"]) (simp_all add: column_writers_def)

interpretation delay_min_col: column "''delay_min_seconds''" t_delay_min as_int
  by (rule column_writersI [where put = "\<lambda>v t. t\<lparr>t_delay_min := v\<rparr>"]) (simp_all add: column_writers_def)

interpretation delay_max_col: column "''delay_max_seconds''" t_delay_max as_int
  by (rule column_writersI [where put = "\<lambda>v t. t\<lparr>t_delay_max := v\<rparr>"]) (simp_all add: column_writers_def)

interpretation targets_col: column "''target_peers''" t_targets Some
  by (rule column_writersI [where put = "\<lambda>v t. t\<lparr>t_targets := v\<rparr>"]) (simp_all add: column_writers_def)

interpretation enabled_col: column "''enabled''" t_enabled as_bool
  by (rule column_writersI [where put = "\<lambda>v t. t\<lparr>t_enabled := v\<rparr>"]) (simp_all add: column_writers_def)

interpretation media_col: column "''media_type''" t_media media_column
  by (rule column_writersI [where put = "\<lambda>v t. t\<lparr>t_media := v\<rparr>"]) (simp_all add: column_writers_def)

interpretation contract_col: column "''content_contract_version''" t_contract as_int
  by (rule column_writersI [where put = "\<lambda>v t. t\<lparr>t_contract := v\<rparr>"]) (simp_all add: column_writers_def)

interpretation revision_col: column "''revision''" t_revision as_int
  by (rule column_writersI [where put = "\<lambda>v t. t\<lparr>t_revision := v\<rparr>"]) (simp_all add: column_writers_def)

interpretation source_col: column "''media_source_state''" t_src_state as_str
  by (rule column_writersI [where put = "\<lambda>v t. t\<lparr>t_src_state := v\<rparr>"]) (simp_all add: column_writers_def)

interpretation buttons_col: column "''buttons''" t_buttons Some
  by (rule column_writersI [where put = "\<lambda>v t. t\<lparr>t_buttons := v\<rparr>"]) (simp_all add: column_writers_def)

interpretation pin_col: column "''pin_message''" t_pin as_bool
  by (rule column_writersI [where put = "\<lambda>v t. t\<lparr>t_pin := v\<rparr>"]) (simp_all add: column_writers_def)

interpretation next_col: column "''next_run_at''" t_next "nullable as_int"
  by (rule column_writersI [where put = "\<lambda>v t. t\<lparr>t_next := v\<rparr>"]) (simp_all add: column_writers_def)

end
