(* ===== verification/TaskFacts.thy ===== *)
theory TaskFacts
  imports Columns
begin

text \<open>
  What a validated payload contains: the facts about normalization, validation and the fields
  the system sets.
\<close>

section \<open>What validation establishes\<close>

text \<open>A payload that keeps the keys \<open>ks\<close> of another.\<close>

definition agrees_off :: "string set \<Rightarrow> payload \<Rightarrow> payload \<Rightarrow> bool" where
  "agrees_off ks p p' \<longleftrightarrow> (\<forall>k. k \<notin> ks \<longrightarrow> pget p' k = pget p k \<and> phas p' k = phas p k)
     \<and> pl_text p' = pl_text p \<and> (one_value_per_key p \<longrightarrow> one_value_per_key p')"

lemma agrees_refl [simp]: "agrees_off ks p p"
  by (simp add: agrees_off_def)

lemma agrees_pset: "agrees_off ks p p' \<Longrightarrow> k \<in> ks \<Longrightarrow> agrees_off ks p (pset k v p')"
  by (auto simp: agrees_off_def)

lemma agrees_trans: "agrees_off ks p p' \<Longrightarrow> agrees_off ls p' p'' \<Longrightarrow> agrees_off (ks \<union> ls) p p''"
  by (auto simp: agrees_off_def)

lemma agreesD:
  "agrees_off ks p p' \<Longrightarrow> k \<notin> ks \<Longrightarrow> pget p' k = pget p k \<and> phas p' k = phas p k"
  by (simp add: agrees_off_def)

lemma validate_trigger_facts:
  assumes "validate_trigger_mode cur p = Inr p'"
  shows "\<exists>m \<in> set trigger_modes. pget p' ''trigger_mode'' = JStr m"
    and "phas p' ''trigger_mode''" and "agrees_off {''trigger_mode''} p p'"
  using assms by (auto simp: validate_trigger_mode_def and_then_Inr Let_def intro: agrees_pset)

definition shortcut_ok :: "payload \<Rightarrow> bool" where
  "shortcut_ok p \<longleftrightarrow>
     (if pget p ''trigger_mode'' = JStr manual_shortcut
      then (\<exists>l. pget p ''shortcut_label'' = JStr l \<and> l \<noteq> [] \<and> length l \<le> 20 \<and> strip l = l)
      else pget p ''shortcut_label'' = JNull \<and> pget p ''shortcut_slot'' = JNull)
   \<and> pget p ''shortcut_slot'' \<in> {JNull, JInt 1, JInt 2, JInt 3}
   \<and> phas p ''shortcut_label'' \<and> phas p ''shortcut_slot''"

lemma dropWhile_idem: "dropWhile P (dropWhile P xs) = dropWhile P xs"
  by (induction xs) auto

lemma dropWhile_rev_front:
  "(xs = [] \<or> \<not> P (hd xs)) \<Longrightarrow> (rev (dropWhile P (rev xs)) = [] \<or> \<not> P (hd (rev (dropWhile P (rev xs)))))"
proof (induction xs rule: rev_induct)
  case (snoc x xs)
  show ?case
  proof (cases "P x")
    case True
    have "xs = [] \<or> \<not> P (hd xs)" using snoc.prems by (cases xs) auto
    with snoc.IH True show ?thesis by simp
  next
    case False
    with snoc.prems show ?thesis by (cases xs) auto
  qed
qed simp

lemma strip_strip [simp]: "strip (strip s) = strip s"
proof -
  let ?u = "dropWhile is_space s"
  let ?v = "rev (dropWhile is_space (rev ?u))"
  have "?u = [] \<or> \<not> is_space (hd ?u)" by (metis hd_dropWhile)
  then have "?v = [] \<or> \<not> is_space (hd ?v)" by (rule dropWhile_rev_front)
  then have "dropWhile is_space ?v = ?v" by (metis dropWhile.simps(1) dropWhile_eq_self_iff)
  then show ?thesis by (simp add: strip_def dropWhile_idem)
qed

lemma validate_shortcut_facts:
  assumes "validate_shortcut cur p = Inr p'"
  shows "shortcut_ok p'" and "agrees_off {''shortcut_slot'', ''shortcut_label''} p p'"
proof -
  obtain slot where slot: "shortcut_slot_of (value_or_current p ''shortcut_slot'' (\<lambda>t. json_int (t_slot t)) cur) = Inr slot"
    and p': "p' = pset ''shortcut_label'' (if pget p ''trigger_mode'' = JStr manual_shortcut
          then JStr (strip (str_or_empty (value_or_current p ''shortcut_label'' (\<lambda>t. json_str (t_label t)) cur)))
          else JNull) (pset ''shortcut_slot'' (json_int slot) p)"
    and c: "length (strip (str_or_empty (value_or_current p ''shortcut_label'' (\<lambda>t. json_str (t_label t)) cur))) \<le> 20"
      "pget p ''trigger_mode'' = JStr manual_shortcut \<or> slot = None"
      "pget p ''trigger_mode'' \<noteq> JStr manual_shortcut
        \<or> strip (str_or_empty (value_or_current p ''shortcut_label'' (\<lambda>t. json_str (t_label t)) cur)) \<noteq> []"
    using assms by (auto simp: validate_shortcut_def and_then_Inr Let_def)
  have "slot \<in> {None, Some 1, Some 2, Some 3}"
    using slot by (auto simp: shortcut_slot_of_def and_then_Inr split: if_splits)
  then show "shortcut_ok p'"
    using c unfolding p' by (auto simp: shortcut_ok_def json_int_def)
  show "agrees_off {''shortcut_slot'', ''shortcut_label''} p p'"
    unfolding p' by (intro agrees_pset agrees_refl) simp_all
qed

lemma validate_number_facts:
  "validate_repeat cur p = Inr p' \<Longrightarrow> agrees_off {''repeat_interval_min''} p p'
     \<and> phas p' ''repeat_interval_min'' \<and> (\<exists>n > 0. pget p' ''repeat_interval_min'' = JInt n)"
  "validate_priority cur p = Inr p' \<Longrightarrow> agrees_off {''priority''} p p'
     \<and> phas p' ''priority'' \<and> (\<exists>n \<ge> 0. pget p' ''priority'' = JInt n)"
  by (auto simp: validate_repeat_def validate_priority_def and_then_Inr intro: agrees_pset)

lemma validate_media_facts:
  assumes "validate_media cur p = Inr (version, m, p')"
  shows "payload_contract cur p = Inr version" "payload_media cur p = Inr m"
    and "pget p' ''media_type'' = JStr (media_value_of m)" "phas p' ''media_type''"
    and "agrees_off {''media_type'', ''media_file_id''} p p'"
  using assms by (auto simp: validate_media_def and_then_Inr Let_def intro!: agrees_pset)

definition validated_keys :: "string set" where
  "validated_keys = {''trigger_mode'', ''shortcut_slot'', ''shortcut_label'', ''repeat_interval_min'',
     ''priority'', ''media_type'', ''media_file_id''}"

text \<open>What a payload that passed holds; later steps only add other keys.\<close>

definition valid_payload :: "payload \<Rightarrow> bool" where
  "valid_payload p \<longleftrightarrow>
     (\<exists>m \<in> set trigger_modes. pget p ''trigger_mode'' = JStr m) \<and> phas p ''trigger_mode''
   \<and> shortcut_ok p
   \<and> (\<exists>n > 0. pget p ''repeat_interval_min'' = JInt n) \<and> phas p ''repeat_interval_min''
   \<and> (\<exists>n \<ge> 0. pget p ''priority'' = JInt n) \<and> phas p ''priority''"

lemma shortcut_ok_agrees:
  assumes "agrees_off ks p p'" "ks \<inter> {''trigger_mode'', ''shortcut_slot'', ''shortcut_label''} = {}"
  shows "shortcut_ok p' = shortcut_ok p"
proof -
  have "pget p' k = pget p k \<and> phas p' k = phas p k"
    if "k \<in> {''trigger_mode'', ''shortcut_slot'', ''shortcut_label''}" for k
    by (rule agreesD [OF assms(1)]) (use that assms(2) in auto)
  then show ?thesis by (simp add: shortcut_ok_def)
qed

lemma valid_payload_agrees:
  assumes "agrees_off ks p p'" "ks \<inter> validated_keys = {}"
  shows "valid_payload p' = valid_payload p"
proof -
  have "pget p' k = pget p k \<and> phas p' k = phas p k" if "k \<in> validated_keys" for k
    by (rule agreesD [OF assms(1)]) (use that assms(2) in auto)
  moreover have "shortcut_ok p' = shortcut_ok p"
    using assms by (intro shortcut_ok_agrees [OF assms(1)]) (auto simp: validated_keys_def)
  ultimately show ?thesis by (simp add: valid_payload_def validated_keys_def)
qed

lemma payload_facts:
  assumes "validate_task_payload cur p = Inr p'"
  shows "valid_payload p'" and "agrees_off validated_keys p p'"
    and "\<exists>version m. payload_contract cur p = Inr version \<and> payload_media cur p = Inr m
       \<and> pget p' ''media_type'' = JStr (media_value_of m) \<and> phas p' ''media_type''
       \<and> validate_content cur version m p' = Inr ()"
proof -
  obtain p1 p2 p3 p4 version m where
    s1: "validate_trigger_mode cur p = Inr p1" and s2: "validate_shortcut cur p1 = Inr p2"
    and s3: "validate_repeat cur p2 = Inr p3" and s4: "validate_priority cur p3 = Inr p4"
    and s5: "validate_media cur p4 = Inr (version, m, p')" and s6: "validate_content cur version m p' = Inr ()"
    using assms by (auto simp: validate_task_payload_def and_then_Inr)
  note f1 = validate_trigger_facts [OF s1] and f2 = validate_shortcut_facts [OF s2]
    and f3 = validate_number_facts(1) [OF s3] and f4 = validate_number_facts(2) [OF s4]
    and f5 = validate_media_facts [OF s5]
  have a: "agrees_off ({''trigger_mode''} \<union> {''shortcut_slot'', ''shortcut_label''} \<union> {''repeat_interval_min''}
      \<union> {''priority''}) p p4"
    using f1(3) f2(2) f3 f4 by (blast intro: agrees_trans)
  from agrees_trans [OF a f5(5)] show "agrees_off validated_keys p p'"
    by (simp add: validated_keys_def insert_commute)
  have "shortcut_ok p'"
    using shortcut_ok_agrees [of "{''repeat_interval_min''}" p2 p3] shortcut_ok_agrees [of "{''priority''}" p3 p4]
      shortcut_ok_agrees [OF f5(5)] f2(1) f3 f4 by simp
  moreover have "pget p' k = pget p1 k \<and> phas p' k = phas p1 k" if "k = ''trigger_mode''" for k
    using that f2(2) f3 f4 f5(5) by (simp add: agrees_off_def)
  ultimately show "valid_payload p'"
    using f1 f3 f4 f5(5) by (simp add: valid_payload_def agrees_off_def)
  show "\<exists>version m. payload_contract cur p = Inr version \<and> payload_media cur p = Inr m
       \<and> pget p' ''media_type'' = JStr (media_value_of m) \<and> phas p' ''media_type''
       \<and> validate_content cur version m p' = Inr ()"
  proof (intro exI conjI)
    show "payload_contract cur p = Inr version"
      using f5(1) agreesD [OF a, of "''content_contract_version''"]
      by (cases "phas p ''content_contract_version''")
         (simp_all add: payload_contract_def dget_or_def map_of_pget)
    show "payload_media cur p = Inr m"
      using f5(2) agreesD [OF a, of "''media_type''"]
      by (simp add: payload_media_def split: if_splits)
  qed (use f5 s6 in simp_all)
qed

section \<open>Targets\<close>

lemma peer_types_normal: "ty \<in> set peer_types \<Longrightarrow> lower (strip ty) = ty \<and> ty \<noteq> []"
proof -
  have "list_all (\<lambda>ty. lower (strip ty) = ty \<and> ty \<noteq> []) peer_types" by code_simp
  then show "ty \<in> set peer_types \<Longrightarrow> lower (strip ty) = ty \<and> ty \<noteq> []" by (simp add: list_all_iff)
qed

text \<open>The dictionaries the normalization produces.\<close>

definition normal_title :: "string option \<Rightarrow> bool" where
  "normal_title title \<longleftrightarrow> (\<forall>s. title = Some s \<longrightarrow> s \<noteq> [] \<and> strip s = s)"

definition normal_target :: "dict \<Rightarrow> bool" where
  "normal_target d \<longleftrightarrow>
     (\<exists>n ty h title. d = target_dict n ty h title \<and> ty \<in> set peer_types \<and> normal_title title)"

lemma normal_targetE:
  assumes "normal_target d"
  obtains n ty h title where "d = target_dict n ty h title" "ty \<in> set peer_types" "normal_title title"
  using assms by (auto simp: normal_target_def)

lemma normal_targetI [intro]:
  "ty \<in> set peer_types \<Longrightarrow> normal_title title \<Longrightarrow> normal_target (target_dict n ty h title)"
  by (auto simp: normal_target_def)

lemma normal_title_opt_str [simp]: "normal_title (opt_str (strip s))" "normal_title None"
  by (simp_all add: normal_title_def opt_str_def)

lemma target_dict_simps [simp]:
  "dget (target_dict n ty h title) ''peer_id'' = JInt n"
  "dget (target_dict n ty h title) ''peer_type'' = JStr ty"
  "dget (target_dict n ty h title) ''access_hash'' = json_int h"
  "dget (target_dict n ty h title) ''title'' = json_str title"
  "dhas (target_dict n ty h title) ''peer_id''" "dhas (target_dict n ty h title) ''peer_type''"
  "dhas (target_dict n ty h title) ''access_hash''"
  by (auto simp: target_dict_def dhas_def json_str_def dget_def split: option.splits)

lemma norm_type_JStr [simp]: "norm_type (JStr s) = lower (strip s)"
  by (simp add: norm_type_def)

lemma optional_hash_int [simp]: "optional_hash m (json_int h) = Inr h"
  by (cases h) (simp_all add: optional_hash_def json_int_def json_blank_def int_value_def)

lemma normal_title_back: "normal_title title \<Longrightarrow> opt_str (strip (str_or_empty (json_str title))) = title"
  by (cases title) (auto simp: normal_title_def json_str_def opt_str_def strip_def)

lemma normalize_peer_normal: "normalize_target_peer it = Inr d \<Longrightarrow> normal_target d"
  by (cases it) (auto simp: normalize_target_peer_def and_then_Inr Let_def)

lemma map_result_all:
  "map_result f xs = Inr ys \<Longrightarrow> (\<And>x y. f x = Inr y \<Longrightarrow> P y) \<Longrightarrow> list_all P ys"
  by (induction xs arbitrary: ys) (auto simp: and_then_Inr)

lemma normalize_peers_normal:
  assumes "normalize_target_peers v = Inr ds"
  shows "list_all normal_target ds" "distinct (map peer_key ds)"
proof -
  have "ds = [] \<or> (\<exists>xs es. map_result normalize_target_peer xs = Inr es \<and> ds = dedupe peer_key es)"
    using assms by (cases v) (auto simp: normalize_target_peers_def and_then_Inr)
  then show "list_all normal_target ds" "distinct (map peer_key ds)"
    using map_result_all [of normalize_target_peer _ _ normal_target] normalize_peer_normal
      dedupe_subset [of peer_key] dedupe_distinct [of peer_key]
    by (auto simp: list_all_iff subset_iff)
qed

lemma single_target_normal:
  assumes "build_single_target a b c = Inr d" shows "normal_target d"
  using assms by (auto simp: build_single_target_def and_then_Inr Let_def split: if_splits)

text \<open>A stored item, with its delivery state, normalizes to the dictionary it was made from.\<close>

definition stored_item :: "bool \<Rightarrow> dict \<Rightarrow> dict \<Rightarrow> bool" where
  "stored_item titled d m \<longleftrightarrow> (\<forall>k \<in> {''peer_id'', ''peer_type'', ''access_hash''}.
       dget m k = dget d k \<and> dhas m k = dhas d k)
     \<and> (titled \<longrightarrow> dget m ''title'' = dget d ''title'')"

lemma merge_item_stored: "stored_item (\<not> truthy (dget ex ''title'')) d (merge_item reset ex d)"
  by (auto simp: stored_item_def merge_item_def copy_field_def Let_def)

lemma dget_or_has: "dhas m k \<Longrightarrow> dget_or m k a = dget m k"
  by (auto simp: dget_or_def dhas_def dget_def)

lemma normalize_stored:
  assumes "normal_target d" "stored_item True d m"
  shows "normalize_target_peer (JObj m) = Inr d"
proof -
  obtain n ty h title where d: "d = target_dict n ty h title" "ty \<in> set peer_types" "normal_title title"
    by (rule normal_targetE [OF assms(1)])
  have m: "dget_or m ''peer_id'' a = JInt n" "dget_or m ''peer_type'' b = JStr ty"
    "dget_or m ''access_hash'' c = json_int h" "dget m ''title'' = json_str title" for a b c
    using assms(2) d(1) by (simp_all add: stored_item_def dget_or_has)
  show ?thesis
    using d by (simp add: normalize_target_peer_def m int_value_def peer_types_normal check_def
        normal_title_back Let_def)
qed

lemma normal_item_key:
  "normal_target d \<Longrightarrow> stored_item b d m \<Longrightarrow>
   \<exists>n ty. dget d ''peer_id'' = JInt n \<and> dget d ''peer_type'' = JStr ty \<and> ty \<in> set peer_types
     \<and> item_key (JObj m) = Some (ty, n)"
  by (auto elim!: normal_targetE simp: stored_item_def peer_types_normal)

lemma stored_item_refl [simp]: "stored_item b d d"
  by (simp add: stored_item_def)

text \<open>Merging normal targets succeeds, item by item.\<close>

lemma merge_normal:
  assumes "list_all normal_target ds"
  shows "\<exists>ms. merge_target_runtime_metadata ds existing reset = Some ms
    \<and> list_all2 (\<lambda>d m. \<exists>ex. m = merge_item reset ex d \<and> (existing = JNull \<longrightarrow> ex = [])) ds ms"
  using assms
proof (induction ds)
  case (Cons d ds)
  then obtain ms where ms: "merge_target_runtime_metadata ds existing reset = Some ms"
    "list_all2 (\<lambda>d m. \<exists>ex. m = merge_item reset ex d \<and> (existing = JNull \<longrightarrow> ex = [])) ds ms" by auto
  have d: "normal_target d" using Cons.prems by simp
  obtain n ty where k: "item_key (JObj d) = Some (ty, n)"
    using normal_item_key [OF d, of True d] by auto
  have "dhas d ''peer_id''" "dhas d ''peer_type''" using d by (auto elim!: normal_targetE)
  moreover have "existing = JNull \<longrightarrow> existing_map existing (ty, n) = []"
    by (simp add: existing_map_def list_items_def)
  ultimately show ?case
    using ms k by (intro exI [of _ "merge_item reset (existing_map existing (ty, n)) d # ms"]) auto
qed simp

definition target_keys :: "string set" where
  "target_keys = {''target_peers'', ''target_peer_id'', ''target_peer_type'', ''target_access_hash'', ''chat_id''}"

lemma normalize_targets_shape:
  assumes "normalize_targets p cur = Inr p'"
  obtains ms where "ms \<noteq> []" "pget p' ''target_peers'' = JArr (map JObj ms)" "phas p' ''target_peers''"
    "agrees_off target_keys p p'"
proof -
  obtain ms where m: "p' = pset ''chat_id'' (dget (hd ms) ''peer_id'')
        (pset ''target_access_hash'' (dget (hd ms) ''access_hash'')
          (pset ''target_peer_type'' (dget (hd ms) ''peer_type'')
            (pset ''target_peer_id'' (dget (hd ms) ''peer_id'')
              (pset ''target_peers'' (JArr (map JObj ms)) p))))"
    and ne: "ms \<noteq> []"
  proof -
    obtain ds where ds: "incoming_targets p cur = Inr ds" "ds \<noteq> []"
      using assms by (auto simp: normalize_targets_def and_then_Inr)
    have "length ms = length ds" if "merge_or_fail ds existing reset = Inr ms" for ms existing reset
    proof -
      have "merge_target_runtime_metadata ds existing reset = Some ms"
        using that by (auto simp: merge_or_fail_def split: option.splits)
      then show ?thesis
        by (induction ds arbitrary: ms) (auto split: if_splits option.splits)
    qed
    with ds assms that show ?thesis
      by (auto simp: normalize_targets_def and_then_Inr Let_def split: if_splits)
         (metis length_0_conv)+
  qed
  have "agrees_off target_keys p p'"
    unfolding m by (intro agrees_pset agrees_refl) (simp_all add: target_keys_def)
  with m ne show thesis by (intro that [of ms]) simp_all
qed

text \<open>The targets of a new task, from the list of the request.\<close>

lemma normalize_targets_new:
  assumes "normalize_targets p None = Inr p'" "phas p ''target_peers''"
    and "normalize_target_peers (pget p ''target_peers'') = Inr ds"
  shows "pget p' ''target_peers'' = JArr (map (\<lambda>d. JObj (merge_item True [] d)) ds)"
proof -
  note ds = normalize_peers_normal [OF assms(3)]
  obtain ms where ms: "merge_target_runtime_metadata ds JNull True = Some ms"
    "list_all2 (\<lambda>d m. m = merge_item True [] d) ds ms"
    using merge_normal [OF ds(1), of JNull True] by auto
  have "ms = map (merge_item True []) ds"
    using ms(2) by (induction ds ms rule: list_all2_induct) simp_all
  moreover have "pget p' ''target_peers'' = JArr (map JObj ms)"
    using assms ms(1)
    by (auto simp: normalize_targets_def incoming_targets_def and_then_Inr merge_or_fail_def Let_def
        split: if_splits)
  ultimately show ?thesis by simp
qed

section \<open>The remaining steps of a creation\<close>

definition strategy_keys :: "string set" where
  "strategy_keys = {''pin_message'', ''day_start_hour'', ''day_end_hour'', ''delay_min_seconds'',
     ''delay_max_seconds'', ''jitter_seconds''}"

definition delays_ok :: "int \<Rightarrow> int \<Rightarrow> int \<Rightarrow> bool" where
  "delays_ok dmin dmax jit \<longleftrightarrow> 30 \<le> dmin \<and> dmin < dmax \<and> dmax \<le> 300 \<and> 30 \<le> jit \<and> jit \<le> dmax"

lemma randint_in: "randint ops lo hi x = (x', r) \<Longrightarrow> lo \<le> hi \<Longrightarrow> lo \<le> r \<and> r \<le> hi"
  by (auto simp: randint_def split: prod.splits)

lemma delay_profile_ok:
  assumes "build_auto_delay_profile ops priority acc x = (x', dmin, dmax, jit)"
  shows "delays_ok dmin dmax jit"
proof -
  obtain lo1 hi1 lo2 hi2 where r: "delay_ranges priority acc = ((lo1, hi1), (lo2, hi2))"
    by (metis prod.collapse)
  have b: "30 \<le> lo1" "lo1 \<le> hi1" "hi1 < lo2" "lo2 \<le> hi2" "hi2 = 300" "180 \<le> lo2"
    using r by (auto simp: delay_ranges_def Let_def split: option.splits if_splits)
  obtain x1 x2 where s: "randint ops lo1 hi1 x = (x1, dmin)"
    "randint ops (max (dmin + 1) lo2) hi2 x1 = (x2, dmax)" "randint ops 30 (min dmax 300) x2 = (x', jit)"
    using assms r by (auto simp: build_auto_delay_profile_def Let_def split: prod.splits)
  have 1: "lo1 \<le> dmin" "dmin \<le> hi1" using randint_in [OF s(1)] b by simp_all
  have 2: "max (dmin + 1) lo2 \<le> dmax" "dmax \<le> 300" using randint_in [OF s(2)] 1 b by simp_all
  have 3: "30 \<le> jit" "jit \<le> min dmax 300" using randint_in [OF s(3)] 2 b by simp_all
  from 1 2 3 b show ?thesis by (simp add: delays_ok_def)
qed

lemma strategy_facts:
  assumes "apply_system_strategy_fields ops acc p x = (x', Inr p')"
  shows "agrees_off strategy_keys p p'"
    and "\<exists>dmin dmax jit. delays_ok dmin dmax jit \<and> pget p' ''delay_min_seconds'' = JInt dmin
      \<and> pget p' ''delay_max_seconds'' = JInt dmax \<and> pget p' ''jitter_seconds'' = JInt jit"
    and "phas p' ''delay_min_seconds'' \<and> phas p' ''delay_max_seconds'' \<and> phas p' ''jitter_seconds''
      \<and> phas p' ''pin_message'' \<and> pget p' ''pin_message'' = JBool False"
proof -
  obtain n x1 dmin dmax jit where
    prof: "build_auto_delay_profile ops n acc x = (x1, dmin, dmax, jit)"
    and p': "p' = pset ''jitter_seconds'' (JInt jit) (pset ''delay_max_seconds'' (JInt dmax)
        (pset ''delay_min_seconds'' (JInt dmin) (pset ''day_end_hour'' JNull
          (pset ''day_start_hour'' JNull (pset ''pin_message'' (JBool False) p)))))"
    using assms by (auto simp: apply_system_strategy_fields_def Let_def split: sum.splits prod.splits)
  show "agrees_off strategy_keys p p'"
    unfolding p' by (intro agrees_pset agrees_refl) (simp_all add: strategy_keys_def)
  show "\<exists>dmin dmax jit. delays_ok dmin dmax jit \<and> pget p' ''delay_min_seconds'' = JInt dmin
      \<and> pget p' ''delay_max_seconds'' = JInt dmax \<and> pget p' ''jitter_seconds'' = JInt jit"
    using delay_profile_ok [OF prof] by (simp add: p')
  show "phas p' ''delay_min_seconds'' \<and> phas p' ''delay_max_seconds'' \<and> phas p' ''jitter_seconds''
      \<and> phas p' ''pin_message'' \<and> pget p' ''pin_message'' = JBool False"
    by (simp add: p')
qed

lemma next_run_new_facts:
  "ensure_initial_next_run_new now p = Inr p' \<Longrightarrow> agrees_off {''next_run_at''} p p'"
  by (auto simp: ensure_initial_next_run_new_def and_then_Inr Let_def intro!: agrees_pset split: if_splits)

lemma mode_of_modes [simp]: "mode_of (JStr scheduled) = scheduled" "mode_of (JStr manual_shortcut) = manual_shortcut"
  by (simp_all add: mode_of_def py_str_def strip_def lower_def lower_char_def is_space_def code_def Let_def)

lemma next_run_new_books:
  assumes "ensure_initial_next_run_new now p = Inr p'" "pget p ''trigger_mode'' = JStr scheduled"
    and "truthy (pget p ''enabled'')"
  shows "pget p' ''next_run_at'' \<noteq> JNull"
proof -
  have "dget_or (pl_fields p) ''trigger_mode'' (JStr scheduled) = JStr scheduled"
    using assms(2) by (auto simp: dget_or_def pget_def dget_def split: option.splits)
  with assms obtain n where "p' = (if pget p ''next_run_at'' = JNull then pset ''next_run_at'' (JInt n) p else p)"
    by (auto simp: ensure_initial_next_run_new_def and_then_Inr Let_def)
  then show ?thesis by simp
qed

text \<open>A slot and a label that no other shortcut of the user has.\<close>

lemma chosen_slot:
  assumes "choose_shortcut_slot occupied v = Inr n" "v \<in> {JNull, JInt 1, JInt 2, JInt 3}"
  shows "n \<in> {1, 2, 3} \<and> n \<notin> occupied"
  using assms by (auto simp: choose_shortcut_slot_def split: if_splits)

lemma no_duplicate_label:
  assumes "find_duplicate_manual_shortcut_task_id uid label cur d = Inr None" "strip label = label" "label \<noteq> []"
  shows "\<forall>t \<in> set (other_manual_tasks uid cur d). map_option lower (t_label t) \<noteq> Some (lower label)"
proof -
  have "filter (\<lambda>t. map_option lower (t_label t) = Some (lower label)) (other_manual_tasks uid cur d) = []"
    using assms by (auto simp: find_duplicate_manual_shortcut_task_id_def split: list.splits)
  then show ?thesis by (simp add: filter_empty_conv)
qed

definition free_shortcut :: "int \<Rightarrow> string option \<Rightarrow> db \<Rightarrow> int \<Rightarrow> string \<Rightarrow> bool" where
  "free_shortcut uid cur d n l \<longleftrightarrow>
     n \<in> {1, 2, 3} \<and> l \<noteq> [] \<and> length l \<le> 20 \<and> strip l = l
   \<and> length (other_manual_tasks uid cur d) < 3
   \<and> (\<forall>t \<in> set (other_manual_tasks uid cur d).
        t_slot t \<noteq> Some n \<and> map_option lower (t_label t) \<noteq> Some (lower l))"

lemma constraints_shape:
  assumes "validate_shortcut_constraints uid cur p d = Inr p'" "shortcut_ok p"
    and "\<exists>m \<in> set trigger_modes. pget p ''trigger_mode'' = JStr m"
  shows "if pget p ''trigger_mode'' = JStr manual_shortcut
    then (\<exists>n l. pget p' ''shortcut_slot'' = JInt n \<and> pget p' ''shortcut_label'' = JStr l
            \<and> free_shortcut uid cur d n l)
    else pget p' ''shortcut_slot'' = JNull \<and> pget p' ''shortcut_label'' = JNull"
    and "phas p' ''shortcut_slot'' \<and> phas p' ''shortcut_label''"
proof -
  show "phas p' ''shortcut_slot'' \<and> phas p' ''shortcut_label''"
    using assms(1) by (auto simp: validate_shortcut_constraints_def and_then_Inr Let_def split: if_splits)
  show "if pget p ''trigger_mode'' = JStr manual_shortcut
    then (\<exists>n l. pget p' ''shortcut_slot'' = JInt n \<and> pget p' ''shortcut_label'' = JStr l
            \<and> free_shortcut uid cur d n l)
    else pget p' ''shortcut_slot'' = JNull \<and> pget p' ''shortcut_label'' = JNull"
  proof (cases "pget p ''trigger_mode'' = JStr manual_shortcut")
    case True
    obtain l where l: "pget p ''shortcut_label'' = JStr l" "l \<noteq> []" "length l \<le> 20" "strip l = l"
      using assms(2) True by (auto simp: shortcut_ok_def)
    obtain n where n: "choose_shortcut_slot (set (List.map_filter t_slot (other_manual_tasks uid cur d)))
          (pget p ''shortcut_slot'') = Inr n"
      and dup: "find_duplicate_manual_shortcut_task_id uid l cur d = Inr None"
      and few: "length (other_manual_tasks uid cur d) < 3"
      and p': "p' = pset ''shortcut_slot'' (JInt n) (pset ''shortcut_label'' (json_str (opt_str l)) p)"
      using assms(1) True l by (auto simp: validate_shortcut_constraints_def and_then_Inr Let_def)
    have "pget p ''shortcut_slot'' \<in> {JNull, JInt 1, JInt 2, JInt 3}"
      using assms(2) by (simp add: shortcut_ok_def)
    from chosen_slot [OF n this] have "n \<in> {1, 2, 3}"
      "\<forall>t \<in> set (other_manual_tasks uid cur d). t_slot t \<noteq> Some n"
      by (auto simp: set_map_filter)
    with no_duplicate_label [OF dup l(4,2)] few l have "free_shortcut uid cur d n l"
      by (simp add: free_shortcut_def)
    with True l p' show ?thesis by (simp add: json_str_def opt_str_def)
  next
    case False
    with assms(1,3) show ?thesis
      by (auto simp: validate_shortcut_constraints_def Let_def trigger_modes_def)
  qed
qed

lemma title_facts: "agrees_off {''title''} p (ensure_task_title uid p d)"
  by (auto simp: ensure_task_title_def Let_def intro!: agrees_pset)

lemma constraints_facts:
  assumes "validate_shortcut_constraints uid cur p d = Inr p'"
  shows "agrees_off {''shortcut_slot'', ''shortcut_label''} p p'"
  using assms by (auto simp: validate_shortcut_constraints_def and_then_Inr Let_def intro!: agrees_pset split: if_splits)

text \<open>The checks at the entrance.\<close>

lemma prepare_facts:
  assumes "prepare_v2_create_payload req = Inr p"
  shows "pget p ''content_contract_version'' = JInt 2" "phas p ''content_contract_version''"
    and "pget p ''revision'' = JInt 1" "phas p ''revision''"
    and "pget p ''media_type'' = JStr ''none''"
    and "pget p ''media_source_state'' = JStr ''none''" "phas p ''media_source_state''"
    and "pget p ''buttons'' = JNull" "phas p ''buttons''"
    and "payload_text None p \<noteq> []" "pl_text p = pl_text req"
    and "k \<in> {''target_peers'', ''enabled''} \<Longrightarrow> pget p k = pget req k \<and> phas p k = phas req k"
    and "one_value_per_key req \<Longrightarrow> one_value_per_key p"
  using assms
  by (auto simp: prepare_v2_create_payload_def and_then_Inr Let_def payload_text_def
      intro!: keys_pset keys_pdrop)

end
