(* ===== verification/TaskCreate.thy ===== *)
theory TaskCreate
  imports TaskFacts LicensingFacts
begin

text \<open>
  Creations: the row a successful \<open>create_task\<close> appends, and what it contains.
\<close>

text \<open>The licence check only disables tasks.\<close>

definition only_disables :: "db \<Rightarrow> db \<Rightarrow> bool" where
  "only_disables d d' \<longleftrightarrow> (\<exists>P. tasks d' = upd_where P (\<lambda>t. t\<lparr>t_enabled := False\<rparr>) (tasks d))"

lemma only_disables_refl [simp]: "tasks d' = tasks d \<Longrightarrow> only_disables d d'"
  unfolding only_disables_def by (rule exI [of _ "\<lambda>_. False"]) (simp add: upd_where_def)

lemma summary_only_disables: "only_disables d (fst (get_account_authorization_summary aid now d))"
proof (cases "get_account aid d")
  case None
  then show ?thesis
    by (simp add: get_account_authorization_summary_def Let_def split: option.split)
next
  case (Some a)
  obtain aids where "tasks (fst (normalize_single_authorization_model (a_user a) now d))
      = tasks (disable_tasks_for_accounts aids d)"
    using normalize_tasks by blast
  then have "only_disables d (fst (normalize_single_authorization_model (a_user a) now d))"
    by (auto simp: only_disables_def tasks_disable)
  with Some show ?thesis
    by (simp add: get_account_authorization_summary_def Let_def split: prod.split option.split)
qed

lemma permission_only_disables: "only_disables d (fst (require_account_task_permission aid now d))"
  using summary_only_disables [of d "the aid" now]
  by (auto simp: require_account_task_permission_def split: prod.split)

lemma require_permission_tasks:
  assumes "require_permission acc dt d = (d1, ok)"
  shows "tasks d1 = tasks d \<or> (\<exists>aid now. d1 = fst (require_account_task_permission aid now d))"
proof (cases acc)
  case None
  with assms show ?thesis by (simp add: require_permission_def)
next
  case (Some a)
  with assms have "d1 = fst (require_account_task_permission (Some (a_id a)) dt d)"
    by (auto simp: require_permission_def split: prod.splits sum.splits)
  then show ?thesis by blast
qed

text \<open>
  A successful creation: the request, normalized and validated, becomes the row that is
  appended to the table.
\<close>

lemma create_facts:
  assumes run: "create_task ops req uid s = (s', Inr tid)"
  obtains p0 p1 p2 pf d1 t where
    "prepare_v2_create_payload req = Inr p0"
    "normalize_targets (pset ''user_id'' (JInt uid) p0) None = Inr p1"
    "validate_task_payload None p1 = Inr p2"
    "agrees_off (strategy_keys \<union> {''next_run_at''} \<union> {''title''} \<union> {''shortcut_slot'', ''shortcut_label''}) p2 pf"
    "phas pf ''delay_min_seconds'' \<and> phas pf ''delay_max_seconds'' \<and> phas pf ''jitter_seconds'' \<and> phas pf ''pin_message''
      \<and> pget pf ''pin_message'' = JBool False"
    "pget pf ''trigger_mode'' = JStr scheduled \<longrightarrow> truthy (pget pf ''enabled'') \<longrightarrow> pget pf ''next_run_at'' \<noteq> JNull"
    "\<exists>dmin dmax jit. delays_ok dmin dmax jit \<and> pget pf ''delay_min_seconds'' = JInt dmin
      \<and> pget pf ''delay_max_seconds'' = JInt dmax \<and> pget pf ''jitter_seconds'' = JInt jit"
    "\<exists>p3. validate_shortcut_constraints uid None p3 d1 = Inr pf \<and> shortcut_ok p3
        \<and> pget p3 ''trigger_mode'' = pget p2 ''trigger_mode''"
    "construct_task (fresh_id d1 (drawn d1)) pf = Inr t"
    "get_task (t_id t) d1 = None" "tid = t_id t"
    "sdb s' = d1\<lparr>tasks := tasks d1 @ [t], drawn := Suc (drawn d1)\<rparr>"
    "tasks d1 = tasks (sdb s) \<or> (\<exists>aid now. d1 = fst (require_account_task_permission aid now (sdb s)))"
proof -
  let ?dt = "now_of ops (sx s)"
  obtain p0 acc where p0: "prepare_v2_create_payload req = Inr p0"
    and acc: "resolve_account (pset ''user_id'' (JInt uid) p0) uid None (sdb s) = Inr acc"
    using run by (cases "prepare_v2_create_payload req") (auto simp: create_task_def Let_def and_then_Inr split: sum.splits)
  let ?p = "pset ''user_id'' (JInt uid) p0"
  obtain d1 ok where d1: "require_permission acc ?dt (sdb s) = (d1, ok)" by fastforce
  note norm = require_permission_tasks [OF d1]
  obtain p2 where p2: "and_then ok (\<lambda>_. and_then (normalize_targets ?p None) (validate_task_payload None)) = Inr p2"
    and tail: "(case apply_system_strategy_fields ops acc p2 (sx s) of
          (x2, Inl e) \<Rightarrow> (s\<lparr>sdb := d1, sx := x2\<rparr>, Inl e)
        | (x2, Inr p3) \<Rightarrow>
            (case and_then (ensure_initial_next_run_new (timestamp ?dt) p3) (\<lambda>p4. insert_task uid p4 d1) of
               Inl e \<Rightarrow> (s\<lparr>sdb := d1, sx := x2\<rparr>, Inl e)
             | Inr (d3, tid) \<Rightarrow> (s\<lparr>sdb := d1, sdb := d3, sx := x2\<rparr>, Inr tid))) = (s', Inr tid)"
    using run p0 acc d1
    by (cases "and_then ok (\<lambda>_. and_then (normalize_targets ?p None) (validate_task_payload None))")
       (simp_all add: create_task_def Let_def split: if_splits)
  obtain x3 p3 where st: "apply_system_strategy_fields ops acc p2 (sx s) = (x3, Inr p3)"
    using tail by (auto split: prod.splits sum.splits)
  obtain p4 d3 where nx: "ensure_initial_next_run_new (timestamp ?dt) p3 = Inr p4"
    and ins: "insert_task uid p4 d1 = Inr (d3, tid)" and db: "sdb s' = d3"
    using tail st by (auto simp: and_then_Inr split: sum.splits)
  let ?q = "ensure_task_title uid p4 d1"
  obtain pf t where con: "validate_shortcut_constraints uid None ?q d1 = Inr pf"
    and t: "construct_task (fresh_id d1 (drawn d1)) pf = Inr t" "get_task (t_id t) d1 = None" "tid = t_id t"
      "d3 = d1\<lparr>tasks := tasks d1 @ [t], drawn := Suc (drawn d1)\<rparr>"
    using ins by (auto simp: insert_task_def and_then_Inr split: if_splits)
  obtain p1 where p1: "normalize_targets ?p None = Inr p1" "validate_task_payload None p1 = Inr p2"
    using p2 by (auto simp: and_then_Inr)
  note sf = strategy_facts [OF st]
  have a: "agrees_off (strategy_keys \<union> {''next_run_at''} \<union> {''title''}) p2 ?q"
    by (intro agrees_trans [OF agrees_trans [OF sf(1) next_run_new_facts [OF nx]] title_facts])
  note b = agrees_trans [OF a constraints_facts [OF con]]
  have c: "agrees_off ({''next_run_at''} \<union> {''title''} \<union> {''shortcut_slot'', ''shortcut_label''}) p3 pf"
    by (intro agrees_trans [OF agrees_trans [OF next_run_new_facts [OF nx] title_facts] constraints_facts [OF con]])
  have "shortcut_ok ?q"
    using shortcut_ok_agrees [OF a] payload_facts(1) [OF p1(2)]
    by (simp add: valid_payload_def strategy_keys_def)
  moreover have "pget ?q ''trigger_mode'' = pget p2 ''trigger_mode''"
    using agreesD [OF a, of "''trigger_mode''"] by (simp add: strategy_keys_def)
  ultimately have sc: "\<exists>p3. validate_shortcut_constraints uid None p3 d1 = Inr pf \<and> shortcut_ok p3
        \<and> pget p3 ''trigger_mode'' = pget p2 ''trigger_mode''" using con by blast
  have book: "pget pf ''trigger_mode'' = JStr scheduled \<longrightarrow> truthy (pget pf ''enabled'')
      \<longrightarrow> pget pf ''next_run_at'' \<noteq> JNull"
    using next_run_new_books [OF nx] agreesD [OF c] agreesD [OF agrees_trans [OF title_facts constraints_facts [OF con]]]
    by simp
  from p0 p1 b sf c t db norm sc book show thesis
    by (intro that [of p0 p1 p2 pf d1 t]) (auto simp: agrees_off_def)
qed

section \<open>The new row\<close>

text \<open>The row built from a payload: each column holds what its key holds.\<close>

lemma construct_reads:
  assumes "construct_task tid p = Inr t"
  obtains t0 where "construct_columns (pl_fields p) (default_task tid) = Inr t0"
    "t = t0\<lparr>t_text := (case pl_text p of None \<Rightarrow> None | Some v \<Rightarrow> v)\<rparr>"
  using assms by (auto simp: construct_task_def and_then_Inr)

lemma built_column:
  assumes "column key get conv" "construct_task tid p = Inr t" "one_value_per_key p"
    and "\<And>t x. get (t\<lparr>t_text := x\<rparr>) = get t"
  shows "if phas p key \<and> \<not> (pget p key = JNull \<and> key \<in> set defaulted_columns)
    then conv (pget p key) = Some (get t) else get t = get (default_task tid)"
proof -
  obtain t0 where t0: "construct_columns (pl_fields p) (default_task tid) = Inr t0"
    "t = t0\<lparr>t_text := (case pl_text p of None \<Rightarrow> None | Some v \<Rightarrow> v)\<rparr>"
    using assms(2) by (rule construct_reads)
  from column.construct [OF assms(1) t0(1)] assms(3) show ?thesis
    by (simp add: one_value_per_key_def map_of_pget t0(2) assms(4) column.built_from_def [OF assms(1)]
        split: if_splits)
qed

text \<open>What every created row satisfies.\<close>

definition shortcut_row :: "task \<Rightarrow> bool" where
  "shortcut_row t \<longleftrightarrow>
     (if t_mode t = manual_shortcut
      then (\<exists>n l. t_slot t = Some n \<and> n \<in> {1, 2, 3} \<and> t_label t = Some l \<and> l \<noteq> [] \<and> length l \<le> 20
              \<and> strip l = l)
      else t_slot t = None \<and> t_label t = None)"

definition well_formed_row :: "int \<Rightarrow> task \<Rightarrow> bool" where
  "well_formed_row uid t \<longleftrightarrow>
     t_user t = uid \<and> t_contract t = 2 \<and> t_revision t = 1 \<and> t_media t = MNone \<and> t_src_state t = ''none''
   \<and> t_buttons t = JNull \<and> t_mode t \<in> set trigger_modes \<and> shortcut_row t \<and> 0 < t_repeat t \<and> 0 \<le> t_priority t
   \<and> delays_ok (t_delay_min t) (t_delay_max t) (t_jitter t) \<and> \<not> t_pin t
   \<and> (t_enabled t \<and> t_mode t = scheduled \<longrightarrow> t_next t \<noteq> None)
   \<and> (\<exists>x. t_text t = Some x \<and> strip_text x \<noteq> [] \<and> utf16_length (Some (strip_text x)) \<le> max_text_message_utf16)"

text \<open>The columns of the row, from a payload in which the key is present.\<close>

lemma built_columns:
  assumes "construct_task tid p = Inr t" "one_value_per_key p"
  shows "phas p ''user_id'' \<Longrightarrow> as_int (pget p ''user_id'') = Some (t_user t)"
    and "phas p ''trigger_mode'' \<Longrightarrow> pget p ''trigger_mode'' \<noteq> JNull \<Longrightarrow> as_str (pget p ''trigger_mode'') = Some (t_mode t)"
    and "phas p ''shortcut_slot'' \<Longrightarrow> nullable as_int (pget p ''shortcut_slot'') = Some (t_slot t)"
    and "phas p ''shortcut_label'' \<Longrightarrow> nullable as_str (pget p ''shortcut_label'') = Some (t_label t)"
    and "phas p ''repeat_interval_min'' \<Longrightarrow> as_int (pget p ''repeat_interval_min'') = Some (t_repeat t)"
    and "phas p ''priority'' \<Longrightarrow> pget p ''priority'' \<noteq> JNull \<Longrightarrow> as_int (pget p ''priority'') = Some (t_priority t)"
    and "phas p ''jitter_seconds'' \<Longrightarrow> pget p ''jitter_seconds'' \<noteq> JNull \<Longrightarrow> as_int (pget p ''jitter_seconds'') = Some (t_jitter t)"
    and "phas p ''delay_min_seconds'' \<Longrightarrow> pget p ''delay_min_seconds'' \<noteq> JNull \<Longrightarrow> as_int (pget p ''delay_min_seconds'') = Some (t_delay_min t)"
    and "phas p ''delay_max_seconds'' \<Longrightarrow> pget p ''delay_max_seconds'' \<noteq> JNull \<Longrightarrow> as_int (pget p ''delay_max_seconds'') = Some (t_delay_max t)"
    and "phas p ''target_peers'' \<Longrightarrow> pget p ''target_peers'' = t_targets t"
    and "phas p ''media_type'' \<Longrightarrow> pget p ''media_type'' \<noteq> JNull \<Longrightarrow> media_column (pget p ''media_type'') = Some (t_media t)"
    and "phas p ''content_contract_version'' \<Longrightarrow> pget p ''content_contract_version'' \<noteq> JNull \<Longrightarrow> as_int (pget p ''content_contract_version'') = Some (t_contract t)"
    and "phas p ''revision'' \<Longrightarrow> pget p ''revision'' \<noteq> JNull \<Longrightarrow> as_int (pget p ''revision'') = Some (t_revision t)"
    and "phas p ''media_source_state'' \<Longrightarrow> pget p ''media_source_state'' \<noteq> JNull \<Longrightarrow> as_str (pget p ''media_source_state'') = Some (t_src_state t)"
    and "phas p ''buttons'' \<Longrightarrow> pget p ''buttons'' = t_buttons t"
    and "phas p ''pin_message'' \<Longrightarrow> pget p ''pin_message'' \<noteq> JNull \<Longrightarrow> as_bool (pget p ''pin_message'') = Some (t_pin t)"
    and "t_enabled t \<Longrightarrow> truthy (pget p ''enabled'')"
    and "pget p ''next_run_at'' \<noteq> JNull \<Longrightarrow> t_next t \<noteq> None"
    and "t_text t = (case pl_text p of None \<Rightarrow> None | Some v \<Rightarrow> v)"
proof -
  note b = built_column [OF _ assms(1) assms(2), unfolded defaulted_columns_def]
  show "phas p ''user_id'' \<Longrightarrow> as_int (pget p ''user_id'') = Some (t_user t)"
    using b [OF user_col.column_axioms] by simp
  show "phas p ''trigger_mode'' \<Longrightarrow> pget p ''trigger_mode'' \<noteq> JNull \<Longrightarrow> as_str (pget p ''trigger_mode'') = Some (t_mode t)"
    using b [OF mode_col.column_axioms] by simp
  show "phas p ''shortcut_slot'' \<Longrightarrow> nullable as_int (pget p ''shortcut_slot'') = Some (t_slot t)"
    using b [OF slot_col.column_axioms] by simp
  show "phas p ''shortcut_label'' \<Longrightarrow> nullable as_str (pget p ''shortcut_label'') = Some (t_label t)"
    using b [OF label_col.column_axioms] by simp
  show "phas p ''repeat_interval_min'' \<Longrightarrow> as_int (pget p ''repeat_interval_min'') = Some (t_repeat t)"
    using b [OF repeat_col.column_axioms] by simp
  show "phas p ''priority'' \<Longrightarrow> pget p ''priority'' \<noteq> JNull \<Longrightarrow> as_int (pget p ''priority'') = Some (t_priority t)"
    using b [OF priority_col.column_axioms] by simp
  show "phas p ''jitter_seconds'' \<Longrightarrow> pget p ''jitter_seconds'' \<noteq> JNull \<Longrightarrow> as_int (pget p ''jitter_seconds'') = Some (t_jitter t)"
    using b [OF jitter_col.column_axioms] by simp
  show "phas p ''delay_min_seconds'' \<Longrightarrow> pget p ''delay_min_seconds'' \<noteq> JNull \<Longrightarrow> as_int (pget p ''delay_min_seconds'') = Some (t_delay_min t)"
    using b [OF delay_min_col.column_axioms] by simp
  show "phas p ''delay_max_seconds'' \<Longrightarrow> pget p ''delay_max_seconds'' \<noteq> JNull \<Longrightarrow> as_int (pget p ''delay_max_seconds'') = Some (t_delay_max t)"
    using b [OF delay_max_col.column_axioms] by simp
  show "phas p ''target_peers'' \<Longrightarrow> pget p ''target_peers'' = t_targets t"
    using b [OF targets_col.column_axioms] by simp
  show "phas p ''media_type'' \<Longrightarrow> pget p ''media_type'' \<noteq> JNull \<Longrightarrow> media_column (pget p ''media_type'') = Some (t_media t)"
    using b [OF media_col.column_axioms] by simp
  show "phas p ''content_contract_version'' \<Longrightarrow> pget p ''content_contract_version'' \<noteq> JNull \<Longrightarrow> as_int (pget p ''content_contract_version'') = Some (t_contract t)"
    using b [OF contract_col.column_axioms] by simp
  show "phas p ''revision'' \<Longrightarrow> pget p ''revision'' \<noteq> JNull \<Longrightarrow> as_int (pget p ''revision'') = Some (t_revision t)"
    using b [OF revision_col.column_axioms] by simp
  show "phas p ''media_source_state'' \<Longrightarrow> pget p ''media_source_state'' \<noteq> JNull \<Longrightarrow> as_str (pget p ''media_source_state'') = Some (t_src_state t)"
    using b [OF source_col.column_axioms] by simp
  show "phas p ''buttons'' \<Longrightarrow> pget p ''buttons'' = t_buttons t"
    using b [OF buttons_col.column_axioms] by simp
  show "phas p ''pin_message'' \<Longrightarrow> pget p ''pin_message'' \<noteq> JNull \<Longrightarrow> as_bool (pget p ''pin_message'') = Some (t_pin t)"
    using b [OF pin_col.column_axioms] by simp
  show "t_enabled t \<Longrightarrow> truthy (pget p ''enabled'')"
    using b [OF enabled_col.column_axioms]
    by (auto simp: default_task_def as_bool_def split: if_splits json.splits)
  show "pget p ''next_run_at'' \<noteq> JNull \<Longrightarrow> t_next t \<noteq> None"
    using b [OF next_col.column_axioms] by (auto simp: nullable_def pget_def phas_def dget_def dhas_def dest: sym split: if_splits option.splits)
  show "t_text t = (case pl_text p of None \<Rightarrow> None | Some v \<Rightarrow> v)"
    using assms(1) by (rule construct_reads) simp
qed

lemma normal_none: "normalize_media_type (JStr ''none'') = Inr MNone"
  by (simp add: normalize_media_type_def py_str_def strip_def lower_def lower_char_def is_space_def code_def
      media_of_value_def Let_def)

text \<open>
  The row a successful creation appends: well formed, on a free shortcut, with the stored
  targets of the request.
\<close>

lemma created_row:
  assumes run: "create_task ops req uid s = (s', Inr tid)" and req: "one_value_per_key req"
  obtains d1 t where "get_task tid d1 = None" "t_id t = tid"
    "sdb s' = d1\<lparr>tasks := tasks d1 @ [t], drawn := Suc (drawn d1)\<rparr>"
    "tasks d1 = tasks (sdb s) \<or> (\<exists>aid now. d1 = fst (require_account_task_permission aid now (sdb s)))"
    "well_formed_row uid t"
    "t_mode t = manual_shortcut \<longrightarrow>
       (\<exists>n l. t_slot t = Some n \<and> t_label t = Some l \<and> free_shortcut uid None d1 n l)"
    "phas req ''target_peers'' \<longrightarrow> (\<exists>ds. normalize_target_peers (pget req ''target_peers'') = Inr ds
       \<and> ds \<noteq> [] \<and> t_targets t = JArr (map (\<lambda>d. JObj (merge_item True [] d)) ds))"
proof (rule create_facts [OF run])
  fix p0 p1 p2 pf d1 t
  let ?u = "pset ''user_id'' (JInt uid) p0"
  let ?late = "strategy_keys \<union> {''next_run_at''} \<union> {''title''} \<union> {''shortcut_slot'', ''shortcut_label''}"
  assume prep: "prepare_v2_create_payload req = Inr p0"
    and norm: "normalize_targets ?u None = Inr p1" and val: "validate_task_payload None p1 = Inr p2"
    and late: "agrees_off ?late p2 pf"
    and has: "phas pf ''delay_min_seconds'' \<and> phas pf ''delay_max_seconds'' \<and> phas pf ''jitter_seconds''
      \<and> phas pf ''pin_message'' \<and> pget pf ''pin_message'' = JBool False"
    and book: "pget pf ''trigger_mode'' = JStr scheduled \<longrightarrow> truthy (pget pf ''enabled'') \<longrightarrow> pget pf ''next_run_at'' \<noteq> JNull"
    and delays: "\<exists>dmin dmax jit. delays_ok dmin dmax jit \<and> pget pf ''delay_min_seconds'' = JInt dmin
      \<and> pget pf ''delay_max_seconds'' = JInt dmax \<and> pget pf ''jitter_seconds'' = JInt jit"
    and short: "\<exists>p3. validate_shortcut_constraints uid None p3 d1 = Inr pf \<and> shortcut_ok p3
        \<and> pget p3 ''trigger_mode'' = pget p2 ''trigger_mode''"
    and con: "construct_task (fresh_id d1 (drawn d1)) pf = Inr t"
    and new: "get_task (t_id t) d1 = None" "tid = t_id t"
      "sdb s' = d1\<lparr>tasks := tasks d1 @ [t], drawn := Suc (drawn d1)\<rparr>"
      "tasks d1 = tasks (sdb s) \<or> (\<exists>aid now. d1 = fst (require_account_task_permission aid now (sdb s)))"
  note prep = prepare_facts [OF prep] and valid = payload_facts [OF val]
  have tk: "agrees_off target_keys ?u p1" by (rule normalize_targets_shape [OF norm])
  have has_targets: "phas p1 ''target_peers''" by (rule normalize_targets_shape [OF norm])
  note to1 = agreesD [OF tk] and to2 = agreesD [OF valid(2)] and to3 = agreesD [OF late]
  have keys: "one_value_per_key pf" and body: "pl_text pf = pl_text req"
    using tk valid(2) late prep(13) [OF req] prep(11) keys_pset by (auto simp: agrees_off_def)
  note col = built_columns [OF con keys]
  have far: "pget pf k = pget ?u k \<and> phas pf k = phas ?u k"
    if "k \<notin> ?late \<union> validated_keys \<union> target_keys" for k
    using that to1 [of k] to2 [of k] to3 [of k] by simp
  have late_key: "pget pf k = pget p2 k \<and> phas pf k = phas p2 k" if "k \<notin> ?late" for k
    using that to3 by simp
  obtain version m where m: "payload_media None p1 = Inr m" "pget p2 ''media_type'' = JStr (media_value_of m)"
      "phas p2 ''media_type''" "validate_content None version m p2 = Inr ()"
    using valid(3) by blast
  have "pget p1 ''media_type'' = JStr ''none''" using to1 [of "''media_type''"] prep(5) by (simp add: target_keys_def)
  then have none: "m = MNone" using m(1) by (simp add: payload_media_def normal_none)
  obtain dmin dmax jit where dl: "delays_ok dmin dmax jit" "pget pf ''delay_min_seconds'' = JInt dmin"
    "pget pf ''delay_max_seconds'' = JInt dmax" "pget pf ''jitter_seconds'' = JInt jit" using delays by blast
  obtain p3 where p3: "validate_shortcut_constraints uid None p3 d1 = Inr pf" "shortcut_ok p3"
    "pget p3 ''trigger_mode'' = pget p2 ''trigger_mode''" using short by blast
  obtain mode where mode: "mode \<in> set trigger_modes" "pget p2 ''trigger_mode'' = JStr mode" "phas p2 ''trigger_mode''"
    using valid(1) by (auto simp: valid_payload_def)
  have pf_mode: "pget pf ''trigger_mode'' = JStr mode" "phas pf ''trigger_mode''"
    using late_key [of "''trigger_mode''"] mode by (simp_all add: strategy_keys_def)
  have t_mode: "t_mode t = mode" using col(2) pf_mode by (simp add: as_str_def)
  have "\<exists>m \<in> set trigger_modes. pget p3 ''trigger_mode'' = JStr m" using mode p3(3) by auto
  note shape = constraints_shape [OF p3(1,2) this]
  have manual: "\<exists>n l. t_slot t = Some n \<and> t_label t = Some l \<and> free_shortcut uid None d1 n l"
    if "mode = manual_shortcut"
    using shape p3(3) mode(2) col(3,4) that
    by (auto simp: nullable_def as_int_def as_str_def eq_commute [of "Some _" "t_slot t"] eq_commute [of "Some _" "t_label t"])
  have sched: "t_slot t = None \<and> t_label t = None" if "mode \<noteq> manual_shortcut"
    using shape p3(3) mode(2) col(3,4) that by (auto simp: nullable_def)
  have row: "shortcut_row t"
    using manual sched by (auto simp: shortcut_row_def t_mode free_shortcut_def)
  obtain n where n: "0 < n" "pget p2 ''repeat_interval_min'' = JInt n" "phas p2 ''repeat_interval_min''"
    using valid(1) by (auto simp: valid_payload_def)
  obtain pr where pr: "0 \<le> pr" "pget p2 ''priority'' = JInt pr" "phas p2 ''priority''"
    using valid(1) by (auto simp: valid_payload_def)
  have "well_formed_row uid t"
    unfolding well_formed_row_def
  proof (intro conjI)
    show "t_user t = uid" using col(1) far [of "''user_id''"]
      by (simp add: as_int_def strategy_keys_def validated_keys_def target_keys_def)
    show "t_contract t = 2" using col(12) prep(1,2) far [of "''content_contract_version''"]
      by (simp add: as_int_def strategy_keys_def validated_keys_def target_keys_def)
    show "t_revision t = 1" using col(13) prep(3,4) far [of "''revision''"]
      by (simp add: as_int_def strategy_keys_def validated_keys_def target_keys_def)
    show "t_media t = MNone" using col(11) m none late_key [of "''media_type''"]
      by (simp add: media_column_def media_of_value_def strategy_keys_def)
    show "t_src_state t = ''none''" using col(14) prep(6,7) far [of "''media_source_state''"]
      by (simp add: as_str_def strategy_keys_def validated_keys_def target_keys_def)
    show "t_buttons t = JNull" using col(15) prep(8,9) far [of "''buttons''"]
      by (simp add: strategy_keys_def validated_keys_def target_keys_def)
    show "t_mode t \<in> set trigger_modes" using mode t_mode by simp
    show "shortcut_row t" by (rule row)
    show "0 < t_repeat t" using col(5) n late_key [of "''repeat_interval_min''"] by (simp add: as_int_def strategy_keys_def)
    show "0 \<le> t_priority t" using col(6) pr late_key [of "''priority''"] by (simp add: as_int_def strategy_keys_def)
    show "delays_ok (t_delay_min t) (t_delay_max t) (t_jitter t)" using col(7-9) has dl by (simp add: as_int_def)
    show "\<not> t_pin t" using col(16) has by (simp add: as_bool_def)
    show "t_enabled t \<and> t_mode t = scheduled \<longrightarrow> t_next t \<noteq> None"
      using col(17,18) book pf_mode t_mode by simp
    have "payload_text None p2 = payload_text None p0" "payload_text None p2 = payload_text None pf"
      using tk valid(2) late by (simp_all add: agrees_off_def payload_text_def)
    then have "payload_text None pf \<noteq> []" "validate_message_length (Some (payload_text None pf)) False = Inr ()"
      using prep(10) m(4) none by (auto simp: validate_content_def and_then_Inr Let_def split: sum.splits)
    then show "\<exists>x. t_text t = Some x \<and> strip_text x \<noteq> [] \<and> utf16_length (Some (strip_text x)) \<le> max_text_message_utf16"
      using col(19) by (auto simp: payload_text_def validate_message_length_def strip_text_def
          split: option.splits if_splits)
  qed
  moreover have "\<exists>ds. normalize_target_peers (pget req ''target_peers'') = Inr ds
       \<and> ds \<noteq> [] \<and> t_targets t = JArr (map (\<lambda>d. JObj (merge_item True [] d)) ds)"
    if "phas req ''target_peers''"
  proof -
    have "pget ?u ''target_peers'' = pget req ''target_peers''" "phas ?u ''target_peers''"
      using prep(12) [of "''target_peers''"] that by simp_all
    moreover from this obtain ds where ds: "normalize_target_peers (pget req ''target_peers'') = Inr ds" "ds \<noteq> []"
      using norm by (auto simp: normalize_targets_def incoming_targets_def and_then_Inr split: if_splits)
    ultimately have "pget p1 ''target_peers'' = JArr (map (\<lambda>d. JObj (merge_item True [] d)) ds)"
      using normalize_targets_new [OF norm] by simp
    moreover have "pget pf ''target_peers'' = pget p1 ''target_peers'' \<and> phas pf ''target_peers''"
      using to2 [of "''target_peers''"] late_key [of "''target_peers''"] has_targets
      by (simp add: strategy_keys_def validated_keys_def)
    ultimately show ?thesis using col(10) ds by (intro exI [of _ ds]) simp
  qed
  ultimately show thesis using new manual t_mode by (intro that [of d1 t]) auto
qed

end
