(* ===== verification/TaskUpdate.thy ===== *)
theory TaskUpdate
  imports TaskCreate
begin

text \<open>
  Updates: what the second session of \<open>update_task\<close> changes in the row it finds, and which
  payload reaches it.
\<close>

section \<open>The second session\<close>

text \<open>The columns no step after \<open>apply_update_payload\<close>'s loop touches.\<close>

definition same_columns :: "task \<Rightarrow> task \<Rightarrow> bool" where
  "same_columns t t' \<longleftrightarrow>
     t_id t' = t_id t \<and> t_user t' = t_user t \<and> t_mode t' = t_mode t \<and> t_slot t' = t_slot t
   \<and> t_label t' = t_label t \<and> t_repeat t' = t_repeat t \<and> t_priority t' = t_priority t
   \<and> t_contract t' = t_contract t \<and> t_targets t' = t_targets t \<and> t_jitter t' = t_jitter t
   \<and> t_delay_min t' = t_delay_min t \<and> t_delay_max t' = t_delay_max t"

lemma same_columns_trans: "same_columns t u \<Longrightarrow> same_columns u v \<Longrightarrow> same_columns t v"
  by (simp add: same_columns_def)

lemma same_columns_upd [simp]:
  "same_columns t (u\<lparr>t_next := n\<rparr>) = same_columns t u" "same_columns t (u\<lparr>t_enabled := b\<rparr>) = same_columns t u"
  "same_columns t (u\<lparr>t_failures := k\<rparr>) = same_columns t u" "same_columns t (u\<lparr>t_text := x\<rparr>) = same_columns t u"
  "same_columns t (u\<lparr>t_chat := c\<rparr>) = same_columns t u" "same_columns t (u\<lparr>t_revision := n'\<rparr>) = same_columns t u"
  "same_columns t (clear_task_media_fields u) = same_columns t u"
  by (simp_all add: same_columns_def clear_task_media_fields_def)

lemma same_columns_refl [simp]: "same_columns t t"
  by (simp add: same_columns_def)

lemma apply_update_same:
  assumes "apply_update_payload p t = Inr t'"
  obtains u where "update_columns (pl_fields p) t = Inr u" "same_columns u t'"
proof -
  obtain u where u: "update_columns (pl_fields p) t = Inr u"
    using assms by (auto simp: apply_update_payload_def and_then_Inr)
  have "same_columns u t'"
    using assms u by (cases "pl_text p") (auto simp: apply_update_payload_def Let_def split: if_splits)
  with u show thesis by (rule that)
qed

lemma initial_run_same:
  assumes "ensure_initial_next_run_old now p was t = Inr t'"
  shows "same_columns t t'"
proof -
  obtain mode n where t': "t' = book_first_run mode n was (store_enabled p t)"
    using assms by (auto simp: ensure_initial_next_run_old_def and_then_Inr Let_def)
  have "same_columns t (store_enabled p t)" by (simp add: store_enabled_def)
  then show ?thesis unfolding t' by (simp add: book_first_run_def Let_def)
qed

lemma commit_facts:
  assumes "commit_update now p e tid uid d = Inr d'"
  obtains t p1 u t' where "get_task tid d = Some t" "t_user t = uid" "t_revision t = e"
    "validate_shortcut_constraints uid (Some tid) p d = Inr p1"
    "update_columns (pl_fields p1) t = Inr u" "same_columns u t'" "t_revision t' = e + 1"
    "tasks d' = upd_where (\<lambda>t. t_id t = tid) (\<lambda>_. t') (tasks d)"
    "captures d' = captures d \<or> captures d' = captures (cancel_task_captures tid d)"
proof -
  obtain p1 t where 1: "validate_shortcut_constraints uid (Some tid) p d = Inr p1"
    "get_task tid d = Some t" "t_user t = uid" "t_revision t = e"
    using assms by (auto simp: commit_update_def and_then_Inr split: option.splits if_splits)
  obtain t1 t2 where 2: "apply_update_payload p1 t = Inr t1"
    "ensure_initial_next_run_old now p1 (t_enabled t) t1 = Inr t2"
    and d': "d' = upd_task tid (\<lambda>_. (if t_account t \<noteq> t_account t2 then clear_task_media_fields t2 else t2)
                    \<lparr>t_revision := e + 1\<rparr>)
                  (if t_account t \<noteq> t_account t2 then cancel_task_captures tid d else d)"
    using assms 1 by (auto simp: commit_update_def and_then_Inr Let_def)
  obtain u where u: "update_columns (pl_fields p1) t = Inr u" "same_columns u t1"
    by (rule apply_update_same [OF 2(1)])
  let ?t' = "(if t_account t \<noteq> t_account t2 then clear_task_media_fields t2 else t2)\<lparr>t_revision := e + 1\<rparr>"
  have "same_columns t2 ?t'" by simp
  with u(2) initial_run_same [OF 2(2)] have "same_columns u ?t'" by (blast intro: same_columns_trans)
  moreover have "tasks d' = upd_where (\<lambda>t. t_id t = tid) (\<lambda>_. ?t') (tasks d)"
    by (simp add: d' upd_task_def cancel_task_captures_def cancel_captures_def)
  moreover have "captures d' = captures d \<or> captures d' = captures (cancel_task_captures tid d)"
    by (simp add: d' upd_task_def)
  ultimately show thesis using 1 u(1) by (intro that [of t p1 u ?t']) simp_all
qed

text \<open>A column of the row after the loop, when its key is in the payload with a value, or absent.\<close>

lemma updated_column:
  assumes "column key get conv" "update_columns (pl_fields p) t = Inr u" "one_value_per_key p"
    and "key \<in> set task_columns" "key \<notin> {''user_id'', ''task_id'', ''enabled''}"
  shows "phas p key \<Longrightarrow> pget p key \<noteq> JNull \<or> key \<in> set nullable_fields \<Longrightarrow> conv (pget p key) = Some (get u)"
    and "\<not> phas p key \<Longrightarrow> get u = get t"
  using column.update [OF assms(1,4,5,2)] assms(3)
  by (auto simp: one_value_per_key_def map_of_pget split: if_splits)

section \<open>The payload of an update\<close>

lemma extract_facts:
  assumes "extract_expected_revision req t = Inr (e, p)"
  shows "p = pdrop ''expected_revision'' req" "1 \<le> e"
  using assms by (auto simp: extract_expected_revision_def coerce_expected_revision_def and_then_Inr Let_def)

lemma update_facts:
  assumes run: "update_task ops tid req uid s = (s', Inr n)" and req: "one_value_per_key req"
  obtains d1 p now where "only_disables (sdb s) d1"
    "commit_update now p (n - 1) tid uid d1 = Inr (sdb s')" "1 \<le> n - 1"
    "valid_payload p" "one_value_per_key p" "\<not> phas p ''content_contract_version''"
    "phas p ''delay_min_seconds'' \<and> phas p ''delay_max_seconds'' \<and> phas p ''jitter_seconds''"
    "\<exists>dmin dmax jit. delays_ok dmin dmax jit \<and> pget p ''delay_min_seconds'' = JInt dmin
      \<and> pget p ''delay_max_seconds'' = JInt dmax \<and> pget p ''jitter_seconds'' = JInt jit"
proof -
  let ?dt = "now_of ops (sx s)"
  obtain t0 e q acc where
    t0: "extract_expected_revision req t0 = Inr (e, q)" "reject_media_source_input q = Inr ()"
    and pre: "and_then (check_task_permission tid uid (sdb s)) (\<lambda>t0.
           and_then (extract_expected_revision req t0) (\<lambda>(expected, p).
           and_then (reject_media_source_input p) (\<lambda>_.
           and_then (resolve_account p uid (t_account t0) (sdb s)) (\<lambda>acc. Inr (t0, expected, p, acc)))))
         = Inr (t0, e, q, acc)"
    using run
    by (cases "and_then (check_task_permission tid uid (sdb s)) (\<lambda>t0.
           and_then (extract_expected_revision req t0) (\<lambda>(expected, p).
           and_then (reject_media_source_input p) (\<lambda>_.
           and_then (resolve_account p uid (t_account t0) (sdb s)) (\<lambda>acc. Inr (t0, expected, p, acc)))))")
       (auto simp: update_task_def and_then_Inr)
  obtain d1 ok where d1: "require_permission acc ?dt (sdb s) = (d1, ok)" by fastforce
  obtain p1 where p1: "and_then ok (\<lambda>_. and_then (normalize_targets q (Some t0)) (validate_task_payload (Some t0))) = Inr p1"
    and tail: "(case apply_system_strategy_fields ops acc p1 (sx s) of
          (x2, Inl e) \<Rightarrow> (s\<lparr>sdb := d1, sx := x2\<rparr>, Inl e)
        | (x2, Inr p2) \<Rightarrow>
            (case commit_update (timestamp ?dt) p2 e tid uid d1 of
               Inl e \<Rightarrow> (s\<lparr>sdb := d1, sx := x2\<rparr>, Inl e)
             | Inr d3 \<Rightarrow> (s\<lparr>sdb := d1, sdb := d3, sx := x2\<rparr>, Inr (e + 1)))) = (s', Inr n)"
    using run pre d1
    by (cases "and_then ok (\<lambda>_. and_then (normalize_targets q (Some t0)) (validate_task_payload (Some t0)))")
       (simp_all add: update_task_def Let_def)
  obtain x2 p2 where st: "apply_system_strategy_fields ops acc p1 (sx s) = (x2, Inr p2)"
    using tail by (auto split: prod.splits sum.splits)
  have com: "commit_update (timestamp ?dt) p2 e tid uid d1 = Inr (sdb s')" "n = e + 1"
    using tail st by (auto split: sum.splits)
  obtain q1 where q1: "normalize_targets q (Some t0) = Inr q1" "validate_task_payload (Some t0) q1 = Inr p1"
    using p1 by (auto simp: and_then_Inr)
  have tk: "agrees_off target_keys q q1" by (rule normalize_targets_shape [OF q1(1)])
  note v = payload_facts [OF q1(2)] and sf = strategy_facts [OF st]
  have q: "one_value_per_key q" using extract_facts(1) [OF t0(1)] req by auto
  have "\<not> phas q ''content_contract_version''"
    using t0(2) by (simp add: reject_media_source_input_def media_source_input_fields_def)
  then have nc: "\<not> phas p2 ''content_contract_version''"
    using agreesD [OF tk, of "''content_contract_version''"] agreesD [OF v(2), of "''content_contract_version''"]
      agreesD [OF sf(1), of "''content_contract_version''"]
    by (simp add: target_keys_def validated_keys_def strategy_keys_def)
  have keys: "one_value_per_key p2" using q tk v(2) sf(1) by (simp add: agrees_off_def)
  have valid: "valid_payload p2"
    using valid_payload_agrees [OF sf(1)] v(1) by (simp add: strategy_keys_def validated_keys_def)
  have only: "only_disables (sdb s) d1"
    using require_permission_tasks [OF d1] permission_only_disables by auto
  show thesis
    using com extract_facts(2) [OF t0(1)] sf(2,3) only valid keys nc by (intro that [of d1 "timestamp ?dt" p2]) simp_all
qed

text \<open>A request that is refused only leaves what the licence check did.\<close>

lemma create_error_only_disables:
  assumes "snd (create_task ops req uid s) = Inl e"
  shows "only_disables (sdb s) (sdb (fst (create_task ops req uid s)))"
proof -
  have "only_disables (sdb s) d1" if "require_permission acc dt (sdb s) = (d1, ok)" for acc dt d1 ok
    using require_permission_tasks [OF that] permission_only_disables by auto
  then show ?thesis
    using assms by (auto simp: create_task_def Let_def split: sum.split sum.splits prod.splits)
qed

lemma update_error_only_disables:
  assumes "snd (update_task ops tid req uid s) = Inl e"
  shows "only_disables (sdb s) (sdb (fst (update_task ops tid req uid s)))"
proof -
  have "only_disables (sdb s) d1" if "require_permission acc dt (sdb s) = (d1, ok)" for acc dt d1 ok
    using require_permission_tasks [OF that] permission_only_disables by auto
  then show ?thesis
    using assms by (auto simp: update_task_def Let_def split: sum.split sum.splits prod.splits)
qed

end
