(* ===== verification/TaskRequests.thy ===== *)
theory TaskRequests
  imports TaskUpdate
begin

text \<open>
  Sequences of requests to the task service and the invariant they keep: every task is a valid
  V2 row, and no two shortcuts of a user share a slot or a label.
\<close>

section \<open>Requests\<close>

datatype request =
    Create payload int
  | Update string payload int
  | Delete string int
  | Batch "string list" payload int

fun serve :: "('x, 'm) tg_ops_scheme \<Rightarrow> request \<Rightarrow> 'x sys \<Rightarrow> 'x sys" where
  "serve ops (Create p uid) s = fst (create_task ops p uid s)"
| "serve ops (Update tid p uid) s = fst (update_task ops tid p uid s)"
| "serve ops (Delete tid uid) s =
     (case delete_task tid uid (sdb s) of Inl _ \<Rightarrow> s | Inr d \<Rightarrow> s\<lparr>sdb := d\<rparr>)"
| "serve ops (Batch tids p uid) s =
     (case batch_update_tasks (timestamp (now_of ops (sx s))) tids p uid (sdb s) of
        Inl _ \<Rightarrow> s | Inr (d, _) \<Rightarrow> s\<lparr>sdb := d\<rparr>)"

definition serve_all :: "('x, 'm) tg_ops_scheme \<Rightarrow> request list \<Rightarrow> 'x sys \<Rightarrow> 'x sys" where
  "serve_all ops rs s = fold (serve ops) rs s"

text \<open>A parsed JSON object has one value per key.\<close>

fun keyed :: "request \<Rightarrow> bool" where
  "keyed (Create p uid) = one_value_per_key p"
| "keyed (Update tid p uid) = one_value_per_key p"
| "keyed _ = True"

section \<open>The invariant\<close>

definition row_ok :: "task \<Rightarrow> bool" where
  "row_ok t \<longleftrightarrow>
     t_contract t = 2 \<and> t_mode t \<in> set trigger_modes \<and> shortcut_row t \<and> 0 < t_repeat t \<and> 0 \<le> t_priority t
   \<and> delays_ok (t_delay_min t) (t_delay_max t) (t_jitter t)"

definition clash :: "task \<Rightarrow> task \<Rightarrow> bool" where
  "clash t t' \<longleftrightarrow>
     t_id t \<noteq> t_id t' \<and> t_user t = t_user t' \<and> t_mode t = manual_shortcut \<and> t_mode t' = manual_shortcut
   \<and> (t_slot t = t_slot t' \<or> map_option lower (t_label t) = map_option lower (t_label t'))"

definition rows_ok :: "task list \<Rightarrow> bool" where
  "rows_ok ts \<longleftrightarrow> distinct (map t_id ts) \<and> (\<forall>t \<in> set ts. row_ok t) \<and> (\<forall>t \<in> set ts. \<forall>t' \<in> set ts. \<not> clash t t')"

definition service_ok :: "db \<Rightarrow> bool" where
  "service_ok d \<longleftrightarrow> rows_ok (tasks d)"

definition manual_tasks :: "int \<Rightarrow> db \<Rightarrow> task list" where
  "manual_tasks uid d = filter (\<lambda>t. t_user t = uid \<and> t_mode t = manual_shortcut) (tasks d)"

lemma at_most_three_shortcuts:
  assumes "service_ok d"
  shows "length (manual_tasks uid d) \<le> 3"
proof -
  let ?ms = "manual_tasks uid d"
  have ok: "distinct (map t_id (tasks d))" "\<And>t. t \<in> set (tasks d) \<Longrightarrow> row_ok t"
    "\<And>t t'. t \<in> set (tasks d) \<Longrightarrow> t' \<in> set (tasks d) \<Longrightarrow> \<not> clash t t'"
    using assms by (auto simp: service_ok_def rows_ok_def)
  have ids: "distinct (map t_id ?ms)" using ok(1) by (simp add: manual_tasks_def distinct_map_filter)
  have inj: "inj_on t_slot (set ?ms)"
  proof (rule inj_onI)
    fix t t' assume t: "t \<in> set ?ms" "t' \<in> set ?ms" "t_slot t = t_slot t'"
    then have "t_id t = t_id t'" using ok(3) [of t t'] by (auto simp: manual_tasks_def clash_def)
    with t ids show "t = t'" by (metis distinct_map inj_onD)
  qed
  have "length ?ms = card (set ?ms)" using ids by (metis distinct_card distinct_map)
  also have "\<dots> = card (t_slot ` set ?ms)" using inj by (simp add: card_image)
  also have "\<dots> \<le> card {Some (1::int), Some 2, Some 3}"
  proof (rule card_mono)
    show "t_slot ` set ?ms \<subseteq> {Some 1, Some 2, Some 3}"
    proof
      fix x assume "x \<in> t_slot ` set ?ms"
      then obtain t where t: "t \<in> set ?ms" "x = t_slot t" by blast
      then have "row_ok t" "t_mode t = manual_shortcut" using ok(2) by (auto simp: manual_tasks_def)
      then show "x \<in> {Some 1, Some 2, Some 3}" using t(2) by (auto simp: row_ok_def shortcut_row_def)
    qed
  qed simp
  finally show ?thesis by simp
qed

section \<open>Preservation\<close>

lemma rows_ok_map:
  assumes "rows_ok ts" "\<And>t. same_columns t (f t)"
  shows "rows_ok (map f ts)"
proof -
  have f: "t_id (f t) = t_id t" "row_ok (f t) = row_ok t" "clash (f t) (f t') = clash t t'" for t t'
    using assms(2) [of t] assms(2) [of t'] by (simp_all add: same_columns_def row_ok_def shortcut_row_def clash_def)
  have "map t_id (map f ts) = map t_id ts" by (simp add: f)
  then show ?thesis using assms(1) by (simp add: rows_ok_def f del: map_map)
qed

lemma ok_disables: "service_ok d \<Longrightarrow> only_disables d d' \<Longrightarrow> service_ok d'"
  by (auto simp: service_ok_def only_disables_def upd_where_def intro!: rows_ok_map)

lemma rows_ok_filter: "rows_ok ts \<Longrightarrow> rows_ok (filter P ts)"
  by (auto simp: rows_ok_def distinct_map_filter)

text \<open>A row that takes a free shortcut, besides the tasks other than its own.\<close>

definition fits :: "task \<Rightarrow> string option \<Rightarrow> db \<Rightarrow> bool" where
  "fits t cur d \<longleftrightarrow> row_ok t \<and> (t_mode t = manual_shortcut \<longrightarrow>
     (\<exists>n l. t_slot t = Some n \<and> t_label t = Some l \<and> free_shortcut (t_user t) cur d n l))"

lemma fits_same: "same_columns u t \<Longrightarrow> fits t cur d = fits u cur d"
  by (simp add: fits_def same_columns_def row_ok_def shortcut_row_def)

lemma fits_no_clash:
  assumes "fits t cur d" "t' \<in> set (tasks d)" "\<not> str_true cur \<or> Some (t_id t') \<noteq> cur"
  shows "\<not> clash t t'" "\<not> clash t' t"
proof -
  have "t_slot t \<noteq> t_slot t' \<and> map_option lower (t_label t) \<noteq> map_option lower (t_label t')"
    if c: "t_user t' = t_user t" "t_mode t = manual_shortcut" "t_mode t' = manual_shortcut"
  proof -
    obtain n l where nl: "t_slot t = Some n" "t_label t = Some l" "free_shortcut (t_user t) cur d n l"
      using assms(1) c(2) by (auto simp: fits_def)
    have "t' \<in> set (other_manual_tasks (t_user t) cur d)"
      using assms(2,3) c by (simp add: other_manual_tasks_def)
    with nl(3) have "t_slot t' \<noteq> Some n \<and> map_option lower (t_label t') \<noteq> Some (lower l)"
      by (simp add: free_shortcut_def)
    with nl(1,2) show ?thesis by (metis option.simps(9))
  qed
  then show "\<not> clash t t'" "\<not> clash t' t" by (fastforce simp: clash_def)+
qed

lemma ok_insert:
  assumes "service_ok d" "fits t None d" "get_task (t_id t) d = None"
  shows "rows_ok (tasks d @ [t])"
proof -
  have "t_id t \<notin> t_id ` set (tasks d)" using assms(3) by (auto simp: get_task_def find_row_None)
  moreover have "row_ok t" "\<not> clash t t" using assms(2) by (simp_all add: fits_def clash_def)
  ultimately show ?thesis
    using assms(1) fits_no_clash [OF assms(2)] by (auto simp: service_ok_def rows_ok_def)
qed

lemma ok_replace:
  assumes "service_ok d" "fits t (Some tid) d" "t_id t = tid"
  shows "rows_ok (upd_where (\<lambda>t. t_id t = tid) (\<lambda>_. t) (tasks d))"
proof -
  let ?ts = "upd_where (\<lambda>t. t_id t = tid) (\<lambda>_. t) (tasks d)"
  have "map t_id ?ts = map t_id (tasks d)" using assms(3) by (simp add: row_simps)
  moreover have "x = t \<or> (x \<in> set (tasks d) \<and> t_id x \<noteq> tid)" if "x \<in> set ?ts" for x
    using set_upd_where [OF that] by (auto split: if_splits)
  moreover have "row_ok t" "\<not> clash t t" using assms(2) by (simp_all add: fits_def clash_def)
  moreover have "\<not> clash t x \<and> \<not> clash x t" if "x \<in> set (tasks d)" "t_id x \<noteq> tid" for x
    using fits_no_clash [OF assms(2)] that by blast
  ultimately show ?thesis
    using assms(1) unfolding service_ok_def rows_ok_def by metis
qed

section \<open>Each request keeps the invariant\<close>

lemma create_keeps:
  assumes "service_ok (sdb s)" "one_value_per_key req"
  shows "service_ok (sdb (fst (create_task ops req uid s)))"
proof (cases "snd (create_task ops req uid s)")
  case (Inl e)
  have "only_disables (sdb s) (sdb (fst (create_task ops req uid s)))"
    using Inl by (rule create_error_only_disables)
  with assms(1) show ?thesis by (rule ok_disables)
next
  case (Inr tid)
  then have run: "create_task ops req uid s = (fst (create_task ops req uid s), Inr tid)" by (metis prod.collapse)
  show ?thesis
  proof (rule created_row [OF run assms(2)])
    fix d1 t
    assume new: "get_task tid d1 = None" "t_id t = tid"
      and db: "sdb (fst (create_task ops req uid s)) = d1\<lparr>tasks := tasks d1 @ [t], drawn := Suc (drawn d1)\<rparr>"
      and old: "tasks d1 = tasks (sdb s) \<or> (\<exists>aid now. d1 = fst (require_account_task_permission aid now (sdb s)))"
      and row: "well_formed_row uid t"
      and sc: "t_mode t = manual_shortcut \<longrightarrow>
       (\<exists>n l. t_slot t = Some n \<and> t_label t = Some l \<and> free_shortcut uid None d1 n l)"
    have "service_ok d1" using assms(1) old permission_only_disables by (blast intro: ok_disables only_disables_refl)
    moreover have "fits t None d1" using row sc by (simp add: fits_def well_formed_row_def row_ok_def)
    ultimately show ?thesis using ok_insert [of d1 t] new by (simp add: service_ok_def db)
  qed
qed

lemma updated_row_fits:
  assumes d: "service_ok d" and t: "t \<in> set (tasks d)"
    and con: "validate_shortcut_constraints (t_user t) (Some (t_id t)) p d = Inr p1"
    and upd: "update_columns (pl_fields p1) t = Inr u" and same: "same_columns u t'"
    and p: "valid_payload p" "one_value_per_key p" "\<not> phas p ''content_contract_version''"
      "phas p ''delay_min_seconds'' \<and> phas p ''delay_max_seconds'' \<and> phas p ''jitter_seconds''"
      "\<exists>dmin dmax jit. delays_ok dmin dmax jit \<and> pget p ''delay_min_seconds'' = JInt dmin
      \<and> pget p ''delay_max_seconds'' = JInt dmax \<and> pget p ''jitter_seconds'' = JInt jit"
  shows "fits t' (Some (t_id t)) d" "t_id t' = t_id t"
proof -
  note ag = constraints_facts [OF con]
  have keys: "one_value_per_key p1" using ag p(2) by (simp add: agrees_off_def)
  note col = updated_column [OF _ upd keys]
  have pk: "pget p1 k = pget p k \<and> phas p1 k = phas p k" if "k \<notin> {''shortcut_slot'', ''shortcut_label''}" for k
    by (rule agreesD [OF ag that])
  have v: "valid_payload p" by (rule p(1))
  obtain mode where mode: "mode \<in> set trigger_modes" "pget p ''trigger_mode'' = JStr mode" "phas p ''trigger_mode''"
    using v by (auto simp: valid_payload_def)
  obtain n where n: "0 < n" "pget p ''repeat_interval_min'' = JInt n" "phas p ''repeat_interval_min''"
    using v by (auto simp: valid_payload_def)
  obtain pr where pr: "0 \<le> pr" "pget p ''priority'' = JInt pr" "phas p ''priority''"
    using v by (auto simp: valid_payload_def)
  obtain dmin dmax jit where dl: "delays_ok dmin dmax jit" "pget p ''delay_min_seconds'' = JInt dmin"
    "pget p ''delay_max_seconds'' = JInt dmax" "pget p ''jitter_seconds'' = JInt jit" using p(5) by blast
  have id: "t_id u = t_id t" "t_user u = t_user t"
    using id_col.update_protected [OF _ upd] user_col.update_protected [OF _ upd] by simp_all
  have u_mode: "t_mode u = mode"
    using col(1) [OF mode_col.column_axioms] pk [of "''trigger_mode''"] mode
    by (simp add: task_columns_def as_str_def)
  have "shortcut_ok p" "\<exists>m \<in> set trigger_modes. pget p ''trigger_mode'' = JStr m"
    using v by (simp_all add: valid_payload_def)
  note shape = constraints_shape [OF con this]
  have slot: "nullable as_int (pget p1 ''shortcut_slot'') = Some (t_slot u)"
    and label: "nullable as_str (pget p1 ''shortcut_label'') = Some (t_label u)"
    using col(1) [OF slot_col.column_axioms] col(1) [OF label_col.column_axioms] shape(2)
    by (simp_all add: task_columns_def nullable_fields_def)
  have manual: "\<exists>n l. t_slot u = Some n \<and> t_label u = Some l \<and> free_shortcut (t_user t) (Some (t_id t)) d n l"
    if "mode = manual_shortcut"
    using shape(1) mode(2) slot label that
    by (auto simp: nullable_def as_int_def as_str_def eq_commute [of "Some _" "t_slot u"] eq_commute [of "Some _" "t_label u"])
  have sched: "t_slot u = None \<and> t_label u = None" if "mode \<noteq> manual_shortcut"
    using shape(1) mode(2) slot label that by (auto simp: nullable_def)
  have "row_ok u"
    unfolding row_ok_def
  proof (intro conjI)
    have "t_contract u = t_contract t"
      using col(2) [OF contract_col.column_axioms] pk [of "''content_contract_version''"] p(3)
      by (simp add: task_columns_def)
    then show "t_contract u = 2" using d t by (simp add: service_ok_def rows_ok_def row_ok_def)
    show "t_mode u \<in> set trigger_modes" using u_mode mode by simp
    show "shortcut_row u" using manual sched u_mode by (auto simp: shortcut_row_def free_shortcut_def)
    show "0 < t_repeat u" using col(1) [OF repeat_col.column_axioms] pk [of "''repeat_interval_min''"] n
      by (simp add: task_columns_def as_int_def)
    show "0 \<le> t_priority u" using col(1) [OF priority_col.column_axioms] pk [of "''priority''"] pr
      by (simp add: task_columns_def as_int_def)
    show "delays_ok (t_delay_min u) (t_delay_max u) (t_jitter u)"
      using col(1) [OF delay_min_col.column_axioms] col(1) [OF delay_max_col.column_axioms]
        col(1) [OF jitter_col.column_axioms] pk [of "''delay_min_seconds''"] pk [of "''delay_max_seconds''"]
        pk [of "''jitter_seconds''"] p(4) dl
      by (simp add: task_columns_def as_int_def)
  qed
  then have "fits u (Some (t_id t)) d" using manual u_mode id by (simp add: fits_def)
  then show "fits t' (Some (t_id t)) d" by (simp add: fits_same [OF same])
  show "t_id t' = t_id t" using same id by (simp add: same_columns_def)
qed

lemma commit_keeps:
  assumes "service_ok d" "commit_update now p e tid uid d = Inr d'"
    and "valid_payload p" "one_value_per_key p" "\<not> phas p ''content_contract_version''"
      "phas p ''delay_min_seconds'' \<and> phas p ''delay_max_seconds'' \<and> phas p ''jitter_seconds''"
      "\<exists>dmin dmax jit. delays_ok dmin dmax jit \<and> pget p ''delay_min_seconds'' = JInt dmin
      \<and> pget p ''delay_max_seconds'' = JInt dmax \<and> pget p ''jitter_seconds'' = JInt jit"
  shows "service_ok d'"
proof (rule commit_facts [OF assms(2)])
  fix t p1 u t'
  assume t: "get_task tid d = Some t" "t_user t = uid"
    and con: "validate_shortcut_constraints uid (Some tid) p d = Inr p1"
    and upd: "update_columns (pl_fields p1) t = Inr u" "same_columns u t'"
    and d': "tasks d' = upd_where (\<lambda>t. t_id t = tid) (\<lambda>_. t') (tasks d)"
  have id: "t_id t = tid" and mem: "t \<in> set (tasks d)"
    using t(1) by (auto simp: get_task_def dest: find_row_Some)
  have con': "validate_shortcut_constraints (t_user t) (Some (t_id t)) p d = Inr p1" using con t(2) id by simp
  note f = updated_row_fits [OF assms(1) mem con' upd assms(3-7)]
  show ?thesis using ok_replace [OF assms(1), of t' tid] f id by (simp add: service_ok_def d')
qed

lemma update_keeps:
  assumes "service_ok (sdb s)" "one_value_per_key req"
  shows "service_ok (sdb (fst (update_task ops tid req uid s)))"
proof (cases "snd (update_task ops tid req uid s)")
  case (Inl e)
  then show ?thesis using assms(1) update_error_only_disables by (blast intro: ok_disables)
next
  case (Inr n)
  then have "update_task ops tid req uid s = (fst (update_task ops tid req uid s), Inr n)" by (metis prod.collapse)
  from update_facts [OF this assms(2)] obtain d1 p now where
    "only_disables (sdb s) d1" "commit_update now p (n - 1) tid uid d1 = Inr (sdb (fst (update_task ops tid req uid s)))"
    "valid_payload p" "one_value_per_key p" "\<not> phas p ''content_contract_version''"
    "phas p ''delay_min_seconds'' \<and> phas p ''delay_max_seconds'' \<and> phas p ''jitter_seconds''"
    "\<exists>dmin dmax jit. delays_ok dmin dmax jit \<and> pget p ''delay_min_seconds'' = JInt dmin
      \<and> pget p ''delay_max_seconds'' = JInt dmax \<and> pget p ''jitter_seconds'' = JInt jit" by metis
  then show ?thesis using assms(1) by (blast intro: commit_keeps ok_disables)
qed

lemma delete_rows: "delete_task tid uid d = Inr d' \<Longrightarrow> tasks d' = filter (\<lambda>t. t_id t \<noteq> tid) (tasks d)"
  by (auto simp: delete_task_def and_then_Inr remove_task_def)

text \<open>Every row is a V2 task: the batch endpoint changes none.\<close>

lemma batch_no_change:
  assumes "service_ok d"
  shows "batch_update_tasks now tids p uid d = Inr (d', n) \<Longrightarrow> d' = d"
proof (induction tids arbitrary: d' n)
  case (Cons tid tids)
  show ?case
  proof (cases "get_task tid d")
    case (Some t)
    then have "t_contract t = 2"
      using assms by (auto simp: get_task_def service_ok_def rows_ok_def row_ok_def dest: find_row_Some)
    then have "batch_update_one now p t = bad ''TASK_BATCH_UPDATE_UNSUPPORTED_FOR_V2''"
      by (simp add: batch_update_one_def check_def bad_def)
    with Cons Some show ?thesis by (simp add: bad_def split: if_splits)
  qed (use Cons in simp)
qed simp

lemma delete_keeps: "service_ok d \<Longrightarrow> delete_task tid uid d = Inr d' \<Longrightarrow> service_ok d'"
  by (simp add: service_ok_def delete_rows rows_ok_filter)

lemma serve_keeps: "service_ok (sdb s) \<Longrightarrow> keyed r \<Longrightarrow> service_ok (sdb (serve ops r s))"
  by (cases r)
     (auto simp: create_keeps update_keeps delete_keeps dest: batch_no_change split: sum.split)

lemma serve_all_keeps:
  "service_ok (sdb s) \<Longrightarrow> (\<forall>r \<in> set rs. keyed r) \<Longrightarrow> service_ok (sdb (serve_all ops rs s))"
  unfolding serve_all_def by (induction rs arbitrary: s) (auto simp: serve_keeps)

section \<open>Revisions\<close>

definition revision_from :: "string \<Rightarrow> int \<Rightarrow> db \<Rightarrow> bool" where
  "revision_from tid n d \<longleftrightarrow> (\<exists>t. get_task tid d = Some t \<and> n \<le> t_revision t)"

fun deletes :: "string \<Rightarrow> request \<Rightarrow> bool" where
  "deletes tid (Delete tid' uid) = (tid' = tid)"
| "deletes tid _ = False"

lemma revision_disables: "revision_from tid n d \<Longrightarrow> only_disables d d' \<Longrightarrow> revision_from tid n d'"
  by (auto simp: revision_from_def only_disables_def get_task_def find_row_upd_same)

lemma commit_revision:
  assumes "commit_update now p e tid uid d = Inr d'"
  shows "revision_from tid (e + 1) d'"
    and "revision_from tid' n d \<Longrightarrow> revision_from tid' n d'"
proof (rule_tac [!] commit_facts [OF assms])
  fix t p1 u t'
  assume t: "get_task tid d = Some t" "t_revision t = e" and upd: "update_columns (pl_fields p1) t = Inr u"
    and same: "same_columns u t'" and rev: "t_revision t' = e + 1"
    and d': "tasks d' = upd_where (\<lambda>t. t_id t = tid) (\<lambda>_. t') (tasks d)"
  have id: "t_id t' = tid"
    using same id_col.update_protected [OF _ upd] get_task_id [OF t(1)] by (simp add: same_columns_def)
  have here: "get_task tid d' = Some t'" using t(1) id by (simp add: get_task_def d' find_row_upd_key)
  then show "revision_from tid (e + 1) d'" by (simp add: revision_from_def rev)
  assume "revision_from tid' n d"
  show "revision_from tid' n d'"
  proof (cases "tid' = tid")
    case True
    with \<open>revision_from tid' n d\<close> t rev here show ?thesis by (simp add: revision_from_def)
  next
    case False
    with id have "get_task tid' d' = get_task tid' d"
      by (simp add: get_task_def d' find_row_cong_upd)
    with \<open>revision_from tid' n d\<close> show ?thesis by (simp add: revision_from_def)
  qed
qed

lemma find_row_filter:
  "(\<And>r. P r \<Longrightarrow> Q r) \<Longrightarrow> find_row P (filter Q rows) = find_row P rows"
  by (induction rows) auto

lemma serve_revision:
  assumes "service_ok (sdb s)" "keyed r" "\<not> deletes tid r" "revision_from tid n (sdb s)"
  shows "revision_from tid n (sdb (serve ops r s))"
proof (cases r)
  case (Create p uid)
  show ?thesis
  proof (cases "snd (create_task ops p uid s)")
    case (Inl e)
    then show ?thesis using assms(4) create_error_only_disables revision_disables Create by fastforce
  next
    case (Inr i)
    then have run: "create_task ops p uid s = (fst (create_task ops p uid s), Inr i)" by (metis prod.collapse)
    show ?thesis
    proof (rule created_row [OF run])
      show "one_value_per_key p" using assms(2) Create by simp
    next
      fix d1 t
      assume db: "sdb (fst (create_task ops p uid s)) = d1\<lparr>tasks := tasks d1 @ [t], drawn := Suc (drawn d1)\<rparr>"
        and old: "tasks d1 = tasks (sdb s) \<or> (\<exists>aid now. d1 = fst (require_account_task_permission aid now (sdb s)))"
      have "only_disables (sdb s) d1" using old permission_only_disables by auto
      then have "revision_from tid n d1" by (rule revision_disables [OF assms(4)])
      then show ?thesis by (auto simp: Create revision_from_def db get_task_def find_row_append)
    qed
  qed
next
  case (Update i p uid)
  show ?thesis
  proof (cases "snd (update_task ops i p uid s)")
    case (Inl e)
    then show ?thesis using assms(4) update_error_only_disables revision_disables Update by fastforce
  next
    case (Inr k)
    then have run: "update_task ops i p uid s = (fst (update_task ops i p uid s), Inr k)" by (metis prod.collapse)
    have "one_value_per_key p" using assms(2) Update by simp
    from update_facts [OF run this] obtain d1 q now where "only_disables (sdb s) d1"
      "commit_update now q (k - 1) i uid d1 = Inr (sdb (fst (update_task ops i p uid s)))" by metis
    then show ?thesis
      using commit_revision(2) revision_disables [OF assms(4)] by (simp add: Update)
  qed
next
  case (Delete i uid)
  have "get_task tid d = get_task tid (sdb s)" if "tasks d = filter (\<lambda>t. t_id t \<noteq> i) (tasks (sdb s))" for d
    using that assms(3) Delete by (auto simp: get_task_def intro!: find_row_filter)
  then show ?thesis
    using assms(4) delete_rows by (auto simp: Delete revision_from_def split: sum.split)
next
  case (Batch tids p uid)
  then show ?thesis
    using assms(4) batch_no_change [OF assms(1)] by (fastforce split: sum.split)
qed

lemma serve_all_revision:
  assumes "service_ok (sdb s)" "\<forall>r \<in> set rs. keyed r \<and> \<not> deletes tid r" "revision_from tid n (sdb s)"
  shows "revision_from tid n (sdb (serve_all ops rs s))"
  using assms unfolding serve_all_def
  by (induction rs arbitrary: s) (auto simp: serve_keeps serve_revision)

lemma stale_commit:
  assumes "revision_from tid n d" "e < n"
  shows "commit_update now p e tid uid d =
    Inl (case validate_shortcut_constraints uid (Some tid) p d of Inl err \<Rightarrow> err | Inr _ \<Rightarrow> revision_conflict)"
  using assms
  by (cases "validate_shortcut_constraints uid (Some tid) p d") (auto simp: revision_from_def commit_update_def)

end
