(* ===== verification/TaskProps.thy ===== *)
theory TaskProps
  imports TaskRequests IssueFacts SampleWorld
begin

text \<open>
  The properties of the task service: what a created task looks like, that its stored targets
  are the ones of the request, that the shortcuts of a user stay distinct, and that revisions
  keep concurrent updates apart.
\<close>

section \<open>Creations\<close>

text \<open>
  C1: A successful \<open>create_task\<close> stores exactly one new task, under the id it returns, and its
  row is well formed: it belongs to the requesting user, is a V2 task of revision 1 without
  media and buttons, its mode is known, it has a shortcut exactly if it is a manual task, its
  interval is positive, its random delays satisfy \<open>30 \<le> min < max \<le> 300\<close>, it is scheduled
  for a run if it is enabled, and its text is neither blank nor longer than a message.
\<close>
theorem created_task_is_well_formed:
  assumes "create_task ops req uid s = (s', Inr tid)" "one_value_per_key req"
  shows "\<exists>t. get_task tid (sdb s') = Some t \<and> well_formed_row uid t
    \<and> length (tasks (sdb s')) = Suc (length (tasks (sdb s)))"
proof (rule created_row [OF assms])
  fix d1 t
  assume new: "get_task tid d1 = None" "t_id t = tid"
    and db: "sdb s' = d1\<lparr>tasks := tasks d1 @ [t], drawn := Suc (drawn d1)\<rparr>"
    and old: "tasks d1 = tasks (sdb s) \<or> (\<exists>aid now. d1 = fst (require_account_task_permission aid now (sdb s)))"
    and row: "well_formed_row uid t"
  have "only_disables (sdb s) d1" using old permission_only_disables by auto
  then have "length (tasks d1) = length (tasks (sdb s))" by (auto simp: only_disables_def row_simps)
  moreover have "get_task tid (sdb s') = Some t"
    using new by (simp add: db get_task_def find_row_append)
  ultimately show ?thesis using row by (simp add: db)
qed

definition demo_request :: payload where
  "demo_request =
     \<lparr>pl_fields = [(''title'', JNull), (''target_peers'', JArr [peer_item ''channel'' 7, peer_item ''user'' 9]),
                   (''enabled'', JBool True), (''repeat_interval_min'', JInt 60)],
      pl_text = Some (Some [72, 105])\<rparr>"

definition service_start :: "world sys" where
  "service_start = \<lparr>sdb = empty_db sample_ids, sx = start_world 1000000000 [], recov = []\<rparr>"

lemma demo_creation: "snd (create_task sample_ops demo_request 1 service_start) = Inr ''id0''"
  by code_simp

theorem created_task_is_well_formed_witness:
  "\<exists>t. get_task ''id0'' (sdb (fst (create_task sample_ops demo_request 1 service_start))) = Some t
    \<and> well_formed_row 1 t \<and> length (tasks (sdb (fst (create_task sample_ops demo_request 1 service_start)))) = 1"
proof -
  have "create_task sample_ops demo_request 1 service_start
      = (fst (create_task sample_ops demo_request 1 service_start), Inr ''id0'')"
    using demo_creation by (metis prod.collapse)
  from created_task_is_well_formed [OF this] show ?thesis
    by (simp add: one_value_per_key_def demo_request_def service_start_def empty_db_def)
qed

text \<open>What the runner reads back from stored targets.\<close>

definition peer_pairs :: "dict list \<Rightarrow> (string \<times> int) set" where
  "peer_pairs ds = {(ty, n). \<exists>d \<in> set ds. dget d ''peer_type'' = JStr ty \<and> dget d ''peer_id'' = JInt n}"

lemma fresh_item:
  assumes "normal_target d"
  shows "normalize_target_peer (JObj (merge_item True [] d)) = Inr d"
    and "\<exists>n ty. dget d ''peer_id'' = JInt n \<and> dget d ''peer_type'' = JStr ty \<and> ty \<in> set peer_types
      \<and> item_key (JObj (merge_item True [] d)) = Some (ty, n)"
    and "\<not> delivery_suspended (JObj (merge_item True [] d))"
proof -
  have st: "stored_item True d (merge_item True [] d)" using merge_item_stored [of "[]" d True] by simp
  show "normalize_target_peer (JObj (merge_item True [] d)) = Inr d" by (rule normalize_stored [OF assms st])
  show "\<exists>n ty. dget d ''peer_id'' = JInt n \<and> dget d ''peer_type'' = JStr ty \<and> ty \<in> set peer_types
      \<and> item_key (JObj (merge_item True [] d)) = Some (ty, n)" by (rule normal_item_key [OF assms st])
  show "\<not> delivery_suspended (JObj (merge_item True [] d))"
    using active_not_suspended by (simp add: delivery_suspended_def merge_item_def Let_def)
qed

lemma stored_targets_read_back:
  assumes "list_all normal_target ds" "distinct (map peer_key ds)"
  shows "normalize_target_peers (JArr (map (\<lambda>d. JObj (merge_item True [] d)) ds)) = Inr ds"
proof -
  have "map_result normalize_target_peer (map (\<lambda>d. JObj (merge_item True [] d)) ds) = Inr ds"
    using assms(1) by (induction ds) (simp_all add: fresh_item)
  then show ?thesis by (simp add: normalize_target_peers_def dedupe_id assms(2))
qed

lemma stored_targets_are_sent_to:
  assumes "list_all normal_target ds" "ds \<noteq> []"
    and "t_targets t = JArr (map (\<lambda>d. JObj (merge_item True [] d)) ds)"
  shows "target_key ` set (collect_task_targets t) = peer_pairs ds"
proof -
  let ?its = "map (\<lambda>d. JObj (merge_item True [] d)) ds"
  have nt: "normal_target d" if "d \<in> set ds" for d using that assms(1) by (simp add: list_all_iff)
  have "list_ex explicit_target (list_items (t_targets t))"
    using assms(2,3) fresh_item(2) nt
    by (cases ds) (fastforce simp: list_items_def explicit_target_def)+
  from collect_keys [OF this] have "target_key ` set (collect_task_targets t) = sendable ?its"
    by (simp add: assms(3) list_items_def)
  also have "\<dots> = peer_pairs ds"
    using fresh_item(2,3) [OF nt] by (fastforce simp: sendable_def peer_pairs_def)
  finally show ?thesis .
qed

text \<open>
  C2: The targets of a request survive the storage: reading the stored targets of a created
  task back through the same normalization gives what the request's list normalizes to, and
  the runner will send to exactly these peers.
\<close>
theorem created_targets_round_trip:
  assumes "create_task ops req uid s = (s', Inr tid)" "one_value_per_key req" "phas req ''target_peers''"
  shows "\<exists>t ds. get_task tid (sdb s') = Some t
    \<and> normalize_target_peers (t_targets t) = normalize_target_peers (pget req ''target_peers'')
    \<and> normalize_target_peers (pget req ''target_peers'') = Inr ds
    \<and> target_key ` set (collect_task_targets t) = peer_pairs ds"
proof (rule created_row [OF assms(1,2)])
  fix d1 t
  assume new: "get_task tid d1 = None" "t_id t = tid"
    and db: "sdb s' = d1\<lparr>tasks := tasks d1 @ [t], drawn := Suc (drawn d1)\<rparr>"
    and tg: "phas req ''target_peers'' \<longrightarrow> (\<exists>ds. normalize_target_peers (pget req ''target_peers'') = Inr ds
       \<and> ds \<noteq> [] \<and> t_targets t = JArr (map (\<lambda>d. JObj (merge_item True [] d)) ds))"
  obtain ds where ds: "normalize_target_peers (pget req ''target_peers'') = Inr ds" "ds \<noteq> []"
    "t_targets t = JArr (map (\<lambda>d. JObj (merge_item True [] d)) ds)" using tg assms(3) by blast
  note n = normalize_peers_normal [OF ds(1)]
  have "get_task tid (sdb s') = Some t" using new by (simp add: db get_task_def find_row_append)
  then show ?thesis
    using stored_targets_read_back [OF n] stored_targets_are_sent_to [OF n(1) ds(2,3)] ds by auto
qed

theorem created_targets_round_trip_witness:
  "\<exists>t. get_task ''id0'' (sdb (fst (create_task sample_ops demo_request 1 service_start))) = Some t
    \<and> target_key ` set (collect_task_targets t) = {(''channel'', 7), (''user'', 9)}"
proof -
  have run: "create_task sample_ops demo_request 1 service_start
      = (fst (create_task sample_ops demo_request 1 service_start), Inr ''id0'')"
    using demo_creation by (metis prod.collapse)
  have "normalize_target_peers (pget demo_request ''target_peers'')
      = Inr [target_dict 7 ''channel'' None None, target_dict 9 ''user'' None None]" by code_simp
  moreover have "peer_pairs [target_dict 7 ''channel'' None None, target_dict 9 ''user'' None None]
      = {(''channel'', 7), (''user'', 9)}" by (auto simp: peer_pairs_def)
  ultimately show ?thesis
    using created_targets_round_trip [OF run] by (auto simp: one_value_per_key_def demo_request_def phas_def dhas_def)
qed

section \<open>Sequences of requests\<close>

text \<open>
  C3: Whatever creations, updates, deletions and batch updates the service is asked for, in
  any order and by any users, accepted or refused: every stored task stays a valid V2 row, and
  each user has at most three shortcuts, in different slots and with labels that differ up to
  case.
\<close>
theorem shortcuts_stay_distinct:
  assumes "service_ok (sdb s)" "\<forall>r \<in> set rs. keyed r"
  shows "service_ok (sdb (serve_all ops rs s))
    \<and> length (manual_tasks uid (sdb (serve_all ops rs s))) \<le> 3"
  using serve_all_keeps [OF assms] at_most_three_shortcuts by blast

definition shortcut_request :: "string \<Rightarrow> payload" where
  "shortcut_request label =
     \<lparr>pl_fields = [(''target_peers'', JArr [peer_item ''user'' 9]), (''trigger_mode'', JStr manual_shortcut),
                   (''shortcut_label'', JStr label), (''repeat_interval_min'', JInt 60)],
      pl_text = Some (Some [72, 105])\<rparr>"

definition shortcut_requests :: "request list" where
  "shortcut_requests =
     [Create (shortcut_request ''a'') 1, Create (shortcut_request ''A'') 1, Create (shortcut_request ''b'') 1,
      Create (shortcut_request ''c'') 1, Create (shortcut_request ''d'') 1]"

theorem shortcuts_stay_distinct_witness:
  "map t_slot (manual_tasks 1 (sdb (serve_all sample_ops shortcut_requests service_start))) = [Some 1, Some 2, Some 3]
    \<and> length (manual_tasks 1 (sdb (serve_all sample_ops shortcut_requests service_start))) \<le> 3"
proof -
  have "service_ok (sdb service_start)"
    by (simp add: service_ok_def rows_ok_def service_start_def empty_db_def)
  moreover have "\<forall>r \<in> set shortcut_requests. keyed r"
    by (simp add: shortcut_requests_def shortcut_request_def one_value_per_key_def)
  ultimately have "length (manual_tasks 1 (sdb (serve_all sample_ops shortcut_requests service_start))) \<le> 3"
    using shortcuts_stay_distinct by blast
  moreover have "map t_slot (manual_tasks 1 (sdb (serve_all sample_ops shortcut_requests service_start)))
      = [Some 1, Some 2, Some 3]" by code_simp
  ultimately show ?thesis by simp
qed

text \<open>
  C4: Updates are compare-and-swap on the revision. After an update has returned revision \<open>n\<close>,
  and whatever requests that do not delete the task follow, the second session of an update
  that was prepared from an older revision is refused - with the revision conflict, unless
  its shortcut is refused before the row is even read - and so writes nothing.
\<close>
theorem stale_update_is_refused:
  assumes "service_ok (sdb s)" "one_value_per_key req" "update_task ops tid req uid s = (s1, Inr n)"
    and "\<forall>r \<in> set rs. keyed r \<and> \<not> deletes tid r" "e < n"
  defines "d \<equiv> sdb (serve_all ops rs s1)"
  shows "commit_update now p e tid uid' d =
    Inl (case validate_shortcut_constraints uid' (Some tid) p d of Inl err \<Rightarrow> err | Inr _ \<Rightarrow> revision_conflict)"
proof -
  obtain d1 q now where com: "commit_update now q (n - 1) tid uid d1 = Inr (sdb s1)"
    by (rule update_facts [OF assms(3,2)])
  have "revision_from tid n (sdb s1)" using commit_revision(1) [OF com] by simp
  moreover have "service_ok (sdb s1)" using update_keeps [OF assms(1,2), of ops tid uid] assms(3) by simp
  ultimately have "revision_from tid n d" using serve_all_revision assms(4) unfolding d_def by blast
  then show ?thesis using assms(5) by (rule stale_commit)
qed

definition edit_request :: "int \<Rightarrow> payload" where
  "edit_request n =
     \<lparr>pl_fields = [(''expected_revision'', JInt n), (''repeat_interval_min'', JInt 30)], pl_text = Some (Some [72, 105])\<rparr>"

definition created_state :: "world sys" where
  "created_state = fst (create_task sample_ops demo_request 1 service_start)"

definition edited_state :: "world sys" where
  "edited_state = fst (update_task sample_ops ''id0'' (edit_request 1) 1 created_state)"

lemma demo_edit: "snd (update_task sample_ops ''id0'' (edit_request 1) 1 created_state) = Inr 2"
  by code_simp

theorem stale_update_is_refused_witness:
  "commit_update 5 (edit_request 1) 1 ''id0'' 1
      (sdb (serve_all sample_ops [Update ''id0'' (edit_request 2) 1] edited_state)) = Inl revision_conflict
    \<and> map t_revision (tasks (sdb (serve_all sample_ops [Update ''id0'' (edit_request 2) 1] edited_state))) = [3]"
proof -
  have "service_ok (sdb service_start)"
    by (simp add: service_ok_def rows_ok_def service_start_def empty_db_def)
  then have ok: "service_ok (sdb created_state)"
    unfolding created_state_def by (rule create_keeps) (simp add: demo_request_def one_value_per_key_def)
  have k: "one_value_per_key (edit_request n)" for n by (simp add: edit_request_def one_value_per_key_def)
  have run: "update_task sample_ops ''id0'' (edit_request 1) 1 created_state = (edited_state, Inr 2)"
    using demo_edit by (metis edited_state_def prod.collapse)
  have "commit_update 5 (edit_request 1) 1 ''id0'' 1
      (sdb (serve_all sample_ops [Update ''id0'' (edit_request 2) 1] edited_state)) =
    Inl (case validate_shortcut_constraints 1 (Some ''id0'') (edit_request 1)
          (sdb (serve_all sample_ops [Update ''id0'' (edit_request 2) 1] edited_state)) of
        Inl err \<Rightarrow> err | Inr _ \<Rightarrow> revision_conflict)"
    by (rule stale_update_is_refused [OF ok k run]) (simp_all add: k)
  moreover have "\<not> isl (validate_shortcut_constraints 1 (Some ''id0'') (edit_request 1)
          (sdb (serve_all sample_ops [Update ''id0'' (edit_request 2) 1] edited_state)))" by code_simp
  moreover have "map t_revision (tasks (sdb (serve_all sample_ops [Update ''id0'' (edit_request 2) 1] edited_state))) = [3]"
    by code_simp
  ultimately show ?thesis by (auto split: sum.splits)
qed

section \<open>Two observations\<close>

text \<open>
  The batch endpoint assigns columns without the checks of an update: a V1 task can be moved
  to an account of another user, which \<open>update_task\<close> refuses.
\<close>

definition foreign_db :: db where
  "foreign_db = (empty_db sample_ids)\<lparr>accounts := [blank_account ''theirs'' 2], tasks := [blank_task ''t1'' 1]\<rparr>"

definition move_request :: payload where
  "move_request = \<lparr>pl_fields = [(''account_id'', JStr ''theirs'')], pl_text = None\<rparr>"

lemma batch_moves_task_to_foreign_account:
  "(case batch_update_tasks 5 [''t1''] move_request 1 foreign_db of
      Inl _ \<Rightarrow> False | Inr (d, n) \<Rightarrow> n = 1 \<and> map t_account (tasks d) = [Some ''theirs''])
   \<and> resolve_account move_request 1 None foreign_db = Inl (Http 404 ''<account not found>'')"
  by code_simp

text \<open>
  An explicit \<open>null\<close> for \<open>enabled\<close> is validated as \<open>keep the current value\<close>, but stored as
  \<open>disabled\<close>.
\<close>

definition null_request :: payload where
  "null_request =
     \<lparr>pl_fields = [(''expected_revision'', JInt 1), (''enabled'', JNull)], pl_text = None\<rparr>"

lemma null_enabled_disables_the_task:
  "map t_enabled (tasks (sdb created_state)) = [True]
   \<and> snd (update_task sample_ops ''id0'' null_request 1 created_state) = Inr 2
   \<and> map t_enabled (tasks (sdb (fst (update_task sample_ops ''id0'' null_request 1 created_state)))) = [False]"
  by code_simp

end
