(* ===== verification/Capture.thy ===== *)
theory Capture
  imports TaskService Observation
begin

text \<open>
  The capture of a task's media through the Bot (\<open>task_media/capture_service.py\<close>,
  \<open>capture_activation.py\<close>, \<open>capture_authorization.py\<close>, \<open>mutation_service.py\<close>,
  \<open>telegram_gateway.py\<close>): a capture session is created for a task at a revision, activated by
  the operator's deep link, claimed by the reply that carries the media, and completed when the
  copy in the account's Saved Messages is written to the task. Every database session is one
  definition; a session that raises changes nothing.
\<close>

section \<open>The environment\<close>

text \<open>
  The settings the captures read: the rows of \<open>AppSetting\<close>, the configured name of the Bot,
  the one its stored session knows, and the digest of a token (SHA-256 of the standard library).
\<close>

record capture_env =
  app_settings :: "(string \<times> string) list"
  bot_setting :: "string option"
  bot_session :: "string option"
  token_digest :: "string \<Rightarrow> string"

definition user_link_key :: "int \<Rightarrow> string" where
  "user_link_key n = ''tg_user_link:'' @ show_int n"

definition get_linked_system_user_id :: "capture_env \<Rightarrow> int \<Rightarrow> int option" where
  "get_linked_system_user_id env n =
     (case map_of (app_settings env) (user_link_key n) of None \<Rightarrow> None | Some v \<Rightarrow> int_of_str v)"

definition bare_name :: "string option \<Rightarrow> string" where
  "bare_name v = dropWhile (\<lambda>c. c = CHR ''@'') (strip (str_or v []))"

definition resolve_bot_username :: "capture_env \<Rightarrow> string" where
  "resolve_bot_username env =
     (if bare_name (bot_setting env) \<noteq> [] then bare_name (bot_setting env) else bare_name (bot_session env))"

abbreviation (input) media_capture_ttl_seconds :: int where "media_capture_ttl_seconds \<equiv> 600"

section \<open>Creating a capture\<close>

definition unclaimed_capture_actor_id :: int where "unclaimed_capture_actor_id = 0"

definition resolve_capture_actor :: "capture_env \<Rightarrow> int \<Rightarrow> int option \<Rightarrow> http_error + int" where
  "resolve_capture_actor env uid actor =
     (case actor of
        None \<Rightarrow> Inr unclaimed_capture_actor_id
      | Some n \<Rightarrow> if get_linked_system_user_id env n = Some uid then Inr n
                  else Inl (Http 403 ''MEDIA_CAPTURE_OPERATOR_UNAUTHORIZED''))"

definition account_usable :: "account \<Rightarrow> bool" where
  "account_usable a = (a_active a \<and> \<not> a_banned a \<and> \<not> is_reauth_required_account (Some a))"

definition validate_capture_target :: "task \<Rightarrow> account option \<Rightarrow> http_error + unit" where
  "validate_capture_target t acc =
     (if truthy (t_buttons t) then Inl (Http 400 ''TASK_BUTTONS_UNSUPPORTED_FOR_USER_ACCOUNT'')
      else case validate_message_length (t_text t) True of
        Inl e \<Rightarrow> Inl (Http 400 (e_code e))
      | Inr _ \<Rightarrow>
          (case acc of
             None \<Rightarrow> Inl (Http 400 ''MEDIA_CAPTURE_ACCOUNT_UNAVAILABLE'')
           | Some a \<Rightarrow>
               if \<not> int_true (a_tg a) \<or> a_user a \<noteq> t_user t
               then Inl (Http 400 ''MEDIA_CAPTURE_ACCOUNT_UNAVAILABLE'')
               else if \<not> account_usable a then Inl (Http 409 ''MEDIA_CAPTURE_ACCOUNT_UNAVAILABLE'')
               else Inr ()))"

definition expire_capture :: "capture \<Rightarrow> capture" where
  "expire_capture c = c\<lparr>c_state := ''expired'', c_error := Some ''MEDIA_CAPTURE_EXPIRED''\<rparr>"

definition replace_waiting_capture :: "datetime \<Rightarrow> string \<Rightarrow> db \<Rightarrow> http_error + db" where
  "replace_waiting_capture now tid d =
     (if list_ex (\<lambda>c. c_task c = tid \<and> c_state c = ''processing'' \<and> now < c_expires c) (captures d)
      then Inl (Http 409 ''MEDIA_CAPTURE_PROCESSING'')
      else Inr (d\<lparr>captures := upd_where (\<lambda>c. c_task c = tid \<and> active_capture c)
              (\<lambda>c. if c_expires c \<le> now then expire_capture c
                   else c\<lparr>c_state := ''cancelled'', c_error := Some ''MEDIA_CAPTURE_REPLACED''\<rparr>) (captures d)\<rparr>))"

definition new_capture :: "capture_env \<Rightarrow> string \<Rightarrow> string \<Rightarrow> task \<Rightarrow> int \<Rightarrow> string \<Rightarrow> int \<Rightarrow> datetime \<Rightarrow> capture" where
  "new_capture env cid token t uid aid actor expires =
     \<lparr>c_id = cid, c_token_hash = token_digest env token, c_task = t_id t, c_user = uid, c_account = aid,
      c_actor = actor, c_revision = t_revision t, c_prompt = None, c_source_msg = None, c_saved_msg = None,
      c_state = ''waiting'', c_error = None, c_expires = expires, c_consumed = None\<rparr>"

text \<open>\<open>now\<close>: read before the session for the expiry, \<open>now'\<close> inside it.\<close>

definition create_capture ::
  "capture_env \<Rightarrow> datetime \<Rightarrow> datetime \<Rightarrow> string \<Rightarrow> string \<Rightarrow> int \<Rightarrow> int \<Rightarrow> int option \<Rightarrow> db
     \<Rightarrow> http_error + db \<times> string" where
  "create_capture env now now' token tid uid expected actor d =
     (case get_task tid d of
        None \<Rightarrow> Inl (Http 404 ''TASK_NOT_FOUND'')
      | Some t \<Rightarrow>
          if t_user t \<noteq> uid then Inl (Http 404 ''TASK_NOT_FOUND'')
          else if t_revision t \<noteq> expected then Inl revision_conflict
          else
            (let acc = (case t_account t of None \<Rightarrow> None | Some a \<Rightarrow> get_account a d) in
             and_then (validate_capture_target t acc) (\<lambda>_.
             and_then (resolve_capture_actor env uid actor) (\<lambda>n.
             if resolve_bot_username env = [] then Inl (Http 503 ''MEDIA_CAPTURE_BOT_UNAVAILABLE'')
             else
               and_then (replace_waiting_capture now' tid d) (\<lambda>d1.
                 let cid = fresh_id d (drawn d);
                     c = new_capture env cid token t uid (str_or (t_account t) []) n
                           (now + secs media_capture_ttl_seconds)
                 in if get_capture cid d \<noteq> None \<or> list_ex (\<lambda>c'. c_token_hash c' = c_token_hash c) (captures d)
                    then Inl unhandled
                    else Inr (d1\<lparr>captures := captures d1 @ [c], drawn := Suc (drawn d)\<rparr>, cid))))))"

section \<open>Its status\<close>

record capture_status =
  cs_state :: string
  cs_error :: "string option"
  cs_expires :: datetime
  cs_revision :: "int option"

definition serialize_capture :: "capture \<Rightarrow> capture_status" where
  "serialize_capture c =
     \<lparr>cs_state = c_state c, cs_error = c_error c, cs_expires = c_expires c,
      cs_revision = (if c_state c = ''completed'' then Some (c_revision c + 1) else None)\<rparr>"

definition get_capture_status ::
  "datetime \<Rightarrow> string \<Rightarrow> string \<Rightarrow> int \<Rightarrow> db \<Rightarrow> db \<times> (http_error + capture_status)" where
  "get_capture_status now tid cid uid d =
     (case find_row (\<lambda>c. c_id c = cid \<and> c_task c = tid \<and> c_user c = uid) (captures d) of
        None \<Rightarrow> (d, Inl (Http 404 ''MEDIA_CAPTURE_NOT_FOUND''))
      | Some c \<Rightarrow>
          if active_capture c \<and> c_expires c \<le> now
          then (upd_capture cid expire_capture d, Inr (serialize_capture (expire_capture c)))
          else (d, Inr (serialize_capture c)))"

section \<open>Activation\<close>

text \<open>Both ways in: the token of a deep link, or the id of a capture the Bot itself has created.\<close>

definition load_capture :: "string option \<Rightarrow> string option \<Rightarrow> db \<Rightarrow> capture option" where
  "load_capture hash cid d =
     (if str_true hash = str_true cid then None
      else if str_true hash then find_row (\<lambda>c. Some (c_token_hash c) = hash) (captures d)
      else find_row (\<lambda>c. Some (c_id c) = cid) (captures d))"

definition validate_activation ::
  "datetime \<Rightarrow> int \<Rightarrow> int option \<Rightarrow> capture \<Rightarrow> capture \<times> exn option" where
  "validate_activation now actor linked c =
     (if linked \<noteq> Some (c_user c) then (c, Some (task_media_error ''MEDIA_CAPTURE_OPERATOR_MISMATCH'' ''<not linked>''))
      else if c_actor c \<notin> {unclaimed_capture_actor_id, actor}
      then (c, Some (task_media_error ''MEDIA_CAPTURE_OPERATOR_MISMATCH'' ''<used by another>''))
      else if c_expires c \<le> now
      then (expire_capture c, Some (task_media_error ''MEDIA_CAPTURE_EXPIRED'' ''<entry expired>''))
      else if c_state c \<noteq> ''waiting'' \<or> c_prompt c \<noteq> None
      then (c, Some (task_media_error ''MEDIA_CAPTURE_ALREADY_CONSUMED'' ''<entry used>''))
      else (c\<lparr>c_actor := actor\<rparr>, None))"

definition validate_activation_context ::
  "capture \<Rightarrow> task option \<Rightarrow> account option \<Rightarrow> int option \<Rightarrow> exn option" where
  "validate_activation_context c task acc linked =
     (case task of
        None \<Rightarrow> Some (task_media_error ''TASK_REVISION_CONFLICT'' ''<task changed>'')
      | Some t \<Rightarrow>
          (case acc of
             None \<Rightarrow> Some (task_media_error ''MEDIA_CAPTURE_ACCOUNT_UNAVAILABLE'' ''<account gone>'')
           | Some a \<Rightarrow>
               if \<not> account_usable a
               then Some (task_media_error ''MEDIA_CAPTURE_ACCOUNT_UNAVAILABLE'' ''<account unusable>'')
               else if a_user a \<noteq> c_user c \<or> \<not> int_true (a_tg a)
               then Some (task_media_error ''MEDIA_CAPTURE_ACCOUNT_UNAVAILABLE'' ''<account rebound>'')
               else if linked \<noteq> Some (c_user c)
               then Some (task_media_error ''MEDIA_CAPTURE_OPERATOR_MISMATCH'' ''<operator rebound>'')
               else if \<not> (t_user t = c_user c \<and> t_account t = Some (c_account c) \<and> t_revision t = c_revision c)
               then Some (task_media_error ''TASK_REVISION_CONFLICT'' ''<task changed>'')
               else None))"

definition activation_error ::
  "capture_env \<Rightarrow> datetime \<Rightarrow> int \<Rightarrow> capture \<Rightarrow> db \<Rightarrow> capture \<times> exn option" where
  "activation_error env now actor c d =
     (let linked = get_linked_system_user_id env actor in
      case validate_activation now actor linked c of
        (c1, Some e) \<Rightarrow> (c1, Some e)
      | (c1, None) \<Rightarrow>
          (case validate_activation_context c1 (get_task (c_task c1) d) (get_account (c_account c1) d) linked of
             Some e \<Rightarrow> (c1\<lparr>c_state := ''failed'', c_error := Some (e_code e)\<rparr>, Some e)
           | None \<Rightarrow> (c1, None)))"

text \<open>What the captures need of Telegram and of the clock.\<close>

record 'x gateway =
  g_now :: "'x \<Rightarrow> datetime"
  g_respond :: "string \<Rightarrow> 'x \<Rightarrow> 'x \<times> (exn + int)"
  g_client :: "string \<Rightarrow> 'x \<Rightarrow> 'x \<times> (exn + bool)"
  g_upload :: "string \<Rightarrow> tg_message \<Rightarrow> 'x \<Rightarrow> 'x \<times> (exn + int option)"
  g_readback :: "string \<Rightarrow> int \<Rightarrow> 'x \<Rightarrow> 'x \<times> (exn + tg_message option)"

definition activate_capture ::
  "'x gateway \<Rightarrow> capture_env \<Rightarrow> string option \<Rightarrow> string option \<Rightarrow> int \<Rightarrow> db \<times> 'x \<Rightarrow> (db \<times> 'x) \<times> (exn + bool)" where
  "activate_capture gw env hash cid actor s =
     (let (d, x) = s in
      case load_capture hash cid d of
        None \<Rightarrow>
          (case g_respond gw ''MEDIA_CAPTURE_NOT_FOUND'' x of
             (x1, Inl e) \<Rightarrow> ((d, x1), Inl e) | (x1, Inr _) \<Rightarrow> ((d, x1), Inr True))
      | Some c \<Rightarrow>
          (case activation_error env (g_now gw x) actor c d of
             (c1, Some e) \<Rightarrow>
               (case g_respond gw (e_code e) x of
                  (x1, Inl e') \<Rightarrow> ((d, x1), Inl e')
                | (x1, Inr _) \<Rightarrow> ((upd_capture (c_id c) (\<lambda>_. c1) d, x1), Inr True))
           | (c1, None) \<Rightarrow>
               (case g_respond gw ''<reply to this message>'' x of
                  (x1, Inl e') \<Rightarrow> ((d, x1), Inl e')
                | (x1, Inr n) \<Rightarrow> ((upd_capture (c_id c) (\<lambda>_. c1\<lparr>c_prompt := Some n\<rparr>) d, x1), Inr True))))"

definition activate_capture_from_start ::
  "'x gateway \<Rightarrow> capture_env \<Rightarrow> string \<Rightarrow> int \<Rightarrow> db \<times> 'x \<Rightarrow> (db \<times> 'x) \<times> (exn + bool)" where
  "activate_capture_from_start gw env token actor s =
     activate_capture gw env (Some (token_digest env token)) None actor s"

definition activate_capture_for_actor ::
  "'x gateway \<Rightarrow> capture_env \<Rightarrow> string \<Rightarrow> int \<Rightarrow> db \<times> 'x \<Rightarrow> (db \<times> 'x) \<times> (exn + bool)" where
  "activate_capture_for_actor gw env cid actor s = activate_capture gw env None (Some cid) actor s"

section \<open>Claiming\<close>

datatype claim = NotACapture | Refused exn | Claimed capture

definition prompted :: "int \<Rightarrow> int \<Rightarrow> capture \<Rightarrow> bool" where
  "prompted actor prompt c = (c_actor c = actor \<and> c_prompt c = Some prompt)"

definition claim_capture ::
  "capture_env \<Rightarrow> datetime \<Rightarrow> int \<Rightarrow> int \<Rightarrow> int \<Rightarrow> db \<Rightarrow> db \<times> claim" where
  "claim_capture env now actor prompt source d =
     (case find_row (prompted actor prompt) (captures d) of
        None \<Rightarrow> (d, NotACapture)
      | Some c \<Rightarrow>
          (case get_task (c_task c) d of
             None \<Rightarrow> (d, NotACapture)
           | Some t \<Rightarrow>
               if c_state c \<noteq> ''waiting''
               then (d, Refused (task_media_error ''MEDIA_CAPTURE_ALREADY_CONSUMED'' ''<already handled>''))
               else if c_expires c \<le> now
               then (upd_capture (c_id c) expire_capture d,
                     Refused (task_media_error ''MEDIA_CAPTURE_EXPIRED'' ''<session expired>''))
               else
                 (case validate_activation_context c (Some t) (get_account (c_account c) d)
                         (get_linked_system_user_id env actor) of
                    Some e \<Rightarrow>
                      (upd_capture (c_id c) (\<lambda>c. c\<lparr>c_state := ''failed'', c_error := Some (e_code e)\<rparr>) d, Refused e)
                  | None \<Rightarrow>
                      (let c1 = c\<lparr>c_state := ''processing'', c_source_msg := Some source\<rparr>
                       in (upd_capture (c_id c) (\<lambda>_. c1) d, Claimed c1)))))"

definition has_waiting_capture :: "datetime \<Rightarrow> int \<Rightarrow> db \<Rightarrow> bool" where
  "has_waiting_capture now actor d =
     list_ex (\<lambda>c. c_actor c = actor \<and> c_state c = ''waiting'' \<and> c_prompt c \<noteq> None \<and> now < c_expires c) (captures d)"

definition release_capture_for_retry :: "string \<Rightarrow> string \<Rightarrow> db \<Rightarrow> db" where
  "release_capture_for_retry cid err d =
     d\<lparr>captures := upd_where (\<lambda>c. c_id c = cid \<and> c_state c = ''processing'')
        (\<lambda>c. c\<lparr>c_state := ''waiting'', c_error := Some err, c_source_msg := None, c_consumed := None\<rparr>) (captures d)\<rparr>"

definition fail_capture :: "string \<Rightarrow> string \<Rightarrow> datetime \<Rightarrow> db \<Rightarrow> db" where
  "fail_capture cid err now d =
     d\<lparr>captures := upd_where (\<lambda>c. c_id c = cid \<and> c_state c = ''processing'')
        (\<lambda>c. c\<lparr>c_state := ''failed'', c_error := Some err, c_consumed := Some now\<rparr>) (captures d)\<rparr>"

section \<open>Copying to the Saved Messages\<close>

record saved_copy =
  sc_type :: string
  sc_source :: int
  sc_saved :: int
  sc_meta :: dict

definition copy_failed :: "string \<Rightarrow> exn" where
  "copy_failed m = task_media_error ''MEDIA_SOURCE_COPY_FAILED'' m"

text \<open>The size of the document, or else of the largest photo size, which is part of the event.\<close>

definition source_size :: "tg_message \<Rightarrow> int option \<Rightarrow> exn + int" where
  "source_size m photo_size =
     (let doc = (case mg_media m of Some (MediaDocument dc) \<Rightarrow> dc_size dc | _ \<Rightarrow> None);
          photo = (case mg_media m of Some (MediaPhoto _) \<Rightarrow> photo_size | _ \<Rightarrow> None)
      in if int_true doc then Inr (the doc)
         else if int_true photo then Inr (the photo)
         else Inl (copy_failed ''<unknown size>''))"

definition upload_and_readback ::
  "'x gateway \<Rightarrow> string \<Rightarrow> tg_message \<Rightarrow> 'x \<Rightarrow> 'x \<times> (exn + int \<times> tg_message)" where
  "upload_and_readback gw aid m x =
     (let failed = Inl (copy_failed ''<upload failed>'');
          reraise = (\<lambda>e. if e_name e = ''TaskMediaError'' then Inl e else failed)
      in case g_upload gw aid m x of
           (x1, Inl e) \<Rightarrow> (x1, reraise e)
         | (x1, Inr saved) \<Rightarrow>
             if \<not> int_true saved then (x1, failed)
             else
               (case g_readback gw aid (the saved) x1 of
                  (x2, Inl e) \<Rightarrow> (x2, reraise e)
                | (x2, Inr None) \<Rightarrow> (x2, failed)
                | (x2, Inr (Some v)) \<Rightarrow> if mg_media v = None then (x2, failed) else (x2, Inr (the saved, v))))"

definition verify_copy :: "classified \<Rightarrow> tg_message \<Rightarrow> exn + classified" where
  "verify_copy c v =
     (case classify_message_media v of
        Inl e \<Rightarrow> Inl (copy_failed ''<readback invalid>'')
      | Inr k \<Rightarrow> if cf_type k \<noteq> cf_type c then Inl (copy_failed ''<readback type differs>'') else Inr k)"

definition copy_bot_message_to_saved ::
  "'x gateway \<Rightarrow> string \<Rightarrow> int \<Rightarrow> tg_message \<Rightarrow> int option \<Rightarrow> 'x \<Rightarrow> 'x \<times> (exn + saved_copy)" where
  "copy_bot_message_to_saved gw aid source m photo_size x =
     (case g_client gw aid x of
        (x1, Inl e) \<Rightarrow> (x1, Inl e)
      | (x1, Inr False) \<Rightarrow> (x1, Inl (copy_failed ''<no client>''))
      | (x1, Inr True) \<Rightarrow>
          (case classify_message_media m of
             Inl e \<Rightarrow> (x1, Inl e)
           | Inr k \<Rightarrow>
               (case source_size m photo_size of
                  Inl e \<Rightarrow> (x1, Inl e)
                | Inr _ \<Rightarrow>
                    (case upload_and_readback gw aid m x1 of
                       (x2, Inl e) \<Rightarrow> (x2, Inl e)
                     | (x2, Inr (saved, v)) \<Rightarrow>
                         (case verify_copy k v of
                            Inl e \<Rightarrow> (x2, Inl e)
                          | Inr k' \<Rightarrow>
                              (x2, Inr \<lparr>sc_type = cf_type k, sc_source = source, sc_saved = saved,
                                         sc_meta = cf_meta k'\<rparr>))))))"

end
