(* ===== verification/CaptureFlow.thy ===== *)
theory CaptureFlow
  imports Capture
begin

text \<open>
  The completion of a capture, the whole handling of a reply (claim, copy, completion or
  release) and the removal of a task's media; then the step relation of the captures.
\<close>

section \<open>Writing the media to the task\<close>

definition frozen_task :: "capture \<Rightarrow> task \<Rightarrow> bool" where
  "frozen_task c t = (t_id t = c_task c \<and> t_account t = Some (c_account c) \<and> t_revision t = c_revision c)"

text \<open>\<open>tgmsg://account/message\<close>; a copy has one of the three media types of \<open>classify_message_media\<close>.\<close>

definition media_named :: "string \<Rightarrow> media_type" where
  "media_named s = (case media_of_value s of Some m \<Rightarrow> m | None \<Rightarrow> MNone)"

definition with_copy :: "capture \<Rightarrow> saved_copy \<Rightarrow> datetime \<Rightarrow> task \<Rightarrow> task" where
  "with_copy c cp now t =
     t\<lparr>t_contract := 2, t_media := media_named (sc_type cp),
       t_media_file := Some (''tgmsg://'' @ c_account c @ ''/'' @ show_int (sc_saved cp)),
       t_src_account := Some (c_account c), t_src_msg := Some (sc_saved cp), t_src_meta := JObj (sc_meta cp),
       t_src_state := ''valid'', t_src_error := None, t_src_verified := Some now,
       t_revision := t_revision t + 1\<rparr>"

text \<open>The number of rows comes first.\<close>

definition update_task_from_capture :: "capture \<Rightarrow> saved_copy \<Rightarrow> datetime \<Rightarrow> db \<Rightarrow> nat \<times> db" where
  "update_task_from_capture c cp now d =
     (length (filter (frozen_task c) (tasks d)),
      d\<lparr>tasks := upd_where (frozen_task c) (with_copy c cp now) (tasks d)\<rparr>)"

definition fail_completed_copy :: "saved_copy \<Rightarrow> datetime \<Rightarrow> string \<Rightarrow> capture \<Rightarrow> capture" where
  "fail_completed_copy cp now err c =
     c\<lparr>c_saved_msg := Some (sc_saved cp),
       c_state := (if err \<noteq> ''MEDIA_CAPTURE_EXPIRED'' then ''failed'' else ''expired''),
       c_error := Some err, c_consumed := Some now\<rparr>"

definition record_orphan_copy :: "saved_copy \<Rightarrow> datetime \<Rightarrow> capture \<Rightarrow> capture" where
  "record_orphan_copy cp now c =
     c\<lparr>c_saved_msg := (if c_saved_msg c = None then Some (sc_saved cp) else c_saved_msg c),
       c_consumed := (if c_consumed c = None then Some now else c_consumed c)\<rparr>"

definition apply_completed_copy :: "capture \<Rightarrow> saved_copy \<Rightarrow> datetime \<Rightarrow> db \<Rightarrow> db \<times> exn option" where
  "apply_completed_copy c cp now d =
     (let fail = (\<lambda>err e. (upd_capture (c_id c) (fail_completed_copy cp now err) d, Some e)) in
      case get_task (c_task c) d of
        None \<Rightarrow> fail ''TASK_REVISION_CONFLICT'' (task_media_error ''TASK_REVISION_CONFLICT'' ''<not applied>'')
      | Some t \<Rightarrow>
          if truthy (t_buttons t)
          then fail ''TASK_BUTTONS_UNSUPPORTED_FOR_USER_ACCOUNT''
                 (task_media_error ''TASK_BUTTONS_UNSUPPORTED_FOR_USER_ACCOUNT'' ''<not applied>'')
          else case validate_message_length (t_text t) True of
            Inl e \<Rightarrow> fail (e_code e) e
          | Inr _ \<Rightarrow>
              (let (rows, d1) = update_task_from_capture c cp now d;
                   done = (\<lambda>c. c\<lparr>c_saved_msg := Some (sc_saved cp), c_consumed := Some now\<rparr>)
               in if rows \<noteq> 1
                  then (upd_capture (c_id c)
                          (\<lambda>c. (done c)\<lparr>c_state := ''failed'', c_error := Some ''TASK_REVISION_CONFLICT''\<rparr>) d1,
                        Some (task_media_error ''TASK_REVISION_CONFLICT'' ''<not applied>''))
                  else (upd_capture (c_id c) (\<lambda>c. (done c)\<lparr>c_state := ''completed''\<rparr>) d1, None)))"

definition complete_capture :: "string \<Rightarrow> saved_copy \<Rightarrow> datetime \<Rightarrow> db \<Rightarrow> db \<times> exn option" where
  "complete_capture cid cp now d =
     (case get_capture cid d of
        None \<Rightarrow> (d, Some (task_media_error ''MEDIA_CAPTURE_ALREADY_CONSUMED'' ''<no session>''))
      | Some c \<Rightarrow>
          if c_state c \<noteq> ''processing''
          then (upd_capture cid (record_orphan_copy cp now) d,
                Some (task_media_error ''MEDIA_CAPTURE_ALREADY_CONSUMED'' ''<state changed>''))
          else if c_expires c \<le> now
          then (upd_capture cid (fail_completed_copy cp now ''MEDIA_CAPTURE_EXPIRED'') d,
                Some (task_media_error ''MEDIA_CAPTURE_EXPIRED'' ''<session expired>''))
          else apply_completed_copy c cp now d)"

text \<open>The media of a task is dropped by a compare-and-swap on its revision.\<close>

definition media_target :: "string \<Rightarrow> int \<Rightarrow> int \<Rightarrow> task \<Rightarrow> bool" where
  "media_target tid uid expected t = (t_id t = tid \<and> t_user t = uid \<and> t_revision t = expected)"

definition delete_task_media :: "string \<Rightarrow> int \<Rightarrow> int \<Rightarrow> db \<Rightarrow> http_error + db" where
  "delete_task_media tid uid expected d =
     (if length (filter (media_target tid uid expected) (tasks d)) \<noteq> 1 then Inl revision_conflict
      else Inr (cancel_captures ''MEDIA_SOURCE_CLEARED'' tid
             (d\<lparr>tasks := upd_where (media_target tid uid expected)
                  (\<lambda>t. (clear_task_media_fields t)\<lparr>t_revision := t_revision t + 1\<rparr>) (tasks d)\<rparr>)))"

section \<open>Handling a reply\<close>

record reply =
  r_sender :: int
  r_id :: int
  r_to :: "int option"
  r_message :: tg_message
  r_photo_size :: "int option"

text \<open>A message to the operator, and then the result \<open>True\<close>.\<close>

definition respond_true :: "'x gateway \<Rightarrow> string \<Rightarrow> db \<times> 'x \<Rightarrow> (db \<times> 'x) \<times> (exn + bool)" where
  "respond_true gw m s =
     (case g_respond gw m (snd s) of
        (x1, Inl e) \<Rightarrow> ((fst s, x1), Inl e) | (x1, Inr _) \<Rightarrow> ((fst s, x1), Inr True))"

definition finish_capture ::
  "'x gateway \<Rightarrow> capture \<Rightarrow> saved_copy \<Rightarrow> db \<times> 'x \<Rightarrow> (db \<times> 'x) \<times> (exn + bool)" where
  "finish_capture gw c cp s =
     (let (d, x) = s in
      case complete_capture (c_id c) cp (g_now gw x) d of
        (d1, None) \<Rightarrow> respond_true gw ''<media saved>'' (d1, x)
      | (d1, Some e) \<Rightarrow>
          respond_true gw (e_code e) (fail_capture (c_id c) (e_code e) (g_now gw x) d1, x))"

text \<open>\<open>between\<close> is what other sessions do to the database while the media is copied.\<close>

definition try_consume_capture_reply ::
  "'x gateway \<Rightarrow> capture_env \<Rightarrow> (db \<Rightarrow> db) \<Rightarrow> reply \<Rightarrow> db \<times> 'x \<Rightarrow> (db \<times> 'x) \<times> (exn + bool)" where
  "try_consume_capture_reply gw env between r s =
     (let (d, x) = s in
      case r_to r of
        None \<Rightarrow>
          if mg_media (r_message r) \<noteq> None \<and> has_waiting_capture (g_now gw x) (r_sender r) d
          then respond_true gw ''MEDIA_CAPTURE_REPLY_REQUIRED'' s
          else (s, Inr False)
      | Some prompt \<Rightarrow>
          (case claim_capture env (g_now gw x) (r_sender r) prompt (r_id r) d of
             (d1, NotACapture) \<Rightarrow> ((d1, x), Inr False)
           | (d1, Refused e) \<Rightarrow> respond_true gw (e_code e) (d1, x)
           | (d1, Claimed c) \<Rightarrow>
               (case copy_bot_message_to_saved gw (c_account c) (r_id r) (r_message r) (r_photo_size r) x of
                  (x1, Inl e) \<Rightarrow>
                    if e_name e = ''TaskMediaError''
                    then respond_true gw (e_code e) (release_capture_for_retry (c_id c) (e_code e) (between d1), x1)
                    else ((between d1, x1), Inl e)
                | (x1, Inr cp) \<Rightarrow> finish_capture gw c cp (between d1, x1))))"

section \<open>The captures as a state machine\<close>

text \<open>
  One database session of the capture services, or one of the task service that touches
  captures. The database after an activation depends on the clock and on whether the answer
  could be sent: a gateway without a state has every such behaviour (\<open>activation_step\<close>).
\<close>

inductive capture_step :: "db \<Rightarrow> db \<Rightarrow> bool" where
  created: "create_capture env now now' token tid uid expected actor d = Inr (d', cid) \<Longrightarrow> capture_step d d'"
| polled: "fst (get_capture_status now tid cid uid d) = d' \<Longrightarrow> capture_step d d'"
| activated: "fst (fst (activate_capture (gw :: unit gateway) env hash cid actor (d, ()))) = d' \<Longrightarrow> capture_step d d'"
| claimed: "fst (claim_capture env now actor prompt source d) = d' \<Longrightarrow> capture_step d d'"
| released: "release_capture_for_retry cid err d = d' \<Longrightarrow> capture_step d d'"
| failed: "fail_capture cid err now d = d' \<Longrightarrow> capture_step d d'"
| completed: "fst (complete_capture cid cp now d) = d' \<Longrightarrow> capture_step d d'"
| media_deleted: "delete_task_media tid uid expected d = Inr d' \<Longrightarrow> capture_step d d'"
| task_updated: "commit_update now p expected tid uid d = Inr d' \<Longrightarrow> capture_step d d'"
| task_deleted: "delete_task tid uid d = Inr d' \<Longrightarrow> capture_step d d'"
| elsewhere: "captures d' = captures d \<Longrightarrow> capture_step d d'"

inductive capture_run :: "db \<Rightarrow> db \<Rightarrow> bool" where
  start: "capture_run d d"
| step: "capture_run d d1 \<Longrightarrow> capture_step d1 d2 \<Longrightarrow> capture_run d d2"

lemma activation_step: "capture_step d (fst (fst (activate_capture gw env hash cid actor (d, x))))"
proof -
  define gw' :: "unit gateway" where "gw' =
    \<lparr>g_now = (\<lambda>_. g_now gw x), g_respond = (\<lambda>m _. ((), snd (g_respond gw m x))),
     g_client = (\<lambda>a _. ((), Inr False)), g_upload = (\<lambda>a m _. ((), Inr None)), g_readback = (\<lambda>a n _. ((), Inr None))\<rparr>"
  have "fst (fst (activate_capture gw env hash cid actor (d, x))) = fst (fst (activate_capture gw' env hash cid actor (d, ())))"
    by (simp add: activate_capture_def gw'_def split: option.split prod.split sum.split)
  then show ?thesis by (simp add: capture_step.activated)
qed

lemma run_trans: "capture_run d1 d2 \<Longrightarrow> capture_run d d1 \<Longrightarrow> capture_run d d2"
  by (induction rule: capture_run.induct) (auto intro: capture_run.step)

lemma run_one: "capture_step d d' \<Longrightarrow> capture_run d d'"
  by (blast intro: capture_run.intros)

lemma respond_true_db [simp]: "fst (fst (respond_true gw m s)) = fst s"
  by (simp add: respond_true_def split: prod.split sum.split)

text \<open>The handling of a reply is a sequence of such sessions, with those of others in between.\<close>

lemma reply_is_a_run:
  assumes "\<And>d. capture_run d (between d)"
  shows "capture_run d (fst (fst (try_consume_capture_reply gw env between r (d, x))))"
proof (cases "r_to r")
  case None
  then show ?thesis by (simp add: try_consume_capture_reply_def capture_run.start)
next
  case (Some prompt)
  obtain d1 cl where cl: "claim_capture env (g_now gw x) (r_sender r) prompt (r_id r) d = (d1, cl)" by fastforce
  have s1: "capture_run d d1" using cl by (metis run_one capture_step.claimed fst_conv)
  have s2: "capture_run d (between d1)" by (rule run_trans [OF assms s1])
  show ?thesis
  proof (cases cl)
    case (Claimed c)
    obtain x1 res where copy: "copy_bot_message_to_saved gw (c_account c) (r_id r) (r_message r) (r_photo_size r) x = (x1, res)"
      by fastforce
    show ?thesis
    proof (cases res)
      case (Inl e)
      have "capture_run d (release_capture_for_retry (c_id c) (e_code e) (between d1))"
        by (rule capture_run.step [OF s2 capture_step.released]) simp
      with Inl Some cl Claimed copy s2 show ?thesis
        by (simp add: try_consume_capture_reply_def)
    next
      case (Inr cp)
      obtain d2 er where d2: "complete_capture (c_id c) cp (g_now gw x1) (between d1) = (d2, er)" by fastforce
      have s3: "capture_run d d2"
        using capture_run.step [OF s2 capture_step.completed] d2 by (metis fst_conv)
      have "capture_run d (fail_capture (c_id c) err (g_now gw x1) d2)" for err
        by (rule capture_run.step [OF s3 capture_step.failed]) simp
      with Inr Some cl Claimed copy d2 s3 show ?thesis
        by (cases er) (simp_all add: try_consume_capture_reply_def finish_capture_def)
    qed
  qed (use Some cl s1 in \<open>simp_all add: try_consume_capture_reply_def\<close>)
qed

end
