(* ===== verification/CaptureFacts.thy ===== *)
theory CaptureFacts
  imports CaptureFlow TaskUpdate
begin

text \<open>
  The invariant of the capture table and the moves of a single capture: every session moves each
  row along the edges of the state diagram, and only a creation adds one.
\<close>

section \<open>Moves\<close>

definition edges :: "(string \<times> string) set" where
  "edges = {(''waiting'', ''processing''), (''processing'', ''waiting''), (''processing'', ''completed'')}
     \<union> {''waiting'', ''processing''} \<times> {''cancelled'', ''failed'', ''expired''}"

text \<open>
  A capture moves along an edge; those with the property \<open>R\<close> may also expire from any state.
\<close>

definition moves :: "(capture \<Rightarrow> bool) \<Rightarrow> capture \<Rightarrow> capture \<Rightarrow> bool" where
  "moves R c c' \<longleftrightarrow>
     c_id c' = c_id c \<and> c_token_hash c' = c_token_hash c \<and> c_task c' = c_task c \<and> c_user c' = c_user c
   \<and> c_account c' = c_account c \<and> c_revision c' = c_revision c \<and> c_expires c' = c_expires c
   \<and> (c_state c' = c_state c \<or> (c_state c, c_state c') \<in> edges
     \<or> (R c \<and> c_state c' = ''expired''))"

lemma moves_refl [simp]: "moves R c c"
  by (simp add: moves_def)

lemma moves_active: "moves R c c' \<Longrightarrow> active_capture c' \<Longrightarrow> active_capture c"
  by (auto simp: moves_def active_capture_def edges_def)

lemma moves_upd:
  "(\<And>c. c \<in> set cs \<Longrightarrow> P c \<Longrightarrow> moves R c (f c)) \<Longrightarrow> list_all2 (moves R) cs (upd_where P f cs)"
  by (induction cs) auto

lemma moves_same: "list_all2 (moves R) cs cs"
  by (simp add: list_all2_same)

lemma moves_keys:
  "list_all2 (moves R) cs ds \<Longrightarrow> map c_id ds = map c_id cs \<and> map c_token_hash ds = map c_token_hash cs"
  by (induction rule: list_all2_induct) (simp_all add: moves_def)

lemma moves_expire: "active_capture c \<or> R c \<Longrightarrow> moves R c (expire_capture c)"
  by (auto simp: moves_def expire_capture_def active_capture_def edges_def)

lemma moves_edges:
  "c_state c = ''processing'' \<Longrightarrow> moves R c (fail_completed_copy cp now e c)"
  "moves R c (record_orphan_copy cp now c)"
  "active_capture c \<Longrightarrow> moves R c (c\<lparr>c_state := ''cancelled'', c_error := e'\<rparr>)"
  by (auto simp: moves_def fail_completed_copy_def record_orphan_copy_def active_capture_def edges_def)

lemma cancel_moves: "list_all2 (moves R) (captures d) (captures (cancel_captures e tid d))"
  by (auto simp: cancel_captures_def intro!: moves_upd moves_edges)

lemma inactive [simp]:
  "\<not> active_capture (expire_capture c)" "\<not> active_capture (c\<lparr>c_state := ''cancelled'', c_error := e\<rparr>)"
  by (simp_all add: active_capture_def expire_capture_def)

text \<open>Replacing the row that was loaded.\<close>

lemma replace_moves:
  assumes "distinct (map c_id (captures d))" "c \<in> set (captures d)" "moves R c (f c)"
  shows "list_all2 (moves R) (captures d) (captures (upd_capture (c_id c) f d))"
proof -
  have "moves R r (f r)" if "r \<in> set (captures d)" "c_id r = c_id c" for r
  proof -
    have "r = c" using assms(1,2) that by (metis distinct_map inj_onD)
    with assms(3) show ?thesis by simp
  qed
  then show ?thesis by (simp add: upd_capture_def moves_upd)
qed

lemma upd_where_leaves_none:
  assumes "r \<in> set (upd_where P f rows)" "\<And>q. P q \<Longrightarrow> \<not> P (f q)"
  shows "\<not> P r"
  using assms by (induction rows) (auto split: if_splits)

section \<open>The invariant\<close>

definition active_of :: "string \<Rightarrow> capture list \<Rightarrow> capture list" where
  "active_of tid cs = filter (\<lambda>c. c_task c = tid \<and> active_capture c) cs"

definition captures_ok :: "capture list \<Rightarrow> bool" where
  "captures_ok cs \<longleftrightarrow> distinct (map c_id cs) \<and> distinct (map c_token_hash cs) \<and> (\<forall>tid. length (active_of tid cs) \<le> 1)"

lemma active_moves: "list_all2 (moves R) cs ds \<Longrightarrow> length (active_of tid ds) \<le> length (active_of tid cs)"
proof (induction rule: list_all2_induct)
  case (Cons c cs d ds)
  have "c_task d = c_task c" using Cons(1) by (simp add: moves_def)
  with Cons moves_active [OF Cons(1)] show ?case by (auto simp: active_of_def)
qed (simp add: active_of_def)

lemma ok_moves: "captures_ok cs \<Longrightarrow> list_all2 (moves R) cs ds \<Longrightarrow> captures_ok ds"
  using active_moves moves_keys unfolding captures_ok_def by (metis le_trans)

lemma ok_filter: "captures_ok cs \<Longrightarrow> captures_ok (filter P cs)"
proof -
  have "length (active_of tid (filter P cs)) \<le> length (active_of tid cs)" for tid
    by (induction cs) (auto simp: active_of_def)
  then show "captures_ok cs \<Longrightarrow> captures_ok (filter P cs)"
    unfolding captures_ok_def by (meson distinct_map_filter le_trans)
qed

lemma ok_append:
  assumes "captures_ok cs" "c_id c \<notin> c_id ` set cs" "c_token_hash c \<notin> c_token_hash ` set cs"
    "active_of (c_task c) cs = []"
  shows "captures_ok (cs @ [c])"
proof -
  have "length (active_of tid (cs @ [c])) \<le> 1" for tid
    using assms(1,4) by (cases "tid = c_task c") (auto simp: captures_ok_def active_of_def)
  with assms(1-3) show ?thesis by (simp add: captures_ok_def)
qed

section \<open>Every session makes moves\<close>

definition added :: "capture list \<Rightarrow> capture \<Rightarrow> bool" where
  "added cs c \<longleftrightarrow> c_id c \<notin> c_id ` set cs \<and> c_token_hash c \<notin> c_token_hash ` set cs
     \<and> active_of (c_task c) cs = [] \<and> c_state c = ''waiting'' \<and> c_prompt c = None"

definition evolved :: "(capture \<Rightarrow> bool) \<Rightarrow> capture list \<Rightarrow> capture list \<Rightarrow> bool" where
  "evolved R cs ds \<longleftrightarrow> (\<exists>ms. list_all2 (moves R) cs ms
     \<and> (ds = ms \<or> (\<exists>c. added ms c \<and> ds = ms @ [c]) \<or> (\<exists>P. ds = filter P ms)))"

lemma evolved_moves: "list_all2 (moves R) cs ds \<Longrightarrow> evolved R cs ds"
  by (auto simp: evolved_def)

lemma evolved_ok: "evolved R cs ds \<Longrightarrow> captures_ok cs \<Longrightarrow> captures_ok ds"
  unfolding evolved_def added_def by (blast intro: ok_moves ok_filter ok_append)

lemma create_evolves:
  assumes "create_capture env now now' token tid uid expected actor d = Inr (d', cid)"
  shows "evolved R (captures d) (captures d')"
proof -
  obtain t where t: "get_task tid d = Some t" "t_user t = uid" "t_revision t = expected"
    using assms by (cases "get_task tid d") (auto simp: create_capture_def split: if_splits)
  let ?acc = "case t_account t of None \<Rightarrow> None | Some a \<Rightarrow> get_account a d"
  obtain n where n: "validate_capture_target t ?acc = Inr ()" "resolve_capture_actor env uid actor = Inr n"
      "resolve_bot_username env \<noteq> []"
    using assms t by (auto simp: create_capture_def Let_def and_then_Inr split: if_splits)
  obtain d1 where d1: "replace_waiting_capture now' tid d = Inr d1"
    using assms t n by (auto simp: create_capture_def Let_def and_then_Inr)
  have fresh: "get_capture cid d = None" "\<not> list_ex (\<lambda>c'. c_token_hash c' = token_digest env token) (captures d)"
    and d': "captures d' = captures d1 @ [new_capture env cid token t uid (str_or (t_account t) []) n
        (now + secs media_capture_ttl_seconds)]"
    using assms t n d1 by (auto simp: create_capture_def Let_def new_capture_def split: if_splits)
  let ?c = "new_capture env cid token t uid (str_or (t_account t) []) n (now + secs media_capture_ttl_seconds)"
  have cs1: "captures d1 = upd_where (\<lambda>c. c_task c = tid \<and> active_capture c)
              (\<lambda>c. if c_expires c \<le> now' then expire_capture c
                   else c\<lparr>c_state := ''cancelled'', c_error := Some ''MEDIA_CAPTURE_REPLACED''\<rparr>) (captures d)"
    using d1 by (auto simp: replace_waiting_capture_def split: if_splits)
  have m: "list_all2 (moves R) (captures d) (captures d1)"
    unfolding cs1 by (intro moves_upd) (simp add: moves_edges moves_expire)
  have "\<not> (c_task c = tid \<and> active_capture c)" if "c \<in> set (captures d1)" for c
    using that unfolding cs1 by (rule upd_where_leaves_none) simp
  then have "active_of tid (captures d1) = []" by (simp add: active_of_def filter_empty_conv)
  moreover have "t_id t = tid" using t(1) by (rule get_task_id)
  moreover have "c_id ` set (captures d1) = c_id ` set (captures d)"
    "c_token_hash ` set (captures d1) = c_token_hash ` set (captures d)"
    using moves_keys [OF m] by (metis image_set)+
  ultimately have "added (captures d1) ?c"
    using fresh by (auto simp: added_def new_capture_def get_capture_def find_row_None list_ex_iff)
  with m d' show ?thesis by (auto simp: evolved_def)
qed

lemma activation_moves:
  assumes "activation_error env now actor c d = (c', r)" "c_expires c \<le> now \<Longrightarrow> R c"
  shows "moves R c c'" "r = None \<Longrightarrow> c_state c = ''waiting'' \<and> c_state c' = ''waiting''"
proof -
  obtain c1 r1 where v: "validate_activation now actor (get_linked_system_user_id env actor) c = (c1, r1)" by fastforce
  have m: "moves R c c1" "r1 = None \<Longrightarrow> c_state c = ''waiting'' \<and> c1 = c\<lparr>c_actor := actor\<rparr>"
    using v assms(2) by (auto simp: validate_activation_def moves_def expire_capture_def split: if_splits)
  show "moves R c c'"
  proof (cases r1)
    case None
    with m assms(1) v show ?thesis
      by (auto simp: activation_error_def Let_def moves_def edges_def split: option.splits)
  next
    case (Some e)
    with m assms(1) v show ?thesis by (simp add: activation_error_def Let_def)
  qed
  show "r = None \<Longrightarrow> c_state c = ''waiting'' \<and> c_state c' = ''waiting''"
    using m assms(1) v by (cases r1) (auto simp: activation_error_def Let_def split: option.splits)
qed

lemma load_in: "load_capture hash cid d = Some c \<Longrightarrow> c \<in> set (captures d)"
  by (auto simp: load_capture_def split: if_splits dest: find_row_Some)

text \<open>A capture that is past its expiry when its link is opened.\<close>

definition opened_at :: "string option \<Rightarrow> string option \<Rightarrow> datetime \<Rightarrow> db \<Rightarrow> capture \<Rightarrow> bool" where
  "opened_at hash cid now d c \<longleftrightarrow> load_capture hash cid d = Some c \<and> c_expires c \<le> now"

lemma activate_evolves:
  assumes "distinct (map c_id (captures d))" "\<And>c. opened_at hash cid (g_now gw x) d c \<Longrightarrow> R c"
  shows "list_all2 (moves R) (captures d) (captures (fst (fst (activate_capture gw env hash cid actor (d, x)))))"
proof (cases "load_capture hash cid d")
  case None
  then show ?thesis
    by (simp add: activate_capture_def moves_same split: prod.split sum.split)
next
  case (Some c)
  obtain c1 r where a: "activation_error env (g_now gw x) actor c d = (c1, r)" by fastforce
  have m: "moves R c c1" "moves R c (c1\<lparr>c_prompt := Some n\<rparr>)" for n
    using activation_moves(1) [OF a, of R] assms(2) [of c] Some by (simp_all add: moves_def opened_at_def)
  from replace_moves [OF assms(1) load_in [OF Some], of R "\<lambda>_. c1"]
    replace_moves [OF assms(1) load_in [OF Some], of R "\<lambda>_. c1\<lparr>c_prompt := Some n\<rparr>" for n]
  show ?thesis using Some a m
    by (auto simp: activate_capture_def moves_same split: prod.split sum.split option.split)
qed

lemma claim_evolves:
  assumes "distinct (map c_id (captures d))"
  shows "list_all2 (moves R) (captures d) (captures (fst (claim_capture env now actor prompt source d)))"
proof (cases "find_row (prompted actor prompt) (captures d)")
  case (Some c)
  then have c: "c \<in> set (captures d)" by (auto dest: find_row_Some)
  have "moves R c (c\<lparr>c_state := ''processing'', c_source_msg := Some source\<rparr>)"
    "moves R c (c\<lparr>c_state := ''failed'', c_error := e\<rparr>)"
    "moves R c (expire_capture c)" if "c_state c = ''waiting''" for e
    using that by (simp_all add: moves_def edges_def moves_expire active_capture_def expire_capture_def)
  from replace_moves [OF assms c] this Some show ?thesis
    by (auto simp: claim_capture_def Let_def moves_same split: option.split)
qed (simp add: claim_capture_def moves_same)

lemma complete_evolves:
  assumes "distinct (map c_id (captures d))"
  shows "list_all2 (moves R) (captures d) (captures (fst (complete_capture cid cp now d)))"
proof (cases "get_capture cid d")
  case (Some c)
  then have c: "c \<in> set (captures d)" and id: "c_id c = cid" by (auto simp: get_capture_def dest: find_row_Some)
  note r = replace_moves [OF assms c, unfolded id]
  have tasks: "captures (upd_capture i f (d\<lparr>tasks := ts\<rparr>)) = captures (upd_capture i f d)" for i f ts
    by (simp add: upd_capture_def)
  show ?thesis
  proof (cases "c_state c = ''processing''")
    case True
    have "moves R c ((c\<lparr>c_saved_msg := n, c_consumed := k\<rparr>)\<lparr>c_state := ''completed''\<rparr>)"
      "moves R c ((c\<lparr>c_saved_msg := n, c_consumed := k\<rparr>)\<lparr>c_state := ''failed'', c_error := e\<rparr>)" for n k e
      using True by (simp_all add: moves_def edges_def)
    with r moves_edges(1) [OF True] Some True id show ?thesis
      by (auto simp: complete_capture_def apply_completed_copy_def update_task_from_capture_def tasks Let_def
          split: option.split sum.split)
  next
    case False
    with r moves_edges(2) Some id show ?thesis by (simp add: complete_capture_def)
  qed
qed (simp add: complete_capture_def moves_same)

lemma polled_moves:
  assumes "distinct (map c_id (captures d))"
  shows "list_all2 (moves R) (captures d) (captures (fst (get_capture_status now tid cid uid d)))"
proof -
  have "list_all2 (moves R) (captures d) (captures (upd_capture cid expire_capture d))"
    if "find_row (\<lambda>c. c_id c = cid \<and> c_task c = tid \<and> c_user c = uid) (captures d) = Some c"
      "active_capture c" for c
    using find_row_Some [OF that(1)] that(2) replace_moves [OF assms, of c R expire_capture]
    by (simp add: moves_expire)
  then show ?thesis by (simp add: get_capture_status_def moves_same split: option.split)
qed

lemma handled_moves:
  "list_all2 (moves R) (captures d) (captures (release_capture_for_retry cid err d))"
  "list_all2 (moves R) (captures d) (captures (fail_capture cid err now d))"
proof -
  have "moves R c (c\<lparr>c_state := ''waiting'', c_error := e, c_source_msg := None, c_consumed := None\<rparr>)"
    "moves R c (c\<lparr>c_state := ''failed'', c_error := e, c_consumed := Some now\<rparr>)"
    if "c_state c = ''processing''" for c e
    using that by (simp_all add: moves_def edges_def)
  note m = this
  show "list_all2 (moves R) (captures d) (captures (release_capture_for_retry cid err d))"
    unfolding release_capture_for_retry_def by simp (rule moves_upd, rule m, simp)
  show "list_all2 (moves R) (captures d) (captures (fail_capture cid err now d))"
    unfolding fail_capture_def by simp (rule moves_upd, rule m, simp)
qed

text \<open>The session was the opening of the link of this capture, after its expiry.\<close>

definition opened_late :: "db \<Rightarrow> db \<Rightarrow> capture \<Rightarrow> bool" where
  "opened_late d d' c \<longleftrightarrow> (\<exists>(gw :: unit gateway) env hash cid actor.
     d' = fst (fst (activate_capture gw env hash cid actor (d, ()))) \<and> opened_at hash cid (g_now gw ()) d c)"

lemma step_evolves:
  "capture_step d d' \<Longrightarrow> distinct (map c_id (captures d)) \<Longrightarrow>
     evolved (opened_late d d') (captures d) (captures d')"
proof (induction rule: capture_step.induct)
  case (created env now now' token tid uid expected actor d d' cid)
  then show ?case by (blast intro: create_evolves)
next
  case (polled now tid cid uid d d')
  from polled_moves [OF polled(2)] show ?case unfolding polled(1) [symmetric] by (rule evolved_moves)
next
  case (activated gw env hash cid actor d d')
  have "opened_late d d' c" if "opened_at hash cid (g_now gw ()) d c" for c
    using that activated(1) unfolding opened_late_def by blast
  then have "list_all2 (moves (opened_late d d')) (captures d)
      (captures (fst (fst (activate_capture gw env hash cid actor (d, ())))))"
    by (rule activate_evolves [OF activated(2)])
  then show ?case unfolding activated(1) by (rule evolved_moves)
next
  case (claimed env now actor prompt source d d')
  from claim_evolves [OF claimed(2)] show ?case unfolding claimed(1) [symmetric] by (rule evolved_moves)
next
  case (released cid err d d')
  from handled_moves(1) show ?case unfolding released(1) [symmetric] by (rule evolved_moves)
next
  case (failed cid err now d d')
  from handled_moves(2) show ?case unfolding failed(1) [symmetric] by (rule evolved_moves)
next
  case (completed cid cp now d d')
  from complete_evolves [OF completed(2)] show ?case unfolding completed(1) [symmetric] by (rule evolved_moves)
next
  case (media_deleted tid uid expected d d')
  have "captures d' = captures (cancel_captures ''MEDIA_SOURCE_CLEARED'' tid d)"
    using media_deleted(1) by (auto simp: delete_task_media_def cancel_captures_def split: if_splits)
  then show ?case using cancel_moves evolved_moves by metis
next
  case (task_updated now p expected tid uid d d')
  show ?case
    by (rule commit_facts [OF task_updated(1)])
       (metis cancel_moves moves_same evolved_moves cancel_task_captures_def)
next
  case (task_deleted tid uid d d')
  then have "captures d' = filter (\<lambda>c. c_task c \<noteq> tid) (captures d)"
    by (auto simp: delete_task_def and_then_Inr remove_task_def)
  then show ?case using moves_same by (auto simp: evolved_def)
next
  case (elsewhere d' d)
  then show ?case by (simp add: evolved_moves moves_same)
qed

lemma run_ok: "capture_run d d' \<Longrightarrow> captures_ok (captures d) \<Longrightarrow> captures_ok (captures d')"
proof (induction rule: capture_run.induct)
  case (step d d1 d2)
  then have ok: "captures_ok (captures d1)" by blast
  then have "evolved (opened_late d1 d2) (captures d1) (captures d2)"
    using step.hyps(2) step_evolves captures_ok_def by blast
  then show ?case using ok by (rule evolved_ok)
qed

end
