(* ===== verification/CaptureProps.thy ===== *)
theory CaptureProps
  imports CaptureFacts TaskRequests SampleWorld
begin

text \<open>
  The properties of the media captures: one active capture per task, the state diagram of a
  capture, what a completion writes, and the race of all writers of a task on its revision.
\<close>

section \<open>The table\<close>

text \<open>
  C6: Starting from a table with at most one active capture per task, every sequence of capture
  sessions - creations, polls, activations, claims, releases, failures, completions, and the
  task operations that cancel or delete captures, interleaved in any order - keeps ids and
  tokens unique and never leaves a task with two captures that are waiting or processing.
\<close>
theorem one_active_capture_per_task:
  assumes "capture_run d d'" "captures_ok (captures d)"
  shows "length (active_of tid (captures d')) \<le> 1 \<and> distinct (map c_id (captures d'))
    \<and> distinct (map c_token_hash (captures d'))"
  using run_ok [OF assms] by (simp add: captures_ok_def)

definition demo_env :: capture_env where
  "demo_env = \<lparr>app_settings = [(''tg_user_link:5'', ''7'')], bot_setting = Some ''@demo_bot'', bot_session = None,
     token_digest = (\<lambda>t. t)\<rparr>"

definition media_db :: db where
  "media_db = (empty_db sample_ids)\<lparr>
     accounts := [blank_account ''a'' 7],
     tasks := [(blank_task ''t1'' 7)\<lparr>t_account := Some ''a'', t_contract := 2, t_revision := 3, t_text := Some [72, 105]\<rparr>]\<rparr>"

definition db_of :: "'e + db \<times> 'b \<Rightarrow> db \<Rightarrow> db" where
  "db_of r d = (case r of Inl _ \<Rightarrow> d | Inr (d', _) \<Rightarrow> d')"

definition twice_db :: db where
  "twice_db = (let d1 = db_of (create_capture demo_env 0 0 ''x'' ''t1'' 7 3 None media_db) media_db
               in db_of (create_capture demo_env 1 1 ''y'' ''t1'' 7 3 None d1) d1)"

lemma db_of_step:
  "capture_step d (db_of (create_capture env now now' token tid uid e actor d) d)"
proof (cases "create_capture env now now' token tid uid e actor d")
  case (Inr r)
  then show ?thesis by (cases r) (auto simp: db_of_def intro: capture_step.created)
qed (simp add: db_of_def capture_step.elsewhere)

theorem one_active_capture_per_task_witness:
  "map c_state (captures twice_db) = [''cancelled'', ''waiting'']
    \<and> length (active_of ''t1'' (captures twice_db)) \<le> 1"
proof -
  have "capture_run media_db twice_db"
    unfolding twice_db_def Let_def by (rule capture_run.step [OF run_one]) (rule db_of_step)+
  moreover have "captures_ok (captures media_db)"
    by (simp add: captures_ok_def media_db_def empty_db_def active_of_def)
  ultimately have "length (active_of ''t1'' (captures twice_db)) \<le> 1"
    using one_active_capture_per_task by blast
  moreover have "map c_state (captures twice_db) = [''cancelled'', ''waiting'']" by code_simp
  ultimately show ?thesis by simp
qed

text \<open>
  C7: A session leaves the state of a capture or moves it along an edge of the diagram: from
  waiting to processing, from processing back to waiting or to completed, and from either of
  the two to cancelled, failed or expired. There is one exception: when the session opens the
  link of this very capture at or after its expiry, the capture becomes expired from any state.
  So a finished capture is never waiting, processing or completed again. The task, account,
  revision and expiry it was created for never change.
\<close>
theorem captures_follow_the_diagram:
  assumes "capture_step d d'" "captures_ok (captures d)"
    and "c \<in> set (captures d)" "c' \<in> set (captures d')" "c_id c' = c_id c"
  shows "(c_state c' = c_state c
      \<or> (c_state c, c_state c') \<in>
          {(''waiting'', ''processing''), (''processing'', ''waiting''), (''processing'', ''completed'')}
          \<union> {''waiting'', ''processing''} \<times> {''cancelled'', ''failed'', ''expired''}
      \<or> (c_state c' = ''expired'' \<and> (\<exists>(gw :: unit gateway) env hash cid actor.
            d' = fst (fst (activate_capture gw env hash cid actor (d, ())))
            \<and> load_capture hash cid d = Some c \<and> c_expires c \<le> g_now gw ())))
    \<and> c_task c' = c_task c \<and> c_account c' = c_account c \<and> c_revision c' = c_revision c \<and> c_expires c' = c_expires c"
proof -
  let ?R = "opened_late d d'"
  have dist: "distinct (map c_id (captures d))" using assms(2) by (simp add: captures_ok_def)
  obtain ms where ms: "list_all2 (moves ?R) (captures d) ms"
    and d': "captures d' = ms \<or> (\<exists>c. added ms c \<and> captures d' = ms @ [c]) \<or> (\<exists>P. captures d' = filter P ms)"
    using step_evolves [OF assms(1) dist] by (auto simp: evolved_def)
  have ids: "c_id ` set ms = c_id ` set (captures d)" using moves_keys [OF ms] by (metis image_set)
  then have "c_id c' \<in> c_id ` set ms" using assms(3,5) by simp
  then have "c' \<in> set ms" using d' assms(4) by (auto simp: added_def)
  then obtain i where i: "i < length ms" "c' = ms ! i" by (metis in_set_conv_nth)
  then have m: "moves ?R (captures d ! i) c'" "i < length (captures d)"
    using ms by (auto simp: list_all2_conv_all_nth)
  then have "c_id (captures d ! i) = c_id c" using assms(5) by (simp add: moves_def)
  then have "captures d ! i = c" using m(2) assms(3) dist by (metis distinct_map inj_onD nth_mem)
  with m(1) have "moves ?R c c'" by simp
  then have "c_state c' = c_state c \<or> (c_state c, c_state c') \<in> edges \<or> ?R c \<and> c_state c' = ''expired''"
    and rest: "c_task c' = c_task c" "c_account c' = c_account c" "c_revision c' = c_revision c"
      "c_expires c' = c_expires c"
    unfolding moves_def by blast+
  then show ?thesis
    unfolding edges_def opened_late_def opened_at_def by blast
qed

definition claimed_capture :: "string \<Rightarrow> int \<Rightarrow> capture" where
  "claimed_capture tid n =
     \<lparr>c_id = ''c1'', c_token_hash = ''x'', c_task = tid, c_user = 7, c_account = ''a'', c_actor = 5,
      c_revision = n, c_prompt = Some 11, c_source_msg = Some 12, c_saved_msg = None, c_state = ''processing'',
      c_error = None, c_expires = secs 600, c_consumed = None\<rparr>"

definition copying_db :: db where
  "copying_db = media_db\<lparr>captures := [claimed_capture ''t1'' 3]\<rparr>"

definition demo_copy :: saved_copy where
  "demo_copy = \<lparr>sc_type = ''photo'', sc_source = 12, sc_saved = 40, sc_meta = []\<rparr>"

definition completed_db :: db where
  "completed_db = fst (complete_capture ''c1'' demo_copy 5 copying_db)"

lemma copying_ok: "captures_ok (captures copying_db)"
  by (simp add: captures_ok_def copying_db_def active_of_def)

theorem captures_follow_the_diagram_witness:
  "\<exists>c c'. capture_step copying_db completed_db \<and> c \<in> set (captures copying_db)
     \<and> c' \<in> set (captures completed_db) \<and> c_state c = ''processing'' \<and> c_state c' = ''completed''
     \<and> c_task c' = c_task c \<and> c_expires c' = c_expires c"
proof -
  let ?c = "claimed_capture ''t1'' 3"
  have st: "capture_step copying_db completed_db" by (auto simp: completed_db_def intro: capture_step.completed)
  have "map (\<lambda>c'. (c_id c', c_state c')) (captures completed_db) = [(''c1'', ''completed'')]" by code_simp
  then obtain c' where c': "c' \<in> set (captures completed_db)" "c_id c' = ''c1''" "c_state c' = ''completed''"
    by auto
  have c: "?c \<in> set (captures copying_db)" by (simp add: copying_db_def)
  have "c_task c' = c_task ?c \<and> c_expires c' = c_expires ?c"
    using captures_follow_the_diagram [OF st copying_ok c c'(1)] c'(2) by (simp add: claimed_capture_def)
  with st c c' show ?thesis
    by (intro exI [of _ ?c] exI [of _ c']) (simp add: claimed_capture_def)
qed

section \<open>Completion\<close>

text \<open>When a copy may be written to the task.\<close>

definition may_complete :: "string \<Rightarrow> datetime \<Rightarrow> db \<Rightarrow> bool" where
  "may_complete cid now d \<longleftrightarrow>
     (\<exists>c t. get_capture cid d = Some c \<and> c_state c = ''processing'' \<and> now < c_expires c
        \<and> get_task (c_task c) d = Some t \<and> frozen_task c t \<and> \<not> truthy (t_buttons t)
        \<and> validate_message_length (t_text t) True = Inr ())"

lemma filter_one:
  assumes "distinct (map t_id ts)" "find_row (\<lambda>t. t_id t = tid) ts = Some t"
  shows "filter (\<lambda>t. t_id t = tid \<and> Q t) ts = (if Q t then [t] else [])"
  using assms
proof (induction ts)
  case (Cons u us)
  show ?case
  proof (cases "t_id u = tid")
    case True
    then have "filter (\<lambda>t. t_id t = tid \<and> Q t) us = []"
      using Cons.prems(1) by (auto simp: filter_empty_conv image_iff)
    with True Cons.prems(2) show ?thesis by simp
  qed (use Cons in auto)
qed simp

lemma find_row_unique:
  "distinct (map key rows) \<Longrightarrow> r \<in> set rows \<Longrightarrow> find_row (\<lambda>x. key x = key r) rows = Some r"
  by (induction rows) auto

lemma frozen_rows:
  assumes "distinct (map t_id (tasks d))" "get_task (c_task c) d = Some t"
  shows "length (filter (frozen_task c) (tasks d)) = (if frozen_task c t then 1 else 0)"
proof -
  have "t_id t = c_task c" by (rule get_task_id [OF assms(2)])
  moreover have "frozen_task c = (\<lambda>t. t_id t = c_task c \<and> t_account t = Some (c_account c) \<and> t_revision t = c_revision c)"
    by (simp add: frozen_task_def fun_eq_iff)
  ultimately show ?thesis
    using filter_one [of "tasks d" "c_task c" t] assms by (simp add: get_task_def)
qed

lemma tasks_upd_capture [simp]: "tasks (upd_capture i f d) = tasks d"
  by (simp add: upd_capture_def)

lemma complete_tasks:
  assumes "distinct (map t_id (tasks d))" "complete_capture cid cp now d = (d', r)"
  shows "(r = None) = may_complete cid now d"
    and "r \<noteq> None \<Longrightarrow> tasks d' = tasks d"
    and "r = None \<Longrightarrow> get_capture cid d = Some c \<Longrightarrow>
      tasks d' = upd_where (frozen_task c) (with_copy c cp now) (tasks d)"
proof -
  have "(r = None) = may_complete cid now d \<and> (r \<noteq> None \<longrightarrow> tasks d' = tasks d)
    \<and> (r = None \<longrightarrow> get_capture cid d = Some c \<longrightarrow> tasks d' = upd_where (frozen_task c) (with_copy c cp now) (tasks d))"
    for c
  proof (cases "get_capture cid d")
    case None
    with assms(2) show ?thesis by (auto simp: complete_capture_def may_complete_def)
  next
    case (Some k)
    show ?thesis
    proof (cases "c_state k = ''processing'' \<and> now < c_expires k")
      case False
      with assms(2) Some show ?thesis
        by (auto simp: complete_capture_def may_complete_def split: if_splits)
    next
      case True
      then have run: "apply_completed_copy k cp now d = (d', r)"
        using assms(2) Some by (simp add: complete_capture_def)
      show ?thesis
      proof (cases "get_task (c_task k) d")
        case None
        with run Some show ?thesis by (auto simp: apply_completed_copy_def may_complete_def Let_def)
      next
        case (Some t)
        have rows: "length (filter (frozen_task k) (tasks d)) = (if frozen_task k t then 1 else 0)"
          by (rule frozen_rows [OF assms(1) Some])
        have same: "upd_where (frozen_task k) f (tasks d) = tasks d" if "\<not> frozen_task k t" for f
          using rows that by (intro upd_where_none) (auto simp: filter_empty_conv)
        show ?thesis
          using run Some True rows same \<open>get_capture cid d = Some k\<close>
          by (auto simp: apply_completed_copy_def may_complete_def update_task_from_capture_def Let_def
              split: if_splits sum.splits)
      qed
    qed
  qed
  then show "(r = None) = may_complete cid now d" "r \<noteq> None \<Longrightarrow> tasks d' = tasks d"
    "r = None \<Longrightarrow> get_capture cid d = Some c \<Longrightarrow>
      tasks d' = upd_where (frozen_task c) (with_copy c cp now) (tasks d)" by blast+
qed

text \<open>
  C8: The completion of a capture succeeds exactly if the capture is processing and not expired,
  its task still exists on the frozen account at the frozen revision, has no buttons and a text
  that fits a caption. Then the task's next revision refers to the saved copy and nothing else
  in the task table changes; otherwise no task changes at all.
\<close>
theorem completion_writes_the_frozen_task:
  assumes "distinct (map t_id (tasks d))" "complete_capture cid cp now d = (d', r)"
  shows "(r = None) = may_complete cid now d
    \<and> (r \<noteq> None \<longrightarrow> tasks d' = tasks d)
    \<and> (r = None \<longrightarrow> (\<exists>c t. get_capture cid d = Some c \<and> get_task (c_task c) d = Some t
      \<and> get_task (c_task c) d' = Some (with_copy c cp now t) \<and> t_revision (with_copy c cp now t) = c_revision c + 1
      \<and> (\<forall>tid. tid \<noteq> c_task c \<longrightarrow> get_task tid d' = get_task tid d)))"
proof (intro conjI)
  note ct = complete_tasks [OF assms]
  show "(r = None) = may_complete cid now d" "r \<noteq> None \<longrightarrow> tasks d' = tasks d" using ct by blast+
  show "r = None \<longrightarrow> (\<exists>c t. get_capture cid d = Some c \<and> get_task (c_task c) d = Some t
      \<and> get_task (c_task c) d' = Some (with_copy c cp now t) \<and> t_revision (with_copy c cp now t) = c_revision c + 1
      \<and> (\<forall>tid. tid \<noteq> c_task c \<longrightarrow> get_task tid d' = get_task tid d))"
  proof
    assume r: "r = None"
    then obtain c t where c: "get_capture cid d = Some c" "get_task (c_task c) d = Some t" "frozen_task c t"
      using ct(1) by (auto simp: may_complete_def)
    have rows: "tasks d' = upd_where (frozen_task c) (with_copy c cp now) (tasks d)" by (rule ct(3) [OF r c(1)])
    have "get_task tid d' = map_option (\<lambda>u. if frozen_task c u then with_copy c cp now u else u) (get_task tid d)" for tid
      unfolding get_task_def rows by (rule find_row_upd_same) (simp add: with_copy_def)
    moreover have "\<not> frozen_task c u" if "get_task tid d = Some u" "tid \<noteq> c_task c" for tid u
      using get_task_id [OF that(1)] that(2) by (simp add: frozen_task_def)
    ultimately show "\<exists>c t. get_capture cid d = Some c \<and> get_task (c_task c) d = Some t
      \<and> get_task (c_task c) d' = Some (with_copy c cp now t) \<and> t_revision (with_copy c cp now t) = c_revision c + 1
      \<and> (\<forall>tid. tid \<noteq> c_task c \<longrightarrow> get_task tid d' = get_task tid d)"
      using c by (intro exI [of _ c] exI [of _ t]) (auto simp: with_copy_def frozen_task_def map_option_case split: option.splits)
  qed
qed

theorem completion_writes_the_frozen_task_witness:
  "get_task ''t1'' completed_db \<noteq> None \<and> snd (complete_capture ''c1'' demo_copy 5 copying_db) = None
    \<and> may_complete ''c1'' 5 copying_db"
proof -
  have "distinct (map t_id (tasks copying_db))" by (simp add: copying_db_def media_db_def)
  from completion_writes_the_frozen_task [OF this, of "''c1''" demo_copy 5 completed_db "snd (complete_capture ''c1'' demo_copy 5 copying_db)"]
  have "(snd (complete_capture ''c1'' demo_copy 5 copying_db) = None) = may_complete ''c1'' 5 copying_db"
    unfolding completed_db_def by simp
  moreover have "snd (complete_capture ''c1'' demo_copy 5 copying_db) = None" "get_task ''t1'' completed_db \<noteq> None"
    by code_simp+
  ultimately show ?thesis by simp
qed

section \<open>The race on the revision\<close>

text \<open>
  Whoever writes a task states the revision it has read: a save of the H5 page, the removal of
  the media, a capture that completes.
\<close>

locale revision_writer =
  fixes tid :: string and expected :: int and put :: "db \<Rightarrow> db \<times> bool"
  assumes hit: "distinct (map t_id (tasks d)) \<Longrightarrow> put d = (d', True) \<Longrightarrow>
      (\<exists>t. get_task tid d = Some t \<and> t_revision t = expected) \<and> revision_from tid (expected + 1) d'"
    and miss: "put d = (d', False) \<Longrightarrow> distinct (map t_id (tasks d)) \<Longrightarrow> tasks d' = tasks d"
    and ids: "put d = (d', ok) \<Longrightarrow> distinct (map t_id (tasks d)) \<Longrightarrow> distinct (map t_id (tasks d'))"
begin

lemma refused_later:
  assumes "distinct (map t_id (tasks d))" "revision_from tid (expected + 1) d"
  shows "\<not> snd (put d) \<and> revision_from tid (expected + 1) (fst (put d))"
proof -
  obtain d' ok where w: "put d = (d', ok)" by fastforce
  have no: "\<not> ok"
  proof
    assume ok
    with hit [OF assms(1)] w assms(2) show False by (auto simp: revision_from_def)
  qed
  with miss [of d d'] w assms show ?thesis by (auto simp: revision_from_def get_task_def)
qed

end

datatype writer = Save payload int | DropMedia int | StoreCopy string saved_copy

fun attempt :: "int \<Rightarrow> string \<Rightarrow> int \<Rightarrow> writer \<Rightarrow> db \<Rightarrow> db \<times> bool" where
  "attempt now tid e (Save p uid) d =
     (case commit_update now p e tid uid d of Inl _ \<Rightarrow> (d, False) | Inr d' \<Rightarrow> (d', True))"
| "attempt now tid e (DropMedia uid) d =
     (case delete_task_media tid uid e d of Inl _ \<Rightarrow> (d, False) | Inr d' \<Rightarrow> (d', True))"
| "attempt now tid e (StoreCopy cid cp) d =
     (case get_capture cid d of
        None \<Rightarrow> (d, False)
      | Some c \<Rightarrow>
          if c_task c = tid \<and> c_revision c = e
          then (let (d', r) = complete_capture cid cp now d in (d', r = None))
          else (d, False))"

interpretation save_writer: revision_writer tid e "attempt now tid e (Save p uid)" for tid e now p uid
proof
  fix d d'
  assume "attempt now tid e (Save p uid) d = (d', True)"
  then have com: "commit_update now p e tid uid d = Inr d'" by (auto split: sum.splits)
  show "(\<exists>t. get_task tid d = Some t \<and> t_revision t = e) \<and> revision_from tid (e + 1) d'"
    by (rule commit_facts [OF com]) (use commit_revision(1) [OF com] in auto)
next
  fix d d' assume "attempt now tid e (Save p uid) d = (d', False)"
  then show "tasks d' = tasks d" by (auto split: sum.splits)
next
  fix d d' ok
  assume w: "attempt now tid e (Save p uid) d = (d', ok)" and dist: "distinct (map t_id (tasks d))"
  show "distinct (map t_id (tasks d'))"
  proof (cases "commit_update now p e tid uid d")
    case (Inr d'')
    then have "d'' = d'" using w by simp
    show ?thesis
    proof (rule commit_facts [OF Inr])
      fix t p1 u t'
      assume t: "get_task tid d = Some t" "update_columns (pl_fields p1) t = Inr u" "same_columns u t'"
        and d'': "tasks d'' = upd_where (\<lambda>t. t_id t = tid) (\<lambda>_. t') (tasks d)"
      have "t_id t' = tid"
        using t(3) id_col.update_protected [OF _ t(2)] get_task_id [OF t(1)] by (simp add: same_columns_def)
      with dist show ?thesis by (simp add: \<open>d'' = d'\<close> [symmetric] d'' row_simps)
    qed
  qed (use w dist in auto)
qed

lemma bump_rows:
  assumes "distinct (map t_id (tasks d))" "get_task tid d = Some t" "P t" "t_revision t = e"
    and "\<And>u. P u \<Longrightarrow> t_id u = tid" "\<And>u. t_id (f u) = t_id u \<and> t_revision (f u) = t_revision u + 1"
    and "tasks d' = upd_where P f (tasks d)"
  shows "(\<exists>t. get_task tid d = Some t \<and> t_revision t = e) \<and> revision_from tid (e + 1) d'"
proof -
  have "get_task tid d' = map_option (\<lambda>u. if P u then f u else u) (get_task tid d)"
    unfolding get_task_def assms(7) by (rule find_row_upd_same) (use assms(6) in simp)
  with assms show ?thesis by (auto simp: revision_from_def)
qed

interpretation drop_writer: revision_writer tid e "attempt now tid e (DropMedia uid)" for tid e now uid
proof
  fix d d'
  assume dist: "distinct (map t_id (tasks d))" and "attempt now tid e (DropMedia uid) d = (d', True)"
  then have one: "length (filter (media_target tid uid e) (tasks d)) = 1"
    and rows: "tasks d' = upd_where (media_target tid uid e)
        (\<lambda>t. (clear_task_media_fields t)\<lparr>t_revision := t_revision t + 1\<rparr>) (tasks d)"
    by (auto simp: delete_task_media_def cancel_captures_def split: sum.splits if_splits)
  obtain t where t: "t \<in> set (tasks d)" "media_target tid uid e t"
    using one by (metis filter_empty_conv length_0_conv zero_neq_one)
  then have "get_task tid d = Some t"
    using dist by (auto simp: get_task_def media_target_def find_row_unique)
  then show "(\<exists>t. get_task tid d = Some t \<and> t_revision t = e) \<and> revision_from tid (e + 1) d'"
    using t(2) rows
    by (intro bump_rows [OF dist]) (auto simp: media_target_def clear_task_media_fields_def)
next
  fix d d' assume "attempt now tid e (DropMedia uid) d = (d', False)"
  then show "tasks d' = tasks d" by (auto split: sum.splits)
next
  fix d d' ok
  assume "attempt now tid e (DropMedia uid) d = (d', ok)" and dist: "distinct (map t_id (tasks d))"
  then show "distinct (map t_id (tasks d'))"
    by (auto simp: delete_task_media_def cancel_captures_def clear_task_media_fields_def row_simps
        split: sum.splits if_splits)
qed

interpretation copy_writer: revision_writer tid e "attempt now tid e (StoreCopy cid cp)" for tid e now cid cp
proof
  fix d d'
  assume dist: "distinct (map t_id (tasks d))" and w: "attempt now tid e (StoreCopy cid cp) d = (d', True)"
  then obtain c where c: "get_capture cid d = Some c" "c_task c = tid" "c_revision c = e"
    and run: "complete_capture cid cp now d = (d', None)"
    by (auto split: option.splits if_splits prod.splits)
  have "may_complete cid now d" using complete_tasks(1) [OF dist run] by simp
  then obtain t where t: "get_task tid d = Some t" "frozen_task c t" using c by (auto simp: may_complete_def)
  have "tasks d' = upd_where (frozen_task c) (with_copy c cp now) (tasks d)"
    by (rule complete_tasks(3) [OF dist run]) (simp_all add: c)
  then show "(\<exists>t. get_task tid d = Some t \<and> t_revision t = e) \<and> revision_from tid (e + 1) d'"
    using t c by (intro bump_rows [OF dist t(1), where P = "frozen_task c"]) (auto simp: frozen_task_def with_copy_def)
next
  fix d d'
  assume w: "attempt now tid e (StoreCopy cid cp) d = (d', False)" and dist: "distinct (map t_id (tasks d))"
  obtain d1 r where run: "complete_capture cid cp now d = (d1, r)" by fastforce
  show "tasks d' = tasks d"
    using w complete_tasks(2) [OF dist run] run by (auto split: option.splits if_splits)
next
  fix d d' ok
  assume w: "attempt now tid e (StoreCopy cid cp) d = (d', ok)" and dist: "distinct (map t_id (tasks d))"
  obtain d1 r where run: "complete_capture cid cp now d = (d1, r)" by fastforce
  have "map t_id (tasks d1) = map t_id (tasks d)" if "get_capture cid d = Some c" for c
    using complete_tasks(2) [OF dist run] complete_tasks(3) [OF dist run _ that]
    by (cases r) (auto simp: row_simps with_copy_def)
  then show "distinct (map t_id (tasks d'))"
    using w dist run by (auto split: option.splits if_splits)
qed

text \<open>The writers in the order in which the database lets them in; the count of the successes.\<close>

fun race :: "int \<Rightarrow> string \<Rightarrow> int \<Rightarrow> writer list \<Rightarrow> db \<Rightarrow> db \<times> nat" where
  "race now tid e [] d = (d, 0)"
| "race now tid e (w # ws) d =
     (let (d1, ok) = attempt now tid e w d; (d2, n) = race now tid e ws d1 in (d2, (if ok then Suc n else n)))"

lemma any_writer: "revision_writer tid e (attempt now tid e w)"
  by (cases w) (simp_all only: save_writer.revision_writer_axioms drop_writer.revision_writer_axioms
      copy_writer.revision_writer_axioms)

lemma race_lost:
  "distinct (map t_id (tasks d)) \<Longrightarrow> revision_from tid (e + 1) d \<Longrightarrow> snd (race now tid e ws d) = 0"
proof (induction ws arbitrary: d)
  case (Cons w ws)
  obtain d1 ok where a: "attempt now tid e w d = (d1, ok)" by fastforce
  have "\<not> ok \<and> revision_from tid (e + 1) d1"
    using revision_writer.refused_later [OF any_writer Cons.prems, of now w] a by simp
  moreover have "distinct (map t_id (tasks d1))"
    using revision_writer.ids [OF any_writer a Cons.prems(1)] .
  ultimately show ?case using Cons.IH [of d1] a by (simp add: split: prod.split)
qed simp

text \<open>
  C9: However many saves of the page, removals of the media and completing captures have been
  prepared from the same revision of a task, and in whatever order they reach the database, at
  most one of them is accepted.
\<close>
theorem one_writer_per_revision:
  assumes "distinct (map t_id (tasks d))"
  shows "snd (race now tid e ws d) \<le> 1"
  using assms
proof (induction ws arbitrary: d)
  case (Cons w ws)
  obtain d1 ok where a: "attempt now tid e w d = (d1, ok)" by fastforce
  have dist: "distinct (map t_id (tasks d1))" using revision_writer.ids [OF any_writer a Cons.prems] .
  show ?case
  proof (cases ok)
    case True
    then have "revision_from tid (e + 1) d1" using revision_writer.hit [OF any_writer Cons.prems] a by simp
    from race_lost [OF dist this, of now ws] show ?thesis using a True by (auto simp: split_beta)
  next
    case False
    then show ?thesis using Cons.IH [OF dist] a by (simp add: split_beta)
  qed
qed simp

theorem one_writer_per_revision_witness:
  "snd (race 5 ''t1'' 3 [StoreCopy ''c1'' demo_copy, DropMedia 7] copying_db) \<le> 1
    \<and> snd (race 5 ''t1'' 3 [StoreCopy ''c1'' demo_copy, DropMedia 7] copying_db) = 1
    \<and> snd (race 5 ''t1'' 3 [DropMedia 7, StoreCopy ''c1'' demo_copy] copying_db) = 1"
proof -
  have "distinct (map t_id (tasks copying_db))" by (simp add: copying_db_def media_db_def)
  from one_writer_per_revision [OF this] show ?thesis by (intro conjI, blast) code_simp+
qed

section \<open>Two observations\<close>

text \<open>
  A deep link that is opened again after the ten minutes turns a completed capture into an
  expired one: the expiry is checked before the state.
\<close>

definition link_gateway :: "unit gateway" where
  "link_gateway = \<lparr>g_now = (\<lambda>_. secs 601), g_respond = (\<lambda>m _. ((), Inr 99)), g_client = (\<lambda>a _. ((), Inr False)),
     g_upload = (\<lambda>a m _. ((), Inr None)), g_readback = (\<lambda>a n _. ((), Inr None))\<rparr>"

lemma completed_capture_turns_expired:
  "map c_state (captures completed_db) = [''completed'']
   \<and> map c_state (captures (fst (fst (activate_capture_from_start link_gateway demo_env ''x'' 5 (completed_db, ())))))
       = [''expired'']"
  by code_simp

text \<open>
  A capture whose process died while it copied keeps its task from being deleted long after the
  capture has expired, until somebody polls it or starts another.
\<close>

lemma expired_copy_blocks_deletion:
  "(case delete_task ''t1'' 7 copying_db of Inl e \<Rightarrow> e = Http 409 ''MEDIA_CAPTURE_PROCESSING'' | Inr _ \<Rightarrow> False)
   \<and> \<not> isl (delete_task ''t1'' 7 (fst (get_capture_status (secs 601) ''t1'' ''c1'' 7 copying_db)))"
  by code_simp

end
