(* ===== verification/Books.thy ===== *)
theory Books
  imports Prelude "HOL-Library.Multiset"
begin

text \<open>
  What the accounting of the back office promises, without its database: accounts in a tree,
  limits delegated along its links, open debts, and the amounts posted to the ledger. The steps
  are the movements of money and credit; \<open>books_ok\<close> is what they keep. The operations of the
  code are shown to be sequences of these steps in \<open>PanelBooks\<close>.
\<close>

section \<open>The books\<close>

record acct =
  ac_parent :: "int option"
  ac_root :: int
  ac_master :: bool
  ac_limit :: int
  ac_allocated :: int
  ac_used :: int
  ac_prepay :: int
  ac_balance :: int

record link =
  li_parent :: int
  li_child :: int
  li_limit :: int
  li_used :: int

record open_debt =
  de_batch :: string
  de_owner :: int
  de_liable :: int
  de_total :: int

type_synonym accts = "int \<Rightarrow> acct option"
type_synonym posting = "string \<times> int \<times> int"

record books =
  book_accts :: accts
  book_links :: "link list"
  book_debts :: "open_debt list"
  book_posts :: "posting multiset"

text \<open>An account and those above it, up to the top.\<close>

function up_path :: "accts \<Rightarrow> int \<Rightarrow> int list" where
  "up_path A i = i #
     (case A i of None \<Rightarrow> []
      | Some a \<Rightarrow> (case ac_parent a of None \<Rightarrow> []
          | Some q \<Rightarrow> if 0 \<le> q \<and> q < i then up_path A q else []))"
  by auto
termination by (relation "measure (\<lambda>(A, i). nat i)") auto

declare up_path.simps [simp del]

definition owed :: "accts \<Rightarrow> open_debt list \<Rightarrow> int \<Rightarrow> int" where
  "owed A D i = (\<Sum>d\<leftarrow>D. if i \<in> set (up_path A (de_liable d)) then de_total d else 0)"

definition allotted :: "link list \<Rightarrow> int \<Rightarrow> int" where
  "allotted L i = (\<Sum>l\<leftarrow>L. if li_parent l = i then li_limit l else 0)"

definition posted :: "string \<Rightarrow> int \<Rightarrow> posting multiset \<Rightarrow> int" where
  "posted k i P = (\<Sum>(k', j, n) \<in># P. if k' = k \<and> j = i then n else 0)"

lemma posted_add [simp]:
  "posted k i (P + Q) = posted k i P + posted k i Q"
  "posted k i (add_mset (k', j, n) P) = (if k' = k \<and> j = i then n else 0) + posted k i P"
  "posted k i {#} = 0"
  by (simp_all add: posted_def)

lemma posted_each: "distinct path \<Longrightarrow>
  posted k i (image_mset (\<lambda>j. (k', j, n)) (mset path)) = (if k' = k \<and> i \<in> set path then n else 0)"
  by (induction path) auto

section \<open>Steps\<close>

text \<open>Changes of one account, of the accounts on a path, of the link of a child.\<close>

definition adj :: "int \<Rightarrow> (acct \<Rightarrow> acct) \<Rightarrow> accts \<Rightarrow> accts" where
  "adj i f A = A(i := map_option f (A i))"

definition add_used :: "int \<Rightarrow> acct \<Rightarrow> acct" where
  "add_used n a = a\<lparr>ac_used := ac_used a + n\<rparr>"

definition charge :: "int list \<Rightarrow> int \<Rightarrow> accts \<Rightarrow> accts" where
  "charge path n A = (\<lambda>i. if i \<in> set path then map_option (add_used n) (A i) else A i)"

definition link_used :: "int list \<Rightarrow> int \<Rightarrow> link list \<Rightarrow> link list" where
  "link_used path n L = map (\<lambda>l. if li_child l \<in> set path then l\<lparr>li_used := li_used l + n\<rparr> else l) L"

definition pay :: "int \<Rightarrow> acct \<Rightarrow> acct" where
  "pay n a = a\<lparr>ac_prepay := ac_prepay a - n, ac_used := ac_used a - n\<rparr>"

definition blank :: "acct \<Rightarrow> bool" where
  "blank a \<longleftrightarrow> ac_allocated a = 0 \<and> ac_used a = 0 \<and> ac_prepay a = 0 \<and> ac_balance a = 0 \<and> 0 \<le> ac_limit a"

inductive book_step :: "books \<Rightarrow> books \<Rightarrow> bool" where
  open_top: "\<lbrakk>book_accts b i = None; 0 < i; blank a; ac_parent a = None; ac_root a = i\<rbrakk>
    \<Longrightarrow> book_step b (b\<lparr>book_accts := (book_accts b)(i \<mapsto> a)\<rparr>)"
| open_child: "\<lbrakk>book_accts b i = None; book_accts b q = Some par; q < i; blank a; ac_parent a = Some q;
      ac_root a = ac_root par; \<not> ac_master a; ac_allocated par + ac_limit a \<le> ac_limit par\<rbrakk>
    \<Longrightarrow> book_step b (b\<lparr>book_accts := adj q (\<lambda>x. x\<lparr>ac_allocated := ac_allocated x + ac_limit a\<rparr>) ((book_accts b)(i \<mapsto> a)),
         book_links := book_links b @ [\<lparr>li_parent = q, li_child = i, li_limit = ac_limit a, li_used = 0\<rparr>]\<rparr>)"
| set_limit: "\<lbrakk>book_accts b i = Some a; ac_parent a = None; ac_allocated a \<le> n; 0 \<le> n\<rbrakk>
    \<Longrightarrow> book_step b (b\<lparr>book_accts := adj i (\<lambda>x. x\<lparr>ac_limit := n\<rparr>) (book_accts b)\<rparr>)"
| spend: "\<lbrakk>book_accts b i = Some a; 0 < n; n \<le> ac_balance a\<rbrakk>
    \<Longrightarrow> book_step b (b\<lparr>book_accts := adj i (\<lambda>x. x\<lparr>ac_balance := ac_balance x - n\<rparr>) (book_accts b),
         book_posts := add_mset (''consume_balance'', i, n) (book_posts b)\<rparr>)"
| borrow: "\<lbrakk>book_accts b i = Some a; 0 < n; path = up_path (book_accts b) i; bid \<notin> de_batch ` set (book_debts b);
      book_accts b (ac_root a) = Some r; ac_used r + n \<le> ac_limit r;
      \<forall>l \<in> set (book_links b). li_child l \<in> set path \<longrightarrow> li_used l + n \<le> li_limit l\<rbrakk>
    \<Longrightarrow> book_step b (b\<lparr>book_accts := charge path n (book_accts b), book_links := link_used path n (book_links b),
         book_debts := book_debts b @ [\<lparr>de_batch = bid, de_owner = i, de_liable = i, de_total = n\<rparr>],
         book_posts := book_posts b + image_mset (\<lambda>j. (''credit_generate'', j, n)) (mset path)\<rparr>)"
| settle_up: "\<lbrakk>d \<in> set (book_debts b); de_liable d = i; de_total d = n; book_accts b i = Some a;
      ac_parent a = Some q; n \<le> ac_prepay a\<rbrakk>
    \<Longrightarrow> book_step b (b\<lparr>book_accts := adj i (pay n) (book_accts b), book_links := link_used [i] (- n) (book_links b),
         book_debts := upd_where (\<lambda>x. de_batch x = de_batch d) (\<lambda>x. x\<lparr>de_liable := q\<rparr>) (book_debts b),
         book_posts := add_mset (''credit_settlement'', i, n) (book_posts b)\<rparr>)"
| settle_off: "\<lbrakk>d \<in> set (book_debts b); de_liable d = i; de_total d = n; book_accts b i = Some a;
      ac_parent a = None; n \<le> ac_prepay a\<rbrakk>
    \<Longrightarrow> book_step b (b\<lparr>book_accts := adj i (pay n) (book_accts b),
         book_debts := filter (\<lambda>x. de_batch x \<noteq> de_batch d) (book_debts b),
         book_posts := add_mset (''credit_settlement'', i, n) (book_posts b)\<rparr>)"
| recharge: "\<lbrakk>book_accts b i = Some a; 0 < n\<rbrakk>
    \<Longrightarrow> book_step b (b\<lparr>book_accts := adj i (\<lambda>x. x\<lparr>ac_prepay := ac_prepay x + n\<rparr>) (book_accts b),
         book_posts := add_mset (''recharge'', i, n) (book_posts b)\<rparr>)"
| top_up: "book_accts b i = Some a
    \<Longrightarrow> book_step b (b\<lparr>book_accts := adj i (\<lambda>x. x\<lparr>ac_balance := ac_balance x + ac_prepay x, ac_prepay := 0\<rparr>)
         (book_accts b)\<rparr>)"

section \<open>What the books promise\<close>

definition tree_ok :: "accts \<Rightarrow> bool" where
  "tree_ok A \<longleftrightarrow> (\<forall>i a. A i = Some a \<longrightarrow>
     0 < i \<and> (\<forall>q. ac_parent a = Some q \<longrightarrow> q < i \<and> A q \<noteq> None)
   \<and> ac_root a = last (up_path A i) \<and> (ac_master a \<longrightarrow> ac_parent a = None))"

text \<open>Every link carries the debt of its child, within the limit it delegates.\<close>

definition link_ok :: "accts \<Rightarrow> link \<Rightarrow> bool" where
  "link_ok A l \<longleftrightarrow> (\<exists>a. A (li_child l) = Some a \<and> ac_parent a = Some (li_parent l) \<and> li_used l = ac_used a
     \<and> li_limit l = ac_limit a \<and> ac_used a \<le> ac_limit a)"

definition links_ok :: "accts \<Rightarrow> link list \<Rightarrow> bool" where
  "links_ok A L \<longleftrightarrow> distinct (map li_child L) \<and> (\<forall>l \<in> set L. link_ok A l)
   \<and> (\<forall>i a. A i = Some a \<longrightarrow> ac_parent a \<noteq> None \<longrightarrow> i \<in> li_child ` set L)"

definition limits_ok :: "accts \<Rightarrow> link list \<Rightarrow> bool" where
  "limits_ok A L \<longleftrightarrow> (\<forall>i a. A i = Some a \<longrightarrow> 0 \<le> ac_limit a \<and> ac_allocated a = allotted L i \<and> ac_allocated a \<le> ac_limit a)"

definition debts_ok :: "accts \<Rightarrow> open_debt list \<Rightarrow> bool" where
  "debts_ok A D \<longleftrightarrow> distinct (map de_batch D)
   \<and> (\<forall>d \<in> set D. 0 < de_total d \<and> A (de_owner d) \<noteq> None \<and> de_liable d \<in> set (up_path A (de_owner d)))
   \<and> (\<forall>i a. A i = Some a \<longrightarrow> ac_used a = owed A D i)"

definition money_ok :: "accts \<Rightarrow> posting multiset \<Rightarrow> bool" where
  "money_ok A P \<longleftrightarrow> (\<forall>i a. A i = Some a \<longrightarrow>
     0 \<le> ac_prepay a \<and> 0 \<le> ac_balance a
   \<and> ac_balance a + ac_prepay a
       = posted ''recharge'' i P - posted ''consume_balance'' i P - posted ''credit_settlement'' i P
   \<and> ac_used a = posted ''credit_generate'' i P - posted ''credit_settlement'' i P)
   \<and> (\<forall>i k. A i = None \<longrightarrow> posted k i P = 0)"

definition books_ok :: "books \<Rightarrow> bool" where
  "books_ok b \<longleftrightarrow> tree_ok (book_accts b) \<and> links_ok (book_accts b) (book_links b)
   \<and> limits_ok (book_accts b) (book_links b) \<and> debts_ok (book_accts b) (book_debts b)
   \<and> money_ok (book_accts b) (book_posts b)"

definition empty_books :: books where
  "empty_books = \<lparr>book_accts = Map.empty, book_links = [], book_debts = [], book_posts = {#}\<rparr>"

lemma empty_books_ok: "books_ok empty_books"
  by (simp add: books_ok_def empty_books_def tree_ok_def links_ok_def limits_ok_def debts_ok_def money_ok_def)

section \<open>Paths\<close>

lemma up_path_cong:
  assumes "\<And>j. map_option ac_parent (A' j) = map_option ac_parent (A j)"
  shows "up_path A' i = up_path A i"
proof (induction "nat i" arbitrary: i rule: less_induct)
  case less
  have below: "up_path A' q = up_path A q" if "0 \<le> q" "q < i" for q using less that by simp
  show ?case
    using assms [of i] below up_path.simps [of A i] up_path.simps [of A' i]
    by (cases "A i"; cases "A' i") (auto split: option.splits)
qed

lemma self_in_path [simp]: "i \<in> set (up_path A i)"
  by (subst up_path.simps) simp

lemma up_path_Nil [simp]: "up_path A i \<noteq> []"
  by (subst up_path.simps) simp

lemma up_path_le: "j \<in> set (up_path A i) \<Longrightarrow> j \<le> i"
proof (induction A i rule: up_path.induct)
  case (1 A i)
  show ?case
  proof (cases "A i")
    case None
    then show ?thesis using 1(2) by (simp add: up_path.simps [of A i])
  next
    case (Some a)
    then show ?thesis using 1
      by (cases "ac_parent a") (fastforce simp: up_path.simps [of A i] split: if_splits)+
  qed
qed

lemma up_path_distinct: "distinct (up_path A i)"
proof (induction A i rule: up_path.induct)
  case (1 A i)
  show ?case
    by (subst up_path.simps) (fastforce split: option.splits dest: up_path_le intro: 1)
qed

text \<open>In a tree the guard of the recursion is always met.\<close>

lemma tree_path:
  assumes "tree_ok A"
  shows "up_path A i = i # (case A i of None \<Rightarrow> []
     | Some a \<Rightarrow> (case ac_parent a of None \<Rightarrow> [] | Some q \<Rightarrow> up_path A q))"
proof (cases "A i")
  case None
  then show ?thesis by (subst up_path.simps) simp
next
  case (Some a)
  show ?thesis
  proof (cases "ac_parent a")
    case (Some q)
    then obtain x where "q < i" "A q = Some x" using assms \<open>A i = Some a\<close> by (fastforce simp: tree_ok_def)
    moreover have "0 < q" using assms calculation(2) by (auto simp: tree_ok_def)
    ultimately show ?thesis using Some \<open>A i = Some a\<close> by (subst up_path.simps) simp
  qed (use Some in \<open>subst up_path.simps, simp\<close>)
qed

lemma tree_induct [consumes 2, case_names top child]:
  assumes tree: "tree_ok A" and known: "A i = Some a"
    and top: "\<And>i a. A i = Some a \<Longrightarrow> ac_parent a = None \<Longrightarrow> P i"
    and child: "\<And>i a q. A i = Some a \<Longrightarrow> ac_parent a = Some q \<Longrightarrow> A q \<noteq> None \<Longrightarrow> P q \<Longrightarrow> P i"
  shows "P i"
  using known
proof (induction "nat i" arbitrary: i a rule: less_induct)
  case less
  show ?case
  proof (cases "ac_parent a")
    case (Some q)
    with tree less.prems obtain x where q: "q < i" "A q = Some x" by (fastforce simp: tree_ok_def)
    have "0 < i" using tree less.prems by (auto simp: tree_ok_def)
    then have "P q" using less.hyps [of q x] q by simp
    with child [OF less.prems Some] q show ?thesis by simp
  qed (use top less.prems in blast)
qed

lemma path_top: "tree_ok A \<Longrightarrow> A i = Some a \<Longrightarrow> ac_parent a = None \<Longrightarrow> up_path A i = [i]"
  by (simp add: tree_path)

lemma path_child: "tree_ok A \<Longrightarrow> A i = Some a \<Longrightarrow> ac_parent a = Some q \<Longrightarrow> up_path A i = i # up_path A q"
  by (simp add: tree_path [of A i])

lemma path_known:
  assumes "tree_ok A" "A i = Some a" "j \<in> set (up_path A i)"
  shows "A j \<noteq> None"
  using assms(1) assms(2-)
proof (induction rule: tree_induct)
  case (top i a)
  then show ?case using assms(1) by (simp add: path_top)
next
  case (child i a q)
  then show ?case using assms(1) by (auto simp: path_child)
qed

lemma path_trans:
  assumes "tree_ok A" "A i = Some a" "j \<in> set (up_path A i)"
  shows "set (up_path A j) \<subseteq> set (up_path A i)"
  using assms(1) assms(2-)
proof (induction rule: tree_induct)
  case (top i a)
  then show ?case using assms(1) by (simp add: path_top)
next
  case (child i a q)
  then show ?case using assms(1) by (auto simp: path_child)
qed

lemma path_new:
  assumes "tree_ok A" "A i = Some a" "A n = None"
  shows "up_path (A(n \<mapsto> x)) i = up_path A i"
  using assms(1,2)
proof (induction rule: tree_induct)
  case (top i a)
  then have "(A(n \<mapsto> x)) i = A i" using assms(3) by auto
  then show ?case using top up_path.simps [of "A(n \<mapsto> x)" i]
    by (simp add: path_top [OF assms(1)] del: fun_upd_apply)
next
  case (child i a q)
  have "q < i" using assms(1) child(1,2) by (auto simp: tree_ok_def)
  moreover have "0 < q" using assms(1) child(3) by (auto simp: tree_ok_def)
  moreover have "(A(n \<mapsto> x)) i = A i" using child(1) assms(3) by auto
  ultimately show ?case using child up_path.simps [of "A(n \<mapsto> x)" i]
    by (simp add: path_child [OF assms(1) child(1,2)] del: fun_upd_apply)
qed

lemma root_is_top:
  assumes "tree_ok A" "A i = Some a"
  shows "\<exists>r. A (last (up_path A i)) = Some r \<and> ac_parent r = None"
  using assms(1) assms(2-)
proof (induction rule: tree_induct)
  case (top i a)
  then show ?case using assms(1) by (simp add: path_top)
next
  case (child i a q)
  then show ?case using assms(1) by (simp add: path_child)
qed

end
