(* ===== verification/BookFacts.thy ===== *)
theory BookFacts
  imports Books
begin

text \<open>Every movement of money and credit keeps what the books promise.\<close>

section \<open>Changes that keep the tree\<close>

definition shape :: "acct \<Rightarrow> int option \<times> int \<times> bool" where
  "shape a = (ac_parent a, ac_root a, ac_master a)"

definition same_tree :: "accts \<Rightarrow> accts \<Rightarrow> bool" where
  "same_tree A' A \<longleftrightarrow> (\<forall>j. map_option shape (A' j) = map_option shape (A j))"

lemma same_tree_path: "same_tree A' A \<Longrightarrow> up_path A' i = up_path A i"
proof (rule up_path_cong)
  fix j assume "same_tree A' A"
  then have "map_option fst (map_option shape (A' j)) = map_option fst (map_option shape (A j))"
    by (simp add: same_tree_def)
  then show "map_option ac_parent (A' j) = map_option ac_parent (A j)"
    by (simp add: map_option.compositionality shape_def comp_def)
qed

lemma same_tree_owed: "same_tree A' A \<Longrightarrow> owed A' D i = owed A D i"
  by (simp add: owed_def same_tree_path)

lemma same_treeD:
  assumes "same_tree A' A" "A' i = Some a"
  shows "\<exists>b. A i = Some b \<and> ac_parent a = ac_parent b \<and> ac_root a = ac_root b \<and> ac_master a = ac_master b"
proof -
  have "map_option shape (A' i) = map_option shape (A i)" using assms(1) by (simp add: same_tree_def)
  then show ?thesis using assms(2) by (cases "A i") (auto simp: shape_def)
qed

lemma same_tree_None: "same_tree A' A \<Longrightarrow> A' i = None \<longleftrightarrow> A i = None"
  by (metis map_option_is_None same_tree_def)

lemma same_tree_ok: "same_tree A' A \<Longrightarrow> tree_ok A \<Longrightarrow> tree_ok A'"
  unfolding tree_ok_def
proof (intro allI impI)
  fix i a
  assume same: "same_tree A' A" and a: "A' i = Some a"
    and ok: "\<forall>i a. A i = Some a \<longrightarrow> 0 < i \<and> (\<forall>q. ac_parent a = Some q \<longrightarrow> q < i \<and> A q \<noteq> None)
       \<and> ac_root a = last (up_path A i) \<and> (ac_master a \<longrightarrow> ac_parent a = None)"
  obtain b where b: "A i = Some b" "ac_parent a = ac_parent b" "ac_root a = ac_root b" "ac_master a = ac_master b"
    using same_treeD [OF same a] by blast
  with ok show "0 < i \<and> (\<forall>q. ac_parent a = Some q \<longrightarrow> q < i \<and> A' q \<noteq> None)
      \<and> ac_root a = last (up_path A' i) \<and> (ac_master a \<longrightarrow> ac_parent a = None)"
    by (auto simp: same_tree_path [OF same] same_tree_None [OF same])
qed

lemma adj_same_tree: "(\<And>a. shape (f a) = shape a) \<Longrightarrow> same_tree (adj i f A) A"
  by (auto simp: same_tree_def adj_def map_option.compositionality comp_def)

lemma charge_same_tree: "same_tree (charge path n A) A"
  by (auto simp: same_tree_def charge_def shape_def [abs_def] add_used_def map_option.compositionality comp_def)

lemma shape_pay [simp]: "shape (pay n a) = shape a"
  by (simp add: pay_def shape_def)

lemma adj_Some: "adj i f A j = Some a \<longleftrightarrow>
    (if j = i then (\<exists>b. A i = Some b \<and> a = f b) else A j = Some a)"
  by (auto simp: adj_def)

lemma charge_Some: "charge path n A j = Some a \<longleftrightarrow>
    (\<exists>b. A j = Some b \<and> a = (if j \<in> set path then add_used n b else b))"
  by (auto simp: charge_def)

section \<open>Money\<close>

lemma money_adj:
  assumes ok: "money_ok A P" and known: "A i = Some a"
    and pos: "0 \<le> ac_prepay (f a)" "0 \<le> ac_balance (f a)"
    and funds: "ac_balance (f a) + ac_prepay (f a) = ac_balance a + ac_prepay a
      + posted ''recharge'' i Q - posted ''consume_balance'' i Q - posted ''credit_settlement'' i Q"
    and used: "ac_used (f a) = ac_used a + posted ''credit_generate'' i Q - posted ''credit_settlement'' i Q"
    and others: "\<And>j k. j \<noteq> i \<Longrightarrow> posted k j Q = 0"
  shows "money_ok (adj i f A) (P + Q)"
  using assms by (auto simp: money_ok_def adj_def)

lemma money_charge:
  assumes ok: "money_ok A P" and path: "distinct path" "\<And>j. j \<in> set path \<Longrightarrow> A j \<noteq> None"
  shows "money_ok (charge path n A) (P + image_mset (\<lambda>j. (''credit_generate'', j, n)) (mset path))"
proof -
  have "i \<notin> set path" if "A i = None" for i using path(2) that by blast
  then show ?thesis using ok
    by (auto simp: money_ok_def charge_Some posted_each [OF path(1)] add_used_def charge_def)
qed

lemma money_new:
  assumes "money_ok A P" "A i = None" "blank a"
  shows "money_ok (A(i \<mapsto> a)) P"
  using assms by (auto simp: money_ok_def blank_def)

lemma money_free: "(\<And>a. ac_prepay (f a) = ac_prepay a \<and> ac_balance (f a) = ac_balance a \<and> ac_used (f a) = ac_used a)
   \<Longrightarrow> money_ok A P \<Longrightarrow> money_ok (adj i f A) P"
  by (auto simp: money_ok_def adj_def)

section \<open>Debts\<close>

lemma sum_upd_one:
  fixes g :: "'a \<Rightarrow> int"
  assumes "distinct (map key xs)" "x \<in> set xs"
  shows "(\<Sum>y\<leftarrow>upd_where (\<lambda>y. key y = key x) f xs. g y) = (\<Sum>y\<leftarrow>xs. g y) - g x + g (f x)"
  using assms
proof (induction xs)
  case (Cons z zs)
  show ?case
  proof (cases "z = x")
    case True
    then have "upd_where (\<lambda>y. key y = key x) f zs = zs"
      using Cons.prems by (intro upd_where_none) (auto simp: image_iff)
    then show ?thesis using True by simp
  next
    case False
    then have "key z \<noteq> key x" "x \<in> set zs" using Cons.prems by (auto simp: image_iff)
    then show ?thesis using Cons by simp
  qed
qed simp

lemma sum_drop_one:
  fixes g :: "'a \<Rightarrow> int"
  assumes "distinct (map key xs)" "x \<in> set xs"
  shows "(\<Sum>y\<leftarrow>filter (\<lambda>y. key y \<noteq> key x) xs. g y) = (\<Sum>y\<leftarrow>xs. g y) - g x"
  using assms
proof (induction xs)
  case (Cons z zs)
  show ?case
  proof (cases "z = x")
    case True
    then have "filter (\<lambda>y. key y \<noteq> key x) zs = zs"
      using Cons.prems by (intro filter_True) (auto simp: image_iff)
    then show ?thesis using True by simp
  next
    case False
    then have "key z \<noteq> key x" "x \<in> set zs" using Cons.prems by (auto simp: image_iff)
    then show ?thesis using Cons by simp
  qed
qed simp

lemma owed_nonneg: "debts_ok A D \<Longrightarrow> 0 \<le> owed A D i"
  unfolding owed_def debts_ok_def by (intro sum_list_nonneg) auto

lemma debt_path:
  assumes "tree_ok A" "debts_ok A D" "d \<in> set D"
  shows "A (de_liable d) \<noteq> None" and "set (up_path A (de_liable d)) \<subseteq> set (up_path A (de_owner d))"
proof -
  obtain a where a: "A (de_owner d) = Some a" and l: "de_liable d \<in> set (up_path A (de_owner d))"
    using assms(2,3) by (auto simp: debts_ok_def)
  show "A (de_liable d) \<noteq> None" by (rule path_known [OF assms(1) a l])
  show "set (up_path A (de_liable d)) \<subseteq> set (up_path A (de_owner d))" by (rule path_trans [OF assms(1) a l])
qed

lemma debts_free:
  assumes "same_tree A' A" "\<And>i a. A' i = Some a \<Longrightarrow> \<exists>b. A i = Some b \<and> ac_used a = ac_used b" "debts_ok A D"
  shows "debts_ok A' D"
  using assms(3) assms(2) same_tree_None [OF assms(1)]
  unfolding debts_ok_def same_tree_path [OF assms(1)] same_tree_owed [OF assms(1)] by metis

lemma debts_new:
  assumes tree: "tree_ok A" and ok: "debts_ok A D" and new: "A i = None" "blank a"
  shows "debts_ok (A(i \<mapsto> a)) D"
proof -
  have same: "up_path (A(i \<mapsto> a)) j = up_path A j" if "A j \<noteq> None" for j
    using path_new [OF tree _ new(1)] that by blast
  have liable: "A (de_liable d) \<noteq> None" "A (de_owner d) \<noteq> None" if "d \<in> set D" for d
    using debt_path [OF tree ok that] ok that by (auto simp: debts_ok_def)
  have "owed (A(i \<mapsto> a)) D j = owed A D j" for j
    unfolding owed_def using same liable by (intro arg_cong [where f = sum_list] map_cong) auto
  moreover have "owed A D i = 0"
  proof -
    have "i \<notin> set (up_path A (de_liable d))" if "d \<in> set D" for d
      using path_known [OF tree, of "de_liable d" _ i] liable(1) [OF that] new(1) by auto
    then have "owed A D i = (\<Sum>d\<leftarrow>D. 0)" unfolding owed_def by (intro arg_cong [where f = sum_list] map_cong) auto
    then show ?thesis by simp
  qed
  ultimately show ?thesis using ok new same liable by (auto simp: debts_ok_def blank_def simp del: fun_upd_apply)
      (auto split: if_splits)
qed

lemma path_weight:
  assumes "tree_ok A" "A i = Some a" "ac_parent a = Some q"
  shows "(if j \<in> set (up_path A i) then n else 0)
    = (if j = i then n else 0) + (if j \<in> set (up_path A q) then (n::int) else 0)"
proof -
  have p: "up_path A i = i # up_path A q" by (rule path_child [OF assms])
  with up_path_distinct [of A i] show ?thesis by auto
qed

lemma debts_borrow:
  assumes "tree_ok A" "debts_ok A D" "A i = Some a" "0 < n" "bid \<notin> de_batch ` set D" "path = up_path A i"
  shows "debts_ok (charge path n A) (D @ [\<lparr>de_batch = bid, de_owner = i, de_liable = i, de_total = n\<rparr>])"
proof -
  let ?A = "charge path n A"
  have same: "same_tree ?A A" by (rule charge_same_tree)
  have "owed ?A (D @ [\<lparr>de_batch = bid, de_owner = i, de_liable = i, de_total = n\<rparr>]) j
      = owed A D j + (if j \<in> set path then n else 0)" for j
    unfolding same_tree_owed [OF same] using assms(6) by (simp add: owed_def)
  then show ?thesis using assms(2-5) same_tree_None [OF same]
    by (auto simp: debts_ok_def same_tree_path [OF same] charge_Some add_used_def)
qed

lemma debts_settle_up:
  assumes tree: "tree_ok A" and ok: "debts_ok A D" and d: "d \<in> set D" "de_liable d = i" "de_total d = n"
    and a: "A i = Some a" "ac_parent a = Some q"
  shows "debts_ok (adj i (pay n) A) (upd_where (\<lambda>x. de_batch x = de_batch d) (\<lambda>x. x\<lparr>de_liable := q\<rparr>) D)"
    (is "debts_ok ?A ?D")
proof -
  have same: "same_tree ?A A" by (rule adj_same_tree) simp
  have dist: "distinct (map de_batch D)" using ok by (simp add: debts_ok_def)
  have "owed ?A ?D j = owed A D j - (if j = i then n else 0)" for j
  proof -
    let ?w = "\<lambda>x. if j \<in> set (up_path A (de_liable x)) then de_total x else 0"
    have "?w d = (if j = i then n else 0) + ?w (d\<lparr>de_liable := q\<rparr>)"
      unfolding d(2,3) by (simp add: d(3) path_weight [OF tree a, of j n])
    with sum_upd_one [OF dist d(1), of ?w "\<lambda>x. x\<lparr>de_liable := q\<rparr>"] show ?thesis
      unfolding same_tree_owed [OF same] unfolding owed_def by linarith
  qed
  moreover have "map de_batch ?D = map de_batch D" by (rule map_upd_where) simp
  moreover have "0 < de_total x \<and> A (de_owner x) \<noteq> None \<and> de_liable x \<in> set (up_path A (de_owner x))"
    if x: "x \<in> set ?D" for x
  proof -
    obtain y where y: "y \<in> set D" "x = (if de_batch y = de_batch d then y\<lparr>de_liable := q\<rparr> else y)"
      using set_upd_where [OF x] by auto
    show ?thesis
    proof (cases "de_batch y = de_batch d")
      case True
      then have "y = d" using dist y(1) d(1) by (metis distinct_map inj_onD)
      moreover have "q \<in> set (up_path A (de_owner d))"
        using debt_path(2) [OF tree ok d(1)] d(2) path_child [OF tree a] by auto
      ultimately show ?thesis using ok y d(1) by (auto simp: debts_ok_def)
    qed (use ok y in \<open>auto simp: debts_ok_def\<close>)
  qed
  ultimately show ?thesis using ok dist same_tree_None [OF same] a
    by (auto simp: debts_ok_def same_tree_path [OF same] adj_Some pay_def)
qed

lemma debts_settle_off:
  assumes tree: "tree_ok A" and ok: "debts_ok A D" and d: "d \<in> set D" "de_liable d = i" "de_total d = n"
    and a: "A i = Some a" "ac_parent a = None"
  shows "debts_ok (adj i (pay n) A) (filter (\<lambda>x. de_batch x \<noteq> de_batch d) D)" (is "debts_ok ?A ?D")
proof -
  have same: "same_tree ?A A" by (rule adj_same_tree) simp
  have dist: "distinct (map de_batch D)" using ok by (simp add: debts_ok_def)
  have "owed ?A ?D j = owed A D j - (if j = i then n else 0)" for j
    unfolding same_tree_owed [OF same] unfolding owed_def
    using sum_drop_one [OF dist d(1), of "\<lambda>x. if j \<in> set (up_path A (de_liable x)) then de_total x else 0"]
      path_top [OF tree a] d by simp
  then show ?thesis using ok same_tree_None [OF same] a
    by (auto simp: debts_ok_def same_tree_path [OF same] adj_Some pay_def distinct_map_filter)
qed

section \<open>Links and limits\<close>

lemma link_children: "links_ok A L \<Longrightarrow> l \<in> set L \<Longrightarrow> A (li_child l) \<noteq> None \<and> li_child l \<noteq> i \<or> li_child l = i"
  by (auto simp: links_ok_def link_ok_def)

lemma links_free:
  assumes "same_tree A' A" "links_ok A L"
    and "\<And>i a b. A i = Some b \<Longrightarrow> A' i = Some a \<Longrightarrow> ac_parent b \<noteq> None \<Longrightarrow> ac_used a = ac_used b \<and> ac_limit a = ac_limit b"
  shows "links_ok A' L"
proof -
  have "link_ok A' l" if l: "l \<in> set L" for l
  proof -
    obtain b where b: "A (li_child l) = Some b" "ac_parent b = Some (li_parent l)" "li_used l = ac_used b"
        "li_limit l = ac_limit b" "ac_used b \<le> ac_limit b"
      using assms(2) l by (auto simp: links_ok_def link_ok_def)
    obtain a where a: "A' (li_child l) = Some a" using same_tree_None [OF assms(1), of "li_child l"] b(1) by auto
    then have "ac_parent a = ac_parent b" using same_treeD [OF assms(1) a] b(1) by auto
    then show ?thesis using assms(3) [OF b(1) a] a b by (simp add: link_ok_def)
  qed
  moreover have "i \<in> li_child ` set L" if "A' i = Some a" "ac_parent a \<noteq> None" for i a
    using same_treeD [OF assms(1) that(1)] assms(2) that(2) by (auto simp: links_ok_def)
  ultimately show ?thesis using assms(2) by (auto simp: links_ok_def)
qed

lemma links_used:
  assumes "same_tree A' A" "links_ok A L"
    and step: "\<And>i a b. A i = Some b \<Longrightarrow> A' i = Some a \<Longrightarrow>
        ac_limit a = ac_limit b \<and> ac_used a = ac_used b + (if i \<in> set path then n else 0)"
    and room: "\<forall>l \<in> set L. li_child l \<in> set path \<longrightarrow> li_used l + n \<le> li_limit l"
  shows "links_ok A' (link_used path n L)"
proof -
  have children: "map li_child (link_used path n L) = map li_child L" by (simp add: link_used_def)
  have "link_ok A' (if li_child l \<in> set path then l\<lparr>li_used := li_used l + n\<rparr> else l)" if l: "l \<in> set L" for l
  proof -
    obtain b where b: "A (li_child l) = Some b" "ac_parent b = Some (li_parent l)" "li_used l = ac_used b"
        "li_limit l = ac_limit b" "ac_used b \<le> ac_limit b"
      using assms(2) l by (auto simp: links_ok_def link_ok_def)
    obtain a where a: "A' (li_child l) = Some a" using same_tree_None [OF assms(1), of "li_child l"] b(1) by auto
    then have "ac_parent a = ac_parent b" using same_treeD [OF assms(1) a] b(1) by auto
    then show ?thesis using step [OF b(1) a] a b room l by (auto simp: link_ok_def)
  qed
  moreover have "i \<in> li_child ` set L" if "A' i = Some a" "ac_parent a \<noteq> None" for i a
    using same_treeD [OF assms(1) that(1)] assms(2) that(2) by (auto simp: links_ok_def)
  ultimately show ?thesis using assms(2) children
    unfolding links_ok_def by (metis (no_types, lifting) image_set link_used_def list.set_map imageE)
qed

lemma limits_free:
  assumes "same_tree A' A" "limits_ok A L" "\<And>i. allotted L' i = allotted L i"
    and "\<And>i a b. A i = Some b \<Longrightarrow> A' i = Some a \<Longrightarrow>
        ac_allocated a = ac_allocated b \<and> (ac_limit a = ac_limit b \<or> ac_allocated b \<le> ac_limit a \<and> 0 \<le> ac_limit a)"
  shows "limits_ok A' L'"
  unfolding limits_ok_def
proof (intro allI impI)
  fix i a assume a: "A' i = Some a"
  then obtain b where b: "A i = Some b" using same_treeD [OF assms(1)] by blast
  have "0 \<le> ac_limit b \<and> ac_allocated b = allotted L i \<and> ac_allocated b \<le> ac_limit b"
    using assms(2) b unfolding limits_ok_def by blast
  then show "0 \<le> ac_limit a \<and> ac_allocated a = allotted L' i \<and> ac_allocated a \<le> ac_limit a"
    using assms(4) [OF b a] assms(3) [of i] by auto
qed

lemma allotted_link_used [simp]: "allotted (link_used path n L) i = allotted L i"
  unfolding allotted_def link_used_def map_map by (intro arg_cong [where f = sum_list] map_cong) auto

lemma allotted_unknown:
  assumes "tree_ok A" "links_ok A L" "A i = None"
  shows "allotted L i = 0"
proof -
  have "li_parent l \<noteq> i" if "l \<in> set L" for l
    using assms that by (fastforce simp: links_ok_def link_ok_def tree_ok_def)
  then have "allotted L i = (\<Sum>l\<leftarrow>L. 0)" unfolding allotted_def by (intro arg_cong [where f = sum_list] map_cong) auto
  then show ?thesis by simp
qed

section \<open>New accounts\<close>

lemma tree_new:
  assumes tree: "tree_ok A" and new: "A i = None" "0 < i" "ac_master a \<longrightarrow> ac_parent a = None"
    and parent: "\<And>q. ac_parent a = Some q \<Longrightarrow> q < i \<and> (\<exists>par. A q = Some par \<and> ac_root a = ac_root par)"
    and root: "ac_parent a = None \<Longrightarrow> ac_root a = i"
  shows "tree_ok (A(i \<mapsto> a))"
proof -
  let ?A = "A(i \<mapsto> a)"
  have old: "up_path ?A j = up_path A j" if "A j = Some b" for j b by (rule path_new [OF tree that new(1)])
  have "ac_root a = last (up_path ?A i)"
  proof (cases "ac_parent a")
    case None
    then show ?thesis using root up_path.simps [of ?A i] by simp
  next
    case (Some q)
    with parent obtain par where q: "q < i" "A q = Some par" "ac_root a = ac_root par" by blast
    have "0 < q" "ac_root par = last (up_path A q)" using tree q(2) by (auto simp: tree_ok_def)
    then show ?thesis using q Some old [OF q(2)] up_path.simps [of ?A i] by simp
  qed
  moreover have "0 < j \<and> (\<forall>q. ac_parent b = Some q \<longrightarrow> q < j \<and> ?A q \<noteq> None) \<and> ac_root b = last (up_path ?A j)
      \<and> (ac_master b \<longrightarrow> ac_parent b = None)" if "A j = Some b" for j b
    using tree that old [OF that] by (auto simp: tree_ok_def)
  moreover have "?A i = Some a" by simp
  ultimately show ?thesis unfolding tree_ok_def using new(2,3) parent
    by (metis fun_upd_apply option.distinct(1) option.inject)
qed

lemma links_new:
  assumes "links_ok A L" "A i = None" "ac_parent a = None"
  shows "links_ok (A(i \<mapsto> a)) L"
  using assms by (fastforce simp: links_ok_def link_ok_def)

lemma limits_new:
  assumes "tree_ok A" "links_ok A L" "limits_ok A L" "A i = None" "blank a"
  shows "limits_ok (A(i \<mapsto> a)) L"
proof -
  have "0 \<le> ac_limit b \<and> ac_allocated b = allotted L j \<and> ac_allocated b \<le> ac_limit b" if "A j = Some b" for j b
    using assms(3) that unfolding limits_ok_def by blast
  moreover have "0 \<le> ac_limit a \<and> ac_allocated a = allotted L i \<and> ac_allocated a \<le> ac_limit a"
    using assms(5) allotted_unknown [OF assms(1,2,4)] by (simp add: blank_def)
  ultimately show ?thesis unfolding limits_ok_def by (metis fun_upd_apply option.inject)
qed

lemma links_child:
  assumes ok: "links_ok A L" and new: "A i = None" "blank a" "ac_parent a = Some q"
  shows "links_ok (A(i \<mapsto> a)) (L @ [\<lparr>li_parent = q, li_child = i, li_limit = ac_limit a, li_used = 0\<rparr>])"
proof -
  have "i \<notin> li_child ` set L" using ok new(1) by (fastforce simp: links_ok_def link_ok_def)
  then show ?thesis using ok new unfolding links_ok_def by (auto simp: link_ok_def blank_def)
qed

lemma limits_child:
  assumes tree: "tree_ok A" and links: "links_ok A L" and ok: "limits_ok A L"
    and new: "A i = None" "blank a" and par: "A q = Some par" "ac_allocated par + ac_limit a \<le> ac_limit par"
  shows "limits_ok (adj q (\<lambda>x. x\<lparr>ac_allocated := ac_allocated x + ac_limit a\<rparr>) (A(i \<mapsto> a)))
      (L @ [\<lparr>li_parent = q, li_child = i, li_limit = ac_limit a, li_used = 0\<rparr>])"
  unfolding limits_ok_def
proof (intro allI impI)
  fix j b assume j: "adj q (\<lambda>x. x\<lparr>ac_allocated := ac_allocated x + ac_limit a\<rparr>) (A(i \<mapsto> a)) j = Some b"
  have old: "0 \<le> ac_limit x \<and> ac_allocated x = allotted L k \<and> ac_allocated x \<le> ac_limit x" if "A k = Some x" for k x
    using ok that unfolding limits_ok_def by blast
  have q: "q \<noteq> i" using par(1) new(1) by auto
  have more: "allotted (L @ [\<lparr>li_parent = q, li_child = i, li_limit = ac_limit a, li_used = 0\<rparr>]) j
      = allotted L j + (if j = q then ac_limit a else 0)"
    by (simp add: allotted_def)
  consider "j = q" | "j = i" | "j \<noteq> q" "j \<noteq> i" by blast
  then show "0 \<le> ac_limit b \<and> ac_allocated b
      = allotted (L @ [\<lparr>li_parent = q, li_child = i, li_limit = ac_limit a, li_used = 0\<rparr>]) j \<and> ac_allocated b \<le> ac_limit b"
  proof cases
    case 1
    then show ?thesis using j q par old [OF par(1)] more by (auto simp: adj_def)
  next
    case 2
    then show ?thesis using j q new allotted_unknown [OF tree links new(1)] more by (auto simp: adj_def blank_def)
  next
    case 3
    then have "A j = Some b" using j by (auto simp: adj_def)
    then show ?thesis using old [of j b] more 3 by simp
  qed
qed

section \<open>Every step keeps the books\<close>

text \<open>A posting to one account.\<close>

lemma money_post:
  assumes "money_ok A P" "A i = Some a" "0 \<le> ac_prepay (f a)" "0 \<le> ac_balance (f a)"
    and "ac_balance (f a) + ac_prepay (f a) = ac_balance a + ac_prepay a
      + (if k = ''recharge'' then n else 0) - (if k = ''consume_balance'' then n else 0)
      - (if k = ''credit_settlement'' then n else 0)"
    and "ac_used (f a) = ac_used a + (if k = ''credit_generate'' then n else 0) - (if k = ''credit_settlement'' then n else 0)"
  shows "money_ok (adj i f A) (add_mset (k, i, n) P)"
  using money_adj [OF assms(1,2), of f "{#(k, i, n)#}"] assms(3-) by simp

lemma open_top_ok:
  assumes "books_ok b" "book_accts b i = None" "0 < i" "blank a" "ac_parent a = None" "ac_root a = i"
  shows "books_ok (b\<lparr>book_accts := (book_accts b)(i \<mapsto> a)\<rparr>)"
proof -
  have "tree_ok ((book_accts b)(i \<mapsto> a))" using assms by (intro tree_new) (auto simp: books_ok_def)
  then show ?thesis using assms by (simp add: books_ok_def links_new limits_new debts_new money_new)
qed

lemma open_child_ok:
  assumes ok: "books_ok b" and new: "book_accts b i = None" "blank a" "ac_parent a = Some q" "\<not> ac_master a"
    and par: "book_accts b q = Some par" "q < i" "ac_root a = ac_root par" "ac_allocated par + ac_limit a \<le> ac_limit par"
  shows "books_ok (b\<lparr>book_accts := adj q (\<lambda>x. x\<lparr>ac_allocated := ac_allocated x + ac_limit a\<rparr>) ((book_accts b)(i \<mapsto> a)),
         book_links := book_links b @ [\<lparr>li_parent = q, li_child = i, li_limit = ac_limit a, li_used = 0\<rparr>]\<rparr>)"
proof -
  let ?A = "book_accts b" and ?f = "\<lambda>x. x\<lparr>ac_allocated := ac_allocated x + ac_limit a\<rparr>"
  have parts: "tree_ok ?A" "links_ok ?A (book_links b)" "limits_ok ?A (book_links b)" "debts_ok ?A (book_debts b)"
      "money_ok ?A (book_posts b)"
    using ok by (simp_all add: books_ok_def)
  have same: "same_tree (adj q ?f B) B" for B by (rule adj_same_tree) (simp add: shape_def)
  have "0 < q" using parts(1) par(1) by (auto simp: tree_ok_def)
  then have tree: "tree_ok (?A(i \<mapsto> a))" using parts(1) new par by (intro tree_new) auto
  have "tree_ok (adj q ?f (?A(i \<mapsto> a)))" by (rule same_tree_ok [OF same tree])
  moreover have "links_ok (adj q ?f (?A(i \<mapsto> a)))
      (book_links b @ [\<lparr>li_parent = q, li_child = i, li_limit = ac_limit a, li_used = 0\<rparr>])"
    by (rule links_free [OF same links_child [OF parts(2) new(1-3)]]) (auto simp: adj_Some split: if_splits)
  moreover have "debts_ok (adj q ?f (?A(i \<mapsto> a))) (book_debts b)"
    by (rule debts_free [OF same _ debts_new [OF parts(1,4) new(1,2)]]) (auto simp: adj_Some split: if_splits)
  moreover have "money_ok (adj q ?f (?A(i \<mapsto> a))) (book_posts b)"
    by (rule money_free [OF _ money_new [OF parts(5) new(1,2)]]) simp
  moreover note limits_child [OF parts(1-3) new(1,2) par(1,4)]
  ultimately show ?thesis by (simp add: books_ok_def)
qed

lemma set_limit_ok:
  assumes ok: "books_ok b" and a: "book_accts b i = Some a" "ac_parent a = None" "ac_allocated a \<le> n" "0 \<le> n"
  shows "books_ok (b\<lparr>book_accts := adj i (\<lambda>x. x\<lparr>ac_limit := n\<rparr>) (book_accts b)\<rparr>)"
proof -
  have same: "same_tree (adj i (\<lambda>x. x\<lparr>ac_limit := n\<rparr>) (book_accts b)) (book_accts b)"
    by (rule adj_same_tree) (simp add: shape_def)
  have parts: "tree_ok (book_accts b)" "links_ok (book_accts b) (book_links b)" "limits_ok (book_accts b) (book_links b)"
      "debts_ok (book_accts b) (book_debts b)" "money_ok (book_accts b) (book_posts b)"
    using ok by (simp_all add: books_ok_def)
  have "tree_ok (adj i (\<lambda>x. x\<lparr>ac_limit := n\<rparr>) (book_accts b))" by (rule same_tree_ok [OF same parts(1)])
  moreover have "links_ok (adj i (\<lambda>x. x\<lparr>ac_limit := n\<rparr>) (book_accts b)) (book_links b)"
    by (rule links_free [OF same parts(2)]) (use a in \<open>auto simp: adj_Some split: if_splits\<close>)
  moreover have "limits_ok (adj i (\<lambda>x. x\<lparr>ac_limit := n\<rparr>) (book_accts b)) (book_links b)"
    by (rule limits_free [OF same parts(3) refl]) (use a in \<open>auto simp: adj_Some split: if_splits\<close>)
  moreover have "debts_ok (adj i (\<lambda>x. x\<lparr>ac_limit := n\<rparr>) (book_accts b)) (book_debts b)"
    by (rule debts_free [OF same _ parts(4)]) (auto simp: adj_Some split: if_splits)
  moreover have "money_ok (adj i (\<lambda>x. x\<lparr>ac_limit := n\<rparr>) (book_accts b)) (book_posts b)"
    by (rule money_free [OF _ parts(5)]) simp
  ultimately show ?thesis by (simp add: books_ok_def)
qed

text \<open>Steps that post to one account: what the account must satisfy after the change.\<close>

lemma post_ok:
  assumes ok: "books_ok b" and a: "book_accts b i = Some a"
    and f: "\<And>x. shape (f x) = shape x \<and> ac_limit (f x) = ac_limit x \<and> ac_allocated (f x) = ac_allocated x
        \<and> ac_used (f x) = ac_used x"
    and money: "money_ok (adj i f (book_accts b)) P"
  shows "books_ok (b\<lparr>book_accts := adj i f (book_accts b), book_posts := P\<rparr>)"
proof -
  let ?A = "adj i f (book_accts b)"
  have same: "same_tree ?A (book_accts b)" by (rule adj_same_tree) (simp add: f)
  have parts: "tree_ok (book_accts b)" "links_ok (book_accts b) (book_links b)" "limits_ok (book_accts b) (book_links b)"
      "debts_ok (book_accts b) (book_debts b)"
    using ok by (simp_all add: books_ok_def)
  have "links_ok ?A (book_links b)" by (rule links_free [OF same parts(2)]) (auto simp: adj_Some f split: if_splits)
  moreover have "limits_ok ?A (book_links b)"
    by (rule limits_free [OF same parts(3) refl]) (auto simp: adj_Some f split: if_splits)
  moreover have "debts_ok ?A (book_debts b)"
    by (rule debts_free [OF same _ parts(4)]) (auto simp: adj_Some f split: if_splits)
  ultimately show ?thesis using same_tree_ok [OF same parts(1)] money by (simp add: books_ok_def)
qed

lemma purse: "books_ok b \<Longrightarrow> book_accts b i = Some a \<Longrightarrow> 0 \<le> ac_prepay a \<and> 0 \<le> ac_balance a"
  by (auto simp: books_ok_def money_ok_def)

lemma spend_ok:
  assumes ok: "books_ok b" and a: "book_accts b i = Some a" "0 < n" "n \<le> ac_balance a"
  shows "books_ok (b\<lparr>book_accts := adj i (\<lambda>x. x\<lparr>ac_balance := ac_balance x - n\<rparr>) (book_accts b),
         book_posts := add_mset (''consume_balance'', i, n) (book_posts b)\<rparr>)"
  using ok a purse [OF ok a(1)]
  by (intro post_ok [OF ok a(1)] money_post [where a = a]) (auto simp: shape_def books_ok_def)

lemma recharge_ok:
  assumes ok: "books_ok b" and a: "book_accts b i = Some a" "0 < n"
  shows "books_ok (b\<lparr>book_accts := adj i (\<lambda>x. x\<lparr>ac_prepay := ac_prepay x + n\<rparr>) (book_accts b),
         book_posts := add_mset (''recharge'', i, n) (book_posts b)\<rparr>)"
  using ok a purse [OF ok a(1)]
  by (intro post_ok [OF ok a(1)] money_post [where a = a]) (auto simp: shape_def books_ok_def)

lemma top_up_ok:
  assumes ok: "books_ok b" and a: "book_accts b i = Some a"
  shows "books_ok (b\<lparr>book_accts := adj i (\<lambda>x. x\<lparr>ac_balance := ac_balance x + ac_prepay x, ac_prepay := 0\<rparr>)
         (book_accts b)\<rparr>)"
proof -
  have "money_ok (adj i (\<lambda>x. x\<lparr>ac_balance := ac_balance x + ac_prepay x, ac_prepay := 0\<rparr>) (book_accts b)) (book_posts b)"
    using money_adj [of "book_accts b" "book_posts b" i a _ "{#}"] ok a purse [OF ok a]
    by (simp add: books_ok_def)
  from post_ok [OF ok a _ this] show ?thesis by (simp add: shape_def)
qed

lemma borrow_ok:
  assumes ok: "books_ok b" and a: "book_accts b i = Some a" "0 < n" "path = up_path (book_accts b) i"
    and new: "bid \<notin> de_batch ` set (book_debts b)"
    and room: "\<forall>l \<in> set (book_links b). li_child l \<in> set path \<longrightarrow> li_used l + n \<le> li_limit l"
  shows "books_ok (b\<lparr>book_accts := charge path n (book_accts b), book_links := link_used path n (book_links b),
         book_debts := book_debts b @ [\<lparr>de_batch = bid, de_owner = i, de_liable = i, de_total = n\<rparr>],
         book_posts := book_posts b + image_mset (\<lambda>j. (''credit_generate'', j, n)) (mset path)\<rparr>)"
proof -
  let ?A = "charge path n (book_accts b)"
  note same = charge_same_tree [of path n "book_accts b"]
  have parts: "tree_ok (book_accts b)" "links_ok (book_accts b) (book_links b)" "limits_ok (book_accts b) (book_links b)"
      "debts_ok (book_accts b) (book_debts b)" "money_ok (book_accts b) (book_posts b)"
    using ok by (simp_all add: books_ok_def)
  have "links_ok ?A (link_used path n (book_links b))"
    by (rule links_used [OF same parts(2) _ room]) (auto simp: charge_Some add_used_def)
  moreover have "limits_ok ?A (link_used path n (book_links b))"
    by (rule limits_free [OF same parts(3) allotted_link_used]) (auto simp: charge_Some add_used_def)
  moreover have "money_ok ?A (book_posts b + image_mset (\<lambda>j. (''credit_generate'', j, n)) (mset path))"
    by (rule money_charge [OF parts(5)]) (use a up_path_distinct path_known [OF parts(1) a(1)] in auto)
  moreover note debts_borrow [OF parts(1,4) a(1,2) new a(3)] same_tree_ok [OF same parts(1)]
  ultimately show ?thesis by (simp add: books_ok_def)
qed

text \<open>A settlement: the subject pays, its link is released, its debt moves on.\<close>

lemma settle_ok:
  assumes ok: "books_ok b" and d: "d \<in> set (book_debts b)" "de_liable d = i" "de_total d = n"
    and a: "book_accts b i = Some a" "n \<le> ac_prepay a"
    and links: "L = (if ac_parent a = None then book_links b else link_used [i] (- n) (book_links b))"
    and debts: "debts_ok (adj i (pay n) (book_accts b)) D"
  shows "books_ok (b\<lparr>book_accts := adj i (pay n) (book_accts b), book_links := L, book_debts := D,
         book_posts := add_mset (''credit_settlement'', i, n) (book_posts b)\<rparr>)"
proof -
  let ?A = "adj i (pay n) (book_accts b)"
  have same: "same_tree ?A (book_accts b)" by (rule adj_same_tree) simp
  have parts: "tree_ok (book_accts b)" "links_ok (book_accts b) (book_links b)" "limits_ok (book_accts b) (book_links b)"
      "debts_ok (book_accts b) (book_debts b)" "money_ok (book_accts b) (book_posts b)"
    using ok by (simp_all add: books_ok_def)
  have n: "0 < n" using parts(4) d by (auto simp: debts_ok_def)
  have "links_ok ?A L"
  proof (cases "ac_parent a")
    case None
    then show ?thesis unfolding links using a
      by (auto intro!: links_free [OF same parts(2)] simp: adj_Some pay_def split: if_splits)
  next
    case (Some q)
    have "\<forall>l \<in> set (book_links b). li_child l \<in> set [i] \<longrightarrow> li_used l + - n \<le> li_limit l"
      using parts(2) n by (auto simp: links_ok_def link_ok_def)
    then have "links_ok ?A (link_used [i] (- n) (book_links b))"
      by (intro links_used [OF same parts(2)]) (auto simp: adj_Some pay_def split: if_splits)
    then show ?thesis using Some links by simp
  qed
  moreover have "limits_ok ?A L"
    by (rule limits_free [OF same parts(3)]) (auto simp: links adj_Some pay_def split: if_splits)
  moreover have "money_ok ?A (add_mset (''credit_settlement'', i, n) (book_posts b))"
    by (rule money_post [OF parts(5) a(1)]) (use a purse [OF ok a(1)] in \<open>auto simp: pay_def\<close>)
  ultimately show ?thesis using same_tree_ok [OF same parts(1)] debts by (simp add: books_ok_def)
qed

theorem book_step_ok: "book_step b b' \<Longrightarrow> books_ok b \<Longrightarrow> books_ok b'"
proof (induction rule: book_step.induct)
  case (settle_up d b i n a q)
  then show ?case
    by (intro settle_ok) (auto simp: books_ok_def intro!: debts_settle_up)
next
  case (settle_off d b i n a)
  have "books_ok (b\<lparr>book_accts := adj i (pay n) (book_accts b), book_links := book_links b,
         book_debts := filter (\<lambda>x. de_batch x \<noteq> de_batch d) (book_debts b),
         book_posts := add_mset (''credit_settlement'', i, n) (book_posts b)\<rparr>)"
    using settle_off by (intro settle_ok) (auto simp: books_ok_def intro!: debts_settle_off)
  then show ?case by simp
qed (simp_all add: open_top_ok open_child_ok set_limit_ok spend_ok recharge_ok top_up_ok borrow_ok)

lemma book_steps_ok: "book_step\<^sup>*\<^sup>* b b' \<Longrightarrow> books_ok b \<Longrightarrow> books_ok b'"
  by (induction rule: rtranclp_induct) (auto intro: book_step_ok)

end
