(* ===== verification/Settlement.thy ===== *)
theory Settlement
  imports Batches
begin

text \<open>
  The settlement of credit batches (\<open>batch_service.py\<close>) and the recharge of an agent
  (\<open>ledger_service.py\<close>), which settles the oldest batches the agent still owes before it tops up
  the balance; and the requests of the back office as the routes of
  \<open>h5_backend/routers/admin_panel.py\<close> and \<open>admin_system.py\<close> pass them on.
\<close>

section \<open>One settlement\<close>

definition pending_credit :: "batch \<Rightarrow> bool" where
  "pending_credit b \<longleftrightarrow> ba_payment b = ''credit'' \<and> ba_settlement b = ''pending''"

text \<open>The debt of the subject is gone from its account.\<close>

definition pay_off :: "int \<Rightarrow> admin \<Rightarrow> admin" where
  "pay_off amount a = a\<lparr>ad_prepay := ad_prepay a - amount, ad_used := ad_used a - amount\<rparr>"

definition move_up :: "admin \<Rightarrow> batch \<Rightarrow> batch" where
  "move_up next b =
     b\<lparr>ba_liable := Some (ad_id next), ba_counter := ad_parent next, ba_payment := ''credit'',
       ba_settlement := ''pending''\<rparr>"

definition settle_up :: "batch \<Rightarrow> batch" where
  "settle_up b =
     b\<lparr>ba_liable := None, ba_counter := None, ba_payment := ''paid'', ba_settlement := ''settled''\<rparr>"

definition release_link :: "int \<Rightarrow> credit_row \<Rightarrow> credit_row" where
  "release_link amount r = r\<lparr>cl_used := max 0 (cl_used r - amount)\<rparr>"

definition settlement_entry :: "string \<Rightarrow> admin \<Rightarrow> int \<Rightarrow> batch \<Rightarrow> string \<Rightarrow> int \<Rightarrow> ledger" where
  "settlement_entry scope a counter b req op =
     entry scope a (Some counter) ''credit_settlement'' ''in'' (ba_total b) (Some (ba_id b)) (Some req) op"

definition apply_settlement_for_batch ::
  "admin \<Rightarrow> batch \<Rightarrow> int \<Rightarrow> string \<Rightarrow> panel \<Rightarrow> http_error + panel" where
  "apply_settlement_for_batch subject b op req p =
     (let amount = ba_total b
      in if ba_payment b \<noteq> ''credit'' \<or> ba_settlement b = ''settled'' then Inl (Http 400 ''<not a pending credit batch>'')
         else if int_or (ba_liable b) 0 \<noteq> ad_id subject then Inl (Http 400 ''<not liable>'')
         else if ad_prepay subject < amount then Inl (Http 400 ''<prepay too low>'')
         else if ad_used subject < amount then Inl (Http 400 ''<debt too low>'')
         else
           let p1 = upd_admin (ad_id subject) (pay_off amount) p; s1 = pay_off amount subject
           in case ad_parent subject of
                None \<Rightarrow>
                  Inr (add_ledger (settlement_entry ''platform'' s1 op b req op) (upd_batch (ba_id b) settle_up p1))
              | Some q \<Rightarrow>
                  (case get_credit q (ad_id subject) p1 of
                     None \<Rightarrow> Inl (Http 400 ''<no credit row>'')
                   | Some row \<Rightarrow>
                       (case get_admin q p1 of
                          None \<Rightarrow> Inl (Http 400 ''<no next account>'')
                        | Some next \<Rightarrow>
                            Inr (upd_batch (ba_id b) (move_up next)
                              (add_ledger (settlement_entry ''channel'' s1 q b req op)
                                (upd_credit q (ad_id subject) (release_link amount) p1))))))"

text \<open>A drawn request number.\<close>

definition draw_id :: "panel \<Rightarrow> panel \<times> string" where
  "draw_id p = (p\<lparr>ids_drawn := Suc (ids_drawn p)\<rparr>, random_id p (ids_drawn p))"

definition settle_credit_batch :: "admin \<Rightarrow> string \<Rightarrow> panel \<Rightarrow> http_error + panel" where
  "settle_credit_batch ca batch_id p =
     (if strip batch_id = [] then Inl (Http 400 ''<batch_id>'')
      else case get_admin (ad_id ca) p of
        None \<Rightarrow> Inl unhandled
      | Some op \<Rightarrow>
          (case get_batch (strip batch_id) p of
             None \<Rightarrow> Inl (Http 404 ''<batch not found>'')
           | Some b \<Rightarrow>
               if ba_owner b \<notin> set (visible_account_ids op p) then Inl (Http 403 ''<batch not visible>'')
               else if int_or (ba_liable b) 0 \<noteq> ad_id op then Inl (Http 403 ''<not liable for the batch>'')
               else let (p1, rid) = draw_id p
                    in apply_settlement_for_batch op b (ad_id op) (''direct-settle-'' @ take 20 rid) p1))"

section \<open>Recharge\<close>

text \<open>The batches a recharge settles, oldest first.\<close>

definition own_pending_batches :: "int \<Rightarrow> panel \<Rightarrow> batch list" where
  "own_pending_batches i p =
     sort_key (\<lambda>b. (ba_created b, ba_id b))
       (filter (\<lambda>b. ba_owner b = i \<and> ba_liable b = Some i \<and> pending_credit b) (batches p))"

definition has_pending_credit_batches :: "int \<Rightarrow> panel \<Rightarrow> bool" where
  "has_pending_credit_batches i p = list_ex (\<lambda>b. ba_liable b = Some i \<and> pending_credit b) (batches p)"

text \<open>The loop: amount and numbers of the settled batches, until the prepaid money is short.\<close>

fun settle_batches ::
  "int \<Rightarrow> int \<Rightarrow> batch list \<Rightarrow> int \<Rightarrow> string list \<Rightarrow> panel \<Rightarrow> http_error + panel \<times> int \<times> string list" where
  "settle_batches i op [] paid done_ids p = Inr (p, paid, done_ids)"
| "settle_batches i op (b # bs) paid done_ids p =
     (case get_admin i p of
        None \<Rightarrow> Inl unhandled
      | Some s \<Rightarrow>
          if max 0 (ba_total b) \<le> 0 then settle_batches i op bs paid done_ids p
          else if ad_prepay s < max 0 (ba_total b) then Inr (p, paid, done_ids)
          else let (p1, rid) = draw_id p
               in and_then (apply_settlement_for_batch s b op (''direct-recharge-settle-'' @ take 20 rid) p1)
                    (settle_batches i op bs (paid + max 0 (ba_total b)) (done_ids @ [ba_id b])))"

definition auto_settle_credit_batches :: "int \<Rightarrow> int \<Rightarrow> panel \<Rightarrow> http_error + panel \<times> int \<times> string list" where
  "auto_settle_credit_batches i op p =
     (case get_admin i p of
        None \<Rightarrow> Inl unhandled
      | Some s \<Rightarrow> if ad_prepay s \<le> 0 then Inr (p, 0, [])
                  else settle_batches i op (own_pending_batches i p) 0 [] p)"

text \<open>What is left of the recharge becomes balance, unless the agent still owes a batch.\<close>

definition top_up_balance :: "int \<Rightarrow> panel \<Rightarrow> panel" where
  "top_up_balance i p =
     (if has_pending_credit_batches i p then p
      else upd_admin i (\<lambda>a. if 0 < ad_prepay a
             then a\<lparr>ad_balance := ad_balance a + ad_prepay a, ad_prepay := 0\<rparr> else a) p)"

definition recharge_entry :: "admin \<Rightarrow> admin \<Rightarrow> int \<Rightarrow> ledger" where
  "recharge_entry op s amount =
     \<lparr>le_scope = (if is_staff op then ''platform'' else ''channel''), le_account = ad_id s,
      le_counter = (if ad_id s \<noteq> ad_id op then Some (ad_id op) else None), le_type = ''recharge'',
      le_direction = ''in'', le_amount = amount, le_balance_after = Some (ad_balance s),
      le_used_after = Some (ad_used s), le_batch = None, le_request = None, le_operator = Some (ad_id op)\<rparr>"

definition create_recharge_entry :: "admin \<Rightarrow> int \<Rightarrow> int \<Rightarrow> panel \<Rightarrow> http_error + panel" where
  "create_recharge_entry ca i amount p =
     (if amount \<le> 0 then Inl (Http 400 ''<amount>'')
      else case get_admin (ad_id ca) p of
        None \<Rightarrow> Inl unhandled
      | Some op \<Rightarrow>
          and_then (ensure_visible_account op i p) (\<lambda>s.
            if \<not> is_agent s then Inl (Http 400 ''<agents only>'')
            else if \<not> is_staff op \<and> int_or (ad_parent s) 0 \<noteq> ad_id op then Inl (Http 403 ''<not a direct subordinate>'')
            else
              and_then (auto_settle_credit_batches i (ad_id op)
                  (upd_admin i (\<lambda>a. a\<lparr>ad_prepay := ad_prepay a + amount\<rparr>) p))
                (\<lambda>(p1, paid, ids).
                   let p2 = top_up_balance i p1
                   in Inr (add_ledger (recharge_entry (live op p2) (live s p2) amount) p2))))"

section \<open>Prices\<close>

definition update_pricing_plan :: "string \<Rightarrow> int \<Rightarrow> panel \<Rightarrow> http_error + panel" where
  "update_pricing_plan plan_code price p =
     (case get_price_plan plan_code p of
        None \<Rightarrow> Inl (Http 404 ''<plan not found>'')
      | Some _ \<Rightarrow>
          Inr (p\<lparr>price_plans := upd_where (\<lambda>x. p_code x = plan_code) (\<lambda>x. x\<lparr>p_price := price\<rparr>) (price_plans p)\<rparr>))"

end
