(* ===== verification/PanelRequests.thy ===== *)
theory PanelRequests
  imports Settlement
begin

text \<open>
  The requests of the back office that write: what the routes of
  \<open>h5_backend/routers/admin_panel.py\<close> and \<open>admin_rbac.py\<close> accept (\<open>payload_ok\<close>, the constraints of
  the request models), the permissions they ask for (\<open>permissions_of\<close>) and the operation they
  call (\<open>handle\<close>). A password comes with its hash, the value of \<open>get_password_hash\<close>.
\<close>

datatype panel_request =
    CreateMaster string string string string string int bool "string option" "string option"
  | SetMasterLimit int int "bool option"
  | SetWhitelist int bool
  | CreateChild string string string string string int "string option" "string option"
  | SetMode int string
  | SetPrice string int
  | Generate string int string "int option" string
  | Recharge int int
  | Settle string
  | CreateRole string
  | UpdateRole int "string option"
  | SetRolePermissions int "string list"
  | CreateStaff string string string string "string list" "string option" "string option"
  | UpdateStaff int "string option" "string option" "string option" "string option"
  | SetAccountRoles int "string list"
  | ResetPassword int string string

definition len_in :: "string \<Rightarrow> nat \<Rightarrow> nat \<Rightarrow> bool" where
  "len_in s lo hi \<longleftrightarrow> lo \<le> length s \<and> length s \<le> hi"

definition opt_len_in :: "string option \<Rightarrow> nat \<Rightarrow> nat \<Rightarrow> bool" where
  "opt_len_in s lo hi \<longleftrightarrow> (case s of None \<Rightarrow> True | Some t \<Rightarrow> len_in t lo hi)"

fun payload_ok :: "panel_request \<Rightarrow> bool" where
  "payload_ok (CreateMaster province user pw hash disp credit white contact phone) \<longleftrightarrow>
     len_in user 3 64 \<and> len_in pw 6 128 \<and> len_in disp 1 100 \<and> 0 \<le> credit
   \<and> opt_len_in contact 0 100 \<and> opt_len_in phone 0 50"
| "payload_ok (SetMasterLimit i credit white) \<longleftrightarrow> 0 \<le> credit"
| "payload_ok (SetWhitelist i white) \<longleftrightarrow> True"
| "payload_ok (CreateChild user pw hash disp mode credit contact phone) \<longleftrightarrow>
     len_in user 3 64 \<and> len_in pw 6 128 \<and> len_in disp 1 100 \<and> len_in mode 1 20 \<and> 0 \<le> credit
   \<and> opt_len_in contact 0 100 \<and> opt_len_in phone 0 50"
| "payload_ok (SetMode i mode) \<longleftrightarrow> len_in mode 1 20"
| "payload_ok (SetPrice plan price) \<longleftrightarrow> 1 \<le> price"
| "payload_ok (Generate plan quantity prefix valid source) \<longleftrightarrow>
     len_in plan 1 32 \<and> 1 \<le> quantity \<and> quantity \<le> 500 \<and> length prefix \<le> 20
   \<and> (case valid of None \<Rightarrow> True | Some n \<Rightarrow> 1 \<le> n) \<and> len_in source 1 20"
| "payload_ok (Recharge i amount) \<longleftrightarrow> 1 \<le> i \<and> 1 \<le> amount"
| "payload_ok (Settle batch) \<longleftrightarrow> True"
| "payload_ok (CreateRole key) \<longleftrightarrow> len_in key 1 64"
| "payload_ok (UpdateRole i status) \<longleftrightarrow> opt_len_in status 1 20"
| "payload_ok (SetRolePermissions i cs) \<longleftrightarrow> True"
| "payload_ok (CreateStaff user pw hash disp keys contact phone) \<longleftrightarrow>
     len_in user 3 64 \<and> len_in pw 6 128 \<and> len_in disp 1 100
   \<and> opt_len_in contact 0 100 \<and> opt_len_in phone 0 50"
| "payload_ok (UpdateStaff i disp contact phone status) \<longleftrightarrow>
     opt_len_in disp 1 100 \<and> opt_len_in status 1 20 \<and> opt_len_in contact 0 100 \<and> opt_len_in phone 0 50"
| "payload_ok (SetAccountRoles i keys) \<longleftrightarrow> keys \<noteq> []"
| "payload_ok (ResetPassword i pw hash) \<longleftrightarrow> len_in pw 6 128"

fun permissions_of :: "panel_request \<Rightarrow> string list" where
  "permissions_of (CreateMaster province user pw hash disp credit white contact phone) = [''agents.master.create'']"
| "permissions_of (SetMasterLimit i credit white) = [''agents.credit.master.write'']"
| "permissions_of (SetWhitelist i white) = [''agents.credit.master.write'']"
| "permissions_of (CreateChild user pw hash disp mode credit contact phone) = [''agents.child.create'']"
| "permissions_of (SetMode i mode) = [''agents.write'']"
| "permissions_of (SetPrice plan price) = [''pricing.write'']"
| "permissions_of (Generate plan quantity prefix valid source) = [''batches.generate'']"
| "permissions_of (Recharge i amount) = [''agents.write'']"
| "permissions_of (Settle batch) = [''agents.write'']"
| "permissions_of (CreateRole key) = [''rbac.roles.write'']"
| "permissions_of (UpdateRole i status) = [''rbac.roles.write'']"
| "permissions_of (SetRolePermissions i cs) = [''rbac.roles.write'', ''rbac.permissions.read'']"
| "permissions_of (CreateStaff user pw hash disp keys contact phone) = [''admin_accounts.write'']"
| "permissions_of (UpdateStaff i disp contact phone status) = [''admin_accounts.write'']"
| "permissions_of (SetAccountRoles i keys) = [''admin_accounts.write'', ''rbac.roles.read'']"
| "permissions_of (ResetPassword i pw hash) = [''admin_accounts.reset_password'']"

definition only_panel :: "http_error + panel \<times> 'a \<Rightarrow> http_error + panel" where
  "only_panel r = and_then r (\<lambda>(p, _). Inr p)"

fun handle :: "string \<Rightarrow> admin \<Rightarrow> datetime \<Rightarrow> panel_request \<Rightarrow> panel \<Rightarrow> (http_error + panel) option" where
  "handle site ca now (CreateMaster province user pw hash disp credit white contact phone) p =
     Some (if province \<noteq> ad_province ca then Inl (Http 403 ''<other province>'')
           else only_panel (create_master_agent ca user pw hash disp credit white contact phone p))"
| "handle site ca now (SetMasterLimit i credit white) p = Some (set_master_credit_limit ca i credit white p)"
| "handle site ca now (SetWhitelist i white) p = Some (set_credit_whitelist ca i white p)"
| "handle site ca now (CreateChild user pw hash disp mode credit contact phone) p =
     Some (only_panel (create_child_agent ca user hash disp mode credit contact phone p))"
| "handle site ca now (SetMode i mode) p = Some (set_settlement_mode ca i mode p)"
| "handle site ca now (SetPrice plan price) p = Some (update_pricing_plan plan price p)"
| "handle site ca now (Generate plan quantity prefix valid source) p =
     map_option only_panel (generate_card_batch site ca plan quantity prefix valid source now p)"
| "handle site ca now (Recharge i amount) p = Some (create_recharge_entry ca i amount p)"
| "handle site ca now (Settle batch) p = Some (settle_credit_batch ca batch p)"
| "handle site ca now (CreateRole key) p = Some (only_panel (create_role key p))"
| "handle site ca now (UpdateRole i status) p = Some (update_role i status p)"
| "handle site ca now (SetRolePermissions i cs) p = Some (update_role_permissions i cs p)"
| "handle site ca now (CreateStaff user pw hash disp keys contact phone) p =
     Some (only_panel (create_admin_account ca user pw hash disp keys ''staff'' None contact phone p))"
| "handle site ca now (UpdateStaff i disp contact phone status) p =
     Some (update_admin_account i disp contact phone status p)"
| "handle site ca now (SetAccountRoles i keys) p = Some (update_admin_account_roles i keys p)"
| "handle site ca now (ResetPassword i pw hash) p = Some (reset_admin_account_password i pw hash p)"

text \<open>The settings of the installation, and its start (\<open>app/lifespan.py\<close>).\<close>

record settings =
  st_province :: string
  st_username :: string
  st_password :: string
  st_hash :: string
  st_display :: string

definition panel_start :: "settings \<Rightarrow> panel \<Rightarrow> panel" where
  "panel_start st p =
     ensure_builtin_rbac
       (bootstrap_super_admin (st_username st) (st_password st) (st_hash st) (st_display st) (st_province st) p)"

text \<open>
  A request of account \<open>i\<close> that is refused, fails or never returns leaves the database as it was.
\<close>

definition panel_serve :: "settings \<Rightarrow> int \<Rightarrow> datetime \<Rightarrow> panel_request \<Rightarrow> panel \<Rightarrow> panel" where
  "panel_serve st i now rq p =
     (if \<not> payload_ok rq then p
      else case require_admin_permissions (permissions_of rq) i p of
        Inl _ \<Rightarrow> p
      | Inr ca \<Rightarrow> (case handle (st_province st) ca now rq p of Some (Inr p') \<Rightarrow> p' | _ \<Rightarrow> p))"

datatype panel_event = Restart | Request int datetime panel_request

fun panel_step :: "settings \<Rightarrow> panel_event \<Rightarrow> panel \<Rightarrow> panel" where
  "panel_step st Restart p = panel_start st p"
| "panel_step st (Request i now rq) p = panel_serve st i now rq p"

definition panel_run :: "settings \<Rightarrow> panel_event list \<Rightarrow> panel \<Rightarrow> panel" where
  "panel_run st es p = fold (panel_step st) es p"

text \<open>The database of a new installation: nothing but price plans.\<close>

definition new_panel :: "(nat \<Rightarrow> string) \<Rightarrow> (nat \<Rightarrow> string) \<Rightarrow> price_plan list \<Rightarrow> panel" where
  "new_panel ids codes offers = (empty_panel ids codes)\<lparr>price_plans := offers\<rparr>"

end
