(* ===== verification/PanelBooks.thy ===== *)
theory PanelBooks
  imports BookFacts PanelRequests
begin

text \<open>
  The back office keeps the books: \<open>books_of\<close> reads them off the tables, and every operation of
  the code is a sequence of movements of \<open>Books\<close>. The locale \<open>ledgered\<close> is that contract.
\<close>

section \<open>The books of a database\<close>

definition acct_of :: "admin \<Rightarrow> acct" where
  "acct_of a = \<lparr>ac_parent = ad_parent a, ac_root = root_of a, ac_master = is_master_agent a, ac_limit = ad_limit a,
     ac_allocated = ad_allocated a, ac_used = ad_used a, ac_prepay = ad_prepay a, ac_balance = ad_balance a\<rparr>"

definition link_of :: "credit_row \<Rightarrow> link" where
  "link_of r = \<lparr>li_parent = cl_parent r, li_child = cl_child r, li_limit = cl_limit r, li_used = cl_used r\<rparr>"

definition debt_of :: "batch \<Rightarrow> open_debt" where
  "debt_of b = \<lparr>de_batch = ba_id b, de_owner = ba_owner b, de_liable = int_or (ba_liable b) 0, de_total = ba_total b\<rparr>"

definition post_of :: "ledger \<Rightarrow> posting" where
  "post_of l = (le_type l, le_account l, le_amount l)"

definition accts_of :: "panel \<Rightarrow> accts" where
  "accts_of p = (\<lambda>i. map_option acct_of (get_admin i p))"

definition books_of :: "panel \<Rightarrow> books" where
  "books_of p = \<lparr>book_accts = accts_of p, book_links = map link_of (credit_rows p),
     book_debts = map debt_of (filter pending_credit (batches p)), book_posts = mset (map post_of (ledgers p))\<rparr>"

text \<open>What the tables keep besides: free numbers, keys, and batches that are owed or paid.\<close>

definition batch_ok :: "batch \<Rightarrow> bool" where
  "batch_ok b \<longleftrightarrow> (if pending_credit b then ba_liable b \<noteq> None
     else ba_payment b = ''paid'' \<and> ba_settlement b = ''settled'' \<and> ba_liable b = None)"

definition rows_kept :: "panel \<Rightarrow> bool" where
  "rows_kept p \<longleftrightarrow> 0 < next_admin p \<and> (\<forall>a \<in> set (admins p). ad_id a < next_admin p) \<and> distinct (map ad_id (admins p))
     \<and> distinct (map ba_id (batches p)) \<and> (\<forall>b \<in> set (batches p). batch_ok b)"

definition add_posts :: "posting multiset \<Rightarrow> books \<Rightarrow> books" where
  "add_posts Q b = b\<lparr>book_posts := book_posts b + Q\<rparr>"

lemma add_posts_sel [simp]:
  "book_accts (add_posts Q b) = book_accts b" "book_links (add_posts Q b) = book_links b"
  "book_debts (add_posts Q b) = book_debts b" "book_posts (add_posts Q b) = book_posts b + Q"
  "add_posts {#} b = b"
  by (simp_all add: add_posts_def)

lemma books_of_sel [simp]:
  "book_accts (books_of p) = accts_of p" "book_links (books_of p) = map link_of (credit_rows p)"
  "book_debts (books_of p) = map debt_of (filter pending_credit (batches p))"
  "book_posts (books_of p) = mset (map post_of (ledgers p))"
  by (simp_all add: books_of_def)

lemma books_eqI:
  fixes b b' :: books
  assumes "book_accts b = book_accts b'" "book_links b = book_links b'"
    "book_debts b = book_debts b'" "book_posts b = book_posts b'"
  shows "b = b'"
  using assms by simp

lemma accts_Some: "accts_of p i = Some x \<longleftrightarrow> (\<exists>a. get_admin i p = Some a \<and> x = acct_of a)"
  by (auto simp: accts_of_def)

lemma accts_None: "accts_of p i = None \<longleftrightarrow> get_admin i p = None"
  by (simp add: accts_of_def)

section \<open>The contract\<close>

locale ledgered =
  fixes accepted :: bool and operation :: "panel \<Rightarrow> (http_error + panel) option"
  assumes keeps: "accepted \<Longrightarrow> rows_kept p \<Longrightarrow> books_ok (books_of p) \<Longrightarrow> operation p = Some (Inr p') \<Longrightarrow>
      rows_kept p' \<and> book_step\<^sup>*\<^sup>* (books_of p) (books_of p')"
begin

lemma books:
  "accepted \<Longrightarrow> rows_kept p \<Longrightarrow> books_ok (books_of p) \<Longrightarrow> operation p = Some (Inr p') \<Longrightarrow> books_ok (books_of p')"
  using keeps book_steps_ok by blast

end

text \<open>An operation that touches no account, debt or entry.\<close>

lemma ledgered_same:
  assumes "\<And>p p'. operation p = Some (Inr p') \<Longrightarrow> rows_kept p \<Longrightarrow> rows_kept p' \<and> books_of p' = books_of p"
  shows "ledgered accepted operation"
proof
  fix p p' assume "rows_kept p" "operation p = Some (Inr p')"
  from assms [OF this(2,1)] show "rows_kept p' \<and> book_step\<^sup>*\<^sup>* (books_of p) (books_of p')" by simp
qed

section \<open>Writes, seen by the books\<close>

lemma accts_upd_admin:
  assumes "\<And>a. ad_id (f a) = ad_id a" "\<And>a. acct_of (f a) = g (acct_of a)"
  shows "accts_of (upd_admin i f p) = adj i g (accts_of p)"
  by (rule ext) (simp add: accts_of_def adj_def get_admin_upd [of f, OF assms(1)] map_option.compositionality
      comp_def assms(2))

lemma books_upd_admin:
  assumes "\<And>a. ad_id (f a) = ad_id a" "\<And>a. acct_of (f a) = g (acct_of a)"
  shows "books_of (upd_admin i f p) = (books_of p)\<lparr>book_accts := adj i g (accts_of p)\<rparr>"
  using accts_upd_admin [of f g i p, OF assms] by (simp add: books_of_def) (simp add: upd_admin_def)

lemma books_same_admin:
  assumes "\<And>a. ad_id (f a) = ad_id a" "\<And>a. acct_of (f a) = acct_of a"
  shows "books_of (upd_admin i f p) = books_of p"
  using books_upd_admin [of f id i p] assms by (simp add: adj_def option.map_id fun_upd_idem)

lemma all_ids:
  fixes S T :: "admin set"
  assumes "ad_id ` S = ad_id ` T"
  shows "(\<forall>a \<in> S. ad_id a < n) \<longleftrightarrow> (\<forall>a \<in> T. ad_id a < n)"
proof -
  have "(\<forall>i \<in> ad_id ` S. i < n) \<longleftrightarrow> (\<forall>i \<in> ad_id ` T. i < n)" by (simp only: assms)
  then show ?thesis by simp
qed

lemma rows_upd_admin:
  assumes "\<And>a. ad_id (f a) = ad_id a"
  shows "rows_kept (upd_admin i f p) = rows_kept p"
proof -
  have ids: "map ad_id (admins (upd_admin i f p)) = map ad_id (admins p)"
    by (simp add: upd_admin_def map_upd_where assms)
  then have "ad_id ` set (admins (upd_admin i f p)) = ad_id ` set (admins p)" by (metis set_map)
  then have "(\<forall>a \<in> set (admins (upd_admin i f p)). ad_id a < next_admin p)
      \<longleftrightarrow> (\<forall>a \<in> set (admins p). ad_id a < next_admin p)" by (rule all_ids)
  with ids show ?thesis by (simp add: rows_kept_def upd_admin_def)
qed

lemma books_add_ledger: "books_of (add_ledger l p) = add_posts {#post_of l#} (books_of p)"
  by (rule books_eqI) (simp_all add: add_ledger_def accts_of_def get_admin_def)

lemma rows_add_ledger [simp]: "rows_kept (add_ledger l p) = rows_kept p"
  by (simp add: rows_kept_def add_ledger_def)

lemma get_admin_add_ledger [simp]: "get_admin i (add_ledger l p) = get_admin i p"
  by (simp add: get_admin_def add_ledger_def)

lemma rows_draw_id [simp]: "rows_kept (fst (draw_id p)) = rows_kept p" "books_of (fst (draw_id p)) = books_of p"
    "get_admin i (fst (draw_id p)) = get_admin i p"
  by (simp_all add: rows_kept_def draw_id_def books_of_def accts_of_def get_admin_def)

text \<open>A new account.\<close>

lemma fresh_admin: "rows_kept p \<Longrightarrow> get_admin (next_admin p) p = None"
  by (auto simp: rows_kept_def get_admin_def find_row_None)

lemma get_admin_add:
  assumes "rows_kept p" "add_admin a p = (p1, i)"
  shows "get_admin j p1 = (if j = i then Some (a\<lparr>ad_id := i\<rparr>) else get_admin j p)"
  using assms fresh_admin [OF assms(1)]
  by (auto simp: add_admin_def get_admin_def find_row_append split: option.split)

lemma rows_credit [simp]: "rows_kept (p\<lparr>credit_rows := rs\<rparr>) = rows_kept p"
    "accts_of (p\<lparr>credit_rows := rs\<rparr>) = accts_of p"
  by (simp_all add: rows_kept_def accts_of_def get_admin_def)

lemma accts_add_admin:
  assumes "rows_kept p" "add_admin a p = (p1, i)"
  shows "accts_of p1 = (accts_of p)(i \<mapsto> acct_of (a\<lparr>ad_id := i\<rparr>))" "i = next_admin p" "rows_kept p1"
    "credit_rows p1 = credit_rows p" "batches p1 = batches p" "ledgers p1 = ledgers p"
proof -
  have p1: "p1 = p\<lparr>admins := admins p @ [a\<lparr>ad_id := next_admin p\<rparr>], next_admin := next_admin p + 1\<rparr>"
    and i: "i = next_admin p" using assms(2) unfolding add_admin_def by auto
  show "accts_of p1 = (accts_of p)(i \<mapsto> acct_of (a\<lparr>ad_id := i\<rparr>))"
    using fresh_admin [OF assms(1)]
    by (auto simp: p1 i accts_of_def get_admin_def find_row_append split: option.split)
  show "rows_kept p1" using assms(1) by (auto simp: p1 rows_kept_def less_imp_le)
qed (use assms(2) in \<open>auto simp: add_admin_def\<close>)

section \<open>Accounts\<close>

lemma acct_of_sel [simp]:
  "ac_parent (acct_of a) = ad_parent a" "ac_root (acct_of a) = root_of a" "ac_master (acct_of a) = is_master_agent a"
  "ac_limit (acct_of a) = ad_limit a" "ac_allocated (acct_of a) = ad_allocated a" "ac_used (acct_of a) = ad_used a"
  "ac_prepay (acct_of a) = ad_prepay a" "ac_balance (acct_of a) = ad_balance a"
  by (simp_all add: acct_of_def)

text \<open>What an operation returns, followed through its checks.\<close>

lemma if_Inl [simp]: "(if c then Inl e else r) = Inr y \<longleftrightarrow> \<not> c \<and> r = Inr y"
  by simp

lemma bind_role_frame [simp]:
  "rows_kept (bind_default_role i k p) = rows_kept p" "books_of (bind_default_role i k p) = books_of p"
  "accts_of (bind_default_role i k p) = accts_of p" "batches (bind_default_role i k p) = batches p"
  "ledgers (bind_default_role i k p) = ledgers p" "credit_rows (bind_default_role i k p) = credit_rows p"
  "get_admin j (bind_default_role i k p) = get_admin j p"
  by (simp_all add: bind_default_role_def rows_kept_def books_of_def accts_of_def get_admin_def split: option.splits)

lemma open_top_step:
  assumes rows: "rows_kept p" and add: "add_admin a p = (p1, i)"
    and a: "blank (acct_of a)" "ad_parent a = None" "root_of (a\<lparr>ad_id := i\<rparr>) = i"
  shows "book_step (books_of p) (books_of p1)"
proof -
  note add = accts_add_admin [OF rows add]
  have "books_of p1 = (books_of p)\<lparr>book_accts := (accts_of p)(i \<mapsto> acct_of (a\<lparr>ad_id := i\<rparr>))\<rparr>"
    by (rule books_eqI) (simp_all add: add)
  moreover have "book_step (books_of p) ((books_of p)\<lparr>book_accts := (book_accts (books_of p))(i \<mapsto> acct_of (a\<lparr>ad_id := i\<rparr>))\<rparr>)"
  proof (rule book_step.open_top)
    show "book_accts (books_of p) i = None" using fresh_admin [OF rows] add(2) by (simp add: accts_None)
    show "0 < i" using rows add(2) by (simp add: rows_kept_def)
  qed (use a in \<open>simp_all add: blank_def\<close>)
  ultimately show ?thesis by simp
qed

lemma ledgered_master:
  "ledgered (0 \<le> credit) (\<lambda>p. Some (only_panel (create_master_agent ca user pw hash disp credit white contact phone p)))"
proof
  fix p p' assume credit: "0 \<le> credit" and rows: "rows_kept p" and books: "books_ok (books_of p)"
    and run: "Some (only_panel (create_master_agent ca user pw hash disp credit white contact phone p)) = Some (Inr p')"
  let ?a = "empty_account\<lparr>ad_username := strip user, ad_password := hash, ad_role := master_agent, ad_type := ''agent'',
        ad_identity := Some master_agent, ad_province := ad_province ca, ad_whitelisted := white, ad_limit := credit,
        ad_name := or_default disp user, ad_contact := stripped contact, ad_phone := stripped phone,
        ad_force := True, ad_created_by := Some (ad_id ca)\<rparr>"
  obtain p1 i where add: "add_admin ?a p = (p1, i)" by fastforce
  note new = accts_add_admin [OF rows add]
  have i: "0 < i" using rows new(2) by (simp add: rows_kept_def)
  have step: "book_step (books_of p) (books_of p1)"
    by (rule open_top_step [OF rows add]) (use credit in \<open>simp_all add: empty_account_def blank_def root_of_def int_or_def\<close>)
  let ?f = "\<lambda>a. a\<lparr>ad_root := Some i\<rparr>"
  have p': "p' = bind_default_role i master_agent (upd_admin i ?f p1)"
    using run add by (auto simp: create_master_agent_def only_panel_def Let_def split: if_splits)
  have "accts_of (upd_admin i ?f p1) j = accts_of p1 j" for j
  proof (cases "j = i")
    case True
    have "get_admin i p1 = Some (?a\<lparr>ad_id := i\<rparr>)" by (simp add: get_admin_add [OF rows add])
    then show ?thesis using True i
      by (simp add: accts_of_def get_admin_upd acct_of_def root_of_def int_or_def is_master_agent_def
          business_identity_def empty_account_def)
  qed (simp add: accts_of_def get_admin_upd)
  then have "books_of (upd_admin i ?f p1) = books_of p1"
    by (intro books_eqI) (auto simp: upd_admin_def)
  then show "rows_kept p' \<and> book_step\<^sup>*\<^sup>* (books_of p) (books_of p')"
    using p' step new(3) by (simp add: rows_upd_admin)
qed

lemma identity_words [simp]:
  "lower (strip master_agent) = master_agent" "lower (strip sub_agent) = sub_agent"
  by code_simp+

lemma sub_not_master: "ad_identity a = Some sub_agent \<Longrightarrow> \<not> is_master_agent a"
  by (simp add: is_master_agent_def business_identity_def str_or_def Let_def)

lemma root_positive:
  assumes "books_ok (books_of p)" "get_admin i p = Some a"
  shows "0 < root_of a" "0 < i"
proof -
  have tree: "tree_ok (accts_of p)" and a: "accts_of p i = Some (acct_of a)"
    using assms by (simp_all add: books_ok_def accts_Some)
  obtain r where "accts_of p (last (up_path (accts_of p) i)) = Some r" using root_is_top [OF tree a] by blast
  moreover have "root_of a = last (up_path (accts_of p) i)" using tree a by (fastforce simp: tree_ok_def)
  ultimately show "0 < root_of a" using tree by (auto simp: tree_ok_def)
  show "0 < i" using tree a by (auto simp: tree_ok_def)
qed

lemma ledgered_child:
  "ledgered (0 \<le> credit) (\<lambda>p. Some (only_panel (create_child_agent ca user hash disp mode credit contact phone p)))"
proof
  fix p p' assume credit: "0 \<le> credit" and rows: "rows_kept p" and books: "books_ok (books_of p)"
    and run: "Some (only_panel (create_child_agent ca user hash disp mode credit contact phone p)) = Some (Inr p')"
  obtain par where par: "get_admin (ad_id ca) p = Some par"
    using run by (auto simp: create_child_agent_def only_panel_def split: if_splits option.splits)
  let ?q = "ad_id ca"
  let ?a = "empty_account\<lparr>ad_username := strip user, ad_password := hash,
        ad_role := sub_agent, ad_type := ''agent'', ad_identity := Some sub_agent,
        ad_province := ad_province par, ad_parent := Some (ad_id par), ad_root := Some (root_of par),
        ad_depth := ad_depth par + 1, ad_mode := (if strip mode = [] then ''prepaid'' else strip mode),
        ad_limit := credit, ad_name := or_default disp user, ad_contact := stripped contact,
        ad_phone := stripped phone, ad_force := True, ad_created_by := Some (ad_id par)\<rparr>"
  obtain p1 i where add: "add_admin ?a p = (p1, i)" by fastforce
  note new = accts_add_admin [OF rows add]
  have id_par: "ad_id par = ?q" by (rule get_admin_id [OF par])
  let ?al = "ad_allocated par + credit"
  let ?p3 = "upd_admin ?q (\<lambda>a. a\<lparr>ad_allocated := ?al\<rparr>) (bind_default_role i sub_agent p1)"
  let ?row = "\<lparr>cl_parent = ?q, cl_child = i, cl_limit = credit, cl_used = 0, cl_active = True,
      cl_adjusted_by = Some ?q\<rparr>"
  have room: "?al \<le> ad_limit par" and p': "p' = ?p3\<lparr>credit_rows := credit_rows ?p3 @ [?row]\<rparr>"
    using run par add id_par by (auto simp: create_child_agent_def only_panel_def Let_def split: if_splits)
  have q: "0 < root_of par" "?q < i"
    using root_positive [OF books par] rows new(2) get_admin_in [OF par] id_par by (auto simp: rows_kept_def)
  have acct: "acct_of (?a\<lparr>ad_id := i\<rparr>) = \<lparr>ac_parent = Some ?q, ac_root = root_of par, ac_master = False,
      ac_limit = credit, ac_allocated = 0, ac_used = 0, ac_prepay = 0, ac_balance = 0\<rparr>" (is "_ = ?x")
    using q(1) id_par sub_not_master [of "?a\<lparr>ad_id := i\<rparr>"]
    by (simp add: acct_of_def root_of_def int_or_def empty_account_def)
  have "books_of p' = (books_of p)\<lparr>book_accts := adj ?q (\<lambda>x. x\<lparr>ac_allocated := ac_allocated x + ac_limit ?x\<rparr>)
          ((book_accts (books_of p))(i \<mapsto> ?x)),
         book_links := book_links (books_of p) @ [\<lparr>li_parent = ?q, li_child = i, li_limit = ac_limit ?x, li_used = 0\<rparr>]\<rparr>"
  proof (rule books_eqI)
    have "accts_of ?p3 j = adj ?q (\<lambda>x. x\<lparr>ac_allocated := ac_allocated x + credit\<rparr>) ((accts_of p)(i \<mapsto> ?x)) j" for j
    proof -
      have upd: "acct_of (a\<lparr>ad_allocated := n\<rparr>) = (acct_of a)\<lparr>ac_allocated := n\<rparr>" for a :: admin and n
        by (simp add: acct_of_def root_of_def is_master_agent_def business_identity_def)
      consider "j = ?q" | "j = i" | "j \<noteq> ?q" "j \<noteq> i" by blast
      then show ?thesis
      proof cases
        case 1
        then show ?thesis using q(2) par
          by (simp add: accts_of_def adj_def get_admin_upd get_admin_add [OF rows add] upd)
      next
        case 2
        then show ?thesis using q(2)
          by (simp add: accts_of_def adj_def get_admin_upd get_admin_add [OF rows add] acct del: acct_of_sel)
      qed (simp add: accts_of_def adj_def get_admin_upd get_admin_add [OF rows add])
    qed
    then show "book_accts (books_of p') = book_accts ((books_of p)\<lparr>book_accts :=
        adj ?q (\<lambda>x. x\<lparr>ac_allocated := ac_allocated x + ac_limit ?x\<rparr>) ((book_accts (books_of p))(i \<mapsto> ?x)),
        book_links := book_links (books_of p) @ [\<lparr>li_parent = ?q, li_child = i, li_limit = ac_limit ?x, li_used = 0\<rparr>]\<rparr>)"
      by (auto simp: p')
  qed (simp_all add: p' upd_admin_def link_of_def new)
  moreover have "book_step (books_of p) \<dots>"
    by (rule book_step.open_child [where par = "acct_of par"])
      (use fresh_admin [OF rows] new(2) par q room credit in \<open>simp_all add: accts_None accts_Some blank_def\<close>)
  moreover have "rows_kept p'" using new(3) by (simp add: p' rows_upd_admin)
  ultimately show "rows_kept p' \<and> book_step\<^sup>*\<^sup>* (books_of p) (books_of p')" by auto
qed

lemma ledgered_limit:
  "ledgered (0 \<le> credit) (\<lambda>p. Some (set_master_credit_limit ca i credit white p))"
proof
  fix p p' assume credit: "0 \<le> credit" and rows: "rows_kept p" and books: "books_ok (books_of p)"
    and run: "Some (set_master_credit_limit ca i credit white p) = Some (Inr p')"
  let ?f = "\<lambda>a. a\<lparr>ad_limit := credit, ad_whitelisted := (case white of None \<Rightarrow> ad_whitelisted a | Some w \<Rightarrow> w)\<rparr>"
  obtain t where t: "get_admin i p = Some t" "is_master_agent t" "ad_allocated t \<le> credit" and p': "p' = upd_admin i ?f p"
    using run by (auto simp: set_master_credit_limit_def ensure_visible_account_def and_then_Inr not_less
        split: if_splits option.splits)
  have "ad_parent t = None" using books t(1,2) by (fastforce simp: books_ok_def tree_ok_def accts_Some)
  then have "book_step (books_of p) ((books_of p)\<lparr>book_accts := adj i (\<lambda>x. x\<lparr>ac_limit := credit\<rparr>) (book_accts (books_of p))\<rparr>)"
    using t credit by (intro book_step.set_limit [where a = "acct_of t"]) (simp_all add: accts_Some)
  moreover have "books_of p' = (books_of p)\<lparr>book_accts := adj i (\<lambda>x. x\<lparr>ac_limit := credit\<rparr>) (accts_of p)\<rparr>"
    unfolding p' by (rule books_upd_admin)
      (simp_all add: acct_of_def root_of_def is_master_agent_def business_identity_def)
  ultimately show "rows_kept p' \<and> book_step\<^sup>*\<^sup>* (books_of p) (books_of p')"
    using rows by (simp add: p' rows_upd_admin)
qed

section \<open>Operations the books do not see\<close>

lemma neutral_upd:
  assumes "\<And>a. ad_id (f a) = ad_id a" "\<And>a. acct_of (f a) = acct_of a"
  shows "rows_kept (upd_admin i f p) = rows_kept p" "books_of (upd_admin i f p) = books_of p"
  using assms by (simp_all add: rows_upd_admin books_same_admin)

lemmas acct_defs = acct_of_def root_of_def is_master_agent_def business_identity_def

definition same_rows :: "panel \<Rightarrow> panel \<Rightarrow> bool" where
  "same_rows p' p \<longleftrightarrow> admins p' = admins p \<and> next_admin p' = next_admin p \<and> credit_rows p' = credit_rows p
     \<and> batches p' = batches p \<and> ledgers p' = ledgers p"

lemma same_rows_books: "same_rows p' p \<Longrightarrow> (rows_kept p' \<longleftrightarrow> rows_kept p) \<and> books_of p' = books_of p"
  by (simp add: same_rows_def rows_kept_def books_of_def accts_of_def get_admin_def)

lemma same_rows_trans: "same_rows p' p \<Longrightarrow> same_rows p'' p' \<Longrightarrow> same_rows p'' p"
  by (simp add: same_rows_def)

lemma same_rows_refl [simp]: "same_rows p p"
  by (simp add: same_rows_def)

lemma fold_same_rows: "(\<And>x q. same_rows (f x q) q) \<Longrightarrow> same_rows (fold f xs p) p"
  by (induction xs arbitrary: p) (auto intro: same_rows_trans)

lemma ledgered_whitelist: "ledgered accepted (\<lambda>p. Some (set_credit_whitelist ca i white p))"
  by (rule ledgered_same)
    (auto simp: set_credit_whitelist_def and_then_Inr neutral_upd acct_defs split: if_splits)

lemma ledgered_mode: "ledgered accepted (\<lambda>p. Some (set_settlement_mode ca i mode p))"
  by (rule ledgered_same)
    (auto simp: set_settlement_mode_def and_then_Inr neutral_upd acct_defs split: if_splits)

lemma ledgered_profile: "ledgered accepted (\<lambda>p. Some (update_admin_account i disp contact phone status p))"
  by (rule ledgered_same)
    (auto simp: update_admin_account_def neutral_upd acct_defs edit_profile_def split: if_splits option.splits)

lemma ledgered_password: "ledgered accepted (\<lambda>p. Some (reset_admin_account_password i pw hash p))"
  by (rule ledgered_same)
    (auto simp: reset_admin_account_password_def neutral_upd acct_defs split: if_splits option.splits)

lemma ledgered_roles:
  assumes "\<And>p p'. operation p = Some (Inr p') \<Longrightarrow> same_rows p' p"
  shows "ledgered accepted operation"
  by (rule ledgered_same) (use assms same_rows_books in blast)

lemma ledgered_price: "ledgered accepted (\<lambda>p. Some (update_pricing_plan plan price p))"
  by (rule ledgered_roles) (auto simp: update_pricing_plan_def same_rows_def split: option.splits)

lemma ledgered_create_role: "ledgered accepted (\<lambda>p. Some (only_panel (create_role key p)))"
  by (rule ledgered_roles) (auto simp: create_role_def only_panel_def same_rows_def Let_def split: if_splits)

lemma ledgered_update_role: "ledgered accepted (\<lambda>p. Some (update_role i status p))"
  by (rule ledgered_roles) (auto simp: update_role_def same_rows_def upd_role_def split: if_splits option.splits)

lemma ledgered_role_permissions: "ledgered accepted (\<lambda>p. Some (update_role_permissions i cs p))"
  by (rule ledgered_roles)
    (auto simp: update_role_permissions_def set_role_perms_def same_rows_def Let_def split: if_splits option.splits)

lemma ledgered_account_roles: "ledgered accepted (\<lambda>p. Some (update_admin_account_roles i keys p))"
  by (rule ledgered_roles)
    (auto simp: update_admin_account_roles_def same_rows_def Let_def split: if_splits option.splits)

lemma blank_empty: "blank (acct_of a) \<longleftrightarrow> ad_allocated a = 0 \<and> ad_used a = 0 \<and> ad_prepay a = 0 \<and> ad_balance a = 0 \<and> 0 \<le> ad_limit a"
  by (simp add: blank_def)

lemma ledgered_staff:
  "ledgered accepted (\<lambda>p. Some (only_panel (create_admin_account ca user pw hash disp keys ty ident contact phone p)))"
proof
  fix p p' assume rows: "rows_kept p"
    and run: "Some (only_panel (create_admin_account ca user pw hash disp keys ty ident contact phone p)) = Some (Inr p')"
  let ?a = "empty_account\<lparr>ad_username := strip user, ad_password := hash, ad_role := ''staff'',
      ad_province := ad_province ca, ad_force := True, ad_name := or_default disp user,
      ad_contact := stripped contact, ad_phone := stripped phone, ad_created_by := Some (ad_id ca)\<rparr>"
  obtain p1 i where add: "add_admin ?a p = (p1, i)" by fastforce
  have step: "book_step (books_of p) (books_of p1)"
    by (rule open_top_step [OF rows add]) (simp_all add: empty_account_def blank_empty root_of_def)
  have "same_rows p' p1"
    using run add by (auto simp: create_admin_account_def only_panel_def same_rows_def Let_def split: if_splits)
  then show "rows_kept p' \<and> book_step\<^sup>*\<^sup>* (books_of p) (books_of p')"
    using step accts_add_admin(3) [OF rows add] same_rows_books by auto
qed

text \<open>A restart.\<close>

lemma builtin_same_rows: "same_rows (ensure_builtin_rbac p) p"
proof -
  have perm: "same_rows (ensure_permission cm q) q" for cm q
    by (simp add: ensure_permission_def same_rows_def split: option.split)
  have row: "same_rows (fst (ensure_role_row k q)) q" for k q
    by (simp add: ensure_role_row_def same_rows_def upd_role_def split: option.split)
  have role: "same_rows (ensure_role k q) q" for k q
    using row [of k q] by (cases "ensure_role_row k q") (simp add: ensure_role_def same_rows_def set_role_perms_def)
  have bind: "same_rows (bind_account i r q) q" for i r q by (simp add: bind_account_def same_rows_def)
  have account: "same_rows (ensure_account a q) q" for a q
    unfolding ensure_account_def by (rule fold_same_rows) (simp add: bind split: option.split)
  define p1 where "p1 = fold ensure_permission permission_definitions p"
  define p2 where "p2 = fold ensure_role system_roles p1"
  have "same_rows p1 p" unfolding p1_def by (rule fold_same_rows) (rule perm)
  moreover have "same_rows p2 p1" unfolding p2_def by (rule fold_same_rows) (rule role)
  moreover have "same_rows (fold ensure_account (admins p2) p2) p2" by (rule fold_same_rows) (rule account)
  moreover have "ensure_builtin_rbac p = fold ensure_account (admins p2) p2"
    by (simp add: ensure_builtin_rbac_def p1_def p2_def Let_def)
  ultimately show ?thesis using same_rows_trans by metis
qed

lemma ledgered_start: "ledgered accepted (\<lambda>p. Some (Inr (panel_start st p)))"
proof
  fix p p' assume rows: "rows_kept p" and run: "Some (Inr (panel_start st p)) = Some (Inr p')"
  let ?b = "bootstrap_super_admin (st_username st) (st_password st) (st_hash st) (st_display st) (st_province st) p"
  have "rows_kept ?b \<and> book_step\<^sup>*\<^sup>* (books_of p) (books_of ?b)"
  proof (cases "?b = p")
    case False
    then obtain u d where b: "?b = fst (add_admin (empty_account\<lparr>ad_username := u, ad_password := st_hash st,
        ad_role := super_admin, ad_province := st_province st, ad_whitelisted := True, ad_force := True,
        ad_name := d\<rparr>) p)" (is "_ = fst (add_admin ?a p)")
      by (auto simp: bootstrap_super_admin_def Let_def split: if_splits)
    obtain p1 i where add: "add_admin ?a p = (p1, i)" by fastforce
    have "book_step (books_of p) (books_of p1)"
      by (rule open_top_step [OF rows add]) (simp_all add: empty_account_def blank_empty root_of_def)
    then show ?thesis using accts_add_admin(3) [OF rows add] by (simp add: b add)
  qed (use rows in simp)
  then show "rows_kept p' \<and> book_step\<^sup>*\<^sup>* (books_of p) (books_of p')"
    using run same_rows_books [OF builtin_same_rows [of ?b]] by (auto simp: panel_start_def)
qed

end
