(* ===== verification/PanelMoney.thy ===== *)
theory PanelMoney
  imports PanelBooks
begin

text \<open>
  Settlements, recharges and new batches as movements of the books. During a recharge the entry
  of the ledger is still missing; the lemmas on settlements therefore speak of the books with
  some entries \<open>Q\<close> added.
\<close>

section \<open>Settlements\<close>

lemma books_upd_credit:
  assumes links: "distinct (map cl_child (credit_rows p))" and row: "get_credit q i p = Some row"
    and f: "link_of (f row) = (link_of row)\<lparr>li_used := cl_used row + n\<rparr>"
  shows "map link_of (credit_rows (upd_credit q i f p)) = link_used [i] n (map link_of (credit_rows p))"
proof -
  have "row \<in> set (credit_rows p)" "cl_parent row = q" "cl_child row = i"
    using row by (auto simp: get_credit_def dest: find_row_Some)
  then have "\<And>r. r \<in> set (credit_rows p) \<Longrightarrow> cl_child r = i \<Longrightarrow> r = row"
    using links by (metis distinct_map inj_onD)
  then have "link_of (if cl_parent r = q \<and> cl_child r = i then f r else r)
      = (if li_child (link_of r) \<in> set [i] then (link_of r)\<lparr>li_used := li_used (link_of r) + n\<rparr> else link_of r)"
    if "r \<in> set (credit_rows p)" for r
    using that f \<open>cl_parent row = q\<close> by (auto simp: link_of_def)
  then show ?thesis by (simp add: upd_credit_def link_used_def upd_where_def)
qed

lemma debts_move_up:
  assumes "distinct (map ba_id bs)" "b \<in> set bs" "pending_credit b" "0 < ad_id next"
  shows "map debt_of (filter pending_credit (upd_where (\<lambda>x. ba_id x = ba_id b) (move_up next) bs))
    = upd_where (\<lambda>x. de_batch x = de_batch (debt_of b)) (\<lambda>x. x\<lparr>de_liable := ad_id next\<rparr>) (map debt_of (filter pending_credit bs))"
proof -
  have "pending_credit x" if "x \<in> set bs" "ba_id x = ba_id b" for x
    using assms(1-3) that by (metis distinct_map inj_onD)
  moreover have "pending_credit (move_up next x)" "debt_of (move_up next x) = (debt_of x)\<lparr>de_liable := ad_id next\<rparr>" for x
    using assms(4) by (simp_all add: move_up_def pending_credit_def debt_of_def int_or_def)
  moreover have "de_batch (debt_of x) = ba_id x" for x by (simp add: debt_of_def)
  ultimately show ?thesis
    using assms(1) by (induction bs) simp_all
qed

lemma settled_debts:
  assumes "distinct (map ba_id bs)"
  shows "map debt_of (filter pending_credit (upd_where (\<lambda>x. ba_id x = ba_id b) settle_up bs))
    = filter (\<lambda>x. de_batch x \<noteq> de_batch (debt_of b)) (map debt_of (filter pending_credit bs))"
proof -
  have "\<not> pending_credit (settle_up x)" "de_batch (debt_of x) = ba_id x" for x
    by (simp_all add: settle_up_def pending_credit_def debt_of_def)
  then show ?thesis by (induction bs) simp_all
qed

lemma batches_kept:
  assumes "rows_kept p" "\<And>b. ba_id (f b) = ba_id b" "\<And>b. batch_ok (f b)"
  shows "rows_kept (upd_batch i f p)"
proof -
  have "map ba_id (batches (upd_batch i f p)) = map ba_id (batches p)"
    by (simp add: upd_batch_def map_upd_where assms(2))
  moreover have "batch_ok b" if "b \<in> set (batches (upd_batch i f p))" for b
    using assms(1,3) that by (auto simp: upd_batch_def rows_kept_def dest!: set_upd_where)
  ultimately show ?thesis using assms(1) by (simp add: rows_kept_def upd_batch_def)
qed

lemma get_admin_frame [simp]:
  "get_admin i (upd_batch j f p) = get_admin i p" "get_admin i (upd_credit q c g p) = get_admin i p"
  "accts_of (upd_batch j f p) = accts_of p" "accts_of (upd_credit q c g p) = accts_of p"
  "accts_of (add_ledger l p) = accts_of p" "get_credit q c (upd_admin k h p) = get_credit q c p"
  "credit_rows (upd_admin k h p) = credit_rows p" "batches (upd_admin k h p) = batches p"
  "ledgers (upd_admin k h p) = ledgers p" "batches (upd_credit q c g p) = batches p"
  "ledgers (upd_credit q c g p) = ledgers p" "credit_rows (upd_batch j f p) = credit_rows p"
  "ledgers (upd_batch j f p) = ledgers p" "credit_rows (add_ledger l p) = credit_rows p"
  "batches (add_ledger l p) = batches p" "ledgers (add_ledger l p) = ledgers p @ [l]"
  "rows_kept (upd_credit q c g p) = rows_kept p"
  "batches (upd_batch j f p) = upd_where (\<lambda>b. ba_id b = j) f (batches p)"
  by (simp_all add: get_admin_def upd_batch_def upd_credit_def accts_of_def add_ledger_def get_credit_def
      upd_admin_def rows_kept_def)

lemma acct_pay_off [simp]: "acct_of (pay_off n a) = pay n (acct_of a)" "ad_id (pay_off n a) = ad_id a"
  "ad_parent (pay_off n a) = ad_parent a"
  by (simp_all add: acct_defs pay_off_def pay_def)

lemma post_entry: "post_of (entry scope a counter ty dir n bid req op) = (ty, ad_id a, n)"
  by (simp add: post_of_def entry_def)

text \<open>The state of a settlement: a known subject, a batch of the table.\<close>

lemma settlement_step:
  assumes rows: "rows_kept p" and books: "books_ok (add_posts Q (books_of p))"
    and s: "get_admin (ad_id s) p = Some s" and b: "b \<in> set (batches p)"
    and run: "apply_settlement_for_batch s b op req p = Inr p'"
  shows "rows_kept p'" "book_step (add_posts Q (books_of p)) (add_posts Q (books_of p'))"
proof -
  have batch: "batch_ok b" and dist: "distinct (map ba_id (batches p))" using rows b by (auto simp: rows_kept_def)
  have pending: "pending_credit b" and liable: "int_or (ba_liable b) 0 = ad_id s" and prepay: "ba_total b \<le> ad_prepay s"
    using run batch by (auto simp: apply_settlement_for_batch_def Let_def batch_ok_def split: if_splits)
  let ?n = "ba_total b" and ?i = "ad_id s"
  let ?p1 = "upd_admin ?i (pay_off ?n) p"
  have debt: "debt_of b \<in> set (book_debts (add_posts Q (books_of p)))" using b pending by simp
  have accts: "accts_of ?p1 = adj ?i (pay ?n) (accts_of p)" by (rule accts_upd_admin) simp_all
  have a: "accts_of p ?i = Some (acct_of s)" using s by (simp add: accts_Some)
  have d: "de_liable (debt_of b) = ?i" "de_total (debt_of b) = ?n" using liable by (simp_all add: debt_of_def)
  show "rows_kept p'" "book_step (add_posts Q (books_of p)) (add_posts Q (books_of p'))"
  proof (atomize(full), cases "ad_parent s")
    case None
    have p': "p' = add_ledger (settlement_entry ''platform'' (pay_off ?n s) op b req op) (upd_batch (ba_id b) settle_up ?p1)"
      using run None pending liable by (auto simp: apply_settlement_for_batch_def Let_def split: if_splits)
    have "add_posts Q (books_of p') = (add_posts Q (books_of p))\<lparr>book_accts := adj ?i (pay ?n) (book_accts (add_posts Q (books_of p))),
         book_debts := filter (\<lambda>x. de_batch x \<noteq> de_batch (debt_of b)) (book_debts (add_posts Q (books_of p))),
         book_posts := add_mset (''credit_settlement'', ?i, ?n) (book_posts (add_posts Q (books_of p)))\<rparr>"
      by (rule books_eqI)
        (simp_all add: p' accts post_entry settlement_entry_def settled_debts [OF dist])
    moreover have "book_step (add_posts Q (books_of p)) \<dots>"
      by (rule book_step.settle_off [OF debt d, of "acct_of s"]) (use a None prepay in simp_all)
    moreover have "rows_kept p'" unfolding p'
      by (simp, rule batches_kept) (use rows in \<open>simp_all add: rows_upd_admin settle_up_def batch_ok_def pending_credit_def\<close>)
    ultimately show "rows_kept p' \<and> book_step (add_posts Q (books_of p)) (add_posts Q (books_of p'))" by simp
  next
    case (Some q)
    obtain row nx where row: "get_credit q ?i p = Some row" and nxt: "get_admin q ?p1 = Some nx"
      and p': "p' = upd_batch (ba_id b) (move_up nx)
          (add_ledger (settlement_entry ''channel'' (pay_off ?n s) q b req op) (upd_credit q ?i (release_link ?n) ?p1))"
      using run Some pending liable by (auto simp: apply_settlement_for_batch_def Let_def split: if_splits option.splits)
    have q: "ad_id nx = q" by (rule get_admin_id [OF nxt])
    have "accts_of p q \<noteq> None"
      using nxt by (auto simp: accts_None get_admin_upd split: if_splits)
    then have pos: "0 < q" using books by (auto simp: books_ok_def tree_ok_def)
    have links: "links_ok (accts_of p) (map link_of (credit_rows p))" using books by (simp add: books_ok_def)
    have dl: "distinct (map cl_child (credit_rows p))"
      using links by (simp add: links_ok_def comp_def link_of_def)
    have "link_of row \<in> set (map link_of (credit_rows p))" "cl_child row = ?i"
      using row by (auto simp: get_credit_def dest: find_row_Some)
    then have "cl_used row = ad_used s" using links a by (auto simp: links_ok_def link_ok_def link_of_def)
    moreover have "?n \<le> ad_used s" using run by (auto simp: apply_settlement_for_batch_def Let_def split: if_splits)
    ultimately have "link_of (release_link ?n row) = (link_of row)\<lparr>li_used := cl_used row + - ?n\<rparr>"
      by (simp add: release_link_def link_of_def)
    from books_upd_credit [OF dl row, of "release_link ?n" "- ?n", OF this]
    have used: "map link_of (credit_rows (upd_credit q ?i (release_link ?n) ?p1)) = link_used [?i] (- ?n) (map link_of (credit_rows p))"
      by (simp add: upd_credit_def)
    have "add_posts Q (books_of p') = (add_posts Q (books_of p))\<lparr>book_accts := adj ?i (pay ?n) (book_accts (add_posts Q (books_of p))),
         book_links := link_used [?i] (- ?n) (book_links (add_posts Q (books_of p))),
         book_debts := upd_where (\<lambda>x. de_batch x = de_batch (debt_of b)) (\<lambda>x. x\<lparr>de_liable := q\<rparr>)
            (book_debts (add_posts Q (books_of p))),
         book_posts := add_mset (''credit_settlement'', ?i, ?n) (book_posts (add_posts Q (books_of p)))\<rparr>"
    proof (rule books_eqI)
      show "book_debts (add_posts Q (books_of p')) = book_debts ((add_posts Q (books_of p))\<lparr>book_accts := adj ?i (pay ?n) (book_accts (add_posts Q (books_of p))),
         book_links := link_used [?i] (- ?n) (book_links (add_posts Q (books_of p))),
         book_debts := upd_where (\<lambda>x. de_batch x = de_batch (debt_of b)) (\<lambda>x. x\<lparr>de_liable := q\<rparr>)
            (book_debts (add_posts Q (books_of p))),
         book_posts := add_mset (''credit_settlement'', ?i, ?n) (book_posts (add_posts Q (books_of p)))\<rparr>)"
        using debts_move_up [OF dist b pending, of nx] pos q by (simp add: p')
    qed (simp_all add: p' accts used post_entry settlement_entry_def)
    moreover have "book_step (add_posts Q (books_of p)) \<dots>"
      by (rule book_step.settle_up [OF debt d, of "acct_of s"]) (use a Some prepay in simp_all)
    moreover have "rows_kept p'" unfolding p'
      by (rule batches_kept) (use rows in \<open>simp_all add: rows_upd_admin move_up_def batch_ok_def pending_credit_def\<close>)
    ultimately show "rows_kept p' \<and> book_step (add_posts Q (books_of p)) (add_posts Q (books_of p'))" by simp
  qed
qed

text \<open>What a settlement writes.\<close>

lemma settlement_effect:
  assumes "get_admin (ad_id s) p = Some s" "apply_settlement_for_batch s b op req p = Inr p'"
  shows "get_admin j p' = (if j = ad_id s then Some (pay_off (ba_total b) s) else get_admin j p)"
    and "\<exists>g. batches p' = upd_where (\<lambda>x. ba_id x = ba_id b) g (batches p)"
    and "ba_total b \<le> ad_prepay s"
proof -
  have "\<exists>g. batches p' = upd_where (\<lambda>x. ba_id x = ba_id b) g (batches p)
      \<and> (\<forall>j. get_admin j p' = get_admin j (upd_admin (ad_id s) (pay_off (ba_total b)) p)) \<and> ba_total b \<le> ad_prepay s"
  proof (cases "ad_parent s")
    case None
    then show ?thesis using assms(2)
      by (auto simp: apply_settlement_for_batch_def Let_def split: if_splits)
  next
    case (Some q)
    then show ?thesis using assms(2)
      by (auto simp: apply_settlement_for_batch_def Let_def split: if_splits option.splits)
  qed
  then show "get_admin j p' = (if j = ad_id s then Some (pay_off (ba_total b) s) else get_admin j p)"
    "\<exists>g. batches p' = upd_where (\<lambda>x. ba_id x = ba_id b) g (batches p)" "ba_total b \<le> ad_prepay s"
    using assms(1) by (auto simp: get_admin_upd)
qed

lemma other_batches: "x \<in> set bs \<Longrightarrow> \<not> P x \<Longrightarrow> x \<in> set (upd_where P g bs)"
  by (auto simp: upd_where_def image_iff)

lemma draw_id_sel [simp]: "fst (draw_id p) = p\<lparr>ids_drawn := Suc (ids_drawn p)\<rparr>"
  by (simp add: draw_id_def)

lemma drawn_frame [simp]:
  "get_admin i (p\<lparr>ids_drawn := n\<rparr>) = get_admin i p" "batches (p\<lparr>ids_drawn := n\<rparr>) = batches p"
  "rows_kept (p\<lparr>ids_drawn := n\<rparr>) = rows_kept p" "books_of (p\<lparr>ids_drawn := n\<rparr>) = books_of p"
  "accts_of (p\<lparr>ids_drawn := n\<rparr>) = accts_of p"
  by (simp_all add: get_admin_def rows_kept_def books_of_def accts_of_def)

lemma ledgered_settle: "ledgered accepted (\<lambda>p. Some (settle_credit_batch ca bid p))"
proof
  fix p p' assume rows: "rows_kept p" and books: "books_ok (books_of p)"
    and "Some (settle_credit_batch ca bid p) = Some (Inr p')"
  then obtain s b where s: "get_admin (ad_id ca) p = Some s" and b: "get_batch (strip bid) p = Some b"
    and run: "apply_settlement_for_batch s b (ad_id s) (''direct-settle-'' @ take 20 (random_id p (ids_drawn p)))
        (p\<lparr>ids_drawn := Suc (ids_drawn p)\<rparr>) = Inr p'"
    by (auto simp: settle_credit_batch_def draw_id_def Let_def split: if_splits option.splits)
  have "b \<in> set (batches p)" using b by (auto simp: get_batch_def dest: find_row_Some)
  moreover have "get_admin (ad_id s) p = Some s" using s get_admin_id [OF s] by simp
  ultimately show "rows_kept p' \<and> book_step\<^sup>*\<^sup>* (books_of p) (books_of p')"
    using settlement_step [of "p\<lparr>ids_drawn := Suc (ids_drawn p)\<rparr>" "{#}" s b] run rows books by auto
qed

section \<open>Recharges\<close>

lemma settle_batches_steps:
  assumes "settle_batches i op bs paid ids p = Inr (p', paid', ids')" "rows_kept p" "books_ok (add_posts Q (books_of p))"
    and "set bs \<subseteq> set (batches p)" "distinct (map ba_id bs)"
  shows "rows_kept p' \<and> book_step\<^sup>*\<^sup>* (add_posts Q (books_of p)) (add_posts Q (books_of p'))"
  using assms
proof (induction bs arbitrary: paid ids p)
  case (Cons b bs)
  obtain s where s: "get_admin i p = Some s" using Cons.prems(1) by (auto split: option.splits)
  have id: "ad_id s = i" by (rule get_admin_id [OF s])
  consider (skip) "ba_total b \<le> 0" | (stop) "0 < ba_total b" "ad_prepay s < ba_total b"
    | (pay) "0 < ba_total b" "ba_total b \<le> ad_prepay s" by linarith
  then show ?case
  proof cases
    case skip
    then have "max 0 (ba_total b) \<le> 0" by simp
    then show ?thesis using Cons.IH Cons.prems s by simp
  next
    case stop
    then show ?thesis using Cons.prems s by simp
  next
    case pay
    let ?p0 = "p\<lparr>ids_drawn := Suc (ids_drawn p)\<rparr>"
    let ?req = "''direct-recharge-settle-'' @ take 20 (random_id p (ids_drawn p))"
    obtain p1 where p1: "apply_settlement_for_batch s b op ?req ?p0 = Inr p1"
      and rest: "settle_batches i op bs (paid + max 0 (ba_total b)) (ids @ [ba_id b]) p1 = Inr (p', paid', ids')"
      using Cons.prems(1) s pay by (auto simp: draw_id_def and_then_Inr)
    have one: "rows_kept p1" "book_step (add_posts Q (books_of p)) (add_posts Q (books_of p1))"
      using settlement_step [of ?p0 Q s b op ?req p1] p1 Cons.prems(2-4) s id by auto
    obtain g where g: "batches p1 = upd_where (\<lambda>x. ba_id x = ba_id b) g (batches p)"
      using settlement_effect(2) [OF _ p1] s id by auto
    have "set bs \<subseteq> set (batches p1)"
      using Cons.prems(4,5) unfolding g by (auto simp: image_iff intro!: other_batches)
    then have "rows_kept p' \<and> book_step\<^sup>*\<^sup>* (add_posts Q (books_of p1)) (add_posts Q (books_of p'))"
      using Cons.IH [OF rest one(1)] one(2) book_step_ok [OF _ Cons.prems(3)] Cons.prems(5) by simp
    then show ?thesis using one(2) by (meson converse_rtranclp_into_rtranclp)
  qed
qed simp

text \<open>Which of the batches a prepaid amount settles: in order, until one is too expensive.\<close>

fun affordable :: "int \<Rightarrow> batch list \<Rightarrow> batch list" where
  "affordable n [] = []"
| "affordable n (b # bs) =
     (if ba_total b \<le> 0 then affordable n bs
      else if n < ba_total b then [] else b # affordable (n - ba_total b) bs)"

definition total_of :: "batch list \<Rightarrow> int" where
  "total_of bs = sum_list (map ba_total bs)"

lemma pay_off_twice: "pay_off m (pay_off n a) = pay_off (n + m) a"
  by (simp add: pay_off_def)

lemma settle_batches_effect:
  assumes "settle_batches i op bs paid ids p = Inr (p', paid', ids')" "get_admin i p = Some s"
  shows "paid' = paid + total_of (affordable (ad_prepay s) bs) \<and> ids' = ids @ map ba_id (affordable (ad_prepay s) bs)
    \<and> (\<forall>j. get_admin j p' = (if j = i then Some (pay_off (total_of (affordable (ad_prepay s) bs)) s) else get_admin j p))"
  using assms
proof (induction bs arbitrary: paid ids p s)
  case (Cons b bs)
  have id: "ad_id s = i" by (rule get_admin_id [OF Cons.prems(2)])
  consider (skip) "ba_total b \<le> 0" | (stop) "0 < ba_total b" "ad_prepay s < ba_total b"
    | (pay) "0 < ba_total b" "ba_total b \<le> ad_prepay s" by linarith
  then show ?case
  proof cases
    case skip
    then have "max 0 (ba_total b) \<le> 0" by simp
    then show ?thesis using Cons.IH [of paid ids p s] Cons.prems skip by simp
  next
    case stop
    then show ?thesis using Cons.prems by (auto simp: total_of_def pay_off_def)
  next
    case pay
    obtain p1 where p1: "apply_settlement_for_batch s b op (''direct-recharge-settle-'' @ take 20 (random_id p (ids_drawn p)))
        (p\<lparr>ids_drawn := Suc (ids_drawn p)\<rparr>) = Inr p1"
      and rest: "settle_batches i op bs (paid + ba_total b) (ids @ [ba_id b]) p1 = Inr (p', paid', ids')"
      using Cons.prems pay by (auto simp: draw_id_def and_then_Inr)
    have known: "get_admin (ad_id s) (p\<lparr>ids_drawn := Suc (ids_drawn p)\<rparr>) = Some s" using Cons.prems(2) id by simp
    have eff: "get_admin j p1 = (if j = i then Some (pay_off (ba_total b) s) else get_admin j p)" for j
      using settlement_effect(1) [OF known p1, of j] id by simp
    have more: "ad_prepay (pay_off (ba_total b) s) = ad_prepay s - ba_total b" by (simp add: pay_off_def)
    show ?thesis using Cons.IH [OF rest, of "pay_off (ba_total b) s"] eff pay more
      by (auto simp: pay_off_twice total_of_def add.assoc)
  qed
qed (auto simp: total_of_def pay_off_def)

lemma top_up_effect:
  assumes "get_admin i p = Some a" "0 \<le> ad_prepay a"
  shows "top_up_balance i p = p \<or>
    books_of (top_up_balance i p) = (books_of p)\<lparr>book_accts :=
        adj i (\<lambda>x. x\<lparr>ac_balance := ac_balance x + ac_prepay x, ac_prepay := 0\<rparr>) (accts_of p)\<rparr>"
    and "rows_kept (top_up_balance i p) = rows_kept p"
proof -
  let ?f = "\<lambda>a. if 0 < ad_prepay a then a\<lparr>ad_balance := ad_balance a + ad_prepay a, ad_prepay := 0\<rparr> else a"
  let ?g = "\<lambda>x. if 0 < ac_prepay x then x\<lparr>ac_balance := ac_balance x + ac_prepay x, ac_prepay := 0\<rparr> else x"
  have "books_of (upd_admin i ?f p) = (books_of p)\<lparr>book_accts := adj i ?g (accts_of p)\<rparr>"
    by (rule books_upd_admin) (simp_all add: acct_defs)
  moreover have "adj i ?g (accts_of p) = adj i (\<lambda>x. x\<lparr>ac_balance := ac_balance x + ac_prepay x, ac_prepay := 0\<rparr>) (accts_of p)"
    using assms by (auto simp: adj_def accts_of_def acct_of_def)
  ultimately show "top_up_balance i p = p \<or>
    books_of (top_up_balance i p) = (books_of p)\<lparr>book_accts :=
        adj i (\<lambda>x. x\<lparr>ac_balance := ac_balance x + ac_prepay x, ac_prepay := 0\<rparr>) (accts_of p)\<rparr>"
    by (simp add: top_up_balance_def)
  show "rows_kept (top_up_balance i p) = rows_kept p"
    by (simp add: top_up_balance_def rows_upd_admin)
qed

text \<open>A successful recharge, taken apart.\<close>

lemma recharge_parts:
  assumes "create_recharge_entry ca i amount p = Inr p'"
  obtains op s p1 paid ids where "get_admin (ad_id ca) p = Some op" "get_admin i p = Some s" "is_agent s" "0 < amount"
    "auto_settle_credit_batches i (ad_id op) (upd_admin i (\<lambda>a. a\<lparr>ad_prepay := ad_prepay a + amount\<rparr>) p) = Inr (p1, paid, ids)"
    "p' = add_ledger (recharge_entry (live op (top_up_balance i p1)) (live s (top_up_balance i p1)) amount) (top_up_balance i p1)"
  using assms
  by (auto simp: create_recharge_entry_def ensure_visible_account_def and_then_Inr Let_def not_le
      split: if_splits option.splits)

lemma live_id [simp]: "ad_id (live a p) = ad_id a"
  by (auto simp: live_def dest: get_admin_id split: option.split)

lemma own_pending_in: "set (own_pending_batches i p) \<subseteq> set (batches p)"
  by (auto simp: own_pending_batches_def)

lemma own_pending_distinct: "rows_kept p \<Longrightarrow> distinct (map ba_id (own_pending_batches i p))"
  by (auto simp: own_pending_batches_def rows_kept_def distinct_map intro: inj_on_subset)

text \<open>The money comes in before its entry.\<close>

lemma prepay_step:
  assumes s: "get_admin i p = Some s" and n: "0 < amount"
  shows "book_step (books_of p)
    (add_posts {#(''recharge'', i, amount)#} (books_of (upd_admin i (\<lambda>a. a\<lparr>ad_prepay := ad_prepay a + amount\<rparr>) p)))"
proof -
  let ?p0 = "upd_admin i (\<lambda>a. a\<lparr>ad_prepay := ad_prepay a + amount\<rparr>) p"
  have b0: "books_of ?p0 = (books_of p)\<lparr>book_accts := adj i (\<lambda>x. x\<lparr>ac_prepay := ac_prepay x + amount\<rparr>) (accts_of p)\<rparr>"
    by (rule books_upd_admin) (simp_all add: acct_defs)
  have "book_step (books_of p) ((books_of p)\<lparr>book_accts := adj i (\<lambda>x. x\<lparr>ac_prepay := ac_prepay x + amount\<rparr>) (book_accts (books_of p)),
         book_posts := add_mset (''recharge'', i, amount) (book_posts (books_of p))\<rparr>)"
    by (rule book_step.recharge [of _ _ "acct_of s"]) (use s n in \<open>simp_all add: accts_Some\<close>)
  moreover have "\<dots> = add_posts {#(''recharge'', i, amount)#} (books_of ?p0)" by (rule books_eqI) (simp_all add: b0)
  ultimately show ?thesis by simp
qed

lemma ledgered_recharge: "ledgered accepted (\<lambda>p. Some (create_recharge_entry ca i amount p))"
proof
  fix p p' assume rows: "rows_kept p" and books: "books_ok (books_of p)"
    and "Some (create_recharge_entry ca i amount p) = Some (Inr p')"
  then have "create_recharge_entry ca i amount p = Inr p'" by simp
  then obtain op s p1 paid ids where s: "get_admin i p = Some s" and n: "0 < amount"
    and auto: "auto_settle_credit_batches i (ad_id op) (upd_admin i (\<lambda>a. a\<lparr>ad_prepay := ad_prepay a + amount\<rparr>) p)
        = Inr (p1, paid, ids)" (is "auto_settle_credit_batches i _ ?p0 = _")
    and p': "p' = add_ledger (recharge_entry (live op (top_up_balance i p1)) (live s (top_up_balance i p1)) amount) (top_up_balance i p1)"
    by (rule recharge_parts)
  let ?Q = "{#(''recharge'', i, amount)#}"
  note first = prepay_step [OF s n] and rows0 = rows_upd_admin [of "\<lambda>a. a\<lparr>ad_prepay := ad_prepay a + amount\<rparr>" i p, simplified, THEN iffD2, OF rows]
  note ok0 = book_step_ok [OF first books]
  have "rows_kept p1 \<and> book_step\<^sup>*\<^sup>* (add_posts ?Q (books_of ?p0)) (add_posts ?Q (books_of p1))"
    using auto settle_batches_steps [OF _ rows0 ok0 own_pending_in own_pending_distinct [OF rows0]] rows0
    by (auto simp: auto_settle_credit_batches_def split: option.splits if_splits)
  then have rows1: "rows_kept p1" and mid: "book_step\<^sup>*\<^sup>* (add_posts ?Q (books_of ?p0)) (add_posts ?Q (books_of p1))" by auto
  note ok1 = book_steps_ok [OF mid ok0]
  obtain a where a: "get_admin i p1 = Some a"
    using auto settle_batches_effect [of i _ _ _ _ _ p1 paid ids] s
    by (auto simp: auto_settle_credit_batches_def get_admin_upd split: option.splits if_splits)
  have "0 \<le> ad_prepay a" using purse [OF ok1, of i "acct_of a"] a by (simp add: accts_Some)
  note top = top_up_effect [OF a this]
  have "book_step\<^sup>*\<^sup>* (add_posts ?Q (books_of p1)) (add_posts ?Q (books_of (top_up_balance i p1)))"
    using top(1)
  proof
    assume t: "books_of (top_up_balance i p1) = (books_of p1)\<lparr>book_accts :=
        adj i (\<lambda>x. x\<lparr>ac_balance := ac_balance x + ac_prepay x, ac_prepay := 0\<rparr>) (accts_of p1)\<rparr>"
    have "book_step (add_posts ?Q (books_of p1)) ((add_posts ?Q (books_of p1))\<lparr>book_accts :=
        adj i (\<lambda>x. x\<lparr>ac_balance := ac_balance x + ac_prepay x, ac_prepay := 0\<rparr>) (book_accts (add_posts ?Q (books_of p1)))\<rparr>)"
      by (rule book_step.top_up [of _ _ "acct_of a"]) (use a in \<open>simp add: accts_Some\<close>)
    moreover have "\<dots> = add_posts ?Q (books_of (top_up_balance i p1))" by (rule books_eqI) (simp_all add: t)
    ultimately show ?thesis by simp
  qed simp
  moreover have "books_of p' = add_posts ?Q (books_of (top_up_balance i p1))"
    using get_admin_id [OF s] by (simp add: p' books_add_ledger post_of_def recharge_entry_def)
  ultimately show "rows_kept p' \<and> book_step\<^sup>*\<^sup>* (books_of p) (books_of p')"
    using first mid rows1 top(2) by (auto simp: p')
qed

end
