(* ===== verification/PanelCredit.thy ===== *)
theory PanelCredit
  imports PanelMoney
begin

text \<open>
  New batches as movements of the books: the chain the code collects is the path of the tree, and
  booking it charges everyone on the path once.
\<close>

section \<open>The chain is the path\<close>

definition chain_ids :: "(admin \<times> admin \<times> credit_row) list \<Rightarrow> int list" where
  "chain_ids links = map (\<lambda>(c, _, _). ad_id c) links"

definition chain_ok :: "panel \<Rightarrow> (admin \<times> admin \<times> credit_row) list \<Rightarrow> bool" where
  "chain_ok p links \<longleftrightarrow> (\<forall>(c, par, row) \<in> set links.
     get_admin (ad_id c) p = Some c \<and> get_credit (ad_id par) (ad_id c) p = Some row)"

lemma collected_chain:
  assumes tree: "tree_ok (accts_of p)" and cur: "get_admin (ad_id cur) p = Some cur"
    and run: "collect_credit_chain p cur visited = Inr links"
  shows "chain_ok p links" and "up_path (accts_of p) (ad_id cur) = chain_ids links @ [root_of cur]"
proof -
  have "chain_ok p links \<and> up_path (accts_of p) (ad_id cur) = chain_ids links @ [last (up_path (accts_of p) (ad_id cur))]"
    using tree cur run
  proof (induction p cur visited arbitrary: links rule: collect_credit_chain.induct)
    case (1 p cur visited)
    have a: "accts_of p (ad_id cur) = Some (acct_of cur)" using "1.prems"(2) by (simp add: accts_Some)
    show ?case
    proof (cases "ad_parent cur")
      case None
      then have "links = []" using "1.prems"(3) by (simp add: collect_credit_chain.simps)
      then show ?thesis using path_top [OF "1.prems"(1) a] None by (simp add: chain_ok_def chain_ids_def)
    next
      case (Some q)
      obtain par row ls where new: "ad_id cur \<notin> set visited" and par: "get_admin q p = Some par"
        and row: "get_credit (ad_id par) (ad_id cur) p = Some row" "cl_active row"
        and rest: "collect_credit_chain p par (ad_id cur # visited) = Inr ls" and links: "links = (cur, par, row) # ls"
        using "1.prems"(3) Some
        by (subst (asm) collect_credit_chain.simps) (auto simp: and_then_Inr split: if_splits option.splits)
      have q: "ad_id par = q" by (rule get_admin_id [OF par])
      have "chain_ok p ls \<and> up_path (accts_of p) q = chain_ids ls @ [last (up_path (accts_of p) q)]"
        using "1.IH" [OF Some new par row(1) _ "1.prems"(1) _ rest] par row(2) q by simp
      moreover have "up_path (accts_of p) (ad_id cur) = ad_id cur # up_path (accts_of p) q"
        by (rule path_child [OF "1.prems"(1) a]) (simp add: Some)
      ultimately show ?thesis using "1.prems"(2) row(1) links by (simp add: chain_ok_def chain_ids_def)
    qed
  qed
  moreover have "root_of cur = last (up_path (accts_of p) (ad_id cur))"
    using tree cur by (fastforce simp: tree_ok_def accts_Some)
  ultimately show "chain_ok p links" "up_path (accts_of p) (ad_id cur) = chain_ids links @ [root_of cur]" by auto
qed

section \<open>Booking the chain\<close>

lemma charge_Cons: "c \<notin> set cs \<Longrightarrow> charge (c # cs) n A = charge cs n (adj c (add_used n) A)"
  by (rule ext) (auto simp: charge_def adj_def)

lemma charge_Nil [simp]: "charge [] n A = A"
  by (rule ext) (simp add: charge_def)

lemma charge_one: "adj c (add_used n) A = charge [c] n A"
  by (rule ext) (auto simp: charge_def adj_def)

lemma link_used_Cons: "c \<notin> set cs \<Longrightarrow> link_used (c # cs) n L = link_used cs n (link_used [c] n L)"
  by (auto simp: link_used_def)

lemma link_used_Nil [simp]: "link_used [] n L = L"
  by (simp add: link_used_def)

lemma acct_add_used [simp]: "acct_of (a\<lparr>ad_used := ad_used a + n\<rparr>) = add_used n (acct_of a)"
  by (simp add: acct_defs add_used_def)

lemma use_credit_accts: "accts_of (use_credit a n p) = adj (ad_id a) (add_used n) (accts_of p)"
  unfolding use_credit_def by (rule accts_upd_admin) simp_all

lemma use_credit_frame [simp]:
  "credit_rows (use_credit a n p) = credit_rows p" "batches (use_credit a n p) = batches p"
  "ledgers (use_credit a n p) = ledgers p" "rows_kept (use_credit a n p) = rows_kept p"
  by (simp_all add: use_credit_def rows_upd_admin)

definition generate_posts :: "int \<Rightarrow> int list \<Rightarrow> posting multiset" where
  "generate_posts n path = image_mset (\<lambda>j. (''credit_generate'', j, n)) (mset path)"

lemma get_credit_after_link:
  assumes "(q, c) \<noteq> (cl_parent r, cl_child r)"
  shows "get_credit q c (upd_credit (cl_parent r) (cl_child r) (\<lambda>r. r\<lparr>cl_used := cl_used r + n\<rparr>) p) = get_credit q c p"
  using assms by (auto simp: get_credit_upd)

lemma book_links_effect:
  assumes "distinct (map cl_child (credit_rows p))" "distinct (chain_ids links)"
    and "\<forall>(c, par, row) \<in> set links. get_credit (ad_id par) (ad_id c) p \<noteq> None
        \<and> cl_parent row = ad_id par \<and> cl_child row = ad_id c"
  shows "books_of (fold (book_link n bid op) links p) =
      (books_of p)\<lparr>book_accts := charge (chain_ids links) n (accts_of p),
         book_links := link_used (chain_ids links) n (map link_of (credit_rows p)),
         book_posts := book_posts (books_of p) + generate_posts n (chain_ids links)\<rparr>
    \<and> rows_kept (fold (book_link n bid op) links p) = rows_kept p"
  using assms
proof (induction links arbitrary: p)
  case Nil
  then show ?case by (auto intro!: books_eqI simp: chain_ids_def generate_posts_def)
next
  case (Cons l links)
  obtain c par row where l: "l = (c, par, row)" by (cases l)
  let ?p1 = "upd_credit (cl_parent row) (cl_child row) (\<lambda>r. r\<lparr>cl_used := cl_used r + n\<rparr>) p"
  let ?p2 = "use_credit c n ?p1"
  let ?p3 = "book_link n bid op (c, par, row) p"
  have keys: "cl_parent row = ad_id par" "cl_child row = ad_id c" using Cons.prems(3) by (auto simp: l)
  obtain row' where row': "get_credit (ad_id par) (ad_id c) p = Some row'" using Cons.prems(3) by (auto simp: l)
  have c: "ad_id c \<notin> set (chain_ids links)" using Cons.prems(2) by (simp add: l chain_ids_def)
  have p3: "?p3 = add_ledger (entry ''channel'' (live c ?p2) (Some (ad_id par)) ''credit_generate'' ''out'' n (Some bid) None op) ?p2"
    by (simp add: book_link_def Let_def)
  have used: "map link_of (credit_rows ?p1) = link_used [ad_id c] n (map link_of (credit_rows p))"
    unfolding keys by (rule books_upd_credit [OF Cons.prems(1) row']) (simp add: link_of_def)
  have accts: "accts_of ?p3 = adj (ad_id c) (add_used n) (accts_of p)" by (simp add: p3 use_credit_accts)
  have children: "map cl_child (credit_rows ?p3) = map cl_child (credit_rows p)"
    by (simp add: p3 upd_credit_def map_upd_where)
  have credit: "get_credit x y ?p3 = get_credit x y ?p1" for x y by (simp add: p3 get_credit_def)
  have "\<forall>(c, par, row) \<in> set links. get_credit (ad_id par) (ad_id c) ?p3 \<noteq> None
        \<and> cl_parent row = ad_id par \<and> cl_child row = ad_id c"
    using Cons.prems(3) unfolding credit by (auto simp: l get_credit_upd split: if_splits)
  with Cons.IH [of ?p3] Cons.prems(1,2) children
  have ih: "books_of (fold (book_link n bid op) links ?p3) =
      (books_of ?p3)\<lparr>book_accts := charge (chain_ids links) n (accts_of ?p3),
         book_links := link_used (chain_ids links) n (map link_of (credit_rows ?p3)),
         book_posts := book_posts (books_of ?p3) + generate_posts n (chain_ids links)\<rparr>"
    and rows: "rows_kept (fold (book_link n bid op) links ?p3) = rows_kept ?p3"
    by (simp_all add: l chain_ids_def)
  let ?last = "fold (book_link n bid op) links ?p3"
  have parts: "accts_of ?last = charge (chain_ids links) n (adj (ad_id c) (add_used n) (accts_of p))"
    "map link_of (credit_rows ?last) = link_used (chain_ids links) n (map link_of (credit_rows ?p1))"
    "map debt_of (filter pending_credit (batches ?last)) = map debt_of (filter pending_credit (batches p))"
    "image_mset post_of (mset (ledgers ?last)) = add_mset (''credit_generate'', ad_id c, n) (image_mset post_of (mset (ledgers p)))
        + generate_posts n (chain_ids links)"
    using arg_cong [OF ih, of book_accts] arg_cong [OF ih, of book_links] arg_cong [OF ih, of book_debts]
      arg_cong [OF ih, of book_posts] by (simp_all add: accts) (simp_all add: p3 post_entry use_credit_accts)
  have ids: "chain_ids (l # links) = ad_id c # chain_ids links" by (simp add: l chain_ids_def)
  have "books_of ?last =
      (books_of p)\<lparr>book_accts := charge (chain_ids (l # links)) n (accts_of p),
         book_links := link_used (chain_ids (l # links)) n (map link_of (credit_rows p)),
         book_posts := book_posts (books_of p) + generate_posts n (chain_ids (l # links))\<rparr>"
    by (rule books_eqI) (simp_all add: parts [unfolded mset_map] used ids charge_Cons [OF c] link_used_Cons [OF c] generate_posts_def)
  moreover have "rows_kept ?p3 = rows_kept p" by (simp add: p3)
  ultimately show ?case using rows by (simp add: l)
qed

section \<open>The funding of a batch\<close>

lemma quote_facts:
  assumes "prepare_batch_quote a plan quantity prefix valid now p = Inr q"
  shows "0 < q_total q" "0 < q_quantity q" "q_quantity q \<le> 500" "q_quantity q = quantity"
    and "get_admin (root_of a) p = Some (q_root q)" "q_parent q = ad_parent a"
    and "get_price_plan (strip plan) p = Some (q_plan q)" "q_total q = p_price (q_plan q) * quantity"
    and "p_active (q_plan q)" "q_price q = p_price (q_plan q)" "q_days q = p_days (q_plan q)"
    and "q_prefix q = upper (strip prefix)"
    and "q_expires q = map_option (\<lambda>n. now + days n) valid" "\<forall>n. valid = Some n \<longrightarrow> 0 < n"
proof -
  obtain n pre ex pl root where n: "normalize_batch_inputs quantity prefix valid now = Inr (n, pre, ex)"
    and pl: "get_price_plan (strip plan) p = Some pl" "0 < p_price pl" "p_active pl"
    and root: "get_admin (root_of a) p = Some root"
    and q: "q = \<lparr>q_plan = pl, q_quantity = n, q_prefix = pre, q_expires = ex, q_days = p_days pl,
                    q_parent = ad_parent a, q_price = p_price pl, q_total = p_price pl * n, q_root = root\<rparr>"
    using assms by (auto simp: prepare_batch_quote_def and_then_Inr not_le split: if_splits option.splits)
  have "0 < n \<and> n \<le> 500 \<and> n = quantity \<and> pre = upper (strip prefix) \<and> ex = map_option (\<lambda>n. now + days n) valid
      \<and> (\<forall>m. valid = Some m \<longrightarrow> 0 < m)"
    using n by (auto simp: normalize_batch_inputs_def Let_def not_le split: if_splits option.splits)
  then show "0 < q_total q" "0 < q_quantity q" "q_quantity q \<le> 500" "q_quantity q = quantity"
    "get_admin (root_of a) p = Some (q_root q)" "q_parent q = ad_parent a"
    "get_price_plan (strip plan) p = Some (q_plan q)" "q_total q = p_price (q_plan q) * quantity"
    "p_active (q_plan q)" "q_price q = p_price (q_plan q)" "q_days q = p_days (q_plan q)"
    "q_prefix q = upper (strip prefix)" "q_expires q = map_option (\<lambda>n. now + days n) valid"
    "\<forall>n. valid = Some n \<longrightarrow> 0 < n"
    using pl root by (simp_all add: q)
qed

lemma credit_validated:
  assumes "validate_credit_generation op root n p = Inr links"
  shows "0 < n" "collect_credit_chain p op [] = Inr links" "ad_used root + n \<le> ad_limit root"
    "\<forall>(c, par, row) \<in> set links. cl_used row + n \<le> cl_limit row"
    "ad_mode op \<in> {''credit'', ''hybrid''}" "ad_whitelisted op"
  using assms
  by (auto simp: validate_credit_generation_def ensure_credit_mode_allowed_def and_then_Inr list_ex_iff
      remaining_credit_def not_less split: if_splits)

text \<open>Room on every link of the chain is room on every link of the path.\<close>

lemma chain_room:
  assumes books: "books_ok (books_of p)" and chain: "chain_ok p links"
    and path: "up_path (accts_of p) i = chain_ids links @ [r]" and i: "get_admin i p = Some a"
    and room: "\<forall>(c, par, row) \<in> set links. cl_used row + n \<le> cl_limit row"
  shows "\<forall>l \<in> set (map link_of (credit_rows p)). li_child l \<in> set (up_path (accts_of p) i) \<longrightarrow> li_used l + n \<le> li_limit l"
proof (intro ballI impI)
  fix l assume l: "l \<in> set (map link_of (credit_rows p))" and on: "li_child l \<in> set (up_path (accts_of p) i)"
  have tree: "tree_ok (accts_of p)" and links: "links_ok (accts_of p) (map link_of (credit_rows p))"
    using books by (simp_all add: books_ok_def)
  have child: "\<exists>x. accts_of p (li_child l) = Some x \<and> ac_parent x \<noteq> None"
    using links l by (auto simp: links_ok_def link_ok_def)
  have "accts_of p i = Some (acct_of a)" using i by (simp add: accts_Some)
  then have "\<exists>x. accts_of p r = Some x \<and> ac_parent x = None" using root_is_top [OF tree, of i] path by simp
  with child have "li_child l \<noteq> r" by auto
  with on path obtain c par row where c: "(c, par, row) \<in> set links" "li_child l = ad_id c"
    by (auto simp: chain_ids_def)
  then have "get_credit (ad_id par) (ad_id c) p = Some row" using chain by (auto simp: chain_ok_def)
  then have row: "row \<in> set (credit_rows p)" "cl_child row = ad_id c" by (auto simp: get_credit_def dest: find_row_Some)
  obtain x where x: "x \<in> set (credit_rows p)" "l = link_of x" using l by auto
  have "distinct (map cl_child (credit_rows p))" using links by (simp add: links_ok_def comp_def link_of_def)
  moreover have "cl_child x = cl_child row" using x(2) c(2) row(2) by (simp add: link_of_def)
  ultimately have "x = row" using x(1) row(1) by (metis distinct_map inj_onD)
  with x have "l = link_of row" by simp
  then show "li_used l + n \<le> li_limit l" using room c(1) by (auto simp: link_of_def)
qed

lemma number_cards_frame [simp]:
  "admins (number_cards ks p) = admins p" "credit_rows (number_cards ks p) = credit_rows p"
  "batches (number_cards ks p) = batches p" "ledgers (number_cards ks p) = ledgers p"
  "next_admin (number_cards ks p) = next_admin p"
  by (simp_all add: number_cards_def)

lemma batch_records:
  assumes "create_batch_records q op province settlement payment source remark now p = Some (Inr (p', b))"
  obtains codes n where "b = new_batch q op province settlement payment remark (random_id p (ids_drawn p)) now"
    "get_batch (ba_id b) p = None"
    "choose_codes (q_prefix q) (nat (q_quantity q)) (p\<lparr>batches := batches p @ [b], ids_drawn := Suc (ids_drawn p)\<rparr>)
       = Some (Inr (codes, n))"
    "p' = number_cards (map (new_card q op (ba_id b) source now) (sort codes))
       (p\<lparr>batches := batches p @ [b], ids_drawn := Suc (ids_drawn p), codes_drawn := n\<rparr>)"
  using assms by (auto simp: create_batch_records_def Let_def and_then_Inr split: if_splits)

section \<open>A new batch\<close>

lemma generate_parts:
  assumes "generate_card_batch site ca plan quantity prefix valid funding now p = Some (Inr (p', b))"
  obtains op q p1 payment settlement source links p2 where "get_admin (ad_id ca) p = Some op"
    "prepare_batch_quote op plan quantity prefix valid now p = Inr q"
    "fund_batch ca op (lower (strip funding)) q p = Inr (p1, payment, settlement, source, links)"
    "create_batch_records q op site settlement payment source
        (''funding_source='' @ (if is_staff ca then ''platform'' else lower (strip funding))) now p1 = Some (Inr (p2, b))"
    "p' = book_batch ca op (lower (strip funding)) q links (ba_id b) p2"
    "lower (strip funding) \<in> {''balance'', ''credit''}"
  using assms by (auto simp: generate_card_batch_def Let_def and_then_Inr split: if_splits option.splits sum.splits)

text \<open>The records of a batch add its debt, if it has one, and nothing else.\<close>

lemma records_books:
  assumes rows: "rows_kept p"
    and run: "create_batch_records q op site settlement payment source remark now p = Some (Inr (p', b))"
    and state: "payment = ''credit'' \<and> settlement = ''pending'' \<or> payment = ''paid'' \<and> settlement = ''settled''"
  shows "accts_of p' = accts_of p" "credit_rows p' = credit_rows p" "ledgers p' = ledgers p" "rows_kept p'"
    "book_debts (books_of p') = book_debts (books_of p) @
       (if payment = ''credit'' then [\<lparr>de_batch = ba_id b, de_owner = ad_id op, de_liable = int_or (Some (ad_id op)) 0,
          de_total = q_total q\<rparr>] else [])"
    "ba_id b \<notin> ba_id ` set (batches p)" "get_admin i p' = get_admin i p" "get_credit x y p' = get_credit x y p"
proof -
  obtain codes n where b: "b = new_batch q op site settlement payment remark (random_id p (ids_drawn p)) now"
    and new: "get_batch (ba_id b) p = None"
    and p': "p' = number_cards (map (new_card q op (ba_id b) source now) (sort codes))
       (p\<lparr>batches := batches p @ [b], ids_drawn := Suc (ids_drawn p), codes_drawn := n\<rparr>)"
    using batch_records [OF run] by metis
  show "ba_id b \<notin> ba_id ` set (batches p)" using new by (auto simp: get_batch_def find_row_None)
  moreover have "batch_ok b" using state by (auto simp: b new_batch_def batch_ok_def pending_credit_def)
  ultimately show "rows_kept p'" using rows by (auto simp: p' rows_kept_def)
  show "book_debts (books_of p') = book_debts (books_of p) @
       (if payment = ''credit'' then [\<lparr>de_batch = ba_id b, de_owner = ad_id op, de_liable = int_or (Some (ad_id op)) 0,
          de_total = q_total q\<rparr>] else [])"
    using state by (auto simp: p' b new_batch_def pending_credit_def debt_of_def)
  show "accts_of p' = accts_of p" "credit_rows p' = credit_rows p" "ledgers p' = ledgers p"
    "get_admin i p' = get_admin i p" "get_credit x y p' = get_credit x y p"
    by (simp_all add: p' accts_of_def get_admin_def get_credit_def)
qed

lemma debt_ids: "de_batch ` set (book_debts (books_of p)) \<subseteq> ba_id ` set (batches p)"
  by (auto simp: debt_of_def)

lemma spend_batch:
  assumes rows: "rows_kept p" and books: "books_ok (books_of p)" and op: "get_admin (ad_id op) p = Some op"
    and q: "0 < q_total q" and pay: "apply_balance_generation op (q_total q) p = Inr p1"
    and run: "create_batch_records q op site ''settled'' ''paid'' source remark now p1 = Some (Inr (p2, b))"
    and p': "p' = add_ledger (entry scope (live op p2) counter ''consume_balance'' ''out'' (q_total q) bid None who) p2"
  shows "rows_kept p' \<and> book_step\<^sup>*\<^sup>* (books_of p) (books_of p')"
proof -
  let ?n = "q_total q" and ?i = "ad_id op"
  have enough: "?n \<le> ad_balance op" and p1: "p1 = upd_admin ?i (\<lambda>a. a\<lparr>ad_balance := ad_balance a - ?n\<rparr>) p"
    using pay by (auto simp: apply_balance_generation_def split: if_splits)
  have rows1: "rows_kept p1" using rows by (simp add: p1 rows_upd_admin)
  note rec = records_books [OF rows1 run]
  have "accts_of p1 = adj ?i (\<lambda>x. x\<lparr>ac_balance := ac_balance x - ?n\<rparr>) (accts_of p)"
    unfolding p1 by (rule accts_upd_admin) (simp_all add: acct_defs)
  then have "books_of p' = (books_of p)\<lparr>book_accts := adj ?i (\<lambda>x. x\<lparr>ac_balance := ac_balance x - ?n\<rparr>) (book_accts (books_of p)),
         book_posts := add_mset (''consume_balance'', ?i, ?n) (book_posts (books_of p))\<rparr>"
    using rec by (intro books_eqI) (simp_all add: p' post_entry, simp_all add: p1)
  moreover have "book_step (books_of p) \<dots>"
    by (rule book_step.spend [of _ _ "acct_of op"]) (use op q enough in \<open>simp_all add: accts_Some\<close>)
  ultimately show ?thesis using rec(4) by (auto simp: p')
qed

lemma borrow_batch:
  assumes rows: "rows_kept p" and books: "books_ok (books_of p)" and op: "get_admin (ad_id op) p = Some op"
    and valid: "validate_credit_generation op (q_root q) (q_total q) p = Inr links"
    and root: "get_admin (root_of op) p = Some (q_root q)"
    and run: "create_batch_records q op site ''pending'' ''credit'' source remark now p = Some (Inr (p2, b))"
    and p': "p' = apply_credit_generation links (q_root q) op (q_total q) (ba_id b) p2"
  shows "rows_kept p' \<and> book_step\<^sup>*\<^sup>* (books_of p) (books_of p')"
proof -
  let ?n = "q_total q" and ?i = "ad_id op" and ?r = "q_root q"
  note v = credit_validated [OF valid]
  note rec = records_books [OF rows run]
  have tree: "tree_ok (accts_of p)" using books by (simp add: books_ok_def)
  note chain = collected_chain [OF tree op v(2)]
  have r: "ad_id ?r = root_of op" by (rule get_admin_id [OF root])
  let ?path = "up_path (accts_of p) ?i"
  have path: "?path = chain_ids links @ [ad_id ?r]" using chain(2) r by simp
  have fresh: "ad_id ?r \<notin> set (chain_ids links)" "distinct (chain_ids links)"
    using up_path_distinct [of "accts_of p" ?i] unfolding path by auto
  have dist: "distinct (map cl_child (credit_rows p2))"
    using books rec(2) by (simp add: books_ok_def links_ok_def comp_def link_of_def)
  have links: "\<forall>(c, par, row) \<in> set links. get_credit (ad_id par) (ad_id c) p2 \<noteq> None
        \<and> cl_parent row = ad_id par \<and> cl_child row = ad_id c"
  proof clarify
    fix c par row assume "(c, par, row) \<in> set links"
    then have row: "get_credit (ad_id par) (ad_id c) p = Some row" using chain(1) by (auto simp: chain_ok_def)
    then have "cl_parent row = ad_id par \<and> cl_child row = ad_id c" by (auto simp: get_credit_def dest: find_row_Some)
    then show "get_credit (ad_id par) (ad_id c) p2 \<noteq> None \<and> cl_parent row = ad_id par \<and> cl_child row = ad_id c"
      using row rec(8) by simp
  qed
  let ?p3 = "fold (book_link ?n (ba_id b) ?i) links p2"
  note booked = book_links_effect [OF dist fresh(2) links, of ?n "ba_id b" ?i]
  have p'_eq: "p' = add_ledger (entry ''platform'' (live ?r (use_credit ?r ?n ?p3))
       (if ad_id ?r \<noteq> ?i then Some ?i else None) ''credit_generate'' ''out'' ?n (Some (ba_id b)) None ?i) (use_credit ?r ?n ?p3)"
    by (simp add: p' apply_credit_generation_def Let_def)
  have b3: "books_of ?p3 = (books_of p2)\<lparr>book_accts := charge (chain_ids links) ?n (accts_of p2),
         book_links := link_used (chain_ids links) ?n (map link_of (credit_rows p2)),
         book_posts := book_posts (books_of p2) + generate_posts ?n (chain_ids links)\<rparr>"
    using booked by simp
  have parts: "accts_of ?p3 = charge (chain_ids links) ?n (accts_of p)"
    "map link_of (credit_rows ?p3) = link_used (chain_ids links) ?n (map link_of (credit_rows p))"
    "map debt_of (filter pending_credit (batches ?p3)) = book_debts (books_of p2)"
    "image_mset post_of (mset (ledgers ?p3)) = image_mset post_of (mset (ledgers p)) + generate_posts ?n (chain_ids links)"
    using arg_cong [OF b3, of book_accts] arg_cong [OF b3, of book_links] arg_cong [OF b3, of book_debts]
      arg_cong [OF b3, of book_posts] rec by simp_all
  have whole: "adj (ad_id ?r) (add_used ?n) (charge (chain_ids links) ?n A) = charge ?path ?n A" for A
    using fresh(1) unfolding path by (intro ext) (auto simp: adj_def charge_def)
  have no_link: "link_used ?path ?n (map link_of (credit_rows p)) = link_used (chain_ids links) ?n (map link_of (credit_rows p))"
  proof -
    have "ac_parent x = None" if "accts_of p (ad_id ?r) = Some x" for x
      using root_is_top [OF tree, of ?i "acct_of op"] op that path by (simp add: accts_Some)
    then have "li_child l \<noteq> ad_id ?r" if "l \<in> set (map link_of (credit_rows p))" for l
      using books that by (fastforce simp: books_ok_def links_ok_def link_ok_def)
    then show ?thesis unfolding path by (auto simp: link_used_def)
  qed
  have pos: "0 < ?i" using tree op by (auto simp: tree_ok_def accts_Some)
  have "books_of p' = (books_of p)\<lparr>book_accts := charge ?path ?n (book_accts (books_of p)),
         book_links := link_used ?path ?n (book_links (books_of p)),
         book_debts := book_debts (books_of p) @ [\<lparr>de_batch = ba_id b, de_owner = ?i, de_liable = ?i, de_total = ?n\<rparr>],
         book_posts := book_posts (books_of p) + image_mset (\<lambda>j. (''credit_generate'', j, ?n)) (mset ?path)\<rparr>"
  proof (rule books_eqI)
    show "book_debts (books_of p') = book_debts ((books_of p)\<lparr>book_accts := charge ?path ?n (book_accts (books_of p)),
         book_links := link_used ?path ?n (book_links (books_of p)),
         book_debts := book_debts (books_of p) @ [\<lparr>de_batch = ba_id b, de_owner = ?i, de_liable = ?i, de_total = ?n\<rparr>],
         book_posts := book_posts (books_of p) + image_mset (\<lambda>j. (''credit_generate'', j, ?n)) (mset ?path)\<rparr>)"
      using parts(3) rec(5) pos by (simp add: p'_eq int_or_def)
  qed (simp_all add: p'_eq use_credit_accts whole parts [unfolded mset_map] no_link,
       simp add: path generate_posts_def post_entry)
  moreover have "book_step (books_of p) \<dots>"
  proof (rule book_step.borrow [of _ _ "acct_of op" _ _ _ "acct_of ?r"])
    show "\<forall>l \<in> set (book_links (books_of p)). li_child l \<in> set ?path \<longrightarrow> li_used l + ?n \<le> li_limit l"
      using chain_room [OF books chain(1) chain(2) op v(4)] by simp
    show "ba_id b \<notin> de_batch ` set (book_debts (books_of p))" using debt_ids rec(6) by blast
  qed (use op root v in \<open>simp_all add: accts_Some\<close>)
  moreover have "rows_kept p'" using booked rec(4) by (simp add: p'_eq)
  ultimately show ?thesis by simp
qed

lemma ledgered_generate:
  "ledgered accepted (\<lambda>p. map_option only_panel (generate_card_batch site ca plan quantity prefix valid funding now p))"
proof
  fix p p' assume rows: "rows_kept p" and books: "books_ok (books_of p)"
    and "map_option only_panel (generate_card_batch site ca plan quantity prefix valid funding now p) = Some (Inr p')"
  then obtain b where run: "generate_card_batch site ca plan quantity prefix valid funding now p = Some (Inr (p', b))"
    by (auto simp: only_panel_def and_then_Inr)
  let ?f = "lower (strip funding)"
  obtain op q p1 payment settlement source links p2 where op: "get_admin (ad_id ca) p = Some op"
    and q: "prepare_batch_quote op plan quantity prefix valid now p = Inr q"
    and fund: "fund_batch ca op ?f q p = Inr (p1, payment, settlement, source, links)"
    and rec: "create_batch_records q op site settlement payment source
        (''funding_source='' @ (if is_staff ca then ''platform'' else ?f)) now p1 = Some (Inr (p2, b))"
    and p': "p' = book_batch ca op ?f q links (ba_id b) p2" and f: "?f \<in> {''balance'', ''credit''}"
    using generate_parts [OF run] by metis
  have op': "get_admin (ad_id op) p = Some op" using op get_admin_id [OF op] by simp
  note qf = quote_facts [OF q]
  consider (staff) "is_staff ca" | (credit) "\<not> is_staff ca" "?f = ''credit''" | (balance) "\<not> is_staff ca" "?f = ''balance''"
    using f by auto
  then show "rows_kept p' \<and> book_step\<^sup>*\<^sup>* (books_of p) (books_of p')"
  proof cases
    case staff
    then have "p1 = p" "payment = ''paid''" "settlement = ''settled''" "p' = p2"
      using fund p' by (auto simp: fund_batch_def book_batch_def)
    with records_books [OF rows] rec have "rows_kept p'" "books_of p' = books_of p"
      by (auto intro!: books_eqI)
    then show ?thesis by simp
  next
    case credit
    then have p1: "p1 = p" "payment = ''credit''" "settlement = ''pending''"
      and v: "validate_credit_generation op (q_root q) (q_total q) p = Inr links"
      using fund by (auto simp: fund_batch_def and_then_Inr)
    have "p' = apply_credit_generation links (q_root q) op (q_total q) (ba_id b) p2"
      using credit p' by (simp add: book_batch_def)
    then show ?thesis using borrow_batch [OF rows books op' v qf(5)] rec p1 by metis
  next
    case balance
    then have p1: "apply_balance_generation op (q_total q) p = Inr p1" "payment = ''paid''" "settlement = ''settled''"
      using fund by (auto simp: fund_batch_def and_then_Inr)
    have "p' = add_ledger (entry (if ad_parent op = None then ''platform'' else ''channel'') (live op p2) (ad_parent op)
          ''consume_balance'' ''out'' (q_total q) (Some (ba_id b)) None (ad_id op)) p2"
      using balance p' by (simp add: book_batch_def)
    then show ?thesis using spend_batch [OF rows books op' qf(1) p1(1)] rec p1 by metis
  qed
qed

section \<open>Every request keeps the books\<close>

lemma ledgered_narrow: "ledgered a f \<Longrightarrow> (b \<Longrightarrow> a) \<Longrightarrow> ledgered b f"
  by (auto simp: ledgered_def)

lemma ledgered_cases:
  assumes "ledgered accepted (\<lambda>p. Some (only_panel (f p)))"
  shows "ledgered accepted (\<lambda>p. Some (if c then Inl e else only_panel (f p)))"
  using assms by (auto simp: ledgered_def)

lemmas handle_ops = handle.simps [THEN ext]

lemmas ledgered_ops = ledgered_whitelist ledgered_mode ledgered_price ledgered_profile ledgered_password
  ledgered_create_role ledgered_update_role ledgered_role_permissions ledgered_account_roles ledgered_staff
  ledgered_settle ledgered_recharge ledgered_generate
  ledgered_narrow [OF ledgered_limit] ledgered_narrow [OF ledgered_child]
  ledgered_narrow [OF ledgered_cases [OF ledgered_master]]

lemma ledgered_handle: "ledgered (payload_ok rq) (handle site ca now rq)"
  by (cases rq) (simp_all add: handle_ops ledgered_ops)

interpretation request: ledgered "payload_ok rq" "handle site ca now rq" for rq site ca now
  by (rule ledgered_handle)

interpretation restart: ledgered True "\<lambda>p. Some (Inr (panel_start st p))" for st
  by (rule ledgered_start)

definition panel_ok :: "panel \<Rightarrow> bool" where
  "panel_ok p \<longleftrightarrow> rows_kept p \<and> books_ok (books_of p)"

lemma panel_step_books:
  assumes "panel_ok p"
  shows "panel_ok (panel_step st e p) \<and> book_step\<^sup>*\<^sup>* (books_of p) (books_of (panel_step st e p))"
proof -
  have ok: "rows_kept p" "books_ok (books_of p)" using assms by (simp_all add: panel_ok_def)
  show ?thesis
  proof (cases e)
    case Restart
    then show ?thesis using restart.keeps [OF TrueI ok, of st] book_steps_ok [OF _ ok(2)]
      by (auto simp: panel_ok_def)
  next
    case (Request i now rq)
    show ?thesis
    proof (cases "panel_serve st i now rq p = p")
      case False
      then obtain ca p' where "payload_ok rq" "handle (st_province st) ca now rq p = Some (Inr p')"
          "panel_serve st i now rq p = p'"
        by (auto simp: panel_serve_def split: sum.splits option.splits if_splits)
      then show ?thesis using request.keeps [OF _ ok] book_steps_ok [OF _ ok(2)] Request
        by (fastforce simp: panel_ok_def)
    qed (use assms Request in simp)
  qed
qed

lemma panel_run_books:
  assumes "panel_ok p"
  shows "panel_ok (panel_run st es p) \<and> book_step\<^sup>*\<^sup>* (books_of p) (books_of (panel_run st es p))"
  using assms
proof (induction es arbitrary: p)
  case (Cons e es)
  from panel_step_books [OF Cons.prems, of st e] Cons.IH [of "panel_step st e p"] show ?case
    by (auto simp: panel_run_def intro: rtranclp_trans)
qed (simp add: panel_run_def)

lemma new_panel_ok: "panel_ok (new_panel ids codes offers)"
proof -
  have "books_of (new_panel ids codes offers) = empty_books"
    by (rule books_eqI) (auto simp: new_panel_def empty_panel_def empty_books_def accts_of_def get_admin_def)
  then show ?thesis by (simp add: panel_ok_def empty_books_ok rows_kept_def new_panel_def empty_panel_def)
qed

lemma reached_ok: "panel_ok (panel_run st es (new_panel ids codes offers))"
  using panel_run_books [OF new_panel_ok] by simp

end
