(* ===== verification/PanelTree.thy ===== *)
theory PanelTree
  imports PanelCredit
begin

text \<open>
  The level-by-level search finds the descendants, and in a kept tree the agents who see an
  account are those on its path.
\<close>

section \<open>The search\<close>

definition child_rel :: "panel \<Rightarrow> (int \<times> int) set" where
  "child_rel p = {(q, ad_id a) | q a. a \<in> set (admins p) \<and> ad_parent a = Some q}"

lemma children_rel: "set (children_of ids p) = child_rel p `` set ids"
  by (force simp: children_of_def child_rel_def split: option.splits)

lemma descend_Nil: "descend p [] visited = visited"
  by (subst descend.simps) simp

lemma descend_level:
  assumes "pending \<noteq> []" "found = remdups (filter (\<lambda>c. c \<notin> set visited) (children_of pending p))"
  shows "descend p pending visited = descend p found (visited @ found)"
  unfolding descend.simps [of p pending visited] Let_def assms(2) using assms(1) by (rule if_not_P)

lemma descend_correct:
  assumes "set visited \<subseteq> (child_rel p)\<^sup>+ `` {s}" "set pending \<subseteq> insert s (set visited)"
    and "child_rel p `` (insert s (set visited) - set pending) \<subseteq> set visited" "distinct visited"
  shows "set (descend p pending visited) = (child_rel p)\<^sup>+ `` {s} \<and> distinct (descend p pending visited)"
  using assms
proof (induction p pending visited rule: descend.induct)
  case (1 p pending visited)
  show ?case
  proof (cases "pending = []")
    case True
    then have closed: "child_rel p `` insert s (set visited) \<subseteq> set visited" using "1.prems"(3) by simp
    have "j \<in> set visited" if "(s, j) \<in> (child_rel p)\<^sup>+" for j
      using that by (induction rule: trancl_induct) (use closed in blast)+
    then show ?thesis using "1.prems"(1,4) True by (auto simp: descend_Nil)
  next
    case False
    let ?found = "remdups (filter (\<lambda>c. c \<notin> set visited) (children_of pending p))"
    have found: "set ?found = child_rel p `` set pending - set visited" by (auto simp: children_rel)
    have "child_rel p `` set pending \<subseteq> (child_rel p)\<^sup>+ `` {s}"
    proof
      fix j assume "j \<in> child_rel p `` set pending"
      then obtain k where k: "k \<in> set pending" "(k, j) \<in> child_rel p" by blast
      then have "k = s \<or> (s, k) \<in> (child_rel p)\<^sup>+" using "1.prems"(1,2) by blast
      with k(2) show "j \<in> (child_rel p)\<^sup>+ `` {s}" by (auto intro: trancl_into_trancl)
    qed
    then have one: "set (visited @ ?found) \<subseteq> (child_rel p)\<^sup>+ `` {s}" using "1.prems"(1) found by auto
    have two: "set ?found \<subseteq> insert s (set (visited @ ?found))" by auto
    have three: "child_rel p `` (insert s (set (visited @ ?found)) - set ?found) \<subseteq> set (visited @ ?found)"
      using "1.prems"(3) unfolding found set_append by blast
    have four: "distinct (visited @ ?found)" using "1.prems"(4) by auto
    show ?thesis
      unfolding descend_level [OF False refl] by (rule "1.IH" [OF False refl one two three four])
  qed
qed

lemma descendants:
  "set (list_descendant_ids i p) = (child_rel p)\<^sup>+ `` {i}" "distinct (list_descendant_ids i p)"
  "sorted (list_descendant_ids i p)"
  using descend_correct [of "[]" p i "[i]"] by (simp_all add: list_descendant_ids_def)

section \<open>Paths and descendants\<close>

lemma path_descendant:
  assumes tree: "tree_ok (accts_of p)" and "accts_of p j = Some x" "i \<in> set (up_path (accts_of p) j)" "i \<noteq> j"
  shows "(i, j) \<in> (child_rel p)\<^sup>+"
  using assms
proof (induction rule: tree_induct)
  case (top j x)
  then show ?case by (simp add: path_top [OF tree])
next
  case (child j x q)
  obtain a where a: "get_admin j p = Some a" "x = acct_of a" using child(1) by (auto simp: accts_Some)
  have "(q, j) \<in> child_rel p"
    using get_admin_in [OF a(1)] get_admin_id [OF a(1)] child(2) a(2) by (auto simp: child_rel_def)
  moreover have "i \<in> set (up_path (accts_of p) q)" using child by (simp add: path_child [OF tree child(1,2)])
  ultimately show ?case using child(4) by (cases "i = q") (auto intro: trancl_into_trancl)
qed

lemma get_admin_row:
  assumes "rows_kept p" "a \<in> set (admins p)"
  shows "get_admin (ad_id a) p = Some a"
proof -
  have "get_admin (ad_id a) p \<noteq> None" using assms(2) by (auto simp: get_admin_def find_row_None)
  then obtain x where x: "get_admin (ad_id a) p = Some x" by auto
  moreover have "x = a"
    using get_admin_in [OF x] get_admin_id [OF x] assms by (auto simp: rows_kept_def distinct_map dest: inj_onD)
  ultimately show ?thesis by simp
qed

lemma descendant_path:
  assumes rows: "rows_kept p" and tree: "tree_ok (accts_of p)" and "(i, j) \<in> (child_rel p)\<^sup>+"
  shows "i \<in> set (up_path (accts_of p) j) \<and> accts_of p j \<noteq> None \<and> i \<noteq> j"
proof -
  have up: "up_path (accts_of p) j = j # up_path (accts_of p) q \<and> accts_of p j \<noteq> None \<and> q < j"
    if edge: "(q, j) \<in> child_rel p" for q j
  proof -
    obtain a where a: "a \<in> set (admins p)" "ad_parent a = Some q" "ad_id a = j" using edge by (auto simp: child_rel_def)
    then have "accts_of p j = Some (acct_of a)" using get_admin_row [OF rows a(1)] by (simp add: accts_Some)
    moreover have "ac_parent (acct_of a) = Some q" using a(2) by simp
    moreover have "q < j" using tree calculation by (auto simp: tree_ok_def)
    ultimately show ?thesis using path_child [OF tree] by blast
  qed
  have "i \<in> set (up_path (accts_of p) j) \<and> accts_of p j \<noteq> None \<and> i < j"
    using assms(3) by (induction rule: trancl_induct) (auto dest!: up)
  then show ?thesis by simp
qed

lemma path_iff_descendant:
  assumes "rows_kept p" "tree_ok (accts_of p)" "accts_of p j \<noteq> None"
  shows "i \<in> set (up_path (accts_of p) j) \<longleftrightarrow> j = i \<or> j \<in> set (list_descendant_ids i p)"
  using assms path_descendant [of p j _ i] descendant_path [of p i j] by (auto simp: descendants)

text \<open>An agent who owes a batch sees it.\<close>

lemma liable_sees_batch:
  assumes ok: "panel_ok p" and b: "b \<in> set (batches p)" "pending_credit b" "ba_liable b = Some (ad_id a)"
    and a: "get_admin (ad_id a) p = Some a" "is_agent a"
  shows "ba_owner b \<in> set (visible_account_ids a p)"
proof -
  have tree: "tree_ok (accts_of p)" and debts: "debts_ok (accts_of p) (map debt_of (filter pending_credit (batches p)))"
    using ok by (simp_all add: panel_ok_def books_ok_def)
  have "0 < ad_id a" using tree a(1) by (auto simp: tree_ok_def accts_Some)
  then have "de_liable (debt_of b) = ad_id a" using b(3) by (simp add: debt_of_def int_or_def)
  moreover have "debt_of b \<in> set (map debt_of (filter pending_credit (batches p)))" using b by simp
  ultimately have "ad_id a \<in> set (up_path (accts_of p) (ba_owner b))" "accts_of p (ba_owner b) \<noteq> None"
    using debts by (force simp: debts_ok_def debt_of_def)+
  moreover obtain x where "accts_of p (ba_owner b) = Some x" using calculation(2) by auto
  ultimately have "ad_id a = ba_owner b \<or> (ad_id a, ba_owner b) \<in> (child_rel p)\<^sup>+"
    using path_descendant [OF tree, of "ba_owner b" x "ad_id a"] by blast
  then show ?thesis using a(2) agent_or_staff [of a] by (auto simp: visible_account_ids_def descendants)
qed

section \<open>When a settlement succeeds\<close>

text \<open>With the books kept, money is the only thing that can be missing.\<close>

lemma settlement_succeeds:
  assumes ok: "books_ok (add_posts Q (books_of p))"
    and b: "b \<in> set (batches p)" "pending_credit b" "ba_liable b = Some (ad_id a)"
    and a: "get_admin (ad_id a) p = Some a" and money: "ba_total b \<le> ad_prepay a"
  shows "\<exists>p'. apply_settlement_for_batch a b op req p = Inr p'
    \<and> batches p' = upd_where (\<lambda>x. ba_id x = ba_id b)
        (case ad_parent a of None \<Rightarrow> settle_up | Some q \<Rightarrow> (\<lambda>x. move_up (the (get_admin q p)) x)) (batches p)"
proof -
  let ?A = "accts_of p"
  have tree: "tree_ok ?A" and debts: "debts_ok ?A (map debt_of (filter pending_credit (batches p)))"
    and links: "links_ok ?A (map link_of (credit_rows p))"
    using ok by (simp_all add: books_ok_def)
  have acct: "?A (ad_id a) = Some (acct_of a)" using a by (simp add: accts_Some)
  have pos: "0 < ad_id a" using tree acct by (auto simp: tree_ok_def)
  then have liable: "int_or (ba_liable b) 0 = ad_id a" using b(3) by (simp add: int_or_def)
  let ?D = "map debt_of (filter pending_credit (batches p))"
  have d: "debt_of b \<in> set ?D" using b by simp
  have "ba_total b \<le> owed ?A ?D (ad_id a)"
  proof -
    let ?w = "\<lambda>x. if ad_id a \<in> set (up_path ?A (de_liable x)) then de_total x else 0"
    have "0 \<le> ?w x" if "x \<in> set ?D" for x using debts that by (auto simp: debts_ok_def less_imp_le)
    then have "\<And>y. y \<in> set (map ?w ?D) \<Longrightarrow> 0 \<le> y" by (metis (no_types, lifting) imageE set_map)
    moreover have "?w (debt_of b) \<in> set (map ?w ?D)" by (rule rev_image_eqI [OF d refl, folded set_map])
    ultimately have "?w (debt_of b) \<le> sum_list (map ?w ?D)" by (intro member_le_sum_list)
    moreover have "?w (debt_of b) = ba_total b" using liable by (simp add: debt_of_def)
    ultimately show ?thesis by (simp add: owed_def)
  qed
  moreover have "ac_used (acct_of a) = owed ?A ?D (ad_id a)" using debts acct unfolding debts_ok_def by blast
  ultimately have used: "ba_total b \<le> ad_used a" by simp
  show ?thesis
  proof (cases "ad_parent a")
    case None
    then show ?thesis using b(2) liable money used
      by (simp add: apply_settlement_for_batch_def Let_def pending_credit_def)
  next
    case (Some q)
    have "ad_id a \<in> li_child ` set (map link_of (credit_rows p))" using links acct Some by (simp add: links_ok_def)
    then obtain row where row: "row \<in> set (credit_rows p)" "cl_child row = ad_id a" by (auto simp: link_of_def)
    then have "cl_parent row = q" using links acct Some by (force simp: links_ok_def link_ok_def link_of_def)
    then have credit: "get_credit q (ad_id a) p \<noteq> None" using row by (auto simp: get_credit_def find_row_None)
    have up: "?A q \<noteq> None" "q < ad_id a" using tree acct Some by (auto simp: tree_ok_def)
    then obtain nx where nx: "get_admin q p = Some nx" by (auto simp: accts_None)
    have "get_admin q (upd_admin (ad_id a) (pay_off (ba_total b)) p) = Some nx" using nx up(2) by (simp add: get_admin_upd)
    then show ?thesis using b(2) liable money used Some credit nx
      by (auto simp: apply_settlement_for_batch_def Let_def pending_credit_def)
  qed
qed

end
