(* ===== verification/PanelFacts.thy ===== *)
theory PanelFacts
  imports PanelTree
begin

text \<open>
  What kept books mean for the rows of the tables: who owes a batch, how the delegated limits add
  up, and what a settlement, a recharge and the payment of a whole path do.
\<close>

section \<open>Sums over rows\<close>

lemma sum_by_key:
  assumes "distinct (map h xs)" "\<And>x. x \<in> set xs \<Longrightarrow> f x = (g (h x) :: int)"
  shows "(\<Sum>x\<leftarrow>xs. f x) = sum g (h ` set xs)"
proof -
  have "(\<Sum>x\<leftarrow>xs. f x) = sum_list (map g (map h xs))" using assms(2) by (auto intro!: arg_cong [of _ _ sum_list])
  also have "\<dots> = sum g (set (map h xs))" by (rule sum_list_distinct_conv_sum_set [OF assms(1)])
  finally show ?thesis by simp
qed

definition ledger_sum :: "string \<Rightarrow> int \<Rightarrow> panel \<Rightarrow> int" where
  "ledger_sum k i p = (\<Sum>l\<leftarrow>ledgers p. if le_type l = k \<and> le_account l = i then le_amount l else 0)"

lemma ledger_sum_posted: "ledger_sum k i p = posted k i (book_posts (books_of p))"
proof -
  have "posted k i (mset (map post_of ls)) = (\<Sum>l\<leftarrow>ls. if le_type l = k \<and> le_account l = i then le_amount l else 0)" for ls
    by (induction ls) (simp_all add: post_of_def)
  then show ?thesis by (simp add: ledger_sum_def del: mset_map)
qed

lemma money_of_account:
  assumes "panel_ok p" "get_admin i p = Some a"
  shows "0 \<le> ad_prepay a" "0 \<le> ad_balance a"
    "ad_balance a + ad_prepay a = ledger_sum ''recharge'' i p - ledger_sum ''consume_balance'' i p
       - ledger_sum ''credit_settlement'' i p"
    "ad_used a = ledger_sum ''credit_generate'' i p - ledger_sum ''credit_settlement'' i p"
proof -
  have "money_ok (accts_of p) (book_posts (books_of p))" using assms(1) by (simp add: panel_ok_def books_ok_def)
  moreover have "accts_of p i = Some (acct_of a)" using assms(2) by (simp add: accts_Some)
  ultimately have "0 \<le> ac_prepay (acct_of a) \<and> 0 \<le> ac_balance (acct_of a)
    \<and> ac_balance (acct_of a) + ac_prepay (acct_of a) = ledger_sum ''recharge'' i p - ledger_sum ''consume_balance'' i p
       - ledger_sum ''credit_settlement'' i p
    \<and> ac_used (acct_of a) = ledger_sum ''credit_generate'' i p - ledger_sum ''credit_settlement'' i p"
    unfolding ledger_sum_posted money_ok_def by blast
  then show "0 \<le> ad_prepay a" "0 \<le> ad_balance a"
    "ad_balance a + ad_prepay a = ledger_sum ''recharge'' i p - ledger_sum ''consume_balance'' i p
       - ledger_sum ''credit_settlement'' i p"
    "ad_used a = ledger_sum ''credit_generate'' i p - ledger_sum ''credit_settlement'' i p"
    by simp_all
qed

section \<open>Debts and limits\<close>

lemma pending_liable:
  assumes ok: "panel_ok p" and b: "b \<in> set (batches p)" "pending_credit b"
  shows "\<exists>l. ba_liable b = Some l \<and> 0 < l \<and> accts_of p l \<noteq> None \<and> l \<in> set (up_path (accts_of p) (ba_owner b))
    \<and> 0 < ba_total b \<and> accts_of p (ba_owner b) \<noteq> None"
proof -
  have tree: "tree_ok (accts_of p)" and "batch_ok b" and debts: "debts_ok (accts_of p) (book_debts (books_of p))"
    using ok b by (auto simp: panel_ok_def books_ok_def rows_kept_def)
  then obtain l where l: "ba_liable b = Some l" using b(2) by (auto simp: batch_ok_def)
  have "debt_of b \<in> set (book_debts (books_of p))" using b by simp
  then have d: "0 < ba_total b" "accts_of p (ba_owner b) \<noteq> None" "int_or (ba_liable b) 0 \<in> set (up_path (accts_of p) (ba_owner b))"
    using debts by (auto simp: debts_ok_def debt_of_def)
  then have known: "accts_of p (int_or (ba_liable b) 0) \<noteq> None" using path_known [OF tree] by blast
  then have "0 < int_or (ba_liable b) 0" using tree by (auto simp: tree_ok_def)
  then show ?thesis using l d known by (simp add: int_or_def split: if_splits)
qed

lemma used_is_owed_below:
  assumes ok: "panel_ok p" and a: "get_admin i p = Some a"
  shows "ad_used a = (\<Sum>b\<leftarrow>batches p.
     if pending_credit b \<and> ba_liable b \<in> Some ` set (i # list_descendant_ids i p) then ba_total b else 0)"
proof -
  have rows: "rows_kept p" and tree: "tree_ok (accts_of p)" using ok by (simp_all add: panel_ok_def books_ok_def)
  have "debts_ok (accts_of p) (book_debts (books_of p))" using ok by (simp add: panel_ok_def books_ok_def)
  moreover have "accts_of p i = Some (acct_of a)" using a by (simp add: accts_Some)
  ultimately have "ac_used (acct_of a) = owed (accts_of p) (book_debts (books_of p)) i" unfolding debts_ok_def by blast
  then have "ad_used a = owed (accts_of p) (book_debts (books_of p)) i" by simp
  also have "\<dots> = (\<Sum>b\<leftarrow>filter pending_credit (batches p).
      if i \<in> set (up_path (accts_of p) (int_or (ba_liable b) 0)) then ba_total b else 0)"
    by (simp add: owed_def comp_def debt_of_def cong: if_cong)
  also have "\<dots> = (\<Sum>b\<leftarrow>batches p. if pending_credit b
      then if i \<in> set (up_path (accts_of p) (int_or (ba_liable b) 0)) then ba_total b else 0 else 0)"
    by (rule sum_list_map_filter')
  also have "\<dots> = (\<Sum>b\<leftarrow>batches p.
     if pending_credit b \<and> ba_liable b \<in> Some ` set (i # list_descendant_ids i p) then ba_total b else 0)"
  proof (rule arg_cong [of _ _ sum_list], rule map_cong [OF refl])
    fix b assume b: "b \<in> set (batches p)"
    show "(if pending_credit b then if i \<in> set (up_path (accts_of p) (int_or (ba_liable b) 0)) then ba_total b else 0 else 0)
      = (if pending_credit b \<and> ba_liable b \<in> Some ` set (i # list_descendant_ids i p) then ba_total b else 0)"
    proof (cases "pending_credit b")
      case True
      then obtain l where l: "ba_liable b = Some l" "0 < l" "accts_of p l \<noteq> None" using pending_liable [OF ok b] by blast
      then show ?thesis using path_iff_descendant [OF rows tree l(3), of i] True by (auto simp: int_or_def)
    qed simp
  qed
  finally show ?thesis .
qed

lemma allocated_is_delegated:
  assumes ok: "panel_ok p" and a: "get_admin i p = Some a"
  shows "ad_allocated a = (\<Sum>c\<leftarrow>admins p. if ad_parent c = Some i then ad_limit c else 0)"
proof -
  let ?A = "accts_of p" and ?L = "book_links (books_of p)"
  let ?g = "\<lambda>c. case ?A c of None \<Rightarrow> 0 | Some x \<Rightarrow> if ac_parent x = Some i then ac_limit x else 0"
  have rows: "rows_kept p" and links: "links_ok ?A ?L" and limits: "limits_ok ?A ?L"
    using ok by (simp_all add: panel_ok_def books_ok_def)
  have "?A i = Some (acct_of a)" using a by (simp add: accts_Some)
  then have "ac_allocated (acct_of a) = allotted ?L i" using limits unfolding limits_ok_def by blast
  then have "ad_allocated a = allotted ?L i" by simp
  also have "\<dots> = sum ?g (li_child ` set ?L)"
    unfolding allotted_def by (rule sum_by_key) (use links in \<open>auto simp: links_ok_def link_ok_def\<close>)
  also have "\<dots> = sum ?g (ad_id ` set (admins p))"
  proof (rule sum.mono_neutral_left)
    show "li_child ` set ?L \<subseteq> ad_id ` set (admins p)"
    proof
      fix c assume "c \<in> li_child ` set ?L"
      then have "?A c \<noteq> None" using links unfolding links_ok_def link_ok_def by blast
      then obtain x where "get_admin c p = Some x" by (auto simp: accts_None)
      then show "c \<in> ad_id ` set (admins p)" using get_admin_in get_admin_id by blast
    qed
    show "\<forall>c \<in> ad_id ` set (admins p) - li_child ` set ?L. ?g c = 0"
    proof
      fix c assume c: "c \<in> ad_id ` set (admins p) - li_child ` set ?L"
      show "?g c = 0"
      proof (cases "?A c")
        case (Some x)
        then have "ac_parent x = None" using links c unfolding links_ok_def by blast
        then show ?thesis using Some by simp
      qed simp
    qed
  qed simp
  also have "\<dots> = (\<Sum>c\<leftarrow>admins p. if ad_parent c = Some i then ad_limit c else 0)"
  proof (rule sum_by_key [symmetric])
    show "distinct (map ad_id (admins p))" using rows by (simp add: rows_kept_def)
    show "(if ad_parent c = Some i then ad_limit c else 0) = ?g (ad_id c)" if "c \<in> set (admins p)" for c
      using get_admin_row [OF rows that] by (simp add: accts_of_def)
  qed
  finally show ?thesis .
qed

lemma credit_bounds:
  assumes ok: "panel_ok p" and a: "get_admin i p = Some a"
  shows "0 \<le> ad_used a" "0 \<le> ad_allocated a" "ad_allocated a \<le> ad_limit a" "ad_parent a \<noteq> None \<Longrightarrow> ad_used a \<le> ad_limit a"
proof -
  let ?A = "accts_of p" and ?L = "book_links (books_of p)"
  have links: "links_ok ?A ?L" and limits: "limits_ok ?A ?L" and rows: "rows_kept p"
    using ok by (simp_all add: panel_ok_def books_ok_def)
  have acct: "?A i = Some (acct_of a)" using a by (simp add: accts_Some)
  show "0 \<le> ad_used a"
    unfolding used_is_owed_below [OF ok a] using pending_liable [OF ok] by (fastforce intro!: sum_list_nonneg)
  have limit: "0 \<le> ad_limit c \<and> ad_allocated c \<le> ad_limit c" if "get_admin j p = Some c" for j c
  proof -
    have "?A j = Some (acct_of c)" using that by (simp add: accts_Some)
    then have "0 \<le> ac_limit (acct_of c) \<and> ac_allocated (acct_of c) \<le> ac_limit (acct_of c)"
      using limits unfolding limits_ok_def by blast
    then show ?thesis by simp
  qed
  then show "ad_allocated a \<le> ad_limit a" using a by blast
  have "0 \<le> ad_limit c" if "c \<in> set (admins p)" for c using limit [OF get_admin_row [OF rows that]] by simp
  then show "0 \<le> ad_allocated a" unfolding allocated_is_delegated [OF ok a] by (auto intro!: sum_list_nonneg)
  assume "ad_parent a \<noteq> None"
  then obtain l where "l \<in> set ?L" "li_child l = i" using links acct unfolding links_ok_def by force
  then have "link_ok ?A l" "li_child l = i" using links unfolding links_ok_def by blast+
  then show "ad_used a \<le> ad_limit a" using acct by (auto simp: link_ok_def)
qed

end
