(* ===== verification/PanelSettle.thy ===== *)
theory PanelSettle
  imports PanelFacts
begin

text \<open>
  Settlements in a kept database: the route of one batch, the accounts of a whole path one after
  the other, and the loop of a recharge, which never stops with an error.
\<close>

section \<open>One batch\<close>

definition passed_on :: "admin \<Rightarrow> panel \<Rightarrow> batch \<Rightarrow> batch" where
  "passed_on a p b =
     (case ad_parent a of None \<Rightarrow> settle_up b
      | Some q \<Rightarrow> b\<lparr>ba_liable := Some q, ba_counter := Option.bind (get_admin q p) ad_parent\<rparr>)"

lemma passed_on_id [simp]: "ba_id (passed_on a p b) = ba_id b" "ba_total (passed_on a p b) = ba_total b"
  by (simp_all add: passed_on_def settle_up_def split: option.split)

lemma get_batch_row:
  assumes "rows_kept p" "b \<in> set (batches p)"
  shows "get_batch (ba_id b) p = Some b"
proof -
  have "get_batch (ba_id b) p \<noteq> None" using assms(2) by (auto simp: get_batch_def find_row_None)
  then obtain x where x: "find_row (\<lambda>y. ba_id y = ba_id b) (batches p) = Some x" by (auto simp: get_batch_def)
  then have "x \<in> set (batches p)" "ba_id x = ba_id b" by (auto dest: find_row_Some)
  then have "x = b" using assms by (auto simp: rows_kept_def distinct_map dest: inj_onD)
  then show ?thesis using x by (simp add: get_batch_def)
qed

lemma get_batch_in: "get_batch i p = Some b \<Longrightarrow> b \<in> set (batches p) \<and> ba_id b = i"
  by (auto simp: get_batch_def dest: find_row_Some)

text \<open>The row that the table then holds.\<close>

lemma settlement_passes_on:
  assumes rows: "rows_kept p" and ok: "books_ok (add_posts Q (books_of p))"
    and b: "b \<in> set (batches p)" "pending_credit b" "ba_liable b = Some (ad_id a)"
    and a: "get_admin (ad_id a) p = Some a" and money: "ba_total b \<le> ad_prepay a"
  shows "\<exists>p'. apply_settlement_for_batch a b op req p = Inr p'
    \<and> batches p' = upd_where (\<lambda>x. ba_id x = ba_id b) (passed_on a p) (batches p)"
proof -
  obtain p' where run: "apply_settlement_for_batch a b op req p = Inr p'"
    and "batches p' = upd_where (\<lambda>x. ba_id x = ba_id b)
        (case ad_parent a of None \<Rightarrow> settle_up | Some q \<Rightarrow> (\<lambda>x. move_up (the (get_admin q p)) x)) (batches p)"
    using settlement_succeeds [OF ok b a money] by blast
  moreover have "(case ad_parent a of None \<Rightarrow> settle_up | Some q \<Rightarrow> (\<lambda>x. move_up (the (get_admin q p)) x)) x
      = passed_on a p x" if x: "x \<in> set (batches p)" "ba_id x = ba_id b" for x
  proof (cases "ad_parent a")
    case (Some q)
    have "accts_of p (ad_id a) = Some (acct_of a)" using a by (simp add: accts_Some)
    then have "accts_of p q \<noteq> None" using ok Some by (auto simp: books_ok_def tree_ok_def)
    then obtain y where y: "get_admin q p = Some y" by (auto simp: accts_None)
    have "x = b" using get_batch_row [OF rows b(1)] get_batch_row [OF rows x(1)] x(2) by simp
    then show ?thesis using Some b(2) y get_admin_id [OF y] by (simp add: passed_on_def move_up_def pending_credit_def)
  qed (simp add: passed_on_def)
  ultimately have "batches p' = upd_where (\<lambda>x. ba_id x = ba_id b) (passed_on a p) (batches p)"
    by (auto simp: upd_where_def)
  then show ?thesis using run by blast
qed

lemma settle_route:
  assumes ok: "panel_ok p" and b: "get_batch bid p = Some b" "pending_credit b" "ba_liable b = Some (ad_id a)"
    and a: "get_admin (ad_id a) p = Some a" "is_agent a" and bid: "strip bid = bid" "bid \<noteq> []"
  shows "if ba_total b \<le> ad_prepay a
    then \<exists>p'. settle_credit_batch a bid p = Inr p' \<and> get_batch bid p' = Some (passed_on a p b)
      \<and> (\<forall>j. get_admin j p' = (if j = ad_id a then Some (pay_off (ba_total b) a) else get_admin j p))
    else settle_credit_batch a bid p = Inl (Http 400 ''<prepay too low>'')"
proof -
  have rows: "rows_kept p" and books: "books_ok (books_of p)" using ok by (simp_all add: panel_ok_def)
  have inb: "b \<in> set (batches p)" "ba_id b = bid" using get_batch_in [OF b(1)] by auto
  have liable: "int_or (ba_liable b) 0 = ad_id a" using pending_liable [OF ok inb(1) b(2)] b(3) by (auto simp: int_or_def)
  let ?p0 = "p\<lparr>ids_drawn := Suc (ids_drawn p)\<rparr>"
  let ?req = "''direct-settle-'' @ take 20 (random_id p (ids_drawn p))"
  have route: "settle_credit_batch a bid p = apply_settlement_for_batch a b (ad_id a) ?req ?p0"
    using a b(1) bid liable liable_sees_batch [OF ok inb(1) b(2,3) a]
    by (simp add: settle_credit_batch_def draw_id_def)
  show ?thesis
  proof (cases "ba_total b \<le> ad_prepay a")
    case True
    have a0: "get_admin (ad_id a) ?p0 = Some a" using a by simp
    obtain p' where run: "apply_settlement_for_batch a b (ad_id a) ?req ?p0 = Inr p'"
      and b': "batches p' = upd_where (\<lambda>x. ba_id x = ba_id b) (passed_on a ?p0) (batches p)"
      using settlement_passes_on [of ?p0 "{#}" b a "ad_id a" ?req] rows books inb(1) b a True by auto
    have "passed_on a ?p0 = passed_on a p" by (rule ext) (simp add: passed_on_def split: option.split)
    then have "get_batch bid p' = Some (passed_on a p b)"
      using b(1) by (simp add: get_batch_def b' inb(2) find_row_upd_key)
    then show ?thesis using True route run settlement_effect(1) [OF a0 run] by auto
  next
    case False
    then show ?thesis using route b(2) liable by (simp add: apply_settlement_for_batch_def pending_credit_def)
  qed
qed

section \<open>A whole path\<close>

fun settle_in_turn :: "string \<Rightarrow> admin list \<Rightarrow> panel \<Rightarrow> http_error + panel" where
  "settle_in_turn bid [] p = Inr p"
| "settle_in_turn bid (a # as) p = and_then (settle_credit_batch a bid p) (settle_in_turn bid as)"

lemma settle_kept:
  assumes "panel_ok p" "settle_credit_batch a bid p = Inr p'"
  shows "panel_ok p'"
  using ledgered.keeps [OF ledgered_settle TrueI, of p a bid p'] ledgered.books [OF ledgered_settle TrueI, of p a bid p'] assms
  by (simp add: panel_ok_def)

lemma settle_same_tree:
  assumes "\<forall>j. get_admin j p' = (if j = ad_id a then Some (pay_off n a) else get_admin j p)"
    "get_admin (ad_id a) p = Some a"
  shows "up_path (accts_of p') i = up_path (accts_of p) i"
proof (rule up_path_cong)
  fix j show "map_option ac_parent (accts_of p' j) = map_option ac_parent (accts_of p j)"
    using assms by (auto simp: accts_of_def pay_def)
qed

lemma agent_pay_off [simp]: "is_agent (pay_off n a) = is_agent a"
  by (simp add: is_agent_def account_type_def pay_off_def)

lemma path_pays:
  assumes "panel_ok p" "get_batch bid p = Some b" "pending_credit b" "ba_liable b = Some l"
    and "strip bid = bid" "bid \<noteq> []" "map ad_id as = up_path (accts_of p) l"
    and "\<forall>a \<in> set as. get_admin (ad_id a) p = Some a \<and> is_agent a \<and> ba_total b \<le> ad_prepay a"
  shows "\<exists>p' b'. settle_in_turn bid as p = Inr p' \<and> get_batch bid p' = Some b' \<and> ba_payment b' = ''paid''
    \<and> (\<forall>j. get_admin j p' = (if j \<in> ad_id ` set as then map_option (pay_off (ba_total b)) (get_admin j p) else get_admin j p))"
  using assms
proof (induction as arbitrary: p b l)
  case Nil
  then have "up_path (accts_of p) l = []" by simp
  then show ?case by simp
next
  case (Cons a as)
  have tree: "tree_ok (accts_of p)" using Cons.prems(1) by (simp add: panel_ok_def books_ok_def)
  have a: "get_admin (ad_id a) p = Some a" "is_agent a" "ba_total b \<le> ad_prepay a" using Cons.prems(8) by auto
  have acct: "accts_of p (ad_id a) = Some (acct_of a)" using a by (simp add: accts_Some)
  have l: "l = ad_id a" using Cons.prems(7) up_path.simps [of "accts_of p" l] by simp
  obtain p1 where p1: "settle_credit_batch a bid p = Inr p1" "get_batch bid p1 = Some (passed_on a p b)"
    and eff: "\<forall>j. get_admin j p1 = (if j = ad_id a then Some (pay_off (ba_total b) a) else get_admin j p)"
    using settle_route [OF Cons.prems(1-3) _ a(1,2) Cons.prems(5,6)] Cons.prems(4) l a(3) by auto
  note ok1 = settle_kept [OF Cons.prems(1) p1(1)]
  show ?case
  proof (cases "ad_parent a")
    case None
    then have "as = []" using Cons.prems(7) l path_top [OF tree acct] by simp
    then show ?thesis using p1 eff None a(1) by (auto simp: passed_on_def settle_up_def)
  next
    case (Some q)
    let ?b = "passed_on a p b"
    have path: "up_path (accts_of p) l = ad_id a # up_path (accts_of p) q" using path_child [OF tree acct] Some l by simp
    then have rest: "map ad_id as = up_path (accts_of p1) q" using Cons.prems(7) settle_same_tree [OF eff a(1)] by simp
    have others: "ad_id a \<notin> ad_id ` set as"
      using up_path_distinct [of "accts_of p" l] path Cons.prems(7) by (metis distinct.simps(2) list.simps(9) set_map)
    have "pending_credit ?b" "ba_liable ?b = Some q"
      using Cons.prems(3) Some by (simp_all add: passed_on_def pending_credit_def)
    moreover have "\<forall>x \<in> set as. get_admin (ad_id x) p1 = Some x \<and> is_agent x \<and> ba_total ?b \<le> ad_prepay x"
      using Cons.prems(8) eff others by (auto simp: image_iff)
    ultimately obtain p' b' where p': "settle_in_turn bid as p1 = Inr p'" "get_batch bid p' = Some b'" "ba_payment b' = ''paid''"
      "\<forall>j. get_admin j p' = (if j \<in> ad_id ` set as then map_option (pay_off (ba_total b)) (get_admin j p1) else get_admin j p1)"
      using Cons.IH [OF ok1 p1(2) _ _ Cons.prems(5,6) rest] by auto
    have "get_admin j p' = (if j \<in> ad_id ` set (a # as) then map_option (pay_off (ba_total b)) (get_admin j p) else get_admin j p)" for j
      using p'(4) eff a(1) others by auto
    then show ?thesis using p1(1) p' by auto
  qed
qed

section \<open>The loop of a recharge\<close>

lemma own_pending_after:
  assumes "own_pending_batches i p = b # bs" "distinct (map ba_id (batches p))"
    and "batches p' = upd_where (\<lambda>x. ba_id x = ba_id b) g (batches p)"
    and "\<And>x. \<not> (ba_owner (g x) = i \<and> ba_liable (g x) = Some i \<and> pending_credit (g x))"
  shows "own_pending_batches i p' = bs"
proof -
  let ?P = "\<lambda>x. ba_owner x = i \<and> ba_liable x = Some i \<and> pending_credit x"
  have "filter ?P (upd_where (\<lambda>x. ba_id x = ba_id b) g xs) = filter (\<lambda>x. ba_id x \<noteq> ba_id b) (filter ?P xs)" for xs
    using assms(4) by (induction xs) (auto simp: upd_where_def)
  then have "own_pending_batches i p' = filter (\<lambda>x. ba_id x \<noteq> ba_id b) (own_pending_batches i p)"
    by (simp add: own_pending_batches_def filter_sort assms(3))
  moreover have "\<forall>x \<in> set bs. ba_id x \<noteq> ba_id b"
  proof -
    have "distinct (map ba_id (own_pending_batches i p))"
      using assms(2) by (auto simp: own_pending_batches_def distinct_map intro: inj_on_subset)
    then have "ba_id b \<notin> set (map ba_id bs)" by (simp add: assms(1))
    then show ?thesis by (metis image_eqI set_map)
  qed
  ultimately show ?thesis by (simp add: assms(1))
qed

lemma settle_batches_succeed:
  assumes "rows_kept p" "books_ok (add_posts Q (books_of p))" "get_admin i p = Some s" "bs = own_pending_batches i p"
  shows "\<exists>p' paid' ids'. settle_batches i op bs paid ids p = Inr (p', paid', ids')
    \<and> own_pending_batches i p' = drop (length (affordable (ad_prepay s) bs)) bs"
  using assms
proof (induction bs arbitrary: paid ids p s)
  case (Cons b bs)
  have id: "ad_id s = i" by (rule get_admin_id [OF Cons.prems(3)])
  have b: "b \<in> set (batches p)" "pending_credit b" "ba_liable b = Some (ad_id s)"
  proof -
    have "b \<in> set (own_pending_batches i p)" using Cons.prems(4) by (metis list.set_intros(1))
    then show "b \<in> set (batches p)" "pending_credit b" "ba_liable b = Some (ad_id s)"
      by (auto simp: own_pending_batches_def id)
  qed
  have "debt_of b \<in> set (map debt_of (filter pending_credit (batches p)))" using b by simp
  then have pos: "0 < ba_total b" using Cons.prems(2) by (auto simp: books_ok_def debts_ok_def debt_of_def)
  show ?case
  proof (cases "ba_total b \<le> ad_prepay s")
    case False
    then show ?thesis using pos Cons.prems(3) Cons.prems(4) [symmetric] by simp
  next
    case True
    let ?p0 = "p\<lparr>ids_drawn := Suc (ids_drawn p)\<rparr>"
    let ?req = "''direct-recharge-settle-'' @ take 20 (random_id p (ids_drawn p))"
    have s0: "get_admin (ad_id s) ?p0 = Some s" using Cons.prems(3) id by simp
    obtain p1 where p1: "apply_settlement_for_batch s b op ?req ?p0 = Inr p1"
      and b1: "batches p1 = upd_where (\<lambda>x. ba_id x = ba_id b) (passed_on s ?p0) (batches p)"
      using settlement_passes_on [of ?p0 Q b s op ?req] Cons.prems(1,2) b s0 True by auto
    have kept: "rows_kept p1" "books_ok (add_posts Q (books_of p1))"
      using settlement_step [of ?p0 Q s b op ?req p1] p1 Cons.prems(1,2) s0 b(1) book_step_ok by auto
    have s1: "get_admin i p1 = Some (pay_off (ba_total b) s)" using settlement_effect(1) [OF s0 p1] id by simp
    have "ad_parent s \<noteq> Some i"
    proof
      assume "ad_parent s = Some i"
      moreover have "accts_of p i = Some (acct_of s)" using Cons.prems(3) by (simp add: accts_Some)
      ultimately show False using Cons.prems(2) by (fastforce simp: books_ok_def tree_ok_def)
    qed
    then have "\<not> (ba_owner (passed_on s ?p0 x) = i \<and> ba_liable (passed_on s ?p0 x) = Some i \<and> pending_credit (passed_on s ?p0 x))" for x
      by (auto simp: passed_on_def settle_up_def split: option.split)
    then have rest: "bs = own_pending_batches i p1"
      using own_pending_after [OF Cons.prems(4) [symmetric] _ b1] Cons.prems(1) by (simp add: rows_kept_def)
    have more: "ad_prepay (pay_off (ba_total b) s) = ad_prepay s - ba_total b" by (simp add: pay_off_def)
    obtain p' paid' ids' where "settle_batches i op bs (paid + ba_total b) (ids @ [ba_id b]) p1 = Inr (p', paid', ids')"
      "own_pending_batches i p' = drop (length (affordable (ad_prepay s - ba_total b) bs)) bs"
      using Cons.IH [OF kept s1 rest, of "paid + ba_total b" "ids @ [ba_id b]"] more by auto
    then show ?thesis using Cons.prems(3) pos True p1 by (simp add: draw_id_def)
  qed
qed simp

text \<open>
  The agent after a recharge: what it paid is gone from its debt; what is left is kept as
  prepaid money while it still owes a batch, and becomes balance otherwise.
\<close>

definition recharged :: "int \<Rightarrow> int \<Rightarrow> bool \<Rightarrow> admin \<Rightarrow> admin" where
  "recharged amount paid owing a =
     (let left = ad_prepay a + amount - paid
      in a\<lparr>ad_used := ad_used a - paid, ad_prepay := (if owing then left else 0),
           ad_balance := (if owing then ad_balance a else ad_balance a + left)\<rparr>)"

lemma recharge_route:
  assumes ok: "panel_ok p" and ca: "get_admin (ad_id ca) p = Some ca" and a: "ensure_visible_account ca i p = Inr a"
    and agent: "is_agent a" and who: "is_staff ca \<or> ad_parent a = Some (ad_id ca)" and n: "0 < amount"
    and bs: "bs = own_pending_batches i p" "settled = affordable (ad_prepay a + amount) bs"
  shows "\<exists>p'. create_recharge_entry ca i amount p = Inr p'
    \<and> own_pending_batches i p' = drop (length settled) bs
    \<and> get_admin i p' = Some (recharged amount (total_of settled) (has_pending_credit_batches i p') a)"
proof -
  let ?p0 = "upd_admin i (\<lambda>a. a\<lparr>ad_prepay := ad_prepay a + amount\<rparr>) p"
  let ?a0 = "a\<lparr>ad_prepay := ad_prepay a + amount\<rparr>"
  have get: "get_admin i p = Some a" using a by (auto simp: ensure_visible_account_def split: option.splits if_splits)
  have rows: "rows_kept ?p0" using ok by (simp add: rows_upd_admin panel_ok_def)
  have books: "books_ok (add_posts {#(''recharge'', i, amount)#} (books_of ?p0))"
    using book_step_ok [OF prepay_step [OF get n]] ok by (simp add: panel_ok_def)
  have s0: "get_admin i ?p0 = Some ?a0" using get by (simp add: get_admin_upd)
  have bs0: "bs = own_pending_batches i ?p0" by (simp add: bs own_pending_batches_def)
  have "0 \<le> ad_prepay a" using money_of_account(1) [OF ok get] .
  then have pos: "\<not> ad_prepay ?a0 \<le> 0" using n by simp
  obtain p1 paid ids where run: "settle_batches i (ad_id ca) bs 0 [] ?p0 = Inr (p1, paid, ids)"
    and left: "own_pending_batches i p1 = drop (length settled) bs"
    using settle_batches_succeed [OF rows books s0 bs0, of "ad_id ca" 0 "[]"] by (auto simp: bs)
  have i1: "get_admin i p1 = Some (pay_off (total_of settled) ?a0)"
    using settle_batches_effect [OF run s0] by (simp add: bs)
  have "0 \<le> ad_prepay (pay_off (total_of settled) ?a0)"
  proof -
    have "set bs \<subseteq> set (batches ?p0)" "distinct (map ba_id bs)"
      using own_pending_in own_pending_distinct [OF rows] unfolding bs0 by blast+
    then have "books_ok (add_posts {#(''recharge'', i, amount)#} (books_of p1))"
      using settle_batches_steps [OF run rows books] book_steps_ok [OF _ books] by blast
    moreover have "accts_of p1 i = Some (acct_of (pay_off (total_of settled) ?a0))" using i1 by (simp add: accts_of_def)
    ultimately have "0 \<le> ac_prepay (acct_of (pay_off (total_of settled) ?a0))" using purse by fastforce
    then show ?thesis unfolding acct_of_sel .
  qed
  then have top: "get_admin i (top_up_balance i p1) = Some (recharged amount (total_of settled) (has_pending_credit_batches i p1) a)"
    using i1 by (auto simp: top_up_balance_def get_admin_upd recharged_def pay_off_def)
  let ?p2 = "top_up_balance i p1"
  let ?p' = "add_ledger (recharge_entry (live ca ?p2) (live a ?p2) amount) ?p2"
  have "auto_settle_credit_batches i (ad_id ca) ?p0 = Inr (p1, paid, ids)"
    using pos run by (simp add: auto_settle_credit_batches_def s0 bs0)
  moreover have "\<not> (\<not> is_staff ca \<and> int_or (ad_parent a) 0 \<noteq> ad_id ca)" using who by (auto simp: int_or_def)
  ultimately have "create_recharge_entry ca i amount p = Inr ?p'"
    using n ca a agent by (simp add: create_recharge_entry_def Let_def)
  moreover have "own_pending_batches i ?p' = drop (length settled) bs"
    using left by (simp add: own_pending_batches_def top_up_balance_def)
  moreover have "has_pending_credit_batches i ?p' = has_pending_credit_batches i p1"
    by (simp add: has_pending_credit_batches_def top_up_balance_def)
  ultimately show ?thesis using top by auto
qed

end
