(* ===== verification/PanelCards.thy ===== *)
theory PanelCards
  imports PanelSettle
begin

text \<open>
  The cards of a batch: the codes that are chosen are new and different from each other, the
  choice ends when the random codes do not run dry, and the remark of the batch tells how it was
  funded.
\<close>

section \<open>What the search for codes returns\<close>

lemma distinct_length_insert: "distinct xs \<Longrightarrow> length (List.insert x xs) = (if x \<in> set xs then length xs else Suc (length xs))"
  by (simp add: List.insert_def)

lemma draw_codes_facts:
  "draw_codes k draws prefix q codes n = (codes', n') \<Longrightarrow> distinct codes \<Longrightarrow> length codes \<le> q \<Longrightarrow>
   distinct codes' \<and> length codes' \<le> q \<and> set codes' \<subseteq> set codes \<union> range (\<lambda>m. generate_card_code prefix (draws m))"
proof (induction k draws prefix q codes n rule: draw_codes.induct)
  case (2 k draws prefix q codes n)
  show ?case
  proof (cases "length codes < q")
    case True
    let ?c = "List.insert (generate_card_code prefix (draws n)) codes"
    have "distinct ?c" "length ?c \<le> q" "set ?c \<subseteq> set codes \<union> range (\<lambda>m. generate_card_code prefix (draws m))"
      using "2.prems"(2) True by (auto simp: distinct_length_insert)
    then show ?thesis using "2.IH" [OF True] "2.prems"(1) True by auto
  qed (use "2.prems" in auto)
qed auto

definition drawn :: "(nat \<Rightarrow> string) \<Rightarrow> string \<Rightarrow> nat \<Rightarrow> nat \<Rightarrow> string set" where
  "drawn draws prefix n n' = (\<lambda>m. generate_card_code prefix (draws m)) ` {n..<n'}"

lemma drawn_first:
  assumes "n < n'"
  shows "drawn draws prefix n n' = insert (generate_card_code prefix (draws n)) (drawn draws prefix (Suc n) n')"
proof -
  have "{n..<n'} = insert n {Suc n..<n'}" using assms by auto
  then show ?thesis by (simp add: drawn_def)
qed

lemma top_up_facts:
  "top_up draws prefix q codes n = Some r \<Longrightarrow> distinct codes \<and> length codes \<le> q \<longrightarrow>
     distinct (fst r) \<and> length (fst r) = q \<and> set (fst r) = set codes \<union> drawn draws prefix n (snd r)
   \<and> n \<le> snd r \<and> (length codes < q \<longrightarrow> n < snd r)"
proof (induction draws prefix q codes n r rule: top_up.raw_induct [rotated, consumes 1, case_names step])
  case (step top_up draws prefix q codes n r)
  show ?case
  proof (cases "length codes < q")
    case True
    let ?c = "generate_card_code prefix (draws n)"
    have rest: "top_up draws prefix q (List.insert ?c codes) (Suc n) = Some r" using step(2) True by simp
    show ?thesis
    proof
      assume "distinct codes \<and> length codes \<le> q"
      then have "distinct (List.insert ?c codes) \<and> length (List.insert ?c codes) \<le> q" using True by (simp add: distinct_length_insert)
      with step(1) [OF rest] show "distinct (fst r) \<and> length (fst r) = q \<and> set (fst r) = set codes \<union> drawn draws prefix n (snd r)
        \<and> n \<le> snd r \<and> (length codes < q \<longrightarrow> n < snd r)"
        using drawn_first [of n "snd r" draws prefix] by auto
    qed
  qed (use step(2) in \<open>auto simp: drawn_def\<close>)
qed

lemma avoid_existing_facts:
  "avoid_existing ex draws prefix q codes n = Some r \<Longrightarrow> distinct codes \<and> length codes = q \<longrightarrow>
     distinct (fst r) \<and> length (fst r) = q \<and> set (fst r) \<inter> set ex = {}
   \<and> set (fst r) \<subseteq> set codes \<union> range (\<lambda>m. generate_card_code prefix (draws m))"
proof (induction ex draws prefix q codes n r rule: avoid_existing.raw_induct [rotated, consumes 1, case_names step])
  case (step avoid ex draws prefix q codes n r)
  show ?case
  proof (cases "list_all (\<lambda>c. c \<notin> set ex) codes")
    case False
    let ?good = "filter (\<lambda>c. c \<notin> set ex) codes"
    obtain codes' n' where up: "top_up draws prefix q ?good n = Some (codes', n')"
      and rest: "avoid ex draws prefix q codes' n' = Some r"
      using step(2) False by (auto simp: bind_eq_Some_conv split: prod.splits)
    show ?thesis
    proof
      assume c: "distinct codes \<and> length codes = q"
      then have "distinct ?good \<and> length ?good \<le> q" by auto
      with top_up_facts [OF up] have "distinct codes' \<and> length codes' = q"
        "set codes' = set ?good \<union> drawn draws prefix n n'" by auto
      with step(1) [OF rest] show "distinct (fst r) \<and> length (fst r) = q \<and> set (fst r) \<inter> set ex = {}
        \<and> set (fst r) \<subseteq> set codes \<union> range (\<lambda>m. generate_card_code prefix (draws m))"
        by (auto simp: drawn_def)
    qed
  qed (use step(2) in \<open>auto simp: list_all_iff\<close>)
qed

lemma choose_codes_facts:
  assumes "choose_codes prefix q p = Some (Inr (codes, n))"
  shows "distinct codes \<and> length codes = q \<and> set codes \<inter> k_code ` set (card_rows p) = {}
    \<and> set codes \<subseteq> range (\<lambda>m. generate_card_code prefix (random_code p m))"
proof -
  obtain cs m where d: "draw_codes (q * 20) (random_code p) prefix q [] (codes_drawn p) = (cs, m)" by fastforce
  from draw_codes_facts [OF d] have cs: "distinct cs" "length cs \<le> q"
    "set cs \<subseteq> range (\<lambda>m. generate_card_code prefix (random_code p m))" by auto
  have "avoid_existing (map k_code (card_rows p)) (random_code p) prefix q cs m = Some (codes, n)" "\<not> length cs < q"
    using assms d by (auto simp: choose_codes_def split: if_splits)
  with avoid_existing_facts [OF this(1)] cs show ?thesis by auto
qed

section \<open>The search ends\<close>

text \<open>
  The supply does not run dry: for every set of at most \<open>k\<close> words, a later draw is another word.
\<close>

definition never_dry :: "nat \<Rightarrow> (nat \<Rightarrow> string) \<Rightarrow> bool" where
  "never_dry k draws \<longleftrightarrow> (\<forall>n F. finite F \<longrightarrow> card F \<le> k \<longrightarrow> (\<exists>m \<ge> n. draws m \<notin> F))"

lemma inj_never_dry:
  assumes "inj draws"
  shows "never_dry k draws"
  unfolding never_dry_def
proof (intro allI impI)
  fix n and F :: "string set" assume "finite F"
  moreover have "infinite (draws ` {n..})" using assms by (simp add: finite_image_iff inj_on_subset infinite_Ici)
  ultimately have "\<not> draws ` {n..} \<subseteq> F" using finite_subset by blast
  then show "\<exists>m \<ge> n. draws m \<notin> F" by auto
qed

lemma never_dry_code:
  assumes "never_dry k draws" "finite F" "card F \<le> k"
  shows "\<exists>m \<ge> n. generate_card_code prefix (draws m) \<notin> F"
proof -
  let ?G = "{s. generate_card_code prefix s \<in> F}"
  have inj: "inj_on (generate_card_code prefix) ?G" by (rule inj_onI) (simp add: generate_card_code_def)
  have image: "generate_card_code prefix ` ?G \<subseteq> F" by auto
  have "finite ?G" using inj image assms(2) by (meson finite_imageD finite_subset)
  moreover have "card ?G \<le> k" using card_inj_on_le [OF inj image assms(2)] assms(3) by simp
  ultimately show ?thesis using assms(1) by (auto simp: never_dry_def)
qed

lemma top_up_ends:
  assumes dry: "never_dry q draws"
  shows "distinct codes \<Longrightarrow> \<exists>r. top_up draws prefix q codes n = Some r"
proof (induction "q - length codes" arbitrary: codes n rule: less_induct)
  case less
  note outer = less
  show ?case
  proof (cases "length codes < q")
    case True
    have "card (set codes) \<le> q" using True card_length [of codes] by simp
    then obtain m where m: "n \<le> m" "generate_card_code prefix (draws m) \<notin> set codes"
      using never_dry_code [OF dry] by blast
    then show ?thesis
    proof (induction "m - n" arbitrary: n)
      case 0
      then have "m = n" by simp
      moreover have "\<exists>r. top_up draws prefix q (List.insert (generate_card_code prefix (draws m)) codes) (Suc m) = Some r"
        using outer(1,2) True 0(3) by (simp add: distinct_length_insert)
      ultimately show ?case using True by (simp add: top_up.simps [of _ _ _ codes])
    next
      case (Suc d)
      show ?case
      proof (cases "generate_card_code prefix (draws n) \<in> set codes")
        case True
        then have same: "List.insert (generate_card_code prefix (draws n)) codes = codes" by simp
        have "\<exists>r. top_up draws prefix q codes (Suc n) = Some r"
          by (rule Suc(1) [of "Suc n"]) (use Suc in auto)
        then show ?thesis using \<open>length codes < q\<close> top_up.simps [of draws prefix q codes n] by (simp add: same)
      next
        case False
        then have "\<exists>r. top_up draws prefix q (List.insert (generate_card_code prefix (draws n)) codes) (Suc n) = Some r"
          using outer(1,2) \<open>length codes < q\<close> by (simp add: distinct_length_insert)
        then show ?thesis using \<open>length codes < q\<close> top_up.simps [of draws prefix q codes n] by simp
      qed
    qed
  qed (simp add: top_up.simps)
qed

lemma never_dry_mono: "never_dry k draws \<Longrightarrow> j \<le> k \<Longrightarrow> never_dry j draws"
  unfolding never_dry_def by (meson order_trans)

text \<open>A round either keeps one code more, or comes closer to the draw of a new one.\<close>

lemma avoid_existing_ends:
  assumes dry: "never_dry (q + length ex) draws"
  shows "distinct codes \<Longrightarrow> length codes = q \<Longrightarrow> \<exists>r. avoid_existing ex draws prefix q codes n = Some r"
proof (induction "q - card (set codes - set ex)" arbitrary: codes n rule: less_induct)
  case less
  note outer = less
  have "card (set ex \<union> set codes) \<le> q + length ex"
    using card_Un_le [of "set ex" "set codes"] card_length [of ex] card_length [of codes] less(3) by linarith
  then obtain m where "n \<le> m" "generate_card_code prefix (draws m) \<notin> set ex \<union> set codes"
    using never_dry_code [OF dry, of "set ex \<union> set codes"] by blast
  then have "n \<le> m" "generate_card_code prefix (draws m) \<notin> set ex \<union> (set codes - set ex)" by auto
  moreover define good where "good = set codes - set ex"
  ultimately have m: "n \<le> m" "generate_card_code prefix (draws m) \<notin> set ex \<union> good" by simp_all
  have bigger: "\<exists>r. avoid_existing ex draws prefix q cs k = Some r"
    if "q - card (set cs - set ex) < q - card good" "distinct cs" "length cs = q" for cs k
    using outer(1) [of cs k] that by (simp add: good_def)
  show ?case using m good_def less(2,3)
  proof (induction "m - n" arbitrary: n codes rule: less_induct)
    case (less n codes)
    show ?case
    proof (cases "list_all (\<lambda>c. c \<notin> set ex) codes")
      case True
      then show ?thesis by (simp add: avoid_existing.simps)
    next
      case False
      let ?g = "filter (\<lambda>c. c \<notin> set ex) codes"
      have short: "length ?g < q" using False less.prems(5) by (metis (lifting) list_all_iff length_filter_less)
      have set_g: "set ?g = good" using less.prems(3) by auto
      obtain codes' n' where up: "top_up draws prefix q ?g n = Some (codes', n')"
        using top_up_ends [OF never_dry_mono [OF dry], where codes = ?g and n = n and prefix = prefix and q = q] less.prems(4)
        by auto
      have u: "distinct codes'" "length codes' = q" "set codes' = good \<union> drawn draws prefix n n'" "n < n'"
        using top_up_facts [OF up] less.prems(4) short set_g by auto
      have "\<exists>r. avoid_existing ex draws prefix q codes' n' = Some r"
      proof (cases "set codes' - set ex = good")
        case True
        have close: "n' \<le> m"
        proof (rule ccontr)
          assume "\<not> n' \<le> m"
          then have "generate_card_code prefix (draws m) \<in> set codes' - set ex"
            using less.prems(1,2) u(3) by (auto simp: drawn_def)
          then show False using True less.prems(2) by simp
        qed
        show ?thesis
          by (rule less.hyps [OF _ close less.prems(2) True [symmetric] u(1,2)]) (use u(4) close in linarith)
      next
        case False
        have "good \<subset> set codes' - set ex" using False u(3) set_g by auto
        then have "card good < card (set codes' - set ex)" by (intro psubset_card_mono) auto
        moreover have "card (set codes' - set ex) \<le> q" using u(2) card_length [of codes']
          by (metis card_mono Diff_subset List.finite_set order_trans)
        ultimately have "q - card (set codes' - set ex) < q - card good" by simp
        then show ?thesis using bigger u(1,2) by blast
      qed
      then show ?thesis using False up by (simp add: avoid_existing.simps [of ex draws prefix q codes n])
    qed
  qed
qed

lemma choose_codes_ends:
  assumes "never_dry (q + length (card_rows p)) (random_code p)"
  shows "choose_codes prefix q p \<noteq> None"
proof -
  obtain cs m where d: "draw_codes (q * 20) (random_code p) prefix q [] (codes_drawn p) = (cs, m)" by fastforce
  from draw_codes_facts [OF d] have cs: "distinct cs" "length cs \<le> q" by auto
  show ?thesis
  proof (cases "length cs < q")
    case False
    then obtain r where "avoid_existing (map k_code (card_rows p)) (random_code p) prefix q cs m = Some r"
      using avoid_existing_ends [of q "map k_code (card_rows p)" "random_code p" cs prefix m] assms cs by auto
    then show ?thesis using d False by (simp add: choose_codes_def)
  qed (simp add: choose_codes_def d)
qed

lemma records_end:
  assumes "never_dry (500 + length (card_rows p)) (random_code p)" "q_quantity q \<le> 500"
  shows "create_batch_records q op site settlement payment source remark now p \<noteq> None"
proof -
  have "choose_codes (q_prefix q) (nat (q_quantity q)) (p\<lparr>batches := bs, ids_drawn := n\<rparr>) \<noteq> None" for bs n
    using choose_codes_ends [of "nat (q_quantity q)" "p\<lparr>batches := bs, ids_drawn := n\<rparr>" "q_prefix q"]
      never_dry_mono [OF assms(1), of "nat (q_quantity q) + length (card_rows p)"] assms(2) by simp
  then show ?thesis by (simp add: create_batch_records_def Let_def)
qed

lemma fund_frame:
  "fund_batch ca op source q p = Inr (p1, rest) \<Longrightarrow> card_rows p1 = card_rows p \<and> random_code p1 = random_code p
    \<and> random_id p1 = random_id p \<and> ids_drawn p1 = ids_drawn p \<and> batches p1 = batches p"
  by (cases rest) (auto simp: fund_batch_def apply_balance_generation_def upd_admin_def and_then_Inr split: if_splits)

lemma generate_ends:
  assumes "never_dry (500 + length (card_rows p)) (random_code p)"
  shows "generate_card_batch site ca plan quantity prefix valid funding now p \<noteq> None"
proof
  assume none: "generate_card_batch site ca plan quantity prefix valid funding now p = None"
  obtain op q p1 payment settlement source links where q: "prepare_batch_quote op plan quantity prefix valid now p = Inr q"
    and fund: "fund_batch ca op (lower (strip funding)) q p = Inr (p1, payment, settlement, source, links)"
    and none': "create_batch_records q op site settlement payment source
        (''funding_source='' @ (if is_staff ca then ''platform'' else lower (strip funding))) now p1 = None"
    using none by (auto simp: generate_card_batch_def Let_def split: if_splits option.splits sum.splits prod.splits)
  have "create_batch_records q op site settlement payment source
        (''funding_source='' @ (if is_staff ca then ''platform'' else lower (strip funding))) now p1 \<noteq> None"
    using quote_facts(3) [OF q] fund_frame [OF fund] assms by (intro records_end) auto
  then show False using none' by simp
qed

section \<open>What is generated\<close>

lemma after_key_self: "after_key k (k @ s) = Some s"
proof (cases "k @ s")
  case (Cons c cs)
  have "starts_with k (k @ s)" "drop (length k) (k @ s) = s" by (simp_all add: starts_with_def)
  then show ?thesis unfolding Cons by simp
qed simp

lemma funding_read_back:
  assumes "ba_remark b = Some (''funding_source='' @ f)" "f \<in> {''platform'', ''balance'', ''credit''}"
  shows "extract_batch_funding_source b = Inr f"
proof -
  have f: "after_key ''funding_source='' (strip (str_or (Some (''funding_source='' @ f)) [])) = Some f"
    "takeWhile (\<lambda>c. \<not> is_space c) (dropWhile is_space f) = f" "lower (strip f) = f" "(f = []) = False"
    using assms(2) by (elim insertE emptyE; hypsubst; code_simp)+
  show ?thesis
    unfolding extract_batch_funding_source_def assms(1) f option.case Let_def if_False using assms(2) by (rule if_P)
qed

lemma numbered:
  assumes "length is = length ks"
  shows "map k_code (map (\<lambda>(i, k). k\<lparr>k_id := i\<rparr>) (zip is ks)) = map k_code ks"
    and "(\<And>i k. k \<in> set ks \<Longrightarrow> P (k\<lparr>k_id := i\<rparr>)) \<Longrightarrow> list_all P (map (\<lambda>(i, k). k\<lparr>k_id := i\<rparr>) (zip is ks))"
  using assms by (induction "is" ks rule: list_induct2) simp_all

lemma book_batch_frame:
  "card_rows (book_batch ca op source q links bid p) = card_rows p"
  "batches (book_batch ca op source q links bid p) = batches p"
proof -
  have "card_rows (fold (book_link n i who) links p) = card_rows p \<and> batches (fold (book_link n i who) links p) = batches p"
    for n i who p
    by (induction links arbitrary: p)
       (auto simp: book_link_def Let_def use_credit_def upd_credit_def upd_admin_def add_ledger_def)
  then show "card_rows (book_batch ca op source q links bid p) = card_rows p"
    "batches (book_batch ca op source q links bid p) = batches p"
    by (simp_all add: book_batch_def apply_credit_generation_def Let_def use_credit_def upd_admin_def add_ledger_def)
qed

lemma generated:
  assumes run: "generate_card_batch site ca plan quantity prefix valid funding now p = Some (Inr (p', b))"
  shows "\<exists>ks op. get_admin (ad_id ca) p = Some op
    \<and> card_rows p' = card_rows p @ ks \<and> int (length ks) = quantity \<and> ba_quantity b = quantity
    \<and> distinct (map k_code ks) \<and> k_code ` set ks \<inter> k_code ` set (card_rows p) = {}
    \<and> list_all (\<lambda>k. k_batch k = Some (ba_id b) \<and> k_owner k = Some (ad_id op) \<and> \<not> k_used k \<and> k_active k
        \<and> k_price k = ba_price b \<and> k_days k = Some (ba_days b)) ks
    \<and> ba_total b = ba_price b * quantity \<and> batches p' = batches p @ [b] \<and> get_batch (ba_id b) p = None
    \<and> extract_batch_funding_source b = Inr (if is_staff ca then ''platform'' else lower (strip funding))"
proof -
  let ?f = "lower (strip funding)"
  obtain op q p1 payment settlement source links p2 where op: "get_admin (ad_id ca) p = Some op"
    and q: "prepare_batch_quote op plan quantity prefix valid now p = Inr q"
    and fund: "fund_batch ca op ?f q p = Inr (p1, payment, settlement, source, links)"
    and rec: "create_batch_records q op site settlement payment source
        (''funding_source='' @ (if is_staff ca then ''platform'' else ?f)) now p1 = Some (Inr (p2, b))"
    and p': "p' = book_batch ca op ?f q links (ba_id b) p2" and f: "?f \<in> {''balance'', ''credit''}"
    using generate_parts [OF run] by metis
  note frame = fund_frame [OF fund]
  obtain codes n where b: "b = new_batch q op site settlement payment
        (''funding_source='' @ (if is_staff ca then ''platform'' else ?f)) (random_id p1 (ids_drawn p1)) now"
    and new: "get_batch (ba_id b) p1 = None"
    and codes: "choose_codes (q_prefix q) (nat (q_quantity q)) (p1\<lparr>batches := batches p1 @ [b], ids_drawn := Suc (ids_drawn p1)\<rparr>)
       = Some (Inr (codes, n))"
    and p2: "p2 = number_cards (map (new_card q op (ba_id b) source now) (sort codes))
       (p1\<lparr>batches := batches p1 @ [b], ids_drawn := Suc (ids_drawn p1), codes_drawn := n\<rparr>)"
    using batch_records [OF rec] by metis
  let ?raw = "map (new_card q op (ba_id b) source now) (sort codes)"
  let ?ids = "map (\<lambda>j. next_card p1 + int j) [0..<length ?raw]"
  let ?ks = "map (\<lambda>(i, k). k\<lparr>k_id := i\<rparr>) (zip ?ids ?raw)"
  have cards: "distinct codes" "length codes = nat (q_quantity q)" "set codes \<inter> k_code ` set (card_rows p) = {}"
    using choose_codes_facts [OF codes] frame by auto
  have same: "length ?ids = length ?raw" by simp
  have "map k_code ?ks = map k_code ?raw" by (rule numbered(1) [OF same])
  also have "\<dots> = sort codes" by (simp add: comp_def new_card_def)
  finally have ks: "map k_code ?ks = sort codes" .
  have "get_admin (ad_id ca) p = Some op" "card_rows p' = card_rows p @ ?ks" "batches p' = batches p @ [b]"
    "get_batch (ba_id b) p = None"
    using op new frame by (simp_all add: p' book_batch_frame p2 number_cards_def get_batch_def)
  moreover have "int (length ?ks) = quantity" using cards(2) quote_facts(2,4) [OF q] by simp
  moreover have "distinct (map k_code ?ks)" "k_code ` set ?ks \<inter> k_code ` set (card_rows p) = {}"
    using cards(1,3) ks by (metis distinct_sort, metis set_map set_sort)
  moreover have "list_all (\<lambda>k. k_batch k = Some (ba_id b) \<and> k_owner k = Some (ad_id op) \<and> \<not> k_used k \<and> k_active k
        \<and> k_price k = ba_price b \<and> k_days k = Some (ba_days b)) ?ks"
    by (rule numbered(2) [OF same]) (auto simp: new_card_def b new_batch_def)
  moreover have "ba_quantity b = quantity" "ba_total b = ba_price b * quantity"
    using quote_facts(4,8,10) [OF q] by (simp_all add: b new_batch_def)
  moreover have "extract_batch_funding_source b = Inr (if is_staff ca then ''platform'' else ?f)"
    by (rule funding_read_back) (use f in \<open>auto simp: b new_batch_def\<close>)
  ultimately show ?thesis by blast
qed

end
