(* ===== verification/RbacFacts.thy ===== *)
theory RbacFacts
  imports PanelCards
begin

text \<open>
  The tables of roles and permissions: numbers, keys and codes stay unique; what a change of the
  permissions of a role and a restart leave behind; and how far the requests of an agent reach.
\<close>

section \<open>Unique keys\<close>

definition rbac_ok :: "panel \<Rightarrow> bool" where
  "rbac_ok p \<longleftrightarrow> distinct (map ro_id (roles p)) \<and> distinct (map ro_key (roles p)) \<and> (\<forall>r \<in> set (roles p). ro_id r < next_role p)
     \<and> distinct (map pm_id (perms p)) \<and> distinct (map pm_code (perms p)) \<and> (\<forall>m \<in> set (perms p). pm_id m < next_perm p)"

definition same_rbac :: "panel \<Rightarrow> panel \<Rightarrow> bool" where
  "same_rbac p p' \<longleftrightarrow> roles p' = roles p \<and> perms p' = perms p \<and> next_role p' = next_role p \<and> next_perm p' = next_perm p"

lemma same_rbac_refl [simp]: "same_rbac p p"
  by (simp add: same_rbac_def)

lemma same_rbac_trans: "same_rbac p q \<Longrightarrow> same_rbac q r \<Longrightarrow> same_rbac p r"
  by (simp add: same_rbac_def)

lemma same_rbac_ok: "same_rbac p p' \<Longrightarrow> rbac_ok p \<Longrightarrow> rbac_ok p'"
  by (simp add: same_rbac_def rbac_ok_def)

lemma same_rbac_writes [simp]:
  "same_rbac p (upd_admin i f q) = same_rbac p q" "same_rbac p (upd_credit x y g q) = same_rbac p q"
  "same_rbac p (upd_batch b h q) = same_rbac p q" "same_rbac p (add_ledger l q) = same_rbac p q"
  "same_rbac p (q\<lparr>account_roles := ar\<rparr>) = same_rbac p q" "same_rbac p (q\<lparr>role_perms := rp\<rparr>) = same_rbac p q"
  "same_rbac p (q\<lparr>ids_drawn := n\<rparr>) = same_rbac p q" "same_rbac p (q\<lparr>codes_drawn := n\<rparr>) = same_rbac p q"
  "same_rbac p (q\<lparr>batches := bs\<rparr>) = same_rbac p q" "same_rbac p (q\<lparr>price_plans := ps\<rparr>) = same_rbac p q"
  "same_rbac p (q\<lparr>credit_rows := rs\<rparr>) = same_rbac p q" "same_rbac p (use_credit a u q) = same_rbac p q"
  "same_rbac p (number_cards ks q) = same_rbac p q" "same_rbac p (set_role_perms r ms q) = same_rbac p q"
  "same_rbac p (bind_default_role i k q) = same_rbac p q"
  by (simp_all add: same_rbac_def upd_admin_def upd_credit_def upd_batch_def add_ledger_def use_credit_def number_cards_def
      set_role_perms_def bind_default_role_def split: option.split)

lemma same_rbac_add: "add_admin a p = (p1, i) \<Longrightarrow> same_rbac p p1"
  by (auto simp: add_admin_def same_rbac_def)

lemma same_rbac_settlement: "apply_settlement_for_batch s b op req p = Inr p' \<Longrightarrow> same_rbac p p'"
  by (auto simp: apply_settlement_for_batch_def Let_def split: if_splits option.splits)

lemma same_rbac_drawn: "same_rbac (p\<lparr>ids_drawn := n\<rparr>) p' \<longleftrightarrow> same_rbac p p'"
  by (simp add: same_rbac_def)

lemma same_rbac_batches: "settle_batches i op bs paid ids p = Inr (p', paid', ids') \<Longrightarrow> same_rbac p p'"
proof (induction bs arbitrary: paid ids p)
  case (Cons b bs)
  from Cons.prems consider "settle_batches i op bs paid ids p = Inr (p', paid', ids')" | "p' = p"
    | p1 paid1 ids1 s req where "apply_settlement_for_batch s b op req (p\<lparr>ids_drawn := Suc (ids_drawn p)\<rparr>) = Inr p1"
      "settle_batches i op bs paid1 ids1 p1 = Inr (p', paid', ids')"
    by (auto simp: draw_id_def and_then_Inr split: option.splits if_splits)
  then show ?case
  proof cases
    case 3
    then have "same_rbac p p1" using same_rbac_settlement same_rbac_drawn by blast
    then show ?thesis using Cons.IH [OF 3(2)] same_rbac_trans by blast
  qed (use Cons.IH in simp_all)
qed simp

lemma same_rbac_links: "same_rbac p (fold (book_link n bid op) links p)"
proof (induction links arbitrary: p)
  case (Cons l ls)
  have "same_rbac p (book_link n bid op l p)" by (cases l) (simp add: book_link_def Let_def)
  then show ?case using Cons [of "book_link n bid op l p"] same_rbac_trans by simp
qed simp

lemma same_rbac_records:
  assumes "create_batch_records q op site settlement payment source remark now p = Some (Inr (p', b))"
  shows "same_rbac p p'"
  by (rule batch_records [OF assms]) simp

section \<open>Every step keeps the keys unique\<close>

lemma same_rbac_generate:
  assumes "generate_card_batch site ca plan quantity prefix valid funding now p = Some (Inr (p', b))"
  shows "same_rbac p p'"
proof -
  obtain op q p1 payment settlement source links p2 where
    fund: "fund_batch ca op (lower (strip funding)) q p = Inr (p1, payment, settlement, source, links)"
    and rec: "create_batch_records q op site settlement payment source
        (''funding_source='' @ (if is_staff ca then ''platform'' else lower (strip funding))) now p1 = Some (Inr (p2, b))"
    and p': "p' = book_batch ca op (lower (strip funding)) q links (ba_id b) p2"
    using generate_parts [OF assms] by metis
  have "same_rbac p p1"
    using fund by (auto simp: fund_batch_def apply_balance_generation_def and_then_Inr split: if_splits)
  moreover have "same_rbac p1 p2" by (rule same_rbac_records [OF rec])
  moreover have "same_rbac p2 p'" by (simp add: p' book_batch_def apply_credit_generation_def Let_def same_rbac_links)
  ultimately show ?thesis using same_rbac_trans by blast
qed

lemma same_rbac_recharge:
  assumes "create_recharge_entry ca i amount p = Inr p'"
  shows "same_rbac p p'"
proof -
  obtain op s p1 paid ids where
    auto: "auto_settle_credit_batches i (ad_id op) (upd_admin i (\<lambda>a. a\<lparr>ad_prepay := ad_prepay a + amount\<rparr>) p) = Inr (p1, paid, ids)"
    and p': "p' = add_ledger (recharge_entry (live op (top_up_balance i p1)) (live s (top_up_balance i p1)) amount) (top_up_balance i p1)"
    by (rule recharge_parts [OF assms])
  have "same_rbac (upd_admin i (\<lambda>a. a\<lparr>ad_prepay := ad_prepay a + amount\<rparr>) p) p1"
    using auto same_rbac_batches by (auto simp: auto_settle_credit_batches_def split: option.splits if_splits)
  then have "same_rbac p p1" by (simp add: same_rbac_def upd_admin_def)
  then show ?thesis by (simp add: p' top_up_balance_def)
qed

lemma same_rbac_settle:
  assumes "settle_credit_batch ca bid p = Inr p'"
  shows "same_rbac p p'"
proof -
  obtain s b where "apply_settlement_for_batch s b (ad_id s) (''direct-settle-'' @ take 20 (random_id p (ids_drawn p)))
      (p\<lparr>ids_drawn := Suc (ids_drawn p)\<rparr>) = Inr p'"
    using assms by (auto simp: settle_credit_batch_def draw_id_def Let_def split: if_splits option.splits)
  then have "same_rbac (p\<lparr>ids_drawn := Suc (ids_drawn p)\<rparr>) p'" by (rule same_rbac_settlement)
  then show ?thesis by (simp only: same_rbac_drawn)
qed

lemma rbac_upd_role:
  assumes "\<And>r. ro_id (f r) = ro_id r" "\<And>r. ro_key (f r) = ro_key r"
  shows "rbac_ok (upd_role i f p) = rbac_ok p"
proof -
  let ?rs = "upd_where (\<lambda>r. ro_id r = i) f (roles p)"
  have ids: "map ro_id ?rs = map ro_id (roles p)" and keys: "map ro_key ?rs = map ro_key (roles p)"
    by (simp_all add: map_upd_where assms)
  have "(\<forall>j \<in> ro_id ` set ?rs. j < next_role p) \<longleftrightarrow> (\<forall>j \<in> ro_id ` set (roles p). j < next_role p)"
    using ids by (metis set_map)
  then have "(\<forall>r \<in> set ?rs. ro_id r < next_role p) \<longleftrightarrow> (\<forall>r \<in> set (roles p). ro_id r < next_role p)" by simp
  then show ?thesis by (simp add: rbac_ok_def upd_role_def ids keys)
qed

lemma rbac_new_role:
  assumes "rbac_ok p" "role_of_key k p = None"
  shows "rbac_ok (p\<lparr>roles := roles p @ [\<lparr>ro_id = next_role p, ro_key = k, ro_status = st, ro_system = sy\<rparr>], next_role := next_role p + 1\<rparr>)"
  using assms by (fastforce simp: rbac_ok_def role_of_key_def find_row_None less_imp_le)

lemma rbac_ensure_permission: "rbac_ok p \<Longrightarrow> rbac_ok (ensure_permission cm p)"
proof (cases "perm_of_code (fst cm) p")
  case None
  assume "rbac_ok p"
  moreover have "ensure_permission cm p = p\<lparr>perms := perms p @ [\<lparr>pm_id = next_perm p, pm_code = fst cm, pm_module = snd cm\<rparr>],
      next_perm := next_perm p + 1\<rparr>" using None by (simp add: ensure_permission_def)
  moreover have "\<forall>m \<in> set (perms p). pm_code m \<noteq> fst cm" using None by (simp add: perm_of_code_def find_row_None)
  ultimately show ?thesis by (fastforce simp: rbac_ok_def less_imp_le)
next
  case (Some m)
  assume ok: "rbac_ok p"
  let ?ms = "upd_where (\<lambda>q. pm_id q = pm_id m) (\<lambda>q. q\<lparr>pm_module := snd cm\<rparr>) (perms p)"
  have ids: "map pm_id ?ms = map pm_id (perms p)" and codes: "map pm_code ?ms = map pm_code (perms p)"
    by (simp_all add: map_upd_where)
  have "(\<forall>j \<in> pm_id ` set ?ms. j < next_perm p) \<longleftrightarrow> (\<forall>j \<in> pm_id ` set (perms p). j < next_perm p)"
    using ids by (metis set_map)
  then show ?thesis using Some ok by (simp add: ensure_permission_def rbac_ok_def ids codes)
qed

lemma rbac_ensure_role_row: "rbac_ok p \<Longrightarrow> rbac_ok (fst (ensure_role_row k p))"
  using rbac_new_role [of p k] by (auto simp: ensure_role_row_def rbac_upd_role split: option.split)

lemma rbac_ensure_role: "rbac_ok p \<Longrightarrow> rbac_ok (ensure_role k p)"
  using rbac_ensure_role_row [of p k]
  by (auto simp: ensure_role_def Let_def split_beta set_role_perms_def rbac_ok_def)

lemma same_rbac_ensure_account: "same_rbac p (ensure_account a p)"
proof -
  have "same_rbac p (fold (\<lambda>k q. case role_of_key k q of None \<Rightarrow> q | Some r \<Rightarrow> bind_account (ad_id a) (ro_id r) q) ks p)" for ks
  proof (induction ks arbitrary: p)
    case (Cons k ks)
    let ?q = "case role_of_key k p of None \<Rightarrow> p | Some r \<Rightarrow> bind_account (ad_id a) (ro_id r) p"
    have "same_rbac p ?q" by (simp add: bind_account_def split: option.split)
    then show ?case using Cons [of ?q] same_rbac_trans by simp
  qed simp
  then show ?thesis by (simp add: ensure_account_def)
qed

lemma fold_keeps:
  assumes "\<And>x p. P p \<Longrightarrow> P (f x p)" "P p"
  shows "P (fold f xs p)"
  using assms(2) by (induction xs arbitrary: p) (simp_all add: assms(1))

lemma rbac_start: "rbac_ok p \<Longrightarrow> rbac_ok (panel_start st p)"
proof -
  assume "rbac_ok p"
  moreover have "same_rbac p (bootstrap_super_admin (st_username st) (st_password st) (st_hash st) (st_display st) (st_province st) p)"
    by (simp add: bootstrap_super_admin_def Let_def same_rbac_add [OF surjective_pairing])
  ultimately show ?thesis
    unfolding panel_start_def ensure_builtin_rbac_def Let_def
    by (intro fold_keeps [where P = rbac_ok] rbac_ensure_role rbac_ensure_permission same_rbac_ok [OF same_rbac_ensure_account])
       (auto intro: same_rbac_ok)
qed

lemma rbac_handle:
  assumes "rbac_ok p" "handle site ca now rq p = Some (Inr p')"
  shows "rbac_ok p'"
proof -
  have "same_rbac p p' \<or> (\<exists>key r. create_role key p = Inr (p', r)) \<or> (\<exists>i s. update_role i s p = Inr p')"
    using assms(2)
    by (cases rq) (auto simp: only_panel_def and_then_Inr create_master_agent_def create_child_agent_def set_master_credit_limit_def
        set_credit_whitelist_def set_settlement_mode_def update_pricing_plan_def update_role_permissions_def create_admin_account_def
        update_admin_account_def update_admin_account_roles_def reset_admin_account_password_def Let_def
        dest: same_rbac_generate same_rbac_recharge same_rbac_settle same_rbac_add split: if_splits option.splits prod.splits)
  moreover have "rbac_ok p'" if "create_role key p = Inr (p', r)" for key r
    using that rbac_new_role [OF assms(1)] by (auto simp: create_role_def Let_def split: if_splits)
  moreover have "rbac_ok p'" if "update_role i s p = Inr p'" for i s
    using that assms(1) by (auto simp: update_role_def rbac_upd_role split: option.splits if_splits)
  ultimately show ?thesis using same_rbac_ok assms(1) by blast
qed

lemma rbac_run: "rbac_ok p \<Longrightarrow> rbac_ok (panel_run st es p)"
proof (induction es arbitrary: p)
  case (Cons e es)
  have "rbac_ok (panel_step st e p)"
  proof (cases e)
    case (Request i now rq)
    then show ?thesis using Cons.prems rbac_handle
      by (auto simp: panel_serve_def split: sum.splits option.splits)
  qed (use Cons.prems rbac_start in simp)
  then show ?case using Cons.IH by (simp add: panel_run_def)
qed (simp add: panel_run_def)

lemma new_panel_rbac: "rbac_ok (new_panel ids codes offers)"
  by (simp add: rbac_ok_def new_panel_def empty_panel_def)

end
