(* ===== verification/RbacRoles.thy ===== *)
theory RbacRoles
  imports RbacFacts
begin

text \<open>
  The permissions of a role after they have been set, and the built-in roles and the permissions
  of every account after a restart.
\<close>

section \<open>The permissions of a role\<close>

lemma codes_bound_set:
  "set (codes_bound_to r p) =
    {pm_code q | q m. (ro_id r, m) \<in> set (role_perms p) \<and> find_row (\<lambda>x. pm_id x = m) (perms p) = Some q}"
  by (force simp: codes_bound_to_def set_map_filter split: if_splits)

lemma set_role_perms_bound:
  "(x, m) \<in> set (role_perms (set_role_perms i ms p)) \<longleftrightarrow> (if x = i then m \<in> set ms else (x, m) \<in> set (role_perms p))"
  by (auto simp: set_role_perms_def)

lemma set_role_perms_other:
  "ro_id r \<noteq> i \<Longrightarrow> set (codes_bound_to r (set_role_perms i ms p)) = set (codes_bound_to r p)"
  unfolding codes_bound_set set_role_perms_bound by (simp add: set_role_perms_def)

lemma perm_row:
  assumes "rbac_ok p" "perm_of_code c p = Some q"
  shows "find_row (\<lambda>x. pm_id x = pm_id q) (perms p) = Some q" "pm_code q = c"
proof -
  have q: "q \<in> set (perms p)" "pm_code q = c" using assms(2) by (auto simp: perm_of_code_def dest: find_row_Some)
  then have "find_row (\<lambda>x. pm_id x = pm_id q) (perms p) \<noteq> None" by (auto simp: find_row_None)
  then obtain y where y: "find_row (\<lambda>x. pm_id x = pm_id q) (perms p) = Some y" by auto
  then have "y = q" using q(1) assms(1) by (auto simp: rbac_ok_def distinct_map dest!: find_row_Some dest: inj_onD)
  with y show "find_row (\<lambda>x. pm_id x = pm_id q) (perms p) = Some q" by simp
qed (use assms(2) in \<open>auto simp: perm_of_code_def dest: find_row_Some\<close>)

lemma codes_after_set:
  assumes ok: "rbac_ok p" and known: "\<forall>c \<in> set ks. perm_of_code c p \<noteq> None"
  shows "set (codes_bound_to r (set_role_perms (ro_id r) (ids_of_codes ks p) p)) = set ks"
proof -
  have ids: "set (ids_of_codes ks p) = {pm_id q | q c. c \<in> set ks \<and> perm_of_code c p = Some q}"
    by (force simp: ids_of_codes_def set_map_filter)
  have "set (codes_bound_to r (set_role_perms (ro_id r) (ids_of_codes ks p) p))
      = {pm_code y | y m. m \<in> set (ids_of_codes ks p) \<and> find_row (\<lambda>x. pm_id x = m) (perms p) = Some y}"
    unfolding codes_bound_set set_role_perms_bound by (simp add: set_role_perms_def)
  also have "\<dots> = {pm_code q | q c. c \<in> set ks \<and> perm_of_code c p = Some q}"
    using perm_row(1) [OF ok] by (force simp: ids)
  also have "\<dots> = set ks" using known perm_row(2) [OF ok] by force
  finally show ?thesis .
qed

lemma role_row:
  assumes "rbac_ok p" "r \<in> set (roles p)"
  shows "get_role (ro_id r) p = Some r" "role_of_key (ro_key r) p = Some r"
proof -
  have "find_row (\<lambda>x. ro_id x = ro_id r) (roles p) \<noteq> None" "find_row (\<lambda>x. ro_key x = ro_key r) (roles p) \<noteq> None"
    using assms(2) by (auto simp: find_row_None)
  then obtain y z where y: "find_row (\<lambda>x. ro_id x = ro_id r) (roles p) = Some y"
    and z: "find_row (\<lambda>x. ro_key x = ro_key r) (roles p) = Some z" by auto
  have "y = r" using y assms by (auto simp: rbac_ok_def distinct_map dest!: find_row_Some dest: inj_onD)
  moreover have "z = r" using z assms by (auto simp: rbac_ok_def distinct_map dest!: find_row_Some dest: inj_onD)
  ultimately show "get_role (ro_id r) p = Some r" "role_of_key (ro_key r) p = Some r"
    using y z by (simp_all add: get_role_def role_of_key_def)
qed

lemma role_of_key_in: "role_of_key k p = Some r \<Longrightarrow> r \<in> set (roles p) \<and> ro_key r = k"
  by (auto simp: role_of_key_def dest: find_row_Some)

lemma get_role_in: "get_role i p = Some r \<Longrightarrow> r \<in> set (roles p) \<and> ro_id r = i"
  by (auto simp: get_role_def dest: find_row_Some)

section \<open>A restart\<close>

definition role_restored :: "string \<Rightarrow> panel \<Rightarrow> bool" where
  "role_restored k p \<longleftrightarrow> (case role_of_key k p of None \<Rightarrow> False
     | Some r \<Rightarrow> ro_status r = ''active'' \<and> set (codes_bound_to r p) = set (role_default_permission_codes k))"

lemma perm_known: "perm_of_code c p \<noteq> None \<longleftrightarrow> c \<in> pm_code ` set (perms p)"
  by (auto simp: perm_of_code_def find_row_None)

lemma ensure_permission_codes: "pm_code ` set (perms (ensure_permission cm p)) = insert (fst cm) (pm_code ` set (perms p))"
proof (cases "perm_of_code (fst cm) p")
  case (Some m)
  then have "fst cm \<in> pm_code ` set (perms p)" using perm_known [of "fst cm" p] by simp
  moreover have "map pm_code (perms (ensure_permission cm p)) = map pm_code (perms p)"
    by (simp add: ensure_permission_def Some map_upd_where)
  ultimately show ?thesis by (metis insert_absorb set_map)
qed (simp add: ensure_permission_def)

lemma ensure_permissions_know: "c \<in> set (map fst cms) \<Longrightarrow> perm_of_code c (fold ensure_permission cms p) \<noteq> None"
proof -
  have "pm_code ` set (perms (fold ensure_permission cms p)) = fst ` set cms \<union> pm_code ` set (perms p)"
    by (induction cms arbitrary: p) (auto simp: ensure_permission_codes)
  then show "c \<in> set (map fst cms) \<Longrightarrow> perm_of_code c (fold ensure_permission cms p) \<noteq> None" by (simp only: perm_known) simp
qed

lemma ensure_role_row_facts:
  assumes ok: "rbac_ok p" and run: "ensure_role_row k p = (p1, i)"
  shows "\<exists>r. role_of_key k p1 = Some r \<and> ro_id r = i \<and> ro_status r = ''active''" "perms p1 = perms p" "role_perms p1 = role_perms p"
    "k' \<noteq> k \<Longrightarrow> role_of_key k' p1 = role_of_key k' p"
proof -
  have "(\<exists>r. role_of_key k p1 = Some r \<and> ro_id r = i \<and> ro_status r = ''active'') \<and> perms p1 = perms p \<and> role_perms p1 = role_perms p
    \<and> (k' \<noteq> k \<longrightarrow> role_of_key k' p1 = role_of_key k' p)"
  proof (cases "role_of_key k p")
    case None
    then show ?thesis using run
      by (auto simp: ensure_role_row_def role_of_key_def find_row_append split: option.split)
  next
    case (Some r)
    let ?f = "\<lambda>q. q\<lparr>ro_status := ''active'', ro_system := True\<rparr>"
    have r: "r \<in> set (roles p)" "ro_key r = k" using role_of_key_in [OF Some] by auto
    have p1: "p1 = upd_role (ro_id r) ?f p" "i = ro_id r" using run Some by (auto simp: ensure_role_row_def)
    have same: "ro_id x = ro_id r \<longleftrightarrow> ro_key x = k" if "x \<in> set (roles p)" for x
      using that r ok by (auto simp: rbac_ok_def distinct_map dest: inj_onD)
    have rows: "roles p1 = upd_where (\<lambda>x. ro_key x = k) ?f (roles p)"
      using same by (auto simp: p1 upd_role_def upd_where_def)
    have "role_of_key k p1 = map_option ?f (role_of_key k p)" unfolding role_of_key_def rows by (rule find_row_upd_key) simp
    moreover have "role_of_key k' p1 = role_of_key k' p" if "k' \<noteq> k"
      unfolding role_of_key_def rows using that by (intro find_row_upd_other) auto
    ultimately show ?thesis using Some by (simp add: p1 upd_role_def)
  qed
  then show "\<exists>r. role_of_key k p1 = Some r \<and> ro_id r = i \<and> ro_status r = ''active''" "perms p1 = perms p" "role_perms p1 = role_perms p"
    "k' \<noteq> k \<Longrightarrow> role_of_key k' p1 = role_of_key k' p" by auto
qed

lemma role_of_key_set_perms [simp]: "role_of_key k (set_role_perms i ms p) = role_of_key k p"
  by (simp add: role_of_key_def set_role_perms_def)

lemma codes_bound_cong: "perms p1 = perms p \<Longrightarrow> role_perms p1 = role_perms p \<Longrightarrow> codes_bound_to r p1 = codes_bound_to r p"
  by (simp add: codes_bound_to_def cong: if_cong)

lemma ensure_role_restores:
  assumes ok: "rbac_ok p" and known: "\<forall>c \<in> set (role_default_permission_codes k). perm_of_code c p \<noteq> None"
  shows "role_restored k (ensure_role k p)" "k' \<noteq> k \<Longrightarrow> role_restored k' p \<Longrightarrow> role_restored k' (ensure_role k p)"
    "perms (ensure_role k p) = perms p"
proof -
  obtain p1 i where row: "ensure_role_row k p = (p1, i)" by fastforce
  note facts = ensure_role_row_facts [OF ok row]
  obtain r where r: "role_of_key k p1 = Some r" "ro_id r = i" "ro_status r = ''active''" using facts(1) by blast
  have ok1: "rbac_ok p1" using rbac_ensure_role_row [OF ok, of k] row by simp
  let ?ms = "ids_of_codes (role_default_permission_codes k) p1"
  have eq: "ensure_role k p = set_role_perms i ?ms p1" by (simp add: ensure_role_def row)
  have "perm_of_code c p1 = perm_of_code c p" for c by (simp add: perm_of_code_def facts(2))
  then have "set (codes_bound_to r (set_role_perms i ?ms p1)) = set (role_default_permission_codes k)"
    using codes_after_set [OF ok1, of "role_default_permission_codes k" r] known r(2) by simp
  then show "role_restored k (ensure_role k p)" using r by (simp add: role_restored_def eq)
  show "perms (ensure_role k p) = perms p" by (simp add: eq set_role_perms_def facts(2))
  assume other: "k' \<noteq> k" "role_restored k' p"
  then obtain r' where r': "role_of_key k' p = Some r'" "ro_status r' = ''active''"
    "set (codes_bound_to r' p) = set (role_default_permission_codes k')" by (auto simp: role_restored_def split: option.splits)
  have k': "role_of_key k' p1 = Some r'" using facts(4) [OF other(1)] r'(1) by simp
  have "ro_id r' \<noteq> i"
  proof
    assume "ro_id r' = i"
    then have "r' = r" using role_row(1) [OF ok1] role_of_key_in [OF k'] role_of_key_in [OF r(1)] r(2) by (metis option.inject)
    then show False using role_of_key_in [OF k'] role_of_key_in [OF r(1)] other(1) by auto
  qed
  then have "set (codes_bound_to r' (set_role_perms i ?ms p1)) = set (codes_bound_to r' p)"
    using set_role_perms_other codes_bound_cong [OF facts(2,3)] by metis
  then show "role_restored k' (ensure_role k p)" using k' r' by (simp add: role_restored_def eq)
qed

lemma default_codes_known: "set (role_default_permission_codes k) \<subseteq> set (map fst permission_definitions)"
proof -
  have "list_all (\<lambda>k. list_all (\<lambda>c. c \<in> set (map fst permission_definitions)) (role_default_permission_codes k)) system_roles"
    by code_simp
  then have "list_all (\<lambda>c. c \<in> set (map fst permission_definitions)) (role_default_permission_codes k)" if "k \<in> set system_roles"
    using that by (auto simp: list_all_iff)
  moreover have "role_default_permission_codes k = []" if "k \<notin> set system_roles"
    using that by (simp add: role_default_permission_codes_def system_roles_def)
  ultimately show ?thesis by (cases "k \<in> set system_roles") (auto simp: list_all_iff)
qed

lemma perm_of_code_cong: "perms q = perms p \<Longrightarrow> perm_of_code c q = perm_of_code c p"
  by (simp add: perm_of_code_def)

definition knows_permissions :: "panel \<Rightarrow> bool" where
  "knows_permissions p \<longleftrightarrow> rbac_ok p \<and> (\<forall>c \<in> set (map fst permission_definitions). perm_of_code c p \<noteq> None)"

lemma knows_ensure_role:
  assumes "knows_permissions p"
  shows "knows_permissions (ensure_role k p)" "role_restored k (ensure_role k p)"
    "j \<noteq> k \<Longrightarrow> role_restored j p \<Longrightarrow> role_restored j (ensure_role k p)"
proof -
  have ok: "rbac_ok p" using assms by (simp add: knows_permissions_def)
  have "\<forall>c \<in> set (role_default_permission_codes k). perm_of_code c p \<noteq> None"
    using assms default_codes_known [of k] unfolding knows_permissions_def by blast
  note facts = ensure_role_restores [OF ok this]
  show "role_restored k (ensure_role k p)" "j \<noteq> k \<Longrightarrow> role_restored j p \<Longrightarrow> role_restored j (ensure_role k p)"
    by (fact facts(1), fact facts(2))
  show "knows_permissions (ensure_role k p)"
    using assms rbac_ensure_role [OF ok, of k] unfolding knows_permissions_def perm_of_code_cong [OF facts(3)] by blast
qed

lemma roles_restored:
  "knows_permissions p \<Longrightarrow> k \<in> set ks \<or> role_restored k p \<Longrightarrow> role_restored k (fold ensure_role ks p)"
proof (induction ks arbitrary: p)
  case (Cons j ks)
  note facts = knows_ensure_role [OF Cons.prems(1)]
  have "k \<in> set ks \<or> role_restored k (ensure_role j p)"
    using Cons.prems(2) facts(2,3) by (cases "k = j") auto
  then show ?case using Cons.IH [OF facts(1)] by simp
qed simp

text \<open>The accounts are bound after the roles are there.\<close>

lemma bind_account_facts:
  "set (account_roles (bind_account i r p)) = insert (i, r) (set (account_roles p))"
  "roles (bind_account i r p) = roles p" "perms (bind_account i r p) = perms p" "role_perms (bind_account i r p) = role_perms p"
  by (auto simp: bind_account_def)

lemma ensure_account_facts:
  "roles (ensure_account a p) = roles p \<and> perms (ensure_account a p) = perms p \<and> role_perms (ensure_account a p) = role_perms p
   \<and> set (account_roles p) \<subseteq> set (account_roles (ensure_account a p)) \<and> admins (ensure_account a p) = admins p
   \<and> (\<forall>k r. k \<in> set (default_role_keys a) \<longrightarrow> role_of_key k p = Some r \<longrightarrow> (ad_id a, ro_id r) \<in> set (account_roles (ensure_account a p)))"
proof -
  let ?f = "\<lambda>k q. case role_of_key k q of None \<Rightarrow> q | Some r \<Rightarrow> bind_account (ad_id a) (ro_id r) q"
  have "roles (fold ?f ks p) = roles p \<and> perms (fold ?f ks p) = perms p \<and> role_perms (fold ?f ks p) = role_perms p
   \<and> set (account_roles p) \<subseteq> set (account_roles (fold ?f ks p)) \<and> admins (fold ?f ks p) = admins p
   \<and> (\<forall>k r. k \<in> set ks \<longrightarrow> role_of_key k p = Some r \<longrightarrow> (ad_id a, ro_id r) \<in> set (account_roles (fold ?f ks p)))" for ks
  proof (induction ks arbitrary: p)
    case (Cons k ks)
    define q where "q = ?f k p"
    have q: "roles q = roles p" "perms q = perms p" "role_perms q = role_perms p" "admins q = admins p"
      "set (account_roles p) \<subseteq> set (account_roles q)"
      "\<And>r. role_of_key k p = Some r \<Longrightarrow> (ad_id a, ro_id r) \<in> set (account_roles q)"
      by (auto simp: q_def bind_account_def split: option.split)
    have key: "role_of_key j q = role_of_key j p" for j by (simp add: role_of_key_def q(1))
    have "fold ?f (k # ks) p = fold ?f ks q" by (simp add: q_def)
    then show ?case
    proof (elim ssubst, intro conjI allI impI)
      fix j r assume "j \<in> set (k # ks)" "role_of_key j p = Some r"
      then show "(ad_id a, ro_id r) \<in> set (account_roles (fold ?f ks q))"
        using Cons [of q] q(6) key by (cases "j \<in> set ks") auto
    qed (use Cons [of q] q in auto)
  qed simp
  then show ?thesis by (simp add: ensure_account_def)
qed

lemma ensure_accounts_facts:
  "roles (fold ensure_account as p) = roles p \<and> perms (fold ensure_account as p) = perms p
   \<and> role_perms (fold ensure_account as p) = role_perms p \<and> admins (fold ensure_account as p) = admins p
   \<and> set (account_roles p) \<subseteq> set (account_roles (fold ensure_account as p))
   \<and> (\<forall>a k r. a \<in> set as \<longrightarrow> k \<in> set (default_role_keys a) \<longrightarrow> role_of_key k p = Some r
        \<longrightarrow> (ad_id a, ro_id r) \<in> set (account_roles (fold ensure_account as p)))"
proof (induction as arbitrary: p)
  case (Cons a as)
  let ?q = "ensure_account a p"
  note q = ensure_account_facts [of a p]
  have key: "role_of_key j ?q = role_of_key j p" for j using q by (simp add: role_of_key_def)
  have rest: "roles (fold ensure_account as ?q) = roles ?q" "perms (fold ensure_account as ?q) = perms ?q"
    "role_perms (fold ensure_account as ?q) = role_perms ?q" "admins (fold ensure_account as ?q) = admins ?q"
    "set (account_roles ?q) \<subseteq> set (account_roles (fold ensure_account as ?q))"
    "\<And>b k r. b \<in> set as \<Longrightarrow> k \<in> set (default_role_keys b) \<Longrightarrow> role_of_key k ?q = Some r
        \<Longrightarrow> (ad_id b, ro_id r) \<in> set (account_roles (fold ensure_account as ?q))"
    using Cons [of ?q] by blast+
  have "fold ensure_account (a # as) p = fold ensure_account as ?q" by simp
  then show ?case
  proof (elim ssubst, intro conjI allI impI)
    fix b k r assume b: "b \<in> set (a # as)" "k \<in> set (default_role_keys b)" "role_of_key k p = Some r"
    show "(ad_id b, ro_id r) \<in> set (account_roles (fold ensure_account as ?q))"
    proof (cases "b \<in> set as")
      case True
      then show ?thesis using rest(6) b key by simp
    next
      case False
      then show ?thesis using rest(5) q b by auto
    qed
  qed (use rest q in auto)
qed simp

lemma default_keys_builtin: "set (default_role_keys a) \<subseteq> set system_roles"
  by (auto simp: default_role_keys_def system_roles_def)

lemma permissions_of_bound_role:
  assumes ok: "rbac_ok p" and bound: "(ad_id a, ro_id r) \<in> set (account_roles p)" "role_of_key k p = Some r" "ro_status r = ''active''"
  shows "set (codes_bound_to r p) \<subseteq> set (permission_codes_for_account a p)"
proof -
  have "get_role (ro_id r) p = Some r" using role_row(1) [OF ok] role_of_key_in [OF bound(2)] by simp
  then have "r \<in> set (active_roles_of (ad_id a) p)"
    using bound by (force simp: active_roles_of_def roles_bound_to_def set_map_filter)
  then have "set (codes_bound_to r p) \<subseteq> set (concat (map (\<lambda>r. codes_bound_to r p) (active_roles_of (ad_id a) p)))" by auto
  then show ?thesis by (auto simp: permission_codes_for_account_def Let_def)
qed

lemma start_restores:
  assumes "rbac_ok p"
  shows "k \<in> set system_roles \<Longrightarrow> role_restored k (panel_start st p)"
    and "a \<in> set (admins (panel_start st p)) \<Longrightarrow>
      set (concat (map role_default_permission_codes (default_role_keys a))) \<subseteq> set (permission_codes_for_account a (panel_start st p))"
proof -
  let ?p0 = "bootstrap_super_admin (st_username st) (st_password st) (st_hash st) (st_display st) (st_province st) p"
  let ?p1 = "fold ensure_permission permission_definitions ?p0" and ?q = "panel_start st p"
  let ?p2 = "fold ensure_role system_roles ?p1"
  have q: "?q = fold ensure_account (admins ?p2) ?p2" by (simp add: panel_start_def ensure_builtin_rbac_def Let_def)
  have "same_rbac p ?p0" by (simp add: bootstrap_super_admin_def Let_def same_rbac_add [OF surjective_pairing])
  then have "rbac_ok ?p0" using assms same_rbac_ok by blast
  then have "rbac_ok ?p1" by (rule fold_keeps [where P = rbac_ok, rotated]) (rule rbac_ensure_permission)
  then have "knows_permissions ?p1" using ensure_permissions_know by (simp add: knows_permissions_def del: set_map)
  then have two: "role_restored j ?p2" if "j \<in> set system_roles" for j using roles_restored that by blast
  note accounts = ensure_accounts_facts [of "admins ?p2" ?p2, folded q]
  have ok: "rbac_ok ?q" by (rule rbac_start [OF assms])
  have key: "role_of_key j ?q = role_of_key j ?p2" for j using accounts by (simp add: role_of_key_def)
  have codes: "codes_bound_to r ?q = codes_bound_to r ?p2" for r using accounts codes_bound_cong by blast
  have restored: "role_restored j ?q" if "j \<in> set system_roles" for j
    using two [OF that] by (simp only: role_restored_def key codes)
  then show "k \<in> set system_roles \<Longrightarrow> role_restored k ?q" .
  assume "a \<in> set (admins ?q)"
  then have a: "a \<in> set (admins ?p2)" using accounts by simp
  have "set (role_default_permission_codes j) \<subseteq> set (permission_codes_for_account a ?q)" if j: "j \<in> set (default_role_keys a)" for j
  proof -
    have "role_restored j ?q" using restored default_keys_builtin j by blast
    then obtain r where r: "role_of_key j ?q = Some r" "ro_status r = ''active''"
      "set (codes_bound_to r ?q) = set (role_default_permission_codes j)" by (auto simp: role_restored_def split: option.splits)
    then have "(ad_id a, ro_id r) \<in> set (account_roles ?q)" using accounts a j key by simp
    then show ?thesis using permissions_of_bound_role [OF ok _ r(1,2)] r(3) by blast
  qed
  then show "set (concat (map role_default_permission_codes (default_role_keys a))) \<subseteq> set (permission_codes_for_account a ?q)" by auto
qed

end
