(* ===== verification/PanelScope.thy ===== *)
theory PanelScope
  imports RbacRoles
begin

text \<open>
  How far an agent reaches: its requests change no account outside its own subtree, except for
  the credit used of the agents above it.
\<close>

section \<open>Accounts up to their credit used\<close>

definition apart_from_used :: "int \<Rightarrow> panel \<Rightarrow> admin option" where
  "apart_from_used j p = map_option (\<lambda>a. a\<lparr>ad_used := 0\<rparr>) (get_admin j p)"

lemma apart_frame [simp]:
  "apart_from_used j (upd_credit x y g p) = apart_from_used j p" "apart_from_used j (upd_batch b h p) = apart_from_used j p"
  "apart_from_used j (add_ledger l p) = apart_from_used j p"
  "apart_from_used j (number_cards ks p) = apart_from_used j p" "apart_from_used j (p\<lparr>credit_rows := rs\<rparr>) = apart_from_used j p"
  "apart_from_used j (p\<lparr>batches := bs, ids_drawn := n1, codes_drawn := n2\<rparr>) = apart_from_used j p"
  "apart_from_used j (p\<lparr>account_roles := ar\<rparr>) = apart_from_used j p"
  by (simp_all add: apart_from_used_def upd_credit_def upd_batch_def add_ledger_def number_cards_def get_admin_def)

lemma apart_use_credit [simp]: "apart_from_used j (use_credit a n p) = apart_from_used j p"
  by (simp add: apart_from_used_def use_credit_def get_admin_upd option.map_comp comp_def)

lemma apart_upd_other: "(\<And>a. ad_id (f a) = ad_id a) \<Longrightarrow> j \<noteq> i \<Longrightarrow> apart_from_used j (upd_admin i f p) = apart_from_used j p"
  by (simp add: apart_from_used_def get_admin_upd)

lemma apart_same: "get_admin j p' = get_admin j p \<Longrightarrow> apart_from_used j p' = apart_from_used j p"
  by (simp add: apart_from_used_def)

lemma apart_bind [simp]: "apart_from_used j (bind_default_role i k p) = apart_from_used j p"
  by (simp add: bind_default_role_def split: option.split)

lemma apart_links: "apart_from_used j (fold (book_link n bid op) links p) = apart_from_used j p"
proof (induction links arbitrary: p)
  case (Cons l ls)
  have "apart_from_used j (book_link n bid op l p) = apart_from_used j p" by (cases l) (simp add: book_link_def Let_def)
  then show ?case using Cons by simp
qed simp

section \<open>The requests of an agent\<close>

lemma visible_target:
  "ensure_visible_account ca i p = Inr t \<Longrightarrow> \<not> is_staff ca \<Longrightarrow> i \<in> set (visible_account_ids ca p)"
  by (auto simp: ensure_visible_account_def dest: get_admin_id split: if_splits option.splits)

lemma scope_mode:
  assumes "set_settlement_mode ca i mode p = Inr p'" "\<not> is_staff ca" "j \<notin> set (visible_account_ids ca p)"
  shows "apart_from_used j p' = apart_from_used j p"
proof -
  obtain t where "ensure_visible_account ca i p = Inr t" and p': "p' = upd_admin i (\<lambda>a. a\<lparr>ad_mode := mode\<rparr>) p"
    using assms(1) by (auto simp: set_settlement_mode_def and_then_Inr split: if_splits)
  then have "j \<noteq> i" using visible_target assms(2,3) by blast
  then show ?thesis by (simp add: p' apart_upd_other)
qed

lemma scope_child:
  assumes "create_child_agent ca user hash disp mode credit contact phone p = Inr (p', n)" "rows_kept p"
    and "j \<noteq> ad_id ca" "get_admin j p \<noteq> None"
  shows "apart_from_used j p' = apart_from_used j p"
proof -
  have "apart_from_used j p1 = apart_from_used j p" if "add_admin a p = (p1, i)" for a p1 i
    using get_admin_add [OF assms(2) that, of j] that assms(4) fresh_admin [OF assms(2)]
    by (intro apart_same) (auto simp: add_admin_def)
  then show ?thesis using assms(1,3) get_admin_id
    by (fastforce simp: create_child_agent_def Let_def apart_upd_other split: if_splits option.splits prod.splits)
qed

lemma scope_settle:
  assumes "settle_credit_batch ca bid p = Inr p'" "j \<noteq> ad_id ca"
  shows "apart_from_used j p' = apart_from_used j p"
proof -
  obtain s b where s: "get_admin (ad_id ca) p = Some s" and
    run: "apply_settlement_for_batch s b (ad_id s) (''direct-settle-'' @ take 20 (random_id p (ids_drawn p)))
      (p\<lparr>ids_drawn := Suc (ids_drawn p)\<rparr>) = Inr p'"
    using assms(1) by (auto simp: settle_credit_batch_def draw_id_def Let_def split: if_splits option.splits)
  have id: "ad_id s = ad_id ca" by (rule get_admin_id [OF s])
  have "get_admin (ad_id s) (p\<lparr>ids_drawn := Suc (ids_drawn p)\<rparr>) = Some s" using s id by simp
  from settlement_effect(1) [OF this run, of j] show ?thesis using assms(2) id by (intro apart_same) simp
qed

lemma scope_recharge:
  assumes run: "create_recharge_entry ca i amount p = Inr p'" and ca: "get_admin (ad_id ca) p = Some ca" "\<not> is_staff ca"
    and j: "j \<notin> set (visible_account_ids ca p)"
  shows "apart_from_used j p' = apart_from_used j p"
proof -
  obtain t where "ensure_visible_account ca i p = Inr t"
    using run ca by (auto simp: create_recharge_entry_def and_then_Inr split: if_splits)
  then have ji: "j \<noteq> i" using visible_target ca(2) j by blast
  obtain op s p1 paid ids where s: "get_admin i p = Some s" and
    auto: "auto_settle_credit_batches i (ad_id op) (upd_admin i (\<lambda>a. a\<lparr>ad_prepay := ad_prepay a + amount\<rparr>) p) = Inr (p1, paid, ids)"
    and p': "p' = add_ledger (recharge_entry (live op (top_up_balance i p1)) (live s (top_up_balance i p1)) amount) (top_up_balance i p1)"
    by (rule recharge_parts [OF run])
  have "get_admin j p1 = get_admin j (upd_admin i (\<lambda>a. a\<lparr>ad_prepay := ad_prepay a + amount\<rparr>) p)"
    using auto ji by (auto simp: auto_settle_credit_batches_def dest: settle_batches_effect split: option.splits if_splits)
  then have "get_admin j p1 = get_admin j p" using ji by (simp add: get_admin_upd)
  then show ?thesis using ji by (intro apart_same) (simp add: p' top_up_balance_def get_admin_upd)
qed

lemma scope_generate:
  assumes "generate_card_batch site ca plan quantity prefix valid funding now p = Some (Inr (p', b))" "j \<noteq> ad_id ca"
  shows "apart_from_used j p' = apart_from_used j p"
proof -
  obtain op q p1 payment settlement source links p2 where op: "get_admin (ad_id ca) p = Some op"
    and fund: "fund_batch ca op (lower (strip funding)) q p = Inr (p1, payment, settlement, source, links)"
    and rec: "create_batch_records q op site settlement payment source
        (''funding_source='' @ (if is_staff ca then ''platform'' else lower (strip funding))) now p1 = Some (Inr (p2, b))"
    and p': "p' = book_batch ca op (lower (strip funding)) q links (ba_id b) p2"
    using generate_parts [OF assms(1)] by metis
  have "apart_from_used j p1 = apart_from_used j p"
    using fund assms(2) get_admin_id [OF op]
    by (auto simp: fund_batch_def apply_balance_generation_def and_then_Inr apart_upd_other split: if_splits)
  moreover have "apart_from_used j p2 = apart_from_used j p1" by (rule batch_records [OF rec]) simp
  moreover have "apart_from_used j p' = apart_from_used j p2"
    by (simp add: p' book_batch_def apply_credit_generation_def Let_def apart_links)
  ultimately show ?thesis by simp
qed

text \<open>The other requests need permissions that no agent has by default.\<close>

lemma staff_codes:
  "\<not> list_all (\<lambda>c. c \<in> set (role_default_permission_codes master_agent)) (code_set [''agents.master.create''])"
  "\<not> list_all (\<lambda>c. c \<in> set (role_default_permission_codes master_agent)) (code_set [''agents.credit.master.write''])"
  "\<not> list_all (\<lambda>c. c \<in> set (role_default_permission_codes master_agent)) (code_set [''pricing.write''])"
  "\<not> list_all (\<lambda>c. c \<in> set (role_default_permission_codes master_agent)) (code_set [''rbac.roles.write''])"
  "\<not> list_all (\<lambda>c. c \<in> set (role_default_permission_codes master_agent)) (code_set [''rbac.roles.write'', ''rbac.permissions.read''])"
  "\<not> list_all (\<lambda>c. c \<in> set (role_default_permission_codes master_agent)) (code_set [''admin_accounts.write''])"
  "\<not> list_all (\<lambda>c. c \<in> set (role_default_permission_codes master_agent)) (code_set [''admin_accounts.write'', ''rbac.roles.read''])"
  "\<not> list_all (\<lambda>c. c \<in> set (role_default_permission_codes master_agent)) (code_set [''admin_accounts.reset_password''])"
  by code_simp+

fun for_agents :: "panel_request \<Rightarrow> bool" where
  "for_agents (CreateChild user pw hash disp mode credit contact phone) \<longleftrightarrow> True"
| "for_agents (SetMode i mode) \<longleftrightarrow> True"
| "for_agents (Generate plan quantity prefix valid source) \<longleftrightarrow> True"
| "for_agents (Recharge i amount) \<longleftrightarrow> True"
| "for_agents (Settle batch) \<longleftrightarrow> True"
| "for_agents _ \<longleftrightarrow> False"

lemma agents_requests:
  assumes "has_permission a (permissions_of rq) p"
    and "set (permission_codes_for_account a p) \<subseteq> set (role_default_permission_codes master_agent)"
  shows "for_agents rq"
proof -
  have "list_all (\<lambda>c. c \<in> set (role_default_permission_codes master_agent)) (code_set (permissions_of rq))"
    using assms by (auto simp: has_permission_def list_all_iff)
  then show ?thesis using staff_codes by (cases rq) simp_all
qed

lemma agent_scope:
  assumes ok: "panel_ok p" and a: "get_admin i p = Some a" "is_agent a"
    and codes: "set (permission_codes_for_account a p) \<subseteq> set (role_default_permission_codes master_agent)"
    and j: "j \<notin> set (visible_account_ids a p)" "get_admin j p \<noteq> None"
  shows "apart_from_used j (panel_serve st i now rq p) = apart_from_used j p"
proof (cases "panel_serve st i now rq p = p")
  case False
  then obtain p' where perm: "has_permission a (permissions_of rq) p"
      and run: "handle (st_province st) a now rq p = Some (Inr p')" and p': "panel_serve st i now rq p = p'"
    using a(1) by (auto simp: panel_serve_def require_admin_permissions_def current_admin_def and_then_Inr
        split: sum.splits option.splits if_splits)
  have rows: "rows_kept p" using ok by (simp add: panel_ok_def)
  have staff: "\<not> is_staff a" using a(2) agent_or_staff by simp
  then have other: "j \<noteq> ad_id a" using j(1) by (auto simp: visible_account_ids_def)
  have ca: "get_admin (ad_id a) p = Some a" using a(1) get_admin_id by simp
  show ?thesis unfolding p' using agents_requests [OF perm codes] run
    by (cases rq) (auto simp: only_panel_def and_then_Inr
        intro: scope_mode [OF _ staff j(1)] scope_child [OF _ rows other j(2)] scope_settle [OF _ other]
          scope_recharge [OF _ ca staff j(1)] scope_generate [OF _ other])
qed simp

end
