(* ===== verification/SamplePanel.thy ===== *)
theory SamplePanel
  imports PanelScope
begin

text \<open>
  A small kept back office for the witnesses: a super administrator, a master agent, its
  subordinate and the subordinate of that, who owes two batches, one of them already passed on.
\<close>

definition staff_1 :: admin where
  "staff_1 = empty_account\<lparr>ad_id := 1, ad_username := ''root'', ad_role := super_admin, ad_province := ''north''\<rparr>"

definition master_2 :: admin where
  "master_2 = empty_account\<lparr>ad_id := 2, ad_username := ''master'', ad_role := master_agent, ad_type := ''agent'',
     ad_identity := Some master_agent, ad_province := ''north'', ad_root := Some 2, ad_mode := ''hybrid'',
     ad_whitelisted := True, ad_limit := 1000, ad_allocated := 500, ad_used := 110, ad_prepay := 40\<rparr>"

definition agent_3 :: admin where
  "agent_3 = empty_account\<lparr>ad_id := 3, ad_username := ''agent'', ad_role := sub_agent, ad_type := ''agent'',
     ad_identity := Some sub_agent, ad_province := ''north'', ad_parent := Some 2, ad_root := Some 2, ad_depth := 1,
     ad_mode := ''credit'', ad_whitelisted := True, ad_limit := 500, ad_allocated := 200, ad_used := 110, ad_prepay := 35\<rparr>"

definition agent_4 :: admin where
  "agent_4 = empty_account\<lparr>ad_id := 4, ad_username := ''seller'', ad_role := sub_agent, ad_type := ''agent'',
     ad_identity := Some sub_agent, ad_province := ''north'', ad_parent := Some 3, ad_root := Some 2, ad_depth := 2,
     ad_mode := ''credit'', ad_whitelisted := True, ad_limit := 200, ad_used := 90, ad_prepay := 50\<rparr>"

definition sample_batch :: "string \<Rightarrow> int \<Rightarrow> int \<Rightarrow> datetime \<Rightarrow> batch" where
  "sample_batch bid n l made =
     \<lparr>ba_id = bid, ba_province = ''north'', ba_creator = 4, ba_owner = 4, ba_parent = Some 3, ba_root = Some 2,
      ba_liable = Some l, ba_counter = Some (l - 1), ba_plan = ''d30'', ba_quantity = n div 10, ba_days = 30,
      ba_price = 10, ba_total = n, ba_settlement = ''pending'', ba_payment = ''credit'',
      ba_remark = Some ''funding_source=credit'', ba_created = made\<rparr>"

definition sample_entry :: "string \<Rightarrow> int \<Rightarrow> int \<Rightarrow> ledger" where
  "sample_entry ty i amount =
     \<lparr>le_scope = ''channel'', le_account = i, le_counter = None, le_type = ty, le_direction = ''out'',
      le_amount = amount, le_balance_after = None, le_used_after = None, le_batch = None, le_request = None,
      le_operator = None\<rparr>"

definition sample_panel :: panel where
  "sample_panel = (empty_panel (\<lambda>n. ''id'' @ replicate n CHR ''x'') (\<lambda>n. ''c'' @ replicate n CHR ''y''))
    \<lparr>admins := [staff_1, master_2, agent_3, agent_4],
     credit_rows := [\<lparr>cl_parent = 2, cl_child = 3, cl_limit = 500, cl_used = 110, cl_active = True, cl_adjusted_by = Some 2\<rparr>,
                     \<lparr>cl_parent = 3, cl_child = 4, cl_limit = 200, cl_used = 90, cl_active = True, cl_adjusted_by = Some 3\<rparr>],
     batches := [sample_batch ''b1'' 20 3 100, sample_batch ''b2'' 60 4 200, sample_batch ''b3'' 30 4 300],
     ledgers := [sample_entry ''credit_generate'' 2 110, sample_entry ''credit_generate'' 3 110, sample_entry ''credit_generate'' 4 110,
                 sample_entry ''recharge'' 4 70, sample_entry ''credit_settlement'' 4 20,
                 sample_entry ''recharge'' 3 35, sample_entry ''recharge'' 2 40],
     price_plans := [\<lparr>p_code = ''d30'', p_days = 30, p_price = 10, p_active = True\<rparr>],
     next_admin := 5\<rparr>"

definition sample_settings :: settings where
  "sample_settings = \<lparr>st_province = ''north'', st_username = [], st_password = [], st_hash = [], st_display = []\<rparr>"

lemmas sample_rows = staff_1_def master_2_def agent_3_def agent_4_def sample_batch_def sample_entry_def empty_account_def

lemma sample_admins: "get_admin i sample_panel =
    (if i = 1 then Some staff_1 else if i = 2 then Some master_2 else if i = 3 then Some agent_3
     else if i = 4 then Some agent_4 else None)"
  by (auto simp: get_admin_def sample_panel_def sample_rows find_row_def)

lemma sample_accts: "accts_of sample_panel =
    [1 \<mapsto> acct_of staff_1, 2 \<mapsto> acct_of master_2, 3 \<mapsto> acct_of agent_3, 4 \<mapsto> acct_of agent_4]"
  by (rule ext) (simp add: accts_of_def sample_admins)

lemma sample_acct [simp]:
  "acct_of staff_1 = \<lparr>ac_parent = None, ac_root = 1, ac_master = False, ac_limit = 0, ac_allocated = 0, ac_used = 0,
     ac_prepay = 0, ac_balance = 0\<rparr>"
  "acct_of master_2 = \<lparr>ac_parent = None, ac_root = 2, ac_master = True, ac_limit = 1000, ac_allocated = 500, ac_used = 110,
     ac_prepay = 40, ac_balance = 0\<rparr>"
  "acct_of agent_3 = \<lparr>ac_parent = Some 2, ac_root = 2, ac_master = False, ac_limit = 500, ac_allocated = 200, ac_used = 110,
     ac_prepay = 35, ac_balance = 0\<rparr>"
  "acct_of agent_4 = \<lparr>ac_parent = Some 3, ac_root = 2, ac_master = False, ac_limit = 200, ac_allocated = 0, ac_used = 90,
     ac_prepay = 50, ac_balance = 0\<rparr>"
  by code_simp+

lemma sample_Some: "accts_of sample_panel i = Some a \<longleftrightarrow> i = 1 \<and> a = acct_of staff_1 \<or> i = 2 \<and> a = acct_of master_2
    \<or> i = 3 \<and> a = acct_of agent_3 \<or> i = 4 \<and> a = acct_of agent_4"
  by (auto simp: sample_accts simp del: sample_acct split: if_splits)

lemma sample_None: "accts_of sample_panel i = None \<longleftrightarrow> i \<notin> {1, 2, 3, 4}"
  by (simp add: sample_accts)

lemma sample_posts: "map post_of (ledgers sample_panel) =
    [(''credit_generate'', 2, 110), (''credit_generate'', 3, 110), (''credit_generate'', 4, 110), (''recharge'', 4, 70),
     (''credit_settlement'', 4, 20), (''recharge'', 3, 35), (''recharge'', 2, 40)]"
  by code_simp

lemma sample_paths [simp]:
  "up_path (accts_of sample_panel) 1 = [1]" "up_path (accts_of sample_panel) 2 = [2]"
  "up_path (accts_of sample_panel) 3 = [3, 2]" "up_path (accts_of sample_panel) 4 = [4, 3, 2]"
  by (simp_all add: sample_accts up_path.simps)

lemma sample_debts: "map debt_of (filter pending_credit (batches sample_panel)) =
    [\<lparr>de_batch = ''b1'', de_owner = 4, de_liable = 3, de_total = 20\<rparr>,
     \<lparr>de_batch = ''b2'', de_owner = 4, de_liable = 4, de_total = 60\<rparr>,
     \<lparr>de_batch = ''b3'', de_owner = 4, de_liable = 4, de_total = 30\<rparr>]"
  by code_simp

lemma sample_links: "map link_of (credit_rows sample_panel) =
    [\<lparr>li_parent = 2, li_child = 3, li_limit = 500, li_used = 110\<rparr>, \<lparr>li_parent = 3, li_child = 4, li_limit = 200, li_used = 90\<rparr>]"
  by code_simp

lemma sample_ok: "panel_ok sample_panel"
proof -
  have "rows_kept sample_panel"
    by (simp add: rows_kept_def sample_panel_def sample_rows batch_ok_def pending_credit_def)
  moreover have "tree_ok (accts_of sample_panel)"
    by (auto simp: tree_ok_def sample_Some)
  moreover have "links_ok (accts_of sample_panel) (map link_of (credit_rows sample_panel))"
    unfolding sample_links by (auto simp: links_ok_def link_ok_def sample_accts split: if_splits)
  moreover have "limits_ok (accts_of sample_panel) (map link_of (credit_rows sample_panel))"
    unfolding sample_links by (auto simp: limits_ok_def allotted_def sample_accts split: if_splits)
  moreover have "debts_ok (accts_of sample_panel) (map debt_of (filter pending_credit (batches sample_panel)))"
    unfolding sample_debts debts_ok_def by (auto simp: owed_def) (auto simp: sample_accts split: if_splits)
  moreover have "money_ok (accts_of sample_panel) (mset (map post_of (ledgers sample_panel)))"
    unfolding sample_posts money_ok_def by (intro conjI allI impI) (auto simp: sample_Some sample_None)
  ultimately show ?thesis by (simp add: panel_ok_def books_ok_def)
qed

end
