(* ===== verification/PanelProps.thy ===== *)
theory PanelProps
  imports SamplePanel
begin

text \<open>
  The properties of the back office: its accounting, the tree of its agents, its batches and its
  roles.
\<close>

section \<open>Reachable databases\<close>

lemma new_panel_books: "books_of (new_panel ids codes offers) = empty_books"
  by (rule books_eqI) (auto simp: new_panel_def empty_panel_def empty_books_def accts_of_def get_admin_def)

lemma panel_run_append: "panel_run st (es @ es') p = panel_run st es' (panel_run st es p)"
  by (simp add: panel_run_def)

lemma reached_rbac: "rbac_ok (panel_run st es (new_panel ids codes offers))"
  by (rule rbac_run [OF new_panel_rbac])

lemma reached_accounts:
  assumes "\<And>p a. panel_ok p \<Longrightarrow> a \<in> set (admins p) \<Longrightarrow> get_admin (ad_id a) p = Some a \<Longrightarrow> P p a"
  shows "list_all (P (panel_run st es (new_panel ids codes offers))) (admins (panel_run st es (new_panel ids codes offers)))"
  using assms reached_ok get_admin_row unfolding list_all_iff panel_ok_def by blast

section \<open>Accounting\<close>

text \<open>
  C38: Whatever the requests and restarts, the tables move from state to state by movements of the
  abstract books only, from empty books on, and the books are kept in every state: the accounts
  form a tree, every delegated limit and every debt is booked on the links above it, and the
  ledger explains every balance.
\<close>

theorem panel_runs_keep_the_books:
  "books_of (new_panel ids codes offers) = empty_books
   \<and> book_step\<^sup>*\<^sup>* (books_of (panel_run st es (new_panel ids codes offers)))
        (books_of (panel_run st (es @ es') (new_panel ids codes offers)))
   \<and> panel_ok (panel_run st es (new_panel ids codes offers))"
  using new_panel_books panel_run_books [OF reached_ok] reached_ok by (simp add: panel_run_append)

text \<open>
  C10: In every reachable database the ledger explains the money of every account: balance and
  prepaid money together are what was recharged, less what was spent on batches and on
  settlements; the credit used is what was generated on credit, less what was settled.
\<close>

theorem accounts_agree_with_the_ledger:
  "let p = panel_run st es (new_panel ids codes offers)
   in list_all (\<lambda>a. ad_balance a + ad_prepay a = ledger_sum ''recharge'' (ad_id a) p
            - ledger_sum ''consume_balance'' (ad_id a) p - ledger_sum ''credit_settlement'' (ad_id a) p
          \<and> ad_used a = ledger_sum ''credit_generate'' (ad_id a) p - ledger_sum ''credit_settlement'' (ad_id a) p)
        (admins p)"
  unfolding Let_def by (rule reached_accounts) (blast intro: money_of_account)

text \<open>
  In every reachable database the credit used of an account is the sum of the pending batches
  that the account or one of its descendants has to settle.
\<close>

theorem credit_used_is_owed_below:
  "let p = panel_run st es (new_panel ids codes offers)
   in list_all (\<lambda>a. ad_used a = (\<Sum>b\<leftarrow>batches p.
          if pending_credit b \<and> ba_liable b \<in> Some ` set (ad_id a # list_descendant_ids (ad_id a) p) then ba_total b else 0))
        (admins p)"
  unfolding Let_def by (rule reached_accounts) (rule used_is_owed_below)

text \<open>
  C11: In every reachable database no account has a negative balance, prepaid amount or debt; the
  limits an account has delegated are exactly those of its direct subordinates and stay within
  its own limit; and below the top no account uses more credit than its limit.
\<close>

theorem credit_stays_within_limits:
  "let p = panel_run st es (new_panel ids codes offers)
   in list_all (\<lambda>a. 0 \<le> ad_balance a \<and> 0 \<le> ad_prepay a \<and> 0 \<le> ad_used a
          \<and> ad_allocated a = (\<Sum>c\<leftarrow>admins p. if ad_parent c = Some (ad_id a) then ad_limit c else 0)
          \<and> 0 \<le> ad_allocated a \<and> ad_allocated a \<le> ad_limit a
          \<and> (ad_parent a = None \<or> ad_used a \<le> ad_limit a))
        (admins p)"
  unfolding Let_def
  by (rule reached_accounts) (blast intro: money_of_account credit_bounds allocated_is_delegated)

section \<open>The tree of agents\<close>

text \<open>
  The level-by-level search returns the descendants of an account: those reachable over the
  parent column, each once and in ascending order, even if the column is cyclic.
\<close>

theorem descendants_are_reachable:
  "set (list_descendant_ids i p) = (child_rel p)\<^sup>+ `` {i} \<and> distinct (list_descendant_ids i p)
   \<and> sorted (list_descendant_ids i p)"
  using descendants by blast

text \<open>
  C14: An agent with no more permissions than a master agent has by default changes no account
  outside its own subtree, except for the credit used of those accounts.
\<close>

theorem agents_stay_in_their_tree:
  assumes "panel_ok p" "get_admin i p = Some a" "is_agent a"
    and "set (permission_codes_for_account a p) \<subseteq> set (role_default_permission_codes master_agent)"
    and "j \<notin> set (visible_account_ids a p)" "get_admin j p = Some x"
  shows "\<exists>u. get_admin j (panel_serve st i now rq p) = Some (x\<lparr>ad_used := u\<rparr>)"
proof -
  have "apart_from_used j (panel_serve st i now rq p) = Some (x\<lparr>ad_used := 0\<rparr>)"
    using agent_scope [OF assms(1-5)] assms(6) by (simp add: apart_from_used_def)
  then obtain y where y: "get_admin j (panel_serve st i now rq p) = Some y" "y\<lparr>ad_used := 0\<rparr> = x\<lparr>ad_used := 0\<rparr>"
    by (auto simp: apart_from_used_def)
  have "y = (y\<lparr>ad_used := 0\<rparr>)\<lparr>ad_used := ad_used y\<rparr>" by simp
  also have "\<dots> = x\<lparr>ad_used := ad_used y\<rparr>" unfolding y(2) by simp
  finally show ?thesis using y(1) by (intro exI [of _ "ad_used y"]) (rule trans [OF y(1) arg_cong [of _ _ Some]])
qed

theorem agents_stay_in_their_tree_witness:
  "\<exists>u. get_admin 2 (panel_serve sample_settings 3 0 (Generate ''d30'' 2 ''ab'' None ''credit'') sample_panel)
     = Some (master_2\<lparr>ad_used := u\<rparr>)"
proof (rule agents_stay_in_their_tree [OF sample_ok, of 3 agent_3])
  have "list_all (\<lambda>c. c \<in> set (role_default_permission_codes master_agent)) (permission_codes_for_account agent_3 sample_panel)"
    by code_simp
  then show "set (permission_codes_for_account agent_3 sample_panel) \<subseteq> set (role_default_permission_codes master_agent)"
    by (auto simp: list_all_iff)
  show "2 \<notin> set (visible_account_ids agent_3 sample_panel)" by code_simp
  show "is_agent agent_3" by code_simp
qed (simp_all add: sample_admins)

section \<open>Settlement and recharge\<close>

text \<open>
  C12: In a kept database nothing but missing money stops the agent who has to settle a batch: the
  settlement passes the batch on to the next account, or ends it at the top, exactly if the
  prepaid money covers the total; otherwise it is refused for this reason.
\<close>

theorem settlement_needs_only_the_money:
  assumes "panel_ok p" "get_batch bid p = Some b" "pending_credit b" "ba_liable b = Some (ad_id a)"
    and "get_admin (ad_id a) p = Some a" "is_agent a" "strip bid = bid" "bid \<noteq> []"
  shows "if ba_total b \<le> ad_prepay a
    then \<exists>p'. settle_credit_batch a bid p = Inr p' \<and> get_batch bid p' = Some (passed_on a p b)
      \<and> (\<forall>j. get_admin j p' = (if j = ad_id a then Some (pay_off (ba_total b) a) else get_admin j p))
    else settle_credit_batch a bid p = Inl (Http 400 ''<prepay too low>'')"
  by (rule settle_route [OF assms])

theorem settlement_needs_only_the_money_witness:
  "\<exists>p'. settle_credit_batch agent_4 ''b3'' sample_panel = Inr p'
     \<and> get_batch ''b3'' p' = Some (passed_on agent_4 sample_panel (sample_batch ''b3'' 30 4 300))
     \<and> get_admin 4 p' = Some (pay_off 30 agent_4)"
proof -
  have "get_batch ''b3'' sample_panel = Some (sample_batch ''b3'' 30 4 300)" "pending_credit (sample_batch ''b3'' 30 4 300)"
    "is_agent agent_4" "strip ''b3'' = ''b3''" "ad_id agent_4 = 4" "30 \<le> ad_prepay agent_4"
    "ba_liable (sample_batch ''b3'' 30 4 300) = Some 4" "ba_total (sample_batch ''b3'' 30 4 300) = 30" by code_simp+
  with settlement_needs_only_the_money [OF sample_ok, of "''b3''" "sample_batch ''b3'' 30 4 300" agent_4]
  show ?thesis by (auto simp: sample_admins)
qed

text \<open>
  C13: In a kept database a recharge by the staff or the direct superior never fails. It settles
  the oldest batches the agent owes for itself, up to the first that the money does not cover;
  what is left becomes balance unless the agent still owes a batch.
\<close>

theorem recharge_settles_oldest_first:
  assumes "panel_ok p" "get_admin (ad_id ca) p = Some ca" "ensure_visible_account ca i p = Inr a" "is_agent a"
    and "is_staff ca \<or> ad_parent a = Some (ad_id ca)" "0 < amount"
    and "owed_batches = own_pending_batches i p" "settled = affordable (ad_prepay a + amount) owed_batches"
  shows "\<exists>p'. create_recharge_entry ca i amount p = Inr p'
    \<and> own_pending_batches i p' = drop (length settled) owed_batches
    \<and> get_admin i p' = Some (recharged amount (total_of settled) (has_pending_credit_batches i p') a)"
  by (rule recharge_route [OF assms])

theorem recharge_settles_oldest_first_witness:
  "\<exists>p'. create_recharge_entry agent_3 4 50 sample_panel = Inr p' \<and> own_pending_batches 4 p' = []
     \<and> get_admin 4 p' = Some (recharged 50 90 (has_pending_credit_batches 4 p') agent_4)"
proof -
  have owed: "own_pending_batches 4 sample_panel = [sample_batch ''b2'' 60 4 200, sample_batch ''b3'' 30 4 300]" by code_simp
  have settled: "affordable (ad_prepay agent_4 + 50) [sample_batch ''b2'' 60 4 200, sample_batch ''b3'' 30 4 300]
      = [sample_batch ''b2'' 60 4 200, sample_batch ''b3'' 30 4 300]" by code_simp
  have "ensure_visible_account agent_3 4 sample_panel = Inr agent_4" "is_agent agent_4" "ad_parent agent_4 = Some (ad_id agent_3)"
    "ad_id agent_3 = 3" "total_of [sample_batch ''b2'' 60 4 200, sample_batch ''b3'' 30 4 300] = 90" by code_simp+
  with recharge_settles_oldest_first [OF sample_ok, of agent_3 4 agent_4 50, OF _ _ _ _ _ owed [symmetric] settled [symmetric]]
  show ?thesis by (simp add: sample_admins)
qed

text \<open>
  C39: If every account on the path from the one that has to settle a batch up to the top has the
  money, then they settle it one after the other and the batch ends up paid.
\<close>

theorem debt_is_paid_along_the_path:
  assumes "panel_ok p" "get_batch bid p = Some b" "pending_credit b" "ba_liable b = Some l"
    and "strip bid = bid" "bid \<noteq> []" "map ad_id as = up_path (accts_of p) l"
    and "\<forall>a \<in> set as. get_admin (ad_id a) p = Some a \<and> is_agent a \<and> ba_total b \<le> ad_prepay a"
  shows "\<exists>p' b'. settle_in_turn bid as p = Inr p' \<and> get_batch bid p' = Some b' \<and> ba_payment b' = ''paid''
    \<and> (\<forall>j. get_admin j p' = (if j \<in> ad_id ` set as then map_option (pay_off (ba_total b)) (get_admin j p) else get_admin j p))"
  by (rule path_pays [OF assms])

theorem debt_is_paid_along_the_path_witness:
  "\<exists>p' b'. settle_in_turn ''b1'' [agent_3, master_2] sample_panel = Inr p' \<and> get_batch ''b1'' p' = Some b'
     \<and> ba_payment b' = ''paid'' \<and> get_admin 2 p' = Some (pay_off 20 master_2)"
proof -
  have "get_batch ''b1'' sample_panel = Some (sample_batch ''b1'' 20 3 100)" "pending_credit (sample_batch ''b1'' 20 3 100)"
    "is_agent agent_3" "is_agent master_2" "strip ''b1'' = ''b1''" "ad_id agent_3 = 3" "ad_id master_2 = 2"
    "20 \<le> ad_prepay agent_3" "20 \<le> ad_prepay master_2"
    "ba_liable (sample_batch ''b1'' 20 3 100) = Some 3" "ba_total (sample_batch ''b1'' 20 3 100) = 20" by code_simp+
  with debt_is_paid_along_the_path [OF sample_ok, of "''b1''" "sample_batch ''b1'' 20 3 100" 3 "[agent_3, master_2]"]
  show ?thesis by (fastforce simp: sample_admins)
qed

section \<open>Batches\<close>

text \<open>
  C15: A generated batch has exactly the cards asked for, with codes that are new and different
  from each other; its total is the price times the number of cards; and the source of the money
  reads back from its remark.
\<close>

theorem batch_has_new_codes:
  assumes "generate_card_batch site ca plan quantity prefix valid funding now p = Some (Inr (p', b))"
  shows "\<exists>ks op. get_admin (ad_id ca) p = Some op
    \<and> card_rows p' = card_rows p @ ks \<and> int (length ks) = quantity \<and> ba_quantity b = quantity
    \<and> distinct (map k_code ks) \<and> k_code ` set ks \<inter> k_code ` set (card_rows p) = {}
    \<and> list_all (\<lambda>k. k_batch k = Some (ba_id b) \<and> k_owner k = Some (ad_id op) \<and> \<not> k_used k \<and> k_active k
        \<and> k_price k = ba_price b \<and> k_days k = Some (ba_days b)) ks
    \<and> ba_total b = ba_price b * quantity \<and> batches p' = batches p @ [b] \<and> get_batch (ba_id b) p = None
    \<and> extract_batch_funding_source b = Inr (if is_staff ca then ''platform'' else lower (strip funding))"
  by (rule generated [OF assms])

theorem batch_has_new_codes_witness:
  "\<exists>p' b. generate_card_batch ''north'' agent_4 ''d30'' 2 ''ab'' None ''credit'' 400 sample_panel = Some (Inr (p', b))
     \<and> length (card_rows p') = 2 \<and> ba_total b = ba_price b * 2 \<and> extract_batch_funding_source b = Inr ''credit''"
proof -
  have "case generate_card_batch ''north'' agent_4 ''d30'' 2 ''ab'' None ''credit'' 400 sample_panel of
      Some (Inr _) \<Rightarrow> True | _ \<Rightarrow> False" by code_simp
  then obtain p' b where run: "generate_card_batch ''north'' agent_4 ''d30'' 2 ''ab'' None ''credit'' 400 sample_panel
      = Some (Inr (p', b))" by (auto split: option.splits sum.splits)
  have "card_rows sample_panel = []" "\<not> is_staff agent_4" "lower (strip ''credit'') = ''credit''" by code_simp+
  with run batch_has_new_codes [OF run] show ?thesis by auto
qed

text \<open>
  The search for free codes ends, so that the generation of a batch returns, if the random
  codes never run dry: whatever 500 codes and the codes in use are excluded, another one is drawn
  later.
\<close>

theorem generation_returns:
  assumes "never_dry (500 + length (card_rows p)) (random_code p)"
  shows "generate_card_batch site ca plan quantity prefix valid funding now p \<noteq> None"
  by (rule generate_ends [OF assms])

theorem generation_returns_witness:
  "generate_card_batch ''north'' agent_4 ''d30'' 500 ''ab'' None ''credit'' 400 sample_panel \<noteq> None"
proof (rule generation_returns)
  have "inj (random_code sample_panel)" by (rule injI) (simp add: sample_panel_def empty_panel_def)
  then show "never_dry (500 + length (card_rows sample_panel)) (random_code sample_panel)" by (rule inj_never_dry)
qed

section \<open>Roles\<close>

text \<open>
  Setting the permissions of a role is refused for an unknown role or an unknown code, and
  otherwise leaves the role with exactly the codes given and every other role as it was.
\<close>

theorem role_permissions_are_set_exactly:
  "let p = panel_run st es (new_panel ids codes offers)
   in case update_role_permissions i cs p of
        Inl e \<Rightarrow> e = Http 404 ''<role not found>'' \<and> get_role i p = None
          \<or> e = Http 400 ''<unknown permission>'' \<and> list_ex (\<lambda>c. perm_of_code c p = None) (code_set cs)
      | Inr p' \<Rightarrow> roles p' = roles p \<and> list_ex (\<lambda>r. ro_id r = i) (roles p)
          \<and> list_all (\<lambda>r. set (codes_bound_to r p') = (if ro_id r = i then set (code_set cs) else set (codes_bound_to r p)))
              (roles p)"
proof -
  let ?p = "panel_run st es (new_panel ids codes offers)"
  show ?thesis
  proof (cases "update_role_permissions i cs ?p")
    case (Inl e)
    then show ?thesis by (auto simp: update_role_permissions_def Let_def split: option.splits if_splits)
  next
    case (Inr p')
    then obtain r where r: "get_role i ?p = Some r" and known: "\<forall>c \<in> set (code_set cs). perm_of_code c ?p \<noteq> None"
      and p': "p' = set_role_perms i (ids_of_codes (code_set cs) ?p) ?p"
      by (auto simp: update_role_permissions_def Let_def list_ex_iff split: option.splits if_splits)
    have "set (codes_bound_to q p') = set (code_set cs)" if "ro_id q = i" for q
      using codes_after_set [OF reached_rbac known, of q] that by (simp add: p')
    moreover have "set (codes_bound_to q p') = set (codes_bound_to q ?p)" if "ro_id q \<noteq> i" for q
      using set_role_perms_other [OF that] by (simp add: p')
    ultimately show ?thesis using Inr get_role_in [OF r] by (auto simp: list_all_iff list_ex_iff p' set_role_perms_def)
  qed
qed

text \<open>
  C16: After a restart the built-in roles are active with exactly their default permissions, and
  every account has at least the default permissions of its role code.
\<close>

theorem restart_restores_the_roles:
  "let p = panel_run st (es @ [Restart]) (new_panel ids codes offers)
   in list_all (\<lambda>k. case role_of_key k p of None \<Rightarrow> False
          | Some r \<Rightarrow> ro_status r = ''active'' \<and> set (codes_bound_to r p) = set (role_default_permission_codes k))
        [super_admin, master_agent, sub_agent]
    \<and> list_all (\<lambda>a. set (concat (map role_default_permission_codes (default_role_keys a)))
          \<subseteq> set (permission_codes_for_account a p)) (admins p)"
proof -
  let ?p = "panel_run st es (new_panel ids codes offers)"
  have "panel_run st (es @ [Restart]) (new_panel ids codes offers) = panel_start st ?p"
    by (simp add: panel_run_append) (simp add: panel_run_def)
  moreover have "list_all (\<lambda>k. role_restored k (panel_start st ?p)) [super_admin, master_agent, sub_agent]"
    using start_restores(1) [OF reached_rbac] by (simp add: system_roles_def)
  moreover have "list_all (\<lambda>a. set (concat (map role_default_permission_codes (default_role_keys a)))
      \<subseteq> set (permission_codes_for_account a (panel_start st ?p))) (admins (panel_start st ?p))"
    unfolding list_all_iff using start_restores(2) [OF reached_rbac] by blast
  ultimately show ?thesis by (simp only: Let_def role_restored_def)
qed

end
