(* ===== verification/Apps.thy ===== *)
theory Apps
  imports Schema
begin

text \<open>
  The pool of Telegram developer apps (\<open>bot/developer_apps/service.py\<close>): the settings of the
  assignment, the choice of an app for an account, the resolution of credentials, and the
  administration of the apps. Theory \<open>AppHealth\<close> has the health checks.

  An account is a row of \<open>Schema\<close> with the columns that bind it to an app. The key-value table
  \<open>app_settings\<close> is an association list. A session of the service is a function on the pool; a
  request that raises leaves the pool as it was (\<open>get_async_session\<close> rolls back).
  Not modelled: the log lines, and the columns \<open>created_at\<close> and \<open>updated_at\<close> of the apps, which
  are only shown.
\<close>

section \<open>The tables\<close>

record app =
  ap_id :: int
  ap_name :: string
  ap_api :: int
  ap_hash :: string
  ap_active :: bool
  ap_max :: int
  ap_weight :: int
  ap_health :: string
  ap_checked :: "datetime option"
  ap_error :: "string option"
  ap_latency :: "int option"
  ap_fails :: int
  ap_version :: int
  ap_rotated :: "datetime option"
  ap_notes :: "string option"

record holder = account +
  aa_app :: "int option"
  aa_version :: int
  aa_updated :: datetime

datatype audit_detail =
    HealthChange string string string "string option" "int option" int bool "string list" "string list"
  | AccountsRecovered "string list" "string list"

record app_audit =
  au_actor :: string
  au_action :: string
  au_app :: int
  au_old :: app
  au_new :: app
  au_detail :: audit_detail
  au_ip :: "string option"

record app_pool =
  apps :: "app list"
  holders :: "holder list"
  app_settings :: "(string \<times> string) list"
  app_audits :: "app_audit list"

abbreviation healthy :: string where "healthy \<equiv> ''healthy''"
abbreviation unhealthy :: string where "unhealthy \<equiv> ''unhealthy''"
abbreviation disabled :: string where "disabled \<equiv> ''disabled''"

definition get_app :: "int \<Rightarrow> app_pool \<Rightarrow> app option" where
  "get_app i p = find_row (\<lambda>r. ap_id r = i) (apps p)"

definition upd_app :: "int \<Rightarrow> (app \<Rightarrow> app) \<Rightarrow> app_pool \<Rightarrow> app_pool" where
  "upd_app i f p = p\<lparr>apps := upd_where (\<lambda>r. ap_id r = i) f (apps p)\<rparr>"

definition next_app_id :: "app_pool \<Rightarrow> int" where
  "next_app_id p = foldr max (map ap_id (apps p)) 0 + 1"

definition get_setting :: "string \<Rightarrow> app_pool \<Rightarrow> string option" where
  "get_setting k p = map_of (app_settings p) k"

definition put_setting :: "string \<Rightarrow> string \<Rightarrow> app_pool \<Rightarrow> app_pool" where
  "put_setting k v p = p\<lparr>app_settings := AList.update k v (app_settings p)\<rparr>"

definition del_setting :: "string \<Rightarrow> app_pool \<Rightarrow> app_pool" where
  "del_setting k p = p\<lparr>app_settings := AList.delete k (app_settings p)\<rparr>"

abbreviation default_app_key :: string where "default_app_key \<equiv> ''default_developer_app_id''"
abbreviation mode_key :: string where "mode_key \<equiv> ''developer_app_assignment_mode''"
abbreviation cursor_key :: string where "cursor_key \<equiv> ''developer_app_assignment_cursor''"
abbreviation alert_key :: string where "alert_key \<equiv> ''developer_app_alert_tg_user_ids''"

definition user_app_key :: "int \<Rightarrow> string" where
  "user_app_key uid = ''user_dev_app:'' @ show_int uid"

text \<open>\<open>selection_weight or 100\<close>, \<open>credentials_version or 1\<close>, \<open>health_status or "healthy"\<close>.\<close>

definition weight_of :: "app \<Rightarrow> int" where
  "weight_of r = (if ap_weight r = 0 then 100 else ap_weight r)"

definition version_of :: "app \<Rightarrow> int" where
  "version_of r = (if ap_version r = 0 then 1 else ap_version r)"

definition health_of :: "app \<Rightarrow> string" where
  "health_of r = (if ap_health r = [] then healthy else ap_health r)"

definition snapshot_app :: "app \<Rightarrow> app" where
  "snapshot_app r = r\<lparr>ap_hash := [], ap_weight := weight_of r, ap_health := health_of r,
     ap_version := version_of r\<rparr>"

definition is_row_healthy :: "app \<Rightarrow> bool" where
  "is_row_healthy r = (ap_active r \<and> ap_health r = healthy)"

section \<open>Settings of the assignment\<close>

definition normalize_assignment_mode :: "string option \<Rightarrow> string" where
  "normalize_assignment_mode raw =
     (let mode = lower (strip (str_or raw []))
      in if mode = ''round_robin'' \<or> mode = ''weight'' then mode else ''round_robin'')"

text \<open>\<open>s.split(c)\<close>.\<close>

fun split_char :: "char \<Rightarrow> string \<Rightarrow> string list" where
  "split_char c [] = [[]]"
| "split_char c (x # xs) =
     (if x = c then [] # split_char c xs
      else case split_char c xs of w # ws \<Rightarrow> (x # w) # ws | [] \<Rightarrow> [[x]])"

fun alert_ids :: "string list \<Rightarrow> int list \<Rightarrow> http_error + int list" where
  "alert_ids [] ids = Inr ids"
| "alert_ids (chunk # chunks) ids =
     (let v = strip chunk
      in if v = [] then alert_ids chunks ids
         else case int_of_str v of
           None \<Rightarrow> Inl (Http 400 ''<invalid notification id>'')
         | Some u \<Rightarrow> alert_ids chunks (if 0 < u \<and> u \<notin> set ids then ids @ [u] else ids))"

definition serialize_ids :: "int list \<Rightarrow> string" where
  "serialize_ids ids = join '','' (map show_int ids)"

definition normalize_alert_tg_user_ids :: "string option \<Rightarrow> http_error + string \<times> int list" where
  "normalize_alert_tg_user_ids raw =
     (let line = map (\<lambda>c. if c = char_of (10::nat) then CHR '','' else c) (str_or raw [])
      in case alert_ids (split_char (CHR '','') line) [] of
           Inl e \<Rightarrow> Inl e
         | Inr ids \<Rightarrow> Inr (serialize_ids ids, ids))"

definition ensure_setting :: "string \<Rightarrow> string \<Rightarrow> app_pool \<Rightarrow> app_pool" where
  "ensure_setting k v p = (if get_setting k p = None then put_setting k v p else p)"

definition ensure_core_settings :: "app_pool \<Rightarrow> app_pool" where
  "ensure_core_settings p =
     ensure_setting alert_key [] (ensure_setting cursor_key []
       (ensure_setting mode_key ''round_robin'' (ensure_setting default_app_key [] p)))"

definition get_assignment_mode :: "app_pool \<Rightarrow> app_pool \<times> string" where
  "get_assignment_mode p =
     (case get_setting mode_key p of
        None \<Rightarrow> (ensure_core_settings p, ''round_robin'')
      | Some v \<Rightarrow> (p, normalize_assignment_mode (Some v)))"

definition set_assignment_mode :: "string \<Rightarrow> app_pool \<Rightarrow> app_pool \<times> string" where
  "set_assignment_mode mode p =
     (let n = normalize_assignment_mode (Some mode) in (put_setting mode_key n p, n))"

definition get_round_robin_cursor :: "app_pool \<Rightarrow> int option" where
  "get_round_robin_cursor p =
     (case get_setting cursor_key p of
        None \<Rightarrow> None
      | Some v \<Rightarrow> (let s = strip v in if s = [] then None else int_of_str s))"

definition set_round_robin_cursor :: "int option \<Rightarrow> app_pool \<Rightarrow> app_pool" where
  "set_round_robin_cursor i p =
     put_setting cursor_key (case i of None \<Rightarrow> [] | Some k \<Rightarrow> show_int k) p"

definition get_alert_raw :: "app_pool \<Rightarrow> app_pool \<times> string" where
  "get_alert_raw p =
     (case get_setting alert_key p of
        None \<Rightarrow> (ensure_core_settings p, [])
      | Some v \<Rightarrow> (p, strip v))"

definition set_alert_raw :: "string \<Rightarrow> app_pool \<Rightarrow> http_error + app_pool \<times> int list" where
  "set_alert_raw raw p =
     (case normalize_alert_tg_user_ids (Some raw) of
        Inl e \<Rightarrow> Inl e
      | Inr (s, ids) \<Rightarrow> Inr (put_setting alert_key s p, ids))"

text \<open>The old mode, the new mode, the old text and the new recipients.\<close>

definition update_assignment_settings ::
  "string \<Rightarrow> string \<Rightarrow> app_pool \<Rightarrow> http_error + app_pool \<times> (string \<times> string \<times> string \<times> int list)" where
  "update_assignment_settings mode alerts p =
     (let (p1, old_mode) = get_assignment_mode (ensure_core_settings p);
          (p2, old_alerts) = get_alert_raw p1;
          (p3, new_mode) = set_assignment_mode mode p2
      in case set_alert_raw alerts p3 of
           Inl e \<Rightarrow> Inl e
         | Inr (p4, ids) \<Rightarrow> Inr (p4, old_mode, new_mode, old_alerts, ids))"

definition get_alert_recipient_ids :: "app_pool \<Rightarrow> app_pool \<times> (http_error + int list)" where
  "get_alert_recipient_ids p =
     (let (p', raw) = get_alert_raw p
      in (p', case normalize_alert_tg_user_ids (Some raw) of Inl e \<Rightarrow> Inl e | Inr (_, ids) \<Rightarrow> Inr ids))"

section \<open>Capacity\<close>

definition account_usage :: "string option \<Rightarrow> int \<Rightarrow> app_pool \<Rightarrow> int" where
  "account_usage ex i p =
     int (length (filter (\<lambda>a. aa_app a = Some i \<and> (str_true ex \<longrightarrow> Some (a_id a) \<noteq> ex)) (holders p)))"

definition is_capacity_available :: "int \<Rightarrow> string option \<Rightarrow> app_pool \<Rightarrow> bool" where
  "is_capacity_available i ex p =
     (case get_app i p of
        None \<Rightarrow> False
      | Some r \<Rightarrow>
          if \<not> ap_active r then False
          else if \<not> is_row_healthy r then False
          else if ap_max r \<le> 0 then True
          else account_usage ex i p < ap_max r)"

text \<open>A candidate is its row, its usage and its weight.\<close>

type_synonym candidate = "app \<times> int \<times> int"

abbreviation cand_id :: "candidate \<Rightarrow> int" where "cand_id c \<equiv> ap_id (fst c)"

definition list_assignable_candidates :: "string option \<Rightarrow> int list \<Rightarrow> app_pool \<Rightarrow> candidate list" where
  "list_assignable_candidates ex dis p =
     map (\<lambda>r. (r, account_usage ex (ap_id r) p, weight_of r))
       (filter (\<lambda>r. ap_id r \<notin> set dis \<and> is_row_healthy r
                  \<and> \<not> (0 < ap_max r \<and> ap_max r \<le> account_usage ex (ap_id r) p))
         (sort_key ap_id (filter ap_active (apps p))))"

section \<open>The choice of an app\<close>

definition pick_weight_candidate :: "candidate list \<Rightarrow> int option" where
  "pick_weight_candidate cs =
     (case sort_key (\<lambda>(r, u, w). (- w, u, ap_id r)) cs of
        [] \<Rightarrow> None
      | c # _ \<Rightarrow> Some (cand_id c))"

text \<open>The selected app, and the cursor before and after.\<close>

definition pick_round_robin_candidate ::
  "candidate list \<Rightarrow> app_pool \<Rightarrow> app_pool \<times> int option \<times> int option \<times> int option" where
  "pick_round_robin_candidate cs p =
     (case sort (map cand_id cs) of
        [] \<Rightarrow> (p, None, None, None)
      | first # others \<Rightarrow>
          (let ids = first # others;
               cursor = get_round_robin_cursor p;
               sel = (case cursor of
                        None \<Rightarrow> first
                      | Some c \<Rightarrow>
                          if c \<notin> set ids
                          then (case pick_weight_candidate cs of Some i \<Rightarrow> i | None \<Rightarrow> first)
                          else (case List.find (\<lambda>i. c < i) ids of Some i \<Rightarrow> i | None \<Rightarrow> first))
           in (set_round_robin_cursor (Some sel) p, Some sel, cursor, Some sel)))"

definition get_default_app_id :: "app_pool \<Rightarrow> app_pool \<times> int option" where
  "get_default_app_id p =
     (let setting = (case get_setting default_app_key p of
                       None \<Rightarrow> None
                     | Some v \<Rightarrow> if strip v = [] then None else int_of_str (strip v));
          active = (\<lambda>i. case get_app i p of None \<Rightarrow> False | Some r \<Rightarrow> ap_active r)
      in if setting \<noteq> None \<and> active (the setting) then (p, setting)
         else case sort (map ap_id (filter ap_active (apps p))) of
             [] \<Rightarrow> (p, None)
           | i # _ \<Rightarrow> (put_setting default_app_key (show_int i) p, Some i))"

definition get_user_preferred_app_id :: "int \<Rightarrow> app_pool \<Rightarrow> int option" where
  "get_user_preferred_app_id uid p =
     (case get_setting (user_app_key uid) p of
        None \<Rightarrow> None
      | Some v \<Rightarrow>
          if strip v = [] then None
          else case int_of_str (strip v) of
            None \<Rightarrow> None
          | Some i \<Rightarrow>
              (case get_app i p of
                 None \<Rightarrow> None
               | Some r \<Rightarrow> if ap_active r then Some i else None))"

datatype assignment_context = NewAccount | ExistingReassign

definition candidate_available :: "string option \<Rightarrow> int list \<Rightarrow> int option \<Rightarrow> app_pool \<Rightarrow> int option" where
  "candidate_available ex dis i p =
     (case i of
        None \<Rightarrow> None
      | Some k \<Rightarrow>
          if k \<in> set dis then None
          else if is_capacity_available k ex p then Some k else None)"

text \<open>
  The choice itself works inside the session of its caller: on an error the pool it returns
  holds what it wrote so far.
\<close>

definition resolve_in_session ::
  "int \<Rightarrow> int option \<Rightarrow> string option \<Rightarrow> int list \<Rightarrow> assignment_context \<Rightarrow> int option \<Rightarrow> app_pool
     \<Rightarrow> app_pool \<times> (http_error + int option)" where
  "resolve_in_session uid preferred ex dis ctx existing p =
     (let (p1, mode) = get_assignment_mode p;
          cs = list_assignable_candidates ex dis p1
      in case candidate_available ex dis preferred p1 of
           Some i \<Rightarrow> (p1, Inr (Some i))
         | None \<Rightarrow>
        (case candidate_available ex dis (get_user_preferred_app_id uid p1) p1 of
           Some i \<Rightarrow> (p1, Inr (Some i))
         | None \<Rightarrow>
        (let (p2, chosen) =
               (if cs = [] then (p1, None)
                else if mode = ''weight'' then (p1, pick_weight_candidate cs)
                else (let (q, sel, _, _) = pick_round_robin_candidate cs p1
                      in (q, case sel of None \<Rightarrow> pick_weight_candidate cs | Some i \<Rightarrow> Some i)))
         in case chosen of
           Some i \<Rightarrow> (p2, Inr (Some i))
         | None \<Rightarrow>
        (case (if ctx = ExistingReassign then candidate_available ex dis existing p2 else None) of
           Some i \<Rightarrow> (p2, Inr (Some i))
         | None \<Rightarrow>
        (let (p3, def) = get_default_app_id p2
         in case candidate_available ex dis def p3 of
           Some i \<Rightarrow> (p3, Inr (Some i))
         | None \<Rightarrow>
           if list_ex ap_active (apps p3) then (p3, Inl (Http 409 ''<no healthy app with capacity>''))
           else (p3, Inr None))))))"

definition committed :: "'p \<Rightarrow> 'p \<times> ('e + 'a) \<Rightarrow> 'p \<times> ('e + 'a)" where
  "committed p r = (case snd r of Inl e \<Rightarrow> (p, Inl e) | Inr v \<Rightarrow> r)"

definition resolve_assignable_app_id ::
  "int \<Rightarrow> int option \<Rightarrow> string option \<Rightarrow> int list \<Rightarrow> assignment_context \<Rightarrow> int option \<Rightarrow> app_pool
     \<Rightarrow> app_pool \<times> (http_error + int option)" where
  "resolve_assignable_app_id uid preferred ex dis ctx existing p =
     committed p (resolve_in_session uid preferred ex dis ctx existing p)"

section \<open>Credentials\<close>

text \<open>
  The environment: the API id and hash of the settings, the encryption of
  \<open>backend.utils.security.crypto\<close> (\<open>Inl\<close> is the text of the \<open>ValueError\<close> of a failed
  decryption), and Telegram's answer to \<open>help.getConfig\<close> for an API id and hash (the text of the
  exception, or none) with the latency measured.
\<close>

record app_env =
  env_api :: int
  env_hash :: string
  seal :: "string \<Rightarrow> string"
  unseal :: "string \<Rightarrow> string + string"
  get_config :: "int \<Rightarrow> string \<Rightarrow> string option"
  probe_ms :: "int \<Rightarrow> int"

record credentials =
  cr_app :: "int option"
  cr_api :: int
  cr_hash :: string
  cr_version :: int
  cr_source :: string

definition env_credentials_or_error :: "app_env \<Rightarrow> http_error + credentials" where
  "env_credentials_or_error env =
     (if env_api env = 0 \<or> env_hash env = [] then Inl (Http 503 ''<no developer credentials>'')
      else Inr \<lparr>cr_app = None, cr_api = env_api env, cr_hash = env_hash env, cr_version = 0,
                cr_source = ''env''\<rparr>)"

definition resolve_credentials ::
  "app_env \<Rightarrow> int option \<Rightarrow> int option \<Rightarrow> app_pool \<Rightarrow> app_pool \<times> (http_error + credentials)" where
  "resolve_credentials env dev uid p =
     (let t0 = (if int_true dev then dev else None);
          t1 = (case t0 of
                  Some i \<Rightarrow> Some i
                | None \<Rightarrow> (case uid of None \<Rightarrow> None | Some u \<Rightarrow> get_user_preferred_app_id u p));
          (p', target) = (case t1 of Some i \<Rightarrow> (p, Some i) | None \<Rightarrow> get_default_app_id p)
      in case target of
           None \<Rightarrow> (p', env_credentials_or_error env)
         | Some i \<Rightarrow>
          (case get_app i p' of
             None \<Rightarrow> (p', if dev \<noteq> None then Inl (Http 404 ''<app not found>'')
                          else env_credentials_or_error env)
           | Some r \<Rightarrow>
               if ap_active r \<and> is_row_healthy r
               then (p', case unseal env (ap_hash r) of
                       Inl _ \<Rightarrow> Inl (Http 503 ''<app credentials broken>'')
                     | Inr h \<Rightarrow> Inr \<lparr>cr_app = Some (ap_id r), cr_api = ap_api r, cr_hash = h,
                                     cr_version = version_of r, cr_source = ''db''\<rparr>)
               else if dev \<noteq> None
               then (p', Inl (if \<not> ap_active r then Http 400 ''<app inactive>''
                              else Http 400 ''<app unhealthy>''))
               else (p', env_credentials_or_error env)))"

definition resolve_credentials_for_account ::
  "app_env \<Rightarrow> string \<Rightarrow> app_pool \<Rightarrow> app_pool \<times> (http_error + credentials)" where
  "resolve_credentials_for_account env aid p =
     committed p (case find_row (\<lambda>a. a_id a = aid) (holders p) of
        None \<Rightarrow> (p, Inl (Http 404 ''<account not found>''))
      | Some a \<Rightarrow> resolve_credentials env (aa_app a) (Some (a_user a)) p)"

definition choose_login_credentials_for_user ::
  "app_env \<Rightarrow> int \<Rightarrow> int option \<Rightarrow> app_pool \<Rightarrow> app_pool \<times> (http_error + credentials)" where
  "choose_login_credentials_for_user env uid tg p =
     (let known = (case tg of
                     None \<Rightarrow> None
                   | Some t \<Rightarrow> find_row (\<lambda>a. a_user a = uid \<and> a_tg a = Some t) (holders p))
      in committed p
        (case resolve_in_session uid None (map_option a_id known) []
                (if known = None then NewAccount else ExistingReassign)
                (case known of None \<Rightarrow> None | Some a \<Rightarrow> aa_app a) p of
           (p1, Inl e) \<Rightarrow> (p1, Inl e)
         | (p1, Inr i) \<Rightarrow> resolve_credentials env i (Some uid) p1))"

section \<open>Administration\<close>

definition new_app :: "app_pool \<Rightarrow> string \<Rightarrow> int \<Rightarrow> string \<Rightarrow> bool \<Rightarrow> int \<Rightarrow> int \<Rightarrow> string option \<Rightarrow> app" where
  "new_app p name api hash active mx weight notes =
     \<lparr>ap_id = next_app_id p, ap_name = name, ap_api = api, ap_hash = hash, ap_active = active,
      ap_max = mx, ap_weight = weight, ap_health = (if active then healthy else disabled),
      ap_checked = None, ap_error = None, ap_latency = None, ap_fails = 0, ap_version = 1,
      ap_rotated = None, ap_notes = notes\<rparr>"

definition ensure_env_default_app :: "app_env \<Rightarrow> app_pool \<Rightarrow> app_pool \<times> int option" where
  "ensure_env_default_app env p =
     (if env_api env = 0 \<or> env_hash env = [] then (p, None)
      else (let p1 = ensure_core_settings p;
                (p2, i) =
                  (case find_row (\<lambda>r. ap_api r = env_api env) (apps p1) of
                     None \<Rightarrow>
                       (let r = new_app p1 ''env-default'' (env_api env) (seal env (env_hash env)) True 0 100
                                  (Some ''<from the environment>'')
                        in (p1\<lparr>apps := apps p1 @ [r]\<rparr>, ap_id r))
                   | Some r \<Rightarrow>
                       (upd_app (ap_id r)
                          (\<lambda>r. r\<lparr>ap_weight := weight_of r, ap_health := healthy, ap_active := True\<rparr>) p1,
                        ap_id r));
                p3 = (case get_setting default_app_key p2 of
                        None \<Rightarrow> put_setting default_app_key (show_int i) p2
                      | Some v \<Rightarrow> if strip v = [] then put_setting default_app_key (show_int i) p2 else p2)
            in (p3, Some i)))"

definition set_user_preferred_app_id ::
  "int \<Rightarrow> int option \<Rightarrow> app_pool \<Rightarrow> app_pool \<times> (http_error + int option \<times> int option)" where
  "set_user_preferred_app_id uid new p =
     (let row = get_setting (user_app_key uid) p;
          old = (case row of None \<Rightarrow> None
                 | Some v \<Rightarrow> if strip v = [] then None else int_of_str (strip v))
      in case new of
           None \<Rightarrow> (if row = None then p else del_setting (user_app_key uid) p, Inr (old, None))
         | Some i \<Rightarrow>
             if get_app i p = None then (p, Inl (Http 404 ''<app not found>''))
             else (put_setting (user_app_key uid) (show_int i) p, Inr (old, Some i)))"

definition create_app ::
  "app_env \<Rightarrow> string \<Rightarrow> int \<Rightarrow> string \<Rightarrow> bool \<Rightarrow> int \<Rightarrow> int \<Rightarrow> string option \<Rightarrow> app_pool
     \<Rightarrow> app_pool \<times> (http_error + app)" where
  "create_app env name api hash active mx weight notes p =
     (let nm = strip name
      in if nm = [] then (p, Inl (Http 400 ''<empty app name>''))
         else if hash = [] then (p, Inl (Http 400 ''<empty api hash>''))
         else if strip hash = [] then (p, Inl unhandled)
         else (let p1 = ensure_core_settings p
               in if find_row (\<lambda>r. ap_api r = api) (apps p1) \<noteq> None
                  then (p, Inl (Http 400 ''<api id exists>''))
                  else (let r = new_app p1 nm api (seal env (strip hash)) active (max 0 mx)
                                  (max 1 (if weight = 0 then 100 else weight))
                                  (opt_str (strip (str_or notes [])));
                            p2 = p1\<lparr>apps := apps p1 @ [r]\<rparr>
                        in (if get_setting default_app_key p2 = None
                            then put_setting default_app_key (show_int (ap_id r)) p2 else p2,
                            Inr (snapshot_app r)))))"

text \<open>The fields of an update, in the order they are applied; \<open>None\<close> leaves the field.\<close>

definition set_app_hash :: "app_env \<Rightarrow> datetime \<Rightarrow> string option \<Rightarrow> app \<Rightarrow> http_error + app" where
  "set_app_hash env now hash r =
     (case hash of
        None \<Rightarrow> Inr r
      | Some h \<Rightarrow>
          if strip h = [] then Inl (Http 400 ''<empty api hash>'')
          else case unseal env (ap_hash r) of
            Inl _ \<Rightarrow> Inl (Http 400 ''<old api hash unreadable>'')
          | Inr old \<Rightarrow>
              if old = strip h then Inr r
              else Inr (r\<lparr>ap_hash := seal env (strip h), ap_version := version_of r + 1,
                          ap_rotated := Some now\<rparr>))"

definition set_app_active :: "bool option \<Rightarrow> app \<Rightarrow> app" where
  "set_app_active active r =
     (case active of
        None \<Rightarrow> r
      | Some False \<Rightarrow> r\<lparr>ap_active := False, ap_health := disabled\<rparr>
      | Some True \<Rightarrow>
          (let r' = r\<lparr>ap_active := True\<rparr>
           in if ap_health r = disabled
              then r'\<lparr>ap_health := healthy, ap_fails := 0, ap_error := None\<rparr> else r'))"

definition update_app_row ::
  "app_env \<Rightarrow> datetime \<Rightarrow> string option \<Rightarrow> string option \<Rightarrow> bool option \<Rightarrow> int option \<Rightarrow> int option
     \<Rightarrow> string option \<Rightarrow> app \<Rightarrow> http_error + app" where
  "update_app_row env now name hash active mx weight notes r =
     and_then (case name of
                 None \<Rightarrow> Inr r
               | Some n \<Rightarrow> if strip n = [] then Inl (Http 400 ''<empty app name>'')
                           else Inr (r\<lparr>ap_name := strip n\<rparr>))
       (\<lambda>r1. and_then (set_app_hash env now hash r1)
       (\<lambda>r2. let r3 = set_app_active active r2;
                 r4 = (case mx of None \<Rightarrow> r3 | Some m \<Rightarrow> r3\<lparr>ap_max := max 0 m\<rparr>);
                 r5 = (case weight of None \<Rightarrow> r4 | Some w \<Rightarrow> r4\<lparr>ap_weight := max 1 w\<rparr>)
             in Inr (case notes of None \<Rightarrow> r5 | Some s \<Rightarrow> r5\<lparr>ap_notes := opt_str (strip s)\<rparr>)))"

definition update_app ::
  "app_env \<Rightarrow> datetime \<Rightarrow> int \<Rightarrow> string option \<Rightarrow> string option \<Rightarrow> bool option \<Rightarrow> int option \<Rightarrow> int option
     \<Rightarrow> string option \<Rightarrow> app_pool \<Rightarrow> app_pool \<times> (http_error + app \<times> app)" where
  "update_app env now i name hash active mx weight notes p =
     (case get_app i p of
        None \<Rightarrow> (p, Inl (Http 404 ''<app not found>''))
      | Some r \<Rightarrow>
          (case update_app_row env now name hash active mx weight notes r of
             Inl e \<Rightarrow> (p, Inl e)
           | Inr r' \<Rightarrow> (upd_app i (\<lambda>_. r') p, Inr (snapshot_app r, snapshot_app r'))))"

definition set_default_app :: "int \<Rightarrow> app_pool \<Rightarrow> app_pool \<times> (http_error + int option \<times> int)" where
  "set_default_app i p =
     (case get_app i p of
        None \<Rightarrow> (p, Inl (Http 404 ''<app not found>''))
      | Some r \<Rightarrow>
          if \<not> ap_active r then (p, Inl (Http 400 ''<inactive app as default>''))
          else (let p1 = ensure_core_settings p;
                    old = (case get_setting default_app_key p1 of None \<Rightarrow> None
                           | Some v \<Rightarrow> if strip v = [] then None else int_of_str (strip v))
                in (put_setting default_app_key (show_int i) p1, Inr (old, i))))"

text \<open>Each app with the mark of the default app and its usage.\<close>

definition list_apps :: "app_pool \<Rightarrow> app_pool \<times> (app \<times> bool \<times> int) list" where
  "list_apps p =
     (let (p1, def) = get_default_app_id (ensure_core_settings p)
      in (p1, map (\<lambda>r. (snapshot_app r, def = Some (ap_id r), account_usage None (ap_id r) p1))
            (sort_key ap_id (apps p1))))"

text \<open>The mode, the recipients and their text, and the default app: id, name and whether it is active.\<close>

definition get_assignment_settings ::
  "app_pool \<Rightarrow> app_pool \<times> (http_error + string \<times> int list \<times> string \<times> (int \<times> string \<times> bool) option)" where
  "get_assignment_settings p =
     committed p
       (let (p1, mode) = get_assignment_mode (ensure_core_settings p);
            (p2, raw) = get_alert_raw p1
        in case normalize_alert_tg_user_ids (Some raw) of
             Inl e \<Rightarrow> (p2, Inl e)
           | Inr (_, ids) \<Rightarrow>
               (let (p3, def) = get_default_app_id p2
                in (p3, Inr (mode, ids, raw,
                     case def of None \<Rightarrow> None
                     | Some i \<Rightarrow> (case get_app i p3 of None \<Rightarrow> Some (i, [], False)
                                 | Some r \<Rightarrow> Some (i, ap_name r, ap_active r))))))"

end
