(* ===== verification/AppHealth.thy ===== *)
theory AppHealth
  imports Apps
begin

text \<open>
  The health checks of the developer apps (\<open>bot/developer_apps/service.py\<close>): the probe, the
  transition of the health status, the migration of the accounts of a failing app, their
  recovery, and the cycle of \<open>health_runtime.py\<close>.

  A check holds no database session while it probes Telegram: what other sessions commit in
  between is the function \<open>meanwhile\<close>. Closing cached clients and the texts of the notices are
  not modelled. The health check of an account, which theory \<open>Runner\<close> models over the full
  database, is the operation \<open>recheck\<close> here.
\<close>

abbreviation (input) health_failure_threshold :: int where "health_failure_threshold \<equiv> 2"
abbreviation (input) app_unhealthy_reason :: string where
  "app_unhealthy_reason \<equiv> ''developer_app_unhealthy''"

section \<open>One probe\<close>

definition probe_app :: "app_env \<Rightarrow> app \<Rightarrow> string \<times> string option \<times> int option" where
  "probe_app env r =
     (if \<not> ap_active r then (disabled, None, None)
      else case unseal env (ap_hash r) of
        Inl e \<Rightarrow> (unhealthy, Some (''ValueError: '' @ e), Some (probe_ms env (ap_api r)))
      | Inr h \<Rightarrow>
          (case get_config env (ap_api r) h of
             None \<Rightarrow> (healthy, None, Some (probe_ms env (ap_api r)))
           | Some e \<Rightarrow> (unhealthy, Some e, Some (probe_ms env (ap_api r)))))"

text \<open>The new status, and whether a failed probe left the status as it was.\<close>

definition resolve_health_transition :: "string \<Rightarrow> string \<Rightarrow> int \<Rightarrow> bool \<Rightarrow> string \<times> bool" where
  "resolve_health_transition previous probe fails manual =
     (let prev = (if previous = [] then healthy else previous)
      in if probe = healthy \<or> probe = disabled then (probe, False)
         else if prev = unhealthy then (unhealthy, False)
         else (let down = health_failure_threshold \<le> fails
               in if manual \<and> \<not> down then (prev, True)
                  else if down then (unhealthy, False)
                  else (prev, True)))"

definition next_fail_count :: "string \<Rightarrow> app \<Rightarrow> int" where
  "next_fail_count probe r = (if probe = healthy \<or> probe = disabled then 0 else ap_fails r + 1)"

definition apply_probe ::
  "string \<times> string option \<times> int option \<Rightarrow> bool \<Rightarrow> datetime \<Rightarrow> app \<Rightarrow> app \<times> bool" where
  "apply_probe result manual now r =
     (let (probe, err, ms) = result;
          fails = next_fail_count probe r;
          (status, kept) = resolve_health_transition (health_of r) probe fails manual
      in (r\<lparr>ap_health := status, ap_checked := Some now, ap_error := err, ap_latency := ms,
            ap_fails := (if probe = unhealthy then fails else 0)\<rparr>, kept))"

section \<open>Accounts of a failing app\<close>

text \<open>An \<open>UPDATE\<close> that changes no column is not sent, and \<open>updated_at\<close> stays.\<close>

definition touch_holder :: "datetime \<Rightarrow> holder \<Rightarrow> holder \<Rightarrow> holder" where
  "touch_holder now a a' = (if a' = a then a else a'\<lparr>aa_updated := now\<rparr>)"

definition upd_holder :: "datetime \<Rightarrow> string \<Rightarrow> (holder \<Rightarrow> holder) \<Rightarrow> app_pool \<Rightarrow> app_pool" where
  "upd_holder now aid f p =
     p\<lparr>holders := upd_where (\<lambda>a. a_id a = aid) (\<lambda>a. touch_holder now a (f a)) (holders p)\<rparr>"

definition stall_holder :: "holder \<Rightarrow> holder" where
  "stall_holder a = a\<lparr>a_health := Offline, a_reauth := False,
     a_reauth_reason := Some app_unhealthy_reason, a_reauth_at := None\<rparr>"

definition move_holder :: "int \<Rightarrow> int \<Rightarrow> holder \<Rightarrow> holder" where
  "move_holder target version a =
     (a\<lparr>a_health := Offline, a_reauth := False, a_reauth_reason := None, a_reauth_at := None\<rparr>)
       \<lparr>aa_app := Some target, aa_version := version\<rparr>"

fun migrate_loop ::
  "int \<Rightarrow> datetime \<Rightarrow> holder list \<Rightarrow> app_pool \<Rightarrow> app_pool \<times> string list \<times> string list" where
  "migrate_loop i now [] p = (p, [], [])"
| "migrate_loop i now (a # as) p =
     (let (p1, r) = resolve_in_session (a_user a) None (Some (a_id a)) [i] NewAccount None p
      in case r of
           Inr (Some t) \<Rightarrow>
             (let version = (case get_app t p1 of None \<Rightarrow> 1 | Some row \<Rightarrow> version_of row);
                  (p2, moved, stalled) =
                    migrate_loop i now as (upd_holder now (a_id a) (move_holder t version) p1)
              in (p2, a_id a # moved, stalled))
         | _ \<Rightarrow>
             (let (p2, moved, stalled) = migrate_loop i now as (upd_holder now (a_id a) stall_holder p1)
              in (p2, moved, a_id a # stalled)))"

definition accounts_of_app :: "int \<Rightarrow> app_pool \<Rightarrow> holder list" where
  "accounts_of_app i p =
     sort_key (\<lambda>a. (- aa_updated a, - a_created a)) (filter (\<lambda>a. aa_app a = Some i) (holders p))"

definition migrate_accounts_from_unhealthy_app ::
  "int \<Rightarrow> datetime \<Rightarrow> app_pool \<Rightarrow> app_pool \<times> string list \<times> string list" where
  "migrate_accounts_from_unhealthy_app i now p = migrate_loop i now (accounts_of_app i p) p"

definition recoverable_stalled_account_ids :: "int \<Rightarrow> app_pool \<Rightarrow> string list" where
  "recoverable_stalled_account_ids i p =
     map a_id (filter (\<lambda>a. aa_app a = Some i \<and> a_health a = Offline \<and> \<not> a_reauth a
                        \<and> a_reauth_reason a = Some app_unhealthy_reason) (holders p))"

text \<open>What a check uses besides the pool; a \<open>recheck\<close> that raises returns no health.\<close>

record check_env = app_env +
  meanwhile :: "app_pool \<Rightarrow> app_pool"
  recheck :: "string \<Rightarrow> app_pool \<Rightarrow> app_pool \<times> health option"
  bot_ready :: bool
  delivered :: "int \<Rightarrow> bool"

fun recover_loop ::
  "check_env \<Rightarrow> string list \<Rightarrow> app_pool \<Rightarrow> app_pool \<times> string list \<times> string list" where
  "recover_loop env [] p = (p, [], [])"
| "recover_loop env (aid # aids) p =
     (let (p1, status) = recheck env aid p;
          (p2, recovered, unrecovered) = recover_loop env aids p1
      in if status = Some Online then (p2, aid # recovered, unrecovered)
         else (p2, recovered, aid # unrecovered))"

definition recover_stalled_accounts ::
  "check_env \<Rightarrow> int \<Rightarrow> app_pool \<Rightarrow> app_pool \<times> string list \<times> string list" where
  "recover_stalled_accounts env i p = recover_loop env (recoverable_stalled_account_ids i p) p"

section \<open>The check of one app\<close>

definition append_health_audit :: "app_audit \<Rightarrow> app_pool \<Rightarrow> app_pool" where
  "append_health_audit au p = p\<lparr>app_audits := app_audits p @ [au]\<rparr>"

definition audit_action :: "bool \<Rightarrow> string \<Rightarrow> string \<Rightarrow> string \<Rightarrow> string" where
  "audit_action force actor previous current =
     (if current = healthy \<and> previous \<noteq> current then ''system.developer_app_health_recovered''
      else if force \<and> actor \<noteq> ''system'' then ''admin.check_developer_app_health''
      else ''system.developer_app_health_changed'')"

definition notify_admins ::
  "check_env \<Rightarrow> app_pool \<Rightarrow> app_pool \<times> (http_error + int list)" where
  "notify_admins env p =
     (let (p1, r) = get_alert_recipient_ids p
      in case r of
           Inl e \<Rightarrow> (p1, Inl e)
         | Inr ids \<Rightarrow>
             (p1, Inr (if ids = [] then []
                       else if \<not> bot_ready env then [] else filter (delivered env) ids)))"

record check_result =
  hr_previous :: string
  hr_probe :: string
  hr_current :: string
  hr_error :: "string option"
  hr_latency :: "int option"
  hr_fails :: int
  hr_migrated :: "string list"
  hr_stalled :: "string list"
  hr_notified :: "int list"
  hr_kept :: bool
  hr_recovered :: "string list"
  hr_unrecovered :: "string list"

text \<open>The second session: the result of the probe is written, and the accounts are migrated.\<close>

definition write_check ::
  "app_env \<Rightarrow> int \<Rightarrow> string \<Rightarrow> string option \<Rightarrow> bool \<Rightarrow> datetime \<Rightarrow> app
     \<Rightarrow> string \<times> string option \<times> int option \<Rightarrow> app \<Rightarrow> app_pool \<Rightarrow> app_pool \<times> check_result" where
  "write_check env i actor ip force now previous result r p =
     (let (probe, err, ms) = result;
          manual = (actor \<noteq> ''system'');
          before = health_of r;
          (r', kept) = apply_probe result manual now r;
          current = ap_health r';
          p1 = upd_app i (\<lambda>_. r') p;
          (p2, moved, stalled) =
            (if current = unhealthy \<and> probe = unhealthy
             then migrate_accounts_from_unhealthy_app i now p1 else (p1, [], []));
          p3 = (if force \<or> before \<noteq> current \<or> moved \<noteq> [] \<or> stalled \<noteq> []
                then append_health_audit
                  \<lparr>au_actor = actor, au_action = audit_action force actor before current, au_app = i,
                   au_old = previous, au_new = snapshot_app r',
                   au_detail = HealthChange before probe current err ms (ap_fails r') kept moved stalled,
                   au_ip = ip\<rparr> p2
                else p2)
      in (p3, \<lparr>hr_previous = before, hr_probe = probe, hr_current = current, hr_error = err,
               hr_latency = ms, hr_fails = next_fail_count probe r, hr_migrated = moved,
               hr_stalled = stalled, hr_notified = [], hr_kept = kept, hr_recovered = [],
               hr_unrecovered = []\<rparr>))"

text \<open>After the second session: the stalled accounts of a recovered app are checked.\<close>

definition after_check ::
  "check_env \<Rightarrow> int \<Rightarrow> string \<Rightarrow> string option \<Rightarrow> app \<Rightarrow> check_result \<Rightarrow> app_pool
     \<Rightarrow> app_pool \<times> string list \<times> string list" where
  "after_check env i actor ip previous res p =
     (if hr_previous res = unhealthy \<and> hr_current res = healthy \<and> hr_probe res = healthy
      then (let (p1, recovered, unrecovered) = recover_stalled_accounts env i p;
                p2 = (if recovered = [] \<and> unrecovered = [] then p1
                      else case get_app i p1 of
                        None \<Rightarrow> p1
                      | Some r \<Rightarrow>
                          append_health_audit
                            \<lparr>au_actor = actor, au_action = ''system.developer_app_accounts_recovered'',
                             au_app = i, au_old = previous, au_new = snapshot_app r,
                             au_detail = AccountsRecovered recovered unrecovered, au_ip = ip\<rparr> p1)
            in (p2, recovered, unrecovered))
      else (p, [], []))"

definition check_app_health ::
  "check_env \<Rightarrow> int \<Rightarrow> string \<Rightarrow> string option \<Rightarrow> bool \<Rightarrow> bool \<Rightarrow> datetime \<Rightarrow> app_pool
     \<Rightarrow> app_pool \<times> (http_error + check_result)" where
  "check_app_health env i actor ip notify force now p =
     (case get_app i p of
        None \<Rightarrow> (p, Inl (Http 404 ''<app not found>''))
      | Some row \<Rightarrow>
          (let previous = snapshot_app row;
               result = probe_app (app_env.truncate env) row;
               p1 = meanwhile env p
           in case get_app i p1 of
                None \<Rightarrow> (p1, Inl (Http 404 ''<app not found>''))
              | Some r \<Rightarrow>
                  (let (p2, res) = write_check (app_env.truncate env) i actor ip force now previous result r p1;
                       (p3, recovered, unrecovered) = after_check env i actor ip previous res p2;
                       res1 = res\<lparr>hr_recovered := recovered, hr_unrecovered := unrecovered,
                                  hr_previous := health_of previous\<rparr>
                   in if notify \<and> hr_previous res1 \<noteq> hr_current res1
                      then (let (p4, sent) = notify_admins env p3
                            in case sent of
                                 Inl e \<Rightarrow> (p4, Inl e)
                               | Inr ids \<Rightarrow> (p4, Inr (res1\<lparr>hr_notified := ids\<rparr>)))
                      else (p3, Inr res1))))"

text \<open>The cycle goes through the active apps; a check that raises is logged and skipped.\<close>

fun check_apps ::
  "check_env \<Rightarrow> datetime \<Rightarrow> int list \<Rightarrow> app_pool \<Rightarrow> app_pool \<times> check_result list" where
  "check_apps env now [] p = (p, [])"
| "check_apps env now (i # is) p =
     (let (p1, r) = check_app_health env i ''system'' None True False now p;
          (p2, rs) = check_apps env now is p1
      in (p2, case r of Inl _ \<Rightarrow> rs | Inr x \<Rightarrow> x # rs))"

definition run_health_check_cycle ::
  "check_env \<Rightarrow> datetime \<Rightarrow> app_pool \<Rightarrow> app_pool \<times> check_result list" where
  "run_health_check_cycle env now p =
     check_apps env now (sort (map ap_id (filter ap_active (apps p)))) p"

end
