(* ===== verification/AppLogin.thy ===== *)
theory AppLogin
  imports AppHealth
begin

text \<open>
  The account of a confirmed login (\<open>_upsert_login_account\<close> of
  \<open>h5_backend/services/login/service.py\<close>), as far as the pool of developer apps is concerned,
  and the sessions that change the pool, as a step relation.

  The choice of the app runs in a session of its own inside the session of the login, and stays
  even if the login fails afterwards. The primary key of a new account is a parameter; a key
  that exists already is an \<open>IntegrityError\<close>. The authorization slot, the trial and the link to
  the Telegram actor, which the same request writes, belong to theory \<open>Licensing\<close>.
\<close>

section \<open>The account of a login\<close>

record login =
  lg_user :: "int option"
  lg_confirmed :: bool
  lg_account :: "string option"
  lg_session :: "string option"
  lg_tg :: "int option"
  lg_username :: "string option"
  lg_phone :: "string option"
  lg_app :: "int option"
  lg_target :: "string option"

definition get_holder :: "string \<Rightarrow> app_pool \<Rightarrow> holder option" where
  "get_holder aid p = find_row (\<lambda>a. a_id a = aid) (holders p)"

text \<open>The account that logs in again: its owner and its Telegram user must fit.\<close>

definition login_target :: "login \<Rightarrow> int \<Rightarrow> int \<Rightarrow> app_pool \<Rightarrow> http_error + holder option" where
  "login_target l uid tg p =
     (let target = strip (str_or (lg_target l) [])
      in if target = [] then Inr None
         else case get_holder target p of
           None \<Rightarrow> Inl (Http 404 ''<login account not found>'')
         | Some a \<Rightarrow>
             if a_user a \<noteq> uid then Inl (Http 404 ''<login account not found>'')
             else if int_true (a_tg a) \<and> a_tg a \<noteq> Some tg then Inl (Http 400 ''<other Telegram account>'')
             else Inr (Some a))"

definition login_account_row :: "login \<Rightarrow> int \<Rightarrow> int \<Rightarrow> string \<Rightarrow> int option \<Rightarrow> int \<Rightarrow> datetime \<Rightarrow> holder" where
  "login_account_row l uid tg aid ap version now =
     \<lparr>a_id = aid, a_user = uid, a_tg = Some tg,
      a_username = Some (str_or (lg_username l) (''user_'' @ show_int tg)),
      a_first_name = Some (str_or (lg_username l) []), a_phone = Some (str_or (lg_phone l) []),
      a_proxy = None, a_active = True, a_banned = False, a_health = Online, a_flooding = False,
      a_flood_until = None, a_reauth = False, a_reauth_reason = None, a_reauth_at = None,
      a_obs_started = None, a_obs_until = None, a_obs_count = 0, a_weight = 100, a_sent = 0,
      a_last_used = None, a_created = now, aa_app = ap, aa_version = version, aa_updated = now\<rparr>"

definition or_old :: "string option \<Rightarrow> string option \<Rightarrow> string option" where
  "or_old new old = (if str_true new then new else old)"

definition login_again ::
  "login \<Rightarrow> int option \<Rightarrow> int \<Rightarrow> bool \<Rightarrow> datetime \<Rightarrow> holder \<Rightarrow> holder" where
  "login_again l ap version observe now a =
     (let a' = (a\<lparr>a_username := or_old (lg_username l) (a_username a),
                  a_first_name := or_old (lg_username l) (a_first_name a),
                  a_phone := or_old (lg_phone l) (a_phone a), a_reauth := False,
                  a_reauth_reason := None, a_reauth_at := None, a_health := Online\<rparr>)
                \<lparr>aa_app := ap, aa_version := version\<rparr>
      in if observe
         then a'\<lparr>a_obs_started := Some now, a_obs_until := Some (now + hours 24), a_obs_count := 0\<rparr>
         else a')"

text \<open>
  The checks at the start: the id of the account if the session has one already (left), else the
  Telegram user and the account that logs in again.
\<close>

definition login_checks :: "login \<Rightarrow> int \<Rightarrow> app_pool \<Rightarrow> http_error + string + int \<times> holder option" where
  "login_checks l uid p =
     (if lg_user l \<noteq> None \<and> lg_user l \<noteq> Some uid then Inl (Http 404 ''<session not found>'')
      else if \<not> lg_confirmed l then Inl (Http 400 ''<login not finished>'')
      else case (if str_true (lg_account l) then get_holder (the (lg_account l)) p else None) of
        Some a \<Rightarrow> Inr (Inl (a_id a))
      | None \<Rightarrow>
          if \<not> str_true (lg_session l) then Inl (Http 400 ''<no confirmed session>'')
          else if int_or (lg_tg l) 0 \<le> 0 then Inl (Http 400 ''<no Telegram account>'')
          else and_then (login_target l uid (int_or (lg_tg l) 0) p)
                 (\<lambda>target. Inr (Inr (int_or (lg_tg l) 0, target))))"

definition known_account :: "int \<Rightarrow> int \<Rightarrow> holder option \<Rightarrow> app_pool \<Rightarrow> holder option" where
  "known_account uid tg target p =
     (case target of
        Some a \<Rightarrow> Some a
      | None \<Rightarrow> find_row (\<lambda>a. a_user a = uid \<and> a_tg a = Some tg) (holders p))"

definition version_in :: "int option \<Rightarrow> app_pool \<Rightarrow> int" where
  "version_in ap p =
     (case ap of None \<Rightarrow> 1
      | Some i \<Rightarrow> (case get_app i p of None \<Rightarrow> 1 | Some r \<Rightarrow> version_of r))"

text \<open>
  \<open>observe\<close> starts the observation window, \<open>may_add\<close> is the answer of the account limit, and
  \<open>aid\<close> the key a new account would get.
\<close>

definition attach_login ::
  "login \<Rightarrow> int \<Rightarrow> int \<Rightarrow> bool \<Rightarrow> bool \<Rightarrow> string \<Rightarrow> datetime \<Rightarrow> holder option \<Rightarrow> app_pool
     \<Rightarrow> app_pool \<times> (http_error + string)" where
  "attach_login l uid tg observe may_add aid now known p =
     (case resolve_assignable_app_id uid (lg_app l) (map_option a_id known) []
             (if known = None then NewAccount else ExistingReassign)
             (case known of None \<Rightarrow> None | Some a \<Rightarrow> aa_app a) p of
        (p1, Inl e) \<Rightarrow> (p1, Inl e)
      | (p1, Inr ap) \<Rightarrow>
         (case known of
            Some a \<Rightarrow>
              (upd_holder now (a_id a) (login_again l ap (version_in ap p1) observe now) p1, Inr (a_id a))
          | None \<Rightarrow>
              if list_ex (\<lambda>a. a_tg a = Some tg \<and> a_user a \<noteq> uid) (holders p1)
              then (p1, Inl (Http 400 ''<Telegram account of another user>''))
              else if \<not> may_add then (p1, Inl (Http 409 ''<account limit>''))
              else if get_holder aid p1 \<noteq> None then (p1, Inl unhandled)
              else (p1\<lparr>holders := holders p1
                         @ [login_account_row l uid tg aid ap (version_in ap p1) now]\<rparr>, Inr aid)))"

text \<open>\<open>gateway\<close> tells whether a proxy is a system gateway.\<close>

definition upsert_login_account ::
  "login \<Rightarrow> int \<Rightarrow> (int \<Rightarrow> bool) \<Rightarrow> bool \<Rightarrow> string \<Rightarrow> datetime \<Rightarrow> app_pool
     \<Rightarrow> app_pool \<times> (http_error + string)" where
  "upsert_login_account l uid gateway may_add aid now p =
     (case login_checks l uid p of
        Inl e \<Rightarrow> (p, Inl e)
      | Inr (Inl existing) \<Rightarrow> (p, Inr existing)
      | Inr (Inr (tg, target)) \<Rightarrow>
          attach_login l uid tg
            (case target of None \<Rightarrow> False | Some a \<Rightarrow> int_true (a_proxy a) \<and> gateway (the (a_proxy a)))
            may_add aid now (known_account uid tg target p) p)"

section \<open>The sessions of the pool\<close>

text \<open>
  A check of theory \<open>AppHealth\<close> is several sessions: the write of the result of a probe - of any row,
  since the app may have changed while Telegram was asked -, and the recovery of the stalled
  accounts, which changes the state of the accounts only.
\<close>

definition account_state_only :: "app_pool \<Rightarrow> app_pool \<Rightarrow> bool" where
  "account_state_only p q \<longleftrightarrow>
     apps q = apps p \<and> app_settings q = app_settings p
     \<and> map (\<lambda>a. (a_id a, a_user a, a_tg a, aa_app a)) (holders q)
        = map (\<lambda>a. (a_id a, a_user a, a_tg a, aa_app a)) (holders p)"

inductive pool_step :: "app_env \<Rightarrow> app_pool \<Rightarrow> app_pool \<Rightarrow> bool" for env :: app_env where
  restart: "pool_step env p (fst (ensure_env_default_app env p))"
| settings: "update_assignment_settings mode alerts p = Inr (q, r) \<Longrightarrow> pool_step env p q"
| read_settings: "pool_step env p (fst (get_assignment_settings p))"
| show_apps: "pool_step env p (fst (list_apps p))"
| create: "pool_step env p (fst (create_app env name api hash active mx weight notes p))"
| update: "pool_step env p (fst (update_app env now i name hash act mx weight notes p))"
| set_default: "pool_step env p (fst (set_default_app i p))"
| set_user: "pool_step env p (fst (set_user_preferred_app_id uid i p))"
| choose: "pool_step env p (fst (resolve_assignable_app_id uid preferred ex dis ctx existing p))"
| credentials: "pool_step env p (fst (resolve_credentials_for_account env aid p))"
| choose_login: "pool_step env p (fst (choose_login_credentials_for_user env uid tg p))"
| upsert: "pool_step env p (fst (upsert_login_account l uid gateway may_add aid now p))"
| write_probe: "get_app i p = Some r
    \<Longrightarrow> pool_step env p (fst (write_check env i actor ip force now previous (probe_app env row) r p))"
| audit: "pool_step env p (append_health_audit au p)"
| recipients: "pool_step env p (fst (get_alert_recipient_ids p))"
| account_state: "account_state_only p q \<Longrightarrow> pool_step env p q"
| leave: "pool_step env p (p\<lparr>holders := filter (\<lambda>a. a_id a \<noteq> aid) (holders p)\<rparr>)"

definition empty_pool :: app_pool where
  "empty_pool = \<lparr>apps = [], holders = [], app_settings = [], app_audits = []\<rparr>"

text \<open>The pools the backend reaches from an empty database.\<close>

definition pool_reached :: "app_env \<Rightarrow> app_pool \<Rightarrow> bool" where
  "pool_reached env p \<longleftrightarrow> (pool_step env)\<^sup>*\<^sup>* empty_pool p"

end
