(* ===== verification/AppFacts.thy ===== *)
theory AppFacts
  imports AppLogin
begin

text \<open>
  Facts about the pool of developer apps: what the settings keep, which apps are available, what
  the choice of an app promises, and the invariant of the pool.
\<close>

section \<open>Numbers as text\<close>

lemma code_char_of [simp]: "n < 256 \<Longrightarrow> code (char_of n) = n"
  by (simp add: code_def)

lemma digits_value_show:
  "digits_value b acc (show_nat n @ rest)
     = digits_value True (acc * 10 ^ length (show_nat n) + int n) rest"
proof (induction n arbitrary: b acc rest rule: show_nat.induct)
  case (1 n)
  show ?case
  proof (cases "n < 10")
    case True
    then show ?thesis by (simp add: show_nat.simps [of n] is_digit_def mult.commute)
  next
    case False
    have s: "show_nat n = show_nat (n div 10) @ [char_of (48 + n mod 10)]"
      using False by (simp add: show_nat.simps [of n])
    have d: "is_digit (char_of (48 + n mod 10))" "code (char_of (48 + n mod 10)) = 48 + n mod 10"
      by (simp_all add: is_digit_def less_Suc_eq_le)
    have "int n = 10 * int (n div 10) + int (n mod 10)"
      by (metis mult_div_mod_eq of_nat_add of_nat_mult of_nat_numeral)
    moreover have "10 * (acc * 10 ^ k + u) + v = acc * 10 ^ Suc k + (10 * u + v)" for k and u v :: int
      by (simp add: algebra_simps)
    ultimately have n: "10 * (acc * 10 ^ k + int (n div 10)) + int (n mod 10) = acc * 10 ^ Suc k + int n" for k
      by (simp only:)
    have "digits_value b acc (show_nat n @ rest)
        = digits_value True (acc * 10 ^ length (show_nat (n div 10)) + int (n div 10)) ([char_of (48 + n mod 10)] @ rest)"
      unfolding s append_assoc by (rule "1.IH" [OF False])
    also have "\<dots> = digits_value True (10 * (acc * 10 ^ length (show_nat (n div 10)) + int (n div 10)) + int (n mod 10)) rest"
      using d by simp
    finally show ?thesis unfolding n by (simp add: s)
  qed
qed

lemma show_nat_digits: "c \<in> set (show_nat n) \<Longrightarrow> is_digit c"
proof (induction n rule: show_nat.induct)
  case (1 n)
  then show ?case
    by (cases "n < 10") (auto simp: show_nat.simps [of n] is_digit_def less_Suc_eq_le)
qed

lemma show_nat_ne [simp]: "show_nat n \<noteq> []"
  by (simp add: show_nat.simps [of n])

lemma strip_no_space: "(\<And>c. c \<in> set s \<Longrightarrow> \<not> is_space c) \<Longrightarrow> strip s = s"
proof -
  assume ns: "\<And>c. c \<in> set s \<Longrightarrow> \<not> is_space c"
  have id: "dropWhile is_space t = t" if "set t \<subseteq> set s" for t
    using that ns by (cases t) auto
  show ?thesis by (simp add: strip_def id)
qed

lemma digit_not_space: "is_digit c \<Longrightarrow> \<not> is_space c"
  by (auto simp: is_digit_def is_space_def Let_def)

lemma show_int_no_space: "c \<in> set (show_int i) \<Longrightarrow> \<not> is_space c"
  by (auto simp: show_int_def is_space_def code_def dest!: show_nat_digits digit_not_space split: if_splits)

lemma show_int_ne [simp]: "show_int i \<noteq> []"
  by (simp add: show_int_def)

lemma strip_show_int [simp]: "strip (show_int i) = show_int i"
  by (rule strip_no_space) (rule show_int_no_space)

lemma int_of_show_int [simp]: "int_of_str (show_int i) = Some i"
proof (cases "i < 0")
  case True
  then have "strip (show_int i) = CHR ''-'' # show_nat (nat (- i))"
    using strip_show_int [of i] by (simp add: show_int_def del: strip_show_int)
  moreover have "digits_value False 0 (show_nat (nat (- i))) = Some (- i)"
    using True digits_value_show [of False 0 "nat (- i)" "[]"] by simp
  ultimately show ?thesis by (simp only: int_of_str_def list.case if_True refl option.map minus_minus)
next
  case False
  then have "strip (show_int i) = show_nat (nat i)"
    using strip_show_int [of i] by (simp add: show_int_def del: strip_show_int)
  moreover obtain c cs where c: "show_nat (nat i) = c # cs" by (cases "show_nat (nat i)") auto
  moreover have "is_digit c" using c show_nat_digits [of c "nat i"] by simp
  then have "c \<noteq> CHR ''-''" "c \<noteq> CHR ''+''" by (auto simp: is_digit_def code_def)
  moreover have "digits_value False 0 (c # cs) = Some i"
    using False digits_value_show [of False 0 "nat i" "[]"] c by simp
  ultimately show ?thesis by (simp only: int_of_str_def list.case if_False)
qed

section \<open>Settings\<close>

named_theorems pool_keeps \<open>what the operations on the settings keep\<close>

lemma get_put_setting [simp]: "get_setting k (put_setting k' v p) = (if k = k' then Some v else get_setting k p)"
  by (simp add: get_setting_def put_setting_def update_conv)

lemma put_setting_keeps [simp]:
  "apps (put_setting k v p) = apps p" "holders (put_setting k v p) = holders p"
  "app_audits (put_setting k v p) = app_audits p"
  by (simp_all add: put_setting_def)

lemma del_setting_keeps [simp]:
  "apps (del_setting k p) = apps p" "holders (del_setting k p) = holders p"
  by (simp_all add: del_setting_def)

lemma ensure_core_keeps [simp]:
  "apps (ensure_core_settings p) = apps p" "holders (ensure_core_settings p) = holders p"
  by (simp_all add: ensure_core_settings_def ensure_setting_def)

lemma mode_keeps [simp]:
  "apps (fst (get_assignment_mode p)) = apps p" "holders (fst (get_assignment_mode p)) = holders p"
  by (simp_all add: get_assignment_mode_def split: option.splits)

lemma alert_raw_keeps [simp]:
  "apps (fst (get_alert_raw p)) = apps p" "holders (fst (get_alert_raw p)) = holders p"
  by (simp_all add: get_alert_raw_def split: option.splits)

lemma default_keeps [simp]:
  "apps (fst (get_default_app_id p)) = apps p" "holders (fst (get_default_app_id p)) = holders p"
  by (simp_all add: get_default_app_id_def Let_def split: list.splits)

lemma cursor_keeps [simp]:
  "apps (set_round_robin_cursor i p) = apps p" "holders (set_round_robin_cursor i p) = holders p"
  by (simp_all add: set_round_robin_cursor_def)

lemma get_set_cursor [simp]: "get_round_robin_cursor (set_round_robin_cursor (Some i) p) = Some i"
  by (simp add: get_round_robin_cursor_def set_round_robin_cursor_def)

lemma round_robin_keeps [simp]:
  "apps (fst (pick_round_robin_candidate cs p)) = apps p"
  "holders (fst (pick_round_robin_candidate cs p)) = holders p"
  by (simp_all add: pick_round_robin_candidate_def Let_def split: list.splits)

text \<open>What only depends on apps and accounts.\<close>

lemma rows_cong:
  assumes "apps q = apps p" "holders q = holders p"
  shows "get_app i q = get_app i p" "account_usage ex i q = account_usage ex i p"
    "is_capacity_available i ex q = is_capacity_available i ex p"
    "list_assignable_candidates ex dis q = list_assignable_candidates ex dis p"
    "candidate_available ex dis c q = candidate_available ex dis c p"
    "get_holder aid q = get_holder aid p"
proof -
  show g: "get_app i q = get_app i p" "account_usage ex i q = account_usage ex i p" for i
    using assms by (simp_all add: get_app_def account_usage_def)
  show c: "is_capacity_available i ex q = is_capacity_available i ex p" for i
    unfolding is_capacity_available_def g ..
  show "list_assignable_candidates ex dis q = list_assignable_candidates ex dis p"
    by (simp add: list_assignable_candidates_def g assms(1))
  show "candidate_available ex dis c q = candidate_available ex dis c p"
    unfolding candidate_available_def c ..
  show "get_holder aid q = get_holder aid p" by (simp add: get_holder_def assms(2))
qed

section \<open>Available apps\<close>

text \<open>What an assignment may choose.\<close>

definition assignable :: "string option \<Rightarrow> int list \<Rightarrow> int \<Rightarrow> app_pool \<Rightarrow> bool" where
  "assignable ex dis i p \<longleftrightarrow> i \<notin> set dis \<and> is_capacity_available i ex p"

lemma candidate_available_iff: "candidate_available ex dis c p = Some i \<longleftrightarrow> c = Some i \<and> assignable ex dis i p"
  by (auto simp: candidate_available_def assignable_def split: option.splits if_splits)

lemma candidate_available_None: "candidate_available ex dis c p = None \<longleftrightarrow> (\<forall>i. c = Some i \<longrightarrow> \<not> assignable ex dis i p)"
  by (cases c) (auto simp: candidate_available_def assignable_def)

lemma get_app_row: "distinct (map ap_id (apps p)) \<Longrightarrow> get_app i p = Some r \<longleftrightarrow> r \<in> set (apps p) \<and> ap_id r = i"
  using find_row_key [of ap_id "apps p" r] by (auto simp: get_app_def dest: find_row_Some)

lemma is_capacity_available_iff:
  "is_capacity_available i ex p \<longleftrightarrow> (\<exists>r. get_app i p = Some r \<and> is_row_healthy r
     \<and> (ap_max r \<le> 0 \<or> account_usage ex i p < ap_max r))"
  by (auto simp: is_capacity_available_def is_row_healthy_def split: option.splits)

lemma candidate_ids:
  "cand_id ` set (list_assignable_candidates ex dis p)
    = {ap_id r | r. r \<in> set (apps p) \<and> ap_id r \<notin> set dis \<and> is_row_healthy r
         \<and> (ap_max r \<le> 0 \<or> account_usage ex (ap_id r) p < ap_max r)}"
proof -
  have "cand_id ` set (list_assignable_candidates ex dis p) = set (map cand_id (list_assignable_candidates ex dis p))"
    by simp
  also have "map cand_id (list_assignable_candidates ex dis p)
      = map ap_id (filter (\<lambda>r. ap_id r \<notin> set dis \<and> is_row_healthy r
          \<and> \<not> (0 < ap_max r \<and> ap_max r \<le> account_usage ex (ap_id r) p)) (sort_key ap_id (filter ap_active (apps p))))"
    by (simp add: list_assignable_candidates_def)
  finally show ?thesis by (auto simp: is_row_healthy_def not_le not_less)
qed

lemma cand_ids:
  assumes "distinct (map ap_id (apps p))"
  shows "i \<in> cand_id ` set (list_assignable_candidates ex dis p) \<longleftrightarrow> assignable ex dis i p"
  unfolding candidate_ids assignable_def is_capacity_available_iff get_app_row [OF assms] by blast

lemma no_candidates:
  assumes "distinct (map ap_id (apps p))"
  shows "list_assignable_candidates ex dis p = [] \<longleftrightarrow> (\<forall>i. \<not> assignable ex dis i p)"
  using cand_ids [OF assms, of _ ex dis] by (metis empty_iff image_is_empty set_empty subsetI subset_empty)

lemma pick_weight_in: "cs \<noteq> [] \<Longrightarrow> \<exists>i. pick_weight_candidate cs = Some i \<and> i \<in> cand_id ` set cs"
proof -
  let ?s = "sort_key (\<lambda>(r, u, w). (- w, u, ap_id r)) cs"
  assume "cs \<noteq> []"
  then have "?s \<noteq> []" by (metis length_0_conv length_sort)
  then obtain c more where s: "?s = c # more" by (cases ?s) auto
  have "c \<in> set cs" using s by (metis list.set_intros(1) set_sort)
  with s show ?thesis unfolding pick_weight_candidate_def by auto
qed

lemma pick_round_robin_in:
  assumes "cs \<noteq> []"
  obtains i c where "pick_round_robin_candidate cs p = (set_round_robin_cursor (Some i) p, Some i, c, Some i)"
    "i \<in> cand_id ` set cs"
proof -
  obtain first others where s: "sort (map cand_id cs) = first # others"
    using assms by (cases "sort (map cand_id cs)") (auto dest: arg_cong [where f = length])
  have ids: "set (first # others) = cand_id ` set cs" by (simp flip: s)
  obtain w where w: "pick_weight_candidate cs = Some w" "w \<in> cand_id ` set cs"
    using pick_weight_in [OF assms] by auto
  have "\<exists>i. (case get_round_robin_cursor p of None \<Rightarrow> first
        | Some c \<Rightarrow> if c \<notin> set (first # others)
            then (case pick_weight_candidate cs of Some i \<Rightarrow> i | None \<Rightarrow> first)
            else (case List.find (\<lambda>i. c < i) (first # others) of Some i \<Rightarrow> i | None \<Rightarrow> first)) = i
      \<and> i \<in> cand_id ` set cs"
    using w ids by (auto simp: find_Some_iff split: option.split)
  then show thesis using s that by (auto simp: pick_round_robin_candidate_def Let_def)
qed

section \<open>The choice of an app\<close>

text \<open>
  The choice without its two fallbacks: the preferred app, the app the user prefers, then the
  candidates by weight or round robin.
\<close>

definition choose_app ::
  "int \<Rightarrow> int option \<Rightarrow> string option \<Rightarrow> int list \<Rightarrow> app_pool \<Rightarrow> app_pool \<times> (http_error + int option)" where
  "choose_app uid preferred ex dis p =
     (let (p1, mode) = get_assignment_mode p;
          cs = list_assignable_candidates ex dis p1
      in case candidate_available ex dis preferred p1 of
           Some i \<Rightarrow> (p1, Inr (Some i))
         | None \<Rightarrow>
        (case candidate_available ex dis (get_user_preferred_app_id uid p1) p1 of
           Some i \<Rightarrow> (p1, Inr (Some i))
         | None \<Rightarrow>
             if cs = []
             then (fst (get_default_app_id p1),
                   if list_ex ap_active (apps p1) then Inl (Http 409 ''<no healthy app with capacity>'') else Inr None)
             else if mode = ''weight'' then (p1, Inr (pick_weight_candidate cs))
             else (let (q, sel, _, _) = pick_round_robin_candidate cs p1 in (q, Inr sel))))"

lemma assignable_cong: "apps q = apps p \<Longrightarrow> holders q = holders p \<Longrightarrow> assignable ex dis i q = assignable ex dis i p"
  using rows_cong(3) [of q p i ex] by (simp add: assignable_def)

lemma no_candidate_available: "(\<And>i. \<not> assignable ex dis i p) \<Longrightarrow> candidate_available ex dis c p = None"
  by (simp add: candidate_available_None)

lemma resolve_is_choose:
  assumes "distinct (map ap_id (apps p))"
  shows "resolve_in_session uid preferred ex dis ctx existing p = choose_app uid preferred ex dis p"
proof -
  obtain p1 mode where m: "get_assignment_mode p = (p1, mode)" by fastforce
  have rows: "apps p1 = apps p" "holders p1 = holders p" using mode_keeps [of p] m by simp_all
  let ?cs = "list_assignable_candidates ex dis p1"
  note unfold = resolve_in_session_def choose_app_def m prod.case Let_def
  show ?thesis
  proof (cases "?cs = []")
    case True
    then have none: "\<And>i. \<not> assignable ex dis i p1" using no_candidates [of p1 ex dis] assms rows by auto
    have none': "candidate_available ex dis c q = None" if "apps q = apps p1" "holders q = holders p1" for c q
      using none that by (intro no_candidate_available) (simp add: assignable_cong [OF that])
    obtain p3 d where d: "get_default_app_id p1 = (p3, d)" by fastforce
    then have "apps p3 = apps p1" "holders p3 = holders p1" using default_keeps [of p1] by simp_all
    with d True show ?thesis unfolding unfold by (simp add: none')
  next
    case False
    obtain w where "pick_weight_candidate ?cs = Some w" using pick_weight_in [OF False] by auto
    moreover obtain i c where "pick_round_robin_candidate ?cs p1 = (set_round_robin_cursor (Some i) p1, Some i, c, Some i)"
      using pick_round_robin_in [OF False] .
    ultimately show ?thesis using False unfolding unfold
      by (cases "candidate_available ex dis preferred p1";
          cases "candidate_available ex dis (get_user_preferred_app_id uid p1) p1") simp_all
  qed
qed

lemma choose_app_cases:
  assumes "get_assignment_mode p = (p1, mode)"
  obtains (preferred) i where "choose_app uid preferred ex dis p = (p1, Inr (Some i))" "assignable ex dis i p1"
  | (none) "list_assignable_candidates ex dis p1 = []"
      "choose_app uid preferred ex dis p = (fst (get_default_app_id p1),
         if list_ex ap_active (apps p1) then Inl (Http 409 ''<no healthy app with capacity>'') else Inr None)"
  | (weight) i where "mode = ''weight''" "choose_app uid preferred ex dis p = (p1, Inr (Some i))"
      "i \<in> cand_id ` set (list_assignable_candidates ex dis p1)"
  | (round_robin) i where "mode \<noteq> ''weight''"
      "choose_app uid preferred ex dis p = (set_round_robin_cursor (Some i) p1, Inr (Some i))"
      "i \<in> cand_id ` set (list_assignable_candidates ex dis p1)"
proof -
  let ?cs = "list_assignable_candidates ex dis p1"
  let ?c = "choose_app uid preferred ex dis p"
  note unfold = choose_app_def assms prod.case Let_def
  consider (a) i where "candidate_available ex dis preferred p1 = Some i"
    | (b) i where "candidate_available ex dis preferred p1 = None"
        "candidate_available ex dis (get_user_preferred_app_id uid p1) p1 = Some i"
    | (c) "candidate_available ex dis preferred p1 = None"
        "candidate_available ex dis (get_user_preferred_app_id uid p1) p1 = None"
    by (cases "candidate_available ex dis preferred p1";
        cases "candidate_available ex dis (get_user_preferred_app_id uid p1) p1") auto
  then show thesis
  proof cases
    case a
    then have "?c = (p1, Inr (Some i))" unfolding unfold by simp
    with a show thesis using preferred by (simp add: candidate_available_iff)
  next
    case b
    then have "?c = (p1, Inr (Some i))" unfolding unfold by simp
    with b show thesis using preferred by (simp add: candidate_available_iff)
  next
    case c
    show thesis
    proof (cases "?cs = []")
      case True
      with c show thesis by (intro none) (simp_all add: choose_app_def assms)
    next
      case False
      obtain w where w: "pick_weight_candidate ?cs = Some w" "w \<in> cand_id ` set ?cs"
        using pick_weight_in [OF False] by auto
      obtain i c' where i: "pick_round_robin_candidate ?cs p1 = (set_round_robin_cursor (Some i) p1, Some i, c', Some i)"
        "i \<in> cand_id ` set ?cs"
        using pick_round_robin_in [OF False] .
      show thesis
      proof (cases "mode = ''weight''")
        case True
        have "?c = (p1, Inr (Some w))" using c False True w(1) unfolding unfold by simp
        then show thesis using weight [OF True] w(2) by blast
      next
        case rr: False
        have "?c = (set_round_robin_cursor (Some i) p1, Inr (Some i))"
          using c False rr i(1) unfolding unfold by simp
        then show thesis using round_robin [OF rr] i(2) by blast
      qed
    qed
  qed
qed

lemma choose_app_keeps [simp]:
  "apps (fst (choose_app uid preferred ex dis p)) = apps p"
  "holders (fst (choose_app uid preferred ex dis p)) = holders p"
proof -
  obtain p1 mode where m: "get_assignment_mode p = (p1, mode)" by fastforce
  have "apps p1 = apps p" "holders p1 = holders p" using mode_keeps [of p] m by simp_all
  with m show "apps (fst (choose_app uid preferred ex dis p)) = apps p"
    "holders (fst (choose_app uid preferred ex dis p)) = holders p"
    by (cases rule: choose_app_cases [OF m, of uid preferred ex dis]; simp)+
qed

lemma choose_app_outcome:
  assumes "distinct (map ap_id (apps p))"
  shows "case snd (choose_app uid preferred ex dis p) of
      Inr (Some i) \<Rightarrow> assignable ex dis i p
    | Inr None \<Rightarrow> \<not> list_ex ap_active (apps p)
    | Inl e \<Rightarrow> e = Http 409 ''<no healthy app with capacity>'' \<and> list_ex ap_active (apps p)
        \<and> (\<forall>i. \<not> assignable ex dis i p)"
proof -
  obtain p1 mode where m: "get_assignment_mode p = (p1, mode)" by fastforce
  have rows: "apps p1 = apps p" "holders p1 = holders p" using mode_keeps [of p] m by simp_all
  then have d: "distinct (map ap_id (apps p1))" using assms by simp
  show ?thesis
    by (cases rule: choose_app_cases [OF m, of uid preferred ex dis])
      (use no_candidates [OF d] in \<open>simp_all add: cand_ids [OF d] assignable_cong [OF rows] rows\<close>)
qed

end
