(* ===== verification/AppRuns.thy ===== *)
theory AppRuns
  imports AppFacts "HOL-Library.Multiset"
begin

text \<open>
  The invariant of the pool of developer apps over its sessions, the capacity of the apps, and
  what a migration does to the accounts of a failing app.
\<close>

section \<open>The invariant\<close>

definition app_ok :: "app \<Rightarrow> bool" where
  "app_ok r \<longleftrightarrow> 1 \<le> ap_id r \<and> 0 \<le> ap_max r \<and> 1 \<le> ap_weight r \<and> 0 \<le> ap_fails r \<and> 1 \<le> ap_version r
     \<and> ap_health r \<in> {healthy, unhealthy, disabled} \<and> (ap_health r = unhealthy \<longrightarrow> 2 \<le> ap_fails r)"

definition pool_ok :: "app_pool \<Rightarrow> bool" where
  "pool_ok p \<longleftrightarrow> distinct (map ap_id (apps p)) \<and> distinct (map ap_api (apps p))
     \<and> distinct (map a_id (holders p)) \<and> distinct (map a_tg (holders p))
     \<and> list_all app_ok (apps p)
     \<and> list_all (\<lambda>a. aa_app a = None \<or> aa_app a \<in> Some ` set (map ap_id (apps p))) (holders p)"

lemma pool_ok_cong: "apps q = apps p \<Longrightarrow> holders q = holders p \<Longrightarrow> pool_ok q = pool_ok p"
  by (simp add: pool_ok_def)

lemma pool_ok_ids: "pool_ok p \<Longrightarrow> distinct (map ap_id (apps p))"
  by (simp add: pool_ok_def)

lemma pool_ok_row: "pool_ok p \<Longrightarrow> get_app i p = Some r \<Longrightarrow> app_ok r \<and> r \<in> set (apps p) \<and> ap_id r = i"
  by (auto simp: pool_ok_def get_app_row list_all_iff)

lemma map_upd_where_key:
  "(\<And>r. r \<in> set rows \<Longrightarrow> P r \<Longrightarrow> g (f r) = g r) \<Longrightarrow> map g (upd_where P f rows) = map g rows"
  by (induction rows) auto

lemma upd_app_ok:
  assumes ok: "pool_ok p" and r: "get_app i p = Some r"
    and f: "ap_id (f r) = i" "ap_api (f r) = ap_api r" "app_ok (f r)"
  shows "pool_ok (upd_app i f p)"
proof -
  have fi: "ap_id r = i" using get_app_row [OF pool_ok_ids [OF ok], of i r] r by simp
  have only: "x = r" if "x \<in> set (apps p)" "ap_id x = i" for x
    using get_app_row [OF pool_ok_ids [OF ok], of i x] r that by simp
  have rows: "apps (upd_app i f p) = upd_where (\<lambda>r. ap_id r = i) f (apps p)"
    and same: "holders (upd_app i f p) = holders p" by (simp_all add: upd_app_def)
  have "map ap_id (apps (upd_app i f p)) = map ap_id (apps p)"
    unfolding rows by (rule map_upd_where_key) (use only f fi in simp)
  moreover have "map ap_api (apps (upd_app i f p)) = map ap_api (apps p)"
    unfolding rows by (rule map_upd_where_key) (use only f in simp)
  moreover have "list_all app_ok (apps (upd_app i f p))"
    using ok only f(3) by (auto simp: list_all_iff upd_app_def pool_ok_def dest!: set_upd_where)
  ultimately show ?thesis using ok
    unfolding pool_ok_def by (simp only: same)
qed

lemma add_app_ok:
  assumes "pool_ok p" "app_ok r" "ap_id r = next_app_id p" "ap_api r \<notin> ap_api ` set (apps p)"
  shows "pool_ok (p\<lparr>apps := apps p @ [r]\<rparr>)"
proof -
  have top: "i \<in> set xs \<Longrightarrow> i \<le> foldr max xs (0::int)" for i xs by (induction xs) auto
  have "next_app_id p \<notin> ap_id ` set (apps p)"
    using top [of _ "map ap_id (apps p)"] by (fastforce simp: next_app_id_def)
  then show ?thesis using assms by (auto simp: pool_ok_def list_all_iff)
qed

lemma upd_holder_keeps [simp]:
  "apps (upd_holder now aid f p) = apps p" "app_settings (upd_holder now aid f p) = app_settings p"
  by (simp_all add: upd_holder_def)

lemma touch_holder_simps [simp]:
  "a_id (touch_holder now a b) = a_id b" "a_tg (touch_holder now a b) = a_tg b"
  "aa_app (touch_holder now a b) = aa_app b" "a_user (touch_holder now a b) = a_user b"
  "aa_version (touch_holder now a b) = aa_version b" "a_health (touch_holder now a b) = a_health b"
  "a_reauth (touch_holder now a b) = a_reauth b" "a_reauth_reason (touch_holder now a b) = a_reauth_reason b"
  by (auto simp: touch_holder_def)

lemma upd_holder_ok:
  assumes ok: "pool_ok p"
    and f: "\<And>a. a_id (f a) = a_id a" "\<And>a. a_tg (f a) = a_tg a"
      "\<And>a. a \<in> set (holders p) \<Longrightarrow> a_id a = aid \<Longrightarrow> aa_app (f a) \<in> insert None (Some ` set (map ap_id (apps p)))"
  shows "pool_ok (upd_holder now aid f p)"
proof -
  have "map a_id (holders (upd_holder now aid f p)) = map a_id (holders p)"
    "map a_tg (holders (upd_holder now aid f p)) = map a_tg (holders p)"
    by (simp_all add: upd_holder_def f map_upd_where_key)
  moreover have "list_all (\<lambda>a. aa_app a = None \<or> aa_app a \<in> Some ` set (map ap_id (apps p)))
      (holders (upd_holder now aid f p))"
    using ok f(3) by (fastforce simp: upd_holder_def list_all_iff pool_ok_def dest!: set_upd_where)
  ultimately show ?thesis using ok unfolding pool_ok_def by simp
qed

lemma assignable_app: "assignable ex dis t p \<Longrightarrow> \<exists>r. get_app t p = Some r \<and> is_row_healthy r"
  by (auto simp: assignable_def is_capacity_available_iff)

lemma get_app_in: "get_app t p = Some r \<Longrightarrow> t \<in> set (map ap_id (apps p))"
  by (auto simp: get_app_def dest: find_row_Some)

section \<open>Capacity\<close>

text \<open>The accounts on an app besides one.\<close>

definition others :: "string \<Rightarrow> int \<Rightarrow> app_pool \<Rightarrow> int" where
  "others aid j p = int (length (filter (\<lambda>a. aa_app a = Some j \<and> a_id a \<noteq> aid) (holders p)))"

lemma filter_length_mono: "(\<And>x. P x \<Longrightarrow> Q x) \<Longrightarrow> length (filter P xs) \<le> length (filter Q xs)"
  by (induction xs) auto

lemma others_le: "others aid j p \<le> account_usage None j p" "others aid j p \<le> account_usage (Some aid) j p"
  unfolding others_def account_usage_def of_nat_le_iff by (rule filter_length_mono; simp)+

lemma usage_ids: "distinct (map a_id rows) \<Longrightarrow>
    length (filter (\<lambda>a. aa_app a = Some j) (upd_where (\<lambda>a. a_id a = aid) g rows))
      \<le> length (filter (\<lambda>a. aa_app a = Some j \<and> a_id a \<noteq> aid) rows)
         + (if \<exists>a \<in> set rows. a_id a = aid \<and> aa_app (g a) = Some j then 1 else 0)"
proof (induction rows)
  case (Cons a rows)
  show ?case
  proof (cases "a_id a = aid")
    case True
    then have no: "\<And>b. b \<in> set rows \<Longrightarrow> a_id b \<noteq> aid" using Cons.prems by (auto simp: rev_image_eqI)
    then have "upd_where (\<lambda>a. a_id a = aid) g rows = rows" by (intro upd_where_none) auto
    moreover have "filter (\<lambda>a. aa_app a = Some j \<and> a_id a \<noteq> aid) rows = filter (\<lambda>a. aa_app a = Some j) rows"
      using no by (intro filter_cong) auto
    ultimately show ?thesis using True no by auto
  next
    case False
    with Cons show ?thesis by (auto split: if_splits)
  qed
qed simp

lemma holders_upd:
  "holders (upd_holder now aid f p) = upd_where (\<lambda>a. a_id a = aid) (\<lambda>a. touch_holder now a (f a)) (holders p)"
  by (simp add: upd_holder_def)

lemma usage_upd:
  assumes "distinct (map a_id (holders p))" "\<And>a. aa_app (f a) = to a"
  shows "account_usage None j (upd_holder now aid f p)
    \<le> others aid j p + (if \<exists>a \<in> set (holders p). a_id a = aid \<and> to a = Some j then 1 else 0)"
proof -
  have "int (length (filter (\<lambda>a. aa_app a = Some j) (holders (upd_holder now aid f p))))
      \<le> int (length (filter (\<lambda>a. aa_app a = Some j \<and> a_id a \<noteq> aid) (holders p))
          + (if \<exists>a \<in> set (holders p). a_id a = aid \<and> to a = Some j then 1 else 0))"
    using usage_ids [OF assms(1), of j aid "\<lambda>a. touch_holder now a (f a)"]
    unfolding of_nat_le_iff by (simp only: holders_upd touch_holder_simps assms(2))
  then show ?thesis by (cases "\<exists>a \<in> set (holders p). a_id a = aid \<and> to a = Some j") (auto simp: account_usage_def others_def)
qed

definition within :: "int \<Rightarrow> app_pool \<Rightarrow> bool" where
  "within j p \<longleftrightarrow> (\<exists>r. get_app j p = Some r \<and> is_row_healthy r
     \<and> (ap_max r \<le> 0 \<or> account_usage None j p \<le> ap_max r))"

text \<open>No app gets more accounts, unless it is healthy and stays within its capacity.\<close>

definition no_overload :: "app_pool \<Rightarrow> app_pool \<Rightarrow> bool" where
  "no_overload p q \<longleftrightarrow> (\<forall>j. account_usage None j q \<le> account_usage None j p \<or> within j q)"

lemma no_overload_same: "holders q = holders p \<Longrightarrow> no_overload p q"
  by (simp add: no_overload_def account_usage_def)

lemma no_overload_trans:
  assumes "no_overload p q" "no_overload q r" "apps r = apps q"
  shows "no_overload p r"
  unfolding no_overload_def
proof
  fix j
  have "get_app j r = get_app j q" using assms(3) by (simp add: get_app_def)
  then have "within j q \<Longrightarrow> account_usage None j r \<le> account_usage None j q \<Longrightarrow> within j r"
    by (auto simp: within_def)
  then show "account_usage None j r \<le> account_usage None j p \<or> within j r"
    using assms(1,2) unfolding no_overload_def by (meson order_trans)
qed

lemma assign_no_overload:
  assumes "distinct (map a_id (holders p))" "assignable (Some aid) dis t p"
    "\<And>a. aa_app (f a) = Some t"
  shows "no_overload p (upd_holder now aid f p)"
  unfolding no_overload_def
proof
  fix j
  let ?q = "upd_holder now aid f p"
  have u: "account_usage None j ?q \<le> others aid j p + (if \<exists>a \<in> set (holders p). a_id a = aid \<and> Some t = Some j then 1 else 0)"
    using assms(3) by (intro usage_upd [OF assms(1)]) simp
  show "account_usage None j ?q \<le> account_usage None j p \<or> within j ?q"
  proof (cases "j = t")
    case True
    obtain r where r: "get_app t p = Some r" "is_row_healthy r"
        "ap_max r \<le> 0 \<or> account_usage (Some aid) t p < ap_max r"
      using assms(2) by (auto simp: assignable_def is_capacity_available_iff)
    have "account_usage None t ?q \<le> account_usage (Some aid) t p + 1"
      using u others_le(2) [of aid t p] True by (simp split: if_splits)
    then have "within t ?q" using r by (auto simp: within_def get_app_def)
    with True show ?thesis by simp
  next
    case False
    then show ?thesis using u others_le(1) [of aid j p] by auto
  qed
qed

lemma unchanged_no_overload:
  assumes "distinct (map a_id (holders p))" "\<And>a. aa_app (f a) = aa_app a"
  shows "no_overload p (upd_holder now aid f p)"
proof -
  have "length (filter (\<lambda>a. aa_app a = Some j) (holders (upd_holder now aid f p)))
      = length (filter (\<lambda>a. aa_app a = Some j) (holders p))" for j
  proof -
    have "map aa_app (holders (upd_holder now aid f p)) = map aa_app (holders p)"
      by (simp add: upd_holder_def assms(2) map_upd_where_key)
    then have "length (filter (\<lambda>x. x = Some j) (map aa_app (holders (upd_holder now aid f p))))
        = length (filter (\<lambda>x. x = Some j) (map aa_app (holders p)))" by simp
    then show ?thesis by (simp add: filter_map comp_def)
  qed
  then show ?thesis by (simp add: no_overload_def account_usage_def)
qed

section \<open>The migration\<close>

lemma get_upd_holder:
  "(\<And>a. a_id (f a) = a_id a) \<Longrightarrow> get_holder x (upd_holder now aid f p) =
     (if x = aid then map_option (\<lambda>a. touch_holder now a (f a)) (get_holder x p) else get_holder x p)"
  unfolding get_holder_def holders_upd
  by (auto simp: find_row_upd_key find_row_cong_upd)

lemma stall_holder_simps [simp]:
  "a_id (stall_holder a) = a_id a" "a_tg (stall_holder a) = a_tg a" "a_user (stall_holder a) = a_user a"
  "aa_app (stall_holder a) = aa_app a" "a_health (stall_holder a) = Offline" "\<not> a_reauth (stall_holder a)"
  "a_reauth_reason (stall_holder a) = Some ''developer_app_unhealthy''"
  by (simp_all add: stall_holder_def)

lemma move_holder_simps [simp]:
  "a_id (move_holder t v a) = a_id a" "a_tg (move_holder t v a) = a_tg a" "a_user (move_holder t v a) = a_user a"
  "aa_app (move_holder t v a) = Some t" "aa_version (move_holder t v a) = v"
  "a_health (move_holder t v a) = Offline" "\<not> a_reauth (move_holder t v a)"
  "a_reauth_reason (move_holder t v a) = None"
  by (simp_all add: move_holder_def)

text \<open>One account: moved to an app that can take it, or stalled because none can.\<close>

lemma migrate_one:
  assumes "pool_ok p"
  obtains (moves) p1 t r where "resolve_in_session u None (Some x) [i] NewAccount None p = (p1, Inr (Some t))"
      "apps p1 = apps p" "holders p1 = holders p" "assignable (Some x) [i] t p1"
      "get_app t p1 = Some r" "is_row_healthy r" "t \<noteq> i"
  | (stalls) p1 e where "resolve_in_session u None (Some x) [i] NewAccount None p = (p1, e)" "e = Inr None \<or> isl e"
      "apps p1 = apps p" "holders p1 = holders p" "\<And>t. \<not> assignable (Some x) [i] t p"
proof -
  let ?c = "choose_app u None (Some x) [i] p"
  have c: "resolve_in_session u None (Some x) [i] NewAccount None p = ?c"
    by (rule resolve_is_choose) (rule pool_ok_ids [OF assms])
  obtain p1 e where pe: "?c = (p1, e)" by fastforce
  have rows: "apps p1 = apps p" "holders p1 = holders p"
    using choose_app_keeps [of u None "Some x" "[i]" p] pe by simp_all
  note o = choose_app_outcome [OF pool_ok_ids [OF assms],
      where uid = u and preferred = None and ex = "Some x" and dis = "[i]", unfolded pe snd_conv]
  show thesis
  proof (cases e)
    case (Inl err)
    then show thesis using o c pe rows by (intro stalls [of p1 e]) auto
  next
    case (Inr v)
    show thesis
    proof (cases v)
      case None
      have "\<not> assignable (Some x) [i] t p" for t
        using o Inr None assignable_app [of "Some x" "[i]" t p] get_app_row [OF pool_ok_ids [OF assms]]
        by (auto simp: list_ex_iff is_row_healthy_def)
      then show thesis using Inr None c pe rows by (intro stalls [of p1 e]) auto
    next
      case (Some t)
      then have "assignable (Some x) [i] t p1" using o Inr assignable_cong [OF rows] by simp
      moreover from this have "t \<noteq> i" by (simp add: assignable_def)
      ultimately show thesis using Inr Some c pe rows assignable_app [of "Some x" "[i]" t p1] moves by auto
    qed
  qed
qed

text \<open>
  The migration as one relation: the accounts of the app are moved one after the other, each to
  an app that can take it at that moment, or are stalled when no other app can.
\<close>

inductive migrates :: "int \<Rightarrow> datetime \<Rightarrow> app_pool \<Rightarrow> holder list \<Rightarrow> app_pool \<Rightarrow> string list \<Rightarrow> string list \<Rightarrow> bool"
  for i :: int and now :: datetime where
  nothing: "migrates i now p [] p [] []"
| moves: "apps p1 = apps p \<Longrightarrow> holders p1 = holders p \<Longrightarrow> assignable (Some (a_id a)) [i] t p1
    \<Longrightarrow> get_app t p1 = Some r \<Longrightarrow> is_row_healthy r \<Longrightarrow> t \<noteq> i
    \<Longrightarrow> migrates i now (upd_holder now (a_id a) (move_holder t (version_of r)) p1) as q moved stalled
    \<Longrightarrow> migrates i now p (a # as) q (a_id a # moved) stalled"
| stalls: "apps p1 = apps p \<Longrightarrow> holders p1 = holders p \<Longrightarrow> (\<And>t. \<not> assignable (Some (a_id a)) [i] t p1)
    \<Longrightarrow> migrates i now (upd_holder now (a_id a) stall_holder p1) as q moved stalled
    \<Longrightarrow> migrates i now p (a # as) q moved (a_id a # stalled)"

lemma move_ok:
  assumes "pool_ok p" "get_app t p = Some r"
  shows "pool_ok (upd_holder now aid (move_holder t v) p)"
  by (rule upd_holder_ok [OF assms(1)]) (use get_app_in [OF assms(2)] in simp_all)

lemma stall_ok:
  assumes "pool_ok p"
  shows "pool_ok (upd_holder now aid stall_holder p)"
  by (rule upd_holder_ok [OF assms]) (use assms in \<open>auto simp: pool_ok_def list_all_iff\<close>)

lemma migrate_loop_migrates:
  "pool_ok p \<Longrightarrow> migrate_loop i now as p = (q, moved, stalled) \<Longrightarrow> migrates i now p as q moved stalled"
proof (induction "as" arbitrary: p q moved stalled)
  case Nil
  then show ?case by (auto intro: migrates.nothing)
next
  case (Cons a as')
  show ?case
  proof (cases rule: migrate_one [OF Cons.prems(1), of "a_user a" "a_id a" i])
    case (1 p1 t r)
    have ok: "pool_ok p1" using Cons.prems(1) pool_ok_cong [OF 1(2,3)] by simp
    obtain p2 m s where l: "migrate_loop i now as' (upd_holder now (a_id a) (move_holder t (version_of r)) p1) = (p2, m, s)"
      by (metis prod_cases3)
    have "q = p2" "moved = a_id a # m" "stalled = s" using Cons.prems(2) 1(1,5) l by simp_all
    with 1 Cons.IH [OF move_ok [OF ok 1(5)] l] show ?thesis by (auto intro: migrates.moves)
  next
    case (2 p1 e)
    have ok: "pool_ok p1" using Cons.prems(1) pool_ok_cong [OF 2(3,4)] by simp
    obtain p2 m s where l: "migrate_loop i now as' (upd_holder now (a_id a) stall_holder p1) = (p2, m, s)"
      by (metis prod_cases3)
    have "q = p2 \<and> moved = m \<and> stalled = a_id a # s" using Cons.prems(2) 2(1,2) l
      by (auto split: sum.splits option.splits)
    moreover have "\<And>t. \<not> assignable (Some (a_id a)) [i] t p1" using 2(5) assignable_cong [OF 2(3,4)] by simp
    ultimately show ?thesis using 2(3,4) Cons.IH [OF stall_ok [OF ok] l] by (auto intro: migrates.stalls)
  qed
qed

lemma pool_ok_holders: "pool_ok p \<Longrightarrow> distinct (map a_id (holders p))"
  by (simp add: pool_ok_def)

lemma migrates_keep:
  "migrates i now p as q moved stalled \<Longrightarrow> pool_ok p \<Longrightarrow> pool_ok q \<and> apps q = apps p \<and> no_overload p q"
proof (induction rule: migrates.induct)
  case (nothing p)
  then show ?case by (simp add: no_overload_same)
next
  case (moves p1 p a t r "as" q moved stalled)
  let ?p2 = "upd_holder now (a_id a) (move_holder t (version_of r)) p1"
  have ok: "pool_ok p1" using moves.prems pool_ok_cong [OF moves.hyps(1,2)] by simp
  have step: "no_overload p1 ?p2"
    by (rule assign_no_overload [OF pool_ok_holders [OF ok] moves.hyps(3)]) simp
  have ih: "pool_ok q" "apps q = apps ?p2" "no_overload ?p2 q"
    using moves.IH move_ok [OF ok moves.hyps(4)] by auto
  have "no_overload p q"
    by (rule no_overload_trans [OF no_overload_trans [OF no_overload_same [OF moves.hyps(2)] step] ih(3)])
      (simp_all add: ih(2))
  with ih moves.hyps(1) show ?case by simp
next
  case (stalls p1 p a "as" q moved stalled)
  let ?p2 = "upd_holder now (a_id a) stall_holder p1"
  have ok: "pool_ok p1" using stalls.prems pool_ok_cong [OF stalls.hyps(1,2)] by simp
  have step: "no_overload p1 ?p2"
    by (rule unchanged_no_overload [OF pool_ok_holders [OF ok]]) simp
  have ih: "pool_ok q" "apps q = apps ?p2" "no_overload ?p2 q"
    using stalls.IH stall_ok [OF ok] by auto
  have "no_overload p q"
    by (rule no_overload_trans [OF no_overload_trans [OF no_overload_same [OF stalls.hyps(2)] step] ih(3)])
      (simp_all add: ih(2))
  with ih stalls.hyps(1) show ?case by simp
qed

lemma migrates_partition:
  "migrates i now p as q moved stalled \<Longrightarrow> mset (moved @ stalled) = mset (map a_id as)"
  by (induction rule: migrates.induct) auto

lemma migrates_others:
  "migrates i now p as q moved stalled \<Longrightarrow> x \<notin> a_id ` set as \<Longrightarrow> get_holder x q = get_holder x p"
proof (induction rule: migrates.induct)
  case (moves p1 p a t r "as" q moved stalled)
  then show ?case using rows_cong(6) [OF moves.hyps(1,2)] by (simp add: get_upd_holder)
next
  case (stalls p1 p a "as" q moved stalled)
  then show ?case using rows_cong(6) [OF stalls.hyps(1,2)] by (simp add: get_upd_holder)
qed simp

text \<open>What a moved and a stalled account look like afterwards.\<close>

definition moved_well :: "int \<Rightarrow> app_pool \<Rightarrow> string \<Rightarrow> bool" where
  "moved_well i q x \<longleftrightarrow> (case get_holder x q of None \<Rightarrow> False
     | Some a \<Rightarrow> (case aa_app a of None \<Rightarrow> False
        | Some t \<Rightarrow> (case get_app t q of None \<Rightarrow> False
           | Some r \<Rightarrow> t \<noteq> i \<and> is_row_healthy r \<and> aa_version a = version_of r))
        \<and> a_health a = Offline \<and> \<not> a_reauth a \<and> a_reauth_reason a = None)"

definition stalled_well :: "int \<Rightarrow> app_pool \<Rightarrow> string \<Rightarrow> bool" where
  "stalled_well i q x \<longleftrightarrow> (case get_holder x q of None \<Rightarrow> False
     | Some a \<Rightarrow> aa_app a = Some i \<and> a_health a = Offline \<and> \<not> a_reauth a
        \<and> a_reauth_reason a = Some ''developer_app_unhealthy'')"

lemma moved_well_cong: "get_holder x q = get_holder x p \<Longrightarrow> apps q = apps p \<Longrightarrow> moved_well i q x = moved_well i p x"
proof -
  assume x: "get_holder x q = get_holder x p" and r: "apps q = apps p"
  have g: "get_app t q = get_app t p" for t using r by (simp add: get_app_def)
  show ?thesis unfolding moved_well_def x g ..
qed

lemma stalled_well_cong: "get_holder x q = get_holder x p \<Longrightarrow> stalled_well i q x = stalled_well i p x"
  by (simp add: stalled_well_def)

definition on_app :: "int \<Rightarrow> app_pool \<Rightarrow> holder list \<Rightarrow> bool" where
  "on_app i p as \<longleftrightarrow> distinct (map a_id as)
     \<and> (\<forall>a \<in> set as. \<exists>b. get_holder (a_id a) p = Some b \<and> aa_app b = Some i)"

lemma on_app_tail:
  assumes "on_app i p (a # as)" "\<And>b. a_id (f b) = a_id b" "holders p1 = holders p"
  shows "on_app i (upd_holder now (a_id a) f p1) as"
proof -
  have "get_holder x p1 = get_holder x p" for x using assms(3) by (simp add: get_holder_def)
  moreover have "a_id b \<noteq> a_id a" if "b \<in> set as" for b using that assms(1) by (auto simp: on_app_def rev_image_eqI)
  ultimately show ?thesis using assms(1,2) by (auto simp: on_app_def get_upd_holder)
qed

lemma migrates_accounts:
  "migrates i now p as q moved stalled \<Longrightarrow> pool_ok p \<Longrightarrow> on_app i p as
    \<Longrightarrow> list_all (moved_well i q) moved \<and> list_all (stalled_well i q) stalled"
proof (induction rule: migrates.induct)
  case (moves p1 p a t r "as" q moved stalled)
  let ?p2 = "upd_holder now (a_id a) (move_holder t (version_of r)) p1"
  have ok: "pool_ok p1" using moves.prems pool_ok_cong [OF moves.hyps(1,2)] by simp
  have ok2: "pool_ok ?p2" by (rule move_ok [OF ok moves.hyps(4)])
  obtain b where b: "get_holder (a_id a) p1 = Some b"
    using moves.prems(2) rows_cong(6) [OF moves.hyps(1,2)] by (auto simp: on_app_def)
  have "moved_well i ?p2 (a_id a)"
    using b moves.hyps(4-6) by (simp add: moved_well_def get_upd_holder get_app_def)
  moreover have "a_id a \<notin> a_id ` set as" using moves.prems(2) by (simp add: on_app_def)
  then have "get_holder (a_id a) q = get_holder (a_id a) ?p2" by (rule migrates_others [OF moves.hyps(7)])
  moreover have "apps q = apps ?p2" using migrates_keep [OF moves.hyps(7) ok2] by simp
  ultimately have "moved_well i q (a_id a)" using moved_well_cong by blast
  then show ?case using moves.IH [OF ok2 on_app_tail [OF moves.prems(2) _ moves.hyps(2)]] by simp
next
  case (stalls p1 p a "as" q moved stalled)
  let ?p2 = "upd_holder now (a_id a) stall_holder p1"
  have ok: "pool_ok p1" using stalls.prems pool_ok_cong [OF stalls.hyps(1,2)] by simp
  have ok2: "pool_ok ?p2" by (rule stall_ok [OF ok])
  obtain b where b: "get_holder (a_id a) p1 = Some b" "aa_app b = Some i"
    using stalls.prems(2) rows_cong(6) [OF stalls.hyps(1,2)] by (auto simp: on_app_def)
  have "stalled_well i ?p2 (a_id a)" using b by (simp add: stalled_well_def get_upd_holder)
  moreover have "a_id a \<notin> a_id ` set as" using stalls.prems(2) by (simp add: on_app_def)
  then have "get_holder (a_id a) q = get_holder (a_id a) ?p2" by (rule migrates_others [OF stalls.hyps(4)])
  ultimately have "stalled_well i q (a_id a)" using stalled_well_cong by blast
  then show ?case using stalls.IH [OF ok2 on_app_tail [OF stalls.prems(2) _ stalls.hyps(2)]] by simp
qed simp

text \<open>Once an account stalls, no other app can take an account, and none can until the end.\<close>

lemma holder_row: "pool_ok p \<Longrightarrow> get_holder x p = Some b \<Longrightarrow> a \<in> set (holders p) \<Longrightarrow> a_id a = x \<Longrightarrow> a = b"
  using find_row_key [OF pool_ok_holders, of p a] by (simp add: get_holder_def)

lemma usage_without:
  assumes "pool_ok p" "get_holder x p = Some b" "aa_app b = Some i" "j \<noteq> i"
  shows "account_usage (Some x) j p = account_usage None j p"
proof -
  have "filter (\<lambda>a. aa_app a = Some j \<and> (str_true (Some x) \<longrightarrow> Some (a_id a) \<noteq> Some x)) (holders p)
      = filter (\<lambda>a. aa_app a = Some j \<and> (str_true None \<longrightarrow> Some (a_id a) \<noteq> None)) (holders p)"
    using holder_row [OF assms(1,2)] assms(3,4) by (intro filter_cong) auto
  then show ?thesis by (simp add: account_usage_def)
qed

lemma capacity_without:
  assumes "pool_ok p" "get_holder x p = Some b" "aa_app b = Some i" "j \<noteq> i"
  shows "assignable (Some x) [i] j p \<longleftrightarrow> is_capacity_available j None p"
  using assms(4) by (simp add: assignable_def is_capacity_available_iff usage_without [OF assms])

lemma usage_grows:
  "(\<And>a. a \<in> set rows \<Longrightarrow> a_id a = x \<Longrightarrow> aa_app a \<noteq> Some j) \<Longrightarrow>
    length (filter (\<lambda>a. aa_app a = Some j) rows) \<le> length (filter (\<lambda>a. aa_app a = Some j) (upd_where (\<lambda>a. a_id a = x) g rows))"
proof (induction rows)
  case (Cons a rows)
  then show ?case by (cases "a_id a = x") auto
qed simp

lemma migrates_usage:
  "migrates i now p as q moved stalled \<Longrightarrow> pool_ok p \<Longrightarrow> on_app i p as \<Longrightarrow> j \<noteq> i
    \<Longrightarrow> account_usage None j p \<le> account_usage None j q"
proof (induction rule: migrates.induct)
  case (moves p1 p a t r "as" q moved stalled)
  let ?p2 = "upd_holder now (a_id a) (move_holder t (version_of r)) p1"
  have ok: "pool_ok p1" using moves.prems pool_ok_cong [OF moves.hyps(1,2)] by simp
  obtain b where b: "get_holder (a_id a) p1 = Some b" "aa_app b = Some i"
    using moves.prems(2) rows_cong(6) [OF moves.hyps(1,2)] by (auto simp: on_app_def)
  have "account_usage None j p1 \<le> account_usage None j ?p2"
    using holder_row [OF ok b(1)] b(2) moves.prems(3)
    by (auto simp: account_usage_def holders_upd intro!: usage_grows)
  moreover have "account_usage None j ?p2 \<le> account_usage None j q"
    using moves.IH [OF move_ok [OF ok moves.hyps(4)] on_app_tail [OF moves.prems(2) _ moves.hyps(2)] moves.prems(3)] by simp
  ultimately show ?case using rows_cong(2) [OF moves.hyps(1,2)] by simp
next
  case (stalls p1 p a "as" q moved stalled)
  let ?p2 = "upd_holder now (a_id a) stall_holder p1"
  have ok: "pool_ok p1" using stalls.prems pool_ok_cong [OF stalls.hyps(1,2)] by simp
  obtain b where b: "get_holder (a_id a) p1 = Some b" "aa_app b = Some i"
    using stalls.prems(2) rows_cong(6) [OF stalls.hyps(1,2)] by (auto simp: on_app_def)
  have "account_usage None j p1 \<le> account_usage None j ?p2"
    using holder_row [OF ok b(1)] b(2) stalls.prems(3)
    by (auto simp: account_usage_def holders_upd intro!: usage_grows)
  moreover have "account_usage None j ?p2 \<le> account_usage None j q"
    using stalls.IH [OF stall_ok [OF ok] on_app_tail [OF stalls.prems(2) _ stalls.hyps(2)] stalls.prems(3)] by simp
  ultimately show ?case using rows_cong(2) [OF stalls.hyps(1,2)] by simp
qed simp

lemma less_available:
  "apps q = apps p \<Longrightarrow> account_usage None j p \<le> account_usage None j q \<Longrightarrow>
    is_capacity_available j None q \<Longrightarrow> is_capacity_available j None p"
  by (auto simp: is_capacity_available_iff get_app_def)

lemma migrates_full:
  "migrates i now p as q moved stalled \<Longrightarrow> pool_ok p \<Longrightarrow> on_app i p as \<Longrightarrow> j \<noteq> i \<Longrightarrow> stalled \<noteq> []
    \<Longrightarrow> \<not> is_capacity_available j None q"
proof (induction rule: migrates.induct)
  case (moves p1 p a t r "as" q moved stalled)
  have ok: "pool_ok p1" using moves.prems pool_ok_cong [OF moves.hyps(1,2)] by simp
  show ?case
    using moves.IH [OF move_ok [OF ok moves.hyps(4)] on_app_tail [OF moves.prems(2) _ moves.hyps(2)]
        moves.prems(3,4)] by simp
next
  case (stalls p1 p a "as" q moved stalled)
  have ok: "pool_ok p1" using stalls.prems pool_ok_cong [OF stalls.hyps(1,2)] by simp
  obtain b where b: "get_holder (a_id a) p1 = Some b" "aa_app b = Some i"
    using stalls.prems(2) rows_cong(6) [OF stalls.hyps(1,2)] by (auto simp: on_app_def)
  have no: "\<not> is_capacity_available j None p1"
    using stalls.hyps(3) capacity_without [OF ok b stalls.prems(3)] by simp
  have m: "migrates i now p (a # as) q moved (a_id a # stalled)"
    by (rule migrates.stalls [OF stalls.hyps])
  have "apps q = apps p1" "account_usage None j p1 \<le> account_usage None j q"
    using migrates_keep [OF m stalls.prems(1)] migrates_usage [OF m stalls.prems(1-3)]
      rows_cong(2) [OF stalls.hyps(1,2)] stalls.hyps(1) by simp_all
  with no show ?case using less_available by blast
qed simp

lemma accounts_of_app_on:
  assumes "pool_ok p"
  shows "on_app i p (accounts_of_app i p)"
proof -
  have "distinct (map a_id (filter (\<lambda>a. aa_app a = Some i) (holders p)))"
    using pool_ok_holders [OF assms] by (simp add: distinct_map_filter)
  then have "distinct (map a_id (accounts_of_app i p))"
    by (simp add: accounts_of_app_def distinct_map)
  moreover have "\<exists>b. get_holder (a_id a) p = Some b \<and> aa_app b = Some i" if "a \<in> set (accounts_of_app i p)" for a
    using that find_row_key [OF pool_ok_holders [OF assms], of a]
    by (auto simp: accounts_of_app_def get_holder_def)
  ultimately show ?thesis by (simp add: on_app_def)
qed

lemma migration:
  assumes "pool_ok p" "migrate_accounts_from_unhealthy_app i now p = (q, moved, stalled)"
  shows "migrates i now p (accounts_of_app i p) q moved stalled"
  using migrate_loop_migrates [OF assms(1)] assms(2) by (simp add: migrate_accounts_from_unhealthy_app_def)

end
