(* ===== verification/AppSteps.thy ===== *)
theory AppSteps
  imports AppRuns
begin

text \<open>
  Every session of the pool keeps its invariant, and no session gives an app more accounts than
  it can take.
\<close>

definition same_apps :: "app_pool \<Rightarrow> app_pool \<Rightarrow> bool" where
  "same_apps p q \<longleftrightarrow> apps q = apps p \<and> holders q = holders p"

lemma same_apps_ok: "same_apps p q \<Longrightarrow> pool_ok p \<Longrightarrow> pool_ok q \<and> no_overload p q"
  using pool_ok_cong [of q p] by (simp add: same_apps_def no_overload_same)

lemma fst_committed: "fst (committed p r) = p \<or> fst (committed p r) = fst r"
  by (cases r; cases "snd r") (auto simp: committed_def)

lemma committed_same: "same_apps p (fst r) \<Longrightarrow> same_apps p (fst (committed p r))"
  using fst_committed [of p r] by (auto simp: same_apps_def)

section \<open>Sessions that change the settings only\<close>

lemma settings_same: "update_assignment_settings mode alerts p = Inr (q, r) \<Longrightarrow> same_apps p q"
  using mode_keeps [of "ensure_core_settings p"] alert_raw_keeps
  by (fastforce simp: update_assignment_settings_def set_assignment_mode_def set_alert_raw_def Let_def
      case_prod_beta same_apps_def split: sum.splits prod.splits)

lemma read_settings_same: "same_apps p (fst (get_assignment_settings p))"
  unfolding get_assignment_settings_def
  by (rule committed_same) (auto simp: same_apps_def Let_def case_prod_beta split: sum.splits prod.splits)

lemma list_apps_same: "same_apps p (fst (list_apps p))"
  by (simp add: list_apps_def same_apps_def case_prod_beta Let_def)

lemma set_default_same: "same_apps p (fst (set_default_app i p))"
  by (auto simp: set_default_app_def same_apps_def Let_def split: option.splits)

lemma set_user_same: "same_apps p (fst (set_user_preferred_app_id uid i p))"
  by (auto simp: set_user_preferred_app_id_def same_apps_def Let_def split: option.splits)

lemma recipients_same: "same_apps p (fst (get_alert_recipient_ids p))"
  by (simp add: get_alert_recipient_ids_def same_apps_def case_prod_beta Let_def)

lemma resolve_same: "pool_ok p \<Longrightarrow> same_apps p (fst (resolve_in_session uid preferred ex dis ctx existing p))"
  by (simp add: resolve_is_choose [OF pool_ok_ids] same_apps_def)

lemma assignable_same: "pool_ok p \<Longrightarrow> same_apps p (fst (resolve_assignable_app_id uid preferred ex dis ctx existing p))"
  unfolding resolve_assignable_app_id_def by (intro committed_same resolve_same)

lemma credentials_same: "same_apps p (fst (resolve_credentials env dev uid p))"
  using default_keeps [of p]
  by (auto simp: resolve_credentials_def same_apps_def Let_def case_prod_beta split: option.splits)

lemma account_credentials_same: "same_apps p (fst (resolve_credentials_for_account env aid p))"
  unfolding resolve_credentials_for_account_def
  by (rule committed_same) (use credentials_same in \<open>auto simp: same_apps_def split: option.splits\<close>)

lemma same_apps_trans: "same_apps p q \<Longrightarrow> same_apps q r \<Longrightarrow> same_apps p r"
  by (simp add: same_apps_def)

lemma login_credentials_same:
  assumes "pool_ok p"
  shows "same_apps p (fst (choose_login_credentials_for_user env uid tg p))"
  unfolding choose_login_credentials_for_user_def Let_def
  by (rule committed_same)
    (use resolve_same [OF assms] credentials_same same_apps_trans in
      \<open>fastforce simp: case_prod_beta split: sum.splits prod.splits\<close>)

section \<open>Sessions that change an app\<close>

lemma default_weight_ok: "app_ok r \<Longrightarrow> app_ok (r\<lparr>ap_weight := weight_of r, ap_health := healthy, ap_active := True\<rparr>)"
  by (auto simp: app_ok_def weight_of_def)

lemma next_app_id_pos: "1 \<le> next_app_id p"
proof -
  have "0 \<le> foldr max xs (0 :: int)" for xs by (induction xs) auto
  then show ?thesis by (simp add: next_app_id_def)
qed

lemma new_app_ok:
  "0 \<le> mx \<Longrightarrow> 1 \<le> w \<Longrightarrow> app_ok (new_app p name api hash active mx w notes)"
  "ap_id (new_app p name api hash active mx w notes) = next_app_id p"
  "ap_api (new_app p name api hash active mx w notes) = api"
  using next_app_id_pos [of p] by (auto simp: new_app_def app_ok_def)

lemma no_api: "find_row (\<lambda>r. ap_api r = api) (apps p) = None \<Longrightarrow> api \<notin> ap_api ` set (apps p)"
  by (auto simp: find_row_None)

lemma put_setting_ok: "pool_ok (put_setting k v p) = pool_ok p"
  by (rule pool_ok_cong) simp_all

lemma restart_ok:
  assumes "pool_ok p"
  shows "pool_ok (fst (ensure_env_default_app env p)) \<and> holders (fst (ensure_env_default_app env p)) = holders p"
proof (cases "env_api env = 0 \<or> env_hash env = []")
  case True
  then show ?thesis using assms by (auto simp: ensure_env_default_app_def)
next
  case False
  let ?p1 = "ensure_core_settings p"
  have ok: "pool_ok ?p1" using assms by (subst pool_ok_cong) simp_all
  show ?thesis
  proof (cases "find_row (\<lambda>r. ap_api r = env_api env) (apps ?p1)")
    case None
    let ?r = "new_app ?p1 ''env-default'' (env_api env) (seal env (env_hash env)) True 0 100 (Some ''<from the environment>'')"
    have "pool_ok (?p1\<lparr>apps := apps ?p1 @ [?r]\<rparr>)"
      using no_api [OF None] by (intro add_app_ok [OF ok]) (simp_all add: new_app_ok)
    then show ?thesis using False None
      by (simp add: ensure_env_default_app_def Let_def put_setting_ok split: option.split)
  next
    case (Some r)
    then have r: "get_app (ap_id r) ?p1 = Some r"
      using get_app_row [OF pool_ok_ids [OF ok]] by (auto dest: find_row_Some)
    have "pool_ok (upd_app (ap_id r) (\<lambda>r. r\<lparr>ap_weight := weight_of r, ap_health := healthy, ap_active := True\<rparr>) ?p1)"
      by (rule upd_app_ok [OF ok r]) (use pool_ok_row [OF ok r] default_weight_ok in simp_all)
    then show ?thesis using False Some
      by (simp add: ensure_env_default_app_def Let_def put_setting_ok upd_app_def split: option.split)
  qed
qed

lemma create_ok:
  assumes "pool_ok p"
  shows "pool_ok (fst (create_app env name api hash active mx weight notes p))
    \<and> holders (fst (create_app env name api hash active mx weight notes p)) = holders p"
proof (cases "strip name = [] \<or> hash = [] \<or> strip hash = []
    \<or> find_row (\<lambda>r. ap_api r = api) (apps (ensure_core_settings p)) \<noteq> None")
  case True
  then show ?thesis using assms by (auto simp: create_app_def Let_def)
next
  case False
  let ?p1 = "ensure_core_settings p"
  let ?r = "new_app ?p1 (strip name) api (seal env (strip hash)) active (max 0 mx)
    (max 1 (if weight = 0 then 100 else weight)) (opt_str (strip (str_or notes [])))"
  have ok: "pool_ok ?p1" using assms by (subst pool_ok_cong) simp_all
  have "find_row (\<lambda>r. ap_api r = api) (apps ?p1) = None" using False by simp
  then have "pool_ok (?p1\<lparr>apps := apps ?p1 @ [?r]\<rparr>)"
    using no_api by (intro add_app_ok [OF ok]) (simp_all add: new_app_ok)
  then show ?thesis using False by (simp add: create_app_def Let_def put_setting_ok)
qed

lemma update_row_ok:
  assumes "update_app_row env now name hash act mx weight notes r = Inr r'" "app_ok r"
  shows "ap_id r' = ap_id r \<and> ap_api r' = ap_api r \<and> app_ok r'"
proof -
  obtain r1 r2 where r1: "(case name of None \<Rightarrow> Inr r | Some n \<Rightarrow>
        if strip n = [] then Inl (Http 400 ''<empty app name>'') else Inr (r\<lparr>ap_name := strip n\<rparr>)) = Inr r1"
    and r2: "set_app_hash env now hash r1 = Inr r2"
    using assms(1) by (auto simp: update_app_row_def and_then_Inr)
  have 1: "ap_id r1 = ap_id r \<and> ap_api r1 = ap_api r \<and> app_ok r1"
    using r1 assms(2) by (auto simp: app_ok_def split: option.splits if_splits)
  have 2: "ap_id r2 = ap_id r \<and> ap_api r2 = ap_api r \<and> app_ok r2"
    using r2 1 by (auto simp: set_app_hash_def app_ok_def version_of_def split: option.splits sum.splits if_splits)
  have 3: "ap_id (set_app_active act r2) = ap_id r \<and> ap_api (set_app_active act r2) = ap_api r
      \<and> app_ok (set_app_active act r2)"
    using 2 by (auto simp: set_app_active_def app_ok_def Let_def split: option.splits bool.splits)
  let ?r3 = "set_app_active act r2"
  define r4 where "r4 = (case mx of None \<Rightarrow> ?r3 | Some m \<Rightarrow> ?r3\<lparr>ap_max := max 0 m\<rparr>)"
  define r5 where "r5 = (case weight of None \<Rightarrow> r4 | Some w \<Rightarrow> r4\<lparr>ap_weight := max 1 w\<rparr>)"
  have 4: "ap_id r4 = ap_id r \<and> ap_api r4 = ap_api r \<and> app_ok r4"
    using 3 by (cases mx) (simp_all add: r4_def app_ok_def)
  have 5: "ap_id r5 = ap_id r \<and> ap_api r5 = ap_api r \<and> app_ok r5"
    using 4 by (cases weight) (simp_all add: r5_def app_ok_def)
  have "r' = (case notes of None \<Rightarrow> r5 | Some s \<Rightarrow> r5\<lparr>ap_notes := opt_str (strip s)\<rparr>)"
    using assms(1) unfolding update_app_row_def r1 and_then.simps r2 Let_def r4_def r5_def by simp
  with 5 show ?thesis by (cases "notes") (simp_all add: app_ok_def)
qed

lemma update_ok:
  assumes "pool_ok p"
  shows "pool_ok (fst (update_app env now i name hash act mx weight notes p))
    \<and> holders (fst (update_app env now i name hash act mx weight notes p)) = holders p"
proof (cases "get_app i p")
  case (Some r)
  have r: "app_ok r" "ap_id r = i" using pool_ok_row [OF assms Some] by simp_all
  show ?thesis
  proof (cases "update_app_row env now name hash act mx weight notes r")
    case (Inr r')
    have "pool_ok (upd_app i (\<lambda>_. r') p)"
      using upd_app_ok [OF assms Some] update_row_ok [OF Inr r(1)] r(2) by simp
    then show ?thesis using Some Inr by (simp add: update_app_def upd_app_def)
  qed (simp add: update_app_def Some assms)
qed (simp add: update_app_def assms)

section \<open>The write of a probe\<close>

lemma probe_status: "fst (probe_app env r) \<in> {healthy, unhealthy, disabled}"
  by (auto simp: probe_app_def split: sum.splits option.splits)

lemma apply_probe_ok:
  assumes "app_ok r" "fst result \<in> {healthy, unhealthy, disabled}"
  shows "app_ok (fst (apply_probe result manual now r))" "ap_id (fst (apply_probe result manual now r)) = ap_id r"
    "ap_api (fst (apply_probe result manual now r)) = ap_api r"
  using assms
  by (cases result; auto simp: apply_probe_def app_ok_def next_fail_count_def resolve_health_transition_def
      health_of_def Let_def)+

lemma audit_same: "same_apps p (append_health_audit au p)"
  by (simp add: same_apps_def append_health_audit_def)

lemma write_check_ok:
  assumes "pool_ok p" "get_app i p = Some r" "fst result \<in> {healthy, unhealthy, disabled}"
  shows "pool_ok (fst (write_check env i actor ip force now previous result r p))
    \<and> no_overload p (fst (write_check env i actor ip force now previous result r p))"
proof -
  obtain probe err ms where result: "result = (probe, err, ms)" by (cases result) auto
  obtain r' kept where r': "apply_probe result (actor \<noteq> ''system'') now r = (r', kept)" by fastforce
  let ?p1 = "upd_app i (\<lambda>_. r') p"
  have row: "app_ok r'" "ap_id r' = i" "ap_api r' = ap_api r"
    using apply_probe_ok [of r result "actor \<noteq> ''system''" now] pool_ok_row [OF assms(1,2)] assms(3) r' by simp_all
  have ok: "pool_ok ?p1" by (rule upd_app_ok [OF assms(1,2)]) (use row in simp_all)
  have n1: "no_overload p ?p1" by (rule no_overload_same) (simp add: upd_app_def)
  obtain p2 moved stalled where m: "(if ap_health r' = unhealthy \<and> probe = unhealthy
        then migrate_accounts_from_unhealthy_app i now ?p1 else (?p1, [], [])) = (p2, moved, stalled)"
    by (metis prod_cases3)
  have p2: "pool_ok p2 \<and> no_overload ?p1 p2 \<and> apps p2 = apps ?p1"
  proof (cases "ap_health r' = unhealthy \<and> probe = unhealthy")
    case True
    then have "migrate_accounts_from_unhealthy_app i now ?p1 = (p2, moved, stalled)" using m by simp
    then show ?thesis using migrates_keep [OF migration [OF ok] ok] by blast
  next
    case False
    then have "p2 = ?p1" using m by (auto split: if_splits)
    with ok show ?thesis by (simp add: no_overload_same)
  qed
  let ?q = "fst (write_check env i actor ip force now previous result r p)"
  have "?q = p2 \<or> (\<exists>au. ?q = append_health_audit au p2)"
    using m r' unfolding write_check_def result by (auto simp: Let_def)
  then have "same_apps p2 ?q" using audit_same by (auto simp: same_apps_def)
  moreover have "no_overload p p2" by (rule no_overload_trans [OF n1]) (use p2 in simp_all)
  ultimately show ?thesis
    using p2 same_apps_ok [of p2 ?q] no_overload_trans [of p p2 ?q] by (simp add: same_apps_def)
qed

section \<open>The account of a login\<close>

lemma login_again_simps [simp]:
  "a_id (login_again l ap v observe now a) = a_id a" "a_tg (login_again l ap v observe now a) = a_tg a"
  "aa_app (login_again l ap v observe now a) = ap" "aa_version (login_again l ap v observe now a) = v"
  by (simp_all add: login_again_def Let_def)

lemma login_row_simps [simp]:
  "a_id (login_account_row l uid tg aid ap v now) = aid" "a_tg (login_account_row l uid tg aid ap v now) = Some tg"
  "aa_app (login_account_row l uid tg aid ap v now) = ap" "a_user (login_account_row l uid tg aid ap v now) = uid"
  "aa_version (login_account_row l uid tg aid ap v now) = v"
  by (simp_all add: login_account_row_def)

text \<open>The choice of an app for a login, as the login sees it.\<close>

lemma resolve_for_login:
  assumes "pool_ok p" "resolve_assignable_app_id uid preferred ex [] ctx existing p = (p1, Inr ap)"
  shows "pool_ok p1" "apps p1 = apps p" "holders p1 = holders p"
    "case ap of None \<Rightarrow> \<not> list_ex ap_active (apps p1) | Some t \<Rightarrow> assignable ex [] t p1"
proof -
  have "choose_app uid preferred ex [] p = (p1, Inr ap)"
    using assms(2) by (auto simp: resolve_assignable_app_id_def committed_def
        resolve_is_choose [OF pool_ok_ids [OF assms(1)]] split: sum.splits)
  then show rows: "apps p1 = apps p" "holders p1 = holders p"
    and "case ap of None \<Rightarrow> \<not> list_ex ap_active (apps p1) | Some t \<Rightarrow> assignable ex [] t p1"
    using choose_app_keeps [of uid preferred ex "[]" p]
      choose_app_outcome [OF pool_ok_ids [OF assms(1)], where uid = uid and preferred = preferred and ex = ex and dis = "[]"]
    by (auto simp: assignable_cong [of p1 p] split: option.splits)
  show "pool_ok p1" using assms(1) pool_ok_cong [OF rows] by simp
qed

lemma chosen_in: "case ap of None \<Rightarrow> Q | Some t \<Rightarrow> assignable ex [] t p \<Longrightarrow> ap \<in> insert None (Some ` set (map ap_id (apps p)))"
  using get_app_in assignable_app by (fastforce split: option.splits)

text \<open>An account that logs in again.\<close>

lemma upsert_known:
  assumes ok: "pool_ok p" and a: "get_holder aid p = Some a"
    and r: "resolve_assignable_app_id uid preferred (Some aid) [] ctx existing p = (p1, Inr ap)"
  shows "pool_ok (upd_holder now aid (login_again l ap v observe now) p1)
    \<and> no_overload p (upd_holder now aid (login_again l ap v observe now) p1)"
proof
  note f = resolve_for_login [OF ok r]
  show "pool_ok (upd_holder now aid (login_again l ap v observe now) p1)"
    by (rule upd_holder_ok [OF f(1)]) (use chosen_in [OF f(4)] in simp_all)
  have step: "no_overload p1 (upd_holder now aid (login_again l ap v observe now) p1)"
  proof (cases ap)
    case (Some t)
    with f(4) have "assignable (Some aid) [] t p1" by simp
    from assign_no_overload [OF pool_ok_holders [OF f(1)] this] Some show ?thesis by simp
  next
    case None
    have "account_usage None j (upd_holder now aid (login_again l ap v observe now) p1) \<le> account_usage None j p1" for j
      using usage_upd [OF pool_ok_holders [OF f(1)], of "login_again l ap v observe now" "\<lambda>_. None" j now aid]
        others_le(1) [of aid j p1] None by simp
    then show ?thesis by (simp add: no_overload_def)
  qed
  show "no_overload p (upd_holder now aid (login_again l ap v observe now) p1)"
    by (rule no_overload_trans [OF no_overload_same [OF f(3)] step]) simp
qed

text \<open>A new account.\<close>

lemma upsert_new:
  assumes ok: "pool_ok p" and r: "resolve_assignable_app_id uid preferred None [] ctx existing p = (p1, Inr ap)"
    and new: "get_holder aid p1 = None" "Some tg \<notin> a_tg ` set (holders p1)"
  shows "pool_ok (p1\<lparr>holders := holders p1 @ [login_account_row l uid tg aid ap v now]\<rparr>)
    \<and> no_overload p (p1\<lparr>holders := holders p1 @ [login_account_row l uid tg aid ap v now]\<rparr>)"
proof
  let ?q = "p1\<lparr>holders := holders p1 @ [login_account_row l uid tg aid ap v now]\<rparr>"
  note f = resolve_for_login [OF ok r]
  have "aid \<notin> a_id ` set (holders p1)" using new(1) by (auto simp: get_holder_def find_row_None)
  then show "pool_ok ?q" using f(1) chosen_in [OF f(4)] new(2) by (simp add: pool_ok_def)
  have step: "no_overload p1 ?q"
    unfolding no_overload_def
  proof
    fix j
    show "account_usage None j ?q \<le> account_usage None j p1 \<or> within j ?q"
    proof (cases "ap = Some j")
      case True
      with f(4) have "assignable None [] j p1" by simp
      then show ?thesis using True
        by (auto simp: assignable_def is_capacity_available_iff within_def get_app_def account_usage_def)
    next
      case False
      then show ?thesis by (simp add: account_usage_def)
    qed
  qed
  show "no_overload p ?q" by (rule no_overload_trans [OF no_overload_same [OF f(3)] step]) simp
qed

lemma known_row:
  assumes "pool_ok p" "login_checks l uid p = Inr (Inr (tg, target))" "known_account uid tg target p = Some a"
  shows "get_holder (a_id a) p = Some a"
proof -
  have "login_target l uid tg p = Inr target"
    using assms(2) by (auto simp: login_checks_def and_then_Inr split: if_splits option.splits)
  then have "a \<in> set (holders p)"
    using assms(3) by (auto simp: known_account_def login_target_def Let_def get_holder_def
        split: option.splits if_splits dest!: find_row_Some)
  then show ?thesis using find_row_key [OF pool_ok_holders [OF assms(1)]] by (simp add: get_holder_def)
qed

lemma unknown_tg:
  assumes "known_account uid tg target p = None" "\<not> list_ex (\<lambda>a. a_tg a = Some tg \<and> a_user a \<noteq> uid) (holders p)"
  shows "Some tg \<notin> a_tg ` set (holders p)"
  using assms by (auto simp: known_account_def find_row_None list_ex_iff split: option.splits)

lemma attach_ok:
  assumes ok: "pool_ok p"
    and known: "\<And>a. known = Some a \<Longrightarrow> get_holder (a_id a) p = Some a"
    and new: "known = None \<Longrightarrow> \<not> list_ex (\<lambda>a. a_tg a = Some tg \<and> a_user a \<noteq> uid) (holders p)
      \<Longrightarrow> Some tg \<notin> a_tg ` set (holders p)"
  shows "pool_ok (fst (attach_login l uid tg observe may_add aid now known p))
    \<and> no_overload p (fst (attach_login l uid tg observe may_add aid now known p))"
proof -
  let ?r = "resolve_assignable_app_id uid (lg_app l) (map_option a_id known) []
     (if known = None then NewAccount else ExistingReassign) (case known of None \<Rightarrow> None | Some a \<Rightarrow> aa_app a) p"
  obtain p1 r where r: "?r = (p1, r)" by fastforce
  have rows: "same_apps p p1" using assignable_same [OF ok] r by (metis fst_conv)
  then have same: "pool_ok p1 \<and> no_overload p p1" by (rule same_apps_ok [OF _ ok])
  show ?thesis
  proof (cases r)
    case (Inl e)
    then show ?thesis using r same by (simp add: attach_login_def)
  next
    case (Inr ap)
    show ?thesis
    proof (cases known)
      case (Some a)
      with r Inr show ?thesis
        using upsert_known [OF ok known [OF Some], of uid "lg_app l" ExistingReassign "aa_app a"] by (simp add: attach_login_def)
    next
      case None
      have fresh: "\<not> list_ex (\<lambda>a. a_tg a = Some tg \<and> a_user a \<noteq> uid) (holders p1) \<Longrightarrow> Some tg \<notin> a_tg ` set (holders p1)"
        using new [OF None] rows by (simp add: same_apps_def)
      from r Inr None show ?thesis
        using same upsert_new [OF ok _ _ fresh, where uid = uid and preferred = "lg_app l" and ctx = NewAccount
            and existing = None and ap = ap and aid = aid] by (simp add: attach_login_def)
    qed
  qed
qed

lemma upsert_ok:
  assumes ok: "pool_ok p"
  shows "pool_ok (fst (upsert_login_account l uid gateway may_add aid now p))
    \<and> no_overload p (fst (upsert_login_account l uid gateway may_add aid now p))"
proof (cases "login_checks l uid p")
  case (Inl e)
  then show ?thesis using ok by (simp add: upsert_login_account_def no_overload_same)
next
  case (Inr v)
  show ?thesis
  proof (cases v)
    case (Inl x)
    with Inr ok show ?thesis by (simp add: upsert_login_account_def no_overload_same)
  next
    case v: (Inr w)
    obtain tg target where w: "w = (tg, target)" by fastforce
    have c: "login_checks l uid p = Inr (Inr (tg, target))" using Inr v w by simp
    show ?thesis
      unfolding upsert_login_account_def c sum.case prod.case
      by (rule attach_ok [OF ok known_row [OF ok c] unknown_tg])
  qed
qed

section \<open>Every session\<close>

lemma account_state_ok:
  assumes "account_state_only p q" "pool_ok p"
  shows "pool_ok q \<and> no_overload p q"
proof -
  let ?k = "\<lambda>a. (a_id a, a_user a, a_tg a, aa_app a)"
  have k: "map ?k (holders q) = map ?k (holders p)" and r: "apps q = apps p"
    using assms(1) by (simp_all add: account_state_only_def)
  have proj: "map (f \<circ> ?k) (holders q) = map (f \<circ> ?k) (holders p)" for f :: "_ \<Rightarrow> 'b"
    unfolding map_map [symmetric] k ..
  have ids: "map a_id (holders q) = map a_id (holders p)" using proj [of fst] by (simp add: comp_def)
  have tgs: "map a_tg (holders q) = map a_tg (holders p)" using proj [of "\<lambda>x. fst (snd (snd x))"] by (simp add: comp_def)
  have on: "map aa_app (holders q) = map aa_app (holders p)" using proj [of "\<lambda>x. snd (snd (snd x))"] by (simp add: comp_def)
  have all: "list_all (\<lambda>a. P (aa_app a)) (holders q) = list_all (\<lambda>a. P (aa_app a)) (holders p)" for P
    using arg_cong [OF on, of "list_all P"] by (simp add: list.pred_map comp_def)
  note all' = all [of "\<lambda>x. x = None \<or> x \<in> Some ` set (map ap_id (apps p))"]
  have "pool_ok q" using assms(2) unfolding pool_ok_def ids tgs r all' .
  moreover have "account_usage None j q = account_usage None j p" for j
    using arg_cong [OF on, of "\<lambda>xs. length (filter (\<lambda>x. x = Some j) xs)"]
    by (simp add: account_usage_def filter_map comp_def)
  ultimately show ?thesis by (simp add: no_overload_def)
qed

lemma leave_ok:
  assumes "pool_ok p"
  shows "pool_ok (p\<lparr>holders := filter P (holders p)\<rparr>) \<and> no_overload p (p\<lparr>holders := filter P (holders p)\<rparr>)"
proof
  show "pool_ok (p\<lparr>holders := filter P (holders p)\<rparr>)"
    using assms by (auto simp: pool_ok_def distinct_map_filter list_all_iff)
  have "length (filter (\<lambda>a. P a \<and> Q a) xs) \<le> length (filter Q xs)" for Q and xs :: "holder list"
    by (rule filter_length_mono) simp
  then show "no_overload p (p\<lparr>holders := filter P (holders p)\<rparr>)"
    by (simp add: no_overload_def account_usage_def)
qed

lemma kept_rows: "pool_ok q \<and> holders q = holders p \<Longrightarrow> pool_ok q \<and> no_overload p q"
  by (simp add: no_overload_same)

lemma pool_step_ok: "pool_step env p q \<Longrightarrow> pool_ok p \<Longrightarrow> pool_ok q \<and> no_overload p q"
proof (induction rule: pool_step.induct)
  case (restart p) then show ?case by (intro kept_rows restart_ok)
next
  case (settings mode alerts p q r) then show ?case by (intro same_apps_ok settings_same)
next
  case (read_settings p) then show ?case by (intro same_apps_ok read_settings_same)
next
  case (show_apps p) then show ?case by (intro same_apps_ok list_apps_same)
next
  case (create p name api hash active mx weight "notes") then show ?case by (intro kept_rows create_ok)
next
  case (update p now i name hash act mx weight "notes") then show ?case by (intro kept_rows update_ok)
next
  case (set_default p i) then show ?case by (intro same_apps_ok set_default_same)
next
  case (set_user p uid i) then show ?case by (intro same_apps_ok set_user_same)
next
  case (choose p uid preferred ex dis ctx existing) then show ?case by (intro same_apps_ok assignable_same)
next
  case (credentials p aid) then show ?case by (intro same_apps_ok account_credentials_same)
next
  case (choose_login p uid tg) then show ?case by (intro same_apps_ok login_credentials_same)
next
  case (upsert p l uid gateway may_add aid now) then show ?case by (rule upsert_ok)
next
  case (write_probe i p r actor ip force now previous row)
  then show ?case by (intro write_check_ok) (simp_all only: probe_status)
next
  case (audit p au) then show ?case by (intro same_apps_ok audit_same)
next
  case (recipients p) then show ?case by (intro same_apps_ok recipients_same)
next
  case (account_state p q) then show ?case by (intro account_state_ok)
next
  case (leave p aid) then show ?case by (intro leave_ok)
qed

lemma empty_pool_ok: "pool_ok empty_pool"
  by (simp add: pool_ok_def empty_pool_def)

lemma pool_reached_ok: "pool_reached env p \<Longrightarrow> pool_ok p"
  unfolding pool_reached_def
  by (induction rule: rtranclp_induct) (use empty_pool_ok pool_step_ok in blast)+

end
