(* ===== verification/AppFair.thy ===== *)
theory AppFair
  imports AppSteps
begin

text \<open>
  Round robin serves new accounts in turn, and the health status of an app follows its last two
  probes.
\<close>

section \<open>The next candidate after the cursor\<close>

definition rank :: "int list \<Rightarrow> int \<Rightarrow> nat" where
  "rank ids c = length (filter (\<lambda>i. i \<le> c) ids)"

lemma rank_all_greater: "(\<And>i. i \<in> set ids \<Longrightarrow> c < i) \<Longrightarrow> rank ids c = 0"
  by (auto simp: rank_def filter_empty_conv not_le)

lemma find_after:
  "sorted ids \<Longrightarrow> List.find (\<lambda>i. c < i) ids = (if rank ids c < length ids then Some (ids ! rank ids c) else None)"
proof (induction ids)
  case (Cons x ids)
  show ?case
  proof (cases "c < x")
    case True
    then have "rank (x # ids) c = 0" using Cons.prems by (intro rank_all_greater) auto
    with True show ?thesis by simp
  next
    case False
    then show ?thesis using Cons by (simp add: rank_def)
  qed
qed (simp add: rank_def)

lemma rank_nth: "sorted ids \<Longrightarrow> distinct ids \<Longrightarrow> j < length ids \<Longrightarrow> rank ids (ids ! j) = Suc j"
proof (induction ids arbitrary: j)
  case (Cons x ids)
  show ?case
  proof (cases j)
    case 0
    have "rank ids x = 0" using Cons.prems by (intro rank_all_greater) (auto simp: order_less_le)
    with 0 show ?thesis by (simp add: rank_def)
  next
    case (Suc k)
    then have "x \<le> ids ! k" "rank ids (ids ! k) = Suc k" using Cons by auto
    with Suc show ?thesis by (simp add: rank_def)
  qed
qed simp

lemma rank_le: "rank ids c \<le> length ids"
  by (simp add: rank_def)

definition start_of :: "int list \<Rightarrow> int option \<Rightarrow> nat" where
  "start_of ids cursor = (case cursor of None \<Rightarrow> 0 | Some c \<Rightarrow> rank ids c)"

text \<open>The app that round robin selects, over the sorted ids of the candidates.\<close>

lemma round_robin_next:
  assumes "cs \<noteq> []" "ids = sort (map cand_id cs)" "get_round_robin_cursor p \<in> insert None (Some ` set ids)"
  shows "pick_round_robin_candidate cs p
    = (let sel = ids ! (start_of ids (get_round_robin_cursor p) mod length ids)
       in (set_round_robin_cursor (Some sel) p, Some sel, get_round_robin_cursor p, Some sel))"
proof -
  obtain first others where s: "sort (map cand_id cs) = first # others"
    using assms(1) by (cases "sort (map cand_id cs)") (auto dest: arg_cong [where f = length])
  have ids: "ids = first # others" "sorted ids" using s assms(2) by (simp, metis sorted_sort)
  define sel where "sel = (case get_round_robin_cursor p of None \<Rightarrow> first
      | Some c \<Rightarrow> if c \<notin> set ids then (case pick_weight_candidate cs of Some i \<Rightarrow> i | None \<Rightarrow> first)
          else (case List.find (\<lambda>i. c < i) ids of Some i \<Rightarrow> i | None \<Rightarrow> first))"
  have pick: "pick_round_robin_candidate cs p
      = (set_round_robin_cursor (Some sel) p, Some sel, get_round_robin_cursor p, Some sel)"
    unfolding pick_round_robin_candidate_def s list.case Let_def sel_def ids(1) by simp
  have "sel = ids ! (start_of ids (get_round_robin_cursor p) mod length ids)"
  proof (cases "get_round_robin_cursor p")
    case None
    then show ?thesis by (simp add: sel_def start_of_def ids(1))
  next
    case (Some c)
    then have "c \<in> set ids" using assms(3) by auto
    then have "sel = (if rank ids c < length ids then ids ! rank ids c else first)"
      using Some find_after [OF ids(2), of c] by (simp add: sel_def)
    moreover have "rank ids c = length ids \<Longrightarrow> ids ! (rank ids c mod length ids) = first" by (simp add: ids(1))
    ultimately show ?thesis using Some rank_le [of ids c] by (auto simp: start_of_def order_le_less)
  qed
  with pick show ?thesis by (simp add: Let_def)
qed

section \<open>New accounts\<close>

text \<open>
  A login from its start to the new account: \<open>create_phone_login_session\<close> and
  \<open>create_login_session\<close> choose the app and keep it with the login, and the confirmed login creates
  the account. A newcomer is the user, the key of the account, the time and the login.
\<close>

type_synonym newcomer = "int \<times> string \<times> datetime \<times> login"

abbreviation newcomer_user :: "newcomer \<Rightarrow> int" where "newcomer_user x \<equiv> fst x"
abbreviation newcomer_key :: "newcomer \<Rightarrow> string" where "newcomer_key x \<equiv> fst (snd x)"
abbreviation newcomer_login :: "newcomer \<Rightarrow> login" where "newcomer_login x \<equiv> snd (snd (snd x))"

definition log_in :: "app_env \<Rightarrow> (int \<Rightarrow> bool) \<Rightarrow> newcomer \<Rightarrow> app_pool \<Rightarrow> app_pool \<times> (http_error + string)" where
  "log_in env gateway x p =
     (case choose_login_credentials_for_user env (newcomer_user x) None p of
        (p1, Inl e) \<Rightarrow> (p1, Inl e)
      | (p1, Inr c) \<Rightarrow>
          upsert_login_account ((newcomer_login x)\<lparr>lg_app := cr_app c\<rparr>) (newcomer_user x) gateway True
            (newcomer_key x) (fst (snd (snd x))) p1)"

fun logins :: "app_env \<Rightarrow> (int \<Rightarrow> bool) \<Rightarrow> newcomer list \<Rightarrow> app_pool \<Rightarrow> app_pool \<times> (http_error + string) list" where
  "logins env gateway [] p = (p, [])"
| "logins env gateway (x # xs) p =
     (let (p1, r) = log_in env gateway x p; (q, rs) = logins env gateway xs p1 in (q, r # rs))"

definition candidate_ids_of :: "app_pool \<Rightarrow> int list" where
  "candidate_ids_of p = sort (map cand_id (list_assignable_candidates None [] p))"

text \<open>
  A newcomer of these settings: a confirmed login of a Telegram account that no account has, with a
  key no account has, of a user without a preferred app.
\<close>

definition new_to :: "app_pool \<Rightarrow> newcomer \<Rightarrow> bool" where
  "new_to p x \<longleftrightarrow>
     (let l = newcomer_login x
      in lg_user l \<in> {None, Some (newcomer_user x)} \<and> lg_confirmed l \<and> \<not> str_true (lg_account l)
         \<and> str_true (lg_session l) \<and> 0 < int_or (lg_tg l) 0 \<and> strip (str_or (lg_target l) []) = []
         \<and> get_user_preferred_app_id (newcomer_user x) p = None
         \<and> list_all (\<lambda>a. a_id a \<noteq> newcomer_key x \<and> a_tg a \<noteq> lg_tg l) (holders p))"

text \<open>Working credentials, and room for \<open>n\<close> accounts more.\<close>

definition room_for :: "app_env \<Rightarrow> nat \<Rightarrow> app_pool \<Rightarrow> app \<Rightarrow> bool" where
  "room_for env n p r \<longleftrightarrow> (case unseal env (ap_hash r) of Inl _ \<Rightarrow> False | Inr _ \<Rightarrow> True)
     \<and> (ap_max r \<le> 0 \<or> account_usage None (ap_id r) p + int n \<le> ap_max r)"

definition turns :: "app_env \<Rightarrow> int list \<Rightarrow> newcomer list \<Rightarrow> app_pool \<Rightarrow> bool" where
  "turns env ids xs p \<longleftrightarrow> ids \<noteq> [] \<and> (xs \<noteq> [] \<longrightarrow> candidate_ids_of p = ids)
     \<and> snd (get_assignment_mode p) \<noteq> ''weight''
     \<and> get_round_robin_cursor p \<in> insert None (Some ` set ids)
     \<and> list_all (new_to p) xs \<and> distinct (map newcomer_key xs) \<and> distinct (map (\<lambda>x. lg_tg (newcomer_login x)) xs)
     \<and> list_all (\<lambda>r. ap_id r \<in> set ids \<longrightarrow> room_for env (length xs) p r) (apps p)"

lemma user_key_ne [simp]:
  "user_app_key u \<noteq> mode_key" "user_app_key u \<noteq> cursor_key" "user_app_key u \<noteq> alert_key" "user_app_key u \<noteq> default_app_key"
  by (simp_all add: user_app_key_def)

lemma ensure_core_get:
  "get_setting k (ensure_core_settings p) = (case get_setting k p of Some v \<Rightarrow> Some v
     | None \<Rightarrow> if k = mode_key then Some ''round_robin''
         else if k \<in> {default_app_key, cursor_key, alert_key} then Some [] else None)"
  by (auto simp: ensure_core_settings_def ensure_setting_def split: option.split)

lemma after_mode:
  assumes "get_assignment_mode p = (p1, mode)"
  shows "get_round_robin_cursor p1 = get_round_robin_cursor p"
    "get_user_preferred_app_id u p1 = get_user_preferred_app_id u p"
    "snd (get_assignment_mode p1) = mode" "apps p1 = apps p" "holders p1 = holders p"
proof -
  have rows: "apps p1 = apps p" "holders p1 = holders p" using mode_keeps [of p] assms by simp_all
  then show "apps p1 = apps p" "holders p1 = holders p" by simp_all
  have app: "get_app i p1 = get_app i p" for i using rows by (simp add: get_app_def)
  consider (none) "get_setting mode_key p = None" "p1 = ensure_core_settings p" "mode = ''round_robin''"
    | (some) v where "get_setting mode_key p = Some v" "p1 = p"
    using assms by (auto simp: get_assignment_mode_def split: option.splits)
  then have "get_round_robin_cursor p1 = get_round_robin_cursor p
    \<and> get_user_preferred_app_id u p1 = get_user_preferred_app_id u p \<and> snd (get_assignment_mode p1) = mode"
  proof cases
    case none
    have "get_setting (user_app_key u) p1 = get_setting (user_app_key u) p"
      using none by (simp add: ensure_core_get split: option.split)
    then have "get_user_preferred_app_id u p1 = get_user_preferred_app_id u p"
      unfolding get_user_preferred_app_id_def app by simp
    moreover have "get_round_robin_cursor p1 = get_round_robin_cursor p"
      using none by (simp add: get_round_robin_cursor_def ensure_core_get strip_def split: option.split)
    moreover have "normalize_assignment_mode (Some ''round_robin'') = ''round_robin''" by code_simp
    then have "snd (get_assignment_mode p1) = mode"
      using none by (simp add: get_assignment_mode_def ensure_core_get)
    ultimately show ?thesis by simp
  next
    case some
    then show ?thesis using assms by simp
  qed
  then show "get_round_robin_cursor p1 = get_round_robin_cursor p"
    "get_user_preferred_app_id u p1 = get_user_preferred_app_id u p"
    "snd (get_assignment_mode p1) = mode" by simp_all
qed

lemma after_cursor:
  "get_user_preferred_app_id u (set_round_robin_cursor i p) = get_user_preferred_app_id u p"
  "snd (get_assignment_mode (set_round_robin_cursor i p)) = snd (get_assignment_mode p)"
  by (simp_all add: get_user_preferred_app_id_def set_round_robin_cursor_def get_assignment_mode_def get_app_def
      split: option.split)

lemma with_holders:
  "get_round_robin_cursor (p\<lparr>holders := h\<rparr>) = get_round_robin_cursor p"
  "snd (get_assignment_mode (p\<lparr>holders := h\<rparr>)) = snd (get_assignment_mode p)"
  "get_user_preferred_app_id u (p\<lparr>holders := h\<rparr>) = get_user_preferred_app_id u p"
  by (simp_all add: get_round_robin_cursor_def get_assignment_mode_def get_user_preferred_app_id_def
      get_setting_def get_app_def split: option.split)

lemma distinct_map_sorted: "distinct (map f xs) \<Longrightarrow> distinct (map f (filter P (sort_key f (filter Q xs))))"
  by (auto simp: distinct_map intro: inj_on_subset)

lemma candidate_ids_distinct:
  assumes "pool_ok p"
  shows "sorted (candidate_ids_of p)" "distinct (candidate_ids_of p)"
proof -
  have "map cand_id (list_assignable_candidates None [] p)
      = map ap_id (filter (\<lambda>r. ap_id r \<notin> set [] \<and> is_row_healthy r
          \<and> \<not> (0 < ap_max r \<and> ap_max r \<le> account_usage None (ap_id r) p)) (sort_key ap_id (filter ap_active (apps p))))"
    by (simp add: list_assignable_candidates_def)
  then show "distinct (candidate_ids_of p)"
    using distinct_map_sorted [OF pool_ok_ids [OF assms]] by (simp add: candidate_ids_of_def)
qed (simp add: candidate_ids_of_def)

lemma candidate_of:
  assumes "pool_ok p"
  shows "i \<in> set (candidate_ids_of p) \<longleftrightarrow> is_capacity_available i None p"
  using cand_ids [OF pool_ok_ids [OF assms], of i None "[]"] by (simp add: candidate_ids_of_def assignable_def)

text \<open>The start of a login: the next candidate, and the cursor on it.\<close>

lemma login_choice:
  assumes ok: "pool_ok p" and t: "turns env ids (x # xs) p"
    and sel: "sel = ids ! (start_of ids (get_round_robin_cursor p) mod length ids)"
  obtains q c where "choose_login_credentials_for_user env (newcomer_user x) None p = (q, Inr c)"
    "cr_app c = Some sel" "apps q = apps p" "holders q = holders p" "get_round_robin_cursor q = Some sel"
    "snd (get_assignment_mode q) \<noteq> ''weight''"
    "\<And>u. get_user_preferred_app_id u q = get_user_preferred_app_id u p" "sel \<in> set ids"
proof -
  let ?u = "newcomer_user x"
  have c: "candidate_ids_of p = ids" "ids \<noteq> []" using t by (simp_all add: turns_def)
  obtain p1 mode where m: "get_assignment_mode p = (p1, mode)" by fastforce
  note a = after_mode [OF m]
  let ?cs = "list_assignable_candidates None [] p1"
  have cs: "list_assignable_candidates None [] p1 = list_assignable_candidates None [] p"
    by (rule rows_cong(4) [OF a(4,5)])
  have ids: "ids = sort (map cand_id ?cs)" using c(1) by (simp add: candidate_ids_of_def cs)
  have ne: "?cs \<noteq> []" using c(2) ids by auto
  let ?q = "set_round_robin_cursor (Some sel) p1"
  have pick: "pick_round_robin_candidate ?cs p1 = (?q, Some sel, get_round_robin_cursor p1, Some sel)"
    using round_robin_next [OF ne ids, of p1] t sel by (simp add: turns_def a(1) Let_def)
  have none: "candidate_available None [] None p1 = None" by (simp add: candidate_available_def)
  have pref: "get_user_preferred_app_id ?u p1 = None" using t by (simp add: turns_def a(2) new_to_def Let_def)
  have mode: "mode \<noteq> ''weight''" using t m by (simp add: turns_def)
  have choose: "choose_app ?u None None [] p = (?q, Inr (Some sel))"
    unfolding choose_app_def m prod.case Let_def pref none using ne mode by (simp add: pick)
  have rows: "apps ?q = apps p" "holders ?q = holders p" using a by simp_all
  have "sel \<in> set ids" unfolding sel using c(2) by (intro nth_mem mod_less_divisor) simp
  then have "is_capacity_available sel None p" using candidate_of [OF ok] c(1) by simp
  then obtain r where r: "get_app sel p = Some r" "is_row_healthy r" by (auto simp: is_capacity_available_iff)
  have in_row: "r \<in> set (apps p)" "ap_id r = sel" using r(1) get_app_row [OF pool_ok_ids [OF ok]] by auto
  then have "room_for env (length (x # xs)) p r"
    using t \<open>sel \<in> set ids\<close> by (auto simp: turns_def list_all_iff)
  then obtain h where h: "unseal env (ap_hash r) = Inr h" by (auto simp: room_for_def split: sum.splits)
  have "get_app sel ?q = Some r" using r(1) rows_cong(1) [OF rows] by simp
  moreover have "int_true (Some sel)"
    using pool_ok_row [OF ok r(1)] in_row by (auto simp: app_ok_def int_true_def)
  ultimately obtain cr where "resolve_credentials env (Some sel) (Some ?u) ?q = (?q, Inr cr)" "cr_app cr = Some sel"
    using r(2) h in_row(2) by (simp add: resolve_credentials_def is_row_healthy_def)
  then have "choose_login_credentials_for_user env ?u None p = (?q, Inr cr)" "cr_app cr = Some sel"
    by (simp_all add: choose_login_credentials_for_user_def resolve_is_choose [OF pool_ok_ids [OF ok]] choose committed_def)
  moreover have "get_round_robin_cursor ?q = Some sel" by simp
  moreover have "snd (get_assignment_mode ?q) \<noteq> ''weight''" using a(3) mode by (simp add: after_cursor)
  moreover have "get_user_preferred_app_id u ?q = get_user_preferred_app_id u p" for u by (simp add: after_cursor a(2))
  ultimately show thesis using that rows \<open>sel \<in> set ids\<close> by blast
qed

text \<open>The end of the login: the account is created on the app that was chosen, and the cursor stays.\<close>

lemma login_lands:
  assumes ok: "pool_ok p" and n: "new_to p x" and sel: "is_capacity_available sel None p"
  obtains q v where "upsert_login_account ((newcomer_login x)\<lparr>lg_app := Some sel\<rparr>) (newcomer_user x) gateway True
        (newcomer_key x) now p = (q, Inr (newcomer_key x))"
    "apps q = apps p"
    "holders q = holders p @ [login_account_row ((newcomer_login x)\<lparr>lg_app := Some sel\<rparr>) (newcomer_user x)
        (int_or (lg_tg (newcomer_login x)) 0) (newcomer_key x) (Some sel) v now]"
    "get_round_robin_cursor q = get_round_robin_cursor p"
    "snd (get_assignment_mode q) = snd (get_assignment_mode p)"
    "\<And>u. get_user_preferred_app_id u q = get_user_preferred_app_id u p"
proof -
  let ?l = "(newcomer_login x)\<lparr>lg_app := Some sel\<rparr>" and ?u = "newcomer_user x" and ?aid = "newcomer_key x"
  let ?tg = "int_or (lg_tg (newcomer_login x)) 0"
  obtain p1 mode where m: "get_assignment_mode p = (p1, mode)" by fastforce
  note a = after_mode [OF m]
  have "candidate_available None [] (Some sel) p1 = Some sel"
    using sel rows_cong(3) [OF a(4,5)] by (simp add: candidate_available_iff assignable_def)
  then have "choose_app ?u (Some sel) None [] p = (p1, Inr (Some sel))"
    unfolding choose_app_def m by simp
  then have resolve: "resolve_assignable_app_id ?u (Some sel) None [] NewAccount None p = (p1, Inr (Some sel))"
    by (simp add: resolve_assignable_app_id_def resolve_is_choose [OF pool_ok_ids [OF ok]] committed_def)
  have tg: "lg_tg (newcomer_login x) = Some ?tg" using n by (auto simp: new_to_def Let_def int_or_def split: option.splits if_splits)
  have no_tg: "a_tg b \<noteq> Some ?tg" "a_id b \<noteq> ?aid" if "b \<in> set (holders p)" for b
    using n that tg by (auto simp: new_to_def Let_def list_all_iff)
  have checks: "login_checks ?l ?u p = Inr (Inr (?tg, None))"
    using n by (auto simp: new_to_def Let_def login_checks_def login_target_def)
  have known: "known_account ?u ?tg None p = None"
    using no_tg by (auto simp: known_account_def find_row_None)
  have none: "get_holder ?aid p1 = None" "\<not> list_ex (\<lambda>b. a_tg b = Some ?tg \<and> a_user b \<noteq> ?u) (holders p1)"
    using no_tg by (auto simp: get_holder_def find_row_None list_ex_iff a(5))
  let ?q = "p1\<lparr>holders := holders p1 @ [login_account_row ?l ?u ?tg ?aid (Some sel) (version_in (Some sel) p1) now]\<rparr>"
  have "upsert_login_account ?l ?u gateway True ?aid now p = (?q, Inr ?aid)"
    using none by (simp add: upsert_login_account_def checks known attach_login_def resolve)
  moreover have "get_round_robin_cursor ?q = get_round_robin_cursor p" by (simp add: a(1) with_holders)
  moreover have "snd (get_assignment_mode ?q) = snd (get_assignment_mode p)" by (simp add: a(3) m with_holders)
  moreover have "get_user_preferred_app_id u ?q = get_user_preferred_app_id u p" for u
    by (simp add: a(2) with_holders)
  ultimately show thesis using that [of ?q "version_in (Some sel) p1"] a(4,5) by simp
qed

text \<open>While there is room for more, the new account does not change the candidates.\<close>

lemma candidates_after:
  assumes "apps q = apps p" "holders q = holders p @ [a]" "xs \<noteq> []"
    and room: "\<And>r. r \<in> set (apps p) \<Longrightarrow> ap_id r \<in> set (candidate_ids_of p) \<Longrightarrow> room_for env (Suc (length xs)) p r"
    and "pool_ok p"
  shows "candidate_ids_of q = candidate_ids_of p"
proof -
  have u: "account_usage None i p \<le> account_usage None i q" "account_usage None i q \<le> account_usage None i p + 1" for i
    using assms(2) by (simp_all add: account_usage_def)
  have n: "1 \<le> int (length xs)" using assms(3) by (cases xs) simp_all
  let ?free = "\<lambda>p r. ap_id r \<notin> set [] \<and> is_row_healthy r \<and> \<not> (0 < ap_max r \<and> ap_max r \<le> account_usage None (ap_id r) p)"
  have "?free q r = ?free p r" if r: "r \<in> set (apps p)" for r
  proof (cases "?free p r")
    case True
    then have "is_capacity_available (ap_id r) None p"
      using r get_app_row [OF pool_ok_ids [OF assms(5)], of "ap_id r" r] by (auto simp: is_capacity_available_iff)
    then have "room_for env (Suc (length xs)) p r" using room [OF r] candidate_of [OF assms(5)] by simp
    then have "0 < ap_max r \<Longrightarrow> account_usage None (ap_id r) p + (1 + int (length xs)) \<le> ap_max r"
      by (simp add: room_for_def)
    then show ?thesis using True n u(2) [of "ap_id r"] by auto
  next
    case False
    then show ?thesis using u(1) [of "ap_id r"] by auto
  qed
  then have "filter (?free q) (sort_key ap_id (filter ap_active (apps p)))
      = filter (?free p) (sort_key ap_id (filter ap_active (apps p)))"
    by (intro filter_cong) simp_all
  then show ?thesis unfolding candidate_ids_of_def list_assignable_candidates_def assms(1) by (simp add: comp_def)
qed

lemma new_to_after:
  assumes "new_to p y" "holders q = holders p @ [a]"
    "get_user_preferred_app_id (newcomer_user y) q = get_user_preferred_app_id (newcomer_user y) p"
    "newcomer_key y \<noteq> a_id a" "lg_tg (newcomer_login y) \<noteq> a_tg a"
  shows "new_to q y"
  using assms by (auto simp: new_to_def Let_def)

text \<open>One login: the account on the next candidate, and the turns of the others.\<close>

lemma one_turn:
  assumes ok: "pool_ok p" and t: "turns env ids (x # xs) p"
    and sel: "sel = ids ! (start_of ids (get_round_robin_cursor p) mod length ids)"
  obtains q a where "log_in env gateway x p = (q, Inr (newcomer_key x))" "pool_ok q" "turns env ids xs q"
    "holders q = holders p @ [a]" "a_id a = newcomer_key x" "a_user a = newcomer_user x"
    "a_tg a = lg_tg (newcomer_login x)" "aa_app a = Some sel" "get_round_robin_cursor q = Some sel"
proof -
  obtain p1 c where c: "choose_login_credentials_for_user env (newcomer_user x) None p = (p1, Inr c)"
    "cr_app c = Some sel" and rows: "apps p1 = apps p" "holders p1 = holders p"
    and cur: "get_round_robin_cursor p1 = Some sel" and mode: "snd (get_assignment_mode p1) \<noteq> ''weight''"
    and pref: "\<And>u. get_user_preferred_app_id u p1 = get_user_preferred_app_id u p" and mem: "sel \<in> set ids"
    using login_choice [OF ok t sel] by blast
  have ok1: "pool_ok p1" using ok pool_ok_cong [OF rows] by simp
  have ids: "candidate_ids_of p = ids" using t by (simp add: turns_def)
  have new: "new_to p1 y \<longleftrightarrow> new_to p y" for y by (simp add: new_to_def Let_def pref rows)
  have free: "is_capacity_available sel None p1"
    using candidate_of [OF ok] mem ids rows_cong(3) [OF rows] by simp
  have "new_to p1 x" using t new by (simp add: turns_def)
  from login_lands [OF ok1 this free, of gateway "fst (snd (snd x))"]
  obtain q v where up: "upsert_login_account ((newcomer_login x)\<lparr>lg_app := Some sel\<rparr>) (newcomer_user x) gateway True
        (newcomer_key x) (fst (snd (snd x))) p1 = (q, Inr (newcomer_key x))"
    and q: "apps q = apps p1"
    "holders q = holders p1 @ [login_account_row ((newcomer_login x)\<lparr>lg_app := Some sel\<rparr>) (newcomer_user x)
        (int_or (lg_tg (newcomer_login x)) 0) (newcomer_key x) (Some sel) v (fst (snd (snd x)))]" (is "_ = _ @ [?a]")
    "get_round_robin_cursor q = get_round_robin_cursor p1"
    "snd (get_assignment_mode q) = snd (get_assignment_mode p1)"
    "\<And>u. get_user_preferred_app_id u q = get_user_preferred_app_id u p1"
    by blast
  have tg: "lg_tg (newcomer_login x) = Some (int_or (lg_tg (newcomer_login x)) 0)"
    using \<open>new_to p1 x\<close> by (auto simp: new_to_def Let_def int_or_def split: option.splits if_splits)
  have "log_in env gateway x p = (q, Inr (newcomer_key x))" by (simp add: log_in_def c up)
  moreover have "pool_ok q" using upsert_ok [OF ok1] up by (metis fst_conv)
  moreover have "turns env ids xs q"
  proof -
    have "xs \<noteq> [] \<longrightarrow> candidate_ids_of q = ids"
    proof
      assume "xs \<noteq> []"
      have "candidate_ids_of q = candidate_ids_of p"
        by (rule candidates_after [where a = ?a and env = env, OF _ _ \<open>xs \<noteq> []\<close> _ ok])
          (use t q(1,2) rows ids in \<open>auto simp: turns_def list_all_iff\<close>)
      then show "candidate_ids_of q = ids" using ids by simp
    qed
    moreover have "list_all (new_to q) xs"
      unfolding list_all_iff
    proof
      fix y assume y: "y \<in> set xs"
      show "new_to q y"
        by (rule new_to_after [where a = ?a and p = p1])
          (use t y new q(2,5) tg in \<open>auto simp: turns_def list_all_iff image_iff\<close>)
    qed
    moreover have "ap_id r \<in> set ids \<longrightarrow> room_for env (length xs) q r" if r: "r \<in> set (apps q)" for r
    proof
      assume "ap_id r \<in> set ids"
      then have "room_for env (Suc (length xs)) p r" using t r q(1) rows by (auto simp: turns_def list_all_iff)
      then show "room_for env (length xs) q r" using q(2) rows by (auto simp: room_for_def account_usage_def)
    qed
    ultimately show ?thesis using t mode cur mem q(3,4) by (simp add: turns_def list_all_iff)
  qed
  ultimately show thesis using that [of q ?a] q(2,3) rows cur tg by simp
qed

text \<open>The accounts of the newcomers, the candidates counted from \<open>s\<close>.\<close>

abbreviation in_turn :: "int list \<Rightarrow> nat \<times> newcomer \<Rightarrow> string \<times> int \<times> int option \<times> int option" where
  "in_turn ids e \<equiv> (newcomer_key (snd e), newcomer_user (snd e), lg_tg (newcomer_login (snd e)),
     Some (ids ! (fst e mod length ids)))"

abbreviation account_entry :: "holder \<Rightarrow> string \<times> int \<times> int option \<times> int option" where
  "account_entry a \<equiv> (a_id a, a_user a, a_tg a, aa_app a)"

lemma logins_in_turn:
  assumes "pool_ok p" "turns env ids xs p" "sorted ids" "distinct ids"
    "s mod length ids = start_of ids (get_round_robin_cursor p) mod length ids"
  shows "snd (logins env gateway xs p) = map (\<lambda>x. Inr (newcomer_key x)) xs
    \<and> map account_entry (holders (fst (logins env gateway xs p)))
        = map account_entry (holders p) @ map (in_turn ids) (enumerate s xs)"
  using assms
proof (induction xs arbitrary: p s)
  case (Cons x xs)
  let ?sel = "ids ! (start_of ids (get_round_robin_cursor p) mod length ids)"
  obtain q a where q: "log_in env gateway x p = (q, Inr (newcomer_key x))" "pool_ok q" "turns env ids xs q"
    "holders q = holders p @ [a]" "a_id a = newcomer_key x" "a_user a = newcomer_user x"
    "a_tg a = lg_tg (newcomer_login x)" "aa_app a = Some ?sel" "get_round_robin_cursor q = Some ?sel"
    using one_turn [OF Cons.prems(1,2) refl, of gateway] by blast
  have n: "0 < length ids" using Cons.prems(2) by (simp add: turns_def)
  have "rank ids ?sel = Suc (start_of ids (get_round_robin_cursor p) mod length ids)"
    using Cons.prems(3,4) n by (intro rank_nth) simp_all
  then have "Suc s mod length ids = start_of ids (get_round_robin_cursor q) mod length ids"
    using Cons.prems(5) q(9) by (metis start_of_def option.simps(5) mod_Suc_eq)
  note Cons.IH [OF q(2,3) Cons.prems(3,4) this]
  then show ?case using q(1,4-8) Cons.prems(5) by (simp add: case_prod_beta Let_def)
qed simp

section \<open>The health status\<close>

text \<open>The reference: unhealthy after two failed probes in a row, healthy otherwise.\<close>

definition two_failures :: "string list \<Rightarrow> bool" where
  "two_failures rs = (case rev rs of a # b # _ \<Rightarrow> a = unhealthy \<and> b = unhealthy | _ \<Rightarrow> False)"

type_synonym probe_run = "(string \<times> string option \<times> int option) \<times> bool \<times> datetime"

definition probed :: "probe_run list \<Rightarrow> app \<Rightarrow> app" where
  "probed ps r = fold (\<lambda>(result, manual, now) r. fst (apply_probe result manual now r)) ps r"

definition failures :: "string list \<Rightarrow> nat" where
  "failures rs = length (takeWhile (\<lambda>s. s = unhealthy) (rev rs))"

lemma two_failures_iff: "two_failures rs \<longleftrightarrow> 2 \<le> failures rs"
  by (auto simp: two_failures_def failures_def split: list.split)

lemma probe_step:
  assumes "status \<in> {healthy, unhealthy}" "ap_fails r = int n"
    "ap_health r = (if 2 \<le> n then unhealthy else healthy)"
  shows "ap_fails (fst (apply_probe (status, e, ms) manual now r)) = (if status = unhealthy then int n + 1 else 0)
    \<and> ap_health (fst (apply_probe (status, e, ms) manual now r))
        = (if status = unhealthy \<and> 1 \<le> n then unhealthy else healthy)"
  using assms by (auto simp: apply_probe_def next_fail_count_def resolve_health_transition_def health_of_def Let_def)

lemma probed_health:
  assumes "ap_health r = healthy" "ap_fails r = 0" "list_all (\<lambda>x. fst (fst x) \<in> {healthy, unhealthy}) ps"
  shows "ap_fails (probed ps r) = int (failures (map (\<lambda>x. fst (fst x)) ps))
    \<and> ap_health (probed ps r) = (if two_failures (map (\<lambda>x. fst (fst x)) ps) then unhealthy else healthy)"
  using assms(3)
proof (induction ps rule: rev_induct)
  case Nil
  then show ?case using assms by (simp add: probed_def failures_def two_failures_def)
next
  case (snoc x ps)
  obtain status e ms manual now where x: "x = ((status, e, ms), manual, now)" by (cases x) auto
  let ?n = "failures (map (\<lambda>x. fst (fst x)) ps)"
  have ih: "ap_fails (probed ps r) = int ?n" "ap_health (probed ps r) = (if 2 \<le> ?n then unhealthy else healthy)"
    using snoc by (simp_all add: two_failures_iff)
  have f: "failures (map (\<lambda>x. fst (fst x)) (ps @ [x])) = (if status = unhealthy then Suc ?n else 0)"
    by (simp add: failures_def x)
  have "probed (ps @ [x]) r = fst (apply_probe (status, e, ms) manual now (probed ps r))"
    by (simp add: probed_def x)
  then show ?case
    using probe_step [OF _ ih, of status e ms manual now] snoc.prems f
    by (auto simp: two_failures_iff x)
qed

end
