(* ===== verification/AppProps.thy ===== *)
theory AppProps
  imports AppFair
begin

text \<open>
  The properties of the pool of developer apps: what an assignment chooses, that it respects the
  capacities, what a migration does, the turns of round robin, and the health of an app.
\<close>

section \<open>A sample pool\<close>

definition sample_unseal :: "string \<Rightarrow> string + string" where
  "sample_unseal s = (case s of [] \<Rightarrow> Inl ''empty'' | c # cs \<Rightarrow> if c = CHR ''*'' then Inr cs else Inl ''bad'')"

definition sample_env :: app_env where
  "sample_env = \<lparr>env_api = 11, env_hash = ''h1'', seal = (\<lambda>s. CHR ''*'' # s), unseal = sample_unseal,
     get_config = (\<lambda>api h. if api = 11 then Some ''ConnectionError: down'' else None), probe_ms = (\<lambda>_. 20)\<rparr>"

definition sample_login :: "int \<Rightarrow> login" where
  "sample_login tg = \<lparr>lg_user = None, lg_confirmed = True, lg_account = None, lg_session = Some ''s'',
     lg_tg = Some tg, lg_username = Some ''u'', lg_phone = None, lg_app = Some 1, lg_target = None\<rparr>"

definition two_apps :: app_pool where
  "two_apps = fst (create_app sample_env ''two'' 12 ''h2'' True 1 100 None
     (fst (create_app sample_env ''one'' 11 ''h1'' True 0 100 None empty_pool)))"

definition crowded_pool :: app_pool where
  "crowded_pool = fst (upsert_login_account (sample_login 800) 8 (\<lambda>_. False) True ''b'' 2
     (fst (upsert_login_account (sample_login 700) 7 (\<lambda>_. False) True ''a'' 1 two_apps)))"

lemma reached_step: "pool_reached env p \<Longrightarrow> pool_step env p q \<Longrightarrow> pool_reached env q"
  unfolding pool_reached_def by (rule rtranclp.rtrancl_into_rtrancl)

lemma two_apps_reached: "pool_reached sample_env two_apps"
  unfolding two_apps_def
  by (intro reached_step [OF _ pool_step.create] reached_step [OF _ pool_step.create])
    (simp add: pool_reached_def)

lemma crowded_reached: "pool_reached sample_env crowded_pool"
  unfolding crowded_pool_def
  by (intro reached_step [OF _ pool_step.upsert] two_apps_reached)

section \<open>Assignment\<close>

text \<open>
  C18: In every reachable pool the choice of an app is \<open>choose_app\<close>: the fallbacks to the app of
  the account and to the default app never decide. It returns an app that is not excluded, healthy
  and below its capacity; nothing only if no app is active; and the error only if some app is
  active but none can take the account.
\<close>

theorem assignment_is_decided:
  assumes "pool_reached env p"
  shows "resolve_in_session uid preferred ex dis ctx existing p = choose_app uid preferred ex dis p
    \<and> (case snd (resolve_in_session uid preferred ex dis ctx existing p) of
         Inr (Some i) \<Rightarrow> i \<notin> set dis \<and> is_capacity_available i ex p
       | Inr None \<Rightarrow> \<not> list_ex ap_active (apps p)
       | Inl e \<Rightarrow> e = Http 409 ''<no healthy app with capacity>'' \<and> list_ex ap_active (apps p)
           \<and> (\<forall>i. i \<in> set dis \<or> \<not> is_capacity_available i ex p))"
proof -
  have d: "distinct (map ap_id (apps p))" by (rule pool_ok_ids [OF pool_reached_ok [OF assms]])
  show ?thesis
    using resolve_is_choose [OF d, of uid preferred ex dis ctx existing] choose_app_outcome [OF d, where uid = uid and preferred = preferred and ex = ex and dis = dis]
    by (auto simp: assignable_def split: sum.splits option.splits)
qed

theorem assignment_is_decided_witness:
  "pool_reached sample_env crowded_pool
   \<and> resolve_in_session 9 (Some 1) None [] ExistingReassign (Some 1) crowded_pool
      = choose_app 9 (Some 1) None [] crowded_pool"
  using assignment_is_decided [OF crowded_reached, of 9 "Some 1" None "[]" ExistingReassign "Some 1"] crowded_reached by blast

text \<open>
  C40: No session, from any reachable pool, gives an app more accounts unless the app is active and
  healthy afterwards and holds no more accounts than its capacity (0 is no limit).
\<close>

theorem capacity_is_respected:
  assumes "pool_reached env p" "pool_step env p q" "account_usage None i p < account_usage None i q"
  shows "\<exists>r. get_app i q = Some r \<and> ap_active r \<and> ap_health r = ''healthy''
    \<and> (ap_max r \<le> 0 \<or> account_usage None i q \<le> ap_max r)"
proof -
  have "no_overload p q" using pool_step_ok [OF assms(2) pool_reached_ok [OF assms(1)]] by simp
  then have "within i q" using assms(3) unfolding no_overload_def by (metis not_le)
  then show ?thesis by (auto simp: within_def is_row_healthy_def)
qed

theorem capacity_is_respected_witness:
  "\<exists>r. get_app 1 (fst (upsert_login_account (sample_login 700) 7 (\<lambda>_. False) True ''a'' 1 two_apps)) = Some r
     \<and> ap_active r \<and> ap_health r = ''healthy'' \<and> (ap_max r \<le> 0
       \<or> account_usage None 1 (fst (upsert_login_account (sample_login 700) 7 (\<lambda>_. False) True ''a'' 1 two_apps)) \<le> ap_max r)"
proof -
  have "account_usage None 1 two_apps
      < account_usage None 1 (fst (upsert_login_account (sample_login 700) 7 (\<lambda>_. False) True ''a'' 1 two_apps))"
    by code_simp
  from capacity_is_respected [OF two_apps_reached pool_step.upsert this] show ?thesis .
qed

section \<open>Migration\<close>

text \<open>
  C19: A migration of a failing app in a reachable pool divides its accounts: each is moved, once,
  to another healthy app and takes over that app's credential version, or is stalled with the
  reason on record; no other account changes and no app changes. An account is stalled only if
  at the end no other app can take an account.
\<close>

theorem migration_moves_or_stalls:
  assumes "pool_reached env p" "migrate_accounts_from_unhealthy_app i now p = (q, moved, stalled)"
  shows "mset (moved @ stalled) = mset (map a_id (accounts_of_app i p))
    \<and> list_all (moved_well i q) moved \<and> list_all (stalled_well i q) stalled
    \<and> list_all (\<lambda>a. aa_app a = Some i \<or> get_holder (a_id a) q = Some a) (holders p)
    \<and> apps q = apps p
    \<and> (stalled = [] \<or> list_all (\<lambda>r. ap_id r = i \<or> \<not> is_capacity_available (ap_id r) None q) (apps q))"
proof -
  have ok: "pool_ok p" by (rule pool_reached_ok [OF assms(1)])
  have m: "migrates i now p (accounts_of_app i p) q moved stalled" by (rule migration [OF ok assms(2)])
  have on: "on_app i p (accounts_of_app i p)" by (rule accounts_of_app_on [OF ok])
  have "aa_app a = Some i \<or> get_holder (a_id a) q = Some a" if a: "a \<in> set (holders p)" for a
  proof (cases "aa_app a = Some i")
    case False
    have g: "get_holder (a_id a) p = Some a"
      using find_row_key [OF pool_ok_holders [OF ok] a] by (simp add: get_holder_def)
    then have "a_id a \<notin> a_id ` set (accounts_of_app i p)"
      using on False by (auto simp: on_app_def)
    then show ?thesis using migrates_others [OF m] g by simp
  qed simp
  then show ?thesis
    using migrates_partition [OF m] migrates_accounts [OF m ok on] migrates_keep [OF m ok]
      migrates_full [OF m ok on] by (auto simp: list_all_iff)
qed

theorem migration_moves_or_stalls_witness:
  "case migrate_accounts_from_unhealthy_app 1 9 crowded_pool of (q, moved, stalled) \<Rightarrow>
     moved = [''b''] \<and> stalled = [''a''] \<and> list_all (moved_well 1 q) moved \<and> list_all (stalled_well 1 q) stalled"
proof -
  obtain q moved stalled where m: "migrate_accounts_from_unhealthy_app 1 9 crowded_pool = (q, moved, stalled)"
    by (metis prod_cases3)
  have "snd (migrate_accounts_from_unhealthy_app 1 9 crowded_pool) = ([''b''], [''a''])" by code_simp
  with migration_moves_or_stalls [OF crowded_reached m] m show ?thesis by simp
qed

section \<open>Turns\<close>

text \<open>
  C20: In round-robin mode, from a reachable pool, a sequence of logins of new accounts succeeds and
  creates the accounts on the candidates in turn: the k-th one on the candidate k places after the one
  that was chosen last, around the sorted list. The cursor is empty or on a candidate at the start,
  the users have no preferred app, the Telegram accounts and the keys are new, the account limits admit
  them, and every candidate has working credentials and room for as many accounts as there are logins.
\<close>

theorem round_robin_serves_in_turn:
  assumes "pool_reached env p" "ids = candidate_ids_of p" "ids \<noteq> []"
    "snd (get_assignment_mode p) \<noteq> ''weight''"
    "get_round_robin_cursor p \<in> insert None (Some ` set ids)"
    "list_all (new_to p) xs" "distinct (map newcomer_key xs)" "distinct (map (\<lambda>x. lg_tg (newcomer_login x)) xs)"
    "list_all (\<lambda>r. ap_id r \<in> set ids \<longrightarrow> room_for env (length xs) p r) (apps p)"
  shows "snd (logins env gateway xs p) = map (\<lambda>x. Inr (newcomer_key x)) xs
    \<and> map (\<lambda>a. (a_id a, a_user a, a_tg a, aa_app a)) (holders (fst (logins env gateway xs p)))
      = map (\<lambda>a. (a_id a, a_user a, a_tg a, aa_app a)) (holders p)
        @ map (\<lambda>(k, x). (newcomer_key x, newcomer_user x, lg_tg (newcomer_login x), Some (ids ! (k mod length ids))))
            (enumerate (start_of ids (get_round_robin_cursor p)) xs)"
proof -
  have ok: "pool_ok p" by (rule pool_reached_ok [OF assms(1)])
  have t: "turns env ids xs p" using assms by (simp add: turns_def)
  have "sorted ids" "distinct ids" using candidate_ids_distinct [OF ok] assms(2) by simp_all
  from logins_in_turn [OF ok t this refl, of gateway] show ?thesis by (simp add: case_prod_beta')
qed

definition wide_apps :: app_pool where
  "wide_apps = fst (create_app sample_env ''two'' 12 ''h2'' True 5 100 None
     (fst (create_app sample_env ''one'' 11 ''h1'' True 3 100 None empty_pool)))"

lemma wide_apps_reached: "pool_reached sample_env wide_apps"
  unfolding wide_apps_def
  by (intro reached_step [OF _ pool_step.create] reached_step [OF _ pool_step.create])
    (simp add: pool_reached_def)

definition newcomers :: "newcomer list" where
  "newcomers = [(5, ''a'', 1, sample_login 700), (6, ''b'', 2, sample_login 800), (5, ''c'', 3, sample_login 900)]"

theorem round_robin_serves_in_turn_witness:
  "map aa_app (holders (fst (logins sample_env (\<lambda>_. False) newcomers wide_apps))) = [Some 1, Some 2, Some 1]"
proof -
  let ?q = "fst (logins sample_env (\<lambda>_. False) newcomers wide_apps)"
  have h: "candidate_ids_of wide_apps = [1, 2]" "snd (get_assignment_mode wide_apps) \<noteq> ''weight''"
    "get_round_robin_cursor wide_apps = None" "list_all (new_to wide_apps) newcomers" "holders wide_apps = []"
    "list_all (\<lambda>r. ap_id r \<in> set [1, 2] \<longrightarrow> room_for sample_env (length newcomers) wide_apps r) (apps wide_apps)"
    "distinct (map newcomer_key newcomers)" "distinct (map (\<lambda>x. lg_tg (newcomer_login x)) newcomers)"
    by code_simp+
  have "map (\<lambda>a. (a_id a, a_user a, a_tg a, aa_app a)) (holders ?q)
      = map (\<lambda>(k, x). (newcomer_key x, newcomer_user x, lg_tg (newcomer_login x), Some ([1, 2] ! (k mod length [1 :: int, 2]))))
          (enumerate (start_of [1, 2] None) newcomers)"
    using round_robin_serves_in_turn [OF wide_apps_reached h(1) [symmetric] _ h(2) _ h(4,7,8,6), of "\<lambda>_. False"] h(3,5)
    by (simp del: logins.simps)
  also have "\<dots> = [(''a'', 5, Some 700, Some 1), (''b'', 6, Some 800, Some 2), (''c'', 5, Some 900, Some 1)]"
    by (simp add: newcomers_def start_of_def sample_login_def)
  finally have "map (\<lambda>(_, _, _, i). i) (map (\<lambda>a. (a_id a, a_user a, a_tg a, aa_app a)) (holders ?q)) = [Some 1, Some 2, Some 1]"
    by simp
  then show ?thesis by (simp add: comp_def)
qed

section \<open>Health\<close>

text \<open>
  C21: From a healthy app without failures, the checks of an active app, manual or not, make it
  unhealthy exactly when its last two probes failed, and its failure count is the number of
  failures since the last success.
\<close>

theorem health_follows_the_last_two_probes:
  assumes "ap_health r = ''healthy''" "ap_fails r = 0" "list_all (\<lambda>x. fst (fst x) \<in> {''healthy'', ''unhealthy''}) ps"
  shows "ap_health (probed ps r) = (if two_failures (map (\<lambda>x. fst (fst x)) ps) then ''unhealthy'' else ''healthy'')
    \<and> ap_fails (probed ps r) = int (failures (map (\<lambda>x. fst (fst x)) ps))"
  using probed_health [OF assms] by simp

definition fresh_app :: app where
  "fresh_app = new_app empty_pool ''one'' 11 ''*h'' True 0 100 None"

theorem health_follows_the_last_two_probes_witness:
  "ap_health (probed [((''unhealthy'', None, None), True, 1), ((''unhealthy'', None, None), False, 2)] fresh_app) = ''unhealthy''"
  using health_follows_the_last_two_probes [of fresh_app
      "[((''unhealthy'', None, None), True, 1), ((''unhealthy'', None, None), False, 2)]"]
  by (simp add: fresh_app_def new_app_def two_failures_def)

text \<open>
  A restart marks the app of the environment as healthy whatever its status; the next check that
  succeeds then finds no change and recovers none of the accounts that stalled.
\<close>

lemma recovery_needs_unhealthy:
  "hr_previous res \<noteq> unhealthy \<Longrightarrow> after_check env i actor ip previous res p = (p, [], [])"
  by (simp add: after_check_def)

theorem restart_hides_an_unhealthy_app:
  assumes "pool_reached env p" "find_row (\<lambda>r. ap_api r = env_api env) (apps p) = Some r"
    "env_api env \<noteq> 0" "env_hash env \<noteq> []"
  shows "\<exists>r'. get_app (ap_id r) (fst (ensure_env_default_app env p)) = Some r' \<and> ap_health r' = ''healthy''
    \<and> ap_fails r' = ap_fails r
    \<and> (\<forall>actor ip force now previous result. fst result = ''healthy'' \<longrightarrow>
         hr_previous (snd (write_check env (ap_id r) actor ip force now previous result r'
           (fst (ensure_env_default_app env p)))) = ''healthy'')"
proof -
  have ok: "pool_ok p" by (rule pool_reached_ok [OF assms(1)])
  have r: "get_app (ap_id r) p = Some r"
    using assms(2) get_app_row [OF pool_ok_ids [OF ok]] by (auto dest: find_row_Some)
  let ?f = "\<lambda>r. r\<lparr>ap_weight := weight_of r, ap_health := healthy, ap_active := True\<rparr>"
  have "apps (fst (ensure_env_default_app env p)) = upd_where (\<lambda>x. ap_id x = ap_id r) ?f (apps p)"
    using assms(2-4) by (simp add: ensure_env_default_app_def Let_def upd_app_def split: option.split)
  then have g: "get_app (ap_id r) (fst (ensure_env_default_app env p)) = Some (?f r)"
    using r by (simp add: get_app_def find_row_upd_key)
  have "hr_previous (snd (write_check env i actor ip force now previous result (?f r) q)) = healthy"
    for i actor ip force now previous result q
    by (simp add: write_check_def health_of_def Let_def case_prod_beta)
  with g show ?thesis by auto
qed

section \<open>Settings\<close>

lemma alert_ids_form: "alert_ids chunks acc = Inr ids \<Longrightarrow> distinct acc \<Longrightarrow> list_all (\<lambda>u. 0 < u) acc
    \<Longrightarrow> distinct ids \<and> list_all (\<lambda>u. 0 < u) ids"
  by (induction chunks arbitrary: acc) (auto simp: Let_def split: if_splits option.splits)

lemma alert_ids_read:
  "distinct (acc @ ids) \<Longrightarrow> list_all (\<lambda>u. 0 < u) ids \<Longrightarrow> alert_ids (map show_int ids) acc = Inr (acc @ ids)"
  by (induction ids arbitrary: acc) (auto simp: Let_def)

lemma split_char_plain: "c \<notin> set w \<Longrightarrow> split_char c w = [w]"
  by (induction w) auto

lemma split_char_append: "c \<notin> set w \<Longrightarrow> split_char c (w @ c # s) = w # split_char c s"
  by (induction w) auto

lemma split_join: "ws \<noteq> [] \<Longrightarrow> list_all (\<lambda>w. c \<notin> set w) ws \<Longrightarrow> split_char c (join [c] ws) = ws"
proof (induction ws)
  case (Cons w ws)
  then show ?case by (cases ws) (simp_all add: split_char_plain split_char_append)
qed simp

lemma show_int_chars: "c \<in> set (show_int i) \<Longrightarrow> c = CHR ''-'' \<or> is_digit c"
  by (auto simp: show_int_def dest: show_nat_digits split: if_splits)

lemma join_chars: "c \<in> set (join sep ws) \<Longrightarrow> c \<in> set sep \<or> (\<exists>w \<in> set ws. c \<in> set w)"
  by (induction ws rule: join.induct) auto

text \<open>
  The stored text of the notification recipients reads back as itself and as the same
  recipients, which are positive and distinct.
\<close>

theorem alert_recipients_round_trip:
  assumes "normalize_alert_tg_user_ids raw = Inr (s, ids)"
  shows "normalize_alert_tg_user_ids (Some s) = Inr (s, ids) \<and> distinct ids \<and> list_all (\<lambda>u. 0 < u) ids"
proof -
  obtain chunks where "alert_ids chunks [] = Inr ids" and s: "s = serialize_ids ids"
    using assms by (auto simp: normalize_alert_tg_user_ids_def Let_def split: sum.splits)
  then have ids: "distinct ids" "list_all (\<lambda>u. 0 < u) ids" using alert_ids_form by fastforce+
  have comma: "CHR '','' \<notin> set (show_int i)" and nl: "CHR 0x0A \<notin> set (show_int i)" for i
    using show_int_chars [of _ i] by (force simp: is_digit_def code_def)+
  have "CHR 0x0A \<notin> set s"
    using join_chars [of "CHR 0x0A" "'',''" "map show_int ids"] nl by (auto simp: s serialize_ids_def)
  moreover have nl_char: "char_of (10::nat) = CHR 0x0A" by code_simp
  ultimately have line: "map (\<lambda>c. if c = char_of (10::nat) then CHR '','' else c) s = s"
    using nl_char by (intro map_idI) auto
  have "alert_ids (split_char (CHR '','') s) [] = Inr ids"
  proof (cases "ids = []")
    case True
    then show ?thesis by (simp add: s serialize_ids_def strip_def)
  next
    case False
    then have "split_char (CHR '','') s = map show_int ids"
      using split_join [of "map show_int ids" "CHR '',''"] comma by (simp add: s serialize_ids_def list_all_iff)
    with ids alert_ids_read [of "[]" ids] show ?thesis by simp
  qed
  moreover have "str_or (Some s) [] = s" by (simp add: str_or_def split: list.split)
  ultimately show ?thesis using line ids s by (simp add: normalize_alert_tg_user_ids_def)
qed

theorem alert_recipients_round_trip_witness:
  "normalize_alert_tg_user_ids (Some ''7,12'') = Inr (''7,12'', [7, 12])"
proof -
  have "normalize_alert_tg_user_ids (Some '' 7, 12,-3,7,'') = Inr (''7,12'', [7, 12])" by code_simp
  from alert_recipients_round_trip [OF this] show ?thesis by simp
qed

end
