(* ===== verification/ProxyPool.thy ===== *)
theory ProxyPool
  imports Observation
begin

text \<open>
  The proxy pool: \<open>bot/proxy/ops.py\<close> (rows and assignment), \<open>bot/proxy/health.py\<close> (probes and
  their cache), the user's requests of \<open>h5_backend/services/proxy/service.py\<close> with their checks
  in \<open>dependencies.py\<close>, and the proxy part of \<open>bot/account/client_runtime.py\<close>.

  Telegram through a proxy is an operation of the environment; so is the encryption of passwords.
  Deleting a proxy that an account still refers to violates the foreign key of \<open>accounts\<close>. A
  database session is one step; a check of a proxy and the check before a connection are several
  sessions with a probe in between, so they take an argument \<open>gap\<close>: what everybody else does
  before their \<open>n\<close>-th session. \<open>assign_proxy\<close> takes no row lock: two sessions that both read a free
  proxy can both get it, which one step after the other does not show. The probes of all
  proxies, which the code starts together, are taken one after the other: each of them writes the
  row and the cache entry of its own proxy only.
\<close>

section \<open>Rows and assignment\<close>

record proxy_env =
  px_api :: "int option"
  px_hash :: "string option"
  px_seal :: "string \<Rightarrow> string"
  px_unseal :: "string \<Rightarrow> string + string"

definition add_proxy ::
  "'m proxy_env_scheme \<Rightarrow> string \<Rightarrow> string \<Rightarrow> int \<Rightarrow> string option \<Rightarrow> string option \<Rightarrow> db
     \<Rightarrow> (string + db \<times> proxy)" where
  "add_proxy env ty host port username password d =
     (if find_row (\<lambda>x. x_type x = ty \<and> x_host x = host \<and> x_port x = port) (proxies d) \<noteq> None
      then Inl ''<proxy exists>''
      else (let x = \<lparr>x_id = next_proxy_id d, x_type = ty, x_host = host, x_port = port, x_name = None,
                     x_region = None, x_gateway = False, x_shared = False, x_username = username,
                     x_password = (if str_true password then Some (px_seal env (the password)) else None),
                     x_active = True, x_healthy = True, x_checked = None, x_response = None,
                     x_usage = 0, x_assigned = None\<rparr>
            in Inr (d\<lparr>proxies := proxies d @ [x]\<rparr>, x)))"

text \<open>Newest first; \<open>active\<close> restricts to the active ones.\<close>

definition get_proxies :: "bool \<Rightarrow> bool option \<Rightarrow> db \<Rightarrow> proxy list" where
  "get_proxies active healthy d =
     rev (filter (\<lambda>x. (active \<longrightarrow> x_active x) \<and> (case healthy of None \<Rightarrow> True | Some h \<Rightarrow> x_healthy x = h))
            (proxies d))"

text \<open>\<open>scalar_one_or_none\<close>: more than one row is an exception.\<close>

definition one_or_none :: "'a list \<Rightarrow> http_error + 'a option" where
  "one_or_none rows =
     (case rows of [] \<Rightarrow> Inr None | [x] \<Rightarrow> Inr (Some x) | _ \<Rightarrow> Inl unhandled)"

definition get_available_proxy :: "db \<Rightarrow> http_error + proxy option" where
  "get_available_proxy d =
     (let usable = filter (\<lambda>x. x_active x \<and> x_healthy x) (proxies d)
      in and_then (one_or_none (sort_key x_usage (filter (\<lambda>x. x_assigned x = None) usable)))
           (\<lambda>free. case free of
              Some x \<Rightarrow> Inr (Some x)
            | None \<Rightarrow> one_or_none (sort_key x_usage usable)))"

definition assign_proxy :: "string \<Rightarrow> int \<Rightarrow> db \<Rightarrow> db \<times> bool" where
  "assign_proxy aid pid d =
     (case get_proxy pid d of
        None \<Rightarrow> (d, False)
      | Some x \<Rightarrow>
          if \<not> x_shared x \<and> str_true (x_assigned x) \<and> x_assigned x \<noteq> Some aid then (d, False)
          else case get_account aid d of
            None \<Rightarrow> (d, False)
          | Some a \<Rightarrow>
             (let d1 = (if int_true (a_proxy a) \<and> a_proxy a \<noteq> Some pid
                        then upd_proxy (the (a_proxy a))
                               (\<lambda>y. if x_assigned y = Some aid then y\<lparr>x_assigned := None\<rparr> else y) d
                        else d);
                  d2 = upd_proxy pid
                         (\<lambda>y. y\<lparr>x_assigned := (if x_shared x then None else Some aid), x_usage := x_usage y + 1\<rparr>) d1
              in (upd_account aid (\<lambda>b. b\<lparr>a_proxy := Some pid\<rparr>) d2, True)))"

definition unassign_proxy :: "string \<Rightarrow> db \<Rightarrow> db \<times> bool" where
  "unassign_proxy aid d =
     (case get_account aid d of
        None \<Rightarrow> (d, False)
      | Some a \<Rightarrow>
          if \<not> int_true (a_proxy a) then (d, False)
          else case get_proxy (the (a_proxy a)) d of
            None \<Rightarrow> (d, False)
          | Some x \<Rightarrow>
              (upd_account aid (\<lambda>b. b\<lparr>a_proxy := None\<rparr>)
                 (upd_proxy (x_id x) (\<lambda>y. if x_assigned y = Some aid then y\<lparr>x_assigned := None\<rparr> else y) d),
               True))"

section \<open>Probes and their cache\<close>

record proxy_status =
  ps_healthy :: bool
  ps_ms :: int
  ps_error :: string

record proxy_config =
  pc_type :: string
  pc_addr :: string
  pc_port :: int
  pc_username :: "string option"
  pc_password :: "string option"
  pc_rdns :: bool

text \<open>
  The probe of the environment: a \<open>help.getConfig\<close> through the proxy, its latency or the text of
  the exception.
\<close>

record probe_env = proxy_env +
  px_probe :: "proxy_config \<Rightarrow> int \<Rightarrow> string \<Rightarrow> string + int"

text \<open>The manager: the statuses and the monotonic times of the checks, and the life of an entry.\<close>

record manager =
  hc_status :: "int \<Rightarrow> proxy_status option"
  hc_at :: "int \<Rightarrow> int option"
  hc_ttl :: int

definition new_manager :: manager where
  "new_manager = \<lparr>hc_status = (\<lambda>_. None), hc_at = (\<lambda>_. None), hc_ttl = 60\<rparr>"

definition cached_health :: "int \<Rightarrow> int \<Rightarrow> manager \<Rightarrow> manager \<times> proxy_status option" where
  "cached_health pid t m =
     (case (hc_at m pid, hc_status m pid) of
        (Some at0, Some s) \<Rightarrow>
          if t - at0 < hc_ttl m then (m, Some s)
          else (m\<lparr>hc_status := (hc_status m)(pid := None), hc_at := (hc_at m)(pid := None)\<rparr>, None)
      | _ \<Rightarrow> (m, None))"

definition proxy_config_of :: "'m proxy_env_scheme \<Rightarrow> proxy \<Rightarrow> string + proxy_config" where
  "proxy_config_of env x =
     and_then (if str_true (x_password x)
               then (case px_unseal env (the (x_password x)) of Inl e \<Rightarrow> Inl e | Inr w \<Rightarrow> Inr (Some w))
               else Inr None)
       (\<lambda>password.
          if lower (x_type x) = ''socks5''
          then Inr \<lparr>pc_type = ''socks5'', pc_addr = x_host x, pc_port = x_port x,
                    pc_username = x_username x, pc_password = password, pc_rdns = True\<rparr>
          else if lower (x_type x) = ''http''
          then Inr \<lparr>pc_type = ''http'', pc_addr = x_host x, pc_port = x_port x,
                    pc_username = x_username x, pc_password = password, pc_rdns = False\<rparr>
          else Inl ''<unsupported proxy type>'')"

text \<open>The configuration of the client runtime: a password it cannot read is left out.\<close>

definition client_proxy_config :: "'m proxy_env_scheme \<Rightarrow> int \<Rightarrow> db \<Rightarrow> proxy_config option" where
  "client_proxy_config env pid d =
     (case get_proxy pid d of
        None \<Rightarrow> None
      | Some x \<Rightarrow>
          (let password = (if str_true (x_password x)
                           then (case px_unseal env (the (x_password x)) of Inl e \<Rightarrow> None | Inr w \<Rightarrow> Some w)
                           else None)
           in if x_type x = ''socks5''
              then Some \<lparr>pc_type = ''socks5'', pc_addr = x_host x, pc_port = x_port x,
                         pc_username = x_username x, pc_password = password, pc_rdns = True\<rparr>
              else if x_type x = ''http''
              then Some \<lparr>pc_type = ''http'', pc_addr = x_host x, pc_port = x_port x,
                         pc_username = x_username x, pc_password = password, pc_rdns = False\<rparr>
              else None))"

text \<open>\<open>update_proxy\<close> writes the fields that are not \<open>None\<close>.\<close>

definition update_proxy_health :: "int \<Rightarrow> bool \<Rightarrow> datetime \<Rightarrow> int option \<Rightarrow> db \<Rightarrow> db" where
  "update_proxy_health pid ok now ms d =
     upd_proxy pid (\<lambda>x. x\<lparr>x_healthy := ok, x_checked := Some now,
       x_response := (case ms of None \<Rightarrow> x_response x | Some n \<Rightarrow> Some n)\<rparr>) d"

definition probe_result :: "'m probe_env_scheme \<Rightarrow> proxy \<Rightarrow> string + int" where
  "probe_result env x =
     (let api = int_or (px_api env) 0; hash = str_or (px_hash env) []
      in if api \<le> 0 \<or> hash = [] then Inl ''ValueError: <no api credentials>''
         else and_then (proxy_config_of env x) (\<lambda>c. px_probe env c api hash))"

text \<open>What a probe leaves: the columns of the row, and the cache entry.\<close>

definition book_probe ::
  "'m probe_env_scheme \<Rightarrow> proxy \<Rightarrow> int \<Rightarrow> int \<Rightarrow> datetime \<Rightarrow> manager \<times> db
     \<Rightarrow> (manager \<times> db) \<times> proxy_status" where
  "book_probe env x pid t' now st =
     (let (m, d) = st;
          r = probe_result env x;
          s = (case r of
                 Inl e \<Rightarrow> \<lparr>ps_healthy = False, ps_ms = 0, ps_error = e\<rparr>
               | Inr ms \<Rightarrow> \<lparr>ps_healthy = True, ps_ms = ms, ps_error = []\<rparr>);
          d1 = update_proxy_health pid (\<not> isl r) now (if isl r then None else Some (projr r)) d
      in ((m\<lparr>hc_status := (hc_status m)(pid := Some s), hc_at := (hc_at m)(pid := Some t')\<rparr>, d1), s))"

text \<open>\<open>t\<close> and \<open>t'\<close> are the monotonic clock before and after, \<open>now\<close> the wall clock.\<close>

definition check_health_during ::
  "'m probe_env_scheme \<Rightarrow> (nat \<Rightarrow> manager \<times> db \<Rightarrow> manager \<times> db) \<Rightarrow> int \<Rightarrow> int \<Rightarrow> int \<Rightarrow> datetime
     \<Rightarrow> manager \<times> db \<Rightarrow> (manager \<times> db) \<times> proxy_status" where
  "check_health_during env gap pid t t' now st =
     (let (m1, cached) = cached_health pid t (fst st)
      in case cached of
           Some s \<Rightarrow> ((m1, snd st), s)
         | None \<Rightarrow>
            (let st1 = gap 0 (m1, snd st)
             in case get_proxy pid (snd st1) of
                  None \<Rightarrow> (st1, \<lparr>ps_healthy = False, ps_ms = 0, ps_error = ''<no such proxy>''\<rparr>)
                | Some x \<Rightarrow> book_probe env x pid t' now (gap 1 st1)))"

text \<open>A check that nothing interleaves with.\<close>

definition check_health ::
  "'m probe_env_scheme \<Rightarrow> int \<Rightarrow> int \<Rightarrow> int \<Rightarrow> datetime \<Rightarrow> manager \<times> db
     \<Rightarrow> (manager \<times> db) \<times> proxy_status" where
  "check_health env pid t t' now st = check_health_during env (\<lambda>_ s. s) pid t t' now st"

fun check_each ::
  "'m probe_env_scheme \<Rightarrow> int list \<Rightarrow> int \<Rightarrow> int \<Rightarrow> datetime \<Rightarrow> manager \<times> db
     \<Rightarrow> (manager \<times> db) \<times> (int \<times> proxy_status) list" where
  "check_each env [] t t' now st = (st, [])"
| "check_each env (pid # pids) t t' now st =
     (let (st1, s) = check_health env pid t t' now st;
          (st2, rest) = check_each env pids t t' now st1
      in (st2, (pid, s) # rest))"

definition check_all_proxies ::
  "'m probe_env_scheme \<Rightarrow> int \<Rightarrow> int \<Rightarrow> datetime \<Rightarrow> manager \<times> db
     \<Rightarrow> (manager \<times> db) \<times> (int \<times> proxy_status) list" where
  "check_all_proxies env t t' now st =
     check_each env (map x_id (get_proxies True None (snd st))) t t' now st"

definition delete_proxy :: "int \<Rightarrow> manager \<times> db \<Rightarrow> (manager \<times> db) \<times> (http_error + bool)" where
  "delete_proxy pid st =
     (let (m, d) = st
      in case get_proxy pid d of
           None \<Rightarrow> (st, Inr False)
         | Some x \<Rightarrow>
             if str_true (x_assigned x) then (st, Inr False)
             else if list_ex (\<lambda>a. a_proxy a = Some pid) (accounts d) then (st, Inl unhandled)
             else ((m\<lparr>hc_status := (hc_status m)(pid := None)\<rparr>,
                    d\<lparr>proxies := filter (\<lambda>y. x_id y \<noteq> pid) (proxies d)\<rparr>), Inr True))"

section \<open>The proxy of an account\<close>

text \<open>
  An account keeps its proxy only if Telegram answers through it; otherwise it connects directly
  from then on. The account, the proxy and the check are read, and the two updates made, in
  sessions of their own.
\<close>

definition ensure_account_proxy ::
  "'m probe_env_scheme \<Rightarrow> (nat \<Rightarrow> manager \<times> db \<Rightarrow> manager \<times> db) \<Rightarrow> string \<Rightarrow> int \<Rightarrow> int \<Rightarrow> datetime
     \<Rightarrow> manager \<times> db \<Rightarrow> (manager \<times> db) \<times> int option" where
  "ensure_account_proxy env gap aid t t' now st =
     (case get_account aid (snd st) of
        None \<Rightarrow> (st, None)
      | Some a \<Rightarrow>
          if \<not> int_true (a_proxy a) then (st, None)
          else (let pid = the (a_proxy a);
                    st0 = gap 0 st;
                    (st1, fine) =
                      (case get_proxy pid (snd st0) of
                         None \<Rightarrow> (st0, False)
                       | Some x \<Rightarrow>
                           if \<not> x_active x then (st0, False)
                           else (let (st1, s) = check_health_during env (\<lambda>n. gap (n + 1)) pid t t' now st0
                                 in (st1, ps_healthy s)))
                in if fine then (st1, Some pid)
                   else (let (m2, d2) = gap 3 st1;
                             (m3, d3) = gap 4 (m2, fst (unassign_proxy aid d2))
                         in ((m3, upd_account aid (\<lambda>b. b\<lparr>a_proxy := None\<rparr>) d3), None))))"

section \<open>Requests of a user\<close>

definition check_proxy_permission :: "int \<Rightarrow> int \<Rightarrow> db \<Rightarrow> http_error + proxy" where
  "check_proxy_permission pid uid d =
     (case get_proxy pid d of
        None \<Rightarrow> Inl (Http 404 ''<proxy not found>'')
      | Some x \<Rightarrow>
          if str_true (x_assigned x)
          then and_then (check_account_permission (the (x_assigned x)) uid d) (\<lambda>_. Inr x)
          else Inr x)"

definition list_user_proxies :: "int \<Rightarrow> db \<Rightarrow> proxy list" where
  "list_user_proxies uid d =
     (let owned = map a_id (filter (\<lambda>a. a_user a = uid) (accounts d))
      in rev (filter (\<lambda>x. case x_assigned x of None \<Rightarrow> True | Some aid \<Rightarrow> aid \<in> set owned) (proxies d)))"

text \<open>
  The fields of the request; a missing host or port is a \<open>KeyError\<close>. The last two come from the
  Bot: the region of the gateway for a new login, and the start of that login.
\<close>

datatype proxy_request =
    AddProxy "string option" "string option" "int option" "string option" "string option"
  | CheckProxy int
  | DeleteProxy int
  | AssignProxy int string
  | UnassignProxy int
  | ChooseRegion string string
  | LoginRoute string

definition user_add_proxy ::
  "'m proxy_env_scheme \<Rightarrow> string option \<Rightarrow> string option \<Rightarrow> int option \<Rightarrow> string option \<Rightarrow> string option
     \<Rightarrow> db \<Rightarrow> http_error + db \<times> proxy" where
  "user_add_proxy env ty host port username password d =
     (case (host, port) of
        (Some h, Some n) \<Rightarrow>
          (case add_proxy env (case ty of None \<Rightarrow> ''socks5'' | Some t \<Rightarrow> t) h n username password d of
             Inl _ \<Rightarrow> Inl unhandled
           | Inr r \<Rightarrow> Inr r)
      | _ \<Rightarrow> Inl unhandled)"

definition user_delete_proxy :: "int \<Rightarrow> int \<Rightarrow> manager \<times> db \<Rightarrow> (manager \<times> db) \<times> (http_error + unit)" where
  "user_delete_proxy uid pid st =
     (case check_proxy_permission pid uid (snd st) of
        Inl e \<Rightarrow> (st, Inl e)
      | Inr _ \<Rightarrow>
          (let (st1, r) = delete_proxy pid st
           in (st1, and_then r (\<lambda>ok. if ok then Inr () else Inl (Http 400 ''<proxy not deleted>'')))))"

definition user_assign_proxy :: "int \<Rightarrow> int \<Rightarrow> string \<Rightarrow> db \<Rightarrow> db \<times> (http_error + unit)" where
  "user_assign_proxy uid pid aid d =
     (case check_account_permission aid uid d of
        Inl e \<Rightarrow> (d, Inl e)
      | Inr _ \<Rightarrow>
          (case get_proxy pid d of
             None \<Rightarrow> (d, Inl (Http 404 ''<proxy not found>''))
           | Some x \<Rightarrow>
              (case (if str_true (x_assigned x) \<and> x_assigned x \<noteq> Some aid
                     then check_account_permission (the (x_assigned x)) uid d else check_account_permission aid uid d) of
                 Inl e \<Rightarrow> (d, Inl e)
               | Inr _ \<Rightarrow>
                  (let (d1, ok) = assign_proxy aid pid d
                   in (d1, if ok then Inr () else Inl (Http 400 ''<proxy not assigned>''))))))"

definition user_unassign_proxy :: "int \<Rightarrow> int \<Rightarrow> db \<Rightarrow> db \<times> (http_error + unit)" where
  "user_unassign_proxy uid pid d =
     (case check_proxy_permission pid uid d of
        Inl e \<Rightarrow> (d, Inl e)
      | Inr x \<Rightarrow>
          if \<not> str_true (x_assigned x) then (d, Inl (Http 400 ''<proxy not assigned>''))
          else (let (d1, ok) = unassign_proxy (the (x_assigned x)) d
                in (d1, if ok then Inr () else Inl (Http 400 ''<proxy not released>''))))"

definition user_check_proxy ::
  "'m probe_env_scheme \<Rightarrow> int \<Rightarrow> int \<Rightarrow> int \<Rightarrow> int \<Rightarrow> datetime \<Rightarrow> manager \<times> db
     \<Rightarrow> (manager \<times> db) \<times> (http_error + proxy_status)" where
  "user_check_proxy env uid pid t t' now st =
     (case check_proxy_permission pid uid (snd st) of
        Inl e \<Rightarrow> (st, Inl e)
      | Inr _ \<Rightarrow> (let (st1, s) = check_health env pid t t' now st in (st1, Inr s)))"

text \<open>The state after a request.\<close>

definition serve_user ::
  "'m probe_env_scheme \<Rightarrow> int \<Rightarrow> proxy_request \<Rightarrow> int \<Rightarrow> int \<Rightarrow> datetime \<Rightarrow> manager \<times> db \<Rightarrow> manager \<times> db" where
  "serve_user env uid req t t' now st =
     (case req of
        AddProxy ty host port username password \<Rightarrow>
          (case user_add_proxy env ty host port username password (snd st) of
             Inl _ \<Rightarrow> st
           | Inr (d, _) \<Rightarrow> (fst st, d))
      | CheckProxy pid \<Rightarrow> fst (user_check_proxy env uid pid t t' now st)
      | DeleteProxy pid \<Rightarrow> fst (user_delete_proxy uid pid st)
      | AssignProxy pid aid \<Rightarrow> (fst st, fst (user_assign_proxy uid pid aid (snd st)))
      | UnassignProxy pid \<Rightarrow> (fst st, fst (user_unassign_proxy uid pid (snd st)))
      | ChooseRegion aid region \<Rightarrow>
          (case select_reauth_proxy_for_account uid aid region now (snd st) of
             Inl _ \<Rightarrow> st
           | Inr (d, _) \<Rightarrow> (fst st, d))
      | LoginRoute aid \<Rightarrow>
          (case resolve_reauth_login_route uid aid now (snd st) of
             Inl _ \<Rightarrow> st
           | Inr (d, _) \<Rightarrow> (fst st, d)))"

end
