(* ===== verification/ProxyFacts.thy ===== *)
theory ProxyFacts
  imports ProxyPool
begin

text \<open>
  The sessions that change proxies and their accounts, as a step relation, and the invariant that
  ties the two tables together: a proxy that is not shared belongs to at most one account.
\<close>

section \<open>Reads after writes\<close>

lemma get_upd_proxy:
  "(\<And>x. x_id (f x) = x_id x) \<Longrightarrow> get_proxy p (upd_proxy pid f d)
     = (if p = pid then map_option f (get_proxy p d) else get_proxy p d)"
proof (cases "p = pid")
  case False
  assume "\<And>x. x_id (f x) = x_id x"
  then have "find_row (\<lambda>x. x_id x = p) (upd_where (\<lambda>x. x_id x = pid) f (proxies d)) = find_row (\<lambda>x. x_id x = p) (proxies d)"
    using False by (intro find_row_upd_other) simp
  with False show ?thesis by (simp add: get_proxy_def upd_proxy_def)
qed (simp add: get_proxy_def upd_proxy_def find_row_upd_key)

lemma get_account_upd_proxy [simp]: "get_account aid (upd_proxy pid f d) = get_account aid d"
  by (simp add: get_account_def upd_proxy_def)

lemma get_upd_account:
  "(\<And>a. a_id (f a) = a_id a) \<Longrightarrow> get_account aid (upd_account k f d)
     = (if aid = k then map_option f (get_account aid d) else get_account aid d)"
  by (auto simp: get_account_def upd_account_def find_row_upd_key find_row_cong_upd)

lemma get_proxy_upd_account [simp]: "get_proxy p (upd_account aid f d) = get_proxy p d"
  by (simp add: get_proxy_def upd_account_def)

lemma accounts_upd [simp]:
  "accounts (upd_proxy pid f d) = accounts d" "proxies (upd_account aid g d) = proxies d"
  by (simp_all add: upd_proxy_def upd_account_def)

lemma ids_upd:
  "(\<And>x. x_id (f x) = x_id x) \<Longrightarrow> map x_id (proxies (upd_proxy pid f d)) = map x_id (proxies d)"
  "(\<And>a. a_id (g a) = a_id a) \<Longrightarrow> map a_id (accounts (upd_account aid g d)) = map a_id (accounts d)"
  by (simp_all add: upd_proxy_def upd_account_def map_upd_where)

lemma get_proxy_id: "get_proxy pid d = Some x \<Longrightarrow> x_id x = pid"
  by (auto simp: get_proxy_def dest: find_row_Some)

section \<open>The invariant\<close>

definition holds_proxy :: "string \<Rightarrow> int \<Rightarrow> db \<Rightarrow> bool" where
  "holds_proxy aid pid d \<longleftrightarrow> (\<exists>a. get_account aid d = Some a \<and> a_proxy a = Some pid)"

definition exclusive :: "db \<Rightarrow> bool" where
  "exclusive d \<longleftrightarrow>
     distinct (map x_id (proxies d)) \<and> (\<forall>x \<in> set (proxies d). 0 < x_id x)
     \<and> get_account [] d = None
     \<and> (\<forall>aid pid. holds_proxy aid pid d \<longrightarrow>
          (\<exists>x. get_proxy pid d = Some x \<and> (x_shared x \<or> x_assigned x = Some aid)))
     \<and> (\<forall>pid x aid. get_proxy pid d = Some x \<longrightarrow> x_assigned x = Some aid \<longrightarrow>
          \<not> x_shared x \<and> get_account aid d \<noteq> None)"

lemma exclusiveD:
  assumes "exclusive d"
  shows "distinct (map x_id (proxies d))" "get_proxy pid d = Some x \<Longrightarrow> 0 < pid"
    "holds_proxy aid pid d \<Longrightarrow> \<exists>x. get_proxy pid d = Some x \<and> (x_shared x \<or> x_assigned x = Some aid)"
    "get_proxy pid d = Some x \<Longrightarrow> x_assigned x = Some aid \<Longrightarrow> \<not> x_shared x \<and> get_account aid d \<noteq> None"
    "get_account aid d = Some a \<Longrightarrow> aid \<noteq> []"
proof -
  show "distinct (map x_id (proxies d))" "get_proxy pid d = Some x \<Longrightarrow> 0 < pid"
    using assms by (auto simp: exclusive_def get_proxy_def dest: find_row_Some)
  show "holds_proxy aid pid d \<Longrightarrow> \<exists>x. get_proxy pid d = Some x \<and> (x_shared x \<or> x_assigned x = Some aid)"
    "get_proxy pid d = Some x \<Longrightarrow> x_assigned x = Some aid \<Longrightarrow> \<not> x_shared x \<and> get_account aid d \<noteq> None"
    using assms unfolding exclusive_def by blast+
  show "get_account aid d = Some a \<Longrightarrow> aid \<noteq> []" using assms by (auto simp: exclusive_def)
qed

lemma held_proxy: "exclusive d \<Longrightarrow> holds_proxy aid pid d \<Longrightarrow> 0 < pid \<and> aid \<noteq> []"
  using exclusiveD(2) [of d pid] exclusiveD(3) [of d aid pid] exclusiveD(5) [of d aid]
  by (auto simp: holds_proxy_def)

text \<open>Two accounts never hold one proxy that is not shared.\<close>

lemma one_holder:
  "exclusive d \<Longrightarrow> holds_proxy aid pid d \<Longrightarrow> holds_proxy bid pid d \<Longrightarrow> get_proxy pid d = Some x
    \<Longrightarrow> \<not> x_shared x \<Longrightarrow> aid = bid"
  using exclusiveD(3) [of d aid pid] exclusiveD(3) [of d bid pid] by auto

lemma exclusiveI:
  assumes "distinct (map x_id (proxies d))" "\<And>x. x \<in> set (proxies d) \<Longrightarrow> 0 < x_id x" "get_account [] d = None"
    "\<And>aid pid. holds_proxy aid pid d \<Longrightarrow> \<exists>x. get_proxy pid d = Some x \<and> (x_shared x \<or> x_assigned x = Some aid)"
    "\<And>pid x aid. get_proxy pid d = Some x \<Longrightarrow> x_assigned x = Some aid \<Longrightarrow> \<not> x_shared x \<and> get_account aid d \<noteq> None"
  shows "exclusive d"
  using assms unfolding exclusive_def by blast

text \<open>
  Every operation is one of these changes: the proxy of an account is set and the marks of the
  proxies follow, or columns that do not matter here change.
\<close>

definition same_marks :: "db \<Rightarrow> db \<Rightarrow> bool" where
  "same_marks d e \<longleftrightarrow> map x_id (proxies e) = map x_id (proxies d)
     \<and> (\<forall>pid. map_option (\<lambda>x. (x_shared x, x_assigned x)) (get_proxy pid e)
              = map_option (\<lambda>x. (x_shared x, x_assigned x)) (get_proxy pid d))
     \<and> (\<forall>aid. map_option a_proxy (get_account aid e) = map_option a_proxy (get_account aid d))"

lemma same_marks_holds: "same_marks d e \<Longrightarrow> holds_proxy aid pid e = holds_proxy aid pid d"
proof -
  assume "same_marks d e"
  then have "map_option a_proxy (get_account aid e) = map_option a_proxy (get_account aid d)"
    by (simp add: same_marks_def)
  then show ?thesis unfolding holds_proxy_def
    by (cases "get_account aid e"; cases "get_account aid d") auto
qed

lemma same_marks_get:
  assumes "same_marks d e" "get_proxy pid e = Some y"
  obtains x where "get_proxy pid d = Some x" "x_shared x = x_shared y" "x_assigned x = x_assigned y"
proof -
  have "map_option (\<lambda>x. (x_shared x, x_assigned x)) (get_proxy pid e)
      = map_option (\<lambda>x. (x_shared x, x_assigned x)) (get_proxy pid d)"
    using assms(1) unfolding same_marks_def by blast
  with assms(2) that show thesis by (cases "get_proxy pid d") auto
qed

lemma same_marks_sym: "same_marks d e \<Longrightarrow> same_marks e d"
  by (simp add: same_marks_def)

lemma same_ids_pos: "map x_id (proxies e) = map x_id (proxies d) \<Longrightarrow> exclusive d \<Longrightarrow> x \<in> set (proxies e) \<Longrightarrow> 0 < x_id x"
  by (metis exclusive_def image_eqI imageE set_map)

lemma same_marks_exclusive:
  assumes m: "same_marks d e" and ok: "exclusive d"
  shows "exclusive e"
proof (rule exclusiveI)
  show "distinct (map x_id (proxies e))" using m exclusiveD(1) [OF ok] by (simp add: same_marks_def)
  show "0 < x_id x" if "x \<in> set (proxies e)" for x
    using same_ids_pos [OF _ ok that] m by (simp add: same_marks_def)
  have "map_option a_proxy (get_account [] e) = map_option a_proxy (get_account [] d)"
    using m by (simp add: same_marks_def)
  then show "get_account [] e = None" using ok by (simp add: exclusive_def)
next
  fix aid pid
  assume "holds_proxy aid pid e"
  then have "holds_proxy aid pid d" using same_marks_holds [OF m] by simp
  then obtain x where x: "get_proxy pid d = Some x" "x_shared x \<or> x_assigned x = Some aid"
    using exclusiveD(3) [OF ok] by blast
  from same_marks_get [OF same_marks_sym [OF m] x(1)] obtain y where "get_proxy pid e = Some y"
    "x_shared y = x_shared x" "x_assigned y = x_assigned x" by metis
  with x(2) show "\<exists>x. get_proxy pid e = Some x \<and> (x_shared x \<or> x_assigned x = Some aid)" by auto
next
  fix pid y aid
  assume y: "get_proxy pid e = Some y" "x_assigned y = Some aid"
  obtain x where "get_proxy pid d = Some x" "x_shared x = x_shared y" "x_assigned x = x_assigned y"
    by (rule same_marks_get [OF m y(1)])
  moreover have "map_option a_proxy (get_account aid e) = map_option a_proxy (get_account aid d)"
    using m by (simp add: same_marks_def)
  ultimately show "\<not> x_shared y \<and> get_account aid e \<noteq> None"
    using exclusiveD(4) [OF ok, of pid x aid] y(2) by auto
qed

text \<open>An account leaves its proxy.\<close>

definition freed :: "string \<Rightarrow> proxy \<Rightarrow> proxy" where
  "freed aid y = (if x_assigned y = Some aid then y\<lparr>x_assigned := None\<rparr> else y)"

lemma freed_simps [simp]:
  "x_id (freed aid y) = x_id y" "x_shared (freed aid y) = x_shared y"
  "x_assigned (freed aid y) = (if x_assigned y = Some aid then None else x_assigned y)"
  by (simp_all add: freed_def)

text \<open>
  The account takes \<open>new\<close>, its old proxy is freed. \<open>mark\<close> writes the new proxy: shared or assigned
  to the account.
\<close>

definition change_proxy :: "string \<Rightarrow> int option \<Rightarrow> (proxy \<Rightarrow> proxy) \<Rightarrow> (account \<Rightarrow> account) \<Rightarrow> db \<Rightarrow> db" where
  "change_proxy aid new mark f d =
     (let d1 = (case get_account aid d of
                  None \<Rightarrow> d
                | Some a \<Rightarrow> (case a_proxy a of
                     None \<Rightarrow> d
                   | Some old \<Rightarrow> if new = Some old then d else upd_proxy old (freed aid) d));
          d2 = (case new of None \<Rightarrow> d1 | Some n \<Rightarrow> upd_proxy n mark d1)
      in upd_account aid (\<lambda>a. (f a)\<lparr>a_proxy := new\<rparr>) d2)"

lemma change_account:
  assumes "\<And>a. a_id (f a) = a_id a"
  shows "get_account k (change_proxy aid new mark f d)
    = (if k = aid then map_option (\<lambda>a. (f a)\<lparr>a_proxy := new\<rparr>) (get_account k d) else get_account k d)"
  using assms by (simp add: change_proxy_def get_upd_account Let_def split: option.split)

lemma change_holds:
  assumes "\<And>a. a_id (f a) = a_id a"
  shows "holds_proxy k pid (change_proxy aid new mark f d)
    \<longleftrightarrow> (if k = aid then get_account aid d \<noteq> None \<and> new = Some pid else holds_proxy k pid d)"
  by (auto simp: holds_proxy_def change_account [OF assms])

lemma change_get:
  assumes "\<And>x. x_id (mark x) = x_id x"
  shows "get_proxy pid (change_proxy aid new mark f d) =
     (if new = Some pid then map_option mark (get_proxy pid d)
      else if holds_proxy aid pid d then map_option (freed aid) (get_proxy pid d)
      else get_proxy pid d)"
  using assms by (auto simp: change_proxy_def Let_def get_upd_proxy holds_proxy_def split: option.split)

lemma change_ids:
  assumes "\<And>x. x_id (mark x) = x_id x"
  shows "map x_id (proxies (change_proxy aid new mark f d)) = map x_id (proxies d)"
  using assms by (simp add: change_proxy_def Let_def ids_upd split: option.split)

lemma change_exclusive:
  assumes ok: "exclusive d" and a: "get_account aid d \<noteq> None"
    and f: "\<And>a. a_id (f a) = a_id a" and mark: "\<And>x. x_id (mark x) = x_id x"
    and new: "\<And>n. new = Some n \<Longrightarrow> \<exists>x. get_proxy n d = Some x
      \<and> (x_shared (mark x) \<and> x_assigned (mark x) = None
         \<or> \<not> x_shared (mark x) \<and> x_assigned (mark x) = Some aid \<and> \<not> x_shared x
            \<and> (x_assigned x = None \<or> x_assigned x = Some aid))"
  shows "exclusive (change_proxy aid new mark f d)"
proof (rule exclusiveI)
  show "distinct (map x_id (proxies (change_proxy aid new mark f d)))"
    unfolding change_ids [of mark, OF mark] by (rule exclusiveD(1) [OF ok])
  show "0 < x_id x" if "x \<in> set (proxies (change_proxy aid new mark f d))" for x
    by (rule same_ids_pos [OF change_ids [of mark, OF mark] ok that])
  show "get_account [] (change_proxy aid new mark f d) = None"
    using ok by (simp add: change_account [OF f] exclusive_def)
next
  fix k pid
  assume h: "holds_proxy k pid (change_proxy aid new mark f d)"
  show "\<exists>x. get_proxy pid (change_proxy aid new mark f d) = Some x \<and> (x_shared x \<or> x_assigned x = Some k)"
  proof (cases "k = aid")
    case True
    then have "new = Some pid" using h by (simp add: change_holds [OF f])
    with new True show ?thesis by (fastforce simp: change_get [of mark, OF mark])
  next
    case False
    then have hd: "holds_proxy k pid d" using h by (simp add: change_holds [OF f])
    obtain x where x: "get_proxy pid d = Some x" "x_shared x \<or> x_assigned x = Some k"
      using exclusiveD(3) [OF ok hd] by blast
    show ?thesis
    proof (cases "new = Some pid")
      case True
      with new x False show ?thesis by (fastforce simp: change_get [of mark, OF mark])
    next
      case other: False
      with x False show ?thesis by (auto simp: change_get [of mark, OF mark])
    qed
  qed
next
  fix pid y k
  assume y: "get_proxy pid (change_proxy aid new mark f d) = Some y" "x_assigned y = Some k"
  show "\<not> x_shared y \<and> get_account k (change_proxy aid new mark f d) \<noteq> None"
  proof (cases "new = Some pid")
    case True
    with y new a show ?thesis by (fastforce simp: change_get [of mark, OF mark] change_account [OF f])
  next
    case False
    obtain x where x: "get_proxy pid d = Some x" "y = (if holds_proxy aid pid d then freed aid x else x)"
      using y(1) False by (auto simp: change_get [of mark, OF mark] split: if_splits)
    then have xa: "x_assigned x = Some k" "x_shared y = x_shared x" using y(2) by (auto split: if_splits)
    with exclusiveD(4) [OF ok x(1) xa(1)] show ?thesis by (auto simp: change_account [OF f])
  qed
qed

section \<open>The operations\<close>

lemma assign_is_change:
  assumes ok: "exclusive d" and "snd (assign_proxy aid pid d)"
  obtains x where "get_proxy pid d = Some x" "x_shared x \<or> x_assigned x = None \<or> x_assigned x = Some aid"
    "get_account aid d \<noteq> None"
    "fst (assign_proxy aid pid d) = change_proxy aid (Some pid)
       (\<lambda>y. y\<lparr>x_assigned := (if x_shared x then None else Some aid), x_usage := x_usage y + 1\<rparr>) (\<lambda>a. a) d"
proof -
  obtain x a where x: "get_proxy pid d = Some x" "\<not> (\<not> x_shared x \<and> str_true (x_assigned x) \<and> x_assigned x \<noteq> Some aid)"
      "get_account aid d = Some a"
    using assms(2) by (auto simp: assign_proxy_def split: option.splits if_splits)
  have s: "x_shared x \<or> x_assigned x = None \<or> x_assigned x = Some aid"
  proof (cases "x_assigned x")
    case (Some k)
    then have "k \<noteq> []" using exclusiveD(4) [OF ok x(1) Some] exclusiveD(5) [OF ok] by blast
    with x(2) Some show ?thesis by (auto simp: str_true_def)
  qed simp
  let ?mark = "\<lambda>y. y\<lparr>x_assigned := (if x_shared x then None else Some aid), x_usage := x_usage y + 1\<rparr>"
  let ?d1 = "if int_true (a_proxy a) \<and> a_proxy a \<noteq> Some pid then upd_proxy (the (a_proxy a)) (freed aid) d else d"
  have e: "fst (assign_proxy aid pid d) = upd_account aid (\<lambda>b. b\<lparr>a_proxy := Some pid\<rparr>) (upd_proxy pid ?mark ?d1)"
  proof -
    have c: "(\<not> x_shared x \<and> str_true (x_assigned x) \<and> x_assigned x \<noteq> Some aid) = False" using x(2) by blast
    show ?thesis
      by (simp only: assign_proxy_def x(1,3) c option.case if_False Let_def fst_conv freed_def [abs_def])
  qed
  have "change_proxy aid (Some pid) ?mark (\<lambda>a. a) d = upd_account aid (\<lambda>b. b\<lparr>a_proxy := Some pid\<rparr>) (upd_proxy pid ?mark ?d1)"
  proof (cases "a_proxy a")
    case None
    then show ?thesis unfolding change_proxy_def x(3) by (simp add: Let_def)
  next
    case (Some p)
    then have "0 < p" using held_proxy [OF ok, of aid p] x(3) by (simp add: holds_proxy_def)
    with Some show ?thesis unfolding change_proxy_def x(3) by (cases "p = pid") (simp_all add: Let_def)
  qed
  with x s e that show thesis by auto
qed

lemma assign_fail: "\<not> snd (assign_proxy aid pid d) \<Longrightarrow> fst (assign_proxy aid pid d) = d"
  by (auto simp: assign_proxy_def Let_def split: option.splits if_splits)

lemma assign_exclusive:
  assumes "exclusive d"
  shows "exclusive (fst (assign_proxy aid pid d))"
proof (cases "snd (assign_proxy aid pid d)")
  case True
  then obtain x where x: "get_proxy pid d = Some x" "x_shared x \<or> x_assigned x = None \<or> x_assigned x = Some aid"
    "get_account aid d \<noteq> None"
    "fst (assign_proxy aid pid d) = change_proxy aid (Some pid)
       (\<lambda>y. y\<lparr>x_assigned := (if x_shared x then None else Some aid), x_usage := x_usage y + 1\<rparr>) (\<lambda>a. a) d"
    by (rule assign_is_change [OF assms])
  show ?thesis unfolding x(4) by (rule change_exclusive [OF assms x(3)]) (use x(1,2) in auto)
next
  case False
  with assms show ?thesis by (simp add: assign_fail)
qed

lemma unassign_is_change:
  assumes "unassign_proxy aid d = (e, True)"
  shows "get_account aid d \<noteq> None \<and> e = change_proxy aid None (\<lambda>x. x) (\<lambda>a. a) d"
  using assms
  by (auto simp: unassign_proxy_def change_proxy_def Let_def freed_def [abs_def] dest: get_proxy_id
      split: option.splits if_splits)

lemma unassign_fail: "unassign_proxy aid d = (e, False) \<Longrightarrow> e = d"
  by (auto simp: unassign_proxy_def Let_def split: option.splits if_splits)

lemma unassign_exclusive:
  assumes "exclusive d"
  shows "exclusive (fst (unassign_proxy aid d))"
proof (cases "snd (unassign_proxy aid d)")
  case True
  then have u: "get_account aid d \<noteq> None" "fst (unassign_proxy aid d) = change_proxy aid None (\<lambda>x. x) (\<lambda>a. a) d"
    using unassign_is_change [of aid d "fst (unassign_proxy aid d)"] by (simp_all add: prod_eq_iff)
  show ?thesis unfolding u(2) by (rule change_exclusive [OF assms u(1)]) simp_all
next
  case False
  then have "fst (unassign_proxy aid d) = d" using unassign_fail [of aid d] by (metis prod.collapse)
  with assms show ?thesis by simp
qed

lemma health_marks: "same_marks d (update_proxy_health pid ok now ms d)"
  by (auto simp: same_marks_def update_proxy_health_def ids_upd get_upd_proxy option.map_comp comp_def)

lemma same_marks_refl [simp]: "same_marks d d"
  by (simp add: same_marks_def)

lemma check_health_eq:
  "check_health env pid t t' now st =
     (let (m, d) = st;
          (m1, cached) = cached_health pid t m
      in case cached of
           Some s \<Rightarrow> ((m1, d), s)
         | None \<Rightarrow>
            (case get_proxy pid d of
               None \<Rightarrow> ((m1, d), \<lparr>ps_healthy = False, ps_ms = 0, ps_error = ''<no such proxy>''\<rparr>)
             | Some x \<Rightarrow> book_probe env x pid t' now (m1, d)))"
  by (simp add: check_health_def check_health_during_def Let_def split_beta split: option.split)

lemma book_marks: "same_marks (snd st) (snd (fst (book_probe env x pid t' now st)))"
  using health_marks by (cases st) (simp add: book_probe_def Let_def)

lemma check_marks: "same_marks (snd st) (snd (fst (check_health env pid t t' now st)))"
  using book_marks [where st = "(fst (cached_health pid t (fst st)), snd st)", of env _ pid t' now]
  by (cases st) (simp add: check_health_eq Let_def case_prod_beta split: option.split)

lemma same_marks_trans: "same_marks d e \<Longrightarrow> same_marks e f \<Longrightarrow> same_marks d f"
  by (simp add: same_marks_def)

lemma check_each_marks: "same_marks (snd st) (snd (fst (check_each env pids t t' now st)))"
proof (induction pids arbitrary: st)
  case (Cons pid pids)
  then show ?case using same_marks_trans [OF check_marks Cons.IH]
    by (simp add: case_prod_beta Let_def)
qed simp

lemma delete_exclusive:
  assumes "exclusive (snd st)"
  shows "exclusive (snd (fst (delete_proxy pid st)))"
proof -
  obtain m d where st: "st = (m, d)" by fastforce
  have "snd (fst (delete_proxy pid (m, d))) = d
      \<or> snd (fst (delete_proxy pid (m, d))) = d\<lparr>proxies := filter (\<lambda>y. x_id y \<noteq> pid) (proxies d)\<rparr>
        \<and> \<not> list_ex (\<lambda>a. a_proxy a = Some pid) (accounts d)"
    by (simp add: delete_proxy_def split: option.split)
  then consider (same) "snd (fst (delete_proxy pid st)) = d"
    | (gone) "snd (fst (delete_proxy pid st)) = d\<lparr>proxies := filter (\<lambda>y. x_id y \<noteq> pid) (proxies d)\<rparr>"
        "\<not> list_ex (\<lambda>a. a_proxy a = Some pid) (accounts d)"
    unfolding st by blast
  then show ?thesis
  proof cases
    case same
    then show ?thesis using assms st by simp
  next
    case gone
    let ?e = "d\<lparr>proxies := filter (\<lambda>y. x_id y \<noteq> pid) (proxies d)\<rparr>"
    have ok: "exclusive d" using assms st by simp
    have get: "get_proxy p ?e = (if p = pid then None else get_proxy p d)" for p
    proof -
      have "find_row (\<lambda>x. x_id x = p) (filter (\<lambda>y. x_id y \<noteq> pid) xs) = (if p = pid then None else find_row (\<lambda>x. x_id x = p) xs)" for xs
        by (induction xs) auto
      moreover have "proxies ?e = filter (\<lambda>y. x_id y \<noteq> pid) (proxies d)" by simp
      ultimately show ?thesis unfolding get_proxy_def by metis
    qed
    have holds: "holds_proxy aid p ?e = holds_proxy aid p d" for aid p
      by (simp add: holds_proxy_def get_account_def)
    have no: "\<not> holds_proxy aid pid d" for aid
      using gone(2) by (auto simp: holds_proxy_def get_account_def list_ex_iff dest!: find_row_Some)
    have "exclusive ?e"
    proof (rule exclusiveI)
      show "distinct (map x_id (proxies ?e))" using exclusiveD(1) [OF ok] by (simp add: distinct_map_filter)
      show "get_account [] ?e = None" using ok by (simp add: exclusive_def get_account_def)
      have acc: "get_account k ?e = get_account k d" for k by (simp add: get_account_def)
      show "\<not> x_shared x \<and> get_account aid ?e \<noteq> None"
        if "get_proxy p ?e = Some x" "x_assigned x = Some aid" for p x aid
        using exclusiveD(4) [OF ok] that by (simp add: get acc split: if_splits)
      show "0 < x_id x" if "x \<in> set (proxies ?e)" for x using that ok by (simp add: exclusive_def)
    next
      fix aid p
      assume "holds_proxy aid p ?e"
      then have h: "holds_proxy aid p d" by (simp add: holds)
      then have "p \<noteq> pid" using no by blast
      then show "\<exists>x. get_proxy p ?e = Some x \<and> (x_shared x \<or> x_assigned x = Some aid)"
        using exclusiveD(3) [OF ok h] by (simp add: get)
    qed
    with gone(1) show ?thesis by simp
  qed
qed

section \<open>New and shared proxies\<close>

lemma next_proxy_free: "get_proxy (next_proxy_id d) d = None" "next_proxy_id d \<notin> x_id ` set (proxies d)" "0 < next_proxy_id d"
proof -
  have top: "i \<in> set xs \<Longrightarrow> i \<le> foldr max xs (0::int)" for i xs by (induction xs) auto
  have pos: "0 \<le> foldr max xs (0::int)" for xs by (induction xs) auto
  show new: "next_proxy_id d \<notin> x_id ` set (proxies d)"
    using top [of _ "map x_id (proxies d)"] by (fastforce simp: next_proxy_id_def)
  then show "get_proxy (next_proxy_id d) d = None" by (force simp: get_proxy_def find_row_None image_iff)
  show "0 < next_proxy_id d" using pos [of "map x_id (proxies d)"] by (simp add: next_proxy_id_def)
qed

lemma append_exclusive:
  assumes ok: "exclusive d" and x: "x_id x = next_proxy_id d" "x_assigned x = None"
  shows "exclusive (d\<lparr>proxies := proxies d @ [x]\<rparr>)"
proof (rule exclusiveI)
  let ?e = "d\<lparr>proxies := proxies d @ [x]\<rparr>"
  have "proxies ?e = proxies d @ [x]" by simp
  then have get: "get_proxy p ?e = (case get_proxy p d of None \<Rightarrow> if p = next_proxy_id d then Some x else None | Some y \<Rightarrow> Some y)" for p
    unfolding get_proxy_def using x(1) by (simp add: find_row_append split: option.split)
  have holds: "holds_proxy aid p ?e = holds_proxy aid p d" for aid p by (simp add: holds_proxy_def get_account_def)
  show "distinct (map x_id (proxies ?e))"
    using exclusiveD(1) [OF ok] next_proxy_free(2) [of d] x(1) by simp
  show "0 < x_id y" if "y \<in> set (proxies ?e)" for y
    using that ok next_proxy_free(3) [of d] x(1) by (auto simp: exclusive_def)
  show "get_account [] ?e = None" using ok by (simp add: exclusive_def get_account_def)
  show "\<exists>x. get_proxy p ?e = Some x \<and> (x_shared x \<or> x_assigned x = Some aid)" if "holds_proxy aid p ?e" for aid p
    using exclusiveD(3) [OF ok, of aid p] that by (auto simp: get holds)
  have acc: "get_account k ?e = get_account k d" for k by (simp add: get_account_def)
  show "\<not> x_shared y \<and> get_account aid ?e \<noteq> None" if "get_proxy p ?e = Some y" "x_assigned y = Some aid" for p y aid
    using exclusiveD(4) [OF ok] that x(2) unfolding acc by (auto simp: get split: option.splits if_splits)
qed

lemma share_exclusive:
  assumes ok: "exclusive d" and f: "\<And>x. x_id (f x) = x_id x" "\<And>x. x_shared (f x)" "\<And>x. x_assigned (f x) = None"
  shows "exclusive (upd_proxy pid f d)"
proof (rule exclusiveI)
  let ?e = "upd_proxy pid f d"
  have get: "get_proxy p ?e = (if p = pid then map_option f (get_proxy p d) else get_proxy p d)" for p
    by (rule get_upd_proxy) (rule f(1))
  have holds: "holds_proxy aid p ?e = holds_proxy aid p d" for aid p by (simp add: holds_proxy_def)
  have ids: "map x_id (proxies ?e) = map x_id (proxies d)" by (rule ids_upd) (rule f(1))
  show "distinct (map x_id (proxies ?e))" unfolding ids by (rule exclusiveD(1) [OF ok])
  show "0 < x_id y" if "y \<in> set (proxies ?e)" for y by (rule same_ids_pos [OF ids ok that])
  show "get_account [] ?e = None" using ok by (simp add: exclusive_def)
  show "\<exists>x. get_proxy p ?e = Some x \<and> (x_shared x \<or> x_assigned x = Some aid)" if "holds_proxy aid p ?e" for aid p
    using exclusiveD(3) [OF ok, of aid p] that f(2) by (auto simp: get holds)
  show "\<not> x_shared y \<and> get_account aid ?e \<noteq> None" if "get_proxy p ?e = Some y" "x_assigned y = Some aid" for p y aid
    using exclusiveD(4) [OF ok] that f(3) by (auto simp: get split: if_splits)
qed

lemma find_row_key_proxy: "distinct (map x_id (proxies d)) \<Longrightarrow> y \<in> set (proxies d) \<Longrightarrow> get_proxy (x_id y) d = Some y"
  unfolding get_proxy_def by (rule find_row_key)

lemma add_exclusive: "exclusive d \<Longrightarrow> add_proxy env ty h n u w d = Inr (e, x) \<Longrightarrow> exclusive e"
  by (auto simp: add_proxy_def Let_def split: if_splits intro: append_exclusive)

text \<open>The gateway of a region: shared, and assigned to nobody.\<close>

lemma ensure_region:
  assumes ok: "exclusive d" and e: "ensure_sing_box_proxy_region c d = Inr (d1, x)"
  shows "exclusive d1" "get_proxy (x_id x) d1 = Some x" "x_shared x" "x_assigned x = None"
    "get_account aid d1 = get_account aid d"
proof -
  obtain r where r: "upsert_sing_box_proxy_region r d = Inr (d1, x)"
    using e by (auto simp: ensure_sing_box_proxy_region_def split: sum.splits option.splits)
  consider (new) y where "x = y" "d1 = d\<lparr>proxies := proxies d @ [y]\<rparr>" "x_id y = next_proxy_id d"
      "x_shared y" "x_assigned y = None"
    | (old) y where "y \<in> set (proxies d)" "x = y\<lparr>x_name := Some (r_label r), x_region := Some (r_code r),
        x_gateway := True, x_shared := True, x_assigned := None, x_username := None, x_password := None\<rparr>"
        "d1 = upd_proxy (x_id y) (\<lambda>_. x) d"
    using r by (auto simp: upsert_sing_box_proxy_region_def Let_def dest!: find_row_Some split: option.splits if_splits)
  then have "exclusive d1 \<and> get_proxy (x_id x) d1 = Some x \<and> x_shared x \<and> x_assigned x = None
    \<and> get_account aid d1 = get_account aid d"
  proof cases
    case new
    have "proxies d1 = proxies d @ [x]" using new by simp
    then have "get_proxy (x_id x) d1 = Some x"
      using next_proxy_free(1) [of d] new(1,3) unfolding get_proxy_def by (simp add: find_row_append)
    with new append_exclusive [OF ok new(3,5)] show ?thesis by (simp add: get_account_def)
  next
    case old
    have y: "get_proxy (x_id y) d = Some y"
      using find_row_key_proxy [OF exclusiveD(1) [OF ok] old(1)] .
    have only: "z = y" if "z \<in> set (proxies d)" "x_id z = x_id y" for z
      using that old(1) exclusiveD(1) [OF ok] by (auto simp: distinct_map dest: inj_onD)
    let ?f = "\<lambda>y. y\<lparr>x_name := Some (r_label r), x_region := Some (r_code r), x_gateway := True,
      x_shared := True, x_assigned := None, x_username := None, x_password := None\<rparr>"
    have "upd_where (\<lambda>z. x_id z = x_id y) (\<lambda>_. x) (proxies d) = upd_where (\<lambda>z. x_id z = x_id y) ?f (proxies d)"
      using only old(2) by (auto simp: upd_where_def)
    then have d1: "d1 = upd_proxy (x_id y) ?f d" using old(3) by (simp add: upd_proxy_def)
    have "exclusive d1" unfolding d1 by (rule share_exclusive [OF ok]) simp_all
    moreover have "get_proxy (x_id x) d1 = Some x" unfolding d1 using y old(2) by (simp add: get_upd_proxy)
    ultimately show ?thesis using old(2) d1 by simp
  qed
  then show "exclusive d1" "get_proxy (x_id x) d1 = Some x" "x_shared x" "x_assigned x = None"
    "get_account aid d1 = get_account aid d" by simp_all
qed

section \<open>Logins through a gateway\<close>

lemma release_is_upd:
  "release_proxy (Some p) aid d = upd_proxy p (freed aid) d"
proof -
  have "upd_where (\<lambda>x. x_id x = p \<and> x_assigned x = Some aid) (\<lambda>x. x\<lparr>x_assigned := None\<rparr>) xs
      = upd_where (\<lambda>x. x_id x = p) (freed aid) xs" for xs
    by (induction xs) (auto simp: freed_def)
  then show ?thesis by (simp add: release_proxy_def upd_proxy_def)
qed

lemma await_simps [simp]: "a_id (await_relogin p reason now a) = a_id a" "a_user (await_relogin p reason now a) = a_user a"
    "(await_relogin q reason now a)\<lparr>a_proxy := p\<rparr> = await_relogin p reason now a"
  by (simp_all add: await_relogin_def reset_proxy_observation_def)

lemma upd_proxy_same: "(\<And>x. f x = x) \<Longrightarrow> upd_proxy p f d = d"
proof -
  assume "\<And>x. f x = x"
  then have "upd_where (\<lambda>x. x_id x = p) f xs = xs" for xs by (induction xs) simp_all
  then show ?thesis by (simp add: upd_proxy_def)
qed

text \<open>The row whose endpoint is that of a region: the gateway of the region takes it over.\<close>

definition gateway_row :: "string \<Rightarrow> proxy \<Rightarrow> bool" where
  "gateway_row c y \<longleftrightarrow> (\<exists>n r. normalize_region_code c = Inr n \<and> region_by_code n = Some r
     \<and> x_type y = ''socks5'' \<and> x_host y = r_host r \<and> x_port y = r_port r)"

lemma region_others:
  assumes "ensure_sing_box_proxy_region c d = Inr (d1, x)" "get_proxy p d = Some y"
    and dist: "distinct (map x_id (proxies d))"
  shows "get_proxy p d1 = Some y \<or> gateway_row c y"
proof -
  obtain n r where r: "normalize_region_code c = Inr n" "region_by_code n = Some r"
    "upsert_sing_box_proxy_region r d = Inr (d1, x)"
    using assms(1) by (auto simp: ensure_sing_box_proxy_region_def split: sum.splits option.splits)
  let ?P = "\<lambda>x. x_type x = ''socks5'' \<and> x_host x = r_host r \<and> x_port x = r_port r"
  show ?thesis
  proof (cases "find_row ?P (proxies d)")
    case None
    then have "proxies d1 = proxies d @ [x]" using r(3) by (auto simp: upsert_sing_box_proxy_region_def Let_def)
    then show ?thesis using assms(2) by (simp add: get_proxy_def find_row_append)
  next
    case (Some z)
    then have z: "?P z" "z \<in> set (proxies d)" by (auto dest: find_row_Some)
    have d1: "d1 = upd_proxy (x_id z) (\<lambda>_. x) d" and x: "x_id x = x_id z"
      using r(3) Some by (auto simp: upsert_sing_box_proxy_region_def Let_def split: if_splits)
    show ?thesis
    proof (cases "p = x_id z")
      case True
      then have "y = z" using find_row_key_proxy [OF dist z(2)] assms(2) by simp
      then show ?thesis using z(1) r(1,2) by (auto simp: gateway_row_def)
    next
      case False
      have "find_row (\<lambda>w. x_id w = p) (upd_where (\<lambda>w. x_id w = x_id z) (\<lambda>_. x) (proxies d))
          = find_row (\<lambda>w. x_id w = p) (proxies d)"
        using False x by (intro find_row_upd_other) simp
      then show ?thesis using assms(2) by (simp add: d1 get_proxy_def upd_proxy_def)
    qed
  qed
qed

lemma select_is_change:
  assumes ok: "exclusive d" and s: "select_reauth_proxy_for_account uid aid region now d = Inr (e, x)"
  obtains a d1 where "get_account aid d = Some a" "a_user a = uid" "ensure_sing_box_proxy_region region d = Inr (d1, x)"
    "get_account aid d1 = Some a"
    "e = change_proxy aid (Some (x_id x)) (\<lambda>y. y) (await_relogin None ''proxy_region_selected'' now) d1"
proof -
  obtain a d1 where a: "get_account aid d = Some a" "a_user a = uid"
    and r: "ensure_sing_box_proxy_region region d = Inr (d1, x)"
    and e: "e = upd_account aid (await_relogin (Some (x_id x)) ''proxy_region_selected'' now)
      (if int_true (a_proxy a) \<and> a_proxy a \<noteq> Some (x_id x) then release_proxy (a_proxy a) aid d1 else d1)"
    using s by (auto simp: select_reauth_proxy_for_account_def Let_def split: option.splits sum.splits if_splits)
  note g = ensure_region [OF ok r]
  have a1: "get_account aid d1 = Some a" using g(5) a(1) by simp
  have e': "e = change_proxy aid (Some (x_id x)) (\<lambda>y. y) (await_relogin None ''proxy_region_selected'' now) d1"
  proof (cases "a_proxy a")
    case None
    then show ?thesis using e a1 by (simp add: change_proxy_def Let_def upd_proxy_same)
  next
    case (Some p)
    then have "0 < p" using held_proxy [OF g(1), of aid p] a1 by (simp add: holds_proxy_def)
    then show ?thesis using e a1 Some by (cases "p = x_id x") (simp_all add: change_proxy_def Let_def upd_proxy_same release_is_upd)
  qed
  with a r a1 show thesis by (rule that)
qed

lemma select_exclusive:
  assumes ok: "exclusive d" and s: "select_reauth_proxy_for_account uid aid region now d = Inr (e, x)"
  shows "exclusive e"
proof (rule select_is_change [OF ok s])
  fix a d1
  assume a: "get_account aid d1 = Some a" and r: "ensure_sing_box_proxy_region region d = Inr (d1, x)"
    and e: "e = change_proxy aid (Some (x_id x)) (\<lambda>y. y) (await_relogin None ''proxy_region_selected'' now) d1"
  note g = ensure_region [OF ok r]
  show ?thesis unfolding e by (rule change_exclusive [OF g(1)]) (use a g(2-4) in simp_all)
qed

lemma route_is_change:
  assumes s: "resolve_reauth_login_route uid aid now d = Inr (e, r)"
  obtains a where "get_account aid d = Some a" "a_user a = uid"
    "e = d \<or> e = change_proxy aid None (\<lambda>y. y) (await_relogin None ''proxy_unavailable_direct'' now) d"
proof -
  obtain a where a: "get_account aid d = Some a" "a_user a = uid"
    using s by (auto simp: resolve_reauth_login_route_def split: option.splits if_splits)
  have "e = d \<or> (int_true (a_proxy a) \<and> e = upd_account aid (await_relogin None ''proxy_unavailable_direct'' now) (release_proxy (a_proxy a) aid d))"
    using s a by (auto simp: resolve_reauth_login_route_def split: option.splits if_splits)
  then have "e = d \<or> e = change_proxy aid None (\<lambda>y. y) (await_relogin None ''proxy_unavailable_direct'' now) d"
  proof
    assume e: "int_true (a_proxy a) \<and> e = upd_account aid (await_relogin None ''proxy_unavailable_direct'' now) (release_proxy (a_proxy a) aid d)"
    then obtain p where p: "a_proxy a = Some p" by (cases "a_proxy a") auto
    then show ?thesis using e a by (simp add: change_proxy_def Let_def release_is_upd)
  qed simp
  with a show thesis by (rule that)
qed

lemma route_exclusive:
  assumes ok: "exclusive d" and s: "resolve_reauth_login_route uid aid now d = Inr (e, r)"
  shows "exclusive e"
proof (rule route_is_change [OF s])
  fix a
  assume a: "get_account aid d = Some a"
    and e: "e = d \<or> e = change_proxy aid None (\<lambda>y. y) (await_relogin None ''proxy_unavailable_direct'' now) d"
  have "exclusive (change_proxy aid None (\<lambda>y. y) (await_relogin None ''proxy_unavailable_direct'' now) d)"
    by (rule change_exclusive [OF ok]) (use a in simp_all)
  with e ok show ?thesis by auto
qed

section \<open>An account that loses its link\<close>

lemma unlink_exclusive:
  assumes ok: "exclusive d"
  shows "exclusive (upd_account aid (\<lambda>b. b\<lparr>a_proxy := None\<rparr>) d)"
proof -
  let ?e = "upd_account aid (\<lambda>b. b\<lparr>a_proxy := None\<rparr>) d"
  have acc: "get_account k ?e = (if k = aid then map_option (\<lambda>b. b\<lparr>a_proxy := None\<rparr>) (get_account k d)
      else get_account k d)" for k
    by (rule get_upd_account) simp
  have "holds_proxy k p d" if "holds_proxy k p ?e" for k p
    using that by (auto simp: holds_proxy_def acc split: if_splits)
  moreover have "get_account k ?e = None \<longleftrightarrow> get_account k d = None" for k by (auto simp: acc)
  moreover have "get_proxy p ?e = get_proxy p d" "proxies ?e = proxies d" for p by simp_all
  ultimately show ?thesis using ok unfolding exclusive_def by metis
qed

end
