(* ===== verification/ProxyProps.thy ===== *)
theory ProxyProps
  imports ProxyFacts
begin

text \<open>
  The properties of the proxy pool: proxies that are not shared have one holder, users change
  only what is theirs, a verified proxy or none, and the cache of the checks.
\<close>

section \<open>Reachable databases\<close>

text \<open>
  One database session after the other, of whoever: what a check, a request or the check before
  a connection does is a sequence of them, with those of others in between. Accounts appear
  without a proxy; an account that is deleted gives its proxies back; every other part of the
  backend, and the cache of the manager, leaves the columns in question alone.
\<close>

inductive proxy_step :: "'m probe_env_scheme \<Rightarrow> manager \<times> db \<Rightarrow> manager \<times> db \<Rightarrow> bool" for env where
  add: "add_proxy env ty h n u w (snd st) = Inr (e, x) \<Longrightarrow> proxy_step env st (fst st, e)"
| delete: "proxy_step env st (fst (delete_proxy pid st))"
| assign: "proxy_step env st (fst st, fst (assign_proxy aid pid (snd st)))"
| unassign: "proxy_step env st (fst st, fst (unassign_proxy aid (snd st)))"
| unlink: "proxy_step env st (fst st, upd_account aid (\<lambda>b. b\<lparr>a_proxy := None\<rparr>) (snd st))"
| book: "proxy_step env st (fst (book_probe env x pid t' now st))"
| select: "select_reauth_proxy_for_account uid aid region now (snd st) = Inr (e, x) \<Longrightarrow> proxy_step env st (fst st, e)"
| route: "resolve_reauth_login_route uid aid now (snd st) = Inr (e, r) \<Longrightarrow> proxy_step env st (fst st, e)"
| join: "a_id a \<noteq> [] \<Longrightarrow> a_proxy a = None \<Longrightarrow> get_account (a_id a) d = None
    \<Longrightarrow> proxy_step env (m, d) (m, d\<lparr>accounts := accounts d @ [a]\<rparr>)"
| leave: "proxy_step env (m, d) (m, d\<lparr>accounts := filter (\<lambda>a. a_id a \<noteq> aid) (accounts d),
    proxies := map (freed aid) (proxies d)\<rparr>)"
| other: "same_marks d e \<Longrightarrow> proxy_step env (m, d) (m', e)"

definition proxies_reached :: "'m probe_env_scheme \<Rightarrow> manager \<times> db \<Rightarrow> bool" where
  "proxies_reached env st \<longleftrightarrow> (\<exists>gen. (proxy_step env)\<^sup>*\<^sup>* (new_manager, empty_db gen) st)"

lemma join_exclusive:
  assumes ok: "exclusive d" and a: "a_id a \<noteq> []" "a_proxy a = None" "get_account (a_id a) d = None"
  shows "exclusive (d\<lparr>accounts := accounts d @ [a]\<rparr>)"
proof -
  let ?e = "d\<lparr>accounts := accounts d @ [a]\<rparr>"
  have "accounts ?e = accounts d @ [a]" by simp
  then have get: "get_account k ?e = (case get_account k d of None \<Rightarrow> if a_id a = k then Some a else None | Some b \<Rightarrow> Some b)" for k
    unfolding get_account_def by (simp add: find_row_append split: option.split)
  have "holds_proxy k p ?e = holds_proxy k p d" for k p
    unfolding holds_proxy_def get using a(2) by (auto split: option.splits)
  moreover have "get_proxy p ?e = get_proxy p d" for p by (simp add: get_proxy_def)
  moreover have "get_account k d \<noteq> None \<Longrightarrow> get_account k ?e \<noteq> None" for k unfolding get by auto
  ultimately show ?thesis using ok a(1) unfolding exclusive_def by (simp add: get)
qed

lemma leave_exclusive:
  assumes ok: "exclusive d"
  shows "exclusive (d\<lparr>accounts := filter (\<lambda>a. a_id a \<noteq> aid) (accounts d), proxies := map (freed aid) (proxies d)\<rparr>)"
    (is "exclusive ?e")
proof -
  have rows: "accounts ?e = filter (\<lambda>a. a_id a \<noteq> aid) (accounts d)" "proxies ?e = map (freed aid) (proxies d)" by simp_all
  have "find_row (\<lambda>a. a_id a = k) (filter (\<lambda>a. a_id a \<noteq> aid) xs) = (if k = aid then None else find_row (\<lambda>a. a_id a = k) xs)"
    for k and xs :: "account list" by (induction xs) auto
  then have acc: "get_account k ?e = (if k = aid then None else get_account k d)" for k
    unfolding get_account_def rows .
  have "find_row (\<lambda>x. x_id x = p) (map (freed aid) xs) = map_option (freed aid) (find_row (\<lambda>x. x_id x = p) xs)"
    for p xs by (induction xs) auto
  then have get: "get_proxy p ?e = map_option (freed aid) (get_proxy p d)" for p
    unfolding get_proxy_def rows .
  have holds: "holds_proxy k p ?e \<longleftrightarrow> k \<noteq> aid \<and> holds_proxy k p d" for k p
    by (simp add: holds_proxy_def acc)
  show ?thesis
  proof (rule exclusiveI)
    show "distinct (map x_id (proxies ?e))" using exclusiveD(1) [OF ok] by (simp add: comp_def)
    show "0 < x_id x" if "x \<in> set (proxies ?e)" for x using that ok by (auto simp: exclusive_def)
    show "get_account [] ?e = None" using ok by (simp add: acc exclusive_def)
    show "\<exists>x. get_proxy p ?e = Some x \<and> (x_shared x \<or> x_assigned x = Some k)" if "holds_proxy k p ?e" for k p
      using exclusiveD(3) [OF ok, of k p] that by (auto simp: get holds)
    show "\<not> x_shared y \<and> get_account k ?e \<noteq> None" if "get_proxy p ?e = Some y" "x_assigned y = Some k" for p y k
      using exclusiveD(4) [OF ok] that by (auto simp: get acc split: if_splits)
  qed
qed

lemma proxy_step_exclusive: "proxy_step env st st' \<Longrightarrow> exclusive (snd st) \<Longrightarrow> exclusive (snd st')"
proof (induction rule: proxy_step.induct)
  case (add ty h n u w st e x) then show ?case using add_exclusive by simp
next
  case (delete st pid) then show ?case by (rule delete_exclusive)
next
  case (assign st aid pid) then show ?case by (simp add: assign_exclusive)
next
  case (unassign st aid) then show ?case by (simp add: unassign_exclusive)
next
  case (unlink st aid) then show ?case by (simp add: unlink_exclusive)
next
  case (book st x pid t' now) then show ?case by (rule same_marks_exclusive [OF book_marks])
next
  case (select uid aid region now st e x) then show ?case using select_exclusive by simp
next
  case (route uid aid now st e r) then show ?case using route_exclusive by simp
next
  case (join a d m) then show ?case using join_exclusive by simp
next
  case (leave m d aid) then show ?case using leave_exclusive by simp
next
  case (other d e m m') then show ?case using same_marks_exclusive by simp
qed

lemma reached_exclusive:
  assumes "proxies_reached env st"
  shows "exclusive (snd st)"
proof -
  obtain gen where "(proxy_step env)\<^sup>*\<^sup>* (new_manager, empty_db gen) st" using assms by (auto simp: proxies_reached_def)
  then show ?thesis
  proof (induction rule: rtranclp_induct)
    case base
    show ?case by (simp add: exclusive_def holds_proxy_def get_account_def get_proxy_def empty_db_def)
  next
    case (step st st')
    then show ?case using proxy_step_exclusive by blast
  qed
qed

text \<open>The code takes these steps: a check, the check before a connection, a request of a user.\<close>

lemma lookup_step: "(proxy_step env)\<^sup>*\<^sup>* st (fst (cached_health pid t (fst st)), snd st)"
proof (cases st)
  case (Pair m d)
  have "proxy_step env (m, d) (fst (cached_health pid t m), d)" by (rule proxy_step.other) simp
  with Pair show ?thesis by simp
qed

lemma check_steps:
  assumes gap: "\<And>n st. (proxy_step env)\<^sup>*\<^sup>* st (gap n st)"
  shows "(proxy_step env)\<^sup>*\<^sup>* st (fst (check_health_during env gap pid t t' now st))"
proof -
  let ?m = "fst (cached_health pid t (fst st))"
  have 1: "(proxy_step env)\<^sup>*\<^sup>* st (?m, snd st)" by (rule lookup_step)
  have 2: "(proxy_step env)\<^sup>*\<^sup>* st (gap 0 (?m, snd st))" by (rule rtranclp_trans [OF 1 gap])
  have "(proxy_step env)\<^sup>*\<^sup>* st (fst (book_probe env x pid t' now (gap 1 (gap 0 (?m, snd st)))))" for x
    by (rule rtranclp.rtrancl_into_rtrancl [OF rtranclp_trans [OF 2 gap] proxy_step.book])
  with 1 2 show ?thesis by (simp add: check_health_during_def Let_def split_beta split: option.split)
qed

lemma ensure_steps:
  assumes gap: "\<And>n st. (proxy_step env)\<^sup>*\<^sup>* st (gap n st)"
  shows "(proxy_step env)\<^sup>*\<^sup>* st (fst (ensure_account_proxy env gap aid t t' now st))"
proof -
  have 0: "(proxy_step env)\<^sup>*\<^sup>* st (gap 0 st)" by (rule gap)
  have c: "(proxy_step env)\<^sup>*\<^sup>* st (fst (check_health_during env (\<lambda>n. gap (n + 1)) pid t t' now (gap 0 st)))" for pid
    by (rule rtranclp_trans [OF 0 check_steps]) (rule gap)
  have drop: "(proxy_step env)\<^sup>*\<^sup>* st (case gap 3 u of (m2, d2) \<Rightarrow>
      case gap 4 (m2, fst (unassign_proxy aid d2)) of (m3, d3) \<Rightarrow>
        (m3, upd_account aid (\<lambda>b. b\<lparr>a_proxy := None\<rparr>) d3))"
    if "(proxy_step env)\<^sup>*\<^sup>* st u" for u
  proof -
    obtain m2 d2 where g3: "gap 3 u = (m2, d2)" by fastforce
    obtain m3 d3 where g4: "gap 4 (m2, fst (unassign_proxy aid d2)) = (m3, d3)" by fastforce
    have "(proxy_step env)\<^sup>*\<^sup>* st (m2, d2)" using rtranclp_trans [OF that gap, of 3] g3 by simp
    then have "(proxy_step env)\<^sup>*\<^sup>* st (m2, fst (unassign_proxy aid d2))"
      using proxy_step.unassign [of env "(m2, d2)" aid] by simp
    moreover have "(proxy_step env)\<^sup>*\<^sup>* (m2, fst (unassign_proxy aid d2)) (m3, d3)"
      using gap [of "(m2, fst (unassign_proxy aid d2))" 4] g4 by simp
    ultimately have "(proxy_step env)\<^sup>*\<^sup>* st (m3, d3)" by (rule rtranclp_trans)
    then show ?thesis using proxy_step.unlink [of env "(m3, d3)" aid] g3 g4 by simp
  qed
  show ?thesis
    using 0 c drop [OF 0] drop [OF c]
    by (auto simp: ensure_account_proxy_def Let_def split_beta split: option.split)
qed

lemma user_steps: "(proxy_step env)\<^sup>*\<^sup>* st (serve_user env uid req t t' now st)"
proof (cases req)
  case (AddProxy ty host port username password)
  then show ?thesis
    by (auto simp: serve_user_def user_add_proxy_def split: sum.splits option.splits prod.splits
        intro: proxy_step.add r_into_rtranclp)
next
  case (CheckProxy pid)
  have "(proxy_step env)\<^sup>*\<^sup>* st (fst (check_health env pid t t' now st))"
    unfolding check_health_def by (rule check_steps) simp
  with CheckProxy show ?thesis
    by (simp add: serve_user_def user_check_proxy_def case_prod_beta Let_def split: sum.splits)
next
  case (DeleteProxy pid)
  then show ?thesis using proxy_step.delete [of env st pid]
    by (auto simp: serve_user_def user_delete_proxy_def case_prod_beta Let_def split: sum.splits)
next
  case (AssignProxy pid aid)
  then show ?thesis using proxy_step.assign [of env st aid pid]
    by (auto simp: serve_user_def user_assign_proxy_def case_prod_beta Let_def split: sum.splits option.splits)
next
  case (UnassignProxy pid)
  then show ?thesis using proxy_step.unassign [of env st]
    by (auto simp: serve_user_def user_unassign_proxy_def case_prod_beta Let_def split: sum.splits)
next
  case (ChooseRegion aid region)
  then show ?thesis
    by (auto simp: serve_user_def split: sum.splits intro: proxy_step.select r_into_rtranclp)
next
  case (LoginRoute aid)
  then show ?thesis
    by (auto simp: serve_user_def split: sum.splits intro: proxy_step.route r_into_rtranclp)
qed

text \<open>A sample: two users, each with an account, one proxy.\<close>

definition sample_probe :: probe_env where
  "sample_probe = \<lparr>px_api = Some 1, px_hash = Some ''h'', px_seal = (\<lambda>s. s), px_unseal = Inr,
     px_probe = (\<lambda>c api hash. if pc_addr c = ''down'' then Inl ''ConnectionError: down'' else Inr 30)\<rparr>"

definition plain_account :: "string \<Rightarrow> int \<Rightarrow> account" where
  "plain_account aid uid = \<lparr>a_id = aid, a_user = uid, a_tg = Some uid, a_username = None, a_first_name = None,
     a_phone = None, a_proxy = None, a_active = True, a_banned = False, a_health = Online, a_flooding = False,
     a_flood_until = None, a_reauth = False, a_reauth_reason = None, a_reauth_at = None, a_obs_started = None,
     a_obs_until = None, a_obs_count = 0, a_weight = 100, a_sent = 0, a_last_used = None, a_created = 0\<rparr>"

definition two_accounts :: db where
  "two_accounts = (let d = empty_db (\<lambda>_. ''x'');
       d1 = d\<lparr>accounts := accounts d @ [plain_account ''a'' 7]\<rparr>
     in d1\<lparr>accounts := accounts d1 @ [plain_account ''b'' 8]\<rparr>)"

definition held_state :: "manager \<times> db" where
  "held_state = serve_user sample_probe 7 (AssignProxy 1 ''a'') 0 0 0
     (serve_user sample_probe 7 (AddProxy None (Some ''down'') (Some 1080) None None) 0 0 0 (new_manager, two_accounts))"

lemma more_reached: "proxies_reached env st \<Longrightarrow> proxy_step env st st' \<Longrightarrow> proxies_reached env st'"
  unfolding proxies_reached_def by (meson rtranclp.rtrancl_into_rtrancl)

lemma two_accounts_reached: "proxies_reached sample_probe (new_manager, two_accounts)"
proof -
  have "proxies_reached sample_probe (new_manager, empty_db (\<lambda>_. ''x''))" by (auto simp: proxies_reached_def)
  then show ?thesis unfolding two_accounts_def Let_def
    by (intro more_reached [OF more_reached, OF _ proxy_step.join proxy_step.join])
      (simp_all add: plain_account_def get_account_def empty_db_def)
qed

lemma run_reached: "proxies_reached env st \<Longrightarrow> (proxy_step env)\<^sup>*\<^sup>* st st' \<Longrightarrow> proxies_reached env st'"
  unfolding proxies_reached_def by (meson rtranclp_trans)

lemma held_reached: "proxies_reached sample_probe held_state"
  unfolding held_state_def by (intro run_reached [OF _ user_steps] two_accounts_reached)

section \<open>One holder\<close>

text \<open>
  C22: In every database that sessions of users, of the checks before connections, of logins and
  of everybody else reach, one database session after the other in whatever order: a shared
  proxy is assigned to nobody, and a proxy that is not shared is held by no account but the one
  it is assigned to, so never by two. (The converse fails: see \<open>stale_fallback_strands_a_proxy\<close>.)
\<close>

theorem proxies_have_one_holder:
  assumes "proxies_reached env (m, d)"
  shows "case get_proxy pid d of
      None \<Rightarrow> \<not> holds_proxy aid pid d
    | Some x \<Rightarrow> if x_shared x then x_assigned x = None
        else (holds_proxy aid pid d \<longrightarrow> x_assigned x = Some aid)
           \<and> (holds_proxy aid pid d \<longrightarrow> holds_proxy bid pid d \<longrightarrow> aid = bid)"
proof -
  have ok: "exclusive d" using reached_exclusive [OF assms] by simp
  show ?thesis
  proof (cases "get_proxy pid d")
    case None
    then show ?thesis using exclusiveD(3) [OF ok, of aid pid] by auto
  next
    case (Some x)
    then show ?thesis
      using exclusiveD(3) [OF ok, of aid pid] exclusiveD(4) [OF ok Some] one_holder [OF ok, of aid pid bid x]
      by (cases "x_assigned x") auto
  qed
qed

theorem proxies_have_one_holder_witness:
  "holds_proxy ''a'' 1 (snd held_state) \<and> \<not> holds_proxy ''b'' 1 (snd held_state)"
proof -
  have r: "proxies_reached sample_probe (fst held_state, snd held_state)" using held_reached by simp
  have g: "map_option (\<lambda>x. (x_shared x, x_assigned x)) (get_proxy 1 (snd held_state)) = Some (False, Some ''a'')" by code_simp
  then obtain x where x: "get_proxy 1 (snd held_state) = Some x" "\<not> x_shared x" "x_assigned x = Some ''a''" by auto
  have "map_option a_proxy (get_account ''a'' (snd held_state)) = Some (Some 1)" by code_simp
  then have h: "holds_proxy ''a'' 1 (snd held_state)" by (auto simp: holds_proxy_def)
  show ?thesis
    using proxies_have_one_holder [OF r, where pid = 1 and aid = "''b''" and bid = "''a''"] x h by auto
qed

text \<open>
  The last session of the fallback of an account clears whatever link the account has by then: a
  proxy assigned to it after the first session stays assigned to an account that does not hold
  it. It can be neither released nor deleted.
\<close>

definition other_proxy_meanwhile :: "nat \<Rightarrow> manager \<times> db \<Rightarrow> manager \<times> db" where
  "other_proxy_meanwhile n st = (if n = 4 then serve_user sample_probe 7 (AssignProxy 2 ''a'') 0 0 0 st else st)"

definition stranded_state :: "manager \<times> db" where
  "stranded_state = fst (ensure_account_proxy sample_probe other_proxy_meanwhile ''a'' 0 1 0
     (serve_user sample_probe 7 (AddProxy None (Some ''up'') (Some 1080) None None) 0 0 0 held_state))"

lemma stale_fallback_strands_a_proxy:
  "map_option x_assigned (get_proxy 2 (snd stranded_state)) = Some (Some ''a'')
   \<and> map_option a_proxy (get_account ''a'' (snd stranded_state)) = Some None
   \<and> snd (user_unassign_proxy 7 2 (snd stranded_state)) = Inl (Http 400 ''<proxy not released>'')
   \<and> snd (user_delete_proxy 7 2 stranded_state) = Inl (Http 400 ''<proxy not deleted>'')"
  by code_simp

section \<open>Other users\<close>

lemma permission: "check_account_permission aid uid d = Inr a \<Longrightarrow> get_account aid d = Some a \<and> a_user a = uid"
  by (auto simp: check_account_permission_def split: option.splits if_splits)

lemma proxy_permission:
  "check_proxy_permission pid uid d = Inr x \<Longrightarrow> get_proxy pid d = Some x
    \<and> (str_true (x_assigned x) \<longrightarrow> (\<exists>a. get_account (the (x_assigned x)) d = Some a \<and> a_user a = uid))"
  by (auto simp: check_proxy_permission_def and_then_Inr dest!: permission split: option.splits if_splits)

text \<open>
  What belongs to other users: their accounts, and the proxies assigned to these, but for the
  proxies with the property \<open>E\<close>.
\<close>

definition others_kept :: "int \<Rightarrow> (proxy \<Rightarrow> bool) \<Rightarrow> db \<Rightarrow> db \<Rightarrow> bool" where
  "others_kept uid E d e \<longleftrightarrow>
     (\<forall>aid a. get_account aid d = Some a \<longrightarrow> a_user a \<noteq> uid \<longrightarrow> get_account aid e = Some a
        \<and> (\<forall>pid x. get_proxy pid d = Some x \<longrightarrow> x_assigned x = Some aid \<longrightarrow> get_proxy pid e = Some x \<or> E x))"

lemma others_kept_refl [simp]: "others_kept uid E d d"
  by (simp add: others_kept_def)

lemma others_kept_trans:
  assumes 1: "others_kept uid E d d1" and 2: "others_kept uid E d1 e"
  shows "others_kept uid E d e"
  unfolding others_kept_def
proof (intro allI impI conjI)
  fix aid a assume a: "get_account aid d = Some a" "a_user a \<noteq> uid"
  then have a1: "get_account aid d1 = Some a" using 1 by (simp add: others_kept_def)
  then show "get_account aid e = Some a" using 2 a(2) by (simp add: others_kept_def)
  fix pid x assume x: "get_proxy pid d = Some x" "x_assigned x = Some aid"
  then have "get_proxy pid d1 = Some x \<or> E x" using 1 a by (simp add: others_kept_def)
  then show "get_proxy pid e = Some x \<or> E x"
    using 2 a1 a(2) x(2) unfolding others_kept_def by blast
qed

lemma change_others:
  assumes a: "get_account aid d = Some b" "a_user b = uid"
    and f: "\<And>a. a_id (f a) = a_id a" and mark: "\<And>x. x_id (mark x) = x_id x"
    and new: "\<And>n x. new = Some n \<Longrightarrow> get_proxy n d = Some x \<Longrightarrow> x_assigned x = None \<or> x_assigned x = Some aid"
  shows "others_kept uid E d (change_proxy aid new mark f d)"
  unfolding others_kept_def
proof (intro allI impI conjI)
  fix k c
  assume c: "get_account k d = Some c" "a_user c \<noteq> uid"
  then have k: "k \<noteq> aid" using a by auto
  then show "get_account k (change_proxy aid new mark f d) = Some c" using c by (simp add: change_account [OF f])
  fix pid x
  assume x: "get_proxy pid d = Some x" "x_assigned x = Some k"
  have "new \<noteq> Some pid" using new [OF _ x(1)] x(2) k by auto
  moreover have "freed aid x = x" using x(2) k by (simp add: freed_def)
  ultimately show "get_proxy pid (change_proxy aid new mark f d) = Some x \<or> E x"
    using x(1) by (simp add: change_get [of mark, OF mark])
qed

lemma check_health_others:
  assumes "check_proxy_permission pid uid d = Inr x" "exclusive d"
  shows "others_kept uid E d (snd (fst (check_health env pid t t' now (m, d))))"
proof -
  have x: "get_proxy pid d = Some x" "str_true (x_assigned x) \<longrightarrow> (\<exists>a. get_account (the (x_assigned x)) d = Some a \<and> a_user a = uid)"
    using proxy_permission [OF assms(1)] by simp_all
  have "snd (fst (check_health env pid t t' now (m, d))) = d
      \<or> (\<exists>ok ms. snd (fst (check_health env pid t t' now (m, d))) = update_proxy_health pid ok now ms d)"
    by (auto simp: check_health_eq book_probe_def Let_def case_prod_beta split: option.split)
  moreover have "others_kept uid E d (update_proxy_health pid ok now ms d)" for ok ms
    unfolding others_kept_def
  proof (intro allI impI conjI)
    fix k c
    assume c: "get_account k d = Some c" "a_user c \<noteq> uid"
    then show "get_account k (update_proxy_health pid ok now ms d) = Some c" by (simp add: update_proxy_health_def)
    fix p y
    assume y: "get_proxy p d = Some y" "x_assigned y = Some k"
    have "k \<noteq> []" by (rule exclusiveD(5) [OF assms(2) c(1)])
    then have "p \<noteq> pid" using x y c by (auto simp: str_true_def)
    then show "get_proxy p (update_proxy_health pid ok now ms d) = Some y \<or> E y"
      using y(1) by (simp add: update_proxy_health_def get_upd_proxy)
  qed
  ultimately show ?thesis by (metis others_kept_refl)
qed

lemma add_others: "add_proxy env ty h n u w d = Inr (e, x) \<Longrightarrow> others_kept uid E d e"
proof -
  assume "add_proxy env ty h n u w d = Inr (e, x)"
  then have e: "accounts e = accounts d" "proxies e = proxies d @ [x]" by (auto simp: add_proxy_def Let_def split: if_splits)
  show ?thesis unfolding others_kept_def get_account_def get_proxy_def e by (simp add: find_row_append)
qed

lemma delete_others:
  assumes "exclusive d" "check_proxy_permission pid uid d = Inr x"
  shows "others_kept uid E d (snd (fst (delete_proxy pid (m, d))))"
proof -
  have "snd (fst (delete_proxy pid (m, d))) = d
      \<or> snd (fst (delete_proxy pid (m, d))) = d\<lparr>proxies := filter (\<lambda>y. x_id y \<noteq> pid) (proxies d)\<rparr> \<and> \<not> str_true (x_assigned x)"
    using proxy_permission [OF assms(2)] by (auto simp: delete_proxy_def)
  then show ?thesis
  proof
    assume e: "snd (fst (delete_proxy pid (m, d))) = d\<lparr>proxies := filter (\<lambda>y. x_id y \<noteq> pid) (proxies d)\<rparr> \<and> \<not> str_true (x_assigned x)"
    have find: "p \<noteq> pid \<Longrightarrow> find_row (\<lambda>x. x_id x = p) (filter (\<lambda>y. x_id y \<noteq> pid) xs) = find_row (\<lambda>x. x_id x = p) xs" for p xs
      by (induction xs) auto
    have "p \<noteq> pid" if "get_account k d = Some c" "get_proxy p d = Some y" "x_assigned y = Some k" for k c p y
      using that proxy_permission [OF assms(2)] e exclusiveD(5) [OF assms(1) that(1)] by (auto simp: str_true_def)
    moreover have "get_proxy p (snd (fst (delete_proxy pid (m, d)))) = get_proxy p d" if "p \<noteq> pid" for p
      using e find [OF that, of "proxies d"] by (simp add: get_proxy_def)
    moreover have "get_account k (snd (fst (delete_proxy pid (m, d)))) = get_account k d" for k
      using e by (simp add: get_account_def)
    ultimately show ?thesis unfolding others_kept_def by metis
  qed simp
qed

lemma assign_others:
  assumes ok: "exclusive d" and a: "check_account_permission aid uid d = Inr b"
  shows "others_kept uid E d (fst (assign_proxy aid pid d))"
proof (cases "snd (assign_proxy aid pid d)")
  case True
  then obtain x where x: "get_proxy pid d = Some x" "x_shared x \<or> x_assigned x = None \<or> x_assigned x = Some aid"
    "get_account aid d \<noteq> None"
    "fst (assign_proxy aid pid d) = change_proxy aid (Some pid)
       (\<lambda>y. y\<lparr>x_assigned := (if x_shared x then None else Some aid), x_usage := x_usage y + 1\<rparr>) (\<lambda>a. a) d"
    by (rule assign_is_change [OF ok])
  have "x_assigned x = None \<or> x_assigned x = Some aid"
    using x(2) exclusiveD(4) [OF ok x(1)] by (cases "x_assigned x") auto
  then show ?thesis unfolding x(4) by (intro change_others) (use permission [OF a] x(1) in auto)
qed (simp add: assign_fail)

lemma unassign_others:
  assumes ok: "exclusive d" and p: "check_proxy_permission pid uid d = Inr x" and t: "str_true (x_assigned x)"
  shows "others_kept uid E d (fst (unassign_proxy (the (x_assigned x)) d))"
proof (cases "snd (unassign_proxy (the (x_assigned x)) d)")
  case True
  let ?k = "the (x_assigned x)"
  have u: "fst (unassign_proxy ?k d) = change_proxy ?k None (\<lambda>x. x) (\<lambda>a. a) d"
    using unassign_is_change [of ?k d "fst (unassign_proxy ?k d)"] True by (simp add: prod_eq_iff)
  obtain a where "get_account ?k d = Some a" "a_user a = uid" using proxy_permission [OF p] t by auto
  then show ?thesis unfolding u by (intro change_others) auto
next
  case False
  then have "fst (unassign_proxy (the (x_assigned x)) d) = d"
    using unassign_fail [of "the (x_assigned x)" d] by (metis prod.collapse)
  then show ?thesis by simp
qed

lemma choose_others:
  assumes ok: "exclusive d" and s: "select_reauth_proxy_for_account uid aid region now d = Inr (e, x)"
  shows "others_kept uid (gateway_row region) d e"
proof (rule select_is_change [OF ok s])
  fix a d1
  assume a: "get_account aid d1 = Some a" "a_user a = uid" and r: "ensure_sing_box_proxy_region region d = Inr (d1, x)"
    and e: "e = change_proxy aid (Some (x_id x)) (\<lambda>y. y) (await_relogin None ''proxy_region_selected'' now) d1"
  note g = ensure_region [OF ok r]
  have "others_kept uid (gateway_row region) d d1"
    using region_others [OF r _ exclusiveD(1) [OF ok]] g(5) unfolding others_kept_def by metis
  moreover have "others_kept uid (gateway_row region) d1 e"
    unfolding e by (rule change_others [OF a]) (use g(2,4) in auto)
  ultimately show ?thesis by (rule others_kept_trans)
qed

lemma route_others:
  assumes s: "resolve_reauth_login_route uid aid now d = Inr (e, r)"
  shows "others_kept uid E d e"
proof (rule route_is_change [OF s])
  fix a
  assume a: "get_account aid d = Some a" "a_user a = uid"
    and e: "e = d \<or> e = change_proxy aid None (\<lambda>y. y) (await_relogin None ''proxy_unavailable_direct'' now) d"
  have "others_kept uid E d (change_proxy aid None (\<lambda>y. y) (await_relogin None ''proxy_unavailable_direct'' now) d)"
    by (rule change_others [OF a]) auto
  with e show ?thesis by auto
qed

text \<open>The proxies a request may take from others: the gateway of the region it chooses.\<close>

definition taken_over :: "proxy_request \<Rightarrow> proxy \<Rightarrow> bool" where
  "taken_over req x \<longleftrightarrow> (\<exists>k c. req = ChooseRegion k c \<and> gateway_row c x)"

lemma serve_others:
  assumes ok: "exclusive d"
  shows "others_kept uid (taken_over req) d (snd (serve_user env uid req t t' now (m, d)))"
proof (cases req)
  case (AddProxy ty host port username password)
  then show ?thesis using add_others
    by (fastforce simp: serve_user_def user_add_proxy_def split: sum.splits option.splits prod.splits)
next
  case (CheckProxy p)
  show ?thesis
  proof (cases "check_proxy_permission p uid d")
    case (Inr x)
    have "others_kept uid (taken_over req) d (snd (fst (check_health env p t t' now (m, d))))"
      by (rule check_health_others [OF Inr ok])
    with CheckProxy Inr show ?thesis by (simp add: serve_user_def user_check_proxy_def case_prod_beta Let_def)
  qed (simp add: serve_user_def user_check_proxy_def CheckProxy)
next
  case (DeleteProxy pid)
  then show ?thesis using delete_others [OF ok, of pid uid]
    by (auto simp: serve_user_def user_delete_proxy_def case_prod_beta Let_def split: sum.splits)
next
  case (AssignProxy pid k)
  then show ?thesis using assign_others [OF ok, of k uid]
    by (auto simp: serve_user_def user_assign_proxy_def case_prod_beta Let_def split: sum.splits option.splits)
next
  case (UnassignProxy pid)
  then show ?thesis using unassign_others [OF ok, of pid uid]
    by (auto simp: serve_user_def user_unassign_proxy_def case_prod_beta Let_def split: sum.splits)
next
  case (ChooseRegion k c)
  have "taken_over req = gateway_row c" by (auto simp: taken_over_def ChooseRegion)
  then show ?thesis using choose_others [OF ok, of uid k c]
    by (auto simp: serve_user_def ChooseRegion split: sum.splits)
next
  case (LoginRoute k)
  then show ?thesis using route_others [of uid k now d] by (auto simp: serve_user_def split: sum.splits)
qed

text \<open>
  C23: In a reachable database no request of a user about proxies, to the pool or for a new login
  of an account, changes an account of another user. It changes no proxy assigned to such an
  account, but for one case: choosing the gateway of a region takes over whatever row has the
  endpoint of that gateway. (A request is served without another one in between.)
\<close>

theorem users_change_their_own_proxies:
  assumes "proxies_reached env (m, d)" "get_account aid d = Some a" "a_user a \<noteq> uid"
  shows "get_account aid (snd (serve_user env uid req t t' now (m, d))) = Some a
    \<and> (case get_proxy pid d of None \<Rightarrow> True
       | Some x \<Rightarrow> if x_assigned x = Some aid
                   then get_proxy pid (snd (serve_user env uid req t t' now (m, d))) = Some x
                      \<or> (\<exists>k c n r. req = ChooseRegion k c \<and> normalize_region_code c = Inr n
                            \<and> region_by_code n = Some r
                            \<and> x_type x = ''socks5'' \<and> x_host x = r_host r \<and> x_port x = r_port r)
                   else True)"
proof -
  have "exclusive d" using reached_exclusive [OF assms(1)] by simp
  from serve_others [OF this, of uid req env t t' now m] assms(2,3) show ?thesis
    unfolding others_kept_def taken_over_def gateway_row_def by (fastforce split: option.split)
qed

theorem users_change_their_own_proxies_witness:
  "get_account ''a'' (snd (serve_user sample_probe 8 (AssignProxy 1 ''b'') 0 0 0 held_state))
     = Some ((plain_account ''a'' 7)\<lparr>a_proxy := Some 1\<rparr>)"
proof -
  have r: "proxies_reached sample_probe (fst held_state, snd held_state)" using held_reached by simp
  have a: "get_account ''a'' (snd held_state) = Some ((plain_account ''a'' 7)\<lparr>a_proxy := Some 1\<rparr>)" by code_simp
  have u: "a_user ((plain_account ''a'' 7)\<lparr>a_proxy := Some 1\<rparr>) \<noteq> 8" by (simp add: plain_account_def)
  show ?thesis using users_change_their_own_proxies [OF r a u, of "AssignProxy 1 ''b''" 0 0 0 1] by simp
qed

text \<open>The case: a user loses a proxy with the endpoint of a gateway to the choice of another user.\<close>

definition gateway_state :: "manager \<times> db" where
  "gateway_state = serve_user sample_probe 7 (AssignProxy 1 ''a'') 0 0 0
     (serve_user sample_probe 7 (AddProxy None (Some (r_host (hd sing_box_proxy_regions))) (Some (r_port (hd sing_box_proxy_regions)))
        (Some ''me'') None) 0 0 0 (new_manager, two_accounts))"

lemma a_gateway_takes_over_a_proxy:
  "map_option (\<lambda>x. (x_assigned x, x_username x)) (get_proxy 1 (snd gateway_state)) = Some (Some ''a'', Some ''me'')
   \<and> map_option (\<lambda>x. (x_shared x, x_assigned x, x_username x))
       (get_proxy 1 (snd (serve_user sample_probe 8 (ChooseRegion ''b'' (r_code (hd sing_box_proxy_regions))) 0 0 0 gateway_state)))
     = Some (True, None, None)"
  by code_simp

section \<open>A verified proxy or none\<close>

text \<open>
  The history of the manager and the database: lookups in the cache, probes that reached their
  end, deletions of proxies, and whatever else is written to the database, in any order.
\<close>

datatype probe_event =
    Looked int int
  | Probed probe_env proxy int int datetime
  | Forgot int
  | Wrote db

fun happens :: "probe_event \<Rightarrow> manager \<times> db \<Rightarrow> manager \<times> db" where
  "happens (Looked pid t) st = (fst (cached_health pid t (fst st)), snd st)"
| "happens (Probed env x pid t' now) st = fst (book_probe env x pid t' now st)"
| "happens (Forgot pid) st = fst (delete_proxy pid st)"
| "happens (Wrote d) st = (fst st, d)"

definition history :: "probe_event list \<Rightarrow> manager \<times> db \<Rightarrow> manager \<times> db" where
  "history es st = fold happens es st"

text \<open>The last answer that Telegram gave through a proxy, and when.\<close>

fun answer_of :: "int \<Rightarrow> probe_event \<Rightarrow> (int \<times> (string + int)) option" where
  "answer_of pid (Probed env x p t' now) = (if p = pid then Some (t', probe_result env x) else None)"
| "answer_of pid _ = None"

fun last_answer :: "int \<Rightarrow> probe_event list \<Rightarrow> (int \<times> (string + int)) option" where
  "last_answer pid [] = None"
| "last_answer pid (e # es) = (case last_answer pid es of None \<Rightarrow> answer_of pid e | Some r \<Rightarrow> Some r)"

lemma last_answer_snoc:
  "last_answer pid (es @ [e]) = (case answer_of pid e of None \<Rightarrow> last_answer pid es | Some r \<Rightarrow> Some r)"
  by (induction es) (auto split: option.splits)

text \<open>An entry of the cache is the last answer of its proxy.\<close>

definition backed :: "probe_event list \<Rightarrow> manager \<Rightarrow> bool" where
  "backed es m \<longleftrightarrow> hc_ttl m = 60 \<and> (\<forall>pid s at0. hc_status m pid = Some s \<longrightarrow> hc_at m pid = Some at0 \<longrightarrow>
     (\<exists>r. last_answer pid es = Some (at0, r) \<and> ps_healthy s = (\<not> isl r)))"

lemma backed_mono:
  "backed es m \<Longrightarrow> hc_ttl m' = hc_ttl m \<Longrightarrow> (\<And>p. hc_status m' p = hc_status m p \<and> hc_at m' p = hc_at m p
     \<or> hc_status m' p = None) \<Longrightarrow> backed es m'"
  unfolding backed_def by (metis option.distinct(1))

lemma looked_backed: "backed es m \<Longrightarrow> backed es (fst (cached_health pid t m))"
  by (rule backed_mono [where m = m]) (auto simp: cached_health_def split: option.splits)

lemma history_backed: "backed es (fst (history es (new_manager, d)))"
proof (induction es rule: rev_induct)
  case Nil
  then show ?case by (simp add: history_def backed_def new_manager_def)
next
  case (snoc e es)
  obtain m d1 where h: "history es (new_manager, d) = (m, d1)" by fastforce
  then have IH: "backed es m" using snoc by simp
  have "backed (es @ [e]) (fst (happens e (m, d1)))"
  proof (cases e)
    case (Looked pid t)
    then show ?thesis using looked_backed [OF IH, of pid t] by (simp add: backed_def last_answer_snoc)
  next
    case (Probed env x pid t' now)
    then show ?thesis using IH
      by (auto simp: backed_def last_answer_snoc book_probe_def Let_def split: sum.split)
  next
    case (Forgot pid)
    have "backed es (fst (fst (delete_proxy pid (m, d1))))"
      by (rule backed_mono [OF IH]) (auto simp: delete_proxy_def split: option.splits)
    then show ?thesis using Forgot by (simp add: backed_def last_answer_snoc)
  next
    case (Wrote d2)
    then show ?thesis using IH by (simp add: backed_def last_answer_snoc)
  qed
  then show ?case using h by (simp add: history_def)
qed

text \<open>What a check that answers \<open>healthy\<close> rests on.\<close>

lemma healthy_check:
  assumes "backed es (fst st)" and "check_health_during env gap pid t t' now st = (st', s)" "ps_healthy s"
  shows "(\<exists>t0 ms. last_answer pid es = Some (t0, Inr ms) \<and> t < t0 + 60)
    \<or> (\<exists>x ms. get_proxy pid (snd (gap 0 (fst (cached_health pid t (fst st)), snd st))) = Some x
          \<and> probe_result env x = Inr ms)"
proof -
  obtain m1 c where c: "cached_health pid t (fst st) = (m1, c)" by fastforce
  show ?thesis
  proof (cases c)
    case (Some s0)
    then have "s0 = s" using assms(2) c by (simp add: check_health_during_def)
    moreover obtain at0 where "hc_status (fst st) pid = Some s0" "hc_at (fst st) pid = Some at0"
      "t - at0 < hc_ttl (fst st)"
      using c Some by (auto simp: cached_health_def split: option.splits if_splits)
    ultimately obtain r where "last_answer pid es = Some (at0, r)" "\<not> isl r" "t < at0 + 60"
      using assms(1,3) by (fastforce simp: backed_def)
    then show ?thesis by (cases r) auto
  next
    case None
    then show ?thesis using assms(2,3) c
      by (auto simp: check_health_during_def book_probe_def Let_def split_beta split: option.splits sum.splits)
  qed
qed

text \<open>
  C24: The check before a connection, whatever has happened before and whatever others do in
  between its sessions. It answers with the proxy the account had, and only if the proxy was
  active and Telegram has really answered through it: either the last answer of this proxy came
  less than 60 seconds before the check and was a success, or the probe of this very check was.
  Otherwise the account has no proxy afterwards and connects directly.
\<close>

theorem connections_use_verified_proxies:
  assumes "ensure_account_proxy env (\<lambda>n. history (meanwhile n)) aid t t' now (history before (new_manager, d)) = (st', r)"
  shows "case r of
      None \<Rightarrow> \<not> (\<exists>a. get_account aid (snd st') = Some a \<and> int_true (a_proxy a))
    | Some pid \<Rightarrow> (\<exists>a. get_account aid (snd (history before (new_manager, d))) = Some a \<and> a_proxy a = Some pid)
        \<and> (\<exists>x. get_proxy pid (snd (history (before @ meanwhile 0) (new_manager, d))) = Some x \<and> x_active x)
        \<and> ((\<exists>t0 ms. last_answer pid (before @ meanwhile 0) = Some (t0, Inr ms) \<and> t < t0 + 60)
           \<or> (\<exists>x ms. get_proxy pid (snd (history (before @ meanwhile 0 @ Looked pid t # meanwhile 1) (new_manager, d))) = Some x
                \<and> probe_result env x = Inr ms))"
proof -
  let ?gap = "\<lambda>n. history (meanwhile n)" and ?st = "history before (new_manager, d)"
  let ?mid = "history (before @ meanwhile 0) (new_manager, d)"
  have st0: "history (meanwhile 0) ?st = ?mid" by (simp add: history_def)
  show ?thesis
  proof (cases "\<exists>a. get_account aid (snd ?st) = Some a \<and> int_true (a_proxy a)")
    case False
    then have "st' = ?st \<and> r = None"
      using assms by (auto simp: ensure_account_proxy_def split: option.splits if_splits)
    with False show ?thesis by simp
  next
    case True
    then obtain a pid where a: "get_account aid (snd ?st) = Some a" "int_true (a_proxy a)" "a_proxy a = Some pid"
      by (metis int_true_def option.exhaust_sel)
    define ans where "ans = (case get_proxy pid (snd ?mid) of
         None \<Rightarrow> (?mid, False)
       | Some x \<Rightarrow> if \<not> x_active x then (?mid, False)
           else (let (st1, s) = check_health_during env (\<lambda>n. ?gap (n + 1)) pid t t' now ?mid in (st1, ps_healthy s)))"
    have e: "(st', r) = (if snd ans then (fst ans, Some pid)
        else (let (m2, d2) = ?gap 3 (fst ans);
                  (m3, d3) = ?gap 4 (m2, fst (unassign_proxy aid d2))
              in ((m3, upd_account aid (\<lambda>b. b\<lparr>a_proxy := None\<rparr>) d3), None)))"
      using assms a unfolding ensure_account_proxy_def ans_def st0 [symmetric]
      by (simp add: case_prod_beta Let_def)
    show ?thesis
    proof (cases "snd ans")
      case False
      then have "r = None" "\<exists>d3. snd st' = upd_account aid (\<lambda>b. b\<lparr>a_proxy := None\<rparr>) d3"
        using e by (auto simp: Let_def split_beta)
      then show ?thesis by (auto simp: get_upd_account int_true_def)
    next
      case True
      obtain x st1 s where x: "get_proxy pid (snd ?mid) = Some x" "x_active x"
        and c: "check_health_during env (\<lambda>n. ?gap (n + 1)) pid t t' now ?mid = (st1, s)" "ps_healthy s"
        using True by (auto simp: ans_def split: option.splits if_splits prod.splits)
      have "r = Some pid" using e True by simp
      moreover have "?gap 1 (fst (cached_health pid t (fst ?mid)), snd ?mid)
          = history (before @ meanwhile 0 @ Looked pid t # meanwhile 1) (new_manager, d)"
        by (simp add: history_def)
      ultimately show ?thesis
        using healthy_check [OF history_backed c] a x by auto
    qed
  qed
qed

definition before_connection :: "probe_event list" where
  "before_connection =
     (case get_proxy 1 (snd held_state) of
        None \<Rightarrow> []
      | Some x \<Rightarrow> [Wrote (snd held_state), Probed sample_probe (x\<lparr>x_host := ''up''\<rparr>) 1 100 0])"

text \<open>A success of 40 seconds ago is believed, although Telegram does not answer any more.\<close>

theorem connections_use_verified_proxies_witness:
  "snd (ensure_account_proxy sample_probe (\<lambda>n. history []) ''a'' 140 141 0
      (history before_connection (new_manager, two_accounts))) = Some 1
   \<and> (\<exists>t0 ms. last_answer 1 before_connection = Some (t0, Inr ms) \<and> 140 < t0 + 60)
   \<and> snd (ensure_account_proxy sample_probe (\<lambda>n. history []) ''a'' 160 161 0
      (history before_connection (new_manager, two_accounts))) = None"
proof -
  let ?run = "\<lambda>t. ensure_account_proxy sample_probe (\<lambda>n. history []) ''a'' t (t + 1) 0
      (history before_connection (new_manager, two_accounts))"
  have v: "snd (?run 140) = Some 1" "snd (?run 160) = None" by code_simp+
  have no: "\<not> (\<exists>x ms. get_proxy 1 (snd (history (before_connection @ [] @ Looked 1 140 # []) (new_manager, two_accounts))) = Some x
      \<and> probe_result sample_probe x = Inr ms)"
  proof -
    have "case get_proxy 1 (snd (history (before_connection @ [] @ Looked 1 140 # []) (new_manager, two_accounts))) of
        None \<Rightarrow> True | Some x \<Rightarrow> isl (probe_result sample_probe x)"
      by code_simp
    then show ?thesis by (auto split: option.splits)
  qed
  have e: "?run 140 = (fst (?run 140), Some 1)" using v(1) by (metis prod.collapse)
  have "\<exists>t0 ms. last_answer 1 before_connection = Some (t0, Inr ms) \<and> 140 < t0 + 60"
    using connections_use_verified_proxies [where meanwhile = "\<lambda>n. []", OF e] no by auto
  with v show ?thesis by simp
qed

section \<open>The cache\<close>

text \<open>
  After a check that went to Telegram, every further check of that proxy within the life of
  the cache entry gives the same status and changes neither the manager nor the database, whatever
  Telegram would answer by then.
\<close>

theorem checks_are_cached:
  assumes "snd (cached_health pid t m) = None" "get_proxy pid d \<noteq> None"
    "check_health env pid t t' now (m, d) = (st, s)" "u - t' < hc_ttl m"
  shows "check_health env' pid u u' now' st = (st, s)"
proof -
  obtain m1 where m1: "cached_health pid t m = (m1, None)" using assms(1) by (metis prod.collapse)
  then have ttl: "hc_ttl m1 = hc_ttl m" by (auto simp: cached_health_def split: option.splits if_splits)
  obtain x where x: "get_proxy pid d = Some x" using assms(2) by auto
  have "hc_status (fst st) pid = Some s \<and> hc_at (fst st) pid = Some t' \<and> hc_ttl (fst st) = hc_ttl m"
    using assms(3) m1 x ttl by (auto simp: check_health_eq book_probe_def Let_def)
  then have "cached_health pid u (fst st) = (fst st, Some s)" using assms(4) by (simp add: cached_health_def)
  then show ?thesis by (cases st) (simp add: check_health_eq)
qed

theorem checks_are_cached_witness:
  "check_health sample_probe 1 50 51 9 (fst (check_health sample_probe 1 0 1 8 held_state))
     = check_health sample_probe 1 0 1 8 held_state"
proof -
  have h: "snd (cached_health 1 0 (fst held_state)) = None" "get_proxy 1 (snd held_state) \<noteq> None" by code_simp+
  have ttl: "hc_ttl (fst held_state) = 60" by code_simp
  show ?thesis
    using checks_are_cached [OF h, of sample_probe 1 8 "fst (check_health sample_probe 1 0 1 8 held_state)"
        "snd (check_health sample_probe 1 0 1 8 held_state)" 50 sample_probe 51 9] ttl by simp
qed

section \<open>What the code does not mean to do\<close>

text \<open>With two free proxies the search for an available one raises instead of taking the first.\<close>

theorem two_free_proxies_raise:
  assumes "filter (\<lambda>x. x_assigned x = None) (filter (\<lambda>x. x_active x \<and> x_healthy x) (proxies d)) = x # y # rest"
  shows "get_available_proxy d = Inl unhandled"
proof -
  let ?s = "sort_key x_usage (x # y # rest)"
  have "length ?s = Suc (Suc (length rest))" by simp
  then obtain a b c where "?s = a # b # c" by (metis (no_types, opaque_lifting) length_Suc_conv)
  then show ?thesis unfolding get_available_proxy_def Let_def assms by (simp add: one_or_none_def)
qed

text \<open>A failed check leaves the response time of the last success in the row.\<close>

theorem failed_check_keeps_the_response_time:
  assumes "get_proxy pid d = Some x" "snd (cached_health pid t m) = None" "isl (probe_result env x)"
  shows "\<exists>y. get_proxy pid (snd (fst (check_health env pid t t' now (m, d)))) = Some y
    \<and> \<not> x_healthy y \<and> x_response y = x_response x"
proof -
  obtain m1 where "cached_health pid t m = (m1, None)" using assms(2) by (metis prod.collapse)
  then show ?thesis using assms
    by (simp add: check_health_eq book_probe_def Let_def update_proxy_health_def get_upd_proxy split: sum.split)
qed

text \<open>Any user can delete a gateway that no account uses at the moment.\<close>

theorem anyone_deletes_an_idle_proxy:
  assumes "get_proxy pid d = Some x" "x_assigned x = None" "\<not> list_ex (\<lambda>a. a_proxy a = Some pid) (accounts d)"
  shows "snd (user_delete_proxy uid pid (m, d)) = Inr ()
    \<and> get_proxy pid (snd (fst (user_delete_proxy uid pid (m, d)))) = None"
proof -
  have p: "check_proxy_permission pid uid d = Inr x" using assms(1,2) by (simp add: check_proxy_permission_def)
  have "delete_proxy pid (m, d) = ((m\<lparr>hc_status := (hc_status m)(pid := None)\<rparr>,
      d\<lparr>proxies := filter (\<lambda>y. x_id y \<noteq> pid) (proxies d)\<rparr>), Inr True)"
    using assms by (simp add: delete_proxy_def)
  then show ?thesis by (simp add: user_delete_proxy_def p get_proxy_def find_row_None)
qed

end
