(* ===== verification/SyncQueue.thy ===== *)
theory SyncQueue
  imports Prelude
begin

text \<open>
  The queue of account synchronisations (\<open>h5_backend/services/account/sync_queue.py\<close>): a priority
  queue in which an account that waits already is put a second time when it becomes more urgent;
  the entry it leaves behind is skipped later.

  \<open>asyncio.PriorityQueue\<close> hands out the least entry by priority and sequence number; it is a list
  in that order, and its count of unfinished entries, which \<open>join\<close> waits for, a number. The
  interface is the locale \<open>priority_queue\<close>. A future is its position in the list of the futures
  created so far; the list holds their results. Two work items are the same object exactly if
  they are equal, since the sequence numbers differ.
\<close>

section \<open>The interface of the priority queue\<close>

locale priority_queue =
  fixes put :: "'a \<Rightarrow> 'q \<Rightarrow> 'q"
    and pop :: "'q \<Rightarrow> ('a \<times> 'q) option"
    and entries :: "'q \<Rightarrow> 'a list"
    and rank :: "'a \<Rightarrow> 'k::linorder"
    and valid :: "'q \<Rightarrow> bool"
  assumes pop_None: "pop q = None \<longleftrightarrow> entries q = []"
    and pop_Some: "pop q = Some (x, q') \<Longrightarrow> entries q = x # entries q'"
    and put_entries: "valid q \<Longrightarrow> entries (put x q) = insort_key rank x (entries q)"
    and valid_put: "valid q \<Longrightarrow> valid (put x q)"
    and valid_pop: "valid q \<Longrightarrow> pop q = Some (x, q') \<Longrightarrow> valid q'"
    and valid_sorted: "valid q \<Longrightarrow> sorted (map rank (entries q))"
begin

lemma pop_least:
  assumes "valid q" "pop q = Some (x, q')" "y \<in> set (entries q)"
  shows "rank x \<le> rank y"
  using valid_sorted [OF assms(1)] assms(3) pop_Some [OF assms(2)] by auto

lemma put_set: "valid q \<Longrightarrow> set (entries (put x q)) = insert x (set (entries q))"
  by (simp add: put_entries set_insort_key)

text \<open>An entry that is skipped by the rest of the code changes nothing for the others.\<close>

lemma put_filter:
  assumes "valid q" "P x"
  shows "filter P (entries (put x q)) = insort_key rank x (filter P (entries q))"
  using put_entries [OF assms(1)] filter_insort [OF valid_sorted [OF assms(1)], of P x] assms(2) by simp

end

section \<open>Work items\<close>

record work_item =
  wi_priority :: int
  wi_seq :: int
  wi_account :: string
  wi_user :: int
  wi_trigger :: string

definition wi_key :: "work_item \<Rightarrow> int \<times> int" where
  "wi_key i = (wi_priority i, wi_seq i)"

definition heap_put :: "work_item \<Rightarrow> work_item list \<Rightarrow> work_item list" where
  "heap_put i h = insort_key wi_key i h"

definition heap_pop :: "work_item list \<Rightarrow> (work_item \<times> work_item list) option" where
  "heap_pop h = (case h of [] \<Rightarrow> None | i # is \<Rightarrow> Some (i, is))"

interpretation heap: priority_queue heap_put heap_pop "\<lambda>h. h" wi_key "\<lambda>h. sorted (map wi_key h)"
  by unfold_locales (auto simp: heap_put_def heap_pop_def sorted_insort_key split: list.splits)

section \<open>The queue\<close>

record sync_result =
  sr_account :: string
  sr_user :: "int option"
  sr_trigger :: string
  sr_profile_ok :: bool
  sr_resource_ok :: bool
  sr_count :: int
  sr_error :: "string option"

record sync_queue =
  sq_heap :: "work_item list"
  sq_unfinished :: int
  sq_queued :: "(string \<times> work_item) list"
  sq_running :: "(string \<times> work_item) list"
  sq_futures :: "(string \<times> nat) list"
  sq_results :: "sync_result option list"
  sq_next :: int

definition new_queue :: sync_queue where
  "new_queue = \<lparr>sq_heap = [], sq_unfinished = 0, sq_queued = [], sq_running = [], sq_futures = [],
     sq_results = [], sq_next = 0\<rparr>"

text \<open>\<open>ValueError\<close>, the two \<open>RuntimeError\<close>s, and the failure of \<open>task_done\<close>.\<close>

datatype sync_error = UnsupportedTrigger | NotRunning | NoCompletion | TooManyDone

abbreviation trigger_manual :: string where "trigger_manual \<equiv> ''manual''"
abbreviation trigger_login :: string where "trigger_login \<equiv> ''login_success''"
abbreviation trigger_timer :: string where "trigger_timer \<equiv> ''auto_timer''"

definition trigger_priority :: "string \<Rightarrow> sync_error + int" where
  "trigger_priority trigger =
     (if trigger = trigger_manual then Inr 0
      else if trigger = trigger_login then Inr 1
      else if trigger = trigger_timer then Inr 2
      else Inl UnsupportedTrigger)"

datatype enqueue_status = Enqueued | Reprioritized | AlreadyQueued | AlreadyRunning

definition put_item :: "work_item \<Rightarrow> bool \<Rightarrow> sync_queue \<Rightarrow> sync_queue" where
  "put_item i fresh q =
     q\<lparr>sq_heap := heap_put i (sq_heap q), sq_unfinished := sq_unfinished q + 1,
       sq_queued := AList.update (wi_account i) i (sq_queued q),
       sq_futures := (if fresh then AList.update (wi_account i) (length (sq_results q)) (sq_futures q)
                      else sq_futures q),
       sq_results := (if fresh then sq_results q @ [None] else sq_results q),
       sq_next := sq_next q + 1\<rparr>"

definition enqueue :: "string \<Rightarrow> int \<Rightarrow> string \<Rightarrow> sync_queue \<Rightarrow> sync_error + sync_queue \<times> enqueue_status" where
  "enqueue aid uid trigger q =
     and_then (trigger_priority trigger)
       (\<lambda>p. if map_of (sq_running q) aid \<noteq> None then Inr (q, AlreadyRunning)
            else (let queued = map_of (sq_queued q) aid;
                      i = \<lparr>wi_priority = p, wi_seq = sq_next q, wi_account = aid, wi_user = uid,
                           wi_trigger = trigger\<rparr>
                  in case queued of
                       None \<Rightarrow> Inr (put_item i True q, Enqueued)
                     | Some old \<Rightarrow>
                         if wi_priority old \<le> p then Inr (q, AlreadyQueued)
                         else Inr (put_item i False q, Reprioritized)))"

text \<open>
  \<open>get\<close>: entries that were replaced are dropped. Without an item the call waits for the next one;
  the queue it leaves is then the second component.
\<close>

function get_item :: "sync_queue \<Rightarrow> work_item option \<times> sync_queue" where
  "get_item q =
     (case heap_pop (sq_heap q) of
        None \<Rightarrow> (None, q)
      | Some (i, rest) \<Rightarrow>
          if map_of (sq_queued q) (wi_account i) = Some i
          then (Some i, q\<lparr>sq_heap := rest, sq_queued := AList.delete (wi_account i) (sq_queued q),
                          sq_running := AList.update (wi_account i) i (sq_running q)\<rparr>)
          else get_item (q\<lparr>sq_heap := rest, sq_unfinished := sq_unfinished q - 1\<rparr>))"
  by pat_completeness auto
termination
  by (relation "measure (\<lambda>q. length (sq_heap q))") (auto simp: heap_pop_def split: list.splits)

declare get_item.simps [simp del]

text \<open>
  An exception after the first check would leave the queue half changed; the state it leaves is
  not modelled, because it never happens (\<open>complete_iff\<close>).
\<close>

definition complete :: "work_item \<Rightarrow> sync_result \<Rightarrow> sync_queue \<Rightarrow> sync_error + sync_queue" where
  "complete i r q =
     (if map_of (sq_running q) (wi_account i) \<noteq> Some i then Inl NotRunning
      else case map_of (sq_futures q) (wi_account i) of
        None \<Rightarrow> Inl NoCompletion
      | Some f \<Rightarrow>
          if sq_unfinished q \<le> 0 then Inl TooManyDone
          else Inr (q\<lparr>sq_running := AList.delete (wi_account i) (sq_running q),
                      sq_results := (if sq_results q ! f = None then (sq_results q)[f := Some r]
                                     else sq_results q),
                      sq_unfinished := sq_unfinished q - 1\<rparr>))"

text \<open>The future a call of \<open>wait_for_result\<close> waits for.\<close>

definition wait_for_result :: "string \<Rightarrow> sync_queue \<Rightarrow> sync_error + nat" where
  "wait_for_result aid q =
     (case map_of (sq_futures q) aid of None \<Rightarrow> Inl NoCompletion | Some f \<Rightarrow> Inr f)"

datatype sync_status = StatusIdle | StatusQueued | StatusRunning | StatusCompleted sync_result | StatusFailed sync_result

definition get_status :: "string \<Rightarrow> sync_queue \<Rightarrow> sync_status" where
  "get_status aid q =
     (if map_of (sq_queued q) aid \<noteq> None then StatusQueued
      else if map_of (sq_running q) aid \<noteq> None then StatusRunning
      else case map_of (sq_futures q) aid of
        None \<Rightarrow> StatusIdle
      | Some f \<Rightarrow>
          (case sq_results q ! f of
             None \<Rightarrow> StatusIdle
           | Some r \<Rightarrow> if sr_resource_ok r then StatusCompleted r else StatusFailed r))"

definition joined :: "sync_queue \<Rightarrow> bool" where
  "joined q = (sq_unfinished q = 0)"

definition pending_count :: "sync_queue \<Rightarrow> nat" where
  "pending_count q = length (sq_queued q)"

text \<open>The calls that change the queue, one after the other.\<close>

datatype queue_op = Enqueue string int string | Take | Complete work_item sync_result

definition apply_op :: "queue_op \<Rightarrow> sync_queue \<Rightarrow> sync_queue" where
  "apply_op op q =
     (case op of
        Enqueue aid uid trigger \<Rightarrow> (case enqueue aid uid trigger q of Inl _ \<Rightarrow> q | Inr (q', _) \<Rightarrow> q')
      | Take \<Rightarrow> snd (get_item q)
      | Complete i r \<Rightarrow> (case complete i r q of Inl _ \<Rightarrow> q | Inr q' \<Rightarrow> q'))"

definition run_ops :: "queue_op list \<Rightarrow> sync_queue \<Rightarrow> sync_queue" where
  "run_ops ops q = fold apply_op ops q"

end
