(* ===== verification/SyncFacts.thy ===== *)
theory SyncFacts
  imports SyncQueue
begin

text \<open>
  The queue of theory \<open>SyncQueue\<close> implements an agenda: the list of the accounts that wait, in the
  order they will be served, without the replaced entries of the heap. The invariant of the
  queue, and what follows for the order of service and for the futures.
\<close>

section \<open>The agenda\<close>

record agenda =
  ag_waiting :: "work_item list"
  ag_running :: "string \<Rightarrow> work_item option"
  ag_next :: int

definition waiting :: "sync_queue \<Rightarrow> work_item list" where
  "waiting q = filter (\<lambda>i. map_of (sq_queued q) (wi_account i) = Some i) (sq_heap q)"

definition agenda_of :: "sync_queue \<Rightarrow> agenda" where
  "agenda_of q = \<lparr>ag_waiting = waiting q, ag_running = map_of (sq_running q), ag_next = sq_next q\<rparr>"

definition agenda_enqueue :: "string \<Rightarrow> int \<Rightarrow> string \<Rightarrow> agenda \<Rightarrow> sync_error + agenda \<times> enqueue_status" where
  "agenda_enqueue aid uid trigger g =
     and_then (trigger_priority trigger)
       (\<lambda>p. if ag_running g aid \<noteq> None then Inr (g, AlreadyRunning)
            else (let i = \<lparr>wi_priority = p, wi_seq = ag_next g, wi_account = aid, wi_user = uid,
                           wi_trigger = trigger\<rparr>;
                      others = filter (\<lambda>j. wi_account j \<noteq> aid) (ag_waiting g);
                      g' = g\<lparr>ag_waiting := insort_key wi_key i others, ag_next := ag_next g + 1\<rparr>
                  in case find_row (\<lambda>j. wi_account j = aid) (ag_waiting g) of
                       None \<Rightarrow> Inr (g', Enqueued)
                     | Some old \<Rightarrow> if wi_priority old \<le> p then Inr (g, AlreadyQueued) else Inr (g', Reprioritized)))"

definition agenda_take :: "agenda \<Rightarrow> work_item option \<times> agenda" where
  "agenda_take g =
     (case ag_waiting g of
        [] \<Rightarrow> (None, g)
      | i # is \<Rightarrow> (Some i, g\<lparr>ag_waiting := is, ag_running := (ag_running g)(wi_account i := Some i)\<rparr>))"

definition agenda_complete :: "work_item \<Rightarrow> agenda \<Rightarrow> agenda option" where
  "agenda_complete i g =
     (if ag_running g (wi_account i) = Some i
      then Some (g\<lparr>ag_running := (ag_running g)(wi_account i := None)\<rparr>) else None)"

section \<open>The invariant\<close>

definition heap_ok :: "sync_queue \<Rightarrow> bool" where
  "heap_ok q \<longleftrightarrow> sorted (map wi_key (sq_heap q)) \<and> distinct (map wi_seq (sq_heap q))
     \<and> (\<forall>i \<in> set (sq_heap q). wi_seq i < sq_next q)
     \<and> (\<forall>a i. map_of (sq_queued q) a = Some i \<longrightarrow> wi_account i = a \<and> i \<in> set (sq_heap q))"

definition running_ok :: "sync_queue \<Rightarrow> bool" where
  "running_ok q \<longleftrightarrow> distinct (map fst (sq_running q)) \<and> distinct (map fst (sq_queued q))
     \<and> (\<forall>a i. map_of (sq_running q) a = Some i \<longrightarrow> wi_account i = a \<and> map_of (sq_queued q) a = None)
     \<and> sq_unfinished q = int (length (sq_heap q) + length (sq_running q))"

definition busy_account :: "string \<Rightarrow> sync_queue \<Rightarrow> bool" where
  "busy_account a q \<longleftrightarrow> map_of (sq_queued q) a \<noteq> None \<or> map_of (sq_running q) a \<noteq> None"

definition futures_ok :: "sync_queue \<Rightarrow> bool" where
  "futures_ok q \<longleftrightarrow>
     (\<forall>a f. map_of (sq_futures q) a = Some f \<longrightarrow> f < length (sq_results q))
     \<and> (\<forall>a b f. map_of (sq_futures q) a = Some f \<longrightarrow> map_of (sq_futures q) b = Some f \<longrightarrow> a = b)
     \<and> (\<forall>a. busy_account a q \<longrightarrow> (\<exists>f. map_of (sq_futures q) a = Some f \<and> sq_results q ! f = None))"

definition sync_ok :: "sync_queue \<Rightarrow> bool" where
  "sync_ok q \<longleftrightarrow> heap_ok q \<and> running_ok q \<and> futures_ok q"

lemma new_queue_ok: "sync_ok new_queue"
  by (simp add: sync_ok_def heap_ok_def running_ok_def futures_ok_def busy_account_def new_queue_def)

lemma queued_waits:
  assumes "heap_ok q"
  shows "map_of (sq_queued q) a = Some i \<longleftrightarrow> i \<in> set (waiting q) \<and> wi_account i = a"
  using assms by (auto simp: heap_ok_def waiting_def)

lemma waiting_accounts: "heap_ok q \<Longrightarrow> i \<in> set (waiting q) \<Longrightarrow> j \<in> set (waiting q) \<Longrightarrow> wi_account i = wi_account j \<Longrightarrow> i = j"
  by (auto simp: waiting_def)

lemma waiting_sorted: "heap_ok q \<Longrightarrow> sorted (map wi_key (waiting q))"
  by (simp add: heap_ok_def waiting_def sorted_filter)

lemma waiting_find:
  assumes "heap_ok q"
  shows "find_row (\<lambda>j. wi_account j = a) (waiting q) = map_of (sq_queued q) a"
proof (cases "map_of (sq_queued q) a")
  case None
  then show ?thesis using queued_waits [OF assms, of a] by (auto simp: find_row_None)
next
  case (Some i)
  then have "i \<in> set (waiting q)" "wi_account i = a" using queued_waits [OF assms] by auto
  then obtain j where j: "find_row (\<lambda>j. wi_account j = a) (waiting q) = Some j"
    by (cases "find_row (\<lambda>j. wi_account j = a) (waiting q)") (auto simp: find_row_None)
  then have "map_of (sq_queued q) a = Some j"
    using queued_waits [OF assms, of a j] find_row_Some [OF j] by simp
  with j show ?thesis by simp
qed

section \<open>Putting an account\<close>

lemma put_waiting:
  assumes ok: "heap_ok q" and i: "wi_seq i = sq_next q" "wi_account i = a"
  shows "waiting (put_item i fresh q) = insort_key wi_key i (filter (\<lambda>j. wi_account j \<noteq> a) (waiting q))"
proof -
  let ?P = "\<lambda>j. (if wi_account j = a then j = i else map_of (sq_queued q) (wi_account j) = Some j)"
  have new: "i \<notin> set (sq_heap q)" using ok i by (auto simp: heap_ok_def)
  have "waiting (put_item i fresh q) = filter ?P (heap_put i (sq_heap q))"
    by (simp add: waiting_def put_item_def update_conv i eq_commute [of i] cong: if_cong)
  also have "\<dots> = insort_key wi_key i (filter ?P (sq_heap q))"
    by (rule heap.put_filter) (use ok i in \<open>simp_all add: heap_ok_def\<close>)
  also have "filter ?P (sq_heap q) = filter (\<lambda>j. wi_account j \<noteq> a) (waiting q)"
    unfolding waiting_def filter_filter by (rule filter_cong) (use new in auto)
  finally show ?thesis .
qed

lemma distinct_map_insort: "distinct (map f (insort_key k x xs)) \<longleftrightarrow> f x \<notin> f ` set xs \<and> distinct (map f xs)"
  by (induction xs) (auto simp: set_insort_key)

lemma length_delete_key:
  "distinct (map fst al) \<Longrightarrow> map_of al k = Some v \<Longrightarrow> Suc (length (AList.delete k al)) = length al"
proof (induction al)
  case (Cons x al)
  then show ?case by (cases x) (auto split: if_splits)
qed simp

lemma length_alist_update_new: "map_of al k = None \<Longrightarrow> length (AList.update k v al) = Suc (length al)"
proof (induction al)
  case (Cons x al)
  then show ?case by (cases x) (auto split: if_splits)
qed simp

lemma put_heap_ok:
  assumes ok: "heap_ok q" and i: "wi_seq i = sq_next q"
  shows "heap_ok (put_item i fresh q)"
proof -
  have s: "set (heap_put i h) = insert i (set h)" for h by (simp add: heap_put_def set_insort_key)
  have "wi_seq i \<notin> wi_seq ` set (sq_heap q)" using ok i by (auto simp: heap_ok_def)
  then have "distinct (map wi_seq (heap_put i (sq_heap q)))"
    using ok by (simp add: heap_put_def distinct_map_insort heap_ok_def)
  moreover have "sorted (map wi_key (heap_put i (sq_heap q)))"
    using ok by (simp add: heap_put_def sorted_insort_key heap_ok_def)
  ultimately show ?thesis
    using ok i by (auto simp: heap_ok_def put_item_def s update_conv split: if_splits)
qed

lemma put_ok:
  assumes ok: "sync_ok q" and i: "wi_seq i = sq_next q" "map_of (sq_running q) (wi_account i) = None"
    and fresh: "fresh \<longleftrightarrow> map_of (sq_queued q) (wi_account i) = None"
  shows "sync_ok (put_item i fresh q)"
proof -
  let ?q = "put_item i fresh q"
  have rows: "map_of (sq_queued ?q) = (map_of (sq_queued q))(wi_account i \<mapsto> i)" "sq_running ?q = sq_running q"
    by (simp_all add: put_item_def update_conv fun_eq_iff)
  have "running_ok ?q"
    using ok i rows by (auto simp: sync_ok_def running_ok_def put_item_def heap_put_def distinct_update)
  moreover have "futures_ok ?q"
  proof (cases fresh)
    case True
    have f: "map_of (sq_futures ?q) = (map_of (sq_futures q))(wi_account i \<mapsto> length (sq_results q))"
      "sq_results ?q = sq_results q @ [None]" using True by (simp_all add: put_item_def update_conv fun_eq_iff)
    have busy: "busy_account a ?q \<longleftrightarrow> a = wi_account i \<or> busy_account a q" for a
      by (auto simp: busy_account_def rows)
    show ?thesis using ok unfolding futures_ok_def busy f sync_ok_def
      by (auto simp: nth_append less_Suc_eq split: if_splits) (metis less_irrefl)+
  next
    case False
    then have "sq_futures ?q = sq_futures q" "sq_results ?q = sq_results q" by (simp_all add: put_item_def)
    moreover have "busy_account a ?q \<longleftrightarrow> busy_account a q" for a
      unfolding busy_account_def rows using False fresh by auto
    ultimately show ?thesis using ok by (simp add: sync_ok_def futures_ok_def)
  qed
  ultimately show ?thesis using put_heap_ok [of q i fresh] ok i by (simp add: sync_ok_def)
qed

lemma enqueue_cases [consumes 1, case_names running queued fresh replaced]:
  assumes "enqueue a u t q = Inr (q', s)"
  obtains p where "trigger_priority t = Inr p" "map_of (sq_running q) a \<noteq> None" "q' = q" "s = AlreadyRunning"
  | p old where "trigger_priority t = Inr p" "map_of (sq_running q) a = None" "map_of (sq_queued q) a = Some old"
      "wi_priority old \<le> p" "q' = q" "s = AlreadyQueued"
  | p where "trigger_priority t = Inr p" "map_of (sq_running q) a = None" "map_of (sq_queued q) a = None"
      "q' = put_item \<lparr>wi_priority = p, wi_seq = sq_next q, wi_account = a, wi_user = u, wi_trigger = t\<rparr> True q"
      "s = Enqueued"
  | p old where "trigger_priority t = Inr p" "map_of (sq_running q) a = None" "map_of (sq_queued q) a = Some old"
      "p < wi_priority old" "s = Reprioritized"
      "q' = put_item \<lparr>wi_priority = p, wi_seq = sq_next q, wi_account = a, wi_user = u, wi_trigger = t\<rparr> False q"
  using assms by (auto simp: enqueue_def and_then_Inr Let_def not_le split: if_splits option.splits)

lemma enqueue_ok: "enqueue a u t q = Inr (q', s) \<Longrightarrow> sync_ok q \<Longrightarrow> sync_ok q'"
  by (cases rule: enqueue_cases, assumption) (auto intro: put_ok)

lemma enqueue_refines:
  assumes "sync_ok q"
  shows "agenda_enqueue a u t (agenda_of q) = map_sum id (map_prod agenda_of id) (enqueue a u t q)"
proof -
  have ok: "heap_ok q" using assms by (simp add: sync_ok_def)
  have find: "find_row (\<lambda>j. wi_account j = a) (ag_waiting (agenda_of q)) = map_of (sq_queued q) a"
    using waiting_find [OF ok] by (simp add: agenda_of_def)
  have put: "agenda_of (put_item \<lparr>wi_priority = p, wi_seq = sq_next q, wi_account = a, wi_user = u, wi_trigger = t\<rparr> fresh q)
      = agenda_of q\<lparr>ag_waiting := insort_key wi_key \<lparr>wi_priority = p, wi_seq = sq_next q, wi_account = a, wi_user = u, wi_trigger = t\<rparr>
          (filter (\<lambda>j. wi_account j \<noteq> a) (waiting q)), ag_next := sq_next q + 1\<rparr>" for p fresh
    using put_waiting [OF ok, where a = a] by (simp add: agenda_of_def) (simp add: put_item_def)
  show ?thesis
    unfolding agenda_enqueue_def enqueue_def find
    by (cases "trigger_priority t") (auto simp: put Let_def split: option.split, simp_all add: agenda_of_def)
qed

section \<open>Taking and completing an account\<close>

text \<open>A replaced entry at the head of the heap is dropped.\<close>

lemma drop_stale:
  assumes ok: "sync_ok q" and h: "sq_heap q = i # rest" "map_of (sq_queued q) (wi_account i) \<noteq> Some i"
    and q': "q' = q\<lparr>sq_heap := rest, sq_unfinished := sq_unfinished q - 1\<rparr>"
  shows "sync_ok q' \<and> waiting q' = waiting q"
proof -
  have "j \<in> set rest" if "map_of (sq_queued q) a = Some j" for a j
  proof -
    have "wi_account j = a" "j \<in> set (sq_heap q)" using that ok by (simp_all add: sync_ok_def heap_ok_def)
    then show ?thesis using that h by auto
  qed
  moreover have "wi_account j = a" if "map_of (sq_queued q) a = Some j" for a j
    using that ok by (simp add: sync_ok_def heap_ok_def)
  ultimately have "heap_ok q'" using ok h q' unfolding sync_ok_def heap_ok_def by simp
  moreover have "running_ok q'" "futures_ok q'" using ok h q' by (simp_all add: sync_ok_def running_ok_def futures_ok_def busy_account_def)
  ultimately show ?thesis using h q' by (simp add: sync_ok_def waiting_def)
qed

lemma take_head:
  assumes ok: "sync_ok q" and h: "sq_heap q = i # rest" "map_of (sq_queued q) (wi_account i) = Some i"
    and q': "q' = q\<lparr>sq_heap := rest, sq_queued := AList.delete (wi_account i) (sq_queued q),
                      sq_running := AList.update (wi_account i) i (sq_running q)\<rparr>"
  shows "sync_ok q' \<and> waiting q = i # waiting q' \<and> map_of (sq_running q') = (map_of (sq_running q))(wi_account i \<mapsto> i)"
proof -
  have fresh: "i \<notin> set rest" using ok h by (auto simp: sync_ok_def heap_ok_def)
  have rows: "map_of (sq_queued q') = (map_of (sq_queued q))(wi_account i := None)"
    "map_of (sq_running q') = (map_of (sq_running q))(wi_account i \<mapsto> i)" "sq_heap q' = rest"
    by (simp_all add: q' update_conv delete_conv fun_eq_iff)
  have none: "map_of (sq_running q) (wi_account i) = None"
    using ok h by (cases "map_of (sq_running q) (wi_account i)") (auto simp: sync_ok_def running_ok_def)
  have "wi_account j = a \<and> j \<in> set rest" if "map_of (sq_queued q') a = Some j" for a j
  proof -
    have j: "a \<noteq> wi_account i" "map_of (sq_queued q) a = Some j" using that by (auto simp: rows split: if_splits)
    then have "wi_account j = a" "j \<in> set (sq_heap q)" using ok by (simp_all add: sync_ok_def heap_ok_def)
    then show ?thesis using j h by auto
  qed
  moreover have "sq_next q' = sq_next q" by (simp add: q')
  ultimately have "heap_ok q'" using ok h rows(3) unfolding sync_ok_def heap_ok_def by simp
  moreover have len: "length (AList.update (wi_account i) i (sq_running q)) = Suc (length (sq_running q))"
    using none by (rule length_alist_update_new)
  have "distinct (map fst (sq_running q'))" "distinct (map fst (sq_queued q'))" "sq_unfinished q' = sq_unfinished q"
    "length (sq_running q') = Suc (length (sq_running q))"
    using ok len by (simp_all add: q' sync_ok_def running_ok_def distinct_update distinct_delete)
  then have "running_ok q'"
    using ok h(1) rows unfolding sync_ok_def running_ok_def by (simp split: if_splits)
  moreover have "busy_account a q' \<longleftrightarrow> busy_account a q" for a
    unfolding busy_account_def rows using h by auto
  then have "futures_ok q'" using ok by (simp add: sync_ok_def futures_ok_def q')
  moreover have "waiting q = i # filter (\<lambda>j. map_of (sq_queued q) (wi_account j) = Some j) rest"
    using h by (simp add: waiting_def)
  moreover have "filter (\<lambda>j. map_of (sq_queued q) (wi_account j) = Some j) rest = waiting q'"
    unfolding waiting_def rows by (rule filter_cong) (use fresh h in auto)
  ultimately show ?thesis using rows by (simp add: sync_ok_def)
qed

lemma get_item_facts:
  assumes "sync_ok q"
  shows "sync_ok (snd (get_item q)) \<and> agenda_take (agenda_of q) = map_prod id agenda_of (get_item q)
    \<and> sq_futures (snd (get_item q)) = sq_futures q \<and> sq_results (snd (get_item q)) = sq_results q"
  using assms
proof (induction q rule: get_item.induct)
  case (1 q)
  show ?case
  proof (cases "sq_heap q")
    case Nil
    then show ?thesis using 1(2) by (simp add: get_item.simps [of q] heap_pop_def agenda_take_def agenda_of_def waiting_def)
  next
    case (Cons i rest)
    show ?thesis
    proof (cases "map_of (sq_queued q) (wi_account i) = Some i")
      case True
      then show ?thesis using take_head [OF 1(2) Cons True refl] Cons
        by (simp add: get_item.simps [of q] heap_pop_def agenda_take_def agenda_of_def)
    next
      case False
      let ?q = "q\<lparr>sq_heap := rest, sq_unfinished := sq_unfinished q - 1\<rparr>"
      have d: "sync_ok ?q \<and> waiting ?q = waiting q" by (rule drop_stale [OF 1(2) Cons False refl])
      then have "agenda_of ?q = agenda_of q" by (simp add: agenda_of_def)
      then show ?thesis using 1(1) [of "(i, rest)" i rest] d False Cons
        by (simp add: get_item.simps [of q] heap_pop_def)
    qed
  qed
qed

lemmas get_item_ok = get_item_facts [THEN conjunct1]
lemmas take_refines = get_item_facts [THEN conjunct2, THEN conjunct1]
lemmas get_item_futures = get_item_facts [THEN conjunct2, THEN conjunct2]

lemma get_item_waiting:
  assumes "sync_ok q"
  shows "case waiting q of
      [] \<Rightarrow> fst (get_item q) = None \<and> waiting (snd (get_item q)) = []
    | i # is \<Rightarrow> fst (get_item q) = Some i \<and> waiting (snd (get_item q)) = is
        \<and> map_of (sq_running (snd (get_item q))) = (map_of (sq_running q))(wi_account i \<mapsto> i)"
  using take_refines [OF assms]
  by (cases "get_item q") (auto simp: agenda_take_def agenda_of_def split: list.splits)

text \<open>The other failures of \<open>complete\<close> never happen.\<close>

lemma complete_iff:
  assumes "sync_ok q"
  shows "(\<exists>q'. complete i r q = Inr q') \<longleftrightarrow> map_of (sq_running q) (wi_account i) = Some i"
    and "complete i r q = Inl e \<Longrightarrow> e = NotRunning"
proof -
  have "(\<exists>f. map_of (sq_futures q) (wi_account i) = Some f) \<and> 0 < sq_unfinished q"
    if "map_of (sq_running q) (wi_account i) = Some i"
  proof -
    have "busy_account (wi_account i) q" using that by (simp add: busy_account_def)
    then have "\<exists>f. map_of (sq_futures q) (wi_account i) = Some f"
      using assms by (auto simp: sync_ok_def futures_ok_def)
    moreover have "0 < length (sq_running q)" using that by (cases "sq_running q") auto
    then have "0 < sq_unfinished q" using assms unfolding sync_ok_def running_ok_def by linarith
    ultimately show ?thesis by simp
  qed
  then show "(\<exists>q'. complete i r q = Inr q') \<longleftrightarrow> map_of (sq_running q) (wi_account i) = Some i"
    and "complete i r q = Inl e \<Longrightarrow> e = NotRunning"
    by (auto simp: complete_def split: option.splits if_splits)
qed

lemma completeE:
  assumes "complete i r q = Inr q'" "sync_ok q"
  obtains f where "map_of (sq_running q) (wi_account i) = Some i" "map_of (sq_futures q) (wi_account i) = Some f"
    "f < length (sq_results q)" "sq_results q ! f = None"
    "q' = q\<lparr>sq_running := AList.delete (wi_account i) (sq_running q), sq_results := (sq_results q)[f := Some r],
            sq_unfinished := sq_unfinished q - 1\<rparr>"
proof -
  obtain f where f: "map_of (sq_running q) (wi_account i) = Some i" "map_of (sq_futures q) (wi_account i) = Some f"
    "q' = q\<lparr>sq_running := AList.delete (wi_account i) (sq_running q),
      sq_results := (if sq_results q ! f = None then (sq_results q)[f := Some r] else sq_results q),
      sq_unfinished := sq_unfinished q - 1\<rparr>"
    using assms(1) by (auto simp: complete_def split: if_splits option.splits)
  moreover have "busy_account (wi_account i) q" using f by (simp add: busy_account_def)
  then have "f < length (sq_results q)" "sq_results q ! f = None"
    using assms(2) f(2) by (auto simp: sync_ok_def futures_ok_def)
  ultimately show ?thesis using that by simp
qed

lemma complete_ok:
  assumes c: "complete i r q = Inr q'" and ok: "sync_ok q"
  shows "sync_ok q' \<and> waiting q' = waiting q \<and> map_of (sq_running q') = (map_of (sq_running q))(wi_account i := None)"
  using c ok
proof (cases rule: completeE)
  case (1 f)
  have rows: "map_of (sq_running q') = (map_of (sq_running q))(wi_account i := None)" "sq_queued q' = sq_queued q"
    "sq_futures q' = sq_futures q" "sq_results q' = (sq_results q)[f := Some r]"
    by (simp_all add: 1 delete_conv fun_eq_iff)
  have d: "distinct (map fst (sq_running q))" "distinct (map fst (sq_queued q))" using ok by (simp_all add: sync_ok_def running_ok_def)
  have "Suc (length (sq_running q')) = length (sq_running q)"
    using length_delete_key [OF d(1) 1(1)] by (simp add: 1)
  moreover have "distinct (map fst (sq_running q'))" "sq_unfinished q' = sq_unfinished q - 1" "sq_heap q' = sq_heap q"
    using d by (simp_all add: 1 distinct_delete)
  ultimately have "running_ok q'"
    using ok rows(1,2) unfolding sync_ok_def running_ok_def by (simp split: if_splits)
  moreover have "heap_ok q'" using ok 1 by (simp add: sync_ok_def heap_ok_def)
  moreover have busy: "busy_account a q'  \<longrightarrow> busy_account a q \<and> a \<noteq> wi_account i" for a
  proof -
    have "map_of (sq_queued q) (wi_account i) = None" using ok 1(1) unfolding sync_ok_def running_ok_def by blast
    then show ?thesis unfolding busy_account_def rows by auto
  qed
  have "futures_ok q'"
  proof -
    have fut: "map_of (sq_futures q) a = Some g \<Longrightarrow> g < length (sq_results q)"
      "map_of (sq_futures q) a = Some g \<Longrightarrow> map_of (sq_futures q) b = Some g \<Longrightarrow> a = b"
      "busy_account a q \<Longrightarrow> \<exists>g. map_of (sq_futures q) a = Some g \<and> sq_results q ! g = None" for a b g
      using ok unfolding sync_ok_def futures_ok_def by blast+
    have "\<exists>g. map_of (sq_futures q) a = Some g \<and> (sq_results q)[f := Some r] ! g = None" if b: "busy_account a q'" for a
    proof -
      obtain g where g: "map_of (sq_futures q) a = Some g" "sq_results q ! g = None"
        using fut(3) busy b by blast
      then have "g \<noteq> f" using fut(2) [of a f "wi_account i"] 1(2) busy b by blast
      with g show ?thesis by simp
    qed
    then show ?thesis unfolding futures_ok_def rows using fut(1,2) by auto
  qed
  ultimately show ?thesis using rows 1 by (simp add: sync_ok_def waiting_def)
qed

lemma complete_refines:
  assumes "sync_ok q"
  shows "agenda_complete i (agenda_of q) = (case complete i r q of Inl e \<Rightarrow> None | Inr q' \<Rightarrow> Some (agenda_of q'))"
proof (cases "complete i r q")
  case (Inl e)
  then show ?thesis using complete_iff(1) [OF assms, of i r] by (simp add: agenda_complete_def agenda_of_def)
next
  case (Inr q')
  moreover have "sq_next q' = sq_next q" using Inr assms by (cases rule: completeE) simp
  ultimately show ?thesis using complete_iff(1) [OF assms, of i r] complete_ok [OF Inr assms]
    by (simp add: agenda_complete_def agenda_of_def)
qed

section \<open>Reachable queues\<close>

lemma apply_op_ok: "sync_ok q \<Longrightarrow> sync_ok (apply_op op q)"
  by (auto simp: apply_op_def intro: enqueue_ok get_item_ok complete_ok [THEN conjunct1] split: queue_op.split sum.split)

lemma run_ops_ok: "sync_ok q \<Longrightarrow> sync_ok (run_ops ops q)"
  by (induction ops arbitrary: q) (simp_all add: run_ops_def apply_op_ok)

lemma reached_queue_ok: "sync_ok (run_ops ops new_queue)"
  by (rule run_ops_ok [OF new_queue_ok])

lemma run_ops_simps [simp]:
  "run_ops [] q = q" "run_ops (op # ops) q = run_ops ops (apply_op op q)"
  "run_ops (ops @ ops') q = run_ops ops' (run_ops ops q)"
  by (simp_all add: run_ops_def)

end
