(* ===== verification/SyncOrder.thy ===== *)
theory SyncOrder
  imports SyncFacts
begin

text \<open>
  The order in which the waiting accounts are served, and the results that those who wait for a
  synchronisation get.
\<close>

section \<open>The place of an account\<close>

definition place :: "string \<Rightarrow> sync_queue \<Rightarrow> nat" where
  "place a q = length (takeWhile (\<lambda>i. wi_account i \<noteq> a) (waiting q))"

definition takes :: "queue_op list \<Rightarrow> nat" where
  "takes ops = length (filter (\<lambda>op. op = Take) ops)"

text \<open>The calls that put an account with a priority before \<open>p\<close>.\<close>

definition urgent :: "int \<Rightarrow> queue_op \<Rightarrow> bool" where
  "urgent p op =
     (case op of
        Enqueue _ _ t \<Rightarrow> (case trigger_priority t of Inl _ \<Rightarrow> False | Inr k \<Rightarrow> k < p)
      | _ \<Rightarrow> False)"

definition urgent_calls :: "int \<Rightarrow> queue_op list \<Rightarrow> nat" where
  "urgent_calls p ops = length (filter (urgent p) ops)"

fun served :: "string \<Rightarrow> sync_queue \<Rightarrow> queue_op list \<Rightarrow> bool" where
  "served a q [] = False"
| "served a q (op # ops) =
     ((op = Take \<and> map_option wi_account (fst (get_item q)) = Some a) \<or> served a (apply_op op q) ops)"

lemma waiting_keys:
  assumes "heap_ok q"
  shows "distinct (map wi_key (waiting q))"
proof -
  have d: "distinct (map wi_seq (sq_heap q))" using assms by (simp add: heap_ok_def)
  then have "distinct (sq_heap q)" by (simp add: distinct_map)
  moreover have "inj_on wi_key (set (sq_heap q))"
    using d by (auto simp: distinct_map inj_on_def wi_key_def)
  ultimately show ?thesis by (auto simp: distinct_map waiting_def inj_on_def)
qed

lemma place_counts:
  assumes ok: "heap_ok q" and i: "map_of (sq_queued q) a = Some i"
  shows "place a q = length (filter (\<lambda>j. wi_key j < wi_key i) (waiting q))"
proof -
  have in_w: "i \<in> set (waiting q)" and ai: "wi_account i = a" using queued_waits [OF ok, of a i] i by simp_all
  then obtain xs ys where w: "waiting q = xs @ i # ys" by (meson split_list)
  have s: "sorted (map wi_key (xs @ i # ys))" and d: "distinct (map wi_key (xs @ i # ys))"
    using waiting_sorted [OF ok] waiting_keys [OF ok] w by simp_all
  have "wi_account j \<noteq> a" if "j \<in> set xs" for j
  proof
    assume "wi_account j = a"
    then have "i = j" using waiting_accounts [OF ok, of i j] that ai w by simp
    then show False using d that by simp
  qed
  then have "place a q = length xs" using ai by (simp add: place_def w takeWhile_append2)
  moreover have "wi_key j < wi_key i" if "j \<in> set xs" for j
  proof -
    have "wi_key j \<le> wi_key i" using s that by (simp add: sorted_append)
    moreover have "wi_key j \<noteq> wi_key i" using d that by (simp add: image_iff) metis
    ultimately show ?thesis by (rule le_neq_trans)
  qed
  then have "filter (\<lambda>j. wi_key j < wi_key i) xs = xs" by simp
  moreover have "\<not> wi_key j < wi_key i" if "j \<in> set ys" for j
    using s that by (auto simp: sorted_append not_less)
  then have "filter (\<lambda>j. wi_key j < wi_key i) ys = []" by (simp add: filter_empty_conv)
  ultimately show ?thesis by (simp add: w)
qed

lemma filter_insort_length: "length (filter P (insort_key k x xs)) = length (filter P xs) + (if P x then 1 else 0)"
  by (induction xs) auto

lemma filter_length_le: "(\<And>x. x \<in> set xs \<Longrightarrow> P x \<Longrightarrow> Q x) \<Longrightarrow> length (filter P xs) \<le> length (filter Q xs)"
  by (induction xs) auto

text \<open>One call, for an account that goes on waiting.\<close>

lemma enqueue_place:
  assumes ok: "sync_ok q" and i: "map_of (sq_queued q) a = Some i" and e: "enqueue b u t q = Inr (q', s)"
  shows "\<exists>j. map_of (sq_queued q') a = Some j \<and> wi_priority j \<le> wi_priority i
    \<and> place a q' \<le> place a q + (if urgent (wi_priority i) (Enqueue b u t) then 1 else 0)"
proof -
  have h: "heap_ok q" using ok by (simp add: sync_ok_def)
  have put: "\<exists>j. map_of (sq_queued (put_item n fresh q)) a = Some j \<and> wi_priority j \<le> wi_priority i
      \<and> place a (put_item n fresh q) \<le> place a q + (if p < wi_priority i then 1 else 0)"
    if n: "n = \<lparr>wi_priority = p, wi_seq = sq_next q, wi_account = b, wi_user = u, wi_trigger = t\<rparr>"
      and le: "b = a \<longrightarrow> p < wi_priority i" for n p fresh
  proof -
    let ?q = "put_item n fresh q"
    have h': "heap_ok ?q" by (rule put_heap_ok [OF h]) (simp add: n)
    have w: "waiting ?q = insort_key wi_key n (filter (\<lambda>j. wi_account j \<noteq> b) (waiting q))"
      by (rule put_waiting [OF h]) (simp_all add: n)
    have q: "map_of (sq_queued ?q) a = (if a = b then Some n else Some i)"
      using i by (simp add: put_item_def update_conv n)
    have "wi_seq i < sq_next q" using h i by (auto simp: heap_ok_def)
    then have key: "wi_key n < wi_key i \<longleftrightarrow> p < wi_priority i" by (auto simp: n wi_key_def)
    show ?thesis
    proof (cases "a = b")
      case True
      have "wi_key j < wi_key i" if "wi_key j < wi_key n" for j using that key le True by auto
      then have "place a ?q \<le> place a q"
        using place_counts [OF h' q [unfolded if_P [OF True]]] place_counts [OF h i]
        by (simp add: w filter_insort_length) (rule filter_length_le, auto)
      then show ?thesis using q True le by (auto simp: n)
    next
      case False
      have "length (filter (\<lambda>j. wi_key j < wi_key i) (filter (\<lambda>j. wi_account j \<noteq> b) (waiting q)))
          \<le> length (filter (\<lambda>j. wi_key j < wi_key i) (waiting q))"
        unfolding filter_filter by (rule filter_length_le) simp
      then have "place a ?q \<le> place a q + (if p < wi_priority i then 1 else 0)"
        using place_counts [OF h' q [unfolded if_not_P [OF False]]] place_counts [OF h i] key
        by (simp add: w filter_insort_length del: filter_filter)
      then show ?thesis using q False by auto
    qed
  qed
  show ?thesis using e
  proof (cases rule: enqueue_cases)
    case (running p) then show ?thesis using i by auto
  next
    case (queued p old) then show ?thesis using i by auto
  next
    case (fresh p)
    moreover have "b = a \<longrightarrow> p < wi_priority i" using fresh i by auto
    ultimately show ?thesis using put [OF refl, of p True] by (simp add: urgent_def)
  next
    case (replaced p old)
    moreover have "b = a \<longrightarrow> p < wi_priority i" using replaced i by auto
    ultimately show ?thesis using put [OF refl, of p False] by (simp add: urgent_def)
  qed
qed

lemma op_place:
  assumes ok: "sync_ok q" and i: "map_of (sq_queued q) a = Some i"
    and n: "\<not> (op = Take \<and> map_option wi_account (fst (get_item q)) = Some a)"
  shows "\<exists>j. map_of (sq_queued (apply_op op q)) a = Some j \<and> wi_priority j \<le> wi_priority i
    \<and> place a (apply_op op q) + (if op = Take then 1 else 0)
        \<le> place a q + (if urgent (wi_priority i) op then 1 else 0)"
proof (cases op)
  case (Enqueue b u t)
  show ?thesis
  proof (cases "enqueue b u t q")
    case (Inl e) then show ?thesis using i Enqueue by (simp add: apply_op_def)
  next
    case (Inr r)
    then show ?thesis using enqueue_place [OF ok i, of b u t] Enqueue
      by (cases r) (simp add: apply_op_def)
  qed
next
  case Take
  have h: "heap_ok q" using ok by (simp add: sync_ok_def)
  have h': "heap_ok (snd (get_item q))" using get_item_ok [OF ok] by (simp add: sync_ok_def)
  obtain x xs where w: "waiting q = x # xs" using queued_waits [OF h, of a i] i by (cases "waiting q") auto
  then have g: "fst (get_item q) = Some x" "waiting (snd (get_item q)) = xs" using get_item_waiting [OF ok] by simp_all
  then have "wi_account x \<noteq> a" using n Take by simp
  then have "map_of (sq_queued (snd (get_item q))) a = Some i" "place a q = Suc (place a (snd (get_item q)))"
    using queued_waits [OF h, of a i] queued_waits [OF h', of a i] i w g by (auto simp: place_def)
  then show ?thesis using Take by (simp add: apply_op_def urgent_def)
next
  case (Complete k r)
  show ?thesis
  proof (cases "complete k r q")
    case (Inl e) then show ?thesis using i Complete by (simp add: apply_op_def)
  next
    case (Inr q')
    have "sq_queued q' = sq_queued q" using Inr ok by (cases rule: completeE) simp
    then show ?thesis using complete_ok [OF Inr ok] i Inr Complete by (simp add: apply_op_def place_def)
  qed
qed

lemma urgent_mono: "p \<le> p' \<Longrightarrow> urgent p op \<Longrightarrow> urgent p' op"
  by (auto simp: urgent_def split: queue_op.splits sum.splits)

lemma served_in_time:
  assumes "sync_ok q" "map_of (sq_queued q) a = Some i" "place a q + urgent_calls (wi_priority i) ops < takes ops"
  shows "served a q ops"
  using assms
proof (induction ops arbitrary: q i)
  case Nil
  then show ?case by (simp add: takes_def)
next
  case (Cons op ops)
  show ?case
  proof (cases "op = Take \<and> map_option wi_account (fst (get_item q)) = Some a")
    case True
    then show ?thesis by simp
  next
    case False
    then obtain j where j: "map_of (sq_queued (apply_op op q)) a = Some j" "wi_priority j \<le> wi_priority i"
      "place a (apply_op op q) + (if op = Take then 1 else 0) \<le> place a q + (if urgent (wi_priority i) op then 1 else 0)"
      using op_place [OF Cons.prems(1,2)] by metis
    have "urgent_calls (wi_priority j) ops \<le> urgent_calls (wi_priority i) ops"
      unfolding urgent_calls_def by (rule filter_length_le) (rule urgent_mono [OF j(2)])
    then have "place a (apply_op op q) + urgent_calls (wi_priority j) ops < takes ops"
      using j(3) Cons.prems(3) by (auto simp: takes_def urgent_calls_def split: if_splits)
    then have "served a (apply_op op q) ops" by (rule Cons.IH [OF apply_op_ok [OF Cons.prems(1)] j(1)])
    then show ?thesis by simp
  qed
qed

lemma no_urgent_manual: "urgent_calls 0 ops = 0"
  by (auto simp: urgent_calls_def urgent_def trigger_priority_def filter_empty_conv split: queue_op.splits sum.splits if_splits)

section \<open>The results\<close>

text \<open>As long as an account is busy its future stays, and only the completion of its run sets it.\<close>

definition awaited :: "string \<Rightarrow> nat \<Rightarrow> sync_queue \<Rightarrow> bool" where
  "awaited a f q \<longleftrightarrow> busy_account a q \<and> map_of (sq_futures q) a = Some f \<and> sq_results q ! f = None"

definition completes :: "string \<Rightarrow> sync_result \<Rightarrow> queue_op \<Rightarrow> sync_queue \<Rightarrow> bool" where
  "completes a r op q \<longleftrightarrow> (\<exists>i. op = Complete i r \<and> wi_account i = a \<and> map_of (sq_running q) a = Some i)"

lemma busy_awaited: "sync_ok q \<Longrightarrow> busy_account a q \<Longrightarrow> \<exists>f. awaited a f q"
  by (auto simp: awaited_def sync_ok_def futures_ok_def)

lemma awaited_bound: "sync_ok q \<Longrightarrow> awaited a f q \<Longrightarrow> f < length (sq_results q)"
  by (auto simp: awaited_def sync_ok_def futures_ok_def)

lemma completed_sets:
  assumes ok: "sync_ok q" and w: "awaited a f q" and c: "completes a r op q"
  shows "sq_results (apply_op op q) ! f = Some r"
proof -
  obtain i where i: "op = Complete i r" "wi_account i = a" "map_of (sq_running q) a = Some i"
    using c by (auto simp: completes_def)
  then obtain q' where q': "complete i r q = Inr q'" using complete_iff(1) [OF ok, of i r] by auto
  then show ?thesis using ok
    by (cases rule: completeE) (use i w awaited_bound [OF ok w] q' in \<open>simp add: apply_op_def awaited_def\<close>)
qed

lemma result_kept:
  assumes ok: "sync_ok q" and f: "f < length (sq_results q)" "sq_results q ! f = Some r"
  shows "sq_results (apply_op op q) ! f = Some r \<and> f < length (sq_results (apply_op op q))"
proof (cases op)
  case (Enqueue b u t)
  have "sq_results (put_item n fresh q) ! f = Some r \<and> f < length (sq_results (put_item n fresh q))" for n fresh
    using f by (simp add: put_item_def nth_append)
  then show ?thesis using f Enqueue
    by (auto simp: apply_op_def elim!: enqueue_cases split: sum.split)
next
  case Take
  then show ?thesis using f get_item_futures [OF ok] by (simp add: apply_op_def)
next
  case (Complete k x)
  show ?thesis
  proof (cases "complete k x q")
    case (Inl e) then show ?thesis using f Complete by (simp add: apply_op_def)
  next
    case (Inr q')
    then show ?thesis using ok
    proof (cases rule: completeE)
      case (1 g)
      then have "g \<noteq> f" using f by auto
      then show ?thesis using f 1 Complete Inr by (simp add: apply_op_def)
    qed
  qed
qed

lemma awaited_kept:
  assumes ok: "sync_ok q" and w: "awaited a f q" and n: "\<And>r. \<not> completes a r op q"
  shows "awaited a f (apply_op op q)"
proof (cases op)
  case (Enqueue b u t)
  have f: "f < length (sq_results q)" by (rule awaited_bound [OF ok w])
  have put: "awaited a f (put_item n fresh q)"
    if "wi_account n = b" "fresh \<longleftrightarrow> map_of (sq_queued q) b = None" "map_of (sq_running q) b = None" for n fresh
    using w that f by (auto simp: awaited_def busy_account_def put_item_def update_conv nth_append)
  then show ?thesis using w Enqueue
    by (auto simp: apply_op_def elim!: enqueue_cases intro!: put split: sum.split)
next
  case Take
  have h: "heap_ok q" using ok by (simp add: sync_ok_def)
  have h': "heap_ok (snd (get_item q))" using get_item_ok [OF ok] by (simp add: sync_ok_def)
  have "busy_account a (snd (get_item q))"
  proof (cases "waiting q")
    case Nil
    then have "map_of (sq_queued q) a = None" using queued_waits [OF h, of a] by (cases "map_of (sq_queued q) a") auto
    moreover have "agenda_of (snd (get_item q)) = agenda_of q"
      using take_refines [OF ok] Nil by (cases "get_item q") (simp add: agenda_take_def agenda_of_def)
    ultimately show ?thesis using w by (auto simp: awaited_def busy_account_def agenda_of_def)
  next
    case (Cons x xs)
    then have g: "waiting (snd (get_item q)) = xs"
      "map_of (sq_running (snd (get_item q))) = (map_of (sq_running q))(wi_account x \<mapsto> x)"
      using get_item_waiting [OF ok] by simp_all
    show ?thesis
    proof (cases "map_of (sq_queued q) a")
      case None
      then show ?thesis using w by (auto simp: awaited_def busy_account_def g)
    next
      case (Some i)
      then have "i \<in> set (x # xs)" "wi_account i = a" using queued_waits [OF h, of a i] Cons by simp_all
      then show ?thesis using queued_waits [OF h', of a i] g by (auto simp: busy_account_def)
    qed
  qed
  then show ?thesis using w Take get_item_futures [OF ok] by (simp add: apply_op_def awaited_def)
next
  case (Complete k x)
  show ?thesis
  proof (cases "complete k x q")
    case (Inl e) then show ?thesis using w Complete by (simp add: apply_op_def)
  next
    case (Inr q')
    then show ?thesis using ok
    proof (cases rule: completeE)
      case (1 g)
      have k: "wi_account k \<noteq> a" using n [of x] Complete 1(1) by (auto simp: completes_def)
      then have "g \<noteq> f" using 1(2) w ok unfolding awaited_def sync_ok_def futures_ok_def by metis
      then show ?thesis using w k 1(5) Complete Inr
        by (simp add: apply_op_def awaited_def busy_account_def delete_conv)
    qed
  qed
qed

lemma results_kept:
  "sync_ok q \<Longrightarrow> f < length (sq_results q) \<Longrightarrow> sq_results q ! f = Some r \<Longrightarrow> sq_results (run_ops ops q) ! f = Some r"
  by (induction ops arbitrary: q) (simp_all add: result_kept apply_op_ok)

lemma awaited_result:
  assumes "sync_ok q" "awaited a f q"
  shows "sq_results (run_ops ops q) ! f = Some r
    \<longleftrightarrow> (\<exists>before op after. ops = before @ op # after \<and> completes a r op (run_ops before q)
          \<and> sq_results (run_ops before q) ! f = None)"
  using assms
proof (induction ops arbitrary: q)
  case Nil
  then show ?case by (simp add: awaited_def)
next
  case (Cons op ops)
  have ok: "sync_ok (apply_op op q)" by (rule apply_op_ok [OF Cons.prems(1)])
  have split: "(\<exists>before o' after. op # ops = before @ o' # after \<and> P before o') \<longleftrightarrow>
      P [] op \<or> (\<exists>before o' after. ops = before @ o' # after \<and> P (op # before) o')" for P
    by (auto simp: Cons_eq_append_conv)
  show ?case
  proof (cases "\<exists>x. completes a x op q")
    case True
    then obtain x where x: "completes a x op q" by blast
    have set_x: "sq_results (apply_op op q) ! f = Some x" by (rule completed_sets [OF Cons.prems x])
    moreover have len: "f < length (sq_results (apply_op op q))"
    proof -
      obtain i where "op = Complete i x" using x by (auto simp: completes_def)
      then show ?thesis using awaited_bound [OF Cons.prems]
        by (auto simp: apply_op_def complete_def split: sum.split option.splits if_splits)
    qed
    ultimately have all: "sq_results (run_ops more (apply_op op q)) ! f = Some x" for more
      by (rule results_kept [OF ok, rotated])
    have "completes a r op q \<longleftrightarrow> r = x" using x by (auto simp: completes_def)
    then show ?thesis unfolding split using all Cons.prems(2) by (auto simp: awaited_def)
  next
    case False
    then have "awaited a f (apply_op op q)" by (intro awaited_kept [OF Cons.prems]) blast
    from Cons.IH [OF ok this] False show ?thesis unfolding split by simp
  qed
qed

end
