(* ===== verification/Resources.thy ===== *)
theory Resources
  imports Observation
begin

text \<open>
  The cached chats of an account: the table \<open>resources\<close>, the reading of the entities of Telethon
  (\<open>bot/resources/peer_utils.py\<close>), the full synchronisation (\<open>sync_ops.py\<close>) and the queries
  (\<open>query_ops.py\<close>).

  An entity of Telethon is a record of the attributes the code reads; a dialog whose entity is
  missing raises. The whole synchronisation is one database session: it commits, or, on a
  violated uniqueness of account and peer, leaves the table as it was. The lengths of the
  columns are not modelled.
\<close>

section \<open>Entities\<close>

datatype peer_class = UserPeer | ChatPeer | ChannelPeer bool | EmptyPeer | OtherPeer

text \<open>\<open>pe_names\<close> is \<open>None\<close> for an entity without the attribute \<open>first_name\<close>.\<close>

record peer =
  pe_class :: peer_class
  pe_id :: int
  pe_hash :: "int option"
  pe_title :: "string option"
  pe_names :: "(string option \<times> string option) option"
  pe_username :: "string option"
  pe_about :: "string option"
  pe_description :: "string option"
  pe_muted :: bool
  pe_verified :: bool
  pe_scam :: bool
  pe_count :: "int option"

definition get_peer_type :: "peer \<Rightarrow> string option" where
  "get_peer_type p =
     (case pe_class p of
        UserPeer \<Rightarrow> Some ''user''
      | ChatPeer \<Rightarrow> Some ''chat''
      | ChannelPeer broadcast \<Rightarrow> Some (if broadcast then ''channel'' else ''supergroup'')
      | _ \<Rightarrow> None)"

definition get_title :: "peer \<Rightarrow> string" where
  "get_title p =
     (if str_true (pe_title p) then strip (the (pe_title p))
      else (let full = (case pe_names p of None \<Rightarrow> []
                        | Some (fst_name, lst_name) \<Rightarrow>
                            strip (strip (str_or fst_name []) @ '' '' @ strip (str_or lst_name [])));
                username = strip (str_or (pe_username p) [])
            in if full \<noteq> [] then full
               else if username \<noteq> [] then ''@'' @ username
               else (case get_peer_type p of
                       Some k \<Rightarrow>
                         (if k = ''user'' then ''<user> '' else if k = ''channel'' then ''<channel> '' else ''<group> '')
                     | None \<Rightarrow> ''<dialog> '') @ show_int (pe_id p)))"

section \<open>Rows\<close>

record resource =
  rs_id :: int
  rs_account :: string
  rs_peer :: int
  rs_type :: string
  rs_hash :: "int option"
  rs_title :: "string option"
  rs_username :: "string option"
  rs_description :: "string option"
  rs_muted :: bool
  rs_archived :: bool
  rs_verified :: bool
  rs_scam :: bool
  rs_count :: "int option"
  rs_active :: bool
  rs_synced :: datetime

definition next_resource_id :: "resource list \<Rightarrow> int" where
  "next_resource_id rows = foldr max (map rs_id rows) 0 + 1"

definition resource_data :: "string \<Rightarrow> datetime \<Rightarrow> peer \<Rightarrow> string \<Rightarrow> resource" where
  "resource_data aid now p ty =
     \<lparr>rs_id = 0, rs_account = aid, rs_peer = pe_id p, rs_type = ty, rs_hash = pe_hash p,
      rs_title = Some (get_title p), rs_username = pe_username p,
      rs_description = (if str_true (pe_about p) then pe_about p else pe_description p),
      rs_muted = pe_muted p, rs_archived = False, rs_verified = pe_verified p, rs_scam = pe_scam p,
      rs_count = pe_count p, rs_active = True, rs_synced = now\<rparr>"

definition has_resource_changed :: "resource \<Rightarrow> resource \<Rightarrow> bool" where
  "has_resource_changed r x =
     (rs_title r \<noteq> rs_title x \<or> rs_username r \<noteq> rs_username x \<or> rs_description r \<noteq> rs_description x
      \<or> rs_verified r \<noteq> rs_verified x \<or> rs_scam r \<noteq> rs_scam x)"

section \<open>The synchronisation\<close>

text \<open>
  The rows of the account that no dialog has been matched with, those that have, in the order of
  the dialogs, and the new ones.
\<close>

record merge =
  mg_left :: "resource list"
  mg_seen :: "resource list"
  mg_new :: "resource list"

datatype peer_outcome = NewPeer | UpdatedPeer | Unchanged

definition sync_peer :: "string \<Rightarrow> datetime \<Rightarrow> peer \<Rightarrow> merge \<Rightarrow> merge \<times> peer_outcome" where
  "sync_peer aid now p m =
     (if pe_class p = EmptyPeer then (m, Unchanged)
      else case get_peer_type p of
        None \<Rightarrow> (m, Unchanged)
      | Some ty \<Rightarrow>
          (let x = resource_data aid now p ty
           in case find_row (\<lambda>r. rs_peer r = pe_id p) (mg_left m) of
                None \<Rightarrow> (m\<lparr>mg_new := mg_new m @ [x]\<rparr>, NewPeer)
              | Some r \<Rightarrow>
                  (m\<lparr>mg_left := filter (\<lambda>q. rs_peer q \<noteq> pe_id p) (mg_left m),
                     mg_seen := mg_seen m @ [x\<lparr>rs_id := rs_id r\<rparr>]\<rparr>,
                   if has_resource_changed r x \<or> \<not> rs_active r then UpdatedPeer else Unchanged)))"

record sync_counts =
  sc_synced :: int
  sc_new :: int
  sc_updated :: int
  sc_deleted :: int
  sc_failed :: int
  sc_error :: string

definition no_counts :: "string \<Rightarrow> sync_counts" where
  "no_counts e = \<lparr>sc_synced = 0, sc_new = 0, sc_updated = 0, sc_deleted = 0, sc_failed = 0, sc_error = e\<rparr>"

text \<open>A dialog is the time at which it is handled and its entity.\<close>

type_synonym dialog = "datetime \<times> peer option"

abbreviation (input) missing_entity :: string where
  "missing_entity \<equiv> ''<entity without id>''"

fun sync_dialogs :: "string \<Rightarrow> dialog list \<Rightarrow> merge \<Rightarrow> sync_counts \<Rightarrow> merge \<times> sync_counts" where
  "sync_dialogs aid [] m c = (m, c)"
| "sync_dialogs aid ((now, None) # ds) m c = sync_dialogs aid ds m (c\<lparr>sc_failed := sc_failed c + 1\<rparr>)"
| "sync_dialogs aid ((now, Some p) # ds) m c =
     (let (m1, o1) = sync_peer aid now p m
      in sync_dialogs aid ds m1
           (c\<lparr>sc_synced := sc_synced c + 1,
              sc_new := sc_new c + (if o1 = NewPeer then 1 else 0),
              sc_updated := sc_updated c + (if o1 = UpdatedPeer then 1 else 0)\<rparr>))"

text \<open>The commit: rows keep their place, new ones get the next keys.\<close>

fun number_rows :: "int \<Rightarrow> resource list \<Rightarrow> resource list" where
  "number_rows n [] = []"
| "number_rows n (x # xs) = x\<lparr>rs_id := n\<rparr> # number_rows (n + 1) xs"

definition written :: "string \<Rightarrow> merge \<Rightarrow> resource list \<Rightarrow> resource list" where
  "written aid m rows =
     map (\<lambda>r. if rs_account r \<noteq> aid then r
              else case find_row (\<lambda>x. rs_id x = rs_id r) (mg_seen m) of
                Some x \<Rightarrow> x
              | None \<Rightarrow> r\<lparr>rs_active := False\<rparr>) rows
     @ number_rows (next_resource_id rows) (mg_new m)"

definition unique_peers :: "resource list \<Rightarrow> bool" where
  "unique_peers rows = distinct (map (\<lambda>r. (rs_account r, rs_peer r)) rows)"

text \<open>\<open>Inl\<close> is the text of the failure to get a client or the dialogs.\<close>

definition full_sync :: "string \<Rightarrow> string + dialog list \<Rightarrow> resource list \<Rightarrow> resource list \<times> sync_counts" where
  "full_sync aid answer rows =
     (case answer of
        Inl e \<Rightarrow> (rows, no_counts e)
      | Inr dialogs \<Rightarrow>
          (let m0 = \<lparr>mg_left = filter (\<lambda>r. rs_account r = aid) rows, mg_seen = [], mg_new = []\<rparr>;
               (m, c) = sync_dialogs aid dialogs m0 (no_counts []);
               rows' = written aid m rows;
               c' = c\<lparr>sc_deleted := int (length (filter rs_active (mg_left m))),
                      sc_error := (if sc_synced c = 0 \<and> 0 < sc_failed c then missing_entity else [])\<rparr>
           in if unique_peers rows' then (rows', c')
              else (rows, no_counts ''<duplicate peer>'')))"

section \<open>Queries\<close>

definition title_key :: "resource \<Rightarrow> string" where
  "title_key r = (case rs_title r of None \<Rightarrow> [] | Some t \<Rightarrow> t)"

definition get_resources :: "string \<Rightarrow> string option \<Rightarrow> bool \<Rightarrow> nat \<Rightarrow> resource list \<Rightarrow> resource list" where
  "get_resources aid ty active limit rows =
     take limit (sort_key title_key
       (filter (\<lambda>r. rs_account r = aid \<and> (str_true ty \<longrightarrow> Some (rs_type r) = ty) \<and> (active \<longrightarrow> rs_active r)) rows))"

text \<open>
  \<open>ILIKE\<close>: \<open>%\<close> stands for any text, \<open>_\<close> for any character, a backslash takes the next character as
  it is; a null column matches nothing.
\<close>

fun ilike :: "string \<Rightarrow> string \<Rightarrow> bool" where
  "ilike [] [] = True"
| "ilike [] (c # cs) = False"
| "ilike (p # ps) s =
     (if p = CHR ''%'' then ilike ps s \<or> (case s of [] \<Rightarrow> False | c # cs \<Rightarrow> ilike (p # ps) cs)
      else if p = CHR ''_'' then (case s of [] \<Rightarrow> False | c # cs \<Rightarrow> ilike ps cs)
      else if p = char_of (92::nat)
      then (case (ps, s) of (q # qs, c # cs) \<Rightarrow> lower_char q = lower_char c \<and> ilike qs cs | _ \<Rightarrow> False)
      else (case s of [] \<Rightarrow> False | c # cs \<Rightarrow> lower_char p = lower_char c \<and> ilike ps cs))"

definition search_resources :: "string \<Rightarrow> string \<Rightarrow> string option \<Rightarrow> nat \<Rightarrow> resource list \<Rightarrow> resource list" where
  "search_resources aid text ty limit rows =
     (let pattern = ''%'' @ text @ ''%'';
          matches = (\<lambda>x. case x of None \<Rightarrow> False | Some s \<Rightarrow> ilike pattern s)
      in take limit (sort_key title_key
           (filter (\<lambda>r. rs_account r = aid \<and> rs_active r
                     \<and> (matches (rs_title r) \<or> matches (rs_username r) \<or> ilike pattern (show_int (rs_peer r)))
                     \<and> (str_true ty \<longrightarrow> Some (rs_type r) = ty)) rows)))"

definition get_resource :: "string \<Rightarrow> int \<Rightarrow> resource list \<Rightarrow> resource option" where
  "get_resource aid pid rows = find_row (\<lambda>r. rs_account r = aid \<and> rs_peer r = pid \<and> rs_active r) rows"

datatype input_peer = InputUser int int | InputChat int | InputChannel int int

definition build_input_peer :: "int \<Rightarrow> string \<Rightarrow> int \<Rightarrow> input_peer option" where
  "build_input_peer pid ty hash =
     (if ty = ''user'' then Some (InputUser pid hash)
      else if ty = ''chat'' then Some (InputChat pid)
      else if ty = ''supergroup'' \<or> ty = ''channel'' then Some (InputChannel pid hash)
      else None)"

definition get_input_peer :: "string \<Rightarrow> int \<Rightarrow> string \<Rightarrow> int option \<Rightarrow> resource list \<Rightarrow> input_peer option" where
  "get_input_peer aid pid ty hash rows =
     (case hash of
        Some h \<Rightarrow> build_input_peer pid ty h
      | None \<Rightarrow>
          (case get_resource aid pid rows of
             None \<Rightarrow> None
           | Some r \<Rightarrow> (case rs_hash r of None \<Rightarrow> None | Some h \<Rightarrow> build_input_peer pid (rs_type r) h)))"

definition get_input_peer_by_resource_id :: "string \<Rightarrow> int \<Rightarrow> resource list \<Rightarrow> input_peer option" where
  "get_input_peer_by_resource_id aid rid rows =
     (case find_row (\<lambda>r. rs_account r = aid \<and> rs_id r = rid \<and> rs_active r) rows of
        None \<Rightarrow> None
      | Some r \<Rightarrow> get_input_peer aid (rs_peer r) (rs_type r) (rs_hash r) rows)"

end
