(* ===== verification/AccountSync.thy ===== *)
theory AccountSync
  imports SyncQueue Resources
begin

text \<open>
  The synchronisation of accounts: the runtime with its timer and its one worker
  (\<open>h5_backend/services/account/auto_sync.py\<close>), the synchronisation of one account and the
  requests of users (\<open>h5_backend/services/account/service.py\<close>).

  What Telegram and the client runtime answer are operations of the environment; an answer that
  is cut off stands for the time-out of the whole synchronisation, which may strike at any of
  them. The cache of connected clients and the log lines are not modelled.
\<close>

section \<open>Telegram\<close>

text \<open>
  The client of an account; opening it may change the account. A \<open>TimeoutError\<close> is told from other
  exceptions, since both time-outs around the call catch it.
\<close>

datatype client_answer = Client | NoClient | ClientRaised string | ClientTimeout | ClientCut

datatype me_answer =
    Me int "string option" "string option" "string option"
  | NoMe
  | MeTimeout
  | MeRaised string
  | MeCut

datatype dialogs_answer = Dialogs "dialog list" | DialogsRaised string | DialogsTimeout | DialogsCut

record sync_env =
  se_client :: "string \<Rightarrow> db \<Rightarrow> db \<times> client_answer"
  se_again :: "string \<Rightarrow> db \<Rightarrow> db \<times> client_answer"
  se_readable :: "string \<Rightarrow> bool"
  se_me :: "string \<Rightarrow> me_answer"
  se_dialogs :: "string \<Rightarrow> dialogs_answer"

type_synonym tables = "db \<times> resource list"

section \<open>The synchronisation of one account\<close>

abbreviation (input) login_again_text :: string where "login_again_text \<equiv> ''<log in again>''"

definition diagnose_client_unavailable :: "sync_env \<Rightarrow> string \<Rightarrow> db \<Rightarrow> string" where
  "diagnose_client_unavailable env aid d =
     (case get_account aid d of
        None \<Rightarrow> ''<no such account>''
      | Some a \<Rightarrow>
          if \<not> a_active a then ''<account disabled>''
          else if is_reauth_required_account (Some a) then login_again_text
          else if \<not> se_readable env aid then login_again_text
          else ''<no client>'')"

definition mark_offline_for_sync_failure :: "string \<Rightarrow> string \<Rightarrow> db \<Rightarrow> db" where
  "mark_offline_for_sync_failure aid trigger d =
     (if trigger = trigger_timer then d else upd_account aid (\<lambda>a. a\<lparr>a_health := Offline\<rparr>) d)"

definition failed_result :: "string \<Rightarrow> account option \<Rightarrow> string \<Rightarrow> string \<Rightarrow> sync_result" where
  "failed_result aid acc trigger e =
     \<lparr>sr_account = aid, sr_user = map_option a_user acc, sr_trigger = trigger, sr_profile_ok = False,
      sr_resource_ok = False, sr_count = 0, sr_error = Some e\<rparr>"

text \<open>A synchronisation ends with its result, with an exception, or is cut off.\<close>

datatype sync_outcome = Synced sync_result | Failed string | CutOff

definition sync_profile :: "sync_env \<Rightarrow> string \<Rightarrow> string \<Rightarrow> db \<Rightarrow> db \<times> (string option) option" where
  "sync_profile env aid trigger d =
     (let fail = (\<lambda>e. (mark_offline_for_sync_failure aid trigger d, Some (Some e)))
      in case se_me env aid of
           Me tg username first_name phone \<Rightarrow>
             (upd_account aid (\<lambda>a. a\<lparr>a_tg := Some tg, a_username := username, a_first_name := first_name,
                a_phone := phone, a_health := Online\<rparr>) d, Some None)
         | NoMe \<Rightarrow> fail ''<no user>''
         | MeTimeout \<Rightarrow> fail ''<profile timeout>''
         | MeRaised e \<Rightarrow> fail (''<profile> '' @ e)
         | MeCut \<Rightarrow> (d, None))"

text \<open>Success, the count and the error; \<open>Inl\<close> is an exception, \<open>None\<close> the end by the time-out.\<close>

definition sync_account_resources ::
  "sync_env \<Rightarrow> string \<Rightarrow> tables \<Rightarrow> tables \<times> (string + bool \<times> int \<times> string option) option" where
  "sync_account_resources env aid t =
     (let (d, rows) = t;
          (d1, client) = se_again env aid d;
          timeout = (False, 0, Some ''<resource timeout>'');
          outcome = (\<lambda>(rows1, c).
            ((d1, rows1), Some (Inr
              (if sc_error c \<noteq> [] then (False, sc_synced c, Some (sc_error c))
               else if sc_synced c = 0 \<and> 0 < sc_failed c then (False, sc_synced c, Some ''<all failed>'')
               else (True, sc_synced c, None)))))
      in case client of
           ClientRaised e \<Rightarrow> ((d1, rows), Some (Inl e))
         | ClientTimeout \<Rightarrow> ((d1, rows), Some (Inr timeout))
         | ClientCut \<Rightarrow> ((d1, rows), None)
         | NoClient \<Rightarrow> outcome (full_sync aid (Inl (diagnose_client_unavailable env aid d1)) rows)
         | Client \<Rightarrow>
             (case se_dialogs env aid of
                Dialogs ds \<Rightarrow> outcome (full_sync aid (Inr ds) rows)
              | DialogsRaised e \<Rightarrow> outcome (full_sync aid (Inl e) rows)
              | DialogsTimeout \<Rightarrow> ((d1, rows), Some (Inr timeout))
              | DialogsCut \<Rightarrow> ((d1, rows), None)))"

definition sync_connected_snapshot ::
  "sync_env \<Rightarrow> string \<Rightarrow> account \<Rightarrow> string \<Rightarrow> tables \<Rightarrow> tables \<times> sync_outcome" where
  "sync_connected_snapshot env aid acc trigger t =
     (let (d1, profile) = sync_profile env aid trigger (fst t)
      in case profile of
           None \<Rightarrow> ((d1, snd t), CutOff)
         | Some (Some e) \<Rightarrow> ((d1, snd t), Synced (failed_result aid (Some acc) trigger e))
         | Some None \<Rightarrow>
             (case sync_account_resources env aid (d1, snd t) of
                (t2, None) \<Rightarrow> (t2, CutOff)
              | (t2, Some (Inl e)) \<Rightarrow> (t2, Failed e)
              | (t2, Some (Inr (ok, n, e))) \<Rightarrow>
                  (t2, Synced \<lparr>sr_account = aid, sr_user = Some (a_user acc), sr_trigger = trigger,
                               sr_profile_ok = True, sr_resource_ok = ok, sr_count = n, sr_error = e\<rparr>)))"

definition sync_account_snapshot :: "sync_env \<Rightarrow> string \<Rightarrow> string \<Rightarrow> tables \<Rightarrow> tables \<times> sync_outcome" where
  "sync_account_snapshot env aid trigger t =
     (let acc = get_account aid (fst t)
      in if acc = None \<or> \<not> a_active (the acc)
         then (t, Synced (failed_result aid acc trigger ''<account missing or disabled>''))
         else (let (d1, client) = se_client env aid (fst t)
               in case client of
                    ClientRaised e \<Rightarrow> ((d1, snd t), Failed e)
                  | ClientTimeout \<Rightarrow> ((d1, snd t), CutOff)
                  | ClientCut \<Rightarrow> ((d1, snd t), CutOff)
                  | NoClient \<Rightarrow>
                      (let e = diagnose_client_unavailable env aid d1
                       in ((mark_offline_for_sync_failure aid trigger d1, snd t),
                           Synced (failed_result aid acc trigger e)))
                  | Client \<Rightarrow> sync_connected_snapshot env aid (the acc) trigger (d1, snd t)))"

definition failure_result :: "work_item \<Rightarrow> string \<Rightarrow> sync_result" where
  "failure_result i e =
     \<lparr>sr_account = wi_account i, sr_user = Some (wi_user i), sr_trigger = wi_trigger i,
      sr_profile_ok = False, sr_resource_ok = False, sr_count = 0, sr_error = Some e\<rparr>"

definition execute_account_sync :: "sync_env \<Rightarrow> work_item \<Rightarrow> tables \<Rightarrow> tables \<times> sync_result" where
  "execute_account_sync env i t =
     (case sync_account_snapshot env (wi_account i) (wi_trigger i) t of
        (t1, Synced r) \<Rightarrow> (t1, r)
      | (t1, Failed e) \<Rightarrow> (t1, failure_result i (''<sync failed> '' @ e))
      | (t1, CutOff) \<Rightarrow> (t1, failure_result i ''<sync timeout>''))"

section \<open>The timer\<close>

definition latest_resource_sync :: "string \<Rightarrow> resource list \<Rightarrow> datetime option" where
  "latest_resource_sync aid rows =
     (case map rs_synced (filter (\<lambda>r. rs_active r \<and> rs_account r = aid) rows) of
        [] \<Rightarrow> None
      | t # ts \<Rightarrow> Some (fold max ts t))"

definition should_enqueue_auto_timer_sync :: "account \<Rightarrow> datetime option \<Rightarrow> datetime \<Rightarrow> bool \<Rightarrow> bool" where
  "should_enqueue_auto_timer_sync a latest now skip_proxy =
     (if \<not> a_active a then False
      else if a_banned a then False
      else if a_reauth a then False
      else if a_health a \<noteq> Online then False
      else if skip_proxy \<and> a_proxy a \<noteq> None then False
      else case latest of None \<Rightarrow> True | Some t \<Rightarrow> t \<le> now - hours 24)"

text \<open>The same as a statement: the accounts without a synchronisation first, then the oldest.\<close>

definition auto_timer_candidates :: "datetime \<Rightarrow> bool \<Rightarrow> int \<Rightarrow> tables \<Rightarrow> account list" where
  "auto_timer_candidates cutoff skip_proxy limit t =
     (let latest = (\<lambda>a. latest_resource_sync (a_id a) (snd t));
          old = (\<lambda>a. latest a = None \<or> the (latest a) \<le> cutoff);
          rows = sort_key (\<lambda>a. (case latest a of None \<Rightarrow> (0::int, 0) | Some x \<Rightarrow> (1, x), a_id a))
                   (filter (\<lambda>a. a_active a \<and> \<not> a_banned a \<and> \<not> a_reauth a \<and> a_health a = Online
                             \<and> old a \<and> (skip_proxy \<longrightarrow> a_proxy a = None)) (accounts (fst t)))
      in if 0 < limit then take (nat limit) rows else rows)"

record sync_settings =
  st_limit :: int
  st_skip_proxy :: bool

definition load_auto_timer_candidates :: "sync_settings \<Rightarrow> datetime \<Rightarrow> tables \<Rightarrow> account list" where
  "load_auto_timer_candidates cfg now t =
     auto_timer_candidates (now - hours 24) (st_skip_proxy cfg) (st_limit cfg) t"

text \<open>\<open>None\<close> is the \<open>ValueError\<close> of a negative limit.\<close>

definition limit_auto_timer_candidates :: "sync_settings \<Rightarrow> account list \<Rightarrow> account list option" where
  "limit_auto_timer_candidates cfg rows =
     (if st_limit cfg = 0 then Some rows
      else if st_limit cfg < 0 then None
      else Some (take (nat (st_limit cfg)) rows))"

section \<open>The runtime\<close>

datatype sync_worker = Stopped | Listening | Working work_item

record sync_runtime =
  rt_tables :: tables
  rt_queue :: sync_queue
  rt_worker :: sync_worker

datatype enqueue_answer = MissingAccount | SkippedReauth | InQueue enqueue_status

definition load_active_account :: "string \<Rightarrow> int option \<Rightarrow> db \<Rightarrow> account option" where
  "load_active_account aid uid d =
     find_row (\<lambda>a. a_id a = aid \<and> a_active a \<and> (uid = None \<or> uid = Some (a_user a))) (accounts d)"

definition enqueue_account ::
  "string \<Rightarrow> string \<Rightarrow> int option \<Rightarrow> bool \<Rightarrow> sync_runtime \<Rightarrow> sync_error + sync_runtime \<times> enqueue_answer" where
  "enqueue_account aid trigger uid skip rt =
     (case load_active_account aid uid (fst (rt_tables rt)) of
        None \<Rightarrow> Inr (rt, MissingAccount)
      | Some a \<Rightarrow>
          if skip \<and> is_reauth_required_account (Some a) then Inr (rt, SkippedReauth)
          else and_then (enqueue (a_id a) (a_user a) trigger (rt_queue rt))
                 (\<lambda>(q, s). Inr (rt\<lparr>rt_queue := q\<rparr>, InQueue s)))"

text \<open>The accounts of a request or a scan, one after the other, and their answers.\<close>

fun enqueue_accounts ::
  "string \<Rightarrow> bool \<Rightarrow> (string \<times> int) list \<Rightarrow> sync_runtime \<Rightarrow> sync_error + sync_runtime \<times> enqueue_answer list" where
  "enqueue_accounts trigger skip [] rt = Inr (rt, [])"
| "enqueue_accounts trigger skip ((aid, uid) # rest) rt =
     and_then (enqueue_account aid trigger (Some uid) skip rt)
       (\<lambda>(rt1, s). and_then (enqueue_accounts trigger skip rest rt1) (\<lambda>(rt2, ss). Inr (rt2, s # ss)))"

definition sync_run_once :: "sync_settings \<Rightarrow> datetime \<Rightarrow> sync_runtime \<Rightarrow> sync_runtime" where
  "sync_run_once cfg now rt =
     (case limit_auto_timer_candidates cfg (load_auto_timer_candidates cfg now (rt_tables rt)) of
        None \<Rightarrow> rt
      | Some rows \<Rightarrow>
          (case enqueue_accounts trigger_timer True (map (\<lambda>a. (a_id a, a_user a)) rows) rt of
             Inl _ \<Rightarrow> rt
           | Inr (rt', _) \<Rightarrow> rt'))"

text \<open>One turn of the worker: it takes an account, and later books the result.\<close>

definition worker_take :: "sync_runtime \<Rightarrow> sync_runtime" where
  "worker_take rt =
     (case rt_worker rt of
        Listening \<Rightarrow>
          (let (item, q) = get_item (rt_queue rt)
           in rt\<lparr>rt_queue := q, rt_worker := (case item of None \<Rightarrow> Listening | Some i \<Rightarrow> Working i)\<rparr>)
      | _ \<Rightarrow> rt)"

text \<open>An exception of \<open>complete\<close> would end the worker.\<close>

definition book_result :: "work_item \<Rightarrow> sync_result \<Rightarrow> sync_worker \<Rightarrow> sync_runtime \<Rightarrow> sync_runtime" where
  "book_result i r w rt =
     (case complete i r (rt_queue rt) of
        Inl _ \<Rightarrow> rt\<lparr>rt_worker := Stopped\<rparr>
      | Inr q \<Rightarrow> rt\<lparr>rt_queue := q, rt_worker := w\<rparr>)"

definition worker_finish :: "sync_env \<Rightarrow> sync_runtime \<Rightarrow> sync_runtime" where
  "worker_finish env rt =
     (case rt_worker rt of
        Working i \<Rightarrow>
          (let (t, r) = execute_account_sync env i (rt_tables rt)
           in book_result i r Listening (rt\<lparr>rt_tables := t\<rparr>))
      | _ \<Rightarrow> rt)"

definition start_sync :: "sync_runtime \<Rightarrow> sync_runtime" where
  "start_sync rt = (if rt_worker rt = Stopped then rt\<lparr>rt_worker := Listening\<rparr> else rt)"

text \<open>The worker is cancelled; what its run has written by then is as if Telegram had cut it off.\<close>

definition stop_sync :: "sync_env \<Rightarrow> sync_runtime \<Rightarrow> sync_runtime" where
  "stop_sync env rt =
     (case rt_worker rt of
        Working i \<Rightarrow>
          (let t = fst (sync_account_snapshot env (wi_account i) (wi_trigger i) (rt_tables rt))
           in book_result i (failure_result i ''<worker stopped>'') Stopped (rt\<lparr>rt_tables := t\<rparr>))
      | _ \<Rightarrow> rt\<lparr>rt_worker := Stopped\<rparr>)"

section \<open>Requests of users\<close>

datatype sync_response = Accepted enqueue_status | Waits nat | AllDone | AllRunning | AllQueued int int int int

definition sync_resources ::
  "string \<Rightarrow> int \<Rightarrow> bool \<Rightarrow> sync_runtime \<Rightarrow> sync_runtime \<times> (http_error + sync_response)" where
  "sync_resources aid uid wait rt =
     (case check_account_permission aid uid (fst (rt_tables rt)) of
        Inl e \<Rightarrow> (rt, Inl e)
      | Inr _ \<Rightarrow>
          (case enqueue_account aid trigger_manual (Some uid) False rt of
             Inl _ \<Rightarrow> (rt, Inl unhandled)
           | Inr (rt1, MissingAccount) \<Rightarrow> (rt1, Inl (Http 404 ''<account missing or disabled>''))
           | Inr (rt1, SkippedReauth) \<Rightarrow> (rt1, Inl unhandled)
           | Inr (rt1, InQueue s) \<Rightarrow>
               if wait then (rt1, case wait_for_result aid (rt_queue rt1) of
                                    Inl _ \<Rightarrow> Inl unhandled
                                  | Inr f \<Rightarrow> Inr (Waits f))
               else (rt1, Inr (Accepted s))))"

text \<open>What a waiting request answers: \<open>None\<close> is the end of its own waiting time.\<close>

definition waited_response :: "sync_result option \<Rightarrow> http_error + int" where
  "waited_response r =
     (case r of
        None \<Rightarrow> Inl (Http 504 ''<sync still running>'')
      | Some x \<Rightarrow>
          if \<not> sr_resource_ok x then Inl (Http 502 (str_or (sr_error x) ''<sync failed>''))
          else Inr (sr_count x))"

definition count_answer :: "enqueue_status \<Rightarrow> enqueue_answer list \<Rightarrow> int" where
  "count_answer s xs = int (length (filter (\<lambda>x. x = InQueue s) xs))"

definition sync_all_resources :: "int \<Rightarrow> sync_runtime \<Rightarrow> sync_runtime \<times> (http_error + sync_response)" where
  "sync_all_resources uid rt =
     (let mine = sort_key (\<lambda>a. - a_created a)
                   (filter (\<lambda>a. a_user a = uid \<and> a_active a) (accounts (fst (rt_tables rt))))
      in if mine = [] then (rt, Inr AllDone)
         else case enqueue_accounts trigger_manual False (map (\<lambda>a. (a_id a, uid)) mine) rt of
           Inl _ \<Rightarrow> (rt, Inl unhandled)
         | Inr (rt1, xs) \<Rightarrow>
             (let new = count_answer Enqueued xs; raised = count_answer Reprioritized xs;
                  busy = count_answer AlreadyQueued xs + count_answer AlreadyRunning xs
              in (rt1, Inr (if new = 0 \<and> raised = 0 \<and> 0 < busy then AllRunning
                            else AllQueued new raised busy (int (length mine))))))"

definition get_sync_status :: "string \<Rightarrow> int \<Rightarrow> sync_runtime \<Rightarrow> http_error + sync_status" where
  "get_sync_status aid uid rt =
     and_then (check_account_permission aid uid (fst (rt_tables rt)))
       (\<lambda>_. Inr (get_status aid (rt_queue rt)))"

definition set_account_enabled :: "string \<Rightarrow> int \<Rightarrow> bool \<Rightarrow> db \<Rightarrow> db \<times> (http_error + unit)" where
  "set_account_enabled aid uid enabled d =
     (case check_account_permission aid uid d of
        Inl e \<Rightarrow> (d, Inl e)
      | Inr _ \<Rightarrow> (upd_account aid (\<lambda>a. a\<lparr>a_active := enabled\<rparr>) d, Inr ()))"

section \<open>Runs\<close>

text \<open>The events of the process; the rest of the backend changes the tables in between.\<close>

inductive sync_step :: "sync_settings \<Rightarrow> sync_runtime \<Rightarrow> sync_runtime \<Rightarrow> bool" for cfg where
  launch: "sync_step cfg rt (start_sync rt)"
| cancel: "sync_step cfg rt (stop_sync env rt)"
| scan: "sync_step cfg rt (sync_run_once cfg now rt)"
| take: "sync_step cfg rt (worker_take rt)"
| finish: "sync_step cfg rt (worker_finish env rt)"
| request: "sync_step cfg rt (fst (sync_resources aid uid wait rt))"
| request_all: "sync_step cfg rt (fst (sync_all_resources uid rt))"
| login: "enqueue_account aid trigger_login (Some uid) False rt = Inr (rt', s) \<Longrightarrow> sync_step cfg rt rt'"
| others: "sync_step cfg rt (rt\<lparr>rt_tables := t\<rparr>)"

end
