(* ===== verification/ResourceFacts.thy ===== *)
theory ResourceFacts
  imports Resources
begin

text \<open>
  The full synchronisation as a function of the dialogs it can use: what is matched, what is new
  and what is left over, and when the rows it writes violate the uniqueness of the peers.
\<close>

section \<open>The dialogs that count\<close>

definition usable_peer :: "dialog \<Rightarrow> (datetime \<times> peer \<times> string) option" where
  "usable_peer d =
     (case d of
        (now, None) \<Rightarrow> None
      | (now, Some p) \<Rightarrow>
          if pe_class p = EmptyPeer then None else map_option (\<lambda>ty. (now, p, ty)) (get_peer_type p))"

definition usable :: "dialog list \<Rightarrow> (datetime \<times> peer \<times> string) list" where
  "usable ds = List.map_filter usable_peer ds"

definition use_id :: "datetime \<times> peer \<times> string \<Rightarrow> int" where
  "use_id u = pe_id (fst (snd u))"

definition use_data :: "string \<Rightarrow> datetime \<times> peer \<times> string \<Rightarrow> resource" where
  "use_data aid u = resource_data aid (fst u) (fst (snd u)) (snd (snd u))"

lemma use_data_simps [simp]:
  "rs_account (use_data aid u) = aid" "rs_peer (use_data aid u) = use_id u" "rs_active (use_data aid u)"
  by (simp_all add: use_data_def use_id_def resource_data_def)

text \<open>One usable dialog.\<close>

definition take_peer :: "string \<Rightarrow> datetime \<times> peer \<times> string \<Rightarrow> merge \<Rightarrow> merge" where
  "take_peer aid u m =
     (case find_row (\<lambda>r. rs_peer r = use_id u) (mg_left m) of
        None \<Rightarrow> m\<lparr>mg_new := mg_new m @ [use_data aid u]\<rparr>
      | Some r \<Rightarrow> m\<lparr>mg_left := filter (\<lambda>q. rs_peer q \<noteq> use_id u) (mg_left m),
                    mg_seen := mg_seen m @ [(use_data aid u)\<lparr>rs_id := rs_id r\<rparr>]\<rparr>)"

lemma sync_dialogs_merge: "fst (sync_dialogs aid ds m c) = fold (take_peer aid) (usable ds) m"
proof (induction ds arbitrary: m c)
  case Nil
  then show ?case by (simp add: usable_def map_filter_simps)
next
  case (Cons d ds)
  obtain now x where d: "d = (now, x)" by (cases d)
  show ?case
  proof (cases "usable_peer d")
    case None
    then have u: "usable (d # ds) = usable ds" by (simp add: usable_def map_filter_simps)
    show ?thesis
    proof (cases x)
      case None
      then show ?thesis using Cons.IH u d by simp
    next
      case (Some p)
      then have "fst (sync_peer aid now p m) = m"
        using None d by (auto simp: sync_peer_def usable_peer_def split: if_splits)
      then show ?thesis using Cons.IH u d Some by (simp add: case_prod_beta)
    qed
  next
    case (Some u)
    then have more: "usable (d # ds) = u # usable ds" by (simp add: usable_def map_filter_simps)
    obtain p ty where u: "u = (now, p, ty)" and p: "x = Some p" "pe_class p \<noteq> EmptyPeer" "get_peer_type p = Some ty"
    proof -
      obtain p where "x = Some p" using Some d by (cases x) (auto simp: usable_peer_def)
      with that Some d show ?thesis by (cases "get_peer_type p") (auto simp: usable_peer_def split: if_splits)
    qed
    then have "fst (sync_peer aid now p m) = take_peer aid u m"
      by (simp add: sync_peer_def take_peer_def Let_def use_data_def use_id_def split: option.split)
    then show ?thesis using Cons.IH more d p(1) by (simp add: case_prod_beta)
  qed
qed

lemma sync_dialogs_counts:
  "sc_synced (snd (sync_dialogs aid ds m c)) = sc_synced c + int (length (filter (\<lambda>d. snd d \<noteq> None) ds))
   \<and> sc_failed (snd (sync_dialogs aid ds m c)) = sc_failed c + int (length (filter (\<lambda>d. snd d = None) ds))"
proof (induction ds arbitrary: m c)
  case (Cons d ds)
  then show ?case by (cases d; cases "snd d") (simp_all add: case_prod_beta)
qed simp

section \<open>The merge\<close>

lemma merge_left:
  "mg_left (fold (take_peer aid) us m) = filter (\<lambda>r. rs_peer r \<notin> use_id ` set us) (mg_left m)"
proof (induction us arbitrary: m)
  case (Cons u us)
  have "mg_left (take_peer aid u m) = filter (\<lambda>r. rs_peer r \<noteq> use_id u) (mg_left m)"
    by (auto simp: take_peer_def find_row_None split: option.split intro!: filter_True [symmetric])
  then show ?case using Cons by (simp add: conj_commute)
qed simp

text \<open>With distinct peers the matches are those in the rows at the start.\<close>

definition match :: "resource list \<Rightarrow> datetime \<times> peer \<times> string \<Rightarrow> resource option" where
  "match rows u = find_row (\<lambda>r. rs_peer r = use_id u) rows"

lemma match_filter: "use_id u \<notin> X \<Longrightarrow> match (filter (\<lambda>r. rs_peer r \<notin> X) rows) u = match rows u"
  unfolding match_def by (induction rows) auto

lemma map_filter_same: "(\<And>x. x \<in> set xs \<Longrightarrow> f x = g x) \<Longrightarrow> List.map_filter f xs = List.map_filter g xs"
  by (induction xs) (simp_all add: map_filter_simps split: option.split)

lemma merge_distinct:
  "distinct (map use_id us) \<Longrightarrow>
   mg_seen (fold (take_peer aid) us m) = mg_seen m
     @ List.map_filter (\<lambda>u. map_option (\<lambda>r. (use_data aid u)\<lparr>rs_id := rs_id r\<rparr>) (match (mg_left m) u)) us
   \<and> mg_new (fold (take_peer aid) us m) = mg_new m @ map (use_data aid) (filter (\<lambda>u. match (mg_left m) u = None) us)"
proof (induction us arbitrary: m)
  case Nil
  then show ?case by (simp add: map_filter_simps)
next
  case (Cons u us)
  have left: "mg_left (take_peer aid u m) = filter (\<lambda>r. rs_peer r \<notin> {use_id u}) (mg_left m)"
    using merge_left [of aid "[u]" m] by simp
  have same: "match (mg_left (take_peer aid u m)) v = match (mg_left m) v" if "v \<in> set us" for v
  proof -
    have "use_id v \<in> use_id ` set us" using that by (rule imageI)
    moreover have "use_id u \<notin> use_id ` set us" using Cons.prems by simp
    ultimately have "use_id v \<noteq> use_id u" by metis
    then show ?thesis unfolding left by (intro match_filter) simp
  qed
  have "List.map_filter (\<lambda>v. map_option (\<lambda>r. (use_data aid v)\<lparr>rs_id := rs_id r\<rparr>) (match (mg_left (take_peer aid u m)) v)) us
      = List.map_filter (\<lambda>v. map_option (\<lambda>r. (use_data aid v)\<lparr>rs_id := rs_id r\<rparr>) (match (mg_left m) v)) us"
    by (rule map_filter_same) (simp add: same)
  moreover have "filter (\<lambda>v. match (mg_left (take_peer aid u m)) v = None) us = filter (\<lambda>v. match (mg_left m) v = None) us"
    by (rule filter_cong) (simp_all add: same)
  moreover have "distinct (map use_id us)" using Cons.prems by simp
  ultimately show ?case using Cons.IH [of "take_peer aid u m"]
    by (cases "match (mg_left m) u") (auto simp: take_peer_def match_def map_filter_simps split: option.splits)
qed

text \<open>A peer that comes twice is new the second time.\<close>

lemma new_grows: "\<exists>xs. mg_new (fold (take_peer aid) us m) = mg_new m @ xs"
proof (induction us arbitrary: m)
  case (Cons u us)
  obtain xs where "mg_new (fold (take_peer aid) us (take_peer aid u m)) = mg_new (take_peer aid u m) @ xs"
    using Cons by blast
  moreover have "\<exists>ys. mg_new (take_peer aid u m) = mg_new m @ ys" by (auto simp: take_peer_def split: option.split)
  ultimately show ?case by auto
qed simp

lemma distinct_peers_needed:
  assumes "distinct (K @ map rs_peer (mg_new (fold (take_peer aid) us m)))" "rs_peer ` set (mg_left m) \<subseteq> set K"
  shows "distinct (map use_id us)
    \<and> (\<forall>p \<in> use_id ` set us. p \<in> rs_peer ` set (mg_left m) \<or> p \<notin> set K \<and> p \<notin> rs_peer ` set (mg_new m))"
  using assms
proof (induction us arbitrary: m)
  case (Cons u us)
  let ?m = "take_peer aid u m"
  have left: "mg_left ?m = filter (\<lambda>r. rs_peer r \<noteq> use_id u) (mg_left m)"
    using merge_left [of aid "[u]" m] by simp
  have "rs_peer ` set (mg_left ?m) \<subseteq> set K" using Cons.prems(2) unfolding left by auto
  then have IH: "distinct (map use_id us)"
    "\<And>p. p \<in> use_id ` set us \<Longrightarrow> p \<in> rs_peer ` set (mg_left ?m) \<or> p \<notin> set K \<and> p \<notin> rs_peer ` set (mg_new ?m)"
    using Cons.IH [of ?m] Cons.prems(1) by auto
  have gone: "use_id u \<notin> rs_peer ` set (mg_left ?m)" unfolding left by auto
  show ?case
  proof (cases "match (mg_left m) u")
    case None
    then have m: "mg_new ?m = mg_new m @ [use_data aid u]" "mg_left ?m = mg_left m"
      by (simp_all add: take_peer_def match_def)
    obtain xs where "mg_new (fold (take_peer aid) us ?m) = mg_new ?m @ xs" using new_grows by blast
    then have "distinct (K @ map rs_peer (mg_new m) @ use_id u # map rs_peer xs)" using Cons.prems(1) m(1) by simp
    then have "use_id u \<notin> set K" "use_id u \<notin> rs_peer ` set (mg_new m)" by auto
    moreover have "use_id u \<notin> use_id ` set us" using IH(2) [of "use_id u"] gone m by auto
    ultimately show ?thesis using IH m by auto
  next
    case (Some r)
    then have r: "r \<in> set (mg_left m)" "rs_peer r = use_id u" unfolding match_def by (auto dest: find_row_Some)
    have new: "mg_new ?m = mg_new m" using Some by (simp add: take_peer_def match_def)
    have "use_id u \<in> set K" using r Cons.prems(2) by auto
    then have "use_id u \<notin> use_id ` set us" using IH(2) [of "use_id u"] gone by auto
    moreover have "use_id u \<in> rs_peer ` set (mg_left m)" using r by (metis imageI)
    moreover have "p \<in> rs_peer ` set (mg_left m) \<or> p \<notin> set K \<and> p \<notin> rs_peer ` set (mg_new m)"
      if "p \<in> use_id ` set us" for p using IH(2) [OF that] unfolding left new by auto
    ultimately show ?thesis using IH(1) by simp
  qed
qed simp

section \<open>The table\<close>

definition resources_ok :: "resource list \<Rightarrow> bool" where
  "resources_ok rows \<longleftrightarrow> unique_peers rows \<and> distinct (map rs_id rows)"

lemma number_rows_map: "(\<And>x n. g (x\<lparr>rs_id := n\<rparr>) = g x) \<Longrightarrow> map g (number_rows n xs) = map g xs"
  by (induction xs arbitrary: n) simp_all

lemma number_rows_ids: "map rs_id (number_rows n xs) = map (\<lambda>k. n + int k) [0..<length xs]"
proof (induction xs arbitrary: n)
  case (Cons x xs)
  have "map (\<lambda>k. n + int k) [0..<length (x # xs)] = n # map (\<lambda>k. n + 1 + int k) [0..<length xs]"
    by (simp add: upt_conv_Cons map_Suc_upt [symmetric] del: upt_Suc)
  then show ?case using Cons by simp
qed simp

lemma number_rows_set: "x \<in> set (number_rows n xs) \<Longrightarrow> \<exists>y \<in> set xs. \<exists>k. x = y\<lparr>rs_id := k\<rparr>"
  by (induction xs arbitrary: n) auto

lemma number_rows_in: "y \<in> set xs \<Longrightarrow> \<exists>k. y\<lparr>rs_id := k\<rparr> \<in> set (number_rows n xs)"
  by (induction xs arbitrary: n) auto

lemma next_resource_free: "x \<in> set rows \<Longrightarrow> rs_id x < next_resource_id rows"
proof -
  have "x \<in> set rows \<Longrightarrow> rs_id x \<le> foldr max (map rs_id rows) 0" by (induction rows) auto
  then show "x \<in> set rows \<Longrightarrow> rs_id x < next_resource_id rows" by (simp add: next_resource_id_def)
qed

text \<open>The rows of the table after the commit.\<close>

text \<open>What the old rows become.\<close>

definition renewed :: "string \<Rightarrow> (datetime \<times> peer \<times> string) list \<Rightarrow> resource \<Rightarrow> resource" where
  "renewed aid us r =
     (if rs_account r \<noteq> aid then r
      else case List.find (\<lambda>u. use_id u = rs_peer r) us of
        None \<Rightarrow> r\<lparr>rs_active := False\<rparr>
      | Some u \<Rightarrow> (use_data aid u)\<lparr>rs_id := rs_id r\<rparr>)"

lemma renewed_key [simp]: "rs_account (renewed aid us r) = rs_account r" "rs_peer (renewed aid us r) = rs_peer r"
  "rs_id (renewed aid us r) = rs_id r"
  by (auto simp: renewed_def find_Some_iff split: option.split)

lemma unique_row:
  "unique_peers rows \<Longrightarrow> r \<in> set rows \<Longrightarrow> q \<in> set rows \<Longrightarrow> rs_account r = rs_account q \<Longrightarrow> rs_peer r = rs_peer q \<Longrightarrow> r = q"
  by (auto simp: unique_peers_def distinct_map dest: inj_onD)

lemma find_distinct: "distinct (map f xs) \<Longrightarrow> x \<in> set xs \<Longrightarrow> List.find (\<lambda>y. f y = f x) xs = Some x"
  by (induction xs) (auto simp: rev_image_eqI)

lemma written_distinct:
  fixes aid :: string
  assumes ok: "resources_ok rows" and d: "distinct (map use_id us)"
  defines "mine \<equiv> filter (\<lambda>r. rs_account r = aid) rows"
  defines "m \<equiv> fold (take_peer aid) us \<lparr>mg_left = mine, mg_seen = [], mg_new = []\<rparr>"
  shows "written aid m rows = map (renewed aid us) rows
    @ number_rows (next_resource_id rows) (map (use_data aid) (filter (\<lambda>u. match mine u = None) us))"
proof -
  have seen: "mg_seen m = List.map_filter (\<lambda>u. map_option (\<lambda>r. (use_data aid u)\<lparr>rs_id := rs_id r\<rparr>) (match mine u)) us"
    and new: "mg_new m = map (use_data aid) (filter (\<lambda>u. match mine u = None) us)"
    using merge_distinct [OF d, of aid "\<lparr>mg_left = mine, mg_seen = [], mg_new = []\<rparr>"] by (simp_all add: m_def)
  have u: "unique_peers rows" and ids: "inj_on rs_id (set rows)" using ok by (simp_all add: resources_ok_def distinct_map)
  have in_seen: "x \<in> set (mg_seen m) \<longleftrightarrow> (\<exists>v \<in> set us. \<exists>q \<in> set mine. rs_peer q = use_id v \<and> x = (use_data aid v)\<lparr>rs_id := rs_id q\<rparr>)" for x
  proof -
    have mt: "match mine v = Some q \<longleftrightarrow> q \<in> set mine \<and> rs_peer q = use_id v" for v q
    proof
      assume "q \<in> set mine \<and> rs_peer q = use_id v"
      moreover from this obtain q' where "match mine v = Some q'"
        by (cases "match mine v") (auto simp: match_def find_row_None)
      moreover from this have "q' \<in> set mine" "rs_peer q' = use_id v" unfolding match_def by (auto dest: find_row_Some)
      ultimately show "match mine v = Some q" using unique_row [OF u, of q q'] by (simp add: mine_def)
    qed (auto simp: match_def dest: find_row_Some)
    show ?thesis unfolding seen set_map_filter mem_Collect_eq map_option_eq_Some mt by blast
  qed
  have "(case find_row (\<lambda>x. rs_id x = rs_id r) (mg_seen m) of Some x \<Rightarrow> x | None \<Rightarrow> r\<lparr>rs_active := False\<rparr>) = renewed aid us r"
    if r: "r \<in> set rows" "rs_account r = aid" for r
  proof (cases "\<exists>v \<in> set us. use_id v = rs_peer r")
    case True
    then obtain v where v: "v \<in> set us" "use_id v = rs_peer r" by blast
    have f: "List.find (\<lambda>u. use_id u = rs_peer r) us = Some v" using find_distinct [OF d v(1)] v(2) by simp
    have x: "(use_data aid v)\<lparr>rs_id := rs_id r\<rparr> \<in> set (mg_seen m)" unfolding in_seen
      by (rule bexI [OF _ v(1)], rule bexI [of _ r]) (use v r in \<open>simp_all add: mine_def\<close>)
    then obtain y where y: "find_row (\<lambda>x. rs_id x = rs_id r) (mg_seen m) = Some y"
      by (cases "find_row (\<lambda>x. rs_id x = rs_id r) (mg_seen m)") (auto simp: find_row_None)
    then have "rs_id y = rs_id r" "y \<in> set (mg_seen m)" using find_row_Some [OF y] by simp_all
    then obtain v' q where q: "v' \<in> set us" "q \<in> set mine" "rs_peer q = use_id v'" "y = (use_data aid v')\<lparr>rs_id := rs_id q\<rparr>" "rs_id q = rs_id r"
      unfolding in_seen by auto
    then have "q = r" using ids r by (auto simp: mine_def dest: inj_onD)
    then have "v' = v" using d v q by (auto simp: distinct_map dest: inj_onD)
    then show ?thesis using y f q \<open>q = r\<close> r by (simp add: renewed_def)
  next
    case False
    have "rs_id x \<noteq> rs_id r" if x: "x \<in> set (mg_seen m)" for x
    proof
      assume e: "rs_id x = rs_id r"
      obtain v q where q: "v \<in> set us" "q \<in> set mine" "rs_peer q = use_id v" "x = (use_data aid v)\<lparr>rs_id := rs_id q\<rparr>"
        using x unfolding in_seen by blast
      then have "q = r" using ids r e by (simp add: mine_def inj_on_def)
      then have "use_id v = rs_peer r" using q(3) by simp
      with False q(1) show False by blast
    qed
    then have "find_row (\<lambda>x. rs_id x = rs_id r) (mg_seen m) = None" by (simp add: find_row_None)
    moreover have "List.find (\<lambda>u. use_id u = rs_peer r) us = None" using False by (auto simp: find_None_iff)
    ultimately show ?thesis using r by (simp add: renewed_def)
  qed
  then have "map (\<lambda>r. if rs_account r \<noteq> aid then r
      else case find_row (\<lambda>x. rs_id x = rs_id r) (mg_seen m) of Some x \<Rightarrow> x | None \<Rightarrow> r\<lparr>rs_active := False\<rparr>) rows
    = map (renewed aid us) rows"
    by (intro map_cong) (auto simp: renewed_def)
  then show ?thesis unfolding written_def new by simp
qed

section \<open>Histories of the table\<close>

text \<open>Only synchronisations and the deletion of accounts write the table.\<close>

datatype resource_event = SyncEvent string "string + dialog list" | DropEvent string

definition apply_resource_event :: "resource_event \<Rightarrow> resource list \<Rightarrow> resource list" where
  "apply_resource_event e rows =
     (case e of
        SyncEvent aid answer \<Rightarrow> fst (full_sync aid answer rows)
      | DropEvent aid \<Rightarrow> filter (\<lambda>r. rs_account r \<noteq> aid) rows)"

definition resources_after :: "resource_event list \<Rightarrow> resource list" where
  "resources_after es = fold apply_resource_event es []"

abbreviation (input) start_merge :: "string \<Rightarrow> resource list \<Rightarrow> merge" where
  "start_merge aid rows \<equiv> \<lparr>mg_left = filter (\<lambda>r. rs_account r = aid) rows, mg_seen = [], mg_new = []\<rparr>"

lemma full_sync_rows:
  "fst (full_sync aid (Inr ds) rows) =
     (let rows' = written aid (fold (take_peer aid) (usable ds) (start_merge aid rows)) rows
      in if unique_peers rows' then rows' else rows)"
  using sync_dialogs_merge [of aid ds "start_merge aid rows" "no_counts []"]
  by (simp add: full_sync_def Let_def case_prod_beta)

lemma written_ids:
  assumes "resources_ok rows"
  shows "distinct (map rs_id (written aid m rows))"
proof -
  have "rs_id (if rs_account r \<noteq> aid then r else case find_row (\<lambda>x. rs_id x = rs_id r) (mg_seen m) of
      Some x \<Rightarrow> x | None \<Rightarrow> r\<lparr>rs_active := False\<rparr>) = rs_id r" for r
    by (auto dest: find_row_Some split: option.split)
  then have "map rs_id (written aid m rows) = map rs_id rows @ map (\<lambda>k. next_resource_id rows + int k) [0..<length (mg_new m)]"
    by (simp add: written_def number_rows_ids comp_def)
  moreover have "inj (\<lambda>k. next_resource_id rows + int k)" by (simp add: inj_def)
  ultimately show ?thesis
    using assms next_resource_free [of _ rows] by (fastforce simp: resources_ok_def distinct_map inj_on_def)
qed

lemma full_sync_ok: "resources_ok rows \<Longrightarrow> resources_ok (fst (full_sync aid answer rows))"
proof (cases answer)
  case (Inr ds)
  assume "resources_ok rows"
  then show ?thesis unfolding Inr full_sync_rows using written_ids [of rows] by (simp add: Let_def resources_ok_def)
qed (simp add: full_sync_def)

lemma drop_rows_ok: "resources_ok rows \<Longrightarrow> resources_ok (filter P rows)"
  by (simp add: resources_ok_def unique_peers_def distinct_map_filter)

lemma resources_after_ok: "resources_ok (resources_after es)"
proof -
  have "resources_ok rows \<Longrightarrow> resources_ok (fold apply_resource_event es rows)" for rows
    by (induction es arbitrary: rows)
      (simp_all add: apply_resource_event_def full_sync_ok drop_rows_ok split: resource_event.split)
  then show ?thesis by (simp add: resources_after_def resources_ok_def unique_peers_def)
qed

text \<open>The keys of the rows after a synchronisation without repeated peers are distinct.\<close>

lemma distinct_sync_unique:
  assumes ok: "resources_ok rows" and d: "distinct (map use_id us)"
  shows "unique_peers (written aid (fold (take_peer aid) us (start_merge aid rows)) rows)"
proof -
  let ?mine = "filter (\<lambda>r. rs_account r = aid) rows"
  let ?new = "filter (\<lambda>u. match ?mine u = None) us"
  have keys: "map (\<lambda>r. (rs_account r, rs_peer r)) (number_rows n (map (use_data aid) xs)) = map (\<lambda>u. (aid, use_id u)) xs" for n xs
    by (subst number_rows_map) (simp_all add: comp_def)
  have "distinct (map (\<lambda>u. (aid, use_id u)) ?new)"
    using d by (simp add: distinct_map_filter distinct_map inj_on_def)
  moreover have "(\<lambda>r. (rs_account r, rs_peer r)) ` set rows \<inter> (\<lambda>u. (aid, use_id u)) ` set ?new = {}"
  proof -
    have "(rs_account r, rs_peer r) \<noteq> (aid, use_id u)" if "r \<in> set rows" "u \<in> set ?new" for r u
      using that by (simp add: match_def find_row_None)
    then show ?thesis by blast
  qed
  moreover have "distinct (map (\<lambda>r. (rs_account r, rs_peer r)) rows)" using ok by (simp add: resources_ok_def unique_peers_def)
  moreover have "map (\<lambda>r. (rs_account r, rs_peer r)) (map (renewed aid us) rows) = map (\<lambda>r. (rs_account r, rs_peer r)) rows"
    by simp
  ultimately show ?thesis
    unfolding written_distinct [OF ok d] unique_peers_def map_append keys distinct_append set_map
    by (simp add: comp_def image_image)
qed

lemma merge_seen:
  "x \<in> set (mg_seen (fold (take_peer aid) us m)) \<Longrightarrow>
   x \<in> set (mg_seen m) \<or> (\<exists>r \<in> set (mg_left m). rs_id x = rs_id r \<and> rs_peer x = rs_peer r \<and> rs_account x = aid)"
proof (induction us arbitrary: m)
  case (Cons u us)
  let ?m = "take_peer aid u m"
  have one: "y \<in> set (mg_seen m) \<or> (\<exists>r \<in> set (mg_left m). rs_id y = rs_id r \<and> rs_peer y = rs_peer r \<and> rs_account y = aid)"
    if "y \<in> set (mg_seen ?m)" for y
    using that by (auto simp: take_peer_def split: option.splits dest!: find_row_Some)
  have "set (mg_left ?m) \<subseteq> set (mg_left m)" using merge_left [of aid "[u]" m] by simp
  then show ?case using Cons.IH [of ?m] Cons.prems one [of x] by auto
qed simp

lemma repeated_sync_not_unique:
  assumes ok: "resources_ok rows" and u: "unique_peers (written aid (fold (take_peer aid) us (start_merge aid rows)) rows)"
  shows "distinct (map use_id us)"
proof -
  let ?m = "fold (take_peer aid) us (start_merge aid rows)"
  let ?f = "\<lambda>r. if rs_account r \<noteq> aid then r else case find_row (\<lambda>x. rs_id x = rs_id r) (mg_seen ?m) of
      Some x \<Rightarrow> x | None \<Rightarrow> r\<lparr>rs_active := False\<rparr>"
  have ids: "inj_on rs_id (set rows)" using ok by (simp add: resources_ok_def distinct_map)
  have f: "rs_account (?f r) = rs_account r \<and> rs_peer (?f r) = rs_peer r" if r: "r \<in> set rows" for r
  proof (cases "find_row (\<lambda>x. rs_id x = rs_id r) (mg_seen ?m)")
    case None
    then show ?thesis by simp
  next
    case (Some x)
    then have x: "rs_id x = rs_id r" "x \<in> set (mg_seen ?m)" using find_row_Some [OF Some] by simp_all
    then obtain q where q: "q \<in> set rows" "rs_account q = aid" "rs_id x = rs_id q" "rs_peer x = rs_peer q" "rs_account x = aid"
      using merge_seen [OF x(2)] by auto
    then have "q = r" using ids r x(1) by (simp add: inj_on_def)
    then show ?thesis using Some q by simp
  qed
  have new: "rs_account x = aid" if "x \<in> set (mg_new ?m)" for x
  proof -
    have "rs_account x = aid" if "x \<in> set (mg_new (fold (take_peer aid) vs n))" "\<And>y. y \<in> set (mg_new n) \<Longrightarrow> rs_account y = aid" for vs n
      using that
    proof (induction vs arbitrary: n)
      case (Cons v vs)
      show ?case by (rule Cons.IH [of "take_peer aid v n"])
        (use Cons.prems in \<open>auto simp: take_peer_def split: option.splits\<close>)
    qed simp
    from this [OF that] show ?thesis by simp
  qed
  let ?mine = "filter (\<lambda>r. rs_account r = aid) rows"
  have "map (\<lambda>r. (rs_account r, rs_peer r)) (filter (\<lambda>r. rs_account r = aid) (written aid ?m rows))
      = map (Pair aid) (map rs_peer ?mine @ map rs_peer (mg_new ?m))"
  proof -
    have "map (\<lambda>r. (rs_account r, rs_peer r)) (filter (\<lambda>r. rs_account r = aid) (map g xs)) = map (Pair aid) (map rs_peer (filter (\<lambda>r. rs_account r = aid) xs))"
      if "\<And>r. r \<in> set xs \<Longrightarrow> rs_account (g r) = rs_account r \<and> rs_peer (g r) = rs_peer r" for g :: "resource \<Rightarrow> resource" and xs
      using that by (induction xs) auto
    from this [of rows ?f, OF f]
    have "map (\<lambda>r. (rs_account r, rs_peer r)) (filter (\<lambda>r. rs_account r = aid) (map ?f rows)) = map (Pair aid) (map rs_peer ?mine)" .
    note old = this
    have "map (\<lambda>r. (rs_account r, rs_peer r)) (filter (\<lambda>r. rs_account r = aid) (number_rows n xs)) = map (Pair aid) (map rs_peer xs)"
      if "\<And>x. x \<in> set xs \<Longrightarrow> rs_account x = aid" for n xs using that by (induction xs arbitrary: n) auto
    note fresh = this [of "mg_new ?m" "next_resource_id rows", OF new]
    show ?thesis unfolding written_def filter_append map_append by (simp only: old) (rule arg_cong [OF fresh])
  qed
  moreover have "distinct (map (\<lambda>r. (rs_account r, rs_peer r)) (filter (\<lambda>r. rs_account r = aid) (written aid ?m rows)))"
    using u by (simp add: unique_peers_def distinct_map_filter)
  ultimately have "distinct (map (Pair aid) (map rs_peer ?mine @ map rs_peer (mg_new ?m)))" by (rule subst)
  then have "distinct (map rs_peer ?mine @ map rs_peer (mg_new ?m))" by (simp only: distinct_map)
  from distinct_peers_needed [OF this] show ?thesis by simp
qed

text \<open>The outcome of a synchronisation.\<close>

lemma full_sync_outcome:
  assumes ok: "resources_ok rows"
  shows "if distinct (map use_id (usable ds))
     then fst (full_sync aid (Inr ds) rows)
        = map (renewed aid (usable ds)) rows
          @ number_rows (next_resource_id rows)
              (map (use_data aid) (filter (\<lambda>u. match (filter (\<lambda>r. rs_account r = aid) rows) u = None) (usable ds)))
     else full_sync aid (Inr ds) rows = (rows, no_counts ''<duplicate peer>'')"
proof (cases "distinct (map use_id (usable ds))")
  case True
  then show ?thesis using distinct_sync_unique [OF ok True, of aid] written_distinct [OF ok True, of aid]
    by (simp add: full_sync_rows)
next
  case False
  then have "\<not> unique_peers (written aid (fold (take_peer aid) (usable ds) (start_merge aid rows)) rows)"
    using repeated_sync_not_unique [OF ok] by blast
  then show ?thesis using False sync_dialogs_merge [of aid ds "start_merge aid rows" "no_counts []"]
    by (simp add: full_sync_def Let_def case_prod_beta)
qed

lemma get_renewed:
  fixes aid :: string
  assumes ok: "resources_ok rows" and d: "distinct (map use_id us)" and u: "u \<in> set us"
  defines "rows' \<equiv> map (renewed aid us) rows @ number_rows (next_resource_id rows)
      (map (use_data aid) (filter (\<lambda>u. match (filter (\<lambda>r. rs_account r = aid) rows) u = None) us))"
  shows "\<exists>r k. get_resource aid (use_id u) rows' = Some r \<and> r = (use_data aid u)\<lparr>rs_id := k\<rparr>"
proof -
  let ?new = "filter (\<lambda>u. match (filter (\<lambda>r. rs_account r = aid) rows) u = None) us"
  have f: "List.find (\<lambda>v. use_id v = use_id u) us = Some u" by (rule find_distinct [OF d u])
  have "\<exists>r \<in> set rows'. rs_account r = aid \<and> rs_peer r = use_id u \<and> rs_active r"
  proof (cases "u \<in> set ?new")
    case True
    then have "use_data aid u \<in> set (map (use_data aid) ?new)" by simp
    from number_rows_in [OF this] show ?thesis by (force simp: rows'_def)
  next
    case False
    then obtain r where "find_row (\<lambda>r. rs_peer r = use_id u) (filter (\<lambda>r. rs_account r = aid) rows) = Some r"
      using u by (auto simp: match_def)
    then have r: "r \<in> set rows" "rs_account r = aid" "rs_peer r = use_id u" using find_row_Some by fastforce+
    then have "renewed aid us r \<in> set rows'" by (simp add: rows'_def)
    moreover have "rs_active (renewed aid us r)" using f r by (simp add: renewed_def)
    ultimately show ?thesis using r by (intro bexI [of _ "renewed aid us r"]) simp_all
  qed
  then obtain r where r: "get_resource aid (use_id u) rows' = Some r"
    by (cases "get_resource aid (use_id u) rows'") (auto simp: get_resource_def find_row_None)
  then have r': "r \<in> set rows'" "rs_account r = aid" "rs_peer r = use_id u" "rs_active r"
    using find_row_Some [of _ rows' r] by (auto simp: get_resource_def)
  have "\<exists>k. r = (use_data aid u)\<lparr>rs_id := k\<rparr>"
  proof (cases "r \<in> set (map (renewed aid us) rows)")
    case True
    then obtain q where q: "r = renewed aid us q" by auto
    then have "rs_account q = aid" "rs_peer q = use_id u" using r'(2,3) renewed_key [of aid us q] by simp_all
    then have "r = (use_data aid u)\<lparr>rs_id := rs_id q\<rparr>" using q f by (simp add: renewed_def)
    then show ?thesis ..
  next
    case False
    then obtain v k where v: "v \<in> set us" "r = (use_data aid v)\<lparr>rs_id := k\<rparr>"
      using r'(1) by (auto simp: rows'_def dest!: number_rows_set)
    then have "use_id v = use_id u" using r'(3) by simp
    then have "v = u" using d v(1) u by (simp add: distinct_map inj_on_def)
    then show ?thesis using v(2) by blast
  qed
  with r show ?thesis by blast
qed

lemma renewed_others:
  "filter (\<lambda>r. rs_account r \<noteq> aid) (map (renewed aid us) rows @ number_rows n (map (use_data aid) vs))
   = filter (\<lambda>r. rs_account r \<noteq> aid) rows"
proof -
  have "filter (\<lambda>r. rs_account r \<noteq> aid) (number_rows n (map (use_data aid) vs)) = []"
    by (auto simp: filter_empty_conv dest!: number_rows_set)
  moreover have "filter (\<lambda>r. rs_account r \<noteq> aid) (map (renewed aid us) rows) = filter (\<lambda>r. rs_account r \<noteq> aid) rows"
  proof (induction rows)
    case (Cons r rows)
    then show ?case using renewed_key [of aid us r] by (cases "rs_account r = aid") (simp_all add: renewed_def)
  qed simp
  ultimately show ?thesis by simp
qed

text \<open>The active rows of the account are those of the dialogs.\<close>

lemma renewed_peers:
  fixes aid :: string
  assumes ok: "resources_ok rows" and d: "distinct (map use_id us)"
  defines "rows' \<equiv> map (renewed aid us) rows @ number_rows (next_resource_id rows)
      (map (use_data aid) (filter (\<lambda>u. match (filter (\<lambda>r. rs_account r = aid) rows) u = None) us))"
  shows "set (map rs_peer (filter (\<lambda>r. rs_account r = aid \<and> rs_active r) rows')) = set (map use_id us)"
proof (intro equalityI subsetI)
  fix p assume "p \<in> set (map rs_peer (filter (\<lambda>r. rs_account r = aid \<and> rs_active r) rows'))"
  then obtain r where r: "r \<in> set rows'" "rs_account r = aid" "rs_active r" "p = rs_peer r" by auto
  show "p \<in> set (map use_id us)"
  proof (cases "r \<in> set (map (renewed aid us) rows)")
    case True
    then obtain q where q: "r = renewed aid us q" by auto
    then have "rs_account q = aid" using r(2) renewed_key(1) [of aid us q] by simp
    then have "List.find (\<lambda>u. use_id u = rs_peer q) us \<noteq> None"
      using r(3) unfolding q renewed_def by (intro notI) simp
    then obtain u where u: "u \<in> set us" "use_id u = rs_peer q" unfolding find_None_iff not_not by blast
    then have "use_id u = p" using r(4) q by simp
    then show ?thesis using u(1) by force
  next
    case False
    then obtain v k where "v \<in> set us" "r = (use_data aid v)\<lparr>rs_id := k\<rparr>"
      using r(1) by (auto simp: rows'_def dest!: number_rows_set)
    then show ?thesis using r(4) by force
  qed
next
  fix p assume "p \<in> set (map use_id us)"
  then obtain u where u: "u \<in> set us" "p = use_id u" unfolding set_map by blast
  obtain r k where r: "get_resource aid (use_id u) rows' = Some r" "r = (use_data aid u)\<lparr>rs_id := k\<rparr>"
    using get_renewed [OF ok d u(1), of aid] unfolding rows'_def by blast
  have "r \<in> set rows'" "rs_account r = aid" "rs_peer r = p" "rs_active r"
    using find_row_Some [OF r(1) [unfolded get_resource_def]] u(2) by simp_all
  then show "p \<in> set (map rs_peer (filter (\<lambda>r. rs_account r = aid \<and> rs_active r) rows'))" by force
qed

end
