(* ===== verification/SyncProps.thy ===== *)
theory SyncProps
  imports SyncOrder AccountSync ResourceFacts "HOL-Library.Multiset"
begin

text \<open>
  The properties of the synchronisation of accounts: the queue is an agenda, the order in which
  accounts are served, the results of those who wait, one account at a time, the scan of the
  timer, and the table of the chats after a synchronisation.
\<close>

section \<open>The queue\<close>

text \<open>
  C25: Whatever the calls before, each call of the queue is the call of the agenda, a list of
  waiting accounts in the order of service: replaced entries of the heap are never seen, a more
  urgent request moves its account forward and nothing else does, and no account that runs is
  taken a second time.
\<close>

theorem queue_implements_the_agenda:
  shows "let q = run_ops ops new_queue in
    agenda_enqueue aid uid trigger (agenda_of q) = map_sum id (map_prod agenda_of id) (enqueue aid uid trigger q)
    \<and> agenda_take (agenda_of q) = map_prod id agenda_of (get_item q)
    \<and> agenda_complete i (agenda_of q) = (case complete i r q of Inl e \<Rightarrow> None | Inr q' \<Rightarrow> Some (agenda_of q'))
    \<and> (case fst (get_item q) of None \<Rightarrow> waiting q = []
       | Some j \<Rightarrow> map_of (sq_running q) (wi_account j) = None \<and> \<not> list_ex (\<lambda>k. wi_key k < wi_key j) (waiting q))"
proof -
  let ?q = "run_ops ops new_queue"
  have ok: "sync_ok ?q" by (rule reached_queue_ok)
  then have h: "heap_ok ?q" by (simp add: sync_ok_def)
  have "case fst (get_item ?q) of None \<Rightarrow> waiting ?q = []
      | Some j \<Rightarrow> map_of (sq_running ?q) (wi_account j) = None \<and> \<not> list_ex (\<lambda>k. wi_key k < wi_key j) (waiting ?q)"
  proof (cases "waiting ?q")
    case Nil
    then show ?thesis using get_item_waiting [OF ok] by simp
  next
    case (Cons j js)
    have "map_of (sq_queued ?q) (wi_account j) = Some j" using queued_waits [OF h, of "wi_account j" j] Cons by simp
    then have "map_of (sq_running ?q) (wi_account j) = None"
      using ok unfolding sync_ok_def running_ok_def by (metis not_None_eq option.distinct(1))
    moreover have "\<not> wi_key k < wi_key j" if "k \<in> set (waiting ?q)" for k
      using waiting_sorted [OF h] that Cons by (auto simp: not_less)
    ultimately show ?thesis using get_item_waiting [OF ok] Cons by (auto simp: list_ex_iff)
  qed
  then show ?thesis
    using enqueue_refines [OF ok, of aid uid trigger] take_refines [OF ok] complete_refines [OF ok, of i r]
    by (simp add: Let_def)
qed

text \<open>
  C26: A waiting account is served after as many other accounts as are before it now, and as many
  calls as have more urgency than it: a manual request is never overtaken.
\<close>

theorem waiting_account_is_served_in_time:
  assumes "map_of (sq_queued (run_ops before new_queue)) a = Some i"
    and "place a (run_ops before new_queue) + (if wi_priority i = 0 then 0 else urgent_calls (wi_priority i) ops) < takes ops"
  shows "served a (run_ops before new_queue) ops"
  using served_in_time [OF reached_queue_ok assms(1), of ops] assms(2) no_urgent_manual [of ops]
  by (cases "wi_priority i = 0") simp_all

definition sample_calls :: "queue_op list" where
  "sample_calls = [Enqueue ''a'' 7 trigger_timer, Enqueue ''b'' 8 trigger_timer, Enqueue ''b'' 8 trigger_manual]"

theorem waiting_account_is_served_in_time_witness:
  "served ''b'' (run_ops sample_calls new_queue) [Enqueue ''c'' 9 trigger_manual, Take]"
proof -
  have "map_option wi_priority (map_of (sq_queued (run_ops sample_calls new_queue)) ''b'') = Some 0" by code_simp
  then obtain i where i: "map_of (sq_queued (run_ops sample_calls new_queue)) ''b'' = Some i" "wi_priority i = 0" by auto
  moreover have "place ''b'' (run_ops sample_calls new_queue) = 0" by code_simp
  ultimately show ?thesis
    using waiting_account_is_served_in_time [OF i(1), of "[Enqueue ''c'' 9 trigger_manual, Take]"] by (simp add: takes_def)
qed

text \<open>
  C27: Whoever waits for an account that waits or runs, waits for one future; it gets the result of
  the completion of that account's next run, and no call changes it afterwards.
\<close>

theorem waiters_get_the_next_result:
  assumes "busy_account a (run_ops before new_queue)"
  shows "\<exists>f. wait_for_result a (run_ops before new_queue) = Inr f
    \<and> (\<forall>ops r. sq_results (run_ops (before @ ops) new_queue) ! f = Some r
         \<longleftrightarrow> (\<exists>ops1 op ops2. ops = ops1 @ op # ops2 \<and> completes a r op (run_ops (before @ ops1) new_queue)
               \<and> sq_results (run_ops (before @ ops1) new_queue) ! f = None))"
proof -
  have ok: "sync_ok (run_ops before new_queue)" by (rule reached_queue_ok)
  obtain f where f: "awaited a f (run_ops before new_queue)" using busy_awaited [OF ok assms] ..
  then have "wait_for_result a (run_ops before new_queue) = Inr f" by (simp add: awaited_def wait_for_result_def)
  with awaited_result [OF ok f] show ?thesis by auto
qed

theorem waiters_get_the_next_result_witness:
  "\<exists>f. wait_for_result ''b'' (run_ops sample_calls new_queue) = Inr f"
proof -
  have "busy_account ''b'' (run_ops sample_calls new_queue)" by code_simp
  from waiters_get_the_next_result [OF this] show ?thesis by blast
qed

section \<open>The runtime\<close>

definition new_runtime :: "tables \<Rightarrow> sync_runtime" where
  "new_runtime t = \<lparr>rt_tables = t, rt_queue = new_queue, rt_worker = Stopped\<rparr>"

definition runtime_ok :: "sync_runtime \<Rightarrow> bool" where
  "runtime_ok rt \<longleftrightarrow> sync_ok (rt_queue rt)
     \<and> map_of (sq_running (rt_queue rt))
       = (case rt_worker rt of Working i \<Rightarrow> [wi_account i \<mapsto> i] | _ \<Rightarrow> Map.empty)"

lemma enqueue_running: "enqueue a u t q = Inr (q', s) \<Longrightarrow> sq_running q' = sq_running q"
  by (auto elim!: enqueue_cases simp: put_item_def)

lemma enqueue_account_ok:
  assumes "enqueue_account aid trigger uid skip rt = Inr (rt', s)" "runtime_ok rt"
  shows "runtime_ok rt'"
  using assms enqueue_ok enqueue_running
  by (fastforce simp: enqueue_account_def and_then_Inr runtime_ok_def split: option.splits if_splits)

lemma enqueue_accounts_ok:
  "enqueue_accounts trigger skip xs rt = Inr (rt', ss) \<Longrightarrow> runtime_ok rt \<Longrightarrow> runtime_ok rt'"
proof (induction xs arbitrary: rt ss)
  case (Cons x xs)
  obtain aid uid where x: "x = (aid, uid)" by (cases x)
  obtain rt1 s ss' where "enqueue_account aid trigger (Some uid) skip rt = Inr (rt1, s)"
    "enqueue_accounts trigger skip xs rt1 = Inr (rt', ss')"
    using Cons.prems(1) x by (auto simp: and_then_Inr)
  then show ?case using Cons.IH enqueue_account_ok Cons.prems(2) by blast
qed simp

lemma take_ok:
  assumes ok: "runtime_ok rt"
  shows "runtime_ok (worker_take rt)"
proof (cases "rt_worker rt = Listening")
  case True
  let ?q = "rt_queue rt"
  have s: "sync_ok ?q" using ok by (simp add: runtime_ok_def)
  have "runtime_ok (rt\<lparr>rt_queue := snd (get_item ?q), rt_worker := (case fst (get_item ?q) of None \<Rightarrow> Listening | Some i \<Rightarrow> Working i)\<rparr>)"
  proof (cases "waiting ?q")
    case Nil
    then have "agenda_of (snd (get_item ?q)) = agenda_of ?q"
      using take_refines [OF s] by (cases "get_item ?q") (simp add: agenda_take_def agenda_of_def)
    then show ?thesis using get_item_waiting [OF s] get_item_ok [OF s] Nil ok True
      by (simp add: runtime_ok_def agenda_of_def)
  next
    case (Cons i js)
    then show ?thesis using get_item_waiting [OF s] get_item_ok [OF s] ok True by (simp add: runtime_ok_def)
  qed
  then show ?thesis using True by (simp add: worker_take_def case_prod_beta)
next
  case False
  then show ?thesis using ok by (cases "rt_worker rt") (simp_all add: worker_take_def)
qed

text \<open>The worker books its result; \<open>complete\<close> does not raise.\<close>

lemma book_ok:
  assumes ok: "runtime_ok rt" and w: "rt_worker rt = Working i" and w': "w = Listening \<or> w = Stopped"
  shows "runtime_ok (book_result i r w (rt\<lparr>rt_tables := t\<rparr>)) \<and> rt_worker (book_result i r w (rt\<lparr>rt_tables := t\<rparr>)) = w"
proof -
  have s: "sync_ok (rt_queue rt)" and run: "map_of (sq_running (rt_queue rt)) = [wi_account i \<mapsto> i]"
    using ok w by (simp_all add: runtime_ok_def)
  then obtain q where q: "complete i r (rt_queue rt) = Inr q" using complete_iff(1) [OF s, of i r] by auto
  then show ?thesis using complete_ok [OF q s] run w' by (auto simp: book_result_def runtime_ok_def)
qed

lemma sync_step_ok: "sync_step cfg rt rt' \<Longrightarrow> runtime_ok rt \<Longrightarrow> runtime_ok rt'"
proof (induction rule: sync_step.induct)
  case (launch rt)
  then show ?case by (simp add: start_sync_def runtime_ok_def)
next
  case (cancel rt env)
  then show ?case using book_ok [of rt] by (cases "rt_worker rt") (auto simp: stop_sync_def runtime_ok_def)
next
  case (scan rt now)
  then show ?case using enqueue_accounts_ok
    by (fastforce simp: sync_run_once_def split: option.split sum.split)
next
  case (take rt) then show ?case by (rule take_ok)
next
  case (finish rt env)
  then show ?case using book_ok [of rt] by (cases "rt_worker rt") (auto simp: worker_finish_def case_prod_beta)
next
  case (request rt aid uid wait)
  then show ?case using enqueue_account_ok
    by (fastforce simp: sync_resources_def split: sum.split enqueue_answer.split)
next
  case (request_all rt uid)
  then show ?case using enqueue_accounts_ok
    by (fastforce simp: sync_all_resources_def Let_def split: sum.split)
next
  case (login aid uid rt rt' s) then show ?case using enqueue_account_ok by blast
next
  case (others rt t) then show ?case by (simp add: runtime_ok_def)
qed

lemma runtime_reached_ok: "(sync_step cfg)\<^sup>*\<^sup>* (new_runtime t) rt \<Longrightarrow> runtime_ok rt"
proof (induction rule: rtranclp_induct)
  case base
  show ?case by (simp add: runtime_ok_def new_runtime_def new_queue_ok) (simp add: new_queue_def)
next
  case (step rt rt')
  then show ?case using sync_step_ok by blast
qed

text \<open>
  C28: In every reachable runtime the accounts are synchronised one at a time: the running account
  is the one of the worker, the end of its run frees it and keeps the worker alive, and a worker
  that listens takes the first waiting account.
\<close>

theorem accounts_are_synchronised_one_at_a_time:
  assumes "(sync_step cfg)\<^sup>*\<^sup>* (new_runtime t) rt"
  shows "case rt_worker rt of
      Working i \<Rightarrow> map_of (sq_running (rt_queue rt)) = [wi_account i \<mapsto> i]
        \<and> rt_worker (worker_finish env rt) = Listening \<and> map_of (sq_running (rt_queue (worker_finish env rt))) = Map.empty
        \<and> get_status (wi_account i) (rt_queue (worker_finish env rt)) \<notin> {StatusIdle, StatusQueued, StatusRunning}
    | Listening \<Rightarrow> map_of (sq_running (rt_queue rt)) = Map.empty
        \<and> rt_worker (worker_take rt) = (case waiting (rt_queue rt) of [] \<Rightarrow> Listening | i # _ \<Rightarrow> Working i)
    | Stopped \<Rightarrow> map_of (sq_running (rt_queue rt)) = Map.empty"
proof -
  have ok: "runtime_ok rt" by (rule runtime_reached_ok [OF assms])
  then have s: "sync_ok (rt_queue rt)" by (simp add: runtime_ok_def)
  show ?thesis
  proof (cases "rt_worker rt")
    case Stopped
    then show ?thesis using ok by (simp add: runtime_ok_def)
  next
    case Listening
    then show ?thesis using ok get_item_waiting [OF s]
      by (auto simp: runtime_ok_def worker_take_def case_prod_beta split: list.splits)
  next
    case (Working i)
    obtain t' r where e: "execute_account_sync env i (rt_tables rt) = (t', r)" by (cases "execute_account_sync env i (rt_tables rt)")
    have run: "map_of (sq_running (rt_queue rt)) = [wi_account i \<mapsto> i]" using ok Working by (simp add: runtime_ok_def)
    then obtain q where q: "complete i r (rt_queue rt) = Inr q" using complete_iff(1) [OF s, of i r] by auto
    have fin: "worker_finish env rt = rt\<lparr>rt_tables := t', rt_queue := q, rt_worker := Listening\<rparr>"
      using Working e q by (simp add: worker_finish_def book_result_def)
    have empty: "map_of (sq_running q) = Map.empty" using complete_ok [OF q s] run by simp
    have "get_status (wi_account i) q \<notin> {StatusIdle, StatusQueued, StatusRunning}"
      using q s
    proof (cases rule: completeE)
      case (1 f)
      have "map_of (sq_queued (rt_queue rt)) (wi_account i) = None"
        using s 1(1) unfolding sync_ok_def running_ok_def by blast
      moreover have "sq_queued q = sq_queued (rt_queue rt)" "map_of (sq_futures q) (wi_account i) = Some f"
        "sq_results q ! f = Some r" using 1 by simp_all
      ultimately show ?thesis using empty by (simp add: get_status_def)
    qed
    then show ?thesis using Working run fin empty by simp
  qed
qed

definition sample_tables :: tables where
  "sample_tables = ((empty_db (\<lambda>_. ''x''))\<lparr>accounts := [\<lparr>a_id = ''a'', a_user = 7, a_tg = Some 70, a_username = None,
     a_first_name = None, a_phone = None, a_proxy = None, a_active = True, a_banned = False, a_health = Online,
     a_flooding = False, a_flood_until = None, a_reauth = False, a_reauth_reason = None, a_reauth_at = None,
     a_obs_started = None, a_obs_until = None, a_obs_count = 0, a_weight = 100, a_sent = 0, a_last_used = None,
     a_created = 0\<rparr>]\<rparr>, [])"

definition sample_runtime :: sync_runtime where
  "sample_runtime = worker_take (fst (sync_resources ''a'' 7 False (start_sync (new_runtime sample_tables))))"

theorem accounts_are_synchronised_one_at_a_time_witness:
  "\<exists>i. rt_worker sample_runtime = Working i \<and> wi_account i = ''a''
    \<and> map_of (sq_running (rt_queue sample_runtime)) = [wi_account i \<mapsto> i]"
proof -
  have "(sync_step cfg)\<^sup>*\<^sup>* (new_runtime sample_tables) sample_runtime" for cfg
    unfolding sample_runtime_def
    by (rule rtranclp.rtrancl_into_rtrancl [OF rtranclp.rtrancl_into_rtrancl [OF
        rtranclp.rtrancl_into_rtrancl [OF rtranclp.rtrancl_refl]]]) (rule sync_step.launch sync_step.request sync_step.take)+
  from accounts_are_synchronised_one_at_a_time [OF this]
  have "case rt_worker sample_runtime of Working i \<Rightarrow> map_of (sq_running (rt_queue sample_runtime)) = [wi_account i \<mapsto> i] | _ \<Rightarrow> True"
    by (auto split: sync_worker.splits)
  moreover have "case rt_worker sample_runtime of Working i \<Rightarrow> wi_account i = ''a'' | _ \<Rightarrow> False" by code_simp
  ultimately show ?thesis by (auto split: sync_worker.splits)
qed

section \<open>The timer\<close>

lemma sorted_firsts: "sorted (map f xs) \<Longrightarrow> sorted (map (fst \<circ> f) xs)"
  for f :: "'a \<Rightarrow> 'b::linorder \<times> 'c::linorder"
proof (induction xs)
  case (Cons x xs)
  have "fst p \<le> fst q" if "p \<le> q" for p q :: "'b \<times> 'c" using that by (auto simp: less_eq_prod_def)
  then show ?case using Cons by simp
qed simp

text \<open>
  C29: Without a limit the statement of the scan selects exactly the accounts that the predicate of
  the same file admits, for the same tables and time; a limit takes the first of them, those that
  were never synchronised before the others, in the order of their last synchronisation.
\<close>

theorem scan_selects_what_the_predicate_admits:
  shows "mset (auto_timer_candidates (now - hours 24) skip 0 t)
      = mset (filter (\<lambda>a. should_enqueue_auto_timer_sync a (latest_resource_sync (a_id a) (snd t)) now skip) (accounts (fst t)))
    \<and> sorted (map (\<lambda>a. (case latest_resource_sync (a_id a) (snd t) of None \<Rightarrow> (0::int, 0) | Some x \<Rightarrow> (1, x)))
        (auto_timer_candidates (now - hours 24) skip 0 t))
    \<and> limit_auto_timer_candidates cfg (load_auto_timer_candidates cfg now t)
      = (if st_limit cfg < 0 then None
         else Some (if st_limit cfg = 0 then auto_timer_candidates (now - hours 24) (st_skip_proxy cfg) 0 t
                    else take (nat (st_limit cfg)) (auto_timer_candidates (now - hours 24) (st_skip_proxy cfg) 0 t)))"
proof -
  let ?last = "\<lambda>a. case latest_resource_sync (a_id a) (snd t) of None \<Rightarrow> (0::int, 0) | Some x \<Rightarrow> (1, x)"
  let ?key = "\<lambda>a. (case latest_resource_sync (a_id a) (snd t) of None \<Rightarrow> (0::int, 0) | Some x \<Rightarrow> (1, x), a_id a)"
  have admits: "(a_active a \<and> \<not> a_banned a \<and> \<not> a_reauth a \<and> a_health a = Online
      \<and> (latest = None \<or> the latest \<le> now - hours 24) \<and> (skip \<longrightarrow> a_proxy a = None))
    \<longleftrightarrow> should_enqueue_auto_timer_sync a latest now skip" for a latest
    by (auto simp: should_enqueue_auto_timer_sync_def split: option.split)
  have rows: "auto_timer_candidates (now - hours 24) skip 0 t
      = sort_key ?key (filter (\<lambda>a. should_enqueue_auto_timer_sync a (latest_resource_sync (a_id a) (snd t)) now skip) (accounts (fst t)))"
    by (simp add: auto_timer_candidates_def admits Let_def cong: filter_cong)
  have firsts: "sorted (map ?last xs)" if "sorted (map ?key xs)" for xs :: "account list"
    using sorted_firsts [OF that] by (simp add: comp_def)
  have "sorted (map ?last (auto_timer_candidates (now - hours 24) skip 0 t))"
    unfolding rows by (rule firsts) (rule sorted_sort_key)
  moreover have "auto_timer_candidates c k n t = take (nat n) (auto_timer_candidates c k 0 t)" if "0 < n" for c k n
    using that by (simp add: auto_timer_candidates_def Let_def)
  then have "limit_auto_timer_candidates cfg (load_auto_timer_candidates cfg now t)
      = (if st_limit cfg < 0 then None
         else Some (if st_limit cfg = 0 then auto_timer_candidates (now - hours 24) (st_skip_proxy cfg) 0 t
                    else take (nat (st_limit cfg)) (auto_timer_candidates (now - hours 24) (st_skip_proxy cfg) 0 t)))"
    by (auto simp: limit_auto_timer_candidates_def load_auto_timer_candidates_def)
  moreover have "mset (auto_timer_candidates (now - hours 24) skip 0 t)
      = mset (filter (\<lambda>a. should_enqueue_auto_timer_sync a (latest_resource_sync (a_id a) (snd t)) now skip) (accounts (fst t)))"
    unfolding rows by (rule mset_sort)
  ultimately show ?thesis by blast
qed

text \<open>
  A failed synchronisation of the timer changes the accounts only as far as opening the
  clients did: unlike that of a user, it does not mark the account offline.
\<close>

theorem timer_failures_keep_the_health:
  assumes "sync_account_snapshot env aid trigger t = (t', Synced r)" "\<not> sr_profile_ok r"
    "get_account aid (fst t) = Some a" "a_active a"
  shows "fst t' = (if trigger = trigger_timer then fst (se_client env aid (fst t))
      else upd_account aid (\<lambda>a. a\<lparr>a_health := Offline\<rparr>) (fst (se_client env aid (fst t)))) \<and> snd t' = snd t"
  using assms
  by (auto simp: sync_account_snapshot_def sync_connected_snapshot_def sync_profile_def Let_def
      mark_offline_for_sync_failure_def case_prod_beta split: client_answer.splits me_answer.splits
      option.splits sum.splits prod.splits if_splits)

definition down_env :: sync_env where
  "down_env = \<lparr>se_client = (\<lambda>aid d. (d, Client)), se_again = (\<lambda>aid d. (d, Client)), se_readable = (\<lambda>_. True),
     se_me = (\<lambda>_. MeTimeout), se_dialogs = (\<lambda>_. Dialogs [])\<rparr>"

theorem timer_failures_keep_the_health_witness:
  "fst (fst (sync_account_snapshot down_env ''a'' trigger_timer sample_tables)) = fst (se_client down_env ''a'' (fst sample_tables))"
proof -
  have "map_option a_active (get_account ''a'' (fst sample_tables)) = Some True" by code_simp
  then obtain a where a: "get_account ''a'' (fst sample_tables) = Some a" "a_active a" by auto
  then have s: "sync_account_snapshot down_env ''a'' trigger_timer sample_tables
      = (sample_tables, Synced (failed_result ''a'' (Some a) trigger_timer ''<profile timeout>''))"
    by (simp add: sync_account_snapshot_def sync_connected_snapshot_def sync_profile_def down_env_def
        mark_offline_for_sync_failure_def Let_def)
  have "\<not> sr_profile_ok (failed_result ''a'' (Some a) trigger_timer ''<profile timeout>'')" by (simp add: failed_result_def)
  from conjunct1 [OF timer_failures_keep_the_health [OF s this a], unfolded if_P [OF refl]]
  show ?thesis unfolding s fst_conv .
qed

section \<open>Chats\<close>

text \<open>
  C30: In every history of the table, a synchronisation of an account whose dialogs name no peer
  twice makes the active rows of the account exactly those of its usable dialogs, with the values
  of the dialogs; rows keep their keys and peers, and other accounts their rows. If a peer comes
  twice it changes nothing and reports an error.
\<close>

theorem full_sync_mirrors_the_dialogs:
  shows "let rows = resources_after es; rows' = fst (full_sync aid (Inr ds) rows) in
    if distinct (map use_id (usable ds))
    then filter (\<lambda>r. rs_account r \<noteq> aid) rows' = filter (\<lambda>r. rs_account r \<noteq> aid) rows
      \<and> set (map rs_peer (filter (\<lambda>r. rs_account r = aid \<and> rs_active r) rows')) = set (map use_id (usable ds))
      \<and> list_all (\<lambda>u. \<exists>k. get_resource aid (use_id u) rows' = Some ((use_data aid u)\<lparr>rs_id := k\<rparr>)) (usable ds)
      \<and> map (\<lambda>r. (rs_id r, rs_account r, rs_peer r)) (take (length rows) rows')
        = map (\<lambda>r. (rs_id r, rs_account r, rs_peer r)) rows
    else full_sync aid (Inr ds) rows = (rows, no_counts ''<duplicate peer>'')"
proof -
  let ?rows = "resources_after es" and ?us = "usable ds"
  have ok: "resources_ok ?rows" by (rule resources_after_ok)
  show ?thesis
  proof (cases "distinct (map use_id ?us)")
    case False
    then show ?thesis using full_sync_outcome [OF ok, of ds aid] by simp
  next
    case True
    define rows' where "rows' = map (renewed aid ?us) ?rows @ number_rows (next_resource_id ?rows)
      (map (use_data aid) (filter (\<lambda>u. match (filter (\<lambda>r. rs_account r = aid) ?rows) u = None) ?us))"
    have rows': "fst (full_sync aid (Inr ds) ?rows) = rows'"
      using full_sync_outcome [OF ok, of ds aid] True by (simp add: rows'_def)
    have "filter (\<lambda>r. rs_account r \<noteq> aid) rows' = filter (\<lambda>r. rs_account r \<noteq> aid) ?rows"
      unfolding rows'_def by (rule renewed_others)
    moreover have "set (map rs_peer (filter (\<lambda>r. rs_account r = aid \<and> rs_active r) rows')) = set (map use_id ?us)"
      unfolding rows'_def by (rule renewed_peers [OF ok True])
    moreover have "list_all (\<lambda>u. \<exists>k. get_resource aid (use_id u) rows' = Some ((use_data aid u)\<lparr>rs_id := k\<rparr>)) ?us"
      using get_renewed [OF ok True, of _ aid] unfolding rows'_def list_all_iff by blast
    moreover have "map (\<lambda>r. (rs_id r, rs_account r, rs_peer r)) (take (length ?rows) rows')
        = map (\<lambda>r. (rs_id r, rs_account r, rs_peer r)) ?rows"
      by (simp add: rows'_def)
    ultimately show ?thesis unfolding Let_def rows' if_P [OF True] by blast
  qed
qed

text \<open>
  An exception without a text, such as a bare \<open>TimeoutError\<close>, is lost: the synchronisation of the
  chats counts as a success.
\<close>

lemma silent_failure_counts_as_success:
  assumes "snd (se_again env aid (fst t)) = Client" "se_dialogs env aid = DialogsRaised []"
  shows "sync_account_resources env aid t = ((fst (se_again env aid (fst t)), snd t), Some (Inr (True, 0, None)))"
  using assms by (simp add: sync_account_resources_def full_sync_def no_counts_def case_prod_beta)

text \<open>
  A basic group has no access hash, and without one no peer is built, although \<open>InputPeerChat\<close>
  needs none: a target that is a basic group is never resolved from the table.
\<close>

lemma basic_groups_are_never_resolved:
  assumes "get_resource aid pid rows = Some r" "rs_hash r = None"
  shows "get_input_peer aid pid ''chat'' None rows = None"
  using assms by (simp add: get_input_peer_def)

end
