(* ===== verification/Spec2Isabelle.thy ===== *)
theory Spec2Isabelle
  imports RunnerProps IssueProps LicensingProps QueueProps WorkerProps TaskProps CaptureProps PanelProps
    AppProps ProxyProps SyncProps
begin

text \<open>
  A verification library for the backend of \<open>tg-auto-msg\<close>, a service that sends scheduled
  messages from the Telegram accounts of its users. All file names are relative to
  \<open>src/backend/\<close>.

  \<^bold>\<open>The program.\<close> A user keeps tasks (text or media, a list of targets, an interval) in a web page
  (\<open>h5_backend/services/task/\<close>). A producer puts the tasks that are due into a Redis sorted set,
  consumers claim them, take a processing lock and run them (\<open>scheduler/core/worker.py\<close>,
  \<open>queue_ops.py\<close>). A run (\<open>scheduler/core/task_runner.py\<close>, \<open>task_execution.py\<close>) checks the task,
  its account and its licence, waits for the rate limiter (\<open>bot/safety/rate_limiter.py\<close>), sends
  to every target through the circuit breaker of the account (\<open>bot/circuit/breaker.py\<close>), files
  each failure as an issue of the target (\<open>task_issue_*.py\<close>) and plans the next run
  (\<open>task_lifecycle.py\<close>). Licences are cards and trials that give a user one authorization
  (\<open>h5_backend/services/licensing/service.py\<close>). The media of a task is captured by replying to
  a prompt of the Bot (\<open>task_media/\<close>). Cards are sold by a tree of agents in the back office
  (\<open>h5_backend/services/admin_panel/\<close>): an agent generates batches of cards from its balance or on
  credit, the debt of a batch is settled level by level up to the top, and every operation needs
  a permission of a role (\<open>admin_rbac/service.py\<close>). An account talks to Telegram with the
  credentials of a developer app, chosen when it logs in from a pool whose apps are probed
  (\<open>bot/developer_apps/service.py\<close>), and possibly through a proxy (\<open>bot/proxy/\<close>). Its profile and
  its chats are synchronised by a timer, at logins and on request (\<open>h5_backend/services/account/\<close>,
  \<open>bot/resources/\<close>).

  \<^bold>\<open>The model.\<close> The database is one record of tables (\<open>Schema\<close>), lists of rows in the order of
  insertion; a session is a function on it, and one that raises leaves it as it was. What is
  outside - clock, Redis, Telegram, random numbers, files - is a record of operations on an
  abstract state \<open>'x\<close> (\<open>tg_ops\<close> in \<open>World\<close>, extended by \<open>queue_ops\<close> and \<open>worker_ops\<close>;
  \<open>gateway\<close> in \<open>Capture\<close>); properties that need its documented behaviour name it as a
  hypothesis (\<open>clock_forward\<close>, \<open>sleep_elapses\<close>, \<open>sorted_set_laws\<close>, \<open>lock_laws\<close>), and
  \<open>SampleWorld\<close> and \<open>SampleWorker\<close> give a small concrete world that satisfies them and runs the
  examples. Exceptions are values: \<open>exn + 'a\<close> for Python exceptions, \<open>http_error + 'a\<close> for
  HTTP answers, where an exception no handler expects is the answer 500. Integers are Python's,
  datetimes microseconds. A fixed Chinese text is an ASCII tag in angle brackets.

  \<^bold>\<open>The theories.\<close>
  \<^item> \<open>Prelude\<close> Python strings, JSON values and dictionaries, rows of a table, first-match loops.
  \<^item> \<open>Schema\<close> the tables (\<open>database/schema/\<close>).
  \<^item> \<open>Issues\<close>, \<open>IssueFacts\<close>, \<open>IssueProps\<close> targets and their delivery metadata, classification of
    send errors, issue rows. The locale \<open>item_update\<close> is the contract of an update of one target
    that keeps its identity, \<open>delivery_update\<close> extends it with the decision to suspend; the
    updates of the code are its interpretations.
  \<^item> \<open>Observation\<close>, \<open>Lifecycle\<close>, \<open>Contract\<close> the observation window of a new proxy, the effects of a
    run on its task, message lengths and media classes.
  \<^item> \<open>Licensing\<close>, \<open>LicensingFacts\<close>, \<open>LicensingProps\<close> authorizations, cards, trials;
    \<open>CardAdmin\<close> what the back office does to single cards and plans (\<open>h5_backend/services/admin/\<close>), and
    the runs of all operations that touch cards.
  \<^item> \<open>World\<close>, \<open>Breaker\<close>, \<open>RateLimit\<close>, \<open>Sending\<close>, \<open>Runner\<close> a run of a task, composed as the code
    composes it in \<open>execute_task_once\<close>; \<open>Forward\<close> (the clock), \<open>RunnerFacts\<close> (what a run may
    change), \<open>Delivery\<close> (the send loop), \<open>Execution\<close> (the whole run) and \<open>RunnerProps\<close>
    prove it.
  \<^item> \<open>Queue\<close>, \<open>QueueProps\<close> the sorted set and its refinement of a map from ids to times, with the runs
    \<open>queue_run\<close> of scans and claims in any order; \<open>Worker\<close>, \<open>Fleet\<close>, \<open>WorkerProps\<close> the consumers: \<open>Fleet\<close> is
    a step relation of any number of workers whose steps the detailed \<open>execute_task_from_queue\<close> is
    shown to take, as are those of \<open>recover_runtime_state\<close>, which deletes the locks of all workers
    when one starts: the jobs that lose their locks this way are marked.
  \<^item> \<open>Payload\<close>, \<open>TaskService\<close> the task requests; \<open>Columns\<close> the locale \<open>column\<close>, what writing one
    column does to a row, interpreted for every column the properties mention; \<open>TaskFacts\<close>
    normalization and validation; \<open>TaskCreate\<close>, \<open>TaskUpdate\<close>, \<open>TaskRequests\<close> creations, updates,
    sequences of requests; \<open>TaskProps\<close>.
  \<^item> \<open>Capture\<close>, \<open>CaptureFlow\<close> the media captures, session by session, and their step relation;
    \<open>CaptureFacts\<close> its moves and invariant; \<open>CaptureProps\<close>, with the locale \<open>revision_writer\<close> of the
    compare-and-swap on the revision, interpreted for the three writers of a task.

  \<^item> \<open>Panel\<close>, \<open>Rbac\<close>, \<open>Hierarchy\<close>, \<open>Batches\<close>, \<open>Settlement\<close>, \<open>PanelRequests\<close> the tables of the back
    office, its roles, the tree of agents, batches with their credit, settlements and recharges,
    and the requests with their payload constraints and permissions; a run is a list of
    requests and restarts. \<open>Books\<close>, \<open>BookFacts\<close> what the accounting promises, without the
    database: a step relation on accounts, links, debts and postings, and its invariant.
    \<open>PanelBooks\<close>, \<open>PanelMoney\<close>, \<open>PanelCredit\<close> the locale \<open>ledgered\<close>: an operation is a sequence of
    those steps; it is interpreted for every request and for a restart. \<open>PanelTree\<close>, \<open>PanelFacts\<close>,
    \<open>PanelSettle\<close>, \<open>PanelCards\<close>, \<open>RbacFacts\<close>, \<open>RbacRoles\<close>, \<open>PanelScope\<close> what follows for the rows;
    \<open>SamplePanel\<close> a small kept database; \<open>PanelProps\<close>.
  \<^item> \<open>Apps\<close>, \<open>AppHealth\<close>, \<open>AppLogin\<close> the pool of developer apps: settings, the choice of an app,
    credentials and administration; probes, migration and recovery of accounts; the account of a
    confirmed login, and the sessions of the pool as a step relation. \<open>AppFacts\<close> the choice
    against a shorter reference \<open>choose_app\<close>, \<open>AppRuns\<close> a migration as a relation with its own
    induction rule, \<open>AppSteps\<close> the invariant of the pool and its preservation by every session,
    \<open>AppFair\<close> the turns of new accounts, each a login from its start to the account, and the failure
    counts; \<open>AppProps\<close>.
  \<^item> \<open>ProxyPool\<close> the rows of the proxies, their assignment, probes and cache, and the requests of
    users; \<open>ProxyFacts\<close> the invariant of their holders, with one change of a proxy that the
    assignment, the release and the choice of a gateway are instances of; \<open>ProxyProps\<close> one session
    after the other of everybody: the check before a connection and a health check are several
    sessions, with an arbitrary \<open>gap\<close> between each two, and a history of probes says what the cache
    of their answers stands for.
  \<^item> \<open>SyncQueue\<close> the priority queue of the synchronisations over the locale \<open>priority_queue\<close>;
    \<open>SyncFacts\<close> its refinement of an agenda, \<open>SyncOrder\<close> who is served when and what waiters get.
    \<open>Resources\<close> the chats of an account and their full synchronisation, \<open>ResourceFacts\<close> what it
    makes of the rows; \<open>AccountSync\<close> the snapshot of an account, the timer, the worker and the
    requests, with the step relation \<open>sync_step\<close>; \<open>SyncProps\<close>.

  \<^bold>\<open>The lemmas\<close> show: every run returns and leaves its task planned, gone or disabled, books every
  target once and never sends outside its locks, observation budget or plan; suspensions of
  targets are decided by the error class and lifted by success; one authorization and one
  active account per user, cards and trials used once; queued tasks are claimed in time and
  once, and two workers run the same task only after a time-out or a start of a worker; requests keep every stored task well formed,
  shortcuts distinct and revisions a total order of writes; at most one capture of a task is
  active and a capture follows its state diagram, except that opening the link of an expired one
  marks any capture as expired; the ledger explains every balance and debt of
  the agents, whatever the requests, debts are those of the pending batches below an account,
  settlements lack nothing but money, and an agent stays within its subtree; an account is given an
  app with room and health or none at all, a failing app loses every account another app can
  take, and two failed probes make an app fail; a proxy has one holder, users change only their
  own unless they choose a gateway, and a connection uses a proxy that answered less than a
  minute ago or none; accounts are synchronised one at a
  time in the order of an agenda, those who wait get the result of the next run, and the chats
  mirror the dialogs.

  \<^bold>\<open>Loops.\<close> The waiting for a send slot, the scan that clears the processing locks and the search
  for free card codes are \<open>partial_function (option)\<close>: \<open>None\<close> would be a loop that never ends. The
  first is shown to end under \<open>sleep_elapses\<close>, because a round sleeps at least as long as asked
  and the time-out is fixed; the third under \<open>never_dry\<close>, as long as the random codes bring a new
  one again and again; of the second only the results it returns are used. There is no fuel.

  \<^bold>\<open>Not modelled.\<close> The rendering of Telegram messages and keyboards (\<open>bot/handlers\<close>, \<open>bot/ui\<close>,
  \<open>bot/onboarding\<close>), the notices, the HTTP routing, the login dialogue and the client sessions
  of Telethon, encryption, schema migrations and the listings, exports and logs of the back
  office: they are input and output around libraries. Not modelled either: the edits of
  users, proxies and plans by the staff, the cache of connected clients and the lengths of the
  columns of the chats.

  \<^bold>\<open>Interleavings\<close> of the database are at the granularity of sessions: each is taken as atomic. Where
  the code locks the rows it changes - captures, revisions of tasks - this is what the locks do. The
  activation of a card reads the card without a lock; there the unique index over the cards of
  \<open>user_authorization_cards\<close> stops the second of two concurrent activations, and the model checks it.
  Other sessions take neither: the assignment of a proxy (\<open>bot/proxy/ops.py\<close>), the shortcut checks of two
  concurrent creations and the balances of the back office. So the properties about holders of
  proxies hold for sessions one after the other, those of shortcuts and of the books for requests
  served one after the other. A login chooses its app in a session of its own; in the turns of
  round robin no other login comes between this choice and the account. The probes of all proxies are taken
  one after the other, which writes the same rows and cache entries as the code, that starts them
  together. A null for a column with a default takes the default when a task is created, as the
  ORM does, and is stored or refused when it is updated.
\<close>

end
